(* ===== verification/Prelude.thy ===== *)
theory Prelude
  imports Complex_Main
begin

text \<open>
  Shared vocabulary of the development: the errors the services throw, results that
  carry them, the JavaScript values that reach a guard (strings, numbers), and the
  list lemmas the component theories share.

  \<^item> \<open>app_error\<close> is \<open>AppError\<close> of backend/src/utils/AppError.js with its status, its
    code and the path of its first detail; the human-readable message and the metadata are left
    out. \<open>Type_Error\<close> is a \<open>TypeError\<close>, with the name of the offending argument;
    \<open>Database_Error\<close> an error of the database driver that the code lets through, with its kind.
  \<^item> \<open>jsnum\<close> is a JavaScript number at a validation boundary: \<open>Fin r\<close> a finite one, and
    the three values that are not finite. Doubles are modelled by exact rationals.
  \<^item> Strings are ASCII strings, so \<open>length\<close> is the length the code reads and upper-casing
    is the ASCII one.
\<close>

subsection \<open>Errors and results\<close>

datatype app_error =
    App_Error (err_status: nat) (err_code: string) (err_path: string)
  | Type_Error string
  | Database_Error string

type_synonym 'a res = "app_error + 'a"

named_theorems res_simps "unfolding of the result combinators"
named_theorems guard_dests "what a passed guard says"

definition bindE :: "'a res \<Rightarrow> ('a \<Rightarrow> 'b res) \<Rightarrow> 'b res" where
  "bindE m f = (case m of Inl e \<Rightarrow> Inl e | Inr a \<Rightarrow> f a)"

definition ensure :: "bool \<Rightarrow> app_error \<Rightarrow> unit res" where
  "ensure b e = (if b then Inr () else Inl e)"

fun mapE :: "('a \<Rightarrow> 'b res) \<Rightarrow> 'a list \<Rightarrow> 'b list res" where
  "mapE f [] = Inr []"
| "mapE f (x # xs) = bindE (f x) (\<lambda>y. bindE (mapE f xs) (\<lambda>ys. Inr (y # ys)))"

lemma bindE_simps [simp, res_simps]:
  "bindE (Inl e) f = Inl e"
  "bindE (Inr a) f = f a"
  by (simp_all add: bindE_def)

lemma bindE_Inr_iff [res_simps]: "bindE m f = Inr b \<longleftrightarrow> (\<exists>a. m = Inr a \<and> f a = Inr b)"
  by (cases m) auto

lemma bindE_Inl_iff [res_simps]:
  "bindE m f = Inl e \<longleftrightarrow> m = Inl e \<or> (\<exists>a. m = Inr a \<and> f a = Inl e)"
  by (cases m) auto

lemma ensure_Inr_iff [simp, res_simps]: "ensure b e = Inr u \<longleftrightarrow> b"
  by (simp add: ensure_def)

lemma ensure_Inl_iff [simp, res_simps]: "ensure b e = Inl e' \<longleftrightarrow> \<not> b \<and> e' = e"
  by (auto simp: ensure_def)

lemma ensure_simps [simp]: "ensure True e = Inr ()" "ensure False e = Inl e"
  by (simp_all add: ensure_def)

lemma mapE_cong [fundef_cong]:
  "xs = ys \<Longrightarrow> (\<And>x. x \<in> set ys \<Longrightarrow> f x = g x) \<Longrightarrow> mapE f xs = mapE g ys"
  by (induction xs arbitrary: ys) (auto simp: bindE_def split: sum.split)

lemma mapE_Inr_iff: "mapE f xs = Inr ys \<longleftrightarrow> list_all2 (\<lambda>x y. f x = Inr y) xs ys"
  by (induction xs arbitrary: ys) (auto simp: bindE_Inr_iff list_all2_Cons1)

lemma mapE_length: "mapE f xs = Inr ys \<Longrightarrow> length ys = length xs"
  by (induction xs arbitrary: ys) (auto simp: bindE_Inr_iff)

lemma mapE_all: "mapE f xs = Inr ys \<Longrightarrow> (\<And>x y. f x = Inr y \<Longrightarrow> P y) \<Longrightarrow> \<forall>y\<in>set ys. P y"
  by (induction xs arbitrary: ys) (auto simp: bindE_Inr_iff)

lemma mapE_nth: "mapE f xs = Inr ys \<Longrightarrow> i < length xs \<Longrightarrow> f (xs ! i) = Inr (ys ! i)"
  by (induction xs arbitrary: ys i) (auto simp: bindE_Inr_iff nth_Cons split: nat.splits)

subsection \<open>JavaScript numbers\<close>

datatype jsnum = Fin rat | Pos_Infinity | Neg_Infinity | NaN

definition num_of_int :: "int \<Rightarrow> jsnum" where
  "num_of_int i = Fin (of_int i)"

text \<open>\<open>Number.isInteger(x)\<close>, with the integer it found.\<close>

fun js_integer :: "jsnum \<Rightarrow> int option" where
  "js_integer (Fin r) = (if snd (quotient_of r) = 1 then Some (fst (quotient_of r)) else None)"
| "js_integer _ = None"

text \<open>\<open>Number.isFinite(x)\<close>, with the rational it found.\<close>

fun js_finite :: "jsnum \<Rightarrow> rat option" where
  "js_finite (Fin r) = Some r"
| "js_finite _ = None"

lemma js_integer_of_int [simp]: "js_integer (num_of_int i) = Some i"
  by (simp add: num_of_int_def)

lemma js_integer_Some: "js_integer x = Some i \<Longrightarrow> x = num_of_int i"
proof (cases x)
  case (Fin r)
  assume "js_integer x = Some i"
  with Fin have "quotient_of r = (i, 1)"
    by (cases "quotient_of r") (auto split: if_splits)
  from quotient_of_div [OF this] have "r = of_int i" by simp
  with Fin show ?thesis by (simp add: num_of_int_def)
qed auto

text \<open>The comparison \<open><=\<close> and \<open>Math.max\<close>; a comparison with \<open>NaN\<close> is false.\<close>

fun js_le :: "jsnum \<Rightarrow> jsnum \<Rightarrow> bool" where
  "js_le NaN _ = False"
| "js_le _ NaN = False"
| "js_le Neg_Infinity _ = True"
| "js_le _ Pos_Infinity = True"
| "js_le (Fin a) (Fin b) = (a \<le> b)"
| "js_le _ _ = False"

definition js_max :: "jsnum \<Rightarrow> jsnum \<Rightarrow> jsnum" where
  "js_max a b = (if a = NaN \<or> b = NaN then NaN else if js_le a b then b else a)"

text \<open>\<open>Number(v || 0)\<close> for a number that may be missing.\<close>

definition num_or_zero :: "jsnum option \<Rightarrow> jsnum" where
  "num_or_zero v = (case v of None \<Rightarrow> Fin 0 | Some x \<Rightarrow> if x = NaN then Fin 0 else x)"

text \<open>\<open>Math.round\<close>: the nearest integer, halves upwards.\<close>

definition js_round :: "rat \<Rightarrow> int" where
  "js_round r = \<lfloor>r + 1 / 2\<rfloor>"

lemma js_round_mono: "r \<le> s \<Longrightarrow> js_round r \<le> js_round s"
  by (simp add: js_round_def floor_mono)

lemma js_round_of_int [simp]: "js_round (of_int i) = i"
  unfolding js_round_def by (rule floor_unique) simp_all

subsection \<open>JavaScript strings\<close>

definition char_code :: "char \<Rightarrow> nat" where
  "char_code c = of_char c"

definition is_upper :: "char \<Rightarrow> bool" where
  "is_upper c \<longleftrightarrow> 65 \<le> char_code c \<and> char_code c \<le> 90"

definition is_lower :: "char \<Rightarrow> bool" where
  "is_lower c \<longleftrightarrow> 97 \<le> char_code c \<and> char_code c \<le> 122"

definition is_digit :: "char \<Rightarrow> bool" where
  "is_digit c \<longleftrightarrow> 48 \<le> char_code c \<and> char_code c \<le> 57"

definition is_alpha :: "char \<Rightarrow> bool" where
  "is_alpha c \<longleftrightarrow> is_upper c \<or> is_lower c"

definition is_space :: "char \<Rightarrow> bool" where
  "is_space c \<longleftrightarrow> char_code c = 32 \<or> (9 \<le> char_code c \<and> char_code c \<le> 13)"

definition upper_char :: "char \<Rightarrow> char" where
  "upper_char c = (if is_lower c then char_of (char_code c - 32) else c)"

definition lower_char :: "char \<Rightarrow> char" where
  "lower_char c = (if is_upper c then char_of (char_code c + 32) else c)"

definition js_upper :: "string \<Rightarrow> string" where
  "js_upper s = map upper_char s"

definition js_lower :: "string \<Rightarrow> string" where
  "js_lower s = map lower_char s"

definition js_trim :: "string \<Rightarrow> string" where
  "js_trim s = rev (dropWhile is_space (rev (dropWhile is_space s)))"

lemmas char_class_defs =
  is_upper_def is_lower_def is_digit_def is_alpha_def is_space_def char_code_def

lemma js_trim_idem [simp]: "js_trim (js_trim s) = js_trim s"
proof -
  let ?t = "dropWhile is_space s"
  have "js_trim s = [] \<or> \<not> is_space (hd (js_trim s))"
  proof (cases "?t")
    case Nil
    then show ?thesis unfolding js_trim_def by (simp only: rev.simps dropWhile.simps simp_thms)
  next
    case (Cons c cs)
    then have c: "\<not> is_space c" by (metis hd_dropWhile list.sel(1) list.distinct(1))
    have "dropWhile is_space (rev cs @ [c]) = dropWhile is_space (rev cs) @ [c]"
      using c by (simp add: dropWhile_append3)
    with Cons c show ?thesis by (simp add: js_trim_def)
  qed
  then have "dropWhile is_space (js_trim s) = js_trim s"
    by (cases "js_trim s") auto
  then show ?thesis
    by (simp add: js_trim_def [of "js_trim s"]) (simp add: js_trim_def)
qed

text \<open>\<open>s.startsWith(p)\<close> and \<open>s.includes(p)\<close>.\<close>

fun starts_with :: "string \<Rightarrow> string \<Rightarrow> bool" where
  "starts_with s [] = True"
| "starts_with [] (p # ps) = False"
| "starts_with (c # s) (p # ps) = (c = p \<and> starts_with s ps)"

fun js_includes :: "string \<Rightarrow> string \<Rightarrow> bool" where
  "js_includes [] p = (p = [])"
| "js_includes (c # s) p = (starts_with (c # s) p \<or> js_includes s p)"

lemma starts_with_iff: "starts_with s p \<longleftrightarrow> (\<exists>t. s = p @ t)"
  by (induction s p rule: starts_with.induct) auto

lemma js_includes_iff: "js_includes s p \<longleftrightarrow> (\<exists>t u. s = t @ p @ u)"
proof (induction s)
  case (Cons c s)
  have "(\<exists>t u. c # s = t @ p @ u) \<longleftrightarrow>
        (\<exists>u. c # s = p @ u) \<or> (\<exists>t u. s = t @ p @ u)" (is "?L \<longleftrightarrow> ?R")
  proof
    assume ?L
    then obtain t u where "c # s = t @ p @ u" by blast
    then show ?R by (cases t) auto
  next
    assume ?R
    then show ?L by (metis append_Cons append_Nil)
  qed
  with Cons.IH show ?case by (auto simp: starts_with_iff)
qed auto

text \<open>A string that may be undefined or null, as the code tests it: \<open>''''\<close> is falsy too.\<close>

definition present :: "string option \<Rightarrow> bool" where
  "present v \<longleftrightarrow> v \<noteq> None \<and> v \<noteq> Some ''''"

definition or_default :: "string option \<Rightarrow> string \<Rightarrow> string" where
  "or_default v d = (if present v then the v else d)"

definition or_empty :: "string option \<Rightarrow> string" where
  "or_empty v = (case v of None \<Rightarrow> '''' | Some s \<Rightarrow> s)"

lemma present_simps [simp]: "\<not> present None" "present (Some s) \<longleftrightarrow> s \<noteq> ''''"
  by (auto simp: present_def)

lemma or_default_simps [simp]:
  "or_default None d = d"
  "or_default (Some s) d = (if s = '''' then d else s)"
  by (auto simp: or_default_def)

text \<open>A pattern \<open>/^[first][rest]{0,n}$/\<close>.\<close>

definition bounded_pattern :: "(char \<Rightarrow> bool) \<Rightarrow> (char \<Rightarrow> bool) \<Rightarrow> nat \<Rightarrow> string \<Rightarrow> bool" where
  "bounded_pattern first rest n s =
     (case s of [] \<Rightarrow> False | c # cs \<Rightarrow> first c \<and> list_all rest cs \<and> length cs \<le> n)"

lemma bounded_pattern_length: "bounded_pattern f r n s \<Longrightarrow> 0 < length s \<and> length s \<le> Suc n"
  by (auto simp: bounded_pattern_def split: list.splits)

lemma bounded_pattern_nonempty: "bounded_pattern f r n s \<Longrightarrow> s \<noteq> ''''"
  by (auto simp: bounded_pattern_def)

text \<open>The decimal numeral of an index in a template string.\<close>

fun nat_str :: "nat \<Rightarrow> string" where
  "nat_str n =
     (if n < 10 then [char_of (48 + n)] else nat_str (n div 10) @ [char_of (48 + n mod 10)])"

declare nat_str.simps [simp del]

subsection \<open>Lists\<close>

text \<open>\<open>[...new Set(xs)]\<close>: the first occurrence of every element, in order.\<close>

fun unique_list :: "'a list \<Rightarrow> 'a list" where
  "unique_list [] = []"
| "unique_list (x # xs) = x # filter (\<lambda>y. y \<noteq> x) (unique_list xs)"

lemma set_unique_list [simp]: "set (unique_list xs) = set xs"
  by (induction xs) auto

lemma unique_list_Nil_iff [simp]: "unique_list xs = [] \<longleftrightarrow> xs = []"
  by (cases xs) simp_all

lemma distinct_unique_list [simp]: "distinct (unique_list xs)"
  by (induction xs) simp_all

text \<open>\<open>$push\<close> with \<open>$slice: -n\<close>: append, then keep the last \<open>n\<close>.\<close>

definition push_slice :: "nat \<Rightarrow> 'a \<Rightarrow> 'a list \<Rightarrow> 'a list" where
  "push_slice n x xs = (let ys = xs @ [x] in drop (length ys - n) ys)"

lemma push_slice_length: "length (push_slice n x xs) \<le> n"
  by (simp add: push_slice_def Let_def)

lemma push_slice_last: "0 < n \<Longrightarrow> push_slice n x xs \<noteq> [] \<and> last (push_slice n x xs) = x"
  by (simp add: push_slice_def Let_def)

lemma push_slice_short: "length xs < n \<Longrightarrow> push_slice n x xs = xs @ [x]"
  by (simp add: push_slice_def Let_def)

lemma push_slice_set: "set (push_slice n x xs) \<subseteq> insert x (set xs)"
  by (auto simp: push_slice_def Let_def dest: in_set_dropD)

subsection \<open>Sorting\<close>

text \<open>\<open>Array.prototype.sort\<close> with a comparator: the stable sort.\<close>

fun insert_by :: "('a \<Rightarrow> 'a \<Rightarrow> 'b::{linorder,zero}) \<Rightarrow> 'a \<Rightarrow> 'a list \<Rightarrow> 'a list" where
  "insert_by cmp x [] = [x]"
| "insert_by cmp x (y # ys) = (if 0 < cmp y x then x # y # ys else y # insert_by cmp x ys)"

definition sort_by :: "('a \<Rightarrow> 'a \<Rightarrow> 'b::{linorder,zero}) \<Rightarrow> 'a list \<Rightarrow> 'a list" where
  "sort_by cmp xs = fold (insert_by cmp) xs []"

lemma set_insert_by [simp]: "set (insert_by cmp x ys) = insert x (set ys)"
  by (induction ys) auto

lemma set_sort_by [simp]: "set (sort_by cmp xs) = set xs"
proof -
  have "set (fold (insert_by cmp) xs ys) = set xs \<union> set ys" for ys by (induction xs arbitrary: ys) auto
  then show ?thesis by (simp add: sort_by_def)
qed

text \<open>The result is ordered by every relation that the comparator refines.\<close>

lemma sorted_insert_by:
  assumes "\<And>x y. 0 < cmp y x \<Longrightarrow> R x y" "\<And>x y. \<not> 0 < cmp y x \<Longrightarrow> R y x" "transp R" "sorted_wrt R ys"
  shows "sorted_wrt R (insert_by cmp x ys)"
  using assms(4)
proof (induction ys)
  case (Cons y ys)
  with assms(1,2) show ?case by (auto; meson assms(1,3) transpD)
qed simp

lemma sorted_sort_by:
  assumes "\<And>x y. 0 < cmp y x \<Longrightarrow> R x y" "\<And>x y. \<not> 0 < cmp y x \<Longrightarrow> R y x" "transp R"
  shows "sorted_wrt R (sort_by cmp xs)"
proof -
  have "sorted_wrt R ys \<Longrightarrow> sorted_wrt R (fold (insert_by cmp) xs ys)" for ys
    by (induction xs arbitrary: ys) (simp_all add: sorted_insert_by [OF assms])
  then show ?thesis by (simp add: sort_by_def)
qed

end
