(* ===== verification/Document_Store.thy ===== *)
theory Document_Store
  imports Prelude
begin

text \<open>
  The document database (MongoDB through mongoose) is a service the code calls; it is not
  under src/. The operations of one of its collections are a parameter of every definition that
  uses them, a record \<open>store_ops\<close>, and the locale \<open>document_store\<close> names the documented behaviour
  the code relies on: each call acts atomically on the one document its filter's unique key
  selects, \<open>view db k\<close> is that document, and a call whose filter does not match changes nothing.
  \<open>map_store\<close> is a provider, a collection held as a finite or infinite map, that executes the
  model on concrete inputs.
\<close>

record ('k, 'd, 'db) store_ops =
  st_find_one :: "'k \<Rightarrow> ('d \<Rightarrow> bool) \<Rightarrow> 'db \<Rightarrow> 'd option"
  st_find_one_and_update :: "'k \<Rightarrow> ('d \<Rightarrow> bool) \<Rightarrow> ('d \<Rightarrow> 'd) \<Rightarrow> 'db \<Rightarrow> 'd option \<times> 'db"
  st_find_or_insert :: "'k \<Rightarrow> 'd \<Rightarrow> 'db \<Rightarrow> 'd \<times> 'db"
  st_create :: "'k \<Rightarrow> 'd \<Rightarrow> 'db \<Rightarrow> bool \<times> 'db"

text \<open>
  \<open>collection_rel R view db db'\<close>: no document of \<open>db\<close> disappears, and each moved by steps of \<open>R\<close>.
\<close>

definition collection_rel ::
  "('d \<Rightarrow> 'd \<Rightarrow> bool) \<Rightarrow> ('db \<Rightarrow> 'k \<Rightarrow> 'd option) \<Rightarrow> 'db \<Rightarrow> 'db \<Rightarrow> bool" where
  "collection_rel R view db db' \<longleftrightarrow>
     (\<forall>k d. view db k = Some d \<longrightarrow> (\<exists>d'. view db' k = Some d' \<and> R\<^sup>*\<^sup>* d d'))"

lemma collection_rel_refl [simp]: "collection_rel R view db db"
  by (auto simp: collection_rel_def)

lemma collection_rel_trans:
  assumes "collection_rel R view a b" "collection_rel R view b c"
  shows "collection_rel R view a c"
  unfolding collection_rel_def
proof (intro allI impI)
  fix k d assume "view a k = Some d"
  with assms(1) obtain d1 where d1: "view b k = Some d1" "R\<^sup>*\<^sup>* d d1"
    by (auto simp: collection_rel_def)
  with assms(2) obtain d2 where "view c k = Some d2" "R\<^sup>*\<^sup>* d1 d2"
    by (auto simp: collection_rel_def)
  with d1 show "\<exists>d'. view c k = Some d' \<and> R\<^sup>*\<^sup>* d d'" by (meson rtranclp_trans)
qed

lemma collection_relD:
  "collection_rel R view db db' \<Longrightarrow> view db k = Some d \<Longrightarrow> \<exists>d'. view db' k = Some d' \<and> R\<^sup>*\<^sup>* d d'"
  by (auto simp: collection_rel_def)

locale document_store =
  fixes S :: "('k, 'd, 'db) store_ops"
    and view :: "'db \<Rightarrow> 'k \<Rightarrow> 'd option"
  assumes find_one_miss: "view db k = None \<Longrightarrow> st_find_one S k p db = None"
    and find_one_hit:
      "view db k = Some d \<Longrightarrow> st_find_one S k p db = (if p d then Some d else None)"
    and update_miss:
      "view db k = None \<or> (view db k = Some d \<and> \<not> p d) \<Longrightarrow>
       st_find_one_and_update S k p u db = (None, db)"
    and update_hit:
      "view db k = Some d \<Longrightarrow> p d \<Longrightarrow>
       fst (st_find_one_and_update S k p u db) = Some (u d) \<and>
       view (snd (st_find_one_and_update S k p u db)) = (view db)(k \<mapsto> u d)"
    and find_or_insert_hit:
      "view db k = Some d \<Longrightarrow> st_find_or_insert S k d0 db = (d, db)"
    and find_or_insert_miss:
      "view db k = None \<Longrightarrow>
       fst (st_find_or_insert S k d0 db) = d0 \<and>
       view (snd (st_find_or_insert S k d0 db)) = (view db)(k \<mapsto> d0)"
    and create_dup: "view db k = Some d \<Longrightarrow> st_create S k d0 db = (False, db)"
    and create_new:
      "view db k = None \<Longrightarrow>
       fst (st_create S k d0 db) \<and> view (snd (st_create S k d0 db)) = (view db)(k \<mapsto> d0)"
begin

lemma update_None_iff:
  "fst (st_find_one_and_update S k p u db) = None \<longleftrightarrow>
   (\<forall>d. view db k = Some d \<longrightarrow> \<not> p d)"
proof (cases "view db k")
  case None
  then show ?thesis by (simp add: update_miss)
next
  case (Some d)
  then show ?thesis
    by (cases "p d") (use update_hit [of db k d p u] update_miss [of db k d p u] in auto)
qed

lemma update_None_unchanged:
  "st_find_one_and_update S k p u db = (None, db') \<Longrightarrow> db' = db"
proof -
  assume r: "st_find_one_and_update S k p u db = (None, db')"
  then have "\<forall>d. view db k = Some d \<longrightarrow> \<not> p d"
    using update_None_iff [of k p u db] by simp
  then have "st_find_one_and_update S k p u db = (None, db)"
    by (cases "view db k") (auto intro: update_miss)
  with r show ?thesis by simp
qed

lemma update_Some:
  assumes "st_find_one_and_update S k p u db = (Some d', db')"
  obtains d where "view db k = Some d" "p d" "d' = u d" "view db' = (view db)(k \<mapsto> d')"
proof -
  from assms have "\<not> (\<forall>d. view db k = Some d \<longrightarrow> \<not> p d)"
    using update_None_iff [of k p u db] by simp
  then obtain d where d: "view db k = Some d" "p d" by auto
  from update_hit [of db k d p u, OF d] assms have "d' = u d" "view db' = (view db)(k \<mapsto> u d)"
    by simp_all
  with d that show ?thesis by blast
qed

lemma update_frame:
  "st_find_one_and_update S k p u db = (r, db') \<Longrightarrow> k' \<noteq> k \<Longrightarrow> view db' k' = view db k'"
  by (cases r) (auto dest: update_None_unchanged elim: update_Some)

lemma find_one_Some_iff:
  "st_find_one S k p db = Some d \<longleftrightarrow> view db k = Some d \<and> p d"
  by (cases "view db k") (auto simp: find_one_miss find_one_hit)

lemma find_one_None_iff:
  "st_find_one S k p db = None \<longleftrightarrow> (\<forall>d. view db k = Some d \<longrightarrow> \<not> p d)"
  by (cases "view db k") (auto simp: find_one_miss find_one_hit)

lemma find_or_insert_view:
  "st_find_or_insert S k d0 db = (d, db') \<Longrightarrow> view db' k = Some d"
  by (cases "view db k")
    (use find_or_insert_hit [of db k _ d0] find_or_insert_miss [of db k d0] in auto)

lemma find_or_insert_frame:
  "st_find_or_insert S k d0 db = (d, db') \<Longrightarrow> k' \<noteq> k \<Longrightarrow> view db' k' = view db k'"
  by (cases "view db k")
    (use find_or_insert_hit [of db k _ d0] find_or_insert_miss [of db k d0] in auto)

lemma create_True:
  assumes "st_create S k d0 db = (True, db')"
  shows "view db k = None \<and> view db' = (view db)(k \<mapsto> d0)"
  using assms create_dup [of db k _ d0] create_new [of db k d0]
  by (cases "view db k") auto

lemma create_False:
  assumes "st_create S k d0 db = (False, db')"
  shows "db' = db \<and> (\<exists>d. view db k = Some d)"
  using assms create_dup [of db k _ d0] create_new [of db k d0]
  by (cases "view db k") auto

lemma update_collection_rel:
  assumes "st_find_one_and_update S k p u db = (r, db')"
    and "\<And>d. view db k = Some d \<Longrightarrow> p d \<Longrightarrow> R d (u d)"
  shows "collection_rel R view db db'"
proof (cases r)
  case None
  with assms(1) have "db' = db" by (simp add: update_None_unchanged)
  then show ?thesis by simp
next
  case (Some d')
  with assms(1) obtain d where "view db k = Some d" "p d" "d' = u d" "view db' = (view db)(k \<mapsto> d')"
    by (auto elim: update_Some)
  with assms(2) [of d] show ?thesis
    by (auto simp: collection_rel_def)
qed

lemma find_or_insert_collection_rel:
  assumes "st_find_or_insert S k d0 db = (d, db')"
  shows "collection_rel R view db db'"
proof (cases "view db k")
  case None
  with assms find_or_insert_miss [of db k d0] have "view db' = (view db)(k \<mapsto> d0)" by simp
  with None show ?thesis by (auto simp: collection_rel_def)
next
  case (Some e)
  with assms find_or_insert_hit [of db k e d0] show ?thesis by simp
qed

end

subsection \<open>A collection held as a map\<close>

definition map_find_one :: "'k \<Rightarrow> ('d \<Rightarrow> bool) \<Rightarrow> ('k \<Rightarrow> 'd option) \<Rightarrow> 'd option" where
  "map_find_one k p db = (case db k of None \<Rightarrow> None | Some d \<Rightarrow> if p d then Some d else None)"

definition map_find_one_and_update ::
  "'k \<Rightarrow> ('d \<Rightarrow> bool) \<Rightarrow> ('d \<Rightarrow> 'd) \<Rightarrow> ('k \<Rightarrow> 'd option) \<Rightarrow> 'd option \<times> ('k \<Rightarrow> 'd option)" where
  "map_find_one_and_update k p u db =
     (case db k of None \<Rightarrow> (None, db)
      | Some d \<Rightarrow> if p d then (Some (u d), db(k \<mapsto> u d)) else (None, db))"

definition map_find_or_insert ::
  "'k \<Rightarrow> 'd \<Rightarrow> ('k \<Rightarrow> 'd option) \<Rightarrow> 'd \<times> ('k \<Rightarrow> 'd option)" where
  "map_find_or_insert k d0 db =
     (case db k of None \<Rightarrow> (d0, db(k \<mapsto> d0)) | Some d \<Rightarrow> (d, db))"

definition map_create :: "'k \<Rightarrow> 'd \<Rightarrow> ('k \<Rightarrow> 'd option) \<Rightarrow> bool \<times> ('k \<Rightarrow> 'd option)" where
  "map_create k d0 db = (case db k of None \<Rightarrow> (True, db(k \<mapsto> d0)) | Some d \<Rightarrow> (False, db))"

definition map_store :: "('k, 'd, 'k \<Rightarrow> 'd option) store_ops" where
  "map_store =
     \<lparr>st_find_one = map_find_one, st_find_one_and_update = map_find_one_and_update,
      st_find_or_insert = map_find_or_insert, st_create = map_create\<rparr>"

lemmas map_store_defs =
  map_store_def map_find_one_def map_find_one_and_update_def map_find_or_insert_def map_create_def

interpretation map_collection: document_store map_store "\<lambda>db. db"
  by unfold_locales (auto simp: map_store_defs)

lemma map_store_is_document_store: "document_store map_store (\<lambda>db. db)"
  by unfold_locales

subsection \<open>Interference and version counters\<close>

text \<open>Between two calls of one operation other clients act: \<open>env n\<close> is what they do before the
  \<open>n\<close>-th call, and they move documents by steps of \<open>R\<close> only.\<close>

definition interferes_by :: "('d \<Rightarrow> 'd \<Rightarrow> bool) \<Rightarrow> ('db \<Rightarrow> 'k \<Rightarrow> 'd option) \<Rightarrow> (nat \<Rightarrow> 'db \<Rightarrow> 'db) \<Rightarrow> bool" where
  "interferes_by R view env \<longleftrightarrow> (\<forall>n db. collection_rel R view db (env n db))"

definition no_interference :: "nat \<Rightarrow> 'db \<Rightarrow> 'db" where
  "no_interference n db = db"

lemma no_interference_simps [simp]: "no_interference n db = db"
  by (simp add: no_interference_def)

lemma interferes_byD: "interferes_by R view env \<Longrightarrow> collection_rel R view db (env n db)"
  by (simp add: interferes_by_def)

lemma no_interference_interferes_by [simp]: "interferes_by R view no_interference"
  by (simp add: interferes_by_def)

text \<open>Every step increases the version: a document read and found again with the same version is the
  same document, so a compare-and-set on the version applies to what was read.\<close>

locale versioned =
  fixes step :: "'d \<Rightarrow> 'd \<Rightarrow> bool"
    and ver :: "'d \<Rightarrow> nat"
  assumes step_ver: "step d d' \<Longrightarrow> ver d < ver d'"
begin

lemma steps_ver: "step\<^sup>*\<^sup>* d d' \<Longrightarrow> ver d \<le> ver d'"
  by (induction rule: rtranclp_induct) (auto dest: step_ver)

lemma steps_same: "step\<^sup>*\<^sup>* d d' \<Longrightarrow> ver d' = ver d \<Longrightarrow> d' = d"
  by (erule rtranclp.cases) (simp, drule steps_ver, drule step_ver, simp)

end

locale versioned_document_store = document_store S view + versioned step ver
  for S :: "('k, 'd, 'db) store_ops" and view :: "'db \<Rightarrow> 'k \<Rightarrow> 'd option"
    and step :: "'d \<Rightarrow> 'd \<Rightarrow> bool" and ver :: "'d \<Rightarrow> nat"
begin

lemma cas_document:
  assumes "view db k = Some b" "collection_rel step view db db1" "view db1 k = Some d" "ver d = ver b"
  shows "d = b"
  using assms steps_same by (fastforce dest: collection_relD)

lemma cas_steps:
  assumes "view db k = Some b" "collection_rel step view db db1"
    and "st_find_one_and_update S k p u db1 = (r, db2)"
    and "\<And>d. p d \<Longrightarrow> ver d = ver b" "p b \<Longrightarrow> step b (u b)"
  shows "collection_rel step view db1 db2"
  using assms(3)
proof (rule update_collection_rel)
  fix d assume d: "view db1 k = Some d" "p d"
  have "d = b" using cas_document [OF assms(1,2) d(1)] assms(4) d(2) by blast
  with assms(5) d(2) show "step d (u d)" by simp
qed

lemma cas_committed:
  assumes "view db k = Some b" "collection_rel step view db db1"
    and "st_find_one_and_update S k p u db1 = (Some d', db2)" and "\<And>d. p d \<Longrightarrow> ver d = ver b"
  shows "view db1 k = Some b \<and> p b \<and> d' = u b \<and> view db2 = (view db1)(k \<mapsto> d')"
  using assms(3) by (rule update_Some) (use cas_document [OF assms(1,2)] assms(4) in blast)

end

end
