(* ===== verification/Transition_Table.thy ===== *)
theory Transition_Table
  imports Prelude "HOL-Library.Sublist"
begin

text \<open>
  The contract every state machine of the program shares: a frozen table of allowed
  transitions over a list of states. The locale \<open>transition_table\<close> asks that the table only names
  known states and that some rank decreases along an allowed transition out of every state that has one; what
  follows once and for all is that states without a way out absorb every run and that every
  known state can reach such a state. The invocation lifecycle, the failover plan, the restore
  job and the native agent's tasks interpret it.
\<close>

definition table_step :: "('s \<Rightarrow> 's list) \<Rightarrow> 's \<Rightarrow> 's \<Rightarrow> bool" where
  "table_step allowed s t \<longleftrightarrow> t \<in> set (allowed s)"

abbreviation table_run :: "('s \<Rightarrow> 's list) \<Rightarrow> 's \<Rightarrow> 's \<Rightarrow> bool" where
  "table_run allowed \<equiv> (table_step allowed)\<^sup>*\<^sup>*"

fun table_path :: "('s \<Rightarrow> 's list) \<Rightarrow> 's \<Rightarrow> 's list \<Rightarrow> bool" where
  "table_path allowed s [] = True"
| "table_path allowed s (t # ts) = (table_step allowed s t \<and> table_path allowed t ts)"

lemma table_path_run: "table_path allowed s ts \<Longrightarrow> t \<in> set ts \<Longrightarrow> table_run allowed s t"
  by (induction ts arbitrary: s) (auto intro: converse_rtranclp_into_rtranclp)

text \<open>A set that is left only through \<open>g\<close>: a path that reaches a state outside it passes \<open>g\<close> first.\<close>

lemma table_path_gate:
  assumes "table_path allowed s ts" "s \<in> A" "\<And>x. x \<in> A \<Longrightarrow> set (allowed x) \<subseteq> insert g A"
    "t \<in> set ts" "t \<notin> A" "t \<noteq> g"
  shows "\<exists>us vs. ts = us @ g # vs \<and> table_path allowed g vs \<and> t \<in> set vs"
  using assms(1,2,4)
proof (induction ts arbitrary: s)
  case (Cons z ts)
  show ?case
  proof (cases "z = g")
    case True
    with Cons.prems assms(6) show ?thesis by (intro exI [of _ "[]"] exI [of _ ts]) auto
  next
    case False
    with Cons.prems assms(3) have z: "z \<in> A" by (auto simp: table_step_def)
    with assms(5) Cons.prems have "t \<in> set ts" "table_path allowed z ts" by auto
    with Cons.IH [OF _ z] obtain us vs where "ts = us @ g # vs" "table_path allowed g vs" "t \<in> set vs" by blast
    then show ?thesis by (intro exI [of _ "z # us"] exI [of _ vs]) simp
  qed
qed simp

lemma subseq_gate: "ts = us @ g # vs \<Longrightarrow> subseq gs vs \<Longrightarrow> subseq (g # gs) ts"
  by (simp add: list_emb_append2)

locale transition_table =
  fixes states :: "'s list"
    and allowed :: "'s \<Rightarrow> 's list"
    and rank :: "'s \<Rightarrow> nat"
  assumes allowed_known: "t \<in> set (allowed s) \<Longrightarrow> t \<in> set states"
    and progress: "s \<in> set states \<Longrightarrow> allowed s \<noteq> [] \<Longrightarrow> \<exists>t\<in>set (allowed s). rank t < rank s"
begin

lemma dead_absorbs: "table_run allowed s t \<Longrightarrow> allowed s = [] \<Longrightarrow> t = s"
  by (erule converse_rtranclpE) (auto simp: table_step_def)

lemma run_known: "table_run allowed s t \<Longrightarrow> s \<in> set states \<Longrightarrow> t \<in> set states"
  by (induction rule: rtranclp_induct) (auto simp: table_step_def intro: allowed_known)

lemma can_finish: "s \<in> set states \<Longrightarrow> \<exists>t. table_run allowed s t \<and> allowed t = []"
proof (induction "rank s" arbitrary: s rule: less_induct)
  case less
  show ?case
  proof (cases "allowed s = []")
    case True
    then show ?thesis by blast
  next
    case False
    then obtain t where t: "t \<in> set (allowed s)" "rank t < rank s"
      using progress less.prems by blast
    then obtain u where "table_run allowed t u" "allowed u = []"
      using less.hyps allowed_known by blast
    moreover from t have "table_step allowed s t" by (simp add: table_step_def)
    ultimately show ?thesis by (meson converse_rtranclp_into_rtranclp)
  qed
qed

end

end
