(* ===== verification/Invocation_Lifecycle.thy ===== *)
theory Invocation_Lifecycle
  imports Document_Store Transition_Table
begin

text \<open>
  backend/src/constants/invocationLifecycle.js and
  backend/src/services/invocationLifecycle.service.js: the states of a runtime invocation, the
  table of allowed transitions, the update document a transition writes, and the service
  operations on the Invocation collection (transition, claim an execution lease, renew it,
  mark a lost execution for recovery). Clock readings are the argument \<open>op_now\<close>; telemetry and
  audit callbacks are left out, and the redaction of an outcome's output is the argument \<open>redact\<close>.
\<close>

subsection \<open>States and their table\<close>

datatype istate =
    Accepted | Validating | Authorized | Waiting_For_Approval | Retry_Scheduled | Running
  | Waiting_For_Runtime | Succeeded | Failed | Cancelled | Timed_Out | Recovery_Required

fun istate_name :: "istate \<Rightarrow> string" where
  "istate_name Accepted = ''accepted''"
| "istate_name Validating = ''validating''"
| "istate_name Authorized = ''authorized''"
| "istate_name Waiting_For_Approval = ''waiting_for_approval''"
| "istate_name Retry_Scheduled = ''retry_scheduled''"
| "istate_name Running = ''running''"
| "istate_name Waiting_For_Runtime = ''waiting_for_runtime''"
| "istate_name Succeeded = ''succeeded''"
| "istate_name Failed = ''failed''"
| "istate_name Cancelled = ''cancelled''"
| "istate_name Timed_Out = ''timed_out''"
| "istate_name Recovery_Required = ''recovery_required''"

definition INVOCATION_STATES :: "istate list" where
  "INVOCATION_STATES =
     [Accepted, Validating, Authorized, Waiting_For_Approval, Retry_Scheduled, Running,
      Waiting_For_Runtime, Succeeded, Failed, Cancelled, Timed_Out, Recovery_Required]"

definition TERMINAL_INVOCATION_STATES :: "istate list" where
  "TERMINAL_INVOCATION_STATES = [Succeeded, Failed, Cancelled, Timed_Out]"

fun ALLOWED_INVOCATION_TRANSITIONS :: "istate \<Rightarrow> istate list" where
  "ALLOWED_INVOCATION_TRANSITIONS Accepted =
     [Validating, Waiting_For_Approval, Retry_Scheduled, Recovery_Required, Cancelled]"
| "ALLOWED_INVOCATION_TRANSITIONS Validating =
     [Authorized, Retry_Scheduled, Failed, Recovery_Required, Cancelled]"
| "ALLOWED_INVOCATION_TRANSITIONS Authorized =
     [Running, Retry_Scheduled, Failed, Recovery_Required, Cancelled]"
| "ALLOWED_INVOCATION_TRANSITIONS Waiting_For_Approval = [Authorized, Failed, Cancelled]"
| "ALLOWED_INVOCATION_TRANSITIONS Retry_Scheduled =
     [Authorized, Failed, Recovery_Required, Cancelled]"
| "ALLOWED_INVOCATION_TRANSITIONS Running =
     [Waiting_For_Runtime, Retry_Scheduled, Failed, Timed_Out, Recovery_Required, Cancelled]"
| "ALLOWED_INVOCATION_TRANSITIONS Waiting_For_Runtime =
     [Succeeded, Retry_Scheduled, Failed, Timed_Out, Recovery_Required, Cancelled]"
| "ALLOWED_INVOCATION_TRANSITIONS Succeeded = []"
| "ALLOWED_INVOCATION_TRANSITIONS Failed = []"
| "ALLOWED_INVOCATION_TRANSITIONS Cancelled = []"
| "ALLOWED_INVOCATION_TRANSITIONS Timed_Out = []"
| "ALLOWED_INVOCATION_TRANSITIONS Recovery_Required = [Authorized, Running, Failed, Cancelled]"

definition MAX_INVOCATION_STATE_HISTORY :: nat where
  "MAX_INVOCATION_STATE_HISTORY = 32"

fun LIFECYCLE_TIMESTAMP_FIELDS :: "istate \<Rightarrow> string" where
  "LIFECYCLE_TIMESTAMP_FIELDS Accepted = ''acceptedAt''"
| "LIFECYCLE_TIMESTAMP_FIELDS Validating = ''validatingAt''"
| "LIFECYCLE_TIMESTAMP_FIELDS Authorized = ''authorizedAt''"
| "LIFECYCLE_TIMESTAMP_FIELDS Waiting_For_Approval = ''waitingForApprovalAt''"
| "LIFECYCLE_TIMESTAMP_FIELDS Retry_Scheduled = ''retryScheduledAt''"
| "LIFECYCLE_TIMESTAMP_FIELDS Running = ''runningAt''"
| "LIFECYCLE_TIMESTAMP_FIELDS Waiting_For_Runtime = ''waitingForRuntimeAt''"
| "LIFECYCLE_TIMESTAMP_FIELDS Succeeded = ''succeededAt''"
| "LIFECYCLE_TIMESTAMP_FIELDS Failed = ''failedAt''"
| "LIFECYCLE_TIMESTAMP_FIELDS Cancelled = ''cancelledAt''"
| "LIFECYCLE_TIMESTAMP_FIELDS Timed_Out = ''timedOutAt''"
| "LIFECYCLE_TIMESTAMP_FIELDS Recovery_Required = ''recoveryRequiredAt''"

datatype legacy_status = Legacy_Queued | Legacy_Running | Legacy_Completed | Legacy_Failed

fun LEGACY_STATUS_TO_LIFECYCLE_STATE :: "legacy_status \<Rightarrow> istate" where
  "LEGACY_STATUS_TO_LIFECYCLE_STATE Legacy_Queued = Accepted"
| "LEGACY_STATUS_TO_LIFECYCLE_STATE Legacy_Running = Running"
| "LEGACY_STATUS_TO_LIFECYCLE_STATE Legacy_Completed = Succeeded"
| "LEGACY_STATUS_TO_LIFECYCLE_STATE Legacy_Failed = Failed"

fun LIFECYCLE_STATE_TO_LEGACY_STATUS :: "istate \<Rightarrow> legacy_status" where
  "LIFECYCLE_STATE_TO_LEGACY_STATUS Accepted = Legacy_Queued"
| "LIFECYCLE_STATE_TO_LEGACY_STATUS Validating = Legacy_Queued"
| "LIFECYCLE_STATE_TO_LEGACY_STATUS Authorized = Legacy_Queued"
| "LIFECYCLE_STATE_TO_LEGACY_STATUS Waiting_For_Approval = Legacy_Queued"
| "LIFECYCLE_STATE_TO_LEGACY_STATUS Retry_Scheduled = Legacy_Queued"
| "LIFECYCLE_STATE_TO_LEGACY_STATUS Running = Legacy_Running"
| "LIFECYCLE_STATE_TO_LEGACY_STATUS Waiting_For_Runtime = Legacy_Running"
| "LIFECYCLE_STATE_TO_LEGACY_STATUS Succeeded = Legacy_Completed"
| "LIFECYCLE_STATE_TO_LEGACY_STATUS Failed = Legacy_Failed"
| "LIFECYCLE_STATE_TO_LEGACY_STATUS Cancelled = Legacy_Failed"
| "LIFECYCLE_STATE_TO_LEGACY_STATUS Timed_Out = Legacy_Failed"
| "LIFECYCLE_STATE_TO_LEGACY_STATUS Recovery_Required = Legacy_Failed"

datatype retry_state =
    Retry_Not_Evaluated | Retry_Not_Allowed | Retry_State_Scheduled | Retry_Exhausted
  | Retry_Recovery_Required | Retry_Completed

fun retry_state_name :: "retry_state \<Rightarrow> string" where
  "retry_state_name Retry_Not_Evaluated = ''not_evaluated''"
| "retry_state_name Retry_Not_Allowed = ''not_allowed''"
| "retry_state_name Retry_State_Scheduled = ''scheduled''"
| "retry_state_name Retry_Exhausted = ''exhausted''"
| "retry_state_name Retry_Recovery_Required = ''recovery_required''"
| "retry_state_name Retry_Completed = ''completed''"

definition INVOCATION_RETRY_STATES :: "retry_state list" where
  "INVOCATION_RETRY_STATES =
     [Retry_Not_Evaluated, Retry_Not_Allowed, Retry_State_Scheduled, Retry_Exhausted,
      Retry_Recovery_Required, Retry_Completed]"

datatype cancellation_state =
    Cancel_Not_Requested | Cancel_Requested | Cancel_Aborting | Cancel_Confirmed
  | Cancel_Rejected | Cancel_Outcome_Unknown

datatype cancellation_outcome =
    Cancel_Not_Applicable | Cancel_Local_Confirmed | Cancel_Remote_Confirmed
  | Cancel_Remote_Unconfirmed

datatype recovery_state =
    Recovery_Not_Required | Recovery_State_Required | Recovery_Retrying | Recovery_Resolved

datatype recovery_decision =
    Decision_Not_Evaluated | Decision_Retry_Allowed | Decision_Retry_Denied
  | Decision_Resolve_As_Failed_Allowed | Decision_Resolve_As_Cancelled_Allowed
  | Decision_Mark_Succeeded_Allowed | Decision_Operator_Review_Required

datatype progress_stage =
    Stage_Accepted | Stage_Validation_Started | Stage_Authorized | Stage_Execution_Claimed
  | Stage_Request_Mapped | Stage_Outbound_Request_Started | Stage_Remote_Response_Received
  | Stage_Response_Validation_Started | Stage_Finalization_Started | Stage_Terminalized

lemma all_istates: "set INVOCATION_STATES = UNIV"
proof -
  have "s \<in> set INVOCATION_STATES" for s
    by (cases s) (simp_all add: INVOCATION_STATES_def)
  then show ?thesis by blast
qed

lemma all_retry_states: "set INVOCATION_RETRY_STATES = UNIV"
proof -
  have "s \<in> set INVOCATION_RETRY_STATES" for s
    by (cases s) (simp_all add: INVOCATION_RETRY_STATES_def)
  then show ?thesis by blast
qed

lemma istate_name_inject [simp]: "istate_name s = istate_name t \<longleftrightarrow> s = t"
  by (cases s; cases t) simp_all

lemma istate_name_literals [simp]:
  "''authorized'' = istate_name s \<longleftrightarrow> s = Authorized"
  "''running'' = istate_name s \<longleftrightarrow> s = Running"
  "''recovery_required'' = istate_name s \<longleftrightarrow> s = Recovery_Required"
  "''succeeded'' = istate_name s \<longleftrightarrow> s = Succeeded"
  by (cases s; simp)+

lemma timestamp_field_inject [simp]:
  "LIFECYCLE_TIMESTAMP_FIELDS s = LIFECYCLE_TIMESTAMP_FIELDS t \<longleftrightarrow> s = t"
  by (cases s; cases t) simp_all

subsection \<open>Guards\<close>

definition SAFE_CODE_PATTERN :: "string \<Rightarrow> bool" where
  "SAFE_CODE_PATTERN =
     bounded_pattern is_upper (\<lambda>c. is_upper c \<or> is_digit c \<or> c = CHR ''_'') 127"

definition SAFE_IDENTIFIER_PATTERN :: "string \<Rightarrow> bool" where
  "SAFE_IDENTIFIER_PATTERN =
     bounded_pattern (\<lambda>c. is_alpha c \<or> is_digit c)
       (\<lambda>c. is_alpha c \<or> is_digit c \<or> c \<in> set ''._:-'') 127"

definition SAFE_NAME_PATTERN :: "string \<Rightarrow> bool" where
  "SAFE_NAME_PATTERN =
     bounded_pattern is_alpha (\<lambda>c. is_alpha c \<or> is_digit c \<or> c \<in> set ''_.:-'') 127"

abbreviation validation_error :: "string \<Rightarrow> app_error" where
  "validation_error path \<equiv> App_Error 400 ''VALIDATION_ERROR'' path"

definition lifecycleError :: "string \<Rightarrow> app_error" where
  "lifecycleError code = App_Error (if code = ''INVOCATION_NOT_FOUND'' then 404 else 409) code ''''"

definition known_state :: "string \<Rightarrow> istate option" where
  "known_state n = find (\<lambda>s. istate_name s = n) INVOCATION_STATES"

definition assertKnownState :: "string \<Rightarrow> string \<Rightarrow> istate res" where
  "assertKnownState n path =
     (case known_state n of None \<Rightarrow> Inl (validation_error path) | Some s \<Rightarrow> Inr s)"

definition allowedTransitionsFrom :: "string \<Rightarrow> istate list res" where
  "allowedTransitionsFrom n =
     bindE (assertKnownState n ''lifecycleState'') (\<lambda>s. Inr (ALLOWED_INVOCATION_TRANSITIONS s))"

definition canTransition :: "string \<Rightarrow> string \<Rightarrow> bool" where
  "canTransition m n =
     (case (known_state m, known_state n) of
        (Some s, Some t) \<Rightarrow> t \<in> set (ALLOWED_INVOCATION_TRANSITIONS s)
      | _ \<Rightarrow> False)"

definition assertTransition :: "string \<Rightarrow> string \<Rightarrow> (istate \<times> istate) res" where
  "assertTransition m n =
     bindE (assertKnownState m ''fromState'') (\<lambda>s.
     bindE (assertKnownState n ''toState'') (\<lambda>t.
     if \<not> canTransition m n then Inl (lifecycleError ''INVOCATION_STATE_TRANSITION_INVALID'')
     else Inr (s, t)))"

definition isTerminalState :: "istate \<Rightarrow> bool" where
  "isTerminalState s \<longleftrightarrow> s \<in> set TERMINAL_INVOCATION_STATES"

definition legacyStatusForState :: "string \<Rightarrow> legacy_status res" where
  "legacyStatusForState n =
     bindE (assertKnownState n ''lifecycleState'') (\<lambda>s. Inr (LIFECYCLE_STATE_TO_LEGACY_STATUS s))"

definition safeOptionalIdentifier :: "string option \<Rightarrow> string \<Rightarrow> bool \<Rightarrow> string option res" where
  "safeOptionalIdentifier v path required =
     (if \<not> present v then (if required then Inl (validation_error path) else Inr None)
      else let normalized = js_trim (the v) in
        if \<not> SAFE_IDENTIFIER_PATTERN normalized then Inl (validation_error path)
        else Inr (Some normalized))"

definition requiredIdentifier :: "string option \<Rightarrow> string \<Rightarrow> string res" where
  "requiredIdentifier v path = bindE (safeOptionalIdentifier v path True) (\<lambda>r. Inr (the r))"

definition safeReasonCode :: "string option \<Rightarrow> bool \<Rightarrow> string option res" where
  "safeReasonCode v required =
     (if \<not> present v then (if required then Inl (validation_error ''reasonCode'') else Inr None)
      else let normalized = js_upper (js_trim (the v)) in
        if \<not> SAFE_CODE_PATTERN normalized then Inl (validation_error ''reasonCode'')
        else Inr (Some normalized))"

lemma known_state_name [simp]: "known_state (istate_name s) = Some s"
  by (cases s) (simp_all add: known_state_def INVOCATION_STATES_def)

lemma known_state_Some [guard_dests]: "known_state n = Some s \<Longrightarrow> n = istate_name s"
  by (auto simp: known_state_def find_Some_iff)

lemma assertKnownState_Inr [guard_dests]: "assertKnownState n p = Inr s \<Longrightarrow> n = istate_name s"
  by (auto simp: assertKnownState_def split: option.splits dest: known_state_Some)

lemma assertKnownState_name [simp]: "assertKnownState (istate_name s) p = Inr s"
  by (simp add: assertKnownState_def)

lemma canTransition_names [simp]:
  "canTransition (istate_name s) (istate_name t) \<longleftrightarrow> t \<in> set (ALLOWED_INVOCATION_TRANSITIONS s)"
  by (simp add: canTransition_def)

lemma assertTransition_Inr [guard_dests]:
  "assertTransition m n = Inr (s, t) \<Longrightarrow>
   m = istate_name s \<and> n = istate_name t \<and> t \<in> set (ALLOWED_INVOCATION_TRANSITIONS s)"
  by (auto simp: assertTransition_def bindE_Inr_iff dest!: assertKnownState_Inr split: if_splits)

lemma assertTransition_names [simp]:
  "assertTransition (istate_name s) (istate_name t) =
     (if t \<in> set (ALLOWED_INVOCATION_TRANSITIONS s) then Inr (s, t)
      else Inl (lifecycleError ''INVOCATION_STATE_TRANSITION_INVALID''))"
  by (simp add: assertTransition_def)

lemma isTerminal_iff_dead: "isTerminalState s \<longleftrightarrow> ALLOWED_INVOCATION_TRANSITIONS s = []"
  by (cases s) (simp_all add: isTerminalState_def TERMINAL_INVOCATION_STATES_def)

lemma isTerminalState_simps [simp]:
  "\<not> isTerminalState Accepted" "\<not> isTerminalState Validating" "\<not> isTerminalState Authorized"
  "\<not> isTerminalState Waiting_For_Approval" "\<not> isTerminalState Retry_Scheduled"
  "\<not> isTerminalState Running" "\<not> isTerminalState Waiting_For_Runtime"
  "isTerminalState Succeeded" "isTerminalState Failed" "isTerminalState Cancelled"
  "isTerminalState Timed_Out" "\<not> isTerminalState Recovery_Required"
  by (simp_all add: isTerminalState_def TERMINAL_INVOCATION_STATES_def)

lemma safeReasonCode_Inr [guard_dests]:
  "safeReasonCode v r = Inr (Some c) \<Longrightarrow> SAFE_CODE_PATTERN c"
  by (auto simp: safeReasonCode_def Let_def split: if_splits)

lemma safeReasonCode_required [guard_dests]:
  "safeReasonCode v True = Inr c \<Longrightarrow> \<exists>d. c = Some d \<and> SAFE_CODE_PATTERN d"
  by (auto simp: safeReasonCode_def Let_def split: if_splits)

lemma requiredIdentifier_Inr [guard_dests]:
  "requiredIdentifier v p = Inr i \<Longrightarrow> SAFE_IDENTIFIER_PATTERN i"
  by (auto simp: requiredIdentifier_def safeOptionalIdentifier_def bindE_Inr_iff Let_def
      split: if_splits)

definition invocation_rank :: "istate \<Rightarrow> nat" where
  "invocation_rank s = (if isTerminalState s then 0 else 1)"

interpretation invocation_table:
  transition_table INVOCATION_STATES ALLOWED_INVOCATION_TRANSITIONS invocation_rank
proof
  show "t \<in> set INVOCATION_STATES" for t by (simp add: all_istates)
  show "\<exists>t\<in>set (ALLOWED_INVOCATION_TRANSITIONS s). invocation_rank t < invocation_rank s"
    if "ALLOWED_INVOCATION_TRANSITIONS s \<noteq> []" for s
    using that by (cases s) (simp_all add: invocation_rank_def)
qed

subsection \<open>Outcomes\<close>

text \<open>The error object of an outcome: absent, null, something that is not an object, or an object.\<close>

record error_object =
  eo_code :: "string option"
  eo_internal_code :: "string option"
  eo_operation :: "string option"
  eo_stage :: "string option"
  eo_retryable :: "bool option"
  eo_timeout_reason :: "string option"
  eo_cause_code :: "string option"
  eo_cause_name :: "string option"
  eo_duration_ms :: "jsnum option"
  eo_provider_http_status :: "jsnum option"
  eo_retry_decision_reason :: "string option"

datatype error_input = Error_Null | Error_Not_Object | Error_Object error_object

record stored_error =
  se_code :: "string option"
  se_internal_code :: "string option"
  se_operation :: "string option"
  se_stage :: "string option"
  se_retryable :: "bool option"
  se_timeout_reason :: "string option"
  se_cause_code :: "string option"
  se_cause_name :: "string option"
  se_duration_ms :: "rat option"
  se_provider_http_status :: "int option"
  se_retry_decision_reason :: "string option"

definition safeMachineValue :: "string option \<Rightarrow> string \<Rightarrow> bool \<Rightarrow> string option res" where
  "safeMachineValue v path code =
     (if \<not> present v then Inr None
      else let normalized = js_trim (the v);
               candidate = (if code then js_upper normalized else normalized)
           in if \<not> (if code then SAFE_CODE_PATTERN else SAFE_NAME_PATTERN) candidate
              then Inl (validation_error path) else Inr (Some candidate))"

definition http_status_number :: "jsnum option \<Rightarrow> string \<Rightarrow> int option res" where
  "http_status_number v path =
     (case v of None \<Rightarrow> Inr None
      | Some x \<Rightarrow> (case js_integer x of
            None \<Rightarrow> Inl (validation_error path)
          | Some i \<Rightarrow> if i < 100 \<or> i > 599 then Inl (validation_error path) else Inr (Some i)))"

definition non_negative_number :: "jsnum option \<Rightarrow> string \<Rightarrow> rat option res" where
  "non_negative_number v path =
     (case v of None \<Rightarrow> Inr None
      | Some x \<Rightarrow> (case js_finite x of
            None \<Rightarrow> Inl (validation_error path)
          | Some r \<Rightarrow> if r < 0 then Inl (validation_error path) else Inr (Some r)))"

definition safeStoredError :: "error_input \<Rightarrow> stored_error option res" where
  "safeStoredError e =
     (case e of
        Error_Null \<Rightarrow> Inr None
      | Error_Not_Object \<Rightarrow> Inl (validation_error ''outcome.error'')
      | Error_Object o1 \<Rightarrow>
          bindE (http_status_number (eo_provider_http_status o1) ''outcome.error.providerHttpStatus'') (\<lambda>http.
          bindE (non_negative_number (eo_duration_ms o1) ''outcome.error.durationMs'') (\<lambda>duration.
          bindE (safeMachineValue (eo_code o1) ''outcome.error.code'' True) (\<lambda>code.
          bindE (safeMachineValue (eo_internal_code o1) ''outcome.error.internalCode'' True) (\<lambda>internal.
          bindE (safeMachineValue (eo_operation o1) ''outcome.error.operation'' False) (\<lambda>operation.
          bindE (safeMachineValue (eo_stage o1) ''outcome.error.stage'' False) (\<lambda>stage.
          bindE (safeMachineValue (eo_timeout_reason o1) ''outcome.error.timeoutReason'' True) (\<lambda>timeout.
          bindE (safeMachineValue (eo_cause_code o1) ''outcome.error.causeCode'' True) (\<lambda>cause_code.
          bindE (safeMachineValue (eo_cause_name o1) ''outcome.error.causeName'' False) (\<lambda>cause_name.
          bindE (safeMachineValue (eo_retry_decision_reason o1) ''outcome.error.retryDecisionReason'' True) (\<lambda>reason.
          Inr (Some \<lparr>se_code = code, se_internal_code = internal, se_operation = operation,
            se_stage = stage, se_retryable = eo_retryable o1, se_timeout_reason = timeout,
            se_cause_code = cause_code, se_cause_name = cause_name, se_duration_ms = duration,
            se_provider_http_status = http, se_retry_decision_reason = reason\<rparr>))))))))))))"

record metric_input =
  mi_stage :: string
  mi_status :: string
  mi_duration_ms :: jsnum

record stage_metric =
  sm_stage :: string
  sm_status :: string
  sm_duration_ms :: rat

datatype metrics_input = Metrics_Not_Array | Metrics_Array "metric_input list"

definition OPERATION_STAGE_NAMES :: "string list" where
  "OPERATION_STAGE_NAMES =
     [''connection_lookup'', ''capability_resolution'', ''policy_check'', ''credential_load'',
      ''request_mapping'', ''external_runtime_invocation'', ''response_validation'',
      ''invocation_persistence'', ''audit_persistence'']"

definition MAX_INVOCATION_STAGE_METRICS :: nat where
  "MAX_INVOCATION_STAGE_METRICS = 16"

definition metric_path :: "nat \<Rightarrow> string \<Rightarrow> string" where
  "metric_path i field = ''outcome.stageMetrics.'' @ nat_str i @ ''.'' @ field"

definition safe_metric :: "nat \<times> metric_input \<Rightarrow> stage_metric res" where
  "safe_metric im = (case im of (i, m) \<Rightarrow>
     if mi_stage m \<notin> set OPERATION_STAGE_NAMES then Inl (validation_error (metric_path i ''stage''))
     else if mi_status m \<notin> {''completed'', ''failed''}
     then Inl (validation_error (metric_path i ''status''))
     else (case js_finite (mi_duration_ms m) of
         None \<Rightarrow> Inl (validation_error (metric_path i ''durationMs''))
       | Some d \<Rightarrow>
           if d < 0 then Inl (validation_error (metric_path i ''durationMs''))
           else Inr \<lparr>sm_stage = mi_stage m, sm_status = mi_status m,
                  sm_duration_ms = of_int (js_round (d * 100)) / 100\<rparr>))"

definition safeStageMetrics :: "metrics_input \<Rightarrow> stage_metric list res" where
  "safeStageMetrics ms =
     (case ms of
        Metrics_Not_Array \<Rightarrow> Inl (validation_error ''outcome.stageMetrics'')
      | Metrics_Array xs \<Rightarrow>
          if length xs > MAX_INVOCATION_STAGE_METRICS
          then Inl (validation_error ''outcome.stageMetrics'')
          else mapE safe_metric (zip [0..<length xs] xs))"

text \<open>
  An outcome object: the keys it has, in order, and the values of the approved ones. A date is
  \<open>None\<close> when it does not parse.
\<close>

record 'j outcome_object =
  oc_keys :: "string list"
  oc_duration_ms :: "jsnum option"
  oc_attempt_count :: "jsnum option"
  oc_retry_state :: "string option"
  oc_retry_decision_reason :: "string option"
  oc_retry_scheduled_at :: "int option option"
  oc_runtime_status :: "jsnum option"
  oc_output :: "'j option"
  oc_error :: "error_input option"
  oc_stage_metrics :: "metrics_input option"

datatype 'j outcome_input = Outcome_Not_Object | Outcome_Object "'j outcome_object"

definition OUTCOME_FIELDS :: "string set" where
  "OUTCOME_FIELDS =
     {''attemptCount'', ''durationMs'', ''error'', ''output'', ''retryDecisionReason'',
      ''retryScheduledAt'', ''retryState'', ''runtimeStatus'', ''stageMetrics''}"

record 'j outcome_set =
  os_duration_ms :: "rat option"
  os_attempt_count :: "int option"
  os_retry_state :: "retry_state option"
  os_retry_decision_reason :: "string option"
  os_retry_scheduled_at :: "int option"
  os_runtime_status :: "int option"
  os_output :: "'j option"
  os_error :: "stored_error option option"
  os_stage_metrics :: "stage_metric list option"

definition empty_outcome_set :: "'j outcome_set" where
  "empty_outcome_set =
     \<lparr>os_duration_ms = None, os_attempt_count = None, os_retry_state = None,
      os_retry_decision_reason = None, os_retry_scheduled_at = None, os_runtime_status = None,
      os_output = None, os_error = None, os_stage_metrics = None\<rparr>"

definition known_retry_state :: "string \<Rightarrow> retry_state option" where
  "known_retry_state n = find (\<lambda>s. retry_state_name s = n) INVOCATION_RETRY_STATES"

definition optionalE :: "('a \<Rightarrow> 'b res) \<Rightarrow> 'a option \<Rightarrow> 'b option res" where
  "optionalE f v = (case v of None \<Rightarrow> Inr None | Some x \<Rightarrow> bindE (f x) (\<lambda>y. Inr (Some y)))"

definition attempt_count_number :: "jsnum \<Rightarrow> int res" where
  "attempt_count_number x =
     (case js_integer x of
        None \<Rightarrow> Inl (validation_error ''outcome.attemptCount'')
      | Some i \<Rightarrow> if i < 0 then Inl (validation_error ''outcome.attemptCount'') else Inr i)"

definition safeOutcomeSet ::
  "('j \<Rightarrow> 'j) \<Rightarrow> 'j outcome_input option \<Rightarrow> 'j outcome_set res" where
  "safeOutcomeSet redact outcome =
     (case outcome of
        None \<Rightarrow> Inr empty_outcome_set
      | Some Outcome_Not_Object \<Rightarrow> Inl (validation_error ''outcome'')
      | Some (Outcome_Object oc) \<Rightarrow>
          (case filter (\<lambda>k. k \<notin> OUTCOME_FIELDS) (oc_keys oc) of
             k # _ \<Rightarrow> Inl (validation_error (''outcome.'' @ k))
           | [] \<Rightarrow>
               bindE (non_negative_number (oc_duration_ms oc) ''outcome.durationMs'') (\<lambda>duration.
               bindE (optionalE attempt_count_number (oc_attempt_count oc)) (\<lambda>attempts.
               bindE (optionalE (\<lambda>n. case known_retry_state n of
                   None \<Rightarrow> Inl (validation_error ''outcome.retryState'') | Some r \<Rightarrow> Inr r)
                 (oc_retry_state oc)) (\<lambda>retry.
               bindE (optionalE (\<lambda>r. bindE (safeReasonCode (Some r) True) (\<lambda>c. Inr (the c)))
                 (oc_retry_decision_reason oc)) (\<lambda>reason.
               bindE (optionalE (\<lambda>d. case d of
                   None \<Rightarrow> Inl (validation_error ''outcome.retryScheduledAt'') | Some t \<Rightarrow> Inr t)
                 (oc_retry_scheduled_at oc)) (\<lambda>scheduled.
               bindE (http_status_number (oc_runtime_status oc) ''outcome.runtimeStatus'') (\<lambda>runtime.
               bindE (optionalE safeStoredError (oc_error oc)) (\<lambda>err.
               bindE (optionalE safeStageMetrics (oc_stage_metrics oc)) (\<lambda>metrics.
               Inr \<lparr>os_duration_ms = duration, os_attempt_count = attempts, os_retry_state = retry,
                 os_retry_decision_reason = reason, os_retry_scheduled_at = scheduled,
                 os_runtime_status = runtime, os_output = map_option redact (oc_output oc),
                 os_error = err, os_stage_metrics = metrics\<rparr>))))))))))"

lemma optionalE_Inr:
  "optionalE f v = Inr r \<longleftrightarrow> (case v of None \<Rightarrow> r = None | Some x \<Rightarrow> \<exists>y. f x = Inr y \<and> r = Some y)"
  by (auto simp: optionalE_def bindE_Inr_iff split: option.splits)

lemma http_status_number_range [guard_dests]:
  "http_status_number v p = Inr (Some i) \<Longrightarrow> 100 \<le> i \<and> i \<le> 599"
  by (auto simp: http_status_number_def split: option.splits if_splits)

lemma safeMachineValue_code [guard_dests]:
  "safeMachineValue v p True = Inr (Some c) \<Longrightarrow> SAFE_CODE_PATTERN c"
  by (auto simp: safeMachineValue_def Let_def split: if_splits)

subsection \<open>Documents and updates\<close>

record history_entry =
  he_from :: "istate option"
  he_to :: istate
  he_at :: int
  he_reason_code :: "string option"
  he_attempt_number :: "int option"
  he_trace_id :: "string option"
  he_request_id :: "string option"

record 'j invocation =
  inv_workspace :: string
  inv_lifecycle_state :: istate
  inv_status :: legacy_status
  inv_last_transition_at :: int
  inv_timestamps :: "string \<Rightarrow> int option"
  inv_state_history :: "history_entry list"
  inv_version :: nat
  inv_terminal_at :: "int option"
  inv_terminalized_at :: "int option"
  inv_last_progress_at :: "int option"
  inv_last_progress_stage :: "progress_stage option"
  inv_retry_state :: retry_state
  inv_retry_decision_reason :: "string option"
  inv_retry_scheduled_at :: "int option"
  inv_recovery_reason_code :: "string option"
  inv_recovery_state :: recovery_state
  inv_recovery_eligible :: bool
  inv_recovery_decision :: recovery_decision
  inv_recovery_decision_reason :: "string option"
  inv_execution_lease_id :: "string option"
  inv_execution_lease_expires_at :: "int option"
  inv_execution_owner :: "string option"
  inv_cancellation_state :: cancellation_state
  inv_duration_ms :: "rat option"
  inv_attempt_count :: "int option"
  inv_runtime_status :: "int option"
  inv_output :: "'j option"
  inv_error :: "stored_error option"
  inv_stage_metrics :: "stage_metric list option"

record 'j op_options =
  op_invocation_id :: "string option"
  op_workspace :: "string option"
  op_from :: string
  op_to :: string
  op_now :: int
  op_reason_code :: "string option"
  op_attempt_number :: "jsnum option"
  op_trace_id :: "string option"
  op_request_id :: "string option"
  op_outcome :: "'j outcome_input option"
  op_execution_owner :: "string option"
  op_execution_lease_id :: "string option"
  op_lease_duration_ms :: "jsnum option"

definition transitionHistoryEntry ::
  "istate option \<Rightarrow> istate \<Rightarrow> 'j op_options \<Rightarrow> history_entry res" where
  "transitionHistoryEntry from to opts =
     bindE (optionalE (\<lambda>x. case js_integer x of
         None \<Rightarrow> Inl (validation_error ''attemptNumber'')
       | Some i \<Rightarrow> if i < 1 then Inl (validation_error ''attemptNumber'') else Inr i)
       (op_attempt_number opts)) (\<lambda>attempt.
     bindE (safeReasonCode (op_reason_code opts) False) (\<lambda>reason.
     bindE (safeOptionalIdentifier (op_trace_id opts) ''traceId'' False) (\<lambda>trace.
     bindE (safeOptionalIdentifier (op_request_id opts) ''requestId'' False) (\<lambda>request.
     Inr \<lparr>he_from = from, he_to = to, he_at = op_now opts, he_reason_code = reason,
       he_attempt_number = attempt, he_trace_id = trace, he_request_id = request\<rparr>))))"

definition keep :: "'a option \<Rightarrow> 'a \<Rightarrow> 'a" where
  "keep v old = (case v of None \<Rightarrow> old | Some x \<Rightarrow> x)"

definition apply_outcome :: "'j outcome_set \<Rightarrow> 'j invocation \<Rightarrow> 'j invocation" where
  "apply_outcome os d =
     d\<lparr>inv_duration_ms := (case os_duration_ms os of None \<Rightarrow> inv_duration_ms d | x \<Rightarrow> x),
       inv_attempt_count := (case os_attempt_count os of None \<Rightarrow> inv_attempt_count d | x \<Rightarrow> x),
       inv_retry_state := keep (os_retry_state os) (inv_retry_state d),
       inv_retry_decision_reason :=
         (case os_retry_decision_reason os of None \<Rightarrow> inv_retry_decision_reason d | x \<Rightarrow> x),
       inv_retry_scheduled_at :=
         (case os_retry_scheduled_at os of None \<Rightarrow> inv_retry_scheduled_at d | x \<Rightarrow> x),
       inv_runtime_status := (case os_runtime_status os of None \<Rightarrow> inv_runtime_status d | x \<Rightarrow> x),
       inv_output := (case os_output os of None \<Rightarrow> inv_output d | x \<Rightarrow> x),
       inv_error := keep (os_error os) (inv_error d),
       inv_stage_metrics := (case os_stage_metrics os of None \<Rightarrow> inv_stage_metrics d | x \<Rightarrow> x)\<rparr>"

definition outcome_has_schedule :: "'j op_options \<Rightarrow> bool" where
  "outcome_has_schedule opts =
     (case op_outcome opts of
        Some (Outcome_Object oc) \<Rightarrow> oc_retry_scheduled_at oc \<noteq> None
      | _ \<Rightarrow> False)"

definition base_set ::
  "istate \<Rightarrow> history_entry \<Rightarrow> 'j outcome_set \<Rightarrow> 'j invocation \<Rightarrow> 'j invocation" where
  "base_set to entry os d =
     apply_outcome os
       (d\<lparr>inv_lifecycle_state := to,
          inv_status := LIFECYCLE_STATE_TO_LEGACY_STATUS to,
          inv_last_transition_at := he_at entry,
          inv_timestamps := (inv_timestamps d)(LIFECYCLE_TIMESTAMP_FIELDS to \<mapsto> he_at entry),
          inv_state_history := push_slice MAX_INVOCATION_STATE_HISTORY entry (inv_state_history d),
          inv_version := inv_version d + 1\<rparr>)"

definition terminal_set :: "istate \<Rightarrow> int \<Rightarrow> 'j invocation \<Rightarrow> 'j invocation" where
  "terminal_set to time d =
     (if isTerminalState to
      then d\<lparr>inv_terminal_at := Some time, inv_terminalized_at := Some time,
             inv_last_progress_at := Some time, inv_last_progress_stage := Some Stage_Terminalized\<rparr>
      else d)"

definition retry_set :: "istate \<Rightarrow> bool \<Rightarrow> int \<Rightarrow> 'j invocation \<Rightarrow> 'j invocation" where
  "retry_set to scheduled time d =
     (if to = Succeeded then d\<lparr>inv_retry_state := Retry_Completed\<rparr>
      else if to = Retry_Scheduled
      then d\<lparr>inv_retry_state := Retry_State_Scheduled,
             inv_retry_scheduled_at :=
               (if scheduled then inv_retry_scheduled_at d else Some time)\<rparr>
      else d)"

definition recovery_set :: "istate \<Rightarrow> string option \<Rightarrow> 'j invocation \<Rightarrow> 'j invocation" where
  "recovery_set to recovery_reason d =
     (if to = Recovery_Required
      then d\<lparr>inv_retry_state := Retry_Recovery_Required,
             inv_recovery_reason_code := recovery_reason,
             inv_recovery_state := Recovery_State_Required,
             inv_recovery_eligible := True,
             inv_recovery_decision := Decision_Operator_Review_Required,
             inv_recovery_decision_reason := Some ''REQUIRES_OPERATOR_REVIEW''\<rparr>
      else d)"

definition lease_unset :: "istate \<Rightarrow> 'j invocation \<Rightarrow> 'j invocation" where
  "lease_unset to d =
     (if isTerminalState to \<or> to = Recovery_Required
      then d\<lparr>inv_execution_lease_id := None, inv_execution_lease_expires_at := None,
             inv_execution_owner := None\<rparr>
      else d)"

definition transition_set ::
  "istate \<Rightarrow> bool \<Rightarrow> string option \<Rightarrow> history_entry \<Rightarrow> 'j outcome_set \<Rightarrow> 'j invocation \<Rightarrow> 'j invocation"
where
  "transition_set to scheduled recovery_reason entry os d =
     lease_unset to
       (recovery_set to recovery_reason
         (retry_set to scheduled (he_at entry)
           (terminal_set to (he_at entry) (base_set to entry os d))))"

definition transitionUpdate ::
  "('j \<Rightarrow> 'j) \<Rightarrow> string \<Rightarrow> string \<Rightarrow> 'j op_options \<Rightarrow>
   (history_entry \<times> ('j invocation \<Rightarrow> 'j invocation)) res" where
  "transitionUpdate redact fromState toState opts =
     bindE (assertTransition fromState toState) (\<lambda>(from, to).
     bindE (transitionHistoryEntry (Some from) to opts) (\<lambda>entry.
     bindE (safeOutcomeSet redact (op_outcome opts)) (\<lambda>os.
     bindE (if to = Recovery_Required then safeReasonCode (op_reason_code opts) True else Inr None)
       (\<lambda>recovery_reason.
     Inr (entry, transition_set to (outcome_has_schedule opts) recovery_reason entry os)))))"

text \<open>The fields of a new invocation document (the other fields keep their schema defaults).\<close>

definition initialLifecycleFields ::
  "string option \<Rightarrow> 'j op_options \<Rightarrow> 'j invocation \<Rightarrow> 'j invocation res" where
  "initialLifecycleFields state opts d0 =
     bindE (assertKnownState (or_default state ''accepted'') ''state'') (\<lambda>s.
     bindE (transitionHistoryEntry None s
       (opts\<lparr>op_reason_code := Some (or_default (op_reason_code opts) ''INVOCATION_CREATED'')\<rparr>)) (\<lambda>entry.
     let time = op_now opts;
         d1 = d0\<lparr>inv_lifecycle_state := s,
                 inv_status := LIFECYCLE_STATE_TO_LEGACY_STATUS s,
                 inv_timestamps := Map.empty(LIFECYCLE_TIMESTAMP_FIELDS s \<mapsto> time),
                 inv_state_history := [entry],
                 inv_last_transition_at := time,
                 inv_last_progress_at := Some time,
                 inv_last_progress_stage := (if s = Accepted then Some Stage_Accepted else None)\<rparr>
     in Inr (if isTerminalState s
             then d1\<lparr>inv_terminal_at := Some time, inv_terminalized_at := Some time\<rparr> else d1)))"

subsection \<open>The well-formedness of a document\<close>

text \<open>
  What every write of the service keeps: the legacy status mirrors the lifecycle state, the
  history is bounded and ends in the current state, the state's timestamp is recorded, a
  terminal document says when it ended, and neither a terminal nor a recovering document holds
  an execution lease.
\<close>

definition invocation_ok :: "'j invocation \<Rightarrow> bool" where
  "invocation_ok d \<longleftrightarrow>
     inv_status d = LIFECYCLE_STATE_TO_LEGACY_STATUS (inv_lifecycle_state d) \<and>
     inv_state_history d \<noteq> [] \<and>
     length (inv_state_history d) \<le> MAX_INVOCATION_STATE_HISTORY \<and>
     he_to (last (inv_state_history d)) = inv_lifecycle_state d \<and>
     he_at (last (inv_state_history d)) = inv_last_transition_at d \<and>
     inv_timestamps d (LIFECYCLE_TIMESTAMP_FIELDS (inv_lifecycle_state d)) =
       Some (inv_last_transition_at d) \<and>
     (isTerminalState (inv_lifecycle_state d) \<longrightarrow> inv_terminal_at d = Some (inv_last_transition_at d)) \<and>
     (isTerminalState (inv_lifecycle_state d) \<or> inv_lifecycle_state d = Recovery_Required \<longrightarrow>
        inv_execution_lease_id d = None \<and> inv_execution_lease_expires_at d = None \<and>
        inv_execution_owner d = None)"

lemma transitionHistoryEntry_Inr:
  assumes "transitionHistoryEntry f t opts = Inr e"
  shows "he_from e = f \<and> he_to e = t \<and> he_at e = op_now opts"
  using assms by (auto simp: transitionHistoryEntry_def bindE_Inr_iff)

lemma apply_outcome_frame [simp]:
  "inv_lifecycle_state (apply_outcome os d) = inv_lifecycle_state d"
  "inv_status (apply_outcome os d) = inv_status d"
  "inv_last_transition_at (apply_outcome os d) = inv_last_transition_at d"
  "inv_timestamps (apply_outcome os d) = inv_timestamps d"
  "inv_state_history (apply_outcome os d) = inv_state_history d"
  "inv_version (apply_outcome os d) = inv_version d"
  "inv_workspace (apply_outcome os d) = inv_workspace d"
  "inv_terminal_at (apply_outcome os d) = inv_terminal_at d"
  "inv_execution_lease_id (apply_outcome os d) = inv_execution_lease_id d"
  "inv_execution_lease_expires_at (apply_outcome os d) = inv_execution_lease_expires_at d"
  "inv_execution_owner (apply_outcome os d) = inv_execution_owner d"
  "inv_cancellation_state (apply_outcome os d) = inv_cancellation_state d"
  by (simp_all add: apply_outcome_def)

lemmas transition_set_defs =
  transition_set_def base_set_def terminal_set_def retry_set_def recovery_set_def lease_unset_def

lemma transition_set_frame [simp]:
  "inv_lifecycle_state (transition_set to sch rr e os d) = to"
  "inv_status (transition_set to sch rr e os d) = LIFECYCLE_STATE_TO_LEGACY_STATUS to"
  "inv_last_transition_at (transition_set to sch rr e os d) = he_at e"
  "inv_timestamps (transition_set to sch rr e os d) =
     (inv_timestamps d)(LIFECYCLE_TIMESTAMP_FIELDS to \<mapsto> he_at e)"
  "inv_state_history (transition_set to sch rr e os d) =
     push_slice MAX_INVOCATION_STATE_HISTORY e (inv_state_history d)"
  "inv_version (transition_set to sch rr e os d) = inv_version d + 1"
  "inv_workspace (transition_set to sch rr e os d) = inv_workspace d"
  "inv_cancellation_state (transition_set to sch rr e os d) = inv_cancellation_state d"
  "isTerminalState to \<Longrightarrow> inv_terminal_at (transition_set to sch rr e os d) = Some (he_at e)"
  by (simp_all add: transition_set_defs)

lemma transition_set_lease:
  "inv_execution_lease_id (transition_set to sch rr e os d) =
     (if isTerminalState to \<or> to = Recovery_Required then None else inv_execution_lease_id d)"
  "inv_execution_lease_expires_at (transition_set to sch rr e os d) =
     (if isTerminalState to \<or> to = Recovery_Required then None else inv_execution_lease_expires_at d)"
  "inv_execution_owner (transition_set to sch rr e os d) =
     (if isTerminalState to \<or> to = Recovery_Required then None else inv_execution_owner d)"
  by (simp_all add: transition_set_defs)

lemma transition_set_ok:
  assumes "he_to e = to"
  shows "invocation_ok (transition_set to sch rr e os d)"
  using assms push_slice_last [of MAX_INVOCATION_STATE_HISTORY e "inv_state_history d"]
    push_slice_length [of MAX_INVOCATION_STATE_HISTORY e "inv_state_history d"]
  by (simp add: invocation_ok_def transition_set_lease MAX_INVOCATION_STATE_HISTORY_def)

lemma transitionUpdate_Inr:
  assumes "transitionUpdate redact m n opts = Inr (e, u)"
  obtains s t os rr where "m = istate_name s" "n = istate_name t"
    "t \<in> set (ALLOWED_INVOCATION_TRANSITIONS s)" "he_from e = Some s" "he_to e = t"
    "he_at e = op_now opts" "safeOutcomeSet redact (op_outcome opts) = Inr os"
    "u = transition_set t (outcome_has_schedule opts) rr e os"
    "t = Recovery_Required \<Longrightarrow> \<exists>c. rr = Some c \<and> SAFE_CODE_PATTERN c"
proof -
  from assms obtain st where st: "assertTransition m n = Inr st"
    by (auto simp: transitionUpdate_def bindE_Inr_iff)
  obtain s t where steq: "st = (s, t)" by (cases st)
  from assms st steq obtain os rr where r: "transitionHistoryEntry (Some s) t opts = Inr e"
    "safeOutcomeSet redact (op_outcome opts) = Inr os"
    "(if t = Recovery_Required then safeReasonCode (op_reason_code opts) True else Inr None) = Inr rr"
    "u = transition_set t (outcome_has_schedule opts) rr e os"
    by (auto simp: transitionUpdate_def bindE_Inr_iff)
  from r(3) have "t = Recovery_Required \<Longrightarrow> \<exists>c. rr = Some c \<and> SAFE_CODE_PATTERN c"
    by (auto dest: safeReasonCode_required)
  with r st steq that transitionHistoryEntry_Inr [OF r(1)] assertTransition_Inr [of m n s t]
  show ?thesis by blast
qed

subsection \<open>The service operations\<close>

text \<open>
  An operation that makes several database calls meets whatever other processes did in
  between: \<open>env i db\<close> is the database its \<open>i\<close>-th call finds when the calls before left \<open>db\<close>.
\<close>

definition executionOwnershipPredicate ::
  "'j op_options \<Rightarrow> ('j invocation \<Rightarrow> bool) res" where
  "executionOwnershipPredicate opts =
     (if op_execution_owner opts = None \<and> op_execution_lease_id opts = None
      then Inr (\<lambda>_. True)
      else bindE (requiredIdentifier (op_execution_owner opts) ''executionOwner'') (\<lambda>owner.
           bindE (requiredIdentifier (op_execution_lease_id opts) ''executionLeaseId'') (\<lambda>lease.
           Inr (\<lambda>d. inv_execution_owner d = Some owner \<and> inv_execution_lease_id d = Some lease \<and>
             (case inv_execution_lease_expires_at d of None \<Rightarrow> False | Some t \<Rightarrow> op_now opts < t)))))"

definition op_identity :: "'j op_options \<Rightarrow> (string \<times> string) res" where
  "op_identity opts =
     bindE (requiredIdentifier (op_invocation_id opts) ''invocationId'') (\<lambda>i.
     bindE (requiredIdentifier (op_workspace opts) ''receivingWorkspaceId'') (\<lambda>w. Inr (i, w)))"

definition transitionInvocation ::
  "(string, 'j invocation, 'db) store_ops \<Rightarrow> ('j \<Rightarrow> 'j) \<Rightarrow> (nat \<Rightarrow> 'db \<Rightarrow> 'db) \<Rightarrow>
   'j op_options \<Rightarrow> 'db \<Rightarrow> 'j invocation res \<times> 'db" where
  "transitionInvocation S redact env opts db =
     (case bindE (op_identity opts) (\<lambda>(i, w).
           bindE (transitionUpdate redact (op_from opts) (op_to opts) opts) (\<lambda>(entry, u).
           bindE (executionOwnershipPredicate opts) (\<lambda>owned. Inr (i, w, u, owned)))) of
        Inl e \<Rightarrow> (Inl e, db)
      | Inr (i, w, u, owned) \<Rightarrow>
          (case st_find_one_and_update S i
              (\<lambda>d. inv_workspace d = w \<and> istate_name (inv_lifecycle_state d) = op_from opts \<and>
                   (op_to opts = ''succeeded'' \<longrightarrow>
                      inv_cancellation_state d \<notin> {Cancel_Requested, Cancel_Aborting}) \<and>
                   owned d) u db of
             (Some d, db1) \<Rightarrow> (Inr d, db1)
           | (None, db1) \<Rightarrow>
               (let db2 = env 1 db1 in
                case st_find_one S i (\<lambda>d. inv_workspace d = w) db2 of
                  None \<Rightarrow> (Inl (lifecycleError ''INVOCATION_NOT_FOUND''), db2)
                | Some _ \<Rightarrow> (Inl (lifecycleError ''INVOCATION_STATE_TRANSITION_INVALID''), db2))))"

text \<open>The loop both recovery marks share, over the states an execution can be lost in.\<close>

fun mark_recovery_loop ::
  "(string, 'j invocation, 'db) store_ops \<Rightarrow> ('j \<Rightarrow> 'j) \<Rightarrow> (nat \<Rightarrow> 'db \<Rightarrow> 'db) \<Rightarrow>
   'j op_options \<Rightarrow> string \<Rightarrow> string \<Rightarrow> ('j invocation \<Rightarrow> bool) \<Rightarrow> istate list \<Rightarrow> nat \<Rightarrow> 'db \<Rightarrow>
   'j invocation option res \<times> 'db" where
  "mark_recovery_loop S redact env opts i w owned [] n db = (Inr None, db)"
| "mark_recovery_loop S redact env opts i w owned (s # ss) n db =
     (case transitionUpdate redact (istate_name s) ''recovery_required'' opts of
        Inl e \<Rightarrow> (Inl e, db)
      | Inr (entry, u) \<Rightarrow>
          (case st_find_one_and_update S i
              (\<lambda>d. inv_workspace d = w \<and> inv_lifecycle_state d = s \<and> owned d) u (env n db) of
             (Some d, db1) \<Rightarrow> (Inr (Some d), db1)
           | (None, db1) \<Rightarrow> mark_recovery_loop S redact env opts i w owned ss (Suc n) db1))"

declare mark_recovery_loop.simps [simp del]

definition lease_expired_at :: "int \<Rightarrow> 'j invocation \<Rightarrow> bool" where
  "lease_expired_at now d =
     (case inv_execution_lease_expires_at d of None \<Rightarrow> False | Some t \<Rightarrow> t \<le> now)"

definition markExpiredInvocationLeaseRecovery ::
  "(string, 'j invocation, 'db) store_ops \<Rightarrow> ('j \<Rightarrow> 'j) \<Rightarrow> (nat \<Rightarrow> 'db \<Rightarrow> 'db) \<Rightarrow> nat \<Rightarrow>
   'j op_options \<Rightarrow> 'db \<Rightarrow> 'j invocation option res \<times> 'db" where
  "markExpiredInvocationLeaseRecovery S redact env n opts db =
     (case op_identity opts of
        Inl e \<Rightarrow> (Inl e, db)
      | Inr (i, w) \<Rightarrow>
          mark_recovery_loop S redact env
            (opts\<lparr>op_reason_code := Some (or_default (op_reason_code opts) ''EXECUTION_LEASE_EXPIRED'')\<rparr>)
            i w (lease_expired_at (op_now opts)) [Running, Waiting_For_Runtime] n db)"

definition markActiveInvocationRecovery ::
  "(string, 'j invocation, 'db) store_ops \<Rightarrow> ('j \<Rightarrow> 'j) \<Rightarrow> (nat \<Rightarrow> 'db \<Rightarrow> 'db) \<Rightarrow>
   'j op_options \<Rightarrow> 'db \<Rightarrow> 'j invocation option res \<times> 'db" where
  "markActiveInvocationRecovery S redact env opts db =
     (let opts' = opts\<lparr>op_reason_code :=
            Some (or_default (op_reason_code opts) ''SHUTDOWN_DURING_EXTERNAL_INVOCATION'')\<rparr>
      in case bindE (op_identity opts) (\<lambda>(i, w).
            bindE (transitionUpdate redact ''running'' ''recovery_required'' opts') (\<lambda>_.
            bindE (executionOwnershipPredicate opts) (\<lambda>owned. Inr (i, w, owned)))) of
        Inl e \<Rightarrow> (Inl e, db)
      | Inr (i, w, owned) \<Rightarrow>
          mark_recovery_loop S redact env opts' i w owned [Running, Waiting_For_Runtime] 0 db)"

definition lease_duration :: "jsnum option \<Rightarrow> int \<Rightarrow> int res" where
  "lease_duration v configured =
     (let x = (case v of None \<Rightarrow> num_of_int configured
               | Some y \<Rightarrow> if y = Fin 0 \<or> y = NaN then num_of_int configured else y)
      in case js_integer x of
           None \<Rightarrow> Inl (validation_error ''leaseDurationMs'')
         | Some i \<Rightarrow> if i < 1000 then Inl (validation_error ''leaseDurationMs'') else Inr i)"

definition renewInvocationExecutionLease ::
  "(string, 'j invocation, 'db) store_ops \<Rightarrow> int \<Rightarrow> 'j op_options \<Rightarrow> 'db \<Rightarrow>
   ('j invocation \<times> int) option res \<times> 'db" where
  "renewInvocationExecutionLease S configured opts db =
     (case bindE (op_identity opts) (\<lambda>(i, w).
           bindE (requiredIdentifier (op_execution_owner opts) ''executionOwner'') (\<lambda>owner.
           bindE (requiredIdentifier (op_execution_lease_id opts) ''executionLeaseId'') (\<lambda>lease.
           bindE (lease_duration (op_lease_duration_ms opts) configured) (\<lambda>duration.
           Inr (i, w, owner, lease, op_now opts + duration))))) of
        Inl e \<Rightarrow> (Inl e, db)
      | Inr (i, w, owner, lease, expires) \<Rightarrow>
          (case st_find_one_and_update S i
              (\<lambda>d. inv_workspace d = w \<and>
                   inv_lifecycle_state d \<in> {Running, Waiting_For_Runtime} \<and>
                   inv_execution_owner d = Some owner \<and> inv_execution_lease_id d = Some lease \<and>
                   (case inv_execution_lease_expires_at d of None \<Rightarrow> False | Some t \<Rightarrow> op_now opts < t))
              (\<lambda>d. d\<lparr>inv_execution_lease_expires_at := Some expires\<rparr>) db of
             (Some d, db1) \<Rightarrow> (Inr (Some (d, expires)), db1)
           | (None, db1) \<Rightarrow> (Inr None, db1)))"

definition claimable :: "int \<Rightarrow> 'j invocation \<Rightarrow> bool" where
  "claimable now d \<longleftrightarrow>
     inv_lifecycle_state d = Authorized \<and>
     (inv_execution_lease_id d = None \<or> inv_execution_lease_expires_at d = None \<or>
      lease_expired_at now d)"

definition claim_set ::
  "string \<Rightarrow> string \<Rightarrow> int \<Rightarrow> int \<Rightarrow> 'j invocation \<Rightarrow> 'j invocation" where
  "claim_set owner lease expires now d =
     d\<lparr>inv_execution_lease_id := Some lease, inv_execution_lease_expires_at := Some expires,
       inv_execution_owner := Some owner, inv_last_progress_at := Some now,
       inv_last_progress_stage := Some Stage_Execution_Claimed\<rparr>"

definition claimInvocationExecution ::
  "(string, 'j invocation, 'db) store_ops \<Rightarrow> ('j \<Rightarrow> 'j) \<Rightarrow> (nat \<Rightarrow> 'db \<Rightarrow> 'db) \<Rightarrow> int \<Rightarrow> string \<Rightarrow>
   'j op_options \<Rightarrow> 'db \<Rightarrow> ('j invocation \<times> string \<times> int) res \<times> 'db" where
  "claimInvocationExecution S redact env configured fresh opts db =
     (case bindE (op_identity opts) (\<lambda>(i, w).
           bindE (requiredIdentifier (op_execution_owner opts) ''executionOwner'') (\<lambda>owner.
           bindE (requiredIdentifier (Some (or_default (op_execution_lease_id opts) fresh)) ''executionLeaseId'') (\<lambda>lease.
           bindE (lease_duration (op_lease_duration_ms opts) configured) (\<lambda>duration.
           bindE (transitionUpdate redact ''authorized'' ''running''
               (opts\<lparr>op_reason_code := Some (or_default (op_reason_code opts) ''EXECUTION_CLAIMED'')\<rparr>))
             (\<lambda>(entry, u).
           Inr (i, w, owner, lease, op_now opts + duration, u)))))) of
        Inl e \<Rightarrow> (Inl e, db)
      | Inr (i, w, owner, lease, expires, u) \<Rightarrow>
          (case st_find_one_and_update S i
              (\<lambda>d. inv_workspace d = w \<and> claimable (op_now opts) d)
              (\<lambda>d. claim_set owner lease expires (op_now opts) (u d)) db of
             (Some d, db1) \<Rightarrow> (Inr (d, lease, expires), db1)
           | (None, db1) \<Rightarrow>
               (case markExpiredInvocationLeaseRecovery S redact env 1
                   (opts\<lparr>op_invocation_id := Some i, op_workspace := Some w,
                        op_reason_code := Some ''EXECUTION_LEASE_EXPIRED''\<rparr>) db1 of
                  (Inl e, db2) \<Rightarrow> (Inl e, db2)
                | (Inr (Some _), db2) \<Rightarrow> (Inl (lifecycleError ''INVOCATION_RECOVERY_REQUIRED''), db2)
                | (Inr None, db2) \<Rightarrow>
                    (let db3 = env 3 db2 in
                     case st_find_one S i (\<lambda>d. inv_workspace d = w) db3 of
                       None \<Rightarrow> (Inl (lifecycleError ''INVOCATION_NOT_FOUND''), db3)
                     | Some _ \<Rightarrow>
                         (Inl (lifecycleError ''INVOCATION_CONCURRENT_CLAIM_REJECTED''), db3)))))"

subsection \<open>What one atomic write does to a document\<close>

text \<open>
  The step relation of a single invocation document: a table transition, an execution claim
  (the transition to running with a fresh lease) or a lease renewal. Every operation above
  moves a document by these steps only (\<open>transition_op_steps\<close> and its companions), so an
  invariant of \<open>inv_step\<close> holds under every interleaving of the operations.
\<close>

inductive inv_step :: "'j invocation \<Rightarrow> 'j invocation \<Rightarrow> bool" where
  transition:
    "t \<in> set (ALLOWED_INVOCATION_TRANSITIONS (inv_lifecycle_state d)) \<Longrightarrow>
     he_from e = Some (inv_lifecycle_state d) \<Longrightarrow> he_to e = t \<Longrightarrow>
     inv_step d (transition_set t sch rr e os d)"
| claim:
    "claimable now d \<Longrightarrow> he_from e = Some Authorized \<Longrightarrow> he_to e = Running \<Longrightarrow> he_at e = now \<Longrightarrow>
     inv_step d (claim_set owner lease expires now (transition_set Running sch rr e os d))"
| renew:
    "inv_lifecycle_state d \<in> {Running, Waiting_For_Runtime} \<Longrightarrow>
     inv_execution_lease_expires_at d = Some t \<Longrightarrow>
     inv_step d (d\<lparr>inv_execution_lease_expires_at := Some expires\<rparr>)"

inductive_cases inv_stepE: "inv_step d d'"

lemma claim_set_frame [simp]:
  "inv_lifecycle_state (claim_set ow l ex now d) = inv_lifecycle_state d"
  "inv_status (claim_set ow l ex now d) = inv_status d"
  "inv_last_transition_at (claim_set ow l ex now d) = inv_last_transition_at d"
  "inv_timestamps (claim_set ow l ex now d) = inv_timestamps d"
  "inv_state_history (claim_set ow l ex now d) = inv_state_history d"
  "inv_version (claim_set ow l ex now d) = inv_version d"
  "inv_workspace (claim_set ow l ex now d) = inv_workspace d"
  "inv_terminal_at (claim_set ow l ex now d) = inv_terminal_at d"
  "inv_execution_owner (claim_set ow l ex now d) = Some ow"
  "inv_execution_lease_id (claim_set ow l ex now d) = Some l"
  "inv_execution_lease_expires_at (claim_set ow l ex now d) = Some ex"
  by (simp_all add: claim_set_def)

lemma inv_step_ok: "inv_step d d' \<Longrightarrow> invocation_ok d \<Longrightarrow> invocation_ok d'"
proof (induction rule: inv_step.induct)
  case (transition t d e sch rr os)
  then show ?case by (simp add: transition_set_ok)
next
  case (claim now d e owner lease expires sch rr os)
  then have "invocation_ok (transition_set Running sch rr e os d)" by (simp add: transition_set_ok)
  then show ?case by (simp add: invocation_ok_def)
next
  case (renew d t expires)
  then show ?case by (auto simp: invocation_ok_def)
qed

lemma inv_step_table:
  "inv_step d d' \<Longrightarrow>
   inv_lifecycle_state d' = inv_lifecycle_state d \<or>
   table_step ALLOWED_INVOCATION_TRANSITIONS (inv_lifecycle_state d) (inv_lifecycle_state d')"
  by (erule inv_stepE) (auto simp: table_step_def claimable_def)

lemma inv_step_version: "inv_step d d' \<Longrightarrow> inv_version d \<le> inv_version d'"
  by (erule inv_stepE) auto

lemma inv_step_version_state:
  "inv_step d d' \<Longrightarrow> inv_version d' = inv_version d \<Longrightarrow>
   inv_lifecycle_state d' = inv_lifecycle_state d \<and> inv_state_history d' = inv_state_history d"
  by (erule inv_stepE) auto

lemma inv_step_terminal: "inv_step d d' \<Longrightarrow> \<not> isTerminalState (inv_lifecycle_state d)"
  by (erule inv_stepE) (auto simp: isTerminal_iff_dead claimable_def)

lemma inv_steps_ok: "inv_step\<^sup>*\<^sup>* d d' \<Longrightarrow> invocation_ok d \<Longrightarrow> invocation_ok d'"
  by (induction rule: rtranclp_induct) (auto intro: inv_step_ok)

lemma inv_steps_table:
  "inv_step\<^sup>*\<^sup>* d d' \<Longrightarrow>
   table_run ALLOWED_INVOCATION_TRANSITIONS (inv_lifecycle_state d) (inv_lifecycle_state d')"
proof (induction rule: rtranclp_induct)
  case (step y z)
  then show ?case by (auto dest: inv_step_table intro: rtranclp.rtrancl_into_rtrancl)
qed simp

lemma inv_steps_terminal: "inv_step\<^sup>*\<^sup>* d d' \<Longrightarrow> isTerminalState (inv_lifecycle_state d) \<Longrightarrow> d' = d"
  by (erule converse_rtranclpE) (auto dest: inv_step_terminal)

text \<open>Once a document has left the state that a claimant saw, its version has grown.\<close>

lemma inv_steps_version_state:
  "inv_step\<^sup>*\<^sup>* d d' \<Longrightarrow> inv_version d \<le> inv_version d' \<and>
   (inv_version d' = inv_version d \<longrightarrow> inv_lifecycle_state d' = inv_lifecycle_state d)"
proof (induction rule: rtranclp_induct)
  case (step y z)
  then show ?case using inv_step_version [of y z] inv_step_version_state [of y z] by auto
qed simp

subsection \<open>The operations move documents by steps\<close>

text \<open>
  Each operation, run in an environment whose own writes move documents by steps, moves the
  collection by steps.
\<close>

abbreviation well_behaved ::
  "('db \<Rightarrow> string \<Rightarrow> 'j invocation option) \<Rightarrow> (nat \<Rightarrow> 'db \<Rightarrow> 'db) \<Rightarrow> bool" where
  "well_behaved view env \<equiv> \<forall>i db. collection_rel inv_step view db (env i db)"

lemma transition_op_steps:
  assumes S: "document_store S view" and env: "well_behaved view env"
    and r: "transitionInvocation S redact env opts db = (r, db')"
  shows "collection_rel inv_step view db db'"
proof (cases "bindE (op_identity opts) (\<lambda>(i, w).
           bindE (transitionUpdate redact (op_from opts) (op_to opts) opts) (\<lambda>(entry, u).
           bindE (executionOwnershipPredicate opts) (\<lambda>owned. Inr (i, w, u, owned))))")
  case (Inl e)
  with r show ?thesis by (simp add: transitionInvocation_def)
next
  case (Inr x)
  then obtain i w u owned e where x: "x = (i, w, u, owned)"
    and u: "transitionUpdate redact (op_from opts) (op_to opts) opts = Inr (e, u)"
    by (auto simp: bindE_Inr_iff)
  let ?p = "\<lambda>d. inv_workspace d = w \<and> istate_name (inv_lifecycle_state d) = op_from opts \<and>
      (op_to opts = ''succeeded'' \<longrightarrow> inv_cancellation_state d \<notin> {Cancel_Requested, Cancel_Aborting}) \<and>
      owned d"
  obtain r1 db1 where fau: "st_find_one_and_update S i ?p u db = (r1, db1)" by fastforce
  have step: "inv_step d (u d)" if "?p d" for d
    using u that by (elim transitionUpdate_Inr) (auto intro: inv_step.transition)
  have c1: "collection_rel inv_step view db db1"
    using document_store.update_collection_rel [OF S fau] step by blast
  from env have c2: "collection_rel inv_step view db1 (env 1 db1)" by simp
  have "db' \<in> {db1, env 1 db1}"
    using r fau unfolding transitionInvocation_def Inr x
    by (auto simp: Let_def split: option.splits)
  with c1 collection_rel_trans [OF c1 c2] show ?thesis by auto
qed

lemma mark_loop_steps:
  assumes S: "document_store S view" and env: "well_behaved view env"
    and r: "mark_recovery_loop S redact env opts i w owned ss n db = (r, db')"
  shows "collection_rel inv_step view db db'"
  using r
proof (induction ss arbitrary: n db)
  case Nil
  then show ?case by (simp add: mark_recovery_loop.simps)
next
  case (Cons s ss)
  show ?case
  proof (cases "transitionUpdate redact (istate_name s) ''recovery_required'' opts")
    case (Inl e)
    with Cons.prems show ?thesis by (simp add: mark_recovery_loop.simps)
  next
    case (Inr eu)
    then obtain e u where eu: "eu = (e, u)" by (cases eu)
    let ?p = "\<lambda>d. inv_workspace d = w \<and> inv_lifecycle_state d = s \<and> owned d"
    obtain r1 db1 where fau: "st_find_one_and_update S i ?p u (env n db) = (r1, db1)" by fastforce
    have step: "inv_step d (u d)" if "?p d" for d
      using Inr eu that by (auto elim!: transitionUpdate_Inr intro: inv_step.transition)
    have c0: "collection_rel inv_step view db (env n db)" using env by simp
    have c1: "collection_rel inv_step view (env n db) db1"
      using document_store.update_collection_rel [OF S fau] step by blast
    have c: "collection_rel inv_step view db db1" by (rule collection_rel_trans [OF c0 c1])
    show ?thesis
    proof (cases r1)
      case None
      with Cons.prems fau Inr eu
      have "mark_recovery_loop S redact env opts i w owned ss (Suc n) db1 = (r, db')"
        by (simp add: mark_recovery_loop.simps)
      then have "collection_rel inv_step view db1 db'" by (rule Cons.IH)
      with c show ?thesis by (rule collection_rel_trans)
    next
      case (Some d)
      with Cons.prems fau Inr eu c show ?thesis by (simp add: mark_recovery_loop.simps)
    qed
  qed
qed

lemma mark_expired_steps:
  assumes "document_store S view" "well_behaved view env"
    and "markExpiredInvocationLeaseRecovery S redact env n opts db = (r, db')"
  shows "collection_rel inv_step view db db'"
  using assms(3) mark_loop_steps [OF assms(1,2)]
  by (auto simp: markExpiredInvocationLeaseRecovery_def split: sum.splits prod.splits)

lemma mark_active_steps:
  assumes "document_store S view" "well_behaved view env"
    and "markActiveInvocationRecovery S redact env opts db = (r, db')"
  shows "collection_rel inv_step view db db'"
  using assms(3) mark_loop_steps [OF assms(1,2)]
  by (auto simp: markActiveInvocationRecovery_def Let_def split: sum.splits prod.splits)

lemma renew_steps:
  assumes S: "document_store S view"
    and r: "renewInvocationExecutionLease S configured opts db = (r, db')"
  shows "collection_rel inv_step view db db'"
proof (cases "bindE (op_identity opts) (\<lambda>(i, w).
           bindE (requiredIdentifier (op_execution_owner opts) ''executionOwner'') (\<lambda>owner.
           bindE (requiredIdentifier (op_execution_lease_id opts) ''executionLeaseId'') (\<lambda>lease.
           bindE (lease_duration (op_lease_duration_ms opts) configured) (\<lambda>duration.
           Inr (i, w, owner, lease, op_now opts + duration)))))")
  case (Inl e)
  with r show ?thesis by (simp add: renewInvocationExecutionLease_def)
next
  case (Inr x)
  then obtain i w owner lease expires where x: "x = (i, w, owner, lease, expires)" by (cases x)
  let ?p = "\<lambda>d. inv_workspace d = w \<and> inv_lifecycle_state d \<in> {Running, Waiting_For_Runtime} \<and>
     inv_execution_owner d = Some owner \<and> inv_execution_lease_id d = Some lease \<and>
     (case inv_execution_lease_expires_at d of None \<Rightarrow> False | Some t \<Rightarrow> op_now opts < t)"
  let ?u = "\<lambda>d. d\<lparr>inv_execution_lease_expires_at := Some expires\<rparr>"
  obtain r1 where fau: "st_find_one_and_update S i ?p ?u db = (r1, db')"
    using r unfolding renewInvocationExecutionLease_def Inr x
    by (fastforce split: prod.splits option.splits)
  have "inv_step d (?u d)" if "?p d" for d
    using that by (auto split: option.splits intro: inv_step.renew)
  then show ?thesis using document_store.update_collection_rel [OF S fau] by blast
qed

text \<open>The part of a claim before its first write: the checked arguments and the update.\<close>

lemma claim_prepared:
  assumes "claimInvocationExecution S redact env configured fresh opts db = (r, db')"
  obtains (invalid) e where "r = Inl e" "db' = db"
  | (prepared) i w owner lease expires entry u r1 db1
  where "op_identity opts = Inr (i, w)"
    "transitionUpdate redact ''authorized'' ''running''
       (opts\<lparr>op_reason_code := Some (or_default (op_reason_code opts) ''EXECUTION_CLAIMED'')\<rparr>) =
     Inr (entry, u)"
    "op_now opts + 1000 \<le> expires"
    "st_find_one_and_update S i (\<lambda>d. inv_workspace d = w \<and> claimable (op_now opts) d)
       (\<lambda>d. claim_set owner lease expires (op_now opts) (u d)) db = (r1, db1)"
    "case r1 of
       Some d \<Rightarrow> r = Inr (d, lease, expires) \<and> db' = db1
     | None \<Rightarrow>
         (case markExpiredInvocationLeaseRecovery S redact env 1
             (opts\<lparr>op_invocation_id := Some i, op_workspace := Some w,
                  op_reason_code := Some ''EXECUTION_LEASE_EXPIRED''\<rparr>) db1 of
            (Inl e, db2) \<Rightarrow> r = Inl e \<and> db' = db2
          | (Inr (Some d), db2) \<Rightarrow>
              r = Inl (lifecycleError ''INVOCATION_RECOVERY_REQUIRED'') \<and> db' = db2
          | (Inr None, db2) \<Rightarrow>
              db' = env 3 db2 \<and>
              (r = Inl (lifecycleError ''INVOCATION_NOT_FOUND'') \<or>
               r = Inl (lifecycleError ''INVOCATION_CONCURRENT_CLAIM_REJECTED'')))"
proof -
  let ?prep = "bindE (op_identity opts) (\<lambda>(i, w).
           bindE (requiredIdentifier (op_execution_owner opts) ''executionOwner'') (\<lambda>owner.
           bindE (requiredIdentifier (Some (or_default (op_execution_lease_id opts) fresh)) ''executionLeaseId'') (\<lambda>lease.
           bindE (lease_duration (op_lease_duration_ms opts) configured) (\<lambda>duration.
           bindE (transitionUpdate redact ''authorized'' ''running''
               (opts\<lparr>op_reason_code := Some (or_default (op_reason_code opts) ''EXECUTION_CLAIMED'')\<rparr>))
             (\<lambda>(entry, u).
           Inr (i, w, owner, lease, op_now opts + duration, u))))))"
  show ?thesis
  proof (cases ?prep)
    case (Inl e)
    with assms have "r = Inl e" "db' = db" by (simp_all add: claimInvocationExecution_def)
    then show ?thesis by (rule invalid)
  next
    case (Inr x)
    then obtain i w owner lease duration entry u where x: "x = (i, w, owner, lease, op_now opts + duration, u)"
      and ident: "op_identity opts = Inr (i, w)"
      and dur: "lease_duration (op_lease_duration_ms opts) configured = Inr duration"
      and upd: "transitionUpdate redact ''authorized'' ''running''
       (opts\<lparr>op_reason_code := Some (or_default (op_reason_code opts) ''EXECUTION_CLAIMED'')\<rparr>) =
        Inr (entry, u)"
      by (auto simp: bindE_Inr_iff)
    from dur have ex: "op_now opts + 1000 \<le> op_now opts + duration"
      by (auto simp: lease_duration_def Let_def split: option.splits if_splits)
    obtain r1 db1 where fau: "st_find_one_and_update S i
        (\<lambda>d. inv_workspace d = w \<and> claimable (op_now opts) d)
        (\<lambda>d. claim_set owner lease (op_now opts + duration) (op_now opts) (u d)) db = (r1, db1)"
      by fastforce
    show ?thesis
      by (rule prepared [OF ident upd ex fau])
        (use assms fau Inr x in \<open>auto simp: claimInvocationExecution_def Let_def
           split: option.splits sum.splits prod.splits\<close>)
  qed
qed

lemma claim_update_step:
  assumes "transitionUpdate redact ''authorized'' ''running'' opts = Inr (e, u)"
    and "claimable (op_now opts) d"
  shows "inv_step d (claim_set owner lease expires (op_now opts) (u d))"
proof -
  from assms(1) show ?thesis
  proof (rule transitionUpdate_Inr)
    fix s t os rr
    assume eqs: "''authorized'' = istate_name s" "''running'' = istate_name t"
      and e: "he_from e = Some s" "he_to e = t" "he_at e = op_now opts"
      and u: "u = transition_set t (outcome_has_schedule opts) rr e os"
    from eqs have "s = Authorized" "t = Running" by simp_all
    with e u assms(2) show ?thesis by (auto intro: inv_step.claim)
  qed
qed

lemma claim_steps:
  assumes S: "document_store S view" and env: "well_behaved view env"
    and r: "claimInvocationExecution S redact env configured fresh opts db = (r, db')"
  shows "collection_rel inv_step view db db'"
  using r
proof (cases rule: claim_prepared)
  case (invalid e)
  then show ?thesis by simp
next
  case (prepared i w owner lease expires entry u r1 db1)
  have "inv_step d (claim_set owner lease expires (op_now opts) (u d))"
    if "claimable (op_now opts) d" for d
    using claim_update_step [OF prepared(2), of d owner lease expires] that by simp
  then have c1: "collection_rel inv_step view db db1"
    using document_store.update_collection_rel [OF S prepared(4)] by blast
  show ?thesis
  proof (cases r1)
    case (Some d)
    with prepared(5) c1 show ?thesis by simp
  next
    case None
    obtain r2 db2 where mark: "markExpiredInvocationLeaseRecovery S redact env 1
        (opts\<lparr>op_invocation_id := Some i, op_workspace := Some w,
           op_reason_code := Some ''EXECUTION_LEASE_EXPIRED''\<rparr>) db1 = (r2, db2)"
      by fastforce
    have c2: "collection_rel inv_step view db1 db2" by (rule mark_expired_steps [OF S env mark])
    have c3: "collection_rel inv_step view db2 (env 3 db2)" using env by simp
    from None prepared(5) mark have "db' = db2 \<or> db' = env 3 db2"
      by (auto split: sum.splits option.splits)
    with collection_rel_trans [OF c1 c2] collection_rel_trans [OF collection_rel_trans [OF c1 c2] c3]
    show ?thesis by blast
  qed
qed

lemma claim_success:
  assumes S: "document_store S view"
    and r: "claimInvocationExecution S redact env configured fresh opts db = (Inr (d, lease, expires), db')"
  obtains i w d0 where "op_identity opts = Inr (i, w)" "view db i = Some d0" "claimable (op_now opts) d0"
    "view db' i = Some d" "inv_step d0 d" "inv_lifecycle_state d = Running"
    "inv_execution_lease_id d = Some lease" "inv_execution_lease_expires_at d = Some expires"
    "inv_version d = inv_version d0 + 1" "op_now opts + 1000 \<le> expires"
  using r
proof (cases rule: claim_prepared)
  case (invalid e)
  then show ?thesis by simp
next
  case (prepared i w owner l ex entry u r1 db1)
  have "r1 \<noteq> None"
  proof
    assume none: "r1 = None"
    obtain r2 db2 where mark: "markExpiredInvocationLeaseRecovery S redact env 1
        (opts\<lparr>op_invocation_id := Some i, op_workspace := Some w,
           op_reason_code := Some ''EXECUTION_LEASE_EXPIRED''\<rparr>) db1 = (r2, db2)"
      by fastforce
    show False
    proof (cases r2)
      case (Inl e)
      with prepared(5) none mark show ?thesis by simp
    next
      case (Inr m)
      with prepared(5) none mark show ?thesis by (cases m) simp_all
    qed
  qed
  then obtain d1 where "r1 = Some d1" by blast
  with prepared(5) have d1: "r1 = Some d" "l = lease" "ex = expires" "db' = db1" by simp_all
  from prepared(4) d1(1) obtain d0 where d0: "view db i = Some d0" "claimable (op_now opts) d0"
    "d = claim_set owner l ex (op_now opts) (u d0)" "view db1 = (view db)(i \<mapsto> d)"
    by (auto elim: document_store.update_Some [OF S])
  have st: "inv_step d0 d"
    using claim_update_step [OF prepared(2), of d0 owner l ex] d0 by simp
  from prepared(2) have run: "inv_lifecycle_state d = Running" "inv_version d = inv_version d0 + 1"
    unfolding d0(3)
    by (auto elim!: transitionUpdate_Inr)
  from d0 d1 run st prepared(1,3) that [of i w d0] show ?thesis by auto
qed

subsection \<open>Runs of the service\<close>

datatype 'j command =
    Do_Transition "'j op_options"
  | Do_Claim int string "'j op_options"
  | Do_Renew int "'j op_options"
  | Do_Mark_Expired "'j op_options"
  | Do_Mark_Active "'j op_options"

fun exec_command ::
  "(string, 'j invocation, 'db) store_ops \<Rightarrow> ('j \<Rightarrow> 'j) \<Rightarrow> (nat \<Rightarrow> 'db \<Rightarrow> 'db) \<Rightarrow> 'j command \<Rightarrow> 'db \<Rightarrow> 'db"
where
  "exec_command S redact env (Do_Transition opts) db = snd (transitionInvocation S redact env opts db)"
| "exec_command S redact env (Do_Claim configured fresh opts) db =
     snd (claimInvocationExecution S redact env configured fresh opts db)"
| "exec_command S redact env (Do_Renew configured opts) db =
     snd (renewInvocationExecutionLease S configured opts db)"
| "exec_command S redact env (Do_Mark_Expired opts) db =
     snd (markExpiredInvocationLeaseRecovery S redact env 0 opts db)"
| "exec_command S redact env (Do_Mark_Active opts) db =
     snd (markActiveInvocationRecovery S redact env opts db)"

definition exec_commands ::
  "(string, 'j invocation, 'db) store_ops \<Rightarrow> ('j \<Rightarrow> 'j) \<Rightarrow> (nat \<Rightarrow> 'db \<Rightarrow> 'db) \<Rightarrow>
   'j command list \<Rightarrow> 'db \<Rightarrow> 'db" where
  "exec_commands S redact env cs db = fold (exec_command S redact env) cs db"

lemma exec_command_steps:
  assumes "document_store S view" "well_behaved view env"
  shows "collection_rel inv_step view db (exec_command S redact env c db)"
  by (cases c)
    (auto intro: transition_op_steps [OF assms] claim_steps [OF assms] renew_steps [OF assms(1)]
       mark_expired_steps [OF assms] mark_active_steps [OF assms] surjective_pairing)

lemma exec_commands_steps:
  assumes "document_store S view" "well_behaved view env"
  shows "collection_rel inv_step view db (exec_commands S redact env cs db)"
proof (induction cs arbitrary: db)
  case Nil
  then show ?case by (simp add: exec_commands_def)
next
  case (Cons c cs)
  from collection_rel_trans [OF exec_command_steps [OF assms, of db redact c] Cons.IH]
  show ?case by (simp add: exec_commands_def)
qed

definition collection_ok :: "('db \<Rightarrow> string \<Rightarrow> 'j invocation option) \<Rightarrow> 'db \<Rightarrow> string set \<Rightarrow> bool" where
  "collection_ok view db K \<longleftrightarrow> (\<forall>k\<in>K. \<exists>d. view db k = Some d \<and> invocation_ok d)"

lemma collection_rel_ok:
  "collection_rel inv_step view db db' \<Longrightarrow> collection_ok view db K \<Longrightarrow> collection_ok view db' K"
  by (fastforce simp: collection_ok_def dest: collection_relD inv_steps_ok)

text \<open>An execution lost to another state is only claimable again through these two states.\<close>

lemma running_to_authorized:
  assumes "inv_step\<^sup>*\<^sup>* d d'" "inv_lifecycle_state d \<in> {Running, Waiting_For_Runtime}"
    "inv_lifecycle_state d' \<notin> {Running, Waiting_For_Runtime}"
    "\<not> isTerminalState (inv_lifecycle_state d')"
  shows "\<exists>m. inv_step\<^sup>*\<^sup>* d m \<and> inv_step\<^sup>*\<^sup>* m d' \<and>
           inv_lifecycle_state m \<in> {Retry_Scheduled, Recovery_Required}"
  using assms
proof (induction rule: converse_rtranclp_induct)
  case base
  then show ?case by simp
next
  case (step y z)
  show ?case
  proof (cases "inv_lifecycle_state z \<in> {Running, Waiting_For_Runtime}")
    case True
    with step obtain m where "inv_step\<^sup>*\<^sup>* z m" "inv_step\<^sup>*\<^sup>* m d'"
      "inv_lifecycle_state m \<in> {Retry_Scheduled, Recovery_Required}" by blast
    with step.hyps(1) show ?thesis by (meson converse_rtranclp_into_rtranclp)
  next
    case False
    have "\<not> isTerminalState (inv_lifecycle_state z)"
    proof
      assume "isTerminalState (inv_lifecycle_state z)"
      with step.hyps(2) have "d' = z" by (rule inv_steps_terminal)
      with \<open>isTerminalState (inv_lifecycle_state z)\<close> step.prems show False by simp
    qed
    with False inv_step_table [OF step.hyps(1)] step.prems(1)
    have "inv_lifecycle_state z \<in> {Retry_Scheduled, Recovery_Required}"
      by (auto simp: table_step_def)
    with step.hyps show ?thesis by blast
  qed
qed

lemma mark_expired_executing:
  assumes S: "document_store S view" and i: "op_identity opts = Inr (i, w)"
    and d: "view db i = Some d" "inv_lifecycle_state d \<in> {Running, Waiting_For_Runtime}"
      "inv_workspace d = w"
    and r: "markExpiredInvocationLeaseRecovery S redact (\<lambda>_ db. db) n opts db = (r, db')"
  shows "(\<exists>e. r = Inl e) \<and> db' = db \<or>
         \<not> lease_expired_at (op_now opts) d \<and> r = Inr None \<and> db' = db \<or>
         lease_expired_at (op_now opts) d \<and>
           (\<exists>d'. r = Inr (Some d') \<and> view db' = (view db)(i \<mapsto> d') \<and>
              inv_lifecycle_state d' = Recovery_Required \<and> inv_step d d')"
proof -
  let ?opts = "opts\<lparr>op_reason_code := Some (or_default (op_reason_code opts) ''EXECUTION_LEASE_EXPIRED'')\<rparr>"
  let ?p = "\<lambda>s d. inv_workspace d = w \<and> inv_lifecycle_state d = s \<and> lease_expired_at (op_now opts) d"
  have r': "mark_recovery_loop S redact (\<lambda>_ db. db) ?opts i w (lease_expired_at (op_now opts))
      [Running, Waiting_For_Runtime] n db = (r, db')"
    using r i by (simp add: markExpiredInvocationLeaseRecovery_def)
  have miss: "st_find_one_and_update S i (?p s) u db = (None, db)"
    if "\<not> ?p s d" for s u
    using document_store.update_miss [OF S, of db i d "?p s" u] d that by blast
  have hit: "\<exists>db1. st_find_one_and_update S i (?p s) u db = (Some (u d), db1) \<and>
      view db1 = (view db)(i \<mapsto> u d)" if "?p s d" for s u
    using document_store.update_hit [OF S, of db i d "?p s" u] d that
    by (cases "st_find_one_and_update S i (?p s) u db") auto
  have step: "inv_lifecycle_state (u d) = Recovery_Required \<and> inv_step d (u d)"
    if "transitionUpdate redact (istate_name s) ''recovery_required'' ?opts = Inr (e, u)"
      "inv_lifecycle_state d = s" for s e u
    using that by (auto elim!: transitionUpdate_Inr intro: inv_step.transition)
  show ?thesis
  proof (cases "transitionUpdate redact (istate_name Running) ''recovery_required'' ?opts")
    case (Inl e)
    with r' show ?thesis by (auto simp: mark_recovery_loop.simps)
  next
    case (Inr eu)
    then obtain e u where eu: "transitionUpdate redact ''running'' ''recovery_required'' ?opts = Inr (e, u)"
      by (cases eu) auto
    show ?thesis
    proof (cases "?p Running d")
      case True
      with hit [OF True, of u] r' eu step [of Running e u] show ?thesis
        by (auto simp: mark_recovery_loop.simps)
    next
      case False
      with r' eu miss [OF False, of u]
      have r'': "mark_recovery_loop S redact (\<lambda>_ db. db) ?opts i w (lease_expired_at (op_now opts))
        [Waiting_For_Runtime] (Suc n) db = (r, db')"
        by (simp add: mark_recovery_loop.simps)
      show ?thesis
      proof (cases "transitionUpdate redact (istate_name Waiting_For_Runtime) ''recovery_required'' ?opts")
        case (Inl e2)
        with r'' show ?thesis by (auto simp: mark_recovery_loop.simps)
      next
        case (Inr eu2)
        then obtain e2 u2 where eu2:
          "transitionUpdate redact (istate_name Waiting_For_Runtime) ''recovery_required'' ?opts = Inr (e2, u2)"
          by (cases eu2) auto
        show ?thesis
        proof (cases "?p Waiting_For_Runtime d")
          case True
          with hit [OF True, of u2] r'' eu2 step [OF eu2] show ?thesis
            by (auto simp: mark_recovery_loop.simps)
        next
          case F2: False
          with False d have "\<not> lease_expired_at (op_now opts) d" by auto
          moreover from r'' eu2 miss [OF F2, of u2] have "r = Inr None \<and> db' = db"
            by (simp add: mark_recovery_loop.simps)
          ultimately show ?thesis by blast
        qed
      qed
    qed
  qed
qed

subsection \<open>A concrete invocation\<close>

definition sample_invocation :: "unit invocation" where
  "sample_invocation =
     \<lparr>inv_workspace = ''ws-1'', inv_lifecycle_state = Authorized, inv_status = Legacy_Queued,
      inv_last_transition_at = 100,
      inv_timestamps = [''acceptedAt'' \<mapsto> 90, ''authorizedAt'' \<mapsto> 100],
      inv_state_history =
        [\<lparr>he_from = Some Validating, he_to = Authorized, he_at = 100, he_reason_code = None,
          he_attempt_number = None, he_trace_id = None, he_request_id = None\<rparr>],
      inv_version = 2, inv_terminal_at = None, inv_terminalized_at = None,
      inv_last_progress_at = Some 100, inv_last_progress_stage = Some Stage_Authorized,
      inv_retry_state = Retry_Not_Evaluated, inv_retry_decision_reason = None,
      inv_retry_scheduled_at = None, inv_recovery_reason_code = None,
      inv_recovery_state = Recovery_Not_Required, inv_recovery_eligible = False,
      inv_recovery_decision = Decision_Not_Evaluated, inv_recovery_decision_reason = None,
      inv_execution_lease_id = None, inv_execution_lease_expires_at = None,
      inv_execution_owner = None, inv_cancellation_state = Cancel_Not_Requested,
      inv_duration_ms = None, inv_attempt_count = None, inv_runtime_status = None,
      inv_output = None, inv_error = None, inv_stage_metrics = None\<rparr>"

definition sample_options :: "int \<Rightarrow> istate \<Rightarrow> istate \<Rightarrow> unit op_options" where
  "sample_options now s t =
     \<lparr>op_invocation_id = Some ''inv-1'', op_workspace = Some ''ws-1'',
      op_from = istate_name s, op_to = istate_name t, op_now = now, op_reason_code = None,
      op_attempt_number = None, op_trace_id = None, op_request_id = None, op_outcome = None,
      op_execution_owner = Some ''worker-1'', op_execution_lease_id = Some ''lease-1'',
      op_lease_duration_ms = Some (Fin 5000)\<rparr>"

definition sample_db :: "string \<Rightarrow> unit invocation option" where
  "sample_db = [''inv-1'' \<mapsto> sample_invocation]"

abbreviation quiet :: "nat \<Rightarrow> 'db \<Rightarrow> 'db" where
  "quiet \<equiv> \<lambda>_ db. db"

lemma quiet_well_behaved: "well_behaved view quiet"
  by simp

subsection \<open>Properties\<close>

text \<open>C1: Two successful execution claims of one invocation are separated by a release: between
  them the document passed through retry scheduling or recovery, and its version grew. However the
  calls of any number of workers of the lifecycle service interleave (the steps \<open>inv_step\<close>), no claim succeeds on an invocation that is
  still being executed. The same with the two writers that leave no
  history is \<open>claims_are_separated_from_outside\<close> below; a replay of the durable queue, which schedules the retry and releases the
  invocation in one write, is not among these steps.\<close>

theorem claims_are_separated:
  assumes S: "document_store S view"
    and first: "claimInvocationExecution S redact env1 configured1 fresh1 opts1 db =
      (Inr (d1, lease1, expires1), db1)"
    and between: "collection_rel inv_step view db1 db2"
    and second: "claimInvocationExecution S redact env2 configured2 fresh2 opts2 db2 =
      (Inr (d2, lease2, expires2), db3)"
    and same: "op_identity opts1 = Inr (i, w1)" "op_identity opts2 = Inr (i, w2)"
  shows "\<exists>m b. inv_step\<^sup>*\<^sup>* d1 m \<and> inv_step\<^sup>*\<^sup>* m b \<and> view db2 i = Some b \<and>
           inv_lifecycle_state m \<in> {Retry_Scheduled, Recovery_Required} \<and>
           inv_lifecycle_state b = Authorized \<and> inv_version d1 < inv_version b"
proof -
  from claim_success [OF S first] same(1)
  have run: "view db1 i = Some d1" "inv_lifecycle_state d1 = Running" by auto
  from claim_success [OF S second] same(2)
  obtain b where b: "view db2 i = Some b" "claimable (op_now opts2) b" by auto
  from collection_relD [OF between run(1)] b(1) have steps: "inv_step\<^sup>*\<^sup>* d1 b" by simp
  from b(2) have auth: "inv_lifecycle_state b = Authorized" by (simp add: claimable_def)
  from running_to_authorized [OF steps] run(2) auth
  obtain m where "inv_step\<^sup>*\<^sup>* d1 m" "inv_step\<^sup>*\<^sup>* m b"
    "inv_lifecycle_state m \<in> {Retry_Scheduled, Recovery_Required}" by auto
  moreover from inv_steps_version_state [OF steps] run(2) auth
  have "inv_version d1 < inv_version b" by (cases "inv_version b = inv_version d1") auto
  ultimately show ?thesis using b(1) auth by blast
qed

text \<open>A claim on an invocation that is being executed never succeeds. While the lease lives
  the claim writes nothing; once it has expired the claim sends the invocation to
  recovery instead of executing it again, and clears the lease.\<close>

theorem claim_never_reexecutes:
  assumes S: "document_store S view"
    and i: "op_identity opts = Inr (i, w)"
    and d: "view db i = Some d" "inv_workspace d = w"
      "inv_lifecycle_state d \<in> {Running, Waiting_For_Runtime}"
    and r: "claimInvocationExecution S redact (\<lambda>_ db. db) configured fresh opts db = (r, db')"
  shows "(\<exists>e. r = Inl e) \<and>
         (db' = db \<or>
          lease_expired_at (op_now opts) d \<and>
          r = Inl (lifecycleError ''INVOCATION_RECOVERY_REQUIRED'') \<and>
          (\<exists>d'. view db' = (view db)(i \<mapsto> d') \<and> inv_lifecycle_state d' = Recovery_Required \<and>
                inv_step d d'))"
  using r
proof (cases rule: claim_prepared)
  case (invalid e)
  then show ?thesis by simp
next
  case (prepared i' w' owner lease expires entry u r1 db1)
  from prepared(1) i have eq: "i' = i" "w' = w" by simp_all
  from d have "\<not> (inv_workspace d = w \<and> claimable (op_now opts) d)" by (auto simp: claimable_def)
  with document_store.update_miss [OF S, of db i d] d(1) prepared(4) eq
  have none: "r1 = None" "db1 = db" by auto
  let ?opts = "opts\<lparr>op_invocation_id := Some i, op_workspace := Some w,
     op_reason_code := Some ''EXECUTION_LEASE_EXPIRED''\<rparr>"
  obtain r2 db2 where mark: "markExpiredInvocationLeaseRecovery S redact (\<lambda>_ db. db) 1 ?opts db = (r2, db2)"
    by fastforce
  show ?thesis
  proof (cases "op_identity ?opts")
    case (Inl e)
    with mark have "r2 = Inl e" "db2 = db" by (simp_all add: markExpiredInvocationLeaseRecovery_def)
    with prepared(5) none mark eq show ?thesis by simp
  next
    case (Inr iw)
    from i have iw: "iw = (i, w)"
      using Inr by (auto simp: op_identity_def bindE_Inr_iff requiredIdentifier_def
        safeOptionalIdentifier_def Let_def js_trim_idem split: if_splits)
    from mark_expired_executing [OF S _ d(1,3,2) mark] Inr iw
    show ?thesis using prepared(5) none mark eq
      by (cases r2) (auto split: option.splits)
  qed
qed

theorem claims_are_separated_witness:
  "\<exists>d1 m b. inv_step\<^sup>*\<^sup>* d1 m \<and> inv_step\<^sup>*\<^sup>* m b \<and>
     inv_lifecycle_state m \<in> {Retry_Scheduled, Recovery_Required} \<and>
     inv_lifecycle_state (b :: unit invocation) = Authorized \<and> inv_version d1 < inv_version b"
proof -
  let ?o1 = "sample_options 200 Authorized Running"
  let ?o2 = "sample_options 9000 Authorized Running"
  let ?cs = "[Do_Transition (sample_options 300 Running Retry_Scheduled),
    Do_Transition ((sample_options 8000 Retry_Scheduled Authorized)
      \<lparr>op_execution_owner := None, op_execution_lease_id := None\<rparr>)]"
  let ?claim = "claimInvocationExecution map_store id quiet 60000 ''lease-1''"
  let ?db1 = "snd (?claim ?o1 sample_db)"
  let ?db2 = "exec_commands map_store id quiet ?cs ?db1"
  have "\<not> isl (fst (?claim ?o1 sample_db))" by code_simp
  then obtain d1 l1 e1 where 1: "?claim ?o1 sample_db = (Inr (d1, l1, e1), ?db1)"
    by (metis sum.collapse(2) prod.collapse)
  have "\<not> isl (fst (?claim ?o2 ?db2))" by code_simp
  then obtain d2 l2 e2 where 2: "?claim ?o2 ?db2 = (Inr (d2, l2, e2), snd (?claim ?o2 ?db2))"
    by (metis sum.collapse(2) prod.collapse)
  have b: "collection_rel inv_step (\<lambda>db. db) ?db1 ?db2"
    by (rule exec_commands_steps [OF map_store_is_document_store quiet_well_behaved])
  have i: "op_identity ?o1 = Inr (''inv-1'', ''ws-1'')" "op_identity ?o2 = Inr (''inv-1'', ''ws-1'')"
    by code_simp+
  from claims_are_separated [OF map_store_is_document_store 1 b 2 i] show ?thesis by blast
qed

theorem claim_never_reexecutes_witness:
  "\<exists>e. fst (claimInvocationExecution map_store id quiet 60000 ''lease-2'' (sample_options 300 Authorized Running)
       [''inv-1'' \<mapsto> sample_invocation\<lparr>inv_lifecycle_state := Running,
          inv_execution_lease_expires_at := Some 5000\<rparr>]) = Inl e"
proof -
  let ?d = "sample_invocation\<lparr>inv_lifecycle_state := Running,
          inv_execution_lease_expires_at := Some 5000\<rparr>"
  have i: "op_identity (sample_options 300 Authorized Running) = Inr (''inv-1'', ''ws-1'')" by code_simp
  have d: "[''inv-1'' \<mapsto> ?d] ''inv-1'' = Some ?d" "inv_workspace ?d = ''ws-1''"
    "inv_lifecycle_state ?d \<in> {Running, Waiting_For_Runtime}"
    by (simp_all add: sample_invocation_def)
  obtain r db' where eq: "claimInvocationExecution map_store id quiet 60000 ''lease-2''
      (sample_options 300 Authorized Running) [''inv-1'' \<mapsto> ?d] = (r, db')"
    by (meson surj_pair)
  have "\<exists>e. r = Inl e"
    using claim_never_reexecutes [where db = "[''inv-1'' \<mapsto> ?d]" and d = ?d,
        OF map_store_is_document_store i d eq] by (elim conjE)
  with eq show ?thesis by simp
qed

text \<open>C22: Whatever sequence of service calls runs, with other processes of the lifecycle service writing in between (the steps
  \<open>inv_step\<close>, and not the writers outside the service, see below), every document keeps the invariant: its legacy status mirrors its state, its history is bounded by
  32 entries and ends in the current state, and terminal or recovering documents hold no lease.\<close>

theorem service_keeps_invocations_ok:
  assumes "document_store S view" and "well_behaved view env" and "collection_ok view db K"
  shows "collection_ok view (exec_commands S redact env cs db) K"
  by (rule collection_rel_ok [OF exec_commands_steps [OF assms(1,2)] assms(3)])

theorem service_keeps_invocations_ok_witness:
  "collection_ok (\<lambda>db. db) (exec_commands map_store id quiet
     [Do_Claim 60000 ''lease-1'' (sample_options 200 Authorized Running),
      Do_Transition (sample_options 300 Running Failed)] sample_db) {''inv-1''}"
proof -
  have "collection_ok (\<lambda>db. db) sample_db {''inv-1''}"
    by (simp add: collection_ok_def sample_db_def invocation_ok_def sample_invocation_def
        MAX_INVOCATION_STATE_HISTORY_def)
  then show ?thesis
    by (rule service_keeps_invocations_ok [OF map_store_is_document_store quiet_well_behaved])
qed

text \<open>A terminal invocation is frozen: no sequence of service calls changes anything in its
  document, and every invocation's state moves along the allowed-transition table only.\<close>

theorem terminal_invocations_are_frozen:
  assumes "document_store S view" and "well_behaved view env" and "view db k = Some d"
  shows "\<exists>d'. view (exec_commands S redact env cs db) k = Some d' \<and>
           table_run ALLOWED_INVOCATION_TRANSITIONS (inv_lifecycle_state d) (inv_lifecycle_state d') \<and>
           (isTerminalState (inv_lifecycle_state d) \<longrightarrow> d' = d)"
  using collection_relD [OF exec_commands_steps [OF assms(1,2)] assms(3)]
  by (blast dest: inv_steps_table inv_steps_terminal)

theorem terminal_invocations_are_frozen_witness:
  "exec_commands map_store id quiet
     [Do_Claim 60000 ''lease-1'' (sample_options 200 Authorized Running),
      Do_Transition (sample_options 300 Succeeded Failed)]
     [''inv-1'' \<mapsto> sample_invocation\<lparr>inv_lifecycle_state := Succeeded\<rparr>] ''inv-1'' =
   Some (sample_invocation\<lparr>inv_lifecycle_state := Succeeded\<rparr>)"
  using terminal_invocations_are_frozen [OF map_store_is_document_store quiet_well_behaved,
      of "[''inv-1'' \<mapsto> sample_invocation\<lparr>inv_lifecycle_state := Succeeded\<rparr>]" "''inv-1''"]
  by fastforce

text \<open>A successful transition found the invocation in the state the caller named, the table
  allows the move, a success was not recorded over a pending cancellation, the
  execution lease the caller claims to hold was the live one, and exactly that document
  was replaced, its version one higher; a failed transition wrote nothing.\<close>

theorem transition_contract:
  assumes S: "document_store S view"
    and r: "transitionInvocation S redact env opts db = (r, db')"
  shows "(case r of
            Inl e \<Rightarrow> db' = db \<or> db' = env 1 db
          | Inr d' \<Rightarrow> \<exists>i w d. op_identity opts = Inr (i, w) \<and> view db i = Some d \<and>
              inv_workspace d = w \<and> istate_name (inv_lifecycle_state d) = op_from opts \<and>
              istate_name (inv_lifecycle_state d') = op_to opts \<and>
              inv_lifecycle_state d' \<in> set (ALLOWED_INVOCATION_TRANSITIONS (inv_lifecycle_state d)) \<and>
              (inv_lifecycle_state d' = Succeeded \<longrightarrow>
                 inv_cancellation_state d \<notin> {Cancel_Requested, Cancel_Aborting}) \<and>
              (op_execution_owner opts \<noteq> None \<longrightarrow>
                 inv_execution_lease_id d \<noteq> None \<and> \<not> lease_expired_at (op_now opts) d) \<and>
              view db' = (view db)(i \<mapsto> d') \<and> inv_version d' = inv_version d + 1)"
proof (cases "bindE (op_identity opts) (\<lambda>(i, w).
           bindE (transitionUpdate redact (op_from opts) (op_to opts) opts) (\<lambda>(entry, u).
           bindE (executionOwnershipPredicate opts) (\<lambda>owned. Inr (i, w, u, owned))))")
  case (Inl e)
  with r show ?thesis by (auto simp: transitionInvocation_def)
next
  case (Inr x)
  then obtain i w e u owned where x: "x = (i, w, u, owned)" and i: "op_identity opts = Inr (i, w)"
    and u: "transitionUpdate redact (op_from opts) (op_to opts) opts = Inr (e, u)"
    and o1: "executionOwnershipPredicate opts = Inr owned"
    by (auto simp: bindE_Inr_iff)
  let ?p = "\<lambda>d. inv_workspace d = w \<and> istate_name (inv_lifecycle_state d) = op_from opts \<and>
      (op_to opts = ''succeeded'' \<longrightarrow> inv_cancellation_state d \<notin> {Cancel_Requested, Cancel_Aborting}) \<and>
      owned d"
  obtain r1 db1 where fau: "st_find_one_and_update S i ?p u db = (r1, db1)" by fastforce
  show ?thesis
  proof (cases r1)
    case None
    with fau have "db1 = db" by (simp add: document_store.update_None_unchanged [OF S])
    with None r fau Inr x show ?thesis
      by (auto simp: transitionInvocation_def Let_def split: option.splits)
  next
    case (Some d')
    with r fau Inr x have res: "r = Inr d'" "db' = db1" by (simp_all add: transitionInvocation_def)
    from fau Some obtain d where d: "view db i = Some d" "?p d" "d' = u d" "view db1 = (view db)(i \<mapsto> d')"
      by (auto elim: document_store.update_Some [OF S])
    from u obtain s t os rr where t: "op_from opts = istate_name s" "op_to opts = istate_name t"
      "t \<in> set (ALLOWED_INVOCATION_TRANSITIONS s)"
      "u = transition_set t (outcome_has_schedule opts) rr e os"
      by (auto elim!: transitionUpdate_Inr)
    have lease: "op_execution_owner opts \<noteq> None \<longrightarrow>
        inv_execution_lease_id d \<noteq> None \<and> \<not> lease_expired_at (op_now opts) d"
      using o1 d(2) by (auto simp: executionOwnershipPredicate_def lease_expired_at_def bindE_Inr_iff
          split: if_splits option.splits)
    show ?thesis unfolding res sum.case using i d t lease by (intro exI [of _ i] exI [of _ w] exI [of _ d]) auto
  qed
qed

theorem transition_contract_witness:
  "\<exists>d'. fst (transitionInvocation map_store id quiet
      ((sample_options 300 Authorized Failed)\<lparr>op_execution_owner := None, op_execution_lease_id := None\<rparr>)
      sample_db) = Inr d' \<and> istate_name (inv_lifecycle_state d') = ''failed''"
proof -
  let ?o = "(sample_options 300 Authorized Failed)\<lparr>op_execution_owner := None, op_execution_lease_id := None\<rparr>"
  let ?r = "transitionInvocation map_store id quiet ?o sample_db"
  have "\<not> isl (fst ?r)" by code_simp
  then obtain d' db' where eq: "?r = (Inr d', db')" by (metis sum.collapse(2) prod.collapse)
  from transition_contract [OF map_store_is_document_store eq, unfolded sum.case]
  have "istate_name (inv_lifecycle_state d') = op_to ?o" by (elim exE conjE)
  moreover have "op_to ?o = ''failed''" by (simp add: sample_options_def)
  ultimately show ?thesis using arg_cong [OF eq, of fst] by (intro exI [of _ d']) simp
qed

text \<open>Every state the lifecycle can be in can still reach an end: some sequence of allowed
  transitions leads to a terminal state, and the terminal states are exactly those without a way out.\<close>

theorem every_invocation_can_finish:
  "(\<exists>t. table_run ALLOWED_INVOCATION_TRANSITIONS s t \<and> isTerminalState t) \<and>
   (isTerminalState s \<longleftrightarrow> ALLOWED_INVOCATION_TRANSITIONS s = [])"
  using invocation_table.can_finish [of s] by (auto simp: all_istates isTerminal_iff_dead)

subsection \<open>Writers outside the lifecycle service\<close>

text \<open>
  Two writers change the state of an invocation without the lifecycle service and without recording it: \<open>releaseQueuedWorkForApproval\<close> of
  approval.service.js (an approved invocation that waits for its approval) and \<open>markInvocationPolicyDenied\<close> of durableWorker.service.js (the
  policy denies an invocation that a worker has claimed). Neither adds an entry to the history or raises the version, and the
  second one also takes \<open>accepted\<close> to \<open>failed\<close>, which the table forbids. They are not among the steps \<open>inv_step\<close> of the
  interference: the invariant does not survive them. The separation of claims does. The durable queue writes invocations as well
  (\<open>replay_set\<close> and \<open>exhausted_update\<close> of \<open>Durable_Replay\<close>): these writes record their moves in the history and raise the version,
  and a replay goes from a state such as \<open>running\<close> over \<open>retry_scheduled\<close> to \<open>authorized\<close> in one write.
\<close>

definition approval_resume_set :: "'j invocation \<Rightarrow> 'j invocation" where
  "approval_resume_set d = d\<lparr>inv_lifecycle_state := Authorized, inv_status := Legacy_Queued\<rparr>"

definition policy_denied_set :: "stored_error \<Rightarrow> int \<Rightarrow> 'j invocation \<Rightarrow> 'j invocation" where
  "policy_denied_set e now d =
     d\<lparr>inv_lifecycle_state := Failed, inv_status := Legacy_Failed, inv_terminal_at := Some now,
       inv_terminalized_at := Some now, inv_last_transition_at := now, inv_error := Some e\<rparr>"

inductive outside_step :: "'j invocation \<Rightarrow> 'j invocation \<Rightarrow> bool" where
  approved: "inv_lifecycle_state d = Waiting_For_Approval \<Longrightarrow> outside_step d (approval_resume_set d)"
| denied: "inv_lifecycle_state d \<in> {Accepted, Validating, Authorized} \<Longrightarrow> outside_step d (policy_denied_set e now d)"

inductive_cases outside_stepE: "outside_step d d'"

abbreviation any_step :: "'j invocation \<Rightarrow> 'j invocation \<Rightarrow> bool" where
  "any_step \<equiv> \<lambda>d d'. inv_step d d' \<or> outside_step d d'"

lemma any_step_version: "any_step\<^sup>*\<^sup>* d d' \<Longrightarrow> inv_version d \<le> inv_version d'"
proof (induction rule: rtranclp_induct)
  case (step y z)
  then show ?case using inv_step_version [of y z]
    by (auto elim!: outside_stepE simp: approval_resume_set_def policy_denied_set_def)
qed simp

lemma any_step_inside:
  assumes "any_step d d'" "inv_lifecycle_state d \<in> {Running, Waiting_For_Runtime, Succeeded, Failed, Cancelled, Timed_Out}"
  shows "inv_step d d' \<and> inv_lifecycle_state d' \<in> {Running, Waiting_For_Runtime, Succeeded, Failed, Cancelled, Timed_Out,
    Retry_Scheduled, Recovery_Required}"
  using assms inv_step_table [of d d'] by (auto elim!: outside_stepE simp: table_step_def)

lemma any_steps_to_authorized:
  assumes "any_step\<^sup>*\<^sup>* d d'" "inv_lifecycle_state d \<in> {Running, Waiting_For_Runtime, Succeeded, Failed, Cancelled, Timed_Out}"
    "inv_lifecycle_state d' = Authorized"
  shows "\<exists>m. inv_step\<^sup>*\<^sup>* d m \<and> any_step\<^sup>*\<^sup>* m d' \<and> inv_lifecycle_state m \<in> {Retry_Scheduled, Recovery_Required}"
  using assms
proof (induction rule: converse_rtranclp_induct)
  case (step y z)
  note z = any_step_inside [OF step.hyps(1) step.prems(1)]
  show ?case
  proof (cases "inv_lifecycle_state z \<in> {Retry_Scheduled, Recovery_Required}")
    case True
    with z step.hyps(2) show ?thesis by blast
  next
    case False
    with z step.IH step.prems(2) obtain m where "inv_step\<^sup>*\<^sup>* z m" "any_step\<^sup>*\<^sup>* m d'"
      "inv_lifecycle_state m \<in> {Retry_Scheduled, Recovery_Required}" by blast
    with z show ?thesis by (meson converse_rtranclp_into_rtranclp)
  qed
qed auto

text \<open>Two successful claims are separated by a retry schedule or a recovery also when these writers interfere.\<close>

theorem claims_are_separated_from_outside:
  assumes S: "document_store S view"
    and first: "claimInvocationExecution S redact env1 configured1 fresh1 opts1 db =
      (Inr (d1, lease1, expires1), db1)"
    and between: "collection_rel any_step view db1 db2"
    and second: "claimInvocationExecution S redact env2 configured2 fresh2 opts2 db2 =
      (Inr (d2, lease2, expires2), db3)"
    and same: "op_identity opts1 = Inr (i, w1)" "op_identity opts2 = Inr (i, w2)"
  shows "\<exists>m b. inv_step\<^sup>*\<^sup>* d1 m \<and> any_step\<^sup>*\<^sup>* m b \<and> view db2 i = Some b \<and>
           inv_lifecycle_state m \<in> {Retry_Scheduled, Recovery_Required} \<and>
           inv_lifecycle_state b = Authorized \<and> inv_version d1 < inv_version b"
proof -
  from claim_success [OF S first] same(1)
  have run: "view db1 i = Some d1" "inv_lifecycle_state d1 = Running" by auto
  from claim_success [OF S second] same(2)
  obtain b where b: "view db2 i = Some b" "inv_lifecycle_state b = Authorized" by (auto simp: claimable_def)
  from collection_relD [OF between run(1)] b(1) have "any_step\<^sup>*\<^sup>* d1 b" by simp
  from any_steps_to_authorized [OF this _ b(2)] run(2) obtain m where
    m: "inv_step\<^sup>*\<^sup>* d1 m" "any_step\<^sup>*\<^sup>* m b" "inv_lifecycle_state m \<in> {Retry_Scheduled, Recovery_Required}" by auto
  from inv_steps_version_state [OF m(1)] run(2) m(3) have "inv_version d1 < inv_version m"
    by (cases "inv_version m = inv_version d1") auto
  also have "\<dots> \<le> inv_version b" using any_step_version [OF m(2)] .
  finally show ?thesis using m b by blast
qed

theorem claims_are_separated_from_outside_witness:
  "\<exists>d1 m b. inv_step\<^sup>*\<^sup>* d1 m \<and> any_step\<^sup>*\<^sup>* m b \<and>
     inv_lifecycle_state m \<in> {Retry_Scheduled, Recovery_Required} \<and>
     inv_lifecycle_state (b :: unit invocation) = Authorized \<and> inv_version d1 < inv_version b"
proof -
  let ?o1 = "sample_options 200 Authorized Running"
  let ?o2 = "sample_options 9000 Authorized Running"
  let ?cs = "[Do_Transition (sample_options 300 Running Retry_Scheduled),
    Do_Transition ((sample_options 8000 Retry_Scheduled Authorized)
      \<lparr>op_execution_owner := None, op_execution_lease_id := None\<rparr>)]"
  let ?claim = "claimInvocationExecution map_store id quiet 60000 ''lease-1''"
  let ?db1 = "snd (?claim ?o1 sample_db)"
  let ?db2 = "exec_commands map_store id quiet ?cs ?db1"
  have "\<not> isl (fst (?claim ?o1 sample_db))" by code_simp
  then obtain d1 l1 e1 where 1: "?claim ?o1 sample_db = (Inr (d1, l1, e1), ?db1)"
    by (metis sum.collapse(2) prod.collapse)
  have "\<not> isl (fst (?claim ?o2 ?db2))" by code_simp
  then obtain d2 l2 e2 where 2: "?claim ?o2 ?db2 = (Inr (d2, l2, e2), snd (?claim ?o2 ?db2))"
    by (metis sum.collapse(2) prod.collapse)
  have "collection_rel inv_step (\<lambda>db. db) ?db1 ?db2"
    by (rule exec_commands_steps [OF map_store_is_document_store quiet_well_behaved])
  then have b: "collection_rel any_step (\<lambda>db. db) ?db1 ?db2"
    unfolding collection_rel_def using rtranclp_mono [of inv_step any_step] by blast
  have i: "op_identity ?o1 = Inr (''inv-1'', ''ws-1'')" "op_identity ?o2 = Inr (''inv-1'', ''ws-1'')"
    by code_simp+
  from claims_are_separated_from_outside [OF map_store_is_document_store 1 b 2 i] show ?thesis by blast
qed

text \<open>The invariant is lost: after the approval of a waiting invocation its history ends in another state, and so it does after
  a denial by the policy, which moreover fails an accepted invocation against the table.\<close>

theorem outside_writers_break_the_invariant:
  assumes "invocation_ok d"
  shows "inv_lifecycle_state d = Waiting_For_Approval \<Longrightarrow>
      \<not> invocation_ok (approval_resume_set d) \<and> inv_version (approval_resume_set d) = inv_version d"
    and "inv_lifecycle_state d \<in> {Accepted, Validating, Authorized} \<Longrightarrow>
      \<not> invocation_ok (policy_denied_set e now d) \<and> inv_version (policy_denied_set e now d) = inv_version d"
    and "Failed \<notin> set (ALLOWED_INVOCATION_TRANSITIONS Accepted)"
proof -
  have last: "he_to (last (inv_state_history d)) = inv_lifecycle_state d" using assms by (simp add: invocation_ok_def)
  show "\<not> invocation_ok (approval_resume_set d) \<and> inv_version (approval_resume_set d) = inv_version d"
    if "inv_lifecycle_state d = Waiting_For_Approval"
    using last that by (simp add: invocation_ok_def approval_resume_set_def)
  show "\<not> invocation_ok (policy_denied_set e now d) \<and> inv_version (policy_denied_set e now d) = inv_version d"
    if "inv_lifecycle_state d \<in> {Accepted, Validating, Authorized}"
    using last that by (elim insertE emptyE) (simp_all add: invocation_ok_def policy_denied_set_def)
qed simp

theorem outside_writers_break_the_invariant_witness:
  "\<not> invocation_ok (policy_denied_set e 200 sample_invocation)"
proof -
  have "invocation_ok sample_invocation"
    by (simp add: invocation_ok_def sample_invocation_def MAX_INVOCATION_STATE_HISTORY_def)
  moreover have "inv_lifecycle_state sample_invocation \<in> {Accepted, Validating, Authorized}" by (simp add: sample_invocation_def)
  ultimately show ?thesis using outside_writers_break_the_invariant(2) by blast
qed

end
