(* ===== verification/Recovery_Policy.thy ===== *)
theory Recovery_Policy
  imports Invocation_Lifecycle
begin

text \<open>
  backend/src/utils/recoveryPolicy.js and backend/src/utils/stuckInvocation.js: when an operator may
  retry an invocation that needs recovery, and which running invocations count as stuck. The fields the
  two files read of an invocation are collected in \<open>recovery_snapshot\<close> and \<open>stuck_snapshot\<close>.
\<close>

subsection \<open>Recovery decisions\<close>

definition NON_RETRYABLE_RECOVERY_CODES :: "string list" where
  "NON_RETRYABLE_RECOVERY_CODES =
     [''AUTHENTICATION_REQUIRED'', ''RUNTIME_AUTHENTICATION_FAILED'', ''GEMINI_AUTHENTICATION_FAILED'',
      ''FORBIDDEN'', ''POLICY_DENIED'', ''CAPABILITY_DISABLED'', ''CAPABILITY_INPUT_INVALID'',
      ''CAPABILITY_SCHEMA_INVALID'', ''VALIDATION_ERROR'', ''CREDENTIAL_REQUIRED'',
      ''CREDENTIAL_EXPIRED'', ''CREDENTIAL_VALIDATION_FAILED'', ''ENCRYPTION_CONFIGURATION_INVALID'',
      ''UNSAFE_URL'']"

definition PRE_TRANSMISSION_REASONS :: "string list" where
  "PRE_TRANSMISSION_REASONS = [''STALE_BEFORE_REMOTE_TRANSMISSION'', ''NO_REMOTE_TRANSMISSION'']"

datatype stuck_class =
    Not_Stuck | Stale_Before_Runtime | External_Runtime_Overdue | Lease_Expired
  | Finalization_Stalled | Shutdown_Interrupted | Outcome_Ambiguous

datatype transmission_evidence = Transmitted | Not_Transmitted

text \<open>What the policy reads of an invocation, and of the caller's input.\<close>

record recovery_snapshot =
  rs_lifecycle_state :: istate
  rs_status :: legacy_status
  rs_recovery_state :: recovery_state
  rs_recovery_decision :: recovery_decision
  rs_recovery_decision_reason :: "string option"
  rs_recovery_reason_code :: "string option"
  rs_error_code :: "string option"
  rs_cancellation_state :: cancellation_state
  rs_cancellation_outcome :: cancellation_outcome
  rs_client_idempotency_provided :: bool
  rs_stuck_classification :: stuck_class

record recovery_input =
  rp_invocation :: recovery_snapshot
  rp_circuit_state :: "string option"
  rp_connection_status :: "string option"
  rp_connection_health_state :: "string option"
  rp_error_code :: "string option"
  rp_transmission_evidence :: "transmission_evidence option"
  rp_remote_idempotency_supported :: bool
  rp_remote_idempotency_acknowledged :: bool
  rp_replay_input_available :: bool
  rp_idempotency_identity_available :: bool

datatype recovery_action = Retry_Allowed | Retry_Denied | Operator_Review_Required

record recovery_verdict =
  rv_action :: recovery_action
  rv_reason :: string
  rv_requires_same_idempotency_key :: bool

definition deny_recovery :: "string \<Rightarrow> recovery_verdict" where
  "deny_recovery reason =
     \<lparr>rv_action = Retry_Denied, rv_reason = reason, rv_requires_same_idempotency_key = False\<rparr>"

definition allow_recovery :: "string \<Rightarrow> recovery_verdict" where
  "allow_recovery reason =
     \<lparr>rv_action = Retry_Allowed, rv_reason = reason, rv_requires_same_idempotency_key = True\<rparr>"

text \<open>The two local variables of the decision.\<close>

definition outcomeUnknown :: "recovery_input \<Rightarrow> bool" where
  "outcomeUnknown i =
     (let ivc = rp_invocation i; reason = rs_recovery_reason_code ivc
      in rs_cancellation_state ivc = Cancel_Outcome_Unknown
         \<or> rs_cancellation_outcome ivc = Cancel_Remote_Unconfirmed
         \<or> reason = Some ''REMOTE_OUTCOME_UNKNOWN''
         \<or> reason = Some ''REMOTE_OUTCOME_AMBIGUOUS''
         \<or> reason = Some ''REMOTE_TIMEOUT_OUTCOME_AMBIGUOUS''
         \<or> (present reason \<and> the reason \<notin> set PRE_TRANSMISSION_REASONS)
         \<or> rp_transmission_evidence i = Some Transmitted)"

definition noRemoteTransmission :: "recovery_input \<Rightarrow> bool" where
  "noRemoteTransmission i =
     (let ivc = rp_invocation i
      in rp_transmission_evidence i = Some Not_Transmitted
         \<or> (case rs_recovery_reason_code ivc of Some r \<Rightarrow> r \<in> set PRE_TRANSMISSION_REASONS | None \<Rightarrow> False)
         \<or> rs_stuck_classification ivc = Stale_Before_Runtime)"

definition recoveryPolicyDecision :: "recovery_input \<Rightarrow> recovery_verdict" where
  "recoveryPolicyDecision i =
     (let ivc = rp_invocation i in
      if rs_lifecycle_state ivc \<noteq> Recovery_Required then deny_recovery ''RECOVERY_NOT_REQUIRED''
      else if rs_recovery_state ivc = Recovery_Retrying then deny_recovery ''RECOVERY_ALREADY_CLAIMED''
      else if rs_recovery_state ivc = Recovery_Resolved then deny_recovery ''RECOVERY_ALREADY_RESOLVED''
      else if rs_lifecycle_state ivc = Succeeded \<or> rs_status ivc = Legacy_Completed
      then deny_recovery ''INVOCATION_ALREADY_SUCCEEDED''
      else if rp_circuit_state i = Some ''open'' \<or> rp_circuit_state i = Some ''half_open''
      then deny_recovery ''CIRCUIT_NOT_ACCEPTING_WORK''
      else if present (rp_connection_status i) \<and> rp_connection_status i \<noteq> Some ''connected''
      then deny_recovery ''CONNECTION_NOT_CONNECTED''
      else if rp_connection_health_state i = Some ''unhealthy'' \<or> rp_connection_health_state i = Some ''disabled''
      then deny_recovery ''CONNECTION_NOT_HEALTHY''
      else if rs_recovery_decision ivc = Decision_Retry_Denied
          \<and> js_upper (or_empty (rs_recovery_decision_reason ivc)) \<in> set NON_RETRYABLE_RECOVERY_CODES
      then deny_recovery ''FAILURE_CLASS_NOT_RETRYABLE''
      else if js_upper (or_default (rp_error_code i) (or_empty (rs_error_code ivc))) \<in> set NON_RETRYABLE_RECOVERY_CODES
      then deny_recovery ''FAILURE_CLASS_NOT_RETRYABLE''
      else if outcomeUnknown i then
        (if rp_remote_idempotency_supported i \<and> rs_client_idempotency_provided ivc
            \<and> rp_remote_idempotency_acknowledged i \<and> rp_replay_input_available i
            \<and> rp_idempotency_identity_available i
         then allow_recovery ''REMOTE_IDEMPOTENCY_CONFIRMED''
         else if \<not> rp_idempotency_identity_available i then deny_recovery ''IDEMPOTENCY_IDENTITY_NOT_AVAILABLE''
         else if \<not> rp_replay_input_available i then deny_recovery ''REPLAY_INPUT_NOT_AVAILABLE''
         else deny_recovery ''REMOTE_OUTCOME_UNKNOWN'')
      else if noRemoteTransmission i then
        (if \<not> rp_idempotency_identity_available i then deny_recovery ''IDEMPOTENCY_IDENTITY_NOT_AVAILABLE''
         else if \<not> rp_replay_input_available i then deny_recovery ''REPLAY_INPUT_NOT_AVAILABLE''
         else allow_recovery ''NO_REMOTE_TRANSMISSION'')
      else \<lparr>rv_action = Operator_Review_Required, rv_reason = ''RETRY_SAFETY_NOT_PROVEN'',
             rv_requires_same_idempotency_key = False\<rparr>)"

record action_state =
  ac_allowed :: bool
  ac_reason_code :: "string option"

record recovery_actions =
  ra_cancel :: action_state
  ra_retry :: action_state
  ra_resolve_failed :: action_state
  ra_resolve_cancelled :: action_state

definition availableRecoveryActions :: "recovery_input \<Rightarrow> recovery_actions" where
  "availableRecoveryActions i =
     (let ivc = rp_invocation i;
          retry = recoveryPolicyDecision i;
          claimed = (rs_recovery_state ivc = Recovery_Retrying \<or> rs_recovery_state ivc = Recovery_Resolved);
          inRecovery = (rs_lifecycle_state ivc = Recovery_Required \<and> \<not> claimed);
          resolve = \<lparr>ac_allowed = inRecovery,
            ac_reason_code = (if inRecovery then None else Some ''RECOVERY_NOT_REQUIRED'')\<rparr>
      in \<lparr>ra_cancel =
            \<lparr>ac_allowed = (rs_lifecycle_state ivc \<notin> {Succeeded, Failed, Cancelled, Timed_Out} \<and>
               \<not> (rs_lifecycle_state ivc = Recovery_Required \<and> claimed)),
             ac_reason_code = (if inRecovery then Some ''RECOVERY_INTENT_ONLY'' else None)\<rparr>,
          ra_retry =
            \<lparr>ac_allowed = (rv_action retry = Retry_Allowed),
             ac_reason_code = (if rv_action retry = Retry_Allowed then None else Some (rv_reason retry))\<rparr>,
          ra_resolve_failed = resolve, ra_resolve_cancelled = resolve\<rparr>)"

lemma recovery_verdict_simps [simp]:
  "rv_action (deny_recovery r) = Retry_Denied" "rv_action (allow_recovery r) = Retry_Allowed"
  "rv_reason (deny_recovery r) = r" "rv_reason (allow_recovery r) = r"
  "rv_requires_same_idempotency_key (allow_recovery r)"
  by (simp_all add: deny_recovery_def allow_recovery_def)

subsection \<open>Stuck invocations\<close>

definition PRE_TRANSMISSION_STAGES :: "progress_stage option list" where
  "PRE_TRANSMISSION_STAGES =
     [None, Some Stage_Accepted, Some Stage_Validation_Started, Some Stage_Authorized,
      Some Stage_Execution_Claimed, Some Stage_Request_Mapped]"

definition FINALIZATION_STAGES :: "progress_stage list" where
  "FINALIZATION_STAGES =
     [Stage_Remote_Response_Received, Stage_Response_Validation_Started, Stage_Finalization_Started]"

record stuck_snapshot =
  sk_lifecycle_state :: "istate option"
  sk_shutdown_interrupted :: bool
  sk_recovery_reason_code :: "string option"
  sk_last_progress_at :: "int option"
  sk_updated_at :: "int option"
  sk_created_at :: "int option"
  sk_execution_lease_expires_at :: "int option"
  sk_runtime_deadline_at :: "int option"
  sk_last_progress_stage :: "progress_stage option"

record stuck_verdict =
  sv_classification :: stuck_class
  sv_reason_code :: string
  sv_transmitted :: "bool option"

text \<open>A time that JavaScript's \<open>||\<close> and \<open>&&\<close> take as true: defined and not the epoch.\<close>

definition truthy_ms :: "int option \<Rightarrow> bool" where
  "truthy_ms t \<longleftrightarrow> t \<noteq> None \<and> t \<noteq> Some 0"

definition js_or_ms :: "int option \<Rightarrow> int option \<Rightarrow> int option" where
  "js_or_ms a b = (if truthy_ms a then a else b)"

definition elapsed :: "int option \<Rightarrow> int \<Rightarrow> int \<Rightarrow> bool" where
  "elapsed t grace now = (case t of Some x \<Rightarrow> x + grace \<le> now | None \<Rightarrow> False)"

definition positive_integer :: "jsnum \<Rightarrow> string \<Rightarrow> int res" where
  "positive_integer v name =
     (case js_integer v of
        Some i \<Rightarrow> if i < 1 then Inl (Type_Error name) else Inr i
      | None \<Rightarrow> Inl (Type_Error name))"

definition progress_at :: "stuck_snapshot \<Rightarrow> int option" where
  "progress_at s = js_or_ms (sk_last_progress_at s) (js_or_ms (sk_updated_at s) (sk_created_at s))"

definition active_state :: "istate option \<Rightarrow> bool" where
  "active_state state = (case state of None \<Rightarrow> False
     | Some s \<Rightarrow> \<not> (s \<in> set TERMINAL_INVOCATION_STATES \<or> s = Recovery_Required))"

definition finalizing :: "stuck_snapshot \<Rightarrow> bool" where
  "finalizing s = (case sk_last_progress_stage s of Some st \<Rightarrow> st \<in> set FINALIZATION_STAGES | None \<Rightarrow> False)"

definition stuck_verdict_at :: "stuck_snapshot \<Rightarrow> int \<Rightarrow> int \<Rightarrow> int \<Rightarrow> stuck_verdict" where
  "stuck_verdict_at s nowMs stuckGraceMs finalizationGraceMs =
     (let state = sk_lifecycle_state s;
          progressAt = progress_at s;
          lease = sk_execution_lease_expires_at s;
          deadline = sk_runtime_deadline_at s;
          stage = sk_last_progress_stage s
      in
       if \<not> active_state state
       then \<lparr>sv_classification = Not_Stuck, sv_reason_code = ''INVOCATION_NOT_ACTIVE'', sv_transmitted = None\<rparr>
       else if sk_shutdown_interrupted s
         \<or> sk_recovery_reason_code s = Some ''SHUTDOWN_DURING_EXTERNAL_INVOCATION''
       then \<lparr>sv_classification = Shutdown_Interrupted, sv_reason_code = ''SERVICE_SHUTDOWN'', sv_transmitted = None\<rparr>
       else if finalizing s \<and> elapsed progressAt finalizationGraceMs nowMs
       then \<lparr>sv_classification = Finalization_Stalled, sv_reason_code = ''FINALIZATION_STALLED'',
              sv_transmitted = Some True\<rparr>
       else if truthy_ms lease \<and> elapsed lease 0 nowMs
       then \<lparr>sv_classification = Lease_Expired, sv_reason_code = ''EXECUTION_LEASE_EXPIRED'',
              sv_transmitted = Some (stage \<notin> set PRE_TRANSMISSION_STAGES)\<rparr>
       else if state = Some Waiting_For_Runtime \<and> truthy_ms deadline \<and> elapsed deadline stuckGraceMs nowMs
       then \<lparr>sv_classification = External_Runtime_Overdue, sv_reason_code = ''RUNTIME_DEADLINE_EXCEEDED'',
              sv_transmitted = Some True\<rparr>
       else if state \<noteq> Some Waiting_For_Runtime \<and> stage \<in> set PRE_TRANSMISSION_STAGES
         \<and> truthy_ms progressAt \<and> elapsed progressAt stuckGraceMs nowMs
       then \<lparr>sv_classification = Stale_Before_Runtime, sv_reason_code = ''STALE_BEFORE_REMOTE_TRANSMISSION'',
              sv_transmitted = Some False\<rparr>
       else \<lparr>sv_classification = Not_Stuck, sv_reason_code = ''WITHIN_CONFIGURED_DEADLINE'',
              sv_transmitted = None\<rparr>)"

definition classifyStuckInvocation ::
  "stuck_snapshot \<Rightarrow> int \<Rightarrow> jsnum \<Rightarrow> jsnum \<Rightarrow> stuck_verdict res" where
  "classifyStuckInvocation s nowMs stuckGrace finalizationGrace =
     bindE (positive_integer stuckGrace ''stuckGraceMs'') (\<lambda>stuckGraceMs.
     bindE (positive_integer finalizationGrace ''finalizationGraceMs'') (\<lambda>finalizationGraceMs.
     Inr (stuck_verdict_at s nowMs stuckGraceMs finalizationGraceMs)))"

text \<open>What an allowed retry has passed: every guard of the chain.\<close>

lemma if_deny_recovery:
  "rv_action (if b then deny_recovery r else t) = Retry_Allowed \<longleftrightarrow> \<not> b \<and> rv_action t = Retry_Allowed"
  by simp

lemma if_allow_recovery:
  "rv_action (if b then allow_recovery r else t) = Retry_Allowed \<longleftrightarrow> b \<or> rv_action t = Retry_Allowed"
  "rv_action (allow_recovery r) = Retry_Allowed" "rv_action (deny_recovery r) \<noteq> Retry_Allowed"
  "\<lparr>rv_action = Operator_Review_Required, rv_reason = r, rv_requires_same_idempotency_key = k\<rparr>
     \<noteq> allow_recovery s"
  by (simp_all add: allow_recovery_def)

lemma if_branches:
  "rv_action (if b then t else u) = Retry_Allowed \<longleftrightarrow>
     (b \<longrightarrow> rv_action t = Retry_Allowed) \<and> (\<not> b \<longrightarrow> rv_action u = Retry_Allowed)"
  by simp

lemmas recovery_guards = if_deny_recovery if_branches if_allow_recovery recovery_verdict.select_convs
  recovery_action.distinct simp_thms

lemma recovery_passed:
  "rv_action (recoveryPolicyDecision i) = Retry_Allowed \<longleftrightarrow>
    rs_lifecycle_state (rp_invocation i) = Recovery_Required \<and>
    rs_recovery_state (rp_invocation i) \<noteq> Recovery_Retrying \<and>
    rs_recovery_state (rp_invocation i) \<noteq> Recovery_Resolved \<and>
    rs_status (rp_invocation i) \<noteq> Legacy_Completed \<and>
    \<not> (rp_circuit_state i = Some ''open'' \<or> rp_circuit_state i = Some ''half_open'') \<and>
    \<not> (present (rp_connection_status i) \<and> rp_connection_status i \<noteq> Some ''connected'') \<and>
    \<not> (rp_connection_health_state i = Some ''unhealthy'' \<or> rp_connection_health_state i = Some ''disabled'') \<and>
    \<not> (rs_recovery_decision (rp_invocation i) = Decision_Retry_Denied \<and>
       js_upper (or_empty (rs_recovery_decision_reason (rp_invocation i))) \<in> set NON_RETRYABLE_RECOVERY_CODES) \<and>
    js_upper (or_default (rp_error_code i) (or_empty (rs_error_code (rp_invocation i))))
      \<notin> set NON_RETRYABLE_RECOVERY_CODES \<and>
    rp_idempotency_identity_available i \<and> rp_replay_input_available i \<and>
    (if outcomeUnknown i
     then rp_remote_idempotency_supported i \<and> rs_client_idempotency_provided (rp_invocation i) \<and>
       rp_remote_idempotency_acknowledged i
     else noRemoteTransmission i)" (is "?L \<longleftrightarrow> ?R")
proof -
  have ns: "rs_lifecycle_state (rp_invocation i) = Recovery_Required \<longrightarrow> rs_lifecycle_state (rp_invocation i) \<noteq> Succeeded"
    by simp
  show ?thesis
    unfolding recoveryPolicyDecision_def Let_def
    by (simp only: recovery_guards if_bool_eq_conj) (use ns in sat)
qed

text \<open>A retry, whatever its reason, asks for the same idempotency key.\<close>

lemma recovery_retry_same_key:
  "rv_action (recoveryPolicyDecision i) = Retry_Allowed \<Longrightarrow> rv_requires_same_idempotency_key (recoveryPolicyDecision i)"
proof -
  have if_key: "(rv_action t = Retry_Allowed \<longrightarrow> rv_requires_same_idempotency_key t) \<Longrightarrow>
      (rv_action u = Retry_Allowed \<longrightarrow> rv_requires_same_idempotency_key u) \<Longrightarrow>
      rv_action (if b then t else u) = Retry_Allowed \<longrightarrow> rv_requires_same_idempotency_key (if b then t else u)"
    for t u :: recovery_verdict and b by simp
  have "rv_action (recoveryPolicyDecision i) = Retry_Allowed \<longrightarrow>
      rv_requires_same_idempotency_key (recoveryPolicyDecision i)"
    unfolding recoveryPolicyDecision_def Let_def by (intro if_key) simp_all
  then show "rv_action (recoveryPolicyDecision i) = Retry_Allowed \<Longrightarrow>
      rv_requires_same_idempotency_key (recoveryPolicyDecision i)" by blast
qed

definition sample_recovery :: recovery_input where
  "sample_recovery =
     \<lparr>rp_invocation =
        \<lparr>rs_lifecycle_state = Recovery_Required, rs_status = Legacy_Failed,
         rs_recovery_state = Recovery_State_Required,
         rs_recovery_decision = Decision_Operator_Review_Required,
         rs_recovery_decision_reason = Some ''REQUIRES_OPERATOR_REVIEW'',
         rs_recovery_reason_code = Some ''EXECUTION_LEASE_EXPIRED'', rs_error_code = None,
         rs_cancellation_state = Cancel_Not_Requested, rs_cancellation_outcome = Cancel_Not_Applicable,
         rs_client_idempotency_provided = True, rs_stuck_classification = Lease_Expired\<rparr>,
      rp_circuit_state = Some ''closed'', rp_connection_status = Some ''connected'',
      rp_connection_health_state = Some ''healthy'', rp_error_code = None,
      rp_transmission_evidence = None, rp_remote_idempotency_supported = True,
      rp_remote_idempotency_acknowledged = True, rp_replay_input_available = True,
      rp_idempotency_identity_available = True\<rparr>"

text \<open>
  the actions offered to an operator agree with each other and with the state: an offered retry implies
  that resolving the invocation and cancelling it are offered too; a finished invocation and a claimed or
  resolved recovery offer nothing; an unclaimed recovery can always be resolved as failed and as cancelled;
  and every action that is not offered, except a cancellation, carries a reason.
\<close>

theorem recovery_actions_agree:
  "let a = availableRecoveryActions i; s = rs_lifecycle_state (rp_invocation i);
       r = rs_recovery_state (rp_invocation i)
   in (ac_allowed (ra_retry a) \<longrightarrow>
         ac_allowed (ra_resolve_failed a) \<and> ac_allowed (ra_resolve_cancelled a) \<and> ac_allowed (ra_cancel a)) \<and>
      ((s \<in> {Succeeded, Failed, Cancelled, Timed_Out} \<or>
        s = Recovery_Required \<and> r \<in> {Recovery_Retrying, Recovery_Resolved}) \<longrightarrow>
         \<not> ac_allowed (ra_retry a) \<and> \<not> ac_allowed (ra_resolve_failed a) \<and>
         \<not> ac_allowed (ra_resolve_cancelled a) \<and> \<not> ac_allowed (ra_cancel a)) \<and>
      (s = Recovery_Required \<and> r \<in> {Recovery_Not_Required, Recovery_State_Required} \<longrightarrow>
         ac_allowed (ra_resolve_failed a) \<and> ac_allowed (ra_resolve_cancelled a)) \<and>
      (ac_reason_code (ra_retry a) = None \<longleftrightarrow> ac_allowed (ra_retry a)) \<and>
      (ac_reason_code (ra_resolve_failed a) = None \<longleftrightarrow> ac_allowed (ra_resolve_failed a)) \<and>
      (ac_reason_code (ra_resolve_cancelled a) = None \<longleftrightarrow> ac_allowed (ra_resolve_cancelled a))"
proof -
  let ?v = "rv_action (recoveryPolicyDecision i) = Retry_Allowed"
  have v: "?v \<Longrightarrow> rs_lifecycle_state (rp_invocation i) = Recovery_Required"
    "?v \<Longrightarrow> rs_recovery_state (rp_invocation i) \<notin> {Recovery_Retrying, Recovery_Resolved}"
    unfolding recovery_passed by blast+
  show ?thesis
    unfolding availableRecoveryActions_def Let_def using v
    by (cases "rs_lifecycle_state (rp_invocation i)"; cases "rs_recovery_state (rp_invocation i)") auto
qed

theorem recovery_actions_agree_witness:
  "let a = availableRecoveryActions sample_recovery
   in ac_allowed (ra_retry a) \<and> ac_allowed (ra_resolve_failed a) \<and> ac_allowed (ra_resolve_cancelled a)
     \<and> ac_allowed (ra_cancel a)"
proof -
  have "ac_allowed (ra_retry (availableRecoveryActions sample_recovery))" by code_simp
  with recovery_actions_agree [of sample_recovery] show ?thesis unfolding Let_def by blast
qed

subsection \<open>What a stuck verdict says\<close>

lemma positive_integer_Inr: "positive_integer v n = Inr i \<Longrightarrow> js_integer v = Some i \<and> 1 \<le> i"
  by (auto simp: positive_integer_def split: option.splits if_splits)

lemma elapsed_mono: "elapsed t g now \<Longrightarrow> now \<le> now' \<Longrightarrow> elapsed t g now'"
  by (auto simp: elapsed_def split: option.splits)

text \<open>The condition under which an invocation counts as stuck, and the part of it that says its request may
  have left for the runtime.\<close>

definition stuck_condition :: "stuck_snapshot \<Rightarrow> int \<Rightarrow> int \<Rightarrow> int \<Rightarrow> bool" where
  "stuck_condition s now g f \<longleftrightarrow> active_state (sk_lifecycle_state s) \<and>
     (sk_shutdown_interrupted s \<or> sk_recovery_reason_code s = Some ''SHUTDOWN_DURING_EXTERNAL_INVOCATION'' \<or>
      finalizing s \<and> elapsed (progress_at s) f now \<or>
      truthy_ms (sk_execution_lease_expires_at s) \<and> elapsed (sk_execution_lease_expires_at s) 0 now \<or>
      sk_lifecycle_state s = Some Waiting_For_Runtime \<and> truthy_ms (sk_runtime_deadline_at s) \<and>
        elapsed (sk_runtime_deadline_at s) g now \<or>
      sk_lifecycle_state s \<noteq> Some Waiting_For_Runtime \<and> sk_last_progress_stage s \<in> set PRE_TRANSMISSION_STAGES \<and>
        truthy_ms (progress_at s) \<and> elapsed (progress_at s) g now)"

lemma if_stuck:
  "sv_classification (if b then v else w) \<noteq> Not_Stuck \<longleftrightarrow>
     b \<and> sv_classification v \<noteq> Not_Stuck \<or> \<not> b \<and> sv_classification w \<noteq> Not_Stuck"
  by simp

lemma stuck_verdict_classification:
  "sv_classification (stuck_verdict_at s now g f) \<noteq> Not_Stuck \<longleftrightarrow> stuck_condition s now g f"
  unfolding stuck_verdict_at_def stuck_condition_def Let_def
  by (simp only: if_stuck stuck_verdict.select_convs stuck_class.distinct simp_thms) sat

definition transmitted_ok :: "stuck_snapshot \<Rightarrow> stuck_verdict \<Rightarrow> bool" where
  "transmitted_ok s v \<longleftrightarrow>
     (sv_transmitted v = Some False \<longrightarrow> sk_last_progress_stage s \<in> set PRE_TRANSMISSION_STAGES) \<and>
     (sv_classification v = Stale_Before_Runtime \<longrightarrow> sv_transmitted v = Some False)"

lemma transmitted_ok_if:
  "(b \<Longrightarrow> transmitted_ok s v) \<Longrightarrow> (\<not> b \<Longrightarrow> transmitted_ok s w) \<Longrightarrow> transmitted_ok s (if b then v else w)"
  by simp

lemma stuck_verdict_transmitted: "transmitted_ok s (stuck_verdict_at s now g f)"
  unfolding stuck_verdict_at_def Let_def
  by (intro transmitted_ok_if) (simp_all only: transmitted_ok_def stuck_verdict.select_convs
      stuck_class.distinct option.distinct option.inject simp_thms)

lemma positive_integer_Inl:
  "positive_integer v n = Inl e \<Longrightarrow> \<not> (\<exists>i. js_integer v = Some i \<and> 1 \<le> i)"
  by (auto simp: positive_integer_def split: option.splits if_splits)

text \<open>
  a stuck classification is computed exactly when both grace periods are positive integers; an invocation
  is classified as stuck exactly when it is neither finished nor already waiting for recovery and was
  interrupted by a shutdown, stalled in finalization, lost its lease, passed its runtime deadline or made
  no progress before transmission; and a verdict that nothing was transmitted is given only when the last
  recorded stage precedes the transmission.
\<close>

theorem stuck_verdict_sound:
  "(case classifyStuckInvocation s now g f of
      Inl e \<Rightarrow> \<not> (\<exists>gi fi. js_integer g = Some gi \<and> 1 \<le> gi \<and> js_integer f = Some fi \<and> 1 \<le> fi)
    | Inr v \<Rightarrow> (\<exists>gi fi. js_integer g = Some gi \<and> 1 \<le> gi \<and> js_integer f = Some fi \<and> 1 \<le> fi \<and>
        (sv_classification v \<noteq> Not_Stuck \<longleftrightarrow> stuck_condition s now gi fi)) \<and>
        (sv_transmitted v = Some False \<longrightarrow> sk_last_progress_stage s \<in> set PRE_TRANSMISSION_STAGES) \<and>
        (sv_classification v = Stale_Before_Runtime \<longrightarrow> sv_transmitted v = Some False))"
proof (cases "classifyStuckInvocation s now g f")
  case (Inl e)
  then have "positive_integer g ''stuckGraceMs'' = Inl e \<or> positive_integer f ''finalizationGraceMs'' = Inl e"
    by (auto simp: classifyStuckInvocation_def bindE_Inl_iff)
  then have "\<not> (\<exists>gi fi. js_integer g = Some gi \<and> 1 \<le> gi \<and> js_integer f = Some fi \<and> 1 \<le> fi)"
    by (blast dest: positive_integer_Inl)
  then show ?thesis unfolding Inl sum.case .
next
  case (Inr v)
  then obtain gi fi where "positive_integer g ''stuckGraceMs'' = Inr gi"
    "positive_integer f ''finalizationGraceMs'' = Inr fi" and v: "v = stuck_verdict_at s now gi fi"
    by (auto simp: classifyStuckInvocation_def bindE_Inr_iff)
  then have "js_integer g = Some gi \<and> 1 \<le> gi" "js_integer f = Some fi \<and> 1 \<le> fi"
    by (blast dest: positive_integer_Inr)+
  with stuck_verdict_classification [of s now gi fi] stuck_verdict_transmitted [of s now gi fi]
  show ?thesis unfolding Inr sum.case v transmitted_ok_def by blast
qed

text \<open>
  With fixed grace periods an invocation that counts as stuck at one time and is not touched counts as
  stuck at every later time, so the sweeper cannot miss it by coming late.
\<close>

theorem stuck_stays_stuck:
  assumes "classifyStuckInvocation s now g f = Inr v" "sv_classification v \<noteq> Not_Stuck" "now \<le> now'"
  shows "\<exists>v'. classifyStuckInvocation s now' g f = Inr v' \<and> sv_classification v' \<noteq> Not_Stuck"
proof -
  from assms(1) obtain gi fi where p: "positive_integer g ''stuckGraceMs'' = Inr gi"
    "positive_integer f ''finalizationGraceMs'' = Inr fi" and v: "v = stuck_verdict_at s now gi fi"
    by (auto simp: classifyStuckInvocation_def bindE_Inr_iff)
  have "stuck_condition s now gi fi" using assms(2) unfolding v stuck_verdict_classification .
  then have "stuck_condition s now' gi fi"
    unfolding stuck_condition_def using elapsed_mono [OF _ assms(3)] by blast
  then have "sv_classification (stuck_verdict_at s now' gi fi) \<noteq> Not_Stuck"
    by (simp only: stuck_verdict_classification)
  moreover have "classifyStuckInvocation s now' g f = Inr (stuck_verdict_at s now' gi fi)"
    by (simp add: classifyStuckInvocation_def p)
  ultimately show ?thesis by blast
qed

definition sample_stuck :: stuck_snapshot where
  "sample_stuck =
     \<lparr>sk_lifecycle_state = Some Running, sk_shutdown_interrupted = False, sk_recovery_reason_code = None,
      sk_last_progress_at = Some 1000, sk_updated_at = None, sk_created_at = Some 500,
      sk_execution_lease_expires_at = None, sk_runtime_deadline_at = None,
      sk_last_progress_stage = Some Stage_Request_Mapped\<rparr>"

theorem stuck_verdict_sound_witness:
  "\<exists>v. classifyStuckInvocation sample_stuck 4000 (num_of_int 3000) (num_of_int 9000) = Inr v \<and>
     sv_classification v = Stale_Before_Runtime \<and> sv_transmitted v = Some False"
proof -
  let ?v = "\<lparr>sv_classification = Stale_Before_Runtime, sv_reason_code = ''STALE_BEFORE_REMOTE_TRANSMISSION'',
     sv_transmitted = Some False\<rparr>"
  have e: "classifyStuckInvocation sample_stuck 4000 (num_of_int 3000) (num_of_int 9000) = Inr ?v" by code_simp
  have "sv_transmitted ?v = Some False"
    using stuck_verdict_sound [where s = sample_stuck and now = 4000 and g = "num_of_int 3000" and f = "num_of_int 9000"]
    unfolding e by simp
  with e show ?thesis by simp
qed

theorem stuck_stays_stuck_witness:
  "\<exists>v v'. classifyStuckInvocation sample_stuck 4000 (num_of_int 3000) (num_of_int 9000) = Inr v \<and>
     sv_classification v = Stale_Before_Runtime \<and>
     classifyStuckInvocation sample_stuck 9000 (num_of_int 3000) (num_of_int 9000) = Inr v' \<and>
     sv_classification v' \<noteq> Not_Stuck"
proof -
  let ?v = "\<lparr>sv_classification = Stale_Before_Runtime, sv_reason_code = ''STALE_BEFORE_REMOTE_TRANSMISSION'',
     sv_transmitted = Some False\<rparr>"
  have e: "classifyStuckInvocation sample_stuck 4000 (num_of_int 3000) (num_of_int 9000) = Inr ?v" by code_simp
  have "sv_classification ?v \<noteq> Not_Stuck" by simp
  from stuck_stays_stuck [OF e this, of 9000] e show ?thesis by auto
qed

end
