(* ===== verification/Json.thy ===== *)
theory Json
  imports Prelude
begin

text \<open>
  JSON values as the services receive them, and the text searches they run over keys and values. An object is
  its list of entries in insertion order.
\<close>

datatype json =
    JNull
  | JBool bool
  | JNum jsnum
  | JStr string
  | JArr "json list"
  | JObj "(string \<times> json) list"

text \<open>\<open>Object.entries\<close> of a value: the entries of an object, and those of an array under its indices.\<close>

definition index_entries :: "'a list \<Rightarrow> (string \<times> 'a) list" where
  "index_entries xs = zip (map nat_str [0..<length xs]) xs"

fun entries :: "json \<Rightarrow> (string \<times> json) list" where
  "entries (JObj fs) = fs"
| "entries (JArr xs) = index_entries xs"
| "entries _ = []"

definition is_json_object :: "json \<Rightarrow> bool" where
  "is_json_object v = (case v of JObj _ \<Rightarrow> True | JArr _ \<Rightarrow> True | _ \<Rightarrow> False)"

lemma index_entries_values [simp]: "snd ` set (index_entries xs) = set xs"
proof -
  have "map snd (index_entries xs) = xs" by (simp add: index_entries_def)
  then show ?thesis by (metis list.set_map)
qed

lemma size_entries [termination_simp]:
  assumes "(k, w) \<in> set (entries v)"
  shows "size w < size v"
proof (cases v)
  case (JArr xs)
  with assms have "w \<in> set xs" by (metis entries.simps(2) image_eqI index_entries_values snd_conv)
  then show ?thesis using JArr size_list_estimation' [of w xs "size w" size] by auto
next
  case (JObj fs)
  with assms have "(k, w) \<in> set fs" by simp
  then show ?thesis using JObj size_list_estimation' [of "(k, w)" fs "size w" "size_prod (\<lambda>_. 0) size"] by auto
qed (use assms in auto)

text \<open>The last suffix test of an unanchored pattern: some suffix of \<open>s\<close> starts a match.\<close>

fun some_suffix :: "(string \<Rightarrow> bool) \<Rightarrow> string \<Rightarrow> bool" where
  "some_suffix P [] = P []"
| "some_suffix P (c # s) = (P (c # s) \<or> some_suffix P s)"

lemma some_suffix_iff: "some_suffix P s \<longleftrightarrow> (\<exists>t u. s = t @ u \<and> P u)"
proof (induction s)
  case (Cons c s)
  have "(\<exists>t u. c # s = t @ u \<and> P u) \<longleftrightarrow> P (c # s) \<or> (\<exists>t u. s = t @ u \<and> P u)"
    by (metis Cons_eq_append_conv append_Nil)
  with Cons show ?case by simp
qed simp

text \<open>\<open>a.?b\<close>: \<open>a\<close>, at most one character that is no line break, then \<open>b\<close>.\<close>

definition starts_with_gap :: "string \<Rightarrow> string \<Rightarrow> string \<Rightarrow> bool" where
  "starts_with_gap a b s \<longleftrightarrow>
     starts_with s a \<and>
     (starts_with (drop (length a) s) b \<or>
      (case drop (length a) s of [] \<Rightarrow> False | c # r \<Rightarrow> char_code c \<notin> {10, 13} \<and> starts_with r b))"

end
