(* ===== verification/Safe_Json.thy ===== *)
theory Safe_Json
  imports Json
begin

text \<open>
  What the orchestration services accept as data, backend/src/services/orchestrationValidation.service.js with the
  sensitive keys of backend/src/utils/redact.js: forbidden keys, the walk \<open>inspectSafeJson\<close>, the size limit and the
  safe path segments. A JSON value is a finite tree with finite or non-finite numbers, so the checks for cycles,
  prototypes and values that are not JSON have nothing to find. The length of the decimal text of a finite number, which
  \<open>JSON.stringify\<close> writes, is the argument \<open>num_size\<close>.
\<close>

subsection \<open>Forbidden keys\<close>

definition normalizeKey :: "string \<Rightarrow> string" where
  "normalizeKey s = js_lower (filter (\<lambda>c. is_alpha c \<or> is_digit c) s)"

definition FORBIDDEN_KEYS :: "string list" where
  "FORBIDDEN_KEYS =
     [''proto'', ''prototype'', ''constructor'', ''systemprompt'', ''systemmessage'', ''chainofthought'', ''reasoning'',
      ''hiddenreasoning'', ''privatememory'', ''sourcecode'', ''environment'', ''process'', ''global'', ''globalthis'']"

definition SENSITIVE_NORMALIZED_KEYS :: "string list" where
  "SENSITIVE_NORMALIZED_KEYS =
     [''authorization'', ''cookie'', ''cookies'', ''setcookie'', ''apikey'', ''token'', ''accesstoken'', ''refreshtoken'',
      ''runtimetoken'', ''partnerapikey'', ''installkey'', ''secret'', ''credential'', ''credentials'',
      ''encryptedpayload'', ''decryptedpayload'', ''password'', ''privatekey'', ''clientsecret'', ''bearertoken'',
      ''rawkey'', ''runtimegrant'', ''ciphertext'']"

text \<open>The words of \<open>SENSITIVE_KEY_PATTERN\<close>; a separator is optional between the parts of a word.\<close>

definition SENSITIVE_WORDS :: "string list list" where
  "SENSITIVE_WORDS =
     [[''authorization''], [''cookie''], [''cookies''], [''api'', ''key''], [''access'', ''token''],
      [''refresh'', ''token''], [''bearer'', ''token''], [''token''], [''secret''], [''password''], [''credential''],
      [''credentials''], [''private'', ''key''], [''client'', ''secret''], [''install'', ''key''], [''raw'', ''key''],
      [''runtime'', ''grant''], [''encrypted'', ''payload''], [''ciphertext''], [''set'', ''cookie'']]"

definition is_separator :: "char \<Rightarrow> bool" where
  "is_separator c \<longleftrightarrow> c \<in> set ''_-''"

text \<open>What may be left after a word at the start of a string.\<close>

fun word_rests :: "string list \<Rightarrow> string \<Rightarrow> string list" where
  "word_rests [] s = [s]"
| "word_rests [w] s = (if starts_with s w then [drop (length w) s] else [])"
| "word_rests (w # v # vs) s =
     (if starts_with s w
      then let r = drop (length w) s
           in word_rests (v # vs) r
              @ (case r of [] \<Rightarrow> [] | c # r' \<Rightarrow> if is_separator c then word_rests (v # vs) r' else [])
      else [])"

definition sensitive_word :: "string \<Rightarrow> bool" where
  "sensitive_word s =
     list_ex (\<lambda>w. list_ex (\<lambda>r. case r of [] \<Rightarrow> True | c # _ \<Rightarrow> is_separator c) (word_rests w s)) SENSITIVE_WORDS"

definition SENSITIVE_KEY_PATTERN :: "string \<Rightarrow> bool" where
  "SENSITIVE_KEY_PATTERN key =
     (let s = js_lower key
      in sensitive_word s
         \<or> some_suffix (\<lambda>u. case u of [] \<Rightarrow> False | c # r \<Rightarrow> is_separator c \<and> sensitive_word r) s
         \<or> js_includes s ''uri'')"

definition isSensitiveKey :: "string \<Rightarrow> bool" where
  "isSensitiveKey key \<longleftrightarrow> normalizeKey key \<in> set SENSITIVE_NORMALIZED_KEYS \<or> SENSITIVE_KEY_PATTERN key"

definition forbiddenKey :: "string \<Rightarrow> bool" where
  "forbiddenKey key \<longleftrightarrow> normalizeKey key \<in> set FORBIDDEN_KEYS \<or> isSensitiveKey key"

subsection \<open>Own properties\<close>

text \<open>\<open>Object.hasOwn(v, k)\<close> with \<open>v[k]\<close>: arrays and strings own their indices and their length.\<close>

definition own_property :: "json \<Rightarrow> string \<Rightarrow> json option" where
  "own_property v k =
     (case v of
        JObj fs \<Rightarrow> map_of fs k
      | JArr xs \<Rightarrow> if k = ''length'' then Some (JNum (num_of_int (int (length xs)))) else map_of (index_entries xs) k
      | JStr s \<Rightarrow> if k = ''length'' then Some (JNum (num_of_int (int (length s))))
                  else map_of (index_entries (map (\<lambda>c. JStr [c]) s)) k
      | _ \<Rightarrow> None)"

text \<open>\<open>typeof v === 'object'\<close> for a value that is not null.\<close>

definition object_like :: "json \<Rightarrow> bool" where
  "object_like v = (case v of JObj _ \<Rightarrow> True | JArr _ \<Rightarrow> True | _ \<Rightarrow> False)"

definition truthy :: "json \<Rightarrow> bool" where
  "truthy v =
     (case v of
        JNull \<Rightarrow> False | JBool b \<Rightarrow> b | JStr s \<Rightarrow> s \<noteq> [] | JNum n \<Rightarrow> n \<noteq> Fin 0 \<and> n \<noteq> NaN | _ \<Rightarrow> True)"

subsection \<open>The walk and the size limit\<close>

record issue =
  is_path :: string
  is_code :: string

definition issue_at :: "string \<Rightarrow> string \<Rightarrow> issue" where
  "issue_at path code = \<lparr>is_path = path, is_code = code\<rparr>"

definition index_path :: "string \<Rightarrow> string \<Rightarrow> string" where
  "index_path path k = path @ ''['' @ k @ '']''"

definition field_path :: "string \<Rightarrow> string \<Rightarrow> string" where
  "field_path path k = path @ ''.'' @ k"

lemma size_index_entries [termination_simp]: "(k, w :: json) \<in> set (index_entries xs) \<Longrightarrow> size w < Suc (size_list size xs)"
  using size_entries [of k w "JArr xs"] by simp

lemma size_fields [termination_simp]: "(k :: string, w :: json) \<in> set fs \<Longrightarrow> size w < Suc (size_list (size_prod (\<lambda>_. 0) size) fs)"
  using size_entries [of k w "JObj fs"] by simp

fun inspectSafeJson :: "string \<Rightarrow> json \<Rightarrow> issue list" where
  "inspectSafeJson path (JNum n) = (if js_finite n = None then [issue_at path ''NON_FINITE_NUMBER''] else [])"
| "inspectSafeJson path (JArr xs) = concat (map (\<lambda>(k, w). inspectSafeJson (index_path path k) w) (index_entries xs))"
| "inspectSafeJson path (JObj fs) =
     concat (map (\<lambda>(k, w).
       if forbiddenKey k then [issue_at (field_path path k) ''FORBIDDEN_FIELD'']
       else inspectSafeJson (field_path path k) w) fs)"
| "inspectSafeJson path _ = []"

text \<open>\<open>Buffer.byteLength(JSON.stringify(value))\<close> of a value with ASCII strings.\<close>

definition char_size :: "char \<Rightarrow> nat" where
  "char_size c =
     (if char_code c \<in> {34, 92, 8, 9, 10, 12, 13} then 2 else if char_code c < 32 then 6 else 1)"

definition string_size :: "string \<Rightarrow> nat" where
  "string_size s = 2 + sum_list (map char_size s)"

fun json_size :: "(rat \<Rightarrow> nat) \<Rightarrow> json \<Rightarrow> nat" where
  "json_size num_size JNull = 4"
| "json_size num_size (JBool b) = (if b then 4 else 5)"
| "json_size num_size (JNum n) = (case js_finite n of Some r \<Rightarrow> num_size r | None \<Rightarrow> 4)"
| "json_size num_size (JStr s) = string_size s"
| "json_size num_size (JArr xs) = 2 + (length xs - 1) + sum_list (map (json_size num_size) xs)"
| "json_size num_size (JObj fs) =
     2 + (length fs - 1) + sum_list (map (\<lambda>(k, w). string_size k + 1 + json_size num_size w) fs)"

definition maximumPayloadBytes :: int where "maximumPayloadBytes = 1000000"

definition payload_issues :: "(rat \<Rightarrow> nat) \<Rightarrow> string \<Rightarrow> json \<Rightarrow> issue list" where
  "payload_issues num_size path v =
     inspectSafeJson path v
     @ (if maximumPayloadBytes < int (json_size num_size v) then [issue_at path ''PAYLOAD_TOO_LARGE''] else [])"

definition assertSafePayload :: "(rat \<Rightarrow> nat) \<Rightarrow> string \<Rightarrow> json \<Rightarrow> json res" where
  "assertSafePayload num_size path v =
     (case payload_issues num_size path v of
        [] \<Rightarrow> Inr v
      | i # _ \<Rightarrow> Inl (App_Error 400 ''ORCHESTRATION_PAYLOAD_REJECTED'' (is_path i)))"

text \<open>Copying through text gives a safe value back as it is.\<close>

definition cloneJson :: "(rat \<Rightarrow> nat) \<Rightarrow> json \<Rightarrow> json res" where
  "cloneJson num_size v = assertSafePayload num_size ''$'' v"

subsection \<open>Paths\<close>

fun split_dots :: "string \<Rightarrow> string list" where
  "split_dots [] = [[]]"
| "split_dots (c # s) =
     (if c = CHR ''.'' then [] # split_dots s
      else case split_dots s of [] \<Rightarrow> [[c]] | w # ws \<Rightarrow> (c # w) # ws)"

definition segment_tail :: "char \<Rightarrow> bool" where
  "segment_tail c \<longleftrightarrow> is_alpha c \<or> is_digit c \<or> c \<in> set ''_-''"

definition SAFE_PATH_SEGMENT :: "string \<Rightarrow> bool" where
  "SAFE_PATH_SEGMENT s = bounded_pattern is_alpha segment_tail 127 s"

definition SAFE_NODE_KEY :: "string \<Rightarrow> bool" where
  "SAFE_NODE_KEY s = bounded_pattern is_alpha segment_tail 99 s"

definition maximumPathDepth :: nat where "maximumPathDepth = 16"

text \<open>\<open>pathSegments\<close> of the validation and \<open>safeSegments\<close> of the mapping accept the same paths.\<close>

definition safe_segments :: "string \<Rightarrow> string list option" where
  "safe_segments path =
     (let ss = split_dots path
      in if length ss \<le> maximumPathDepth \<and> list_all (\<lambda>s. SAFE_PATH_SEGMENT s \<and> \<not> forbiddenKey s) ss
         then Some ss else None)"

subsection \<open>What a safe value has\<close>

text \<open>No object in a safe value, at any depth, has a forbidden key, and all its numbers are finite.\<close>

fun clean :: "json \<Rightarrow> bool" where
  "clean (JNum n) = (js_finite n \<noteq> None)"
| "clean (JArr xs) = (\<forall>w\<in>set xs. clean w)"
| "clean (JObj fs) = (\<forall>(k, w)\<in>set fs. \<not> forbiddenKey k \<and> clean w)"
| "clean _ = True"

lemma all_index_entries: "(\<forall>(k, w)\<in>set (index_entries xs). P w) \<longleftrightarrow> (\<forall>w\<in>set xs. P w)"
  unfolding index_entries_values [symmetric, of xs] by (simp add: case_prod_unfold del: index_entries_values)

lemma concat_map_Nil: "(\<And>x. x \<in> set xs \<Longrightarrow> f x = [] \<longleftrightarrow> P x) \<Longrightarrow> concat (map f xs) = [] \<longleftrightarrow> (\<forall>x\<in>set xs. P x)"
  by simp

lemma inspectSafeJson_clean: "inspectSafeJson path v = [] \<longleftrightarrow> clean v"
proof (induction path v rule: inspectSafeJson.induct)
  case (2 path xs)
  then have "inspectSafeJson path (JArr xs) = [] \<longleftrightarrow> (\<forall>(k, w)\<in>set (index_entries xs). clean w)"
    unfolding inspectSafeJson.simps by (intro concat_map_Nil) (simp split: prod.split)
  then show ?case by (simp add: all_index_entries)
next
  case (3 path fs)
  then show ?case
    unfolding inspectSafeJson.simps clean.simps by (intro concat_map_Nil) (simp split: prod.split)
qed simp_all

lemma assertSafePayload_Inr:
  "assertSafePayload num_size path v = Inr w \<longleftrightarrow>
     w = v \<and> clean v \<and> int (json_size num_size v) \<le> maximumPayloadBytes"
proof -
  have "payload_issues num_size path v = [] \<longleftrightarrow> clean v \<and> int (json_size num_size v) \<le> maximumPayloadBytes"
    by (simp add: payload_issues_def inspectSafeJson_clean)
  then show ?thesis by (auto simp: assertSafePayload_def split: list.split)
qed

lemma cloneJson_Inr:
  "cloneJson num_size v = Inr w \<longleftrightarrow> w = v \<and> clean v \<and> int (json_size num_size v) \<le> maximumPayloadBytes"
  by (simp add: cloneJson_def assertSafePayload_Inr)

lemma assertSafePayload_Inl:
  "assertSafePayload num_size path v = Inl e \<Longrightarrow> err_code e = ''ORCHESTRATION_PAYLOAD_REJECTED''"
  by (auto simp: assertSafePayload_def split: list.splits)

lemma cloneJson_Inl: "cloneJson num_size v = Inl e \<Longrightarrow> err_code e = ''ORCHESTRATION_PAYLOAD_REJECTED''"
  by (simp add: cloneJson_def assertSafePayload_Inl)

subsection \<open>Walks that count\<close>

text \<open>A walk over a list that threads a counter and collects issues.\<close>

fun visit_all :: "('e \<Rightarrow> nat \<Rightarrow> issue list \<times> nat) \<Rightarrow> 'e list \<Rightarrow> nat \<Rightarrow> issue list \<times> nat" where
  "visit_all f [] n = ([], n)"
| "visit_all f (e # es) n =
     (case f e n of (is, m) \<Rightarrow> case visit_all f es m of (js, m') \<Rightarrow> (is @ js, m'))"

lemma visit_all_cong [fundef_cong]:
  "xs = ys \<Longrightarrow> n = m \<Longrightarrow> (\<And>e k. e \<in> set ys \<Longrightarrow> f e k = g e k) \<Longrightarrow> visit_all f xs n = visit_all g ys m"
  by (induction xs arbitrary: ys n m) (auto split: prod.split)

end
