(* ===== verification/Json_Text.thy ===== *)
theory Json_Text
  imports Safe_Json
begin

text \<open>
  JSON values where the code reads them as text, as numbers or as times. What the language specifies of these conversions
  but a model of exact numbers cannot give, the text of a number, the number and the time that a string denotes, and the
  collation, is the record \<open>js_text\<close>.
\<close>

text \<open>\<open>String(n)\<close>, \<open>Number(s)\<close>, \<open>new Date(s).getTime()\<close> and \<open>a.localeCompare(b)\<close>.\<close>

record js_text =
  jt_string_of_number :: "jsnum \<Rightarrow> string"
  jt_number_of_string :: "string \<Rightarrow> jsnum"
  jt_time_of_string :: "string \<Rightarrow> jsnum"
  jt_collate :: "string \<Rightarrow> string \<Rightarrow> int"

fun join_comma :: "string list \<Rightarrow> string" where
  "join_comma [] = ''''"
| "join_comma [s] = s"
| "join_comma (s # t # ss) = s @ '','' @ join_comma (t # ss)"

fun to_string :: "js_text \<Rightarrow> json \<Rightarrow> string" where
  "to_string t JNull = ''null''"
| "to_string t (JBool b) = (if b then ''true'' else ''false'')"
| "to_string t (JNum n) = jt_string_of_number t n"
| "to_string t (JStr s) = s"
| "to_string t (JArr xs) = join_comma (map (\<lambda>x. if x = JNull then '''' else to_string t x) xs)"
| "to_string t (JObj fs) = ''[object Object]''"

fun to_number :: "js_text \<Rightarrow> json \<Rightarrow> jsnum" where
  "to_number t JNull = Fin 0"
| "to_number t (JBool b) = Fin (if b then 1 else 0)"
| "to_number t (JNum n) = n"
| "to_number t (JStr s) = jt_number_of_string t s"
| "to_number t (JArr xs) = jt_number_of_string t (to_string t (JArr xs))"
| "to_number t (JObj fs) = NaN"

text \<open>\<open>new Date(v).getTime()\<close>; a number is cut to an integral time within the range of dates.\<close>

fun time_value :: "js_text \<Rightarrow> json option \<Rightarrow> jsnum" where
  "time_value t (Some (JNum (Fin r))) =
     (if \<bar>r\<bar> \<le> 8640000000000000 then num_of_int (if r < 0 then \<lceil>r\<rceil> else \<lfloor>r\<rfloor>) else NaN)"
| "time_value t (Some (JNum n)) = NaN"
| "time_value t (Some (JStr s)) = jt_time_of_string t s"
| "time_value t (Some JNull) = Fin 0"
| "time_value t (Some (JBool b)) = Fin (if b then 1 else 0)"
| "time_value t (Some (JArr xs)) = jt_time_of_string t (to_string t (JArr xs))"
| "time_value t (Some (JObj fs)) = NaN"
| "time_value t None = NaN"

definition truthy_or :: "json option \<Rightarrow> json option \<Rightarrow> json option" where
  "truthy_or a b = (case a of Some v \<Rightarrow> if truthy v then a else b | None \<Rightarrow> b)"

definition text_or_empty :: "js_text \<Rightarrow> json option \<Rightarrow> string" where
  "text_or_empty t v = (case v of Some w \<Rightarrow> if truthy w then to_string t w else '''' | None \<Rightarrow> '''')"

end
