(* ===== verification/Canonical_Json.thy ===== *)
theory Canonical_Json
  imports Json_Text "HOL-Library.List_Lexorder" "HOL-Library.Char_ord"
begin

text \<open>
  The canonical text of a request (\<open>canonicalize\<close> of backend/src/utils/idempotency.js), over which fingerprints of requests, of
  schemas and of contracts are taken. The text of a number is that of \<open>js_text\<close>.
\<close>

subsection \<open>Text of strings\<close>

definition hex_digit :: "nat \<Rightarrow> char" where
  "hex_digit n = (if n < 10 then char_of (48 + n) else char_of (87 + n))"

text \<open>One character in \<open>JSON.stringify\<close> of a string.\<close>

definition quoted_char :: "char \<Rightarrow> string" where
  "quoted_char c =
     (let n = char_code c in
      if n = 34 then [CHR 0x5C, CHR 0x22] else if n = 92 then [CHR 0x5C, CHR 0x5C]
      else if n = 8 then [CHR 0x5C, CHR ''b''] else if n = 9 then [CHR 0x5C, CHR ''t'']
      else if n = 10 then [CHR 0x5C, CHR ''n''] else if n = 12 then [CHR 0x5C, CHR ''f'']
      else if n = 13 then [CHR 0x5C, CHR ''r'']
      else if n < 32 then [CHR 0x5C, CHR ''u'', CHR ''0'', CHR ''0'', hex_digit (n div 16), hex_digit (n mod 16)]
      else [c])"

definition json_string :: "string \<Rightarrow> string" where
  "json_string s = [CHR 0x22] @ concat (map quoted_char s) @ [CHR 0x22]"

subsection \<open>The canonical text\<close>

fun canonicalize :: "js_text \<Rightarrow> json \<Rightarrow> string res" where
  "canonicalize t JNull = Inr ''null''"
| "canonicalize t (JStr s) = Inr (json_string s)"
| "canonicalize t (JBool b) = Inr (if b then ''true'' else ''false'')"
| "canonicalize t (JNum n) = (if js_finite n = None then Inl (Type_Error ''value'') else Inr (jt_string_of_number t n))"
| "canonicalize t (JArr xs) =
     bindE (mapE (canonicalize t) xs) (\<lambda>ss. Inr (''['' @ join_comma ss @ '']''))"
| "canonicalize t (JObj fs) =
     bindE (mapE (\<lambda>(k, w). bindE (canonicalize t w) (\<lambda>s. Inr (json_string k @ '':'' @ s))) (sort_key fst fs))
       (\<lambda>ss. Inr (''{'' @ join_comma ss @ ''}''))"

subsection \<open>The text determines the value\<close>

text \<open>The value with the fields of its objects in order, which is what the canonical text keeps.\<close>

fun canonical_form :: "json \<Rightarrow> json" where
  "canonical_form (JArr xs) = JArr (map canonical_form xs)"
| "canonical_form (JObj fs) = JObj (map (\<lambda>(k, w). (k, canonical_form w)) (sort_key fst fs))"
| "canonical_form v = v"

fun finite_numbers :: "json \<Rightarrow> bool" where
  "finite_numbers (JNum n) = (js_finite n \<noteq> None)"
| "finite_numbers (JArr xs) = (\<forall>x\<in>set xs. finite_numbers x)"
| "finite_numbers (JObj fs) = (\<forall>(k, w)\<in>set fs. finite_numbers w)"
| "finite_numbers v = True"

text \<open>What the language says of the text of finite numbers: different numbers have different texts, which begin with a digit or a
  minus sign and go on with digits and the characters of a fraction and an exponent.\<close>

definition number_char :: "char \<Rightarrow> bool" where
  "number_char c \<longleftrightarrow> is_digit c \<or> c \<in> set ''-+.e''"

definition decimal_text :: "js_text \<Rightarrow> bool" where
  "decimal_text t \<longleftrightarrow>
     (\<forall>a b. jt_string_of_number t (Fin a) = jt_string_of_number t (Fin b) \<longrightarrow> a = b)
     \<and> (\<forall>a. \<exists>c s. jt_string_of_number t (Fin a) = c # s \<and> (is_digit c \<or> c = CHR ''-'') \<and> list_all number_char s)"

definition stops :: "string \<Rightarrow> bool" where
  "stops r \<longleftrightarrow> (case r of [] \<Rightarrow> True | c # _ \<Rightarrow> c \<in> set '',]}'')"

lemma stops_simps [simp]: "stops []" "stops (c # r) \<longleftrightarrow> c \<in> set '',]}''"
  by (simp_all add: stops_def)

subsubsection \<open>Strings\<close>

definition short_escape :: "nat \<Rightarrow> char option" where
  "short_escape n = map_of [(34, CHR 0x22), (92, CHR 0x5C), (8, CHR ''b''), (9, CHR ''t''), (10, CHR ''n''), (12, CHR ''f''), (13, CHR ''r'')] n"

lemma quoted_char_cases:
  "quoted_char c = (case short_escape (char_code c) of
     Some e \<Rightarrow> [CHR 0x5C, e]
   | None \<Rightarrow> if char_code c < 32
       then [CHR 0x5C, CHR ''u'', CHR ''0'', CHR ''0'', hex_digit (char_code c div 16), hex_digit (char_code c mod 16)] else [c])"
  by (auto simp: quoted_char_def short_escape_def Let_def)

lemma short_escape_inject: "short_escape m = Some e \<Longrightarrow> short_escape n = Some e \<Longrightarrow> m = n"
  by (auto simp: short_escape_def split: if_splits)

lemma short_escape_not_u: "short_escape m \<noteq> Some CHR ''u''"
  by (auto simp: short_escape_def)

lemma char_code_inject: "char_code c = char_code d \<Longrightarrow> c = d"
  by (simp add: char_code_def)

lemma hex_digit_inject: "m < 16 \<Longrightarrow> n < 16 \<Longrightarrow> hex_digit m = hex_digit n \<Longrightarrow> m = n"
  by (auto simp: hex_digit_def char_of_eq_iff take_bit_eq_mod split: if_splits)

lemma plain_quoted:
  assumes "short_escape (char_code c) = None"
  shows "c \<noteq> CHR 0x5C" "c \<noteq> CHR 0x22"
  using assms by (auto simp: short_escape_def char_code_def)

lemma quoted_char_unique: "quoted_char c @ x = quoted_char d @ y \<Longrightarrow> c = d \<and> x = y"
proof -
  assume e: "quoted_char c @ x = quoted_char d @ y"
  have hex: "n div 16 < 16" if "n < 32" for n :: nat using that by simp
  show ?thesis
  proof (cases "short_escape (char_code c)")
    case (Some a)
    with e short_escape_inject short_escape_not_u plain_quoted [of d] show ?thesis
      by (auto simp: quoted_char_cases split: option.splits if_splits intro: char_code_inject)
  next
    case None
    show ?thesis
    proof (cases "char_code c < 32")
      case True
      with e None short_escape_not_u plain_quoted [of d] have d: "char_code d < 32" "short_escape (char_code d) = None"
        by (auto simp: quoted_char_cases split: option.splits if_splits)
      with e None True have h: "hex_digit (char_code c div 16) = hex_digit (char_code d div 16)"
          "hex_digit (char_code c mod 16) = hex_digit (char_code d mod 16)" "x = y"
        by (auto simp: quoted_char_cases)
      then have "char_code c div 16 = char_code d div 16" "char_code c mod 16 = char_code d mod 16"
        using hex True d(1) by (auto intro: hex_digit_inject)
      then have "char_code c = char_code d" by (metis div_mult_mod_eq)
      with h(3) show ?thesis by (auto intro: char_code_inject)
    next
      case False
      with e None plain_quoted [of c] show ?thesis
        by (auto simp: quoted_char_cases split: option.splits if_splits)
    qed
  qed
qed

lemma quoted_char_first: "quoted_char c @ x \<noteq> CHR 0x22 # y"
  using plain_quoted [of c] by (auto simp: quoted_char_cases split: option.splits)

lemma json_string_unique: "json_string s @ x = json_string s' @ y \<Longrightarrow> s = s' \<and> x = y"
proof -
  have "concat (map quoted_char s) @ CHR 0x22 # x = concat (map quoted_char s') @ CHR 0x22 # y \<Longrightarrow> s = s' \<and> x = y"
  proof (induction s arbitrary: s')
    case Nil
    then show ?case using quoted_char_first by (cases s') (auto simp: append_assoc [symmetric] simp del: append_assoc, metis append_assoc)
  next
    case (Cons c s)
    then obtain d u where s': "s' = d # u"
      by (cases s') (auto, metis append_assoc quoted_char_first)
    with Cons.prems quoted_char_unique [of c "concat (map quoted_char s) @ CHR 0x22 # x" d "concat (map quoted_char u) @ CHR 0x22 # y"]
    have "c = d" "concat (map quoted_char s) @ CHR 0x22 # x = concat (map quoted_char u) @ CHR 0x22 # y" by simp_all
    with Cons.IH s' show ?case by blast
  qed
  moreover assume "json_string s @ x = json_string s' @ y"
  ultimately show ?thesis by (simp add: json_string_def)
qed

subsubsection \<open>Values\<close>

text \<open>The text of \<open>x\<close> can be read off a longer text: whatever else has a text that agrees is the same, up to \<open>c\<close>.\<close>

definition readable :: "('a \<Rightarrow> string res) \<Rightarrow> ('a \<Rightarrow> 'b) \<Rightarrow> 'a \<Rightarrow> bool" where
  "readable f c x \<longleftrightarrow>
     (\<forall>y s s' r r'. f x = Inr s \<longrightarrow> f y = Inr s' \<longrightarrow> s @ r = s' @ r' \<longrightarrow> stops r \<longrightarrow> stops r' \<longrightarrow> c x = c y \<and> r = r')"

lemma readableD:
  "readable f c x \<Longrightarrow> f x = Inr s \<Longrightarrow> f y = Inr s' \<Longrightarrow> s @ r = s' @ r' \<Longrightarrow> stops r \<Longrightarrow> stops r' \<Longrightarrow> c x = c y \<and> r = r'"
  unfolding readable_def by blast

lemma join_comma_Cons: "join_comma (s # ss) = s @ (if ss = [] then [] else CHR '','' # join_comma ss)"
  by (cases ss) auto

lemma readable_list:
  assumes "\<And>x. x \<in> set xs \<Longrightarrow> readable f c x" "\<And>x s. f x = Inr s \<Longrightarrow> \<exists>a u. s = a # u \<and> a \<notin> set '',]}''"
    and "mapE f xs = Inr ss" "mapE f ys = Inr ts" "e \<in> set '']}''" "join_comma ss @ e # r = join_comma ts @ e # r'"
  shows "map c xs = map c ys \<and> r = r'"
  using assms(1,3,4,6)
proof (induction xs arbitrary: ys ss ts)
  case Nil
  show ?case
  proof (cases ys)
    case (Cons y ys')
    with Nil(3) obtain t ts' where "f y = Inr t" "ts = t # ts'" by (auto simp: bindE_Inr_iff)
    with Nil(2,4) assms(2) [of y t] assms(5) show ?thesis by (auto simp: join_comma_Cons)
  qed (use Nil in auto)
next
  case (Cons x xs)
  from Cons(3) obtain s ss' where s: "f x = Inr s" "mapE f xs = Inr ss'" "ss = s # ss'" by (auto simp: bindE_Inr_iff)
  obtain y ys' where ys: "ys = y # ys'"
    using Cons(4,5) s(3) assms(2) [OF s(1)] assms(5) by (cases ys) (auto simp: join_comma_Cons)
  with Cons(4) obtain t ts' where t: "f y = Inr t" "mapE f ys' = Inr ts'" "ts = t # ts'" by (auto simp: bindE_Inr_iff)
  let ?r = "(if ss' = [] then [] else CHR '','' # join_comma ss') @ e # r"
  let ?r' = "(if ts' = [] then [] else CHR '','' # join_comma ts') @ e # r'"
  have "s @ ?r = t @ ?r'" using Cons(5) s(3) t(3) by (simp add: join_comma_Cons)
  then have "c x = c y \<and> ?r = ?r'" using assms(5) by (intro readableD [OF Cons(2) s(1) t(1)]) auto
  then have x: "c x = c y" "?r = ?r'" by blast+
  have e: "e \<noteq> CHR '',''" using assms(5) by auto
  show ?case
  proof (cases "ss' = []")
    case True
    with x(2) e have "ts' = []" "r = r'" by (auto split: if_splits)
    moreover have "xs = []" "ys' = []" using s(2) t(2) True \<open>ts' = []\<close> by (auto dest: mapE_length)
    ultimately show ?thesis using x(1) ys by simp
  next
    case False
    with x(2) e have "ts' \<noteq> []" "join_comma ss' @ e # r = join_comma ts' @ e # r'" by (auto split: if_splits)
    then show ?thesis using Cons(1) [OF Cons(2) s(2) t(2)] x(1) ys by simp
  qed
qed

lemma number_text_unique:
  assumes "decimal_text t" "jt_string_of_number t (Fin a) @ r = jt_string_of_number t (Fin b) @ r'" "stops r" "stops r'"
  shows "a = b \<and> r = r'"
proof -
  have n: "list_all number_char (jt_string_of_number t (Fin x))" for x
  proof -
    obtain c s where "jt_string_of_number t (Fin x) = c # s" "is_digit c \<or> c = CHR ''-''" "list_all number_char s"
      using assms(1) unfolding decimal_text_def by blast
    then show ?thesis by (auto simp: number_char_def)
  qed
  have s: "takeWhile number_char (u @ q) = u" if "list_all number_char u" "stops q" for u q
  proof -
    have "takeWhile number_char q = []"
      using that(2) by (cases q) (auto simp: number_char_def char_class_defs)
    with that(1) show ?thesis by (simp add: list_all_iff)
  qed
  have "jt_string_of_number t (Fin a) = jt_string_of_number t (Fin b)" using s n assms(2-4) by metis
  with assms(1,2) show ?thesis by (auto simp: decimal_text_def)
qed

text \<open>The first character of a text tells the kind of its value.\<close>

fun begins :: "json \<Rightarrow> char \<Rightarrow> bool" where
  "begins JNull a = (a = CHR ''n'')"
| "begins (JBool b) a = (a = (if b then CHR ''t'' else CHR ''f''))"
| "begins (JStr _) a = (a = CHR 0x22)"
| "begins (JArr _) a = (a = CHR ''['')"
| "begins (JObj _) a = (a = CHR ''{'')"
| "begins (JNum _) a = (is_digit a \<or> a = CHR ''-'')"

lemma canonicalize_first:
  assumes "decimal_text t" "canonicalize t v = Inr s"
  shows "\<exists>a u. s = a # u \<and> begins v a"
proof (cases v)
  case (JNum n)
  then obtain x where "n = Fin x" "s = jt_string_of_number t (Fin x)" using assms(2) by (cases n) auto
  with assms(1) JNum show ?thesis unfolding decimal_text_def by fastforce
qed (use assms in \<open>auto simp: json_string_def bindE_Inr_iff split: if_splits\<close>)

lemma first_not_digit [simp]:
  "\<not> is_digit CHR ''n''" "\<not> is_digit CHR ''t''" "\<not> is_digit CHR ''f''" "\<not> is_digit CHR 0x22" "\<not> is_digit CHR ''[''" "\<not> is_digit CHR ''{''"
  by (simp_all add: char_class_defs)

lemma canonicalize_starts:
  "decimal_text t \<Longrightarrow> canonicalize t v = Inr s \<Longrightarrow> \<exists>a u. s = a # u \<and> a \<notin> set '',]}''"
  using canonicalize_first [of t v s] by (cases v) (auto simp: char_class_defs split: if_splits)

text \<open>One field of an object.\<close>

definition field_text :: "js_text \<Rightarrow> string \<times> json \<Rightarrow> string res" where
  "field_text t = (\<lambda>(k, w). bindE (canonicalize t w) (\<lambda>s. Inr (json_string k @ '':'' @ s)))"

lemma readable_field:
  assumes "readable (canonicalize t) canonical_form w"
  shows "readable (field_text t) (\<lambda>(k, w). (k, canonical_form w)) (k, w)"
  unfolding readable_def
proof (intro allI impI)
  fix y s s' r r'
  assume a: "field_text t (k, w) = Inr s" "field_text t y = Inr s'" "s @ r = s' @ r'" "stops r" "stops r'"
  obtain k' w' where y: "y = (k', w')" by (cases y)
  from a(1,2) y obtain u u' where u: "canonicalize t w = Inr u" "canonicalize t w' = Inr u'"
    "s = json_string k @ '':'' @ u" "s' = json_string k' @ '':'' @ u'" by (auto simp: field_text_def bindE_Inr_iff)
  with a(3) have "json_string k @ '':'' @ u @ r = json_string k' @ '':'' @ u' @ r'" by simp
  from json_string_unique [OF this] have "k = k'" "u @ r = u' @ r'" by auto
  with readableD [OF assms u(1,2) _ a(4,5)] y
  show "(case (k, w) of (k, w) \<Rightarrow> (k, canonical_form w)) = (case y of (k, w) \<Rightarrow> (k, canonical_form w)) \<and> r = r'" by simp
qed

lemma canonicalize_object: "canonicalize t (JObj fs) =
    bindE (mapE (field_text t) (sort_key fst fs)) (\<lambda>ss. Inr (''{'' @ join_comma ss @ ''}''))"
  by (simp add: field_text_def)

lemma same_kind:
  assumes "begins v c" "begins y c" "v \<in> {JNull, JBool b, JNum n, JStr x}"
  shows "(\<exists>m m'. v = JNum m \<and> y = JNum m') \<or> (\<exists>z z'. v = JStr z \<and> y = JStr z') \<or> v = y \<and> v \<in> {JNull, JBool b}"
  using assms by (cases v; cases y; simp split: if_splits)

lemma readable_scalar:
  assumes t: "decimal_text t"
  shows "readable (canonicalize t) canonical_form JNull" "readable (canonicalize t) canonical_form (JBool b)"
    "readable (canonicalize t) canonical_form (JNum n)" "readable (canonicalize t) canonical_form (JStr x)"
proof -
  have "canonical_form v = canonical_form y \<and> r = r'"
    if v: "v \<in> {JNull, JBool b, JNum n, JStr x}" and a: "canonicalize t v = Inr s" "canonicalize t y = Inr s'" "s @ r = s' @ r'"
      "stops r" "stops r'" for v y s s' r r'
  proof -
    obtain c u u' where c: "s = c # u" "s' = c # u'"
      using canonicalize_first [OF t a(1)] canonicalize_first [OF t a(2)] a(3) by auto
    have k: "begins v c" "begins y c"
      using canonicalize_first [OF t a(1)] canonicalize_first [OF t a(2)] c by auto
    consider (num) m m' where "v = JNum m" "y = JNum m'" | (str) z z' where "v = JStr z" "y = JStr z'"
      | (other) "v = y" "v \<in> {JNull, JBool b}"
      using same_kind [OF k v] by blast
    then show ?thesis
    proof cases
      case num
      with a(1,2) obtain i j where "m = Fin i" "m' = Fin j" "s = jt_string_of_number t (Fin i)" "s' = jt_string_of_number t (Fin j)"
        by (cases m; cases m') auto
      with number_text_unique [OF t _ a(4,5)] a(3) num show ?thesis by auto
    next
      case str
      then have "json_string z @ r = json_string z' @ r'" using a(1-3) by simp
      from json_string_unique [OF this] str show ?thesis by simp
    qed (use a in auto)
  qed
  then show "readable (canonicalize t) canonical_form JNull" "readable (canonicalize t) canonical_form (JBool b)"
    "readable (canonicalize t) canonical_form (JNum n)" "readable (canonicalize t) canonical_form (JStr x)"
    unfolding readable_def by blast+
qed

lemma readable_canonical:
  assumes t: "decimal_text t"
  shows "readable (canonicalize t) canonical_form v"
proof (induction v rule: canonical_form.induct)
  case (1 xs)
  show ?case unfolding readable_def
  proof (intro allI impI)
    fix y s s' r r'
    assume a: "canonicalize t (JArr xs) = Inr s" "canonicalize t y = Inr s'" "s @ r = s' @ r'" "stops r" "stops r'"
    obtain ys where y: "y = JArr ys" using canonicalize_first [OF t a(1)] canonicalize_first [OF t a(2)] a(3)
      by (cases y) (auto simp: char_class_defs split: if_splits)
    from a(1,2) y obtain ss ts where m: "mapE (canonicalize t) xs = Inr ss" "mapE (canonicalize t) ys = Inr ts"
      "s = ''['' @ join_comma ss @ '']''" "s' = ''['' @ join_comma ts @ '']''" by (auto simp: bindE_Inr_iff)
    have "map canonical_form xs = map canonical_form ys \<and> r = r'"
      by (rule readable_list [where e = "CHR '']''", OF 1 canonicalize_starts [OF t] m(1,2)]) (use a(3) m(3,4) in auto)
    with y show "canonical_form (JArr xs) = canonical_form y \<and> r = r'" by simp
  qed
next
  case (2 fs)
  show ?case unfolding readable_def
  proof (intro allI impI)
    fix y s s' r r'
    assume a: "canonicalize t (JObj fs) = Inr s" "canonicalize t y = Inr s'" "s @ r = s' @ r'" "stops r" "stops r'"
    obtain gs where y: "y = JObj gs" using canonicalize_first [OF t a(1)] canonicalize_first [OF t a(2)] a(3)
      by (cases y) (auto simp: char_class_defs split: if_splits)
    from a(1,2) y obtain ss ts where m: "mapE (field_text t) (sort_key fst fs) = Inr ss" "mapE (field_text t) (sort_key fst gs) = Inr ts"
      "s = ''{'' @ join_comma ss @ ''}''" "s' = ''{'' @ join_comma ts @ ''}''"
      unfolding canonicalize_object by (auto simp: canonicalize_object bindE_Inr_iff simp del: canonicalize.simps)
    have f: "readable (field_text t) (\<lambda>(k, w). (k, canonical_form w)) x" if "x \<in> set (sort_key fst fs)" for x
      proof -
      obtain k w where x: "x = (k, w)" by (cases x)
      with 2 [OF that] show ?thesis by (auto intro: readable_field)
    qed
    have g: "\<exists>a u. s = a # u \<and> a \<notin> set '',]}''" if "field_text t x = Inr s" for x s
      using that by (cases x) (auto simp: field_text_def json_string_def bindE_Inr_iff)
    have "map (\<lambda>(k, w). (k, canonical_form w)) (sort_key fst fs) = map (\<lambda>(k, w). (k, canonical_form w)) (sort_key fst gs) \<and> r = r'"
      by (rule readable_list [where e = "CHR ''}''", OF f g m(1,2)]) (use a(3) m(3,4) in auto)
    with y show "canonical_form (JObj fs) = canonical_form y \<and> r = r'" by simp
  qed
qed (simp_all only: readable_scalar [OF t])

lemma mapE_total: "\<forall>x\<in>set xs. \<exists>s. f x = Inr s \<Longrightarrow> \<exists>ss. mapE f xs = Inr ss"
  by (induction xs) (auto simp: bindE_Inr_iff)

lemma canonicalize_total: "finite_numbers v \<Longrightarrow> \<exists>s. canonicalize t v = Inr s"
proof (induction v rule: finite_numbers.induct)
  case (2 xs)
  then obtain ss where "mapE (canonicalize t) xs = Inr ss" using mapE_total [of xs "canonicalize t"] by auto
  then show ?case by auto
next
  case (3 fs)
  then have "\<forall>x\<in>set (sort_key fst fs). \<exists>s. field_text t x = Inr s" by (fastforce simp: field_text_def)
  then obtain ss where "mapE (field_text t) (sort_key fst fs) = Inr ss" using mapE_total by blast
  then show ?case unfolding canonicalize_object by auto
qed auto

lemma canonicalize_form: "canonicalize t (canonical_form v) = canonicalize t v"
proof (induction v rule: canonical_form.induct)
  case (1 xs)
  then have "mapE (canonicalize t) (map canonical_form xs) = mapE (canonicalize t) xs" by (induction xs) auto
  then show ?case by simp
next
  case (2 fs)
  have "field_text t (k, canonical_form w) = field_text t (k, w)" if "(k, w) \<in> set (sort_key fst fs)" for k w
    using 2 that by (simp add: field_text_def)
  then have "mapE (field_text t) (map (\<lambda>(k, w). (k, canonical_form w)) xs) = mapE (field_text t) xs"
    if "set xs \<subseteq> set (sort_key fst fs)" for xs using that by (induction xs) auto
  moreover have "sort_key fst (map (\<lambda>(k, w). (k, canonical_form w)) (sort_key fst fs)) = map (\<lambda>(k, w). (k, canonical_form w)) (sort_key fst fs)"
    by (intro sort_key_id_if_sorted) (simp add: o_def case_prod_unfold)
  ultimately show ?case unfolding canonical_form.simps canonicalize_object by simp
qed simp_all

lemma canonical_text_iff:
  assumes "decimal_text t" "finite_numbers v" "finite_numbers w"
  shows "canonicalize t v = canonicalize t w \<longleftrightarrow> canonical_form v = canonical_form w"
proof
  assume e: "canonicalize t v = canonicalize t w"
  obtain s where s: "canonicalize t v = Inr s" using canonicalize_total [OF assms(2)] by blast
  then have "canonicalize t w = Inr s" by (simp only: e)
  from readableD [OF readable_canonical [OF assms(1)] s this refl stops_simps(1) stops_simps(1)]
  show "canonical_form v = canonical_form w" by (rule conjunct1)
next
  assume "canonical_form v = canonical_form w"
  then show "canonicalize t v = canonicalize t w" by (metis canonicalize_form)
qed

text \<open>C20: the canonical text is a fingerprint of the value: two values with finite numbers have the same text exactly when they
  are the same up to the order of fields, at every depth.\<close>

theorem canonical_text_exact:
  assumes "decimal_text t" "finite_numbers v" "finite_numbers w"
  shows "canonicalize t v = canonicalize t w \<longleftrightarrow> canonical_form v = canonical_form w"
  by (rule canonical_text_iff [OF assms])

text \<open>A text of numbers in tally marks, with the numerator and the denominator.\<close>

definition tally :: "nat \<Rightarrow> string" where
  "tally n = replicate n CHR ''1''"

definition tally_text :: js_text where
  "tally_text =
     \<lparr>jt_string_of_number = (\<lambda>n. case n of
        Fin r \<Rightarrow> (case quotient_of r of (p, q) \<Rightarrow>
          (if p < 0 then CHR ''-'' else CHR ''1'') # tally (nat \<bar>p\<bar>) @ CHR ''e'' # tally (nat q)) | _ \<Rightarrow> ''''),
      jt_number_of_string = (\<lambda>s. NaN), jt_time_of_string = (\<lambda>s. NaN), jt_collate = (\<lambda>a b. 0)\<rparr>"

lemma tally_split: "tally m @ CHR ''e'' # tally n = tally m' @ CHR ''e'' # tally n' \<Longrightarrow> m = m' \<and> n = n'"
proof -
  have t: "takeWhile (\<lambda>c. c \<noteq> CHR ''e'') (tally m @ CHR ''e'' # tally n) = tally m" for m n
    by (induction m) (auto simp: tally_def)
  assume e: "tally m @ CHR ''e'' # tally n = tally m' @ CHR ''e'' # tally n'"
  then have "tally m = tally m'" using t by metis
  with e show ?thesis by (auto simp: tally_def replicate_eq_replicate)
qed

lemma tally_text_decimal: "decimal_text tally_text"
  unfolding decimal_text_def
proof (intro conjI allI impI)
  fix a b :: rat
  assume e: "jt_string_of_number tally_text (Fin a) = jt_string_of_number tally_text (Fin b)"
  obtain p q where a: "quotient_of a = (p, q)" by (cases "quotient_of a")
  obtain p' q' where b: "quotient_of b = (p', q')" by (cases "quotient_of b")
  have "0 < q" "0 < q'" using quotient_of_denom_pos a b by blast+
  moreover have "nat \<bar>p\<bar> = nat \<bar>p'\<bar> \<and> nat q = nat q'" "p < 0 \<longleftrightarrow> p' < 0"
    using e a b by (auto simp: tally_text_def dest: tally_split split: if_splits)
  ultimately have "p = p'" "q = q'" by linarith+
  with a b show "a = b" by (metis quotient_of_inject)
next
  fix a :: rat
  show "\<exists>c s. jt_string_of_number tally_text (Fin a) = c # s \<and> (is_digit c \<or> c = CHR ''-'') \<and> list_all number_char s"
    by (cases "quotient_of a")
      (auto simp: tally_text_def tally_def number_char_def list_all_iff char_class_defs)
qed

theorem canonical_text_exact_witness:
  "canonicalize tally_text (JObj [(''b'', JArr [JNum (Fin 1)]), (''a'', JStr ''x'')])
     = canonicalize tally_text (JObj [(''a'', JStr ''x''), (''b'', JArr [JNum (Fin 1)])])
   \<and> canonicalize tally_text (JStr ''1'') \<noteq> canonicalize tally_text (JNum (Fin 1))"
proof -
  have f: "finite_numbers (JObj [(''b'', JArr [JNum (Fin 1)]), (''a'', JStr ''x'')])"
    "finite_numbers (JObj [(''a'', JStr ''x''), (''b'', JArr [JNum (Fin 1)])])" "finite_numbers (JStr ''1'')" "finite_numbers (JNum (Fin 1))"
    by simp_all
  have "canonical_form (JObj [(''b'', JArr [JNum (Fin 1)]), (''a'', JStr ''x'')])
      = canonical_form (JObj [(''a'', JStr ''x''), (''b'', JArr [JNum (Fin 1)])])" by code_simp
  then show ?thesis
    using canonical_text_exact [OF tally_text_decimal f(1,2)] canonical_text_exact [OF tally_text_decimal f(3,4)] by simp
qed

subsection \<open>Idempotency of invocations\<close>

text \<open>The digest of Node's crypto module under the secret of the service is the argument \<open>hmac\<close>, a text in hexadecimal digits.\<close>

definition MAX_IDEMPOTENCY_KEY_LENGTH :: nat where
  "MAX_IDEMPOTENCY_KEY_LENGTH = 256"

definition HASH_PREFIX :: string where
  "HASH_PREFIX = ''hmac-sha256:''"

definition secureDigest :: "(string \<Rightarrow> string) \<Rightarrow> string \<Rightarrow> string \<Rightarrow> string" where
  "secureDigest hmac purpose value = HASH_PREFIX @ hmac (''ghost-bridge:'' @ purpose @ '':v1'' @ [CHR 0x00] @ value)"

definition idempotency_key_invalid :: app_error where
  "idempotency_key_invalid = App_Error 400 ''IDEMPOTENCY_KEY_INVALID'' ''''"

definition normalizeClientKey :: "string \<Rightarrow> json option \<Rightarrow> (string \<times> bool) res" where
  "normalizeClientKey uuid v =
     (case v of
        None \<Rightarrow> Inr (uuid, False)
      | Some JNull \<Rightarrow> Inr (uuid, False)
      | Some (JStr s) \<Rightarrow>
          if s = [] then Inr (uuid, False)
          else let key = js_trim s in
            if key = [] \<or> MAX_IDEMPOTENCY_KEY_LENGTH < length key then Inl idempotency_key_invalid else Inr (key, True)
      | _ \<Rightarrow> Inl idempotency_key_invalid)"

record invocation_idempotency =
  ii_scope :: string
  ii_key_hash :: string
  ii_fingerprint :: string
  ii_client_provided :: bool

text \<open>A field whose value is undefined is left out.\<close>

definition request_value :: "string \<Rightarrow> string \<Rightarrow> json option \<Rightarrow> json" where
  "request_value connection capability input =
     JObj ([(''capability'', JStr capability), (''connectionId'', JStr connection)]
       @ (case input of None \<Rightarrow> [] | Some v \<Rightarrow> [(''input'', v)]))"

definition createInvocationIdempotency ::
  "js_text \<Rightarrow> (string \<Rightarrow> string) \<Rightarrow> string \<Rightarrow> json option \<Rightarrow> string \<Rightarrow> string \<Rightarrow> json option \<Rightarrow> invocation_idempotency res" where
  "createInvocationIdempotency t hmac uuid clientKey connection capability input =
     bindE (normalizeClientKey uuid clientKey) (\<lambda>(key, provided).
     bindE (canonicalize t (request_value connection capability input)) (\<lambda>request.
     Inr \<lparr>ii_scope = ''runtime.invoke:'' @ connection, ii_key_hash = secureDigest hmac ''idempotency-key'' key,
          ii_fingerprint = secureDigest hmac ''invocation-request'' request, ii_client_provided = provided\<rparr>))"

definition hashesEqual :: "string option \<Rightarrow> string option \<Rightarrow> bool" where
  "hashesEqual left right = (case (left, right) of (Some l, Some r) \<Rightarrow> l = r | _ \<Rightarrow> False)"

lemma canonical_request:
  "canonical_form (request_value connection capability input) =
     JObj ([(''capability'', JStr capability), (''connectionId'', JStr connection)]
       @ (case input of None \<Rightarrow> [] | Some v \<Rightarrow> [(''input'', canonical_form v)]))"
proof -
  have "''capability'' \<le> ''connectionId''" "''connectionId'' \<le> ''input''" "''capability'' \<le> ''input''" by code_simp+
  then show ?thesis by (cases input) (simp_all add: request_value_def)
qed

text \<open>C21: two requests are taken for the same request exactly when they call the same capability of the same connection with the
  same input up to the order of fields, or when the keyed digest maps the two different texts that are signed for them to one value.
  Nothing is supposed of the digest: equal requests always have equal fingerprints, and the only way for different requests to have
  equal ones is a collision of the digest on these two texts.\<close>

theorem fingerprint_identifies_request:
  assumes "decimal_text t"
    and "createInvocationIdempotency t hmac u k connection capability (Some v) = Inr a"
    and "createInvocationIdempotency t hmac u' k' connection' capability' (Some v') = Inr b"
    and "finite_numbers v" "finite_numbers v'"
  shows "hashesEqual (Some (ii_fingerprint a)) (Some (ii_fingerprint b)) \<longleftrightarrow>
    connection = connection' \<and> capability = capability' \<and> canonical_form v = canonical_form v'
    \<or> (\<exists>s s'. canonicalize t (request_value connection capability (Some v)) = Inr s
         \<and> canonicalize t (request_value connection' capability' (Some v')) = Inr s' \<and> s \<noteq> s'
         \<and> hmac (''ghost-bridge:invocation-request:v1'' @ CHR 0x00 # s) = hmac (''ghost-bridge:invocation-request:v1'' @ CHR 0x00 # s'))"
proof -
  obtain s s' where s: "canonicalize t (request_value connection capability (Some v)) = Inr s"
      "canonicalize t (request_value connection' capability' (Some v')) = Inr s'"
    and d: "ii_fingerprint a = secureDigest hmac ''invocation-request'' s" "ii_fingerprint b = secureDigest hmac ''invocation-request'' s'"
    using assms(2,3) by (auto simp: createInvocationIdempotency_def bindE_Inr_iff simp del: canonicalize.simps)
  have "finite_numbers (request_value connection capability (Some v))" "finite_numbers (request_value connection' capability' (Some v'))"
    using assms(4,5) by (simp_all add: request_value_def)
  from canonical_text_iff [OF assms(1) this] s
  have "s = s' \<longleftrightarrow> connection = connection' \<and> capability = capability' \<and> canonical_form v = canonical_form v'"
    by (auto simp: canonical_request)
  then show ?thesis by (auto simp: s d hashesEqual_def secureDigest_def simp del: canonicalize.simps)
qed

text \<open>A digest of two characters, which is far from injective.\<close>

definition short_digest :: "string \<Rightarrow> string" where
  "short_digest s = take 2 (rev s)"

theorem fingerprint_identifies_request_witness:
  "\<exists>a b c. createInvocationIdempotency tally_text short_digest ''u1'' None ''c1'' ''search'' (Some (JObj [(''q'', JStr ''x''), (''n'', JNull)])) = Inr a
     \<and> createInvocationIdempotency tally_text short_digest ''u2'' (Some (JStr '' key '')) ''c1'' ''search'' (Some (JObj [(''n'', JNull), (''q'', JStr ''x'')])) = Inr b
     \<and> createInvocationIdempotency tally_text short_digest ''u3'' None ''c1'' ''search'' (Some (JStr ''x'')) = Inr c
     \<and> ii_fingerprint a = ii_fingerprint b \<and> ii_fingerprint a \<noteq> ii_fingerprint c"
proof -
  let ?v = "JObj [(''q'', JStr ''x''), (''n'', JNull)]" and ?w = "JObj [(''n'', JNull), (''q'', JStr ''x'')]"
  let ?a = "createInvocationIdempotency tally_text short_digest ''u1'' None ''c1'' ''search'' (Some ?v)"
  let ?b = "createInvocationIdempotency tally_text short_digest ''u2'' (Some (JStr '' key '')) ''c1'' ''search'' (Some ?w)"
  let ?c = "createInvocationIdempotency tally_text short_digest ''u3'' None ''c1'' ''search'' (Some (JStr ''x''))"
  have "\<not> isl ?a" "\<not> isl ?b" "\<not> isl ?c" by code_simp+
  then obtain a b c where abc: "?a = Inr a" "?b = Inr b" "?c = Inr c" by (metis sum.collapse(2))
  have "canonical_form ?v = canonical_form ?w" by code_simp
  then have "hashesEqual (Some (ii_fingerprint a)) (Some (ii_fingerprint b))"
    using fingerprint_identifies_request [OF tally_text_decimal abc(1,2)] by simp
  moreover have "canonicalize tally_text (request_value ''c1'' ''search'' (Some ?v)) = canonicalize tally_text (request_value ''c1'' ''search'' (Some ?w))"
    by code_simp
  moreover have "map_sum id ii_fingerprint ?a \<noteq> map_sum id ii_fingerprint ?c" by code_simp
  ultimately show ?thesis using abc by (auto simp: hashesEqual_def)
qed

end
