(* ===== verification/Invocation_Control.thy ===== *)
theory Invocation_Control
  imports Recovery_Policy Canonical_Json
begin

text \<open>
  \<open>controlContext\<close> of backend/src/utils/invocationControlView.js: the evidence about an invocation and its connection on which the
  decision over a recovery retry is taken, by the operator's request (\<open>retryInvocation\<close> of invocationControl.service.js) and by the views. The
  fields it reads of the two documents are the records \<open>control_invocation\<close> and \<open>control_connection\<close>; the digest of the
  fingerprint is the argument \<open>hmac\<close>.
\<close>

record control_invocation =
  ci_recovery :: recovery_snapshot
  ci_state_history :: "istate list option"
  ci_last_progress_stage :: "progress_stage option"
  ci_protected_replay_available :: bool
  ci_request_fingerprint :: "string option"
  ci_input_summary :: "json option"
  ci_connection_id :: string
  ci_capability :: string
  ci_idempotency_key_hash :: "string option"

record control_connection =
  ct_status :: "string option"
  ct_health_status :: "string option"
  ct_remote_idempotency_supported :: bool

definition OUTBOUND_STAGES :: "progress_stage list" where
  "OUTBOUND_STAGES =
     [Stage_Outbound_Request_Started, Stage_Remote_Response_Received, Stage_Response_Validation_Started, Stage_Finalization_Started]"

text \<open>The history holds the states that were entered; \<open>None\<close> is a value that is not an array.\<close>

definition evidence_of_transmission :: "control_invocation \<Rightarrow> transmission_evidence" where
  "evidence_of_transmission ivc =
     (if (case ci_state_history ivc of Some h \<Rightarrow> list_ex (\<lambda>s. s = Waiting_For_Runtime) h | None \<Rightarrow> False)
         \<or> (case ci_last_progress_stage ivc of Some st \<Rightarrow> st \<in> set OUTBOUND_STAGES | None \<Rightarrow> False)
      then Transmitted else Not_Transmitted)"

definition replay_input_available :: "js_text \<Rightarrow> (string \<Rightarrow> string) \<Rightarrow> string \<Rightarrow> control_invocation \<Rightarrow> bool" where
  "replay_input_available t hmac uuid ivc \<longleftrightarrow>
     ci_protected_replay_available ivc
     \<or> present (ci_request_fingerprint ivc) \<and> ci_input_summary ivc \<noteq> None
       \<and> (case createInvocationIdempotency t hmac uuid (Some (JStr ''recovery-fingerprint-verification''))
              (ci_connection_id ivc) (ci_capability ivc) (ci_input_summary ivc) of
            Inr a \<Rightarrow> hashesEqual (ci_request_fingerprint ivc) (Some (ii_fingerprint a))
          | Inl _ \<Rightarrow> False)"

text \<open>The pattern \<open>/^(?:sha256|hmac-sha256):[a-f0-9]{64}$/\<close>.\<close>

definition hex_char :: "char \<Rightarrow> bool" where
  "hex_char c \<longleftrightarrow> c \<in> set ''0123456789abcdef''"

definition key_hash_pattern :: "string \<Rightarrow> bool" where
  "key_hash_pattern s \<longleftrightarrow>
     list_ex (\<lambda>p. take (length p) s = p \<and> length (drop (length p) s) = 64 \<and> list_all hex_char (drop (length p) s))
       [''sha256:'', ''hmac-sha256:'']"

definition controlContext ::
  "js_text \<Rightarrow> (string \<Rightarrow> string) \<Rightarrow> string \<Rightarrow> control_invocation \<Rightarrow> control_connection option \<Rightarrow> recovery_input" where
  "controlContext t hmac uuid ivc connection =
     (let supported = (case connection of Some c \<Rightarrow> ct_remote_idempotency_supported c | None \<Rightarrow> False)
      in \<lparr>rp_invocation = ci_recovery ivc, rp_circuit_state = None,
          rp_connection_status = Option.bind connection ct_status,
          rp_connection_health_state = Option.bind connection ct_health_status,
          rp_error_code = None, rp_transmission_evidence = Some (evidence_of_transmission ivc),
          rp_remote_idempotency_supported = supported, rp_remote_idempotency_acknowledged = supported,
          rp_replay_input_available = replay_input_available t hmac uuid ivc,
          rp_idempotency_identity_available = key_hash_pattern (or_empty (ci_idempotency_key_hash ivc))\<rparr>)"

subsection \<open>When a retry is offered\<close>

lemma controlContext_simps [simp]:
  "rp_invocation (controlContext t hmac uuid ivc con) = ci_recovery ivc"
  "rp_circuit_state (controlContext t hmac uuid ivc con) = None" "rp_error_code (controlContext t hmac uuid ivc con) = None"
  "rp_connection_status (controlContext t hmac uuid ivc con) = Option.bind con ct_status"
  "rp_connection_health_state (controlContext t hmac uuid ivc con) = Option.bind con ct_health_status"
  "rp_transmission_evidence (controlContext t hmac uuid ivc con) = Some (evidence_of_transmission ivc)"
  "rp_remote_idempotency_supported (controlContext t hmac uuid ivc con) \<longleftrightarrow> (\<exists>c. con = Some c \<and> ct_remote_idempotency_supported c)"
  "rp_remote_idempotency_acknowledged (controlContext t hmac uuid ivc con) \<longleftrightarrow> (\<exists>c. con = Some c \<and> ct_remote_idempotency_supported c)"
  "rp_replay_input_available (controlContext t hmac uuid ivc con) = replay_input_available t hmac uuid ivc"
  "rp_idempotency_identity_available (controlContext t hmac uuid ivc con) = key_hash_pattern (or_empty (ci_idempotency_key_hash ivc))"
  by (auto simp: controlContext_def Let_def split: option.split)

lemma prefix_split: "take (length p) s = p \<and> P (drop (length p) s) \<longleftrightarrow> (\<exists>d. P d \<and> s = p @ d)"
  by (metis append_eq_conv_conj append_take_drop_id)

lemma key_hash_pattern_iff:
  "key_hash_pattern s \<longleftrightarrow> (\<exists>d. length d = 64 \<and> list_all hex_char d \<and> (s = ''sha256:'' @ d \<or> s = ''hmac-sha256:'' @ d))"
proof -
  have "key_hash_pattern s \<longleftrightarrow> (\<exists>p\<in>{''sha256:'', ''hmac-sha256:''}. \<exists>d. (length d = 64 \<and> list_all hex_char d) \<and> s = p @ d)"
    unfolding key_hash_pattern_def list_ex_iff prefix_split [where P = "\<lambda>d. length d = 64 \<and> list_all hex_char d", symmetric] list.set ..
  then show ?thesis by blast
qed

lemma not_transmitted_iff:
  "evidence_of_transmission ivc = Not_Transmitted \<longleftrightarrow>
     (\<forall>h. ci_state_history ivc = Some h \<longrightarrow> Waiting_For_Runtime \<notin> set h)
     \<and> ci_last_progress_stage ivc \<notin> Some ` {Stage_Outbound_Request_Started, Stage_Remote_Response_Received,
         Stage_Response_Validation_Started, Stage_Finalization_Started}"
  by (auto simp: evidence_of_transmission_def OUTBOUND_STAGES_def list_ex_iff split: option.splits)

lemma evidence_cases: "e \<noteq> Transmitted \<longleftrightarrow> e = Not_Transmitted" for e :: transmission_evidence
  by (cases e) simp_all

lemma known_reason:
  "r \<noteq> Some ''REMOTE_OUTCOME_UNKNOWN'' \<and> r \<noteq> Some ''REMOTE_OUTCOME_AMBIGUOUS'' \<and> r \<noteq> Some ''REMOTE_TIMEOUT_OUTCOME_AMBIGUOUS''
      \<and> \<not> (present r \<and> the r \<notin> set PRE_TRANSMISSION_REASONS)
    \<longleftrightarrow> r \<in> {None, Some '''', Some ''STALE_BEFORE_REMOTE_TRANSMISSION'', Some ''NO_REMOTE_TRANSMISSION''}"
  by (cases r) (auto simp: PRE_TRANSMISSION_REASONS_def)

lemma outcome_known_iff:
  "\<not> outcomeUnknown (controlContext t hmac uuid ivc con) \<longleftrightarrow>
     rs_cancellation_state (ci_recovery ivc) \<noteq> Cancel_Outcome_Unknown
     \<and> rs_cancellation_outcome (ci_recovery ivc) \<noteq> Cancel_Remote_Unconfirmed
     \<and> rs_recovery_reason_code (ci_recovery ivc) \<in> {None, Some '''', Some ''STALE_BEFORE_REMOTE_TRANSMISSION'', Some ''NO_REMOTE_TRANSMISSION''}
     \<and> evidence_of_transmission ivc = Not_Transmitted"
  unfolding outcomeUnknown_def Let_def known_reason [symmetric] evidence_cases [symmetric] controlContext_simps option.inject
  by (simp only: de_Morgan_disj conj_assoc)

lemma known_outcome_not_transmitted:
  "\<not> outcomeUnknown (controlContext t hmac uuid ivc con) \<Longrightarrow> noRemoteTransmission (controlContext t hmac uuid ivc con)"
  unfolding outcome_known_iff noRemoteTransmission_def Let_def by simp

lemma connection_accepts:
  "\<not> (present (Option.bind con ct_status) \<and> Option.bind con ct_status \<noteq> Some ''connected'')
      \<and> \<not> (Option.bind con ct_health_status = Some ''unhealthy'' \<or> Option.bind con ct_health_status = Some ''disabled'')
    \<longleftrightarrow> (\<forall>c. con = Some c \<longrightarrow> ct_status c \<in> {None, Some '''', Some ''connected''}
           \<and> ct_health_status c \<notin> {Some ''unhealthy'', Some ''disabled''})"
  by (cases con) (auto simp: present_def)

lemma key_on_record:
  "key_hash_pattern (or_empty h) \<longleftrightarrow>
     (\<exists>d. length d = 64 \<and> list_all hex_char d \<and> h \<in> {Some (''sha256:'' @ d), Some (''hmac-sha256:'' @ d)})"
  by (cases h) (auto simp: key_hash_pattern_iff or_empty_def)

lemma fingerprint_present: "createInvocationIdempotency t hmac u k c cap input = Inr a \<Longrightarrow> ii_fingerprint a \<noteq> ''''"
  by (auto simp: createInvocationIdempotency_def bindE_Inr_iff secureDigest_def HASH_PREFIX_def simp del: canonicalize.simps)

lemma replay_input_iff:
  "replay_input_available t hmac uuid ivc \<longleftrightarrow> ci_protected_replay_available ivc \<or> (\<exists>v a. ci_input_summary ivc = Some v
     \<and> createInvocationIdempotency t hmac uuid (Some (JStr ''recovery-fingerprint-verification''))
         (ci_connection_id ivc) (ci_capability ivc) (Some v) = Inr a
     \<and> ci_request_fingerprint ivc = Some (ii_fingerprint a))"
  unfolding replay_input_available_def
  by (auto simp: hashesEqual_def present_def dest: fingerprint_present split: sum.splits option.splits)

text \<open>
  C28: On the evidence that the service collects a recovery retry is offered exactly when the invocation requires recovery and no
  other recovery has claimed or resolved it, it has not completed, its connection (if there is one) is connected and neither unhealthy nor
  disabled, neither the failure nor an earlier denial is one of fourteen codes that no retry mends, the hash of its idempotency
  key is on record and its input can be reproduced (it is kept, or its fingerprint matches the stored summary), and: either the connection
  supports idempotent requests and the client gave a key, or nothing was sent, that is the history never entered \<open>waiting_for_runtime\<close>, the last
  progress is not that of a request on its way or answered, no cancellation is unconfirmed and no reason but the two that precede a
  transmission is recorded. An offered retry always requires the same key. The decision never asks whether the circuit is open: the
  context does not carry its state.
\<close>

theorem recovery_retry_is_safe:
  "let r = ci_recovery ivc;
       fatal = {''AUTHENTICATION_REQUIRED'', ''RUNTIME_AUTHENTICATION_FAILED'', ''GEMINI_AUTHENTICATION_FAILED'',
         ''FORBIDDEN'', ''POLICY_DENIED'', ''CAPABILITY_DISABLED'', ''CAPABILITY_INPUT_INVALID'', ''CAPABILITY_SCHEMA_INVALID'',
         ''VALIDATION_ERROR'', ''CREDENTIAL_REQUIRED'', ''CREDENTIAL_EXPIRED'', ''CREDENTIAL_VALIDATION_FAILED'',
         ''ENCRYPTION_CONFIGURATION_INVALID'', ''UNSAFE_URL''};
       verdict = recoveryPolicyDecision (controlContext t hmac uuid ivc con)
   in (rv_action verdict = Retry_Allowed \<longleftrightarrow>
      rs_lifecycle_state r = Recovery_Required \<and> rs_recovery_state r \<notin> {Recovery_Retrying, Recovery_Resolved}
      \<and> rs_status r \<noteq> Legacy_Completed
      \<and> (\<forall>c. con = Some c \<longrightarrow> ct_status c \<in> {None, Some '''', Some ''connected''}
           \<and> ct_health_status c \<notin> {Some ''unhealthy'', Some ''disabled''})
      \<and> js_upper (or_empty (rs_error_code r)) \<notin> fatal
      \<and> (rs_recovery_decision r = Decision_Retry_Denied \<longrightarrow> js_upper (or_empty (rs_recovery_decision_reason r)) \<notin> fatal)
      \<and> (\<exists>d. length d = 64 \<and> list_all hex_char d \<and> ci_idempotency_key_hash ivc \<in> {Some (''sha256:'' @ d), Some (''hmac-sha256:'' @ d)})
      \<and> (ci_protected_replay_available ivc \<or> (\<exists>v a. ci_input_summary ivc = Some v
           \<and> createInvocationIdempotency t hmac uuid (Some (JStr ''recovery-fingerprint-verification''))
               (ci_connection_id ivc) (ci_capability ivc) (Some v) = Inr a
           \<and> ci_request_fingerprint ivc = Some (ii_fingerprint a)))
      \<and> ((\<exists>c. con = Some c \<and> ct_remote_idempotency_supported c) \<and> rs_client_idempotency_provided r
         \<or> rs_cancellation_state r \<noteq> Cancel_Outcome_Unknown \<and> rs_cancellation_outcome r \<noteq> Cancel_Remote_Unconfirmed
           \<and> rs_recovery_reason_code r \<in> {None, Some '''', Some ''STALE_BEFORE_REMOTE_TRANSMISSION'', Some ''NO_REMOTE_TRANSMISSION''}
           \<and> (\<forall>h. ci_state_history ivc = Some h \<longrightarrow> Waiting_For_Runtime \<notin> set h)
           \<and> ci_last_progress_stage ivc \<notin> Some ` {Stage_Outbound_Request_Started, Stage_Remote_Response_Received,
               Stage_Response_Validation_Started, Stage_Finalization_Started}))
    \<and> (rv_action verdict = Retry_Allowed \<longrightarrow> rv_requires_same_idempotency_key verdict)"
proof -
  let ?i = "controlContext t hmac uuid ivc con"
  have fatal: "{''AUTHENTICATION_REQUIRED'', ''RUNTIME_AUTHENTICATION_FAILED'', ''GEMINI_AUTHENTICATION_FAILED'',
         ''FORBIDDEN'', ''POLICY_DENIED'', ''CAPABILITY_DISABLED'', ''CAPABILITY_INPUT_INVALID'', ''CAPABILITY_SCHEMA_INVALID'',
         ''VALIDATION_ERROR'', ''CREDENTIAL_REQUIRED'', ''CREDENTIAL_EXPIRED'', ''CREDENTIAL_VALIDATION_FAILED'',
         ''ENCRYPTION_CONFIGURATION_INVALID'', ''UNSAFE_URL''} = set NON_RETRYABLE_RECOVERY_CODES"
    unfolding NON_RETRYABLE_RECOVERY_CODES_def list.set ..
  have code: "or_default None s = s" for s by (simp add: or_default_def)
  have known: "\<not> outcomeUnknown ?i \<longrightarrow> noRemoteTransmission ?i" by (blast intro: known_outcome_not_transmitted)
  show ?thesis
    unfolding Let_def
  proof (rule conjI, goal_cases)
    case 1
    show ?case
      unfolding fatal not_transmitted_iff [symmetric] outcome_known_iff [where t = t and hmac = hmac and uuid = uuid and con = con, symmetric]
        replay_input_iff [where t = t and hmac = hmac and uuid = uuid, symmetric] key_on_record [symmetric] connection_accepts [symmetric]
        recovery_passed controlContext_simps code
      using known by (simp only: insert_iff empty_iff if_bool_eq_conj option.distinct simp_thms) sat
  next
    case 2
    show ?case by (blast intro: recovery_retry_same_key)
  qed
qed

text \<open>An invocation whose worker was lost before it sent anything, with the input kept.\<close>

definition sample_control :: control_invocation where
  "sample_control =
     \<lparr>ci_recovery =
        (rp_invocation sample_recovery)\<lparr>rs_recovery_reason_code := Some ''NO_REMOTE_TRANSMISSION'', rs_client_idempotency_provided := False\<rparr>,
      ci_state_history = Some [Accepted, Validating, Authorized, Running, Recovery_Required],
      ci_last_progress_stage = Some Stage_Request_Mapped, ci_protected_replay_available = True,
      ci_request_fingerprint = None, ci_input_summary = None, ci_connection_id = ''c1'', ci_capability = ''translate'',
      ci_idempotency_key_hash = Some (''sha256:'' @ replicate 64 (CHR ''0''))\<rparr>"

theorem recovery_retry_is_safe_witness:
  "rv_action (recoveryPolicyDecision (controlContext tally_text short_digest ''u'' sample_control None)) = Retry_Allowed \<and>
   rv_requires_same_idempotency_key (recoveryPolicyDecision (controlContext tally_text short_digest ''u'' sample_control None)) \<and>
   rv_action (recoveryPolicyDecision (controlContext tally_text short_digest ''u''
     (sample_control\<lparr>ci_last_progress_stage := Some Stage_Outbound_Request_Started\<rparr>) None)) = Retry_Denied"
proof -
  have a: "rv_action (recoveryPolicyDecision (controlContext tally_text short_digest ''u'' sample_control None)) = Retry_Allowed"
    by code_simp
  have d: "rv_action (recoveryPolicyDecision (controlContext tally_text short_digest ''u''
     (sample_control\<lparr>ci_last_progress_stage := Some Stage_Outbound_Request_Started\<rparr>) None)) = Retry_Denied" by code_simp
  have "rv_requires_same_idempotency_key (recoveryPolicyDecision (controlContext tally_text short_digest ''u'' sample_control None))"
    using recovery_retry_is_safe [of sample_control tally_text short_digest "''u''" None] a unfolding Let_def by blast
  with a d show ?thesis by blast
qed

end
