(* ===== verification/Retry_Policy.thy ===== *)
theory Retry_Policy
  imports Prelude
begin

text \<open>
  backend/src/utils/retryability.js, backend/src/utils/circuitFailure.js and
  backend/src/utils/retryPolicy.js: which failures may be retried, which ones count
  against a runtime's circuit, and when and after what delay an automatic retry runs.
  The random source of the jitter is an argument; delays are computed over the rationals.
\<close>

subsection \<open>Status and retryability of an error\<close>

record error_meta =
  em_provider_http_status :: "jsnum option"
  em_remote_status :: "jsnum option"
  em_status_code :: "jsnum option"
  em_status :: "jsnum option"
  em_code :: "string option"
  em_error_code :: "string option"
  em_cause_code :: "string option"
  em_name :: "string option"
  em_cause_name :: "string option"
  em_retryable :: "bool option"
  em_remote_retryable :: "bool option"

definition empty_error :: error_meta where
  "empty_error =
     \<lparr>em_provider_http_status = None, em_remote_status = None, em_status_code = None,
      em_status = None, em_code = None, em_error_code = None, em_cause_code = None,
      em_name = None, em_cause_name = None, em_retryable = None, em_remote_retryable = None\<rparr>"

definition RETRYABLE_CODES :: "string list" where
  "RETRYABLE_CODES =
     [''ECONNRESET'', ''ECONNREFUSED'', ''ETIMEDOUT'', ''EAI_AGAIN'', ''UND_ERR_CONNECT_TIMEOUT'',
      ''SAFE_FETCH_TIMEOUT'', ''SAFE_FETCH_FAILED'', ''GEMINI_RATE_LIMITED'',
      ''GEMINI_REQUEST_TIMEOUT'', ''GEMINI_UPSTREAM_UNAVAILABLE'', ''CIRCUIT_OPEN'',
      ''CIRCUIT_HALF_OPEN_PROBE_ACTIVE'', ''RATE_LIMIT_PROTECTED'', ''RUNTIME_CAPACITY_EXCEEDED'',
      ''SERVICE_DRAINING'', ''CREDENTIAL_PROVIDER_UNAVAILABLE'']"

definition NON_RETRYABLE_CODES :: "string list" where
  "NON_RETRYABLE_CODES =
     [''GEMINI_RESEARCH_BUDGET_EXHAUSTED'', ''VALIDATION_ERROR'', ''AUTHENTICATION_REQUIRED'',
      ''RUNTIME_AUTHENTICATION_FAILED'', ''GEMINI_AUTHENTICATION_FAILED'', ''FORBIDDEN'',
      ''POLICY_DENIED'', ''CAPABILITY_DISABLED'', ''CAPABILITY_INPUT_INVALID'',
      ''CAPABILITY_SCHEMA_INVALID'', ''RUNTIME_OUTPUT_INVALID'', ''RUNTIME_OUTPUT_MISSING'',
      ''GEMINI_INVALID_STRUCTURED_OUTPUT'', ''GEMINI_SOURCE_EXTRACTION_FAILED'',
      ''GEMINI_GROUNDING_METADATA_MISSING'', ''GEMINI_SOURCE_PARSING_FAILED'',
      ''GEMINI_RESPONSE_BLOCKED'', ''CREDENTIAL_REQUIRED'', ''CREDENTIAL_EXPIRED'',
      ''CREDENTIAL_VALIDATION_FAILED'', ''SECRET_ACCESS_DENIED'', ''SECRET_DISABLED'',
      ''SECRET_REVOKED'', ''SECRET_EXPIRED'', ''SECRET_VERSION_NOT_ACTIVE'',
      ''SECRET_BINDING_INVALID'', ''SECRET_BINDING_REVOKED'', ''SECRET_DECRYPTION_FAILED'',
      ''SECRET_INTEGRITY_FAILED'', ''ENCRYPTION_KEY_UNAVAILABLE'', ''CREDENTIAL_LEASE_EXPIRED'',
      ''CREDENTIAL_LEASE_REVOKED'', ''ENCRYPTION_CONFIGURATION_INVALID'', ''INSTALL_KEY_INVALID'',
      ''INSTALL_KEY_USED'', ''INSTALL_KEY_ALREADY_USED'', ''INSTALL_KEY_EXPIRED'',
      ''INSTALL_KEY_REVOKED'', ''RUNTIME_CONFIGURATION_INVALID'', ''UNSAFE_URL'',
      ''IDEMPOTENCY_KEY_INVALID'', ''IDEMPOTENCY_CONFLICT'', ''CONNECTION_DISABLED'',
      ''CONNECTION_UNHEALTHY'', ''INVOCATION_CANCELLED'', ''REQUEST_CANCELLED'',
      ''SERVICE_SHUTDOWN'', ''SHUTDOWN_INTERRUPTED_INVOCATION'', ''CANCELLED'', ''ABORT_ERR'']"

fun first_status :: "jsnum option list \<Rightarrow> int option" where
  "first_status [] = None"
| "first_status (None # vs) = first_status vs"
| "first_status (Some v # vs) =
     (case js_integer v of
        Some i \<Rightarrow> if 100 \<le> i \<and> i \<le> 599 then Some i else first_status vs
      | None \<Rightarrow> first_status vs)"

definition statusOf :: "error_meta \<Rightarrow> int option" where
  "statusOf e =
     first_status
       [em_provider_http_status e, em_remote_status e, em_status_code e, em_status e]"

definition mongo_transient_names :: "string list" where
  "mongo_transient_names =
     [''mongonetworkerror'', ''mongoserverselectionerror'', ''mongotimeouterror'']"

definition isRetryableError :: "error_meta \<Rightarrow> bool" where
  "isRetryableError e =
     (let code = js_upper (or_default (em_code e) (or_empty (em_cause_code e)));
          status = statusOf e
      in if em_remote_retryable e = Some False then False
         else if code \<in> set NON_RETRYABLE_CODES then False
         else if em_retryable e = Some True then True
         else if code \<in> set RETRYABLE_CODES then True
         else if status \<in> {Some 429, Some 502, Some 503, Some 504} then True
         else if (case status of Some s \<Rightarrow> 400 \<le> s \<and> s < 500 | None \<Rightarrow> False) then False
         else (let text = js_lower (or_empty (em_name e) @ '' '' @ or_empty (em_cause_name e))
               in \<exists>n\<in>set mongo_transient_names. js_includes text n))"

subsection \<open>Failures that count against a circuit\<close>

definition EXCLUDED_CODES :: "string list" where
  "EXCLUDED_CODES =
     [''VALIDATION_ERROR'', ''CAPABILITY_INPUT_INVALID'', ''CAPABILITY_SCHEMA_INVALID'',
      ''POLICY_DENIED'', ''FORBIDDEN'', ''AUTHENTICATION_REQUIRED'',
      ''RUNTIME_AUTHENTICATION_FAILED'', ''INSTALL_KEY_INVALID'', ''INSTALL_KEY_ALREADY_USED'',
      ''INSTALL_KEY_EXPIRED'', ''INSTALL_KEY_REVOKED'', ''CREDENTIAL_REQUIRED'',
      ''CREDENTIAL_EXPIRED'', ''CREDENTIAL_VALIDATION_FAILED'',
      ''ENCRYPTION_CONFIGURATION_INVALID'', ''CAPABILITY_DISABLED'', ''CAPABILITY_NOT_FOUND'',
      ''IDEMPOTENCY_CONFLICT'', ''IDEMPOTENCY_KEY_INVALID'', ''UNSAFE_URL'',
      ''CONNECTION_DISABLED'', ''SERVICE_DRAINING'', ''INVOCATION_CANCELLED'',
      ''REQUEST_CANCELLED'', ''SERVICE_SHUTDOWN'', ''SHUTDOWN_INTERRUPTED_INVOCATION'',
      ''CANCELLED'', ''ABORT_ERR'']"

definition NETWORK_CODES :: "string list" where
  "NETWORK_CODES =
     [''ECONNRESET'', ''ECONNREFUSED'', ''ETIMEDOUT'', ''EAI_AGAIN'', ''UND_ERR_CONNECT_TIMEOUT'',
      ''SAFE_FETCH_TIMEOUT'', ''SAFE_FETCH_FAILED'', ''GEMINI_REQUEST_TIMEOUT'',
      ''GEMINI_UPSTREAM_UNAVAILABLE'', ''GEMINI_RESEARCH_BUDGET_EXHAUSTED'',
      ''RUNTIME_UNAVAILABLE'', ''RUNTIME_READINESS_FAILED'']"

definition MALFORMED_RUNTIME_CODES :: "string list" where
  "MALFORMED_RUNTIME_CODES =
     [''RUNTIME_OUTPUT_INVALID'', ''RUNTIME_OUTPUT_MISSING'', ''GEMINI_INVALID_STRUCTURED_OUTPUT'']"

datatype failure_category =
    Rate_Limited | Caller_Or_Local_Failure | Upstream_Unavailable | Upstream_Timeout
  | Malformed_Runtime_Response | Unclassified_Failure

record circuit_classification =
  cc_counts_toward_circuit :: bool
  cc_rate_limited :: bool
  cc_category :: failure_category
  cc_weight :: nat
  cc_reason :: string

definition safeCode :: "string option \<Rightarrow> string" where
  "safeCode v = js_upper (js_trim (or_empty v))"

definition nonempty_or :: "string \<Rightarrow> string \<Rightarrow> string" where
  "nonempty_or s d = (if s = '''' then d else s)"

definition classifyCircuitFailure :: "error_meta \<Rightarrow> circuit_classification" where
  "classifyCircuitFailure e =
     (let errorCode = safeCode (if present (em_error_code e) then em_error_code e else em_code e);
          status = statusOf e
      in if status = Some 429 \<or> errorCode = ''GEMINI_RATE_LIMITED''
         then \<lparr>cc_counts_toward_circuit = False, cc_rate_limited = True,
               cc_category = Rate_Limited, cc_weight = 0, cc_reason = ''PROVIDER_429''\<rparr>
         else if errorCode \<in> set EXCLUDED_CODES \<or> starts_with errorCode ''INSTALL_KEY_''
         then \<lparr>cc_counts_toward_circuit = False, cc_rate_limited = False,
               cc_category = Caller_Or_Local_Failure, cc_weight = 0,
               cc_reason = nonempty_or errorCode ''NON_RUNTIME_FAILURE''\<rparr>
         else if status \<in> {Some 502, Some 503, Some 504}
         then \<lparr>cc_counts_toward_circuit = True, cc_rate_limited = False,
               cc_category = Upstream_Unavailable, cc_weight = 1,
               cc_reason = ''PROVIDER_'' @ nat_str (nat (the status))\<rparr>
         else if errorCode \<in> set NETWORK_CODES
         then \<lparr>cc_counts_toward_circuit = True, cc_rate_limited = False,
               cc_category =
                 (if js_includes errorCode ''TIMEOUT'' \<or> js_includes errorCode ''BUDGET_EXHAUSTED''
                  then Upstream_Timeout else Upstream_Unavailable),
               cc_weight = 1, cc_reason = errorCode\<rparr>
         else if errorCode \<in> set MALFORMED_RUNTIME_CODES
         then \<lparr>cc_counts_toward_circuit = True, cc_rate_limited = False,
               cc_category = Malformed_Runtime_Response, cc_weight = 1, cc_reason = errorCode\<rparr>
         else \<lparr>cc_counts_toward_circuit = False, cc_rate_limited = False,
               cc_category = Unclassified_Failure, cc_weight = 0,
               cc_reason = nonempty_or errorCode ''UNCLASSIFIED_FAILURE''\<rparr>)"

lemma first_status_range: "first_status vs = Some i \<Longrightarrow> 100 \<le> i \<and> i \<le> 599"
  by (induction vs rule: first_status.induct) (auto split: option.splits if_splits)

lemma statusOf_range: "statusOf e = Some i \<Longrightarrow> 100 \<le> i \<and> i \<le> 599"
  unfolding statusOf_def by (drule first_status_range)

lemma classify_weight:
  "cc_weight (classifyCircuitFailure e) = (if cc_counts_toward_circuit (classifyCircuitFailure e) then 1 else 0)"
  by (simp add: classifyCircuitFailure_def Let_def)

lemma classify_rate_limited_not_counted:
  "cc_rate_limited (classifyCircuitFailure e) \<Longrightarrow> \<not> cc_counts_toward_circuit (classifyCircuitFailure e)"
  by (auto simp: classifyCircuitFailure_def Let_def split: if_splits)

subsection \<open>The automatic retry policy\<close>

datatype retry_reason =
    AUTHENTICATION_FAILURE | CAPABILITY_RETRY_NOT_ENABLED | CLIENT_IDEMPOTENCY_NOT_PROVIDED
  | CONNECTION_CREATION_NOT_RETRYABLE | CREDENTIAL_FAILURE
  | GROUNDED_RESEARCH_NOT_AUTOMATICALLY_RETRIED | INSTALL_KEY_OPERATION_NOT_RETRYABLE
  | MALFORMED_PROVIDER_RESPONSE | MAX_ATTEMPTS_REACHED | NON_RETRYABLE_ERROR | POLICY_DENIAL
  | REMOTE_IDEMPOTENCY_NOT_CONFIRMED | RETRY_SAFETY_NOT_PROVEN | SCHEMA_VALIDATION_FAILURE
  | SOURCE_EXTRACTION_FAILURE | TRANSIENT_FAILURE_NOT_CONFIRMED | TRANSIENT_IDEMPOTENT_FAILURE
  | UNSAFE_URL

definition AUTHENTICATION_CODES :: "string list" where
  "AUTHENTICATION_CODES =
     [''AUTHENTICATION_REQUIRED'', ''RUNTIME_AUTHENTICATION_FAILED'', ''GEMINI_AUTHENTICATION_FAILED'']"

definition POLICY_CODES :: "string list" where
  "POLICY_CODES = [''FORBIDDEN'', ''POLICY_DENIED'', ''CAPABILITY_DISABLED'']"

definition SCHEMA_CODES :: "string list" where
  "SCHEMA_CODES = [''VALIDATION_ERROR'', ''CAPABILITY_INPUT_INVALID'', ''CAPABILITY_SCHEMA_INVALID'']"

definition MALFORMED_RESPONSE_CODES :: "string list" where
  "MALFORMED_RESPONSE_CODES =
     [''RUNTIME_OUTPUT_INVALID'', ''RUNTIME_OUTPUT_MISSING'', ''GEMINI_INVALID_STRUCTURED_OUTPUT'']"

definition CREDENTIAL_CODES :: "string list" where
  "CREDENTIAL_CODES =
     [''CREDENTIAL_REQUIRED'', ''CREDENTIAL_EXPIRED'', ''CREDENTIAL_VALIDATION_FAILED'',
      ''ENCRYPTION_CONFIGURATION_INVALID'']"

definition SOURCE_EXTRACTION_CODES :: "string list" where
  "SOURCE_EXTRACTION_CODES =
     [''GEMINI_SOURCE_EXTRACTION_FAILED'', ''GEMINI_GROUNDING_METADATA_MISSING'',
      ''GEMINI_SOURCE_PARSING_FAILED'']"

definition TRANSIENT_CODES :: "string list" where
  "TRANSIENT_CODES =
     [''ECONNRESET'', ''ECONNREFUSED'', ''ETIMEDOUT'', ''EAI_AGAIN'', ''UND_ERR_CONNECT_TIMEOUT'',
      ''SAFE_FETCH_TIMEOUT'', ''SAFE_FETCH_FAILED'', ''GEMINI_RATE_LIMITED'',
      ''GEMINI_REQUEST_TIMEOUT'', ''GEMINI_UPSTREAM_UNAVAILABLE'']"

definition IDEMPOTENT_HTTP_METHODS :: "string list" where
  "IDEMPOTENT_HTTP_METHODS = [''GET'', ''HEAD'', ''OPTIONS'']"

definition SAFE_RETRY_OPERATIONS :: "string list" where
  "SAFE_RETRY_OPERATIONS =
     [''database_read'', ''connection_health_check'', ''passport_metadata_retrieval'',
      ''provider_readiness_check'']"

record retry_decision =
  rd_allowed :: bool
  rd_reason :: retry_reason
  rd_delay_ms :: "int option"
  rd_next_attempt_number :: "int option"

definition denied :: "retry_reason \<Rightarrow> retry_decision" where
  "denied reason =
     \<lparr>rd_allowed = False, rd_reason = reason, rd_delay_ms = None, rd_next_attempt_number = None\<rparr>"

text \<open>Overrides of the configuration, and the configuration with the environment's defaults filled in.\<close>

record retry_overrides =
  ro_max_attempts :: "jsnum option"
  ro_base_delay_ms :: "jsnum option"
  ro_max_delay_ms :: "jsnum option"
  ro_jitter_percent :: "jsnum option"

record retry_config =
  rc_max_attempts :: int
  rc_base_delay_ms :: int
  rc_max_delay_ms :: int
  rc_jitter_percent :: int

definition config_integer :: "jsnum option \<Rightarrow> int \<Rightarrow> (int \<Rightarrow> bool) \<Rightarrow> string \<Rightarrow> int res" where
  "config_integer v dflt ok name =
     (case js_integer (case v of None \<Rightarrow> num_of_int dflt | Some x \<Rightarrow> x) of
        None \<Rightarrow> Inl (Type_Error name)
      | Some i \<Rightarrow> if ok i then Inr i else Inl (Type_Error name))"

definition retryConfiguration :: "retry_config \<Rightarrow> retry_overrides \<Rightarrow> retry_config res" where
  "retryConfiguration envc ov =
     bindE (config_integer (ro_max_attempts ov) (rc_max_attempts envc) (\<lambda>i. 1 \<le> i) ''maxAttempts'') (\<lambda>a.
     bindE (config_integer (ro_base_delay_ms ov) (rc_base_delay_ms envc) (\<lambda>i. 1 \<le> i) ''baseDelayMs'') (\<lambda>b.
     bindE (config_integer (ro_max_delay_ms ov) (rc_max_delay_ms envc) (\<lambda>i. b \<le> i) ''maxDelayMs'') (\<lambda>m.
     bindE (config_integer (ro_jitter_percent ov) (rc_jitter_percent envc) (\<lambda>i. 0 \<le> i \<and> i \<le> 100)
       ''jitterPercent'') (\<lambda>j.
     Inr \<lparr>rc_max_attempts = a, rc_base_delay_ms = b, rc_max_delay_ms = m, rc_jitter_percent = j\<rparr>))))"

definition exponential_delay :: "retry_config \<Rightarrow> int \<Rightarrow> int" where
  "exponential_delay c n = min (rc_max_delay_ms c) (rc_base_delay_ms c * 2 ^ nat (max 0 (n - 1)))"

definition boundedBackoffDelay ::
  "retry_config \<Rightarrow> jsnum \<Rightarrow> retry_overrides \<Rightarrow> rat \<Rightarrow> int res" where
  "boundedBackoffDelay envc attempt ov random =
     (case js_integer attempt of
        None \<Rightarrow> Inl (Type_Error ''attemptNumber'')
      | Some n \<Rightarrow>
          if n < 1 then Inl (Type_Error ''attemptNumber'')
          else bindE (retryConfiguration envc ov) (\<lambda>c.
            let randomValue = min 1 (max 0 random);
                exponentialDelay = of_int (exponential_delay c n) :: rat;
                jitterRange = exponentialDelay * (of_int (rc_jitter_percent c) / 100);
                jitteredDelay = exponentialDelay - jitterRange + randomValue * jitterRange * 2
            in Inr (max 0 (min (rc_max_delay_ms c) (js_round jitteredDelay)))))"

datatype capability_retry_policy =
    Policy_True | Policy_Text string | Policy_Object "bool option" | Policy_Absent

record retry_input =
  ri_attempt_number :: "jsnum option"
  ri_error_code :: "string option"
  ri_code :: "string option"
  ri_operation :: "string option"
  ri_http_method :: "string option"
  ri_method :: "string option"
  ri_provider_http_status :: "jsnum option"
  ri_status_code :: "jsnum option"
  ri_error_name :: "string option"
  ri_retryable :: "bool option"
  ri_may_create_external_side_effects :: "bool option"
  ri_capability_retry_policy :: capability_retry_policy
  ri_client_idempotency_provided :: "bool option"
  ri_idempotency_supported :: "bool option"
  ri_remote_idempotency_acknowledged :: "bool option"

definition normalizedErrorCode :: "retry_input \<Rightarrow> string" where
  "normalizedErrorCode i =
     js_upper (js_trim (or_default (ri_error_code i) (or_empty (ri_code i))))"

definition explicitCapabilityRetryAllowed :: "capability_retry_policy \<Rightarrow> bool" where
  "explicitCapabilityRetryAllowed p =
     (case p of
        Policy_True \<Rightarrow> True
      | Policy_Text s \<Rightarrow> s = ''allow'' \<or> s = ''idempotent''
      | Policy_Object automatic \<Rightarrow> automatic = Some True
      | Policy_Absent \<Rightarrow> False)"

definition transientFailureConfirmed :: "retry_input \<Rightarrow> string \<Rightarrow> int option \<Rightarrow> bool" where
  "transientFailureConfirmed i errorCode status =
     (if errorCode \<in> set TRANSIENT_CODES then True
      else if status \<in> {Some 429, Some 502, Some 503, Some 504} then True
      else js_lower (or_empty (ri_error_name i)) \<in> set mongo_transient_names)"

definition attempt_of :: "retry_input \<Rightarrow> jsnum" where
  "attempt_of i = (case ri_attempt_number i of None \<Rightarrow> num_of_int 1
     | Some x \<Rightarrow> if x = Fin 0 \<or> x = NaN then num_of_int 1 else x)"

definition operation_of :: "retry_input \<Rightarrow> string" where
  "operation_of i = js_lower (js_trim (or_empty (ri_operation i)))"

definition method_of :: "retry_input \<Rightarrow> string" where
  "method_of i = js_upper (js_trim (or_default (ri_http_method i) (or_empty (ri_method i))))"

definition status_of_input :: "retry_input \<Rightarrow> int option" where
  "status_of_input i =
     statusOf (empty_error\<lparr>em_provider_http_status := ri_provider_http_status i,
       em_status_code := ri_status_code i\<rparr>)"

definition idempotent_read :: "retry_input \<Rightarrow> bool" where
  "idempotent_read i \<longleftrightarrow>
     method_of i \<in> set IDEMPOTENT_HTTP_METHODS \<or> operation_of i \<in> set SAFE_RETRY_OPERATIONS"

definition retryPolicyDecision ::
  "retry_config \<Rightarrow> retry_input \<Rightarrow> retry_overrides \<Rightarrow> rat \<Rightarrow> retry_decision res" where
  "retryPolicyDecision envc i ov random =
     bindE (retryConfiguration envc ov) (\<lambda>c.
     case js_integer (attempt_of i) of
       None \<Rightarrow> Inl (Type_Error ''attemptNumber'')
     | Some n \<Rightarrow>
       if n < 1 then Inl (Type_Error ''attemptNumber'')
       else if rc_max_attempts c \<le> n then Inr (denied MAX_ATTEMPTS_REACHED)
       else
       (let errorCode = normalizedErrorCode i;
            operation = operation_of i;
            status = status_of_input i;
            classifiedRetryable = (ri_retryable i = Some True \<or>
              (ri_retryable i = None \<and>
               isRetryableError (empty_error\<lparr>em_code := Some errorCode,
                 em_provider_http_status := map_option num_of_int status,
                 em_name := ri_error_name i\<rparr>)));
            idempotentRead = idempotent_read i;
            runtimeInvocation = (operation = ''runtime_invocation'');
            sideEffects = (case ri_may_create_external_side_effects i of
                Some b \<Rightarrow> b | None \<Rightarrow> runtimeInvocation \<or> \<not> idempotentRead)
        in if errorCode \<in> set AUTHENTICATION_CODES then Inr (denied AUTHENTICATION_FAILURE)
        else if errorCode \<in> set POLICY_CODES then Inr (denied POLICY_DENIAL)
        else if errorCode \<in> set SCHEMA_CODES then Inr (denied SCHEMA_VALIDATION_FAILURE)
        else if errorCode \<in> set MALFORMED_RESPONSE_CODES then Inr (denied MALFORMED_PROVIDER_RESPONSE)
        else if errorCode \<in> set CREDENTIAL_CODES then Inr (denied CREDENTIAL_FAILURE)
        else if errorCode \<in> set SOURCE_EXTRACTION_CODES then Inr (denied SOURCE_EXTRACTION_FAILURE)
        else if errorCode = ''UNSAFE_URL'' then Inr (denied UNSAFE_URL)
        else if starts_with errorCode ''INSTALL_KEY_'' \<or> js_includes operation ''install_key''
        then Inr (denied INSTALL_KEY_OPERATION_NOT_RETRYABLE)
        else if operation = ''connection_creation'' then Inr (denied CONNECTION_CREATION_NOT_RETRYABLE)
        else if operation = ''grounded_research''
        then Inr (denied GROUNDED_RESEARCH_NOT_AUTOMATICALLY_RETRIED)
        else if \<not> classifiedRetryable then Inr (denied NON_RETRYABLE_ERROR)
        else if \<not> transientFailureConfirmed i errorCode status
        then Inr (denied TRANSIENT_FAILURE_NOT_CONFIRMED)
        else if runtimeInvocation \<and> \<not> explicitCapabilityRetryAllowed (ri_capability_retry_policy i)
        then Inr (denied CAPABILITY_RETRY_NOT_ENABLED)
        else if sideEffects \<and> ri_client_idempotency_provided i \<noteq> Some True
        then Inr (denied CLIENT_IDEMPOTENCY_NOT_PROVIDED)
        else if sideEffects \<and> (ri_idempotency_supported i \<noteq> Some True \<or>
          ri_remote_idempotency_acknowledged i \<noteq> Some True)
        then Inr (denied REMOTE_IDEMPOTENCY_NOT_CONFIRMED)
        else if \<not> idempotentRead \<and> \<not> sideEffects then Inr (denied RETRY_SAFETY_NOT_PROVEN)
        else bindE (boundedBackoffDelay envc (num_of_int n)
            \<lparr>ro_max_attempts = Some (num_of_int (rc_max_attempts c)),
             ro_base_delay_ms = Some (num_of_int (rc_base_delay_ms c)),
             ro_max_delay_ms = Some (num_of_int (rc_max_delay_ms c)),
             ro_jitter_percent = Some (num_of_int (rc_jitter_percent c))\<rparr> random) (\<lambda>delay.
          Inr \<lparr>rd_allowed = True, rd_reason = TRANSIENT_IDEMPOTENT_FAILURE,
            rd_delay_ms = Some delay, rd_next_attempt_number = Some (n + 1)\<rparr>)))"

lemma denied_not_allowed [simp]: "\<not> rd_allowed (denied r)"
  by (simp add: denied_def)

lemma config_integer_Inr: "config_integer v d ok name = Inr i \<Longrightarrow> ok i"
  by (auto simp: config_integer_def split: option.splits if_splits)

lemma config_integer_of_int [simp]:
  "config_integer (Some (num_of_int i)) d ok name = (if ok i then Inr i else Inl (Type_Error name))"
  by (simp add: config_integer_def)

lemma retryConfiguration_Inr [guard_dests]:
  assumes "retryConfiguration envc ov = Inr c"
  shows "1 \<le> rc_max_attempts c \<and> 1 \<le> rc_base_delay_ms c \<and> rc_base_delay_ms c \<le> rc_max_delay_ms c \<and>
         0 \<le> rc_jitter_percent c \<and> rc_jitter_percent c \<le> 100"
  using assms by (auto simp: retryConfiguration_def bindE_Inr_iff dest!: config_integer_Inr)

lemma retryConfiguration_again:
  assumes "retryConfiguration envc ov = Inr c"
  shows "retryConfiguration envc'
     \<lparr>ro_max_attempts = Some (num_of_int (rc_max_attempts c)),
      ro_base_delay_ms = Some (num_of_int (rc_base_delay_ms c)),
      ro_max_delay_ms = Some (num_of_int (rc_max_delay_ms c)),
      ro_jitter_percent = Some (num_of_int (rc_jitter_percent c))\<rparr> = Inr c"
  using retryConfiguration_Inr [OF assms] by (simp add: retryConfiguration_def)

lemma exponential_delay_bounds:
  assumes "1 \<le> rc_base_delay_ms c" "rc_base_delay_ms c \<le> rc_max_delay_ms c"
  shows "rc_base_delay_ms c \<le> exponential_delay c n \<and> exponential_delay c n \<le> rc_max_delay_ms c"
proof -
  have "rc_base_delay_ms c * 1 \<le> rc_base_delay_ms c * 2 ^ nat (max 0 (n - 1))"
    using assms(1) by (intro mult_left_mono) simp_all
  with assms show ?thesis by (simp add: exponential_delay_def)
qed

lemma exponential_delay_mono:
  assumes "1 \<le> rc_base_delay_ms c" "m \<le> n"
  shows "exponential_delay c m \<le> exponential_delay c n"
proof -
  have "rc_base_delay_ms c * 2 ^ nat (max 0 (m - 1)) \<le> rc_base_delay_ms c * 2 ^ nat (max 0 (n - 1))"
    using assms by (intro mult_left_mono power_increasing) (simp_all add: nat_mono)
  then show ?thesis by (simp add: exponential_delay_def)
qed

text \<open>The jittered delay, before rounding, lies within the jitter range of the exponential delay.\<close>

lemma jitter_range:
  fixes d j r :: rat
  assumes "0 \<le> d" "0 \<le> j" "j \<le> 1" "0 \<le> r" "r \<le> 1"
  shows "d - d * j \<le> d - d * j + r * (d * j) * 2 \<and> d - d * j + r * (d * j) * 2 \<le> d + d * j"
proof -
  have p: "0 \<le> d * j" using assms by simp
  then have "0 \<le> r * (d * j)" using assms by simp
  moreover have "r * (d * j) \<le> 1 * (d * j)" using assms(5) p by (rule mult_right_mono)
  ultimately show ?thesis by linarith
qed

text \<open>The delay of an attempt under a configuration, as a function of the clamped random value.\<close>

definition jittered_delay :: "retry_config \<Rightarrow> int \<Rightarrow> rat \<Rightarrow> rat" where
  "jittered_delay c n r =
     of_int (exponential_delay c n) * (1 - of_int (rc_jitter_percent c) / 100 + r * (of_int (rc_jitter_percent c) / 100) * 2)"

lemma js_round_bounds: "x - 1 / 2 \<le> of_int (js_round x) \<and> of_int (js_round x) \<le> x + 1 / 2"
  unfolding js_round_def by linarith

lemma boundedBackoffDelay_Inr:
  assumes "retryConfiguration envc ov = Inr c" "1 \<le> n"
  shows "boundedBackoffDelay envc (num_of_int n) ov r =
    Inr (max 0 (min (rc_max_delay_ms c) (js_round (jittered_delay c n (min 1 (max 0 r))))))"
  using assms by (simp add: boundedBackoffDelay_def jittered_delay_def Let_def algebra_simps)

lemma boundedBackoffDelay_attempt:
  assumes "boundedBackoffDelay envc a ov r = Inr d"
  obtains n c where "a = num_of_int n" "1 \<le> n" "retryConfiguration envc ov = Inr c"
    "d = max 0 (min (rc_max_delay_ms c) (js_round (jittered_delay c n (min 1 (max 0 r)))))"
proof -
  from assms obtain n where n: "js_integer a = Some n" "1 \<le> n"
    by (auto simp: boundedBackoffDelay_def split: option.splits if_splits)
  have a: "a = num_of_int n" using n(1) by (rule js_integer_Some)
  from assms n obtain c where c: "retryConfiguration envc ov = Inr c"
    by (auto simp: boundedBackoffDelay_def bindE_Inr_iff split: if_splits)
  have "boundedBackoffDelay envc (num_of_int n) ov r =
     Inr (max 0 (min (rc_max_delay_ms c) (js_round (jittered_delay c n (min 1 (max 0 r))))))"
    using c n(2) by (rule boundedBackoffDelay_Inr)
  with assms a have "d = max 0 (min (rc_max_delay_ms c) (js_round (jittered_delay c n (min 1 (max 0 r)))))"
    by simp
  with a n(2) c show thesis by (rule that)
qed

lemma jittered_delay_range:
  fixes n :: int
  assumes "1 \<le> rc_base_delay_ms c" "rc_base_delay_ms c \<le> rc_max_delay_ms c"
    "0 \<le> rc_jitter_percent c" "rc_jitter_percent c \<le> 100" "0 \<le> r" "r \<le> 1"
  defines "e \<equiv> of_int (exponential_delay c n) :: rat"
  shows "e - e * (of_int (rc_jitter_percent c) / 100) \<le> jittered_delay c n r \<and>
         jittered_delay c n r \<le> e + e * (of_int (rc_jitter_percent c) / 100)"
proof -
  have "0 \<le> exponential_delay c n" using exponential_delay_bounds [OF assms(1,2), of n] assms(1) by linarith
  then have e: "0 \<le> e" by (simp add: e_def)
  have j: "0 \<le> (of_int (rc_jitter_percent c) / 100 :: rat)" "(of_int (rc_jitter_percent c) / 100 :: rat) \<le> 1"
    using assms(3,4) by simp_all
  have "jittered_delay c n r =
      e - e * (of_int (rc_jitter_percent c) / 100) + r * (e * (of_int (rc_jitter_percent c) / 100)) * 2"
    by (simp add: jittered_delay_def e_def algebra_simps)
  with jitter_range [OF e j assms(5,6)] show ?thesis by (simp only:)
qed

lemma jittered_delay_mono:
  assumes "1 \<le> rc_base_delay_ms c" "0 \<le> rc_jitter_percent c" "rc_jitter_percent c \<le> 100" "0 \<le> r" "m \<le> n"
  shows "jittered_delay c m r \<le> jittered_delay c n r"
proof -
  have "(of_int (exponential_delay c m) :: rat) \<le> of_int (exponential_delay c n)"
    using exponential_delay_mono [OF assms(1,5)] by simp
  moreover have "0 \<le> 1 - of_int (rc_jitter_percent c) / 100 + r * (of_int (rc_jitter_percent c) / 100) * 2"
    using assms(2,3,4) by (intro add_nonneg_nonneg) simp_all
  ultimately show ?thesis unfolding jittered_delay_def by (rule mult_right_mono)
qed

lemma clamp_unit [simp]: "0 \<le> min 1 (max 0 r)" "min 1 (max 0 r) \<le> 1" for r :: rat
  by simp_all

subsection \<open>The contract of the backoff\<close>

definition sample_config :: retry_config where
  "sample_config = \<lparr>rc_max_attempts = 4, rc_base_delay_ms = 200, rc_max_delay_ms = 1000, rc_jitter_percent = 20\<rparr>"

definition no_overrides :: retry_overrides where
  "no_overrides = \<lparr>ro_max_attempts = None, ro_base_delay_ms = None, ro_max_delay_ms = None, ro_jitter_percent = None\<rparr>"

lemma sample_config_valid: "retryConfiguration sample_config no_overrides = Inr sample_config"
  by (simp add: retryConfiguration_def sample_config_def no_overrides_def config_integer_def)

text \<open>
  a backoff delay is computed only for a positive integral attempt number and a valid configuration;
  it is never negative, never above the configured maximum, never more than the jitter range (and half a
  millisecond of rounding) away from the exponential delay on either side, which itself lies between
  the base delay and the maximum, and without jitter it is exactly the exponential delay.
\<close>

theorem backoff_delay_bounds:
  assumes "boundedBackoffDelay envc a ov r = Inr d"
  shows "\<exists>n c. a = num_of_int n \<and> 1 \<le> n \<and> retryConfiguration envc ov = Inr c \<and>
    0 \<le> d \<and> d \<le> rc_max_delay_ms c \<and>
    rc_base_delay_ms c \<le> exponential_delay c n \<and> exponential_delay c n \<le> rc_max_delay_ms c \<and>
    (of_int (exponential_delay c n) :: rat) * (1 - of_int (rc_jitter_percent c) / 100) - 1 / 2 \<le> of_int d \<and>
    of_int d \<le> (of_int (exponential_delay c n) :: rat) * (1 + of_int (rc_jitter_percent c) / 100) + 1 / 2 \<and>
    (rc_jitter_percent c = 0 \<longrightarrow> d = exponential_delay c n)"
proof -
  let ?r = "min 1 (max 0 r)"
  from assms obtain n c where a: "a = num_of_int n" "1 \<le> n" and c: "retryConfiguration envc ov = Inr c"
    and d: "d = max 0 (min (rc_max_delay_ms c) (js_round (jittered_delay c n ?r)))"
    by (rule boundedBackoffDelay_attempt)
  note v = retryConfiguration_Inr [OF c]
  have e: "rc_base_delay_ms c \<le> exponential_delay c n \<and> exponential_delay c n \<le> rc_max_delay_ms c"
    using v by (intro exponential_delay_bounds) simp_all
  define j where "j = (of_int (rc_jitter_percent c) / 100 :: rat)"
  define x where "x = (of_int (exponential_delay c n) :: rat)"
  have x: "0 \<le> x" "x \<le> of_int (rc_max_delay_ms c)" using e v by (simp_all add: x_def)
  have j: "0 \<le> j" "j \<le> 1" using v by (simp_all add: j_def)
  have jx: "x - x * j \<le> jittered_delay c n ?r \<and> jittered_delay c n ?r \<le> x + x * j"
    unfolding x_def j_def using v by (intro jittered_delay_range) simp_all
  have xj: "0 \<le> x * j" "x * j \<le> x" using x j by (auto simp: mult_left_le)
  note rb = js_round_bounds [of "jittered_delay c n ?r"]
  have lo: "x * (1 - j) - 1 / 2 \<le> of_int d"
  proof -
    have "x - x * j - 1 / 2 \<le> of_int (js_round (jittered_delay c n ?r))" using jx rb by linarith
    moreover have "x - x * j - 1 / 2 \<le> of_int (rc_max_delay_ms c)" using x xj by linarith
    ultimately show ?thesis unfolding d by (simp add: algebra_simps of_int_max of_int_min le_max_iff_disj)
  qed
  have hi: "of_int d \<le> x * (1 + j) + 1 / 2"
  proof -
    have "of_int (js_round (jittered_delay c n ?r)) \<le> x + x * j + 1 / 2" using jx rb by linarith
    then show ?thesis unfolding d using x xj
      by (simp add: algebra_simps of_int_max of_int_min min_le_iff_disj)
  qed
  have z: "d = exponential_delay c n" if "rc_jitter_percent c = 0"
    using that e v unfolding d by (simp add: jittered_delay_def)
  have d0: "0 \<le> d" "d \<le> rc_max_delay_ms c" using v by (simp_all add: d)
  show ?thesis
    using a c d0 conjunct1 [OF e] conjunct2 [OF e] lo [unfolded x_def j_def] hi [unfolded x_def j_def] z
    by (intro exI conjI impI)
qed

theorem backoff_delay_bounds_witness:
  "boundedBackoffDelay sample_config (num_of_int 3) no_overrides (1 / 4) = Inr 720 \<and>
   (\<exists>n c. num_of_int 3 = num_of_int n \<and> 1 \<le> n \<and> retryConfiguration sample_config no_overrides = Inr c \<and>
     (720::int) \<le> rc_max_delay_ms c)"
proof -
  have e: "boundedBackoffDelay sample_config (num_of_int 3) no_overrides (1 / 4) = Inr 720"
    by code_simp
  show ?thesis using e backoff_delay_bounds [OF e] by blast
qed

text \<open>
  For one configuration and one random value, a later attempt never waits less than an earlier one.
\<close>

theorem backoff_delay_monotone:
  assumes "boundedBackoffDelay envc (num_of_int m) ov r = Inr d"
    and "boundedBackoffDelay envc (num_of_int n) ov r = Inr d'" and "m \<le> n"
  shows "d \<le> d'"
proof -
  let ?r = "min 1 (max 0 r)"
  from assms(1) obtain m' c where m: "num_of_int m = num_of_int m'"
    and c: "retryConfiguration envc ov = Inr c"
    and d: "d = max 0 (min (rc_max_delay_ms c) (js_round (jittered_delay c m' ?r)))"
    by (rule boundedBackoffDelay_attempt)
  from assms(2) obtain n' c' where n: "num_of_int n = num_of_int n'"
    and c': "retryConfiguration envc ov = Inr c'"
    and d': "d' = max 0 (min (rc_max_delay_ms c') (js_round (jittered_delay c' n' ?r)))"
    by (rule boundedBackoffDelay_attempt)
  have same: "m' = m" "n' = n" "c' = c" using m n c c' by (simp_all add: num_of_int_def)
  have "jittered_delay c m ?r \<le> jittered_delay c n ?r"
    using retryConfiguration_Inr [OF c] assms(3) by (intro jittered_delay_mono) simp_all
  then have "js_round (jittered_delay c m ?r) \<le> js_round (jittered_delay c n ?r)" by (rule js_round_mono)
  then show ?thesis unfolding d d' same by linarith
qed

theorem backoff_delay_monotone_witness:
  "boundedBackoffDelay sample_config (num_of_int 1) no_overrides (1 / 2) = Inr 200 \<and>
   boundedBackoffDelay sample_config (num_of_int 3) no_overrides (1 / 2) = Inr 800 \<and> (200::int) \<le> 800"
proof -
  have e: "boundedBackoffDelay sample_config (num_of_int 1) no_overrides (1 / 2) = Inr 200" by code_simp
  have f: "boundedBackoffDelay sample_config (num_of_int 3) no_overrides (1 / 2) = Inr 800" by code_simp
  show ?thesis using e f backoff_delay_monotone [OF e f] by simp
qed

subsection \<open>The contract of the decision\<close>

text \<open>The remote side deduplicates the request: the client sent an idempotency key, the runtime supports it
  and acknowledged it.\<close>

definition idempotency_confirmed :: "retry_input \<Rightarrow> bool" where
  "idempotency_confirmed i \<longleftrightarrow>
     ri_client_idempotency_provided i = Some True \<and> ri_idempotency_supported i = Some True \<and>
     ri_remote_idempotency_acknowledged i = Some True"

definition never_retried_codes :: "string list" where
  "never_retried_codes =
     AUTHENTICATION_CODES @ POLICY_CODES @ SCHEMA_CODES @ MALFORMED_RESPONSE_CODES @ CREDENTIAL_CODES @
     SOURCE_EXTRACTION_CODES @ [''UNSAFE_URL'']"

lemma if_denied_allowed:
  assumes "rd_allowed d"
  shows "(if b then Inr (denied rs) else t) = Inr d \<longleftrightarrow> \<not> b \<and> t = Inr d"
  using assms by auto

text \<open>
  C27: a retry is allowed only when the failure is confirmed transient, the attempt number is below the
  maximum, the operation is an idempotent read without side effects or the remote side is known to
  deduplicate the request, a runtime invocation's capability has opted in, and the error is not one of the
  authentication, policy, schema, credential, malformed-response, extraction or unsafe-URL failures, an install-key
  operation, a connection creation or grounded research; the decision then carries a delay within the
  configured maximum and the next attempt number, so the attempts of a chain are bounded by the maximum.
\<close>

theorem retry_allowed_is_safe:
  assumes "retryPolicyDecision envc i ov r = Inr d" and "rd_allowed d"
  shows "\<exists>c n delay. retryConfiguration envc ov = Inr c \<and> js_integer (attempt_of i) = Some n \<and>
    1 \<le> n \<and> rd_next_attempt_number d = Some (n + 1) \<and> n + 1 \<le> rc_max_attempts c \<and>
    rd_delay_ms d = Some delay \<and> 0 \<le> delay \<and> delay \<le> rc_max_delay_ms c \<and>
    transientFailureConfirmed i (normalizedErrorCode i) (status_of_input i) \<and>
    ri_retryable i \<noteq> Some False \<and>
    (idempotent_read i \<and> ri_may_create_external_side_effects i \<noteq> Some True \<or> idempotency_confirmed i) \<and>
    (operation_of i = ''runtime_invocation'' \<longrightarrow> explicitCapabilityRetryAllowed (ri_capability_retry_policy i)) \<and>
    normalizedErrorCode i \<notin> set never_retried_codes \<and>
    \<not> starts_with (normalizedErrorCode i) ''INSTALL_KEY_'' \<and> \<not> js_includes (operation_of i) ''install_key'' \<and>
    operation_of i \<noteq> ''connection_creation'' \<and> operation_of i \<noteq> ''grounded_research''"
proof -
  from assms(1) obtain c where c: "retryConfiguration envc ov = Inr c"
    by (auto simp: retryPolicyDecision_def bindE_Inr_iff)
  from assms(1) c obtain n where n: "js_integer (attempt_of i) = Some n" "1 \<le> n"
    by (auto simp: retryPolicyDecision_def split: option.splits if_splits)
  have nn: "\<not> n < 1" using n(2) by simp
  let ?ov = "\<lparr>ro_max_attempts = Some (num_of_int (rc_max_attempts c)),
      ro_base_delay_ms = Some (num_of_int (rc_base_delay_ms c)),
      ro_max_delay_ms = Some (num_of_int (rc_max_delay_ms c)),
      ro_jitter_percent = Some (num_of_int (rc_jitter_percent c))\<rparr>"
  have c2: "retryConfiguration envc ?ov = Inr c" using c by (rule retryConfiguration_again)
  note v = retryConfiguration_Inr [OF c]
  note d = assms(1) [unfolded retryPolicyDecision_def c bindE_simps n(1) option.simps if_not_P [OF nn] Let_def
      boundedBackoffDelay_Inr [OF c2 n(2)]]
  note passed = d [unfolded if_denied_allowed [OF assms(2)] bindE_simps sum.inject(2)]
  let ?delay = "max 0 (min (rc_max_delay_ms c) (js_round (jittered_delay c n (min 1 (max 0 r)))))"
  have delay: "0 \<le> ?delay" "?delay \<le> rc_max_delay_ms c" using v by simp_all
  have lim: "n + 1 \<le> rc_max_attempts c" using conjunct1 [OF passed] by linarith
  have codes: "normalizedErrorCode i \<notin> set never_retried_codes"
    using passed unfolding never_retried_codes_def set_append by (simp only: Un_iff list.set insert_iff empty_iff) blast
  have safe: "idempotent_read i \<and> ri_may_create_external_side_effects i \<noteq> Some True \<or> idempotency_confirmed i"
    using passed unfolding idempotency_confirmed_def
    by (cases "ri_may_create_external_side_effects i"; (simp only: option.simps simp_thms)?) sat+
  have "\<lparr>rd_allowed = True, rd_reason = TRANSIENT_IDEMPOTENT_FAILURE, rd_delay_ms = Some ?delay,
     rd_next_attempt_number = Some (n + 1)\<rparr> = d"
    using passed by sat
  then have d_eq: "rd_next_attempt_number d = Some (n + 1)" "rd_delay_ms d = Some ?delay" by auto
  have "ri_retryable i = Some True \<or> ri_retryable i = None" using passed by sat
  then have "ri_retryable i \<noteq> Some False" by auto
  moreover have "transientFailureConfirmed i (normalizedErrorCode i) (status_of_input i)" using passed by sat
  ultimately have transient: "transientFailureConfirmed i (normalizedErrorCode i) (status_of_input i)"
    "ri_retryable i \<noteq> Some False" by blast+
  have opt_in: "operation_of i = ''runtime_invocation'' \<longrightarrow> explicitCapabilityRetryAllowed (ri_capability_retry_policy i)"
    and op: "\<not> starts_with (normalizedErrorCode i) ''INSTALL_KEY_''" "\<not> js_includes (operation_of i) ''install_key''"
      "operation_of i \<noteq> ''connection_creation''" "operation_of i \<noteq> ''grounded_research''"
    using passed by sat+
  show ?thesis
    using c n d_eq(1) lim d_eq(2) delay transient safe opt_in codes op by (intro exI conjI)
qed

definition sample_retry :: retry_input where
  "sample_retry =
     \<lparr>ri_attempt_number = Some (num_of_int 2), ri_error_code = Some ''econnreset'', ri_code = None,
      ri_operation = Some ''runtime_invocation'', ri_http_method = Some ''post'', ri_method = None,
      ri_provider_http_status = None, ri_status_code = None, ri_error_name = None, ri_retryable = None,
      ri_may_create_external_side_effects = None, ri_capability_retry_policy = Policy_Text ''idempotent'',
      ri_client_idempotency_provided = Some True, ri_idempotency_supported = Some True,
      ri_remote_idempotency_acknowledged = Some True\<rparr>"

theorem retry_allowed_is_safe_witness:
  "\<exists>d. retryPolicyDecision sample_config sample_retry no_overrides (1 / 2) = Inr d \<and> rd_allowed d \<and>
     rd_delay_ms d = Some 400 \<and> idempotency_confirmed sample_retry \<and>
     explicitCapabilityRetryAllowed (ri_capability_retry_policy sample_retry)"
proof -
  let ?d = "\<lparr>rd_allowed = True, rd_reason = TRANSIENT_IDEMPOTENT_FAILURE, rd_delay_ms = Some 400,
     rd_next_attempt_number = Some 3\<rparr>"
  have e: "retryPolicyDecision sample_config sample_retry no_overrides (1 / 2) = Inr ?d" by code_simp
  have "\<not> idempotent_read sample_retry" "operation_of sample_retry = ''runtime_invocation''" by code_simp+
  with retry_allowed_is_safe [OF e] e show ?thesis by (intro exI [of _ ?d]) auto
qed

text \<open>
  A failure counts against a runtime's circuit exactly when it is no rate limit, its code is not one of
  the caller's or local failures, and it is a 502, 503 or 504, a network code or a malformed runtime
  response; counted failures weigh one, all others nothing, and a rate limit is exactly a 429 or the
  provider's rate-limit code.
\<close>

theorem circuit_failures_counted:
  "let c = classifyCircuitFailure e;
       code = safeCode (if present (em_error_code e) then em_error_code e else em_code e);
       limited = (statusOf e = Some 429 \<or> code = ''GEMINI_RATE_LIMITED'')
   in (cc_rate_limited c = limited) \<and>
      (cc_counts_toward_circuit c =
        (\<not> limited \<and> code \<notin> set EXCLUDED_CODES \<and> \<not> starts_with code ''INSTALL_KEY_'' \<and>
         (statusOf e \<in> {Some 502, Some 503, Some 504} \<or> code \<in> set NETWORK_CODES \<or>
          code \<in> set MALFORMED_RUNTIME_CODES))) \<and>
      (cc_weight c = (if cc_counts_toward_circuit c then 1 else 0))"
proof -
  let ?code = "safeCode (if present (em_error_code e) then em_error_code e else em_code e)"
  consider (limited) "statusOf e = Some 429 \<or> ?code = ''GEMINI_RATE_LIMITED''"
    | (excluded) "\<not> (statusOf e = Some 429 \<or> ?code = ''GEMINI_RATE_LIMITED'')"
        "?code \<in> set EXCLUDED_CODES \<or> starts_with ?code ''INSTALL_KEY_''"
    | (other) "\<not> (statusOf e = Some 429 \<or> ?code = ''GEMINI_RATE_LIMITED'')"
        "\<not> (?code \<in> set EXCLUDED_CODES \<or> starts_with ?code ''INSTALL_KEY_'')"
    by sat
  then show ?thesis
  proof cases
    case limited
    then show ?thesis unfolding classifyCircuitFailure_def Let_def
      by (simp only: if_True circuit_classification.select_convs simp_thms if_False)
  next
    case excluded
    then show ?thesis unfolding classifyCircuitFailure_def Let_def
      by (simp only: if_True if_False circuit_classification.select_convs simp_thms de_Morgan_disj) sat
  next
    case other
    then show ?thesis unfolding classifyCircuitFailure_def Let_def
      by (cases "statusOf e \<in> {Some 502, Some 503, Some 504}"; cases "?code \<in> set NETWORK_CODES";
          cases "?code \<in> set MALFORMED_RUNTIME_CODES")
        (simp_all only: if_True if_False circuit_classification.select_convs simp_thms de_Morgan_disj)
  qed
qed

end
