(* ===== verification/Circuit_Breaker.thy ===== *)
theory Circuit_Breaker
  imports Retry_Policy Document_Store
begin

text \<open>
  backend/src/services/circuitBreaker.service.js with the document of
  backend/src/models/CircuitBreaker.js: one breaker per runtime scope, guarded by a version counter. Each
  operation is modelled with every database call it makes; \<open>env\<close> is the interference of other
  requests before each call. The hash of the runtime's identity is a parameter.
\<close>

subsection \<open>Breakers\<close>

datatype circuit_state = Circuit_Closed | Circuit_Open | Circuit_Half_Open

record breaker =
  br_connection :: string
  br_state :: circuit_state
  br_consecutive_failures :: nat
  br_success_since_close :: nat
  br_failures_in_window :: nat
  br_window_started_at :: "int option"
  br_opened_at :: "int option"
  br_open_until :: "int option"
  br_probe_in_flight :: bool
  br_probes_in_flight :: "nat option"
  br_probe_count :: nat
  br_rate_limited_until :: "int option"
  br_last_failure_at :: "int option"
  br_last_success_at :: "int option"
  br_last_error_code :: "string option"
  br_last_failure_stage :: "string option"
  br_last_status :: "int option"
  br_version :: nat

record circuit_config =
  cb_enabled :: bool
  cb_failure_threshold :: nat
  cb_failure_window_ms :: int
  cb_open_duration_ms :: int
  cb_half_open_max_probes :: nat
  cb_success_threshold :: nat

record runtime_connection =
  cn_id :: string
  cn_receiving_workspace :: string
  cn_runtime_type :: string
  cn_runtime_endpoint :: "string option"

record circuit_scope =
  sc_workspace :: string
  sc_connection :: string
  sc_runtime_type :: string
  sc_runtime_identity_hash :: string
  sc_capability :: string

definition runtimeIdentityHash :: "(string \<Rightarrow> string) \<Rightarrow> runtime_connection \<Rightarrow> string" where
  "runtimeIdentityHash sha256 c =
     ''sha256:'' @ sha256 (cn_runtime_type c @ '':'' @ or_empty (cn_runtime_endpoint c))"

definition breakerScope :: "(string \<Rightarrow> string) \<Rightarrow> runtime_connection \<Rightarrow> string option \<Rightarrow> circuit_scope" where
  "breakerScope sha256 c capability =
     \<lparr>sc_workspace = cn_receiving_workspace c, sc_connection = cn_id c,
      sc_runtime_type = cn_runtime_type c, sc_runtime_identity_hash = runtimeIdentityHash sha256 c,
      sc_capability = js_trim (or_default capability ''runtime'')\<rparr>"

definition fresh_breaker :: "circuit_scope \<Rightarrow> breaker" where
  "fresh_breaker sc =
     \<lparr>br_connection = sc_connection sc, br_state = Circuit_Closed, br_consecutive_failures = 0,
      br_success_since_close = 0, br_failures_in_window = 0, br_window_started_at = None,
      br_opened_at = None, br_open_until = None, br_probe_in_flight = False,
      br_probes_in_flight = Some 0, br_probe_count = 0, br_rate_limited_until = None,
      br_last_failure_at = None, br_last_success_at = None, br_last_error_code = None,
      br_last_failure_stage = None, br_last_status = None, br_version = 0\<rparr>"

type_synonym 'db circuit_store = "(circuit_scope, breaker, 'db) store_ops"

definition ensureBreaker :: "'db circuit_store \<Rightarrow> circuit_scope \<Rightarrow> 'db \<Rightarrow> breaker \<times> 'db" where
  "ensureBreaker S sc db = st_find_or_insert S sc (fresh_breaker sc) db"

definition retryAfterMs :: "int option \<Rightarrow> int \<Rightarrow> int" where
  "retryAfterMs until now = (case until of None \<Rightarrow> 0 | Some t \<Rightarrow> max 0 (t - now))"

record protection_error =
  pe_status :: nat
  pe_code :: string
  pe_retry_after_ms :: int
  pe_circuit_state :: circuit_state
  pe_connection :: string

datatype circuit_error =
    Protected protection_error
  | Service_Unavailable
  | Missing_Breaker

definition protectionError :: "nat \<Rightarrow> string \<Rightarrow> breaker \<Rightarrow> int \<Rightarrow> circuit_error" where
  "protectionError status code b now =
     Protected
       \<lparr>pe_status = status, pe_code = code,
        pe_retry_after_ms =
          retryAfterMs (if code = ''RATE_LIMIT_PROTECTED'' then br_rate_limited_until b else br_open_until b) now,
        pe_circuit_state = br_state b, pe_connection = br_connection b\<rparr>"

definition probes_in_flight :: "breaker \<Rightarrow> nat" where
  "probes_in_flight b =
     (case br_probes_in_flight b of
        Some (Suc n) \<Rightarrow> Suc n
      | _ \<Rightarrow> if br_probe_in_flight b then 1 else 0)"

definition after :: "int option \<Rightarrow> int \<Rightarrow> bool" where
  "after t now = (case t of None \<Rightarrow> False | Some x \<Rightarrow> now < x)"

definition reached :: "int option \<Rightarrow> int \<Rightarrow> bool" where
  "reached t now = (case t of None \<Rightarrow> False | Some x \<Rightarrow> x \<le> now)"

subsection \<open>Updates\<close>

definition half_open_set :: "breaker \<Rightarrow> breaker" where
  "half_open_set d =
     d\<lparr>br_state := Circuit_Half_Open, br_probe_in_flight := True, br_probes_in_flight := Some 1,
       br_probe_count := br_probe_count d + 1, br_version := br_version d + 1\<rparr>"

definition probe_set :: "breaker \<Rightarrow> breaker" where
  "probe_set d =
     d\<lparr>br_probe_in_flight := True, br_probe_count := br_probe_count d + 1,
       br_probes_in_flight := Some (case br_probes_in_flight d of None \<Rightarrow> 1 | Some n \<Rightarrow> n + 1),
       br_version := br_version d + 1\<rparr>"

definition has_probe_room :: "circuit_config \<Rightarrow> breaker \<Rightarrow> bool" where
  "has_probe_room cfg d =
     (case br_probes_in_flight d of None \<Rightarrow> True | Some n \<Rightarrow> n < cb_half_open_max_probes cfg)"

definition remaining_probes :: "breaker \<Rightarrow> nat" where
  "remaining_probes b = (if br_state b = Circuit_Half_Open then probes_in_flight b - 1 else 0)"

definition closes :: "circuit_config \<Rightarrow> breaker \<Rightarrow> bool" where
  "closes cfg b \<longleftrightarrow> br_state b = Circuit_Half_Open
     \<and> cb_success_threshold cfg \<le> br_success_since_close b + 1 \<and> remaining_probes b = 0"

text \<open>The success update, computed from the breaker \<open>b\<close> that was read, applied to the document \<open>d\<close>.\<close>

definition success_set :: "circuit_config \<Rightarrow> int \<Rightarrow> breaker \<Rightarrow> breaker \<Rightarrow> breaker" where
  "success_set cfg now b d =
     d\<lparr>br_state := (if closes cfg b then Circuit_Closed else br_state b),
       br_consecutive_failures := 0,
       br_success_since_close := br_success_since_close b + 1,
       br_failures_in_window := 0,
       br_window_started_at := Some now,
       br_last_success_at := Some now,
       br_probe_in_flight := (br_state b = Circuit_Half_Open \<and> 0 < remaining_probes b),
       br_probes_in_flight := Some (remaining_probes b),
       br_open_until := (if closes cfg b \<or> br_state b = Circuit_Closed then None else br_open_until d),
       br_rate_limited_until :=
         (if br_rate_limited_until b \<noteq> None then None else br_rate_limited_until d),
       br_version := br_version d + 1\<rparr>"

definition release_set :: "breaker \<Rightarrow> breaker \<Rightarrow> breaker" where
  "release_set b d =
     (let remaining = probes_in_flight b - 1
      in d\<lparr>br_probe_in_flight := (0 < remaining), br_probes_in_flight := Some remaining,
           br_version := br_version d + 1\<rparr>)"

record failure_metadata =
  fm_error :: error_meta
  fm_retry_after_ms :: "jsnum option"
  fm_stage :: "string option"

definition rate_limit_until :: "circuit_config \<Rightarrow> failure_metadata \<Rightarrow> int \<Rightarrow> int" where
  "rate_limit_until cfg m now =
     (let duration = (case fm_retry_after_ms m of
            None \<Rightarrow> cb_open_duration_ms cfg
          | Some v \<Rightarrow> (case js_integer v of
                Some i \<Rightarrow> if 0 < i then i else cb_open_duration_ms cfg
              | None \<Rightarrow> cb_open_duration_ms cfg))
      in now + min 3600000 (max 1000 duration))"

definition rate_limit_set :: "int \<Rightarrow> string option \<Rightarrow> int \<Rightarrow> breaker \<Rightarrow> breaker" where
  "rate_limit_set until code now d =
     d\<lparr>br_rate_limited_until :=
         Some (case br_rate_limited_until d of None \<Rightarrow> until | Some t \<Rightarrow> max t until),
       br_last_failure_at := Some now,
       br_last_error_code := Some (js_upper (or_default code ''RATE_LIMITED'')),
       br_last_status := Some 429,
       br_version := br_version d + 1\<rparr>"

definition window_active :: "circuit_config \<Rightarrow> int \<Rightarrow> breaker \<Rightarrow> bool" where
  "window_active cfg now b =
     (case br_window_started_at b of None \<Rightarrow> False | Some t \<Rightarrow> now - t \<le> cb_failure_window_ms cfg)"

definition failures_after :: "circuit_config \<Rightarrow> int \<Rightarrow> nat \<Rightarrow> breaker \<Rightarrow> nat" where
  "failures_after cfg now weight b =
     (if window_active cfg now b then br_failures_in_window b else 0) + weight"

definition should_open :: "circuit_config \<Rightarrow> int \<Rightarrow> nat \<Rightarrow> breaker \<Rightarrow> bool" where
  "should_open cfg now weight b \<longleftrightarrow> br_state b = Circuit_Half_Open
     \<or> cb_failure_threshold cfg \<le> failures_after cfg now weight b"

definition failure_set ::
  "circuit_config \<Rightarrow> int \<Rightarrow> failure_metadata \<Rightarrow> breaker \<Rightarrow> breaker \<Rightarrow> breaker" where
  "failure_set cfg now m b d =
     (let c = classifyCircuitFailure (fm_error m);
          opens = should_open cfg now (cc_weight c) b;
          status = Option.bind (em_provider_http_status (fm_error m)) js_integer
      in d\<lparr>br_state := (if opens then Circuit_Open else Circuit_Closed),
           br_consecutive_failures := br_consecutive_failures b + cc_weight c,
           br_failures_in_window := failures_after cfg now (cc_weight c) b,
           br_window_started_at := (if window_active cfg now b then br_window_started_at b else Some now),
           br_last_failure_at := Some now,
           br_last_error_code := Some (js_upper (or_default (em_code (fm_error m)) (cc_reason c))),
           br_last_failure_stage :=
             (if present (fm_stage m) then Some (take 128 (the (fm_stage m))) else br_last_failure_stage d),
           br_last_status := (if status \<noteq> None then status else br_last_status d),
           br_probe_in_flight := False,
           br_probes_in_flight := Some 0,
           br_opened_at := (if opens then Some now else br_opened_at d),
           br_open_until := (if opens then Some (now + cb_open_duration_ms cfg) else br_open_until d),
           br_success_since_close := (if opens then 0 else br_success_since_close d),
           br_version := br_version d + 1\<rparr>)"

subsection \<open>Operations\<close>

record circuit_grant =
  cg_state :: circuit_state
  cg_probe :: bool
  cg_bypassed :: bool
  cg_half_opened :: bool
  cg_breaker :: "breaker option"

definition closed_grant :: "breaker \<Rightarrow> circuit_grant" where
  "closed_grant b =
     \<lparr>cg_state = Circuit_Closed, cg_probe = False, cg_bypassed = False, cg_half_opened = False,
      cg_breaker = Some b\<rparr>"

definition probe_grant :: "bool \<Rightarrow> breaker \<Rightarrow> circuit_grant" where
  "probe_grant half_opened b =
     \<lparr>cg_state = Circuit_Half_Open, cg_probe = True, cg_bypassed = False, cg_half_opened = half_opened,
      cg_breaker = Some b\<rparr>"

text \<open>The part of \<open>evaluateCircuit\<close> after an open breaker has been dealt with.\<close>

definition evaluate_admitted ::
  "'db circuit_store \<Rightarrow> (nat \<Rightarrow> 'db \<Rightarrow> 'db) \<Rightarrow> circuit_config \<Rightarrow> circuit_scope \<Rightarrow> int \<Rightarrow> breaker \<Rightarrow> 'db \<Rightarrow>
   (circuit_error + circuit_grant) \<times> 'db" where
  "evaluate_admitted S env cfg sc now b db =
     (if br_state b = Circuit_Half_Open then
        (if 0 < probes_in_flight b \<and>
            (cb_half_open_max_probes cfg \<le> probes_in_flight b
             \<or> cb_success_threshold cfg \<le> br_success_since_close b)
         then (Inl (protectionError 503 ''CIRCUIT_HALF_OPEN_PROBE_ACTIVE'' b now), db)
         else (case st_find_one_and_update S sc
                (\<lambda>d. br_version d = br_version b \<and> br_state d = Circuit_Half_Open \<and> has_probe_room cfg d)
                probe_set (env 3 db) of
              (None, db') \<Rightarrow> (Inl (protectionError 503 ''CIRCUIT_HALF_OPEN_PROBE_ACTIVE'' b now), db')
            | (Some c, db') \<Rightarrow> (Inr (probe_grant False c), db')))
      else (Inr (closed_grant b), db))"

definition evaluateCircuit ::
  "'db circuit_store \<Rightarrow> (nat \<Rightarrow> 'db \<Rightarrow> 'db) \<Rightarrow> circuit_config \<Rightarrow> bool \<Rightarrow> circuit_scope \<Rightarrow> int \<Rightarrow> 'db \<Rightarrow>
   (circuit_error + circuit_grant) \<times> 'db" where
  "evaluateCircuit S env cfg persistenceAvailable sc now db =
     (if \<not> cb_enabled cfg \<or> \<not> persistenceAvailable
      then (Inr \<lparr>cg_state = Circuit_Closed, cg_probe = False, cg_bypassed = True,
                 cg_half_opened = False, cg_breaker = None\<rparr>, db)
      else (case ensureBreaker S sc (env 0 db) of (b, db1) \<Rightarrow>
        if after (br_rate_limited_until b) now
        then (Inl (protectionError 429 ''RATE_LIMIT_PROTECTED'' b now), db1)
        else if br_state b = Circuit_Open \<and> after (br_open_until b) now
        then (Inl (protectionError 503 ''CIRCUIT_OPEN'' b now), db1)
        else if br_state b = Circuit_Open then
          (case st_find_one_and_update S sc
              (\<lambda>d. br_version d = br_version b \<and> br_state d = Circuit_Open
                 \<and> reached (br_open_until d) now \<and> \<not> br_probe_in_flight d)
              half_open_set (env 1 db1) of
             (Some c, db2) \<Rightarrow> (Inr (probe_grant True c), db2)
           | (None, db2) \<Rightarrow>
               (let db3 = env 2 db2 in
                case st_find_one S sc (\<lambda>_. True) db3 of
                  None \<Rightarrow> (Inl Missing_Breaker, db3)
                | Some b' \<Rightarrow> evaluate_admitted S env cfg sc now b' db3))
        else evaluate_admitted S env cfg sc now b db1))"

record circuit_outcome =
  co_changed :: bool
  co_state :: "circuit_state option"
  co_transitioned :: "circuit_state option"
  co_rate_limit_cleared :: bool
  co_rate_limited_until :: "int option"
  co_reopened :: bool
  co_open_until :: "int option"

definition unchanged_circuit :: "circuit_state option \<Rightarrow> circuit_outcome" where
  "unchanged_circuit s =
     \<lparr>co_changed = False, co_state = s, co_transitioned = None, co_rate_limit_cleared = False,
      co_rate_limited_until = None, co_reopened = False, co_open_until = None\<rparr>"

text \<open>The three update loops try four times; \<open>n\<close> counts the tries left and \<open>k\<close> the calls made.\<close>

fun success_loop ::
  "'db circuit_store \<Rightarrow> (nat \<Rightarrow> 'db \<Rightarrow> 'db) \<Rightarrow> circuit_config \<Rightarrow> circuit_scope \<Rightarrow> int \<Rightarrow> nat \<Rightarrow> nat \<Rightarrow> 'db \<Rightarrow>
   (circuit_error + circuit_outcome) \<times> 'db" where
  "success_loop S env cfg sc now 0 k db = (Inl Service_Unavailable, db)"
| "success_loop S env cfg sc now (Suc n) k db =
     (case ensureBreaker S sc (env k db) of (b, db1) \<Rightarrow>
       if br_state b = Circuit_Open then (Inr (unchanged_circuit (Some Circuit_Open)), db1)
       else (case st_find_one_and_update S sc (\<lambda>d. br_version d = br_version b)
               (success_set cfg now b) (env (k + 1) db1) of
           (Some d, db2) \<Rightarrow>
             (Inr ((unchanged_circuit (Some (br_state d)))
                \<lparr>co_changed := True,
                 co_transitioned := (if closes cfg b then Some Circuit_Closed else None),
                 co_rate_limit_cleared := (br_rate_limited_until b \<noteq> None)\<rparr>), db2)
         | (None, db2) \<Rightarrow> success_loop S env cfg sc now n (k + 2) db2))"

definition recordCircuitSuccess ::
  "'db circuit_store \<Rightarrow> (nat \<Rightarrow> 'db \<Rightarrow> 'db) \<Rightarrow> circuit_config \<Rightarrow> bool \<Rightarrow> circuit_scope \<Rightarrow> int \<Rightarrow> 'db \<Rightarrow>
   (circuit_error + circuit_outcome) \<times> 'db" where
  "recordCircuitSuccess S env cfg persistenceAvailable sc now db =
     (if \<not> cb_enabled cfg \<or> \<not> persistenceAvailable then (Inr (unchanged_circuit None), db)
      else success_loop S env cfg sc now 4 0 db)"

fun release_loop ::
  "'db circuit_store \<Rightarrow> (nat \<Rightarrow> 'db \<Rightarrow> 'db) \<Rightarrow> circuit_scope \<Rightarrow> nat \<Rightarrow> nat \<Rightarrow> 'db \<Rightarrow>
   (circuit_error + circuit_outcome) \<times> 'db" where
  "release_loop S env sc 0 k db = (Inl Service_Unavailable, db)"
| "release_loop S env sc (Suc n) k db =
     (case ensureBreaker S sc (env k db) of (b, db1) \<Rightarrow>
       if br_state b \<noteq> Circuit_Half_Open \<or> probes_in_flight b < 1
       then (Inr (unchanged_circuit (Some (br_state b))), db1)
       else (case st_find_one_and_update S sc
               (\<lambda>d. br_version d = br_version b \<and> br_state d = Circuit_Half_Open)
               (release_set b) (env (k + 1) db1) of
           (Some d, db2) \<Rightarrow> (Inr ((unchanged_circuit (Some (br_state d)))\<lparr>co_changed := True\<rparr>), db2)
         | (None, db2) \<Rightarrow> release_loop S env sc n (k + 2) db2))"

definition releaseCircuitProbe ::
  "'db circuit_store \<Rightarrow> (nat \<Rightarrow> 'db \<Rightarrow> 'db) \<Rightarrow> circuit_config \<Rightarrow> bool \<Rightarrow> circuit_scope \<Rightarrow> 'db \<Rightarrow>
   (circuit_error + circuit_outcome) \<times> 'db" where
  "releaseCircuitProbe S env cfg persistenceAvailable sc db =
     (if \<not> cb_enabled cfg \<or> \<not> persistenceAvailable then (Inr (unchanged_circuit None), db)
      else release_loop S env sc 4 0 db)"

definition recordRateLimit ::
  "'db circuit_store \<Rightarrow> (nat \<Rightarrow> 'db \<Rightarrow> 'db) \<Rightarrow> circuit_config \<Rightarrow> circuit_scope \<Rightarrow> failure_metadata \<Rightarrow> int \<Rightarrow> 'db \<Rightarrow>
   (circuit_error + circuit_outcome) \<times> 'db" where
  "recordRateLimit S env cfg sc m now db =
     (case ensureBreaker S sc (env 0 db) of (b, db1) \<Rightarrow>
       (case st_find_one_and_update S sc (\<lambda>_. True)
          (rate_limit_set (rate_limit_until cfg m now) (em_code (fm_error m)) now) (env 1 db1) of
          (None, db2) \<Rightarrow> (Inl Missing_Breaker, db2)
        | (Some d, db2) \<Rightarrow>
            (Inr ((unchanged_circuit None)
               \<lparr>co_changed := True, co_rate_limited_until := br_rate_limited_until d\<rparr>), db2)))"

fun failure_loop ::
  "'db circuit_store \<Rightarrow> (nat \<Rightarrow> 'db \<Rightarrow> 'db) \<Rightarrow> circuit_config \<Rightarrow> circuit_scope \<Rightarrow> failure_metadata \<Rightarrow> int \<Rightarrow>
   nat \<Rightarrow> nat \<Rightarrow> 'db \<Rightarrow> (circuit_error + circuit_outcome) \<times> 'db" where
  "failure_loop S env cfg sc m now 0 k db = (Inl Service_Unavailable, db)"
| "failure_loop S env cfg sc m now (Suc n) k db =
     (case ensureBreaker S sc (env k db) of (b, db1) \<Rightarrow>
       (case st_find_one_and_update S sc (\<lambda>d. br_version d = br_version b)
          (failure_set cfg now m b) (env (k + 1) db1) of
          (Some d, db2) \<Rightarrow>
            (let opens = should_open cfg now (cc_weight (classifyCircuitFailure (fm_error m))) b
             in (Inr ((unchanged_circuit (Some (br_state d)))
                  \<lparr>co_changed := True,
                   co_transitioned :=
                     (if opens \<and> br_state b \<noteq> Circuit_Open then Some Circuit_Open else None),
                   co_reopened := (opens \<and> br_state b = Circuit_Half_Open),
                   co_open_until := br_open_until d\<rparr>), db2))
        | (None, db2) \<Rightarrow> failure_loop S env cfg sc m now n (k + 2) db2))"

definition recordCircuitFailure ::
  "'db circuit_store \<Rightarrow> (nat \<Rightarrow> 'db \<Rightarrow> 'db) \<Rightarrow> circuit_config \<Rightarrow> bool \<Rightarrow> circuit_scope \<Rightarrow> failure_metadata \<Rightarrow> int \<Rightarrow>
   'db \<Rightarrow> (circuit_error + circuit_outcome) \<times> 'db" where
  "recordCircuitFailure S env cfg persistenceAvailable sc m now db =
     (let c = classifyCircuitFailure (fm_error m) in
      if \<not> cb_enabled cfg \<or> \<not> persistenceAvailable then (Inr (unchanged_circuit None), db)
      else if cc_rate_limited c then recordRateLimit S env cfg sc m now db
      else if \<not> cc_counts_toward_circuit c then (Inr (unchanged_circuit None), db)
      else failure_loop S env cfg sc m now 4 0 db)"

declare success_loop.simps [simp del] release_loop.simps [simp del] failure_loop.simps [simp del]

subsection \<open>The steps of one breaker\<close>

inductive breaker_step :: "circuit_config \<Rightarrow> breaker \<Rightarrow> breaker \<Rightarrow> bool" for cfg where
  half_open: "br_state b = Circuit_Open \<Longrightarrow> reached (br_open_until b) now \<Longrightarrow> \<not> br_probe_in_flight b \<Longrightarrow>
     breaker_step cfg b (half_open_set b)"
| probe: "br_state b = Circuit_Half_Open \<Longrightarrow> has_probe_room cfg b \<Longrightarrow> breaker_step cfg b (probe_set b)"
| success: "br_state b \<noteq> Circuit_Open \<Longrightarrow> breaker_step cfg b (success_set cfg now b b)"
| release: "br_state b = Circuit_Half_Open \<Longrightarrow> 1 \<le> probes_in_flight b \<Longrightarrow> breaker_step cfg b (release_set b b)"
| rate_limit: "breaker_step cfg b (rate_limit_set until code now b)"
| failure: "cc_counts_toward_circuit (classifyCircuitFailure (fm_error m)) \<Longrightarrow>
     breaker_step cfg b (failure_set cfg now m b b)"

inductive_cases breaker_stepE: "breaker_step cfg b b'"

lemma breaker_step_version: "breaker_step cfg b b' \<Longrightarrow> br_version b < br_version b'"
  by (induction rule: breaker_step.induct)
    (simp_all add: half_open_set_def probe_set_def success_set_def release_set_def rate_limit_set_def
      failure_set_def Let_def)

interpretation breaker_versions: versioned "breaker_step cfg" br_version for cfg
  by unfold_locales (rule breaker_step_version)

interpretation breaker_collection: versioned_document_store map_store "\<lambda>db. db" "breaker_step cfg" br_version
  for cfg
  by unfold_locales

lemma breaker_store_intro:
  "document_store S view \<Longrightarrow> versioned_document_store S view (breaker_step cfg) br_version"
  by (intro versioned_document_store.intro breaker_versions.versioned_axioms)

definition breaker_ok :: "circuit_config \<Rightarrow> breaker \<Rightarrow> bool" where
  "breaker_ok cfg b \<longleftrightarrow>
     (\<exists>n. br_probes_in_flight b = Some n \<and> (br_probe_in_flight b \<longleftrightarrow> 0 < n) \<and>
        n \<le> max 1 (cb_half_open_max_probes cfg) \<and> (br_state b \<noteq> Circuit_Half_Open \<longrightarrow> n = 0)) \<and>
     (br_state b = Circuit_Open \<longrightarrow> br_success_since_close b = 0 \<and>
        (\<exists>t. br_opened_at b = Some t \<and> br_open_until b = Some (t + cb_open_duration_ms cfg)))"

lemma fresh_breaker_ok [simp]: "breaker_ok cfg (fresh_breaker sc)"
  by (simp add: breaker_ok_def fresh_breaker_def)

lemma probes_in_flight_ok: "breaker_ok cfg b \<Longrightarrow> br_probes_in_flight b = Some (probes_in_flight b)"
  by (auto simp: breaker_ok_def probes_in_flight_def split: nat.splits)

lemma breaker_step_ok: "breaker_step cfg b b' \<Longrightarrow> breaker_ok cfg b \<Longrightarrow> breaker_ok cfg b'"
proof (induction rule: breaker_step.induct)
  case (success b now)
  then show ?case
    by (auto simp: breaker_ok_def success_set_def remaining_probes_def closes_def probes_in_flight_def
        split: nat.splits)
next
  case (release b)
  then show ?case
    by (auto simp: breaker_ok_def release_set_def probes_in_flight_def Let_def split: nat.splits)
qed (auto simp: breaker_ok_def half_open_set_def probe_set_def rate_limit_set_def failure_set_def
    has_probe_room_def Let_def)

lemma breaker_steps_ok: "(breaker_step cfg)\<^sup>*\<^sup>* b b' \<Longrightarrow> breaker_ok cfg b \<Longrightarrow> breaker_ok cfg b'"
  by (induction rule: rtranclp_induct) (auto intro: breaker_step_ok)

subsection \<open>Every operation moves breakers by steps\<close>

lemma ensureBreaker_rel:
  assumes "document_store S view" "ensureBreaker S sc db = (b, db1)"
  shows "view db1 sc = Some b" "collection_rel R view db db1"
    "view db sc = Some d \<Longrightarrow> b = d \<and> db1 = db" "view db sc = None \<Longrightarrow> b = fresh_breaker sc"
  using document_store.find_or_insert_view [OF assms(1)]
    document_store.find_or_insert_collection_rel [OF assms(1)]
    document_store.find_or_insert_hit [OF assms(1), of db sc d "fresh_breaker sc"]
    document_store.find_or_insert_miss [OF assms(1), of db sc "fresh_breaker sc"] assms(2)
  unfolding ensureBreaker_def by auto

lemma after_env:
  assumes "interferes_by R view env" "collection_rel R view db db1"
  shows "collection_rel R view db (env n db1)"
  using assms by (blast intro: collection_rel_trans interferes_byD)

lemma evaluate_admitted_steps:
  assumes S: "document_store S view" and env: "interferes_by (breaker_step cfg) view env"
    and b: "view db sc = Some b" and r: "evaluate_admitted S env cfg sc now b db = (r, db')"
  shows "collection_rel (breaker_step cfg) view db db'"
proof (cases "br_state b = Circuit_Half_Open \<and> \<not> (0 < probes_in_flight b \<and>
    (cb_half_open_max_probes cfg \<le> probes_in_flight b \<or> cb_success_threshold cfg \<le> br_success_since_close b))")
  case True
  let ?p = "\<lambda>d. br_version d = br_version b \<and> br_state d = Circuit_Half_Open \<and> has_probe_room cfg d"
  from True r obtain r1 where u: "st_find_one_and_update S sc ?p probe_set (env 3 db) = (r1, db')"
    by (auto simp: evaluate_admitted_def split: if_splits prod.splits option.splits)
  have e: "collection_rel (breaker_step cfg) view db (env 3 db)" using env by (rule interferes_byD)
  have "collection_rel (breaker_step cfg) view (env 3 db) db'"
    using document_store.update_collection_rel [OF S u] breaker_step.probe by blast
  with e show ?thesis by (rule collection_rel_trans)
next
  case False
  with r show ?thesis by (auto simp: evaluate_admitted_def split: if_splits)
qed

lemma evaluate_steps:
  assumes S: "document_store S view" and env: "interferes_by (breaker_step cfg) view env"
    and r: "evaluateCircuit S env cfg p sc now db = (r, db')"
  shows "collection_rel (breaker_step cfg) view db db'"
proof (cases "\<not> cb_enabled cfg \<or> \<not> p")
  case True
  with r show ?thesis by (auto simp: evaluateCircuit_def)
next
  case on: False
  obtain b db1 where en: "ensureBreaker S sc (env 0 db) = (b, db1)" by fastforce
  note b = ensureBreaker_rel [OF S en]
  have c1: "collection_rel (breaker_step cfg) view db db1"
    using interferes_byD [OF env] b(2) by (rule collection_rel_trans)
  show ?thesis
  proof (cases "after (br_rate_limited_until b) now \<or> br_state b = Circuit_Open \<and> after (br_open_until b) now")
    case True
    with r on en c1 show ?thesis by (auto simp: evaluateCircuit_def split: if_splits)
  next
    case False
    show ?thesis
    proof (cases "br_state b = Circuit_Open")
      case True
      let ?p = "\<lambda>d. br_version d = br_version b \<and> br_state d = Circuit_Open
          \<and> reached (br_open_until d) now \<and> \<not> br_probe_in_flight d"
      obtain r2 db2 where u: "st_find_one_and_update S sc ?p half_open_set (env 1 db1) = (r2, db2)" by fastforce
      have "collection_rel (breaker_step cfg) view (env 1 db1) db2"
        using document_store.update_collection_rel [OF S u] breaker_step.half_open by blast
      with after_env [OF env c1] have c2: "collection_rel (breaker_step cfg) view db db2"
        by (rule collection_rel_trans)
      show ?thesis
      proof (cases "\<exists>b'. r2 = None \<and> st_find_one S sc (\<lambda>_. True) (env 2 db2) = Some b'")
        case f: True
        then obtain b' where b': "r2 = None" "st_find_one S sc (\<lambda>_. True) (env 2 db2) = Some b'" by blast
        with r on en False True u
        have "evaluate_admitted S env cfg sc now b' (env 2 db2) = (r, db')"
          by (simp add: evaluateCircuit_def Let_def)
        then have "collection_rel (breaker_step cfg) view (env 2 db2) db'"
          using b'(2) evaluate_admitted_steps [OF S env] by (simp add: document_store.find_one_Some_iff [OF S])
        with after_env [OF env c2] show ?thesis by (rule collection_rel_trans)
      next
        case f: False
        with r on en False True u after_env [OF env c2] c2 show ?thesis
          by (auto simp: evaluateCircuit_def Let_def split: option.splits)
      qed
    next
      case closed: False
      with r on en False have "evaluate_admitted S env cfg sc now b db1 = (r, db')"
        by (simp add: evaluateCircuit_def)
      with evaluate_admitted_steps [OF S env b(1)] c1 show ?thesis by (blast intro: collection_rel_trans)
    qed
  qed
qed

text \<open>One try of an update loop: what was read, and a compare-and-set that only moves it by a step.\<close>

lemma loop_try:
  assumes S: "document_store S view" and env: "interferes_by (breaker_step cfg) view env"
    and en: "ensureBreaker S sc (env k db) = (b, db1)"
    and u: "st_find_one_and_update S sc p u (env (k + 1) db1) = (r, db2)"
    and p: "\<And>d. p d \<Longrightarrow> br_version d = br_version b" and st: "breaker_step cfg b (u b)"
  shows "collection_rel (breaker_step cfg) view db db2"
    and "r = Some d' \<Longrightarrow> view (env (k + 1) db1) sc = Some b \<and> d' = u b \<and> view db2 = (view (env (k + 1) db1))(sc \<mapsto> d')"
proof -
  note b = ensureBreaker_rel [OF S en]
  note V = breaker_store_intro [OF S]
  have c1: "collection_rel (breaker_step cfg) view db db1"
    using interferes_byD [OF env] b(2) by (rule collection_rel_trans)
  have e1: "collection_rel (breaker_step cfg) view db1 (env (k + 1) db1)" using env by (rule interferes_byD)
  have "collection_rel (breaker_step cfg) view (env (k + 1) db1) db2"
    using versioned_document_store.cas_steps [OF V b(1) e1 u p] st by blast
  with after_env [OF env c1] show "collection_rel (breaker_step cfg) view db db2" by (rule collection_rel_trans)
  show "view (env (k + 1) db1) sc = Some b \<and> d' = u b \<and> view db2 = (view (env (k + 1) db1))(sc \<mapsto> d')" if "r = Some d'"
    using versioned_document_store.cas_committed [OF V b(1) e1 u [unfolded that] p]
      document_store.update_Some [OF S u [unfolded that]] by auto
qed

lemma success_loop_steps:
  assumes S: "document_store S view" and env: "interferes_by (breaker_step cfg) view env"
  shows "success_loop S env cfg sc now n k db = (r, db') \<Longrightarrow> collection_rel (breaker_step cfg) view db db'"
proof (induction n arbitrary: k db)
  case 0
  then show ?case by (simp add: success_loop.simps)
next
  case (Suc n)
  obtain b db1 where en: "ensureBreaker S sc (env k db) = (b, db1)" by fastforce
  have c1: "collection_rel (breaker_step cfg) view db db1"
    using interferes_byD [OF env] ensureBreaker_rel(2) [OF S en] by (rule collection_rel_trans)
  show ?case
  proof (cases "br_state b = Circuit_Open")
    case True
    with Suc.prems en c1 show ?thesis by (simp add: success_loop.simps)
  next
    case False
    obtain r2 db2 where u: "st_find_one_and_update S sc (\<lambda>d. br_version d = br_version b)
        (success_set cfg now b) (env (k + 1) db1) = (r2, db2)" by fastforce
    note t = loop_try(1) [OF S env en u _ breaker_step.success [OF False]]
    show ?thesis
    proof (cases r2)
      case None
      with Suc.prems en u False have "success_loop S env cfg sc now n (k + 2) db2 = (r, db')"
        by (simp add: success_loop.simps)
      with t Suc.IH show ?thesis by (blast intro: collection_rel_trans)
    next
      case (Some d)
      with Suc.prems en u False t show ?thesis by (simp add: success_loop.simps)
    qed
  qed
qed

lemma release_loop_steps:
  assumes S: "document_store S view" and env: "interferes_by (breaker_step cfg) view env"
  shows "release_loop S env sc n k db = (r, db') \<Longrightarrow> collection_rel (breaker_step cfg) view db db'"
proof (induction n arbitrary: k db)
  case 0
  then show ?case by (simp add: release_loop.simps)
next
  case (Suc n)
  obtain b db1 where en: "ensureBreaker S sc (env k db) = (b, db1)" by fastforce
  have c1: "collection_rel (breaker_step cfg) view db db1"
    using interferes_byD [OF env] ensureBreaker_rel(2) [OF S en] by (rule collection_rel_trans)
  show ?case
  proof (cases "br_state b \<noteq> Circuit_Half_Open \<or> probes_in_flight b < 1")
    case True
    with Suc.prems en c1 show ?thesis by (simp add: release_loop.simps)
  next
    case False
    then have st: "breaker_step cfg b (release_set b b)" by (auto intro: breaker_step.release)
    obtain r2 db2 where u: "st_find_one_and_update S sc
        (\<lambda>d. br_version d = br_version b \<and> br_state d = Circuit_Half_Open)
        (release_set b) (env (k + 1) db1) = (r2, db2)" by fastforce
    note t = loop_try(1) [OF S env en u _ st]
    show ?thesis
    proof (cases r2)
      case None
      with Suc.prems en u False have "release_loop S env sc n (k + 2) db2 = (r, db')"
        by (simp add: release_loop.simps)
      with t Suc.IH show ?thesis by (blast intro: collection_rel_trans)
    next
      case (Some d)
      with Suc.prems en u False t show ?thesis by (simp add: release_loop.simps)
    qed
  qed
qed

text \<open>A try that succeeds writes to the database as the other requests have left it at the moment of the write.\<close>

lemma failure_loop_steps:
  assumes S: "document_store S view" and env: "interferes_by (breaker_step cfg) view env"
    and c: "cc_counts_toward_circuit (classifyCircuitFailure (fm_error m))"
  shows "failure_loop S env cfg sc m now n k db = (r, db') \<Longrightarrow>
    collection_rel (breaker_step cfg) view db db' \<and>
    (\<forall>out. r = Inr out \<longrightarrow> (\<exists>i<n. \<exists>dbr b. collection_rel (breaker_step cfg) view db dbr \<and> view dbr sc = Some b \<and>
       view (env (k + 2 * i + 1) dbr) sc = Some b \<and>
       view db' = (view (env (k + 2 * i + 1) dbr))(sc \<mapsto> failure_set cfg now m b b) \<and>
       co_state out = Some (br_state (failure_set cfg now m b b)) \<and>
       co_open_until out = br_open_until (failure_set cfg now m b b) \<and> co_changed out))"
proof (induction n arbitrary: k db)
  case 0
  then show ?case by (auto simp: failure_loop.simps)
next
  case (Suc n)
  obtain b db1 where en: "ensureBreaker S sc (env k db) = (b, db1)" by fastforce
  have c1: "collection_rel (breaker_step cfg) view db db1"
    using interferes_byD [OF env] ensureBreaker_rel(2) [OF S en] by (rule collection_rel_trans)
  obtain r2 db2 where u: "st_find_one_and_update S sc (\<lambda>d. br_version d = br_version b)
      (failure_set cfg now m b) (env (k + 1) db1) = (r2, db2)" by fastforce
  note t = loop_try [OF S env en u _ breaker_step.failure [OF c]]
  show ?case
  proof (cases r2)
    case None
    with Suc.prems en u have "failure_loop S env cfg sc m now n (k + 2) db2 = (r, db')"
      by (simp add: failure_loop.simps)
    note IH = Suc.IH [OF this]
    have rel: "collection_rel (breaker_step cfg) view db db2" using t(1) by simp
    have later: "k + 2 + 2 * i + 1 = k + 2 * Suc i + 1" for i by simp
    show ?thesis
    proof (intro conjI allI impI)
      show "collection_rel (breaker_step cfg) view db db'" using rel IH by (blast intro: collection_rel_trans)
      fix out assume "r = Inr out"
      with IH obtain i dbr b' where "i < n" "collection_rel (breaker_step cfg) view db2 dbr" "view dbr sc = Some b'"
        "view (env (k + 2 * Suc i + 1) dbr) sc = Some b'"
        "view db' = (view (env (k + 2 * Suc i + 1) dbr))(sc \<mapsto> failure_set cfg now m b' b')"
        "co_state out = Some (br_state (failure_set cfg now m b' b'))"
        "co_open_until out = br_open_until (failure_set cfg now m b' b')" "co_changed out" unfolding later by blast
      then show "\<exists>i<Suc n. \<exists>dbr b. collection_rel (breaker_step cfg) view db dbr \<and> view dbr sc = Some b \<and>
          view (env (k + 2 * i + 1) dbr) sc = Some b \<and>
          view db' = (view (env (k + 2 * i + 1) dbr))(sc \<mapsto> failure_set cfg now m b b) \<and>
          co_state out = Some (br_state (failure_set cfg now m b b)) \<and>
          co_open_until out = br_open_until (failure_set cfg now m b b) \<and> co_changed out"
        using collection_rel_trans [OF rel]
        by (intro exI [of _ "Suc i"] conjI exI [of _ dbr] exI [of _ b']) simp_all
    qed
  next
    case (Some d)
    from t(2) [OF _ Some] have d: "view (env (k + 1) db1) sc = Some b" "d = failure_set cfg now m b b"
      "view db2 = (view (env (k + 1) db1))(sc \<mapsto> d)" by simp_all
    from Suc.prems en u Some have "db' = db2 \<and> (\<exists>out. r = Inr out \<and> co_state out = Some (br_state d) \<and>
        co_open_until out = br_open_until d \<and> co_changed out)"
      by (simp add: failure_loop.simps Let_def unchanged_circuit_def) (elim conjE, drule sym [of _ r], simp)
    then obtain out where out: "db' = db2" "r = Inr out" "co_state out = Some (br_state d)"
      "co_open_until out = br_open_until d" "co_changed out" by blast
    have rel: "collection_rel (breaker_step cfg) view db db2" using t(1) by simp
    show ?thesis
      using out d rel c1 ensureBreaker_rel(1) [OF S en]
      by (intro conjI allI impI exI [of _ 0] exI [of _ db1] exI [of _ b]) simp_all
  qed
qed

lemma rate_limit_steps:
  assumes S: "document_store S view" and env: "interferes_by (breaker_step cfg) view env"
    and r: "recordRateLimit S env cfg sc m now db = (r, db')"
  shows "collection_rel (breaker_step cfg) view db db'"
proof -
  obtain b db1 where en: "ensureBreaker S sc (env 0 db) = (b, db1)" by fastforce
  have c1: "collection_rel (breaker_step cfg) view db db1"
    using interferes_byD [OF env] ensureBreaker_rel(2) [OF S en] by (rule collection_rel_trans)
  obtain r1 where u: "st_find_one_and_update S sc (\<lambda>_. True)
      (rate_limit_set (rate_limit_until cfg m now) (em_code (fm_error m)) now) (env 1 db1) = (r1, db')"
    using r en by (fastforce simp: recordRateLimit_def split: prod.splits option.splits)
  have "collection_rel (breaker_step cfg) view (env 1 db1) db'"
    using document_store.update_collection_rel [OF S u] breaker_step.rate_limit by blast
  with after_env [OF env c1] show ?thesis by (rule collection_rel_trans)
qed

datatype circuit_command =
    Do_Evaluate circuit_scope int
  | Do_Success circuit_scope int
  | Do_Release circuit_scope
  | Do_Failure circuit_scope failure_metadata int

fun exec_circuit ::
  "'db circuit_store \<Rightarrow> (nat \<Rightarrow> 'db \<Rightarrow> 'db) \<Rightarrow> circuit_config \<Rightarrow> circuit_command \<Rightarrow> 'db \<Rightarrow> 'db" where
  "exec_circuit S env cfg (Do_Evaluate sc now) db = snd (evaluateCircuit S env cfg True sc now db)"
| "exec_circuit S env cfg (Do_Success sc now) db = snd (recordCircuitSuccess S env cfg True sc now db)"
| "exec_circuit S env cfg (Do_Release sc) db = snd (releaseCircuitProbe S env cfg True sc db)"
| "exec_circuit S env cfg (Do_Failure sc m now) db = snd (recordCircuitFailure S env cfg True sc m now db)"

definition exec_circuits ::
  "'db circuit_store \<Rightarrow> (nat \<Rightarrow> 'db \<Rightarrow> 'db) \<Rightarrow> circuit_config \<Rightarrow> circuit_command list \<Rightarrow> 'db \<Rightarrow> 'db" where
  "exec_circuits S env cfg cs db = fold (exec_circuit S env cfg) cs db"

lemma success_steps:
  assumes "document_store S view" "interferes_by (breaker_step cfg) view env"
    "recordCircuitSuccess S env cfg p sc now db = (r, db')"
  shows "collection_rel (breaker_step cfg) view db db'"
  using assms(3) success_loop_steps [OF assms(1,2)] by (auto simp: recordCircuitSuccess_def split: if_splits)

lemma release_steps:
  assumes "document_store S view" "interferes_by (breaker_step cfg) view env"
    "releaseCircuitProbe S env cfg p sc db = (r, db')"
  shows "collection_rel (breaker_step cfg) view db db'"
  using assms(3) release_loop_steps [OF assms(1,2)] by (auto simp: releaseCircuitProbe_def split: if_splits)

lemma failure_steps:
  assumes "document_store S view" "interferes_by (breaker_step cfg) view env"
    "recordCircuitFailure S env cfg p sc m now db = (r, db')"
  shows "collection_rel (breaker_step cfg) view db db'"
  using assms(3) failure_loop_steps [OF assms(1,2)] rate_limit_steps [OF assms(1,2)]
  by (auto simp: recordCircuitFailure_def Let_def split: if_splits)

lemma exec_circuit_steps:
  assumes "document_store S view" "interferes_by (breaker_step cfg) view env"
  shows "collection_rel (breaker_step cfg) view db (exec_circuit S env cfg c db)"
  by (cases c) (auto intro: evaluate_steps [OF assms] success_steps [OF assms] release_steps [OF assms]
      failure_steps [OF assms] surjective_pairing)

lemma exec_circuits_steps:
  assumes "document_store S view" "interferes_by (breaker_step cfg) view env"
  shows "collection_rel (breaker_step cfg) view db (exec_circuits S env cfg cs db)"
proof (induction cs arbitrary: db)
  case (Cons c cs)
  from collection_rel_trans [OF exec_circuit_steps [OF assms, of db c] Cons.IH]
  show ?case by (simp add: exec_circuits_def)
qed (simp add: exec_circuits_def)

subsection \<open>A concrete breaker\<close>

definition sample_circuit_config :: circuit_config where
  "sample_circuit_config =
     \<lparr>cb_enabled = True, cb_failure_threshold = 3, cb_failure_window_ms = 60000,
      cb_open_duration_ms = 30000, cb_half_open_max_probes = 2, cb_success_threshold = 2\<rparr>"

definition sample_scope :: circuit_scope where
  "sample_scope =
     \<lparr>sc_workspace = ''w1'', sc_connection = ''c1'', sc_runtime_type = ''rest'',
      sc_runtime_identity_hash = ''sha256:00'', sc_capability = ''runtime''\<rparr>"

definition sample_circuit_db :: "circuit_scope \<Rightarrow> breaker option" where
  "sample_circuit_db = (\<lambda>sc. Some (fresh_breaker sc))"

definition reset_failure :: failure_metadata where
  "reset_failure =
     \<lparr>fm_error = empty_error\<lparr>em_code := Some ''ECONNRESET''\<rparr>, fm_retry_after_ms = None, fm_stage = None\<rparr>"

definition half_open_breaker :: breaker where
  "half_open_breaker =
     (fresh_breaker sample_scope)\<lparr>br_state := Circuit_Half_Open, br_opened_at := Some 0,
       br_open_until := Some 30000, br_probe_in_flight := True, br_probes_in_flight := Some 1,
       br_version := 4\<rparr>"

subsection \<open>Properties\<close>

text \<open>
  Whatever requests run, in whatever order and with whatever concurrent requests between
  their database calls, every breaker stays well formed: outside the half-open state no probe is in flight,
  in it at most the configured number (and at least one is always possible), the flag agrees with the
  counter, and an open breaker has forgotten its successes and records when it opened and that it stays
  open exactly for the configured duration.
\<close>

theorem service_keeps_breakers_ok:
  assumes "document_store S view" "interferes_by (breaker_step cfg) view env"
    and "view db sc = Some b" "breaker_ok cfg b"
  shows "\<exists>b'. view (exec_circuits S env cfg cs db) sc = Some b' \<and> breaker_ok cfg b' \<and>
    br_version b \<le> br_version b' \<and> probes_in_flight b' \<le> max 1 (cb_half_open_max_probes cfg)"
proof -
  from collection_relD [OF exec_circuits_steps [OF assms(1,2), of db cs] assms(3)]
  obtain b' where b': "view (exec_circuits S env cfg cs db) sc = Some b'" "(breaker_step cfg)\<^sup>*\<^sup>* b b'" by blast
  have ok: "breaker_ok cfg b'" using b'(2) assms(4) by (rule breaker_steps_ok)
  moreover have "probes_in_flight b' \<le> max 1 (cb_half_open_max_probes cfg)"
    using ok probes_in_flight_ok [OF ok] by (auto simp: breaker_ok_def)
  ultimately show ?thesis using b' breaker_versions.steps_ver by blast
qed

theorem service_keeps_breakers_ok_witness:
  "\<exists>b'. exec_circuits map_store no_interference sample_circuit_config
     [Do_Failure sample_scope reset_failure 10, Do_Evaluate sample_scope 20, Do_Success sample_scope 30]
     sample_circuit_db sample_scope = Some b' \<and> breaker_ok sample_circuit_config b'"
  using service_keeps_breakers_ok [OF map_store_is_document_store no_interference_interferes_by,
      of sample_circuit_db sample_scope "fresh_breaker sample_scope" sample_circuit_config
        "[Do_Failure sample_scope reset_failure 10, Do_Evaluate sample_scope 20, Do_Success sample_scope 30]"]
  by (auto simp: sample_circuit_db_def)

lemma probes_in_flight_Suc: "br_probes_in_flight b = Some (Suc n) \<Longrightarrow> probes_in_flight b = Suc n"
  by (simp add: probes_in_flight_def)

text \<open>
  What \<open>evaluateCircuit\<close> answers to a request, as a function of the breaker: while a rate limit is in
  force or an open breaker's time has not passed the request is refused with the time left; a closed breaker admits
  it without a change; an open breaker whose time has passed turns half-open and admits it as the one
  probe in flight; a half-open breaker admits a further probe while there is room, and refuses
  otherwise; a refusal never changes the breaker.
\<close>

theorem evaluate_contract:
  assumes "document_store S view" and "view db sc = Some b" and "breaker_ok cfg b" and "cb_enabled cfg"
    and "evaluateCircuit S no_interference cfg True sc now db = (r, db')"
  shows "if after (br_rate_limited_until b) now
         then r = Inl (protectionError 429 ''RATE_LIMIT_PROTECTED'' b now) \<and> db' = db
         else case br_state b of
           Circuit_Closed \<Rightarrow> r = Inr (closed_grant b) \<and> db' = db
         | Circuit_Open \<Rightarrow>
             if after (br_open_until b) now
             then r = Inl (protectionError 503 ''CIRCUIT_OPEN'' b now) \<and> db' = db
             else r = Inr (probe_grant True (half_open_set b)) \<and>
                  view db' = (view db)(sc \<mapsto> half_open_set b) \<and> probes_in_flight (half_open_set b) = 1
         | Circuit_Half_Open \<Rightarrow>
             if probes_in_flight b < cb_half_open_max_probes cfg \<and>
               (probes_in_flight b = 0 \<or> br_success_since_close b < cb_success_threshold cfg)
             then r = Inr (probe_grant False (probe_set b)) \<and> view db' = (view db)(sc \<mapsto> probe_set b) \<and>
                  probes_in_flight (probe_set b) = probes_in_flight b + 1
             else r = Inl (protectionError 503 ''CIRCUIT_HALF_OPEN_PROBE_ACTIVE'' b now) \<and> db' = db"
proof -
  note S = assms(1)
  have en: "ensureBreaker S sc db = (b, db)"
    using document_store.find_or_insert_hit [OF S assms(2)] by (simp add: ensureBreaker_def)
  have prob: "br_probes_in_flight b = Some (probes_in_flight b)" using assms(3) by (rule probes_in_flight_ok)
  have upd: "p b \<Longrightarrow> \<exists>db1. st_find_one_and_update S sc p u db = (Some (u b), db1) \<and> view db1 = (view db)(sc \<mapsto> u b)"
    "\<not> p b \<Longrightarrow> st_find_one_and_update S sc p u db = (None, db)" for p u
    using document_store.update_hit [OF S assms(2), of p u] document_store.update_miss [OF S, of db sc b p u] assms(2)
    by (cases "st_find_one_and_update S sc p u db"; simp)+
  note r = assms(5) [unfolded evaluateCircuit_def no_interference_simps en prod.case]
  show ?thesis
  proof (cases "after (br_rate_limited_until b) now")
    case True
    with r assms(4) show ?thesis by simp
  next
    case rl: False
    show ?thesis
    proof (cases "br_state b")
      case Circuit_Closed
      with r rl assms(4) show ?thesis by (simp add: evaluate_admitted_def)
    next
      case Circuit_Open
      show ?thesis
      proof (cases "after (br_open_until b) now")
        case True
        with r rl assms(4) Circuit_Open show ?thesis by simp
      next
        case False
        let ?p = "\<lambda>d. br_version d = br_version b \<and> br_state d = Circuit_Open
          \<and> reached (br_open_until d) now \<and> \<not> br_probe_in_flight d"
        have "?p b"
          using assms(3) Circuit_Open False by (auto simp: breaker_ok_def reached_def after_def)
        then obtain db1 where "st_find_one_and_update S sc ?p half_open_set db = (Some (half_open_set b), db1)"
          "view db1 = (view db)(sc \<mapsto> half_open_set b)" using upd(1) [of ?p half_open_set] by blast
        moreover have "probes_in_flight (half_open_set b) = 1"
          by (simp add: probes_in_flight_def half_open_set_def)
        ultimately show ?thesis using r rl assms(4) Circuit_Open False by simp
      qed
    next
      case Circuit_Half_Open
      let ?p = "\<lambda>d. br_version d = br_version b \<and> br_state d = Circuit_Half_Open \<and> has_probe_room cfg d"
      have p: "?p b \<longleftrightarrow> probes_in_flight b < cb_half_open_max_probes cfg"
        using Circuit_Half_Open prob by (simp add: has_probe_room_def)
      have "probes_in_flight (probe_set b) = probes_in_flight b + 1"
        using prob by (intro trans [OF probes_in_flight_Suc]) (simp_all add: probe_set_def)
      with r rl assms(4) Circuit_Half_Open p upd(1) [of ?p probe_set] upd(2) [of ?p probe_set]
      show ?thesis by (auto simp: evaluate_admitted_def not_less split: if_splits)
    qed
  qed
qed

theorem evaluate_contract_witness:
  "\<exists>db'. evaluateCircuit map_store no_interference sample_circuit_config True sample_scope 100
      (\<lambda>_. Some half_open_breaker) =
      (Inr (probe_grant False (probe_set half_open_breaker)), db') \<and>
      db' sample_scope = Some (probe_set half_open_breaker)"
proof -
  have ok: "breaker_ok sample_circuit_config half_open_breaker"
    by (simp add: breaker_ok_def half_open_breaker_def fresh_breaker_def sample_circuit_config_def)
  have en: "cb_enabled sample_circuit_config" by (simp add: sample_circuit_config_def)
  obtain r db' where r: "evaluateCircuit map_store no_interference sample_circuit_config True sample_scope 100
      (\<lambda>_. Some half_open_breaker) = (r, db')" by fastforce
  have "\<not> after (br_rate_limited_until half_open_breaker) 100"
    "br_state half_open_breaker = Circuit_Half_Open"
    "probes_in_flight half_open_breaker < cb_half_open_max_probes sample_circuit_config \<and>
     (probes_in_flight half_open_breaker = 0 \<or>
      br_success_since_close half_open_breaker < cb_success_threshold sample_circuit_config)"
    by code_simp+
  with evaluate_contract [OF map_store_is_document_store _ ok en r] r show ?thesis by simp
qed

text \<open>
  C23: a failure that is reported as counted is not lost: whatever other requests do between the database calls, if
  \<open>recordCircuitFailure\<close> returns without an error then one of its at most four tries replaced the document \<open>b\<close> that was
  stored at the very moment of its write (the database \<open>env (2 * i + 1) dbr\<close>, as the others had left it when the write was made),
  and nothing else: the consecutive failures are one more than those of \<open>b\<close>, those of the window one more (or one in a new
  window), and the state follows from that count and is the reported one. So no increment that another request stored
  between the reading and the writing is overwritten. A call that loses all four tries ends with an error, and its failure is
  not counted.
\<close>

theorem counted_failure_is_not_lost:
  assumes "document_store S view" "interferes_by (breaker_step cfg) view env"
    and "cb_enabled cfg" "cc_counts_toward_circuit (classifyCircuitFailure (fm_error m))"
    and "recordCircuitFailure S env cfg True sc m now db = (Inr out, db')"
  shows "\<exists>i<4. \<exists>dbr b b'. collection_rel (breaker_step cfg) view db dbr \<and>
    view (env (2 * i + 1) dbr) sc = Some b \<and> view db' = (view (env (2 * i + 1) dbr))(sc \<mapsto> b') \<and>
    br_version b' = br_version b + 1 \<and> co_changed out \<and> co_state out = Some (br_state b') \<and>
    br_consecutive_failures b' = br_consecutive_failures b + 1 \<and>
    br_failures_in_window b' = (if window_active cfg now b then br_failures_in_window b + 1 else 1) \<and>
    br_last_failure_at b' = Some now \<and>
    br_state b' = (if br_state b = Circuit_Half_Open \<or> cb_failure_threshold cfg \<le> br_failures_in_window b'
                   then Circuit_Open else Circuit_Closed) \<and>
    (br_state b' = Circuit_Open \<longrightarrow> br_open_until b' = Some (now + cb_open_duration_ms cfg))"
proof -
  have nrl: "\<not> cc_rate_limited (classifyCircuitFailure (fm_error m))"
    using classify_rate_limited_not_counted assms(4) by blast
  have w: "cc_weight (classifyCircuitFailure (fm_error m)) = 1" using classify_weight assms(4) by simp
  from assms(3-5) nrl have "failure_loop S env cfg sc m now 4 0 db = (Inr out, db')"
    by (simp add: recordCircuitFailure_def Let_def)
  from failure_loop_steps [OF assms(1,2,4) this] obtain i dbr b where "i < 4"
    "collection_rel (breaker_step cfg) view db dbr" "view (env (2 * i + 1) dbr) sc = Some b"
    "view db' = (view (env (2 * i + 1) dbr))(sc \<mapsto> failure_set cfg now m b b)"
    "co_state out = Some (br_state (failure_set cfg now m b b))" "co_changed out" by auto
  then show ?thesis
    by (intro exI [of _ i] conjI exI [of _ dbr] exI [of _ b] exI [of _ "failure_set cfg now m b b"])
      (simp_all add: failure_set_def Let_def failures_after_def should_open_def w)
qed

text \<open>Another request counts a failure between the reading and the first write: the second try counts on top of it.\<close>

definition failing_neighbour :: "nat \<Rightarrow> (circuit_scope \<Rightarrow> breaker option) \<Rightarrow> (circuit_scope \<Rightarrow> breaker option)" where
  "failing_neighbour n db =
     (if n = 1 then snd (recordCircuitFailure map_store no_interference sample_circuit_config True sample_scope reset_failure 9 db) else db)"

lemma failing_neighbour_interferes: "interferes_by (breaker_step sample_circuit_config) (\<lambda>db. db) failing_neighbour"
  unfolding interferes_by_def failing_neighbour_def
  using failure_steps [OF map_store_is_document_store no_interference_interferes_by surjective_pairing] by auto

theorem counted_failure_is_not_lost_witness:
  "\<exists>out db' b'. recordCircuitFailure map_store failing_neighbour sample_circuit_config True sample_scope reset_failure 10
      sample_circuit_db = (Inr out, db') \<and> db' sample_scope = Some b' \<and>
      br_failures_in_window b' = 2 \<and> co_state out = Some (br_state b')"
proof -
  let ?r = "recordCircuitFailure map_store failing_neighbour sample_circuit_config True sample_scope reset_failure 10 sample_circuit_db"
  obtain r db' where r: "?r = (r, db')" by fastforce
  have "isl (fst ?r) = False" by code_simp
  with r obtain out where out: "r = Inr out" by (cases r) auto
  have "map_option br_failures_in_window (snd ?r sample_scope) = Some 2" by code_simp
  with r have two: "map_option br_failures_in_window (db' sample_scope) = Some 2" by simp
  have c: "cb_enabled sample_circuit_config"
    "cc_counts_toward_circuit (classifyCircuitFailure (fm_error reset_failure))" by code_simp+
  from counted_failure_is_not_lost [OF map_store_is_document_store failing_neighbour_interferes c r [unfolded out]]
  obtain i dbr b' where f: "db' = (failing_neighbour (2 * i + 1) dbr)(sample_scope \<mapsto> b')" "co_state out = Some (br_state b')"
    by blast
  then have "db' sample_scope = Some b'" by simp
  with two r out f show ?thesis by auto
qed

text \<open>The one-document view of the operations, when no other request interferes.\<close>

lemma ensureBreaker_hit:
  "document_store S view \<Longrightarrow> view db sc = Some b \<Longrightarrow> ensureBreaker S sc db = (b, db)"
  by (simp add: ensureBreaker_def document_store.find_or_insert_hit)

lemma failure_alone:
  assumes S: "document_store S view" and b: "view db sc = Some b" and "cb_enabled cfg"
    and c: "cc_counts_toward_circuit (classifyCircuitFailure (fm_error m))"
    and r: "recordCircuitFailure S no_interference cfg True sc m now db = (r, db')"
  shows "view db' = (view db)(sc \<mapsto> failure_set cfg now m b b) \<and>
    (\<exists>out. r = Inr out \<and> co_state out = Some (br_state (failure_set cfg now m b b)) \<and>
      co_open_until out = br_open_until (failure_set cfg now m b b))"
proof -
  have nrl: "\<not> cc_rate_limited (classifyCircuitFailure (fm_error m))"
    using classify_rate_limited_not_counted c by blast
  obtain db1 where u: "st_find_one_and_update S sc (\<lambda>d. br_version d = br_version b) (failure_set cfg now m b) db =
      (Some (failure_set cfg now m b b), db1)" "view db1 = (view db)(sc \<mapsto> failure_set cfg now m b b)"
    using document_store.update_hit [OF S b, of "\<lambda>d. br_version d = br_version b" "failure_set cfg now m b"]
    by (cases "st_find_one_and_update S sc (\<lambda>d. br_version d = br_version b) (failure_set cfg now m b) db") auto
  show ?thesis
    using r c nrl assms(3) u ensureBreaker_hit [OF S b]
    by (simp add: recordCircuitFailure_def failure_loop.simps eval_nat_numeral Let_def unchanged_circuit_def)
      (elim conjE, drule sym [of _ r], simp)
qed

lemma success_alone:
  assumes S: "document_store S view" and b: "view db sc = Some b" and "cb_enabled cfg" "br_state b \<noteq> Circuit_Open"
    and r: "recordCircuitSuccess S no_interference cfg True sc now db = (r, db')"
  shows "view db' = (view db)(sc \<mapsto> success_set cfg now b b)"
proof -
  obtain db1 where u: "st_find_one_and_update S sc (\<lambda>d. br_version d = br_version b) (success_set cfg now b) db =
      (Some (success_set cfg now b b), db1)" "view db1 = (view db)(sc \<mapsto> success_set cfg now b b)"
    using document_store.update_hit [OF S b, of "\<lambda>d. br_version d = br_version b" "success_set cfg now b"]
    by (cases "st_find_one_and_update S sc (\<lambda>d. br_version d = br_version b) (success_set cfg now b) db") auto
  show ?thesis
    using r assms(3,4) u ensureBreaker_hit [OF S b]
    by (auto simp: recordCircuitSuccess_def success_loop.simps eval_nat_numeral)
qed

text \<open>
  Once a counted failure has opened a circuit, every request to the same runtime is refused until the
  configured duration has passed, and the refusal tells it how long to wait.
\<close>

theorem opened_circuit_rejects:
  assumes "document_store S view" "view db sc = Some b" "cb_enabled cfg"
    and "cc_counts_toward_circuit (classifyCircuitFailure (fm_error m))"
    and "recordCircuitFailure S no_interference cfg True sc m now db = (Inr out, db1)"
    and "co_state out = Some Circuit_Open" "now' < now + cb_open_duration_ms cfg"
    and "evaluateCircuit S no_interference cfg True sc now' db1 = (r, db2)"
  shows "\<exists>e. r = Inl (Protected e) \<and> db2 = db1 \<and>
    (pe_code e = ''RATE_LIMIT_PROTECTED'' \<and> pe_status e = 429 \<or>
     pe_code e = ''CIRCUIT_OPEN'' \<and> pe_status e = 503 \<and>
       pe_retry_after_ms e = now + cb_open_duration_ms cfg - now')"
proof -
  note S = assms(1)
  let ?b = "failure_set cfg now m b b"
  from failure_alone [OF assms(1-5)] have v: "view db1 sc = Some ?b" "co_state out = Some (br_state ?b)" by auto
  with assms(6) have "br_state ?b = Circuit_Open" by simp
  then have opens: "br_state ?b = Circuit_Open" "br_open_until ?b = Some (now + cb_open_duration_ms cfg)"
    by (simp_all add: failure_set_def Let_def split: if_splits)
  have "after (br_open_until ?b) now'" using opens(2) assms(7) by (simp add: after_def)
  moreover have "max 0 (now + cb_open_duration_ms cfg - now') = now + cb_open_duration_ms cfg - now'"
    using assms(7) by simp
  ultimately show ?thesis using assms(8) assms(3) opens ensureBreaker_hit [OF S v(1)]
    by (auto simp: evaluateCircuit_def protectionError_def retryAfterMs_def split: if_splits)
qed

definition failing_breaker :: breaker where
  "failing_breaker =
     (fresh_breaker sample_scope)\<lparr>br_failures_in_window := 2, br_window_started_at := Some 0, br_version := 2\<rparr>"

theorem opened_circuit_rejects_witness:
  "\<exists>out db1 e. recordCircuitFailure map_store no_interference sample_circuit_config True sample_scope reset_failure 10
      (\<lambda>_. Some failing_breaker) = (Inr out, db1) \<and> co_state out = Some Circuit_Open \<and>
      fst (evaluateCircuit map_store no_interference sample_circuit_config True sample_scope 20 db1) =
        Inl (Protected e)"
proof -
  obtain r db1 where r: "recordCircuitFailure map_store no_interference sample_circuit_config True sample_scope
      reset_failure 10 (\<lambda>_. Some failing_breaker) = (r, db1)" by fastforce
  have "(case fst (recordCircuitFailure map_store no_interference sample_circuit_config True sample_scope
      reset_failure 10 (\<lambda>_. Some failing_breaker)) of Inl _ \<Rightarrow> False
      | Inr out \<Rightarrow> co_state out = Some Circuit_Open) = True" by code_simp
  with r obtain out where out: "r = Inr out" "co_state out = Some Circuit_Open" by (cases r) auto
  have c: "cb_enabled sample_circuit_config"
    "cc_counts_toward_circuit (classifyCircuitFailure (fm_error reset_failure))" by code_simp+
  have t: "20 < 10 + cb_open_duration_ms sample_circuit_config" by (simp add: sample_circuit_config_def)
  obtain r2 db2 where e: "evaluateCircuit map_store no_interference sample_circuit_config True sample_scope 20 db1 =
      (r2, db2)" by fastforce
  have v: "(\<lambda>_. Some failing_breaker) sample_scope = Some failing_breaker" by simp
  from opened_circuit_rejects [OF map_store_is_document_store v c r [unfolded out(1)] out(2) t e]
  show ?thesis using r out e by (metis fst_conv)
qed

text \<open>A request that is admitted and succeeds.\<close>

definition probe_round ::
  "'db circuit_store \<Rightarrow> circuit_config \<Rightarrow> circuit_scope \<Rightarrow> int \<Rightarrow> 'db \<Rightarrow> 'db" where
  "probe_round S cfg sc now db =
     snd (recordCircuitSuccess S no_interference cfg True sc now
       (snd (evaluateCircuit S no_interference cfg True sc now db)))"

definition recovering :: "circuit_config \<Rightarrow> int \<Rightarrow> nat \<Rightarrow> breaker \<Rightarrow> bool" where
  "recovering cfg now k b \<longleftrightarrow>
     breaker_ok cfg b \<and> probes_in_flight b = 0 \<and> \<not> after (br_rate_limited_until b) now \<and>
     br_success_since_close b = k \<and>
     br_state b = (if cb_success_threshold cfg \<le> k then Circuit_Closed else Circuit_Half_Open)"

lemma recovering_success:
  assumes "breaker_ok cfg h" "br_state h = Circuit_Half_Open" "probes_in_flight h = 1"
    "\<not> after (br_rate_limited_until h) now" "br_success_since_close h = k"
  shows "recovering cfg now (Suc k) (success_set cfg now h h)"
proof -
  have "breaker_ok cfg (success_set cfg now h h)"
    using breaker_step.success [of h cfg now] assms(1,2) by (auto intro: breaker_step_ok)
  then show ?thesis
    using assms by (auto simp: recovering_def success_set_def closes_def remaining_probes_def probes_in_flight_def after_def)
qed

lemma probe_round_success:
  assumes S: "document_store S view" and "cb_enabled cfg"
    and e: "view (snd (evaluateCircuit S no_interference cfg True sc now db)) sc = Some h" "br_state h \<noteq> Circuit_Open"
  shows "view (probe_round S cfg sc now db) sc = Some (success_set cfg now h h)"
proof -
  let ?db = "snd (evaluateCircuit S no_interference cfg True sc now db)"
  obtain r db' where r: "recordCircuitSuccess S no_interference cfg True sc now ?db = (r, db')" by fastforce
  from success_alone [where now = now, OF S e(1) assms(2) e(2) r] show ?thesis by (simp add: probe_round_def r)
qed

lemma round_from_open:
  assumes S: "document_store S view" and b: "view db sc = Some b" "breaker_ok cfg b" and "cb_enabled cfg"
    and "br_state b = Circuit_Open" "\<not> after (br_open_until b) now" "\<not> after (br_rate_limited_until b) now"
  shows "\<exists>b'. view (probe_round S cfg sc now db) sc = Some b' \<and> recovering cfg now 1 b'"
proof -
  obtain r db' where r: "evaluateCircuit S no_interference cfg True sc now db = (r, db')" by fastforce
  have ev: "view (snd (evaluateCircuit S no_interference cfg True sc now db)) sc = Some (half_open_set b)"
    "probes_in_flight (half_open_set b) = 1"
    using evaluate_contract [OF S b assms(4) r] assms(5-7) r by (simp_all add: if_not_P)
  have "reached (br_open_until b) now" "\<not> br_probe_in_flight b"
    using b(2) assms(5,6) by (auto simp: breaker_ok_def reached_def after_def)
  then have "breaker_ok cfg (half_open_set b)"
    using breaker_step.half_open [OF assms(5)] b(2) by (blast intro: breaker_step_ok)
  moreover have "br_success_since_close b = 0" using b(2) assms(5) by (simp add: breaker_ok_def)
  ultimately have "recovering cfg now (Suc 0) (success_set cfg now (half_open_set b) (half_open_set b))"
    using ev(2) assms(7) by (intro recovering_success) (simp_all add: half_open_set_def)
  with probe_round_success [OF S assms(4) ev(1)] show ?thesis by (auto simp: half_open_set_def)
qed

lemma round_from_half_open:
  assumes S: "document_store S view" and b: "view db sc = Some b" and k: "recovering cfg now k b"
    and "cb_enabled cfg" "k < cb_success_threshold cfg" "1 \<le> cb_half_open_max_probes cfg"
  shows "\<exists>b'. view (probe_round S cfg sc now db) sc = Some b' \<and> recovering cfg now (Suc k) b'"
proof -
  obtain r db' where r: "evaluateCircuit S no_interference cfg True sc now db = (r, db')" by fastforce
  have b2: "breaker_ok cfg b" "br_state b = Circuit_Half_Open" "probes_in_flight b = 0"
    "\<not> after (br_rate_limited_until b) now" "br_success_since_close b = k"
    using k assms(5) by (auto simp: recovering_def)
  have ev: "view (snd (evaluateCircuit S no_interference cfg True sc now db)) sc = Some (probe_set b)"
    "probes_in_flight (probe_set b) = 1"
    using evaluate_contract [OF S b b2(1) assms(4) r] b2 assms(6) r by simp_all
  have "has_probe_room cfg b" using probes_in_flight_ok [OF b2(1)] b2(3) assms(6) by (simp add: has_probe_room_def)
  then have "breaker_ok cfg (probe_set b)"
    using breaker_step.probe [OF b2(2)] b2(1) by (blast intro: breaker_step_ok)
  then have "recovering cfg now (Suc k) (success_set cfg now (probe_set b) (probe_set b))"
    using ev(2) b2 by (intro recovering_success) (simp_all add: probe_set_def)
  with probe_round_success [OF S assms(4) ev(1)] b2(2) show ?thesis by (auto simp: probe_set_def)
qed

text \<open>
  C24: an open circuit recovers: once its time has passed and no rate limit is in force, as many
  successful requests as the success threshold, each admitted as a probe, close it.
\<close>

theorem open_circuit_recovers:
  assumes "document_store S view" "view db sc = Some b" "breaker_ok cfg b" "cb_enabled cfg"
    and "br_state b = Circuit_Open" "\<not> after (br_open_until b) now" "\<not> after (br_rate_limited_until b) now"
    and "1 \<le> cb_success_threshold cfg" "1 \<le> cb_half_open_max_probes cfg"
  shows "\<exists>b'. view ((probe_round S cfg sc now ^^ cb_success_threshold cfg) db) sc = Some b' \<and>
    br_state b' = Circuit_Closed \<and> breaker_ok cfg b'"
proof -
  have "k < cb_success_threshold cfg \<Longrightarrow> \<exists>b'. view ((probe_round S cfg sc now ^^ Suc k) db) sc = Some b' \<and>
      recovering cfg now (Suc k) b'" for k
  proof (induction k)
    case 0
    from round_from_open [OF assms(1-7)] show ?case by simp
  next
    case (Suc k)
    then obtain b' where "view ((probe_round S cfg sc now ^^ Suc k) db) sc = Some b'" "recovering cfg now (Suc k) b'"
      by auto
    from round_from_half_open [OF assms(1) this assms(4) Suc.prems assms(9)] show ?case by simp
  qed
  from this [of "cb_success_threshold cfg - 1"] assms(8) show ?thesis by (auto simp: recovering_def)
qed

definition opened_breaker :: breaker where
  "opened_breaker =
     (fresh_breaker sample_scope)\<lparr>br_state := Circuit_Open, br_opened_at := Some 0, br_open_until := Some 30000,
       br_failures_in_window := 1, br_version := 7\<rparr>"

lemma opened_breaker_ok: "breaker_ok sample_circuit_config opened_breaker"
  by (simp add: breaker_ok_def opened_breaker_def fresh_breaker_def sample_circuit_config_def)

theorem open_circuit_recovers_witness:
  "\<exists>b'. (probe_round map_store sample_circuit_config sample_scope 30000 ^^ 2) (\<lambda>_. Some opened_breaker) sample_scope =
     Some b' \<and> br_state b' = Circuit_Closed"
proof -
  have h: "cb_enabled sample_circuit_config" "br_state opened_breaker = Circuit_Open"
    "\<not> after (br_open_until opened_breaker) 30000" "\<not> after (br_rate_limited_until opened_breaker) 30000"
    "1 \<le> cb_success_threshold sample_circuit_config" "1 \<le> cb_half_open_max_probes sample_circuit_config"
    by code_simp+
  have t: "cb_success_threshold sample_circuit_config = 2" by (simp add: sample_circuit_config_def)
  from open_circuit_recovers [where view = "\<lambda>db. db" and db = "\<lambda>_. Some opened_breaker" and sc = sample_scope and b = opened_breaker,
      OF map_store_is_document_store refl opened_breaker_ok h, unfolded t]
  show ?thesis by blast
qed

subsection \<open>Two gaps\<close>

text \<open>
  a counted failure that arrives while the circuit is open (a request that was already under way) closes
  it when the window holds fewer failures than the threshold, which is the case after a
  half-open probe reopened it or the window expired: the stored state becomes closed although the time it was to
  stay open has not passed, and the next request is admitted.
\<close>

theorem late_failure_closes_open_circuit:
  assumes "document_store S view" "view db sc = Some b" "breaker_ok cfg b" "cb_enabled cfg"
    and "cc_counts_toward_circuit (classifyCircuitFailure (fm_error m))"
    and "br_state b = Circuit_Open" "failures_after cfg now 1 b < cb_failure_threshold cfg"
    and "\<not> after (br_rate_limited_until b) now"
    and "recordCircuitFailure S no_interference cfg True sc m now db = (r, db1)"
  shows "\<exists>b'. view db1 sc = Some b' \<and> br_state b' = Circuit_Closed \<and> br_open_until b' = br_open_until b \<and>
    evaluateCircuit S no_interference cfg True sc now db1 = (Inr (closed_grant b'), db1)"
proof -
  note S = assms(1)
  let ?b = "failure_set cfg now m b b"
  have w: "cc_weight (classifyCircuitFailure (fm_error m)) = 1" using classify_weight assms(5) by simp
  have v: "view db1 sc = Some ?b" using failure_alone [OF assms(1,2,4,5,9)] by simp
  have n: "\<not> should_open cfg now 1 b" using assms(6,7) by (simp add: should_open_def)
  have st: "br_state ?b = Circuit_Closed" "br_open_until ?b = br_open_until b"
    "br_rate_limited_until ?b = br_rate_limited_until b"
    using n by (simp_all add: failure_set_def Let_def w)
  have ok: "breaker_ok cfg ?b" using breaker_step.failure [OF assms(5)] assms(3) by (rule breaker_step_ok)
  obtain r2 db2 where e: "evaluateCircuit S no_interference cfg True sc now db1 = (r2, db2)" by fastforce
  from evaluate_contract [OF S v ok assms(4) e] st assms(8) e v show ?thesis by simp
qed

theorem late_failure_closes_open_circuit_witness:
  "\<exists>db1 b'. recordCircuitFailure map_store no_interference sample_circuit_config True sample_scope reset_failure 100
      (\<lambda>_. Some opened_breaker) = (Inr ((unchanged_circuit (Some Circuit_Closed))\<lparr>co_changed := True,
        co_open_until := Some 30000\<rparr>), db1) \<and>
     db1 sample_scope = Some b' \<and> br_state b' = Circuit_Closed"
proof -
  obtain r db1 where r: "recordCircuitFailure map_store no_interference sample_circuit_config True sample_scope
      reset_failure 100 (\<lambda>_. Some opened_breaker) = (r, db1)" by fastforce
  have "fst (recordCircuitFailure map_store no_interference sample_circuit_config True sample_scope
      reset_failure 100 (\<lambda>_. Some opened_breaker)) =
      Inr ((unchanged_circuit (Some Circuit_Closed))\<lparr>co_changed := True, co_open_until := Some 30000\<rparr>)"
    by code_simp
  with r have out: "r = Inr ((unchanged_circuit (Some Circuit_Closed))\<lparr>co_changed := True, co_open_until := Some 30000\<rparr>)"
    by simp
  have h: "cb_enabled sample_circuit_config"
    "cc_counts_toward_circuit (classifyCircuitFailure (fm_error reset_failure))"
    "br_state opened_breaker = Circuit_Open"
    "failures_after sample_circuit_config 100 1 opened_breaker < cb_failure_threshold sample_circuit_config"
    "\<not> after (br_rate_limited_until opened_breaker) 100"
    by code_simp+
  from late_failure_closes_open_circuit [where view = "\<lambda>db. db" and db = "\<lambda>_. Some opened_breaker" and sc = sample_scope and b = opened_breaker,
      OF map_store_is_document_store refl opened_breaker_ok h r] r out
  show ?thesis by blast
qed

text \<open>
  a request that loses the race for the half-open probe can be admitted through an open circuit: when
  another request's probe has already failed and reopened the circuit before the loser reads the breaker
  again, the loser is admitted as if the circuit were closed, although the stored breaker is open and its time has not
  passed.
\<close>

definition racing_requests :: "nat \<Rightarrow> (circuit_scope \<Rightarrow> breaker option) \<Rightarrow> (circuit_scope \<Rightarrow> breaker option)" where
  "racing_requests n db =
     (if n = 1 then
        snd (recordCircuitFailure map_store no_interference sample_circuit_config True sample_scope reset_failure 30001
          (snd (evaluateCircuit map_store no_interference sample_circuit_config True sample_scope 30000 db)))
      else db)"

theorem lost_race_is_admitted_when_open:
  "interferes_by (breaker_step sample_circuit_config) (\<lambda>db. db) racing_requests \<and>
   (\<exists>b db'. evaluateCircuit map_store racing_requests sample_circuit_config True sample_scope 30002
      (\<lambda>_. Some opened_breaker) = (Inr (closed_grant b), db') \<and>
      db' sample_scope = Some b \<and> br_state b = Circuit_Open \<and> after (br_open_until b) 30002)"
proof (intro conjI)
  show "interferes_by (breaker_step sample_circuit_config) (\<lambda>db. db) racing_requests"
    unfolding interferes_by_def
  proof (intro allI)
    fix n :: nat and db :: "circuit_scope \<Rightarrow> breaker option"
    have "collection_rel (breaker_step sample_circuit_config) (\<lambda>db. db) db
        (exec_circuits map_store no_interference sample_circuit_config
          [Do_Evaluate sample_scope 30000, Do_Failure sample_scope reset_failure 30001] db)"
      by (rule exec_circuits_steps [OF map_store_is_document_store no_interference_interferes_by])
    then show "collection_rel (breaker_step sample_circuit_config) (\<lambda>db. db) db (racing_requests n db)"
      by (simp add: racing_requests_def exec_circuits_def)
  qed
next
  let ?e = "evaluateCircuit map_store racing_requests sample_circuit_config True sample_scope 30002
      (\<lambda>_. Some opened_breaker)"
  have "(case ?e of (Inr g, db') \<Rightarrow> (case cg_breaker g of
      Some b \<Rightarrow> g = closed_grant b \<and> db' sample_scope = Some b \<and> br_state b = Circuit_Open \<and> after (br_open_until b) 30002
    | None \<Rightarrow> False) | _ \<Rightarrow> False) = True"
    by code_simp
  then show "\<exists>b db'. ?e = (Inr (closed_grant b), db') \<and>
      db' sample_scope = Some b \<and> br_state b = Circuit_Open \<and> after (br_open_until b) 30002"
    by (cases ?e rule: prod.exhaust; cases "fst ?e") (auto split: option.splits)
qed

end
