(* ===== verification/Runtime_Capacity.thy ===== *)
theory Runtime_Capacity
  imports Prelude "HOL-Library.AList"
begin

text \<open>
  backend/src/services/runtimeCapacity.service.js: concurrency slots of a workspace and of a connection, held by
  leases with an expiry. The collection of slots (backend/src/models/RuntimeCapacitySlot.js, unique on
  workspace, scope and slot number) is a parameter, a record \<open>slot_ops\<close>; the locale \<open>slot_store\<close> states
  the documented behaviour of its three calls. \<open>env n\<close> is what other requests do before the \<open>n\<close>-th call.
\<close>

subsection \<open>Slots and their collection\<close>

datatype scope_type = Workspace_Scope | Connection_Scope

record slot_key =
  sl_workspace :: string
  sl_scope_type :: scope_type
  sl_scope_id :: string
  sl_number :: nat

record slot =
  so_connection :: string
  so_invocation :: string
  so_lease :: string
  so_acquired_at :: int
  so_expires_at :: int

text \<open>\<open>slot_upsert k p s\<close> writes \<open>s\<close> at \<open>k\<close> if \<open>k\<close> is free or its slot satisfies \<open>p\<close>, and reports the
  duplicate key otherwise; the other two act on every slot that satisfies the filter and count them.\<close>

record 'db slot_ops =
  slot_upsert :: "slot_key \<Rightarrow> (slot \<Rightarrow> bool) \<Rightarrow> slot \<Rightarrow> 'db \<Rightarrow> slot option \<times> 'db"
  slot_delete_many :: "(slot_key \<Rightarrow> slot \<Rightarrow> bool) \<Rightarrow> 'db \<Rightarrow> nat \<times> 'db"
  slot_update_many :: "(slot_key \<Rightarrow> slot \<Rightarrow> bool) \<Rightarrow> (slot \<Rightarrow> slot) \<Rightarrow> 'db \<Rightarrow> nat \<times> 'db"

definition matching :: "(slot_key \<Rightarrow> slot \<Rightarrow> bool) \<Rightarrow> (slot_key \<Rightarrow> slot option) \<Rightarrow> slot_key set" where
  "matching p m = {k. \<exists>d. m k = Some d \<and> p k d}"

locale slot_store =
  fixes S :: "'db slot_ops"
    and view :: "'db \<Rightarrow> slot_key \<Rightarrow> slot option"
  assumes finite_slots: "finite (dom (view db))"
    and upsert_free:
      "(\<And>d. view db k = Some d \<Longrightarrow> p d) \<Longrightarrow>
       fst (slot_upsert S k p s db) = Some s \<and> view (snd (slot_upsert S k p s db)) = (view db)(k \<mapsto> s)"
    and upsert_taken: "view db k = Some d \<Longrightarrow> \<not> p d \<Longrightarrow> slot_upsert S k p s db = (None, db)"
    and delete_view:
      "view (snd (slot_delete_many S q db)) k =
         (case view db k of Some d \<Rightarrow> if q k d then None else Some d | None \<Rightarrow> None)"
    and delete_count: "fst (slot_delete_many S q db) = card (matching q (view db))"
    and update_view:
      "view (snd (slot_update_many S q u db)) k =
         (case view db k of Some d \<Rightarrow> Some (if q k d then u d else d) | None \<Rightarrow> None)"
    and update_count: "fst (slot_update_many S q u db) = card (matching q (view db))"
begin

lemma upsert_cases:
  assumes "slot_upsert S k p s db = (r, db')"
  obtains (taken) d where "r = None" "db' = db" "view db k = Some d" "\<not> p d"
    | (free) "r = Some s" "view db' = (view db)(k \<mapsto> s)" "\<forall>d. view db k = Some d \<longrightarrow> p d"
proof (cases "\<exists>d. view db k = Some d \<and> \<not> p d")
  case True
  then obtain d where d: "view db k = Some d" "\<not> p d" by blast
  from upsert_taken [where s = s and k = k and p = p and db = db, OF d] assms d show thesis by (intro taken) simp_all
next
  case False
  then have "\<And>d. view db k = Some d \<Longrightarrow> p d" by blast
  then have "fst (slot_upsert S k p s db) = Some s \<and> view (snd (slot_upsert S k p s db)) = (view db)(k \<mapsto> s)"
    by (rule upsert_free)
  with assms False show thesis by (intro free) auto
qed

end

subsection \<open>A collection held as an association list\<close>

definition alist_upsert ::
  "slot_key \<Rightarrow> (slot \<Rightarrow> bool) \<Rightarrow> slot \<Rightarrow> (slot_key \<times> slot) list \<Rightarrow> slot option \<times> (slot_key \<times> slot) list" where
  "alist_upsert k p s db =
     (case map_of db k of
        Some d \<Rightarrow> if p d then (Some s, (k, s) # db) else (None, db)
      | None \<Rightarrow> (Some s, (k, s) # db))"

definition alist_delete_many ::
  "(slot_key \<Rightarrow> slot \<Rightarrow> bool) \<Rightarrow> (slot_key \<times> slot) list \<Rightarrow> nat \<times> (slot_key \<times> slot) list" where
  "alist_delete_many q db =
     (let al = AList.clearjunk db
      in (length (filter (\<lambda>(k, d). q k d) al), filter (\<lambda>(k, d). \<not> q k d) al))"

definition alist_update_many ::
  "(slot_key \<Rightarrow> slot \<Rightarrow> bool) \<Rightarrow> (slot \<Rightarrow> slot) \<Rightarrow> (slot_key \<times> slot) list \<Rightarrow> nat \<times> (slot_key \<times> slot) list" where
  "alist_update_many q u db =
     (let al = AList.clearjunk db
      in (length (filter (\<lambda>(k, d). q k d) al), map (\<lambda>(k, d). (k, if q k d then u d else d)) al))"

definition alist_slots :: "(slot_key \<times> slot) list slot_ops" where
  "alist_slots =
     \<lparr>slot_upsert = alist_upsert, slot_delete_many = alist_delete_many, slot_update_many = alist_update_many\<rparr>"

lemma length_filter_matching:
  assumes "distinct (map fst al)"
  shows "length (filter (\<lambda>(k, d). q k d) al) = card (matching q (map_of al))"
proof -
  have "matching q (map_of al) = fst ` set (filter (\<lambda>(k, d). q k d) al)"
    using map_of_eq_Some_iff [OF assms] by (force simp: matching_def)
  moreover have "distinct (map fst (filter (\<lambda>(k, d). q k d) al))"
    using assms by (simp add: distinct_map inj_on_def)
  ultimately show ?thesis
    by (metis distinct_card length_map set_map)
qed

lemma map_of_filter_slots:
  assumes "distinct (map fst al)"
  shows "map_of (filter (\<lambda>(k, d). \<not> q k d) al) k =
    (case map_of al k of Some d \<Rightarrow> if q k d then None else Some d | None \<Rightarrow> None)"
  using assms
proof (induction al)
  case (Cons a al)
  then have "map_of al (fst a) = None" by (simp add: map_of_eq_None_iff)
  with Cons show ?case by (cases a) auto
qed simp

lemma map_of_update_slots:
  "map_of (map (\<lambda>(k, d). (k, if q k d then u d else d)) al) k =
    (case map_of al k of Some d \<Rightarrow> Some (if q k d then u d else d) | None \<Rightarrow> None)"
  by (induction al) auto

interpretation slot_list: slot_store alist_slots map_of
proof
  show "finite (dom (map_of db))" for db :: "(slot_key \<times> slot) list" by (rule finite_dom_map_of)
qed (auto simp: alist_slots_def alist_upsert_def alist_delete_many_def alist_update_many_def Let_def
    map_of_clearjunk distinct_clearjunk length_filter_matching map_of_filter_slots map_of_update_slots
    split: option.splits)

lemma alist_slots_is_slot_store: "slot_store alist_slots map_of"
  by (rule slot_list.slot_store_axioms)

subsection \<open>The operations\<close>

record capacity_config =
  cap_workspace_limit :: nat
  cap_connection_limit :: nat
  cap_lease_ms :: int

record slot_lease =
  le_id :: string
  le_invocation :: string
  le_connection :: string
  le_expires_at :: int

record capacity_lease =
  cl_workspace :: string
  cl_connection :: string
  cl_invocation :: string
  cl_lease :: string
  cl_expires_at :: int

datatype capacity_reason = WORKSPACE_CAPACITY_EXCEEDED | CONNECTION_CAPACITY_EXCEEDED

record capacity_error =
  ce_status :: nat
  ce_code :: string
  ce_reason :: capacity_reason
  ce_connection :: string
  ce_retry_after_ms :: int

definition capacity_exceeded :: "capacity_config \<Rightarrow> string \<Rightarrow> capacity_reason \<Rightarrow> capacity_error" where
  "capacity_exceeded cfg connection reason =
     \<lparr>ce_status = 429, ce_code = ''RUNTIME_CAPACITY_EXCEEDED'', ce_reason = reason,
      ce_connection = connection, ce_retry_after_ms = min (cap_lease_ms cfg) 1000\<rparr>"

definition leased_slot :: "slot_lease \<Rightarrow> int \<Rightarrow> slot" where
  "leased_slot lease now =
     \<lparr>so_connection = le_connection lease, so_invocation = le_invocation lease, so_lease = le_id lease,
      so_acquired_at = now, so_expires_at = le_expires_at lease\<rparr>"

definition claimable_slot :: "slot_lease \<Rightarrow> int \<Rightarrow> slot \<Rightarrow> bool" where
  "claimable_slot lease now d \<longleftrightarrow> so_expires_at d \<le> now \<or> so_lease d = le_id lease"

text \<open>The loop over slot numbers from \<open>slotNumber\<close>; \<open>n\<close> numbers are left.\<close>

fun claim_from ::
  "'db slot_ops \<Rightarrow> (nat \<Rightarrow> 'db \<Rightarrow> 'db) \<Rightarrow> string \<Rightarrow> scope_type \<Rightarrow> string \<Rightarrow> slot_lease \<Rightarrow> int \<Rightarrow> nat \<Rightarrow> nat \<Rightarrow>
   'db \<Rightarrow> slot_key option \<times> 'db" where
  "claim_from S env w ty sid lease now 0 slotNumber db = (None, db)"
| "claim_from S env w ty sid lease now (Suc n) slotNumber db =
     (let k = \<lparr>sl_workspace = w, sl_scope_type = ty, sl_scope_id = sid, sl_number = slotNumber\<rparr>
      in case slot_upsert S k (claimable_slot lease now) (leased_slot lease now) (env slotNumber db) of
           (Some _, db1) \<Rightarrow> (Some k, db1)
         | (None, db1) \<Rightarrow> claim_from S env w ty sid lease now n (slotNumber + 1) db1)"

definition claimScopeSlot ::
  "'db slot_ops \<Rightarrow> (nat \<Rightarrow> 'db \<Rightarrow> 'db) \<Rightarrow> string \<Rightarrow> scope_type \<Rightarrow> string \<Rightarrow> nat \<Rightarrow> slot_lease \<Rightarrow> int \<Rightarrow>
   'db \<Rightarrow> slot_key option \<times> 'db" where
  "claimScopeSlot S env w ty sid limit lease now db = claim_from S env w ty sid lease now limit 1 db"

definition of_lease :: "string \<Rightarrow> string \<Rightarrow> slot_key \<Rightarrow> slot \<Rightarrow> bool" where
  "of_lease w l k d \<longleftrightarrow> sl_workspace k = w \<and> so_lease d = l"

definition releaseRuntimeCapacity ::
  "'db slot_ops \<Rightarrow> bool \<Rightarrow> capacity_lease option \<Rightarrow> 'db \<Rightarrow> nat \<times> 'db" where
  "releaseRuntimeCapacity S persistenceAvailable lease db =
     (case lease of
        None \<Rightarrow> (0, db)
      | Some l \<Rightarrow>
          if \<not> persistenceAvailable then (0, db)
          else slot_delete_many S (of_lease (cl_workspace l) (cl_lease l)) db)"

text \<open>The lease id is the caller's or a fresh one; the lease \<open>None\<close> is the bypassed one, returned without a
  database, and a missing one.\<close>

definition acquireRuntimeCapacity ::
  "'db slot_ops \<Rightarrow> (nat \<Rightarrow> 'db \<Rightarrow> 'db) \<Rightarrow> capacity_config \<Rightarrow> bool \<Rightarrow> string \<Rightarrow> string \<Rightarrow> string \<Rightarrow> string \<Rightarrow> int \<Rightarrow>
   'db \<Rightarrow> (capacity_error + capacity_lease option) \<times> 'db" where
  "acquireRuntimeCapacity S env cfg persistenceAvailable w connection invocation leaseId now db =
     (if \<not> persistenceAvailable then (Inr None, db)
      else
      (let lease = \<lparr>le_id = leaseId, le_invocation = invocation, le_connection = connection,
                    le_expires_at = now + cap_lease_ms cfg\<rparr>
       in case claimScopeSlot S env w Workspace_Scope w (cap_workspace_limit cfg) lease now db of
            (None, db1) \<Rightarrow> (Inl (capacity_exceeded cfg connection WORKSPACE_CAPACITY_EXCEEDED), db1)
          | (Some _, db1) \<Rightarrow>
              (case claimScopeSlot S (\<lambda>n. env (cap_workspace_limit cfg + n)) w Connection_Scope connection
                      (cap_connection_limit cfg) lease now db1 of
                 (None, db2) \<Rightarrow>
                   (Inl (capacity_exceeded cfg connection CONNECTION_CAPACITY_EXCEEDED),
                    snd (slot_delete_many S (of_lease w leaseId) (env 0 db2)))
               | (Some _, db2) \<Rightarrow>
                   (Inr (Some \<lparr>cl_workspace = w, cl_connection = connection, cl_invocation = invocation,
                               cl_lease = leaseId, cl_expires_at = le_expires_at lease\<rparr>), db2))))"

definition renewable :: "capacity_lease \<Rightarrow> int \<Rightarrow> slot_key \<Rightarrow> slot \<Rightarrow> bool" where
  "renewable l now k d \<longleftrightarrow> sl_workspace k = cl_workspace l \<and> so_invocation d = cl_invocation l
     \<and> so_lease d = cl_lease l \<and> now < so_expires_at d"

definition renewal_expiry :: "capacity_config \<Rightarrow> int option \<Rightarrow> int \<Rightarrow> int" where
  "renewal_expiry cfg duration now =
     now + (case duration of Some d \<Rightarrow> if d = 0 then cap_lease_ms cfg else d | None \<Rightarrow> cap_lease_ms cfg)"

definition renewRuntimeCapacity ::
  "'db slot_ops \<Rightarrow> capacity_config \<Rightarrow> bool \<Rightarrow> capacity_lease option \<Rightarrow> int option \<Rightarrow> int \<Rightarrow> 'db \<Rightarrow>
   capacity_lease option \<times> 'db" where
  "renewRuntimeCapacity S cfg persistenceAvailable lease duration now db =
     (case lease of
        None \<Rightarrow> (None, db)
      | Some l \<Rightarrow>
          if \<not> persistenceAvailable then (None, db)
          else
          (let expires = renewal_expiry cfg duration now
           in case slot_update_many S (renewable l now) (\<lambda>d. d\<lparr>so_expires_at := expires\<rparr>) db of
                (matched, db1) \<Rightarrow>
                  if matched < 2 then (None, db1) else (Some (l\<lparr>cl_expires_at := expires\<rparr>), db1)))"

declare claim_from.simps [simp del]

subsection \<open>Claims\<close>

definition alone :: "nat \<Rightarrow> 'db \<Rightarrow> 'db" where
  "alone n db = db"

lemma alone_same: "alone n db = db"
  by (simp add: alone_def)

lemma alone_shift: "(\<lambda>i. alone (m + i)) = alone"
  by (simp add: alone_def fun_eq_iff)

definition scope_key :: "string \<Rightarrow> scope_type \<Rightarrow> string \<Rightarrow> nat \<Rightarrow> slot_key" where
  "scope_key w ty sid i = \<lparr>sl_workspace = w, sl_scope_type = ty, sl_scope_id = sid, sl_number = i\<rparr>"

lemma scope_key_simps [simp]:
  "scope_key w ty sid i = scope_key w' ty' sid' i' \<longleftrightarrow> w = w' \<and> ty = ty' \<and> sid = sid' \<and> i = i'"
  "sl_workspace (scope_key w ty sid i) = w" "sl_scope_type (scope_key w ty sid i) = ty"
  "sl_scope_id (scope_key w ty sid i) = sid" "sl_number (scope_key w ty sid i) = i"
  by (simp_all add: scope_key_def)

lemma claim_from_rel:
  assumes trans: "\<And>a b c. R a b \<Longrightarrow> R b c \<Longrightarrow> R a c" and refl: "\<And>a. R a a"
    and env: "\<And>i db. R db (env i db)"
    and up: "\<And>i db r db'. j \<le> i \<Longrightarrow> i < j + n \<Longrightarrow>
      slot_upsert S (scope_key w ty sid i) (claimable_slot lease now) (leased_slot lease now) db = (r, db') \<Longrightarrow> R db db'"
    and "claim_from S env w ty sid lease now n j db = (r, db')"
  shows "R db db'"
  using up assms(5)
proof (induction n arbitrary: j db)
  case 0
  then show ?case by (simp add: claim_from.simps refl)
next
  case (Suc n)
  obtain r1 db1 where u: "slot_upsert S (scope_key w ty sid j) (claimable_slot lease now) (leased_slot lease now)
      (env j db) = (r1, db1)" by fastforce
  have r1: "R db db1" using Suc.prems(1) [OF _ _ u] env trans by (metis add_Suc_right le_add1 le_refl less_add_Suc1)
  show ?case
  proof (cases r1)
    case None
    with u Suc.prems(2) have n: "claim_from S env w ty sid lease now n (j + 1) db1 = (r, db')"
      by (simp add: claim_from.simps scope_key_def)
    have "R db1 db'"
      by (rule Suc.IH [OF _ n]) (rule Suc.prems(1), auto)
    with r1 show ?thesis by (rule trans)
  next
    case (Some s)
    with u Suc.prems(2) r1 show ?thesis by (simp add: claim_from.simps scope_key_def)
  qed
qed

lemma claim_from_alone:
  assumes S: "slot_store S view"
    and "claim_from S alone w ty sid lease now n j db = (r, db')"
  obtains (full) "r = None" "db' = db"
      "\<forall>i\<in>{j..<j + n}. \<exists>d. view db (scope_key w ty sid i) = Some d \<and> \<not> claimable_slot lease now d"
    | (claimed) i where "i \<in> {j..<j + n}" "r = Some (scope_key w ty sid i)"
      "view db' = (view db)(scope_key w ty sid i \<mapsto> leased_slot lease now)"
      "\<forall>d. view db (scope_key w ty sid i) = Some d \<longrightarrow> claimable_slot lease now d"
  using assms(2)
proof (induction n arbitrary: j thesis)
  case 0
  then show ?case by (simp add: claim_from.simps)
next
  case (Suc n)
  obtain r1 db1 where u: "slot_upsert S (scope_key w ty sid j) (claimable_slot lease now) (leased_slot lease now)
      db = (r1, db1)" by fastforce
  note a = alone_same [of j db]
  show ?case
  proof (rule slot_store.upsert_cases [OF S u], goal_cases taken free)
    case (taken d)
    with u a Suc.prems(3) have n: "claim_from S alone w ty sid lease now n (j + 1) db = (r, db')"
      by (simp add: claim_from.simps scope_key_def)
    show ?thesis
    proof (rule Suc.IH [OF _ _ n])
      assume f: "r = None" "db' = db"
        "\<forall>i\<in>{j + 1..<j + 1 + n}. \<exists>d. view db (scope_key w ty sid i) = Some d \<and> \<not> claimable_slot lease now d"
      have "{j..<j + Suc n} = insert j {j + 1..<j + 1 + n}" by auto
      with f taken show ?thesis by (intro Suc.prems(1)) auto
    next
      fix i assume i: "i \<in> {j + 1..<j + 1 + n}" "r = Some (scope_key w ty sid i)"
        "view db' = (view db)(scope_key w ty sid i \<mapsto> leased_slot lease now)"
        "\<forall>d. view db (scope_key w ty sid i) = Some d \<longrightarrow> claimable_slot lease now d"
      then show ?thesis by (intro Suc.prems(2) [of i]) auto
    qed
  next
    case free
    with u a Suc.prems(3) have "r = Some (scope_key w ty sid j)" "db' = db1"
      by (auto simp: claim_from.simps scope_key_def)
    with free show ?thesis by (intro Suc.prems(2) [of j]) auto
  qed
qed

subsection \<open>What other leases keep\<close>

text \<open>\<open>slot_config\<close> bounds the slot numbers in use; \<open>keeps_lease l t\<close>: a slot that \<open>l\<close> holds
  beyond the time \<open>t\<close> stays as it is.\<close>

definition scope_limit :: "capacity_config \<Rightarrow> scope_type \<Rightarrow> nat" where
  "scope_limit cfg ty = (case ty of Workspace_Scope \<Rightarrow> cap_workspace_limit cfg | Connection_Scope \<Rightarrow> cap_connection_limit cfg)"

definition slots_in_range :: "capacity_config \<Rightarrow> (slot_key \<Rightarrow> slot option) \<Rightarrow> bool" where
  "slots_in_range cfg m \<longleftrightarrow>
     (\<forall>k d. m k = Some d \<longrightarrow> 1 \<le> sl_number k \<and> sl_number k \<le> scope_limit cfg (sl_scope_type k))"

definition keeps_lease :: "string \<Rightarrow> int \<Rightarrow> (slot_key \<Rightarrow> slot option) \<Rightarrow> (slot_key \<Rightarrow> slot option) \<Rightarrow> bool" where
  "keeps_lease l t m m' \<longleftrightarrow>
     (\<forall>k d. m k = Some d \<longrightarrow> so_lease d = l \<longrightarrow> t < so_expires_at d \<longrightarrow> m' k = Some d)"

datatype capacity_command =
    Do_Acquire string string string string int
  | Do_Renew_Capacity capacity_lease "int option" int
  | Do_Release_Capacity capacity_lease

fun exec_capacity ::
  "'db slot_ops \<Rightarrow> (nat \<Rightarrow> 'db \<Rightarrow> 'db) \<Rightarrow> capacity_config \<Rightarrow> capacity_command \<Rightarrow> 'db \<Rightarrow> 'db" where
  "exec_capacity S env cfg (Do_Acquire w c i l now) db = snd (acquireRuntimeCapacity S env cfg True w c i l now db)"
| "exec_capacity S env cfg (Do_Renew_Capacity l d now) db = snd (renewRuntimeCapacity S cfg True (Some l) d now db)"
| "exec_capacity S env cfg (Do_Release_Capacity l) db = snd (releaseRuntimeCapacity S True (Some l) db)"

definition exec_capacities ::
  "'db slot_ops \<Rightarrow> (nat \<Rightarrow> 'db \<Rightarrow> 'db) \<Rightarrow> capacity_config \<Rightarrow> capacity_command list \<Rightarrow> 'db \<Rightarrow> 'db" where
  "exec_capacities S env cfg cs db = fold (exec_capacity S env cfg) cs db"

text \<open>A command of another lease, at a time up to \<open>t\<close>.\<close>

fun foreign_command :: "string \<Rightarrow> int \<Rightarrow> capacity_command \<Rightarrow> bool" where
  "foreign_command l t (Do_Acquire w c i l' now) \<longleftrightarrow> l' \<noteq> l \<and> now \<le> t"
| "foreign_command l t (Do_Renew_Capacity le d now) \<longleftrightarrow> cl_lease le \<noteq> l"
| "foreign_command l t (Do_Release_Capacity le) \<longleftrightarrow> cl_lease le \<noteq> l"

lemma keeps_lease_refl [simp]: "keeps_lease l t m m"
  by (simp add: keeps_lease_def)

lemma keeps_lease_trans: "keeps_lease l t a b \<Longrightarrow> keeps_lease l t b c \<Longrightarrow> keeps_lease l t a c"
  by (simp add: keeps_lease_def)

text \<open>An acquisition through any preorder that its calls respect.\<close>

lemma acquire_rel:
  assumes trans: "\<And>a b c. R a b \<Longrightarrow> R b c \<Longrightarrow> R a c" and refl: "\<And>a. R a a"
    and env: "\<And>i db. R db (env i db)"
    and up: "\<And>ty sid i db r db'. 1 \<le> i \<Longrightarrow> i \<le> scope_limit cfg ty \<Longrightarrow>
      slot_upsert S (scope_key w ty sid i)
        (claimable_slot \<lparr>le_id = l, le_invocation = iv, le_connection = c, le_expires_at = now + cap_lease_ms cfg\<rparr> now)
        (leased_slot \<lparr>le_id = l, le_invocation = iv, le_connection = c, le_expires_at = now + cap_lease_ms cfg\<rparr> now)
        db = (r, db') \<Longrightarrow> R db db'"
    and del: "\<And>db. R db (snd (slot_delete_many S (of_lease w l) db))"
    and "acquireRuntimeCapacity S env cfg p w c iv l now db = (r, db')"
  shows "R db db'"
proof (cases p)
  case False
  with assms(6) refl show ?thesis by (simp add: acquireRuntimeCapacity_def)
next
  case True
  let ?le = "\<lparr>le_id = l, le_invocation = iv, le_connection = c, le_expires_at = now + cap_lease_ms cfg\<rparr>"
  let ?env2 = "\<lambda>n. env (cap_workspace_limit cfg + n)"
  obtain r1 db1 where c1: "claimScopeSlot S env w Workspace_Scope w (cap_workspace_limit cfg) ?le now db = (r1, db1)"
    by fastforce
  obtain r2 db2 where c2: "claimScopeSlot S ?env2 w Connection_Scope c (cap_connection_limit cfg) ?le now db1 = (r2, db2)"
    by fastforce
  have up1: "R db db'" if "1 \<le> i" "i < 1 + cap_workspace_limit cfg"
      "slot_upsert S (scope_key w Workspace_Scope sid i) (claimable_slot ?le now) (leased_slot ?le now) db = (r, db')"
    for i sid db r db'
    using that by (intro up [of i Workspace_Scope]) (simp_all add: scope_limit_def)
  have up2: "R db db'" if "1 \<le> i" "i < 1 + cap_connection_limit cfg"
      "slot_upsert S (scope_key w Connection_Scope sid i) (claimable_slot ?le now) (leased_slot ?le now) db = (r, db')"
    for i sid db r db'
    using that by (intro up [of i Connection_Scope]) (simp_all add: scope_limit_def)
  have R1: "R db db1"
    by (rule claim_from_rel [where R = R, OF _ refl env _ c1 [unfolded claimScopeSlot_def]])
      (rule trans, assumption+, erule (2) up1)
  have R2: "R db1 db2"
    by (rule claim_from_rel [where R = R, OF _ refl env _ c2 [unfolded claimScopeSlot_def]])
      (rule trans, assumption+, erule (2) up2)
  have R3: "R db2 (snd (slot_delete_many S (of_lease w l) (env 0 db2)))" by (rule trans [OF env del])
  show ?thesis
    using assms(6) True c1 c2 R1 trans [OF R1 R2] trans [OF trans [OF R1 R2] R3]
    by (cases r1; cases r2) (auto simp: acquireRuntimeCapacity_def)
qed

lemma renew_result:
  "snd (renewRuntimeCapacity S cfg True (Some l) d now db) =
     snd (slot_update_many S (renewable l now) (\<lambda>s. s\<lparr>so_expires_at := renewal_expiry cfg d now\<rparr>) db)"
  "fst (renewRuntimeCapacity S cfg True (Some l) d now db) =
     (if fst (slot_update_many S (renewable l now) (\<lambda>s. s\<lparr>so_expires_at := renewal_expiry cfg d now\<rparr>) db) < 2
      then None else Some (l\<lparr>cl_expires_at := renewal_expiry cfg d now\<rparr>))"
  by (simp_all add: renewRuntimeCapacity_def Let_def split: prod.split)

lemma acquire_in_range:
  assumes S: "slot_store S view" and env: "\<And>i db. slots_in_range cfg (view db) \<Longrightarrow> slots_in_range cfg (view (env i db))"
    and a: "acquireRuntimeCapacity S env cfg p w c iv l now db = (r, db')" "slots_in_range cfg (view db)"
  shows "slots_in_range cfg (view db')"
proof -
  let ?R = "\<lambda>a b. slots_in_range cfg (view a) \<longrightarrow> slots_in_range cfg (view b)"
  have "?R db db'"
  proof (rule acquire_rel [where R = ?R, OF _ _ _ _ _ a(1)], goal_cases)
    case (4 ty sid i db r db')
    show ?case
      by (rule slot_store.upsert_cases [OF S 4(3)]) (use 4(1,2) in \<open>auto simp: slots_in_range_def\<close>)
  next
    case (5 db)
    show ?case
      by (auto simp: slots_in_range_def slot_store.delete_view [OF S] split: option.splits if_splits)
  qed (use env in blast)+
  with a(2) show ?thesis by blast
qed

lemma exec_capacity_in_range:
  assumes S: "slot_store S view" and env: "\<And>i db. slots_in_range cfg (view db) \<Longrightarrow> slots_in_range cfg (view (env i db))"
    and r: "slots_in_range cfg (view db)"
  shows "slots_in_range cfg (view (exec_capacity S env cfg cmd db))"
proof (cases cmd)
  case (Do_Acquire w c i l now)
  have "slots_in_range cfg (view (snd (acquireRuntimeCapacity S env cfg True w c i l now db)))"
    by (rule acquire_in_range [OF S _ surjective_pairing r]) (rule env)
  then show ?thesis by (simp add: Do_Acquire)
next
  case (Do_Renew_Capacity l d now)
  with r show ?thesis
    by (auto simp: renew_result slots_in_range_def slot_store.update_view [OF S] split: option.splits)
next
  case (Do_Release_Capacity l)
  with r show ?thesis
    by (auto simp: releaseRuntimeCapacity_def slots_in_range_def slot_store.delete_view [OF S]
        split: option.splits if_splits)
qed

lemma acquire_keeps_lease:
  assumes S: "slot_store S view" and env: "\<And>i db. keeps_lease l t (view db) (view (env i db))"
    and a: "acquireRuntimeCapacity S env cfg p w c iv l' now db = (r, db')" "l' \<noteq> l" "now \<le> t"
  shows "keeps_lease l t (view db) (view db')"
proof (rule acquire_rel [where R = "\<lambda>a b. keeps_lease l t (view a) (view b)", OF _ _ _ _ _ a(1)], goal_cases)
  case (4 ty sid i db r db')
  show ?case
    by (rule slot_store.upsert_cases [OF S 4(3)])
      (use a(2,3) in \<open>auto simp: keeps_lease_def claimable_slot_def\<close>)
next
  case (5 db)
  show ?case
    using a(2) by (auto simp: keeps_lease_def slot_store.delete_view [OF S] of_lease_def)
qed (use env in \<open>auto intro: keeps_lease_trans\<close>)

lemma exec_capacity_keeps_lease:
  assumes S: "slot_store S view" and env: "\<And>i db. keeps_lease l t (view db) (view (env i db))"
    and f: "foreign_command l t cmd"
  shows "keeps_lease l t (view db) (view (exec_capacity S env cfg cmd db))"
proof (cases cmd)
  case (Do_Acquire w c i l' now)
  have "keeps_lease l t (view db) (view (snd (acquireRuntimeCapacity S env cfg True w c i l' now db)))"
    by (rule acquire_keeps_lease [OF S _ surjective_pairing]) (use env f Do_Acquire in auto)
  then show ?thesis by (simp add: Do_Acquire)
next
  case (Do_Renew_Capacity le d now)
  with f show ?thesis
    by (auto simp: renew_result keeps_lease_def renewable_def slot_store.update_view [OF S])
next
  case (Do_Release_Capacity le)
  with f show ?thesis
    by (auto simp: releaseRuntimeCapacity_def keeps_lease_def of_lease_def slot_store.delete_view [OF S])
qed

text \<open>\<open>live_slot l t k m\<close>: the lease \<open>l\<close> holds the slot \<open>k\<close> beyond the time \<open>t\<close>. It is kept by every command up to the time
  \<open>t\<close> that does not release the lease, acquire it again or renew it for less.\<close>

definition live_slot :: "string \<Rightarrow> int \<Rightarrow> slot_key \<Rightarrow> (slot_key \<Rightarrow> slot option) \<Rightarrow> bool" where
  "live_slot l t k m \<longleftrightarrow> (\<exists>d. m k = Some d \<and> so_lease d = l \<and> t < so_expires_at d)"

definition keeps_live :: "string \<Rightarrow> int \<Rightarrow> (slot_key \<Rightarrow> slot option) \<Rightarrow> (slot_key \<Rightarrow> slot option) \<Rightarrow> bool" where
  "keeps_live l t m m' \<longleftrightarrow> (\<forall>k. live_slot l t k m \<longrightarrow> live_slot l t k m')"

fun sparing_command :: "capacity_config \<Rightarrow> string \<Rightarrow> int \<Rightarrow> capacity_command \<Rightarrow> bool" where
  "sparing_command cfg l t (Do_Acquire w c i l' now) \<longleftrightarrow> l' \<noteq> l \<and> now \<le> t"
| "sparing_command cfg l t (Do_Renew_Capacity le d now) \<longleftrightarrow> (cl_lease le = l \<longrightarrow> t < renewal_expiry cfg d now)"
| "sparing_command cfg l t (Do_Release_Capacity le) \<longleftrightarrow> cl_lease le \<noteq> l"

lemma keeps_liveD: "keeps_live l t m m' \<Longrightarrow> live_slot l t k m \<Longrightarrow> live_slot l t k m'"
  by (simp add: keeps_live_def)

lemma keeps_lease_live: "keeps_lease l t m m' \<Longrightarrow> keeps_live l t m m'"
  by (auto simp: keeps_lease_def keeps_live_def live_slot_def)

lemma acquire_keeps_live:
  assumes S: "slot_store S view" and env: "\<And>i db. keeps_live l t (view db) (view (env i db))"
    and a: "acquireRuntimeCapacity S env cfg p w c iv l' now db = (r, db')" "l' \<noteq> l" "now \<le> t"
  shows "keeps_live l t (view db) (view db')"
proof (rule acquire_rel [where R = "\<lambda>a b. keeps_live l t (view a) (view b)", OF _ _ _ _ _ a(1)], goal_cases)
  case (4 ty sid i db r db')
  show ?case
    by (rule slot_store.upsert_cases [OF S 4(3)])
      (use a(2,3) in \<open>auto simp: keeps_live_def live_slot_def claimable_slot_def\<close>)
next
  case (5 db)
  show ?case
    using a(2) by (auto simp: keeps_live_def live_slot_def slot_store.delete_view [OF S] of_lease_def)
qed (use env in \<open>auto simp: keeps_live_def\<close>)

lemma exec_capacity_keeps_live:
  assumes S: "slot_store S view" and env: "\<And>i db. keeps_live l t (view db) (view (env i db))"
    and f: "sparing_command cfg l t cmd"
  shows "keeps_live l t (view db) (view (exec_capacity S env cfg cmd db))"
proof (cases cmd)
  case (Do_Acquire w c i l' now)
  have "keeps_live l t (view db) (view (snd (acquireRuntimeCapacity S env cfg True w c i l' now db)))"
    by (rule acquire_keeps_live [OF S _ surjective_pairing]) (use env f Do_Acquire in auto)
  then show ?thesis by (simp add: Do_Acquire)
next
  case (Do_Renew_Capacity le d now)
  with f show ?thesis
    by (auto simp: renew_result keeps_live_def live_slot_def renewable_def slot_store.update_view [OF S])
next
  case (Do_Release_Capacity le)
  with f show ?thesis
    by (auto simp: releaseRuntimeCapacity_def keeps_live_def live_slot_def of_lease_def slot_store.delete_view [OF S])
qed

lemma exec_capacities_keep_live:
  assumes "slot_store S view" and "\<And>i db. keeps_live l t (view db) (view (env i db))"
    and "list_all (sparing_command cfg l t) cs" "live_slot l t k (view db)"
  shows "live_slot l t k (view (exec_capacities S env cfg cs db))"
  using assms(3,4)
proof (induction cs arbitrary: db)
  case (Cons cmd cs)
  have "keeps_live l t (view db) (view (exec_capacity S env cfg cmd db))"
    by (rule exec_capacity_keeps_live [OF assms(1,2)]) (use Cons.prems in auto)
  then have "live_slot l t k (view (exec_capacity S env cfg cmd db))" using Cons.prems(2) by (rule keeps_liveD)
  with Cons show ?case by (simp add: exec_capacities_def)
qed (simp add: exec_capacities_def)

text \<open>A successful acquisition leaves the lease a slot of either scope, whatever happened between its calls.\<close>

lemma claim_from_holds:
  assumes S: "slot_store S view"
  shows "claim_from S env w ty sid lease now n j db = (Some k, db') \<Longrightarrow>
    (\<exists>i. k = scope_key w ty sid i) \<and> view db' k = Some (leased_slot lease now)"
proof (induction n arbitrary: j db)
  case (Suc n)
  obtain r1 db1 where u: "slot_upsert S (scope_key w ty sid j) (claimable_slot lease now) (leased_slot lease now)
      (env j db) = (r1, db1)" by fastforce
  show ?case
  proof (rule slot_store.upsert_cases [OF S u], goal_cases taken free)
    case (taken d)
    with u Suc show ?thesis by (auto simp: claim_from.simps scope_key_def)
  next
    case free
    with u Suc.prems show ?thesis by (auto simp: claim_from.simps scope_key_def)
  qed
qed (simp add: claim_from.simps)

lemma claim_from_keeps_live:
  assumes S: "slot_store S view" and env: "\<And>i db. keeps_live l t (view db) (view (env i db))"
    and "\<And>i. k \<noteq> scope_key w ty sid i" "claim_from S env w ty sid lease now n j db = (r, db')" "live_slot l t k (view db)"
  shows "live_slot l t k (view db')"
proof -
  have "live_slot l t k (view db) \<longrightarrow> live_slot l t k (view db')"
  proof (rule claim_from_rel [where R = "\<lambda>a b. live_slot l t k (view a) \<longrightarrow> live_slot l t k (view b)", OF _ _ _ _ assms(4)],
      goal_cases)
    case (4 i db r db')
    show ?case by (rule slot_store.upsert_cases [OF S 4(3)]) (use assms(3) in \<open>auto simp: live_slot_def\<close>)
  qed (use keeps_liveD [OF env] in blast)+
  with assms(5) show ?thesis by blast
qed

lemma acquired_lease_is_live:
  assumes S: "slot_store S view" and env: "\<And>i db. keeps_live l t (view db) (view (env i db))"
    and a: "acquireRuntimeCapacity S env cfg True w c iv l now db = (Inr (Some cl), db')" and t: "t < cl_expires_at cl"
  shows "\<exists>i j. live_slot l t (scope_key w Workspace_Scope w i) (view db')
    \<and> live_slot l t (scope_key w Connection_Scope c j) (view db')"
proof -
  let ?le = "\<lparr>le_id = l, le_invocation = iv, le_connection = c, le_expires_at = now + cap_lease_ms cfg\<rparr>"
  let ?env2 = "\<lambda>n. env (cap_workspace_limit cfg + n)"
  obtain r1 db1 where c1: "claimScopeSlot S env w Workspace_Scope w (cap_workspace_limit cfg) ?le now db = (r1, db1)"
    by fastforce
  obtain r2 db2 where c2: "claimScopeSlot S ?env2 w Connection_Scope c (cap_connection_limit cfg) ?le now db1 = (r2, db2)"
    by fastforce
  from a c1 c2 obtain k1 k2 where k: "r1 = Some k1" "r2 = Some k2" "db' = db2" "cl_expires_at cl = now + cap_lease_ms cfg"
    by (cases r1; cases r2) (auto simp: acquireRuntimeCapacity_def)
  have l: "so_lease (leased_slot ?le now) = l" "t < so_expires_at (leased_slot ?le now)"
    using t k(4) by (simp_all add: leased_slot_def)
  from claim_from_holds [OF S] c1 k(1) obtain i where
    "k1 = scope_key w Workspace_Scope w i" "live_slot l t k1 (view db1)" using l by (fastforce simp: claimScopeSlot_def live_slot_def)
  moreover from claim_from_holds [OF S] c2 k(2) obtain j where
    "k2 = scope_key w Connection_Scope c j" "live_slot l t k2 (view db2)" using l by (fastforce simp: claimScopeSlot_def live_slot_def)
  moreover from calculation(1,2) have "live_slot l t k1 (view db2)"
    using claim_from_keeps_live [OF S env _ c2 [unfolded claimScopeSlot_def]] by simp
  ultimately show ?thesis using k(3) by blast
qed

subsection \<open>Properties\<close>

definition scope_slots :: "string \<Rightarrow> scope_type \<Rightarrow> string \<Rightarrow> (slot_key \<Rightarrow> slot option) \<Rightarrow> slot_key set" where
  "scope_slots w ty sid m =
     {k. m k \<noteq> None \<and> sl_workspace k = w \<and> sl_scope_type k = ty \<and> sl_scope_id k = sid}"

lemma scope_slots_bound:
  assumes "slots_in_range cfg m"
  shows "card (scope_slots w ty sid m) \<le> scope_limit cfg ty"
proof -
  have "scope_slots w ty sid m \<subseteq> scope_key w ty sid ` {1..scope_limit cfg ty}"
  proof
    fix k assume "k \<in> scope_slots w ty sid m"
    then obtain d where k: "m k = Some d" "sl_workspace k = w" "sl_scope_type k = ty" "sl_scope_id k = sid"
      by (auto simp: scope_slots_def)
    then have "sl_number k \<in> {1..scope_limit cfg ty}" using assms by (fastforce simp: slots_in_range_def)
    moreover have "k = scope_key w ty sid (sl_number k)" using k by (simp add: scope_key_def)
    ultimately show "k \<in> scope_key w ty sid ` {1..scope_limit cfg ty}" by blast
  qed
  then have "card (scope_slots w ty sid m) \<le> card (scope_key w ty sid ` {1..scope_limit cfg ty})"
    by (rule card_mono [rotated]) simp
  also have "\<dots> \<le> scope_limit cfg ty" using card_image_le [of "{1..scope_limit cfg ty}"] by simp
  finally show ?thesis .
qed

lemma exec_capacities_in_range:
  assumes "slot_store S view" and "\<And>i db. slots_in_range cfg (view db) \<Longrightarrow> slots_in_range cfg (view (env i db))"
    and "slots_in_range cfg (view db)"
  shows "slots_in_range cfg (view (exec_capacities S env cfg cs db))"
  using assms(3)
proof (induction cs arbitrary: db)
  case (Cons cmd cs)
  have "slots_in_range cfg (view (exec_capacity S env cfg cmd db))"
    by (rule exec_capacity_in_range [OF assms(1) _ Cons.prems]) (rule assms(2))
  from Cons.IH [OF this] show ?case by (simp add: exec_capacities_def)
qed (simp add: exec_capacities_def)

text \<open>\<open>granted_until S env cfg t db cs w ty sid l\<close>: in the run \<open>cs\<close> an acquisition for the workspace \<open>w\<close> (and, for the scope of
  connections, for the connection \<open>sid\<close>) granted the lease \<open>l\<close> beyond the time \<open>t\<close>, and the rest of the run up to \<open>t\<close> did not
  release it or cut it short.\<close>

definition granted_until ::
  "'db slot_ops \<Rightarrow> (nat \<Rightarrow> 'db \<Rightarrow> 'db) \<Rightarrow> capacity_config \<Rightarrow> int \<Rightarrow> 'db \<Rightarrow> capacity_command list \<Rightarrow> string \<Rightarrow> scope_type \<Rightarrow>
   string \<Rightarrow> string \<Rightarrow> bool" where
  "granted_until S env cfg t db cs w ty sid l \<longleftrightarrow>
     (\<exists>before c iv now rest cl. cs = before @ Do_Acquire w c iv l now # rest
        \<and> fst (acquireRuntimeCapacity S env cfg True w c iv l now (exec_capacities S env cfg before db)) = Inr (Some cl)
        \<and> t < cl_expires_at cl \<and> list_all (sparing_command cfg l t) rest
        \<and> sid = (case ty of Workspace_Scope \<Rightarrow> w | Connection_Scope \<Rightarrow> c))"

lemma granted_untilI:
  assumes "cs = before @ Do_Acquire w c iv l now # rest"
    and "fst (acquireRuntimeCapacity S env cfg True w c iv l now (exec_capacities S env cfg before db)) = Inr (Some cl)"
    and "t < cl_expires_at cl" "list_all (sparing_command cfg l t) rest" "sid = (case ty of Workspace_Scope \<Rightarrow> w | Connection_Scope \<Rightarrow> c)"
  shows "granted_until S env cfg t db cs w ty sid l"
  using assms unfolding granted_until_def by blast

lemma granted_slot:
  assumes S: "slot_store S view" and env: "\<And>i db. keeps_live l t (view db) (view (env i db))"
    and "granted_until S env cfg t db cs w ty sid l"
  shows "\<exists>i. live_slot l t (scope_key w ty sid i) (view (exec_capacities S env cfg cs db))"
proof -
  obtain before c iv now rest cl where cs: "cs = before @ Do_Acquire w c iv l now # rest"
    and a: "fst (acquireRuntimeCapacity S env cfg True w c iv l now (exec_capacities S env cfg before db)) = Inr (Some cl)"
    and r: "t < cl_expires_at cl" "list_all (sparing_command cfg l t) rest"
    and sid: "sid = (case ty of Workspace_Scope \<Rightarrow> w | Connection_Scope \<Rightarrow> c)"
    using assms(3) by (auto simp: granted_until_def)
  let ?db = "snd (acquireRuntimeCapacity S env cfg True w c iv l now (exec_capacities S env cfg before db))"
  have "acquireRuntimeCapacity S env cfg True w c iv l now (exec_capacities S env cfg before db) = (Inr (Some cl), ?db)"
    using a by (metis prod.collapse)
  from acquired_lease_is_live [OF S env this r(1)] obtain i j where
    "live_slot l t (scope_key w Workspace_Scope w i) (view ?db)" "live_slot l t (scope_key w Connection_Scope c j) (view ?db)" by blast
  then have "live_slot l t (scope_key w ty sid (case ty of Workspace_Scope \<Rightarrow> i | Connection_Scope \<Rightarrow> j)) (view ?db)"
    unfolding sid by (cases ty; simp)
  then have "live_slot l t (scope_key w ty sid (case ty of Workspace_Scope \<Rightarrow> i | Connection_Scope \<Rightarrow> j))
      (view (exec_capacities S env cfg rest ?db))" by (rule exec_capacities_keep_live [OF S env r(2)])
  moreover have "exec_capacities S env cfg cs db = exec_capacities S env cfg rest ?db" by (simp add: cs exec_capacities_def)
  ultimately show ?thesis by metis
qed

text \<open>
  C25: the concurrency limits hold: of the leases that the acquisitions of a run granted for a workspace, and of those for
  a connection, at most the limit are in force at any time. The run is any sequence of acquisitions, renewals and releases, with
  other requests between their database calls, which may do anything that keeps the slot numbers within the limits
  and the slots of the leases counted here.
\<close>

theorem capacity_never_exceeded:
  assumes "slot_store S view" and "\<And>i db. slots_in_range cfg (view db) \<Longrightarrow> slots_in_range cfg (view (env i db))"
    and "slots_in_range cfg (view db)"
    and "\<And>l i db. l \<in> L \<Longrightarrow> keeps_live l t (view db) (view (env i db))"
    and "\<And>l. l \<in> L \<Longrightarrow> granted_until S env cfg t db cs w ty sid l"
  shows "finite L \<and> card L \<le> scope_limit cfg ty"
proof -
  let ?m = "view (exec_capacities S env cfg cs db)"
  have range: "slots_in_range cfg ?m" using assms(1-3) by (rule exec_capacities_in_range)
  have fin: "finite (scope_slots w ty sid ?m)"
    by (rule finite_subset [OF _ slot_store.finite_slots [OF assms(1)]]) (auto simp: scope_slots_def)
  have "L \<subseteq> (\<lambda>k. so_lease (the (?m k))) ` scope_slots w ty sid ?m"
  proof
    fix l assume l: "l \<in> L"
    with granted_slot [OF assms(1,4,5)] obtain i where "live_slot l t (scope_key w ty sid i) ?m" by blast
    then show "l \<in> (\<lambda>k. so_lease (the (?m k))) ` scope_slots w ty sid ?m"
      by (force simp: live_slot_def scope_slots_def image_iff)
  qed
  then have "finite L" "card L \<le> card (scope_slots w ty sid ?m)"
    using fin by (blast intro: finite_surj surj_card_le)+
  with scope_slots_bound [OF range, of w ty sid] show ?thesis by simp
qed

definition sample_capacity :: capacity_config where
  "sample_capacity = \<lparr>cap_workspace_limit = 2, cap_connection_limit = 1, cap_lease_ms = 5000\<rparr>"

definition sample_commands :: "capacity_command list" where
  "sample_commands =
     [Do_Acquire ''w'' ''c1'' ''i1'' ''l1'' 0, Do_Acquire ''w'' ''c1'' ''i2'' ''l2'' 10,
      Do_Acquire ''w'' ''c2'' ''i3'' ''l3'' 20, Do_Acquire ''w'' ''c3'' ''i4'' ''l4'' 30]"

theorem capacity_never_exceeded_witness:
  "card {''l1'', ''l3''} \<le> scope_limit sample_capacity Workspace_Scope \<and>
   granted_until alist_slots alone sample_capacity 30 [] sample_commands ''w'' Workspace_Scope ''w'' ''l1'' \<and>
   granted_until alist_slots alone sample_capacity 30 [] sample_commands ''w'' Workspace_Scope ''w'' ''l3'' \<and>
   isl (fst (acquireRuntimeCapacity alist_slots alone sample_capacity True ''w'' ''c3'' ''i4'' ''l4'' 30
     (exec_capacities alist_slots alone sample_capacity (take 3 sample_commands) [])))"
proof -
  let ?before1 = "[]" and ?rest1 = "tl sample_commands"
  let ?before3 = "take 2 sample_commands" and ?rest3 = "drop 3 sample_commands"
  have a1: "fst (acquireRuntimeCapacity alist_slots alone sample_capacity True ''w'' ''c1'' ''i1'' ''l1'' 0
      (exec_capacities alist_slots alone sample_capacity ?before1 [])) = Inr (Some \<lparr>cl_workspace = ''w'', cl_connection = ''c1'',
        cl_invocation = ''i1'', cl_lease = ''l1'', cl_expires_at = 5000\<rparr>)" by code_simp
  have a3: "fst (acquireRuntimeCapacity alist_slots alone sample_capacity True ''w'' ''c2'' ''i3'' ''l3'' 20
      (exec_capacities alist_slots alone sample_capacity ?before3 [])) = Inr (Some \<lparr>cl_workspace = ''w'', cl_connection = ''c2'',
        cl_invocation = ''i3'', cl_lease = ''l3'', cl_expires_at = 5020\<rparr>)" by code_simp
  have a4: "isl (fst (acquireRuntimeCapacity alist_slots alone sample_capacity True ''w'' ''c3'' ''i4'' ''l4'' 30
      (exec_capacities alist_slots alone sample_capacity (take 3 sample_commands) [])))" by code_simp
  have g1: "granted_until alist_slots alone sample_capacity 30 [] sample_commands ''w'' Workspace_Scope ''w'' ''l1''"
    by (rule granted_untilI [OF _ a1, where rest = ?rest1]) (simp_all add: sample_commands_def)
  have g3: "granted_until alist_slots alone sample_capacity 30 [] sample_commands ''w'' Workspace_Scope ''w'' ''l3''"
    by (rule granted_untilI [OF _ a3, where rest = ?rest3]) (simp_all add: sample_commands_def)
  have r: "slots_in_range sample_capacity (map_of [])" by (simp add: slots_in_range_def)
  have "finite {''l1'', ''l3''} \<and> card {''l1'', ''l3''} \<le> scope_limit sample_capacity Workspace_Scope"
    by (rule capacity_never_exceeded [OF alist_slots_is_slot_store _ r, where t = 30 and env = alone and cs = sample_commands
        and w = "''w''" and sid = "''w''"])
      (use g1 g3 in \<open>auto simp: alone_def keeps_live_def\<close>)
  with g1 g3 a4 show ?thesis by blast
qed

text \<open>
  A lease that is still running at time \<open>t\<close> keeps its slots: no acquisition by another lease at a time up
  to \<open>t\<close>, no renewal or release of another lease, and no interference of the same kind takes or changes
  them.
\<close>

theorem live_lease_keeps_its_slots:
  assumes "slot_store S view" and "\<And>i db. keeps_lease l t (view db) (view (env i db))"
    and "list_all (foreign_command l t) cs"
    and "view db k = Some d" "so_lease d = l" "t < so_expires_at d"
  shows "view (exec_capacities S env cfg cs db) k = Some d"
proof -
  have "keeps_lease l t (view db) (view (exec_capacities S env cfg cs db))"
    using assms(3)
  proof (induction cs arbitrary: db)
    case (Cons cmd cs)
    have "keeps_lease l t (view db) (view (exec_capacity S env cfg cmd db))"
      by (rule exec_capacity_keeps_lease [OF assms(1)]) (use assms(2) Cons.prems in auto)
    moreover have "keeps_lease l t (view (exec_capacity S env cfg cmd db))
        (view (exec_capacities S env cfg cs (exec_capacity S env cfg cmd db)))"
      using Cons by simp
    ultimately show ?case by (simp add: exec_capacities_def) (rule keeps_lease_trans)
  qed (simp add: exec_capacities_def)
  with assms(4-6) show ?thesis by (simp add: keeps_lease_def)
qed

theorem live_lease_keeps_its_slots_witness:
  "map_of (exec_capacities alist_slots alone sample_capacity
     [Do_Acquire ''w'' ''c1'' ''i2'' ''l2'' 100, Do_Acquire ''w'' ''c2'' ''i3'' ''l3'' 200]
     [(scope_key ''w'' Connection_Scope ''c1'' 1,
       \<lparr>so_connection = ''c1'', so_invocation = ''i1'', so_lease = ''l1'', so_acquired_at = 0, so_expires_at = 5000\<rparr>)])
     (scope_key ''w'' Connection_Scope ''c1'' 1) =
   Some \<lparr>so_connection = ''c1'', so_invocation = ''i1'', so_lease = ''l1'', so_acquired_at = 0, so_expires_at = 5000\<rparr>"
  by (rule live_lease_keeps_its_slots [OF alist_slots_is_slot_store, where l = "''l1''" and t = 4000])
    (simp_all add: alone_def)

text \<open>A free slot of a scope, and the lease an acquisition asks for.\<close>

definition has_free_slot ::
  "string \<Rightarrow> scope_type \<Rightarrow> string \<Rightarrow> nat \<Rightarrow> string \<Rightarrow> int \<Rightarrow> (slot_key \<Rightarrow> slot option) \<Rightarrow> bool" where
  "has_free_slot w ty sid limit l now m \<longleftrightarrow>
     (\<exists>i\<in>{1..limit}. \<forall>d. m (scope_key w ty sid i) = Some d \<longrightarrow> so_expires_at d \<le> now \<or> so_lease d = l)"

lemma not_has_free_slot:
  assumes "\<forall>i\<in>{1..<1 + limit}. \<exists>d. m (scope_key w ty sid i) = Some d \<and>
    \<not> claimable_slot \<lparr>le_id = l, le_invocation = iv, le_connection = c, le_expires_at = t\<rparr> now d"
  shows "\<not> has_free_slot w ty sid limit l now m"
  using assms by (auto simp: has_free_slot_def claimable_slot_def atLeastLessThanSuc_atLeastAtMost)

lemma has_free_slotI:
  assumes "i \<in> {1..<1 + limit}" "\<forall>d. m (scope_key w ty sid i) = Some d \<longrightarrow>
    claimable_slot \<lparr>le_id = l, le_invocation = iv, le_connection = c, le_expires_at = t\<rparr> now d"
  shows "has_free_slot w ty sid limit l now m"
  using assms by (auto simp: has_free_slot_def claimable_slot_def)

text \<open>
  Without interference an acquisition succeeds exactly when the workspace and the connection both have a
  slot that is free, expired or the lease's own; it then holds one slot of each until its expiry and changes
  nothing else; if it fails no slot of the lease is left in the workspace, slots of other leases that are
  still running are untouched, and the error names the scope that is full.
\<close>

theorem acquire_contract:
  assumes "slot_store S view"
    and "acquireRuntimeCapacity S alone cfg True w c iv l now db = (r, db')"
  defines "s \<equiv> \<lparr>so_connection = c, so_invocation = iv, so_lease = l, so_acquired_at = now,
      so_expires_at = now + cap_lease_ms cfg\<rparr>"
    and "fw \<equiv> has_free_slot w Workspace_Scope w (cap_workspace_limit cfg) l now (view db)"
    and "fc \<equiv> has_free_slot w Connection_Scope c (cap_connection_limit cfg) l now (view db)"
  shows "case r of
      Inl e \<Rightarrow> e = capacity_exceeded cfg c
          (if fw then CONNECTION_CAPACITY_EXCEEDED else WORKSPACE_CAPACITY_EXCEEDED) \<and> \<not> (fw \<and> fc) \<and>
        (if fw then matching (of_lease w l) (view db') = {} else db' = db) \<and>
        (\<forall>k d. view db k = Some d \<longrightarrow> so_lease d \<noteq> l \<longrightarrow> now < so_expires_at d \<longrightarrow> view db' k = Some d)
    | Inr res \<Rightarrow> fw \<and> fc \<and>
        res = Some \<lparr>cl_workspace = w, cl_connection = c, cl_invocation = iv, cl_lease = l,
          cl_expires_at = now + cap_lease_ms cfg\<rparr> \<and>
        (\<exists>i\<in>{1..cap_workspace_limit cfg}. \<exists>j\<in>{1..cap_connection_limit cfg}.
          view db' = (view db)(scope_key w Workspace_Scope w i \<mapsto> s, scope_key w Connection_Scope c j \<mapsto> s) \<and>
          (\<forall>k\<in>{scope_key w Workspace_Scope w i, scope_key w Connection_Scope c j}.
             \<forall>d. view db k = Some d \<longrightarrow> so_expires_at d \<le> now \<or> so_lease d = l))"
proof -
  note S = assms(1)
  let ?le = "\<lparr>le_id = l, le_invocation = iv, le_connection = c, le_expires_at = now + cap_lease_ms cfg\<rparr>"
  have s: "leased_slot ?le now = s" by (simp add: leased_slot_def s_def)
  obtain r1 db1 where c1: "claimScopeSlot S alone w Workspace_Scope w (cap_workspace_limit cfg) ?le now db = (r1, db1)"
    by fastforce
  obtain r2 db2 where c2: "claimScopeSlot S alone w Connection_Scope c (cap_connection_limit cfg) ?le now db1 = (r2, db2)"
    by fastforce
  note a = assms(2) [unfolded acquireRuntimeCapacity_def alone_shift Let_def c1]
  show ?thesis
  proof (rule claim_from_alone [OF S c1 [unfolded claimScopeSlot_def]], goal_cases full claimed)
    case full
    then have "\<not> fw" unfolding fw_def by (intro not_has_free_slot)
    with full a show ?thesis by auto
  next
    case (claimed i)
    have fw: fw unfolding fw_def using claimed(1,4) by (intro has_free_slotI)
    have same: "view db1 (scope_key w Connection_Scope c j) = view db (scope_key w Connection_Scope c j)" for j
      using claimed(3) by simp
    note a2 = a [unfolded claimed(2) prod.case option.case c2]
    show ?thesis
    proof (rule claim_from_alone [OF S c2 [unfolded claimScopeSlot_def]], goal_cases full claimed)
      case full
      then have "\<not> fc" unfolding fc_def by (intro not_has_free_slot) (simp only: same)
      have r: "r = Inl (capacity_exceeded cfg c CONNECTION_CAPACITY_EXCEEDED)"
        and db': "db' = snd (slot_delete_many S (of_lease w l) db1)"
        using a2 full(1,2) by (auto simp: alone_def)
      have gone: "matching (of_lease w l) (view db') = {}"
        by (auto simp: db' matching_def slot_store.delete_view [OF S] split: option.splits if_splits)
      have kept: "view db' k = Some d"
        if "view db k = Some d" "so_lease d \<noteq> l" "now < so_expires_at d" for k d
        using that claimed(3,4)
        by (cases "k = scope_key w Workspace_Scope w i")
          (auto simp: db' slot_store.delete_view [OF S] of_lease_def claimable_slot_def)
      show ?thesis using \<open>\<not> fc\<close> fw r gone kept by auto
    next
      case c3: (claimed j)
      have fc: fc
        unfolding fc_def using c3(1) c3(4) [unfolded same] by (intro has_free_slotI)
      have r: "r = Inr (Some \<lparr>cl_workspace = w, cl_connection = c, cl_invocation = iv, cl_lease = l,
          cl_expires_at = now + cap_lease_ms cfg\<rparr>)" and db': "db' = db2"
        using a2 c3(2) by auto
      have v: "view db' = (view db)(scope_key w Workspace_Scope w i \<mapsto> s, scope_key w Connection_Scope c j \<mapsto> s)"
        using claimed(3) c3(3) s db' by simp
      have "i \<in> {1..cap_workspace_limit cfg}" "j \<in> {1..cap_connection_limit cfg}"
        using claimed(1) c3(1) by auto
      moreover have "\<forall>k\<in>{scope_key w Workspace_Scope w i, scope_key w Connection_Scope c j}.
             \<forall>d. view db k = Some d \<longrightarrow> so_expires_at d \<le> now \<or> so_lease d = l"
        using claimed(4) c3(4) by (simp add: same claimable_slot_def)
      ultimately show ?thesis unfolding r sum.case using fw fc v by blast
    qed
  qed
qed

theorem acquire_contract_witness:
  "\<exists>db'. acquireRuntimeCapacity alist_slots alone sample_capacity True ''w'' ''c1'' ''i2'' ''l2'' 10
      (exec_capacities alist_slots alone sample_capacity [Do_Acquire ''w'' ''c1'' ''i1'' ''l1'' 0] []) =
      (Inl (capacity_exceeded sample_capacity ''c1'' CONNECTION_CAPACITY_EXCEEDED), db') \<and>
    matching (of_lease ''w'' ''l2'') (map_of db') = {}"
proof -
  define db where "db = exec_capacities alist_slots alone sample_capacity [Do_Acquire ''w'' ''c1'' ''i1'' ''l1'' 0] []"
  let ?e = "capacity_exceeded sample_capacity ''c1'' CONNECTION_CAPACITY_EXCEEDED"
  obtain r db' where p: "acquireRuntimeCapacity alist_slots alone sample_capacity True ''w'' ''c1'' ''i2'' ''l2'' 10 db =
     (r, db')" by fastforce
  have "fst (acquireRuntimeCapacity alist_slots alone sample_capacity True ''w'' ''c1'' ''i2'' ''l2'' 10 db) = Inl ?e"
    unfolding db_def by code_simp
  with p have r: "r = Inl ?e" by simp
  have "matching (of_lease ''w'' ''l2'') (map_of db') = {}"
    using acquire_contract [OF alist_slots_is_slot_store p] unfolding r sum.case
    by (auto simp: capacity_exceeded_def split: if_splits)
  then show ?thesis using p r unfolding db_def by blast
qed

text \<open>
  C26: acquiring with a fresh lease and releasing it again is a round trip: exactly two slots are released,
  no slot of the lease is left, and every other slot is as before, but for expired ones the
  acquisition took over.
\<close>

theorem acquire_release_roundtrip:
  assumes "slot_store S view"
    and "acquireRuntimeCapacity S alone cfg True w c iv l now db = (Inr (Some cl), db1)"
    and "matching (of_lease w l) (view db) = {}"
    and "releaseRuntimeCapacity S True (Some cl) db1 = (n, db2)"
  shows "n = 2 \<and> matching (of_lease w l) (view db2) = {} \<and>
    (\<forall>k. view db2 k = view db k \<or>
       (\<exists>d. view db k = Some d \<and> so_expires_at d \<le> now \<and> view db2 k = None))"
proof -
  note S = assms(1)
  let ?s = "\<lparr>so_connection = c, so_invocation = iv, so_lease = l, so_acquired_at = now,
      so_expires_at = now + cap_lease_ms cfg\<rparr>"
  from acquire_contract [OF S assms(2), unfolded sum.case] obtain i j where
    v: "view db1 = (view db)(scope_key w Workspace_Scope w i \<mapsto> ?s, scope_key w Connection_Scope c j \<mapsto> ?s)"
    and old: "\<forall>k\<in>{scope_key w Workspace_Scope w i, scope_key w Connection_Scope c j}.
       \<forall>d. view db k = Some d \<longrightarrow> so_expires_at d \<le> now \<or> so_lease d = l"
    and cl: "cl_workspace cl = w" "cl_lease cl = l" by auto
  have rel: "n = fst (slot_delete_many S (of_lease w l) db1)" "db2 = snd (slot_delete_many S (of_lease w l) db1)"
    using assms(4) cl by (simp_all add: releaseRuntimeCapacity_def)
  have none: "view db k = Some d \<Longrightarrow> sl_workspace k = w \<Longrightarrow> so_lease d \<noteq> l" for k d
    using assms(3) by (auto simp: matching_def of_lease_def)
  have "matching (of_lease w l) (view db1) = {scope_key w Workspace_Scope w i, scope_key w Connection_Scope c j}"
    using none by (auto simp: matching_def of_lease_def v split: if_splits)
  then have "n = 2" using rel(1) by (simp add: slot_store.delete_count [OF S])
  moreover have "matching (of_lease w l) (view db2) = {}"
    by (auto simp: rel matching_def slot_store.delete_view [OF S] split: option.splits if_splits)
  moreover have "view db2 k = view db k \<or>
       (\<exists>d. view db k = Some d \<and> so_expires_at d \<le> now \<and> view db2 k = None)" for k
  proof (cases "k \<in> {scope_key w Workspace_Scope w i, scope_key w Connection_Scope c j}")
    case True
    then have "view db2 k = None"
      by (auto simp: rel slot_store.delete_view [OF S] v of_lease_def)
    then show ?thesis using old True none by (cases "view db k") auto
  next
    case False
    then have "view db1 k = view db k" by (simp add: v)
    then show ?thesis
      using none by (cases "view db k") (auto simp: rel slot_store.delete_view [OF S] of_lease_def)
  qed
  ultimately show ?thesis by blast
qed

theorem acquire_release_roundtrip_witness:
  "\<exists>cl db1 db2. acquireRuntimeCapacity alist_slots alone sample_capacity True ''w'' ''c1'' ''i1'' ''l1'' 0 [] =
      (Inr (Some cl), db1) \<and> releaseRuntimeCapacity alist_slots True (Some cl) db1 = (2, db2) \<and>
    matching (of_lease ''w'' ''l1'') (map_of db2) = {}"
proof -
  let ?cl = "\<lparr>cl_workspace = ''w'', cl_connection = ''c1'', cl_invocation = ''i1'', cl_lease = ''l1'',
     cl_expires_at = 5000\<rparr>"
  let ?a = "acquireRuntimeCapacity alist_slots alone sample_capacity True ''w'' ''c1'' ''i1'' ''l1'' 0 []"
  have e: "fst ?a = Inr (Some ?cl)" by code_simp
  then have p: "?a = (Inr (Some ?cl), snd ?a)" by (metis prod.collapse)
  have f: "matching (of_lease ''w'' ''l1'') (map_of []) = {}" by (simp add: matching_def)
  obtain n db2 where r: "releaseRuntimeCapacity alist_slots True (Some ?cl) (snd ?a) = (n, db2)" by fastforce
  from acquire_release_roundtrip [OF alist_slots_is_slot_store p f r] p r show ?thesis by blast
qed

text \<open>
  A lease obtained with a fresh id can be renewed at every time before it expires, which extends both
  its slots, and at no later time, when it reports the loss and changes nothing.
\<close>

theorem acquired_lease_renewable:
  assumes "slot_store S view"
    and "acquireRuntimeCapacity S alone cfg True w c iv l now db = (Inr (Some cl), db1)"
    and "matching (of_lease w l) (view db) = {}"
    and "renewRuntimeCapacity S cfg True (Some cl) duration now' db1 = (r, db2)"
  shows "if now' < now + cap_lease_ms cfg
    then r = Some (cl\<lparr>cl_expires_at := renewal_expiry cfg duration now'\<rparr>) \<and>
      (\<forall>k d. view db1 k = Some d \<longrightarrow> of_lease w l k d \<longrightarrow>
         view db2 k = Some (d\<lparr>so_expires_at := renewal_expiry cfg duration now'\<rparr>))
    else r = None \<and> view db2 = view db1"
proof -
  note S = assms(1)
  let ?s = "\<lparr>so_connection = c, so_invocation = iv, so_lease = l, so_acquired_at = now,
      so_expires_at = now + cap_lease_ms cfg\<rparr>"
  from acquire_contract [OF S assms(2), unfolded sum.case] obtain i j where
    v: "view db1 = (view db)(scope_key w Workspace_Scope w i \<mapsto> ?s, scope_key w Connection_Scope c j \<mapsto> ?s)"
    and cl: "cl_workspace cl = w" "cl_lease cl = l" "cl_invocation cl = iv" by auto
  have none: "view db k = Some d \<Longrightarrow> sl_workspace k = w \<Longrightarrow> so_lease d \<noteq> l" for k d
    using assms(3) by (auto simp: matching_def of_lease_def)
  have m: "matching (renewable cl now') (view db1) =
      (if now' < now + cap_lease_ms cfg
       then {scope_key w Workspace_Scope w i, scope_key w Connection_Scope c j} else {})"
    using none by (auto simp: matching_def renewable_def v cl split: if_splits)
  let ?u = "slot_update_many S (renewable cl now') (\<lambda>s. s\<lparr>so_expires_at := renewal_expiry cfg duration now'\<rparr>) db1"
  have n: "fst ?u = (if now' < now + cap_lease_ms cfg then 2 else 0)"
    by (simp add: slot_store.update_count [OF S] m)
  have r: "r = (if fst ?u < 2 then None else Some (cl\<lparr>cl_expires_at := renewal_expiry cfg duration now'\<rparr>))"
    "db2 = snd ?u"
    using assms(4) renew_result [of S cfg cl duration now' db1] by simp_all
  show ?thesis
  proof (cases "now' < now + cap_lease_ms cfg")
    case True
    have "d = ?s" if "view db1 k = Some d" "of_lease w l k d" for k d
    proof -
      have "Some d = Some ?s \<or> view db k = Some d" using that(1) unfolding v fun_upd_apply by (metis (no_types))
      with that(2) none show ?thesis by (auto simp: of_lease_def)
    qed
    with True have "renewable cl now' k d" if "view db1 k = Some d" "of_lease w l k d" for k d
      using that(2) \<open>\<And>k d. view db1 k = Some d \<Longrightarrow> of_lease w l k d \<Longrightarrow> d = ?s\<close> [OF that]
      by (simp add: renewable_def of_lease_def cl)
    then show ?thesis using True r n by (auto simp: slot_store.update_view [OF S])
  next
    case False
    then have "\<not> renewable cl now' k d" if "view db1 k = Some d" for k d
      using that m by (auto simp: matching_def)
    then have "view db2 = view db1"
      by (intro ext) (auto simp: r slot_store.update_view [OF S] split: option.splits)
    then show ?thesis using False r n by simp
  qed
qed

theorem acquired_lease_renewable_witness:
  "\<exists>cl db1 db2. acquireRuntimeCapacity alist_slots alone sample_capacity True ''w'' ''c1'' ''i1'' ''l1'' 0 [] =
      (Inr (Some cl), db1) \<and>
    renewRuntimeCapacity alist_slots sample_capacity True (Some cl) None 3000 db1 =
      (Some (cl\<lparr>cl_expires_at := 8000\<rparr>), db2)"
proof -
  let ?cl = "\<lparr>cl_workspace = ''w'', cl_connection = ''c1'', cl_invocation = ''i1'', cl_lease = ''l1'',
     cl_expires_at = 5000\<rparr>"
  let ?a = "acquireRuntimeCapacity alist_slots alone sample_capacity True ''w'' ''c1'' ''i1'' ''l1'' 0 []"
  have e: "fst ?a = Inr (Some ?cl)" by code_simp
  then have p: "?a = (Inr (Some ?cl), snd ?a)" by (metis prod.collapse)
  have f: "matching (of_lease ''w'' ''l1'') (map_of []) = {}" by (simp add: matching_def)
  obtain r db2 where r: "renewRuntimeCapacity alist_slots sample_capacity True (Some ?cl) None 3000 (snd ?a) = (r, db2)"
    by fastforce
  have t: "(3000::int) < 0 + cap_lease_ms sample_capacity" "renewal_expiry sample_capacity None 3000 = 8000"
    by (simp_all add: sample_capacity_def renewal_expiry_def)
  have "r = Some (?cl\<lparr>cl_expires_at := 8000\<rparr>)"
    using acquired_lease_renewable [OF alist_slots_is_slot_store p f r] unfolding t(2) if_P [OF t(1)] by (rule conjunct1)
  with p r show ?thesis by blast
qed

end
