(* ===== verification/Regional_Core.thy ===== *)
theory Regional_Core
  imports Json Transition_Table "HOL-Library.List_Lexorder" "HOL-Library.Char_ord"
begin

text \<open>
  backend/src/constants/regionalResilience.js and backend/src/services/regionalResilienceCore.service.js: the
  pure core of multi-region operation. Configuration and policy validation, replication health and recovery
  objectives, data residency, routing, admission, worker eligibility, failover plans, and the failover and restore
  state machines. Enumerated values that arrive as strings stay strings.
\<close>

subsection \<open>Constants\<close>

definition REGIONAL_ROLES :: "string list" where
  "REGIONAL_ROLES = [''primary'', ''warm_standby'', ''cold_standby'', ''read_only'', ''isolated'', ''disabled'']"

definition REGIONAL_STATES :: "string list" where
  "REGIONAL_STATES =
     [''initializing'', ''healthy'', ''degraded'', ''unavailable'', ''isolated'', ''draining'', ''maintenance'',
      ''failover_candidate'', ''promoted'', ''demoted'', ''recovery_required'', ''disabled'']"

definition VERSION_STATUSES :: "string list" where
  "VERSION_STATUSES = [''draft'', ''active'', ''archived'']"

definition REPLICATION_DOMAINS :: "string list" where
  "REPLICATION_DOMAINS = [''authority'', ''operational'', ''projection'', ''cache'', ''backup'']"

definition CRITICALITIES :: "string list" where
  "CRITICALITIES = [''standard'', ''important'', ''critical'']"

definition DEGRADED_MODES :: "string list" where
  "DEGRADED_MODES = [''disabled'', ''read_only'', ''queue_only'', ''restricted_operations'']"

definition FAILOVER_TYPES :: "string list" where
  "FAILOVER_TYPES = [''planned_switchover'', ''emergency_failover'', ''disaster_recovery'', ''test_drill'']"

definition FAILOVER_TRIGGERS :: "string list" where
  "FAILOVER_TRIGGERS =
     [''operator'', ''health_failure'', ''database_failure'', ''regional_outage'', ''security_incident'',
      ''scheduled_drill'']"

definition PLANNED_SWITCHOVER_STEPS :: "string list" where
  "PLANNED_SWITCHOVER_STEPS =
     [''validate_configuration'', ''require_approval'', ''freeze_admission'', ''drain_source'',
      ''wait_safe_claim_boundary'', ''verify_replication'', ''verify_target_readiness'',
      ''freeze_source_authority'', ''transfer_authority'', ''transfer_queues'',
      ''invalidate_caches'', ''activate_target_workers'', ''resume_recovery'', ''resume_admission'',
      ''rebuild_projections'', ''verify_health'', ''update_incident'']"

definition EMERGENCY_FAILOVER_STEPS :: "string list" where
  "EMERGENCY_FAILOVER_STEPS =
     [''validate_configuration'', ''link_incident'', ''require_approval'', ''freeze_admission'',
      ''verify_replication'', ''accept_potential_data_loss'', ''fence_source'', ''transfer_authority'',
      ''transfer_queues'', ''invalidate_caches'', ''activate_target_workers'', ''resume_recovery'',
      ''rebuild_projections'', ''verify_health'', ''resume_admission'']"

definition CONSISTENCY_CLASSES :: "string list" where
  "CONSISTENCY_CLASSES = [''strong_authority'', ''versioned_immutable'', ''eventual_projection'']"

definition max_regions :: nat where "max_regions = 16"
definition max_region_priority :: int where "max_region_priority = 1000"
definition max_safe_list_entries :: nat where "max_safe_list_entries = 32"
definition max_duration_ms :: int where "max_duration_ms = 365 * 24 * 60 * 60 * 1000"
definition min_lease_ms :: int where "min_lease_ms = 5000"
definition max_lease_ms :: int where "max_lease_ms = 3600000"

subsection \<open>The failover and restore state machines\<close>

datatype failover_state =
    FO_Requested | FO_Validating | FO_Approval_Required | FO_Approved | FO_Freezing_Admission
  | FO_Draining_Source | FO_Verifying_Replication | FO_Fencing_Source | FO_Transferring_Authority
  | FO_Transferring_Queues | FO_Activating_Target | FO_Rebuilding_Projections | FO_Validating_Target
  | FO_Succeeded | FO_Partial | FO_Failed | FO_Paused | FO_Cancelled | FO_Rollback_Required

fun failover_name :: "failover_state \<Rightarrow> string" where
  "failover_name FO_Requested = ''requested''"
| "failover_name FO_Validating = ''validating''"
| "failover_name FO_Approval_Required = ''approval_required''"
| "failover_name FO_Approved = ''approved''"
| "failover_name FO_Freezing_Admission = ''freezing_admission''"
| "failover_name FO_Draining_Source = ''draining_source''"
| "failover_name FO_Verifying_Replication = ''verifying_replication''"
| "failover_name FO_Fencing_Source = ''fencing_source''"
| "failover_name FO_Transferring_Authority = ''transferring_authority''"
| "failover_name FO_Transferring_Queues = ''transferring_queues''"
| "failover_name FO_Activating_Target = ''activating_target''"
| "failover_name FO_Rebuilding_Projections = ''rebuilding_projections''"
| "failover_name FO_Validating_Target = ''validating_target''"
| "failover_name FO_Succeeded = ''succeeded''"
| "failover_name FO_Partial = ''partial''"
| "failover_name FO_Failed = ''failed''"
| "failover_name FO_Paused = ''paused''"
| "failover_name FO_Cancelled = ''cancelled''"
| "failover_name FO_Rollback_Required = ''rollback_required''"

definition FAILOVER_STATES :: "failover_state list" where
  "FAILOVER_STATES =
     [FO_Requested, FO_Validating, FO_Approval_Required, FO_Approved, FO_Freezing_Admission,
      FO_Draining_Source, FO_Verifying_Replication, FO_Fencing_Source, FO_Transferring_Authority,
      FO_Transferring_Queues, FO_Activating_Target, FO_Rebuilding_Projections, FO_Validating_Target,
      FO_Succeeded, FO_Partial, FO_Failed, FO_Paused, FO_Cancelled, FO_Rollback_Required]"

fun FAILOVER_TRANSITIONS :: "failover_state \<Rightarrow> failover_state list" where
  "FAILOVER_TRANSITIONS FO_Requested = [FO_Validating, FO_Cancelled, FO_Failed]"
| "FAILOVER_TRANSITIONS FO_Validating = [FO_Approval_Required, FO_Approved, FO_Failed, FO_Paused]"
| "FAILOVER_TRANSITIONS FO_Approval_Required = [FO_Approved, FO_Cancelled, FO_Failed]"
| "FAILOVER_TRANSITIONS FO_Approved = [FO_Freezing_Admission, FO_Cancelled, FO_Paused, FO_Failed]"
| "FAILOVER_TRANSITIONS FO_Freezing_Admission =
     [FO_Draining_Source, FO_Verifying_Replication, FO_Paused, FO_Failed]"
| "FAILOVER_TRANSITIONS FO_Draining_Source = [FO_Verifying_Replication, FO_Paused, FO_Failed]"
| "FAILOVER_TRANSITIONS FO_Verifying_Replication =
     [FO_Fencing_Source, FO_Approval_Required, FO_Paused, FO_Failed]"
| "FAILOVER_TRANSITIONS FO_Fencing_Source =
     [FO_Transferring_Authority, FO_Paused, FO_Failed, FO_Rollback_Required]"
| "FAILOVER_TRANSITIONS FO_Transferring_Authority =
     [FO_Transferring_Queues, FO_Partial, FO_Failed, FO_Rollback_Required]"
| "FAILOVER_TRANSITIONS FO_Transferring_Queues =
     [FO_Activating_Target, FO_Partial, FO_Failed, FO_Rollback_Required]"
| "FAILOVER_TRANSITIONS FO_Activating_Target =
     [FO_Rebuilding_Projections, FO_Validating_Target, FO_Partial, FO_Failed]"
| "FAILOVER_TRANSITIONS FO_Rebuilding_Projections = [FO_Validating_Target, FO_Partial, FO_Failed]"
| "FAILOVER_TRANSITIONS FO_Validating_Target = [FO_Succeeded, FO_Partial, FO_Failed]"
| "FAILOVER_TRANSITIONS FO_Paused =
     [FO_Validating, FO_Approved, FO_Freezing_Admission, FO_Draining_Source, FO_Verifying_Replication,
      FO_Fencing_Source, FO_Cancelled, FO_Failed]"
| "FAILOVER_TRANSITIONS FO_Partial = [FO_Rollback_Required]"
| "FAILOVER_TRANSITIONS FO_Succeeded = []"
| "FAILOVER_TRANSITIONS FO_Failed = []"
| "FAILOVER_TRANSITIONS FO_Cancelled = []"
| "FAILOVER_TRANSITIONS FO_Rollback_Required = []"

datatype restore_state =
    RS_Requested | RS_Approval_Required | RS_Approved | RS_Provisioning_Target | RS_Restoring
  | RS_Validating_Schema | RS_Validating_Indexes | RS_Validating_Integrity | RS_Rebuilding_Projections
  | RS_Ready_For_Promotion | RS_Promoted | RS_Failed | RS_Cancelled | RS_Cleaned_Up

fun restore_name :: "restore_state \<Rightarrow> string" where
  "restore_name RS_Requested = ''requested''"
| "restore_name RS_Approval_Required = ''approval_required''"
| "restore_name RS_Approved = ''approved''"
| "restore_name RS_Provisioning_Target = ''provisioning_target''"
| "restore_name RS_Restoring = ''restoring''"
| "restore_name RS_Validating_Schema = ''validating_schema''"
| "restore_name RS_Validating_Indexes = ''validating_indexes''"
| "restore_name RS_Validating_Integrity = ''validating_integrity''"
| "restore_name RS_Rebuilding_Projections = ''rebuilding_projections''"
| "restore_name RS_Ready_For_Promotion = ''ready_for_promotion''"
| "restore_name RS_Promoted = ''promoted''"
| "restore_name RS_Failed = ''failed''"
| "restore_name RS_Cancelled = ''cancelled''"
| "restore_name RS_Cleaned_Up = ''cleaned_up''"

definition RESTORE_STATES :: "restore_state list" where
  "RESTORE_STATES =
     [RS_Requested, RS_Approval_Required, RS_Approved, RS_Provisioning_Target, RS_Restoring,
      RS_Validating_Schema, RS_Validating_Indexes, RS_Validating_Integrity, RS_Rebuilding_Projections,
      RS_Ready_For_Promotion, RS_Promoted, RS_Failed, RS_Cancelled, RS_Cleaned_Up]"

fun RESTORE_TRANSITIONS :: "restore_state \<Rightarrow> restore_state list" where
  "RESTORE_TRANSITIONS RS_Requested = [RS_Approval_Required, RS_Approved, RS_Cancelled, RS_Failed]"
| "RESTORE_TRANSITIONS RS_Approval_Required = [RS_Approved, RS_Cancelled, RS_Failed]"
| "RESTORE_TRANSITIONS RS_Approved = [RS_Provisioning_Target, RS_Cancelled, RS_Failed]"
| "RESTORE_TRANSITIONS RS_Provisioning_Target = [RS_Restoring, RS_Cancelled, RS_Failed]"
| "RESTORE_TRANSITIONS RS_Restoring = [RS_Validating_Schema, RS_Failed, RS_Cancelled]"
| "RESTORE_TRANSITIONS RS_Validating_Schema = [RS_Validating_Indexes, RS_Failed]"
| "RESTORE_TRANSITIONS RS_Validating_Indexes = [RS_Validating_Integrity, RS_Failed]"
| "RESTORE_TRANSITIONS RS_Validating_Integrity =
     [RS_Rebuilding_Projections, RS_Ready_For_Promotion, RS_Failed]"
| "RESTORE_TRANSITIONS RS_Rebuilding_Projections = [RS_Ready_For_Promotion, RS_Failed]"
| "RESTORE_TRANSITIONS RS_Ready_For_Promotion = [RS_Promoted, RS_Cleaned_Up, RS_Failed]"
| "RESTORE_TRANSITIONS RS_Promoted = []"
| "RESTORE_TRANSITIONS RS_Failed = [RS_Cleaned_Up]"
| "RESTORE_TRANSITIONS RS_Cancelled = [RS_Cleaned_Up]"
| "RESTORE_TRANSITIONS RS_Cleaned_Up = []"

subsection \<open>Guards\<close>

definition regional_error :: "string \<Rightarrow> app_error" where
  "regional_error path = App_Error 400 ''REGIONAL_RESILIENCE_VALIDATION_FAILED'' path"

text \<open>Keys and values that look like credentials or infrastructure.\<close>

definition SENSITIVE_KEY :: "string \<Rightarrow> bool" where
  "SENSITIVE_KEY key =
     (let k = js_lower key
      in list_ex (js_includes k)
           [''authorization'', ''bearer'', ''credential'', ''password'', ''secret'', ''token'']
         \<or> list_ex (\<lambda>(a, b). some_suffix (starts_with_gap a b) k)
           [(''api'', ''key''), (''connection'', ''string''), (''database'', ''uri''), (''signed'', ''url''),
            (''private'', ''host''), (''environment'', ''variable''), (''process'', ''arg'')])"

definition bearer_char :: "char \<Rightarrow> bool" where
  "bearer_char c \<longleftrightarrow> is_lower c \<or> is_digit c \<or> c \<in> set ''._-''"

definition bearer_token :: "string \<Rightarrow> bool" where
  "bearer_token s \<longleftrightarrow> starts_with s ''bearer'' \<and>
     (case drop 6 s of [] \<Rightarrow> False | c # r \<Rightarrow>
        is_space c \<and> (case dropWhile is_space r of [] \<Rightarrow> False | d # _ \<Rightarrow> bearer_char d))"

definition private_key_block :: "string \<Rightarrow> bool" where
  "private_key_block s \<longleftrightarrow> starts_with s ''-----begin '' \<and>
     js_includes (takeWhile (\<lambda>c. char_code c \<noteq> 10 \<and> char_code c \<noteq> 13) (drop 11 s)) ''private key-----''"

definition sensitive_text :: "string \<Rightarrow> bool" where
  "sensitive_text t =
     (let s = js_lower t
      in js_includes s ''mongodb://'' \<or> js_includes s ''mongodb+srv://'' \<or> js_includes s ''redis://''
         \<or> some_suffix bearer_token s \<or> some_suffix private_key_block s)"

text \<open>The walk of \<open>assertNoSensitiveData\<close>; it goes twelve levels deep. The result is the path it complains about.\<close>

function sensitive_path :: "nat \<Rightarrow> string \<Rightarrow> json \<Rightarrow> string option" where
  "sensitive_path depth path v =
     (if 12 < depth then None
      else fold (\<lambda>(k, w) found.
         (case found of
            Some p \<Rightarrow> Some p
          | None \<Rightarrow>
              if SENSITIVE_KEY k then Some (path @ ''.'' @ k)
              else if (case w of JStr t \<Rightarrow> sensitive_text t | _ \<Rightarrow> False) then Some (path @ ''.'' @ k)
              else sensitive_path (depth + 1) (path @ ''.'' @ k) w)) (entries v) None)"
  by pat_completeness auto
termination
  by (relation "measure (\<lambda>(d, p, v). size v)") (auto dest: size_entries)

declare sensitive_path.simps [simp del]

definition assertNoSensitiveData :: "json \<Rightarrow> unit res" where
  "assertNoSensitiveData v =
     (case sensitive_path 0 ''$'' v of Some p \<Rightarrow> Inl (regional_error p) | None \<Rightarrow> Inr ())"

definition safe_id_head :: "char \<Rightarrow> bool" where "safe_id_head c \<longleftrightarrow> is_alpha c \<or> is_digit c"
definition safe_id_tail :: "char \<Rightarrow> bool" where
  "safe_id_tail c \<longleftrightarrow> is_alpha c \<or> is_digit c \<or> c \<in> set ''._:-''"

definition SAFE_IDENTIFIER :: "string \<Rightarrow> bool" where
  "SAFE_IDENTIFIER s = bounded_pattern safe_id_head safe_id_tail 199 s"

definition optionalIdentifier :: "string option \<Rightarrow> string \<Rightarrow> string option res" where
  "optionalIdentifier v path =
     (if \<not> present v then Inr None
      else let c = js_trim (the v)
           in if SAFE_IDENTIFIER c then Inr (Some c) else Inl (regional_error path))"

definition safeIdentifier :: "string option \<Rightarrow> string \<Rightarrow> string res" where
  "safeIdentifier v path =
     (if \<not> present v then Inl (regional_error path)
      else let c = js_trim (the v) in if SAFE_IDENTIFIER c then Inr c else Inl (regional_error path))"

definition safeText :: "string option \<Rightarrow> nat \<Rightarrow> string" where
  "safeText v maximum = take maximum (js_trim (or_empty v))"

definition enumValue :: "string option \<Rightarrow> string list \<Rightarrow> string \<Rightarrow> string option \<Rightarrow> string res" where
  "enumValue v values path fallback =
     (case (if present v then Some (js_trim (the v)) else fallback) of
        None \<Rightarrow> Inl (regional_error path)
      | Some c \<Rightarrow> if c \<in> set values then Inr c else Inl (regional_error path))"

definition boundedInteger :: "jsnum option \<Rightarrow> string \<Rightarrow> int \<Rightarrow> int \<Rightarrow> int \<Rightarrow> int res" where
  "boundedInteger v path minimum maximum fallback =
     (case (case v of None \<Rightarrow> Some fallback | Some x \<Rightarrow> js_integer x) of
        None \<Rightarrow> Inl (regional_error path)
      | Some i \<Rightarrow> if i < minimum \<or> maximum < i then Inl (regional_error path) else Inr i)"

definition uniqueIdentifiers :: "string option list \<Rightarrow> string \<Rightarrow> nat \<Rightarrow> string list res" where
  "uniqueIdentifiers vs path maximum =
     bindE (mapE (\<lambda>v. safeIdentifier v path) vs) (\<lambda>ids.
     let result = sort (remdups ids)
     in if maximum < length result then Inl (regional_error path) else Inr result)"

lemma safeIdentifier_Inr [guard_dests]: "safeIdentifier v path = Inr s \<Longrightarrow> SAFE_IDENTIFIER s"
  by (auto simp: safeIdentifier_def Let_def split: if_splits)

lemma enumValue_Inr [guard_dests]: "enumValue v vs path fb = Inr s \<Longrightarrow> s \<in> set vs"
  by (auto simp: enumValue_def split: option.splits if_splits)

lemma boundedInteger_Inr [guard_dests]: "boundedInteger v path lo hi fb = Inr i \<Longrightarrow> lo \<le> i \<and> i \<le> hi"
  by (auto simp: boundedInteger_def split: option.splits if_splits)

lemma uniqueIdentifiers_Inr [guard_dests]:
  assumes "uniqueIdentifiers vs path n = Inr ids"
  shows "distinct ids \<and> sorted ids \<and> length ids \<le> n \<and> list_all SAFE_IDENTIFIER ids"
proof -
  from assms obtain xs where xs: "mapE (\<lambda>v. safeIdentifier v path) vs = Inr xs" "ids = sort (remdups xs)"
    "length ids \<le> n"
    by (auto simp: uniqueIdentifiers_def bindE_Inr_iff Let_def split: if_splits)
  have "\<forall>x\<in>set xs. SAFE_IDENTIFIER x" using mapE_all [OF xs(1)] safeIdentifier_Inr by blast
  with xs show ?thesis by (simp add: list_all_iff)
qed

subsection \<open>The state machines as transition tables\<close>

lemma all_failover_states: "set FAILOVER_STATES = UNIV"
proof -
  have "s \<in> set FAILOVER_STATES" for s by (cases s) (simp_all add: FAILOVER_STATES_def)
  then show ?thesis by blast
qed

lemma all_restore_states: "set RESTORE_STATES = UNIV"
proof -
  have "s \<in> set RESTORE_STATES" for s by (cases s) (simp_all add: RESTORE_STATES_def)
  then show ?thesis by blast
qed

definition failover_rank :: "failover_state \<Rightarrow> nat" where
  "failover_rank s = (if FAILOVER_TRANSITIONS s = [] then 0 else 1)"

definition restore_rank :: "restore_state \<Rightarrow> nat" where
  "restore_rank s = (if RESTORE_TRANSITIONS s = [] then 0 else if s = RS_Failed \<or> s = RS_Cancelled then 1 else 2)"

interpretation failover_table: transition_table FAILOVER_STATES FAILOVER_TRANSITIONS failover_rank
proof
  fix s assume "s \<in> set FAILOVER_STATES" "FAILOVER_TRANSITIONS s \<noteq> []"
  then show "\<exists>t\<in>set (FAILOVER_TRANSITIONS s). failover_rank t < failover_rank s"
    by (cases s rule: failover_state.exhaust) (simp_all add: failover_rank_def)
qed (simp add: all_failover_states)

interpretation restore_table: transition_table RESTORE_STATES RESTORE_TRANSITIONS restore_rank
proof
  fix s assume "s \<in> set RESTORE_STATES" "RESTORE_TRANSITIONS s \<noteq> []"
  then show "\<exists>t\<in>set (RESTORE_TRANSITIONS s). restore_rank t < restore_rank s"
    by (cases s rule: restore_state.exhaust) (simp_all add: restore_rank_def)
qed (simp add: all_restore_states)

definition known_failover_state :: "string \<Rightarrow> failover_state option" where
  "known_failover_state s = find (\<lambda>x. failover_name x = s) FAILOVER_STATES"

definition known_restore_state :: "string \<Rightarrow> restore_state option" where
  "known_restore_state s = find (\<lambda>x. restore_name x = s) RESTORE_STATES"

text \<open>An enumerated state argument: \<open>enumValue\<close> over the names, without a fallback.\<close>

definition failover_argument :: "string option \<Rightarrow> string \<Rightarrow> failover_state res" where
  "failover_argument v path =
     (if \<not> present v then Inl (regional_error path)
      else case known_failover_state (js_trim (the v)) of
             None \<Rightarrow> Inl (regional_error path) | Some s \<Rightarrow> Inr s)"

definition restore_argument :: "string option \<Rightarrow> string \<Rightarrow> restore_state res" where
  "restore_argument v path =
     (if \<not> present v then Inl (regional_error path)
      else case known_restore_state (js_trim (the v)) of
             None \<Rightarrow> Inl (regional_error path) | Some s \<Rightarrow> Inr s)"

text \<open>The lookup in the table uses the argument as it was given, without trimming it.\<close>

definition transitionFailover :: "string option \<Rightarrow> string option \<Rightarrow> string res" where
  "transitionFailover current next =
     bindE (failover_argument current ''current'') (\<lambda>_.
     bindE (failover_argument next ''next'') (\<lambda>_.
     let allowed = (case known_failover_state (the current) of
           None \<Rightarrow> [] | Some s \<Rightarrow> map failover_name (FAILOVER_TRANSITIONS s))
     in if the next \<in> set allowed then Inr (the next)
        else Inl (App_Error 409 ''REGION_FAILOVER_TRANSITION_INVALID'' '''')))"

definition transitionRestore :: "string option \<Rightarrow> string option \<Rightarrow> string res" where
  "transitionRestore current next =
     bindE (restore_argument current ''current'') (\<lambda>_.
     bindE (restore_argument next ''next'') (\<lambda>_.
     let allowed = (case known_restore_state (the current) of
           None \<Rightarrow> [] | Some s \<Rightarrow> map restore_name (RESTORE_TRANSITIONS s))
     in if the next \<in> set allowed then Inr (the next)
        else Inl (App_Error 409 ''REGION_RESTORE_TRANSITION_INVALID'' '''')))"

lemma failover_name_inject [simp]: "failover_name s = failover_name t \<longleftrightarrow> s = t"
  by (cases s; cases t) simp_all

lemma restore_name_inject [simp]: "restore_name s = restore_name t \<longleftrightarrow> s = t"
  by (cases s; cases t) simp_all

lemma failover_name_mem: "failover_name s \<in> failover_name ` A \<longleftrightarrow> s \<in> A"
  by (auto simp del: failover_name.simps)

lemma restore_name_mem: "restore_name s \<in> restore_name ` A \<longleftrightarrow> s \<in> A"
  by (auto simp del: restore_name.simps)

lemma known_failover_state_Some: "known_failover_state n = Some s \<longleftrightarrow> n = failover_name s"
proof
  assume "known_failover_state n = Some s"
  then show "n = failover_name s" by (auto simp: known_failover_state_def find_Some_iff)
next
  assume n: "n = failover_name s"
  have "find (\<lambda>x. failover_name x = n) FAILOVER_STATES \<noteq> None"
    unfolding find_None_iff using all_failover_states n by blast
  then obtain t where t: "find (\<lambda>x. failover_name x = n) FAILOVER_STATES = Some t" by auto
  then have "failover_name t = n" by (auto simp: find_Some_iff)
  with t n show "known_failover_state n = Some s" by (simp add: known_failover_state_def)
qed

lemma known_restore_state_Some: "known_restore_state n = Some s \<longleftrightarrow> n = restore_name s"
proof
  assume "known_restore_state n = Some s"
  then show "n = restore_name s" by (auto simp: known_restore_state_def find_Some_iff)
next
  assume n: "n = restore_name s"
  have "find (\<lambda>x. restore_name x = n) RESTORE_STATES \<noteq> None"
    unfolding find_None_iff using all_restore_states n by blast
  then obtain t where t: "find (\<lambda>x. restore_name x = n) RESTORE_STATES = Some t" by auto
  then have "restore_name t = n" by (auto simp: find_Some_iff)
  with t n show "known_restore_state n = Some s" by (simp add: known_restore_state_def)
qed

text \<open>A chain of accepted transitions, as the names the callers pass.\<close>

fun failover_chain :: "string \<Rightarrow> string list \<Rightarrow> bool" where
  "failover_chain s [] = True"
| "failover_chain s (t # ts) = (transitionFailover (Some s) (Some t) = Inr t \<and> failover_chain t ts)"

fun restore_chain :: "string \<Rightarrow> string list \<Rightarrow> bool" where
  "restore_chain s [] = True"
| "restore_chain s (t # ts) = (transitionRestore (Some s) (Some t) = Inr t \<and> restore_chain t ts)"

lemma transitionFailover_step:
  assumes "transitionFailover (Some s) (Some t) = Inr u"
  obtains x y where "s = failover_name x" "t = failover_name y" "u = t" "table_step FAILOVER_TRANSITIONS x y"
  using assms
  by (auto simp: transitionFailover_def bindE_Inr_iff Let_def known_failover_state_Some table_step_def
      split: if_splits option.splits dest!: sym [of "Some _"])

lemma transitionRestore_step:
  assumes "transitionRestore (Some s) (Some t) = Inr u"
  obtains x y where "s = restore_name x" "t = restore_name y" "u = t" "table_step RESTORE_TRANSITIONS x y"
  using assms
  by (auto simp: transitionRestore_def bindE_Inr_iff Let_def known_restore_state_Some table_step_def
      split: if_splits option.splits dest!: sym [of "Some _"])

lemma failover_chain_path:
  "failover_chain (failover_name x) ts \<Longrightarrow> \<exists>ys. ts = map failover_name ys \<and> table_path FAILOVER_TRANSITIONS x ys"
proof (induction ts arbitrary: x)
  case (Cons u ts)
  then obtain y where y: "u = failover_name y" "table_step FAILOVER_TRANSITIONS x y"
    "failover_chain (failover_name y) ts"
    by (auto elim!: transitionFailover_step)
  from Cons.IH [OF y(3)] obtain ys where "ts = map failover_name ys" "table_path FAILOVER_TRANSITIONS y ys" by blast
  with y(1,2) show ?case by (intro exI [of _ "y # ys"]) simp
qed simp

lemma restore_chain_path:
  "restore_chain (restore_name x) ts \<Longrightarrow> \<exists>ys. ts = map restore_name ys \<and> table_path RESTORE_TRANSITIONS x ys"
proof (induction ts arbitrary: x)
  case (Cons u ts)
  then obtain y where y: "u = restore_name y" "table_step RESTORE_TRANSITIONS x y"
    "restore_chain (restore_name y) ts"
    by (auto elim!: transitionRestore_step)
  from Cons.IH [OF y(3)] obtain ys where "ts = map restore_name ys" "table_path RESTORE_TRANSITIONS y ys" by blast
  with y(1,2) show ?case by (intro exI [of _ "y # ys"]) simp
qed simp

text \<open>
  A regional failover that succeeds has been fenced: every chain of accepted transitions from a request to
  success passes, in this order, the fencing of the source, the transfer of the authority, the transfer
  of the queues, the activation of the target and its validation; and no chain leaves a final state.
\<close>

theorem failover_success_is_fenced:
  assumes "failover_chain ''requested'' ts" "''succeeded'' \<in> set ts"
  shows "subseq [''fencing_source'', ''transferring_authority'', ''transferring_queues'', ''activating_target'',
    ''validating_target'', ''succeeded''] ts"
proof -
  have "''requested'' = failover_name FO_Requested" by simp
  with assms(1) obtain ys where ts: "ts = map failover_name ys" and ys: "table_path FAILOVER_TRANSITIONS FO_Requested ys"
    using failover_chain_path by metis
  have "failover_name FO_Succeeded \<in> failover_name ` set ys"
    using assms(2) by (simp only: ts set_map failover_name.simps)
  then have s: "FO_Succeeded \<in> set ys" by (simp only: failover_name_mem)
  have "\<exists>u v. ys = u @ FO_Fencing_Source # v \<and> table_path FAILOVER_TRANSITIONS FO_Fencing_Source v \<and> FO_Succeeded \<in> set v"
    by (rule table_path_gate [OF ys, where A = "{FO_Requested, FO_Validating, FO_Approval_Required, FO_Approved,
      FO_Freezing_Admission, FO_Draining_Source, FO_Verifying_Replication, FO_Paused, FO_Failed, FO_Cancelled}"]) (use s in auto)
  then obtain u1 v1 where 1: "ys = u1 @ FO_Fencing_Source # v1" "table_path FAILOVER_TRANSITIONS FO_Fencing_Source v1"
    "FO_Succeeded \<in> set v1" by blast
  have "\<exists>u v. v1 = u @ FO_Transferring_Authority # v \<and> table_path FAILOVER_TRANSITIONS FO_Transferring_Authority v \<and> FO_Succeeded \<in> set v"
    by (rule table_path_gate [OF 1(2), where A = "{FO_Requested, FO_Validating, FO_Approval_Required, FO_Approved,
      FO_Freezing_Admission, FO_Draining_Source, FO_Verifying_Replication, FO_Paused, FO_Failed, FO_Cancelled,
      FO_Fencing_Source, FO_Rollback_Required}"]) (use 1(3) in auto)
  then obtain u2 v2 where 2: "v1 = u2 @ FO_Transferring_Authority # v2" "table_path FAILOVER_TRANSITIONS FO_Transferring_Authority v2"
    "FO_Succeeded \<in> set v2" by blast
  have "\<exists>u v. v2 = u @ FO_Transferring_Queues # v \<and> table_path FAILOVER_TRANSITIONS FO_Transferring_Queues v \<and> FO_Succeeded \<in> set v"
    by (rule table_path_gate [OF 2(2), where A = "{FO_Transferring_Authority, FO_Partial, FO_Failed,
      FO_Rollback_Required}"]) (use 2(3) in auto)
  then obtain u3 v3 where 3: "v2 = u3 @ FO_Transferring_Queues # v3" "table_path FAILOVER_TRANSITIONS FO_Transferring_Queues v3"
    "FO_Succeeded \<in> set v3" by blast
  have "\<exists>u v. v3 = u @ FO_Activating_Target # v \<and> table_path FAILOVER_TRANSITIONS FO_Activating_Target v \<and> FO_Succeeded \<in> set v"
    by (rule table_path_gate [OF 3(2), where A = "{FO_Transferring_Queues, FO_Partial, FO_Failed,
      FO_Rollback_Required}"]) (use 3(3) in auto)
  then obtain u4 v4 where 4: "v3 = u4 @ FO_Activating_Target # v4" "table_path FAILOVER_TRANSITIONS FO_Activating_Target v4"
    "FO_Succeeded \<in> set v4" by blast
  have "\<exists>u v. v4 = u @ FO_Validating_Target # v \<and> table_path FAILOVER_TRANSITIONS FO_Validating_Target v \<and> FO_Succeeded \<in> set v"
    by (rule table_path_gate [OF 4(2), where A = "{FO_Activating_Target, FO_Rebuilding_Projections,
      FO_Partial, FO_Failed, FO_Rollback_Required}"]) (use 4(3) in auto)
  then obtain u5 v5 where 5: "v4 = u5 @ FO_Validating_Target # v5" "table_path FAILOVER_TRANSITIONS FO_Validating_Target v5"
    "FO_Succeeded \<in> set v5" by blast
  have "subseq [FO_Succeeded] v5" using 5(3) by (simp add: subseq_singleton_left)
  then have "subseq [FO_Fencing_Source, FO_Transferring_Authority, FO_Transferring_Queues, FO_Activating_Target,
    FO_Validating_Target, FO_Succeeded] ys"
    by (intro subseq_gate [OF 1(1)] subseq_gate [OF 2(1)] subseq_gate [OF 3(1)] subseq_gate [OF 4(1)]
      subseq_gate [OF 5(1)])
  from subseq_map [OF this, of failover_name] show ?thesis by (simp add: ts)
qed

definition sample_failover :: "string list" where
  "sample_failover =
     [''validating'', ''approved'', ''freezing_admission'', ''draining_source'', ''verifying_replication'',
      ''paused'', ''fencing_source'', ''transferring_authority'', ''transferring_queues'', ''activating_target'',
      ''validating_target'', ''succeeded'']"

theorem failover_success_is_fenced_witness:
  "failover_chain ''requested'' sample_failover \<and>
   subseq [''fencing_source'', ''transferring_authority'', ''transferring_queues'', ''activating_target'',
     ''validating_target'', ''succeeded''] sample_failover"
proof -
  have c: "failover_chain ''requested'' sample_failover" by code_simp
  have m: "''succeeded'' \<in> set sample_failover" by (simp add: sample_failover_def)
  show ?thesis using c failover_success_is_fenced [OF c m] by blast
qed

text \<open>
  a restored database is promoted only after its approval, its schema, its indexes and its integrity: every
  chain of accepted restore transitions from a request to promotion passes them in this order.
\<close>

theorem restore_promotion_is_validated:
  assumes "restore_chain ''requested'' ts" "''promoted'' \<in> set ts"
  shows "subseq [''approved'', ''provisioning_target'', ''restoring'', ''validating_schema'', ''validating_indexes'',
    ''validating_integrity'', ''ready_for_promotion'', ''promoted''] ts"
proof -
  have "''requested'' = restore_name RS_Requested" by simp
  with assms(1) obtain ys where ts: "ts = map restore_name ys" and ys: "table_path RESTORE_TRANSITIONS RS_Requested ys"
    using restore_chain_path by metis
  have "restore_name RS_Promoted \<in> restore_name ` set ys"
    using assms(2) by (simp only: ts set_map restore_name.simps)
  then have s: "RS_Promoted \<in> set ys" by (simp only: restore_name_mem)
  have "\<exists>u v. ys = u @ RS_Approved # v \<and> table_path RESTORE_TRANSITIONS RS_Approved v \<and> RS_Promoted \<in> set v"
    by (rule table_path_gate [OF ys, where A = "{RS_Requested, RS_Approval_Required, RS_Failed, RS_Cancelled, RS_Cleaned_Up}"])
      (use s in auto)
  then obtain u1 v1 where 1: "ys = u1 @ RS_Approved # v1" "table_path RESTORE_TRANSITIONS RS_Approved v1"
    "RS_Promoted \<in> set v1" by blast
  have "\<exists>u v. v1 = u @ RS_Provisioning_Target # v \<and> table_path RESTORE_TRANSITIONS RS_Provisioning_Target v \<and> RS_Promoted \<in> set v"
    by (rule table_path_gate [OF 1(2), where A = "{RS_Approved, RS_Failed, RS_Cancelled, RS_Cleaned_Up}"])
      (use 1(3) in auto)
  then obtain u2 v2 where 2: "v1 = u2 @ RS_Provisioning_Target # v2" "table_path RESTORE_TRANSITIONS RS_Provisioning_Target v2"
    "RS_Promoted \<in> set v2" by blast
  have "\<exists>u v. v2 = u @ RS_Restoring # v \<and> table_path RESTORE_TRANSITIONS RS_Restoring v \<and> RS_Promoted \<in> set v"
    by (rule table_path_gate [OF 2(2), where A = "{RS_Provisioning_Target, RS_Failed, RS_Cancelled, RS_Cleaned_Up}"])
      (use 2(3) in auto)
  then obtain u3 v3 where 3: "v2 = u3 @ RS_Restoring # v3" "table_path RESTORE_TRANSITIONS RS_Restoring v3"
    "RS_Promoted \<in> set v3" by blast
  have "\<exists>u v. v3 = u @ RS_Validating_Schema # v \<and> table_path RESTORE_TRANSITIONS RS_Validating_Schema v \<and> RS_Promoted \<in> set v"
    by (rule table_path_gate [OF 3(2), where A = "{RS_Restoring, RS_Failed, RS_Cancelled, RS_Cleaned_Up}"])
      (use 3(3) in auto)
  then obtain u4 v4 where 4: "v3 = u4 @ RS_Validating_Schema # v4" "table_path RESTORE_TRANSITIONS RS_Validating_Schema v4"
    "RS_Promoted \<in> set v4" by blast
  have "\<exists>u v. v4 = u @ RS_Validating_Indexes # v \<and> table_path RESTORE_TRANSITIONS RS_Validating_Indexes v \<and> RS_Promoted \<in> set v"
    by (rule table_path_gate [OF 4(2), where A = "{RS_Validating_Schema, RS_Failed, RS_Cancelled, RS_Cleaned_Up}"])
      (use 4(3) in auto)
  then obtain u5 v5 where 5: "v4 = u5 @ RS_Validating_Indexes # v5" "table_path RESTORE_TRANSITIONS RS_Validating_Indexes v5"
    "RS_Promoted \<in> set v5" by blast
  have "\<exists>u v. v5 = u @ RS_Validating_Integrity # v \<and> table_path RESTORE_TRANSITIONS RS_Validating_Integrity v \<and> RS_Promoted \<in> set v"
    by (rule table_path_gate [OF 5(2), where A = "{RS_Validating_Indexes, RS_Failed, RS_Cancelled, RS_Cleaned_Up}"])
      (use 5(3) in auto)
  then obtain u6 v6 where 6: "v5 = u6 @ RS_Validating_Integrity # v6" "table_path RESTORE_TRANSITIONS RS_Validating_Integrity v6"
    "RS_Promoted \<in> set v6" by blast
  have "\<exists>u v. v6 = u @ RS_Ready_For_Promotion # v \<and> table_path RESTORE_TRANSITIONS RS_Ready_For_Promotion v \<and> RS_Promoted \<in> set v"
    by (rule table_path_gate [OF 6(2), where A = "{RS_Validating_Integrity, RS_Rebuilding_Projections, RS_Failed, RS_Cancelled, RS_Cleaned_Up}"])
      (use 6(3) in auto)
  then obtain u7 v7 where 7: "v6 = u7 @ RS_Ready_For_Promotion # v7" "table_path RESTORE_TRANSITIONS RS_Ready_For_Promotion v7"
    "RS_Promoted \<in> set v7" by blast
  have "subseq [RS_Promoted] v7" using 7(3) by (simp add: subseq_singleton_left)
  then have "subseq [RS_Approved, RS_Provisioning_Target, RS_Restoring, RS_Validating_Schema, RS_Validating_Indexes,
    RS_Validating_Integrity, RS_Ready_For_Promotion, RS_Promoted] ys"
    by (intro subseq_gate [OF 1(1)] subseq_gate [OF 2(1)] subseq_gate [OF 3(1)] subseq_gate [OF 4(1)]
      subseq_gate [OF 5(1)] subseq_gate [OF 6(1)] subseq_gate [OF 7(1)])
  from subseq_map [OF this, of restore_name] show ?thesis by (simp add: ts)
qed

definition sample_restore :: "string list" where
  "sample_restore =
     [''approval_required'', ''approved'', ''provisioning_target'', ''restoring'', ''validating_schema'',
      ''validating_indexes'', ''validating_integrity'', ''rebuilding_projections'', ''ready_for_promotion'',
      ''promoted'']"

theorem restore_promotion_is_validated_witness:
  "restore_chain ''requested'' sample_restore \<and>
   subseq [''approved'', ''provisioning_target'', ''restoring'', ''validating_schema'', ''validating_indexes'',
     ''validating_integrity'', ''ready_for_promotion'', ''promoted''] sample_restore"
proof -
  have c: "restore_chain ''requested'' sample_restore" by code_simp
  have m: "''promoted'' \<in> set sample_restore" by (simp add: sample_restore_def)
  show ?thesis using c restore_promotion_is_validated [OF c m] by blast
qed

end
