(* ===== verification/Regional_Policy.thy ===== *)
theory Regional_Policy
  imports Regional_Core
begin

text \<open>
  The rest of backend/src/services/regionalResilienceCore.service.js: validation of regional configurations and
  disaster-recovery policies, replication health, recovery objectives, residency, routing, worker eligibility,
  admission and failover plans. An input that the code first merges from a stored and a supplied object is
  the merged record; \<open>raw\<close> is the supplied object itself, which only the search for sensitive data reads.
  Keyed digests, cache keys and metric labels of the file are not modelled.
\<close>

subsection \<open>Regions and configurations\<close>

record region_input =
  gi_region_id :: "string option"
  gi_display_name :: "string option"
  gi_region_group :: "string option"
  gi_role :: "string option"
  gi_state :: "string option"
  gi_priority :: "jsnum option"
  gi_provider :: "string option"
  gi_residency_tags :: "string option list"
  gi_classifications :: "string option list option"
  gi_supports_write :: "bool option"
  gi_supports_worker :: "bool option"
  gi_supports_recovery :: "bool option"
  gi_supports_projections :: "bool option"
  gi_supports_reads :: "bool option"
  gi_supports_backup :: "bool option"
  gi_max_staleness_ms :: "jsnum option"
  gi_enabled :: "bool option"

record region =
  rg_region_id :: string
  rg_display_name :: string
  rg_region_group :: string
  rg_role :: string
  rg_state :: string
  rg_priority :: int
  rg_provider :: string
  rg_residency_tags :: "string list"
  rg_classifications :: "string list"
  rg_supports_write :: bool
  rg_supports_worker :: bool
  rg_supports_recovery :: bool
  rg_supports_projections :: bool
  rg_supports_reads :: bool
  rg_supports_backup :: bool
  rg_max_staleness_ms :: int
  rg_enabled :: bool

definition CLASSIFICATIONS :: "string list" where
  "CLASSIFICATIONS = [''public'', ''internal'', ''confidential'', ''restricted'']"

definition region_path :: "nat \<Rightarrow> string \<Rightarrow> string" where
  "region_path i field = ''regions['' @ nat_str i @ ''].'' @ field"

definition normalizeRegion :: "nat \<times> region_input \<Rightarrow> region res" where
  "normalizeRegion ir =
     (let i = fst ir; r = snd ir; path = region_path i in
     bindE (safeIdentifier (gi_region_id r) (path ''regionId'')) (\<lambda>rid.
     bindE (safeIdentifier (Some (or_default (gi_region_group r) ''default'')) (path ''regionGroup'')) (\<lambda>grp.
     bindE (enumValue (gi_role r) REGIONAL_ROLES (path ''role'') None) (\<lambda>role.
     bindE (enumValue (gi_state r) REGIONAL_STATES (path ''state'') (Some ''initializing'')) (\<lambda>state.
     bindE (boundedInteger (gi_priority r) (path ''priority'') 1 max_region_priority (int i + 1)) (\<lambda>priority.
     bindE (safeIdentifier (Some (or_default (gi_provider r) ''provider_neutral'')) (path ''safeProviderCategory''))
       (\<lambda>provider.
     bindE (uniqueIdentifiers (gi_residency_tags r) (path ''dataResidencyTags'') max_safe_list_entries) (\<lambda>tags.
     bindE (mapE (\<lambda>c. enumValue c CLASSIFICATIONS (path ''allowedDataClassifications'') None)
         (unique_list (case gi_classifications r of None \<Rightarrow> [Some ''public'', Some ''internal''] | Some cs \<Rightarrow> cs)))
       (\<lambda>classes.
     bindE (boundedInteger (gi_max_staleness_ms r) (path ''maximumStalenessMs'') 0 86400000 60000) (\<lambda>staleness.
     Inr \<lparr>rg_region_id = rid,
          rg_display_name = safeText (if present (gi_display_name r) then gi_display_name r else gi_region_id r) 120,
          rg_region_group = grp, rg_role = role, rg_state = state, rg_priority = priority,
          rg_provider = provider, rg_residency_tags = tags, rg_classifications = sort classes,
          rg_supports_write = (gi_supports_write r = Some True),
          rg_supports_worker = (gi_supports_worker r = Some True),
          rg_supports_recovery = (gi_supports_recovery r = Some True),
          rg_supports_projections = (gi_supports_projections r = Some True),
          rg_supports_reads = (gi_supports_reads r = Some True),
          rg_supports_backup = (gi_supports_backup r = Some True),
          rg_max_staleness_ms = staleness,
          rg_enabled = (gi_enabled r \<noteq> Some False)\<rparr>))))))))))"

record configuration_input =
  ci_name :: "string option"
  ci_description :: "string option"
  ci_version :: "jsnum option"
  ci_status :: "string option"
  ci_regions :: "region_input list"
  ci_primary :: "string option"
  ci_standby :: "string option"
  ci_permitted :: "string option list"
  ci_prohibited :: "string option list"
  ci_max_promotion_lag_ms :: "jsnum option"
  ci_max_data_loss_ms :: "jsnum option"
  ci_health_timeout_ms :: "jsnum option"
  ci_heartbeat_ms :: "jsnum option"
  ci_lease_ms :: "jsnum option"
  ci_lease_heartbeat_ms :: "jsnum option"
  ci_failover_approval :: "string option"
  ci_failback_approval :: "string option"
  ci_degraded_mode :: "string option"
  ci_cache_isolation :: "string option"
  ci_projection_recovery :: "string option"

record configuration =
  cf_name :: string
  cf_description :: string
  cf_version :: int
  cf_status :: string
  cf_regions :: "region list"
  cf_primary :: string
  cf_standby :: "string option"
  cf_permitted :: "string list"
  cf_prohibited :: "string list"
  cf_max_promotion_lag_ms :: int
  cf_max_data_loss_ms :: int
  cf_health_timeout_ms :: int
  cf_heartbeat_ms :: int
  cf_lease_ms :: int
  cf_lease_heartbeat_ms :: int
  cf_failover_approval :: string
  cf_failback_approval :: string
  cf_degraded_mode :: string
  cf_cache_isolation :: string
  cf_projection_recovery :: string

definition find_region :: "region list \<Rightarrow> string option \<Rightarrow> region option" where
  "find_region regions rid = find (\<lambda>r. Some (rg_region_id r) = rid) regions"

definition writable :: "region \<Rightarrow> bool" where
  "writable r \<longleftrightarrow> rg_enabled r \<and> rg_supports_write r"

definition validateNormalizedConfiguration :: "configuration \<Rightarrow> unit res" where
  "validateNormalizedConfiguration c =
     (let ids = map rg_region_id (cf_regions c);
          primary = find_region (cf_regions c) (Some (cf_primary c)) in
     bindE (ensure (distinct ids) (regional_error ''regions'')) (\<lambda>_.
     bindE (ensure (case primary of Some r \<Rightarrow> writable r | None \<Rightarrow> False)
       (regional_error ''preferredPrimaryRegionId'')) (\<lambda>_.
     bindE (ensure (case cf_standby c of
           None \<Rightarrow> True
         | Some s \<Rightarrow> (case find_region (cf_regions c) (Some s) of
               Some r \<Rightarrow> writable r \<and> Some (rg_region_id r) \<noteq> map_option rg_region_id primary
             | None \<Rightarrow> False))
       (regional_error ''defaultStandbyRegionId'')) (\<lambda>_.
     bindE (ensure (list_all (\<lambda>i. i \<in> set ids) (cf_permitted c @ cf_prohibited c))
       (regional_error ''permittedFailoverRegionIds'')) (\<lambda>_.
     bindE (ensure (\<not> list_ex (\<lambda>i. i \<in> set (cf_prohibited c)) (cf_permitted c))
       (regional_error ''prohibitedFailoverRegionIds'')) (\<lambda>_.
     bindE (ensure (cf_lease_heartbeat_ms c * 2 < cf_lease_ms c)
       (regional_error ''authorityHeartbeatIntervalMs'')) (\<lambda>_.
     ensure (cf_heartbeat_ms c < cf_health_timeout_ms c) (regional_error ''regionalHeartbeatIntervalMs''))))))))"

definition normalizeRegionalConfiguration :: "json \<Rightarrow> configuration_input \<Rightarrow> configuration res" where
  "normalizeRegionalConfiguration raw s =
     bindE (assertNoSensitiveData raw) (\<lambda>_.
     bindE (mapE normalizeRegion (zip [0..<length (ci_regions s)] (ci_regions s))) (\<lambda>regions.
     bindE (ensure (regions \<noteq> [] \<and> length regions \<le> max_regions) (regional_error ''regions'')) (\<lambda>_.
     bindE (boundedInteger (ci_version s) ''version'' 1 1000000 1) (\<lambda>version.
     bindE (enumValue (ci_status s) VERSION_STATUSES ''status'' (Some ''draft'')) (\<lambda>status.
     bindE (safeIdentifier (ci_primary s) ''preferredPrimaryRegionId'') (\<lambda>primary.
     bindE (optionalIdentifier (ci_standby s) ''defaultStandbyRegionId'') (\<lambda>standby.
     bindE (uniqueIdentifiers (ci_permitted s) ''permittedFailoverRegionIds'' max_regions) (\<lambda>permitted.
     bindE (uniqueIdentifiers (ci_prohibited s) ''prohibitedFailoverRegionIds'' max_regions) (\<lambda>prohibited.
     bindE (boundedInteger (ci_max_promotion_lag_ms s) ''maximumReplicationLagForPromotionMs'' 0 86400000 30000) (\<lambda>lag.
     bindE (boundedInteger (ci_max_data_loss_ms s) ''maximumDataLossWindowMs'' 0 86400000 60000) (\<lambda>loss.
     bindE (boundedInteger (ci_health_timeout_ms s) ''regionalHealthTimeoutMs'' 5000 3600000 120000) (\<lambda>health.
     bindE (boundedInteger (ci_heartbeat_ms s) ''regionalHeartbeatIntervalMs'' 1000 300000 30000) (\<lambda>heartbeat.
     bindE (boundedInteger (ci_lease_ms s) ''authorityLeaseDurationMs'' min_lease_ms max_lease_ms 60000) (\<lambda>lease.
     bindE (boundedInteger (ci_lease_heartbeat_ms s) ''authorityHeartbeatIntervalMs'' 1000 300000 15000) (\<lambda>beat.
     bindE (enumValue (ci_failover_approval s) [''always'', ''policy_governed'', ''emergency_automatic'']
       ''failoverApprovalPolicy'' (Some ''always'')) (\<lambda>failover.
     bindE (enumValue (ci_failback_approval s) [''always'', ''policy_governed'']
       ''failbackApprovalPolicy'' (Some ''always'')) (\<lambda>failback.
     bindE (enumValue (ci_degraded_mode s) DEGRADED_MODES ''degradedModePolicy'' (Some ''disabled'')) (\<lambda>degraded.
     bindE (enumValue (ci_cache_isolation s) [''region_local'', ''explicit_distributed'']
       ''cacheIsolationMode'' (Some ''region_local'')) (\<lambda>cache.
     bindE (enumValue (ci_projection_recovery s) [''rebuild'', ''catch_up'', ''manual'']
       ''projectionRecoveryPolicy'' (Some ''catch_up'')) (\<lambda>projection.
     let result =
       \<lparr>cf_name = safeText (Some (or_default (ci_name s) ''Regional deployment'')) 120,
        cf_description = safeText (ci_description s) 1000, cf_version = version, cf_status = status,
        cf_regions = regions, cf_primary = primary, cf_standby = standby, cf_permitted = permitted,
        cf_prohibited = prohibited, cf_max_promotion_lag_ms = lag, cf_max_data_loss_ms = loss,
        cf_health_timeout_ms = health, cf_heartbeat_ms = heartbeat, cf_lease_ms = lease,
        cf_lease_heartbeat_ms = beat, cf_failover_approval = failover, cf_failback_approval = failback,
        cf_degraded_mode = degraded, cf_cache_isolation = cache, cf_projection_recovery = projection\<rparr>
     in bindE (validateNormalizedConfiguration result) (\<lambda>_. Inr result)))))))))))))))))))))"

definition validateRegionalConfiguration ::
  "json \<Rightarrow> configuration_input \<Rightarrow> (app_error + configuration) \<times> string list" where
  "validateRegionalConfiguration raw s =
     (case normalizeRegionalConfiguration raw s of
        Inl e \<Rightarrow> (Inl e, [''REGIONAL_CONFIGURATION_INVALID''])
      | Inr c \<Rightarrow> (Inr c, []))"

subsection \<open>Disaster-recovery policies\<close>

record recovery_policy_input =
  dp_name :: "string option"
  dp_description :: "string option"
  dp_version :: "jsnum option"
  dp_status :: "string option"
  dp_criticality :: "string option"
  dp_rpo_ms :: "jsnum option"
  dp_rto_ms :: "jsnum option"
  dp_max_promotion_lag_ms :: "jsnum option"
  dp_max_unknown_ms :: "jsnum option"
  dp_max_degraded_ms :: "jsnum option"
  dp_preferred :: "string option"
  dp_permitted :: "string option list"
  dp_prohibited :: "string option list"
  dp_automatic :: "bool option"
  dp_conditions :: "string option list"
  dp_approve_failover :: "bool option"
  dp_approve_failback :: "bool option"
  dp_approve_data_loss :: "bool option"
  dp_backup_required :: "bool option"
  dp_backup_frequency_ms :: "jsnum option"
  dp_backup_retention_ms :: "jsnum option"
  dp_restore_verification_ms :: "jsnum option"
  dp_min_services :: "jsnum option"
  dp_min_workers :: "jsnum option"
  dp_min_database :: "string option"
  dp_degraded_mode :: "string option"
  dp_protected_operations :: "string option list"

record disaster_policy =
  dr_name :: string
  dr_description :: string
  dr_version :: int
  dr_status :: string
  dr_criticality :: string
  dr_rpo_ms :: int
  dr_rto_ms :: int
  dr_max_promotion_lag_ms :: int
  dr_max_unknown_ms :: int
  dr_max_degraded_ms :: int
  dr_preferred :: string
  dr_permitted :: "string list"
  dr_prohibited :: "string list"
  dr_automatic :: bool
  dr_conditions :: "string list"
  dr_approve_failover :: bool
  dr_approve_failback :: bool
  dr_approve_data_loss :: bool
  dr_backup_required :: bool
  dr_backup_frequency_ms :: int
  dr_backup_retention_ms :: int
  dr_restore_verification_ms :: int
  dr_min_services :: int
  dr_min_workers :: int
  dr_min_database :: string
  dr_degraded_mode :: string
  dr_protected_operations :: "string list"

definition FAILOVER_CONDITIONS :: "string list" where
  "FAILOVER_CONDITIONS =
     [''source_unavailable'', ''source_isolated'', ''replication_eligible'', ''target_healthy'',
      ''authority_store_reachable'']"

definition checkDisasterRecoveryPolicy :: "disaster_policy \<Rightarrow> unit res" where
  "checkDisasterRecoveryPolicy p =
     bindE (ensure (dr_preferred p \<in> set (dr_permitted p)) (regional_error ''preferredRecoveryRegionId'')) (\<lambda>_.
     bindE (ensure (\<not> list_ex (\<lambda>i. i \<in> set (dr_prohibited p)) (dr_permitted p))
       (regional_error ''prohibitedRecoveryRegionIds'')) (\<lambda>_.
     bindE (ensure (dr_backup_frequency_ms p \<le> dr_backup_retention_ms p) (regional_error ''backupRetentionMs'')) (\<lambda>_.
     ensure (dr_automatic p \<longrightarrow> ''authority_store_reachable'' \<in> set (dr_conditions p))
       (regional_error ''automaticFailoverConditions''))))"

definition normalizeDisasterRecoveryPolicy :: "json \<Rightarrow> recovery_policy_input \<Rightarrow> disaster_policy res" where
  "normalizeDisasterRecoveryPolicy raw s =
     bindE (assertNoSensitiveData raw) (\<lambda>_.
     bindE (boundedInteger (dp_version s) ''version'' 1 1000000 1) (\<lambda>version.
     bindE (enumValue (dp_status s) VERSION_STATUSES ''status'' (Some ''draft'')) (\<lambda>status.
     bindE (enumValue (dp_criticality s) CRITICALITIES ''criticality'' (Some ''important'')) (\<lambda>criticality.
     bindE (boundedInteger (dp_rpo_ms s) ''recoveryPointObjectiveMs'' 1000 max_duration_ms 60000) (\<lambda>rpo.
     bindE (boundedInteger (dp_rto_ms s) ''recoveryTimeObjectiveMs'' 1000 max_duration_ms 300000) (\<lambda>rto.
     bindE (boundedInteger (dp_max_promotion_lag_ms s) ''maximumPromotionReplicationLagMs'' 0 86400000 30000) (\<lambda>lag.
     bindE (boundedInteger (dp_max_unknown_ms s) ''maximumUnknownReplicationWindowMs'' 0 86400000 0) (\<lambda>unk.
     bindE (boundedInteger (dp_max_degraded_ms s) ''maximumDegradedModeDurationMs'' 1000 max_duration_ms 3600000) (\<lambda>deg.
     bindE (safeIdentifier (dp_preferred s) ''preferredRecoveryRegionId'') (\<lambda>preferred.
     bindE (uniqueIdentifiers (dp_permitted s) ''permittedRecoveryRegionIds'' max_regions) (\<lambda>permitted.
     bindE (uniqueIdentifiers (dp_prohibited s) ''prohibitedRecoveryRegionIds'' max_regions) (\<lambda>prohibited.
     bindE (mapE (\<lambda>c. enumValue c FAILOVER_CONDITIONS ''automaticFailoverConditions'' None)
       (unique_list (dp_conditions s))) (\<lambda>conditions.
     bindE (boundedInteger (dp_backup_frequency_ms s) ''backupFrequencyMs'' 60000 max_duration_ms 86400000) (\<lambda>freq.
     bindE (boundedInteger (dp_backup_retention_ms s) ''backupRetentionMs'' 60000 (max_duration_ms * 10) 2592000000) (\<lambda>ret.
     bindE (boundedInteger (dp_restore_verification_ms s) ''restoreVerificationFrequencyMs'' 60000 max_duration_ms
       2592000000) (\<lambda>verify.
     bindE (boundedInteger (dp_min_services s) ''minimumHealthyServiceCount'' 1 10000 1) (\<lambda>services.
     bindE (boundedInteger (dp_min_workers s) ''minimumHealthyWorkerCount'' 0 10000 1) (\<lambda>workers.
     bindE (enumValue (dp_min_database s) [''healthy'', ''elevated''] ''minimumHealthyDatabaseCategory''
       (Some ''healthy'')) (\<lambda>database.
     bindE (enumValue (dp_degraded_mode s) DEGRADED_MODES ''degradedMode'' (Some ''disabled'')) (\<lambda>mode.
     bindE (uniqueIdentifiers (dp_protected_operations s) ''protectedOperationCategories'' max_safe_list_entries) (\<lambda>ops.
     let result =
       \<lparr>dr_name = safeText (Some (or_default (dp_name s) ''Disaster recovery policy'')) 120,
        dr_description = safeText (dp_description s) 1000, dr_version = version, dr_status = status,
        dr_criticality = criticality, dr_rpo_ms = rpo, dr_rto_ms = rto, dr_max_promotion_lag_ms = lag,
        dr_max_unknown_ms = unk, dr_max_degraded_ms = deg, dr_preferred = preferred, dr_permitted = permitted,
        dr_prohibited = prohibited, dr_automatic = (dp_automatic s = Some True), dr_conditions = sort conditions,
        dr_approve_failover = (dp_approve_failover s \<noteq> Some False),
        dr_approve_failback = (dp_approve_failback s \<noteq> Some False),
        dr_approve_data_loss = (dp_approve_data_loss s \<noteq> Some False),
        dr_backup_required = (dp_backup_required s \<noteq> Some False), dr_backup_frequency_ms = freq,
        dr_backup_retention_ms = ret, dr_restore_verification_ms = verify, dr_min_services = services,
        dr_min_workers = workers, dr_min_database = database, dr_degraded_mode = mode,
        dr_protected_operations = ops\<rparr>
     in bindE (checkDisasterRecoveryPolicy result) (\<lambda>_. Inr result))))))))))))))))))))))"

subsection \<open>Replication and recovery objectives\<close>

definition lagCategory :: "jsnum option \<Rightarrow> string" where
  "lagCategory lag =
     (case Option.bind lag js_finite of
        None \<Rightarrow> ''unknown''
      | Some v \<Rightarrow>
         (let value = max 0 v
          in if value = 0 then ''none'' else if value \<le> 5000 then ''low''
             else if value \<le> 30000 then ''moderate'' else if value \<le> 300000 then ''high'' else ''critical''))"

record replication_input =
  rn_domain :: "string option"
  rn_available :: "bool option"
  rn_lag_ms :: "jsnum option"
  rn_max_promotion_lag_ms :: "jsnum option"
  rn_sequence_verified :: "bool option"

record replication_health =
  rh_domain :: string
  rh_status :: string
  rh_lag_ms :: "rat option"
  rh_lag_category :: string
  rh_promotion_eligible :: bool
  rh_reason :: string

definition assessReplicationHealth :: "replication_input \<Rightarrow> replication_health res" where
  "assessReplicationHealth i =
     bindE (enumValue (rn_domain i) REPLICATION_DOMAINS ''dataDomain'' (Some ''authority'')) (\<lambda>domain.
     if rn_available i = Some False
     then Inr \<lparr>rh_domain = domain, rh_status = ''unavailable'', rh_lag_ms = None, rh_lag_category = ''unknown'',
               rh_promotion_eligible = False, rh_reason = ''REPLICATION_UNAVAILABLE''\<rparr>
     else case Option.bind (rn_lag_ms i) js_finite of
       None \<Rightarrow> Inr \<lparr>rh_domain = domain, rh_status = ''unknown'', rh_lag_ms = None, rh_lag_category = ''unknown'',
                 rh_promotion_eligible = False, rh_reason = ''REPLICATION_LAG_UNKNOWN''\<rparr>
     | Some v \<Rightarrow>
       (let measured = max 0 v;
            maximum = js_max (Fin 0) (case rn_max_promotion_lag_ms i of None \<Rightarrow> Fin 30000 | Some m \<Rightarrow> m);
            category = lagCategory (Some (Fin measured));
            eligible = (js_le (Fin measured) maximum \<and> rn_sequence_verified i \<noteq> Some False)
        in Inr \<lparr>rh_domain = domain,
                rh_status = (if eligible then if category = ''none'' \<or> category = ''low'' then ''healthy''
                  else ''elevated'' else ''delayed''),
                rh_lag_ms = Some measured, rh_lag_category = category, rh_promotion_eligible = eligible,
                rh_reason = (if eligible then ''REPLICATION_PROMOTION_ELIGIBLE''
                  else if rn_sequence_verified i = Some False then ''REPLICATION_SEQUENCE_UNVERIFIED''
                  else ''REPLICATION_LAG_EXCEEDED'')\<rparr>))"

record rpo_input =
  rpo_objective_ms :: "jsnum option"
  rpo_replication_status :: "string option"
  rpo_lag_ms :: "jsnum option"
  rpo_incident_at :: "int option"
  rpo_last_durable_write_at :: "int option"
  rpo_last_backup_at :: "int option"

record objective_result =
  ob_status :: string
  ob_measured_ms :: "rat option"
  ob_objective_ms :: jsnum

definition objective_ms :: "jsnum option \<Rightarrow> jsnum" where
  "objective_ms v = js_max (Fin 0) (num_or_zero v)"

definition loss_since :: "int option \<Rightarrow> int option \<Rightarrow> jsnum list" where
  "loss_since incident confirmed =
     (case (incident, confirmed) of (Some i, Some c) \<Rightarrow> [num_of_int (max 0 (i - c))] | _ \<Rightarrow> [])"

definition evaluateRpo :: "rpo_input \<Rightarrow> objective_result" where
  "evaluateRpo i =
     (let objective = objective_ms (rpo_objective_ms i) in
      if rpo_replication_status i = Some ''unknown'' then
        \<lparr>ob_status = ''unknown'', ob_measured_ms = None, ob_objective_ms = objective\<rparr>
      else case rpo_lag_ms i of
        None \<Rightarrow> \<lparr>ob_status = ''unknown'', ob_measured_ms = None, ob_objective_ms = objective\<rparr>
      | Some lag \<Rightarrow>
        (case List.map_filter js_finite
            (lag # loss_since (rpo_incident_at i) (rpo_last_durable_write_at i)
               @ loss_since (rpo_incident_at i) (rpo_last_backup_at i)) of
           [] \<Rightarrow> \<lparr>ob_status = ''insufficient_data'', ob_measured_ms = None, ob_objective_ms = objective\<rparr>
         | c # cs \<Rightarrow>
            (let measured = fold max cs c
             in \<lparr>ob_status = (if js_le (Fin measured) objective then ''compliant'' else ''breached''),
                 ob_measured_ms = Some measured, ob_objective_ms = objective\<rparr>)))"

definition evaluateRto :: "jsnum option \<Rightarrow> int option \<Rightarrow> int option \<Rightarrow> objective_result" where
  "evaluateRto objectiveMs started resumed =
     (let objective = objective_ms objectiveMs in
      case (started, resumed) of
        (Some s, Some r) \<Rightarrow>
          (let measured = (of_int (max 0 (r - s)) :: rat)
           in \<lparr>ob_status = (if js_le (Fin measured) objective then ''compliant'' else ''breached''),
               ob_measured_ms = Some measured, ob_objective_ms = objective\<rparr>)
      | _ \<Rightarrow> \<lparr>ob_status = ''insufficient_data'', ob_measured_ms = None, ob_objective_ms = objective\<rparr>)"

subsection \<open>Residency and routing\<close>

record residency_request =
  rq_residency_tags :: "string list"
  rq_classification :: "string option"

definition residency_code ::
  "residency_request \<Rightarrow> string list \<Rightarrow> string list \<Rightarrow> string" where
  "residency_code q region_tags region_classes =
     (if list_ex (\<lambda>t. t \<notin> set region_tags) (rq_residency_tags q) then ''REGION_RESIDENCY_DENIED''
      else if or_default (rq_classification q) ''internal'' \<notin> set region_classes
      then ''REGION_CLASSIFICATION_DENIED''
      else ''REGION_RESIDENCY_ALLOWED'')"

text \<open>A missing region has no tags and no classifications.\<close>

definition residencyDecision :: "residency_request \<Rightarrow> region option \<Rightarrow> bool \<times> string" where
  "residencyDecision q r =
     (let code = (case r of
            None \<Rightarrow> residency_code q [] []
          | Some g \<Rightarrow> residency_code q (rg_residency_tags g) (rg_classifications g))
      in (code = ''REGION_RESIDENCY_ALLOWED'', code))"

record write_authority =
  wa_active_region :: string
  wa_epoch :: nat
  wa_status :: string

record routing_input =
  rr_regions :: "region list"
  rr_consistency_class :: "string option"
  rr_requested_region :: "string option"
  rr_home_region :: "string option"
  rr_authority :: "write_authority option"
  rr_residency :: residency_request
  rr_allow_queue :: bool
  rr_projection_staleness_ms :: "jsnum option"
  rr_degraded_mode :: "string option"

record routing_decision =
  rt_outcome :: string
  rt_selected :: "string option"
  rt_active_write :: "string option"
  rt_epoch :: nat
  rt_reason :: string
  rt_staleness_category :: "string option"
  rt_max_staleness_ms :: "int option"

definition route_to ::
  "string \<Rightarrow> string option \<Rightarrow> string option \<Rightarrow> nat \<Rightarrow> string \<Rightarrow> routing_decision" where
  "route_to outcome selected active epoch reason =
     \<lparr>rt_outcome = outcome, rt_selected = selected, rt_active_write = active, rt_epoch = epoch,
      rt_reason = reason, rt_staleness_category = None, rt_max_staleness_ms = None\<rparr>"

definition readable :: "routing_input \<Rightarrow> region \<Rightarrow> bool" where
  "readable i c \<longleftrightarrow>
     rg_enabled c \<and> rg_supports_reads c \<and> rg_state c \<notin> {''unavailable'', ''isolated'', ''disabled''}
     \<and> fst (residencyDecision (rr_residency i) (Some c))
     \<and> js_le (num_or_zero (rr_projection_staleness_ms i)) (num_of_int (rg_max_staleness_ms c))"

definition strong_route ::
  "routing_input \<Rightarrow> region option \<Rightarrow> region option \<Rightarrow> nat \<Rightarrow> routing_decision" where
  "strong_route i requested active epoch =
     (case active of
        None \<Rightarrow> route_to ''reject_write_fenced'' None None epoch ''REGION_WRITE_FROZEN''
      | Some a \<Rightarrow>
         (let act = Some (rg_region_id a); res = residencyDecision (rr_residency i) (Some a) in
          if map_option wa_status (rr_authority i) \<noteq> Some ''active''
          then route_to ''reject_write_fenced'' None act epoch ''REGION_WRITE_FROZEN''
          else if \<not> fst res then route_to ''reject_residency'' None act epoch (snd res)
          else if rg_state a \<notin> {''healthy'', ''elevated'', ''degraded'', ''promoted''}
          then route_to ''reject_region_unavailable'' None act epoch ''REGION_UNAVAILABLE''
          else route_to
            (case requested of
               Some q \<Rightarrow> if rg_region_id q \<noteq> rg_region_id a \<and> rr_allow_queue i then ''queue_for_primary''
                         else ''route_primary''
             | None \<Rightarrow> ''route_primary'') act act epoch ''STRONG_AUTHORITY_ROUTED''))"

definition read_route ::
  "routing_input \<Rightarrow> region option \<Rightarrow> region option \<Rightarrow> region option \<Rightarrow> nat \<Rightarrow> routing_decision" where
  "read_route i requested home active epoch =
     (let act = map_option rg_region_id active in
      case find (readable i) (List.map_filter id [requested, home, active]) of
        Some c \<Rightarrow>
          \<lparr>rt_outcome = (if Some c = requested then ''route_read_replica''
             else if Some c = home then ''route_home_region'' else ''route_primary''),
           rt_selected = Some (rg_region_id c), rt_active_write = act, rt_epoch = epoch,
           rt_reason = ''EVENTUAL_READ_ROUTED'', rt_staleness_category = Some ''bounded'',
           rt_max_staleness_ms = Some (rg_max_staleness_ms c)\<rparr>
      | None \<Rightarrow>
         (let res = residencyDecision (rr_residency i) requested in
          case requested of
            None \<Rightarrow> route_to ''reject_region_unavailable'' None act epoch ''REGION_READ_UNAVAILABLE''
          | Some q \<Rightarrow>
              if rr_degraded_mode i = Some ''read_only'' \<and> rg_supports_reads q \<and> fst res
              then \<lparr>rt_outcome = ''degraded_read_only'', rt_selected = Some (rg_region_id q),
                    rt_active_write = act, rt_epoch = epoch, rt_reason = ''DEGRADED_READ_ONLY'',
                    rt_staleness_category = Some ''stale'', rt_max_staleness_ms = Some (rg_max_staleness_ms q)\<rparr>
              else if \<not> fst res then route_to ''reject_residency'' None act epoch (snd res)
              else route_to ''reject_region_unavailable'' None act epoch ''REGION_READ_UNAVAILABLE''))"

definition evaluateRegionalRouting :: "json \<Rightarrow> routing_input \<Rightarrow> routing_decision res" where
  "evaluateRegionalRouting raw i =
     bindE (assertNoSensitiveData raw) (\<lambda>_.
     bindE (ensure (rr_regions i \<noteq> []) (regional_error ''configuration'')) (\<lambda>_.
     bindE (enumValue (rr_consistency_class i) CONSISTENCY_CLASSES ''consistencyClass''
       (Some ''strong_authority'')) (\<lambda>cls.
     let requested = find_region (rr_regions i) (rr_requested_region i);
         active = find_region (rr_regions i) (map_option wa_active_region (rr_authority i));
         home = find_region (rr_regions i) (rr_home_region i);
         epoch = (case rr_authority i of None \<Rightarrow> 0 | Some a \<Rightarrow> wa_epoch a)
     in Inr (if cls = ''strong_authority'' then strong_route i requested active epoch
             else read_route i requested home active epoch))))"

subsection \<open>Workers and admission\<close>

record regional_worker =
  wk_status :: string
  wk_regional_status :: string
  wk_region :: string
  wk_authority_epoch :: nat
  wk_routing_versions :: "int list"

record queue_partition =
  pt_active_region :: string
  pt_ownership_epoch :: nat

record worker_input =
  wi_worker :: "regional_worker option"
  wi_partition :: "queue_partition option"
  wi_authority :: "write_authority option"
  wi_requested_ownership_epoch :: "nat option"
  wi_routing_version :: int
  wi_region :: "region option"
  wi_residency :: residency_request

definition worker_epoch :: "worker_input \<Rightarrow> nat" where
  "worker_epoch i = (case wi_worker i of None \<Rightarrow> 0 | Some w \<Rightarrow> wk_authority_epoch w)"

definition authority_epoch :: "write_authority option \<Rightarrow> nat" where
  "authority_epoch a = (case a of None \<Rightarrow> 0 | Some x \<Rightarrow> wa_epoch x)"

definition partition_epoch :: "worker_input \<Rightarrow> nat" where
  "partition_epoch i = (case wi_partition i of None \<Rightarrow> 0 | Some p \<Rightarrow> pt_ownership_epoch p)"

definition worker_reasons :: "worker_input \<Rightarrow> string list" where
  "worker_reasons i =
     (let w = wi_worker i; res = residencyDecision (wi_residency i) (wi_region i) in
      (if (case w of None \<Rightarrow> True | Some x \<Rightarrow> wk_status x \<notin> {''active'', ''idle''}
             \<or> wk_regional_status x \<in> {''fenced'', ''isolated''})
       then [''REGION_WORKER_INACTIVE''] else [])
      @ (if map_option wk_region w \<noteq> map_option pt_active_region (wi_partition i)
         then [''REGION_QUEUE_OWNERSHIP_MISMATCH''] else [])
      @ (if worker_epoch i \<noteq> authority_epoch (wi_authority i) then [''REGION_AUTHORITY_EPOCH_STALE''] else [])
      @ (if partition_epoch i \<noteq>
            (case wi_requested_ownership_epoch i of Some e \<Rightarrow> e | None \<Rightarrow> partition_epoch i)
         then [''REGION_QUEUE_OWNERSHIP_EPOCH_STALE''] else [])
      @ (if wi_routing_version i \<notin> set (case w of None \<Rightarrow> [] | Some x \<Rightarrow> wk_routing_versions x)
         then [''INVALID_ROUTING_VERSION''] else [])
      @ (if present (rq_classification (wi_residency i)) \<and>
            the (rq_classification (wi_residency i)) \<notin>
              set (case wi_region i of None \<Rightarrow> [] | Some r \<Rightarrow> rg_classifications r)
         then [''REGION_CLASSIFICATION_DENIED''] else [])
      @ (if \<not> fst res then [snd res] else []))"

definition evaluateWorkerRegionalEligibility :: "worker_input \<Rightarrow> bool \<times> string list" where
  "evaluateWorkerRegionalEligibility i = (worker_reasons i = [], unique_list (worker_reasons i))"

record admission_input =
  ad_authority :: "write_authority option"
  ad_degraded_mode :: "string option"
  ad_durable_storage :: bool
  ad_failover_in_progress :: bool
  ad_protected_operation :: bool
  ad_residency :: residency_request
  ad_target_region :: "region option"
  ad_health_status :: "string option"
  ad_replication_status :: "string option"
  ad_backpressure :: "string option"
  ad_worker_capacity :: "bool option"

definition evaluateRegionalAdmission :: "admission_input \<Rightarrow> string \<times> string" where
  "evaluateRegionalAdmission i =
     (let queueing = (ad_degraded_mode i = Some ''queue_only'' \<and> ad_durable_storage i);
          res = residencyDecision (ad_residency i) (ad_target_region i) in
      if map_option wa_status (ad_authority i) \<noteq> Some ''active'' then
        (if queueing then (''accepted_deferred'', ''REGION_QUEUE_ONLY_DEGRADED'')
         else (''rejected_no_write_authority'', ''REGION_WRITE_FROZEN''))
      else if ad_failover_in_progress i \<and> \<not> ad_protected_operation i
      then (''rejected_failover_in_progress'', ''REGION_FAILOVER_IN_PROGRESS'')
      else if \<not> fst res then (''rejected_residency'', snd res)
      else if ad_health_status i \<in> {Some ''unavailable'', Some ''isolated'', Some ''unknown''} then
        (if queueing then (''accepted_deferred'', ''REGION_QUEUE_ONLY_DEGRADED'')
         else (''rejected_region_unavailable'', ''REGION_UNAVAILABLE''))
      else if ad_replication_status i = Some ''unknown'' \<and> ad_failover_in_progress i
      then (''approval_required'', ''REPLICATION_LAG_UNKNOWN'')
      else if ad_backpressure i = Some ''shedding'' \<or> ad_worker_capacity i = Some False
      then (''accepted_deferred'', ''REGIONAL_CAPACITY_DEFERRED'')
      else (if present (ad_degraded_mode i) \<and> ad_degraded_mode i \<noteq> Some ''disabled''
            then ''accepted_degraded'' else ''accepted_primary'', ''REGIONAL_ADMISSION_ACCEPTED''))"

subsection \<open>Failover plans\<close>

record failover_step =
  fs_step_key :: string
  fs_order :: nat
  fs_dependencies :: "string list"

definition orderedFailoverSteps :: "string \<Rightarrow> failover_step list" where
  "orderedFailoverSteps failoverType =
     (let keys = (if failoverType = ''planned_switchover'' then PLANNED_SWITCHOVER_STEPS
                  else EMERGENCY_FAILOVER_STEPS)
      in map (\<lambda>i. \<lparr>fs_step_key = keys ! i, fs_order = i + 1,
                   fs_dependencies = (if i = 0 then [] else [keys ! (i - 1)])\<rparr>) [0..<length keys])"

record plan_input =
  pl_failover_type :: "string option"
  pl_trigger_type :: "string option"
  pl_source_region :: "string option"
  pl_target_region :: "string option"
  pl_target :: "region option"
  pl_target_health_status :: "string option"
  pl_target_own_health :: "string option"
  pl_residency :: residency_request
  pl_store_reachable :: "bool option"
  pl_source_fence_possible :: "bool option"
  pl_source_health_status :: "string option"
  pl_promotion_eligible :: "bool option"
  pl_replication_status :: "string option"
  pl_data_loss_accepted :: "bool option"
  pl_require_approval :: bool
  pl_approved :: "bool option"
  pl_authority_epoch :: nat

record failover_plan =
  fp_type :: string
  fp_source_epoch :: nat
  fp_target_epoch :: nat
  fp_steps :: "failover_step list"
  fp_potential_data_loss :: bool

text \<open>The health of the target: the supplied one, else its recorded health, else its state.\<close>

definition target_health :: "plan_input \<Rightarrow> region \<Rightarrow> string" where
  "target_health i t =
     or_default (pl_target_health_status i)
       (or_default (pl_target_own_health i) (or_default (Some (rg_state t)) ''unknown''))"

definition validateFailoverPlan :: "json \<Rightarrow> plan_input \<Rightarrow> failover_plan res" where
  "validateFailoverPlan raw i =
     bindE (assertNoSensitiveData raw) (\<lambda>_.
     bindE (enumValue (pl_failover_type i) FAILOVER_TYPES ''failoverType'' None) (\<lambda>ft.
     bindE (enumValue (pl_trigger_type i) FAILOVER_TRIGGERS ''triggerType'' None) (\<lambda>_.
     bindE (ensure (pl_source_region i \<noteq> pl_target_region i) (regional_error ''targetRegionId'')) (\<lambda>_.
     case pl_target i of
       None \<Rightarrow> Inl (regional_error ''targetRegionId'')
     | Some t \<Rightarrow>
     bindE (ensure (writable t) (regional_error ''targetRegionId'')) (\<lambda>_.
     bindE (ensure (target_health i t \<in> {''healthy'', ''elevated'', ''promoted'', ''failover_candidate''})
       (App_Error 409 ''REGION_TARGET_NOT_READY'' '''')) (\<lambda>_.
     bindE (ensure (fst (residencyDecision (pl_residency i) (Some t)))
       (App_Error 409 (snd (residencyDecision (pl_residency i) (Some t))) '''')) (\<lambda>_.
     bindE (ensure (pl_store_reachable i = Some True \<and> pl_source_fence_possible i = Some True)
       (App_Error 409 ''REGION_SPLIT_BRAIN_PREVENTION_UNAVAILABLE'' '''')) (\<lambda>_.
     bindE (ensure (ft = ''emergency_failover'' \<longrightarrow>
         pl_source_health_status i \<in> {Some ''unavailable'', Some ''isolated''})
       (regional_error ''sourceHealthStatus'')) (\<lambda>_.
     bindE (ensure (pl_promotion_eligible i = Some True \<or> pl_data_loss_accepted i = Some True)
       (App_Error 409 (if pl_replication_status i = Some ''unknown'' then ''REGION_REPLICATION_UNKNOWN''
          else ''REGION_DATA_LOSS_ACCEPTANCE_REQUIRED'') '''')) (\<lambda>_.
     bindE (ensure (pl_require_approval i \<longrightarrow> pl_approved i = Some True)
       (App_Error 409 ''REGION_FAILOVER_APPROVAL_REQUIRED'' '''')) (\<lambda>_.
     Inr \<lparr>fp_type = ft, fp_source_epoch = pl_authority_epoch i, fp_target_epoch = pl_authority_epoch i + 1,
          fp_steps = orderedFailoverSteps ft,
          fp_potential_data_loss = (pl_promotion_eligible i \<noteq> Some True)\<rparr>)))))))))))"

record staleness_result =
  ps_staleness_ms :: "int option"
  ps_category :: string

definition projectionStaleness :: "int option \<Rightarrow> int \<Rightarrow> int option \<Rightarrow> staleness_result" where
  "projectionStaleness generatedAt now maximumStalenessMs =
     (case generatedAt of
        None \<Rightarrow> \<lparr>ps_staleness_ms = None, ps_category = ''unknown''\<rparr>
      | Some g \<Rightarrow>
         (let age = max 0 (now - g);
              maximum = max 0 (case maximumStalenessMs of None \<Rightarrow> 0 | Some m \<Rightarrow> m)
          in \<lparr>ps_staleness_ms = Some age,
              ps_category = (if age \<le> maximum then ''fresh'' else if age \<le> maximum * 2 then ''bounded''
                else if age \<le> max (maximum * 10) 60000 then ''stale'' else ''critical'')\<rparr>))"

subsection \<open>What a validated input promises\<close>

lemma residency_allowed_iff:
  "fst (residencyDecision q (Some g)) \<longleftrightarrow>
     set (rq_residency_tags q) \<subseteq> set (rg_residency_tags g)
     \<and> or_default (rq_classification q) ''internal'' \<in> set (rg_classifications g)"
  by (auto simp: residencyDecision_def residency_code_def Let_def list_ex_iff)

lemma find_region_Some: "find_region regions v = Some g \<Longrightarrow> g \<in> set regions \<and> v = Some (rg_region_id g)"
  by (auto simp: find_region_def find_Some_iff)

lemma validated_configuration:
  assumes "validateNormalizedConfiguration c = Inr u"
  shows "distinct (map rg_region_id (cf_regions c))
    \<and> (\<exists>p\<in>set (cf_regions c). rg_region_id p = cf_primary c \<and> writable p)
    \<and> (\<forall>s. cf_standby c = Some s \<longrightarrow>
         s \<noteq> cf_primary c \<and> (\<exists>r\<in>set (cf_regions c). rg_region_id r = s \<and> writable r))
    \<and> set (cf_permitted c) \<union> set (cf_prohibited c) \<subseteq> rg_region_id ` set (cf_regions c)
    \<and> set (cf_permitted c) \<inter> set (cf_prohibited c) = {}
    \<and> cf_lease_heartbeat_ms c * 2 < cf_lease_ms c
    \<and> cf_heartbeat_ms c < cf_health_timeout_ms c"
proof -
  from assms obtain p where p: "find_region (cf_regions c) (Some (cf_primary c)) = Some p" "writable p"
    and a: "distinct (map rg_region_id (cf_regions c))"
      "\<forall>i\<in>set (cf_permitted c @ cf_prohibited c). i \<in> rg_region_id ` set (cf_regions c)"
      "\<not> list_ex (\<lambda>i. i \<in> set (cf_prohibited c)) (cf_permitted c)"
      "cf_lease_heartbeat_ms c * 2 < cf_lease_ms c" "cf_heartbeat_ms c < cf_health_timeout_ms c"
    and s: "case cf_standby c of None \<Rightarrow> True | Some s \<Rightarrow>
       (case find_region (cf_regions c) (Some s) of
          Some r \<Rightarrow> writable r \<and> Some (rg_region_id r) \<noteq> Some (rg_region_id p) | None \<Rightarrow> False)"
    unfolding validateNormalizedConfiguration_def Let_def bindE_Inr_iff ensure_Inr_iff list_all_iff
    by (simp split: option.split_asm)
  have st: "s \<noteq> cf_primary c \<and> (\<exists>r\<in>set (cf_regions c). rg_region_id r = s \<and> writable r)"
    if "cf_standby c = Some s" for s
    using s that find_region_Some [OF p(1)] by (auto split: option.splits dest: find_region_Some)
  show ?thesis
    using a st p find_region_Some [OF p(1)] by (auto simp: list_ex_iff)
qed

lemma normalized_region:
  assumes "normalizeRegion (i, r) = Inr g"
  shows "SAFE_IDENTIFIER (rg_region_id g) \<and> rg_role g \<in> set REGIONAL_ROLES \<and> rg_state g \<in> set REGIONAL_STATES
    \<and> 1 \<le> rg_priority g \<and> rg_priority g \<le> max_region_priority
    \<and> 0 \<le> rg_max_staleness_ms g \<and> rg_max_staleness_ms g \<le> 86400000"
  using assms
  unfolding normalizeRegion_def Let_def bindE_Inr_iff
  by (auto dest!: safeIdentifier_Inr enumValue_Inr boundedInteger_Inr)

text \<open>
  A regional configuration is accepted only when it is coherent: between one and sixteen regions with
  distinct safe identifiers and bounded priorities and staleness; a primary that is a configured, enabled and
  write-capable region and a standby that is another such region; permitted and prohibited failover regions that
  are configured and disjoint; and heartbeats that leave room to miss one within a lease and within the health
  timeout.
\<close>

theorem accepted_configuration_is_coherent:
  assumes "normalizeRegionalConfiguration raw s = Inr c"
  shows "1 \<le> length (cf_regions c) \<and> length (cf_regions c) \<le> max_regions
    \<and> distinct (map rg_region_id (cf_regions c))
    \<and> (\<forall>g\<in>set (cf_regions c). SAFE_IDENTIFIER (rg_region_id g) \<and> rg_role g \<in> set REGIONAL_ROLES
         \<and> rg_state g \<in> set REGIONAL_STATES \<and> 1 \<le> rg_priority g \<and> rg_priority g \<le> max_region_priority
         \<and> 0 \<le> rg_max_staleness_ms g \<and> rg_max_staleness_ms g \<le> 86400000)
    \<and> (\<exists>p\<in>set (cf_regions c). rg_region_id p = cf_primary c \<and> writable p)
    \<and> (\<forall>b. cf_standby c = Some b \<longrightarrow>
         b \<noteq> cf_primary c \<and> (\<exists>r\<in>set (cf_regions c). rg_region_id r = b \<and> writable r))
    \<and> set (cf_permitted c) \<union> set (cf_prohibited c) \<subseteq> rg_region_id ` set (cf_regions c)
    \<and> set (cf_permitted c) \<inter> set (cf_prohibited c) = {}
    \<and> min_lease_ms \<le> cf_lease_ms c \<and> cf_lease_ms c \<le> max_lease_ms
    \<and> 1000 \<le> cf_lease_heartbeat_ms c \<and> cf_lease_heartbeat_ms c * 2 < cf_lease_ms c
    \<and> 1000 \<le> cf_heartbeat_ms c \<and> cf_heartbeat_ms c < cf_health_timeout_ms c"
proof -
  from assms obtain regions lease beat hb u where
    r: "mapE normalizeRegion (zip [0..<length (ci_regions s)] (ci_regions s)) = Inr regions"
    and n: "regions \<noteq> [] \<and> length regions \<le> max_regions"
    and hb: "boundedInteger (ci_heartbeat_ms s) ''regionalHeartbeatIntervalMs'' 1000 300000 30000 = Inr hb"
    and l: "boundedInteger (ci_lease_ms s) ''authorityLeaseDurationMs'' min_lease_ms max_lease_ms 60000 = Inr lease"
    and b: "boundedInteger (ci_lease_heartbeat_ms s) ''authorityHeartbeatIntervalMs'' 1000 300000 15000 = Inr beat"
    and v: "validateNormalizedConfiguration c = Inr u"
    and c: "cf_regions c = regions" "cf_lease_ms c = lease" "cf_lease_heartbeat_ms c = beat" "cf_heartbeat_ms c = hb"
    unfolding normalizeRegionalConfiguration_def bindE_Inr_iff ensure_Inr_iff Let_def
    by (elim exE conjE) clarsimp
  have g: "\<forall>g\<in>set (cf_regions c). SAFE_IDENTIFIER (rg_region_id g) \<and> rg_role g \<in> set REGIONAL_ROLES
         \<and> rg_state g \<in> set REGIONAL_STATES \<and> 1 \<le> rg_priority g \<and> rg_priority g \<le> max_region_priority
         \<and> 0 \<le> rg_max_staleness_ms g \<and> rg_max_staleness_ms g \<le> 86400000"
    unfolding c(1) by (rule mapE_all [OF r]) (metis normalized_region surj_pair)
  have b: "min_lease_ms \<le> cf_lease_ms c" "cf_lease_ms c \<le> max_lease_ms"
      "1000 \<le> cf_lease_heartbeat_ms c" "1000 \<le> cf_heartbeat_ms c"
    using boundedInteger_Inr [OF l] boundedInteger_Inr [OF b] boundedInteger_Inr [OF hb] c by simp_all
  have l: "1 \<le> length (cf_regions c)" "length (cf_regions c) \<le> max_regions"
    using n c(1) by (simp_all add: Suc_le_eq)
  show ?thesis
    using validated_configuration [OF v] g b l by blast
qed

definition sample_region_input :: "string \<Rightarrow> string \<Rightarrow> region_input" where
  "sample_region_input rid role =
     \<lparr>gi_region_id = Some rid, gi_display_name = None, gi_region_group = None, gi_role = Some role,
      gi_state = Some ''healthy'', gi_priority = None, gi_provider = None, gi_residency_tags = [Some ''eu''],
      gi_classifications = None, gi_supports_write = Some True, gi_supports_worker = Some True,
      gi_supports_recovery = None, gi_supports_projections = None, gi_supports_reads = Some True,
      gi_supports_backup = None, gi_max_staleness_ms = None, gi_enabled = None\<rparr>"

definition sample_configuration_input :: configuration_input where
  "sample_configuration_input =
     \<lparr>ci_name = None, ci_description = None, ci_version = None, ci_status = None,
      ci_regions = [sample_region_input ''r1'' ''primary'', sample_region_input ''r2'' ''warm_standby''],
      ci_primary = Some ''r1'', ci_standby = Some ''r2'', ci_permitted = [Some ''r2''], ci_prohibited = [],
      ci_max_promotion_lag_ms = None, ci_max_data_loss_ms = None, ci_health_timeout_ms = None,
      ci_heartbeat_ms = None, ci_lease_ms = None, ci_lease_heartbeat_ms = None, ci_failover_approval = None,
      ci_failback_approval = None, ci_degraded_mode = None, ci_cache_isolation = None,
      ci_projection_recovery = None\<rparr>"

definition sample_configuration :: configuration where
  "sample_configuration = projr (normalizeRegionalConfiguration (JObj []) sample_configuration_input)"

lemma sample_configuration_accepted:
  "normalizeRegionalConfiguration (JObj []) sample_configuration_input = Inr sample_configuration"
  by code_simp

theorem accepted_configuration_is_coherent_witness:
  "\<exists>c. normalizeRegionalConfiguration (JObj []) sample_configuration_input = Inr c
     \<and> cf_lease_heartbeat_ms c * 2 < cf_lease_ms c"
  using sample_configuration_accepted accepted_configuration_is_coherent [OF sample_configuration_accepted]
  by blast

lemma ordered_steps_length:
  "length (orderedFailoverSteps ft) =
     length (if ft = ''planned_switchover'' then PLANNED_SWITCHOVER_STEPS else EMERGENCY_FAILOVER_STEPS)"
  by (simp add: orderedFailoverSteps_def Let_def)

lemma ordered_steps_nth:
  assumes "i < length (orderedFailoverSteps ft)"
  shows "fs_order (orderedFailoverSteps ft ! i) = i + 1
    \<and> fs_dependencies (orderedFailoverSteps ft ! i) =
        (if i = 0 then [] else [fs_step_key (orderedFailoverSteps ft ! (i - 1))])"
  using assms by (auto simp: orderedFailoverSteps_def Let_def)

definition position_of :: "string \<Rightarrow> failover_step list \<Rightarrow> nat" where
  "position_of k ss = length (takeWhile (\<lambda>x. fs_step_key x \<noteq> k) ss)"

text \<open>
  The order in which the steps of a plan protect the data: admission is frozen before the source is fenced (or its
  authority frozen), that happens before the transfer of the authority, which comes before the transfer of the
  queues, the activation of the target and the resumption of admission.
\<close>

definition fencing_step :: "string \<Rightarrow> string" where
  "fencing_step ft = (if ft = ''planned_switchover'' then ''freeze_source_authority'' else ''fence_source'')"

definition safely_ordered :: "string \<Rightarrow> failover_step list \<Rightarrow> bool" where
  "safely_ordered ft ss \<longleftrightarrow>
     distinct (map fs_step_key ss)
     \<and> sorted_wrt (\<lambda>a b. position_of a ss < position_of b ss)
         [''require_approval'', ''freeze_admission'', ''verify_replication'', fencing_step ft, ''transfer_authority'',
          ''transfer_queues'', ''activate_target_workers'', ''resume_admission'']
     \<and> position_of ''resume_admission'' ss < length ss"

lemma ordered_steps_planned: "safely_ordered ''planned_switchover'' (orderedFailoverSteps ''planned_switchover'')"
  by code_simp

lemma ordered_steps_emergency: "safely_ordered ''emergency_failover'' (orderedFailoverSteps ''emergency_failover'')"
  by code_simp

lemma ordered_steps_safe: "safely_ordered ft (orderedFailoverSteps ft)"
proof (cases "ft = ''planned_switchover''")
  case False
  then have "orderedFailoverSteps ft = orderedFailoverSteps ''emergency_failover''"
    and "fencing_step ft = fencing_step ''emergency_failover''"
    by (simp_all add: orderedFailoverSteps_def fencing_step_def)
  then show ?thesis using ordered_steps_emergency by (simp only: safely_ordered_def)
qed (simp only: ordered_steps_planned)

text \<open>
  A failover plan is accepted only towards another, write-capable and healthy region that satisfies the data
  residency, only when the authority store is reachable and the source can be fenced, only with replication that
  is eligible for promotion or an accepted data loss (and the plan says which), only with the approval it needs,
  and in an emergency only from an unavailable or isolated source. Its target epoch is the next one, and its steps
  freeze admission, fence the source, move authority and queues, activate the target and resume admission in that
  order, each step waiting for the one before.
\<close>

theorem accepted_failover_is_safe:
  assumes "validateFailoverPlan raw i = Inr p"
  shows "pl_source_region i \<noteq> pl_target_region i
    \<and> (\<exists>t. pl_target i = Some t \<and> writable t
         \<and> target_health i t \<in> {''healthy'', ''elevated'', ''promoted'', ''failover_candidate''}
         \<and> set (rq_residency_tags (pl_residency i)) \<subseteq> set (rg_residency_tags t)
         \<and> or_default (rq_classification (pl_residency i)) ''internal'' \<in> set (rg_classifications t))
    \<and> pl_store_reachable i = Some True \<and> pl_source_fence_possible i = Some True
    \<and> (fp_type p = ''emergency_failover'' \<longrightarrow> pl_source_health_status i \<in> {Some ''unavailable'', Some ''isolated''})
    \<and> (if fp_potential_data_loss p then pl_data_loss_accepted i = Some True else pl_promotion_eligible i = Some True)
    \<and> (pl_require_approval i \<longrightarrow> pl_approved i = Some True)
    \<and> fp_source_epoch p = pl_authority_epoch i \<and> fp_target_epoch p = fp_source_epoch p + 1
    \<and> safely_ordered (fp_type p) (fp_steps p)
    \<and> (\<forall>k. 0 < k \<and> k < length (fp_steps p) \<longrightarrow>
         fs_dependencies (fp_steps p ! k) = [fs_step_key (fp_steps p ! (k - 1))])"
proof -
  from assms obtain t ft where t: "pl_target i = Some t" "writable t"
      "target_health i t \<in> {''healthy'', ''elevated'', ''promoted'', ''failover_candidate''}"
      "fst (residencyDecision (pl_residency i) (Some t))"
    and s: "pl_source_region i \<noteq> pl_target_region i"
      "pl_store_reachable i = Some True \<and> pl_source_fence_possible i = Some True"
      "ft = ''emergency_failover'' \<longrightarrow> pl_source_health_status i \<in> {Some ''unavailable'', Some ''isolated''}"
      "pl_promotion_eligible i = Some True \<or> pl_data_loss_accepted i = Some True"
      "pl_require_approval i \<longrightarrow> pl_approved i = Some True"
    and p: "fp_type p = ft" "fp_source_epoch p = pl_authority_epoch i" "fp_target_epoch p = pl_authority_epoch i + 1"
      "fp_steps p = orderedFailoverSteps ft" "fp_potential_data_loss p = (pl_promotion_eligible i \<noteq> Some True)"
    unfolding validateFailoverPlan_def bindE_Inr_iff ensure_Inr_iff
    by (elim exE conjE) (cases "pl_target i"; clarsimp simp only: option.case sum.distinct bindE_Inr_iff
        ensure_Inr_iff sum.inject failover_plan.select_convs option.inject simp_thms)
  have o: "\<forall>k. 0 < k \<and> k < length (fp_steps p) \<longrightarrow>
         fs_dependencies (fp_steps p ! k) = [fs_step_key (fp_steps p ! (k - 1))]"
    using ordered_steps_nth [of _ ft] unfolding p(4) by simp
  have d: "if fp_potential_data_loss p then pl_data_loss_accepted i = Some True else pl_promotion_eligible i = Some True"
    using s(4) p(5) by auto
  have sf: "safely_ordered (fp_type p) (fp_steps p)" unfolding p(1,4) by (rule ordered_steps_safe)
  show ?thesis
    using t(1-3) s(1,2,3,5) p(2,3) d o sf t(4) [unfolded residency_allowed_iff] unfolding p(1) by simp
qed

definition sample_region :: region where
  "sample_region = hd (tl (cf_regions sample_configuration))"

definition sample_residency :: residency_request where
  "sample_residency = \<lparr>rq_residency_tags = [''eu''], rq_classification = None\<rparr>"

definition sample_plan_input :: plan_input where
  "sample_plan_input =
     \<lparr>pl_failover_type = Some ''emergency_failover'', pl_trigger_type = Some ''regional_outage'',
      pl_source_region = Some ''r1'', pl_target_region = Some ''r2'', pl_target = Some sample_region,
      pl_target_health_status = None, pl_target_own_health = None, pl_residency = sample_residency,
      pl_store_reachable = Some True, pl_source_fence_possible = Some True,
      pl_source_health_status = Some ''unavailable'', pl_promotion_eligible = None,
      pl_replication_status = Some ''unknown'', pl_data_loss_accepted = Some True, pl_require_approval = True,
      pl_approved = Some True, pl_authority_epoch = 4\<rparr>"

lemma sample_plan_accepted: "isl (validateFailoverPlan (JObj []) sample_plan_input) = False"
  by code_simp

theorem accepted_failover_is_safe_witness:
  "\<exists>p. validateFailoverPlan (JObj []) sample_plan_input = Inr p \<and> fp_target_epoch p = fp_source_epoch p + 1
     \<and> safely_ordered (fp_type p) (fp_steps p)"
proof -
  obtain p where "validateFailoverPlan (JObj []) sample_plan_input = Inr p"
    using sample_plan_accepted by (cases "validateFailoverPlan (JObj []) sample_plan_input") auto
  with accepted_failover_is_safe [OF this] show ?thesis by blast
qed

lemma strong_epoch: "rt_epoch (strong_route i q a e) = e"
  by (simp add: strong_route_def route_to_def Let_def split: option.split)

lemma strong_selected:
  assumes "rt_selected (strong_route i q act e) = Some rid"
  shows "\<exists>g a. act = Some g \<and> rid = rg_region_id g \<and> rr_authority i = Some a \<and> wa_status a = ''active''
    \<and> fst (residencyDecision (rr_residency i) (Some g))
    \<and> rg_state g \<in> {''healthy'', ''elevated'', ''degraded'', ''promoted''}"
proof (cases act)
  case None
  with assms show ?thesis by (simp add: strong_route_def route_to_def)
next
  case (Some g)
  note sel = assms [unfolded strong_route_def Some option.case Let_def]
  from sel have st: "map_option wa_status (rr_authority i) = Some ''active''"
    by (rule contrapos_pp) (simp only: if_True if_False route_to_def not_False_eq_True routing_decision.select_convs
      option.distinct)
  moreover from sel st have res: "fst (residencyDecision (rr_residency i) (Some g))"
    by (simp add: route_to_def split: if_splits)
  moreover from sel st res have "rg_state g \<in> {''healthy'', ''elevated'', ''degraded'', ''promoted''}"
    "rid = rg_region_id g"
    by (simp_all add: route_to_def del: insert_iff split: if_splits)
  ultimately show ?thesis using Some by auto
qed

lemma read_selected:
  assumes "rt_selected (read_route i requested home act e) = Some rid"
  shows "\<exists>g. Some g \<in> {requested, home, act} \<and> rid = rg_region_id g
    \<and> fst (residencyDecision (rr_residency i) (Some g))
    \<and> (if rt_outcome (read_route i requested home act e) = ''degraded_read_only''
       then rg_supports_reads g \<and> rr_degraded_mode i = Some ''read_only'' \<and> requested = Some g
       else readable i g)"
proof (cases "find (readable i) (List.map_filter id [requested, home, act])")
  case (Some g)
  then have r: "readable i g" and "g \<in> set (List.map_filter id [requested, home, act])"
    by (auto simp: find_Some_iff)
  moreover from calculation have "Some g \<in> {requested, home, act}"
    by (auto simp: List.map_filter_def split: if_splits)
  moreover have "rid = rg_region_id g" "rt_outcome (read_route i requested home act e) \<noteq> ''degraded_read_only''"
    using assms unfolding read_route_def Let_def Some by simp_all
  moreover have "fst (residencyDecision (rr_residency i) (Some g))" using r by (simp add: readable_def)
  ultimately show ?thesis by (intro exI [of _ g]) simp
next
  case None
  with assms show ?thesis
    by (auto simp: read_route_def Let_def route_to_def split: option.splits if_splits)
qed

text \<open>
  C36: Whatever request is routed to a region, that region is configured and allowed to hold the data. Strongly
  consistent work only ever goes to the region of the active write authority, under the epoch of that authority and
  while that region is up; an ordinary read goes to an enabled region that serves reads, is not cut off and whose
  staleness bound covers the staleness of the projection.
\<close>

theorem routed_requests_are_safe:
  assumes "evaluateRegionalRouting raw i = Inr d" and "rt_selected d = Some rid"
  shows "\<exists>g\<in>set (rr_regions i). rg_region_id g = rid
    \<and> set (rq_residency_tags (rr_residency i)) \<subseteq> set (rg_residency_tags g)
    \<and> or_default (rq_classification (rr_residency i)) ''internal'' \<in> set (rg_classifications g)
    \<and> (if enumValue (rr_consistency_class i) CONSISTENCY_CLASSES ''consistencyClass'' (Some ''strong_authority'')
            = Inr ''strong_authority''
        then rg_state g \<in> {''healthy'', ''elevated'', ''degraded'', ''promoted''}
          \<and> (\<exists>a. rr_authority i = Some a \<and> wa_status a = ''active'' \<and> wa_active_region a = rid
               \<and> rt_epoch d = wa_epoch a)
        else if rt_outcome d = ''degraded_read_only''
        then rg_supports_reads g \<and> rr_degraded_mode i = Some ''read_only'' \<and> rr_requested_region i = Some rid
        else rg_enabled g \<and> rg_supports_reads g \<and> rg_state g \<notin> {''unavailable'', ''isolated'', ''disabled''}
          \<and> js_le (num_or_zero (rr_projection_staleness_ms i)) (num_of_int (rg_max_staleness_ms g)))"
proof -
  let ?strong = "''strong_authority''"
  let ?active = "find_region (rr_regions i) (map_option wa_active_region (rr_authority i))"
  let ?requested = "find_region (rr_regions i) (rr_requested_region i)"
  let ?home = "find_region (rr_regions i) (rr_home_region i)"
  let ?epoch = "case rr_authority i of None \<Rightarrow> 0 | Some a \<Rightarrow> wa_epoch a"
  obtain cls where cls: "enumValue (rr_consistency_class i) CONSISTENCY_CLASSES ''consistencyClass''
        (Some ''strong_authority'') = Inr cls"
    and d: "d = (if cls = ?strong then strong_route i ?requested ?active ?epoch
                 else read_route i ?requested ?home ?active ?epoch)"
    using assms(1) unfolding evaluateRegionalRouting_def bindE_Inr_iff Let_def by (elim exE conjE) (simp only: sum.inject)
  show ?thesis
  proof (cases "cls = ?strong")
    case True
    with d assms(2) have "rt_selected (strong_route i ?requested ?active ?epoch) = Some rid" by simp
    from strong_selected [OF this] obtain g a where "?active = Some g" "rid = rg_region_id g" "rr_authority i = Some a"
      "wa_status a = ''active''" "fst (residencyDecision (rr_residency i) (Some g))"
      "rg_state g \<in> {''healthy'', ''elevated'', ''degraded'', ''promoted''}" by blast
    moreover have "rt_epoch d = ?epoch" using d True by (simp add: strong_epoch)
    ultimately show ?thesis
      using find_region_Some [of "rr_regions i" "map_option wa_active_region (rr_authority i)" g] cls True
      by (intro bexI [of _ g]) (simp_all add: residency_allowed_iff)
  next
    case False
    with d assms(2) have "rt_selected (read_route i ?requested ?home ?active ?epoch) = Some rid" by simp
    from read_selected [OF this] obtain g where g: "Some g \<in> {?requested, ?home, ?active}" "rid = rg_region_id g"
      "fst (residencyDecision (rr_residency i) (Some g))"
      and r: "if rt_outcome d = ''degraded_read_only''
        then rg_supports_reads g \<and> rr_degraded_mode i = Some ''read_only'' \<and> ?requested = Some g else readable i g"
      unfolding d if_not_P [OF False] by blast
    then have "g \<in> set (rr_regions i)" by (auto dest!: find_region_Some [OF sym])
    then show ?thesis
      using g r cls False find_region_Some [of "rr_regions i" "rr_requested_region i" g]
      by (intro bexI [of _ g]) (auto simp: residency_allowed_iff readable_def)
  qed
qed

definition sample_routing :: routing_input where
  "sample_routing =
     \<lparr>rr_regions = cf_regions sample_configuration, rr_consistency_class = None, rr_requested_region = Some ''r2'',
      rr_home_region = None,
      rr_authority = Some \<lparr>wa_active_region = ''r1'', wa_epoch = 4, wa_status = ''active''\<rparr>,
      rr_residency = sample_residency, rr_allow_queue = True, rr_projection_staleness_ms = None,
      rr_degraded_mode = None\<rparr>"

lemma sample_routing_routed:
  "map_prod id rt_selected (Inr () :: unit res, projr (evaluateRegionalRouting (JObj []) sample_routing))
     = (Inr (), Some ''r1'') \<and> \<not> isl (evaluateRegionalRouting (JObj []) sample_routing)"
  by code_simp

theorem routed_requests_are_safe_witness:
  "\<exists>d g. evaluateRegionalRouting (JObj []) sample_routing = Inr d \<and> rt_selected d = Some ''r1''
     \<and> g \<in> set (rr_regions sample_routing) \<and> rg_region_id g = ''r1''"
proof -
  obtain d where d: "evaluateRegionalRouting (JObj []) sample_routing = Inr d"
    using sample_routing_routed by (cases "evaluateRegionalRouting (JObj []) sample_routing") auto
  with sample_routing_routed have "rt_selected d = Some ''r1''" by simp
  with routed_requests_are_safe [OF d this] d show ?thesis by blast
qed

text \<open>
  A worker may execute exactly when it is active or idle, neither fenced nor isolated, in the region that
  owns the queue partition, under the current authority epoch and the requested ownership epoch of the partition,
  supports the routing version, and its region is allowed to hold the data; otherwise at least one reason is given and no
   reason twice.
\<close>

theorem eligible_workers:
  "(fst (evaluateWorkerRegionalEligibility i) \<longleftrightarrow>
      (\<exists>w. wi_worker i = Some w \<and> wk_status w \<in> {''active'', ''idle''}
         \<and> wk_regional_status w \<notin> {''fenced'', ''isolated''}
         \<and> (\<exists>p. wi_partition i = Some p \<and> pt_active_region p = wk_region w)
         \<and> wk_authority_epoch w = authority_epoch (wi_authority i)
         \<and> wi_requested_ownership_epoch i \<in> {None, Some (partition_epoch i)}
         \<and> wi_routing_version i \<in> set (wk_routing_versions w))
      \<and> (\<exists>g. wi_region i = Some g
         \<and> set (rq_residency_tags (wi_residency i)) \<subseteq> set (rg_residency_tags g)
         \<and> or_default (rq_classification (wi_residency i)) ''internal'' \<in> set (rg_classifications g)))
    \<and> (fst (evaluateWorkerRegionalEligibility i) \<longleftrightarrow> snd (evaluateWorkerRegionalEligibility i) = [])
    \<and> distinct (snd (evaluateWorkerRegionalEligibility i))"
  (is "(?E \<longleftrightarrow> ?W \<and> ?R) \<and> _")
proof -
  have none: "\<not> fst (residencyDecision q None)" for q
    by (cases "list_ex (\<lambda>t. t \<notin> set []) (rq_residency_tags q)")
       (simp_all add: residencyDecision_def residency_code_def)
  have "?E \<longleftrightarrow> worker_reasons i = []" by (simp add: evaluateWorkerRegionalEligibility_def)
  also have "\<dots> \<longleftrightarrow> ?W \<and> ?R"
  proof (cases "wi_region i")
    case None
    then show ?thesis using none by (auto simp: worker_reasons_def Let_def)
  next
    case (Some g)
    show ?thesis
      unfolding worker_reasons_def Let_def Some append_is_Nil_conv residency_allowed_iff
      by (cases "wi_worker i"; cases "rq_classification (wi_residency i)"; cases "wi_requested_ownership_epoch i";
          cases "wi_partition i")
         (auto simp: worker_epoch_def residency_allowed_iff split: if_splits)
  qed
  finally show ?thesis by (simp add: evaluateWorkerRegionalEligibility_def)
qed

end
