(* ===== verification/Regional_Authority.thy ===== *)
theory Regional_Authority
  imports Regional_Core Document_Store
begin

text \<open>
  backend/src/services/regionalAuthority.service.js: the write authority of a scope (platform, organization or
  workspace), a document (backend/src/models/RegionalWriteAuthority.js) that says which region may write, under
  which epoch and lease; the fence in front of every write; and the acquisition, renewal, freezing and transfer of
  the authority. The collection is a \<open>store_ops\<close> keyed by \<open>authorityKey\<close>; the audit collection of transitions
  is the interface \<open>transition_log\<close>. \<open>env n\<close> is what other services do before the \<open>n\<close>-th call. The schema
  validators that could reject a document are not modelled, nor are the metrics and the service registration.
\<close>

subsection \<open>Scopes and records\<close>

record authority_scope =
  as_scope :: "string option"
  as_organization :: "string option"
  as_workspace :: "string option"

datatype authority_status =
    Authority_Active | Authority_Transferring | Authority_Frozen | Authority_Isolated | Authority_Recovery_Required

record authority =
  au_key :: string
  au_scope :: authority_scope
  au_region :: string
  au_epoch :: nat
  au_status :: authority_status
  au_owner :: string
  au_lease_id :: string
  au_lease_epoch :: nat
  au_expires :: int
  au_heartbeat :: int
  au_last_transition :: string
  au_last_transition_at :: int

datatype transition_type = Acquire_Transition | Transfer_Transition | Failback_Transition

record authority_transition =
  at_id :: string
  at_key :: string
  at_source_region :: "string option"
  at_target_region :: string
  at_source_epoch :: nat
  at_target_epoch :: nat
  at_type :: transition_type
  at_committed_at :: int

definition organization_key :: "string \<Rightarrow> string" where
  "organization_key org = ''organization:'' @ org"

definition workspace_key :: "string \<Rightarrow> string \<Rightarrow> string" where
  "workspace_key org ws = ''organization:'' @ org @ '':workspace:'' @ ws"

definition authorityKey :: "authority_scope \<Rightarrow> string res" where
  "authorityKey i =
     (if as_scope i = Some ''platform'' then Inr ''platform''
      else bindE (safeIdentifier (as_organization i) ''organizationId'') (\<lambda>org.
        if as_scope i = Some ''organization'' \<or> \<not> present (as_workspace i) then Inr (organization_key org)
        else bindE (safeIdentifier (as_workspace i) ''workspaceId'') (\<lambda>ws. Inr (workspace_key org ws))))"

definition authorityKeys :: "authority_scope \<Rightarrow> string list res" where
  "authorityKeys i =
     (if as_scope i = Some ''platform'' then Inr [''platform'']
      else bindE (safeIdentifier (as_organization i) ''organizationId'') (\<lambda>org.
        if present (as_workspace i)
        then bindE (safeIdentifier (as_workspace i) ''workspaceId'')
               (\<lambda>ws. Inr [workspace_key org ws, organization_key org, ''platform''])
        else Inr [organization_key org, ''platform'']))"

subsection \<open>The collections\<close>

text \<open>
  \<open>L t log\<close> records the transition \<open>t\<close>; two unique indexes, on the transition id and on the authority key with the
  target epoch, make it fail on a duplicate. \<open>rows\<close> are the recorded transitions.
\<close>

definition same_transition :: "authority_transition \<Rightarrow> authority_transition \<Rightarrow> bool" where
  "same_transition t u \<longleftrightarrow>
     at_id t = at_id u \<or> (at_key t = at_key u \<and> at_target_epoch t = at_target_epoch u)"

locale transition_log =
  fixes L :: "authority_transition \<Rightarrow> 't \<Rightarrow> bool \<times> 't"
    and rows :: "'t \<Rightarrow> authority_transition set"
  assumes log_dup: "t' \<in> rows l \<Longrightarrow> same_transition t t' \<Longrightarrow> L t l = (False, l)"
    and log_new:
      "(\<And>t'. t' \<in> rows l \<Longrightarrow> \<not> same_transition t t') \<Longrightarrow> fst (L t l) \<and> rows (snd (L t l)) = insert t (rows l)"
begin

lemma log_cases:
  obtains "L t l = (False, l)" "\<exists>t'\<in>rows l. same_transition t t'"
  | l' where "L t l = (True, l')" "rows l' = insert t (rows l)"
proof (cases "\<exists>t'\<in>rows l. same_transition t t'")
  case True
  with log_dup that(1) show ?thesis by blast
next
  case False
  with log_new [of l t] have "fst (L t l) \<and> rows (snd (L t l)) = insert t (rows l)" by blast
  then show ?thesis using that(2) by (metis (full_types) prod.collapse)
qed

end

definition list_log :: "authority_transition \<Rightarrow> authority_transition list \<Rightarrow> bool \<times> authority_transition list" where
  "list_log t l = (if list_ex (same_transition t) l then (False, l) else (True, t # l))"

interpretation list_transition_log: transition_log list_log set
  by unfold_locales (auto simp: list_log_def list_ex_iff)

subsection \<open>The fence in front of a write\<close>

record regional_env =
  re_multi_region :: bool
  re_service_region :: string
  re_service_id :: string
  re_configured :: "string \<Rightarrow> bool"

text \<open>\<open>re_configured k\<close>: there is an active deployment configuration with the scope key \<open>k\<close>.\<close>

record write_request =
  wr_scope :: authority_scope
  wr_force :: bool
  wr_region :: "string option"
  wr_execution_region :: "string option"
  wr_service :: "string option"
  wr_epoch :: "nat option"
  wr_lease_epoch :: "nat option"

record write_context =
  cx_region :: string
  cx_service :: string
  cx_epoch :: "nat option"
  cx_lease_epoch :: "nat option"

definition runtimeContext :: "regional_env \<Rightarrow> write_request \<Rightarrow> write_context" where
  "runtimeContext cfg i =
     \<lparr>cx_region = or_default (wr_region i) (or_default (wr_execution_region i) (re_service_region cfg)),
      cx_service = or_default (wr_service i) (re_service_id cfg),
      cx_epoch = wr_epoch i, cx_lease_epoch = wr_lease_epoch i\<rparr>"

definition regionalModeEnabled :: "regional_env \<Rightarrow> write_request \<Rightarrow> bool res" where
  "regionalModeEnabled cfg i =
     (if wr_force i then Inr True
      else if \<not> re_multi_region cfg then Inr False
      else bindE (authorityKeys (wr_scope i)) (\<lambda>keys. Inr (list_ex (re_configured cfg) keys)))"

text \<open>\<open>snap n\<close> is the collection at the \<open>n\<close>-th read, \<open>None\<close> when the read fails.\<close>

fun resolve_from ::
  "(string, authority, 'db) store_ops \<Rightarrow> (nat \<Rightarrow> 'db option) \<Rightarrow> nat \<Rightarrow> string list \<Rightarrow> authority option res" where
  "resolve_from S snap n [] = Inr None"
| "resolve_from S snap n (k # ks) =
     (case snap n of
        None \<Rightarrow> Inl (Database_Error ''read'')
      | Some db \<Rightarrow>
          (case st_find_one S k (\<lambda>_. True) db of Some r \<Rightarrow> Inr (Some r) | None \<Rightarrow> resolve_from S snap (Suc n) ks))"

definition resolveAuthority ::
  "(string, authority, 'db) store_ops \<Rightarrow> (nat \<Rightarrow> 'db option) \<Rightarrow> write_request \<Rightarrow> authority option res" where
  "resolveAuthority S snap i = bindE (authorityKeys (wr_scope i)) (resolve_from S snap 0)"

datatype enforcement = Not_Enforced | Enforced authority write_context

definition conflict :: "string \<Rightarrow> app_error" where
  "conflict code = App_Error 409 code ''''"

definition assertRegionalWriteAuthority ::
  "(string, authority, 'db) store_ops \<Rightarrow> regional_env \<Rightarrow> (nat \<Rightarrow> 'db option) \<Rightarrow> int \<Rightarrow> write_request \<Rightarrow>
   enforcement res" where
  "assertRegionalWriteAuthority S cfg snap now i =
     bindE (regionalModeEnabled cfg i) (\<lambda>on.
     if \<not> on then Inr Not_Enforced
     else case resolveAuthority S snap i of
       Inl e \<Rightarrow> Inl (App_Error 503 ''REGION_WRITE_FROZEN'' '''')
     | Inr None \<Rightarrow> Inl (App_Error 503 ''REGION_WRITE_FROZEN'' '''')
     | Inr (Some r) \<Rightarrow>
       (let c = runtimeContext cfg i in
        bindE (ensure (au_status r = Authority_Active)
          (conflict (if au_status r = Authority_Transferring then ''REGION_FAILOVER_IN_PROGRESS''
             else ''REGION_WRITE_FROZEN''))) (\<lambda>_.
        bindE (ensure (now < au_expires r) (conflict ''REGION_AUTHORITY_LEASE_EXPIRED'')) (\<lambda>_.
        bindE (ensure (au_region r = cx_region c) (conflict ''REGION_NOT_WRITE_AUTHORITY'')) (\<lambda>_.
        bindE (ensure (cx_epoch c \<in> {None, Some (au_epoch r)}) (conflict ''REGION_AUTHORITY_EPOCH_STALE'')) (\<lambda>_.
        bindE (ensure (cx_lease_epoch c \<in> {None, Some (au_lease_epoch r)}) (conflict ''REGION_WRITE_FENCED'')) (\<lambda>_.
        Inr (Enforced r (c\<lparr>cx_epoch := Some (au_epoch r), cx_lease_epoch := Some (au_lease_epoch r)\<rparr>)))))))))"

subsection \<open>Acquisition, renewal, freezing and transfer\<close>

record lease_request =
  le_scope :: authority_scope
  le_region :: "string option"
  le_service :: "string option"
  le_duration_ms :: "jsnum option"
  le_epoch :: nat
  le_lease_epoch :: nat
  le_lease_id :: "string option"
  le_transition_id :: "string option"

text \<open>The identifiers that \<open>crypto.randomUUID\<close> would supply.\<close>

record fresh_ids =
  fr_lease :: string
  fr_transition :: string

definition leaseDuration :: "jsnum option \<Rightarrow> int res" where
  "leaseDuration v = boundedInteger v ''leaseDurationMs'' 5000 3600000 60000"

definition initial_authority ::
  "fresh_ids \<Rightarrow> int \<Rightarrow> lease_request \<Rightarrow> string \<Rightarrow> string \<Rightarrow> string \<Rightarrow> int \<Rightarrow> authority" where
  "initial_authority ids now i key region service duration =
     \<lparr>au_key = key, au_scope = le_scope i, au_region = region, au_epoch = 1, au_status = Authority_Active,
      au_owner = service, au_lease_id = or_default (le_lease_id i) (fr_lease ids), au_lease_epoch = 1,
      au_expires = now + duration, au_heartbeat = now,
      au_last_transition = or_default (le_transition_id i) (fr_transition ids), au_last_transition_at = now\<rparr>"

definition acquire_transition :: "authority \<Rightarrow> int \<Rightarrow> authority_transition" where
  "acquire_transition r now =
     \<lparr>at_id = au_last_transition r, at_key = au_key r, at_source_region = None, at_target_region = au_region r,
      at_source_epoch = 0, at_target_epoch = 1, at_type = Acquire_Transition, at_committed_at = now\<rparr>"

definition acquire_input :: "json \<Rightarrow> lease_request \<Rightarrow> (string \<times> string \<times> string \<times> int) res" where
  "acquire_input raw i =
     bindE (assertNoSensitiveData raw) (\<lambda>_.
     bindE (authorityKey (le_scope i)) (\<lambda>key.
     bindE (safeIdentifier (le_region i) ''regionId'') (\<lambda>region.
     bindE (safeIdentifier (le_service i) ''serviceId'') (\<lambda>service.
     bindE (leaseDuration (le_duration_ms i)) (\<lambda>duration. Inr (key, region, service, duration))))))"

definition existing_authority :: "int \<Rightarrow> string \<Rightarrow> string \<Rightarrow> authority \<Rightarrow> authority res" where
  "existing_authority now region service e =
     (if au_region e = region \<and> au_owner e = service \<and> au_status e = Authority_Active \<and> now < au_expires e
      then Inr e
      else Inl (conflict (if au_expires e \<le> now then ''REGION_AUTHORITY_LEASE_EXPIRED''
             else ''REGION_WRITE_AUTHORITY_CONFLICT'')))"

definition acquireInitialAuthority ::
  "(string, authority, 'a) store_ops \<Rightarrow> (authority_transition \<Rightarrow> 't \<Rightarrow> bool \<times> 't) \<Rightarrow> (nat \<Rightarrow> 'a \<times> 't \<Rightarrow> 'a \<times> 't) \<Rightarrow>
   fresh_ids \<Rightarrow> int \<Rightarrow> json \<Rightarrow> lease_request \<Rightarrow> 'a \<times> 't \<Rightarrow> authority res \<times> ('a \<times> 't)" where
  "acquireInitialAuthority S L env ids now raw i st =
     (case acquire_input raw i of
        Inl e \<Rightarrow> (Inl e, st)
      | Inr (key, region, service, duration) \<Rightarrow>
        (let st0 = env 0 st in
         case st_find_one S key (\<lambda>_. True) (fst st0) of
           Some e \<Rightarrow> (existing_authority now region service e, st0)
         | None \<Rightarrow>
           (let st1 = env 1 st0; record = initial_authority ids now i key region service duration in
            case st_create S key record (fst st1) of
              (False, a) \<Rightarrow> (Inl (conflict ''REGION_WRITE_AUTHORITY_CONFLICT''), (a, snd st1))
            | (True, a) \<Rightarrow>
              (let st2 = env 2 (a, snd st1) in
               case L (acquire_transition record now) (snd st2) of
                 (True, t) \<Rightarrow> (Inr record, (fst st2, t))
               | (False, t) \<Rightarrow> (Inl (Database_Error ''E11000''), (fst st2, t))))))"

definition renewal_matches :: "lease_request \<Rightarrow> int \<Rightarrow> authority \<Rightarrow> bool" where
  "renewal_matches i now a \<longleftrightarrow>
     Some (au_region a) = le_region i \<and> au_epoch a = le_epoch i \<and> Some (au_owner a) = le_service i
     \<and> au_lease_epoch a = le_lease_epoch i \<and> Some (au_lease_id a) = le_lease_id i
     \<and> au_status a = Authority_Active \<and> now < au_expires a"

definition renewal_set :: "int \<Rightarrow> int \<Rightarrow> authority \<Rightarrow> authority" where
  "renewal_set now duration a = a\<lparr>au_heartbeat := now, au_expires := now + duration\<rparr>"

definition renewAuthority ::
  "(string, authority, 'a) store_ops \<Rightarrow> (nat \<Rightarrow> 'a \<times> 't \<Rightarrow> 'a \<times> 't) \<Rightarrow> int \<Rightarrow> lease_request \<Rightarrow> 'a \<times> 't \<Rightarrow>
   authority res \<times> ('a \<times> 't)" where
  "renewAuthority S env now i st =
     (case bindE (authorityKey (le_scope i)) (\<lambda>key.
           bindE (leaseDuration (le_duration_ms i)) (\<lambda>duration. Inr (key, duration))) of
        Inl e \<Rightarrow> (Inl e, st)
      | Inr (key, duration) \<Rightarrow>
        (let st0 = env 0 st in
         case st_find_one_and_update S key (renewal_matches i now) (renewal_set now duration) (fst st0) of
           (Some r, a) \<Rightarrow> (Inr r, (a, snd st0))
         | (None, a) \<Rightarrow> (Inl (conflict ''REGION_WRITE_FENCED''), (a, snd st0))))"

definition freeze_matches :: "lease_request \<Rightarrow> authority \<Rightarrow> bool" where
  "freeze_matches i a \<longleftrightarrow>
     au_epoch a = le_epoch i \<and> Some (au_region a) = le_region i \<and> au_status a = Authority_Active"

definition freeze_set :: "int \<Rightarrow> authority \<Rightarrow> authority" where
  "freeze_set now a = a\<lparr>au_status := Authority_Frozen, au_last_transition_at := now, au_expires := now\<rparr>"

definition freezeAuthority ::
  "(string, authority, 'a) store_ops \<Rightarrow> (nat \<Rightarrow> 'a \<times> 't \<Rightarrow> 'a \<times> 't) \<Rightarrow> int \<Rightarrow> lease_request \<Rightarrow> 'a \<times> 't \<Rightarrow>
   authority res \<times> ('a \<times> 't)" where
  "freezeAuthority S env now i st =
     (case authorityKey (le_scope i) of
        Inl e \<Rightarrow> (Inl e, st)
      | Inr key \<Rightarrow>
        (let st0 = env 0 st in
         case st_find_one_and_update S key (freeze_matches i) (freeze_set now) (fst st0) of
           (Some r, a) \<Rightarrow> (Inr r, (a, snd st0))
         | (None, a) \<Rightarrow> (Inl (conflict ''REGION_AUTHORITY_EPOCH_STALE''), (a, snd st0))))"

record transfer_request =
  tr_scope :: authority_scope
  tr_source_fenced :: "bool option"
  tr_store_reachable :: "bool option"
  tr_source_epoch :: jsnum
  tr_source_region :: "string option"
  tr_target_region :: string
  tr_target_service :: string
  tr_lease_id :: "string option"
  tr_transition_id :: "string option"
  tr_duration_ms :: "jsnum option"
  tr_failback :: bool

definition safe_epoch :: "jsnum \<Rightarrow> nat option" where
  "safe_epoch v =
     (case js_integer v of Some n \<Rightarrow> if 1 \<le> n \<and> n \<le> 2 ^ 53 - 1 then Some (nat n) else None | None \<Rightarrow> None)"

definition transfer_input :: "json \<Rightarrow> transfer_request \<Rightarrow> (string \<times> nat \<times> int) res" where
  "transfer_input raw i =
     bindE (assertNoSensitiveData raw) (\<lambda>_.
     bindE (ensure (tr_source_fenced i = Some True \<and> tr_store_reachable i = Some True)
       (conflict ''REGION_SPLIT_BRAIN_PREVENTION_UNAVAILABLE'')) (\<lambda>_.
     bindE (authorityKey (tr_scope i)) (\<lambda>key.
     case safe_epoch (tr_source_epoch i) of
       None \<Rightarrow> Inl (App_Error 400 ''REGION_AUTHORITY_EPOCH_INVALID'' '''')
     | Some source \<Rightarrow> bindE (leaseDuration (tr_duration_ms i)) (\<lambda>duration. Inr (key, source, duration)))))"

definition transitionId :: "fresh_ids \<Rightarrow> transfer_request \<Rightarrow> string" where
  "transitionId ids i = or_default (tr_transition_id i) (fr_transition ids)"

definition transfer_matches :: "fresh_ids \<Rightarrow> transfer_request \<Rightarrow> nat \<Rightarrow> authority \<Rightarrow> bool" where
  "transfer_matches ids i source a \<longleftrightarrow>
     Some (au_region a) = tr_source_region i \<and> au_epoch a = source
     \<and> au_status a \<in> {Authority_Active, Authority_Frozen, Authority_Isolated, Authority_Transferring}
     \<and> au_last_transition a \<noteq> transitionId ids i"

definition transfer_set :: "fresh_ids \<Rightarrow> transfer_request \<Rightarrow> nat \<Rightarrow> int \<Rightarrow> int \<Rightarrow> authority \<Rightarrow> authority" where
  "transfer_set ids i source now duration a =
     a\<lparr>au_region := tr_target_region i, au_epoch := source + 1, au_status := Authority_Active,
       au_owner := tr_target_service i, au_lease_id := or_default (tr_lease_id i) (fr_lease ids),
       au_expires := now + duration, au_heartbeat := now, au_last_transition := transitionId ids i,
       au_last_transition_at := now, au_lease_epoch := au_lease_epoch a + 1\<rparr>"

definition replay_matches :: "fresh_ids \<Rightarrow> transfer_request \<Rightarrow> nat \<Rightarrow> authority \<Rightarrow> bool" where
  "replay_matches ids i source a \<longleftrightarrow>
     au_last_transition a = transitionId ids i \<and> au_region a = tr_target_region i \<and> au_epoch a = source + 1"

definition committed_transition :: "fresh_ids \<Rightarrow> transfer_request \<Rightarrow> string \<Rightarrow> nat \<Rightarrow> int \<Rightarrow> authority_transition" where
  "committed_transition ids i key source now =
     \<lparr>at_id = transitionId ids i, at_key = key, at_source_region = tr_source_region i,
      at_target_region = tr_target_region i, at_source_epoch = source, at_target_epoch = source + 1,
      at_type = (if tr_failback i then Failback_Transition else Transfer_Transition), at_committed_at = now\<rparr>"

text \<open>A transition that is already recorded is ignored: the update itself cannot happen twice.\<close>

definition transferAuthority ::
  "(string, authority, 'a) store_ops \<Rightarrow> (authority_transition \<Rightarrow> 't \<Rightarrow> bool \<times> 't) \<Rightarrow> (nat \<Rightarrow> 'a \<times> 't \<Rightarrow> 'a \<times> 't) \<Rightarrow>
   fresh_ids \<Rightarrow> int \<Rightarrow> json \<Rightarrow> transfer_request \<Rightarrow> 'a \<times> 't \<Rightarrow> authority res \<times> ('a \<times> 't)" where
  "transferAuthority S L env ids now raw i st =
     (case transfer_input raw i of
        Inl e \<Rightarrow> (Inl e, st)
      | Inr (key, source, duration) \<Rightarrow>
        (let st0 = env 0 st in
         case st_find_one_and_update S key (transfer_matches ids i source) (transfer_set ids i source now duration)
                (fst st0) of
           (Some r, a) \<Rightarrow>
             (let st1 = env 1 (a, snd st0)
              in (Inr r, (fst st1, snd (L (committed_transition ids i key source now) (snd st1)))))
         | (None, a) \<Rightarrow>
             (let st1 = env 1 (a, snd st0) in
              case st_find_one S key (replay_matches ids i source) (fst st1) of
                Some r \<Rightarrow> (Inr r, st1)
              | None \<Rightarrow> (Inl (conflict ''REGION_AUTHORITY_EPOCH_STALE''), st1))))"

subsection \<open>Steps of an authority\<close>

text \<open>
  The changes the service makes to a stored authority: a renewal, a freeze and a transfer.
\<close>

inductive authority_step :: "authority \<Rightarrow> authority \<Rightarrow> bool" where
  renew: "au_status a = Authority_Active \<Longrightarrow> now < au_expires a \<Longrightarrow> authority_step a (renewal_set now duration a)"
| freeze: "au_status a = Authority_Active \<Longrightarrow> authority_step a (freeze_set now a)"
| transfer: "au_status a \<noteq> Authority_Recovery_Required \<Longrightarrow> au_epoch a = source \<Longrightarrow>
     authority_step a (transfer_set ids i source now duration a)"

lemmas authority_sets = renewal_set_def freeze_set_def transfer_set_def

text \<open>
  What every step keeps: the key; the epoch never falls, it counts the leases, and within an epoch the region, the
  owner and the lease stay; an authority that is not active stays as it is until its next epoch.
\<close>

definition same_tenure :: "authority \<Rightarrow> authority \<Rightarrow> bool" where
  "same_tenure a b \<longleftrightarrow>
     au_region b = au_region a \<and> au_owner b = au_owner a \<and> au_lease_id b = au_lease_id a
     \<and> au_last_transition b = au_last_transition a
     \<and> (au_status a \<noteq> Authority_Active \<longrightarrow> b = a)"

definition fenced_by :: "authority \<Rightarrow> authority \<Rightarrow> bool" where
  "fenced_by a b \<longleftrightarrow>
     au_key b = au_key a \<and> au_epoch a \<le> au_epoch b
     \<and> au_lease_epoch b + au_epoch a = au_lease_epoch a + au_epoch b
     \<and> (au_epoch b = au_epoch a \<longrightarrow> same_tenure a b)
     \<and> (au_status a = Authority_Recovery_Required \<longrightarrow> b = a)"

lemma fenced_by_refl [simp]: "fenced_by a a"
  by (simp add: fenced_by_def same_tenure_def)

lemma fenced_by_trans:
  assumes "fenced_by a b" "fenced_by b c"
  shows "fenced_by a c"
proof -
  have "same_tenure a c" if "au_epoch c = au_epoch a"
  proof -
    from that assms have "au_epoch b = au_epoch a" by (simp add: fenced_by_def)
    with that assms have "same_tenure a b" "same_tenure b c" by (simp_all add: fenced_by_def)
    then show ?thesis by (cases "au_status a = Authority_Active") (auto simp: same_tenure_def)
  qed
  with assms show ?thesis by (auto simp: fenced_by_def)
qed

lemma authority_step_fenced: "authority_step a b \<Longrightarrow> fenced_by a b"
  by (induction rule: authority_step.induct) (auto simp: fenced_by_def same_tenure_def authority_sets)

lemma authority_steps_fenced: "authority_step\<^sup>*\<^sup>* a b \<Longrightarrow> fenced_by a b"
  by (induction rule: rtranclp_induct) (auto intro: fenced_by_trans authority_step_fenced)

text \<open>
  A well-formed collection: every authority stands under its key, has an epoch and as many leases as epochs.
  \<open>evolves view a b\<close>: no authority is lost, each moved by steps, and well-formedness is kept.
\<close>

definition authorities_ok :: "('a \<Rightarrow> string \<Rightarrow> authority option) \<Rightarrow> 'a \<Rightarrow> bool" where
  "authorities_ok view db \<longleftrightarrow>
     (\<forall>k a. view db k = Some a \<longrightarrow> au_key a = k \<and> 1 \<le> au_epoch a \<and> au_lease_epoch a = au_epoch a)"

definition evolves :: "('a \<Rightarrow> string \<Rightarrow> authority option) \<Rightarrow> 'a \<Rightarrow> 'a \<Rightarrow> bool" where
  "evolves view db db' \<longleftrightarrow>
     collection_rel authority_step view db db' \<and> (authorities_ok view db \<longrightarrow> authorities_ok view db')"

lemma evolves_refl [simp]: "evolves view db db"
  by (simp add: evolves_def)

lemma evolves_trans: "evolves view a b \<Longrightarrow> evolves view b c \<Longrightarrow> evolves view a c"
  by (auto simp: evolves_def intro: collection_rel_trans)

lemma evolvesD:
  "evolves view db db' \<Longrightarrow> view db k = Some a \<Longrightarrow> \<exists>b. view db' k = Some b \<and> fenced_by a b"
  by (auto simp: evolves_def dest: collection_relD authority_steps_fenced)

definition authority_env :: "('a \<Rightarrow> string \<Rightarrow> authority option) \<Rightarrow> (nat \<Rightarrow> 'a \<times> 't \<Rightarrow> 'a \<times> 't) \<Rightarrow> bool" where
  "authority_env view env \<longleftrightarrow> (\<forall>n st. evolves view (fst st) (fst (env n st)))"

lemma authority_envD: "authority_env view env \<Longrightarrow> evolves view (fst st) (fst (env n st))"
  unfolding authority_env_def by blast

lemma no_interference_authority_env [simp]: "authority_env view no_interference"
  by (simp add: authority_env_def)

text \<open>One operation of the service, with whatever other services do meanwhile.\<close>

inductive authority_op ::
  "(string, authority, 'a) store_ops \<Rightarrow> (authority_transition \<Rightarrow> 't \<Rightarrow> bool \<times> 't) \<Rightarrow>
   ('a \<Rightarrow> string \<Rightarrow> authority option) \<Rightarrow> 'a \<times> 't \<Rightarrow> 'a \<times> 't \<Rightarrow> bool" for S L view where
  op_acquire: "authority_env view env \<Longrightarrow>
     authority_op S L view st (snd (acquireInitialAuthority S L env ids now raw i st))"
| op_renew: "authority_env view env \<Longrightarrow> authority_op S L view st (snd (renewAuthority S env now i st))"
| op_freeze: "authority_env view env \<Longrightarrow> authority_op S L view st (snd (freezeAuthority S env now i st))"
| op_transfer: "authority_env view env \<Longrightarrow>
     authority_op S L view st (snd (transferAuthority S L env ids now raw t st))"

lemma update_evolves:
  assumes "document_store S view" "st_find_one_and_update S k p u db = (r, db')"
    and "\<And>a. view db k = Some a \<Longrightarrow> p a \<Longrightarrow> authority_step a (u a)"
  shows "evolves view db db'"
proof -
  have c: "collection_rel authority_step view db db'"
    using document_store.update_collection_rel [OF assms(1,2)] assms(3) by blast
  moreover have "authorities_ok view db'" if ok: "authorities_ok view db"
  proof (cases r)
    case None
    with document_store.update_None_unchanged [OF assms(1)] assms(2) ok show ?thesis by blast
  next
    case (Some a')
    with document_store.update_Some [OF assms(1)] assms(2) obtain a where
      a: "view db k = Some a" "p a" "a' = u a" "view db' = (view db)(k \<mapsto> a')" by blast
    then have f: "fenced_by a a'" using assms(3) authority_step_fenced by blast
    from ok a(1) have "au_key a = k \<and> 1 \<le> au_epoch a \<and> au_lease_epoch a = au_epoch a"
      unfolding authorities_ok_def by blast
    with f have "au_key a' = k \<and> 1 \<le> au_epoch a' \<and> au_lease_epoch a' = au_epoch a'" by (simp add: fenced_by_def)
    with ok show ?thesis by (simp add: authorities_ok_def a(4))
  qed
  ultimately show ?thesis by (simp add: evolves_def)
qed

lemma create_evolves:
  assumes "document_store S view" "st_create S k a db = (ok, db')"
    and "au_key a = k" "au_epoch a = 1" "au_lease_epoch a = 1"
  shows "evolves view db db'"
proof (cases ok)
  case True
  with assms(2) have "st_create S k a db = (True, db')" by simp
  from document_store.create_True [OF assms(1) this] have "view db k = None \<and> view db' = (view db)(k \<mapsto> a)" .
  then show ?thesis using assms(3-5) by (auto simp: evolves_def collection_rel_def authorities_ok_def)
next
  case False
  with assms(2) have "st_create S k a db = (False, db')" by simp
  from document_store.create_False [OF assms(1) this] show ?thesis by simp
qed

lemma acquire_evolves:
  assumes S: "document_store S view" and env: "authority_env view env"
  shows "evolves view (fst st) (fst (snd (acquireInitialAuthority S L env ids now raw i st)))"
proof (cases "acquire_input raw i")
  case (Inr r)
  obtain key region service duration where r: "r = (key, region, service, duration)" by (cases r) auto
  let ?rec = "initial_authority ids now i key region service duration"
  let ?s0 = "env 0 st" and ?s1 = "env 1 (env 0 st)"
  note e0 = authority_envD [OF env, of st 0] and e1 = authority_envD [OF env, of "?s0" 1]
  show ?thesis
  proof (cases "st_find_one S key (\<lambda>_. True) (fst ?s0)")
    case None
    obtain ok a where c: "st_create S key ?rec (fst ?s1) = (ok, a)" by fastforce
    have e2: "evolves view (fst ?s1) a"
      by (rule create_evolves [OF S c]) (simp_all add: initial_authority_def)
    have e3: "evolves view a (fst (env 2 (a, snd ?s1)))" using authority_envD [OF env, of "(a, snd ?s1)" 2] by simp
    from e0 e1 e2 e3 have "evolves view (fst st) a" "evolves view (fst st) (fst (env 2 (a, snd ?s1)))"
      by (blast intro: evolves_trans)+
    then show ?thesis using None c Inr r
      by (simp add: acquireInitialAuthority_def Let_def split: bool.split prod.split)
  qed (use e0 Inr r in \<open>simp add: acquireInitialAuthority_def Let_def\<close>)
qed (simp add: acquireInitialAuthority_def)

lemma single_update_evolves:
  assumes S: "document_store S view" and env: "authority_env view env"
    and "\<And>a. p a \<Longrightarrow> authority_step a (u a)"
  shows "evolves view (fst st) (snd (st_find_one_and_update S k p u (fst (env 0 st))))"
proof -
  obtain r a where u: "st_find_one_and_update S k p u (fst (env 0 st)) = (r, a)" by fastforce
  show ?thesis
    using authority_envD [OF env, of st 0] update_evolves [OF S u assms(3)] unfolding u
    by (auto intro: evolves_trans)
qed

lemma renew_evolves:
  assumes "document_store S view" "authority_env view env"
  shows "evolves view (fst st) (fst (snd (renewAuthority S env now i st)))"
proof -
  have "authority_step a (renewal_set now duration a)" if "renewal_matches i now a" for a duration
    using that by (intro authority_step.renew) (simp_all add: renewal_matches_def)
  from single_update_evolves [OF assms this] show ?thesis
    by (simp add: renewAuthority_def Let_def case_prod_unfold split: sum.split option.split)
qed

lemma freeze_evolves:
  assumes "document_store S view" "authority_env view env"
  shows "evolves view (fst st) (fst (snd (freezeAuthority S env now i st)))"
proof -
  have "authority_step a (freeze_set now a)" if "freeze_matches i a" for a
    using that by (intro authority_step.freeze) (simp add: freeze_matches_def)
  from single_update_evolves [OF assms this] show ?thesis
    by (simp add: freezeAuthority_def Let_def case_prod_unfold split: sum.split option.split)
qed

lemma transfer_evolves:
  assumes S: "document_store S view" and env: "authority_env view env"
  shows "evolves view (fst st) (fst (snd (transferAuthority S L env ids now raw i st)))"
proof (cases "transfer_input raw i")
  case (Inr r)
  obtain key source duration where r: "r = (key, source, duration)" by (cases r) auto
  have step: "authority_step a (transfer_set ids i source now duration a)" if "transfer_matches ids i source a" for a
    using that by (intro authority_step.transfer) (auto simp: transfer_matches_def)
  obtain u a where u: "st_find_one_and_update S key (transfer_matches ids i source)
      (transfer_set ids i source now duration) (fst (env 0 st)) = (u, a)" by fastforce
  have e: "evolves view (fst st) a"
    using single_update_evolves [where p = "transfer_matches ids i source" and k = key and st = st, OF S env step]
    unfolding u by simp
  have "evolves view (fst st) (fst (env 1 (a, snd (env 0 st))))"
    using evolves_trans [OF e] authority_envD [OF env, of "(a, snd (env 0 st))" 1] by simp
  then show ?thesis using Inr r u
    by (simp add: transferAuthority_def Let_def split: option.split)
qed (simp add: transferAuthority_def)

lemma authority_op_evolves:
  assumes "document_store S view" "authority_op S L view st st'"
  shows "evolves view (fst st) (fst st')"
  using assms(2)
  by cases (simp_all add: acquire_evolves renew_evolves freeze_evolves transfer_evolves assms(1))

lemma authority_ops_evolve:
  assumes "document_store S view" "(authority_op S L view)\<^sup>*\<^sup>* st st'"
  shows "evolves view (fst st) (fst st')"
  using assms(2) by (induction rule: rtranclp_induct) (auto intro: evolves_trans authority_op_evolves [OF assms(1)])

subsection \<open>Accepted writes\<close>

lemma resolve_from_Some:
  assumes "document_store S view"
  shows "resolve_from S (\<lambda>_. Some db) m keys = Inr (Some a) \<longleftrightarrow>
    (\<exists>n<length keys. view db (keys ! n) = Some a \<and> (\<forall>j<n. view db (keys ! j) = None))"
proof (induction keys arbitrary: m)
  case (Cons k ks)
  show ?case
  proof (cases "view db k")
    case None
    then show ?thesis
      using Cons.IH [of "Suc m"] document_store.find_one_miss [OF assms None]
      by (simp add: Ex_less_Suc2 All_less_Suc2)
  next
    case (Some r)
    then show ?thesis
      using document_store.find_one_hit [OF assms Some, of "\<lambda>_. True"]
      by (auto simp: Ex_less_Suc2 All_less_Suc2)
  qed
qed simp

lemma not_enforced_iff:
  "assertRegionalWriteAuthority S cfg snap now i = Inr Not_Enforced \<longleftrightarrow> regionalModeEnabled cfg i = Inr False"
  unfolding assertRegionalWriteAuthority_def Let_def
  by (cases "regionalModeEnabled cfg i"; cases "resolveAuthority S snap i")
    (auto simp: res_simps split: option.splits)

lemma enforced_iff:
  "assertRegionalWriteAuthority S cfg snap now i = Inr (Enforced a c) \<longleftrightarrow>
     regionalModeEnabled cfg i = Inr True \<and> resolveAuthority S snap i = Inr (Some a)
     \<and> au_status a = Authority_Active \<and> now < au_expires a
     \<and> au_region a = cx_region (runtimeContext cfg i)
     \<and> wr_epoch i \<in> {None, Some (au_epoch a)} \<and> wr_lease_epoch i \<in> {None, Some (au_lease_epoch a)}
     \<and> c = (runtimeContext cfg i)\<lparr>cx_epoch := Some (au_epoch a), cx_lease_epoch := Some (au_lease_epoch a)\<rparr>"
proof -
  have ctx: "cx_epoch (runtimeContext cfg i) = wr_epoch i" "cx_lease_epoch (runtimeContext cfg i) = wr_lease_epoch i"
    by (simp_all add: runtimeContext_def)
  show ?thesis
    unfolding assertRegionalWriteAuthority_def Let_def ctx
    by (cases "regionalModeEnabled cfg i"; cases "resolveAuthority S snap i")
      (auto simp only: bindE_simps sum.case sum.inject sum.distinct bindE_Inr_iff ensure_Inr_iff option.case
        enforcement.inject enforcement.distinct if_False if_True not_False_eq_True not_True_eq_False simp_thms
        option.inject option.distinct split: option.splits if_splits)
qed

lemma regionalModeEnabled_False:
  "regionalModeEnabled cfg i = Inr False \<longleftrightarrow>
     \<not> wr_force i \<and> (re_multi_region cfg \<longrightarrow> (\<exists>keys. authorityKeys (wr_scope i) = Inr keys \<and> (\<forall>k\<in>set keys. \<not> re_configured cfg k)))"
  by (auto simp: regionalModeEnabled_def bindE_Inr_iff list_ex_iff)

lemma regionalModeEnabled_True:
  "regionalModeEnabled cfg i = Inr True \<longleftrightarrow>
     wr_force i \<or> re_multi_region cfg \<and> (\<exists>keys. authorityKeys (wr_scope i) = Inr keys \<and> (\<exists>k\<in>set keys. re_configured cfg k))"
  by (auto simp: regionalModeEnabled_def bindE_Inr_iff list_ex_iff)

text \<open>
  C34: The fence in front of a write lets it through without a check exactly when the check is not forced and either the regional mode
  is off (the default) or none of the scopes of the write is configured for it. Otherwise it lets the write through exactly
  when the most specific record of an authority for its scope (workspace, then organization, then platform) is itself active,
  its lease has not expired, it belongs to the region of the writer, and the epochs that the writer presents are the
  current ones; a writer that presents none is not held to any. Every other write is rejected. In particular the most
  specific record counts whatever its status: a frozen workspace record blocks the write although its organization has an
  active authority.
\<close>

theorem write_fence:
  assumes "document_store S view"
  shows "(assertRegionalWriteAuthority S cfg snap now i = Inr Not_Enforced \<longleftrightarrow>
      \<not> wr_force i \<and> (re_multi_region cfg \<longrightarrow> (\<exists>keys. authorityKeys (wr_scope i) = Inr keys \<and> (\<forall>k\<in>set keys. \<not> re_configured cfg k))))
    \<and> ((\<exists>c. assertRegionalWriteAuthority S cfg (\<lambda>_. Some db) now i = Inr (Enforced a c)) \<longleftrightarrow>
      (wr_force i \<or> re_multi_region cfg \<and> (\<exists>keys. authorityKeys (wr_scope i) = Inr keys \<and> (\<exists>k\<in>set keys. re_configured cfg k)))
      \<and> (\<exists>keys n. authorityKeys (wr_scope i) = Inr keys \<and> n < length keys \<and> view db (keys ! n) = Some a
           \<and> (\<forall>j<n. view db (keys ! j) = None))
      \<and> au_status a = Authority_Active \<and> now < au_expires a
      \<and> au_region a = or_default (wr_region i) (or_default (wr_execution_region i) (re_service_region cfg))
      \<and> wr_epoch i \<in> {None, Some (au_epoch a)} \<and> wr_lease_epoch i \<in> {None, Some (au_lease_epoch a)})"
proof -
  have "resolveAuthority S (\<lambda>_. Some db) i = Inr (Some a) \<longleftrightarrow>
      (\<exists>keys n. authorityKeys (wr_scope i) = Inr keys \<and> n < length keys \<and> view db (keys ! n) = Some a
           \<and> (\<forall>j<n. view db (keys ! j) = None))"
    unfolding resolveAuthority_def bindE_Inr_iff resolve_from_Some [OF assms] by blast
  moreover have "cx_region (runtimeContext cfg i) =
      or_default (wr_region i) (or_default (wr_execution_region i) (re_service_region cfg))"
    by (simp add: runtimeContext_def)
  ultimately show ?thesis
    unfolding not_enforced_iff enforced_iff regionalModeEnabled_False regionalModeEnabled_True by auto
qed

text \<open>
  C35: No split brain: of two accepted writes under the same authority, the later one carries an epoch at least as
  high, and when they come from different regions a strictly higher one, whatever acquisitions, renewals, freezes
  and transfers happen in between. A writer that still presents the older epoch is rejected.
\<close>

theorem no_split_brain:
  assumes S: "document_store S view" and "authorities_ok view (fst st)"
    and "(authority_op S L view)\<^sup>*\<^sup>* st st'"
    and w: "assertRegionalWriteAuthority S cfg (\<lambda>_. Some (fst st)) now i = Inr (Enforced a c)"
    and w': "assertRegionalWriteAuthority S cfg' (\<lambda>_. Some (fst st')) now' i' = Inr (Enforced b c')"
    and "au_key b = au_key a"
  shows "au_epoch a \<le> au_epoch b \<and> (cx_region c' \<noteq> cx_region c \<longrightarrow> au_epoch a < au_epoch b)
    \<and> wr_epoch i' \<in> {None, Some (au_epoch b)}"
proof -
  have ev: "evolves view (fst st) (fst st')" by (rule authority_ops_evolve [OF S assms(3)])
  have stored: "\<exists>k. view db k = Some x" if "resolveAuthority S (\<lambda>_. Some db) j = Inr (Some x)" for db j x
    using that unfolding resolveAuthority_def bindE_Inr_iff resolve_from_Some [OF S] by blast
  from w w' stored obtain k k' where k: "view (fst st) k = Some a" "view (fst st') k' = Some b"
    unfolding enforced_iff by blast
  moreover have "authorities_ok view (fst st')" using ev assms(2) by (simp add: evolves_def)
  ultimately have "k' = k" using assms(2,6) unfolding authorities_ok_def by metis
  with evolvesD [OF ev k(1)] k(2) have f: "fenced_by a b" by simp
  moreover have "cx_region c = au_region a" "cx_region c' = au_region b"
    using w w' by (simp_all add: enforced_iff)
  moreover have "wr_epoch i' \<in> {None, Some (au_epoch b)}" using w' unfolding enforced_iff by blast
  ultimately show ?thesis unfolding fenced_by_def same_tenure_def
    by (metis le_neq_implies_less)
qed

definition sample_scope :: authority_scope where
  "sample_scope = \<lparr>as_scope = Some ''workspace'', as_organization = Some ''o1'', as_workspace = Some ''w1''\<rparr>"

definition sample_env :: regional_env where
  "sample_env = \<lparr>re_multi_region = True, re_service_region = ''r1'', re_service_id = ''s1'', re_configured = (\<lambda>_. True)\<rparr>"

definition sample_authority :: authority where
  "sample_authority =
     \<lparr>au_key = ''organization:o1:workspace:w1'', au_scope = sample_scope, au_region = ''r1'', au_epoch = 1,
      au_status = Authority_Active, au_owner = ''s1'', au_lease_id = ''l1'', au_lease_epoch = 1, au_expires = 60000,
      au_heartbeat = 0, au_last_transition = ''t1'', au_last_transition_at = 0\<rparr>"

type_synonym sample_state = "(string \<Rightarrow> authority option) \<times> authority_transition list"

definition sample_state :: sample_state where
  "sample_state = ([au_key sample_authority \<mapsto> sample_authority], [])"

definition sample_write :: "string \<Rightarrow> write_request" where
  "sample_write region =
     \<lparr>wr_scope = sample_scope, wr_force = False, wr_region = Some region, wr_execution_region = None,
      wr_service = None, wr_epoch = None, wr_lease_epoch = None\<rparr>"

definition sample_ids :: fresh_ids where "sample_ids = \<lparr>fr_lease = ''l2'', fr_transition = ''t2''\<rparr>"

definition sample_transfer :: transfer_request where
  "sample_transfer =
     \<lparr>tr_scope = sample_scope, tr_source_fenced = Some True, tr_store_reachable = Some True,
      tr_source_epoch = num_of_int 1, tr_source_region = Some ''r1'', tr_target_region = ''r2'',
      tr_target_service = ''s2'', tr_lease_id = None, tr_transition_id = Some ''t2'', tr_duration_ms = None,
      tr_failback = False\<rparr>"

lemma sample_key: "authorityKey sample_scope = Inr (au_key sample_authority)"
  by code_simp

lemma sample_keys:
  "authorityKeys sample_scope = Inr [au_key sample_authority, ''organization:o1'', ''platform'']"
  by code_simp

lemma sample_state_ok: "authorities_ok (\<lambda>db. db) (fst sample_state)"
  by (simp add: authorities_ok_def sample_state_def sample_authority_def)

lemma sample_transfer_input: "transfer_input (JObj []) sample_transfer = Inr (au_key sample_authority, 1, 60000)"
  by code_simp

lemma sample_transfer_matches: "transfer_matches sample_ids sample_transfer 1 sample_authority"
  by code_simp

definition moved_authority :: authority where
  "moved_authority = transfer_set sample_ids sample_transfer 1 1000 60000 sample_authority"

definition moved_state :: sample_state where
  "moved_state = ([au_key sample_authority \<mapsto> moved_authority],
     [committed_transition sample_ids sample_transfer (au_key sample_authority) 1 1000])"

lemma sample_transferred:
  "transferAuthority map_store list_log no_interference sample_ids 1000 (JObj []) sample_transfer sample_state
     = (Inr moved_authority, moved_state)"
  unfolding transferAuthority_def sample_transfer_input
  by (simp add: map_store_defs sample_state_def sample_transfer_matches list_log_def Let_def moved_state_def
      moved_authority_def del: One_nat_def)

theorem write_fence_witness:
  "\<exists>c. assertRegionalWriteAuthority map_store sample_env (\<lambda>_. Some (fst sample_state)) 1 (sample_write ''r1'')
     = Inr (Enforced sample_authority c)"
proof -
  have "re_multi_region sample_env" "re_configured sample_env k" for k by (simp_all add: sample_env_def)
  moreover have "au_status sample_authority = Authority_Active" "1 < au_expires sample_authority"
    "au_region sample_authority = ''r1''"
    by (simp_all add: sample_authority_def)
  moreover have "authorityKeys (wr_scope (sample_write ''r1'')) = Inr [au_key sample_authority, ''organization:o1'', ''platform'']"
    by (simp add: sample_write_def sample_keys)
  moreover have "fst sample_state (au_key sample_authority) = Some sample_authority"
    by (simp add: sample_state_def)
  ultimately show ?thesis
    using write_fence [OF map_store_is_document_store, of sample_env _ 1 "sample_write ''r1''" "fst sample_state"
        sample_authority]
    by (auto simp: sample_write_def intro!: exI [of _ "0::nat"])
qed

text \<open>
  The document MULTI_REGION_RESILIENCE.md says that a check resolves the most specific active authority. The code resolves the most specific
  record and then requires that it be active: with a frozen record of the workspace every write of the workspace is
  rejected, although the organization has an active authority in the region of the writer.
\<close>

definition frozen_workspace :: "string \<Rightarrow> authority option" where
  "frozen_workspace =
     [au_key sample_authority \<mapsto> sample_authority\<lparr>au_status := Authority_Frozen\<rparr>,
      ''organization:o1'' \<mapsto> sample_authority\<lparr>au_key := ''organization:o1'', au_scope := \<lparr>as_scope = Some ''organization'',
        as_organization = Some ''o1'', as_workspace = None\<rparr>\<rparr>]"

theorem frozen_workspace_blocks_write:
  "(\<exists>b. frozen_workspace ''organization:o1'' = Some b \<and> au_status b = Authority_Active \<and> au_region b = ''r1'' \<and> 1 < au_expires b)
   \<and> isl (assertRegionalWriteAuthority map_store sample_env (\<lambda>_. Some frozen_workspace) 1 (sample_write ''r1''))"
proof
  show "\<exists>b. frozen_workspace ''organization:o1'' = Some b \<and> au_status b = Authority_Active \<and> au_region b = ''r1'' \<and> 1 < au_expires b"
    by (simp add: frozen_workspace_def sample_authority_def)
  show "isl (assertRegionalWriteAuthority map_store sample_env (\<lambda>_. Some frozen_workspace) 1 (sample_write ''r1''))" by code_simp
qed

lemma sample_accepted:
  "assertRegionalWriteAuthority map_store sample_env (\<lambda>_. Some (fst sample_state)) 1 (sample_write ''r1'')
     = Inr (Enforced sample_authority \<lparr>cx_region = ''r1'', cx_service = ''s1'', cx_epoch = Some 1, cx_lease_epoch = Some 1\<rparr>)"
  "assertRegionalWriteAuthority map_store sample_env (\<lambda>_. Some (fst moved_state)) 2000 (sample_write ''r2'')
     = Inr (Enforced moved_authority \<lparr>cx_region = ''r2'', cx_service = ''s1'', cx_epoch = Some 2, cx_lease_epoch = Some 2\<rparr>)"
  by code_simp+

lemma sample_ops: "(authority_op map_store list_log (\<lambda>db. db))\<^sup>*\<^sup>* sample_state moved_state"
  using authority_op.op_transfer [of "\<lambda>db. db" no_interference map_store list_log sample_state sample_ids 1000
      "JObj []" sample_transfer]
  unfolding sample_transferred by (auto simp: no_interference_authority_env)

theorem no_split_brain_witness: "au_epoch sample_authority < au_epoch moved_authority"
proof -
  have "au_key moved_authority = au_key sample_authority"
    by (simp add: moved_authority_def transfer_set_def)
  from no_split_brain [OF map_store_is_document_store sample_state_ok sample_ops sample_accepted this]
  show ?thesis by simp
qed

subsection \<open>Transfers and freezes\<close>

lemma transfer_set_replays: "replay_matches ids i source (transfer_set ids i source now duration a)"
  by (simp add: replay_matches_def transfer_set_def)

lemma transfer_result:
  assumes S: "document_store S view" and env: "authority_env view env"
    and inp: "transfer_input raw i = Inr (key, source, duration)"
    and t: "transferAuthority S L env ids now raw i st = (Inr r, st')"
  shows "replay_matches ids i source r
    \<and> (\<exists>b. view (fst st') key = Some b \<and> fenced_by r b)
    \<and> ((\<exists>a. view (fst (env 0 st)) key = Some a \<and> transfer_matches ids i source a)
       \<or> (\<exists>s. evolves view (fst st) s \<and> view s key = Some r))"
proof -
  obtain u a where u: "st_find_one_and_update S key (transfer_matches ids i source)
      (transfer_set ids i source now duration) (fst (env 0 st)) = (u, a)" by fastforce
  let ?s1 = "env 1 (a, snd (env 0 st))"
  have e1: "evolves view a (fst ?s1)" using authority_envD [OF env, of "(a, snd (env 0 st))" 1] by simp
  show ?thesis
  proof (cases u)
    case None
    with document_store.update_None_unchanged [OF S] u have a: "a = fst (env 0 st)" by blast
    from t inp u None have f: "st_find_one S key (replay_matches ids i source) (fst ?s1) = Some r" and "st' = ?s1"
      by (auto simp: transferAuthority_def Let_def split: option.splits)
    moreover from f have "view (fst ?s1) key = Some r" "replay_matches ids i source r"
      by (simp_all add: document_store.find_one_Some_iff [OF S])
    moreover have "evolves view (fst st) (fst ?s1)"
      using evolves_trans [OF authority_envD [OF env, of st 0]] e1 unfolding a by blast
    ultimately show ?thesis by auto
  next
    case (Some r')
    with t inp u have r: "r' = r" "fst st' = fst ?s1"
      by (auto simp: transferAuthority_def Let_def)
    from document_store.update_Some [OF S u [unfolded Some]] obtain d where
      d: "view (fst (env 0 st)) key = Some d" "transfer_matches ids i source d"
        "r' = transfer_set ids i source now duration d" "view a = (view (fst (env 0 st)))(key \<mapsto> r')" by blast
    moreover have "replay_matches ids i source r" using d(3) r(1) by (simp add: replay_matches_def transfer_set_def)
    moreover have "\<exists>b. view (fst st') key = Some b \<and> fenced_by r b"
      using evolvesD [OF e1, of key r'] d(4) r by simp
    ultimately show ?thesis by blast
  qed
qed

text \<open>
  At most one transfer leaves an epoch: when two transfers of the same authority from the same source epoch both
  succeed, at any later time and with anything in between, they are the same transition to the same region.
\<close>

theorem one_transfer_per_epoch:
  assumes S: "document_store S view"
    and env: "authority_env view env" "authority_env view env'"
    and inp: "transfer_input raw i = Inr (key, source, duration)" "transfer_input raw' i' = Inr (key, source, duration')"
    and t: "transferAuthority S L env ids now raw i st = (Inr r, st1)"
    and between: "(authority_op S L view)\<^sup>*\<^sup>* st1 st2"
    and t': "transferAuthority S L env' ids' now' raw' i' st2 = (Inr r', st3)"
  shows "transitionId ids' i' = transitionId ids i \<and> tr_target_region i' = tr_target_region i"
proof -
  from transfer_result [OF S env(1) inp(1) t] obtain b where
    r: "replay_matches ids i source r" and b: "view (fst st1) key = Some b" "fenced_by r b" by blast
  have later: "\<exists>c. view s key = Some c \<and> fenced_by r c" if "evolves view (fst st1) s" for s
    using evolvesD [OF that b(1)] b(2) fenced_by_trans by blast
  have ev: "evolves view (fst st1) (fst st2)" by (rule authority_ops_evolve [OF S between])
  have ep: "au_epoch r = source + 1" using r by (simp add: replay_matches_def)
  have "\<not> (\<exists>a. view (fst (env' 0 st2)) key = Some a \<and> transfer_matches ids' i' source a)"
    using later [OF evolves_trans [OF ev authority_envD [OF env(2), of st2 0]]] ep
    by (auto simp: transfer_matches_def fenced_by_def)
  with transfer_result [OF S env(2) inp(2) t'] obtain s where
    s: "evolves view (fst st2) s" "view s key = Some r'" and r': "replay_matches ids' i' source r'" by blast
  from later [OF evolves_trans [OF ev s(1)]] s(2) have "fenced_by r r'" by simp
  with r r' show ?thesis by (simp add: replay_matches_def fenced_by_def same_tenure_def)
qed

lemma transfer_replays:
  assumes S: "document_store S view" and tid: "present (tr_transition_id i)"
    and t: "transferAuthority S L no_interference ids now raw i st = (Inr r, st')"
  shows "transferAuthority S L no_interference ids' now' raw i st' = (Inr r, st')"
proof (cases "transfer_input raw i")
  case (Inl e)
  with t show ?thesis by (simp add: transferAuthority_def)
next
  case (Inr z)
  then obtain key source duration where inp: "transfer_input raw i = Inr (key, source, duration)"
    by (cases z) auto
  have ids: "transitionId ids' i = transitionId ids i"
    using tid by (cases "tr_transition_id i") (simp_all add: transitionId_def)
  obtain u a where u: "st_find_one_and_update S key (transfer_matches ids i source)
      (transfer_set ids i source now duration) (fst st) = (u, a)" by fastforce
  have r: "view (fst st') key = Some r \<and> replay_matches ids i source r"
  proof (cases u)
    case None
    with t inp u show ?thesis
      by (auto simp: transferAuthority_def Let_def document_store.find_one_Some_iff [OF S] split: option.splits)
  next
    case (Some r')
    with t inp u have "r' = r" "fst st' = a" by (auto simp: transferAuthority_def Let_def)
    moreover from document_store.update_Some [OF S u [unfolded Some]] obtain d where
      "r' = transfer_set ids i source now duration d" "view a = (view (fst st))(key \<mapsto> r')" by blast
    ultimately show ?thesis using transfer_set_replays by (metis fun_upd_same)
  qed
  then have "replay_matches ids' i source r" by (simp add: replay_matches_def ids)
  moreover from this have "\<not> transfer_matches ids' i source r"
    by (simp add: replay_matches_def transfer_matches_def)
  ultimately show ?thesis
    using r inp document_store.update_miss [OF S, of "fst st'" key r] document_store.find_one_hit [OF S]
    by (simp add: transferAuthority_def Let_def)
qed

text \<open>
  A transfer can be repeated: asking again for a transfer that was just made, with its transition id, returns
  the same authority and changes nothing, neither the authority nor the record of transitions.
\<close>

theorem transfer_is_replayable:
  assumes "document_store S view" and "present (tr_transition_id i)"
    and "transferAuthority S L no_interference ids now raw i st = (Inr r, st')"
  shows "transferAuthority S L no_interference ids' now' raw i st' = (Inr r, st')"
  by (rule transfer_replays [OF assms])

lemma freeze_result:
  assumes S: "document_store S view" and key: "authorityKey (le_scope i) = Inr key"
    and f: "freezeAuthority S env now i st = (Inr r, st')"
  shows "view (fst st') key = Some r \<and> au_status r = Authority_Frozen"
proof -
  obtain u a where u: "st_find_one_and_update S key (freeze_matches i) (freeze_set now) (fst (env 0 st)) = (u, a)"
    by fastforce
  with f key have "u = Some r" "fst st' = a"
    by (auto simp: freezeAuthority_def Let_def split: option.splits)
  moreover from this u obtain d where "r = freeze_set now d" "view a = (view (fst (env 0 st)))(key \<mapsto> r)"
    by (metis document_store.update_Some [OF S])
  ultimately show ?thesis by (simp add: freeze_set_def)
qed

lemma authority_renew_result:
  assumes S: "document_store S view" and key: "authorityKey (le_scope i) = Inr key"
    and f: "renewAuthority S env now i st = (Inr r, st')"
  obtains d where "view (fst (env 0 st)) key = Some d" "au_status d = Authority_Active" "au_epoch r = au_epoch d"
    "now < au_expires d" "au_epoch d = le_epoch i" "Some (au_region d) = le_region i"
proof -
  from f key obtain duration where
    u: "st_find_one_and_update S key (renewal_matches i now) (renewal_set now duration) (fst (env 0 st)) = (Some r, fst st')"
    by (cases "leaseDuration (le_duration_ms i)") (auto simp: renewAuthority_def Let_def split: option.splits prod.splits)
  from document_store.update_Some [OF S u] obtain d where
    "view (fst (env 0 st)) key = Some d" "renewal_matches i now d" "r = renewal_set now duration d" by blast
  then show ?thesis using that by (auto simp: renewal_matches_def renewal_set_def)
qed

text \<open>
  A frozen authority stays fenced until its next epoch: after a successful freeze no write is accepted under
  that authority and no lease of it renewed, at any later time, unless the authority moved on to a higher epoch.
\<close>

theorem frozen_authority_is_fenced:
  assumes S: "document_store S view" and ok: "authorities_ok view (fst st1)"
    and key: "authorityKey (le_scope i) = Inr key"
    and f: "freezeAuthority S env now i st = (Inr r, st1)"
    and between: "(authority_op S L view)\<^sup>*\<^sup>* st1 st2"
  shows "(\<forall>cfg now' w b c. assertRegionalWriteAuthority S cfg (\<lambda>_. Some (fst st2)) now' w = Inr (Enforced b c)
        \<and> au_key b = key \<longrightarrow> au_epoch r < au_epoch b)
    \<and> (\<forall>env' now' j r' st3. authority_env view env' \<and> authorityKey (le_scope j) = Inr key
        \<and> renewAuthority S env' now' j st2 = (Inr r', st3) \<longrightarrow> au_epoch r < au_epoch r')"
proof -
  note r = freeze_result [OF S key f]
  have ev: "evolves view (fst st1) (fst st2)" by (rule authority_ops_evolve [OF S between])
  have active_later: "au_epoch r < au_epoch x"
    if "evolves view (fst st1) s" "view s key = Some x" "au_status x = Authority_Active" for s x
  proof -
    have "fenced_by r x" using evolvesD [OF that(1), of key r] r that(2) by simp
    with r that(3) show ?thesis by (auto simp: fenced_by_def same_tenure_def le_less)
  qed
  have "au_epoch r < au_epoch b"
    if w: "assertRegionalWriteAuthority S cfg (\<lambda>_. Some (fst st2)) now' w = Inr (Enforced b c)" and k: "au_key b = key"
    for cfg now' w b c
  proof -
    obtain k' where "view (fst st2) k' = Some b"
      using w unfolding enforced_iff resolveAuthority_def bindE_Inr_iff resolve_from_Some [OF S] by blast
    moreover have "authorities_ok view (fst st2)" using ev ok by (simp add: evolves_def)
    ultimately have "view (fst st2) key = Some b" using k unfolding authorities_ok_def by blast
    with active_later [OF ev] show ?thesis using w unfolding enforced_iff by blast
  qed
  moreover have "au_epoch r < au_epoch r'"
    if e: "authority_env view env'" and k: "authorityKey (le_scope j) = Inr key"
      and rn: "renewAuthority S env' now' j st2 = (Inr r', st3)" for env' now' j r' st3
    by (rule authority_renew_result [OF S k rn])
      (use active_later [OF evolves_trans [OF ev authority_envD [OF e, of st2 0]]] in simp)
  ultimately show ?thesis by blast
qed

lemma sample_replayed:
  "transferAuthority map_store list_log no_interference sample_ids 5000 (JObj []) sample_transfer moved_state
     = (Inr moved_authority, moved_state)"
  by (rule transfer_replays [OF map_store_is_document_store _ sample_transferred]) (simp add: sample_transfer_def)

theorem one_transfer_per_epoch_witness:
  "transferAuthority map_store list_log no_interference sample_ids 5000 (JObj []) sample_transfer moved_state
     = (Inr moved_authority, moved_state)
     \<and> transitionId sample_ids sample_transfer = transitionId sample_ids sample_transfer
     \<and> tr_target_region sample_transfer = tr_target_region sample_transfer"
  using one_transfer_per_epoch [OF map_store_is_document_store no_interference_authority_env
    no_interference_authority_env sample_transfer_input sample_transfer_input sample_transferred
    rtranclp.rtrancl_refl sample_replayed] sample_replayed by blast

theorem transfer_is_replayable_witness:
  "transferAuthority map_store list_log no_interference sample_ids 9000 (JObj []) sample_transfer moved_state
     = (Inr moved_authority, moved_state)"
  by (rule transfer_is_replayable [OF map_store_is_document_store _ sample_transferred]) (simp add: sample_transfer_def)

definition sample_lease :: lease_request where
  "sample_lease =
     \<lparr>le_scope = sample_scope, le_region = Some ''r1'', le_service = Some ''s1'', le_duration_ms = None, le_epoch = 1,
      le_lease_epoch = 1, le_lease_id = Some ''l1'', le_transition_id = None\<rparr>"

definition frozen_state :: sample_state where
  "frozen_state = ([au_key sample_authority \<mapsto> freeze_set 500 sample_authority], [])"

lemma sample_frozen:
  "freezeAuthority map_store no_interference 500 sample_lease sample_state
     = (Inr (freeze_set 500 sample_authority), frozen_state)"
proof -
  have "authorityKey (le_scope sample_lease) = Inr (au_key sample_authority)" "freeze_matches sample_lease sample_authority"
    by code_simp+
  then show ?thesis
    by (simp add: freezeAuthority_def map_store_defs sample_state_def Let_def frozen_state_def)
qed

theorem frozen_authority_is_fenced_witness:
  "\<not> (\<exists>b c. assertRegionalWriteAuthority map_store sample_env (\<lambda>_. Some (fst frozen_state)) 600 (sample_write ''r1'')
        = Inr (Enforced b c) \<and> au_key b = au_key sample_authority \<and> au_epoch b \<le> 1)"
proof -
  have "authorityKey (le_scope sample_lease) = Inr (au_key sample_authority)" by code_simp
  moreover have "authorities_ok (\<lambda>db. db) (fst frozen_state)"
    by (simp add: authorities_ok_def frozen_state_def freeze_set_def sample_authority_def)
  moreover have "au_epoch (freeze_set 500 sample_authority) = 1" by (simp add: freeze_set_def sample_authority_def)
  ultimately show ?thesis
    using frozen_authority_is_fenced [OF map_store_is_document_store _ _ sample_frozen
        rtranclp.rtrancl_refl [of "authority_op map_store list_log (\<lambda>db. db)" frozen_state]]
    by (metis not_less)
qed

end
