(* ===== verification/Orchestration_States.thy ===== *)
theory Orchestration_States
  imports Transition_Table
begin

text \<open>
  backend/src/constants/orchestration.js: the statuses of orchestration runs and of their nodes, the tables of allowed
  transitions and the assertions over them. A status that arrives as a string is looked up by its name; names
  that every JavaScript object inherits are no statuses.
\<close>

subsection \<open>Statuses and transitions\<close>

datatype run_status =
    Run_Queued | Run_Running | Run_Waiting_Approval | Run_Waiting_Intervention | Run_Recovery_Pending
  | Run_Recovering | Run_Compensation_Pending | Run_Compensating | Run_Compensation_Failed | Run_Recovered
  | Run_Succeeded | Run_Failed | Run_Cancel_Requested | Run_Cancelling | Run_Cancelled | Run_Partial_Failure
  | Run_Termination_Requested | Run_Terminated | Run_Terminated_With_Accepted_Risk

fun run_status_name :: "run_status \<Rightarrow> string" where
  "run_status_name Run_Queued = ''queued''"
| "run_status_name Run_Running = ''running''"
| "run_status_name Run_Waiting_Approval = ''waiting_approval''"
| "run_status_name Run_Waiting_Intervention = ''waiting_intervention''"
| "run_status_name Run_Recovery_Pending = ''recovery_pending''"
| "run_status_name Run_Recovering = ''recovering''"
| "run_status_name Run_Compensation_Pending = ''compensation_pending''"
| "run_status_name Run_Compensating = ''compensating''"
| "run_status_name Run_Compensation_Failed = ''compensation_failed''"
| "run_status_name Run_Recovered = ''recovered''"
| "run_status_name Run_Succeeded = ''succeeded''"
| "run_status_name Run_Failed = ''failed''"
| "run_status_name Run_Cancel_Requested = ''cancel_requested''"
| "run_status_name Run_Cancelling = ''cancelling''"
| "run_status_name Run_Cancelled = ''cancelled''"
| "run_status_name Run_Partial_Failure = ''partial_failure''"
| "run_status_name Run_Termination_Requested = ''termination_requested''"
| "run_status_name Run_Terminated = ''terminated''"
| "run_status_name Run_Terminated_With_Accepted_Risk = ''terminated_with_accepted_risk''"

definition ORCHESTRATION_RUN_STATUSES :: "run_status list" where
  "ORCHESTRATION_RUN_STATUSES =
     [Run_Queued, Run_Running, Run_Waiting_Approval, Run_Waiting_Intervention, Run_Recovery_Pending,
      Run_Recovering, Run_Compensation_Pending, Run_Compensating, Run_Compensation_Failed, Run_Recovered,
      Run_Succeeded, Run_Failed, Run_Cancel_Requested, Run_Cancelling, Run_Cancelled, Run_Partial_Failure,
      Run_Termination_Requested, Run_Terminated, Run_Terminated_With_Accepted_Risk]"

definition TERMINAL_RUN_STATUSES :: "run_status list" where
  "TERMINAL_RUN_STATUSES =
     [Run_Succeeded, Run_Failed, Run_Cancelled, Run_Partial_Failure, Run_Terminated,
      Run_Terminated_With_Accepted_Risk]"

fun RUN_TRANSITIONS :: "run_status \<Rightarrow> run_status list" where
  "RUN_TRANSITIONS Run_Queued =
     [Run_Running, Run_Waiting_Approval, Run_Waiting_Intervention, Run_Recovery_Pending,
      Run_Compensation_Pending, Run_Failed, Run_Cancel_Requested, Run_Cancelled, Run_Termination_Requested,
      Run_Terminated]"
| "RUN_TRANSITIONS Run_Running =
     [Run_Waiting_Approval, Run_Waiting_Intervention, Run_Recovery_Pending, Run_Recovering,
      Run_Compensation_Pending, Run_Compensating, Run_Succeeded, Run_Failed, Run_Cancel_Requested,
      Run_Cancelling, Run_Cancelled, Run_Partial_Failure, Run_Termination_Requested, Run_Terminated]"
| "RUN_TRANSITIONS Run_Waiting_Approval =
     [Run_Running, Run_Waiting_Intervention, Run_Recovery_Pending, Run_Compensation_Pending, Run_Failed,
      Run_Cancel_Requested, Run_Cancelled, Run_Partial_Failure, Run_Termination_Requested, Run_Terminated]"
| "RUN_TRANSITIONS Run_Waiting_Intervention =
     [Run_Recovery_Pending, Run_Compensation_Pending, Run_Running, Run_Failed, Run_Partial_Failure,
      Run_Cancel_Requested, Run_Termination_Requested, Run_Terminated, Run_Terminated_With_Accepted_Risk]"
| "RUN_TRANSITIONS Run_Recovery_Pending =
     [Run_Recovering, Run_Waiting_Intervention, Run_Compensation_Pending, Run_Failed,
      Run_Termination_Requested, Run_Terminated]"
| "RUN_TRANSITIONS Run_Recovering =
     [Run_Running, Run_Recovery_Pending, Run_Waiting_Intervention, Run_Compensation_Pending, Run_Recovered,
      Run_Failed, Run_Termination_Requested, Run_Terminated]"
| "RUN_TRANSITIONS Run_Compensation_Pending =
     [Run_Compensating, Run_Waiting_Intervention, Run_Compensation_Failed, Run_Failed, Run_Cancelled,
      Run_Termination_Requested, Run_Terminated]"
| "RUN_TRANSITIONS Run_Compensating =
     [Run_Compensation_Pending, Run_Waiting_Intervention, Run_Compensation_Failed, Run_Failed,
      Run_Partial_Failure, Run_Cancelled, Run_Termination_Requested, Run_Terminated,
      Run_Terminated_With_Accepted_Risk]"
| "RUN_TRANSITIONS Run_Compensation_Failed =
     [Run_Waiting_Intervention, Run_Failed, Run_Partial_Failure, Run_Termination_Requested, Run_Terminated,
      Run_Terminated_With_Accepted_Risk]"
| "RUN_TRANSITIONS Run_Recovered =
     [Run_Running, Run_Succeeded, Run_Partial_Failure, Run_Failed, Run_Cancel_Requested,
      Run_Termination_Requested]"
| "RUN_TRANSITIONS Run_Cancel_Requested =
     [Run_Cancelling, Run_Compensation_Pending, Run_Cancelled, Run_Termination_Requested, Run_Terminated]"
| "RUN_TRANSITIONS Run_Cancelling =
     [Run_Compensation_Pending, Run_Waiting_Intervention, Run_Cancelled, Run_Termination_Requested,
      Run_Terminated]"
| "RUN_TRANSITIONS Run_Termination_Requested = [Run_Terminated, Run_Terminated_With_Accepted_Risk]"
| "RUN_TRANSITIONS Run_Succeeded = []"
| "RUN_TRANSITIONS Run_Failed = []"
| "RUN_TRANSITIONS Run_Cancelled = []"
| "RUN_TRANSITIONS Run_Partial_Failure = []"
| "RUN_TRANSITIONS Run_Terminated = []"
| "RUN_TRANSITIONS Run_Terminated_With_Accepted_Risk = []"

datatype node_status =
    Node_Blocked | Node_Ready | Node_Queued | Node_Running | Node_Retry_Wait | Node_Waiting_Approval
  | Node_Waiting_Intervention | Node_Recovery_Pending | Node_Recovering | Node_Succeeded | Node_Failed
  | Node_Cancelled | Node_Skipped | Node_Cancel_Requested | Node_Compensation_Pending | Node_Compensating
  | Node_Compensated | Node_Compensation_Failed | Node_Non_Reversible | Node_Terminated

fun node_status_name :: "node_status \<Rightarrow> string" where
  "node_status_name Node_Blocked = ''blocked''"
| "node_status_name Node_Ready = ''ready''"
| "node_status_name Node_Queued = ''queued''"
| "node_status_name Node_Running = ''running''"
| "node_status_name Node_Retry_Wait = ''retry_wait''"
| "node_status_name Node_Waiting_Approval = ''waiting_approval''"
| "node_status_name Node_Waiting_Intervention = ''waiting_intervention''"
| "node_status_name Node_Recovery_Pending = ''recovery_pending''"
| "node_status_name Node_Recovering = ''recovering''"
| "node_status_name Node_Succeeded = ''succeeded''"
| "node_status_name Node_Failed = ''failed''"
| "node_status_name Node_Cancelled = ''cancelled''"
| "node_status_name Node_Skipped = ''skipped''"
| "node_status_name Node_Cancel_Requested = ''cancel_requested''"
| "node_status_name Node_Compensation_Pending = ''compensation_pending''"
| "node_status_name Node_Compensating = ''compensating''"
| "node_status_name Node_Compensated = ''compensated''"
| "node_status_name Node_Compensation_Failed = ''compensation_failed''"
| "node_status_name Node_Non_Reversible = ''non_reversible''"
| "node_status_name Node_Terminated = ''terminated''"

definition ORCHESTRATION_NODE_STATUSES :: "node_status list" where
  "ORCHESTRATION_NODE_STATUSES =
     [Node_Blocked, Node_Ready, Node_Queued, Node_Running, Node_Retry_Wait, Node_Waiting_Approval,
      Node_Waiting_Intervention, Node_Recovery_Pending, Node_Recovering, Node_Succeeded, Node_Failed,
      Node_Cancelled, Node_Skipped, Node_Cancel_Requested, Node_Compensation_Pending, Node_Compensating,
      Node_Compensated, Node_Compensation_Failed, Node_Non_Reversible, Node_Terminated]"

definition TERMINAL_NODE_STATUSES :: "node_status list" where
  "TERMINAL_NODE_STATUSES =
     [Node_Succeeded, Node_Failed, Node_Cancelled, Node_Skipped, Node_Compensated, Node_Compensation_Failed,
      Node_Non_Reversible, Node_Terminated]"

fun NODE_TRANSITIONS :: "node_status \<Rightarrow> node_status list" where
  "NODE_TRANSITIONS Node_Blocked =
     [Node_Ready, Node_Retry_Wait, Node_Waiting_Intervention, Node_Cancel_Requested, Node_Cancelled,
      Node_Skipped, Node_Terminated]"
| "NODE_TRANSITIONS Node_Ready =
     [Node_Blocked, Node_Queued, Node_Running, Node_Waiting_Intervention, Node_Cancel_Requested,
      Node_Cancelled, Node_Skipped, Node_Terminated]"
| "NODE_TRANSITIONS Node_Queued =
     [Node_Running, Node_Waiting_Intervention, Node_Cancel_Requested, Node_Cancelled, Node_Skipped,
      Node_Terminated]"
| "NODE_TRANSITIONS Node_Running =
     [Node_Ready, Node_Retry_Wait, Node_Waiting_Approval, Node_Waiting_Intervention, Node_Recovery_Pending,
      Node_Succeeded, Node_Failed, Node_Cancel_Requested, Node_Cancelled, Node_Terminated]"
| "NODE_TRANSITIONS Node_Retry_Wait =
     [Node_Blocked, Node_Ready, Node_Running, Node_Waiting_Intervention, Node_Cancel_Requested, Node_Cancelled,
      Node_Skipped, Node_Terminated]"
| "NODE_TRANSITIONS Node_Waiting_Approval =
     [Node_Blocked, Node_Ready, Node_Failed, Node_Waiting_Intervention, Node_Cancel_Requested, Node_Cancelled,
      Node_Terminated]"
| "NODE_TRANSITIONS Node_Waiting_Intervention =
     [Node_Recovery_Pending, Node_Compensation_Pending, Node_Retry_Wait, Node_Skipped, Node_Failed,
      Node_Cancel_Requested, Node_Cancelled, Node_Terminated]"
| "NODE_TRANSITIONS Node_Recovery_Pending =
     [Node_Recovering, Node_Retry_Wait, Node_Waiting_Intervention, Node_Compensation_Pending, Node_Failed,
      Node_Terminated]"
| "NODE_TRANSITIONS Node_Recovering =
     [Node_Ready, Node_Retry_Wait, Node_Waiting_Intervention, Node_Compensation_Pending, Node_Succeeded,
      Node_Failed, Node_Terminated]"
| "NODE_TRANSITIONS Node_Succeeded = [Node_Compensation_Pending, Node_Non_Reversible, Node_Terminated]"
| "NODE_TRANSITIONS Node_Failed =
     [Node_Recovery_Pending, Node_Waiting_Intervention, Node_Compensation_Pending, Node_Retry_Wait,
      Node_Skipped, Node_Terminated]"
| "NODE_TRANSITIONS Node_Cancel_Requested = [Node_Cancelled, Node_Compensation_Pending, Node_Terminated]"
| "NODE_TRANSITIONS Node_Cancelled = []"
| "NODE_TRANSITIONS Node_Skipped = []"
| "NODE_TRANSITIONS Node_Compensation_Pending =
     [Node_Compensating, Node_Waiting_Intervention, Node_Compensated, Node_Compensation_Failed, Node_Terminated]"
| "NODE_TRANSITIONS Node_Compensating =
     [Node_Compensation_Pending, Node_Waiting_Intervention, Node_Compensated, Node_Compensation_Failed,
      Node_Terminated]"
| "NODE_TRANSITIONS Node_Compensated = []"
| "NODE_TRANSITIONS Node_Compensation_Failed =
     [Node_Waiting_Intervention, Node_Compensation_Pending, Node_Terminated]"
| "NODE_TRANSITIONS Node_Non_Reversible = [Node_Waiting_Intervention, Node_Terminated]"
| "NODE_TRANSITIONS Node_Terminated = []"

subsection \<open>The assertions\<close>

record transition_error =
  te_code :: string
  te_from_state :: string
  te_to_state :: string

definition assertTransition ::
  "(string \<Rightarrow> string list option) \<Rightarrow> string \<Rightarrow> string \<Rightarrow> string \<Rightarrow> transition_error + unit" where
  "assertTransition transitions fromState toState code =
     (if (case transitions fromState of None \<Rightarrow> False | Some ts \<Rightarrow> toState \<in> set ts) then Inr ()
      else Inl \<lparr>te_code = code, te_from_state = fromState, te_to_state = toState\<rparr>)"

definition node_row :: "string \<Rightarrow> string list option" where
  "node_row s =
     map_option (\<lambda>x. map node_status_name (NODE_TRANSITIONS x))
       (find (\<lambda>x. node_status_name x = s) ORCHESTRATION_NODE_STATUSES)"

definition run_row :: "string \<Rightarrow> string list option" where
  "run_row s =
     map_option (\<lambda>x. map run_status_name (RUN_TRANSITIONS x))
       (find (\<lambda>x. run_status_name x = s) ORCHESTRATION_RUN_STATUSES)"

definition assertNodeTransition :: "string \<Rightarrow> string \<Rightarrow> transition_error + unit" where
  "assertNodeTransition fromState toState =
     assertTransition node_row fromState toState ''ORCHESTRATION_NODE_TRANSITION_INVALID''"

definition assertRunTransition :: "string \<Rightarrow> string \<Rightarrow> transition_error + unit" where
  "assertRunTransition fromState toState =
     assertTransition run_row fromState toState ''ORCHESTRATION_RUN_TRANSITION_INVALID''"

subsection \<open>The tables\<close>

lemma all_run_statuses: "set ORCHESTRATION_RUN_STATUSES = UNIV"
proof -
  have "s \<in> set ORCHESTRATION_RUN_STATUSES" for s by (cases s) (simp_all add: ORCHESTRATION_RUN_STATUSES_def)
  then show ?thesis by blast
qed

lemma all_node_statuses: "set ORCHESTRATION_NODE_STATUSES = UNIV"
proof -
  have "s \<in> set ORCHESTRATION_NODE_STATUSES" for s by (cases s) (simp_all add: ORCHESTRATION_NODE_STATUSES_def)
  then show ?thesis by blast
qed

lemma run_status_name_inject [simp]: "run_status_name s = run_status_name t \<longleftrightarrow> s = t"
  by (cases s; cases t) simp_all

lemma node_status_name_inject [simp]: "node_status_name s = node_status_name t \<longleftrightarrow> s = t"
  by (cases s; cases t) simp_all

lemma find_name:
  assumes "set xs = UNIV" "\<And>s t. name s = name t \<longleftrightarrow> s = t"
  shows "find (\<lambda>x. name x = name s) xs = Some s"
proof -
  have "find (\<lambda>x. name x = name s) xs \<noteq> None" unfolding find_None_iff using assms(1) by blast
  then obtain t where t: "find (\<lambda>x. name x = name s) xs = Some t" by blast
  then have "name t = name s" by (auto simp: find_Some_iff)
  with t assms(2) show ?thesis by simp
qed

lemma node_row_name [simp]: "node_row (node_status_name s) = Some (map node_status_name (NODE_TRANSITIONS s))"
  by (simp only: node_row_def find_name [OF all_node_statuses node_status_name_inject] option.map)

lemma run_row_name [simp]: "run_row (run_status_name s) = Some (map run_status_name (RUN_TRANSITIONS s))"
  by (simp only: run_row_def find_name [OF all_run_statuses run_status_name_inject] option.map)

lemma image_name_mem: "(\<And>s t. name s = name t \<longleftrightarrow> s = t) \<Longrightarrow> name t \<in> set (map name xs) \<longleftrightarrow> t \<in> set xs"
  by auto

lemma assertNodeTransition_iff:
  "assertNodeTransition (node_status_name s) (node_status_name t) = Inr () \<longleftrightarrow> table_step NODE_TRANSITIONS s t"
  unfolding assertNodeTransition_def assertTransition_def node_row_name option.case
    image_name_mem [OF node_status_name_inject] table_step_def by simp

lemma assertRunTransition_iff:
  "assertRunTransition (run_status_name s) (run_status_name t) = Inr () \<longleftrightarrow> table_step RUN_TRANSITIONS s t"
  unfolding assertRunTransition_def assertTransition_def run_row_name option.case
    image_name_mem [OF run_status_name_inject] table_step_def by simp

definition run_rank :: "run_status \<Rightarrow> nat" where
  "run_rank s = (if s \<in> set TERMINAL_RUN_STATUSES then 0 else if Run_Terminated \<in> set (RUN_TRANSITIONS s) then 1 else 2)"

definition node_rank :: "node_status \<Rightarrow> nat" where
  "node_rank s = (if NODE_TRANSITIONS s = [] then 0 else 1)"

interpretation run_table: transition_table ORCHESTRATION_RUN_STATUSES RUN_TRANSITIONS run_rank
proof
  fix s assume "s \<in> set ORCHESTRATION_RUN_STATUSES" "RUN_TRANSITIONS s \<noteq> []"
  then show "\<exists>t\<in>set (RUN_TRANSITIONS s). run_rank t < run_rank s"
    by (cases s rule: run_status.exhaust) (auto simp: run_rank_def TERMINAL_RUN_STATUSES_def)
qed (simp add: all_run_statuses)

interpretation node_table: transition_table ORCHESTRATION_NODE_STATUSES NODE_TRANSITIONS node_rank
proof
  fix s assume "s \<in> set ORCHESTRATION_NODE_STATUSES" "NODE_TRANSITIONS s \<noteq> []"
  then show "\<exists>t\<in>set (NODE_TRANSITIONS s). node_rank t < node_rank s"
    by (cases s rule: node_status.exhaust) (simp_all add: node_rank_def)
qed (simp add: all_node_statuses)

text \<open>
  The terminal run statuses are exactly those without a way out, and every run can reach one; the assertion lets
  no run out of them, and a run whose termination was requested can only end as terminated.
\<close>

theorem terminal_runs_are_final:
  "(s \<in> set TERMINAL_RUN_STATUSES \<longleftrightarrow> (\<forall>t. assertRunTransition (run_status_name s) (run_status_name t) \<noteq> Inr ()))
   \<and> (\<exists>t\<in>set TERMINAL_RUN_STATUSES. table_run RUN_TRANSITIONS s t)
   \<and> (table_run RUN_TRANSITIONS Run_Termination_Requested u
        \<longleftrightarrow> u \<in> {Run_Termination_Requested, Run_Terminated, Run_Terminated_With_Accepted_Risk})"
proof -
  have dead: "s \<in> set TERMINAL_RUN_STATUSES \<longleftrightarrow> RUN_TRANSITIONS s = []" for s
    by (cases s) (simp_all add: TERMINAL_RUN_STATUSES_def)
  have "(\<forall>t. assertRunTransition (run_status_name s) (run_status_name t) \<noteq> Inr ()) \<longleftrightarrow> RUN_TRANSITIONS s = []"
    unfolding assertRunTransition_iff table_step_def by (cases "RUN_TRANSITIONS s") auto
  moreover have "\<exists>t\<in>set TERMINAL_RUN_STATUSES. table_run RUN_TRANSITIONS s t"
    using run_table.can_finish [of s] dead all_run_statuses by blast
  moreover have "table_run RUN_TRANSITIONS Run_Termination_Requested u
        \<longleftrightarrow> u \<in> {Run_Termination_Requested, Run_Terminated, Run_Terminated_With_Accepted_Risk}" (is "?L \<longleftrightarrow> ?R")
  proof
    assume ?L
    then show ?R by (induction rule: rtranclp_induct) (auto simp: table_step_def)
  next
    assume ?R
    then show ?L by (elim insertE emptyE) (simp_all add: table_step_def r_into_rtranclp)
  qed
  ultimately show ?thesis using dead by blast
qed

lemma table_path_gates:
  assumes "table_path allowed s ts" "s \<in> A" "\<And>x. x \<in> A \<Longrightarrow> set (allowed x) \<subseteq> G \<union> A"
    "t \<in> set ts" "t \<notin> A" "t \<notin> G"
  shows "\<exists>us g vs. ts = us @ g # vs \<and> g \<in> G \<and> t \<in> set vs"
  using assms(1,2,4)
proof (induction ts arbitrary: s)
  case (Cons z ts)
  show ?case
  proof (cases "z \<in> G")
    case True
    with Cons.prems assms(6) show ?thesis by (intro exI [of _ "[]"] exI [of _ z] exI [of _ ts]) auto
  next
    case False
    with Cons.prems assms(3) have z: "z \<in> A" by (auto simp: table_step_def)
    with assms(5) Cons.prems have "t \<in> set ts" "table_path allowed z ts" by auto
    with Cons.IH [OF _ z] obtain us g vs where "ts = us @ g # vs" "g \<in> G" "t \<in> set vs" by blast
    then show ?thesis by (intro exI [of _ "z # us"] exI [of _ g] exI [of _ vs]) simp
  qed
qed simp

definition settled_node :: "node_status \<Rightarrow> bool" where
  "settled_node s \<longleftrightarrow>
     s \<notin> {Node_Blocked, Node_Ready, Node_Queued, Node_Running, Node_Retry_Wait, Node_Waiting_Approval, Node_Recovering}"

text \<open>
  A finished node executes again only through recovery: on every path of allowed transitions from a terminal node
  status to a status of execution, the node first waits for a retry or is claimed by a recovery.
\<close>

theorem finished_nodes_rerun_through_recovery:
  assumes "table_path NODE_TRANSITIONS s ts" "s \<in> set TERMINAL_NODE_STATUSES"
    and "t \<in> set ts" "t \<in> {Node_Blocked, Node_Ready, Node_Queued, Node_Running, Node_Waiting_Approval}"
  shows "\<exists>us g vs. ts = us @ g # vs \<and> g \<in> {Node_Retry_Wait, Node_Recovering} \<and> t \<in> set vs"
proof (rule table_path_gates [OF assms(1), where A = "{x. settled_node x}"])
  show "s \<in> {x. settled_node x}"
    using assms(2) by (auto simp: TERMINAL_NODE_STATUSES_def settled_node_def)
  show "set (NODE_TRANSITIONS x) \<subseteq> {Node_Retry_Wait, Node_Recovering} \<union> {x. settled_node x}" if "x \<in> {x. settled_node x}" for x
    using that by (cases x) (simp_all add: settled_node_def)
qed (use assms(3,4) in \<open>auto simp: settled_node_def\<close>)

theorem finished_nodes_rerun_through_recovery_witness:
  "\<exists>us g vs. [Node_Recovery_Pending, Node_Recovering, Node_Ready, Node_Running] = us @ g # vs
     \<and> g \<in> {Node_Retry_Wait, Node_Recovering} \<and> Node_Running \<in> set vs"
  by (rule finished_nodes_rerun_through_recovery [of Node_Failed])
    (simp_all add: table_step_def TERMINAL_NODE_STATUSES_def)

end
