(* ===== verification/Orchestration_Graph.thy ===== *)
theory Orchestration_Graph
  imports Prelude "HOL-Library.AList" "HOL-Library.List_Lexorder" "HOL-Library.Char_ord"
begin

text \<open>
  The dependency graph of an orchestration, backend/src/services/orchestrationValidation.service.js: the
  dependencies that nodes and edges declare (\<open>dependenciesFor\<close>) and the breadth-first search that orders the
  nodes and finds cycles (in \<open>validateDefinitionDocument\<close>). A JavaScript \<open>Map\<close> is its list of entries in insertion
  order, a \<open>Set\<close> the list of its elements. The records carry what the graph needs of a node and an edge; the
  definition document extends them.
\<close>

subsection \<open>Nodes, edges and dependencies\<close>

record graph_node =
  gn_key :: string
  gn_dependencies :: "string list"

record graph_edge =
  ge_from :: string
  ge_to :: string

definition set_add :: "'a \<Rightarrow> 'a list \<Rightarrow> 'a list" where
  "set_add x xs = (if x \<in> set xs then xs else xs @ [x])"

definition node_dependencies :: "'a graph_node_scheme list \<Rightarrow> (string \<times> string list) list" where
  "node_dependencies nodes = fold (\<lambda>n m. AList.update (gn_key n) (unique_list (gn_dependencies n)) m) nodes []"

definition add_edge ::
  "'b graph_edge_scheme \<Rightarrow> (string \<times> string list) list \<Rightarrow> (string \<times> string list) list" where
  "add_edge e m =
     (case map_of m (ge_to e) of None \<Rightarrow> m | Some ds \<Rightarrow> AList.update (ge_to e) (set_add (ge_from e) ds) m)"

definition dependenciesFor ::
  "'a graph_node_scheme list \<Rightarrow> 'b graph_edge_scheme list \<Rightarrow> (string \<times> string list) list" where
  "dependenciesFor nodes edges = fold add_edge edges (node_dependencies nodes)"

subsection \<open>The search\<close>

definition indegrees ::
  "'a graph_node_scheme list \<Rightarrow> (string \<times> string list) list \<Rightarrow> (string \<times> int) list" where
  "indegrees nodes deps =
     fold (\<lambda>n m. AList.update (gn_key n)
       (case map_of deps (gn_key n) of None \<Rightarrow> 0 | Some ds \<Rightarrow> int (length ds)) m) nodes []"

definition add_dependent ::
  "string \<Rightarrow> string \<Rightarrow> (string \<times> string list) list \<Rightarrow> (string \<times> string list) list" where
  "add_dependent k dep m =
     (case map_of m dep of None \<Rightarrow> m | Some ks \<Rightarrow> AList.update dep (ks @ [k]) m)"

definition dependentsOf ::
  "'a graph_node_scheme list \<Rightarrow> (string \<times> string list) list \<Rightarrow> (string \<times> string list) list" where
  "dependentsOf nodes deps =
     fold (\<lambda>(k, ds) m. fold (add_dependent k) ds m) deps
       (fold (\<lambda>n m. AList.update (gn_key n) [] m) nodes [])"

definition rootsOf :: "(string \<times> int) list \<Rightarrow> string list" where
  "rootsOf ind = sort (map fst (filter (\<lambda>(k, d). d = 0) ind))"

text \<open>The inner loop over the sorted dependents of a visited node. A dependent without an in-degree would get
  \<open>NaN\<close>, which is never 0.\<close>

fun release ::
  "string list \<Rightarrow> (string \<times> int) list \<Rightarrow> string list \<Rightarrow> (string \<times> int) list \<times> string list" where
  "release [] ind queue = (ind, queue)"
| "release (k # ks) ind queue =
     (case map_of ind k of
        None \<Rightarrow> release ks ind queue
      | Some d \<Rightarrow> release ks (AList.update k (d - 1) ind) (if d - 1 = 0 then queue @ [k] else queue))"

definition positive_entries :: "(string \<times> int) list \<Rightarrow> nat" where
  "positive_entries ind = length (filter (\<lambda>(k, d). 0 < d) ind)"

lemma positive_entries_update:
  "map_of ind k = Some d \<Longrightarrow>
     positive_entries (AList.update k (d - 1) ind) + (if d = 1 then 1 else 0) \<le> positive_entries ind"
  by (induction ind) (auto simp: positive_entries_def)

lemma release_measure:
  "release ks ind queue = (ind', queue') \<Longrightarrow>
     length queue' + positive_entries ind' \<le> length queue + positive_entries ind"
proof (induction ks ind queue rule: release.induct)
  case (2 k ks ind queue)
  show ?case
  proof (cases "map_of ind k")
    case None
    with 2 show ?thesis by simp
  next
    case (Some d)
    with 2 have "length queue' + positive_entries ind' \<le>
        length (if d - 1 = 0 then queue @ [k] else queue) + positive_entries (AList.update k (d - 1) ind)"
      by simp
    with positive_entries_update [OF Some] show ?thesis by (auto split: if_splits)
  qed
qed simp

text \<open>The outer loop; \<open>visited\<close> grows at its end, as the array of the code.\<close>

function search ::
  "(string \<times> string list) list \<Rightarrow> (string \<times> int) list \<Rightarrow> string list \<Rightarrow> string list \<Rightarrow> string list" where
  "search dependents ind [] visited = visited"
| "search dependents ind (c # queue) visited =
     (case release (sort (case map_of dependents c of None \<Rightarrow> [] | Some ks \<Rightarrow> ks)) ind queue of
        (ind', queue') \<Rightarrow> search dependents ind' queue' (visited @ [c]))"
  by pat_completeness auto
termination
proof (relation "measure (\<lambda>(_, ind, queue, _). length queue + positive_entries ind)", goal_cases)
  case (2 dependents ind c queue visited x ind')
  then show ?case by (auto dest: release_measure [OF sym])
qed simp

definition topologicalOrder :: "'a graph_node_scheme list \<Rightarrow> 'b graph_edge_scheme list \<Rightarrow> string list" where
  "topologicalOrder nodes edges =
     (let deps = dependenciesFor nodes edges; ind = indegrees nodes deps
      in search (dependentsOf nodes deps) ind (rootsOf ind) [])"

subsection \<open>What the maps hold\<close>

definition node_keys :: "'a graph_node_scheme list \<Rightarrow> string set" where
  "node_keys nodes = gn_key ` set nodes"

text \<open>The direct dependencies of a key: those its node declares and the sources of the edges into it.\<close>

definition depends_on ::
  "'a graph_node_scheme list \<Rightarrow> 'b graph_edge_scheme list \<Rightarrow> string \<Rightarrow> string \<Rightarrow> bool" where
  "depends_on nodes edges k d \<longleftrightarrow>
     (\<exists>n\<in>set nodes. gn_key n = k \<and> d \<in> set (gn_dependencies n)) \<or>
     k \<in> node_keys nodes \<and> (\<exists>e\<in>set edges. ge_to e = k \<and> ge_from e = d)"

lemma set_set_add [simp]: "set (set_add x xs) = insert x (set xs)"
  by (auto simp: set_add_def)

lemma distinct_set_add [simp]: "distinct (set_add x xs) = distinct xs"
  by (simp add: set_add_def)

text \<open>A map built by one \<open>set\<close> per node.\<close>

lemma map_of_built:
  assumes "distinct (map gn_key nodes)"
  shows "map_of (fold (\<lambda>n. AList.update (gn_key n) (f n)) nodes m) k =
    (case find (\<lambda>n. gn_key n = k) nodes of Some n \<Rightarrow> Some (f n) | None \<Rightarrow> map_of m k)"
  using assms
proof (induction nodes arbitrary: m)
  case (Cons n ns)
  then have "find (\<lambda>n'. gn_key n' = gn_key n) ns = None" by (simp add: find_None_iff) (metis image_eqI)
  with Cons show ?case by (cases "gn_key n = k") (simp_all add: AList.update_conv' split: option.split)
qed simp

lemma keys_built:
  assumes "distinct (map gn_key nodes)" "set (map fst m) \<inter> node_keys nodes = {}"
  shows "map fst (fold (\<lambda>n. AList.update (gn_key n) (f n)) nodes m) = map fst m @ map gn_key nodes"
  using assms
proof (induction nodes arbitrary: m)
  case (Cons n ns)
  then have new: "map fst (AList.update (gn_key n) (f n) m) = map fst m @ [gn_key n]"
    by (simp add: AList.update_keys node_keys_def)
  with Cons.prems have "set (map fst (AList.update (gn_key n) (f n) m)) \<inter> node_keys ns = {}"
    by (auto simp: node_keys_def)
  with Cons.IH [of "AList.update (gn_key n) (f n) m"] Cons.prems(1) new show ?case by simp
qed simp

lemma find_key:
  assumes "distinct (map gn_key nodes)" "n \<in> set nodes"
  shows "find (\<lambda>n'. gn_key n' = gn_key n) nodes = Some n"
  using assms by (induction nodes) auto

lemma find_no_key: "k \<notin> node_keys nodes \<Longrightarrow> find (\<lambda>n. gn_key n = k) nodes = None"
  by (auto simp: find_None_iff node_keys_def)

lemma add_edge_lookup:
  "map_of (add_edge e m) k = map_option (\<lambda>ds. if ge_to e = k then set_add (ge_from e) ds else ds) (map_of m k)"
  by (cases "map_of m (ge_to e)"; cases "map_of m k") (auto simp: add_edge_def AList.update_conv')

lemma add_edge_keys: "map fst (add_edge e m) = map fst m"
proof (cases "map_of m (ge_to e)")
  case (Some ds)
  then have "ge_to e \<in> set (map fst m)" by (metis dom_map_of_conv_image_fst domI list.set_map)
  with Some show ?thesis by (simp add: add_edge_def AList.update_keys)
qed (simp add: add_edge_def)

lemma add_edges_lookup:
  "map_of (fold add_edge edges m) k =
     map_option (\<lambda>ds. fold (\<lambda>e ds. if ge_to e = k then set_add (ge_from e) ds else ds) edges ds) (map_of m k)"
  by (induction edges arbitrary: m) (simp_all add: add_edge_lookup option.map_comp comp_def option.map_ident option.map_id0)

lemma add_edges_keys: "map fst (fold add_edge edges m) = map fst m"
  by (induction edges arbitrary: m) (simp_all add: add_edge_keys)

lemma fold_set_add:
  "set (fold (\<lambda>e ds. if ge_to e = k then set_add (ge_from e) ds else ds) edges ds) =
     set ds \<union> {ge_from e | e. e \<in> set edges \<and> ge_to e = k}"
  "distinct ds \<Longrightarrow> distinct (fold (\<lambda>e ds. if ge_to e = k then set_add (ge_from e) ds else ds) edges ds)"
  by (induction edges arbitrary: ds) auto

lemma dependenciesFor_keys:
  "distinct (map gn_key nodes) \<Longrightarrow> map fst (dependenciesFor nodes edges) = map gn_key nodes"
  using keys_built [of nodes "[]"] by (simp add: dependenciesFor_def node_dependencies_def add_edges_keys)

lemma depends_on_node:
  assumes "distinct (map gn_key nodes)" "n \<in> set nodes"
  shows "depends_on nodes edges (gn_key n) d \<longleftrightarrow>
    d \<in> set (gn_dependencies n) \<or> (\<exists>e\<in>set edges. ge_to e = gn_key n \<and> ge_from e = d)"
proof -
  have "m = n" if "m \<in> set nodes" "gn_key m = gn_key n" for m
    using assms that by (auto simp: distinct_map dest: inj_onD)
  then have "(\<exists>m\<in>set nodes. gn_key m = gn_key n \<and> d \<in> set (gn_dependencies m)) \<longleftrightarrow> d \<in> set (gn_dependencies n)"
    using assms(2) by metis
  moreover have "gn_key n \<in> node_keys nodes" using assms(2) by (simp add: node_keys_def)
  ultimately show ?thesis by (simp add: depends_on_def)
qed

lemma dependenciesFor_lookup:
  assumes "distinct (map gn_key nodes)" "k \<in> node_keys nodes"
  obtains ds where "map_of (dependenciesFor nodes edges) k = Some ds" "distinct ds"
    "set ds = {d. depends_on nodes edges k d}"
proof -
  from assms(2) obtain n where n: "n \<in> set nodes" "k = gn_key n" by (auto simp: node_keys_def)
  let ?ds = "fold (\<lambda>e ds. if ge_to e = k then set_add (ge_from e) ds else ds) edges (unique_list (gn_dependencies n))"
  have "map_of (dependenciesFor nodes edges) k = Some ?ds"
    unfolding dependenciesFor_def node_dependencies_def add_edges_lookup map_of_built [OF assms(1)] n(2)
      find_key [OF assms(1) n(1)] by simp
  moreover have "d \<in> set ?ds \<longleftrightarrow> depends_on nodes edges k d" for d
    unfolding fold_set_add(1) set_unique_list n(2) depends_on_node [OF assms(1) n(1)] by blast
  then have "set ?ds = {d. depends_on nodes edges k d}" by blast
  ultimately show ?thesis using that fold_set_add(2) distinct_unique_list by blast
qed

lemma indegrees_lookup:
  assumes "distinct (map gn_key nodes)" "k \<in> node_keys nodes"
  shows "map_of (indegrees nodes (dependenciesFor nodes edges)) k =
    Some (int (card {d. depends_on nodes edges k d}))"
proof -
  from assms(2) obtain n where n: "n \<in> set nodes" "k = gn_key n" by (auto simp: node_keys_def)
  obtain ds where ds: "map_of (dependenciesFor nodes edges) k = Some ds" "distinct ds"
    "set ds = {d. depends_on nodes edges k d}" by (rule dependenciesFor_lookup [OF assms])
  have "length ds = card {d. depends_on nodes edges k d}" using ds(2,3) distinct_card by metis
  then show ?thesis
    using ds(1) unfolding indegrees_def map_of_built [OF assms(1)] n(2) find_key [OF assms(1) n(1)] by simp
qed

lemma indegrees_keys: "distinct (map gn_key nodes) \<Longrightarrow> map fst (indegrees nodes deps) = map gn_key nodes"
  using keys_built [of nodes "[]"] by (simp add: indegrees_def)

lemma add_dependents_lookup:
  assumes "distinct ds"
  shows "map_of (fold (add_dependent k) ds m) c =
    map_option (\<lambda>ks. if c \<in> set ds then ks @ [k] else ks) (map_of m c)"
  using assms
proof (induction ds arbitrary: m)
  case (Cons d ds)
  have "map_of (add_dependent k d m) c = map_option (\<lambda>ks. if c = d then ks @ [k] else ks) (map_of m c)"
    by (cases "map_of m d"; cases "map_of m c") (auto simp: add_dependent_def AList.update_conv')
  with Cons show ?case by (cases "map_of m c") auto
qed (simp add: option.map_id0 option.map_ident)

lemma all_dependents_lookup:
  assumes "\<forall>(k, ds)\<in>set deps. distinct ds"
  shows "map_of (fold (\<lambda>(k, ds). fold (add_dependent k) ds) deps m) c =
    map_option (\<lambda>ks. ks @ map fst (filter (\<lambda>(k, ds). c \<in> set ds) deps)) (map_of m c)"
  using assms
proof (induction deps arbitrary: m)
  case (Cons p deps)
  obtain k ds where p: "p = (k, ds)" by (cases p)
  with Cons.prems have "distinct ds" by simp
  then show ?case using Cons.IH [where m = "fold (add_dependent k) ds m"] Cons.prems p
    by (cases "map_of m c") (simp_all add: add_dependents_lookup)
qed (simp add: option.map_id0 option.map_ident)

lemma dependentsOf_lookup:
  assumes "distinct (map gn_key nodes)" "c \<in> node_keys nodes"
  obtains ks where "map_of (dependentsOf nodes (dependenciesFor nodes edges)) c = Some ks" "distinct ks"
    "set ks = {k \<in> node_keys nodes. depends_on nodes edges k c}"
proof -
  let ?deps = "dependenciesFor nodes edges"
  let ?ks = "map fst (filter (\<lambda>(k, ds). c \<in> set ds) ?deps)"
  have keys: "map fst ?deps = map gn_key nodes" by (rule dependenciesFor_keys [OF assms(1)])
  then have dk: "distinct (map fst ?deps)" using assms(1) by simp
  have entry: "distinct ds \<and> set ds = {d. depends_on nodes edges k d} \<and> k \<in> node_keys nodes" if "(k, ds) \<in> set ?deps" for k ds
  proof -
    have k: "k \<in> node_keys nodes" using that keys by (metis fst_conv image_eqI list.set_map node_keys_def)
    obtain ds' where "map_of ?deps k = Some ds'" "distinct ds'" "set ds' = {d. depends_on nodes edges k d}"
      by (rule dependenciesFor_lookup [OF assms(1) k])
    with map_of_is_SomeI [OF dk that] k show ?thesis by simp
  qed
  from assms(2) obtain n where n: "n \<in> set nodes" "c = gn_key n" by (auto simp: node_keys_def)
  have "map_of (fold (\<lambda>n. AList.update (gn_key n) []) nodes []) c = Some []"
    unfolding n(2) map_of_built [OF assms(1)] find_key [OF assms(1) n(1)] by simp
  moreover have "\<forall>(k, ds)\<in>set ?deps. distinct ds" using entry by blast
  ultimately have "map_of (dependentsOf nodes ?deps) c = Some ?ks"
    unfolding dependentsOf_def by (subst all_dependents_lookup) simp_all
  moreover have "distinct ?ks" by (rule distinct_map_filter [OF dk])
  moreover have "set ?ks = {k \<in> node_keys nodes. depends_on nodes edges k c}"
  proof (rule set_eqI)
    fix k
    have "k \<in> set ?ks \<longleftrightarrow> (\<exists>ds. (k, ds) \<in> set ?deps \<and> c \<in> set ds)" by force
    also have "\<dots> \<longleftrightarrow> k \<in> node_keys nodes \<and> depends_on nodes edges k c"
    proof
      assume "\<exists>ds. (k, ds) \<in> set ?deps \<and> c \<in> set ds"
      then show "k \<in> node_keys nodes \<and> depends_on nodes edges k c" using entry by blast
    next
      assume k: "k \<in> node_keys nodes \<and> depends_on nodes edges k c"
      then obtain ds where "map_of ?deps k = Some ds" "set ds = {d. depends_on nodes edges k d}"
        by (blast intro: dependenciesFor_lookup [OF assms(1), of k edges])
      with k map_of_SomeD show "\<exists>ds. (k, ds) \<in> set ?deps \<and> c \<in> set ds" by fast
    qed
    finally show "k \<in> set ?ks \<longleftrightarrow> k \<in> {k \<in> node_keys nodes. depends_on nodes edges k c}" by simp
  qed
  ultimately show ?thesis using that by blast
qed

lemma release_spec:
  assumes "distinct ks" "release ks ind queue = (ind', queue')"
  shows "(\<forall>k. map_of ind' k = map_option (\<lambda>d. if k \<in> set ks then d - 1 else d) (map_of ind k))
    \<and> queue' = queue @ filter (\<lambda>k. map_of ind k = Some 1) ks"
  using assms
proof (induction ks arbitrary: ind queue)
  case (Cons k' ks)
  show ?case
  proof (cases "map_of ind k'")
    case None
    with Cons.IH [of ind queue] Cons.prems have
      a: "\<forall>k. map_of ind' k = map_option (\<lambda>d. if k \<in> set ks then d - 1 else d) (map_of ind k)"
      and "queue' = queue @ filter (\<lambda>k. map_of ind k = Some 1) ks" by simp_all
    moreover have "map_of ind' k = map_option (\<lambda>d. if k \<in> set (k' # ks) then d - 1 else d) (map_of ind k)" for k
      by (cases "k = k'") (use a None in simp_all)
    ultimately show ?thesis using None by simp
  next
    case (Some d)
    let ?ind = "AList.update k' (d - 1) ind" and ?queue = "if d - 1 = 0 then queue @ [k'] else queue"
    have other: "map_of ?ind k = map_of ind k" if "k \<noteq> k'" for k
      using that by (simp add: AList.update_conv')
    have "filter (\<lambda>k. map_of ?ind k = Some 1) ks = filter (\<lambda>k. map_of ind k = Some 1) ks"
      by (rule filter_cong [OF refl]) (metis Cons.prems(1) distinct.simps(2) other)
    moreover from Cons.IH [of ?ind ?queue] Cons.prems Some have
      "\<forall>k. map_of ind' k = map_option (\<lambda>d. if k \<in> set ks then d - 1 else d) (map_of ?ind k)"
      "queue' = ?queue @ filter (\<lambda>k. map_of ?ind k = Some 1) ks" by simp_all
    ultimately show ?thesis using Some Cons.prems(1) by (auto simp: AList.update_conv' split: if_splits)
  qed
qed (simp add: option.map_ident)

subsection \<open>The invariant of the search\<close>

text \<open>
  \<open>K\<close> are the keys, \<open>D k\<close> the dependencies of \<open>k\<close>. The in-degree of a key counts its dependencies that are not yet
  visited; a key is visited or queued exactly when there is none; and every visited key comes after its
  dependencies.
\<close>

definition search_inv ::
  "string set \<Rightarrow> (string \<Rightarrow> string set) \<Rightarrow> (string \<times> int) list \<Rightarrow> string list \<Rightarrow> string list \<Rightarrow> bool" where
  "search_inv K D ind queue visited \<longleftrightarrow>
     (\<forall>k\<in>K. map_of ind k = Some (int (card (D k - set visited))))
     \<and> distinct (visited @ queue) \<and> set (visited @ queue) \<subseteq> K
     \<and> (\<forall>k\<in>K. k \<in> set (visited @ queue) \<longleftrightarrow> D k \<subseteq> set visited)
     \<and> (\<forall>i<length visited. D (visited ! i) \<subseteq> set (take i visited))"

lemma search_inv_step:
  assumes inv: "search_inv K D ind (c # queue) visited" and fin: "\<And>k. finite (D k)"
    and ks: "distinct ks" "set ks = {k \<in> K. c \<in> D k}"
    and r: "release ks ind queue = (ind', queue')"
  shows "search_inv K D ind' queue' (visited @ [c])"
proof -
  have old: "k \<in> set (visited @ c # queue) \<longleftrightarrow> D k \<subseteq> set visited" if "k \<in> K" for k
    using inv that unfolding search_inv_def by blast
  have K: "set (visited @ c # queue) \<subseteq> K" using inv unfolding search_inv_def by blast
  have dist: "distinct (visited @ c # queue)" using inv unfolding search_inv_def by blast
  have c: "c \<in> K" "c \<notin> set visited" "c \<notin> set queue" using K dist by auto
  have Dc: "D c \<subseteq> set visited" using old [OF c(1)] by simp
  have ind: "map_of ind k = Some (int (card (D k - set visited)))" if "k \<in> K" for k
    using inv that unfolding search_inv_def by blast
  note rs = release_spec [OF ks(1) r, THEN conjunct1, rule_format] release_spec [OF ks(1) r, THEN conjunct2]
  have split: "card (D k - set visited) = Suc (card (D k - set (visited @ [c])))" if "c \<in> D k" for k
  proof -
    have "D k - set visited = insert c (D k - set (visited @ [c]))" using that c(2) by auto
    moreover have "c \<notin> D k - set (visited @ [c])" by simp
    ultimately show ?thesis using card_insert_disjoint [OF finite_Diff [OF fin]] by metis
  qed
  have ind': "map_of ind' k = Some (int (card (D k - set (visited @ [c]))))" if k: "k \<in> K" for k
  proof (cases "c \<in> D k")
    case True
    with split [OF True] ind [OF k] rs(1) [of k] ks(2) k show ?thesis by simp
  next
    case False
    then have "D k - set (visited @ [c]) = D k - set visited" by auto
    with False ind [OF k] rs(1) [of k] ks(2) show ?thesis by simp
  qed
  have pushed: "k \<in> set queue' \<longleftrightarrow> k \<in> set queue \<or> c \<in> D k \<and> D k \<subseteq> set (visited @ [c])" if k: "k \<in> K" for k
  proof -
    have "c \<in> D k \<Longrightarrow> map_of ind k = Some 1 \<longleftrightarrow> card (D k - set (visited @ [c])) = 0"
      using split [of k] ind [OF k] by simp
    moreover have "card (D k - set (visited @ [c])) = 0 \<longleftrightarrow> D k \<subseteq> set (visited @ [c])"
      using fin by auto
    ultimately show ?thesis using rs(2) ks(2) k by auto
  qed
  have sub: "set queue' \<subseteq> set queue \<union> K" using rs(2) ks(2) by auto
  have fresh: "k \<notin> set (visited @ c # queue)" if "k \<in> set ks" for k
    using that ks(2) old [of k] c(2) by blast
  have "distinct ((visited @ [c]) @ queue')"
    using dist fresh ks(1) rs(2) by auto
  moreover have "set ((visited @ [c]) @ queue') \<subseteq> K" using K sub by auto
  moreover have "k \<in> set ((visited @ [c]) @ queue') \<longleftrightarrow> D k \<subseteq> set (visited @ [c])" if k: "k \<in> K" for k
    using pushed [OF k] old [OF k] by auto
  moreover have "D ((visited @ [c]) ! i) \<subseteq> set (take i (visited @ [c]))" if "i < length (visited @ [c])" for i
  proof (cases "i < length visited")
    case True
    moreover from this have "D (visited ! i) \<subseteq> set (take i visited)" using inv unfolding search_inv_def by blast
    ultimately show ?thesis by (simp add: nth_append)
  next
    case False
    with that have "i = length visited" by simp
    then show ?thesis using Dc by simp
  qed
  ultimately show ?thesis using ind' unfolding search_inv_def by blast
qed

lemma search_inv_final:
  assumes "search_inv K D ind queue visited" "\<And>k. finite (D k)"
    and "\<And>c. c \<in> K \<Longrightarrow> \<exists>ks. map_of dependents c = Some ks \<and> distinct ks \<and> set ks = {k \<in> K. c \<in> D k}"
  shows "\<exists>ind'. search_inv K D ind' [] (search dependents ind queue visited)"
  using assms(1,3)
proof (induction dependents ind queue visited rule: search.induct)
  case (2 dependents ind c queue visited)
  have "c \<in> K" using 2(2) by (auto simp: search_inv_def)
  with 2(3) obtain ks where ks: "map_of dependents c = Some ks" "distinct ks" "set ks = {k \<in> K. c \<in> D k}" by blast
  obtain ind' queue' where r: "release (sort ks) ind queue = (ind', queue')" by fastforce
  have "search_inv K D ind' queue' (visited @ [c])"
    using search_inv_step [OF 2(2) assms(2) _ _ r] ks(2,3) by simp
  with 2(1) 2(3) r ks(1) show ?case by simp
qed auto

subsection \<open>Correctness of the order\<close>

text \<open>
  The specification: a key is grounded when it is the key of a node and all its dependencies are grounded, that is,
  when it can be executed at all.
\<close>

inductive grounded :: "'a graph_node_scheme list \<Rightarrow> 'b graph_edge_scheme list \<Rightarrow> string \<Rightarrow> bool"
  for nodes edges where
  ground: "k \<in> node_keys nodes \<Longrightarrow> (\<And>d. depends_on nodes edges k d \<Longrightarrow> grounded nodes edges d) \<Longrightarrow>
    grounded nodes edges k"

lemma finite_dependencies: "finite {d. depends_on nodes edges k d}"
  by (rule finite_subset [of _ "\<Union> (set ` gn_dependencies ` set nodes) \<union> ge_from ` set edges"])
    (auto simp: depends_on_def)

lemma search_inv_initial:
  assumes "distinct (map gn_key nodes)"
  shows "search_inv (node_keys nodes) (\<lambda>k. {d. depends_on nodes edges k d})
    (indegrees nodes (dependenciesFor nodes edges)) (rootsOf (indegrees nodes (dependenciesFor nodes edges))) []"
proof -
  let ?ind = "indegrees nodes (dependenciesFor nodes edges)"
  have keys: "map fst ?ind = map gn_key nodes" by (rule indegrees_keys [OF assms])
  then have dk: "distinct (map fst ?ind)" using assms by simp
  have "distinct (rootsOf ?ind)" unfolding rootsOf_def distinct_sort by (rule distinct_map_filter [OF dk])
  moreover have root: "k \<in> set (rootsOf ?ind) \<longleftrightarrow> k \<in> node_keys nodes \<and> {d. depends_on nodes edges k d} = {}" for k
  proof -
    have "k \<in> set (rootsOf ?ind) \<longleftrightarrow> map_of ?ind k = Some 0"
      using map_of_eq_Some_iff [OF dk, of k 0] by (force simp: rootsOf_def)
    moreover have "k \<in> node_keys nodes" if "map_of ?ind k = Some 0"
      using that keys unfolding node_keys_def by (metis dom_map_of_conv_image_fst domI list.set_map)
    ultimately show ?thesis
      using indegrees_lookup [OF assms, of k edges] finite_dependencies [of nodes edges k] by auto
  qed
  then have "set (rootsOf ?ind) \<subseteq> node_keys nodes" by blast
  ultimately show ?thesis
    using root indegrees_lookup [OF assms, of _ edges] unfolding search_inv_def by simp
qed

lemma topologicalOrder_inv:
  assumes "distinct (map gn_key nodes)"
  obtains ind where "search_inv (node_keys nodes) (\<lambda>k. {d. depends_on nodes edges k d}) ind []
    (topologicalOrder nodes edges)"
proof -
  have "\<exists>ks. map_of (dependentsOf nodes (dependenciesFor nodes edges)) c = Some ks \<and> distinct ks \<and>
      set ks = {k \<in> node_keys nodes. c \<in> {d. depends_on nodes edges k d}}" if "c \<in> node_keys nodes" for c
    by (rule dependentsOf_lookup [OF assms that, of edges]) auto
  from search_inv_final [OF search_inv_initial [OF assms] finite_dependencies this] that show ?thesis
    unfolding topologicalOrder_def Let_def by blast
qed

lemma order_before:
  assumes "distinct (map gn_key nodes)" "i < length (topologicalOrder nodes edges)"
    and "depends_on nodes edges (topologicalOrder nodes edges ! i) d"
  shows "d \<in> set (take i (topologicalOrder nodes edges))"
  by (rule topologicalOrder_inv [OF assms(1), of edges]) (use assms(2,3) in \<open>auto simp: search_inv_def\<close>)

lemma order_grounded:
  assumes "distinct (map gn_key nodes)"
  shows "k \<in> set (topologicalOrder nodes edges) \<longleftrightarrow> grounded nodes edges k"
proof -
  let ?o = "topologicalOrder nodes edges"
  obtain ind where inv: "search_inv (node_keys nodes) (\<lambda>k. {d. depends_on nodes edges k d}) ind [] ?o"
    by (rule topologicalOrder_inv [OF assms])
  have closed: "k \<in> set ?o \<longleftrightarrow> (\<forall>d. depends_on nodes edges k d \<longrightarrow> d \<in> set ?o)" if "k \<in> node_keys nodes" for k
    using inv that by (auto simp: search_inv_def)
  have sub: "set ?o \<subseteq> node_keys nodes" using inv by (simp add: search_inv_def)
  have "grounded nodes edges (?o ! i)" if "i < length ?o" for i
    using that
  proof (induction i rule: less_induct)
    case (less i)
    show ?case
    proof (rule grounded.ground)
      show "?o ! i \<in> node_keys nodes" using sub less.prems by auto
      fix d assume "depends_on nodes edges (?o ! i) d"
      from order_before [OF assms less.prems this] obtain j where "j < i" "d = ?o ! j"
        using less.prems by (auto simp: in_set_conv_nth)
      with less show "grounded nodes edges d" by auto
    qed
  qed
  then have "k \<in> set ?o \<Longrightarrow> grounded nodes edges k" by (auto simp: in_set_conv_nth)
  moreover have "grounded nodes edges k \<Longrightarrow> k \<in> set ?o"
    by (induction rule: grounded.induct) (simp add: closed)
  ultimately show ?thesis by blast
qed

lemma order_distinct:
  assumes "distinct (map gn_key nodes)"
  shows "distinct (topologicalOrder nodes edges)" "set (topologicalOrder nodes edges) \<subseteq> node_keys nodes"
  by (rule topologicalOrder_inv [OF assms, of edges]; simp add: search_inv_def)+

text \<open>
  C37: The search returns, for nodes with distinct keys, exactly the nodes that can be executed at all, each once and
  each after everything it depends on, whether the dependency is declared by the node or by an edge.
\<close>

theorem topological_order_correct:
  assumes "distinct (map gn_key nodes)"
  shows "distinct (topologicalOrder nodes edges)
    \<and> set (topologicalOrder nodes edges) = {k. grounded nodes edges k}
    \<and> (\<forall>i<length (topologicalOrder nodes edges). \<forall>d.
         depends_on nodes edges (topologicalOrder nodes edges ! i) d \<longrightarrow> d \<in> set (take i (topologicalOrder nodes edges)))"
  using order_distinct(1) [OF assms] order_grounded [OF assms] order_before [OF assms] by blast

lemma depends_on_key: "depends_on nodes edges k d \<Longrightarrow> k \<in> node_keys nodes"
  by (auto simp: depends_on_def node_keys_def)

lemma all_grounded_iff:
  assumes "distinct (map gn_key nodes)"
  shows "(\<forall>k\<in>node_keys nodes. grounded nodes edges k) \<longleftrightarrow>
    (\<forall>k d. depends_on nodes edges k d \<longrightarrow> d \<in> node_keys nodes) \<and> acyclic {(d, k). depends_on nodes edges k d}"
    (is "?G \<longleftrightarrow> ?known \<and> acyclic ?r")
proof (intro iffI conjI)
  assume g: ?G
  note key = depends_on_key [of nodes edges]
  from g show ?known by (metis grounded.cases key)
  have "k \<in> Wellfounded.acc ?r" if "grounded nodes edges k" for k
    using that by (induction rule: grounded.induct) (auto intro: accI)
  moreover have "k \<in> Wellfounded.acc ?r" if "k \<notin> node_keys nodes" for k
    using that key by (auto intro: accI)
  ultimately have "wf ?r" using g by (metis wf_iff_acc)
  then show "acyclic ?r" by (rule wf_acyclic)
next
  assume a: "?known \<and> acyclic ?r"
  have "?r \<subseteq> node_keys nodes \<times> node_keys nodes"
    using a by (auto dest: depends_on_key)
  then have "finite ?r" by (rule finite_subset) (simp add: node_keys_def)
  with a have wf: "wf ?r" by (simp add: finite_acyclic_wf)
  have "k \<in> node_keys nodes \<longrightarrow> grounded nodes edges k" for k
    using wf by (induction k) (use a in \<open>auto intro: grounded.ground\<close>)
  then show ?G by blast
qed

text \<open>
  C38: The cycle check is exact: the search visits as many nodes as there are, the condition under which a definition
  passes as acyclic, exactly when every dependency names a node and no node depends on itself through any chain of
  dependencies.
\<close>

theorem cycle_check_exact:
  assumes "distinct (map gn_key nodes)"
  shows "length (topologicalOrder nodes edges) = length nodes \<longleftrightarrow>
    (\<forall>k d. depends_on nodes edges k d \<longrightarrow> d \<in> node_keys nodes) \<and> acyclic {(d, k). depends_on nodes edges k d}"
proof -
  let ?o = "topologicalOrder nodes edges"
  have "length ?o = card (set ?o)" using order_distinct(1) [OF assms] distinct_card by metis
  moreover have "length nodes = card (node_keys nodes)"
    using distinct_card [OF assms] by (simp add: node_keys_def)
  moreover have "card (set ?o) = card (node_keys nodes) \<longleftrightarrow> set ?o = node_keys nodes"
    using order_distinct(2) [OF assms] card_subset_eq by (metis List.finite_set finite_imageI node_keys_def)
  moreover have "set ?o = node_keys nodes \<longleftrightarrow> (\<forall>k\<in>node_keys nodes. grounded nodes edges k)"
    using order_distinct(2) [OF assms] order_grounded [OF assms] by blast
  ultimately show ?thesis using all_grounded_iff [OF assms] by simp
qed

definition sample_graph :: "graph_node list" where
  "sample_graph =
     [\<lparr>gn_key = ''a'', gn_dependencies = []\<rparr>, \<lparr>gn_key = ''b'', gn_dependencies = [''a'']\<rparr>,
      \<lparr>gn_key = ''c'', gn_dependencies = [''b'']\<rparr>]"

definition sample_edges :: "graph_edge list" where
  "sample_edges = [\<lparr>ge_from = ''c'', ge_to = ''b''\<rparr>]"

lemma sample_graph_keys: "distinct (map gn_key sample_graph)"
  by (simp add: sample_graph_def)

lemma sample_orders:
  "topologicalOrder sample_graph ([] :: graph_edge list) = [''a'', ''b'', ''c'']"
  "topologicalOrder sample_graph sample_edges = [''a'']"
  by code_simp+

theorem topological_order_correct_witness:
  "grounded sample_graph sample_edges ''a'' \<and> \<not> grounded sample_graph sample_edges ''b''"
proof -
  have "set [''a''] = {k. grounded sample_graph sample_edges k}"
    using topological_order_correct [OF sample_graph_keys, of sample_edges, THEN conjunct2, THEN conjunct1]
    unfolding sample_orders .
  then have "grounded sample_graph sample_edges k \<longleftrightarrow> k = ''a''" for k by auto
  then show ?thesis by simp
qed

theorem cycle_check_exact_witness:
  "acyclic {(d, k). depends_on sample_graph ([] :: graph_edge list) k d}"
  using cycle_check_exact [OF sample_graph_keys, of "[] :: graph_edge list"] unfolding sample_orders
  by (simp add: sample_graph_def)

end
