(* ===== verification/Orchestration_Mapping.thy ===== *)
theory Orchestration_Mapping
  imports Safe_Json Orchestration_Graph
begin

text \<open>
  Input mappings of orchestration nodes: their validation when a definition is stored
  (backend/src/services/orchestrationValidation.service.js: \<open>mappingReference\<close>, \<open>inspectMapping\<close>) and their
  resolution when a node runs (backend/src/services/orchestrationMapping.service.js), with the projection of a
  node's output to what its dependents refer to. A mapping is a JSON value whose strings may be expressions over the
  input of the run, the outputs of the dependencies and the metadata of the run. The JSON Schema compiler is
  the argument \<open>ajv\<close>.
\<close>

subsection \<open>Expressions\<close>

record mapped_node = graph_node +
  mn_input_mapping :: json

definition maximumMappingEntries :: nat where "maximumMappingEntries = 500"

definition SAFE_METADATA_PATHS :: "string list" where
  "SAFE_METADATA_PATHS =
     [''runId'', ''definitionId'', ''definitionVersion'', ''nodeKey'', ''attempt'', ''traceId'', ''requestId'']"

definition no_line_break :: "string \<Rightarrow> bool" where
  "no_line_break s = list_all (\<lambda>c. char_code c \<notin> {10, 13}) s"

text \<open>\<open>$nodes.<key>.output\<close> and \<open>$nodes.<key>.output.<path>\<close>, after \<open>$nodes.\<close>.\<close>

definition node_reference :: "string \<Rightarrow> (string \<times> string option) option" where
  "node_reference r =
     (let key = takeWhile (\<lambda>c. c \<noteq> CHR ''.'') r; rest = drop (length key) r
      in if SAFE_NODE_KEY key \<and> starts_with rest ''.output''
         then (case drop 7 rest of
                 [] \<Rightarrow> Some (key, None)
               | c # p \<Rightarrow> if c = CHR ''.'' \<and> p \<noteq> [] \<and> no_line_break p then Some (key, Some p) else None)
         else None)"

subsection \<open>Validation\<close>

record mapping_context =
  mc_input_schema :: "json option"
  mc_dependencies :: "string list"
  mc_output_schema :: "string \<Rightarrow> json option"

fun schemaDeclaresPath :: "json option \<Rightarrow> string list \<Rightarrow> bool" where
  "schemaDeclaresPath current [] = True"
| "schemaDeclaresPath current (s # ss) =
     (case current of
        None \<Rightarrow> False
      | Some v \<Rightarrow>
          if \<not> object_like v then False
          else (case Option.bind
                  (if own_property v ''type'' = Some (JStr ''array'') then own_property v ''items'' else Some v)
                  (\<lambda>x. own_property x ''properties'') of
                  None \<Rightarrow> False
                | Some p \<Rightarrow>
                    if \<not> truthy p then False
                    else (case own_property p s of None \<Rightarrow> False | Some w \<Rightarrow> schemaDeclaresPath (Some w) ss)))"

definition mappingReference :: "string \<Rightarrow> mapping_context \<Rightarrow> string \<Rightarrow> issue list" where
  "mappingReference e ctx path =
     (if starts_with e ''$run.input.'' then
        (case safe_segments (drop 11 e) of
           None \<Rightarrow> [issue_at path ''MAPPING_PATH_INVALID'']
         | Some ss \<Rightarrow> if schemaDeclaresPath (mc_input_schema ctx) ss then []
                     else [issue_at path ''MAPPING_INPUT_UNDECLARED''])
      else if starts_with e ''$nodes.'' then
        (case node_reference (drop 7 e) of
           None \<Rightarrow> [issue_at path ''MAPPING_NODE_PATH_INVALID'']
         | Some (key, p) \<Rightarrow>
             if key \<notin> set (mc_dependencies ctx) then [issue_at path ''MAPPING_NODE_NOT_DEPENDENCY'']
             else (case p of
                     None \<Rightarrow> [issue_at path ''MAPPING_OUTPUT_PATH_REQUIRED'']
                   | Some sp \<Rightarrow>
                       (case safe_segments sp of
                          None \<Rightarrow> [issue_at path ''MAPPING_PATH_INVALID'']
                        | Some ss \<Rightarrow> if schemaDeclaresPath (mc_output_schema ctx key) ss then []
                                    else [issue_at path ''MAPPING_OUTPUT_UNDECLARED''])))
      else if starts_with e ''$meta.'' then
        (if drop 6 e \<in> set SAFE_METADATA_PATHS then [] else [issue_at path ''MAPPING_METADATA_FORBIDDEN''])
      else if starts_with e ''$'' then [issue_at path ''MAPPING_EXPRESSION_FORBIDDEN'']
      else [])"

definition literal_of :: "(string \<times> json) list \<Rightarrow> json option" where
  "literal_of fs = (case fs of [(k, w)] \<Rightarrow> if k = ''literal'' then Some w else None | _ \<Rightarrow> None)"

definition forbidden_target :: "string \<Rightarrow> bool" where
  "forbidden_target k \<longleftrightarrow> \<not> SAFE_PATH_SEGMENT k \<or> forbiddenKey k"

fun inspectMapping :: "mapping_context \<Rightarrow> string \<Rightarrow> json \<Rightarrow> nat \<Rightarrow> issue list \<times> nat" where
  "inspectMapping ctx path v count =
     (let n = count + 1 in
      if maximumMappingEntries < n then ([issue_at path ''MAPPING_LIMIT_EXCEEDED''], n)
      else case v of
        JStr e \<Rightarrow> (mappingReference e ctx path, n)
      | JArr xs \<Rightarrow> visit_all (\<lambda>(k, w). inspectMapping ctx (index_path path k) w) (index_entries xs) n
      | JObj fs \<Rightarrow>
          (case literal_of fs of
             Some w \<Rightarrow> (inspectSafeJson (field_path path ''literal'') w, n)
           | None \<Rightarrow> visit_all (\<lambda>(k, w) m.
               if forbidden_target k then ([issue_at (field_path path k) ''MAPPING_TARGET_FORBIDDEN''], m)
               else inspectMapping ctx (field_path path k) w m) fs n)
      | _ \<Rightarrow> ([], n))"

declare inspectMapping.simps [simp del]

subsection \<open>Resolution\<close>

record resolve_context =
  rc_run_input :: json
  rc_node_outputs :: "(string \<times> json) list"
  rc_dependencies :: "string list"
  rc_metadata :: "(string \<times> json) list"

definition mappingError :: "string \<Rightarrow> string \<Rightarrow> app_error" where
  "mappingError code path = App_Error 400 code path"

fun read_segments :: "json \<Rightarrow> string list \<Rightarrow> json option" where
  "read_segments v [] = Some v"
| "read_segments v (s # ss) =
     (if object_like v then case own_property v s of None \<Rightarrow> None | Some w \<Rightarrow> read_segments w ss else None)"

definition safeSegments :: "string \<Rightarrow> string list res" where
  "safeSegments path =
     (case safe_segments path of
        None \<Rightarrow> Inl (mappingError ''ORCHESTRATION_MAPPING_PATH_INVALID'' path) | Some ss \<Rightarrow> Inr ss)"

definition readPath :: "(rat \<Rightarrow> nat) \<Rightarrow> json \<Rightarrow> string \<Rightarrow> json res" where
  "readPath num_size source path =
     bindE (safeSegments path) (\<lambda>ss.
     case read_segments source ss of
       None \<Rightarrow> Inl (mappingError ''ORCHESTRATION_MAPPING_VALUE_MISSING'' path)
     | Some v \<Rightarrow> cloneJson num_size v)"

definition resolveExpression :: "(rat \<Rightarrow> nat) \<Rightarrow> resolve_context \<Rightarrow> string \<Rightarrow> string \<Rightarrow> json res" where
  "resolveExpression num_size ctx path e =
     (if \<not> starts_with e ''$'' then Inr (JStr e)
      else if starts_with e ''$run.input.'' then readPath num_size (rc_run_input ctx) (drop 11 e)
      else if starts_with e ''$nodes.'' then
        (case node_reference (drop 7 e) of
           Some (key, Some p) \<Rightarrow>
             if key \<notin> set (rc_dependencies ctx)
             then Inl (mappingError ''ORCHESTRATION_MAPPING_DEPENDENCY_DENIED'' path)
             else (case map_of (rc_node_outputs ctx) key of
                     None \<Rightarrow> Inl (mappingError ''ORCHESTRATION_MAPPING_VALUE_MISSING'' path)
                   | Some output \<Rightarrow> readPath num_size output p)
         | _ \<Rightarrow> Inl (mappingError ''ORCHESTRATION_MAPPING_EXPRESSION_REJECTED'' path))
      else if starts_with e ''$meta.'' then
        (case map_of (rc_metadata ctx) (drop 6 e) of
           None \<Rightarrow> Inl (mappingError ''ORCHESTRATION_MAPPING_METADATA_DENIED'' path)
         | Some v \<Rightarrow> cloneJson num_size v)
      else Inl (mappingError ''ORCHESTRATION_MAPPING_EXPRESSION_REJECTED'' path))"

fun resolve_all :: "('e \<Rightarrow> nat \<Rightarrow> ('v \<times> nat) res) \<Rightarrow> 'e list \<Rightarrow> nat \<Rightarrow> ('v list \<times> nat) res" where
  "resolve_all f [] n = Inr ([], n)"
| "resolve_all f (e # es) n =
     bindE (f e n) (\<lambda>(v, m). bindE (resolve_all f es m) (\<lambda>(vs, m'). Inr (v # vs, m')))"

lemma resolve_all_cong [fundef_cong]:
  "xs = ys \<Longrightarrow> n = m \<Longrightarrow> (\<And>e k. e \<in> set ys \<Longrightarrow> f e k = g e k) \<Longrightarrow> resolve_all f xs n = resolve_all g ys m"
  by (induction xs arbitrary: ys n m) (auto simp: bindE_def split: sum.split)

fun resolveValue :: "(rat \<Rightarrow> nat) \<Rightarrow> resolve_context \<Rightarrow> string \<Rightarrow> json \<Rightarrow> nat \<Rightarrow> (json \<times> nat) res" where
  "resolveValue num_size ctx path v count =
     (let n = count + 1 in
      if maximumMappingEntries < n then Inl (mappingError ''ORCHESTRATION_MAPPING_LIMIT_EXCEEDED'' path)
      else case v of
        JStr e \<Rightarrow> bindE (resolveExpression num_size ctx path e) (\<lambda>w. Inr (w, n))
      | JArr xs \<Rightarrow>
          bindE (resolve_all (\<lambda>(k, w). resolveValue num_size ctx (index_path path k) w) (index_entries xs) n)
            (\<lambda>(ws, m). Inr (JArr ws, m))
      | JObj fs \<Rightarrow>
          (case literal_of fs of
             Some w \<Rightarrow>
               bindE (assertSafePayload num_size (field_path path ''literal'') w) (\<lambda>_.
               bindE (cloneJson num_size w) (\<lambda>u. Inr (u, n)))
           | None \<Rightarrow>
               bindE (resolve_all (\<lambda>(k, w) m.
                   if forbidden_target k
                   then Inl (mappingError ''ORCHESTRATION_MAPPING_TARGET_REJECTED'' (field_path path k))
                   else resolveValue num_size ctx (field_path path k) w m) fs n)
                 (\<lambda>(ws, m). Inr (JObj (zip (map fst fs) ws), m)))
      | _ \<Rightarrow> Inr (v, n))"

declare resolveValue.simps [simp del]

text \<open>\<open>ajv schema\<close>: the compiled validator, \<open>None\<close> when the schema does not compile.\<close>

definition validateAgainstSchema ::
  "(rat \<Rightarrow> nat) \<Rightarrow> (json \<Rightarrow> (json \<Rightarrow> bool) option) \<Rightarrow> json \<Rightarrow> string \<Rightarrow> string \<Rightarrow> json \<Rightarrow> json res" where
  "validateAgainstSchema num_size ajv schema path code v =
     bindE (assertSafePayload num_size path v) (\<lambda>_.
     case ajv schema of
       None \<Rightarrow> Inl (App_Error 400 ''ORCHESTRATION_SCHEMA_INVALID'' '''')
     | Some validate \<Rightarrow> if validate v then cloneJson num_size v else Inl (App_Error 400 code path))"

definition resolveNodeInput ::
  "(rat \<Rightarrow> nat) \<Rightarrow> (json \<Rightarrow> (json \<Rightarrow> bool) option) \<Rightarrow> json \<Rightarrow> resolve_context \<Rightarrow> json \<Rightarrow> json res" where
  "resolveNodeInput num_size ajv mapping ctx inputSchema =
     bindE (assertSafePayload num_size ''$run.input'' (rc_run_input ctx)) (\<lambda>_.
     bindE (resolveValue num_size ctx ''$mapping'' (if truthy mapping then mapping else JObj []) 0) (\<lambda>(v, _).
     validateAgainstSchema num_size ajv inputSchema ''$node.input'' ''ORCHESTRATION_NODE_INPUT_INVALID'' v))"

subsection \<open>Projection of outputs\<close>

fun mapping_strings :: "json \<Rightarrow> string list" where
  "mapping_strings (JStr s) = [s]"
| "mapping_strings (JArr xs) = concat (map mapping_strings xs)"
| "mapping_strings (JObj fs) = concat (map (\<lambda>(k, w). mapping_strings w) fs)"
| "mapping_strings _ = []"

text \<open>The path of an expression over the output of the node \<open>key\<close>.\<close>

definition output_path :: "string \<Rightarrow> string \<Rightarrow> string option" where
  "output_path key e =
     (let prefix = ''$nodes.'' @ key @ ''.output.''; p = drop (length prefix) e
      in if starts_with e prefix \<and> p \<noteq> [] \<and> no_line_break p then Some p else None)"

definition referencedOutputPaths :: "'a mapped_node_scheme list \<Rightarrow> string \<Rightarrow> string list" where
  "referencedOutputPaths nodes key =
     sort (unique_list (List.map_filter (output_path key)
       (concat (map (\<lambda>n. mapping_strings (mn_input_mapping n)) nodes))))"

text \<open>\<open>v[k] = w\<close>. An array keeps only its elements and its length as JSON.\<close>

definition js_set :: "json \<Rightarrow> string \<Rightarrow> json \<Rightarrow> json" where
  "js_set v k w =
     (case v of
        JObj fs \<Rightarrow> JObj (AList.update k w fs)
      | JArr xs \<Rightarrow>
          (case w of
             JNum m \<Rightarrow> (case js_integer m of
                 Some i \<Rightarrow> if k = ''length'' \<and> 0 \<le> i
                           then JArr (take (nat i) xs @ replicate (nat i - length xs) JNull) else v
               | None \<Rightarrow> v)
           | _ \<Rightarrow> v)
      | _ \<Rightarrow> v)"

fun assign_segments :: "json \<Rightarrow> string list \<Rightarrow> json \<Rightarrow> json" where
  "assign_segments v [] w = v"
| "assign_segments v [s] w = js_set v s w"
| "assign_segments v (s # t # ss) w =
     js_set v s (assign_segments
       (case own_property v s of Some c \<Rightarrow> if truthy c then c else JObj [] | None \<Rightarrow> JObj []) (t # ss) w)"

definition assignPath :: "(rat \<Rightarrow> nat) \<Rightarrow> json \<Rightarrow> string \<Rightarrow> json \<Rightarrow> json res" where
  "assignPath num_size target path value =
     bindE (safeSegments path) (\<lambda>ss. bindE (cloneJson num_size value) (\<lambda>w. Inr (assign_segments target ss w)))"

fun project_paths :: "(rat \<Rightarrow> nat) \<Rightarrow> json \<Rightarrow> string list \<Rightarrow> json \<Rightarrow> json res" where
  "project_paths num_size output [] projected = Inr projected"
| "project_paths num_size output (p # ps) projected =
     bindE (readPath num_size output p) (\<lambda>v.
     bindE (assignPath num_size projected p v) (project_paths num_size output ps))"

definition projectValidatedOutput ::
  "(rat \<Rightarrow> nat) \<Rightarrow> json \<Rightarrow> string \<Rightarrow> 'a mapped_node_scheme list \<Rightarrow> json res" where
  "projectValidatedOutput num_size output key nodes =
     bindE (assertSafePayload num_size ''$node.output'' output) (\<lambda>_.
     if \<not> list_ex (\<lambda>n. key \<in> set (gn_dependencies n)) nodes then cloneJson num_size output
     else bindE (project_paths num_size output (referencedOutputPaths nodes key) (JObj [])) (cloneJson num_size))"

subsection \<open>Validated mappings resolve\<close>

definition runtime_codes :: "string set" where
  "runtime_codes =
     {''ORCHESTRATION_MAPPING_VALUE_MISSING'', ''ORCHESTRATION_MAPPING_METADATA_DENIED'',
      ''ORCHESTRATION_PAYLOAD_REJECTED''}"

text \<open>A result that reports only runtime conditions, and counts as the validation did.\<close>

definition resolves_as :: "('v \<times> nat) res \<Rightarrow> nat \<Rightarrow> bool" where
  "resolves_as r n \<longleftrightarrow> (case r of Inl e \<Rightarrow> err_code e \<in> runtime_codes | Inr (_, m) \<Rightarrow> m = n)"

lemma resolves_as_simps [simp]:
  "resolves_as (Inl e) n \<longleftrightarrow> err_code e \<in> runtime_codes"
  "resolves_as (Inr (v, m)) n \<longleftrightarrow> m = n"
  by (simp_all add: resolves_as_def)

lemma resolves_as_bind:
  assumes "resolves_as r n" "\<And>v. r = Inr (v, n) \<Longrightarrow> resolves_as (f (v, n)) m"
  shows "resolves_as (bindE r f) m"
  using assms by (cases r) (auto simp: resolves_as_def bindE_def)

lemma starts_with_dollar:
  "starts_with e ''$run.input.'' \<Longrightarrow> starts_with e ''$''"
  "starts_with e ''$nodes.'' \<Longrightarrow> starts_with e ''$''"
  "starts_with e ''$meta.'' \<Longrightarrow> starts_with e ''$''"
  by (cases e; simp)+

lemma readPath_codes:
  assumes "safe_segments p = Some ss" "readPath num_size source p = Inl e"
  shows "err_code e \<in> runtime_codes"
  using assms by (auto simp: readPath_def safeSegments_def mappingError_def runtime_codes_def bindE_def
      dest!: cloneJson_Inl split: option.splits)

lemma resolveExpression_codes:
  assumes "mappingReference x ctx path = []" "set (mc_dependencies ctx) \<subseteq> set (rc_dependencies rc)"
    and "resolveExpression num_size rc path' x = Inl e"
  shows "err_code e \<in> runtime_codes"
proof -
  consider (plain) "\<not> starts_with x ''$''" | (input) "starts_with x ''$run.input.''"
    | (node) "\<not> starts_with x ''$run.input.''" "starts_with x ''$nodes.''"
    | (meta) "\<not> starts_with x ''$run.input.''" "\<not> starts_with x ''$nodes.''" "starts_with x ''$meta.''"
    | (other) "starts_with x ''$''" "\<not> starts_with x ''$run.input.''" "\<not> starts_with x ''$nodes.''"
        "\<not> starts_with x ''$meta.''" by blast
  then show ?thesis
  proof cases
    case plain
    with assms(3) show ?thesis by (simp add: resolveExpression_def)
  next
    case input
    then obtain ss where "safe_segments (drop 11 x) = Some ss"
      using assms(1) by (auto simp: mappingReference_def split: option.splits if_splits)
    with assms(3) input show ?thesis
      by (auto simp: resolveExpression_def starts_with_dollar intro: readPath_codes)
  next
    case node
    then obtain key p ss where r: "node_reference (drop 7 x) = Some (key, Some p)" "key \<in> set (mc_dependencies ctx)"
      "safe_segments p = Some ss"
      using assms(1) by (auto simp: mappingReference_def split: option.splits if_splits prod.splits)
    with assms(2) have "key \<in> set (rc_dependencies rc)" by blast
    with assms(3) node r have "Inl e = (case map_of (rc_node_outputs rc) key of
        None \<Rightarrow> Inl (mappingError ''ORCHESTRATION_MAPPING_VALUE_MISSING'' path')
      | Some output \<Rightarrow> readPath num_size output p)"
      by (simp add: resolveExpression_def starts_with_dollar)
    then show ?thesis using readPath_codes [OF r(3)]
      by (auto simp: mappingError_def runtime_codes_def split: option.splits)
  next
    case meta
    with assms(3) show ?thesis
      by (auto simp: resolveExpression_def starts_with_dollar mappingError_def runtime_codes_def
          dest!: cloneJson_Inl split: option.splits)
  next
    case other
    with assms(1) show ?thesis by (simp add: mappingReference_def)
  qed
qed

lemma visit_all_resolves:
  assumes "visit_all f es n = ([], m)"
    and "\<And>e k k'. e \<in> set es \<Longrightarrow> f e k = ([], k') \<Longrightarrow> resolves_as (g e k) k'"
  shows "resolves_as (resolve_all g es n) m"
  using assms
proof (induction es arbitrary: n)
  case (Cons e es)
  from Cons.prems(1) obtain k where k: "f e n = ([], k)" "visit_all f es k = ([], m)"
    by (auto split: prod.splits)
  have e: "resolves_as (g e n) k" using Cons.prems(2) k(1) by simp
  have es: "resolves_as (resolve_all g es k) m" using Cons.IH [OF k(2)] Cons.prems(2) by simp
  show ?case unfolding resolve_all.simps
    by (rule resolves_as_bind [OF e]) (auto intro: resolves_as_bind [OF es])
qed simp

lemma resolveValue_cases:
  assumes "\<not> maximumMappingEntries < n + 1"
  shows "resolveValue num_size rc path (JStr e) n =
      bindE (resolveExpression num_size rc path e) (\<lambda>w. Inr (w, n + 1))"
    and "resolveValue num_size rc path (JArr xs) n =
      bindE (resolve_all (\<lambda>(k, w). resolveValue num_size rc (index_path path k) w) (index_entries xs) (n + 1))
        (\<lambda>(ws, m). Inr (JArr ws, m))"
    and "literal_of fs = Some w \<Longrightarrow> resolveValue num_size rc path (JObj fs) n =
      bindE (assertSafePayload num_size (field_path path ''literal'') w) (\<lambda>_.
        bindE (cloneJson num_size w) (\<lambda>u. Inr (u, n + 1)))"
    and "literal_of fs = None \<Longrightarrow> resolveValue num_size rc path (JObj fs) n =
      bindE (resolve_all (\<lambda>(k, w) m.
          if forbidden_target k then Inl (mappingError ''ORCHESTRATION_MAPPING_TARGET_REJECTED'' (field_path path k))
          else resolveValue num_size rc (field_path path k) w m) fs (n + 1))
        (\<lambda>(ws, m). Inr (JObj (zip (map fst fs) ws), m))"
    and "v \<in> {JNull, JBool b, JNum x} \<Longrightarrow> resolveValue num_size rc path v n = Inr (v, n + 1)"
  using assms by (auto simp: resolveValue.simps Let_def)

lemma validated_mapping_resolves_aux:
  assumes "set (mc_dependencies ctx) \<subseteq> set (rc_dependencies rc)"
  shows "inspectMapping ctx path v n = ([], m) \<Longrightarrow> resolves_as (resolveValue num_size rc path' v n) m"
proof (induction v arbitrary: path path' n m rule: measure_induct_rule [of size])
  case (less v)
  have lim: "\<not> maximumMappingEntries < n + 1"
    using less.prems by (auto simp: inspectMapping.simps [of ctx path v] Let_def split: if_splits)
  note insp = less.prems [unfolded inspectMapping.simps [of ctx path v] Let_def if_not_P [OF lim]]
  note res = resolveValue_cases [OF lim, where num_size = num_size and rc = rc and path = path']
  show ?case
  proof (cases v)
    case (JStr e)
    with insp have "mappingReference e ctx path = []" "m = n + 1" by simp_all
    moreover have "resolveValue num_size rc path' v n = bindE (resolveExpression num_size rc path' e) (\<lambda>w. Inr (w, n + 1))"
      by (simp add: JStr res(1))
    ultimately show ?thesis using resolveExpression_codes [OF _ assms]
      by (cases "resolveExpression num_size rc path' e") (auto simp: resolves_as_def)
  next
    case (JArr xs)
    from insp have "visit_all (\<lambda>(k, w). inspectMapping ctx (index_path path k) w) (index_entries xs) (n + 1) = ([], m)"
      by (simp add: JArr)
    then have "resolves_as (resolve_all (\<lambda>(k, w). resolveValue num_size rc (index_path path' k) w)
        (index_entries xs) (n + 1)) m"
      by (rule visit_all_resolves) (auto intro!: less.IH simp: JArr dest: size_index_entries)
    then show ?thesis unfolding JArr res(2)
      by (rule resolves_as_bind) simp
  next
    case (JObj fs)
    show ?thesis
    proof (cases "literal_of fs")
      case (Some w)
      with insp have "m = n + 1" by (simp add: JObj)
      then show ?thesis unfolding JObj res(3) [OF Some]
        by (auto simp: bindE_def runtime_codes_def dest!: assertSafePayload_Inl cloneJson_Inl split: sum.split)
    next
      case None
      from insp have "visit_all (\<lambda>(k, w) j.
          if forbidden_target k then ([issue_at (field_path path k) ''MAPPING_TARGET_FORBIDDEN''], j)
          else inspectMapping ctx (field_path path k) w j) fs (n + 1) = ([], m)"
        by (simp add: JObj None)
      then have "resolves_as (resolve_all (\<lambda>(k, w) j.
          if forbidden_target k
          then Inl (mappingError ''ORCHESTRATION_MAPPING_TARGET_REJECTED'' (field_path path' k))
          else resolveValue num_size rc (field_path path' k) w j) fs (n + 1)) m"
        by (rule visit_all_resolves) (auto intro!: less.IH size_fields simp: JObj split: if_splits)
      then show ?thesis unfolding JObj res(4) [OF None]
        by (rule resolves_as_bind) simp
    qed
  qed (use insp in \<open>simp_all add: res(5)\<close>)
qed

text \<open>
  C39: A mapping that passed validation resolves at run time: with the dependencies it was validated for, its resolution
  can fail only because a value is missing at run time, a metadata field is absent or a payload is too large or unsafe;
  never because of the mapping itself, and both walks count the same number of entries.
\<close>

theorem validated_mapping_resolves:
  assumes "inspectMapping ctx path v 0 = ([], m)" and "set (mc_dependencies ctx) \<subseteq> set (rc_dependencies rc)"
  shows "case resolveValue num_size rc path' v 0 of
      Inl e \<Rightarrow> err_code e \<in> {''ORCHESTRATION_MAPPING_VALUE_MISSING'', ''ORCHESTRATION_MAPPING_METADATA_DENIED'',
        ''ORCHESTRATION_PAYLOAD_REJECTED''}
    | Inr (_, n) \<Rightarrow> n = m"
  using validated_mapping_resolves_aux [OF assms(2,1)] unfolding resolves_as_def runtime_codes_def .

definition sample_mapping :: json where
  "sample_mapping = JObj [(''x'', JStr ''$nodes.a.output.items''), (''y'', JArr [JStr ''$meta.runId'', JNum (Fin 2)])]"

definition sample_mapping_context :: mapping_context where
  "sample_mapping_context =
     \<lparr>mc_input_schema = None, mc_dependencies = [''a''],
      mc_output_schema = (\<lambda>_. Some (JObj [(''properties'', JObj [(''items'', JObj [])])]))\<rparr>"

definition sample_resolve_context :: resolve_context where
  "sample_resolve_context =
     \<lparr>rc_run_input = JObj [], rc_node_outputs = [(''a'', JObj [(''items'', JStr ''ok'')])], rc_dependencies = [''a''],
      rc_metadata = [(''runId'', JStr ''run-1'')]\<rparr>"

lemma sample_mapping_accepted: "inspectMapping sample_mapping_context ''m'' sample_mapping 0 = ([], 5)"
  by code_simp

theorem validated_mapping_resolves_witness:
  "\<exists>v. resolveValue (\<lambda>_. 1) sample_resolve_context ''$mapping'' sample_mapping 0 = Inr (v, 5)"
proof -
  have r: "\<not> isl (resolveValue (\<lambda>_. 1) sample_resolve_context ''$mapping'' sample_mapping 0)" by code_simp
  have "set (mc_dependencies sample_mapping_context) \<subseteq> set (rc_dependencies sample_resolve_context)"
    by (simp add: sample_mapping_context_def sample_resolve_context_def)
  from validated_mapping_resolves [OF sample_mapping_accepted this, of "\<lambda>_. 1" "''$mapping''"] r show ?thesis
    by (cases "resolveValue (\<lambda>_. 1) sample_resolve_context ''$mapping'' sample_mapping 0") auto
qed

subsection \<open>What a node can see\<close>

text \<open>Two contexts that agree on what a node with given dependencies may read.\<close>

definition same_view :: "resolve_context \<Rightarrow> resolve_context \<Rightarrow> bool" where
  "same_view c d \<longleftrightarrow>
     rc_run_input c = rc_run_input d \<and> rc_metadata c = rc_metadata d
     \<and> set (rc_dependencies c) = set (rc_dependencies d)
     \<and> (\<forall>k\<in>set (rc_dependencies c). map_of (rc_node_outputs c) k = map_of (rc_node_outputs d) k)"

lemma resolveExpression_same: "same_view c d \<Longrightarrow> resolveExpression num_size c path e = resolveExpression num_size d path e"
  by (auto simp: resolveExpression_def same_view_def split: option.splits prod.splits)

lemma resolveValue_same: "same_view c d \<Longrightarrow> resolveValue num_size c path v n = resolveValue num_size d path v n"
proof (induction v arbitrary: path n rule: measure_induct_rule [of size])
  case (less v)
  show ?case
  proof (cases v)
    case (JArr xs)
    have "resolve_all (\<lambda>(k, w). resolveValue num_size c (index_path path k) w) (index_entries xs) m =
        resolve_all (\<lambda>(k, w). resolveValue num_size d (index_path path k) w) (index_entries xs) m" for m
      by (rule resolve_all_cong) (use less in \<open>auto simp: JArr dest: size_index_entries\<close>)
    then show ?thesis by (simp add: JArr resolveValue.simps Let_def)
  next
    case (JObj fs)
    have "resolve_all (\<lambda>(k, w) m. if forbidden_target k
          then Inl (mappingError ''ORCHESTRATION_MAPPING_TARGET_REJECTED'' (field_path path k))
          else resolveValue num_size c (field_path path k) w m) fs m =
        resolve_all (\<lambda>(k, w) m. if forbidden_target k
          then Inl (mappingError ''ORCHESTRATION_MAPPING_TARGET_REJECTED'' (field_path path k))
          else resolveValue num_size d (field_path path k) w m) fs m" for m
      by (rule resolve_all_cong) (use less size_fields in \<open>auto simp: JObj\<close>)
    then show ?thesis by (simp add: JObj resolveValue.simps Let_def split: option.split)
  qed (use resolveExpression_same [OF less.prems] in \<open>simp_all add: resolveValue.simps Let_def\<close>)
qed

text \<open>
  The input of a node depends on nothing but the input of the run, the metadata and the outputs of the node's
  declared dependencies: two runs that agree on these resolve every mapping to the same result, whatever other
  nodes produced. A resolved input is safe and bounded and satisfies the input schema.
\<close>

theorem node_input_isolated:
  assumes "rc_run_input c = rc_run_input d" "rc_metadata c = rc_metadata d"
    and "set (rc_dependencies c) = set (rc_dependencies d)"
    and "\<forall>k\<in>set (rc_dependencies c). map_of (rc_node_outputs c) k = map_of (rc_node_outputs d) k"
  shows "resolveNodeInput num_size ajv mapping c schema = resolveNodeInput num_size ajv mapping d schema
    \<and> (\<forall>v. resolveNodeInput num_size ajv mapping c schema = Inr v \<longrightarrow>
         clean v \<and> int (json_size num_size v) \<le> maximumPayloadBytes \<and> (\<exists>validate. ajv schema = Some validate \<and> validate v))"
proof
  have "same_view c d" using assms by (simp add: same_view_def)
  then show "resolveNodeInput num_size ajv mapping c schema = resolveNodeInput num_size ajv mapping d schema"
    using assms(1) by (simp add: resolveNodeInput_def resolveValue_same)
  have "clean v \<and> int (json_size num_size v) \<le> maximumPayloadBytes \<and> (\<exists>validate. ajv schema = Some validate \<and> validate v)"
    if "resolveNodeInput num_size ajv mapping c schema = Inr v" for v
  proof -
    from that obtain w where w: "validateAgainstSchema num_size ajv schema ''$node.input''
        ''ORCHESTRATION_NODE_INPUT_INVALID'' w = Inr v"
      unfolding resolveNodeInput_def bindE_Inr_iff by (elim exE conjE) (simp split: prod.splits)
    then show ?thesis
      unfolding validateAgainstSchema_def bindE_Inr_iff
      by (elim exE conjE) (simp add: cloneJson_Inr split: option.splits if_splits)
  qed
  then show "\<forall>v. resolveNodeInput num_size ajv mapping c schema = Inr v \<longrightarrow>
      clean v \<and> int (json_size num_size v) \<le> maximumPayloadBytes \<and> (\<exists>validate. ajv schema = Some validate \<and> validate v)"
    by blast
qed

theorem node_input_isolated_witness:
  "resolveNodeInput (\<lambda>_. 1) (\<lambda>_. Some (\<lambda>_. True)) sample_mapping sample_resolve_context (JObj [])
     = resolveNodeInput (\<lambda>_. 1) (\<lambda>_. Some (\<lambda>_. True)) sample_mapping
         (sample_resolve_context\<lparr>rc_node_outputs := [(''b'', JNull), (''a'', JObj [(''items'', JStr ''ok'')])]\<rparr>) (JObj [])"
  by (rule node_input_isolated [THEN conjunct1]) (simp_all add: sample_resolve_context_def)

subsection \<open>The projection keeps what dependents read\<close>

text \<open>\<open>part v w\<close>: \<open>v\<close> holds only values of \<open>w\<close>, each where \<open>w\<close> has it.\<close>

inductive part :: "json \<Rightarrow> json \<Rightarrow> bool" where
  part_same: "part w w"
| part_obj: "object_like w \<Longrightarrow>
    (\<And>k v. map_of fs k = Some v \<Longrightarrow> \<exists>u. own_property w k = Some u \<and> part v u) \<Longrightarrow> part (JObj fs) w"

lemma part_own: "part v w \<Longrightarrow> own_property v k = Some u \<Longrightarrow> \<exists>u'. own_property w k = Some u' \<and> part u u'"
  by (erule part.cases) (auto simp: own_property_def intro: part_same)

lemma part_object_like: "part v w \<Longrightarrow> object_like w \<Longrightarrow> object_like v"
  by (erule part.cases) (auto simp: object_like_def)

lemma part_empty: "object_like w \<Longrightarrow> part (JObj []) w"
  by (rule part_obj) simp_all

lemma object_like_truthy: "object_like v \<Longrightarrow> truthy v"
  by (auto simp: object_like_def truthy_def split: json.splits)

lemma update_same: "map_of fs k = Some v \<Longrightarrow> AList.update k v fs = fs"
  by (induction fs) auto

lemma js_set_same: "own_property v k = Some w \<Longrightarrow> object_like v \<Longrightarrow> js_set v k w = v"
  by (auto simp: own_property_def object_like_def js_set_def update_same
      split: json.splits if_splits option.splits jsnum.splits)

lemma read_Cons:
  "read_segments v (s # ss) = Some u \<longleftrightarrow>
     object_like v \<and> (\<exists>w. own_property v s = Some w \<and> read_segments w ss = Some u)"
  by (auto split: option.splits)

text \<open>Assigning what is already there changes nothing.\<close>

lemma assign_same: "read_segments w ss = Some v \<Longrightarrow> assign_segments w ss v = w"
proof (induction w ss v rule: assign_segments.induct)
  case (2 w s v)
  then show ?case by (auto simp: js_set_same split: option.splits if_splits)
next
  case (3 w s t ss v)
  from 3(2) obtain c where c: "object_like w" "own_property w s = Some c" "read_segments c (t # ss) = Some v"
    unfolding read_Cons [of w] by blast
  then have "object_like c" unfolding read_Cons by blast
  with c 3(1) show ?case by (simp add: object_like_truthy js_set_same)
qed simp

text \<open>The child that an assignment descends into.\<close>

definition child_of :: "json \<Rightarrow> string \<Rightarrow> json" where
  "child_of v s = (case own_property v s of Some c \<Rightarrow> if truthy c then c else JObj [] | None \<Rightarrow> JObj [])"

lemma child_part:
  assumes "part v w" "own_property w s = Some u" "object_like u"
  shows "part (child_of v s) u"
proof (cases "own_property v s")
  case None
  then show ?thesis by (simp add: child_of_def part_empty assms(3))
next
  case (Some c)
  with part_own [OF assms(1)] assms(2) have "part c u" by fastforce
  with part_object_like assms(3) object_like_truthy Some show ?thesis by (simp add: child_of_def)
qed

lemma js_set_obj_own: "own_property (js_set (JObj fs) k v) k' = (if k' = k then Some v else map_of fs k')"
  by (simp add: js_set_def own_property_def AList.update_conv')

lemma part_js_set:
  assumes p: "part (JObj fs) w" and u: "own_property w k = Some u" and v: "part v u" and w: "object_like w"
  shows "part (js_set (JObj fs) k v) w"
proof -
  have "part (JObj (AList.update k v fs)) w"
  proof (rule part_obj [OF w])
    fix k' x assume x: "map_of (AList.update k v fs) k' = Some x"
    show "\<exists>y. own_property w k' = Some y \<and> part x y"
    proof (cases "k' = k")
      case True
      with x u v show ?thesis by (simp add: AList.update_conv')
    next
      case False
      with x have "own_property (JObj fs) k' = Some x" by (simp add: AList.update_conv' own_property_def)
      with part_own [OF p] show ?thesis by blast
    qed
  qed
  then show ?thesis by (simp add: js_set_def)
qed

lemma object_like_js_set: "object_like (js_set (JObj fs) k v)"
  by (simp add: js_set_def object_like_def)

text \<open>One step: the property \<open>s\<close> is replaced by a value that keeps the agreeing reads below \<open>s\<close>.\<close>

lemma assign_step:
  assumes p: "part (JObj fs) w" and c: "own_property w s = Some c" and w: "object_like w"
    and d: "part d c" and rd: "read_segments d ts = Some u"
    and keep: "\<And>e as x. map_of fs s = Some e \<Longrightarrow> read_segments e as = Some x \<Longrightarrow> read_segments c as = Some x \<Longrightarrow>
      read_segments d as = Some x"
  shows "part (js_set (JObj fs) s d) w \<and> read_segments (js_set (JObj fs) s d) (s # ts) = Some u
    \<and> (\<forall>a as x. read_segments (JObj fs) (a # as) = Some x \<and> read_segments w (a # as) = Some x \<longrightarrow>
         read_segments (js_set (JObj fs) s d) (a # as) = Some x)"
proof (intro conjI allI impI)
  show "part (js_set (JObj fs) s d) w" by (rule part_js_set [OF p c d w])
  show "read_segments (js_set (JObj fs) s d) (s # ts) = Some u"
    unfolding read_Cons by (simp add: object_like_js_set js_set_obj_own rd)
  fix a as x assume r: "read_segments (JObj fs) (a # as) = Some x \<and> read_segments w (a # as) = Some x"
  then obtain e e' where e: "map_of fs a = Some e" "read_segments e as = Some x"
    "own_property w a = Some e'" "read_segments e' as = Some x"
    unfolding read_Cons by (auto simp: own_property_def)
  show "read_segments (js_set (JObj fs) s d) (a # as) = Some x"
    unfolding read_Cons using e c keep [of e as x]
    by (auto simp: object_like_js_set js_set_obj_own)
qed

lemma assign_part:
  assumes "part v w" "read_segments w ss = Some u" "ss \<noteq> []"
  shows "part (assign_segments v ss u) w \<and> read_segments (assign_segments v ss u) ss = Some u
    \<and> (\<forall>a as x. read_segments v (a # as) = Some x \<and> read_segments w (a # as) = Some x \<longrightarrow>
         read_segments (assign_segments v ss u) (a # as) = Some x)"
  using assms
proof (induction v ss u arbitrary: w rule: assign_segments.induct)
  case (2 v s u)
  from 2(2) have w: "object_like w" "own_property w s = Some u" unfolding read_Cons by auto
  from 2(1) show ?case
  proof cases
    case part_same
    with 2(2) assign_same [of w "[s]" u] show ?thesis by (simp add: part.part_same)
  next
    case (part_obj fs)
    show ?thesis unfolding assign_segments.simps part_obj(1)
      by (rule assign_step [OF 2(1) [unfolded part_obj(1)] w(2,1) part.part_same]) simp_all
  qed
next
  case (3 v s t ss u)
  from 3(3) obtain c where c: "object_like w" "own_property w s = Some c" "read_segments c (t # ss) = Some u"
    unfolding read_Cons [of w] by blast
  then have oc: "object_like c" unfolding read_Cons by blast
  note IH = 3(1) [folded child_of_def, OF child_part [OF 3(2) c(2) oc] c(3)]
  from 3(2) show ?case
  proof cases
    case part_same
    with 3(3) assign_same [of w "s # t # ss" u] show ?thesis by (metis part.part_same)
  next
    case (part_obj fs)
    have keep: "read_segments (assign_segments (child_of v s) (t # ss) u) as = Some x"
      if e: "map_of fs s = Some e" "read_segments e as = Some x" "read_segments c as = Some x" for e as x
    proof -
      have own: "own_property v s = Some e" using e(1) part_obj(1) by (simp add: own_property_def)
      with part_own [OF 3(2)] c(2) have "part e c" by fastforce
      then have "object_like e" using oc by (rule part_object_like)
      with own have ch: "child_of v s = e" by (simp add: child_of_def object_like_truthy)
      show ?thesis
      proof (cases as)
        case Nil
        with e have "e = c" by simp
        with ch assign_same [OF c(3)] e(3) show ?thesis by simp
      next
        case (Cons a as')
        with IH ch e show ?thesis by auto
      qed
    qed
    have "part (JObj fs) w" using 3(2) part_obj(1) by simp
    from assign_step [OF this c(2,1), of "assign_segments (child_of v s) (t # ss) u" "t # ss" u] IH keep
    show ?thesis unfolding assign_segments.simps child_of_def [symmetric] part_obj(1) by blast
  qed
qed simp

lemma split_dots_nonempty: "split_dots p \<noteq> []"
  by (induction p rule: split_dots.induct) (auto split: list.splits)

lemma safe_segments_nonempty: "safe_segments p = Some ss \<Longrightarrow> ss \<noteq> []"
  by (auto simp: safe_segments_def Let_def split_dots_nonempty split: if_splits)

text \<open>\<open>ps\<close> are read from the projection as from the output.\<close>

definition projects :: "json \<Rightarrow> json \<Rightarrow> string set \<Rightarrow> bool" where
  "projects projected output ps \<longleftrightarrow>
     part projected output
     \<and> (\<forall>p\<in>ps. \<exists>ss x. safe_segments p = Some ss \<and> read_segments projected ss = Some x \<and> read_segments output ss = Some x)"

lemma projects_assign:
  assumes "projects projected output ps" "readPath num_size output p = Inr v"
    and "assignPath num_size projected p v = Inr projected'"
  shows "projects projected' output (insert p ps)"
proof -
  obtain ss where ss: "safe_segments p = Some ss" "read_segments output ss = Some v"
    and p': "projected' = assign_segments projected ss v"
    using assms(2,3) by (auto simp: readPath_def assignPath_def safeSegments_def bindE_Inr_iff cloneJson_Inr
        split: option.splits)
  have part: "part projected output" using assms(1) by (simp add: projects_def)
  note step = assign_part [OF part ss(2) safe_segments_nonempty [OF ss(1)], folded p']
  have "\<exists>rs x. safe_segments q = Some rs \<and> read_segments projected' rs = Some x \<and> read_segments output rs = Some x"
    if "q \<in> insert p ps" for q
  proof (cases "q = p")
    case True
    with step ss show ?thesis by blast
  next
    case False
    with that assms(1) obtain rs x where r: "safe_segments q = Some rs" "read_segments projected rs = Some x"
      "read_segments output rs = Some x" unfolding projects_def by blast
    moreover from safe_segments_nonempty [OF r(1)] obtain a as where "rs = a # as" by (cases rs) auto
    ultimately show ?thesis using step by blast
  qed
  with step show ?thesis unfolding projects_def by blast
qed

lemma project_paths_projects:
  "project_paths num_size output ps projected = Inr proj \<Longrightarrow> projects projected output qs \<Longrightarrow>
     projects proj output (set ps \<union> qs)"
proof (induction ps arbitrary: projected qs)
  case (Cons p ps)
  from Cons.prems(1) obtain v projected' where v: "readPath num_size output p = Inr v"
    "assignPath num_size projected p v = Inr projected'" "project_paths num_size output ps projected' = Inr proj"
    by (auto simp: bindE_Inr_iff)
  from Cons.IH [OF v(3) projects_assign [OF Cons.prems(2) v(1,2)]] show ?case by simp
qed simp

lemma projects_start: "project_paths num_size output (p # ps) (JObj []) = Inr proj \<Longrightarrow> projects (JObj []) output {}"
  using safe_segments_nonempty [of p]
  by (auto simp: projects_def bindE_Inr_iff readPath_def safeSegments_def neq_Nil_conv intro!: part_empty
      split: option.splits if_splits)

text \<open>
  C40: Publishing a node's output to its dependents keeps what they read: when the projection of an output succeeds,
  every path that some input mapping of the definition names reads the same value from the
  projection as from the whole output.
\<close>

theorem projection_keeps_referenced_paths:
  assumes "projectValidatedOutput num_size output key nodes = Inr proj"
    and "p \<in> set (referencedOutputPaths nodes key)"
  shows "readPath num_size proj p = readPath num_size output p"
proof (cases "list_ex (\<lambda>n. key \<in> set (gn_dependencies n)) nodes")
  case False
  with assms(1) show ?thesis by (auto simp: projectValidatedOutput_def bindE_Inr_iff cloneJson_Inr)
next
  case True
  with assms(1) have run: "project_paths num_size output (referencedOutputPaths nodes key) (JObj []) = Inr proj"
    by (auto simp: projectValidatedOutput_def bindE_Inr_iff cloneJson_Inr)
  from assms(2) obtain q qs where "referencedOutputPaths nodes key = q # qs"
    by (cases "referencedOutputPaths nodes key") auto
  with run have "projects (JObj []) output {}" using projects_start by metis
  from project_paths_projects [OF run this] assms(2)
  obtain ss x where "safe_segments p = Some ss" "read_segments proj ss = Some x" "read_segments output ss = Some x"
    unfolding projects_def by blast
  then show ?thesis by (simp add: readPath_def safeSegments_def)
qed

definition sample_nodes :: "mapped_node list" where
  "sample_nodes =
     [\<lparr>gn_key = ''a'', gn_dependencies = [], mn_input_mapping = JNull\<rparr>,
      \<lparr>gn_key = ''b'', gn_dependencies = [''a''], mn_input_mapping =
         JArr [JStr ''$nodes.a.output.x.y'', JStr ''$nodes.a.output.z'', JStr ''$nodes.a.output.x'']\<rparr>]"

definition sample_output :: json where
  "sample_output = JObj [(''w'', JBool True), (''x'', JObj [(''v'', JNull), (''y'', JStr ''ok'')]), (''z'', JNum (Fin 1))]"

lemma sample_projection:
  "projectValidatedOutput (\<lambda>_. 1) sample_output ''a'' sample_nodes
     = Inr (JObj [(''x'', JObj [(''v'', JNull), (''y'', JStr ''ok'')]), (''z'', JNum (Fin 1))])"
  by code_simp

theorem projection_keeps_referenced_paths_witness:
  "readPath (\<lambda>_. 1) (JObj [(''x'', JObj [(''v'', JNull), (''y'', JStr ''ok'')]), (''z'', JNum (Fin 1))]) ''x.y''
     = readPath (\<lambda>_. 1) sample_output ''x.y''"
proof -
  have "''x.y'' \<in> set (referencedOutputPaths sample_nodes ''a'')" by code_simp
  then show ?thesis by (rule projection_keeps_referenced_paths [OF sample_projection])
qed

end
