(* ===== verification/Policy_Engine.thy ===== *)
theory Policy_Engine
  imports Json_Text
begin

text \<open>
  The policy engine (backend/src/services/policyEngine.service.js with constants/policy.js and
  constants/policyAttributeRegistry.js): validation of condition trees, targets and policy documents, evaluation of
  conditions over the attributes of a request, selection and ordering of the applicable policies and the
  decision they give. The cache of snapshots is not part of it.

  \<^item> A condition, a target and the attributes are JSON values; a \<open>Date\<close> among the attributes is its time value
    (a number), which every operator of a date attribute reads the same way. Objects are plain: an own
    property \<open>toString\<close> is not followed when an object is printed.
  \<^item> The text conversions of the standard library that depend on the platform or need decimal
    printing are the record \<open>js_text\<close>.
\<close>

subsection \<open>Constants\<close>

definition LOGICAL_OPERATORS :: "string list" where
  "LOGICAL_OPERATORS = [''ALL'', ''ANY'', ''NOT'']"

definition COMPARISON_OPERATORS :: "string list" where
  "COMPARISON_OPERATORS =
     [''EQUALS'', ''NOT_EQUALS'', ''IN'', ''NOT_IN'', ''EXISTS'', ''NOT_EXISTS'', ''LESS_THAN'', ''LESS_THAN_OR_EQUAL'',
      ''GREATER_THAN'', ''GREATER_THAN_OR_EQUAL'', ''STARTS_WITH'', ''ENDS_WITH'', ''CONTAINS'']"

definition max_depth :: nat where "max_depth = 8"
definition max_nodes :: nat where "max_nodes = 100"
definition max_array_items :: nat where "max_array_items = 100"
definition max_string_length :: nat where "max_string_length = 2048"
definition max_document_bytes :: int where "max_document_bytes = 128 * 1024"
definition max_target_items :: nat where "max_target_items = 100"

definition STRING_OPERATORS :: "string list" where
  "STRING_OPERATORS =
     [''EQUALS'', ''NOT_EQUALS'', ''IN'', ''NOT_IN'', ''EXISTS'', ''NOT_EXISTS'', ''STARTS_WITH'', ''ENDS_WITH'', ''CONTAINS'']"

definition ENUM_OPERATORS :: "string list" where
  "ENUM_OPERATORS = [''EQUALS'', ''NOT_EQUALS'', ''IN'', ''NOT_IN'', ''EXISTS'', ''NOT_EXISTS'']"

definition ORDERED_OPERATORS :: "string list" where
  "ORDERED_OPERATORS =
     ENUM_OPERATORS @ [''LESS_THAN'', ''LESS_THAN_OR_EQUAL'', ''GREATER_THAN'', ''GREATER_THAN_OR_EQUAL'']"

definition ARRAY_OPERATORS :: "string list" where
  "ARRAY_OPERATORS = [''EQUALS'', ''NOT_EQUALS'', ''IN'', ''NOT_IN'', ''EXISTS'', ''NOT_EXISTS'', ''CONTAINS'']"

subsection \<open>The attributes\<close>

datatype value_type = VT_String | VT_Enum | VT_Boolean | VT_String_Array | VT_Date | VT_Number

record attribute_definition =
  ad_id :: string
  ad_value_type :: value_type
  ad_allowed_operators :: "string list"
  ad_audit_display_safe :: bool

definition attribute :: "string \<times> value_type \<times> string list \<times> bool \<Rightarrow> attribute_definition" where
  "attribute = (\<lambda>(i, vt, ops, safe).
     \<lparr>ad_id = i, ad_value_type = vt, ad_allowed_operators = ops, ad_audit_display_safe = safe\<rparr>)"

definition ATTRIBUTE_DEFINITIONS :: "attribute_definition list" where
  "ATTRIBUTE_DEFINITIONS = map attribute
     [
      (''actor.id'', VT_String, STRING_OPERATORS, False),
      (''actor.type'', VT_Enum, ENUM_OPERATORS, True),
      (''actor.serviceAccount'', VT_Boolean, ENUM_OPERATORS, True),
      (''actor.teamIds'', VT_String_Array, ARRAY_OPERATORS, False),
      (''actor.roleKeys'', VT_String_Array, ARRAY_OPERATORS, True),
      (''organization.id'', VT_String, ENUM_OPERATORS, True),
      (''workspace.id'', VT_String, ENUM_OPERATORS, True),
      (''workspace.environment'', VT_Enum, ENUM_OPERATORS, True),
      (''workspace.productionApproved'', VT_Boolean, ENUM_OPERATORS, True),
      (''resource.type'', VT_String, STRING_OPERATORS, True),
      (''resource.id'', VT_String, ENUM_OPERATORS, False),
      (''resource.ownerWorkspaceId'', VT_String, ENUM_OPERATORS, False),
      (''request.timestamp'', VT_Date, ORDERED_OPERATORS, False),
      (''request.weekday'', VT_Enum, ENUM_OPERATORS, True),
      (''request.hour'', VT_Number, ORDERED_OPERATORS, True),
      (''request.sourceIp'', VT_String, ENUM_OPERATORS, False),
      (''environment.name'', VT_Enum, ENUM_OPERATORS, True),
      (''capability.id'', VT_String, ENUM_OPERATORS, False),
      (''capability.category'', VT_Enum, ENUM_OPERATORS, True),
      (''capability.classification'', VT_Enum, ENUM_OPERATORS, True),
      (''capability.sideEffect'', VT_Enum, ENUM_OPERATORS, True),
      (''connection.id'', VT_String, ENUM_OPERATORS, False),
      (''connection.status'', VT_Enum, ENUM_OPERATORS, True),
      (''passport.id'', VT_String, ENUM_OPERATORS, False),
      (''passport.version'', VT_String, STRING_OPERATORS, True),
      (''secret.provider'', VT_Enum, ENUM_OPERATORS, True),
      (''secret.credentialType'', VT_Enum, ENUM_OPERATORS, True),
      (''secret.status'', VT_Enum, ENUM_OPERATORS, True),
      (''secret.healthStatus'', VT_Enum, ENUM_OPERATORS, True),
      (''binding.purpose'', VT_Enum, ENUM_OPERATORS, True),
      (''binding.status'', VT_Enum, ENUM_OPERATORS, True),
      (''orchestration.runStatus'', VT_Enum, ENUM_OPERATORS, True),
      (''orchestration.nodeStatus'', VT_Enum, ENUM_OPERATORS, True),
      (''orchestration.failureCategory'', VT_Enum, ENUM_OPERATORS, True),
      (''orchestration.healthCategory'', VT_Enum, ENUM_OPERATORS, True),
      (''orchestration.sloStatus'', VT_Enum, ENUM_OPERATORS, True),
      (''orchestration.alertSeverity'', VT_Enum, ENUM_OPERATORS, True),
      (''orchestration.operationalAction'', VT_Enum, ENUM_OPERATORS, True),
      (''orchestration.criticalityCategory'', VT_Enum, ENUM_OPERATORS, True),
      (''orchestration.classificationCategory'', VT_Enum, ENUM_OPERATORS, True),
      (''orchestration.trustTier'', VT_Enum, ENUM_OPERATORS, True),
      (''worker.healthCategory'', VT_Enum, ENUM_OPERATORS, True)]"

definition getAttributeDefinition :: "string \<Rightarrow> attribute_definition option" where
  "getAttributeDefinition i = find (\<lambda>d. ad_id d = i) ATTRIBUTE_DEFINITIONS"

text \<open>The resolver of an attribute reads its dotted name from the attributes; every step over something that has no such
  property gives undefined.\<close>

fun property_path :: "json option \<Rightarrow> string list \<Rightarrow> json option" where
  "property_path v [] = v"
| "property_path v (k # ks) = property_path (case v of None \<Rightarrow> None | Some w \<Rightarrow> own_property w k) ks"

definition resolver :: "attribute_definition \<Rightarrow> json \<Rightarrow> json option" where
  "resolver d attributes = property_path (Some attributes) (split_dots (ad_id d))"

subsection \<open>Comparisons\<close>

definition js_lt :: "jsnum \<Rightarrow> jsnum \<Rightarrow> bool" where
  "js_lt a b \<longleftrightarrow> js_le a b \<and> a \<noteq> b"

fun string_less :: "string \<Rightarrow> string \<Rightarrow> bool" where
  "string_less s [] = False"
| "string_less [] (d # u) = True"
| "string_less (c # s) (d # u) = (char_code c < char_code d \<or> c = d \<and> string_less s u)"

text \<open>\<open>a < b\<close> and \<open>a <= b\<close> of values that may be undefined: strings compare as strings once both sides
  print as strings, everything else as numbers.\<close>

definition prints :: "json \<Rightarrow> bool" where
  "prints v = (case v of JStr _ \<Rightarrow> True | JArr _ \<Rightarrow> True | JObj _ \<Rightarrow> True | _ \<Rightarrow> False)"

definition less_than :: "js_text \<Rightarrow> json option \<Rightarrow> json option \<Rightarrow> bool" where
  "less_than t a b =
     (case (a, b) of
        (Some v, Some w) \<Rightarrow>
          if prints v \<and> prints w then string_less (to_string t v) (to_string t w)
          else js_lt (to_number t v) (to_number t w)
      | _ \<Rightarrow> False)"

definition at_most :: "js_text \<Rightarrow> json option \<Rightarrow> json option \<Rightarrow> bool" where
  "at_most t a b =
     (case (a, b) of
        (Some v, Some w) \<Rightarrow>
          if prints v \<and> prints w then \<not> string_less (to_string t w) (to_string t v)
          else js_le (to_number t v) (to_number t w)
      | _ \<Rightarrow> False)"

subsection \<open>Validation of conditions\<close>

definition conditionOperator :: "js_text \<Rightarrow> json \<Rightarrow> string" where
  "conditionOperator t node =
     js_upper (js_trim (text_or_empty t (truthy_or (own_property node ''operator'') (own_property node ''type''))))"

definition conditionChildren :: "json \<Rightarrow> json option" where
  "conditionChildren node = truthy_or (own_property node ''conditions'') (own_property node ''children'')"

definition type_mismatch :: "js_text \<Rightarrow> value_type \<Rightarrow> json \<Rightarrow> bool" where
  "type_mismatch t vt v =
     (case vt of
        VT_Boolean \<Rightarrow> (case v of JBool _ \<Rightarrow> False | _ \<Rightarrow> True)
      | VT_Number \<Rightarrow> (case v of JNum (Fin _) \<Rightarrow> False | _ \<Rightarrow> True)
      | VT_Date \<Rightarrow> (case v of JStr s \<Rightarrow> jt_time_of_string t s = NaN | _ \<Rightarrow> True)
      | _ \<Rightarrow> (case v of JStr _ \<Rightarrow> False | _ \<Rightarrow> True))"

definition validateTypedValue :: "js_text \<Rightarrow> json \<Rightarrow> value_type \<Rightarrow> string \<Rightarrow> issue list" where
  "validateTypedValue t v vt path =
     concat (map (\<lambda>item.
         (if type_mismatch t vt item then [issue_at path ''TYPE_MISMATCH''] else [])
         @ (case item of
              JStr s \<Rightarrow> if max_string_length < length s then [issue_at path ''STRING_LIMIT_EXCEEDED''] else []
            | _ \<Rightarrow> []))
       (case v of JArr xs \<Rightarrow> xs | _ \<Rightarrow> [v]))"

definition needs_value :: "string \<Rightarrow> bool" where
  "needs_value operator \<longleftrightarrow> operator \<notin> {''EXISTS'', ''NOT_EXISTS''}"

definition value_issues :: "js_text \<Rightarrow> string \<Rightarrow> value_type \<Rightarrow> string \<Rightarrow> json option \<Rightarrow> issue list" where
  "value_issues t operator vt path value =
     (case value of
        None \<Rightarrow> if needs_value operator then [issue_at path ''VALUE_REQUIRED''] else []
      | Some v \<Rightarrow>
          (case v of
             JArr xs \<Rightarrow> if max_array_items < length xs then [issue_at path ''ARRAY_LIMIT_EXCEEDED''] else []
           | _ \<Rightarrow> if operator \<in> {''IN'', ''NOT_IN''} then [issue_at path ''ARRAY_REQUIRED''] else [])
          @ validateTypedValue t v vt path)"

definition comparison_issues :: "js_text \<Rightarrow> string \<Rightarrow> string \<Rightarrow> json \<Rightarrow> issue list" where
  "comparison_issues t operator path node =
     (if operator \<notin> set COMPARISON_OPERATORS then [issue_at (field_path path ''operator'') ''UNSUPPORTED_OPERATOR'']
      else
        (case getAttributeDefinition
            (js_trim (text_or_empty t (truthy_or (own_property node ''attribute'') (own_property node ''attributeId'')))) of
           None \<Rightarrow> [issue_at (field_path path ''attribute'') ''UNKNOWN_ATTRIBUTE'']
         | Some d \<Rightarrow>
             (if operator \<in> set (ad_allowed_operators d) then []
              else [issue_at (field_path path ''operator'') ''OPERATOR_TYPE_MISMATCH''])
             @ value_issues t operator (ad_value_type d) (field_path path ''value'') (own_property node ''value'')))"

definition logical_issues :: "string \<Rightarrow> string \<Rightarrow> json list \<Rightarrow> issue list" where
  "logical_issues operator path children =
     (if max_array_items < length children then [issue_at (field_path path ''conditions'') ''ARRAY_LIMIT_EXCEEDED''] else [])
     @ (if operator = ''NOT'' \<and> length children \<noteq> 1
        then [issue_at (field_path path ''conditions'') ''NOT_ARITY_INVALID''] else [])
     @ (if operator \<noteq> ''NOT'' \<and> children = []
        then [issue_at (field_path path ''conditions'') ''EMPTY_LOGICAL_NODE''] else [])"

lemma own_property_entry: "own_property v k = Some w \<Longrightarrow> object_like v \<Longrightarrow> \<not> (\<exists>n. w = JNum n) \<Longrightarrow> (k, w) \<in> set (entries v)"
  by (auto simp: own_property_def object_like_def split: json.splits if_splits dest!: map_of_SomeD)

lemma size_own_property: "own_property v k = Some w \<Longrightarrow> object_like v \<Longrightarrow> \<not> (\<exists>n. w = JNum n) \<Longrightarrow> size w < size v"
  using own_property_entry size_entries by blast

lemma size_conditionChildren:
  assumes "conditionChildren node = Some (JArr xs)" "c \<in> set xs"
  shows "size c < size node"
proof -
  have own: "size (JArr xs) < size node" if "own_property node k = Some (JArr xs)" for k
  proof (cases "object_like node")
    case True
    with that show ?thesis by (rule size_own_property) simp
  next
    case False
    with that show ?thesis
      by (auto simp: own_property_def object_like_def index_entries_def split: json.splits if_splits
          dest!: map_of_SomeD set_zip_rightD)
  qed
  from assms(1) have "size (JArr xs) < size node"
    using own by (auto simp: conditionChildren_def truthy_or_def split: option.splits if_splits)
  moreover have "size c < size (JArr xs)" using assms(2) size_list_estimation' [of c xs "size c" size] by auto
  ultimately show ?thesis by simp
qed

lemma index_entries_member: "(k, w) \<in> set (index_entries xs) \<Longrightarrow> w \<in> set xs"
  by (metis image_eqI index_entries_values snd_conv)

definition is_node :: "json \<Rightarrow> bool" where
  "is_node v = (case v of JObj _ \<Rightarrow> True | _ \<Rightarrow> False)"

text \<open>The inner function \<open>visit\<close> of \<open>validateConditionTree\<close>, with its counter.\<close>

function check_condition :: "js_text \<Rightarrow> string \<Rightarrow> nat \<Rightarrow> json \<Rightarrow> nat \<Rightarrow> issue list \<times> nat" where
  "check_condition t path depth node n =
     (if max_nodes < n + 1 then ([issue_at path ''NODE_LIMIT_EXCEEDED''], n + 1)
      else if max_depth < depth then ([issue_at path ''DEPTH_LIMIT_EXCEEDED''], n + 1)
      else if \<not> is_node node then ([issue_at path ''INVALID_NODE''], n + 1)
      else if conditionOperator t node \<in> set LOGICAL_OPERATORS
      then (case conditionChildren node of
              Some (JArr children) \<Rightarrow>
                (case visit_all (\<lambda>(i, c). check_condition t (index_path (field_path path ''conditions'') i) (depth + 1) c)
                    (index_entries (take max_array_items children)) (n + 1) of
                   (is, m) \<Rightarrow> (logical_issues (conditionOperator t node) path children @ is, m))
            | _ \<Rightarrow> ([issue_at (field_path path ''conditions'') ''CHILDREN_REQUIRED''], n + 1))
      else (comparison_issues t (conditionOperator t node) path node, n + 1))"
  by pat_completeness auto
termination
  by (relation "measure (\<lambda>(t, path, depth, node, n). size node)")
    (auto dest!: index_entries_member in_set_takeD intro: size_conditionChildren)

declare check_condition.simps [simp del]

definition validateConditionTree :: "js_text \<Rightarrow> json \<Rightarrow> issue list \<times> nat" where
  "validateConditionTree t condition = check_condition t ''condition'' 1 condition 0"

definition valid_condition :: "js_text \<Rightarrow> json \<Rightarrow> bool" where
  "valid_condition t condition \<longleftrightarrow> fst (validateConditionTree t condition) = []"

subsection \<open>Evaluation of conditions\<close>

text \<open>\<open>left === right\<close> of values of different documents: objects are never identical.\<close>

fun identical :: "json option \<Rightarrow> json option \<Rightarrow> bool" where
  "identical None None = True"
| "identical (Some JNull) (Some JNull) = True"
| "identical (Some (JBool a)) (Some (JBool b)) = (a = b)"
| "identical (Some (JNum a)) (Some (JNum b)) = (a = b \<and> a \<noteq> NaN)"
| "identical (Some (JStr a)) (Some (JStr b)) = (a = b)"
| "identical _ _ = False"

lemma size_zip_member [termination_simp]: "(a, b) \<in> set (zip xs ys) \<Longrightarrow> size a < Suc (size_list size xs)"
  by (auto dest!: set_zip_leftD size_list_estimation' [of a xs "size a" size] simp: less_Suc_eq_le)

fun same_plain :: "json \<Rightarrow> json \<Rightarrow> bool" where
  "same_plain (JArr xs) (JArr ys) = (length xs = length ys \<and> list_all (\<lambda>b. b) (map2 same_plain xs ys))"
| "same_plain v w = identical (Some v) (Some w)"

definition same :: "js_text \<Rightarrow> json option \<Rightarrow> json option \<Rightarrow> value_type \<Rightarrow> bool" where
  "same t a b vt =
     (if vt = VT_Date then time_value t a = time_value t b \<and> time_value t a \<noteq> NaN
      else (case (a, b) of (Some v, Some w) \<Rightarrow> same_plain v w | _ \<Rightarrow> identical a b))"

definition text_of :: "js_text \<Rightarrow> json option \<Rightarrow> string" where
  "text_of t v = (case v of None \<Rightarrow> ''undefined'' | Some w \<Rightarrow> to_string t w)"

definition ordered :: "js_text \<Rightarrow> value_type \<Rightarrow> (jsnum \<Rightarrow> jsnum \<Rightarrow> bool) \<Rightarrow> (js_text \<Rightarrow> json option \<Rightarrow> json option \<Rightarrow> bool) \<Rightarrow>
    json option \<Rightarrow> json option \<Rightarrow> bool" where
  "ordered t vt on_times on_values a b =
     (if vt = VT_Date then on_times (time_value t a) (time_value t b) else on_values t a b)"

text \<open>\<open>None\<close> is an exception: an unknown operator, or \<open>some\<close> of a value that is no array.\<close>

definition compare_values :: "js_text \<Rightarrow> string \<Rightarrow> json option \<Rightarrow> json option \<Rightarrow> value_type \<Rightarrow> bool option" where
  "compare_values t operator actual expected vt =
     (let missing = (actual = None \<or> actual = Some JNull);
          some_same = (case expected of
            Some (JArr xs) \<Rightarrow> Some (list_ex (\<lambda>x. same t actual (Some x) vt) xs) | _ \<Rightarrow> None)
      in if operator = ''EXISTS'' then Some (\<not> missing)
      else if operator = ''NOT_EXISTS'' then Some missing
      else if missing then Some False
      else if operator = ''EQUALS'' then Some (same t actual expected vt)
      else if operator = ''NOT_EQUALS'' then Some (\<not> same t actual expected vt)
      else if operator = ''IN'' then some_same
      else if operator = ''NOT_IN'' then map_option Not some_same
      else if operator = ''CONTAINS''
      then Some (case actual of
             Some (JArr xs) \<Rightarrow> list_ex (\<lambda>x. same t (Some x) expected VT_String) xs
           | Some (JStr s) \<Rightarrow> (case expected of Some (JStr p) \<Rightarrow> js_includes s p | _ \<Rightarrow> False)
           | _ \<Rightarrow> False)
      else if operator = ''STARTS_WITH''
      then Some (case actual of Some (JStr s) \<Rightarrow> starts_with s (text_of t expected) | _ \<Rightarrow> False)
      else if operator = ''ENDS_WITH''
      then Some (case actual of Some (JStr s) \<Rightarrow> starts_with (rev s) (rev (text_of t expected)) | _ \<Rightarrow> False)
      else if operator = ''LESS_THAN'' then Some (ordered t vt js_lt less_than actual expected)
      else if operator = ''LESS_THAN_OR_EQUAL'' then Some (ordered t vt js_le at_most actual expected)
      else if operator = ''GREATER_THAN'' then Some (ordered t vt js_lt less_than expected actual)
      else if operator = ''GREATER_THAN_OR_EQUAL'' then Some (ordered t vt js_le at_most expected actual)
      else None)"

datatype outcome = Matched bool | Failed (failed_error: string) (failed_attribute: string)

record evidence =
  ev_path :: string
  ev_attribute :: string
  ev_operator :: string
  ev_matched :: bool
  ev_expected :: "json option"

definition is_failed :: "outcome \<Rightarrow> bool" where
  "is_failed r = (case r of Failed _ _ \<Rightarrow> True | Matched _ \<Rightarrow> False)"

definition holds :: "outcome \<Rightarrow> bool" where
  "holds r = (case r of Matched b \<Rightarrow> b | Failed _ _ \<Rightarrow> False)"

definition attribute_of_node :: "js_text \<Rightarrow> json \<Rightarrow> string" where
  "attribute_of_node t node = text_of t (truthy_or (own_property node ''attribute'') (own_property node ''attributeId''))"

definition evaluate_comparison ::
  "js_text \<Rightarrow> json \<Rightarrow> string \<Rightarrow> json \<Rightarrow> (outcome \<times> evidence list) option" where
  "evaluate_comparison t attributes path node =
     (let operator = conditionOperator t node; i = attribute_of_node t node; expected = own_property node ''value''
      in if node = JNull then None
      else
        (case getAttributeDefinition i of
           None \<Rightarrow> Some (Failed ''POLICY_ATTRIBUTE_UNAVAILABLE'' i, [])
         | Some d \<Rightarrow>
             let actual = resolver d attributes
             in if actual = None \<and> needs_value operator then Some (Failed ''POLICY_ATTRIBUTE_UNAVAILABLE'' i, [])
             else map_option (\<lambda>b.
               (Matched b,
                [\<lparr>ev_path = path, ev_attribute = i, ev_operator = operator, ev_matched = b,
                  ev_expected = (if ad_audit_display_safe d then expected else None)\<rparr>]))
               (compare_values t operator actual expected (ad_value_type d))))"

text \<open>A logical node over the results of its children; the first failed child is the result.\<close>

definition logical_outcome :: "string \<Rightarrow> outcome list \<Rightarrow> outcome option" where
  "logical_outcome operator rs =
     (case find is_failed rs of
        Some e \<Rightarrow> Some e
      | None \<Rightarrow>
          if operator = ''ALL'' then Some (Matched (list_all holds rs))
          else if operator = ''ANY'' then Some (Matched (list_ex holds rs))
          else (case rs of [] \<Rightarrow> None | r # _ \<Rightarrow> Some (Matched (\<not> holds r))))"

fun all_some :: "'a option list \<Rightarrow> 'a list option" where
  "all_some [] = Some []"
| "all_some (x # xs) = (case x of None \<Rightarrow> None | Some a \<Rightarrow> map_option ((#) a) (all_some xs))"

text \<open>The inner function \<open>visit\<close> of \<open>evaluateCondition\<close>; \<open>None\<close> is an exception.\<close>

function evaluate_node :: "js_text \<Rightarrow> json \<Rightarrow> string \<Rightarrow> json \<Rightarrow> (outcome \<times> evidence list) option" where
  "evaluate_node t attributes path node =
     (if conditionOperator t node \<in> set LOGICAL_OPERATORS
      then (case conditionChildren node of
              Some (JArr children) \<Rightarrow>
                Option.bind (all_some (map (\<lambda>(i, c). evaluate_node t attributes (field_path path i) c) (index_entries children)))
                  (\<lambda>rs. map_option (\<lambda>r. (r, concat (map snd rs))) (logical_outcome (conditionOperator t node) (map fst rs)))
            | _ \<Rightarrow> None)
      else evaluate_comparison t attributes path node)"
  by pat_completeness auto
termination
  by (relation "measure (\<lambda>(t, attributes, path, node). size node)")
    (auto dest!: index_entries_member intro: size_conditionChildren)

declare evaluate_node.simps [simp del]

datatype condition_result =
    Invalid_Condition "issue list"
  | Evaluated outcome "evidence list"

definition evaluateCondition :: "js_text \<Rightarrow> json \<Rightarrow> json \<Rightarrow> bool \<Rightarrow> condition_result option" where
  "evaluateCondition t condition attributes skip_validation =
     (if \<not> skip_validation \<and> \<not> valid_condition t condition
      then Some (Invalid_Condition (fst (validateConditionTree t condition)))
      else map_option (\<lambda>(r, es). Evaluated r es) (evaluate_node t attributes ''condition'' condition))"

subsection \<open>Targets and documents\<close>

text \<open>\<open>policy.target || {}\<close>.\<close>

definition target_of :: "json option \<Rightarrow> json" where
  "target_of v = (case v of Some w \<Rightarrow> if truthy w then w else JObj [] | None \<Rightarrow> JObj [])"

fun targetValues :: "js_text \<Rightarrow> json \<Rightarrow> string list \<Rightarrow> string list" where
  "targetValues t target [] = []"
| "targetValues t target (k # ks) =
     (case own_property target k of
        Some (JArr xs) \<Rightarrow> map (to_string t) xs
      | _ \<Rightarrow> targetValues t target ks)"

definition TARGET_FIELDS :: "string list" where
  "TARGET_FIELDS =
     [''permissionIds'', ''permissions'', ''resourceTypes'', ''resourceIds'', ''actorTypes'', ''organizationIds'',
      ''workspaceIds'', ''passportIds'', ''connectionIds'', ''capabilityIds'', ''capabilityCategories'',
      ''capabilityClassifications'', ''sideEffects'', ''sideEffectClassifications'', ''environments'']"

definition target_item_ok :: "json \<Rightarrow> bool" where
  "target_item_ok v = (case v of JStr s \<Rightarrow> js_trim s \<noteq> '''' \<and> length s \<le> 256 | _ \<Rightarrow> False)"

definition target_field_issues :: "string \<Rightarrow> json \<Rightarrow> issue list" where
  "target_field_issues k v =
     (let path = field_path ''target'' k
      in if k \<notin> set TARGET_FIELDS then [issue_at path ''UNSUPPORTED_TARGET'']
      else
        (case v of
           JArr xs \<Rightarrow>
             if xs = [] then [issue_at path ''TARGET_ARRAY_REQUIRED'']
             else (if max_target_items < length xs then [issue_at path ''ARRAY_LIMIT_EXCEEDED''] else [])
               @ map (\<lambda>_. issue_at path ''INVALID_TARGET_VALUE'') (filter (\<lambda>x. \<not> target_item_ok x) xs)
         | _ \<Rightarrow> [issue_at path ''TARGET_ARRAY_REQUIRED'']))"

definition validateTarget :: "json \<Rightarrow> issue list" where
  "validateTarget target =
     (case target of
        JObj fs \<Rightarrow> concat (map (\<lambda>(k, v). target_field_issues k v) fs)
      | _ \<Rightarrow> [issue_at ''target'' ''INVALID_TARGET''])"

text \<open>A policy document; \<open>po_bytes\<close> is its size as JSON, \<open>None\<close> when it does not serialize.\<close>

record policy =
  po_stable_id :: string
  po_version :: rat
  po_name :: string
  po_effect :: string
  po_organization_id :: string
  po_workspace_id :: "string option"
  po_target :: "json option"
  po_condition :: json
  po_priority :: "rat option"
  po_bytes :: "int option"

definition validatePolicyDocument :: "js_text \<Rightarrow> policy \<Rightarrow> issue list" where
  "validatePolicyDocument t p =
     (case po_bytes p of
        None \<Rightarrow> [issue_at ''policy'' ''POLICY_NOT_SERIALIZABLE'', issue_at ''policy'' ''DOCUMENT_LIMIT_EXCEEDED'']
      | Some b \<Rightarrow> if max_document_bytes < b then [issue_at ''policy'' ''DOCUMENT_LIMIT_EXCEEDED''] else [])
     @ (if js_upper (po_effect p) \<in> {''ALLOW'', ''DENY''} then [] else [issue_at ''effect'' ''INVALID_EFFECT''])
     @ validateTarget (target_of (po_target p))
     @ fst (validateConditionTree t (po_condition p))"

subsection \<open>Which policies apply, and in which order\<close>

record policy_input =
  pi_permission :: "string option"
  pi_permission_id :: "string option"
  pi_resource_type :: "string option"
  pi_resource_type_of_resource :: "string option"
  pi_resource_id :: "string option"
  pi_resource_id_of_resource :: "string option"
  pi_actor_type :: "string option"
  pi_organization_id :: "string option"
  pi_workspace_id :: "string option"
  pi_passport_id :: "string option"
  pi_connection_id :: "string option"
  pi_capability_id :: "string option"
  pi_capability_category :: "string option"
  pi_capability_classification :: "string option"
  pi_capability_side_effect :: "string option"
  pi_environment :: "string option"

definition first_present :: "string option \<Rightarrow> string option \<Rightarrow> string option" where
  "first_present a b = (if present a then a else b)"

definition target_checks :: "js_text \<Rightarrow> json \<Rightarrow> policy_input \<Rightarrow> (string list \<times> string option) list" where
  "target_checks t target i =
     [(targetValues t target [''permissionIds'', ''permissions''], first_present (pi_permission i) (pi_permission_id i)),
      (targetValues t target [''resourceTypes''], first_present (pi_resource_type i) (pi_resource_type_of_resource i)),
      (targetValues t target [''resourceIds''], first_present (pi_resource_id i) (pi_resource_id_of_resource i)),
      (targetValues t target [''actorTypes''], pi_actor_type i),
      (targetValues t target [''organizationIds''], pi_organization_id i),
      (targetValues t target [''workspaceIds''], pi_workspace_id i),
      (targetValues t target [''passportIds''], pi_passport_id i),
      (targetValues t target [''connectionIds''], pi_connection_id i),
      (targetValues t target [''capabilityIds''], pi_capability_id i),
      (targetValues t target [''capabilityCategories''], pi_capability_category i),
      (targetValues t target [''capabilityClassifications''], pi_capability_classification i),
      (targetValues t target [''sideEffects'', ''sideEffectClassifications''], pi_capability_side_effect i),
      (targetValues t target [''environments''], pi_environment i)]"

definition targetMatch :: "js_text \<Rightarrow> policy \<Rightarrow> policy_input \<Rightarrow> bool" where
  "targetMatch t p i =
     list_all (\<lambda>(expected, actual). expected = [] \<or> or_empty actual \<in> set expected)
       (target_checks t (target_of (po_target p)) i)"

definition resource_specific :: "js_text \<Rightarrow> policy \<Rightarrow> bool" where
  "resource_specific t p =
     (let target = target_of (po_target p)
      in length (targetValues t target [''resourceIds'']) + length (targetValues t target [''connectionIds''])
         + length (targetValues t target [''capabilityIds'']) + length (targetValues t target [''passportIds'']) \<noteq> 0)"

text \<open>\<open>specificity\<close>: the tenant and the resource component.\<close>

definition specificity :: "js_text \<Rightarrow> policy \<Rightarrow> rat \<times> rat" where
  "specificity t p =
     (if present (po_workspace_id p) then 1 else 0, if resource_specific t p then 1 else 0)"

definition priority_of :: "policy \<Rightarrow> rat" where
  "priority_of p = (case po_priority p of None \<Rightarrow> 0 | Some r \<Rightarrow> r)"

definition comparePolicies :: "js_text \<Rightarrow> policy \<Rightarrow> policy \<Rightarrow> rat" where
  "comparePolicies t l r =
     (if fst (specificity t l) \<noteq> fst (specificity t r) then fst (specificity t r) - fst (specificity t l)
      else if snd (specificity t l) \<noteq> snd (specificity t r) then snd (specificity t r) - snd (specificity t l)
      else if priority_of l \<noteq> priority_of r then priority_of r - priority_of l
      else if jt_collate t (po_stable_id l) (po_stable_id r) \<noteq> 0
      then of_int (jt_collate t (po_stable_id l) (po_stable_id r))
      else po_version l - po_version r)"

definition applies :: "js_text \<Rightarrow> policy_input \<Rightarrow> policy \<Rightarrow> bool" where
  "applies t i p \<longleftrightarrow>
     po_organization_id p = (case pi_organization_id i of None \<Rightarrow> ''undefined'' | Some s \<Rightarrow> s)
     \<and> (\<not> present (po_workspace_id p) \<or> po_workspace_id p = Some (or_empty (pi_workspace_id i)))
     \<and> targetMatch t p i"

subsection \<open>The decision\<close>

record policy_summary =
  su_stable_id :: string
  su_version :: rat
  su_name :: string
  su_effect :: string
  su_matched :: bool
  su_evidence :: "evidence list"

definition policySummary :: "policy \<Rightarrow> outcome \<Rightarrow> evidence list \<Rightarrow> policy_summary" where
  "policySummary p r es =
     \<lparr>su_stable_id = po_stable_id p, su_version = po_version p, su_name = po_name p, su_effect = po_effect p,
      su_matched = holds r, su_evidence = es\<rparr>"

record decision =
  de_allowed :: bool
  de_decision :: string
  de_reason :: string
  de_matched :: "policy_summary list"
  de_revision :: "nat option"

definition deny :: "nat \<Rightarrow> string \<Rightarrow> policy_summary list \<Rightarrow> decision" where
  "deny revision reason results =
     \<lparr>de_allowed = False, de_decision = ''DENY'', de_reason = reason, de_matched = results, de_revision = Some revision\<rparr>"

definition reason_of_error :: "string \<Rightarrow> string" where
  "reason_of_error e =
     (if e \<in> {''POLICY_ATTRIBUTE_UNAVAILABLE'', ''POLICY_INVALID'', ''POLICY_EVALUATION_ERROR''} then e
      else ''POLICY_EVALUATION_ERROR'')"

text \<open>The result of the condition of a validated policy; an exception counts as an error of its own.\<close>

definition condition_outcome :: "js_text \<Rightarrow> json \<Rightarrow> policy \<Rightarrow> outcome \<times> evidence list" where
  "condition_outcome t attributes p =
     (case evaluateCondition t (po_condition p) attributes True of
        Some (Evaluated r es) \<Rightarrow> (r, es)
      | Some (Invalid_Condition _) \<Rightarrow> (Failed ''POLICY_INVALID'' '''', [])
      | None \<Rightarrow> (Failed ''POLICY_EVALUATION_ERROR'' '''', []))"

fun collect_results ::
  "js_text \<Rightarrow> json \<Rightarrow> policy list \<Rightarrow> policy_summary list \<Rightarrow> (string \<times> policy_summary list) + policy_summary list" where
  "collect_results t attributes [] results = Inr results"
| "collect_results t attributes (p # ps) results =
     (if validatePolicyDocument t p \<noteq> [] then Inl (''POLICY_INVALID'', results)
      else
        (case condition_outcome t attributes p of
           (r, es) \<Rightarrow>
             let results' = results @ [policySummary p r es]
             in (case r of
                   Failed e _ \<Rightarrow> Inl (reason_of_error e, results')
                 | Matched _ \<Rightarrow> collect_results t attributes ps results')))"

definition decide :: "nat \<Rightarrow> policy_summary list \<Rightarrow> decision" where
  "decide revision results =
     (let allows = filter (\<lambda>s. su_effect s = ''ALLOW'') results
      in if list_ex (\<lambda>s. su_effect s = ''DENY'' \<and> su_matched s) results
         then deny revision ''POLICY_EXPLICIT_DENY'' results
      else if allows \<noteq> [] \<and> \<not> list_ex su_matched allows
      then deny revision ''POLICY_ALLOW_CONDITION_NOT_MET'' results
      else \<lparr>de_allowed = True, de_decision = ''ALLOW'',
             de_reason = (if list_ex su_matched allows then ''POLICY_ALLOW_MATCHED'' else ''NO_APPLICABLE_POLICY''),
             de_matched = results, de_revision = Some revision\<rparr>)"

definition evaluatePolicySnapshot ::
  "js_text \<Rightarrow> policy list \<Rightarrow> policy_input \<Rightarrow> json \<Rightarrow> nat \<Rightarrow> decision" where
  "evaluatePolicySnapshot t policies i attributes revision =
     (case collect_results t attributes (filter (applies t i) (sort_by (comparePolicies t) policies)) [] of
        Inl (reason, results) \<Rightarrow> deny revision reason results
      | Inr results \<Rightarrow> decide revision results)"

text \<open>\<open>evaluateActivePolicies\<close> without its metrics and alerts; \<open>None\<close> is an exception of the snapshot loader.\<close>

definition evaluateActivePolicies ::
  "js_text \<Rightarrow> (policy list \<times> nat) option \<Rightarrow> policy_input \<Rightarrow> json \<Rightarrow> decision" where
  "evaluateActivePolicies t snapshot i attributes =
     (case snapshot of
        Some (policies, revision) \<Rightarrow> evaluatePolicySnapshot t policies i attributes revision
      | None \<Rightarrow> \<lparr>de_allowed = False, de_decision = ''DENY'', de_reason = ''POLICY_EVALUATION_ERROR'', de_matched = [],
                 de_revision = None\<rparr>)"

subsection \<open>The decision depends on the applicable policies only\<close>

definition sound_policy :: "js_text \<Rightarrow> json \<Rightarrow> policy \<Rightarrow> bool" where
  "sound_policy t attributes p \<longleftrightarrow>
     validatePolicyDocument t p = [] \<and> \<not> is_failed (fst (condition_outcome t attributes p))"

definition policy_holds :: "js_text \<Rightarrow> json \<Rightarrow> policy \<Rightarrow> bool" where
  "policy_holds t attributes p = holds (fst (condition_outcome t attributes p))"

definition summary_of :: "js_text \<Rightarrow> json \<Rightarrow> policy \<Rightarrow> policy_summary" where
  "summary_of t attributes p = (case condition_outcome t attributes p of (r, es) \<Rightarrow> policySummary p r es)"

lemma summary_of_simps [simp]:
  "su_effect (summary_of t attributes p) = po_effect p"
  "su_matched (summary_of t attributes p) = policy_holds t attributes p"
  by (simp_all add: summary_of_def policySummary_def policy_holds_def split: prod.split)

lemma collect_results_sound:
  assumes "\<forall>p\<in>set ps. sound_policy t attributes p"
  shows "collect_results t attributes ps results = Inr (results @ map (summary_of t attributes) ps)"
  using assms
  by (induction ps arbitrary: results)
    (auto simp: sound_policy_def is_failed_def summary_of_def split: prod.splits outcome.splits)

text \<open>What the loop reports for the first policy that is invalid or cannot be evaluated.\<close>

definition failure_reason :: "js_text \<Rightarrow> json \<Rightarrow> policy \<Rightarrow> string" where
  "failure_reason t attributes p =
     (if validatePolicyDocument t p \<noteq> [] then ''POLICY_INVALID''
      else if failed_error (fst (condition_outcome t attributes p)) = ''POLICY_ATTRIBUTE_UNAVAILABLE'' then ''POLICY_ATTRIBUTE_UNAVAILABLE''
      else if failed_error (fst (condition_outcome t attributes p)) = ''POLICY_INVALID'' then ''POLICY_INVALID''
      else ''POLICY_EVALUATION_ERROR'')"

lemma collect_results_unsound:
  assumes "dropWhile (sound_policy t attributes) ps = p # rest"
  shows "collect_results t attributes ps results =
    Inl (failure_reason t attributes p,
      results @ map (summary_of t attributes) (takeWhile (sound_policy t attributes) ps @ (if validatePolicyDocument t p \<noteq> [] then [] else [p])))"
  using assms
proof (induction ps arbitrary: results)
  case (Cons q ps)
  show ?case
  proof (cases "sound_policy t attributes q")
    case True
    with Cons.prems have "dropWhile (sound_policy t attributes) ps = p # rest" by simp
    from Cons.IH [OF this] True show ?thesis
      by (auto simp: sound_policy_def is_failed_def summary_of_def Let_def split: prod.split outcome.splits)
  next
    case False
    with Cons.prems have "q = p" by simp
    with False show ?thesis
      by (auto simp: sound_policy_def is_failed_def failure_reason_def reason_of_error_def summary_of_def Let_def
          split: prod.split outcome.splits)
  qed
qed simp

lemma decide_exact:
  "de_allowed (decide revision results) \<longleftrightarrow>
     \<not> (\<exists>s\<in>set results. su_effect s = ''DENY'' \<and> su_matched s)
     \<and> ((\<exists>s\<in>set results. su_effect s = ''ALLOW'') \<longrightarrow> (\<exists>s\<in>set results. su_effect s = ''ALLOW'' \<and> su_matched s))"
  "de_reason (decide revision results) =
     (if \<exists>s\<in>set results. su_effect s = ''DENY'' \<and> su_matched s then ''POLICY_EXPLICIT_DENY''
      else if \<exists>s\<in>set results. su_effect s = ''ALLOW'' \<and> su_matched s then ''POLICY_ALLOW_MATCHED''
      else if \<exists>s\<in>set results. su_effect s = ''ALLOW'' then ''POLICY_ALLOW_CONDITION_NOT_MET'' else ''NO_APPLICABLE_POLICY'')"
  "de_decision (decide revision results) = (if de_allowed (decide revision results) then ''ALLOW'' else ''DENY'')"
  "de_matched (decide revision results) = results" "de_revision (decide revision results) = Some revision"
  by (auto simp: decide_def deny_def Let_def list_ex_iff filter_empty_conv)

lemma decide_summaries:
  "(\<exists>s\<in>set (map (summary_of t attributes) (filter P (sort_by c policies))). su_effect s = e) \<longleftrightarrow> (\<exists>p\<in>set policies. P p \<and> po_effect p = e)"
  "(\<exists>s\<in>set (map (summary_of t attributes) (filter P (sort_by c policies))). su_effect s = e \<and> su_matched s)
     \<longleftrightarrow> (\<exists>p\<in>set policies. P p \<and> po_effect p = e \<and> holds (fst (condition_outcome t attributes p)))"
  by (auto simp: policy_holds_def)

text \<open>
  C29: The decision, on every branch. The applicable policies are taken in their order of precedence. If one of them
  is invalid or its condition cannot be evaluated the request is denied, for the reason of the first such policy, and the policies
  before it are reported. Otherwise all are reported, and the request is denied for \<open>POLICY_EXPLICIT_DENY\<close> when a DENY policy
  matches; allowed for \<open>POLICY_ALLOW_MATCHED\<close> when none does and some ALLOW policy matches; denied for
  \<open>POLICY_ALLOW_CONDITION_NOT_MET\<close> when ALLOW policies apply but none matches; and allowed for \<open>NO_APPLICABLE_POLICY\<close> when no
  ALLOW policy applies. In particular a matching DENY wins over every ALLOW in whatever order they stand.
\<close>

theorem policy_decision_exact:
  "let d = evaluatePolicySnapshot t policies i attributes revision;
       ps = filter (applies t i) (sort_by (comparePolicies t) policies)
   in de_revision d = Some revision \<and> de_decision d = (if de_allowed d then ''ALLOW'' else ''DENY'') \<and>
     (case dropWhile (sound_policy t attributes) ps of
        p # rest \<Rightarrow> \<not> de_allowed d \<and> de_reason d = failure_reason t attributes p
          \<and> de_matched d = map (summary_of t attributes)
              (takeWhile (sound_policy t attributes) ps @ (if validatePolicyDocument t p \<noteq> [] then [] else [p]))
      | [] \<Rightarrow> de_matched d = map (summary_of t attributes) ps \<and>
          (if \<exists>p\<in>set policies. applies t i p \<and> po_effect p = ''DENY'' \<and> holds (fst (condition_outcome t attributes p))
           then \<not> de_allowed d \<and> de_reason d = ''POLICY_EXPLICIT_DENY''
           else if \<exists>p\<in>set policies. applies t i p \<and> po_effect p = ''ALLOW'' \<and> holds (fst (condition_outcome t attributes p))
           then de_allowed d \<and> de_reason d = ''POLICY_ALLOW_MATCHED''
           else if \<exists>p\<in>set policies. applies t i p \<and> po_effect p = ''ALLOW''
           then \<not> de_allowed d \<and> de_reason d = ''POLICY_ALLOW_CONDITION_NOT_MET''
           else de_allowed d \<and> de_reason d = ''NO_APPLICABLE_POLICY''))"
proof -
  let ?ps = "filter (applies t i) (sort_by (comparePolicies t) policies)"
  show ?thesis
  proof (cases "dropWhile (sound_policy t attributes) ?ps")
    case Nil
    then have "\<forall>p\<in>set ?ps. sound_policy t attributes p" by (simp only: dropWhile_eq_Nil_conv)
    then have "evaluatePolicySnapshot t policies i attributes revision = decide revision (map (summary_of t attributes) ?ps)"
      using collect_results_sound [of ?ps t attributes "[]"] by (simp add: evaluatePolicySnapshot_def)
    then show ?thesis unfolding Let_def Nil list.case
      by (simp only: decide_exact decide_summaries) auto
  next
    case (Cons p rest)
    then have "evaluatePolicySnapshot t policies i attributes revision = deny revision (failure_reason t attributes p)
        (map (summary_of t attributes) (takeWhile (sound_policy t attributes) ?ps @ (if validatePolicyDocument t p \<noteq> [] then [] else [p])))"
      unfolding evaluatePolicySnapshot_def collect_results_unsound [OF Cons] by (simp only: sum.case prod.case append_Nil)
    then show ?thesis unfolding Let_def Cons list.case by (simp add: deny_def)
  qed
qed

subsection \<open>Validated conditions can be evaluated\<close>

lemma ite_Some: "(b \<Longrightarrow> \<exists>y. x = Some y) \<Longrightarrow> (\<not> b \<Longrightarrow> \<exists>y. z = Some y) \<Longrightarrow> \<exists>y. (if b then x else z) = Some y"
  by simp

lemma compare_values_defined:
  assumes op: "operator \<in> set COMPARISON_OPERATORS"
    and arr: "operator \<in> {''IN'', ''NOT_IN''} \<Longrightarrow> \<exists>xs. expected = Some (JArr xs)"
  shows "\<exists>b. compare_values t operator actual expected vt = Some b"
proof -
  let ?s = "case expected of Some (JArr xs) \<Rightarrow> Some (list_ex (\<lambda>x. same t actual (Some x) vt) xs) | _ \<Rightarrow> None"
  have s: "\<exists>b. ?s = Some b" if "operator \<in> {''IN'', ''NOT_IN''}"
    using arr [OF that] by (elim exE) (simp only: option.case json.case, blast)
  show ?thesis unfolding compare_values_def Let_def
  proof (intro ite_Some)
    show "\<exists>y. ?s = Some y" if "operator = ''IN''" using that s by blast
    show "\<exists>y. map_option Not ?s = Some y" if "operator = ''NOT_IN''" using that s by force
    show "\<exists>y. None = Some y"
      if "operator \<noteq> ''EXISTS''" "operator \<noteq> ''NOT_EXISTS''" "operator \<noteq> ''EQUALS''" "operator \<noteq> ''NOT_EQUALS''"
        "operator \<noteq> ''IN''" "operator \<noteq> ''NOT_IN''" "operator \<noteq> ''CONTAINS''" "operator \<noteq> ''STARTS_WITH''"
        "operator \<noteq> ''ENDS_WITH''" "operator \<noteq> ''LESS_THAN''" "operator \<noteq> ''LESS_THAN_OR_EQUAL''"
        "operator \<noteq> ''GREATER_THAN''" "operator \<noteq> ''GREATER_THAN_OR_EQUAL''"
      using op that unfolding COMPARISON_OPERATORS_def list.set insert_iff empty_iff by argo
  qed (rule exI, rule refl)+
qed

definition evaluates :: "(outcome \<times> evidence list) option \<Rightarrow> nat \<Rightarrow> bool" where
  "evaluates r k \<longleftrightarrow> (\<exists>q es. r = Some (q, es) \<and> length es \<le> k
     \<and> (\<forall>e i. q = Failed e i \<longrightarrow> e = ''POLICY_ATTRIBUTE_UNAVAILABLE''))"

lemma evaluates_Some: "evaluates r k \<Longrightarrow> \<exists>y. r = Some y"
  by (auto simp: evaluates_def)

lemma value_issues_array:
  assumes "value_issues t operator vt path v = []" "operator \<in> {''IN'', ''NOT_IN''}"
  shows "\<exists>xs. v = Some (JArr xs)"
proof (cases v)
  case None
  with assms show ?thesis by (auto simp: value_issues_def needs_value_def)
next
  case (Some w)
  with assms show ?thesis by (cases w) (simp_all add: value_issues_def)
qed

lemma comparison_evaluates:
  assumes issues: "comparison_issues t (conditionOperator t node) path node = []" and node: "node \<noteq> JNull"
  shows "evaluates (evaluate_comparison t attributes path' node) 1"
proof -
  let ?op = "conditionOperator t node"
  have op: "?op \<in> set COMPARISON_OPERATORS"
    using issues by (auto simp: comparison_issues_def split: if_splits)
  from issues op obtain vt where "value_issues t ?op vt (field_path path ''value'') (own_property node ''value'') = []"
    unfolding comparison_issues_def by (cases "getAttributeDefinition
      (js_trim (text_or_empty t (truthy_or (own_property node ''attribute'') (own_property node ''attributeId''))))")
      (simp_all split: if_splits)
  then have arr: "\<exists>xs. own_property node ''value'' = Some (JArr xs)" if "?op \<in> {''IN'', ''NOT_IN''}"
    using that by (rule value_issues_array)
  show ?thesis
  proof (cases "getAttributeDefinition (attribute_of_node t node)")
    case None
    with node show ?thesis by (simp add: evaluate_comparison_def evaluates_def Let_def)
  next
    case (Some d)
    obtain b where "compare_values t ?op (resolver d attributes) (own_property node ''value'') (ad_value_type d) = Some b"
      using compare_values_defined [OF op, of "own_property node ''value''" t "resolver d attributes" "ad_value_type d"] arr by blast
    with Some node show ?thesis by (simp add: evaluate_comparison_def evaluates_def Let_def)
  qed
qed

lemma all_some_map: "(\<And>x. x \<in> set xs \<Longrightarrow> \<exists>y. f x = Some y) \<Longrightarrow> all_some (map f xs) = Some (map (\<lambda>x. the (f x)) xs)"
  by (induction xs) force+

lemma logical_outcome_defined:
  assumes "operator \<in> set LOGICAL_OPERATORS" "operator = ''NOT'' \<Longrightarrow> rs \<noteq> []"
    and "\<And>r e i. r \<in> set rs \<Longrightarrow> r = Failed e i \<Longrightarrow> e = ''POLICY_ATTRIBUTE_UNAVAILABLE''"
  shows "\<exists>q. logical_outcome operator rs = Some q \<and> (\<forall>e i. q = Failed e i \<longrightarrow> e = ''POLICY_ATTRIBUTE_UNAVAILABLE'')"
proof (cases "find is_failed rs")
  case None
  have "operator = ''ALL'' \<or> operator = ''ANY'' \<or> operator = ''NOT''"
    using assms(1) by (simp add: LOGICAL_OPERATORS_def)
  with None assms(2) show ?thesis by (cases rs) (auto simp: logical_outcome_def)
next
  case (Some r)
  then have "r \<in> set rs" by (auto simp: find_Some_iff)
  with Some assms(3) [of r] show ?thesis by (auto simp: logical_outcome_def)
qed

text \<open>A counted walk without issues: every element was accepted, and the counter grew by the sum of the steps.\<close>

lemma visit_all_accepted:
  assumes "visit_all f es n = ([], m)"
    and "\<And>e k k'. e \<in> set es \<Longrightarrow> f e k = ([], k') \<Longrightarrow> P e (k' - k) \<and> k \<le> k'"
  shows "\<exists>ks. length ks = length es \<and> list_all2 P es ks \<and> n + sum_list ks = m"
  using assms
proof (induction es arbitrary: n)
  case (Cons e es)
  from Cons.prems(1) obtain k where k: "f e n = ([], k)" "visit_all f es k = ([], m)"
    by (auto split: prod.splits)
  from Cons.IH [OF k(2)] Cons.prems(2) obtain ks where
    ks: "length ks = length es" "list_all2 P es ks" "k + sum_list ks = m" by auto
  have "P e (k - n)" "n \<le> k" using Cons.prems(2) [OF _ k(1)] by simp_all
  with ks show ?case by (intro exI [of _ "(k - n) # ks"]) simp
qed simp

lemma list_all2_evaluates_length:
  "list_all2 (\<lambda>x k. evaluates (f x) k) xs ks \<Longrightarrow> length (concat (map (\<lambda>x. snd (the (f x))) xs)) \<le> sum_list ks"
  by (induction xs ks rule: list_all2_induct) (auto simp: evaluates_def)

lemma children_case:
  "(case v of Some (JArr cs) \<Rightarrow> f cs | _ \<Rightarrow> (e # es, k)) = ([], m) \<Longrightarrow> \<exists>cs. v = Some (JArr cs) \<and> f cs = ([], m)"
  by (auto split: option.splits json.splits)

text \<open>What an accepted logical node says of its children.\<close>

lemma check_condition_logical:
  assumes c: "check_condition t path depth node n = ([], m)" and op: "conditionOperator t node \<in> set LOGICAL_OPERATORS"
  shows "\<exists>children. conditionChildren node = Some (JArr children)
    \<and> logical_issues (conditionOperator t node) path children = []
    \<and> visit_all (\<lambda>(i, c). check_condition t (index_path (field_path path ''conditions'') i) (depth + 1) c)
        (index_entries children) (n + 1) = ([], m)"
proof -
  let ?v = "\<lambda>cs. visit_all (\<lambda>(i, c). check_condition t (index_path (field_path path ''conditions'') i) (depth + 1) c)
        (index_entries (take max_array_items cs)) (n + 1)"
  have r: "(case conditionChildren node of
        Some (JArr children) \<Rightarrow>
          (case ?v children of (iss, m) \<Rightarrow> (logical_issues (conditionOperator t node) path children @ iss, m))
      | _ \<Rightarrow> ([issue_at (field_path path ''conditions'') ''CHILDREN_REQUIRED''], n + 1)) = ([], m)"
    using c unfolding check_condition.simps [of t path depth node] if_P [OF op]
    by (simp only: prod.inject list.distinct simp_thms split: if_split_asm)
  from children_case [OF r] obtain children where ch: "conditionChildren node = Some (JArr children)" by blast
  obtain iss k where v: "?v children = (iss, k)" by (metis surj_pair)
  from r have li: "logical_issues (conditionOperator t node) path children = []" "iss = []" "k = m"
    by (simp_all only: ch v option.case json.case prod.case prod.inject append_is_Nil_conv)
  from li(1) have "length children \<le> max_array_items" by (auto simp: logical_issues_def split: if_splits)
  with v ch li show ?thesis by simp
qed

lemma check_condition_comparison:
  assumes c: "check_condition t path depth node n = ([], m)" and op: "conditionOperator t node \<notin> set LOGICAL_OPERATORS"
  shows "comparison_issues t (conditionOperator t node) path node = [] \<and> m = n + 1"
  using c unfolding check_condition.simps [of t path depth node] if_not_P [OF op]
  by (simp only: prod.inject list.distinct simp_thms split: if_split_asm)

lemma check_condition_guard:
  assumes "check_condition t path depth node n = ([], m)"
  shows "n < max_nodes" "depth \<le> max_depth" "is_node node"
  using assms unfolding check_condition.simps [of t path depth node] by (auto split: if_split_asm)

lemma check_condition_evaluates:
  "check_condition t path depth node n = ([], m) \<Longrightarrow>
     evaluates (evaluate_node t attributes path' node) (m - n) \<and> n < m"
proof (induction node arbitrary: path path' depth n m rule: measure_induct_rule [of size])
  case (less node)
  let ?op = "conditionOperator t node"
  have node: "node \<noteq> JNull" using check_condition_guard(3) [OF less.prems] by (auto simp: is_node_def)
  show ?case
  proof (cases "?op \<in> set LOGICAL_OPERATORS")
    case False
    note k = check_condition_comparison [OF less.prems False]
    from comparison_evaluates [OF conjunct1 [OF k] node] k False show ?thesis
      by (simp add: evaluate_node.simps [of t attributes path' node])
  next
    case True
    from check_condition_logical [OF less.prems True] obtain children where
      ch: "conditionChildren node = Some (JArr children)" and li: "logical_issues ?op path children = []"
      and v: "visit_all (\<lambda>(i, c). check_condition t (index_path (field_path path ''conditions'') i) (depth + 1) c)
        (index_entries children) (n + 1) = ([], m)" by blast
    let ?f = "\<lambda>(i, c). evaluate_node t attributes (field_path path' i) c"
    have step: "evaluates (?f x) (k' - k) \<and> k \<le> k'"
      if "x \<in> set (index_entries children)"
        "(\<lambda>(i, c). check_condition t (index_path (field_path path ''conditions'') i) (depth + 1) c) x k = ([], k')" for x k k'
    proof -
      obtain i c where x: "x = (i, c)" by (cases x)
      with that(1) have "c \<in> set children" by (simp add: index_entries_member)
      then have "size c < size node" by (rule size_conditionChildren [OF ch])
      moreover from that(2) x have "check_condition t (index_path (field_path path ''conditions'') i) (depth + 1) c k = ([], k')"
        by simp
      ultimately show ?thesis using less.IH x by (simp add: less_imp_le)
    qed
    from visit_all_accepted [OF v, where P = "\<lambda>x k. evaluates (?f x) k"] step obtain ks where
      ks: "list_all2 (\<lambda>x k. evaluates (?f x) k) (index_entries children) ks" "n + 1 + sum_list ks = m" by blast
    then have ev: "\<exists>k. evaluates (?f x) k" if "x \<in> set (index_entries children)" for x
      using that by (metis in_set_conv_nth list_all2_nthD)
    then have "all_some (map ?f (index_entries children)) = Some (map (\<lambda>x. the (?f x)) (index_entries children))"
      using evaluates_Some by (intro all_some_map) blast
    moreover have "\<exists>q. logical_outcome ?op (map fst (map (\<lambda>x. the (?f x)) (index_entries children))) = Some q
        \<and> (\<forall>e i. q = Failed e i \<longrightarrow> e = ''POLICY_ATTRIBUTE_UNAVAILABLE'')"
    proof (rule logical_outcome_defined [OF True])
      show "map fst (map (\<lambda>x. the (?f x)) (index_entries children)) \<noteq> []" if "?op = ''NOT''"
        using li that by (auto simp: logical_issues_def index_entries_def split: if_splits)
    qed (use ev in \<open>fastforce simp: evaluates_def\<close>)
    moreover have "length (concat (map snd (map (\<lambda>x. the (?f x)) (index_entries children)))) \<le> sum_list ks"
      using list_all2_evaluates_length [OF ks(1)] by (simp add: comp_def)
    ultimately show ?thesis using True ch ks(2)
      by (auto simp: evaluate_node.simps [of t attributes path' node] evaluates_def comp_def)
  qed
qed

lemma visit_all_limit:
  assumes "visit_all f es n = ([], m)" "n \<le> b" "\<And>e k k'. e \<in> set es \<Longrightarrow> f e k = ([], k') \<Longrightarrow> k' \<le> b"
  shows "m \<le> b"
  using assms
proof (induction es arbitrary: n)
  case (Cons e es)
  from Cons.prems(1) obtain k where k: "f e n = ([], k)" "visit_all f es k = ([], m)"
    by (auto split: prod.splits)
  show ?case
  proof (rule Cons.IH [OF k(2)])
    show "k \<le> b" by (rule Cons.prems(3) [OF _ k(1)]) simp
    show "k' \<le> b" if "e \<in> set es" "f e j = ([], k')" for e j k'
      using that(1) by (intro Cons.prems(3) [OF _ that(2)]) simp
  qed
qed simp

lemma check_condition_limit: "check_condition t path depth node n = ([], m) \<Longrightarrow> m \<le> max_nodes"
proof (induction node arbitrary: path depth n m rule: measure_induct_rule [of size])
  case (less node)
  have n: "n + 1 \<le> max_nodes" using check_condition_guard(1) [OF less.prems] by simp
  show ?case
  proof (cases "conditionOperator t node \<in> set LOGICAL_OPERATORS")
    case False
    with check_condition_comparison [OF less.prems False] n show ?thesis by simp
  next
    case True
    from check_condition_logical [OF less.prems True] obtain children where
      ch: "conditionChildren node = Some (JArr children)"
      and v: "visit_all (\<lambda>(i, c). check_condition t (index_path (field_path path ''conditions'') i) (depth + 1) c)
        (index_entries children) (n + 1) = ([], m)" by blast
    from v n show ?thesis
    proof (rule visit_all_limit)
      fix e k k' assume e: "e \<in> set (index_entries children)"
        "(\<lambda>(i, c). check_condition t (index_path (field_path path ''conditions'') i) (depth + 1) c) e k = ([], k')"
      obtain i c where x: "e = (i, c)" by (cases e)
      with e(1) have "c \<in> set children" by (simp add: index_entries_member)
      then have "size c < size node" by (rule size_conditionChildren [OF ch])
      moreover from e(2) x have "check_condition t (index_path (field_path path ''conditions'') i) (depth + 1) c k = ([], k')"
        by simp
      ultimately show "k' \<le> max_nodes" by (rule less.IH)
    qed
  qed
qed

text \<open>
  C30: A condition that passes validation can be evaluated over any attributes without an exception: the result is a truth
  value, or the error that an attribute is unavailable, and at most as many comparisons are recorded as
  evidence as the validation has counted nodes, which are at most 100.
\<close>

theorem valid_condition_evaluates:
  assumes "valid_condition t condition"
  shows "\<exists>r es. evaluateCondition t condition attributes True = Some (Evaluated r es)
    \<and> (is_failed r \<longrightarrow> failed_error r = ''POLICY_ATTRIBUTE_UNAVAILABLE'')
    \<and> length es \<le> snd (validateConditionTree t condition) \<and> snd (validateConditionTree t condition) \<le> 100"
proof -
  obtain m where c: "check_condition t ''condition'' 1 condition 0 = ([], m)"
    using assms unfolding valid_condition_def validateConditionTree_def by (metis prod.collapse)
  from check_condition_evaluates [OF c] obtain r es where r: "evaluate_node t attributes ''condition'' condition = Some (r, es)"
    "length es \<le> m" "\<forall>e i. r = Failed e i \<longrightarrow> e = ''POLICY_ATTRIBUTE_UNAVAILABLE''"
    unfolding evaluates_def by (metis diff_zero)
  from r(3) have "is_failed r \<longrightarrow> failed_error r = ''POLICY_ATTRIBUTE_UNAVAILABLE''"
    by (cases r) (simp_all add: is_failed_def)
  with r check_condition_limit [OF c] c show ?thesis
    by (simp add: evaluateCondition_def validateConditionTree_def max_nodes_def)
qed

definition sample_text :: js_text where
  "sample_text =
     \<lparr>jt_string_of_number = (\<lambda>_. ''0''), jt_number_of_string = (\<lambda>_. NaN), jt_time_of_string = (\<lambda>_. NaN),
      jt_collate = (\<lambda>_ _. 0)\<rparr>"

definition sample_condition :: json where
  "sample_condition =
     JObj [(''operator'', JStr ''all''), (''conditions'', JArr
       [JObj [(''operator'', JStr ''EQUALS''), (''attribute'', JStr ''actor.type''), (''value'', JStr ''user'')],
        JObj [(''type'', JStr ''not''), (''children'', JArr
          [JObj [(''operator'', JStr ''IN''), (''attribute'', JStr ''capability.sideEffect''),
                 (''value'', JArr [JStr ''DESTRUCTIVE''])]])]])]"

definition sample_attributes :: json where
  "sample_attributes =
     JObj [(''actor'', JObj [(''type'', JStr ''user'')]), (''capability'', JObj [(''sideEffect'', JStr ''NONE'')])]"

definition sample_policy :: "string \<Rightarrow> policy" where
  "sample_policy effect =
     \<lparr>po_stable_id = ''p1'', po_version = 1, po_name = ''p'', po_effect = effect, po_organization_id = ''o1'',
      po_workspace_id = None, po_target = Some (JObj [(''actorTypes'', JArr [JStr ''user''])]),
      po_condition = sample_condition, po_priority = None, po_bytes = Some 300\<rparr>"

definition sample_input :: policy_input where
  "sample_input =
     \<lparr>pi_permission = Some ''policy.read'', pi_permission_id = None, pi_resource_type = None,
      pi_resource_type_of_resource = None, pi_resource_id = None, pi_resource_id_of_resource = None,
      pi_actor_type = Some ''user'', pi_organization_id = Some ''o1'', pi_workspace_id = None, pi_passport_id = None,
      pi_connection_id = None, pi_capability_id = None, pi_capability_category = None,
      pi_capability_classification = None, pi_capability_side_effect = None, pi_environment = None\<rparr>"

lemma sample_condition_valid: "valid_condition sample_text sample_condition"
  by code_simp

lemma sample_policy_applies: "applies sample_text sample_input (sample_policy effect)"
  unfolding sample_policy_def by code_simp

lemma sample_policy_outcome: "fst (condition_outcome sample_text sample_attributes (sample_policy effect)) = Matched True"
  unfolding sample_policy_def by code_simp

theorem valid_condition_evaluates_witness:
  "snd (validateConditionTree sample_text sample_condition) = 4 \<and>
   (\<exists>r es. evaluateCondition sample_text sample_condition JNull True = Some (Evaluated r es) \<and> length es \<le> 4)"
proof -
  have n: "snd (validateConditionTree sample_text sample_condition) = 4" by code_simp
  with valid_condition_evaluates [OF sample_condition_valid, of JNull] show ?thesis unfolding n by blast
qed

theorem policy_decision_exact_witness:
  "de_reason (evaluatePolicySnapshot sample_text [sample_policy ''ALLOW'', sample_policy ''DENY''] sample_input
     sample_attributes 1) = ''POLICY_EXPLICIT_DENY''"
proof -
  let ?ps = "[sample_policy ''ALLOW'', sample_policy ''DENY'']"
  have eff: "po_effect (sample_policy ''DENY'') = ''DENY''" by (simp add: sample_policy_def)
  have "validatePolicyDocument sample_text (sample_policy ''ALLOW'') = []" "validatePolicyDocument sample_text (sample_policy ''DENY'') = []"
    by code_simp+
  then have "\<forall>p\<in>set ?ps. sound_policy sample_text sample_attributes p"
    by (simp add: sound_policy_def sample_policy_outcome is_failed_def)
  then have d: "dropWhile (sound_policy sample_text sample_attributes)
      (filter (applies sample_text sample_input) (sort_by (comparePolicies sample_text) ?ps)) = []"
    unfolding dropWhile_eq_Nil_conv by auto
  have "\<exists>p\<in>set ?ps. applies sample_text sample_input p
      \<and> po_effect p = ''DENY'' \<and> holds (fst (condition_outcome sample_text sample_attributes p))"
    using sample_policy_applies [of "''DENY''"] sample_policy_outcome [of "''DENY''"] eff by (simp add: holds_def)
  then show ?thesis
    using policy_decision_exact [of sample_text ?ps sample_input sample_attributes 1] unfolding Let_def d list.case by argo
qed

subsection \<open>The case of the effect\<close>

text \<open>
  The effect of a policy is validated without regard to case but decided on with it: a valid, applicable policy
  whose effect is DENY in other letters, and whose condition matches, does not deny the request.
\<close>

theorem lower_case_deny_is_ignored:
  assumes "validatePolicyDocument t p = []" "applies t i p" "condition_outcome t attributes p = (Matched True, es)"
    and "js_upper (po_effect p) = ''DENY''" "po_effect p \<noteq> ''DENY''"
  shows "de_allowed (evaluatePolicySnapshot t [p] i attributes revision)
    \<and> de_reason (evaluatePolicySnapshot t [p] i attributes revision) = ''NO_APPLICABLE_POLICY''"
proof -
  have "js_upper ''ALLOW'' \<noteq> ''DENY''" by code_simp
  with assms(4) have "po_effect p \<noteq> ''ALLOW''" by metis
  with assms show ?thesis
    by (simp add: evaluatePolicySnapshot_def sort_by_def decide_def Let_def policySummary_def)
qed

theorem lower_case_deny_is_ignored_witness:
  "de_allowed (evaluatePolicySnapshot sample_text [sample_policy ''deny''] sample_input sample_attributes 1)"
proof -
  obtain es where es: "condition_outcome sample_text sample_attributes (sample_policy ''deny'') = (Matched True, es)"
    using sample_policy_outcome by (metis prod.collapse)
  have "validatePolicyDocument sample_text (sample_policy ''deny'') = []" by code_simp
  moreover have "js_upper (po_effect (sample_policy ''deny'')) = ''DENY''" by code_simp
  moreover have "po_effect (sample_policy ''deny'') \<noteq> ''DENY''" by code_simp
  ultimately show ?thesis
    using lower_case_deny_is_ignored [OF _ sample_policy_applies es] by blast
qed

end
