(* ===== verification/Schema_Compatibility.thy ===== *)
theory Schema_Compatibility
  imports Safe_Json "HOL-Library.List_Lexorder" "HOL-Library.Char_ord"
begin

text \<open>
  Compatibility of JSON schemas (backend/src/services/schemaCompatibility.service.js): whether every value that a
  producer describes is one that a consumer accepts, decided on the schemas, and the sanitizer of
  published schemas. The JSON Schema compiler is the argument \<open>ajv\<close>, which says whether a schema compiles.

  \<^item> What the compiler guarantees of a schema is used when fields are read: \<open>required\<close> lists strings, bounds are
    numbers, and a subschema is an object or a boolean; other values read as missing, where the code
    would convert them or throw.
  \<^item> The values in a schema are finite JSON, so two of them print alike exactly when they are equal.
\<close>

subsection \<open>Fields of a schema\<close>

definition UNSUPPORTED_FEATURES :: "string list" where
  "UNSUPPORTED_FEATURES =
     [''$ref'', ''$dynamicRef'', ''allOf'', ''anyOf'', ''oneOf'', ''not'', ''if'', ''then'', ''else'', ''dependentSchemas'',
      ''patternProperties'', ''unevaluatedProperties'', ''contains'', ''prefixItems'', ''format'', ''pattern'']"

definition STRUCTURAL_KEYS :: "string list" where
  "STRUCTURAL_KEYS =
     [''type'', ''properties'', ''required'', ''additionalProperties'', ''items'', ''enum'', ''const'', ''minimum'',
      ''maximum'', ''exclusiveMinimum'', ''exclusiveMaximum'', ''minLength'', ''maxLength'', ''minItems'', ''maxItems'',
      ''format'', ''pattern'', ''nullable''] @ UNSUPPORTED_FEATURES"

definition field_of :: "json \<Rightarrow> string \<Rightarrow> json option" where
  "field_of v k = (case v of JObj fs \<Rightarrow> map_of fs k | _ \<Rightarrow> None)"

definition truthy_field :: "json \<Rightarrow> string \<Rightarrow> json option" where
  "truthy_field v k = (case field_of v k of Some w \<Rightarrow> if truthy w then Some w else None | None \<Rightarrow> None)"

definition list_field :: "json \<Rightarrow> string \<Rightarrow> json list option" where
  "list_field v k = (case field_of v k of Some (JArr xs) \<Rightarrow> Some xs | _ \<Rightarrow> None)"

definition properties_of :: "json \<Rightarrow> json" where
  "properties_of v = (case truthy_field v ''properties'' of Some w \<Rightarrow> w | None \<Rightarrow> JObj [])"

definition required_of :: "json \<Rightarrow> string list" where
  "required_of v =
     List.map_filter (\<lambda>x. case x of JStr s \<Rightarrow> Some s | _ \<Rightarrow> None) (case list_field v ''required'' of Some xs \<Rightarrow> xs | None \<Rightarrow> [])"

definition typeSet :: "json \<Rightarrow> json list option" where
  "typeSet schema =
     (let nullable = (field_of schema ''nullable'' = Some (JBool True));
          types = (case truthy_field schema ''type'' of
                     Some (JArr xs) \<Rightarrow> Some xs
                   | Some v \<Rightarrow> Some [v]
                   | None \<Rightarrow> if nullable then Some [JStr ''null''] else None)
      in map_option (\<lambda>ts. if nullable \<and> JStr ''null'' \<notin> set ts then ts @ [JStr ''null''] else ts) types)"

definition has_type_name :: "json list option \<Rightarrow> string \<Rightarrow> bool" where
  "has_type_name ts k = (case ts of None \<Rightarrow> False | Some xs \<Rightarrow> JStr k \<in> set xs)"

lemma size_field_of: "field_of v k = Some w \<Longrightarrow> size w < size v"
  using size_entries [of k w v] by (auto simp: field_of_def split: json.splits dest: map_of_SomeD)

lemma size_truthy_field: "truthy_field v k = Some w \<Longrightarrow> size w < size v"
  by (auto simp: truthy_field_def split: option.splits if_splits intro: size_field_of)

lemma size_properties_of: "(k, c) \<in> set (entries (properties_of v)) \<Longrightarrow> size c < size v"
  using size_truthy_field [of v "''properties''"] size_entries [of k c]
  by (fastforce simp: properties_of_def split: option.splits)

subsection \<open>Comparison\<close>

datatype finding = Incompatible string | Uncertain string

definition unsupported :: "json \<Rightarrow> string \<Rightarrow> finding list" where
  "unsupported schema path =
     map (\<lambda>k. Uncertain (''SCHEMA_FEATURE_UNSUPPORTED:'' @ path @ '':'' @ k))
       (filter (\<lambda>k. k \<in> set UNSUPPORTED_FEATURES) (map fst (entries schema)))"

definition mismatchCode :: "string \<Rightarrow> string \<Rightarrow> string" where
  "mismatchCode direction kind =
     (if kind = ''required''
      then (if direction = ''input'' then ''REQUIRED_INPUT_FIELD_UNSUPPORTED'' else ''REQUIRED_OUTPUT_FIELD_MISSING'')
      else if kind = ''type'' then (if direction = ''input'' then ''INPUT_TYPE_MISMATCH'' else ''OUTPUT_TYPE_MISMATCH'')
      else (if direction = ''input'' then ''INPUT_CONSTRAINT_MISMATCH'' else ''OUTPUT_CONSTRAINT_MISMATCH''))"

definition number_of :: "json \<Rightarrow> jsnum" where
  "number_of v = (case v of JNum n \<Rightarrow> n | _ \<Rightarrow> NaN)"

definition LOWER_BOUNDS :: "string list" where
  "LOWER_BOUNDS = [''minimum'', ''exclusiveMinimum'', ''minLength'', ''minItems'']"

definition UPPER_BOUNDS :: "string list" where
  "UPPER_BOUNDS = [''maximum'', ''exclusiveMaximum'', ''maxLength'', ''maxItems'']"

definition compare_bound :: "json \<Rightarrow> json \<Rightarrow> string \<Rightarrow> string \<Rightarrow> (jsnum \<Rightarrow> jsnum \<Rightarrow> bool) \<Rightarrow> string \<Rightarrow> finding list" where
  "compare_bound producer consumer direction path accepts k =
     (case field_of consumer k of
        None \<Rightarrow> []
      | Some c \<Rightarrow>
          (case field_of producer k of
             None \<Rightarrow> [Uncertain (''SCHEMA_COMPATIBILITY_UNCERTAIN:'' @ path @ '':'' @ k)]
           | Some p \<Rightarrow>
               if accepts (number_of p) (number_of c) then []
               else [Incompatible (mismatchCode direction ''constraint'' @ '':'' @ path @ '':'' @ k)]))"

definition compareBounds :: "json \<Rightarrow> json \<Rightarrow> string \<Rightarrow> string \<Rightarrow> finding list" where
  "compareBounds producer consumer direction path =
     concat (map (compare_bound producer consumer direction path (\<lambda>l r. js_le r l)) LOWER_BOUNDS)
     @ concat (map (compare_bound producer consumer direction path js_le) UPPER_BOUNDS)"

definition compare_values :: "json \<Rightarrow> json \<Rightarrow> string \<Rightarrow> string \<Rightarrow> finding list" where
  "compare_values producer consumer direction path =
     (case (list_field producer ''enum'', list_field consumer ''enum'') of
        (Some ps, Some cs) \<Rightarrow>
          if list_ex (\<lambda>v. v \<notin> set cs) ps
          then [Incompatible (mismatchCode direction ''constraint'' @ '':'' @ path @ '':enum'')] else []
      | _ \<Rightarrow>
          if truthy_field consumer ''enum'' \<noteq> None \<and> truthy_field producer ''enum'' = None
          then [Uncertain (''SCHEMA_COMPATIBILITY_UNCERTAIN:'' @ path @ '':enum'')] else [])
     @ (case field_of consumer ''const'' of
          None \<Rightarrow> []
        | Some c \<Rightarrow>
            (case field_of producer ''const'' of
               None \<Rightarrow> [Uncertain (''SCHEMA_COMPATIBILITY_UNCERTAIN:'' @ path @ '':const'')]
             | Some p \<Rightarrow>
                 if p = c then []
                 else [Incompatible (mismatchCode direction ''constraint'' @ '':'' @ path @ '':const'')]))
     @ compareBounds producer consumer direction path"

definition compare_required :: "json \<Rightarrow> json \<Rightarrow> string \<Rightarrow> string \<Rightarrow> finding list" where
  "compare_required producer consumer direction path =
     map (\<lambda>r. Incompatible (mismatchCode direction ''required'' @ '':'' @ path @ ''.'' @ r))
       (filter (\<lambda>r. own_property (properties_of producer) r = None \<or> r \<notin> set (required_of producer)) (required_of consumer))"

function compareSubset :: "json \<Rightarrow> json \<Rightarrow> string \<Rightarrow> string \<Rightarrow> finding list" where
  "compareSubset producer consumer direction path =
     (let features = unsupported producer path @ unsupported consumer path;
          rest = compare_values producer consumer direction path
            @ (if has_type_name (typeSet producer) ''object'' \<or> has_type_name (typeSet consumer) ''object''
               then compare_required producer consumer direction path
                 @ concat (map (\<lambda>(k, child).
                     case own_property (properties_of consumer) k of
                       Some c \<Rightarrow> compareSubset child c direction (field_path path k)
                     | None \<Rightarrow>
                         (case field_of consumer ''additionalProperties'' of
                            None \<Rightarrow> []
                          | Some a \<Rightarrow>
                              if a = JBool False
                              then [Incompatible (mismatchCode direction ''constraint'' @ '':'' @ field_path path k
                                     @ '':additionalProperties'')]
                              else if object_like a then compareSubset child a direction (field_path path k)
                              else []))
                   (entries (properties_of producer)))
                 @ (if field_of producer ''additionalProperties'' \<noteq> Some (JBool False)
                       \<and> field_of consumer ''additionalProperties'' = Some (JBool False)
                    then [Incompatible (mismatchCode direction ''constraint'' @ '':'' @ path @ '':additionalProperties'')]
                    else [])
               else [])
            @ (if has_type_name (typeSet producer) ''array'' \<or> has_type_name (typeSet consumer) ''array''
               then (case truthy_field consumer ''items'' of
                       None \<Rightarrow> []
                     | Some c \<Rightarrow>
                         (case truthy_field producer ''items'' of
                            None \<Rightarrow> [Uncertain (''SCHEMA_COMPATIBILITY_UNCERTAIN:'' @ path @ '':items'')]
                          | Some p \<Rightarrow> compareSubset p c direction (path @ ''[]'')))
               else [])
      in case (typeSet producer, typeSet consumer) of
           (Some ps, Some cs) \<Rightarrow>
             if list_ex (\<lambda>x. x \<notin> set cs) ps
             then features @ [Incompatible (mismatchCode direction ''type'' @ '':'' @ path)] else features @ rest
         | _ \<Rightarrow> features @ [Uncertain (''SCHEMA_COMPATIBILITY_UNCERTAIN:'' @ path @ '':type'')] @ rest)"
  by pat_completeness auto
termination
  by (relation "measure (\<lambda>(producer, consumer, direction, path). size producer)")
    (auto intro: size_properties_of size_truthy_field)

declare compareSubset.simps [simp del]

subsection \<open>The check\<close>

definition maximumSchemaBytes :: int where "maximumSchemaBytes = 250000"

definition validateSchema :: "(rat \<Rightarrow> nat) \<Rightarrow> (json \<Rightarrow> bool) \<Rightarrow> string \<Rightarrow> json \<Rightarrow> json res" where
  "validateSchema num_size ajv path schema =
     bindE (assertSafePayload num_size path schema) (\<lambda>_.
     bindE (ensure (case schema of JObj _ \<Rightarrow> True | _ \<Rightarrow> False) (App_Error 400 ''AGENT_SELECTION_SCHEMA_INVALID'' path)) (\<lambda>_.
     bindE (ensure (int (json_size num_size schema) \<le> maximumSchemaBytes)
       (App_Error 400 ''AGENT_SELECTION_SCHEMA_INVALID'' '''')) (\<lambda>_.
     bindE (ensure (ajv schema) (App_Error 400 ''AGENT_SELECTION_SCHEMA_INVALID'' path)) (\<lambda>_.
     cloneJson num_size schema))))"

function sanitize :: "json \<Rightarrow> string \<Rightarrow> json" where
  "sanitize v key =
     (case v of
        JArr xs \<Rightarrow> JArr (map (\<lambda>x. sanitize x '''') xs)
      | JObj fs \<Rightarrow>
          JObj (map (\<lambda>(k, c). (k, sanitize c (if key = ''properties'' then '''' else k)))
            (filter (\<lambda>(k, c). key = ''properties'' \<or> k \<in> set STRUCTURAL_KEYS) fs))
      | _ \<Rightarrow> v)"
  by pat_completeness auto
termination
proof (relation "measure (\<lambda>(v, key). size v)", goal_cases)
  case (2 v key xs x)
  then show ?case using size_list_estimation' [of x xs "size x" size] by auto
next
  case (3 v key fs x k c)
  then show ?case using size_entries [of k c v] by auto
qed simp

declare sanitize.simps [simp del]

definition sanitizeSchema :: "(rat \<Rightarrow> nat) \<Rightarrow> (json \<Rightarrow> bool) \<Rightarrow> string \<Rightarrow> json \<Rightarrow> json res" where
  "sanitizeSchema num_size ajv path schema =
     bindE (validateSchema num_size ajv path schema) (\<lambda>_. Inr (sanitize schema ''''))"

definition is_incompatible :: "finding \<Rightarrow> bool" where
  "is_incompatible f = (case f of Incompatible _ \<Rightarrow> True | Uncertain _ \<Rightarrow> False)"

definition finding_text :: "finding \<Rightarrow> string" where
  "finding_text f = (case f of Incompatible s \<Rightarrow> s | Uncertain s \<Rightarrow> s)"

definition publicReasons :: "finding list \<Rightarrow> string list" where
  "publicReasons fs = sort (unique_list (map (\<lambda>f. takeWhile (\<lambda>c. c \<noteq> CHR '':'') (finding_text f)) fs))"

record compatibility =
  cp_status :: string
  cp_reasons :: "string list"

definition compatibility_of :: "finding list \<Rightarrow> compatibility" where
  "compatibility_of fs =
     (if list_ex is_incompatible fs
      then \<lparr>cp_status = ''incompatible'', cp_reasons = publicReasons (filter is_incompatible fs)\<rparr>
      else if fs \<noteq> [] then \<lparr>cp_status = ''uncertain'', cp_reasons = publicReasons fs\<rparr>
      else \<lparr>cp_status = ''compatible'', cp_reasons = [''SCHEMA_COMPATIBLE'']\<rparr>)"

definition schema_path :: "nat \<Rightarrow> string" where
  "schema_path i = index_path ''$schemas'' (nat_str i)"

definition checkSchemaCompatibility ::
  "(rat \<Rightarrow> nat) \<Rightarrow> (json \<Rightarrow> bool) \<Rightarrow> json \<Rightarrow> json \<Rightarrow> json \<Rightarrow> json \<Rightarrow> compatibility res" where
  "checkSchemaCompatibility num_size ajv request_input candidate_input candidate_output required_output =
     bindE (mapE (\<lambda>(i, s). validateSchema num_size ajv (schema_path i) s)
         (zip [0..<4] [request_input, candidate_input, candidate_output, required_output])) (\<lambda>_.
     Inr (compatibility_of
       (compareSubset request_input candidate_input ''input'' ''$input''
        @ compareSubset candidate_output required_output ''output'' ''$output'')))"

subsection \<open>What a schema means\<close>

text \<open>
  Validation of a value against the keywords that the comparison reads, as JSON Schema defines them; \<open>extra\<close> is the rest
  of the keywords and \<open>equal\<close> the equality of values that \<open>enum\<close> and \<open>const\<close> use.
\<close>

definition json_type :: "json \<Rightarrow> json \<Rightarrow> bool" where
  "json_type ty v =
     (case v of
        JNull \<Rightarrow> ty = JStr ''null''
      | JBool _ \<Rightarrow> ty = JStr ''boolean''
      | JNum n \<Rightarrow> ty = JStr ''number'' \<or> ty = JStr ''integer'' \<and> js_integer n \<noteq> None
      | JStr _ \<Rightarrow> ty = JStr ''string''
      | JArr _ \<Rightarrow> ty = JStr ''array''
      | JObj _ \<Rightarrow> ty = JStr ''object'')"

definition type_ok :: "json \<Rightarrow> json \<Rightarrow> bool" where
  "type_ok s v = (case typeSet s of None \<Rightarrow> True | Some ts \<Rightarrow> list_ex (\<lambda>ty. json_type ty v) ts)"

definition value_ok :: "(json \<Rightarrow> json \<Rightarrow> bool) \<Rightarrow> json \<Rightarrow> json \<Rightarrow> bool" where
  "value_ok equal s v \<longleftrightarrow>
     (case list_field s ''enum'' of None \<Rightarrow> True | Some es \<Rightarrow> list_ex (\<lambda>e. equal e v) es)
     \<and> (case field_of s ''const'' of None \<Rightarrow> True | Some c \<Rightarrow> equal c v)"

text \<open>The number that a bound constrains, and whether it is within.\<close>

definition measured :: "string \<Rightarrow> json \<Rightarrow> jsnum option" where
  "measured k v =
     (case v of
        JNum n \<Rightarrow> if k \<in> {''minimum'', ''maximum'', ''exclusiveMinimum'', ''exclusiveMaximum''} then Some n else None
      | JStr s \<Rightarrow> if k \<in> {''minLength'', ''maxLength''} then Some (num_of_int (int (length s))) else None
      | JArr xs \<Rightarrow> if k \<in> {''minItems'', ''maxItems''} then Some (num_of_int (int (length xs))) else None
      | _ \<Rightarrow> None)"

definition in_bound :: "string \<Rightarrow> jsnum \<Rightarrow> jsnum \<Rightarrow> bool" where
  "in_bound k b n \<longleftrightarrow>
     (k \<in> {''exclusiveMinimum'', ''exclusiveMaximum''} \<longrightarrow> b \<noteq> n)
     \<and> (if k \<in> set LOWER_BOUNDS then js_le b n else js_le n b)"

definition bounds_ok :: "json \<Rightarrow> json \<Rightarrow> bool" where
  "bounds_ok s v =
     list_all (\<lambda>k. case (field_of s k, measured k v) of
         (Some b, Some n) \<Rightarrow> in_bound k (number_of b) n | _ \<Rightarrow> True) (LOWER_BOUNDS @ UPPER_BOUNDS)"

function conforms :: "(json \<Rightarrow> json \<Rightarrow> bool) \<Rightarrow> (json \<Rightarrow> json \<Rightarrow> bool) \<Rightarrow> json \<Rightarrow> json \<Rightarrow> bool" where
  "conforms equal extra s v =
     (case s of
        JBool b \<Rightarrow> b
      | JObj _ \<Rightarrow>
          type_ok s v \<and> value_ok equal s v \<and> bounds_ok s v \<and> extra s v
          \<and> (case v of
               JObj ws \<Rightarrow>
                 list_all (\<lambda>r. r \<in> fst ` set ws) (required_of s)
                 \<and> list_all (\<lambda>(k, w).
                      case field_of (properties_of s) k of
                        Some c \<Rightarrow> conforms equal extra c w
                      | None \<Rightarrow>
                          (case field_of s ''additionalProperties'' of
                             Some a \<Rightarrow> conforms equal extra a w | None \<Rightarrow> True)) ws
             | JArr xs \<Rightarrow>
                 (case field_of s ''items'' of
                    Some i \<Rightarrow> list_all (\<lambda>x. conforms equal extra i x) xs | None \<Rightarrow> True)
             | _ \<Rightarrow> True)
      | _ \<Rightarrow> True)"
  by pat_completeness auto

lemma size_field_of_properties: "field_of (properties_of s) k = Some c \<Longrightarrow> size c < size s"
  by (rule size_properties_of) (auto simp: field_of_def split: json.splits dest: map_of_SomeD)

termination conforms
  by (relation "measure (\<lambda>(equal, extra, s, v). size s)")
    (auto dest: size_field_of size_field_of_properties)

declare conforms.simps [simp del]

text \<open>Shape that the compiler guarantees.\<close>

definition regular :: "json \<Rightarrow> bool" where
  "regular s \<longleftrightarrow>
     (field_of s ''enum'' = None \<or> list_field s ''enum'' \<noteq> None)
     \<and> (case field_of s ''properties'' of None \<Rightarrow> True | Some (JObj _) \<Rightarrow> True | _ \<Rightarrow> False)"

text \<open>A closed schema describes no objects with properties that it does not list, at any depth; a plain one uses only the
  keywords that the sanitizer keeps and does not forbid items.\<close>

function closed :: "json \<Rightarrow> bool" where
  "closed s =
     (case s of
        JObj _ \<Rightarrow>
          regular s
          \<and> (has_type_name (typeSet s) ''object'' \<longrightarrow> field_of s ''additionalProperties'' = Some (JBool False))
          \<and> list_all (\<lambda>(k, c). closed c) (entries (properties_of s))
          \<and> (case field_of s ''items'' of None \<Rightarrow> True | Some i \<Rightarrow> closed i)
      | _ \<Rightarrow> True)"
  by pat_completeness auto
termination
  by (relation "measure size") (auto dest: size_field_of size_properties_of)

function plain :: "json \<Rightarrow> bool" where
  "plain s =
     (case s of
        JObj fs \<Rightarrow>
          regular s
          \<and> list_all (\<lambda>(k, _). k \<in> set STRUCTURAL_KEYS) fs
          \<and> field_of s ''items'' \<noteq> Some (JBool False)
          \<and> list_all (\<lambda>(k, c). plain c) (entries (properties_of s))
          \<and> (case field_of s ''items'' of None \<Rightarrow> True | Some i \<Rightarrow> plain i)
          \<and> (case field_of s ''additionalProperties'' of None \<Rightarrow> True | Some a \<Rightarrow> plain a)
      | _ \<Rightarrow> True)"
  by pat_completeness auto
termination
  by (relation "measure size") (auto dest: size_field_of size_properties_of)

declare closed.simps [simp del] plain.simps [simp del]

subsection \<open>Compatibility is sound for closed producers\<close>

text \<open>What a comparison without findings says of the two schemas.\<close>

lemma compareSubset_types:
  assumes "compareSubset p c dir path = []"
  obtains ps cs where "typeSet p = Some ps" "typeSet c = Some cs" "set ps \<subseteq> set cs"
proof (cases "typeSet p")
  case None
  with assms show ?thesis by (simp add: compareSubset.simps [of p c] Let_def)
next
  case (Some ps)
  show ?thesis
  proof (cases "typeSet c")
    case None
    with assms Some show ?thesis by (simp add: compareSubset.simps [of p c] Let_def)
  next
    case (Some cs)
    with assms \<open>typeSet p = Some ps\<close> have "\<not> list_ex (\<lambda>x. x \<notin> set cs) ps"
      by (auto simp: compareSubset.simps [of p c] Let_def split: if_splits)
    then have "set ps \<subseteq> set cs" by (auto simp: list_ex_iff)
    with that Some \<open>typeSet p = Some ps\<close> show ?thesis by blast
  qed
qed

lemma compareSubset_rest:
  assumes f: "compareSubset p c dir path = []"
  shows "unsupported c path = []" "compare_values p c dir path = []"
    and "has_type_name (typeSet p) ''object'' \<Longrightarrow>
      compare_required p c dir path = []
      \<and> (\<forall>(k, child)\<in>set (entries (properties_of p)).
           (case own_property (properties_of c) k of
              Some d \<Rightarrow> compareSubset child d dir (field_path path k) = []
            | None \<Rightarrow> (\<forall>a. field_of c ''additionalProperties'' = Some a \<longrightarrow>
                a \<noteq> JBool False \<and> (object_like a \<longrightarrow> compareSubset child a dir (field_path path k) = []))))"
    and "has_type_name (typeSet p) ''array'' \<Longrightarrow> truthy_field c ''items'' = Some i \<Longrightarrow>
      \<exists>j. truthy_field p ''items'' = Some j \<and> compareSubset j i dir (path @ ''[]'') = []"
proof -
  obtain ps cs where ty: "typeSet p = Some ps" "typeSet c = Some cs" "\<not> list_ex (\<lambda>x. x \<notin> set cs) ps"
    using compareSubset_types [OF f] by (metis (mono_tags, lifting) list_ex_iff subset_eq)
  note r = f [unfolded compareSubset.simps [of p c] Let_def ty(1,2) option.case prod.case if_not_P [OF ty(3)] append_is_Nil_conv]
  from r show "unsupported c path = []" "compare_values p c dir path = []" by blast+
  show "compare_required p c dir path = []
      \<and> (\<forall>(k, child)\<in>set (entries (properties_of p)).
           (case own_property (properties_of c) k of
              Some d \<Rightarrow> compareSubset child d dir (field_path path k) = []
            | None \<Rightarrow> (\<forall>a. field_of c ''additionalProperties'' = Some a \<longrightarrow>
                a \<noteq> JBool False \<and> (object_like a \<longrightarrow> compareSubset child a dir (field_path path k) = []))))"
    if "has_type_name (typeSet p) ''object''"
    using r that ty(1,2) by (auto split: option.splits if_splits)
  show "\<exists>j. truthy_field p ''items'' = Some j \<and> compareSubset j i dir (path @ ''[]'') = []"
    if "has_type_name (typeSet p) ''array''" "truthy_field c ''items'' = Some i"
    using r that ty(1,2) by (cases "truthy_field p ''items''") simp_all
qed

lemma typeSet_object: "typeSet s = Some ts \<Longrightarrow> \<exists>fs. s = JObj fs"
  by (cases s) (simp_all add: typeSet_def truthy_field_def field_of_def)

lemma js_le_trans: "js_le a b \<Longrightarrow> js_le b c \<Longrightarrow> js_le a c"
  by (cases a; cases b; cases c) simp_all

lemma js_le_antisym: "js_le a b \<Longrightarrow> js_le b a \<Longrightarrow> a = b"
  by (cases a; cases b) simp_all

lemma in_bound_mono:
  assumes n: "in_bound k b n" and c: "if k \<in> set LOWER_BOUNDS then js_le c b else js_le b c"
  shows "in_bound k c n"
proof (cases "k \<in> set LOWER_BOUNDS")
  case True
  then have le: "js_le b n" "js_le c b" using n c unfolding in_bound_def by (simp_all only: if_True simp_thms)
  then have "js_le c n" using js_le_trans by blast
  moreover have "c \<noteq> n" if "b \<noteq> n" using that le js_le_antisym by blast
  ultimately show ?thesis using n True unfolding in_bound_def by (simp only: if_True simp_thms) blast
next
  case False
  then have le: "js_le n b" "js_le b c" using n c unfolding in_bound_def by (simp_all only: if_False simp_thms)
  then have "js_le n c" using js_le_trans by blast
  moreover have "c \<noteq> n" if "b \<noteq> n" using that le js_le_antisym by blast
  ultimately show ?thesis using n False unfolding in_bound_def by (simp only: if_False simp_thms) blast
qed

lemma bounds_disjoint: "k \<in> set UPPER_BOUNDS \<Longrightarrow> k \<notin> set LOWER_BOUNDS"
  unfolding UPPER_BOUNDS_def LOWER_BOUNDS_def by auto

lemma compareBounds_sound:
  assumes "compareBounds p c dir path = []" "bounds_ok p v"
  shows "bounds_ok c v"
proof -
  have "in_bound k (number_of b) n"
    if k: "k \<in> set (LOWER_BOUNDS @ UPPER_BOUNDS)" and b: "field_of c k = Some b" and n: "measured k v = Some n" for k b n
  proof -
    from assms(1) k bounds_disjoint have "compare_bound p c dir path
        (if k \<in> set LOWER_BOUNDS then (\<lambda>l r. js_le r l) else js_le) k = []"
      by (auto simp: compareBounds_def)
    with b obtain d where d: "field_of p k = Some d"
      "if k \<in> set LOWER_BOUNDS then js_le (number_of b) (number_of d) else js_le (number_of d) (number_of b)"
      by (auto simp: compare_bound_def split: option.splits if_splits)
    from assms(2) k d(1) n have "in_bound k (number_of d) n"
      unfolding bounds_ok_def list_all_iff by fastforce
    from in_bound_mono [OF this d(2)] show ?thesis .
  qed
  then show ?thesis unfolding bounds_ok_def list_all_iff by (auto split: option.split)
qed

lemma compare_values_sound:
  assumes f: "compare_values p c dir path = []" and p: "regular p" and v: "value_ok equal p v" "bounds_ok p v"
  shows "value_ok equal c v" "bounds_ok c v"
proof -
  have "list_ex (\<lambda>e. equal e v) es" if es: "list_field c ''enum'' = Some es" for es
  proof -
    from es have "truthy_field c ''enum'' \<noteq> None"
      by (auto simp: list_field_def truthy_field_def truthy_def split: option.splits json.splits)
    with f es p have "\<exists>ps. list_field p ''enum'' = Some ps"
      by (auto simp: compare_values_def regular_def truthy_field_def split: option.splits if_splits)
    then obtain ps where ps: "list_field p ''enum'' = Some ps" by blast
    with f es have "set ps \<subseteq> set es" by (auto simp: compare_values_def list_ex_iff split: if_splits)
    moreover have "list_ex (\<lambda>e. equal e v) ps" using v(1) ps by (simp add: value_ok_def)
    ultimately show ?thesis by (auto simp: list_ex_iff)
  qed
  moreover have "equal d v" if "field_of c ''const'' = Some d" for d
    using f that v(1) by (auto simp: compare_values_def value_ok_def split: option.splits if_splits)
  ultimately show "value_ok equal c v" by (auto simp: value_ok_def split: option.split)
  show "bounds_ok c v" using f v(2) compareBounds_sound [of p c dir path v] by (simp add: compare_values_def)
qed

text \<open>The keywords that the comparison reads, and what the remaining keywords may not do to a schema that has none of them.\<close>

definition only_compared :: "json \<Rightarrow> bool" where
  "only_compared s \<longleftrightarrow> (\<forall>k\<in>fst ` set (entries s). k \<in> set STRUCTURAL_KEYS \<and> k \<notin> set UNSUPPORTED_FEATURES)"

definition silent :: "(json \<Rightarrow> json \<Rightarrow> bool) \<Rightarrow> bool" where
  "silent extra \<longleftrightarrow> (\<forall>s v. only_compared s \<longrightarrow> extra s v)"

lemma plain_only_compared: "plain (JObj fs) \<Longrightarrow> unsupported (JObj fs) path = [] \<Longrightarrow> only_compared (JObj fs)"
  by (fastforce simp: plain.simps [of "JObj fs"] unsupported_def only_compared_def list_all_iff filter_empty_conv)

lemma json_type_object: "json_type ty (JObj ws) \<longleftrightarrow> ty = JStr ''object''"
  and json_type_array: "json_type ty (JArr xs) \<longleftrightarrow> ty = JStr ''array''"
  by (simp_all add: json_type_def)

lemma type_ok_object: "type_ok s (JObj ws) \<Longrightarrow> typeSet s = Some ts \<Longrightarrow> has_type_name (typeSet s) ''object''"
  by (auto simp: type_ok_def has_type_name_def list_ex_iff json_type_object)

lemma type_ok_array: "type_ok s (JArr xs) \<Longrightarrow> typeSet s = Some ts \<Longrightarrow> has_type_name (typeSet s) ''array''"
  by (auto simp: type_ok_def has_type_name_def list_ex_iff json_type_array)

lemma properties_object: "regular s \<Longrightarrow> \<exists>fs. properties_of s = JObj fs"
  by (auto simp: regular_def properties_of_def truthy_field_def split: option.splits json.splits)

lemma conforms_JObj:
  "conforms equal extra (JObj fs) v \<longleftrightarrow>
     type_ok (JObj fs) v \<and> value_ok equal (JObj fs) v \<and> bounds_ok (JObj fs) v \<and> extra (JObj fs) v
     \<and> (\<forall>ws. v = JObj ws \<longrightarrow>
          set (required_of (JObj fs)) \<subseteq> fst ` set ws
          \<and> (\<forall>(k, w)\<in>set ws. case field_of (properties_of (JObj fs)) k of
               Some c \<Rightarrow> conforms equal extra c w
             | None \<Rightarrow> (\<forall>a. field_of (JObj fs) ''additionalProperties'' = Some a \<longrightarrow> conforms equal extra a w)))
     \<and> (\<forall>xs i. v = JArr xs \<longrightarrow> field_of (JObj fs) ''items'' = Some i \<longrightarrow> (\<forall>x\<in>set xs. conforms equal extra i x))"
  by (cases v)
    (simp_all only: conforms.simps [of equal extra "JObj fs"] json.case json.distinct json.inject simp_thms list_all_iff,
      auto split: option.splits)

lemma conforms_JObjD:
  assumes "conforms equal extra (JObj fs) v"
  shows "type_ok (JObj fs) v" "value_ok equal (JObj fs) v" "bounds_ok (JObj fs) v"
  using assms unfolding conforms_JObj by blast+

lemma conforms_items:
  "conforms equal extra (JObj fs) (JArr xs) \<Longrightarrow> field_of (JObj fs) ''items'' = Some i \<Longrightarrow> x \<in> set xs \<Longrightarrow> conforms equal extra i x"
  unfolding conforms_JObj by blast

lemma conforms_scalar:
  "conforms equal extra JNull v" "conforms equal extra (JBool b) v \<longleftrightarrow> b" "conforms equal extra (JNum n) v"
  "conforms equal extra (JStr t) v" "conforms equal extra (JArr xs) v"
  by (simp_all add: conforms.simps)

lemma conforms_falsy: "\<not> truthy s \<Longrightarrow> s \<noteq> JBool False \<Longrightarrow> conforms equal extra s v"
  by (cases s) (auto simp: conforms_scalar truthy_def)

lemma conforms_other: "\<not> object_like s \<Longrightarrow> s \<noteq> JBool False \<Longrightarrow> conforms equal extra s v"
  by (cases s) (auto simp: conforms_scalar object_like_def)

lemma field_of_entries: "field_of (JObj ps) k = Some c \<Longrightarrow> (k, c) \<in> set (entries (JObj ps))"
  by (auto simp: field_of_def dest: map_of_SomeD)

lemma field_of_own: "field_of (JObj ps) k = own_property (JObj ps) k"
  by (simp add: field_of_def own_property_def)

lemma closed_JObj:
  assumes "closed (JObj fs)"
  shows "regular (JObj fs)"
    and "has_type_name (typeSet (JObj fs)) ''object'' \<Longrightarrow> field_of (JObj fs) ''additionalProperties'' = Some (JBool False)"
    and "(k, c) \<in> set (entries (properties_of (JObj fs))) \<Longrightarrow> closed c"
    and "field_of (JObj fs) ''items'' = Some i \<Longrightarrow> closed i"
  using assms unfolding closed.simps [of "JObj fs"] by (auto simp: list_all_iff)

lemma plain_JObj:
  assumes "plain (JObj fs)"
  shows "regular (JObj fs)" and "field_of (JObj fs) ''items'' \<noteq> Some (JBool False)"
    and "(k, c) \<in> set (entries (properties_of (JObj fs))) \<Longrightarrow> plain c"
    and "field_of (JObj fs) ''items'' = Some i \<Longrightarrow> plain i"
    and "field_of (JObj fs) ''additionalProperties'' = Some a \<Longrightarrow> plain a"
  using assms unfolding plain.simps [of "JObj fs"] by (auto simp: list_all_iff)

lemma truthy_field_Some: "truthy_field s k = Some w \<longleftrightarrow> field_of s k = Some w \<and> truthy w"
  by (auto simp: truthy_field_def split: option.splits)

lemma conforms_False: "\<not> conforms equal extra (JBool False) v"
  by (simp add: conforms_scalar)

text \<open>The property of an object of a closed producer is listed by it.\<close>

lemma closed_listed:
  assumes p: "conforms equal extra (JObj fs) (JObj ws)" and "closed (JObj fs)" and "typeSet (JObj fs) = Some ts"
    and "(k, w) \<in> set ws"
  obtains child where "(k, child) \<in> set (entries (properties_of (JObj fs)))" "conforms equal extra child w"
proof -
  have "field_of (JObj fs) ''additionalProperties'' = Some (JBool False)"
    using closed_JObj(2) [OF assms(2)] type_ok_object [OF conforms_JObjD(1) [OF p] assms(3)] by blast
  with p assms(4) conforms_False obtain child where
    c: "field_of (properties_of (JObj fs)) k = Some child" "conforms equal extra child w"
    unfolding conforms_JObj by (fastforce split: option.splits)
  moreover obtain ps where "properties_of (JObj fs) = JObj ps" using properties_object closed_JObj(1) [OF assms(2)] by blast
  ultimately show ?thesis using that field_of_entries by metis
qed


lemma compareSubset_sound:
  assumes silent: "silent extra"
  shows "compareSubset p c dir path = [] \<Longrightarrow> closed p \<Longrightarrow> plain c \<Longrightarrow> conforms equal extra p v \<Longrightarrow>
    conforms equal extra c v"
proof (induction p arbitrary: c path v rule: measure_induct_rule [of size])
  case (less p)
  note cmp = less.prems(1)
  obtain ps cs where ty: "typeSet p = Some ps" "typeSet c = Some cs" "set ps \<subseteq> set cs"
    using compareSubset_types [OF cmp] .
  obtain fs gs where obj: "p = JObj fs" "c = JObj gs" using ty typeSet_object by metis
  note rest = compareSubset_rest [OF cmp]
  note cl = closed_JObj [OF less.prems(2) [unfolded obj(1)]]
  note pl = plain_JObj [OF less.prems(3) [unfolded obj(2)]]
  note conf = less.prems(4) [unfolded obj(1)]
  have "type_ok c v" using conforms_JObjD(1) [OF conf] ty obj by (auto simp: type_ok_def list_ex_iff)
  moreover have "value_ok equal c v" "bounds_ok c v"
    using compare_values_sound [OF rest(2), of equal v] cl(1) conforms_JObjD(2,3) [OF conf] obj by simp_all
  moreover have "extra c v"
    using silent plain_only_compared [of gs path] less.prems(3) rest(1) obj by (simp add: silent_def)
  moreover have "set (required_of c) \<subseteq> fst ` set ws \<and> (\<forall>(k, w)\<in>set ws. case field_of (properties_of c) k of
               Some d \<Rightarrow> conforms equal extra d w
             | None \<Rightarrow> (\<forall>a. field_of c ''additionalProperties'' = Some a \<longrightarrow> conforms equal extra a w))"
    if v: "v = JObj ws" for ws
  proof
    have "has_type_name (typeSet p) ''object''"
      using type_ok_object conforms_JObjD(1) [OF conf] ty(1) v obj(1) by blast
    note o = rest(3) [OF this]
    have "set (required_of c) \<subseteq> set (required_of p)"
      using o by (auto simp: compare_required_def filter_empty_conv)
    moreover have "set (required_of p) \<subseteq> fst ` set ws" using conf v obj(1) unfolding conforms_JObj by blast
    ultimately show "set (required_of c) \<subseteq> fst ` set ws" by blast
    obtain qs where qs: "properties_of c = JObj qs" using properties_object pl(1) obj(2) by blast
    have "case field_of (properties_of c) k of
               Some d \<Rightarrow> conforms equal extra d w
             | None \<Rightarrow> (\<forall>a. field_of c ''additionalProperties'' = Some a \<longrightarrow> conforms equal extra a w)"
      if kw: "(k, w) \<in> set ws" for k w
    proof -
      obtain child where ch: "(k, child) \<in> set (entries (properties_of p))" "conforms equal extra child w"
        using closed_listed [OF conf [unfolded v] less.prems(2) [unfolded obj(1)] ty(1) [unfolded obj(1)] kw] obj(1) by metis
      have size: "size child < size p" using ch(1) by (rule size_properties_of)
      have closed: "closed child" using cl(3) ch(1) obj(1) by blast
      note step = less.IH [OF size _ closed _ ch(2)]
      from o ch(1) have cases: "case own_property (properties_of c) k of
            Some d \<Rightarrow> compareSubset child d dir (field_path path k) = []
          | None \<Rightarrow> (\<forall>a. field_of c ''additionalProperties'' = Some a \<longrightarrow>
              a \<noteq> JBool False \<and> (object_like a \<longrightarrow> compareSubset child a dir (field_path path k) = []))" by blast
      show ?thesis
      proof (cases "field_of (properties_of c) k")
        case (Some d)
        then have "plain d" using pl(3) field_of_entries [of qs] qs obj(2) by metis
        with Some cases step qs show ?thesis by (simp add: field_of_own)
      next
        case None
        have "conforms equal extra a w" if a: "field_of c ''additionalProperties'' = Some a" for a
        proof (cases "object_like a")
          case True
          with a None cases pl(5) qs obj(2) have "compareSubset child a dir (field_path path k) = []" "plain a"
            by (simp_all add: field_of_own)
          then show ?thesis by (rule step)
        next
          case False
          with a None cases qs show ?thesis by (intro conforms_other) (simp_all add: field_of_own)
        qed
        with None show ?thesis by simp
      qed
    qed
    then show "\<forall>(k, w)\<in>set ws. case field_of (properties_of c) k of
               Some d \<Rightarrow> conforms equal extra d w
             | None \<Rightarrow> (\<forall>a. field_of c ''additionalProperties'' = Some a \<longrightarrow> conforms equal extra a w)" by blast
  qed
  moreover have "conforms equal extra i x"
    if v: "v = JArr xs" and i: "field_of c ''items'' = Some i" and x: "x \<in> set xs" for xs i x
  proof (cases "truthy i")
    case False
    with pl(2) i obj(2) show ?thesis by (intro conforms_falsy) auto
  next
    case True
    have "has_type_name (typeSet p) ''array''"
      using type_ok_array conforms_JObjD(1) [OF conf] ty(1) v obj(1) by blast
    from rest(4) [OF this] True i obtain j where
      j: "field_of p ''items'' = Some j" "compareSubset j i dir (path @ ''[]'') = []"
      by (auto simp: truthy_field_Some)
    have "conforms equal extra j x" using conf j(1) v x obj(1) conforms_items by blast
    with less.IH [OF size_field_of [OF j(1)] j(2)] cl(4) pl(4) i j(1) obj show ?thesis by blast
  qed
  ultimately show ?case unfolding obj(2) conforms_JObj by blast
qed


definition sample_closed :: json where
  "sample_closed =
     JObj [(''type'', JStr ''object''), (''required'', JArr [JStr ''age'']), (''additionalProperties'', JBool False),
       (''properties'', JObj [(''age'', JObj [(''type'', JStr ''integer''), (''minimum'', JNum (Fin 1))])])]"

definition sample_accepting :: json where
  "sample_accepting =
     JObj [(''type'', JStr ''object''), (''required'', JArr [JStr ''age'']),
       (''properties'', JObj [(''age'', JObj [(''type'', JArr [JStr ''integer'', JStr ''string'']), (''minimum'', JNum (Fin 0))])])]"

lemma validateSchema_accepts:
  assumes "clean (JObj fs)" "int (json_size num_size (JObj fs)) \<le> maximumSchemaBytes" "ajv (JObj fs)"
  shows "validateSchema num_size ajv path (JObj fs) = Inr (JObj fs)"
proof -
  have "int (json_size num_size (JObj fs)) \<le> maximumPayloadBytes"
    using assms(2) by (simp add: maximumSchemaBytes_def maximumPayloadBytes_def)
  with assms have "assertSafePayload num_size p (JObj fs) = Inr (JObj fs)" "cloneJson num_size (JObj fs) = Inr (JObj fs)" for p
    by (simp_all add: assertSafePayload_Inr cloneJson_Inr)
  with assms(2,3) show ?thesis by (simp add: validateSchema_def)
qed

definition acceptable :: "json \<Rightarrow> bool" where
  "acceptable s \<longleftrightarrow> clean s \<and> int (json_size (\<lambda>_. 1) s) \<le> maximumSchemaBytes \<and> (case s of JObj _ \<Rightarrow> True | _ \<Rightarrow> False)"

lemma checkSchemaCompatibility_accepts:
  assumes "acceptable ri" "acceptable ci" "acceptable co" "acceptable ro"
  shows "checkSchemaCompatibility (\<lambda>_. 1) (\<lambda>_. True) ri ci co ro = Inr (compatibility_of
      (compareSubset ri ci ''input'' ''$input'' @ compareSubset co ro ''output'' ''$output''))"
proof -
  have "validateSchema (\<lambda>_. 1) (\<lambda>_. True) path s = Inr s" if "acceptable s" for path s
    using that validateSchema_accepts [of _ "\<lambda>_. 1" "\<lambda>_. True" path] by (cases s) (auto simp: acceptable_def)
  with assms show ?thesis
    by (simp add: checkSchemaCompatibility_def upt_conv_Cons bindE_def)
qed

lemma sample_schemas_acceptable: "acceptable sample_closed" "acceptable sample_accepting"
  by code_simp+

lemma sample_comparison: "compareSubset sample_closed sample_accepting direction path = []"
  unfolding sample_closed_def sample_accepting_def by code_simp

lemma sample_schemas_compatible:
  "checkSchemaCompatibility (\<lambda>_. 1) (\<lambda>_. True) sample_closed sample_accepting sample_closed sample_accepting
     = Inr \<lparr>cp_status = ''compatible'', cp_reasons = [''SCHEMA_COMPATIBLE'']\<rparr>"
  using checkSchemaCompatibility_accepts sample_schemas_acceptable
  by (simp add: sample_comparison compatibility_of_def)


text \<open>
  Without the closedness of the producer the verdict is wrong: a producer that leaves its objects open is reported
  compatible with a consumer that restricts a property the producer does not list, although the producer describes
  a value the consumer rejects.
\<close>

theorem open_producer_is_misjudged:
  "checkSchemaCompatibility (\<lambda>_. 1) (\<lambda>_. True) (JObj [(''type'', JStr ''object'')]) (JObj [(''type'', JStr ''object''),
       (''properties'', JObj [(''age'', JObj [(''type'', JStr ''integer'')])])]) sample_closed sample_accepting
     = Inr \<lparr>cp_status = ''compatible'', cp_reasons = [''SCHEMA_COMPATIBLE'']\<rparr>
   \<and> conforms (=) (\<lambda>_ _. True) (JObj [(''type'', JStr ''object'')]) (JObj [(''age'', JStr ''x'')])
   \<and> \<not> conforms (=) (\<lambda>_ _. True) (JObj [(''type'', JStr ''object''),
       (''properties'', JObj [(''age'', JObj [(''type'', JStr ''integer'')])])]) (JObj [(''age'', JStr ''x'')])"
proof (intro conjI)
  have a: "acceptable (JObj [(''type'', JStr ''object'')])" "acceptable (JObj [(''type'', JStr ''object''),
       (''properties'', JObj [(''age'', JObj [(''type'', JStr ''integer'')])])])" by code_simp+
  have "compareSubset (JObj [(''type'', JStr ''object'')]) (JObj [(''type'', JStr ''object''),
       (''properties'', JObj [(''age'', JObj [(''type'', JStr ''integer'')])])]) ''input'' ''$input'' = []" by code_simp
  then show "checkSchemaCompatibility (\<lambda>_. 1) (\<lambda>_. True) (JObj [(''type'', JStr ''object'')]) (JObj [(''type'', JStr ''object''),
       (''properties'', JObj [(''age'', JObj [(''type'', JStr ''integer'')])])]) sample_closed sample_accepting
     = Inr \<lparr>cp_status = ''compatible'', cp_reasons = [''SCHEMA_COMPATIBLE'']\<rparr>"
    unfolding checkSchemaCompatibility_accepts [OF a sample_schemas_acceptable] sample_comparison
    by (simp add: compatibility_of_def)
  show "conforms (=) (\<lambda>_ _. True) (JObj [(''type'', JStr ''object'')]) (JObj [(''age'', JStr ''x'')])" by code_simp
  show "\<not> conforms (=) (\<lambda>_ _. True) (JObj [(''type'', JStr ''object''),
       (''properties'', JObj [(''age'', JObj [(''type'', JStr ''integer'')])])]) (JObj [(''age'', JStr ''x'')])" by code_simp
qed

text \<open>
  Nor is it right for an accepting schema with a keyword outside the list, which is neither compared nor reported as
  uncertain: integers are judged compatible with multiples of two, although 3 is described by the first schema and
  rejected by the second.
\<close>

definition multiple_of :: "json \<Rightarrow> json \<Rightarrow> bool" where
  "multiple_of s v =
     (case (field_of s ''multipleOf'', v) of
        (Some (JNum (Fin m)), JNum (Fin x)) \<Rightarrow> snd (quotient_of (x / m)) = 1
      | _ \<Rightarrow> True)"

theorem multiple_of_is_ignored:
  "checkSchemaCompatibility (\<lambda>_. 1) (\<lambda>_. True) (JObj [(''type'', JStr ''integer'')])
       (JObj [(''type'', JStr ''integer''), (''multipleOf'', JNum (Fin 2))]) sample_closed sample_accepting
     = Inr \<lparr>cp_status = ''compatible'', cp_reasons = [''SCHEMA_COMPATIBLE'']\<rparr>
   \<and> closed (JObj [(''type'', JStr ''integer'')])
   \<and> conforms (=) multiple_of (JObj [(''type'', JStr ''integer'')]) (JNum (Fin 3))
   \<and> \<not> conforms (=) multiple_of (JObj [(''type'', JStr ''integer''), (''multipleOf'', JNum (Fin 2))]) (JNum (Fin 3))"
proof (intro conjI)
  have a: "acceptable (JObj [(''type'', JStr ''integer'')])"
    "acceptable (JObj [(''type'', JStr ''integer''), (''multipleOf'', JNum (Fin 2))])" by code_simp+
  have "compareSubset (JObj [(''type'', JStr ''integer'')])
      (JObj [(''type'', JStr ''integer''), (''multipleOf'', JNum (Fin 2))]) ''input'' ''$input'' = []" by code_simp
  then show "checkSchemaCompatibility (\<lambda>_. 1) (\<lambda>_. True) (JObj [(''type'', JStr ''integer'')])
       (JObj [(''type'', JStr ''integer''), (''multipleOf'', JNum (Fin 2))]) sample_closed sample_accepting
     = Inr \<lparr>cp_status = ''compatible'', cp_reasons = [''SCHEMA_COMPATIBLE'']\<rparr>"
    unfolding checkSchemaCompatibility_accepts [OF a sample_schemas_acceptable] sample_comparison
    by (simp add: compatibility_of_def)
  show "closed (JObj [(''type'', JStr ''integer'')])" by code_simp
  show "conforms (=) multiple_of (JObj [(''type'', JStr ''integer'')]) (JNum (Fin 3))" by code_simp
  show "\<not> conforms (=) multiple_of (JObj [(''type'', JStr ''integer''), (''multipleOf'', JNum (Fin 2))]) (JNum (Fin 3))" by code_simp
qed

subsection \<open>The sanitizer\<close>

lemma sanitize_idempotent_aux: "sanitize (sanitize v key) key = sanitize v key"
proof (induction v key rule: sanitize.induct)
  case (1 v key)
  show ?case
  proof (cases v)
    case (JArr xs)
    with 1(1) [OF JArr] show ?thesis by (simp add: sanitize.simps [of "JArr _"])
  next
    case (JObj fs)
    let ?keep = "\<lambda>(k, c). key = ''properties'' \<or> k \<in> set STRUCTURAL_KEYS"
    let ?f = "\<lambda>(k, c). (k, sanitize c (if key = ''properties'' then '''' else k))"
    have "?f (?f x) = ?f x" if "x \<in> set (filter ?keep fs)" for x
      using 1(2) [OF JObj, of x "fst x" "snd x"] that by (cases x) (auto split: if_splits)
    then have "map (\<lambda>x. ?f (?f x)) (filter ?keep fs) = map ?f (filter ?keep fs)" by (intro map_cong) blast+
    moreover have "filter ?keep (map ?f (filter ?keep gs)) = map ?f (filter ?keep gs)" for gs
      by (induction gs) auto
    ultimately have "map ?f (filter ?keep (map ?f (filter ?keep fs))) = map ?f (filter ?keep fs)"
      by (simp only: map_map comp_def)
    then show ?thesis by (simp only: JObj sanitize.simps [of "JObj _"] json.case)
  qed (simp_all add: sanitize.simps)
qed

text \<open>
  Sanitizing a schema is idempotent, so a published schema can be sanitized again without changing it.
\<close>

theorem sanitize_idempotent:
  "sanitize (sanitize schema '''') '''' = sanitize schema ''''"
  by (rule sanitize_idempotent_aux)

end
