(* ===== verification/Agent_Selection.thy ===== *)
theory Agent_Selection
  imports Schema_Compatibility "HOL-Library.Multiset"
begin

text \<open>
  Selection of an agent for a capability (backend/src/services/agentSelectionEngine.service.js, the selection loop of
  agentSelection.service.js: \<open>evaluateSelection\<close>, and constants/agentSelection.js): normalization of selection
  policies, the constraints in force for a request, the mandatory filter, the score and the ranking.

  \<^item> Candidates, policies and requests are records of the fields that the engine reads; ids are strings. The
    verdict of the policy engine per candidate, the schema compiler and the collation of \<open>localeCompare\<close> are
    arguments. Catalog refresh, audit, metrics and the stored decision are left out.
\<close>

subsection \<open>Constants\<close>

definition TRUST_TIERS :: "string list" where
  "TRUST_TIERS = [''unverified'', ''registered'', ''organization_verified'', ''platform_verified'']"

definition VERIFICATION_STATUSES :: "string list" where
  "VERIFICATION_STATUSES = [''unverified'', ''passport_validated'', ''organization_verified'', ''platform_verified'']"

definition COST_CLASSES :: "string list" where
  "COST_CLASSES = [''unknown'', ''low'', ''medium'', ''high'']"

definition LATENCY_CLASSES :: "string list" where
  "LATENCY_CLASSES = [''unknown'', ''fast'', ''standard'', ''slow'']"

definition DATA_CLASSIFICATIONS :: "string list" where
  "DATA_CLASSIFICATIONS = [''public'', ''internal'', ''confidential'', ''restricted'']"

definition maximumArrayItems :: nat where "maximumArrayItems = 100"
definition maximumFallbackCandidates :: int where "maximumFallbackCandidates = 10"
definition maximumScoreWeight :: int where "maximumScoreWeight = 1000"
definition maximumScoreWeightTotal :: int where "maximumScoreWeightTotal = 10000"

definition DEFAULT_SCORE_WEIGHTS :: "(string \<times> int) list" where
  "DEFAULT_SCORE_WEIGHTS =
     [(''schemaCompatibility'', 25), (''trust'', 20), (''health'', 10), (''readiness'', 10), (''latency'', 10), (''cost'', 10),
      (''publisherVerification'', 5), (''administrativePreference'', 5), (''recentReliability'', 5)]"

definition SCORE_COMPONENTS :: "string list" where
  "SCORE_COMPONENTS = map fst DEFAULT_SCORE_WEIGHTS"

definition DEFAULT_TIE_BREAKER :: string where
  "DEFAULT_TIE_BREAKER = ''score_trust_verification_passport_connection''"

text \<open>\<open>indexOf\<close>, with -1 for a value that is not listed.\<close>

fun index_of :: "'a list \<Rightarrow> 'a \<Rightarrow> int" where
  "index_of [] v = -1"
| "index_of (x # xs) v = (if x = v then 0 else let i = index_of xs v in if i < 0 then -1 else i + 1)"

definition rankOf :: "string list \<Rightarrow> string \<Rightarrow> int" where
  "rankOf values v = index_of values (js_lower v)"

definition trustRank :: "string \<Rightarrow> int" where "trustRank v = rankOf TRUST_TIERS v"
definition verificationRank :: "string \<Rightarrow> int" where "verificationRank v = rankOf VERIFICATION_STATUSES v"
definition costRank :: "string \<Rightarrow> int" where "costRank v = rankOf COST_CLASSES v"
definition latencyRank :: "string \<Rightarrow> int" where "latencyRank v = rankOf LATENCY_CLASSES v"

subsection \<open>Normalization\<close>

definition selection_error :: "string \<Rightarrow> string \<Rightarrow> app_error" where
  "selection_error code path = App_Error 400 code path"

definition stableList :: "string list \<Rightarrow> string list res" where
  "stableList values =
     (let list = sort (unique_list (filter (\<lambda>v. v \<noteq> '''') (map js_trim values)))
      in bindE (ensure (length list \<le> maximumArrayItems \<and> list_all (\<lambda>v. length v \<le> 200) list)
           (selection_error ''AGENT_SELECTION_CONSTRAINT_INVALID'' '''')) (\<lambda>_. Inr list))"

definition weight_of :: "(string \<Rightarrow> jsnum option) \<Rightarrow> string \<times> int \<Rightarrow> (string \<times> int) res" where
  "weight_of input = (\<lambda>(k, d).
     let value = (case input k of Some n \<Rightarrow> n | None \<Rightarrow> num_of_int d);
         invalid = Inl (selection_error ''AGENT_SELECTION_SCORE_WEIGHT_INVALID'' (''scoreWeights.'' @ k))
     in case js_integer value of
          None \<Rightarrow> invalid
        | Some i \<Rightarrow> if 0 \<le> i \<and> i \<le> maximumScoreWeight then Inr (k, i) else invalid)"

definition normalizeScoreWeights :: "(string \<Rightarrow> jsnum option) \<Rightarrow> ((string \<times> int) list \<times> int) res" where
  "normalizeScoreWeights input =
     bindE (mapE (weight_of input) DEFAULT_SCORE_WEIGHTS) (\<lambda>weights.
     let total = sum_list (map snd weights)
     in bindE (ensure (1 \<le> total \<and> total \<le> maximumScoreWeightTotal)
          (selection_error ''AGENT_SELECTION_SCORE_WEIGHT_INVALID'' '''')) (\<lambda>_. Inr (weights, total)))"

text \<open>\<open>value ?? fallback\<close>.\<close>

definition coalesce :: "'a option \<Rightarrow> 'a option \<Rightarrow> 'a option" where
  "coalesce a b = (case a of None \<Rightarrow> b | Some _ \<Rightarrow> a)"

definition validateEnum :: "string option \<Rightarrow> string list \<Rightarrow> string \<Rightarrow> string option \<Rightarrow> string res" where
  "validateEnum value values path fallback =
     (let normalized = js_lower (js_trim (or_empty (coalesce value fallback)))
      in bindE (ensure (normalized \<in> set values) (selection_error ''AGENT_SELECTION_CONSTRAINT_INVALID'' path))
           (\<lambda>_. Inr normalized))"

record approval_rules =
  ar_manual_review :: bool
  ar_trust_below :: "string option"
  ar_unverified_publisher :: bool
  ar_data_classifications :: "string list"
  ar_cost_classes :: "string list"
  ar_uncertain_residency :: bool

text \<open>A selection policy as it is given: every field may be missing.\<close>

record policy_fields =
  pf_name :: "string option"
  pf_description :: "string option"
  pf_capability_requirements :: "string list option"
  pf_allowed_categories :: "string list option"
  pf_allowed_passports :: "string list option"
  pf_denied_passports :: "string list option"
  pf_allowed_publishers :: "string list option"
  pf_denied_publishers :: "string list option"
  pf_minimum_trust :: "string option"
  pf_verification_statuses :: "string list option"
  pf_allowed_regions :: "string list option"
  pf_residency_regions :: "string list option"
  pf_data_classifications :: "string list option"
  pf_maximum_cost :: "string option"
  pf_maximum_latency :: "string option"
  pf_require_healthy :: "bool option"
  pf_require_ready :: "bool option"
  pf_allow_open_circuit :: "bool option"
  pf_allow_rate_limited :: "bool option"
  pf_allow_uncertain_schema :: "bool option"
  pf_approval :: "approval_rules option"
  pf_weights :: "(string \<Rightarrow> jsnum option) option"
  pf_fallback_count :: "jsnum option"
  pf_fallbacks_permitted :: "bool option"
  pf_preferences_permitted :: "bool option"
  pf_tie_breaker :: "string option"

record selection_policy =
  sp_name :: string
  sp_description :: string
  sp_capability_requirements :: "string list"
  sp_allowed_categories :: "string list"
  sp_allowed_passports :: "string list"
  sp_denied_passports :: "string list"
  sp_allowed_publishers :: "string list"
  sp_denied_publishers :: "string list"
  sp_minimum_trust :: string
  sp_verification_statuses :: "string list"
  sp_allowed_regions :: "string list"
  sp_residency_regions :: "string list"
  sp_data_classifications :: "string list"
  sp_maximum_cost :: string
  sp_maximum_latency :: string
  sp_require_healthy :: bool
  sp_require_ready :: bool
  sp_allow_open_circuit :: bool
  sp_allow_rate_limited :: bool
  sp_allow_uncertain_schema :: bool
  sp_approval :: approval_rules
  sp_weights :: "(string \<times> int) list"
  sp_fallback_count :: int
  sp_fallbacks_permitted :: bool
  sp_preferences_permitted :: bool

definition field_list :: "(policy_fields \<Rightarrow> string list option) \<Rightarrow> policy_fields \<Rightarrow> policy_fields \<Rightarrow> string list res" where
  "field_list f input current =
     stableList (case coalesce (f input) (f current) of None \<Rightarrow> [] | Some xs \<Rightarrow> xs)"

definition enum_list :: "string list \<Rightarrow> string \<Rightarrow> string list \<Rightarrow> string list res" where
  "enum_list values path xs = mapE (\<lambda>v. validateEnum (Some v) values path None) xs"

definition category_pattern :: "string \<Rightarrow> bool" where
  "category_pattern s \<longleftrightarrow> bounded_pattern is_upper (\<lambda>c. is_upper c \<or> is_digit c \<or> c \<in> set ''_-'') 63 s"

definition region_pattern :: "string \<Rightarrow> bool" where
  "region_pattern s \<longleftrightarrow> 2 \<le> length s \<and> length s \<le> 16 \<and> list_all (\<lambda>c. is_upper c \<or> is_digit c \<or> c = CHR ''-'') s"

definition no_approval_rules :: approval_rules where
  "no_approval_rules =
     \<lparr>ar_manual_review = False, ar_trust_below = None, ar_unverified_publisher = False, ar_data_classifications = [],
      ar_cost_classes = [], ar_uncertain_residency = False\<rparr>"

definition normalize_approval :: "approval_rules \<Rightarrow> approval_rules res" where
  "normalize_approval a =
     bindE (if present (ar_trust_below a)
            then bindE (validateEnum (ar_trust_below a) TRUST_TIERS ''requireApprovalWhen.trustBelow'' None) (\<lambda>v. Inr (Some v))
            else Inr None) (\<lambda>below.
     bindE (stableList (ar_data_classifications a)) (\<lambda>xs.
     bindE (enum_list DATA_CLASSIFICATIONS ''requireApprovalWhen.dataClassifications'' xs) (\<lambda>classifications.
     bindE (stableList (ar_cost_classes a)) (\<lambda>ys.
     bindE (enum_list COST_CLASSES ''requireApprovalWhen.costClasses'' ys) (\<lambda>costs.
     Inr (a\<lparr>ar_trust_below := below, ar_data_classifications := classifications, ar_cost_classes := costs\<rparr>))))))"

definition normalizePolicyInput :: "policy_fields \<Rightarrow> policy_fields \<Rightarrow> selection_policy res" where
  "normalizePolicyInput input current =
     (let flag = (\<lambda>f. coalesce (f input) (f current)) in
     bindE (normalizeScoreWeights (case pf_weights input of Some w \<Rightarrow> w | None \<Rightarrow>
         (case pf_weights current of Some w \<Rightarrow> w | None \<Rightarrow> (\<lambda>_. None)))) (\<lambda>(weights, _).
     bindE (field_list pf_capability_requirements input current) (\<lambda>requirements.
     bindE (case js_integer (case coalesce (pf_fallback_count input) (pf_fallback_count current) of
                None \<Rightarrow> num_of_int 3 | Some n \<Rightarrow> n) of
              None \<Rightarrow> Inl (selection_error ''AGENT_SELECTION_POLICY_INVALID'' '''')
            | Some i \<Rightarrow> if 0 \<le> i \<and> i \<le> maximumFallbackCandidates then Inr i
                       else Inl (selection_error ''AGENT_SELECTION_POLICY_INVALID'' '''')) (\<lambda>fallbacks.
     bindE (ensure (or_default (pf_tie_breaker input) (or_default (pf_tie_breaker current) DEFAULT_TIE_BREAKER) = DEFAULT_TIE_BREAKER)
       (selection_error ''AGENT_SELECTION_TIE_BREAKER_INVALID'' '''')) (\<lambda>_.
     bindE (field_list pf_allowed_categories input current) (\<lambda>categories.
     bindE (field_list pf_allowed_regions input current) (\<lambda>regions.
     bindE (field_list pf_residency_regions input current) (\<lambda>residency.
     bindE (ensure (list_all (\<lambda>v. category_pattern (js_upper v)) categories)
       (selection_error ''AGENT_SELECTION_POLICY_INVALID'' '''')) (\<lambda>_.
     bindE (ensure (list_all (\<lambda>v. region_pattern (js_upper v)) (regions @ residency))
       (selection_error ''AGENT_SELECTION_POLICY_INVALID'' '''')) (\<lambda>_.
     bindE (field_list pf_allowed_passports input current) (\<lambda>allowed.
     bindE (field_list pf_denied_passports input current) (\<lambda>denied.
     bindE (field_list pf_allowed_publishers input current) (\<lambda>allowed_publishers.
     bindE (field_list pf_denied_publishers input current) (\<lambda>denied_publishers.
     bindE (validateEnum (flag pf_minimum_trust) TRUST_TIERS ''minimumTrustTier'' (Some ''registered'')) (\<lambda>trust.
     bindE (field_list pf_verification_statuses input current) (\<lambda>vs.
     bindE (enum_list VERIFICATION_STATUSES ''requiredVerificationStatuses'' vs) (\<lambda>verification.
     bindE (stableList (case coalesce (pf_data_classifications input) (pf_data_classifications current) of
         None \<Rightarrow> DATA_CLASSIFICATIONS | Some xs \<Rightarrow> xs)) (\<lambda>ds.
     bindE (enum_list DATA_CLASSIFICATIONS ''allowedDataClassifications'' ds) (\<lambda>classifications.
     bindE (validateEnum (flag pf_maximum_cost) COST_CLASSES ''maximumCostClass'' (Some ''high'')) (\<lambda>cost.
     bindE (validateEnum (flag pf_maximum_latency) LATENCY_CLASSES ''maximumLatencyClass'' (Some ''slow'')) (\<lambda>latency.
     bindE (normalize_approval (case pf_approval input of Some a \<Rightarrow> a | None \<Rightarrow>
         (case pf_approval current of Some a \<Rightarrow> a | None \<Rightarrow> no_approval_rules))) (\<lambda>approval.
     Inr \<lparr>sp_name = js_trim (or_empty (coalesce (pf_name input) (pf_name current))),
       sp_description = js_trim (or_empty (coalesce (pf_description input) (pf_description current))),
       sp_capability_requirements = requirements, sp_allowed_categories = map js_upper categories,
       sp_allowed_passports = allowed, sp_denied_passports = denied,
       sp_allowed_publishers = allowed_publishers, sp_denied_publishers = denied_publishers,
       sp_minimum_trust = trust, sp_verification_statuses = verification,
       sp_allowed_regions = map js_upper regions, sp_residency_regions = map js_upper residency,
       sp_data_classifications = classifications, sp_maximum_cost = cost, sp_maximum_latency = latency,
       sp_require_healthy = (coalesce (pf_require_healthy input) (pf_require_healthy current) \<noteq> Some False),
       sp_require_ready = (coalesce (pf_require_ready input) (pf_require_ready current) \<noteq> Some False),
       sp_allow_open_circuit = (coalesce (pf_allow_open_circuit input) (pf_allow_open_circuit current) = Some True),
       sp_allow_rate_limited = (coalesce (pf_allow_rate_limited input) (pf_allow_rate_limited current) = Some True),
       sp_allow_uncertain_schema =
         (coalesce (pf_allow_uncertain_schema input) (pf_allow_uncertain_schema current) = Some True),
       sp_approval = approval, sp_weights = weights, sp_fallback_count = fallbacks,
       sp_fallbacks_permitted = (coalesce (pf_fallbacks_permitted input) (pf_fallbacks_permitted current) \<noteq> Some False),
       sp_preferences_permitted =
         (coalesce (pf_preferences_permitted input) (pf_preferences_permitted current) \<noteq> Some False)\<rparr>))))))))))))))))))))))"

subsection \<open>The constraints in force\<close>

record request_constraints =
  rq_minimum_trust :: "string option"
  rq_maximum_cost :: "string option"
  rq_maximum_latency :: "string option"
  rq_allowed_regions :: "string list"
  rq_residency_regions :: "string list"
  rq_data_classification :: "string option"
  rq_require_healthy :: "bool option"
  rq_require_ready :: "bool option"
  rq_allow_open_circuit :: "bool option"
  rq_allow_rate_limited :: "bool option"

record constraints =
  co_minimum_trust :: string
  co_maximum_cost :: string
  co_maximum_latency :: string
  co_allowed_regions :: "string list"
  co_regions_unsatisfiable :: bool
  co_residency_regions :: "string list"
  co_data_classification :: string
  co_data_allowed :: bool
  co_require_healthy :: bool
  co_require_ready :: bool
  co_allow_open_circuit :: bool
  co_allow_rate_limited :: bool
  co_allow_uncertain_schema :: bool

definition safeMaximumClass :: "string \<Rightarrow> string \<Rightarrow> (string \<Rightarrow> int) \<Rightarrow> string" where
  "safeMaximumClass left right rank =
     (if left = ''unknown'' then right else if right = ''unknown'' then left
      else if rank left \<le> rank right then left else right)"

definition region_intersection :: "string list \<Rightarrow> string list \<Rightarrow> string list" where
  "region_intersection policy request =
     (if policy \<noteq> [] \<and> request \<noteq> [] then filter (\<lambda>r. r \<in> set policy) request
      else if policy \<noteq> [] then sort (unique_list policy) else request)"

definition effectiveConstraints :: "selection_policy \<Rightarrow> request_constraints \<Rightarrow> constraints res" where
  "effectiveConstraints p rq =
     bindE (validateEnum (rq_minimum_trust rq) TRUST_TIERS ''constraints.minimumTrustTier'' (Some (sp_minimum_trust p))) (\<lambda>trust.
     bindE (validateEnum (rq_maximum_cost rq) COST_CLASSES ''constraints.maximumCostClass'' (Some (sp_maximum_cost p))) (\<lambda>cost.
     bindE (validateEnum (rq_maximum_latency rq) LATENCY_CLASSES ''constraints.maximumLatencyClass''
         (Some (sp_maximum_latency p))) (\<lambda>latency.
     bindE (stableList (rq_allowed_regions rq)) (\<lambda>regions.
     bindE (stableList (sp_residency_regions p @ rq_residency_regions rq)) (\<lambda>residency.
     bindE (ensure (list_all (\<lambda>v. region_pattern (js_upper v)) (regions @ residency))
       (selection_error ''AGENT_SELECTION_CONSTRAINT_INVALID'' '''')) (\<lambda>_.
     bindE (validateEnum (rq_data_classification rq) DATA_CLASSIFICATIONS ''constraints.dataClassification''
         (Some ''public'')) (\<lambda>classification.
     let allowed = region_intersection (sp_allowed_regions p) (map js_upper regions)
     in Inr \<lparr>co_minimum_trust = (if trustRank (sp_minimum_trust p) < trustRank trust then trust else sp_minimum_trust p),
          co_maximum_cost = safeMaximumClass (sp_maximum_cost p) cost costRank,
          co_maximum_latency = safeMaximumClass (sp_maximum_latency p) latency latencyRank,
          co_allowed_regions = allowed,
          co_regions_unsatisfiable = (sp_allowed_regions p \<noteq> [] \<and> regions \<noteq> [] \<and> allowed = []),
          co_residency_regions = map js_upper residency,
          co_data_classification = classification,
          co_data_allowed = (classification \<in> set (sp_data_classifications p)),
          co_require_healthy = (sp_require_healthy p \<or> rq_require_healthy rq = Some True),
          co_require_ready = (sp_require_ready p \<or> rq_require_ready rq = Some True),
          co_allow_open_circuit = (sp_allow_open_circuit p \<and> rq_allow_open_circuit rq \<noteq> Some False),
          co_allow_rate_limited = (sp_allow_rate_limited p \<and> rq_allow_rate_limited rq \<noteq> Some False),
          co_allow_uncertain_schema = sp_allow_uncertain_schema p\<rparr>)))))))"

subsection \<open>The mandatory filter\<close>

record agent_capability =
  ac_key :: string
  ac_operations :: "string list"
  ac_categories :: "string list"
  ac_input_schema :: json
  ac_output_schema :: json

record candidate =
  ca_passport :: string
  ca_connection :: string
  ca_publisher :: "string option"
  ca_availability :: string
  ca_lifecycle :: string
  ca_connection_status :: string
  ca_capabilities :: "agent_capability list"
  ca_trust :: string
  ca_verification :: string
  ca_data_classifications :: "string list"
  ca_regions :: "string list"
  ca_residency :: "string list"
  ca_cost :: string
  ca_latency :: string
  ca_health_stale :: bool
  ca_health :: string
  ca_readiness :: string
  ca_circuit :: string
  ca_rate_limited_until :: "int option"
  ca_preferred :: bool
  ca_reliability :: "rat option"

record selection_request =
  sr_capability :: string
  sr_operation :: string
  sr_input_schema :: json
  sr_output_schema :: json
  sr_excluded :: "string list"

definition exceedsClass :: "string \<Rightarrow> string \<Rightarrow> (string \<Rightarrow> int) \<Rightarrow> bool" where
  "exceedsClass v maximum rank =
     (if v = ''unknown'' then maximum \<notin> {''unknown'', ''high'', ''slow''}
      else if maximum = ''unknown'' then False else rank maximum < rank v)"

definition intersects :: "string list \<Rightarrow> string list \<Rightarrow> bool" where
  "intersects left right = list_ex (\<lambda>v. js_lower v \<in> set (map js_lower left)) right"

definition containsAll :: "string list \<Rightarrow> string list \<Rightarrow> bool" where
  "containsAll values required = list_all (\<lambda>v. js_upper v \<in> set (map js_upper values)) required"

definition candidateCapability :: "candidate \<Rightarrow> string \<Rightarrow> string \<Rightarrow> agent_capability option" where
  "candidateCapability c capability operation =
     find (\<lambda>a. ac_key a = capability \<and> operation \<in> set (ac_operations a)) (ca_capabilities c)"

definition reason :: "bool \<Rightarrow> string \<Rightarrow> string list" where
  "reason b code = (if b then [code] else [])"

text \<open>The reasons that do not need the schemas, in the order of the code.\<close>

definition administrative_reasons :: "candidate \<Rightarrow> selection_request \<Rightarrow> selection_policy \<Rightarrow> string list" where
  "administrative_reasons c rq p =
     (let passport = js_trim (ca_passport c);
          denied = map js_trim (sp_denied_passports p) @ map js_trim (sr_excluded rq);
          allowed = map js_trim (sp_allowed_passports p);
          publisher = js_lower (or_empty (ca_publisher c));
          denied_publishers = map js_lower (sp_denied_publishers p);
          allowed_publishers = map js_lower (sp_allowed_publishers p)
      in (if passport \<in> set denied then [''ADMINISTRATIVELY_DENIED'']
          else reason (allowed \<noteq> [] \<and> passport \<notin> set allowed) ''NOT_ADMINISTRATIVELY_ALLOWED'')
         @ (if publisher \<in> set denied_publishers then [''PUBLISHER_DENIED'']
            else reason (allowed_publishers \<noteq> [] \<and> publisher \<notin> set allowed_publishers) ''PUBLISHER_NOT_ALLOWED''))"

definition requirement_reasons ::
  "candidate \<Rightarrow> selection_policy \<Rightarrow> constraints \<Rightarrow> agent_capability option \<Rightarrow> bool \<Rightarrow> int \<Rightarrow> string list" where
  "requirement_reasons c p k capability policy_denied now =
     reason (ca_availability c \<noteq> ''available'' \<or> ca_lifecycle c \<noteq> ''valid'') ''PASSPORT_UNAVAILABLE''
     @ reason (ca_connection_status c \<noteq> ''connected'') ''CONNECTION_UNAVAILABLE''
     @ reason (capability = None) ''CAPABILITY_OR_OPERATION_UNAVAILABLE''
     @ reason (case capability of None \<Rightarrow> False
         | Some a \<Rightarrow> sp_allowed_categories p \<noteq> [] \<and> \<not> intersects (ac_categories a) (sp_allowed_categories p))
         ''CAPABILITY_CATEGORY_DENIED''
     @ reason policy_denied ''POLICY_DENIED''
     @ reason (trustRank (ca_trust c) < trustRank (co_minimum_trust k)) ''TRUST_REQUIREMENT_NOT_MET''
     @ reason (sp_verification_statuses p \<noteq> [] \<and> ca_verification c \<notin> set (sp_verification_statuses p))
         ''VERIFICATION_REQUIREMENT_NOT_MET''
     @ reason (\<not> co_data_allowed k \<or> co_data_classification k \<notin> set (ca_data_classifications c))
         ''DATA_CLASSIFICATION_UNSUPPORTED''
     @ reason (co_regions_unsatisfiable k \<or> co_allowed_regions k \<noteq> [] \<and> \<not> intersects (ca_regions c) (co_allowed_regions k))
         ''REGION_NOT_ALLOWED''
     @ reason (\<not> containsAll (ca_residency c) (co_residency_regions k)) ''RESIDENCY_REQUIREMENT_UNMET''
     @ reason (exceedsClass (ca_cost c) (co_maximum_cost k) costRank) ''COST_LIMIT_EXCEEDED''
     @ reason (exceedsClass (ca_latency c) (co_maximum_latency k) latencyRank) ''LATENCY_LIMIT_EXCEEDED''
     @ (if co_require_healthy k \<and> ca_health_stale c then [''STALE_HEALTH_SNAPSHOT'']
        else reason (co_require_healthy k \<and> ca_health c \<noteq> ''healthy'') ''HEALTH_REQUIREMENT_NOT_MET'')
     @ reason (co_require_ready k \<and> ca_readiness c \<noteq> ''ready'') ''READINESS_REQUIREMENT_NOT_MET''
     @ reason (\<not> co_allow_open_circuit k \<and> ca_circuit c = ''open'') ''CIRCUIT_OPEN''
     @ reason (\<not> co_allow_rate_limited k \<and> (case ca_rate_limited_until c of None \<Rightarrow> False | Some u \<Rightarrow> now < u)) ''RATE_LIMITED''"

record filter_result =
  fr_eligible :: bool
  fr_reasons :: "string list"
  fr_compatibility :: "compatibility option"

definition schema_reasons :: "constraints \<Rightarrow> compatibility option \<Rightarrow> string list" where
  "schema_reasons k compatibility =
     (case compatibility of
        None \<Rightarrow> []
      | Some r \<Rightarrow>
          reason (cp_status r = ''incompatible'') ''SCHEMA_INCOMPATIBLE''
          @ reason (cp_status r = ''uncertain'' \<and> \<not> co_allow_uncertain_schema k) ''SCHEMA_COMPATIBILITY_UNCERTAIN'')"

definition mandatoryFilter ::
  "(rat \<Rightarrow> nat) \<Rightarrow> (json \<Rightarrow> bool) \<Rightarrow> candidate \<Rightarrow> selection_request \<Rightarrow> selection_policy \<Rightarrow> constraints \<Rightarrow> bool \<Rightarrow> int \<Rightarrow>
    filter_result res" where
  "mandatoryFilter num_size ajv c rq p k policy_denied now =
     (let capability = candidateCapability c (sr_capability rq) (sr_operation rq) in
     bindE (case capability of
              None \<Rightarrow> Inr None
            | Some a \<Rightarrow> bindE (checkSchemaCompatibility num_size ajv (sr_input_schema rq) (ac_input_schema a)
                (ac_output_schema a) (sr_output_schema rq)) (\<lambda>r. Inr (Some r))) (\<lambda>compatibility.
     let reasons = administrative_reasons c rq p @ requirement_reasons c p k capability policy_denied now
           @ schema_reasons k compatibility
     in Inr \<lparr>fr_eligible = (reasons = []), fr_reasons = sort (unique_list reasons), fr_compatibility = compatibility\<rparr>))"

subsection \<open>Scores and ranking\<close>

definition classScore :: "string \<Rightarrow> string list \<Rightarrow> bool \<Rightarrow> int" where
  "classScore v values rev_order =
     (let ranked = filter (\<lambda>x. x \<noteq> ''unknown'') values; i = index_of ranked v; top = int (length ranked) - 1
      in if i < 0 \<or> v = ''unknown'' then 0
         else js_round (of_int (if rev_order then top - i else i) / of_int (max 1 top) * 10000))"

definition componentScores :: "candidate \<Rightarrow> filter_result \<Rightarrow> bool \<Rightarrow> (string \<times> rat) list" where
  "componentScores c f preferred =
     [(''schemaCompatibility'', if map_option cp_status (fr_compatibility f) = Some ''compatible'' then 10000 else 5000),
      (''trust'', of_int (classScore (ca_trust c) TRUST_TIERS False)),
      (''health'', if ca_health_stale c then 0 else if ca_health c = ''healthy'' then 10000
         else if ca_health c = ''degraded'' then 5000 else 0),
      (''readiness'', if ca_readiness c = ''ready'' then 10000 else 0),
      (''latency'', of_int (classScore (ca_latency c) LATENCY_CLASSES True)),
      (''cost'', of_int (classScore (ca_cost c) COST_CLASSES True)),
      (''publisherVerification'', of_int (classScore (ca_verification c) VERIFICATION_STATUSES False)),
      (''administrativePreference'', if preferred \<or> ca_preferred c then 10000 else 5000),
      (''recentReliability'', max 0 (min 10000 (case ca_reliability c of None \<Rightarrow> 0 | Some r \<Rightarrow> r)))]"

definition scoreCandidate ::
  "candidate \<Rightarrow> filter_result \<Rightarrow> (string \<times> int) list \<Rightarrow> bool \<Rightarrow> (int \<times> (string \<times> rat) list) res" where
  "scoreCandidate c f weights preferred =
     bindE (normalizeScoreWeights (\<lambda>k. map_option num_of_int (map_of weights k))) (\<lambda>(ws, total).
     let components = componentScores c f preferred;
         weighted = sum_list (map (\<lambda>k. the (map_of components k) * of_int (the (map_of ws k))) SCORE_COMPONENTS)
     in Inr (\<lfloor>weighted / of_int total\<rfloor>, components))"

text \<open>\<open>compareCandidates\<close>: the first difference that is not 0.\<close>

fun first_difference :: "int list \<Rightarrow> int" where
  "first_difference [] = 0"
| "first_difference (d # ds) = (if d \<noteq> 0 then d else first_difference ds)"

definition compareCandidates :: "(string \<Rightarrow> string \<Rightarrow> int) \<Rightarrow> candidate \<times> int \<Rightarrow> candidate \<times> int \<Rightarrow> int" where
  "compareCandidates collate l r =
     first_difference
       [snd r - snd l, trustRank (ca_trust (fst r)) - trustRank (ca_trust (fst l)),
        verificationRank (ca_verification (fst r)) - verificationRank (ca_verification (fst l)),
        collate (js_trim (ca_passport (fst l))) (js_trim (ca_passport (fst r))),
        collate (js_trim (ca_connection (fst l))) (js_trim (ca_connection (fst r)))]"

definition selectionRequiresApproval :: "candidate \<Rightarrow> constraints \<Rightarrow> selection_policy \<Rightarrow> string list" where
  "selectionRequiresApproval c k p =
     (let rules = sp_approval p
      in reason (ar_manual_review rules) ''MANUAL_SELECTION_REVIEW_REQUIRED''
         @ reason (case ar_trust_below rules of None \<Rightarrow> False
             | Some t \<Rightarrow> t \<noteq> '''' \<and> trustRank (ca_trust c) < trustRank t) ''TRUST_REVIEW_REQUIRED''
         @ reason (ar_unverified_publisher rules \<and> ca_verification c \<notin> {''organization_verified'', ''platform_verified''})
             ''PUBLISHER_VERIFICATION_REVIEW_REQUIRED''
         @ reason (co_data_classification k \<in> set (ar_data_classifications rules)) ''DATA_CLASSIFICATION_REVIEW_REQUIRED''
         @ reason (ca_cost c \<in> set (ar_cost_classes rules)) ''COST_REVIEW_REQUIRED''
         @ reason (ar_uncertain_residency rules \<and> co_residency_regions k \<noteq> [] \<and> ca_residency c = [])
             ''RESIDENCY_REVIEW_REQUIRED'')"

subsection \<open>The selection\<close>

text \<open>The candidates that pass, with their scores; \<open>denied\<close> is the verdict of the policy engine.\<close>

definition evaluate_candidate ::
  "(rat \<Rightarrow> nat) \<Rightarrow> (json \<Rightarrow> bool) \<Rightarrow> (candidate \<Rightarrow> bool) \<Rightarrow> selection_request \<Rightarrow> selection_policy \<Rightarrow> constraints \<Rightarrow>
    string list \<Rightarrow> int \<Rightarrow> candidate \<Rightarrow> (candidate \<times> int option) res" where
  "evaluate_candidate num_size ajv denied rq p k preferred now c =
     bindE (mandatoryFilter num_size ajv c rq p k (denied c) now) (\<lambda>f.
     if \<not> fr_eligible f then Inr (c, None)
     else bindE (scoreCandidate c f (sp_weights p) (js_trim (ca_passport c) \<in> set preferred)) (\<lambda>(score, _).
       Inr (c, Some score)))"

definition eligible_of :: "(candidate \<times> int option) list \<Rightarrow> (candidate \<times> int) list" where
  "eligible_of rs = List.map_filter (\<lambda>(c, s). map_option (Pair c) s) rs"

record selection =
  se_selected :: "(candidate \<times> int) option"
  se_fallbacks :: "(candidate \<times> int) list"
  se_approval :: "string list"
  se_status :: string

definition fallback_count :: "selection_policy \<Rightarrow> int option \<Rightarrow> nat" where
  "fallback_count p requested =
     nat (min (case requested of None \<Rightarrow> sp_fallback_count p | Some n \<Rightarrow> n)
       (if sp_fallbacks_permitted p then maximumFallbackCandidates else 0))"

text \<open>\<open>workflow\<close> is the verdict of the approval workflows on the selected candidate.\<close>

definition selection_of ::
  "(candidate \<Rightarrow> bool) \<Rightarrow> selection_policy \<Rightarrow> constraints \<Rightarrow> int option \<Rightarrow> (candidate \<times> int) list \<Rightarrow> selection" where
  "selection_of workflow p k fallback eligible =
     (case eligible of
        [] \<Rightarrow> \<lparr>se_selected = None, se_fallbacks = [], se_approval = [], se_status = ''no_candidate''\<rparr>
      | s # rest \<Rightarrow>
          let approval = selectionRequiresApproval (fst s) k p @ reason (workflow (fst s)) ''POLICY_APPROVAL_REQUIRED''
          in \<lparr>se_selected = Some s, se_fallbacks = take (fallback_count p fallback) rest, se_approval = approval,
              se_status = (if approval \<noteq> [] then ''approval_required'' else ''selected'')\<rparr>)"

text \<open>The candidates are those of the requested capability and operation, cut to the limit of the request.\<close>

definition evaluateSelection ::
  "(rat \<Rightarrow> nat) \<Rightarrow> (json \<Rightarrow> bool) \<Rightarrow> (string \<Rightarrow> string \<Rightarrow> int) \<Rightarrow> (candidate \<Rightarrow> bool) \<Rightarrow> (candidate \<Rightarrow> bool) \<Rightarrow>
    selection_policy \<Rightarrow> selection_request \<Rightarrow> request_constraints \<Rightarrow> string list \<Rightarrow> int option \<Rightarrow> int \<Rightarrow>
    candidate list \<Rightarrow> selection res" where
  "evaluateSelection num_size ajv collate denied workflow p rq given preferred fallback now candidates =
     bindE (ensure (sp_capability_requirements p = [] \<or> sr_capability rq \<in> set (sp_capability_requirements p))
       (App_Error 403 ''AGENT_SELECTION_CAPABILITY_DENIED'' '''')) (\<lambda>_.
     bindE (effectiveConstraints p given) (\<lambda>k.
     bindE (mapE (evaluate_candidate num_size ajv denied rq p k (if sp_preferences_permitted p then preferred else []) now)
       candidates) (\<lambda>evaluated.
     Inr (selection_of workflow p k fallback (sort_by (compareCandidates collate) (eligible_of evaluated))))))"

subsection \<open>Requests only narrow the policy\<close>

lemma reason_Nil [simp]: "reason b code = [] \<longleftrightarrow> \<not> b"
  by (simp add: reason_def)

lemma index_of_le: "index_of xs v < int (length xs)"
  by (induction xs) (auto simp: Let_def)

lemma index_of_ge: "-1 \<le> index_of xs v"
  by (induction xs) (auto simp: Let_def)

lemma validateEnum_member: "validateEnum v values path d = Inr w \<Longrightarrow> w \<in> set values"
  by (auto simp: validateEnum_def Let_def bindE_Inr_iff)

lemma costRank_high: "costRank v \<le> costRank ''high''"
proof -
  have "costRank ''high'' = 3" by code_simp
  moreover have "costRank v < 4" using index_of_le [of COST_CLASSES] by (simp add: costRank_def rankOf_def COST_CLASSES_def)
  ultimately show ?thesis by simp
qed

lemma latencyRank_slow: "latencyRank v \<le> latencyRank ''slow''"
proof -
  have "latencyRank ''slow'' = 3" by code_simp
  moreover have "latencyRank v < 4"
    using index_of_le [of LATENCY_CLASSES] by (simp add: latencyRank_def rankOf_def LATENCY_CLASSES_def)
  ultimately show ?thesis by simp
qed

text \<open>A class within the effective maximum is within the maximum of the policy; \<open>broadest\<close> is the broadest known class.\<close>

lemma exceedsClass_narrowed:
  assumes ok: "\<not> exceedsClass v (safeMaximumClass m r rank) rank"
    and broadest: "\<And>x. rank x \<le> rank broadest" and r: "r \<in> {''high'', ''slow''} \<Longrightarrow> r = broadest"
  shows "\<not> exceedsClass v m rank"
proof (cases "m = ''unknown'' \<or> r = ''unknown'' \<or> rank m \<le> rank r")
  case True
  then show ?thesis
  proof (elim disjE)
    assume "m = ''unknown''"
    then show ?thesis by (simp add: exceedsClass_def)
  next
    assume "r = ''unknown''"
    with ok show ?thesis by (simp add: safeMaximumClass_def split: if_splits)
  next
    assume "rank m \<le> rank r"
    show ?thesis
    proof (cases "m = ''unknown'' \<or> r = ''unknown''")
      case True
      with ok show ?thesis by (auto simp: safeMaximumClass_def exceedsClass_def split: if_splits)
    next
      case False
      with \<open>rank m \<le> rank r\<close> have "safeMaximumClass m r rank = m" by (simp add: safeMaximumClass_def)
      with ok show ?thesis by simp
    qed
  qed
next
  case False
  then have sm: "safeMaximumClass m r rank = r" and lt: "rank r < rank m" by (simp_all add: safeMaximumClass_def)
  have "r \<noteq> broadest" using lt broadest [of m] by auto
  then have "r \<notin> {''high'', ''slow''}" using r by blast
  with ok sm False have "v \<noteq> ''unknown''" by (auto simp: exceedsClass_def)
  with ok sm lt False show ?thesis by (simp add: exceedsClass_def)
qed

lemma sort_Nil: "sort (xs :: string list) = [] \<longleftrightarrow> xs = []"
  by (metis length_0_conv length_sort)

lemma stableList_member: "stableList xs = Inr ys \<Longrightarrow> x \<in> set xs \<Longrightarrow> js_trim x \<noteq> '''' \<Longrightarrow> js_trim x \<in> set ys"
  by (auto simp: stableList_def Let_def bindE_Inr_iff)

text \<open>What the constraints in force say, for a request that is accepted.\<close>

lemma effectiveConstraints_narrow:
  assumes e: "effectiveConstraints p rq = Inr k"
  shows "trustRank (sp_minimum_trust p) \<le> trustRank (co_minimum_trust k)"
    and "\<not> exceedsClass v (co_maximum_cost k) costRank \<Longrightarrow> \<not> exceedsClass v (sp_maximum_cost p) costRank"
    and "\<not> exceedsClass v (co_maximum_latency k) latencyRank \<Longrightarrow> \<not> exceedsClass v (sp_maximum_latency p) latencyRank"
    and "sp_allowed_regions p \<noteq> [] \<Longrightarrow> \<not> co_regions_unsatisfiable k \<Longrightarrow>
      co_allowed_regions k \<noteq> [] \<and> set (co_allowed_regions k) \<subseteq> set (sp_allowed_regions p)"
    and "x \<in> set (sp_residency_regions p) \<Longrightarrow> js_trim x \<noteq> '''' \<Longrightarrow> js_upper (js_trim x) \<in> set (co_residency_regions k)"
    and "co_data_allowed k \<longleftrightarrow> co_data_classification k \<in> set (sp_data_classifications p)"
    and "sp_require_healthy p \<Longrightarrow> co_require_healthy k" and "sp_require_ready p \<Longrightarrow> co_require_ready k"
    and "co_allow_open_circuit k \<Longrightarrow> sp_allow_open_circuit p"
    and "co_allow_rate_limited k \<Longrightarrow> sp_allow_rate_limited p"
    and "co_allow_uncertain_schema k \<Longrightarrow> sp_allow_uncertain_schema p"
proof -
  from e obtain trust cost latency regions residency cls where
    c: "validateEnum (rq_maximum_cost rq) COST_CLASSES ''constraints.maximumCostClass'' (Some (sp_maximum_cost p)) = Inr cost"
    and l: "validateEnum (rq_maximum_latency rq) LATENCY_CLASSES ''constraints.maximumLatencyClass''
        (Some (sp_maximum_latency p)) = Inr latency"
    and r: "stableList (sp_residency_regions p @ rq_residency_regions rq) = Inr residency"
    and k: "k = \<lparr>co_minimum_trust = (if trustRank (sp_minimum_trust p) < trustRank trust then trust else sp_minimum_trust p),
          co_maximum_cost = safeMaximumClass (sp_maximum_cost p) cost costRank,
          co_maximum_latency = safeMaximumClass (sp_maximum_latency p) latency latencyRank,
          co_allowed_regions = region_intersection (sp_allowed_regions p) (map js_upper regions),
          co_regions_unsatisfiable = (sp_allowed_regions p \<noteq> [] \<and> regions \<noteq> []
            \<and> region_intersection (sp_allowed_regions p) (map js_upper regions) = []),
          co_residency_regions = map js_upper residency,
          co_data_classification = cls,
          co_data_allowed = (cls \<in> set (sp_data_classifications p)),
          co_require_healthy = (sp_require_healthy p \<or> rq_require_healthy rq = Some True),
          co_require_ready = (sp_require_ready p \<or> rq_require_ready rq = Some True),
          co_allow_open_circuit = (sp_allow_open_circuit p \<and> rq_allow_open_circuit rq \<noteq> Some False),
          co_allow_rate_limited = (sp_allow_rate_limited p \<and> rq_allow_rate_limited rq \<noteq> Some False),
          co_allow_uncertain_schema = sp_allow_uncertain_schema p\<rparr>"
    unfolding effectiveConstraints_def bindE_Inr_iff Let_def sum.inject
    by (elim exE conjE) (rule that, assumption, assumption, assumption, erule sym)
  show "trustRank (sp_minimum_trust p) \<le> trustRank (co_minimum_trust k)" by (simp add: k)
  show "\<not> exceedsClass v (sp_maximum_cost p) costRank" if "\<not> exceedsClass v (co_maximum_cost k) costRank"
  proof (rule exceedsClass_narrowed [where broadest = "''high''"])
    show "\<not> exceedsClass v (safeMaximumClass (sp_maximum_cost p) cost costRank) costRank" using that by (simp add: k)
    show "cost = ''high''" if "cost \<in> {''high'', ''slow''}"
      using validateEnum_member [OF c] that by (auto simp: COST_CLASSES_def)
  qed (rule costRank_high)
  show "\<not> exceedsClass v (sp_maximum_latency p) latencyRank" if "\<not> exceedsClass v (co_maximum_latency k) latencyRank"
  proof (rule exceedsClass_narrowed [where broadest = "''slow''"])
    show "\<not> exceedsClass v (safeMaximumClass (sp_maximum_latency p) latency latencyRank) latencyRank" using that by (simp add: k)
    show "latency = ''slow''" if "latency \<in> {''high'', ''slow''}"
      using validateEnum_member [OF l] that by (auto simp: LATENCY_CLASSES_def)
  qed (rule latencyRank_slow)
  show "co_allowed_regions k \<noteq> [] \<and> set (co_allowed_regions k) \<subseteq> set (sp_allowed_regions p)"
    if "sp_allowed_regions p \<noteq> []" "\<not> co_regions_unsatisfiable k"
    using that by (cases "regions = []") (auto simp: k region_intersection_def sort_Nil unique_list_Nil_iff)
  show "js_upper (js_trim x) \<in> set (co_residency_regions k)" if "x \<in> set (sp_residency_regions p)" "js_trim x \<noteq> ''''"
    using stableList_member [OF r, of x] that by (simp add: k)
  show "co_data_allowed k \<longleftrightarrow> co_data_classification k \<in> set (sp_data_classifications p)"
    "sp_require_healthy p \<Longrightarrow> co_require_healthy k" "sp_require_ready p \<Longrightarrow> co_require_ready k"
    "co_allow_open_circuit k \<Longrightarrow> sp_allow_open_circuit p" "co_allow_rate_limited k \<Longrightarrow> sp_allow_rate_limited p"
    "co_allow_uncertain_schema k \<Longrightarrow> sp_allow_uncertain_schema p" by (simp_all add: k)
qed

subsection \<open>What a selection guarantees\<close>

lemma mandatoryFilter_eligible:
  assumes "mandatoryFilter num_size ajv c rq p k denied now = Inr f" "fr_eligible f"
  obtains a r where "candidateCapability c (sr_capability rq) (sr_operation rq) = Some a"
    "checkSchemaCompatibility num_size ajv (sr_input_schema rq) (ac_input_schema a) (ac_output_schema a)
       (sr_output_schema rq) = Inr r"
    "administrative_reasons c rq p = []" "requirement_reasons c p k (Some a) denied now = []"
    "schema_reasons k (Some r) = []" "fr_compatibility f = Some r"
proof -
  let ?a = "candidateCapability c (sr_capability rq) (sr_operation rq)"
  from assms obtain cmp where
    f: "administrative_reasons c rq p @ requirement_reasons c p k ?a denied now @ schema_reasons k cmp = []"
      "fr_compatibility f = cmp"
    and s: "(case ?a of
              None \<Rightarrow> Inr None
            | Some a \<Rightarrow> bindE (checkSchemaCompatibility num_size ajv (sr_input_schema rq) (ac_input_schema a)
                (ac_output_schema a) (sr_output_schema rq)) (\<lambda>r. Inr (Some r))) = Inr cmp"
    unfolding mandatoryFilter_def Let_def bindE_Inr_iff by (elim exE conjE) (auto split: if_splits)
  from f have r: "requirement_reasons c p k ?a denied now = []" by simp
  then have "?a \<noteq> None" unfolding requirement_reasons_def by (simp only: append_is_Nil_conv reason_Nil) blast
  then obtain a where a: "?a = Some a" by blast
  with s obtain r where "checkSchemaCompatibility num_size ajv (sr_input_schema rq) (ac_input_schema a)
      (ac_output_schema a) (sr_output_schema rq) = Inr r" "cmp = Some r"
    by (auto simp: bindE_Inr_iff)
  with that a f show ?thesis by simp
qed

text \<open>The order of the ranking: the score, then the trust, then the verification of the agent.\<close>

definition ranks_before :: "candidate \<times> int \<Rightarrow> candidate \<times> int \<Rightarrow> bool" where
  "ranks_before x y \<longleftrightarrow> snd y < snd x \<or> snd y = snd x
     \<and> (trustRank (ca_trust (fst y)) < trustRank (ca_trust (fst x)) \<or> trustRank (ca_trust (fst y)) = trustRank (ca_trust (fst x))
        \<and> verificationRank (ca_verification (fst y)) \<le> verificationRank (ca_verification (fst x)))"

lemma ranked: "sorted_wrt ranks_before (sort_by (compareCandidates collate) xs)"
proof (rule sorted_sort_by)
  show "ranks_before x y" if "0 < compareCandidates collate y x" for x y
    using that by (auto simp: compareCandidates_def ranks_before_def split: if_splits)
  show "ranks_before y x" if "\<not> 0 < compareCandidates collate y x" for x y
    using that by (auto simp: compareCandidates_def ranks_before_def split: if_splits)
qed (auto simp: transp_def ranks_before_def)

lemma mset_insert_by: "mset (insert_by cmp x ys) = add_mset x (mset ys)"
  by (induction ys) auto

lemma mset_sort_by: "mset (sort_by cmp xs) = mset xs"
proof -
  have "mset (fold (insert_by cmp) xs ys) = mset xs + mset ys" for ys
    by (induction xs arbitrary: ys) (auto simp: mset_insert_by)
  then show ?thesis by (simp add: sort_by_def)
qed

lemma mapE_member: "mapE f xs = Inr ys \<Longrightarrow> y \<in> set ys \<Longrightarrow> \<exists>x\<in>set xs. f x = Inr y"
  by (induction xs arbitrary: ys) (auto simp: bindE_Inr_iff)

text \<open>The candidates that pass, each once with the score it was given.\<close>

definition passing :: "(candidate \<Rightarrow> (candidate \<times> int option) res) \<Rightarrow> candidate list \<Rightarrow> (candidate \<times> int) list" where
  "passing ev cs = List.map_filter (\<lambda>c. case ev c of Inr (_, Some s) \<Rightarrow> Some (c, s) | _ \<Rightarrow> None) cs"

lemma passing_Cons: "passing ev (c # cs) = (case ev c of Inr (_, Some s) \<Rightarrow> (c, s) # passing ev cs | _ \<Rightarrow> passing ev cs)"
  by (simp add: passing_def List.map_filter_simps split: sum.split prod.split option.split)

lemma passing_member: "(c, s) \<in> set (passing ev cs) \<longleftrightarrow> c \<in> set cs \<and> (\<exists>c'. ev c = Inr (c', Some s))"
proof (induction cs)
  case (Cons a cs)
  show ?case
  proof (cases "ev a")
    case (Inr x)
    with Cons show ?thesis by (cases "snd x"; cases x) (auto simp: passing_Cons)
  qed (use Cons in \<open>auto simp: passing_Cons\<close>)
qed (simp add: passing_def List.map_filter_simps)

lemma eligible_passing:
  assumes "mapE ev cs = Inr rs" "\<And>c x. ev c = Inr x \<Longrightarrow> fst x = c"
  shows "eligible_of rs = passing ev cs"
  using assms(1)
proof (induction cs arbitrary: rs)
  case (Cons c cs)
  then obtain c' v ys where r: "ev c = Inr (c', v)" "rs = (c', v) # ys" "mapE ev cs = Inr ys" by (auto simp: bindE_Inr_iff)
  with assms(2) [OF r(1)] Cons.IH [OF r(3)] show ?case
    by (cases v) (simp_all add: eligible_of_def passing_def List.map_filter_simps)
qed (simp add: eligible_of_def passing_def List.map_filter_simps)

text \<open>A selection is the ranked list of the candidates that pass.\<close>

lemma evaluateSelection_cases:
  assumes "evaluateSelection num_size ajv collate denied workflow p rq given preferred fallback now candidates = Inr r"
  obtains k eligible where "effectiveConstraints p given = Inr k" "sorted_wrt ranks_before eligible"
    "sp_capability_requirements p = [] \<or> sr_capability rq \<in> set (sp_capability_requirements p)"
    "mset eligible = mset (passing (evaluate_candidate num_size ajv denied rq p k (if sp_preferences_permitted p then preferred else []) now) candidates)"
    "se_selected r = (case eligible of [] \<Rightarrow> None | s # _ \<Rightarrow> Some s)"
    "se_fallbacks r = (case eligible of [] \<Rightarrow> [] | _ # rest \<Rightarrow> take (fallback_count p fallback) rest)"
proof -
  let ?ev = "\<lambda>k. evaluate_candidate num_size ajv denied rq p k (if sp_preferences_permitted p then preferred else []) now"
  from assms obtain k rs where k: "effectiveConstraints p given = Inr k" "mapE (?ev k) candidates = Inr rs"
    and q: "sp_capability_requirements p = [] \<or> sr_capability rq \<in> set (sp_capability_requirements p)"
    and r: "r = selection_of workflow p k fallback (sort_by (compareCandidates collate) (eligible_of rs))"
    unfolding evaluateSelection_def bindE_Inr_iff sum.inject ensure_Inr_iff
    by (elim exE conjE) (rule that, assumption, assumption, assumption, erule sym)
  have pair: "fst x = c" if "?ev k c = Inr x" for c x
    using that by (auto simp: evaluate_candidate_def bindE_Inr_iff split: if_splits prod.splits)
  show ?thesis
  proof (rule that [OF k(1) ranked [of collate "eligible_of rs"] q])
    show "mset (sort_by (compareCandidates collate) (eligible_of rs)) = mset (passing (?ev k) candidates)"
      using eligible_passing [OF k(2) pair] by (simp add: mset_sort_by)
    show "se_selected r = (case sort_by (compareCandidates collate) (eligible_of rs) of [] \<Rightarrow> None | s # _ \<Rightarrow> Some s)"
      "se_fallbacks r = (case sort_by (compareCandidates collate) (eligible_of rs) of [] \<Rightarrow> []
         | _ # rest \<Rightarrow> take (fallback_count p fallback) rest)"
      by (simp_all add: r selection_of_def Let_def split: list.split)
  qed
qed

lemma evaluate_candidate_passes:
  assumes "evaluate_candidate num_size ajv denied rq p k preferred now c = Inr (c', Some s)"
  obtains f cs where "mandatoryFilter num_size ajv c rq p k (denied c) now = Inr f" "fr_eligible f"
    "scoreCandidate c f (sp_weights p) (js_trim (ca_passport c) \<in> set preferred) = Inr (s, cs)"
proof -
  from assms obtain f where f: "mandatoryFilter num_size ajv c rq p k (denied c) now = Inr f"
    "(if \<not> fr_eligible f then Inr (c, None)
      else bindE (scoreCandidate c f (sp_weights p) (js_trim (ca_passport c) \<in> set preferred)) (\<lambda>(score, _). Inr (c, Some score)))
     = Inr (c', Some s)"
    unfolding evaluate_candidate_def bindE_Inr_iff by (elim exE conjE) (rule that)
  from f(2) have "fr_eligible f" by (auto split: if_splits)
  moreover from this f(2) obtain y where "scoreCandidate c f (sp_weights p) (js_trim (ca_passport c) \<in> set preferred) = Inr y" "fst y = s"
    by (auto simp: bindE_Inr_iff)
  ultimately show ?thesis using f(1) that by (metis prod.collapse)
qed

lemma containsAll_iff: "containsAll vs rs \<longleftrightarrow> (\<forall>r\<in>set rs. js_upper r \<in> js_upper ` set vs)"
  by (simp add: containsAll_def list_all_iff)

lemma js_upper_idem [simp]: "js_upper (js_upper s) = js_upper s"
proof -
  have "upper_char (upper_char c) = upper_char c" for c
    unfolding upper_char_def by (auto simp: is_lower_def char_code_def)
  then show ?thesis by (simp add: js_upper_def)
qed

text \<open>What the absence of reasons of each group says.\<close>

lemma administrative_reasons_Nil:
  assumes "administrative_reasons c rq p = []"
  shows "js_trim (ca_passport c) \<notin> js_trim ` (set (sp_denied_passports p) \<union> set (sr_excluded rq))"
    "sp_allowed_passports p \<noteq> [] \<Longrightarrow> js_trim (ca_passport c) \<in> js_trim ` set (sp_allowed_passports p)"
    "js_lower (or_empty (ca_publisher c)) \<notin> js_lower ` set (sp_denied_publishers p)"
    "sp_allowed_publishers p \<noteq> [] \<Longrightarrow> js_lower (or_empty (ca_publisher c)) \<in> js_lower ` set (sp_allowed_publishers p)"
  using assms by (auto simp: administrative_reasons_def Let_def split: if_splits)

lemma intersects_iff: "intersects ls rs \<longleftrightarrow> (\<exists>x\<in>set rs. js_lower x \<in> js_lower ` set ls)"
  by (simp add: intersects_def list_ex_iff)

lemma regions_within_policy:
  assumes k: "effectiveConstraints p given = Inr k"
    and q: "\<not> (co_regions_unsatisfiable k \<or> co_allowed_regions k \<noteq> [] \<and> \<not> intersects (ca_regions c) (co_allowed_regions k))"
  shows "sp_allowed_regions p \<noteq> [] \<Longrightarrow> \<exists>x\<in>set (sp_allowed_regions p). js_lower x \<in> js_lower ` set (ca_regions c)"
  using effectiveConstraints_narrow(4) [OF k] q unfolding intersects_iff by blast

lemma residency_within_policy:
  assumes k: "effectiveConstraints p given = Inr k" and q: "containsAll (ca_residency c) (co_residency_regions k)"
    and x: "x \<in> set (sp_residency_regions p)" "js_trim x \<noteq> ''''"
  shows "js_upper (js_trim x) \<in> js_upper ` set (ca_residency c)"
proof -
  have "js_upper (js_upper (js_trim x)) \<in> js_upper ` set (ca_residency c)"
    using effectiveConstraints_narrow(5) [OF k x] q unfolding containsAll_iff by blast
  then show ?thesis by simp
qed

lemma health_required:
  assumes "(if h \<and> stale then [''STALE_HEALTH_SNAPSHOT''] else reason (h \<and> health \<noteq> ''healthy'') ''HEALTH_REQUIREMENT_NOT_MET'') = []" "h"
  shows "health = ''healthy'' \<and> \<not> stale"
  using assms by (auto split: if_splits)

lemma requirement_reasons_Nil:
  assumes k: "effectiveConstraints p given = Inr k" and rr: "requirement_reasons c p k (Some a) denied now = []"
  shows "ca_availability c = ''available''" "ca_lifecycle c = ''valid''" "ca_connection_status c = ''connected''" "\<not> denied"
    "sp_allowed_categories p \<noteq> [] \<Longrightarrow> \<exists>x\<in>set (sp_allowed_categories p). js_lower x \<in> js_lower ` set (ac_categories a)"
    "trustRank (sp_minimum_trust p) \<le> trustRank (ca_trust c)"
    "sp_verification_statuses p \<noteq> [] \<Longrightarrow> ca_verification c \<in> set (sp_verification_statuses p)"
    "co_data_classification k \<in> set (sp_data_classifications p) \<inter> set (ca_data_classifications c)"
    "\<not> exceedsClass (ca_cost c) (sp_maximum_cost p) costRank" "\<not> exceedsClass (ca_latency c) (sp_maximum_latency p) latencyRank"
    "sp_require_healthy p \<Longrightarrow> ca_health c = ''healthy'' \<and> \<not> ca_health_stale c"
    "sp_require_ready p \<Longrightarrow> ca_readiness c = ''ready''" "sp_allow_open_circuit p \<or> ca_circuit c \<noteq> ''open''"
    "\<not> sp_allow_rate_limited p \<Longrightarrow> ca_rate_limited_until c = Some u \<Longrightarrow> u \<le> now"
    "\<not> (co_regions_unsatisfiable k \<or> co_allowed_regions k \<noteq> [] \<and> \<not> intersects (ca_regions c) (co_allowed_regions k))"
    "containsAll (ca_residency c) (co_residency_regions k)"
proof -
  note n = effectiveConstraints_narrow [OF k]
  note q = rr [unfolded requirement_reasons_def append_is_Nil_conv reason_Nil option.case]
  show "ca_availability c = ''available''" "ca_lifecycle c = ''valid''" "ca_connection_status c = ''connected''" "\<not> denied"
    "sp_verification_statuses p \<noteq> [] \<Longrightarrow> ca_verification c \<in> set (sp_verification_statuses p)"
    "\<not> (co_regions_unsatisfiable k \<or> co_allowed_regions k \<noteq> [] \<and> \<not> intersects (ca_regions c) (co_allowed_regions k))"
    "containsAll (ca_residency c) (co_residency_regions k)" using q by blast+
  show "\<exists>x\<in>set (sp_allowed_categories p). js_lower x \<in> js_lower ` set (ac_categories a)" if "sp_allowed_categories p \<noteq> []"
    using q that unfolding intersects_iff by blast
  show "trustRank (sp_minimum_trust p) \<le> trustRank (ca_trust c)" using q n(1) by linarith
  show "co_data_classification k \<in> set (sp_data_classifications p) \<inter> set (ca_data_classifications c)" using q n(6) by blast
  show "\<not> exceedsClass (ca_cost c) (sp_maximum_cost p) costRank" using n(2) q by blast
  show "\<not> exceedsClass (ca_latency c) (sp_maximum_latency p) latencyRank" using n(3) q by blast
  show "ca_health c = ''healthy'' \<and> \<not> ca_health_stale c" if "sp_require_healthy p"
    using q n(7) [OF that] health_required by blast
  show "ca_readiness c = ''ready''" if "sp_require_ready p" using q n(8) [OF that] by blast
  show "sp_allow_open_circuit p \<or> ca_circuit c \<noteq> ''open''" using q n(9) by blast
  have "\<not> (case ca_rate_limited_until c of None \<Rightarrow> False | Some u \<Rightarrow> now < u)" if "\<not> sp_allow_rate_limited p" using q n(10) that by blast
  then show "u \<le> now" if "\<not> sp_allow_rate_limited p" "ca_rate_limited_until c = Some u" using that by simp
qed

lemma schema_reasons_Nil:
  assumes "effectiveConstraints p given = Inr k" "schema_reasons k (Some cmp) = []"
  shows "cp_status cmp \<noteq> ''incompatible''" "sp_allow_uncertain_schema p \<or> cp_status cmp \<noteq> ''uncertain''"
  using assms(2) effectiveConstraints_narrow(11) [OF assms(1)]
  by (auto simp only: schema_reasons_def option.case append_is_Nil_conv reason_Nil)

lemma requested_classification:
  assumes "effectiveConstraints p given = Inr k"
  shows "validateEnum (rq_data_classification given) DATA_CLASSIFICATIONS ''constraints.dataClassification'' (Some ''public'')
    = Inr (co_data_classification k)"
  using assms unfolding effectiveConstraints_def Let_def bindE_Inr_iff by (elim exE conjE) (simp only: sum.inject, fastforce)

lemma selected_candidate_passed:
  assumes "evaluateSelection num_size ajv collate denied workflow p rq given preferred fallback now candidates = Inr r"
    and "(c, s) \<in> set_option (se_selected r) \<union> set (se_fallbacks r)"
  obtains k f where "effectiveConstraints p given = Inr k" "c \<in> set candidates"
    "sp_capability_requirements p = [] \<or> sr_capability rq \<in> set (sp_capability_requirements p)"
    "mandatoryFilter num_size ajv c rq p k (denied c) now = Inr f" "fr_eligible f"
proof -
  from evaluateSelection_cases [OF assms(1)] obtain k eligible where e: "effectiveConstraints p given = Inr k"
    "sp_capability_requirements p = [] \<or> sr_capability rq \<in> set (sp_capability_requirements p)"
    "mset eligible = mset (passing (evaluate_candidate num_size ajv denied rq p k (if sp_preferences_permitted p then preferred else []) now) candidates)"
    and sel: "se_selected r = (case eligible of [] \<Rightarrow> None | s # _ \<Rightarrow> Some s)"
      "se_fallbacks r = (case eligible of [] \<Rightarrow> [] | _ # rest \<Rightarrow> take (fallback_count p fallback) rest)" by metis
  have "(c, s) \<in> set eligible" using assms(2) by (auto simp: sel split: list.splits dest: in_set_takeD)
  with mset_eq_setD [OF e(3)] obtain c' where c: "c \<in> set candidates" "evaluate_candidate num_size ajv denied rq p k (if sp_preferences_permitted p then preferred else []) now c = Inr (c', Some s)"
    by (auto simp only: passing_member)
  show ?thesis
    by (rule evaluate_candidate_passes [OF c(2)]) (rule that [OF e(1) c(1) e(2)])
qed

text \<open>
  C32: Whatever a request asks for, a selected agent and every fallback satisfy the policy, in each of its fields: the requested
  capability is one that the policy requires; the agent is one of the candidates, not denied by the policy engine, nor its passport by the
  policy or the request, nor its publisher by the policy, and both are allowed where the policy has a list of the allowed ones;
  it is available, valid and connected; offers the capability and operation in an allowed category, with schemas that
  are not incompatible (and not uncertain unless the policy allows it); the classification of the data is permitted by the policy and by
  the agent; it is trusted enough, has a verification status that the policy accepts, is in an allowed region and in
  all required residency regions, is within the cost and latency classes, healthy and ready if the policy requires
  it, and neither its circuit is open nor its rate limited unless the policy allows it.
\<close>

theorem selection_respects_policy:
  assumes "evaluateSelection num_size ajv collate denied workflow p rq given preferred fallback now candidates = Inr r"
    and "(c, s) \<in> set_option (se_selected r) \<union> set (se_fallbacks r)"
  shows "(sp_capability_requirements p = [] \<or> sr_capability rq \<in> set (sp_capability_requirements p))
    \<and> c \<in> set candidates \<and> \<not> denied c
    \<and> js_trim (ca_passport c) \<notin> js_trim ` (set (sp_denied_passports p) \<union> set (sr_excluded rq))
    \<and> (sp_allowed_passports p \<noteq> [] \<longrightarrow> js_trim (ca_passport c) \<in> js_trim ` set (sp_allowed_passports p))
    \<and> js_lower (or_empty (ca_publisher c)) \<notin> js_lower ` set (sp_denied_publishers p)
    \<and> (sp_allowed_publishers p \<noteq> [] \<longrightarrow> js_lower (or_empty (ca_publisher c)) \<in> js_lower ` set (sp_allowed_publishers p))
    \<and> ca_availability c = ''available'' \<and> ca_lifecycle c = ''valid'' \<and> ca_connection_status c = ''connected''
    \<and> (\<exists>a cmp. candidateCapability c (sr_capability rq) (sr_operation rq) = Some a
         \<and> (sp_allowed_categories p \<noteq> [] \<longrightarrow>
              (\<exists>x\<in>set (sp_allowed_categories p). js_lower x \<in> js_lower ` set (ac_categories a)))
         \<and> checkSchemaCompatibility num_size ajv (sr_input_schema rq) (ac_input_schema a) (ac_output_schema a)
             (sr_output_schema rq) = Inr cmp
         \<and> cp_status cmp \<noteq> ''incompatible''
         \<and> (sp_allow_uncertain_schema p \<or> cp_status cmp \<noteq> ''uncertain''))
    \<and> (\<exists>cls. validateEnum (rq_data_classification given) DATA_CLASSIFICATIONS ''constraints.dataClassification'' (Some ''public'') = Inr cls
         \<and> cls \<in> set (sp_data_classifications p) \<inter> set (ca_data_classifications c))
    \<and> trustRank (sp_minimum_trust p) \<le> trustRank (ca_trust c)
    \<and> (sp_verification_statuses p \<noteq> [] \<longrightarrow> ca_verification c \<in> set (sp_verification_statuses p))
    \<and> (sp_allowed_regions p \<noteq> [] \<longrightarrow> (\<exists>x\<in>set (sp_allowed_regions p). js_lower x \<in> js_lower ` set (ca_regions c)))
    \<and> (\<forall>x\<in>set (sp_residency_regions p). js_trim x \<noteq> '''' \<longrightarrow> js_upper (js_trim x) \<in> js_upper ` set (ca_residency c))
    \<and> \<not> exceedsClass (ca_cost c) (sp_maximum_cost p) costRank
    \<and> \<not> exceedsClass (ca_latency c) (sp_maximum_latency p) latencyRank
    \<and> (sp_require_healthy p \<longrightarrow> ca_health c = ''healthy'' \<and> \<not> ca_health_stale c)
    \<and> (sp_require_ready p \<longrightarrow> ca_readiness c = ''ready'')
    \<and> (sp_allow_open_circuit p \<or> ca_circuit c \<noteq> ''open'')
    \<and> (sp_allow_rate_limited p \<or> (\<forall>u. ca_rate_limited_until c = Some u \<longrightarrow> u \<le> now))"
proof (rule selected_candidate_passed [OF assms], goal_cases)
  case (1 k f)
  from mandatoryFilter_eligible [OF 1(4,5)] obtain a cmp where
    a: "candidateCapability c (sr_capability rq) (sr_operation rq) = Some a"
      "checkSchemaCompatibility num_size ajv (sr_input_schema rq) (ac_input_schema a) (ac_output_schema a)
         (sr_output_schema rq) = Inr cmp"
    and ad: "administrative_reasons c rq p = []" and rr: "requirement_reasons c p k (Some a) (denied c) now = []"
    and sc: "schema_reasons k (Some cmp) = []" by metis
  note q = requirement_reasons_Nil [OF 1(1) rr]
  have rl: "sp_allow_rate_limited p \<or> (\<forall>u. ca_rate_limited_until c = Some u \<longrightarrow> u \<le> now)" using q(14) by blast
  show ?case
    by (intro conjI impI ballI exI) (rule 1 a rl administrative_reasons_Nil [OF ad] q(1-10) q(11) [THEN conjunct1] q(11) [THEN conjunct2] q(12,13) schema_reasons_Nil [OF 1(1) sc]
        requested_classification [OF 1(1)] regions_within_policy [OF 1(1) q(15)] residency_within_policy [OF 1(1) q(16)]; assumption?)+
qed

subsection \<open>Scores\<close>

lemma js_round_percent:
  assumes "0 \<le> r" "r \<le> 10000"
  shows "0 \<le> js_round r" "js_round r \<le> 10000"
  using js_round_mono [OF assms(1)] js_round_mono [OF assms(2)] js_round_of_int [of 0] js_round_of_int [of 10000] by simp_all

lemma fraction_bounds:
  assumes "0 \<le> i" "i \<le> n"
  shows "0 \<le> of_int i / of_int (max 1 n) * (10000::rat)" "of_int i / of_int (max 1 n) * (10000::rat) \<le> 10000"
proof -
  have m: "(0::rat) < of_int (max 1 n)" by simp
  have i: "(of_int i :: rat) \<le> of_int (max 1 n)" using assms(2) by (simp add: max_def)
  show "0 \<le> of_int i / of_int (max 1 n) * (10000::rat)" using assms(1) by simp
  show "of_int i / of_int (max 1 n) * (10000::rat) \<le> 10000"
    using i m by (simp only: times_divide_eq_left pos_divide_le_eq mult.commute [of "10000"] mult_le_cancel_right) simp
qed

lemma classScore_bounds: "0 \<le> classScore v values rev_order \<and> classScore v values rev_order \<le> 10000"
proof -
  let ?ranked = "filter (\<lambda>x. x \<noteq> ''unknown'') values"
  let ?n = "int (length ?ranked) - 1"
  show ?thesis
  proof (cases "index_of ?ranked v < 0 \<or> v = ''unknown''")
    case True
    then show ?thesis by (simp add: classScore_def Let_def)
  next
    case False
    let ?i = "if rev_order then ?n - index_of ?ranked v else index_of ?ranked v"
    have "0 \<le> ?i" "?i \<le> ?n" using False index_of_le [of ?ranked v] by auto
    from js_round_percent [OF fraction_bounds [OF this]] False show ?thesis
      by (simp add: classScore_def Let_def)
  qed
qed

lemma component_bounds: "(k, x) \<in> set (componentScores c f preferred) \<Longrightarrow> 0 \<le> x \<and> x \<le> 10000"
  using classScore_bounds by (auto simp: componentScores_def)

lemma component_names: "map fst (componentScores c f preferred) = SCORE_COMPONENTS"
  by (simp add: componentScores_def SCORE_COMPONENTS_def DEFAULT_SCORE_WEIGHTS_def)

lemma distinct_components: "distinct SCORE_COMPONENTS"
  by code_simp

lemma normalizeScoreWeights_Inr:
  assumes "normalizeScoreWeights input = Inr (ws, tot)"
  shows "map fst ws = SCORE_COMPONENTS" "\<forall>(k, w)\<in>set ws. 0 \<le> w \<and> w \<le> maximumScoreWeight"
    "tot = sum_list (map snd ws)" "1 \<le> tot" "tot \<le> maximumScoreWeightTotal"
proof -
  from assms have m: "mapE (weight_of input) DEFAULT_SCORE_WEIGHTS = Inr ws"
    and t: "tot = sum_list (map snd ws)" "1 \<le> tot" "tot \<le> maximumScoreWeightTotal"
    by (auto simp: normalizeScoreWeights_def Let_def bindE_Inr_iff)
  have w: "fst y = fst x \<and> 0 \<le> snd y \<and> snd y \<le> maximumScoreWeight" if "weight_of input x = Inr y" for x y
    using that by (auto simp: weight_of_def Let_def split: prod.splits option.splits if_splits)
  have "mapE (weight_of input) xs = Inr ys \<Longrightarrow> map fst ys = map fst xs" for xs ys
    by (induction xs arbitrary: ys) (auto simp: bindE_Inr_iff dest: w)
  from this [OF m] show "map fst ws = SCORE_COMPONENTS" by (simp add: SCORE_COMPONENTS_def)
  show "\<forall>(k, w)\<in>set ws. 0 \<le> w \<and> w \<le> maximumScoreWeight"
    using mapE_member [OF m] w by fastforce
  show "tot = sum_list (map snd ws)" "1 \<le> tot" "tot \<le> maximumScoreWeightTotal" by (rule t)+
qed

lemma map_the_map_of: "distinct (map fst ws) \<Longrightarrow> map (\<lambda>k. the (map_of ws k)) (map fst ws) = map snd ws"
  by (simp only: map_map o_def) (rule map_cong [OF refl], force dest: map_of_is_SomeI)

lemma sum_scaled: "sum_list (map (\<lambda>k. 10000 * (of_int (f k) :: rat)) ks) = 10000 * of_int (sum_list (map f ks))"
  by (induction ks) (simp_all add: algebra_simps)

lemma score_bounds:
  assumes "scoreCandidate c f weights preferred = Inr (s, cs)"
  shows "0 \<le> s \<and> s \<le> 10000"
proof -
  let ?cs = "componentScores c f preferred"
  from assms obtain ws tot where ws: "normalizeScoreWeights (\<lambda>k. map_option num_of_int (map_of weights k)) = Inr (ws, tot)"
    and s: "s = \<lfloor>sum_list (map (\<lambda>k. the (map_of ?cs k) * of_int (the (map_of ws k))) SCORE_COMPONENTS) / of_int tot\<rfloor>"
    by (auto simp: scoreCandidate_def Let_def bindE_Inr_iff)
  note n = normalizeScoreWeights_Inr [OF ws]
  have c: "0 \<le> the (map_of ?cs k) \<and> the (map_of ?cs k) \<le> 10000" if "k \<in> set SCORE_COMPONENTS" for k
  proof -
    from that obtain x where "map_of ?cs k = Some x"
      by (metis component_names map_of_eq_None_iff not_None_eq list.set_map)
    with component_bounds [OF map_of_SomeD [OF this]] show ?thesis by simp
  qed
  have w: "0 \<le> the (map_of ws k)" if "k \<in> set SCORE_COMPONENTS" for k
  proof -
    from that n(1) obtain x where "map_of ws k = Some x"
      by (metis map_of_eq_None_iff not_None_eq list.set_map)
    with n(2) show ?thesis by (auto dest: map_of_SomeD)
  qed
  have lower: "0 \<le> sum_list (map (\<lambda>k. the (map_of ?cs k) * of_int (the (map_of ws k))) SCORE_COMPONENTS)"
    using c w by (intro sum_list_nonneg) auto
  have "sum_list (map (\<lambda>k. the (map_of ?cs k) * of_int (the (map_of ws k))) SCORE_COMPONENTS)
      \<le> sum_list (map (\<lambda>k. 10000 * of_int (the (map_of ws k))) SCORE_COMPONENTS)"
    using c w by (intro sum_list_mono mult_right_mono) auto
  also have "\<dots> = 10000 * of_int (sum_list (map (\<lambda>k. the (map_of ws k)) (map fst ws)))"
    unfolding n(1) by (rule sum_scaled)
  also have "\<dots> = 10000 * of_int tot"
    by (subst map_the_map_of) (use distinct_components n(1,3) in simp_all)
  finally have upper: "sum_list (map (\<lambda>k. the (map_of ?cs k) * of_int (the (map_of ws k))) SCORE_COMPONENTS)
      \<le> 10000 * of_int tot" .
  have t: "(0::rat) < of_int tot" using n(4) by simp
  from lower t have "0 \<le> s" by (simp add: s)
  moreover from upper t have "sum_list (map (\<lambda>k. the (map_of ?cs k) * of_int (the (map_of ws k))) SCORE_COMPONENTS)
      / of_int tot \<le> of_int 10000" by (simp only: pos_divide_le_eq of_int_numeral)
  then have "s \<le> 10000" unfolding s by (metis floor_mono floor_of_int)
  ultimately show ?thesis by simp
qed

text \<open>A score is the weighted mean of the components, rounded down.\<close>

lemma score_mean:
  assumes "scoreCandidate c f weights preferred = Inr (s, cs)"
  shows "\<exists>ws total. normalizeScoreWeights (\<lambda>k. map_option num_of_int (map_of weights k)) = Inr (ws, total) \<and> 1 \<le> total
    \<and> rat_of_int (s * total) \<le> sum_list (map (\<lambda>k. the (map_of (componentScores c f preferred) k) * of_int (the (map_of ws k))) SCORE_COMPONENTS)
    \<and> sum_list (map (\<lambda>k. the (map_of (componentScores c f preferred) k) * of_int (the (map_of ws k))) SCORE_COMPONENTS)
        < of_int ((s + 1) * total)"
proof -
  let ?sum = "\<lambda>ws. sum_list (map (\<lambda>k. the (map_of (componentScores c f preferred) k) * of_int (the (map_of ws k))) SCORE_COMPONENTS)"
  from assms obtain ws total where ws: "normalizeScoreWeights (\<lambda>k. map_option num_of_int (map_of weights k)) = Inr (ws, total)"
    and s: "s = \<lfloor>?sum ws / of_int total\<rfloor>"
    by (auto simp: scoreCandidate_def Let_def bindE_Inr_iff)
  have t: "1 \<le> total" using normalizeScoreWeights_Inr(4) [OF ws] .
  then have pos: "(0::rat) < of_int total" by simp
  have "of_int s \<le> ?sum ws / of_int total" "?sum ws / of_int total < of_int s + 1"
    unfolding s by (rule of_int_floor_le, rule floor_correct [THEN conjunct2, simplified])
  then have "rat_of_int (s * total) \<le> ?sum ws" "?sum ws < of_int ((s + 1) * total)"
    using pos by (simp_all add: pos_le_divide_eq pos_divide_less_eq)
  with ws t show ?thesis by blast
qed

text \<open>
  C33: The selection is the best: there is a ranking of exactly the candidates that pass the mandatory filter, each once with
  its own score, which is the mean of its components under the weights of the policy rounded down and lies between 0 and 10000; it
  falls by score, then trust, then verification; the selected agent is its first, none is selected exactly when no candidate passes,
  and the fallbacks are the next ones in its order, as many as the request (or else the policy) says, at most ten, and none when the
  policy permits none.
\<close>

theorem selection_is_best:
  assumes "evaluateSelection num_size ajv collate denied workflow p rq given preferred fallback now candidates = Inr r"
  shows "\<exists>k ranking. effectiveConstraints p given = Inr k
    \<and> mset ranking = mset (passing (evaluate_candidate num_size ajv denied rq p k
            (if sp_preferences_permitted p then preferred else []) now) candidates)
    \<and> sorted_wrt ranks_before ranking
    \<and> (\<forall>(c, s)\<in>set ranking. 0 \<le> s \<and> s \<le> 10000 \<and> c \<in> set candidates
        \<and> (\<exists>f ws total. mandatoryFilter num_size ajv c rq p k (denied c) now = Inr f \<and> fr_eligible f
             \<and> normalizeScoreWeights (\<lambda>k. map_option num_of_int (map_of (sp_weights p) k)) = Inr (ws, total) \<and> 1 \<le> total
             \<and> (let mean = sum_list (map (\<lambda>n. the (map_of (componentScores c f
                     (sp_preferences_permitted p \<and> js_trim (ca_passport c) \<in> set preferred)) n) * of_int (the (map_of ws n))) SCORE_COMPONENTS)
                in rat_of_int (s * total) \<le> mean \<and> mean < of_int ((s + 1) * total))))
    \<and> se_selected r = (if ranking = [] then None else Some (hd ranking))
    \<and> se_fallbacks r = (if sp_fallbacks_permitted p
         then take (nat (min (case fallback of None \<Rightarrow> sp_fallback_count p | Some n \<Rightarrow> n) 10)) (tl ranking) else [])"
proof -
  from evaluateSelection_cases [OF assms] obtain k ranking where e: "effectiveConstraints p given = Inr k"
    "sorted_wrt ranks_before ranking" "mset ranking = mset (passing (evaluate_candidate num_size ajv denied rq p k (if sp_preferences_permitted p then preferred else []) now) candidates)"
    and sel: "se_selected r = (case ranking of [] \<Rightarrow> None | s # _ \<Rightarrow> Some s)"
      "se_fallbacks r = (case ranking of [] \<Rightarrow> [] | _ # rest \<Rightarrow> take (fallback_count p fallback) rest)" by metis
  have score: "0 \<le> s \<and> s \<le> 10000 \<and> c \<in> set candidates
        \<and> (\<exists>f ws total. mandatoryFilter num_size ajv c rq p k (denied c) now = Inr f \<and> fr_eligible f
             \<and> normalizeScoreWeights (\<lambda>k. map_option num_of_int (map_of (sp_weights p) k)) = Inr (ws, total) \<and> 1 \<le> total
             \<and> (let mean = sum_list (map (\<lambda>n. the (map_of (componentScores c f
                     (sp_preferences_permitted p \<and> js_trim (ca_passport c) \<in> set preferred)) n) * of_int (the (map_of ws n))) SCORE_COMPONENTS)
                in rat_of_int (s * total) \<le> mean \<and> mean < of_int ((s + 1) * total)))"
    if "(c, s) \<in> set ranking" for c s
  proof -
    have pref: "(js_trim (ca_passport c) \<in> set (if sp_preferences_permitted p then preferred else []))
        = (sp_preferences_permitted p \<and> js_trim (ca_passport c) \<in> set preferred)" by simp
    from that mset_eq_setD [OF e(3)] obtain c' where c: "c \<in> set candidates" "evaluate_candidate num_size ajv denied rq p k (if sp_preferences_permitted p then preferred else []) now c = Inr (c', Some s)"
      by (auto simp: passing_member)
    show ?thesis
    proof (rule evaluate_candidate_passes [OF c(2)], unfold pref)
      fix f cs assume f: "mandatoryFilter num_size ajv c rq p k (denied c) now = Inr f" "fr_eligible f"
        "scoreCandidate c f (sp_weights p) (sp_preferences_permitted p \<and> js_trim (ca_passport c) \<in> set preferred) = Inr (s, cs)"
      from score_mean [OF f(3)] score_bounds [OF f(3)] f(1,2) c(1) show ?thesis unfolding Let_def by blast
    qed
  qed
  have "fallback_count p fallback = (if sp_fallbacks_permitted p
      then nat (min (case fallback of None \<Rightarrow> sp_fallback_count p | Some n \<Rightarrow> n) 10) else 0)"
    by (simp add: fallback_count_def maximumFallbackCandidates_def)
  then have "se_fallbacks r = (if sp_fallbacks_permitted p
         then take (nat (min (case fallback of None \<Rightarrow> sp_fallback_count p | Some n \<Rightarrow> n) 10)) (tl ranking) else [])"
    by (cases ranking) (simp_all add: sel)
  moreover have "se_selected r = (if ranking = [] then None else Some (hd ranking))"
    by (cases ranking) (simp_all add: sel)
  ultimately show ?thesis using e score by (intro exI [of _ k] exI [of _ ranking] conjI) (simp_all only: split_beta prod.collapse, blast)
qed

subsection \<open>A sample selection\<close>

definition sample_capability :: agent_capability where
  "sample_capability =
     \<lparr>ac_key = ''translate'', ac_operations = [''invoke''], ac_categories = [''TEXT''], ac_input_schema = sample_accepting,
      ac_output_schema = sample_closed\<rparr>"

definition sample_candidate :: candidate where
  "sample_candidate =
     \<lparr>ca_passport = ''p1'', ca_connection = ''c1'', ca_publisher = Some ''acme'', ca_availability = ''available'',
      ca_lifecycle = ''valid'', ca_connection_status = ''connected'', ca_capabilities = [sample_capability],
      ca_trust = ''platform_verified'', ca_verification = ''platform_verified'', ca_data_classifications = [''public''],
      ca_regions = [''EU''], ca_residency = [''EU''], ca_cost = ''low'', ca_latency = ''fast'', ca_health_stale = False,
      ca_health = ''healthy'', ca_readiness = ''ready'', ca_circuit = ''closed'', ca_rate_limited_until = None,
      ca_preferred = False, ca_reliability = Some 9000\<rparr>"

definition sample_policy :: selection_policy where
  "sample_policy =
     \<lparr>sp_name = ''default'', sp_description = '''', sp_capability_requirements = [], sp_allowed_categories = [],
      sp_allowed_passports = [], sp_denied_passports = [''p2''], sp_allowed_publishers = [], sp_denied_publishers = [],
      sp_minimum_trust = ''registered'', sp_verification_statuses = [], sp_allowed_regions = [''EU''],
      sp_residency_regions = [''EU''], sp_data_classifications = DATA_CLASSIFICATIONS, sp_maximum_cost = ''high'',
      sp_maximum_latency = ''slow'', sp_require_healthy = True, sp_require_ready = True, sp_allow_open_circuit = False,
      sp_allow_rate_limited = False, sp_allow_uncertain_schema = False, sp_approval = no_approval_rules,
      sp_weights = DEFAULT_SCORE_WEIGHTS, sp_fallback_count = 3, sp_fallbacks_permitted = True,
      sp_preferences_permitted = True\<rparr>"

definition sample_request :: selection_request where
  "sample_request =
     \<lparr>sr_capability = ''translate'', sr_operation = ''invoke'', sr_input_schema = sample_closed,
      sr_output_schema = sample_accepting, sr_excluded = []\<rparr>"

definition sample_constraints :: request_constraints where
  "sample_constraints =
     \<lparr>rq_minimum_trust = None, rq_maximum_cost = None, rq_maximum_latency = None, rq_allowed_regions = [],
      rq_residency_regions = [], rq_data_classification = None, rq_require_healthy = None, rq_require_ready = None,
      rq_allow_open_circuit = None, rq_allow_rate_limited = None\<rparr>"

definition sample_effective :: constraints where
  "sample_effective =
     \<lparr>co_minimum_trust = ''registered'', co_maximum_cost = ''high'', co_maximum_latency = ''slow'',
      co_allowed_regions = [''EU''], co_regions_unsatisfiable = False, co_residency_regions = [''EU''],
      co_data_classification = ''public'', co_data_allowed = True, co_require_healthy = True, co_require_ready = True,
      co_allow_open_circuit = False, co_allow_rate_limited = False, co_allow_uncertain_schema = False\<rparr>"

definition sample_filtered :: filter_result where
  "sample_filtered =
     \<lparr>fr_eligible = True, fr_reasons = [],
      fr_compatibility = Some \<lparr>cp_status = ''compatible'', cp_reasons = [''SCHEMA_COMPATIBLE'']\<rparr>\<rparr>"

lemma sample_effective: "effectiveConstraints sample_policy sample_constraints = Inr sample_effective"
  by code_simp

text \<open>A rival that is trusted less, and a candidate that the policy denies.\<close>

definition weak_candidate :: candidate where
  "weak_candidate = sample_candidate\<lparr>ca_passport := ''p3'', ca_trust := ''registered''\<rparr>"

definition denied_candidate :: candidate where
  "denied_candidate = sample_candidate\<lparr>ca_passport := '' p2 ''\<rparr>"

lemma sample_filter:
  assumes "c \<in> {sample_candidate, weak_candidate}"
  shows "mandatoryFilter (\<lambda>_. 1) (\<lambda>_. True) c sample_request sample_policy sample_effective False 0 = Inr sample_filtered"
proof -
  have "candidateCapability c (sr_capability sample_request) (sr_operation sample_request) = Some sample_capability"
    using assms by (elim insertE emptyE) (simp only:, code_simp)+
  moreover have "administrative_reasons c sample_request sample_policy = []"
    using assms by (elim insertE emptyE) (simp only:, code_simp)+
  moreover have "requirement_reasons c sample_policy sample_effective (Some sample_capability) False 0 = []"
    using assms by (elim insertE emptyE) (simp only:, code_simp)+
  moreover have "sr_input_schema sample_request = sample_closed" "sr_output_schema sample_request = sample_accepting"
    "ac_input_schema sample_capability = sample_accepting" "ac_output_schema sample_capability = sample_closed"
    by (simp_all add: sample_request_def sample_capability_def)
  ultimately show ?thesis
    by (simp add: mandatoryFilter_def sample_schemas_compatible bindE_def Let_def sample_filtered_def schema_reasons_def
        sort_Nil unique_list_Nil_iff del: One_nat_def)
qed

lemma map_sum_Inr_iff: "map_sum id fst x = Inr s \<longleftrightarrow> (\<exists>cs. x = Inr (s, cs))"
  by (cases x) auto

lemma sample_evaluates:
  "evaluate_candidate (\<lambda>_. 1) (\<lambda>_. True) (\<lambda>_. False) sample_request sample_policy sample_effective [] 0 sample_candidate
    = Inr (sample_candidate, Some 9700)"
  "evaluate_candidate (\<lambda>_. 1) (\<lambda>_. True) (\<lambda>_. False) sample_request sample_policy sample_effective [] 0 weak_candidate
    = Inr (weak_candidate, Some 8366)"
  "evaluate_candidate (\<lambda>_. 1) (\<lambda>_. True) (\<lambda>_. False) sample_request sample_policy sample_effective [] 0 denied_candidate
    = Inr (denied_candidate, None)"
proof -
  have s: "map_sum id fst (scoreCandidate sample_candidate sample_filtered (sp_weights sample_policy) False) = Inr 9700"
    "map_sum id fst (scoreCandidate weak_candidate sample_filtered (sp_weights sample_policy) False) = Inr 8366"
    by code_simp+
  then obtain cs ws where sc: "scoreCandidate sample_candidate sample_filtered (sp_weights sample_policy) False = Inr (9700, cs)"
    "scoreCandidate weak_candidate sample_filtered (sp_weights sample_policy) False = Inr (8366, ws)"
    by (auto simp: map_sum_Inr_iff)
  have e: "fr_eligible sample_filtered" by (simp add: sample_filtered_def)
  have f: "mandatoryFilter (\<lambda>_. 1) (\<lambda>_. True) sample_candidate sample_request sample_policy sample_effective False 0 = Inr sample_filtered"
    "mandatoryFilter (\<lambda>_. 1) (\<lambda>_. True) weak_candidate sample_request sample_policy sample_effective False 0 = Inr sample_filtered"
    by (rule sample_filter, simp)+
  show "evaluate_candidate (\<lambda>_. 1) (\<lambda>_. True) (\<lambda>_. False) sample_request sample_policy sample_effective [] 0 sample_candidate
    = Inr (sample_candidate, Some 9700)"
    "evaluate_candidate (\<lambda>_. 1) (\<lambda>_. True) (\<lambda>_. False) sample_request sample_policy sample_effective [] 0 weak_candidate
    = Inr (weak_candidate, Some 8366)"
    by (simp_all add: evaluate_candidate_def f sc e bindE_def del: One_nat_def)
  have d: "administrative_reasons denied_candidate sample_request sample_policy = [''ADMINISTRATIVELY_DENIED'']" by code_simp
  have a: "candidateCapability denied_candidate (sr_capability sample_request) (sr_operation sample_request) = Some sample_capability"
    by code_simp
  have sch: "sr_input_schema sample_request = sample_closed" "sr_output_schema sample_request = sample_accepting"
    "ac_input_schema sample_capability = sample_accepting" "ac_output_schema sample_capability = sample_closed"
    by (simp_all add: sample_request_def sample_capability_def)
  show "evaluate_candidate (\<lambda>_. 1) (\<lambda>_. True) (\<lambda>_. False) sample_request sample_policy sample_effective [] 0 denied_candidate
    = Inr (denied_candidate, None)"
    by (simp add: evaluate_candidate_def mandatoryFilter_def a sch sample_schemas_compatible bindE_def Let_def d del: One_nat_def)
qed

text \<open>The selection among the three, whose better candidate comes last.\<close>

definition sample_selection :: selection where
  "sample_selection = selection_of (\<lambda>_. False) sample_policy sample_effective None [(sample_candidate, 9700), (weak_candidate, 8366)]"

lemma sample_selects:
  "evaluateSelection (\<lambda>_. 1) (\<lambda>_. True) (\<lambda>_ _. 0) (\<lambda>_. False) (\<lambda>_. False) sample_policy sample_request sample_constraints
     [] None 0 [weak_candidate, denied_candidate, sample_candidate] = Inr sample_selection" (is ?evaluates)
  "se_selected sample_selection = Some (sample_candidate, 9700)" (is ?selected)
proof -
  have "sp_capability_requirements sample_policy = []" by (simp add: sample_policy_def)
  then show ?evaluates
    by (simp add: evaluateSelection_def sample_effective sample_evaluates bindE_def ensure_def eligible_of_def List.map_filter_def
        sample_selection_def sort_by_def compareCandidates_def del: One_nat_def)
  show ?selected by (simp add: sample_selection_def selection_of_def Let_def)
qed

theorem selection_respects_policy_witness:
  "trustRank (sp_minimum_trust sample_policy) \<le> trustRank (ca_trust sample_candidate)
    \<and> ca_connection_status sample_candidate = ''connected''
    \<and> js_lower (or_empty (ca_publisher sample_candidate)) \<notin> js_lower ` set (sp_denied_publishers sample_policy)"
  using selection_respects_policy [OF sample_selects(1), of sample_candidate 9700] sample_selects(2) by simp

theorem selection_is_best_witness:
  "se_selected sample_selection = Some (sample_candidate, 9700) \<and> se_fallbacks sample_selection = [(weak_candidate, 8366)]"
proof -
  obtain k ranking where k: "effectiveConstraints sample_policy sample_constraints = Inr k"
    and r: "mset ranking = mset (passing (evaluate_candidate (\<lambda>_. 1) (\<lambda>_. True) (\<lambda>_. False) sample_request sample_policy k
        (if sp_preferences_permitted sample_policy then [] else []) 0) [weak_candidate, denied_candidate, sample_candidate])"
    and so: "sorted_wrt ranks_before ranking"
    and sel: "se_selected sample_selection = (if ranking = [] then None else Some (hd ranking))"
      "se_fallbacks sample_selection = (if sp_fallbacks_permitted sample_policy
         then take (nat (min (case None of None \<Rightarrow> sp_fallback_count sample_policy | Some n \<Rightarrow> n) 10)) (tl ranking) else [])"
    using selection_is_best [OF sample_selects(1)] by blast
  have "k = sample_effective" using k sample_effective by simp
  with r have "mset ranking = {#(weak_candidate, 8366), (sample_candidate, 9700)#}"
    by (simp add: passing_Cons sample_evaluates del: One_nat_def) (simp add: passing_def List.map_filter_simps)
  then have "ranking \<in> {[(weak_candidate, 8366), (sample_candidate, 9700)], [(sample_candidate, 9700), (weak_candidate, 8366)]}"
    by (cases ranking; cases "tl ranking") (auto simp: add_eq_conv_ex)
  with so have "ranking = [(sample_candidate, 9700), (weak_candidate, 8366)]" by (auto simp: ranks_before_def)
  with sel show ?thesis by (simp add: sample_policy_def)
qed

end
