(* ===== verification/Durable_Work.thy ===== *)
theory Durable_Work
  imports Document_Store "HOL-Library.AList"
begin

text \<open>
  The durable work queue: work items with leases (backend/src/services/durableWork.service.js, the document of
  models/RuntimeWorkItem.js and constants/durableWork.js). This theory holds the items, the operations of a worker on
  an item it owns (claim, start, heartbeat, milestones, completion, dead letters) and cancellation; the preparation of a
  safe replay, retries, the scan for abandoned work and the requeue are in \<open>Durable_Replay\<close>.

  \<^item> Every operation is modelled with its calls on the collection of items, and \<open>env n\<close> is what other
    workers do before its \<open>n\<close>-th call. Identifiers of items are the keys of the collection.
  \<^item> The hash of a lease token, the random token, the clock and the document that \<open>invocationPermitsClaim\<close>
    reads are arguments. The event outbox (another collection, and the repair markers it leaves on an item) is not
    modelled.
\<close>

subsection \<open>Statuses and milestones\<close>

datatype work_status =
    W_Pending | W_Waiting_For_Approval | W_Blocked | W_Claimed | W_Running | W_Retry_Preparing | W_Retry_Scheduled
  | W_Cancellation_Requested | W_Cancelled | W_Completed | W_Failed | W_Recovery_Required | W_Dead_Lettered

fun work_status_name :: "work_status \<Rightarrow> string" where
  "work_status_name W_Pending = ''pending''"
| "work_status_name W_Waiting_For_Approval = ''waiting_for_approval''"
| "work_status_name W_Blocked = ''blocked''"
| "work_status_name W_Claimed = ''claimed''"
| "work_status_name W_Running = ''running''"
| "work_status_name W_Retry_Preparing = ''retry_preparing''"
| "work_status_name W_Retry_Scheduled = ''retry_scheduled''"
| "work_status_name W_Cancellation_Requested = ''cancellation_requested''"
| "work_status_name W_Cancelled = ''cancelled''"
| "work_status_name W_Completed = ''completed''"
| "work_status_name W_Failed = ''failed''"
| "work_status_name W_Recovery_Required = ''recovery_required''"
| "work_status_name W_Dead_Lettered = ''dead_lettered''"

definition CLAIMABLE_DURABLE_WORK_STATUSES :: "work_status list" where
  "CLAIMABLE_DURABLE_WORK_STATUSES = [W_Pending, W_Retry_Scheduled]"

definition OWNED_DURABLE_WORK_STATUSES :: "work_status list" where
  "OWNED_DURABLE_WORK_STATUSES = [W_Claimed, W_Running, W_Retry_Preparing, W_Cancellation_Requested]"

definition TERMINAL_DURABLE_WORK_STATUSES :: "work_status list" where
  "TERMINAL_DURABLE_WORK_STATUSES = [W_Cancelled, W_Completed, W_Failed, W_Recovery_Required, W_Dead_Lettered]"

definition FINALIZE_STATUSES :: "work_status list" where
  "FINALIZE_STATUSES = [W_Cancelled, W_Completed, W_Failed, W_Recovery_Required, W_Dead_Lettered]"

datatype milestone =
    M_Work_Claimed | M_Validation_Completed | M_Credentials_Loaded | M_Outbound_Transmission_Started
  | M_Outbound_Response_Received | M_Response_Validated | M_Finalization_Started | M_Invocation_Persisted

fun milestone_name :: "milestone \<Rightarrow> string" where
  "milestone_name M_Work_Claimed = ''work_claimed''"
| "milestone_name M_Validation_Completed = ''validation_completed''"
| "milestone_name M_Credentials_Loaded = ''credentials_loaded''"
| "milestone_name M_Outbound_Transmission_Started = ''outbound_transmission_started''"
| "milestone_name M_Outbound_Response_Received = ''outbound_response_received''"
| "milestone_name M_Response_Validated = ''response_validated''"
| "milestone_name M_Finalization_Started = ''finalization_started''"
| "milestone_name M_Invocation_Persisted = ''invocation_persisted''"

definition DURABLE_WORK_MILESTONES :: "milestone list" where
  "DURABLE_WORK_MILESTONES =
     [M_Work_Claimed, M_Validation_Completed, M_Credentials_Loaded, M_Outbound_Transmission_Started,
      M_Outbound_Response_Received, M_Response_Validated, M_Finalization_Started, M_Invocation_Persisted]"

definition DURABLE_MILESTONE_STATUSES :: "string list" where
  "DURABLE_MILESTONE_STATUSES = [''completed'', ''failed'']"

definition DURABLE_RECOVERY_REASONS :: "string list" where
  "DURABLE_RECOVERY_REASONS =
     [''WORKER_TERMINATED_BEFORE_TRANSMISSION'', ''LEASE_EXPIRED_BEFORE_TRANSMISSION'',
      ''LEASE_EXPIRED_AFTER_TRANSMISSION'', ''WORKER_LOST_DURING_REMOTE_EXECUTION'',
      ''WORKER_LOST_DURING_FINALIZATION'', ''RESULT_PERSISTENCE_UNCERTAIN'', ''SAFE_RETRY_ATTEMPTS_EXHAUSTED'']"

definition POST_TRANSMISSION_MILESTONES :: "milestone list" where
  "POST_TRANSMISSION_MILESTONES =
     [M_Outbound_Transmission_Started, M_Outbound_Response_Received, M_Response_Validated, M_Finalization_Started,
      M_Invocation_Persisted]"

subsection \<open>Work items\<close>

record recorded_milestone =
  rm_name :: milestone
  rm_at :: int
  rm_attempt :: nat
  rm_safe_status :: string

record work_item =
  wk_status :: work_status
  wk_recovery_retry :: bool
  wk_trace_id :: "string option"
  wk_priority :: int
  wk_created_at :: int
  wk_available_at :: int
  wk_claimed_at :: "int option"
  wk_started_at :: "int option"
  wk_completed_at :: "int option"
  wk_failed_at :: "int option"
  wk_cancelled_at :: "int option"
  wk_dead_lettered_at :: "int option"
  wk_requeued_at :: "int option"
  wk_requeue_count :: nat
  wk_lease_owner :: "string option"
  wk_lease_token_hash :: "string option"
  wk_lease_epoch :: nat
  wk_lease_acquired_at :: "int option"
  wk_lease_expires_at :: "int option"
  wk_last_heartbeat_at :: "int option"
  wk_attempt :: nat
  wk_maximum_attempts :: nat
  wk_execution_generation :: nat
  wk_retry_count :: nat
  wk_safe_stage :: "milestone option"
  wk_milestones :: "recorded_milestone list"
  wk_last_error_code :: "string option"
  wk_retry_reason :: "string option"
  wk_recovery_reason :: "string option"
  wk_cancellation_requested_at :: "int option"
  wk_cancellation_reason :: "string option"
  wk_blocked_at :: "int option"
  wk_blocked_reason :: "string option"
  wk_version :: nat

record work_config =
  wc_lease_ms :: int
  wc_heartbeat_ms :: int
  wc_max_attempts :: nat
  wc_dead_letter_after :: nat
  wc_batch_size :: nat
  wc_grace_ms :: int

subsection \<open>Validation of arguments\<close>

definition work_validation_error :: "string \<Rightarrow> app_error" where
  "work_validation_error path = App_Error 400 ''VALIDATION_ERROR'' path"

definition is_work_code :: "string \<Rightarrow> bool" where
  "is_work_code = bounded_pattern is_upper (\<lambda>c. is_upper c \<or> is_digit c \<or> c = CHR ''_'') 127"

definition is_work_identifier :: "string \<Rightarrow> bool" where
  "is_work_identifier = bounded_pattern (\<lambda>c. is_alpha c \<or> is_digit c)
     (\<lambda>c. is_alpha c \<or> is_digit c \<or> c \<in> set ''._:-'') 127"

text \<open>\<open>safeIdentifier\<close> for a required identifier, \<open>safeCode\<close>, \<open>integer\<close>.\<close>

definition work_identifier :: "string option \<Rightarrow> string \<Rightarrow> string res" where
  "work_identifier v path =
     (if \<not> present v then Inl (work_validation_error path)
      else bindE (ensure (is_work_identifier (js_trim (the v))) (work_validation_error path)) (\<lambda>_.
        Inr (js_trim (the v))))"

definition optionalCode :: "string option \<Rightarrow> string \<Rightarrow> string option res" where
  "optionalCode v path =
     (if \<not> present v then Inr None
      else bindE (ensure (is_work_code (js_upper (js_trim (the v)))) (work_validation_error path)) (\<lambda>_.
        Inr (Some (js_upper (js_trim (the v))))))"

definition requiredCode :: "string option \<Rightarrow> string \<Rightarrow> string res" where
  "requiredCode v path =
     (if \<not> present v then Inl (work_validation_error path)
      else bindE (ensure (is_work_code (js_upper (js_trim (the v)))) (work_validation_error path)) (\<lambda>_.
        Inr (js_upper (js_trim (the v)))))"

definition boundedNumber :: "jsnum \<Rightarrow> string \<Rightarrow> int \<Rightarrow> int \<Rightarrow> int res" where
  "boundedNumber v path minimum maximum =
     (case js_integer v of
        None \<Rightarrow> Inl (work_validation_error path)
      | Some i \<Rightarrow> if i < minimum \<or> maximum < i then Inl (work_validation_error path) else Inr i)"

definition lease_duration :: "work_config \<Rightarrow> jsnum option \<Rightarrow> int res" where
  "lease_duration cfg v =
     boundedNumber (case v of None \<Rightarrow> num_of_int (wc_lease_ms cfg) | Some n \<Rightarrow> n) ''leaseMs'' (wc_heartbeat_ms cfg * 3) 3600000"

definition leaseTokenHash :: "(string \<Rightarrow> string) \<Rightarrow> string option \<Rightarrow> string res" where
  "leaseTokenHash sha256 token =
     (case token of
        None \<Rightarrow> Inl (work_validation_error ''leaseToken'')
      | Some t \<Rightarrow>
          if length t < 32 \<or> 256 < length t then Inl (work_validation_error ''leaseToken'')
          else Inr (''sha256:'' @ sha256 t))"

subsection \<open>Ownership\<close>

record ownership =
  ow_owner :: "string option"
  ow_token :: "string option"
  ow_epoch :: "nat option"

definition lease_live :: "int \<Rightarrow> work_item \<Rightarrow> bool" where
  "lease_live now d = (case wk_lease_expires_at d of None \<Rightarrow> False | Some t \<Rightarrow> now < t)"

definition owned_by :: "string \<Rightarrow> string \<Rightarrow> nat option \<Rightarrow> int \<Rightarrow> work_status list \<Rightarrow> work_item \<Rightarrow> bool" where
  "owned_by owner hash epoch now statuses d \<longleftrightarrow>
     wk_status d \<in> set statuses \<and> wk_lease_owner d = Some owner \<and> wk_lease_token_hash d = Some hash \<and> lease_live now d
     \<and> (case epoch of None \<Rightarrow> True | Some e \<Rightarrow> wk_lease_epoch d = e)"

definition ownershipFilter ::
  "(string \<Rightarrow> string) \<Rightarrow> ownership \<Rightarrow> int \<Rightarrow> work_status list \<Rightarrow> (work_item \<Rightarrow> bool) res" where
  "ownershipFilter sha256 o' now statuses =
     bindE (work_identifier (ow_owner o') ''leaseOwner'') (\<lambda>owner.
     bindE (leaseTokenHash sha256 (ow_token o')) (\<lambda>hash.
     Inr (owned_by owner hash (ow_epoch o') now statuses)))"

definition leaseLost :: app_error where
  "leaseLost = App_Error 409 ''DURABLE_WORK_LEASE_LOST'' ''''"

definition leaseUnset :: "work_item \<Rightarrow> work_item" where
  "leaseUnset d =
     d\<lparr>wk_lease_owner := None, wk_lease_token_hash := None, wk_lease_acquired_at := None, wk_lease_expires_at := None,
       wk_last_heartbeat_at := None\<rparr>"

definition bump :: "work_item \<Rightarrow> work_item" where
  "bump d = d\<lparr>wk_version := wk_version d + 1\<rparr>"

subsection \<open>Claims\<close>

definition claimable_at :: "int \<Rightarrow> work_item \<Rightarrow> bool" where
  "claimable_at now d \<longleftrightarrow>
     wk_status d \<in> set CLAIMABLE_DURABLE_WORK_STATUSES \<and> wk_available_at d \<le> now
     \<and> wk_cancellation_requested_at d = None \<and> \<not> lease_live now d \<and> wk_attempt d \<le> wk_maximum_attempts d"

definition work_claim_set :: "string \<Rightarrow> string \<Rightarrow> int \<Rightarrow> int \<Rightarrow> work_item \<Rightarrow> work_item" where
  "work_claim_set owner hash now lease_ms d =
     bump (d\<lparr>wk_status := W_Claimed, wk_lease_owner := Some owner, wk_lease_token_hash := Some hash,
       wk_lease_acquired_at := Some now, wk_lease_expires_at := Some (now + lease_ms), wk_last_heartbeat_at := Some now,
       wk_claimed_at := Some now, wk_safe_stage := Some M_Work_Claimed, wk_lease_epoch := wk_lease_epoch d + 1\<rparr>)"

definition has_milestone :: "milestone \<Rightarrow> nat \<Rightarrow> work_item \<Rightarrow> bool" where
  "has_milestone m attempt d = list_ex (\<lambda>x. rm_name x = m \<and> rm_attempt x = attempt) (wk_milestones d)"

definition push_milestone :: "milestone \<Rightarrow> int \<Rightarrow> nat \<Rightarrow> string \<Rightarrow> work_item \<Rightarrow> work_item" where
  "push_milestone m now attempt status d =
     bump (d\<lparr>wk_milestones := wk_milestones d @ [\<lparr>rm_name = m, rm_at = now, rm_attempt = attempt, rm_safe_status = status\<rparr>]\<rparr>)"

definition ensureClaimMilestone ::
  "('k, work_item, 'db) store_ops \<Rightarrow> (nat \<Rightarrow> 'db \<Rightarrow> 'db) \<Rightarrow> (work_item \<Rightarrow> bool) \<Rightarrow> 'k \<Rightarrow> work_item \<Rightarrow> int \<Rightarrow> nat \<Rightarrow> 'db \<Rightarrow>
   work_item res \<times> 'db" where
  "ensureClaimMilestone S env owned k work now i db =
     (case st_find_one_and_update S k (\<lambda>d. owned d \<and> \<not> has_milestone M_Work_Claimed (wk_attempt work) d)
         (push_milestone M_Work_Claimed now (wk_attempt work) ''completed'') (env i db) of
        (Some d, db1) \<Rightarrow> (Inr d, db1)
      | (None, db1) \<Rightarrow>
          (let db2 = env (i + 1) db1 in
           case st_find_one S k (\<lambda>d. owned d \<and> has_milestone M_Work_Claimed (wk_attempt work) d) db2 of
             Some d \<Rightarrow> (Inr d, db2)
           | None \<Rightarrow> (Inl leaseLost, db2)))"

text \<open>The verdict of \<open>invocationPermitsClaim\<close>.\<close>

record claim_decision =
  cd_allowed :: bool
  cd_cancelled :: bool
  cd_work_status :: "work_status option"
  cd_reason :: string

fun finalizeTimestamp :: "work_status \<Rightarrow> int \<Rightarrow> work_item \<Rightarrow> work_item" where
  "finalizeTimestamp W_Completed now d = d\<lparr>wk_completed_at := Some now\<rparr>"
| "finalizeTimestamp W_Cancelled now d = d\<lparr>wk_cancelled_at := Some now\<rparr>"
| "finalizeTimestamp W_Dead_Lettered now d = d\<lparr>wk_dead_lettered_at := Some now, wk_failed_at := Some now\<rparr>"
| "finalizeTimestamp s now d = d\<lparr>wk_failed_at := Some now\<rparr>"

definition rejected_status :: "claim_decision \<Rightarrow> work_status" where
  "rejected_status c =
     (case cd_work_status c of Some s \<Rightarrow> s | None \<Rightarrow> if cd_cancelled c then W_Cancelled else W_Failed)"

definition reject_set :: "claim_decision \<Rightarrow> int \<Rightarrow> work_item \<Rightarrow> work_item" where
  "reject_set c now d =
     (let s = rejected_status c
      in bump (leaseUnset (finalizeTimestamp s now
           (d\<lparr>wk_status := s, wk_last_error_code := (if s = W_Completed then None else Some (cd_reason c))\<rparr>))))"

definition rejectInvalidClaim ::
  "('k, work_item, 'db) store_ops \<Rightarrow> (nat \<Rightarrow> 'db \<Rightarrow> 'db) \<Rightarrow> (work_item \<Rightarrow> bool) \<Rightarrow> 'k \<Rightarrow> claim_decision \<Rightarrow> int \<Rightarrow> nat \<Rightarrow>
   'db \<Rightarrow> 'db" where
  "rejectInvalidClaim S env owned k c now i db = snd (st_find_one_and_update S k owned (reject_set c now) (env i db))"

text \<open>The part of a claim after an item has been taken: the milestone and the check of the invocation.\<close>

definition confirm_claim ::
  "('k, work_item, 'db) store_ops \<Rightarrow> (nat \<Rightarrow> 'db \<Rightarrow> 'db) \<Rightarrow> (work_item \<Rightarrow> claim_decision) \<Rightarrow> 'k \<Rightarrow> string \<Rightarrow> string \<Rightarrow>
   int \<Rightarrow> nat \<Rightarrow> work_item \<Rightarrow> 'db \<Rightarrow> (work_item option) res \<times> 'db" where
  "confirm_claim S env permits k owner hash now i d db =
     (let owned = owned_by owner hash (Some (wk_lease_epoch d)) now [W_Claimed]
      in case ensureClaimMilestone S env owned k d now i db of
           (Inl e, db1) \<Rightarrow> (Inl e, db1)
         | (Inr d1, db1) \<Rightarrow>
             if cd_allowed (permits d1) then (Inr (Some d1), db1)
             else (Inr None, rejectInvalidClaim S env owned k (permits d1) now (i + 2) db1))"

record claim_input =
  ci_owner :: "string option"
  ci_lease_ms :: "jsnum option"

definition claim_ownership :: "string \<Rightarrow> string \<Rightarrow> work_item \<Rightarrow> ownership" where
  "claim_ownership owner token d = \<lparr>ow_owner = Some owner, ow_token = Some token, ow_epoch = Some (wk_lease_epoch d)\<rparr>"

definition claimWorkById ::
  "(string \<Rightarrow> string) \<Rightarrow> work_config \<Rightarrow> ('k, work_item, 'db) store_ops \<Rightarrow> (nat \<Rightarrow> 'db \<Rightarrow> 'db) \<Rightarrow>
   (work_item \<Rightarrow> claim_decision) \<Rightarrow> 'k \<Rightarrow> claim_input \<Rightarrow> string \<Rightarrow> int \<Rightarrow> 'db \<Rightarrow>
   ((work_item \<times> ownership) option) res \<times> 'db" where
  "claimWorkById sha256 cfg S env permits k input token now db =
     (case bindE (work_identifier (ci_owner input) ''leaseOwner'') (\<lambda>owner.
           bindE (lease_duration cfg (ci_lease_ms input)) (\<lambda>lease_ms.
           bindE (leaseTokenHash sha256 (Some token)) (\<lambda>hash. Inr (owner, lease_ms, hash)))) of
        Inl e \<Rightarrow> (Inl e, db)
      | Inr (owner, lease_ms, hash) \<Rightarrow>
          (case st_find_one_and_update S k (claimable_at now) (work_claim_set owner hash now lease_ms) (env 0 db) of
             (None, db1) \<Rightarrow> (Inr None, db1)
           | (Some d, db1) \<Rightarrow>
               (case confirm_claim S env permits k owner hash now 1 d db1 of
                  (Inl e, db2) \<Rightarrow> (Inl e, db2)
                | (Inr None, db2) \<Rightarrow> (Inr None, db2)
                | (Inr (Some d1), db2) \<Rightarrow> (Inr (Some (d1, claim_ownership owner token d)), db2))))"

text \<open>\<open>claimNextWork\<close>: \<open>pick p db\<close> is the item that a \<open>findOneAndUpdate\<close> with the sort order of the code selects among
  those that satisfy \<open>p\<close>; \<open>n\<close> candidates are left and \<open>tokens\<close> are the random tokens.\<close>

fun claim_next ::
  "(string \<Rightarrow> string) \<Rightarrow> ('k, work_item, 'db) store_ops \<Rightarrow> ((work_item \<Rightarrow> bool) \<Rightarrow> 'db \<Rightarrow> 'k option) \<Rightarrow>
   (nat \<Rightarrow> 'db \<Rightarrow> 'db) \<Rightarrow> ('k \<Rightarrow> work_item \<Rightarrow> claim_decision) \<Rightarrow> string \<Rightarrow> (nat \<Rightarrow> string) \<Rightarrow> int \<Rightarrow> int \<Rightarrow> nat \<Rightarrow> nat \<Rightarrow> 'db \<Rightarrow>
   (('k \<times> work_item \<times> ownership) option) res \<times> 'db" where
  "claim_next sha256 S pick env permits owner tokens lease_ms now 0 i db = (Inr None, db)"
| "claim_next sha256 S pick env permits owner tokens lease_ms now (Suc n) i db =
     (case leaseTokenHash sha256 (Some (tokens n)) of
        Inl e \<Rightarrow> (Inl e, db)
      | Inr hash \<Rightarrow>
          (let db0 = env i db in
           case pick (claimable_at now) db0 of
             None \<Rightarrow> (Inr None, db0)
           | Some k \<Rightarrow>
               (case st_find_one_and_update S k (claimable_at now) (work_claim_set owner hash now lease_ms) db0 of
                  (None, db1) \<Rightarrow> (Inr None, db1)
                | (Some d, db1) \<Rightarrow>
                    (case confirm_claim S env (permits k) k owner hash now (i + 1) d db1 of
                       (Inl e, db2) \<Rightarrow> (Inl e, db2)
                     | (Inr None, db2) \<Rightarrow>
                         claim_next sha256 S pick env permits owner tokens lease_ms now n (i + 4) db2
                     | (Inr (Some d1), db2) \<Rightarrow> (Inr (Some (k, d1, claim_ownership owner (tokens n) d)), db2)))))"

definition claimNextWork ::
  "(string \<Rightarrow> string) \<Rightarrow> work_config \<Rightarrow> ('k, work_item, 'db) store_ops \<Rightarrow> ((work_item \<Rightarrow> bool) \<Rightarrow> 'db \<Rightarrow> 'k option) \<Rightarrow>
   (nat \<Rightarrow> 'db \<Rightarrow> 'db) \<Rightarrow> ('k \<Rightarrow> work_item \<Rightarrow> claim_decision) \<Rightarrow> claim_input \<Rightarrow> jsnum option \<Rightarrow> (nat \<Rightarrow> string) \<Rightarrow> int \<Rightarrow> 'db \<Rightarrow>
   (('k \<times> work_item \<times> ownership) option) res \<times> 'db" where
  "claimNextWork sha256 cfg S pick env permits input maximum tokens now db =
     (case bindE (work_identifier (ci_owner input) ''leaseOwner'') (\<lambda>owner.
           bindE (lease_duration cfg (ci_lease_ms input)) (\<lambda>lease_ms.
           bindE (boundedNumber (case maximum of None \<Rightarrow> num_of_int (int (wc_batch_size cfg)) | Some n \<Rightarrow> n)
             ''maximumCandidates'' 1 100) (\<lambda>candidates. Inr (owner, lease_ms, nat candidates)))) of
        Inl e \<Rightarrow> (Inl e, db)
      | Inr (owner, lease_ms, candidates) \<Rightarrow>
          claim_next sha256 S pick env permits owner tokens lease_ms now candidates 0 db)"

subsection \<open>Operations of the owner\<close>

definition start_set :: "int \<Rightarrow> work_item \<Rightarrow> work_item" where
  "start_set now d = bump (d\<lparr>wk_status := W_Running, wk_started_at := Some now, wk_last_heartbeat_at := Some now\<rparr>)"

definition startWork ::
  "(string \<Rightarrow> string) \<Rightarrow> ('k, work_item, 'db) store_ops \<Rightarrow> (nat \<Rightarrow> 'db \<Rightarrow> 'db) \<Rightarrow> 'k \<Rightarrow> ownership \<Rightarrow> int \<Rightarrow> 'db \<Rightarrow>
   work_item res \<times> 'db" where
  "startWork sha256 S env k o' now db =
     (case ownershipFilter sha256 o' now [W_Claimed] of
        Inl e \<Rightarrow> (Inl e, db)
      | Inr owned \<Rightarrow>
          (case st_find_one_and_update S k (\<lambda>d. owned d \<and> wk_cancellation_requested_at d = None) (start_set now) (env 0 db) of
             (None, db1) \<Rightarrow> (Inl leaseLost, db1)
           | (Some d, db1) \<Rightarrow> (Inr d, db1)))"

definition heartbeat_set :: "int \<Rightarrow> int \<Rightarrow> work_item \<Rightarrow> work_item" where
  "heartbeat_set now lease_ms d =
     bump (d\<lparr>wk_last_heartbeat_at := Some now, wk_lease_expires_at := Some (now + lease_ms)\<rparr>)"

text \<open>The flag of the result says that a cancellation has been requested.\<close>

definition heartbeatWork ::
  "(string \<Rightarrow> string) \<Rightarrow> work_config \<Rightarrow> ('k, work_item, 'db) store_ops \<Rightarrow> (nat \<Rightarrow> 'db \<Rightarrow> 'db) \<Rightarrow> 'k \<Rightarrow> ownership \<Rightarrow>
   jsnum option \<Rightarrow> int \<Rightarrow> 'db \<Rightarrow> (work_item \<times> bool) res \<times> 'db" where
  "heartbeatWork sha256 cfg S env k o' lease now db =
     (case bindE (lease_duration cfg lease) (\<lambda>lease_ms.
           bindE (ownershipFilter sha256 o' now OWNED_DURABLE_WORK_STATUSES) (\<lambda>owned. Inr (lease_ms, owned))) of
        Inl e \<Rightarrow> (Inl e, db)
      | Inr (lease_ms, owned) \<Rightarrow>
          (case st_find_one_and_update S k owned (heartbeat_set now lease_ms) (env 0 db) of
             (None, db1) \<Rightarrow> (Inl leaseLost, db1)
           | (Some d, db1) \<Rightarrow> (Inr (d, wk_status d = W_Cancellation_Requested), db1)))"

record control_state =
  ct_status :: work_status
  ct_cancellation_requested :: bool
  ct_cancellation_reason :: "string option"
  ct_lease_expires_at :: "int option"

definition getOwnedWorkControlState ::
  "(string \<Rightarrow> string) \<Rightarrow> ('k, work_item, 'db) store_ops \<Rightarrow> 'k \<Rightarrow> ownership \<Rightarrow> int \<Rightarrow> 'db \<Rightarrow> control_state res" where
  "getOwnedWorkControlState sha256 S k o' now db =
     bindE (ownershipFilter sha256 o' now OWNED_DURABLE_WORK_STATUSES) (\<lambda>owned.
     case st_find_one S k owned db of
       None \<Rightarrow> Inl leaseLost
     | Some d \<Rightarrow> Inr \<lparr>ct_status = wk_status d, ct_cancellation_requested = (wk_status d = W_Cancellation_Requested),
         ct_cancellation_reason = wk_cancellation_reason d, ct_lease_expires_at = wk_lease_expires_at d\<rparr>)"

record milestone_input =
  mi_name :: string
  mi_safe_status :: "string option"
  mi_attempt :: jsnum

definition known_milestone :: "string \<Rightarrow> milestone option" where
  "known_milestone n = find (\<lambda>m. milestone_name m = n) DURABLE_WORK_MILESTONES"

definition nonRegressingStages :: "milestone \<Rightarrow> milestone list" where
  "nonRegressingStages m = takeWhile (\<lambda>x. x \<noteq> m) DURABLE_WORK_MILESTONES @ [m]"

definition milestone_set :: "milestone \<Rightarrow> int \<Rightarrow> nat \<Rightarrow> string \<Rightarrow> work_item \<Rightarrow> work_item" where
  "milestone_set m now attempt status d = (push_milestone m now attempt status d)\<lparr>wk_safe_stage := Some m\<rparr>"

definition milestone_matches :: "(work_item \<Rightarrow> bool) \<Rightarrow> milestone \<Rightarrow> nat \<Rightarrow> work_item \<Rightarrow> bool" where
  "milestone_matches owned m attempt d \<longleftrightarrow>
     owned d \<and> wk_attempt d = attempt
     \<and> (case wk_safe_stage d of None \<Rightarrow> False | Some s \<Rightarrow> s \<in> set (nonRegressingStages m))
     \<and> \<not> has_milestone m attempt d"

definition milestone_arguments ::
  "(string \<Rightarrow> string) \<Rightarrow> ownership \<Rightarrow> milestone_input \<Rightarrow> int \<Rightarrow> (milestone \<times> string \<times> nat \<times> (work_item \<Rightarrow> bool)) res" where
  "milestone_arguments sha256 o' input now =
     (case known_milestone (mi_name input) of
        None \<Rightarrow> Inl (work_validation_error ''milestone.name'')
      | Some m \<Rightarrow>
          bindE (ensure (or_default (mi_safe_status input) ''completed'' \<in> set DURABLE_MILESTONE_STATUSES)
            (work_validation_error ''milestone.safeStatus'')) (\<lambda>_.
          bindE (boundedNumber (mi_attempt input) ''milestone.attemptNumber'' 1 9007199254740991) (\<lambda>attempt.
          bindE (ownershipFilter sha256 o' now OWNED_DURABLE_WORK_STATUSES) (\<lambda>owned.
          Inr (m, or_default (mi_safe_status input) ''completed'', nat attempt, owned)))))"

text \<open>The flag of the result is \<open>alreadyRecorded\<close>.\<close>

definition recordMilestone ::
  "(string \<Rightarrow> string) \<Rightarrow> ('k, work_item, 'db) store_ops \<Rightarrow> (nat \<Rightarrow> 'db \<Rightarrow> 'db) \<Rightarrow> 'k \<Rightarrow> ownership \<Rightarrow> milestone_input \<Rightarrow>
   int \<Rightarrow> 'db \<Rightarrow> (work_item \<times> bool) res \<times> 'db" where
  "recordMilestone sha256 S env k o' input now db =
     (case milestone_arguments sha256 o' input now of
        Inl e \<Rightarrow> (Inl e, db)
      | Inr (m, status, attempt, owned) \<Rightarrow>
          (case st_find_one_and_update S k (milestone_matches owned m attempt) (milestone_set m now attempt status) (env 0 db) of
             (Some d, db1) \<Rightarrow> (Inr (d, False), db1)
           | (None, db1) \<Rightarrow>
               (let db2 = env 1 db1 in
                case st_find_one S k (\<lambda>d. owned d \<and> wk_attempt d = attempt \<and> has_milestone m attempt d) db2 of
                  None \<Rightarrow> (Inl leaseLost, db2)
                | Some d \<Rightarrow> (Inr (d, True), db2))))"

record final_input =
  fi_status :: "string option"
  fi_last_error :: "string option"
  fi_retry_reason :: "string option"
  fi_recovery_reason :: "string option"

definition final_status :: "string option \<Rightarrow> work_status option" where
  "final_status v = find (\<lambda>s. work_status_name s = or_empty v) FINALIZE_STATUSES"

text \<open>\<open>...(v ? { field: v } : {})\<close>.\<close>

definition set_if :: "'a option \<Rightarrow> 'a option \<Rightarrow> 'a option" where
  "set_if v old = (if v = None then old else v)"

definition final_set ::
  "work_status \<Rightarrow> string option \<Rightarrow> string option \<Rightarrow> string option \<Rightarrow> int \<Rightarrow> work_item \<Rightarrow> work_item" where
  "final_set s err retry_reason recovery_reason now d =
     bump (leaseUnset (finalizeTimestamp s now
       (d\<lparr>wk_status := s, wk_last_error_code := set_if err (wk_last_error_code d),
         wk_retry_reason := set_if retry_reason (wk_retry_reason d),
         wk_recovery_reason := set_if recovery_reason (wk_recovery_reason d)\<rparr>)))"

definition final_statuses :: "work_status \<Rightarrow> work_status list" where
  "final_statuses s = (if s = W_Completed then [W_Claimed, W_Running] else OWNED_DURABLE_WORK_STATUSES)"

definition final_matches :: "work_status \<Rightarrow> (work_item \<Rightarrow> bool) \<Rightarrow> work_item \<Rightarrow> bool" where
  "final_matches s owned d \<longleftrightarrow> owned d \<and> (s = W_Completed \<longrightarrow> has_milestone M_Invocation_Persisted (wk_attempt d) d)"

record final_arguments =
  fa_status :: work_status
  fa_last_error :: "string option"
  fa_retry_reason :: "string option"
  fa_recovery_reason :: "string option"

definition final_validated :: "final_input \<Rightarrow> final_arguments res" where
  "final_validated input =
     (case final_status (fi_status input) of
        None \<Rightarrow> Inl (work_validation_error ''finalization.status'')
      | Some s \<Rightarrow>
          bindE (optionalCode (fi_last_error input) ''lastErrorCode'') (\<lambda>err.
          bindE (optionalCode (fi_retry_reason input) ''retryDecisionReason'') (\<lambda>retry_reason.
          bindE (optionalCode (fi_recovery_reason input) ''recoveryReasonCode'') (\<lambda>recovery_reason.
          bindE (ensure (case recovery_reason of None \<Rightarrow> True | Some r \<Rightarrow> r \<in> set DURABLE_RECOVERY_REASONS)
            (work_validation_error ''recoveryReasonCode'')) (\<lambda>_.
          bindE (ensure (s = W_Recovery_Required \<longrightarrow> recovery_reason \<noteq> None)
            (work_validation_error ''recoveryReasonCode'')) (\<lambda>_.
          Inr \<lparr>fa_status = s, fa_last_error = err, fa_retry_reason = retry_reason, fa_recovery_reason = recovery_reason\<rparr>))))))"

definition finalization_conflict :: app_error where
  "finalization_conflict = App_Error 409 ''DURABLE_WORK_FINALIZATION_CONFLICT'' ''''"

definition finalizeWork ::
  "(string \<Rightarrow> string) \<Rightarrow> ('k, work_item, 'db) store_ops \<Rightarrow> (nat \<Rightarrow> 'db \<Rightarrow> 'db) \<Rightarrow> nat \<Rightarrow> 'k \<Rightarrow> ownership \<Rightarrow> final_input \<Rightarrow>
   int \<Rightarrow> 'db \<Rightarrow> work_item res \<times> 'db" where
  "finalizeWork sha256 S env i k o' input now db =
     (case bindE (final_validated input) (\<lambda>a.
           bindE (ownershipFilter sha256 o' now (final_statuses (fa_status a))) (\<lambda>owned. Inr (a, owned))) of
        Inl e \<Rightarrow> (Inl e, db)
      | Inr (a, owned) \<Rightarrow>
          (case st_find_one_and_update S k (final_matches (fa_status a) owned)
              (final_set (fa_status a) (fa_last_error a) (fa_retry_reason a) (fa_recovery_reason a) now) (env i db) of
             (None, db1) \<Rightarrow> (Inl finalization_conflict, db1)
           | (Some d, db1) \<Rightarrow> (Inr d, db1)))"

subsection \<open>Abandoned work\<close>

record abandonment =
  ab_classification :: string
  ab_replay_allowed :: bool
  ab_recovery_reason :: string

definition currentAttemptMilestones :: "work_item \<Rightarrow> recorded_milestone list" where
  "currentAttemptMilestones d = filter (\<lambda>x. rm_attempt x = wk_attempt d) (wk_milestones d)"

definition classifyAbandonedWork :: "work_item \<Rightarrow> abandonment" where
  "classifyAbandonedWork d =
     (let names = set (map rm_name (currentAttemptMilestones d)) in
      if M_Invocation_Persisted \<in> names
      then \<lparr>ab_classification = ''persisted_result'', ab_replay_allowed = False,
             ab_recovery_reason = ''RESULT_PERSISTENCE_UNCERTAIN''\<rparr>
      else if M_Finalization_Started \<in> names
      then \<lparr>ab_classification = ''post_transmission'', ab_replay_allowed = False,
             ab_recovery_reason = ''WORKER_LOST_DURING_FINALIZATION''\<rparr>
      else if M_Outbound_Response_Received \<in> names \<or> M_Response_Validated \<in> names
      then \<lparr>ab_classification = ''post_transmission'', ab_replay_allowed = False,
             ab_recovery_reason = ''RESULT_PERSISTENCE_UNCERTAIN''\<rparr>
      else if M_Outbound_Transmission_Started \<in> names
      then \<lparr>ab_classification = ''post_transmission'', ab_replay_allowed = False,
             ab_recovery_reason = ''WORKER_LOST_DURING_REMOTE_EXECUTION''\<rparr>
      else \<lparr>ab_classification = ''pre_transmission'', ab_replay_allowed = True,
             ab_recovery_reason = ''LEASE_EXPIRED_BEFORE_TRANSMISSION''\<rparr>)"

definition dead_letter_input :: "abandonment \<Rightarrow> string option \<Rightarrow> final_input" where
  "dead_letter_input c reason =
     (if \<not> ab_replay_allowed c
      then \<lparr>fi_status = Some ''recovery_required'', fi_last_error = Some (or_default reason ''DURABLE_WORK_EXECUTION_FAILED''),
             fi_retry_reason = Some ''REMOTE_OUTCOME_UNKNOWN'', fi_recovery_reason = Some (ab_recovery_reason c)\<rparr>
      else \<lparr>fi_status = Some ''dead_lettered'', fi_last_error = Some (or_default reason ''DURABLE_WORK_EXECUTION_FAILED''),
             fi_retry_reason = Some ''SAFE_RETRY_ATTEMPTS_EXHAUSTED'',
             fi_recovery_reason = Some ''SAFE_RETRY_ATTEMPTS_EXHAUSTED''\<rparr>)"

definition deadLetterWork ::
  "(string \<Rightarrow> string) \<Rightarrow> ('k, work_item, 'db) store_ops \<Rightarrow> (nat \<Rightarrow> 'db \<Rightarrow> 'db) \<Rightarrow> 'k \<Rightarrow> ownership \<Rightarrow> string option \<Rightarrow>
   int \<Rightarrow> 'db \<Rightarrow> work_item res \<times> 'db" where
  "deadLetterWork sha256 S env k o' reason now db =
     (case ownershipFilter sha256 o' now OWNED_DURABLE_WORK_STATUSES of
        Inl e \<Rightarrow> (Inl e, db)
      | Inr owned \<Rightarrow>
          (let db1 = env 0 db in
           case st_find_one S k owned db1 of
             None \<Rightarrow> (Inl leaseLost, db1)
           | Some d \<Rightarrow>
               finalizeWork sha256 S env 1 k o' (dead_letter_input (classifyAbandonedWork d) reason) now db1))"

subsection \<open>Cancellation\<close>

definition cancel_set :: "int \<Rightarrow> string \<Rightarrow> work_item \<Rightarrow> work_item" where
  "cancel_set now reason d =
     bump (d\<lparr>wk_status := W_Cancelled, wk_cancellation_requested_at := Some now, wk_cancellation_reason := Some reason,
       wk_cancelled_at := Some now\<rparr>)"

definition request_set :: "int \<Rightarrow> string \<Rightarrow> work_item \<Rightarrow> work_item" where
  "request_set now reason d =
     bump (d\<lparr>wk_status := W_Cancellation_Requested, wk_cancellation_requested_at := Some now,
       wk_cancellation_reason := Some reason\<rparr>)"

record cancellation_result =
  cr_already_requested :: bool
  cr_already_settled :: bool
  cr_item :: work_item

definition work_not_found :: app_error where
  "work_not_found = App_Error 404 ''DURABLE_WORK_NOT_FOUND'' ''''"

text \<open>The request names the item by its identifier.\<close>

definition requestWorkCancellation ::
  "('k, work_item, 'db) store_ops \<Rightarrow> (nat \<Rightarrow> 'db \<Rightarrow> 'db) \<Rightarrow> 'k \<Rightarrow> string option \<Rightarrow> int \<Rightarrow> 'db \<Rightarrow>
   cancellation_result res \<times> 'db" where
  "requestWorkCancellation S env k reason now db =
     (case requiredCode reason ''reasonCode'' of
        Inl e \<Rightarrow> (Inl e, db)
      | Inr code \<Rightarrow>
          (case st_find_one_and_update S k (\<lambda>d. wk_status d \<in> set CLAIMABLE_DURABLE_WORK_STATUSES) (cancel_set now code)
              (env 0 db) of
             (Some d, db1) \<Rightarrow> (Inr \<lparr>cr_already_requested = False, cr_already_settled = False, cr_item = d\<rparr>, db1)
           | (None, db1) \<Rightarrow>
               (case st_find_one_and_update S k (\<lambda>d. wk_status d \<in> {W_Claimed, W_Running, W_Retry_Preparing})
                   (request_set now code) (env 1 db1) of
                  (Some d, db2) \<Rightarrow> (Inr \<lparr>cr_already_requested = False, cr_already_settled = False, cr_item = d\<rparr>, db2)
                | (None, db2) \<Rightarrow>
                    (let db3 = env 2 db2 in
                     case st_find_one S k (\<lambda>d. wk_status d = W_Cancellation_Requested
                         \<or> wk_status d \<in> set TERMINAL_DURABLE_WORK_STATUSES) db3 of
                       None \<Rightarrow> (Inl work_not_found, db3)
                     | Some d \<Rightarrow>
                         (Inr \<lparr>cr_already_requested = True,
                            cr_already_settled = (wk_status d \<notin> {W_Cancellation_Requested, W_Cancelled}), cr_item = d\<rparr>,
                          db3)))))"

subsection \<open>New work\<close>

record enqueue_input =
  eq_work_type :: "string option"
  eq_safe_operation :: "string option"
  eq_status :: "string option"
  eq_execution_generation :: "jsnum option"
  eq_maximum_attempts :: "jsnum option"
  eq_retry_reason :: "string option"
  eq_recovery_reason :: "string option"
  eq_attempt :: "jsnum option"
  eq_trace_id :: "string option"
  eq_priority :: "jsnum option"
  eq_available_at :: "int option"
  eq_retry_count :: "jsnum option"

definition DURABLE_WORK_TYPES :: "string list" where
  "DURABLE_WORK_TYPES = [''runtime_invocation'', ''recovery_retry'']"

definition DURABLE_WORK_OPERATIONS :: "string list" where
  "DURABLE_WORK_OPERATIONS = [''runtime_invocation'', ''recovery_retry'']"

definition MAX_SAFE_INTEGER :: int where
  "MAX_SAFE_INTEGER = 9007199254740991"

definition number_or :: "jsnum option \<Rightarrow> int \<Rightarrow> jsnum" where
  "number_or v d = (case v of None \<Rightarrow> num_of_int d | Some n \<Rightarrow> n)"

definition approved_reason :: "string option \<Rightarrow> string option res" where
  "approved_reason v =
     bindE (optionalCode v ''recoveryReasonCode'') (\<lambda>r.
     bindE (ensure (case r of None \<Rightarrow> True | Some c \<Rightarrow> c \<in> set DURABLE_RECOVERY_REASONS)
       (work_validation_error ''recoveryReasonCode'')) (\<lambda>_. Inr r))"

definition initial_status :: "string option \<Rightarrow> work_status option" where
  "initial_status v =
     find (\<lambda>s. work_status_name s = or_default v ''pending'') (CLAIMABLE_DURABLE_WORK_STATUSES @ [W_Waiting_For_Approval])"

text \<open>The stored document has the defaults of the schema in the fields that the caller does not set. The identity of the
  tenant, the routing of the item and its deduplication key (the key of the collection) are not part of an item here.\<close>

definition new_work_item :: "work_status \<Rightarrow> int \<Rightarrow> int \<Rightarrow> nat \<Rightarrow> nat \<Rightarrow> work_item" where
  "new_work_item s now available attempt maximum =
     \<lparr>wk_status = s, wk_recovery_retry = False, wk_trace_id = None, wk_priority = 0, wk_created_at = now,
      wk_available_at = available, wk_claimed_at = None, wk_started_at = None, wk_completed_at = None, wk_failed_at = None,
      wk_cancelled_at = None, wk_dead_lettered_at = None, wk_requeued_at = None, wk_requeue_count = 0,
      wk_lease_owner = None, wk_lease_token_hash = None, wk_lease_epoch = 0, wk_lease_acquired_at = None,
      wk_lease_expires_at = None, wk_last_heartbeat_at = None, wk_attempt = attempt, wk_maximum_attempts = maximum,
      wk_execution_generation = 1, wk_retry_count = 0, wk_safe_stage = None, wk_milestones = [], wk_last_error_code = None,
      wk_retry_reason = None, wk_recovery_reason = None, wk_cancellation_requested_at = None,
      wk_cancellation_reason = None, wk_blocked_at = None, wk_blocked_reason = None, wk_version = 0\<rparr>"

definition enqueueDocument :: "work_config \<Rightarrow> enqueue_input \<Rightarrow> int \<Rightarrow> work_item res" where
  "enqueueDocument cfg input now =
     (let work_type = or_default (eq_work_type input) ''runtime_invocation'' in
     bindE (ensure (work_type \<in> set DURABLE_WORK_TYPES) (work_validation_error ''workType'')) (\<lambda>_.
     bindE (ensure (or_default (eq_safe_operation input) work_type \<in> set DURABLE_WORK_OPERATIONS)
       (work_validation_error ''safeOperation'')) (\<lambda>_.
     case initial_status (eq_status input) of None \<Rightarrow> Inl (work_validation_error ''status'') | Some s \<Rightarrow>
     bindE (boundedNumber (number_or (eq_execution_generation input) 1) ''executionGeneration'' 1 MAX_SAFE_INTEGER) (\<lambda>generation.
     bindE (boundedNumber (number_or (eq_maximum_attempts input) (int (wc_max_attempts cfg))) ''maximumAttempts'' 1
       (int (wc_dead_letter_after cfg))) (\<lambda>maximum.
     bindE (optionalCode (eq_retry_reason input) ''retryDecisionReason'') (\<lambda>retry_reason.
     bindE (approved_reason (eq_recovery_reason input)) (\<lambda>recovery_reason.
     bindE (boundedNumber (number_or (eq_attempt input) 1) ''attemptNumber'' 1 MAX_SAFE_INTEGER) (\<lambda>attempt.
     bindE (if present (eq_trace_id input) then bindE (work_identifier (eq_trace_id input) ''traceId'') (\<lambda>t. Inr (Some t))
            else Inr None) (\<lambda>trace.
     bindE (boundedNumber (number_or (eq_priority input) 0) ''priority'' (- 100) 100) (\<lambda>priority.
     bindE (boundedNumber (number_or (eq_retry_count input) 0) ''retryCount'' 0 MAX_SAFE_INTEGER) (\<lambda>retry_count.
     bindE (ensure (attempt \<le> maximum) (work_validation_error ''attemptNumber'')) (\<lambda>_.
     Inr ((new_work_item s now (case eq_available_at input of None \<Rightarrow> now | Some t \<Rightarrow> t) (nat attempt) (nat maximum))
       \<lparr>wk_recovery_retry := (work_type = ''recovery_retry''), wk_trace_id := trace, wk_priority := priority,
        wk_execution_generation := nat generation, wk_retry_count := nat retry_count, wk_retry_reason := retry_reason,
        wk_recovery_reason := recovery_reason\<rparr>)))))))))))))"

text \<open>\<open>options.initialClaim\<close>: the document is inserted as already claimed.\<close>

definition initial_claim_set :: "string \<Rightarrow> string \<Rightarrow> int \<Rightarrow> int \<Rightarrow> work_item \<Rightarrow> work_item" where
  "initial_claim_set owner hash now lease_ms d =
     d\<lparr>wk_status := W_Claimed, wk_lease_owner := Some owner, wk_lease_token_hash := Some hash, wk_lease_epoch := 1,
       wk_lease_acquired_at := Some now, wk_lease_expires_at := Some (now + lease_ms), wk_last_heartbeat_at := Some now,
       wk_claimed_at := Some now, wk_safe_stage := Some M_Work_Claimed,
       wk_milestones := [\<lparr>rm_name = M_Work_Claimed, rm_at = now, rm_attempt = wk_attempt d, rm_safe_status = ''completed''\<rparr>],
       wk_version := 1\<rparr>"

definition initial_document ::
  "(string \<Rightarrow> string) \<Rightarrow> work_config \<Rightarrow> claim_input option \<Rightarrow> string \<Rightarrow> int \<Rightarrow> work_item \<Rightarrow> (work_item \<times> ownership option) res" where
  "initial_document sha256 cfg claim token now d =
     (case claim of
        None \<Rightarrow> Inr (d, None)
      | Some c \<Rightarrow>
          bindE (work_identifier (ci_owner c) ''leaseOwner'') (\<lambda>owner.
          bindE (lease_duration cfg (ci_lease_ms c)) (\<lambda>lease_ms.
          bindE (leaseTokenHash sha256 (Some token)) (\<lambda>hash.
          Inr (initial_claim_set owner hash now lease_ms d,
               Some \<lparr>ow_owner = Some owner, ow_token = Some token, ow_epoch = Some 1\<rparr>)))))"

definition reconciliation_failed :: app_error where
  "reconciliation_failed = App_Error 503 ''DURABLE_WORK_RECONCILIATION_FAILED'' ''''"

text \<open>\<open>access\<close> is the verdict of the operational access check; the result is whether the item was created, the item and,
  when it was created with a claim, its ownership.\<close>

definition enqueueWork ::
  "(string \<Rightarrow> string) \<Rightarrow> work_config \<Rightarrow> ('k, work_item, 'db) store_ops \<Rightarrow> (nat \<Rightarrow> 'db \<Rightarrow> 'db) \<Rightarrow> unit res \<Rightarrow> 'k \<Rightarrow>
   enqueue_input \<Rightarrow> claim_input option \<Rightarrow> string \<Rightarrow> int \<Rightarrow> 'db \<Rightarrow> (bool \<times> work_item \<times> ownership option) res \<times> 'db" where
  "enqueueWork sha256 cfg S env access k input claim token now db =
     (case bindE (enqueueDocument cfg input now) (\<lambda>d. bindE access (\<lambda>_. initial_document sha256 cfg claim token now d)) of
        Inl e \<Rightarrow> (Inl e, db)
      | Inr (d, ownership) \<Rightarrow>
          (case st_create S k d (env 0 db) of (created, db1) \<Rightarrow>
           let db2 = env 1 db1 in
           case st_find_one S k (\<lambda>_. True) db2 of
             None \<Rightarrow> (Inl reconciliation_failed, db2)
           | Some item \<Rightarrow> (Inr (created, item, if created then ownership else None), db2)))"

subsection \<open>Updates of other services\<close>

text \<open>\<open>reserveWorkForReconciliation\<close> and \<open>releaseReconciledWork\<close> take an item out of the queue while its invocation is
  linked to it; \<open>pauseClaimedWork\<close> (services/durableWorker.service.js), \<open>pauseQueuedWork\<close> and \<open>resumeBlockedWork\<close>
  (services/operationalState.service.js) block items of a suspended tenant; \<open>releaseQueuedWorkForApproval\<close>
  (services/approval.service.js) lets an approved item into the queue. The updates of many items are given for one item.\<close>

definition reserve_set :: "string \<Rightarrow> string \<Rightarrow> int \<Rightarrow> int \<Rightarrow> work_item \<Rightarrow> work_item" where
  "reserve_set owner hash now lease_ms d =
     bump (d\<lparr>wk_status := W_Claimed, wk_claimed_at := Some now, wk_safe_stage := Some M_Work_Claimed,
       wk_lease_owner := Some owner, wk_lease_token_hash := Some hash, wk_lease_acquired_at := Some now,
       wk_lease_expires_at := Some (now + lease_ms), wk_last_heartbeat_at := Some now\<rparr>)"

definition reserveWorkForReconciliation ::
  "(string \<Rightarrow> string) \<Rightarrow> work_config \<Rightarrow> ('k, work_item, 'db) store_ops \<Rightarrow> (nat \<Rightarrow> 'db \<Rightarrow> 'db) \<Rightarrow> 'k \<Rightarrow> work_item \<Rightarrow> string \<Rightarrow>
   string \<Rightarrow> int \<Rightarrow> 'db \<Rightarrow> (work_item option) res \<times> 'db" where
  "reserveWorkForReconciliation sha256 cfg S env k work owner token now db =
     (if wk_status work \<notin> set CLAIMABLE_DURABLE_WORK_STATUSES then (Inr None, db)
      else case leaseTokenHash sha256 (Some token) of
        Inl e \<Rightarrow> (Inl e, db)
      | Inr hash \<Rightarrow>
          (case st_find_one_and_update S k
              (\<lambda>d. wk_status d = wk_status work \<and> wk_version d = wk_version work \<and> wk_cancellation_requested_at d = None
                \<and> \<not> lease_live now d)
              (reserve_set owner hash now (wc_lease_ms cfg)) (env 0 db) of
             (r, db1) \<Rightarrow> (Inr r, db1)))"

definition release_reserved_set :: "work_status \<Rightarrow> work_item \<Rightarrow> work_item" where
  "release_reserved_set s d = bump (leaseUnset (d\<lparr>wk_status := s\<rparr>))"

definition releaseReconciledWork ::
  "(string \<Rightarrow> string) \<Rightarrow> ('k, work_item, 'db) store_ops \<Rightarrow> (nat \<Rightarrow> 'db \<Rightarrow> 'db) \<Rightarrow> 'k \<Rightarrow> work_item \<Rightarrow> ownership \<Rightarrow>
   work_status \<Rightarrow> int \<Rightarrow> 'db \<Rightarrow> (work_item option) res \<times> 'db" where
  "releaseReconciledWork sha256 S env k work o' release now db =
     (case ownershipFilter sha256 o' now [W_Claimed] of
        Inl e \<Rightarrow> (Inl e, db)
      | Inr owned \<Rightarrow>
          (case st_find_one_and_update S k (\<lambda>d. owned d \<and> wk_version d = wk_version work) (release_reserved_set release)
              (env 0 db) of
             (r, db1) \<Rightarrow> (Inr r, db1)))"

definition block_set :: "int \<Rightarrow> string \<Rightarrow> work_item \<Rightarrow> work_item" where
  "block_set now reason d = bump (d\<lparr>wk_status := W_Blocked, wk_blocked_at := Some now, wk_blocked_reason := Some reason\<rparr>)"

definition pauseClaimedWork ::
  "('k, work_item, 'db) store_ops \<Rightarrow> (nat \<Rightarrow> 'db \<Rightarrow> 'db) \<Rightarrow> 'k \<Rightarrow> ownership \<Rightarrow> string \<Rightarrow> int \<Rightarrow> 'db \<Rightarrow> work_item option \<times> 'db" where
  "pauseClaimedWork S env k o' reason now db =
     st_find_one_and_update S k (\<lambda>d. wk_lease_owner d = ow_owner o' \<and> wk_status d = W_Claimed)
       (\<lambda>d. leaseUnset (block_set now reason d)) (env 0 db)"

definition pauseQueuedWork ::
  "('k, work_item, 'db) store_ops \<Rightarrow> (nat \<Rightarrow> 'db \<Rightarrow> 'db) \<Rightarrow> 'k \<Rightarrow> string option \<Rightarrow> int \<Rightarrow> 'db \<Rightarrow> work_item option \<times> 'db" where
  "pauseQueuedWork S env k reason now db =
     st_find_one_and_update S k (\<lambda>d. wk_status d \<in> {W_Pending, W_Retry_Scheduled})
       (block_set now (or_default reason ''ORGANIZATION_SUSPENDED'')) (env 0 db)"

definition resume_set :: "int \<Rightarrow> work_item \<Rightarrow> work_item" where
  "resume_set now d =
     bump (d\<lparr>wk_status := W_Pending, wk_available_at := now, wk_blocked_at := None, wk_blocked_reason := None\<rparr>)"

definition resumeBlockedWork ::
  "('k, work_item, 'db) store_ops \<Rightarrow> (nat \<Rightarrow> 'db \<Rightarrow> 'db) \<Rightarrow> 'k \<Rightarrow> int \<Rightarrow> 'db \<Rightarrow> work_item option \<times> 'db" where
  "resumeBlockedWork S env k now db =
     st_find_one_and_update S k (\<lambda>d. wk_status d = W_Blocked) (resume_set now) (env 0 db)"

definition approve_set :: "int \<Rightarrow> work_item \<Rightarrow> work_item" where
  "approve_set now d = d\<lparr>wk_status := W_Pending, wk_available_at := now\<rparr>"

definition releaseQueuedWorkForApproval ::
  "('k, work_item, 'db) store_ops \<Rightarrow> (nat \<Rightarrow> 'db \<Rightarrow> 'db) \<Rightarrow> 'k \<Rightarrow> int \<Rightarrow> 'db \<Rightarrow> work_item option \<times> 'db" where
  "releaseQueuedWorkForApproval S env k now db =
     st_find_one_and_update S k (\<lambda>d. wk_status d = W_Waiting_For_Approval) (approve_set now) (env 0 db)"

end
