(* ===== verification/Program_Monad.thy ===== *)
theory Program_Monad
  imports Prelude
begin

text \<open>
  Operations that make several calls on the state and may throw: \<open>prog\<close>, a state transformer with a result. The locale
  \<open>rely\<close> is a logic for them under interference: \<open>M\<close> relates a state to what it may become by the calls of the
  operation and by what others do in between, and assertions about the state are used as far as \<open>M\<close> keeps them.
\<close>

subsection \<open>Programs\<close>

type_synonym ('a, 's) prog = "'s \<Rightarrow> 'a res \<times> 's"

definition returns :: "'a \<Rightarrow> ('a, 's) prog" where
  "returns a s = (Inr a, s)"

definition throws :: "app_error \<Rightarrow> ('a, 's) prog" where
  "throws e s = (Inl e, s)"

definition checks :: "'a res \<Rightarrow> ('a, 's) prog" where
  "checks r s = (r, s)"

definition thens :: "('a, 's) prog \<Rightarrow> ('a \<Rightarrow> ('b, 's) prog) \<Rightarrow> ('b, 's) prog" where
  "thens p f s = (case p s of (Inl e, s1) \<Rightarrow> (Inl e, s1) | (Inr a, s1) \<Rightarrow> f a s1)"

text \<open>\<open>try { p } catch (e) { h(e) }\<close>.\<close>

definition catches :: "('a, 's) prog \<Rightarrow> (app_error \<Rightarrow> ('a, 's) prog) \<Rightarrow> ('a, 's) prog" where
  "catches p h s = (case p s of (Inl e, s1) \<Rightarrow> h e s1 | (Inr a, s1) \<Rightarrow> (Inr a, s1))"

lemma prog_simps [simp]:
  "returns a s = (Inr a, s)" "throws e s = (Inl e, s)" "checks r s = (r, s)"
  by (simp_all add: returns_def throws_def checks_def)

lemma thens_simps [simp]:
  "p s = (Inl e, s1) \<Longrightarrow> thens p f s = (Inl e, s1)"
  "p s = (Inr a, s1) \<Longrightarrow> thens p f s = f a s1"
  by (simp_all add: thens_def)

lemma thens_Inr_iff: "thens p f s = (Inr b, s2) \<longleftrightarrow> (\<exists>a s1. p s = (Inr a, s1) \<and> f a s1 = (Inr b, s2))"
  by (auto simp: thens_def split: prod.splits sum.splits)

subsection \<open>Reasoning under interference\<close>

text \<open>From a state with \<open>P\<close> the program moves the state by \<open>M\<close>; what it returns satisfies \<open>Q\<close> in the state it leaves.\<close>

definition reaches :: "('s \<Rightarrow> 's \<Rightarrow> bool) \<Rightarrow> ('s \<Rightarrow> bool) \<Rightarrow> ('a, 's) prog \<Rightarrow> ('a \<Rightarrow> 's \<Rightarrow> bool) \<Rightarrow> bool" where
  "reaches M P p Q \<longleftrightarrow> (\<forall>s. P s \<longrightarrow> M s (snd (p s)) \<and> (\<forall>a. fst (p s) = Inr a \<longrightarrow> Q a (snd (p s))))"

definition stable :: "('s \<Rightarrow> 's \<Rightarrow> bool) \<Rightarrow> ('s \<Rightarrow> bool) \<Rightarrow> bool" where
  "stable M P \<longleftrightarrow> (\<forall>s s'. P s \<longrightarrow> M s s' \<longrightarrow> P s')"

named_theorems stables "assertions that interference keeps"

lemma stableD: "stable M P \<Longrightarrow> P s \<Longrightarrow> M s s' \<Longrightarrow> P s'"
  by (simp add: stable_def)

lemma stable_conj [stables]: "stable M P \<Longrightarrow> stable M Q \<Longrightarrow> stable M (\<lambda>s. P s \<and> Q s)"
  unfolding stable_def by blast

lemma stable_const [stables]: "stable M (\<lambda>s. b)"
  by (simp add: stable_def)

lemma stable_imp [stables]: "(b \<Longrightarrow> stable M P) \<Longrightarrow> stable M (\<lambda>s. b \<longrightarrow> P s)"
  unfolding stable_def by blast

lemma reachesI:
  "(\<And>s r s'. P s \<Longrightarrow> p s = (r, s') \<Longrightarrow> M s s' \<and> (\<forall>a. r = Inr a \<longrightarrow> Q a s')) \<Longrightarrow> reaches M P p Q"
  unfolding reaches_def by (metis prod.collapse)

lemma reachesD:
  assumes "reaches M P p Q" "P s" "p s = (r, s')"
  shows "M s s'" "r = Inr a \<Longrightarrow> Q a s'"
  using assms unfolding reaches_def by (metis fst_conv snd_conv)+

lemma reaches_mono:
  "reaches M P p Q \<Longrightarrow> (\<And>s. P' s \<Longrightarrow> P s) \<Longrightarrow> (\<And>a s. Q a s \<Longrightarrow> Q' a s) \<Longrightarrow> reaches M P' p Q'"
  unfolding reaches_def by blast

lemma reaches_pre: "reaches M P p Q \<Longrightarrow> (\<And>s. P' s \<Longrightarrow> P s) \<Longrightarrow> reaches M P' p Q"
  unfolding reaches_def by blast

lemma reaches_post: "reaches M P p Q \<Longrightarrow> (\<And>a s. Q a s \<Longrightarrow> Q' a s) \<Longrightarrow> reaches M P p Q'"
  unfolding reaches_def by blast

lemma reaches_if:
  "(b \<Longrightarrow> reaches M P p Q) \<Longrightarrow> (\<not> b \<Longrightarrow> reaches M P q Q) \<Longrightarrow> reaches M P (if b then p else q) Q"
  by simp

lemma reaches_pair:
  "(\<And>a b. x = (a, b) \<Longrightarrow> reaches M (Q a b) (f a b) R) \<Longrightarrow>
   reaches M (case x of (a, b) \<Rightarrow> Q a b) (case x of (a, b) \<Rightarrow> f a b) R"
  by (cases x) simp

locale rely =
  fixes M :: "'s \<Rightarrow> 's \<Rightarrow> bool"
  assumes moves_refl: "M s s" and moves_trans: "M s t \<Longrightarrow> M t u \<Longrightarrow> M s u"
begin

lemma reaches_throws: "reaches M P (throws e) Q"
  by (simp add: reaches_def moves_refl)

lemma reaches_returns: "(\<And>s. P s \<Longrightarrow> Q a s) \<Longrightarrow> reaches M P (returns a) Q"
  by (simp add: reaches_def moves_refl)

lemma reaches_thens:
  assumes "reaches M P p Q" "\<And>a. reaches M (Q a) (f a) R"
  shows "reaches M P (thens p f) R"
proof (rule reachesI)
  fix s r s' assume P: "P s" and e: "thens p f s = (r, s')"
  obtain r1 s1 where p: "p s = (r1, s1)" by fastforce
  from reachesD [OF assms(1) P p] have m: "M s s1" "\<And>a. r1 = Inr a \<Longrightarrow> Q a s1" by blast+
  show "M s s' \<and> (\<forall>a. r = Inr a \<longrightarrow> R a s')"
  proof (cases r1)
    case (Inl x)
    with p e m show ?thesis by auto
  next
    case (Inr a)
    with p e have "f a s1 = (r, s')" by simp
    from reachesD [OF assms(2) [of a] m(2) [OF Inr] this] m(1) moves_trans show ?thesis by blast
  qed
qed

lemma reaches_then_throws: "reaches M P p Q \<Longrightarrow> reaches M P (thens p (\<lambda>_. throws e)) R"
  by (erule reaches_thens) (rule reaches_throws)

lemma reaches_checks: "(\<And>a s. P s \<Longrightarrow> r = Inr a \<Longrightarrow> Q a s) \<Longrightarrow> reaches M P (checks r) Q"
  by (simp add: reaches_def moves_refl)

lemma reaches_thens_checks:
  "(\<And>a. r = Inr a \<Longrightarrow> reaches M P (f a) Q) \<Longrightarrow> reaches M P (thens (checks r) f) Q"
  by (rule reaches_thens [where Q = "\<lambda>a s. P s \<and> r = Inr a"], rule reaches_checks, simp) (auto simp: reaches_def)

text \<open>What \<open>M\<close> keeps need not be mentioned by the operation.\<close>

lemma reaches_frame:
  "reaches M P p Q \<Longrightarrow> stable M F \<Longrightarrow> reaches M (\<lambda>s. P s \<and> F s) p (\<lambda>a s. Q a s \<and> F s)"
  unfolding reaches_def stable_def by blast

lemma reaches_keep: "reaches M P p Q \<Longrightarrow> stable M P \<Longrightarrow> reaches M P p (\<lambda>a s. Q a s \<and> P s)"
  unfolding reaches_def stable_def by blast

lemma reaches_catches:
  assumes "reaches M P p Q" "stable M P" "\<And>e. reaches M P (h e) Q"
  shows "reaches M P (catches p h) Q"
proof (rule reachesI)
  fix s r s' assume P: "P s" and e: "catches p h s = (r, s')"
  obtain r1 s1 where p: "p s = (r1, s1)" by fastforce
  from reachesD [OF assms(1) P p] have m: "M s s1" "\<And>a. r1 = Inr a \<Longrightarrow> Q a s1" by blast+
  show "M s s' \<and> (\<forall>a. r = Inr a \<longrightarrow> Q a s')"
  proof (cases r1)
    case (Inl x)
    with p e have "h x s1 = (r, s')" by (simp add: catches_def)
    from reachesD [OF assms(3) stableD [OF assms(2) P m(1)] this] m(1) moves_trans show ?thesis by blast
  next
    case (Inr a)
    with p e m show ?thesis by (auto simp: catches_def)
  qed
qed

text \<open>A program whose first step is \<open>p\<close> made by others.\<close>

lemma reaches_after: "reaches M P p Q \<Longrightarrow> (\<And>s. M s (g s)) \<Longrightarrow> stable M P \<Longrightarrow> reaches M P (\<lambda>s. p (g s)) Q"
  unfolding reaches_def stable_def using moves_trans by blast

end

interpretation steps: rely "R\<^sup>*\<^sup>*" for R :: "'s \<Rightarrow> 's \<Rightarrow> bool"
  by unfold_locales auto

end
