(* ===== verification/Durable_Replay.thy ===== *)
theory Durable_Replay
  imports Durable_Work Invocation_Lifecycle Retry_Policy Program_Monad
begin

text \<open>
  The second half of backend/src/services/durableWork.service.js: whether an invocation may be executed
  (\<open>invocationPermitsClaim\<close>) or executed again (\<open>prepareInvocationForSafeReplay\<close>), and the operations that bring work back
  to the queue: \<open>scheduleRetry\<close>, \<open>scanAbandonedWork\<close> and \<open>requeueDeadLetter\<close>, with the updates of the invocation that
  they make.

  \<^item> The state is a pair of the collection of work items and the collection of invocations. An invocation is the
    document of \<open>Invocation_Lifecycle\<close> with the fields that tie it to its work. The operations take the store operations of
    both collections as arguments; \<open>env n\<close> is what others do before the \<open>n\<close>-th call.
  \<^item> Attempts of invocations (a third collection, updated in bulk) and the event outbox are not modelled.
\<close>

subsection \<open>Programs over both collections\<close>

text \<open>One call on the collection of items or on the collection of invocations.\<close>

definition find_work ::
  "('k, work_item, 'w) store_ops \<Rightarrow> ('w \<times> 'i \<Rightarrow> 'w \<times> 'i) \<Rightarrow> 'k \<Rightarrow> (work_item \<Rightarrow> bool) \<Rightarrow> (work_item option, 'w \<times> 'i) prog" where
  "find_work W env k p s = (let s1 = env s in (Inr (st_find_one W k p (fst s1)), s1))"

definition update_work ::
  "('k, work_item, 'w) store_ops \<Rightarrow> ('w \<times> 'i \<Rightarrow> 'w \<times> 'i) \<Rightarrow> 'k \<Rightarrow> (work_item \<Rightarrow> bool) \<Rightarrow> (work_item \<Rightarrow> work_item) \<Rightarrow>
   (work_item option, 'w \<times> 'i) prog" where
  "update_work W env k p u s =
     (let s1 = env s in case st_find_one_and_update W k p u (fst s1) of (r, w) \<Rightarrow> (Inr r, (w, snd s1)))"

definition find_invocation ::
  "('q, 'd, 'i) store_ops \<Rightarrow> ('w \<times> 'i \<Rightarrow> 'w \<times> 'i) \<Rightarrow> 'q \<Rightarrow> ('d \<Rightarrow> bool) \<Rightarrow> ('d option, 'w \<times> 'i) prog" where
  "find_invocation I env q p s = (let s1 = env s in (Inr (st_find_one I q p (snd s1)), s1))"

definition update_invocation ::
  "('q, 'd, 'i) store_ops \<Rightarrow> ('w \<times> 'i \<Rightarrow> 'w \<times> 'i) \<Rightarrow> 'q \<Rightarrow> ('d \<Rightarrow> bool) \<Rightarrow> ('d \<Rightarrow> 'd) \<Rightarrow> ('d option, 'w \<times> 'i) prog" where
  "update_invocation I env q p u s =
     (let s1 = env s in case st_find_one_and_update I q p u (snd s1) of (r, i) \<Rightarrow> (Inr r, (fst s1, i)))"

subsection \<open>Invocations of durable work\<close>

record ('j, 'k) durable_invocation = "'j invocation" +
  dv_protected_replay :: bool
  dv_execution_generation :: nat
  dv_work_item :: "'k option"
  dv_recovery_parent :: bool
  dv_trace_id :: "string option"

text \<open>\<open>Number(x || 1)\<close>.\<close>

definition generation_of :: "nat \<Rightarrow> nat" where
  "generation_of n = (if n = 0 then 1 else n)"

definition attempt_count :: "('j, 'k) durable_invocation \<Rightarrow> int" where
  "attempt_count v = (case inv_attempt_count v of None \<Rightarrow> 0 | Some n \<Rightarrow> n)"

definition CANCELLING :: "cancellation_state list" where
  "CANCELLING = [Cancel_Requested, Cancel_Aborting, Cancel_Confirmed]"

definition INVOCATION_TERMINAL_STATES :: "istate list" where
  "INVOCATION_TERMINAL_STATES = [Succeeded, Failed, Cancelled, Timed_Out]"

definition claim_denied :: "string \<Rightarrow> claim_decision" where
  "claim_denied r = \<lparr>cd_allowed = False, cd_cancelled = False, cd_work_status = None, cd_reason = r\<rparr>"

definition claim_allowed :: claim_decision where
  "claim_allowed = \<lparr>cd_allowed = True, cd_cancelled = False, cd_work_status = None, cd_reason = ''''\<rparr>"

text \<open>\<open>invocationPermitsClaim\<close> for the item with key \<open>k\<close>, given the invocation that its query finds.\<close>

definition invocationPermitsClaim ::
  "'k \<Rightarrow> ('j, 'k) durable_invocation option \<Rightarrow> work_item \<Rightarrow> claim_decision" where
  "invocationPermitsClaim k found work =
     (case found of
        None \<Rightarrow> claim_denied ''INVOCATION_NOT_FOUND''
      | Some v \<Rightarrow>
          if inv_cancellation_state v \<in> set CANCELLING then (claim_denied ''INVOCATION_CANCELLED'')\<lparr>cd_cancelled := True\<rparr>
          else if inv_lifecycle_state v \<in> set INVOCATION_TERMINAL_STATES
          then (claim_denied ''INVOCATION_ALREADY_TERMINAL'')
                 \<lparr>cd_cancelled := (inv_lifecycle_state v = Cancelled),
                  cd_work_status := Some (if inv_lifecycle_state v = Succeeded then W_Completed
                    else if inv_lifecycle_state v = Cancelled then W_Cancelled else W_Failed)\<rparr>
          else if wk_recovery_retry work \<and> \<not> dv_recovery_parent v then claim_denied ''RECOVERY_PARENT_NOT_FOUND''
          else if inv_lifecycle_state v \<notin> {Accepted, Validating, Authorized}
          then claim_denied ''INVOCATION_STATE_NOT_EXECUTABLE''
          else if \<not> dv_protected_replay v then claim_denied ''INVOCATION_PROTECTED_REPLAY_UNAVAILABLE''
          else if generation_of (dv_execution_generation v) \<noteq> generation_of (wk_execution_generation work)
          then claim_denied ''INVOCATION_EXECUTION_GENERATION_MISMATCH''
          else if dv_work_item v \<noteq> Some k then claim_denied ''INVOCATION_WORK_LINK_MISMATCH''
          else if int (wk_attempt work) \<noteq> attempt_count v + 1 then claim_denied ''DURABLE_ATTEMPT_MISMATCH''
          else if 1 < attempt_count v + 1 \<and> inv_retry_state v \<noteq> Retry_State_Scheduled
          then claim_denied ''INVOCATION_RETRY_NOT_SCHEDULED''
          else claim_allowed)"

subsection \<open>Preparation of a safe replay\<close>

definition SAFE_REPLAY_INVOCATION_STATES :: "istate list" where
  "SAFE_REPLAY_INVOCATION_STATES =
     [Accepted, Validating, Authorized, Retry_Scheduled, Running, Waiting_For_Runtime, Recovery_Required, Failed]"

record replay_request =
  rq_now :: int
  rq_available_at :: int
  rq_reason :: string
  rq_maximum_attempts :: "nat option"
  rq_terminal_override :: bool

datatype replay_verdict = Replay_Denied string | Replay_Allowed int

definition fenced_requeue :: "('j, 'k) durable_invocation \<Rightarrow> replay_request \<Rightarrow> bool" where
  "fenced_requeue v rq \<longleftrightarrow> inv_lifecycle_state v = Recovery_Required \<and> rq_terminal_override rq"

definition execution_lease_live :: "int \<Rightarrow> ('j, 'k) durable_invocation \<Rightarrow> bool" where
  "execution_lease_live now v = (case inv_execution_lease_expires_at v of None \<Rightarrow> False | Some t \<Rightarrow> now < t)"

text \<open>The decision of \<open>prepareInvocationForSafeReplay\<close>, which a dry run answers.\<close>

definition replay_decision ::
  "'k \<Rightarrow> work_item \<Rightarrow> replay_request \<Rightarrow> ('j, 'k) durable_invocation option \<Rightarrow> replay_verdict" where
  "replay_decision k work rq found =
     (case found of
        None \<Rightarrow> Replay_Denied ''INVOCATION_NOT_FOUND''
      | Some v \<Rightarrow>
          if inv_cancellation_state v \<in> set CANCELLING then Replay_Denied ''INVOCATION_CANCELLED''
          else if inv_lifecycle_state v = Failed \<and> inv_retry_state v \<noteq> Retry_State_Scheduled
          then Replay_Denied ''INVOCATION_RETRY_NOT_SCHEDULED''
          else if inv_lifecycle_state v \<in> {Timed_Out, Succeeded, Cancelled} then Replay_Denied ''INVOCATION_ALREADY_TERMINAL''
          else if \<not> dv_protected_replay v
            \<or> inv_recovery_state v = Recovery_State_Required \<and> \<not> fenced_requeue v rq
            \<or> inv_lifecycle_state v \<notin> set SAFE_REPLAY_INVOCATION_STATES
          then Replay_Denied ''INVOCATION_SAFE_REPLAY_NOT_PROVEN''
          else if generation_of (dv_execution_generation v) \<noteq> generation_of (wk_execution_generation work)
          then Replay_Denied ''INVOCATION_EXECUTION_GENERATION_MISMATCH''
          else if dv_work_item v \<notin> {None, Some k} then Replay_Denied ''INVOCATION_WORK_LINK_MISMATCH''
          else if inv_lifecycle_state v \<in> {Running, Waiting_For_Runtime} \<and> execution_lease_live (rq_now rq) v
          then Replay_Denied ''INVOCATION_EXECUTION_LEASE_ACTIVE''
          else if inv_lifecycle_state v = Waiting_For_Runtime \<and> \<not> ab_replay_allowed (classifyAbandonedWork work)
          then Replay_Denied ''INVOCATION_SAFE_REPLAY_NOT_PROVEN''
          else if attempt_count v + 1 < 1
            \<or> int (case rq_maximum_attempts rq of None \<Rightarrow> wk_maximum_attempts work | Some n \<Rightarrow> n) < attempt_count v + 1
          then Replay_Denied ''INVOCATION_ATTEMPT_LIMIT_REACHED''
          else Replay_Allowed (attempt_count v + 1))"

definition replay_path :: "istate \<Rightarrow> istate list" where
  "replay_path s = (if s \<in> {Retry_Scheduled, Recovery_Required} then [Authorized] else [Retry_Scheduled, Authorized])"

definition replay_options :: "work_item \<Rightarrow> replay_request \<Rightarrow> ('j, 'k) durable_invocation \<Rightarrow> 'j op_options" where
  "replay_options work rq v =
     \<lparr>op_invocation_id = None, op_workspace = None, op_from = '''', op_to = '''', op_now = rq_now rq,
      op_reason_code = Some (rq_reason rq), op_attempt_number = Some (num_of_int (attempt_count v + 1)),
      op_trace_id = (if present (wk_trace_id work) then wk_trace_id work else dv_trace_id v), op_request_id = None,
      op_outcome = None, op_execution_owner = None, op_execution_lease_id = None, op_lease_duration_ms = None\<rparr>"

fun history_entries :: "'j op_options \<Rightarrow> istate \<Rightarrow> istate list \<Rightarrow> history_entry list res" where
  "history_entries opts from [] = Inr []"
| "history_entries opts from (to # path) =
     bindE (transitionHistoryEntry (Some from) to opts) (\<lambda>e.
     bindE (history_entries opts to path) (\<lambda>es. Inr (e # es)))"

text \<open>\<open>$push\<close> with \<open>$each\<close> and a negative \<open>$slice\<close>.\<close>

definition push_each :: "nat \<Rightarrow> 'a list \<Rightarrow> 'a list \<Rightarrow> 'a list" where
  "push_each n es xs = drop (length (xs @ es) - n) (xs @ es)"

definition progress_of :: "istate \<Rightarrow> progress_stage" where
  "progress_of s = (if s = Accepted then Stage_Accepted else if s = Validating then Stage_Validation_Started else Stage_Authorized)"

definition replay_set ::
  "'k \<Rightarrow> replay_request \<Rightarrow> istate \<Rightarrow> history_entry list \<Rightarrow> ('j, 'k) durable_invocation \<Rightarrow> ('j, 'k) durable_invocation" where
  "replay_set k rq from es d =
     d\<lparr>inv_lifecycle_state := Authorized, inv_status := LIFECYCLE_STATE_TO_LEGACY_STATUS Authorized,
       inv_last_transition_at := rq_now rq,
       inv_timestamps := (inv_timestamps d)
         (''authorizedAt'' \<mapsto> rq_now rq,
          ''retryScheduledAt'' := (if Retry_Scheduled \<in> set (replay_path from) then Some (rq_available_at rq)
            else inv_timestamps d ''retryScheduledAt'')),
       inv_state_history := push_each MAX_INVOCATION_STATE_HISTORY es (inv_state_history d),
       inv_version := inv_version d + 1,
       inv_terminal_at := None, inv_terminalized_at := None,
       inv_last_progress_at := Some (rq_now rq), inv_last_progress_stage := Some (progress_of from),
       inv_retry_state := Retry_State_Scheduled, inv_retry_decision_reason := Some (rq_reason rq),
       inv_retry_scheduled_at := Some (rq_available_at rq),
       inv_recovery_reason_code := None, inv_recovery_state := Recovery_Not_Required, inv_recovery_eligible := False,
       inv_recovery_decision := Decision_Not_Evaluated, inv_recovery_decision_reason := None,
       inv_execution_lease_id := None, inv_execution_lease_expires_at := None, inv_execution_owner := None,
       inv_duration_ms := None, inv_runtime_status := None, inv_output := None, inv_error := None,
       dv_work_item := Some k\<rparr>"

definition replay_matches ::
  "'k \<Rightarrow> work_item \<Rightarrow> replay_request \<Rightarrow> ('j, 'k) durable_invocation \<Rightarrow> ('j, 'k) durable_invocation \<Rightarrow> bool" where
  "replay_matches k work rq v d \<longleftrightarrow>
     inv_lifecycle_state d = inv_lifecycle_state v \<and> inv_attempt_count d = Some (attempt_count v)
     \<and> dv_execution_generation d = generation_of (wk_execution_generation work) \<and> dv_protected_replay d
     \<and> inv_cancellation_state d \<notin> set CANCELLING
     \<and> (if fenced_requeue v rq then inv_recovery_state d = Recovery_State_Required
        else inv_recovery_state d \<noteq> Recovery_State_Required)
     \<and> dv_work_item d \<in> {None, Some k}
     \<and> (inv_lifecycle_state v \<in> {Running, Waiting_For_Runtime} \<longrightarrow> \<not> execution_lease_live (rq_now rq) d)"

definition inspectReplay ::
  "('q, ('j, 'k) durable_invocation, 'i) store_ops \<Rightarrow> ('w \<times> 'i \<Rightarrow> 'w \<times> 'i) \<Rightarrow> 'k \<Rightarrow> 'q \<Rightarrow> work_item \<Rightarrow> replay_request \<Rightarrow>
   (replay_verdict, 'w \<times> 'i) prog" where
  "inspectReplay I env k q work rq =
     thens (find_invocation I env q (\<lambda>_. True)) (\<lambda>found. returns (replay_decision k work rq found))"

definition prepareInvocationForSafeReplay ::
  "('q, ('j, 'k) durable_invocation, 'i) store_ops \<Rightarrow> (nat \<Rightarrow> 'w \<times> 'i \<Rightarrow> 'w \<times> 'i) \<Rightarrow> nat \<Rightarrow> 'k \<Rightarrow> 'q \<Rightarrow> work_item \<Rightarrow> replay_request \<Rightarrow>
   (replay_verdict, 'w \<times> 'i) prog" where
  "prepareInvocationForSafeReplay I env n k q work rq =
     thens (find_invocation I (env n) q (\<lambda>_. True)) (\<lambda>found.
     case (found, replay_decision k work rq found) of
       (Some v, Replay_Allowed next) \<Rightarrow>
         thens (checks (history_entries (replay_options work rq v) (inv_lifecycle_state v) (replay_path (inv_lifecycle_state v)))) (\<lambda>es.
         thens (update_invocation I (env (n + 1)) q (replay_matches k work rq v) (replay_set k rq (inv_lifecycle_state v) es)) (\<lambda>prepared.
         returns (if prepared = None then Replay_Denied ''INVOCATION_REPLAY_PREPARATION_CONFLICT'' else Replay_Allowed next)))
     | (_, verdict) \<Rightarrow> returns verdict)"

subsection \<open>Leases of a preparation\<close>

definition preparation_lease :: "string \<Rightarrow> string \<Rightarrow> work_config \<Rightarrow> int \<Rightarrow> work_item \<Rightarrow> work_item" where
  "preparation_lease owner hash cfg now d =
     d\<lparr>wk_lease_owner := Some owner, wk_lease_token_hash := Some hash, wk_lease_acquired_at := Some now,
       wk_lease_expires_at := Some (now + wc_lease_ms cfg), wk_last_heartbeat_at := Some now\<rparr>"

text \<open>The filter on the item \<open>p\<close> that the preparation has written.\<close>

definition replayPreparationFilter :: "work_item \<Rightarrow> string \<Rightarrow> string \<Rightarrow> int \<Rightarrow> work_item \<Rightarrow> bool" where
  "replayPreparationFilter p owner hash now d \<longleftrightarrow>
     wk_status d = W_Retry_Preparing \<and> wk_version d = wk_version p \<and> wk_lease_owner d = Some owner
     \<and> wk_lease_token_hash d = Some hash \<and> lease_live now d"

definition DETERMINISTIC_REPLAY_DENIALS :: "string list" where
  "DETERMINISTIC_REPLAY_DENIALS =
     [''INVOCATION_CANCELLED'', ''INVOCATION_SAFE_REPLAY_NOT_PROVEN'', ''INVOCATION_RETRY_NOT_SCHEDULED'',
      ''INVOCATION_ATTEMPT_LIMIT_REACHED'']"

definition replayDenialStatus :: "string \<Rightarrow> work_status" where
  "replayDenialStatus reason =
     (if reason = ''INVOCATION_CANCELLED'' then W_Cancelled
      else if reason \<in> set DETERMINISTIC_REPLAY_DENIALS then W_Failed else W_Recovery_Required)"

definition denial_set :: "string \<Rightarrow> int \<Rightarrow> work_item \<Rightarrow> work_item" where
  "denial_set reason now d =
     (let s = replayDenialStatus reason;
          d1 = d\<lparr>wk_status := s, wk_last_error_code := Some reason, wk_retry_reason := Some reason\<rparr>
      in bump (leaseUnset (if s = W_Recovery_Required then d1\<lparr>wk_recovery_reason := Some ''RESULT_PERSISTENCE_UNCERTAIN''\<rparr>
           else finalizeTimestamp s now d1)))"

definition terminalizeReplayPreparation ::
  "('k, work_item, 'w) store_ops \<Rightarrow> ('w \<times> 'i \<Rightarrow> 'w \<times> 'i) \<Rightarrow> 'k \<Rightarrow> work_item \<Rightarrow> string \<Rightarrow> string \<Rightarrow> string \<Rightarrow> int \<Rightarrow>
   (work_item option, 'w \<times> 'i) prog" where
  "terminalizeReplayPreparation W env k p owner hash reason now =
     update_work W env k (replayPreparationFilter p owner hash now) (denial_set reason now)"

definition release_set :: "work_status \<Rightarrow> work_item \<Rightarrow> work_item" where
  "release_set s d = bump (leaseUnset (d\<lparr>wk_status := s\<rparr>))"

definition denial_reason :: "replay_verdict \<Rightarrow> string" where
  "denial_reason v = (case v of Replay_Denied r \<Rightarrow> r | Replay_Allowed _ \<Rightarrow> ''INVOCATION_REPLAY_PREPARATION_CONFLICT'')"

subsection \<open>Retries\<close>

fun retry_reason_name :: "retry_reason \<Rightarrow> string" where
  "retry_reason_name AUTHENTICATION_FAILURE = ''AUTHENTICATION_FAILURE''"
| "retry_reason_name CAPABILITY_RETRY_NOT_ENABLED = ''CAPABILITY_RETRY_NOT_ENABLED''"
| "retry_reason_name CLIENT_IDEMPOTENCY_NOT_PROVIDED = ''CLIENT_IDEMPOTENCY_NOT_PROVIDED''"
| "retry_reason_name CONNECTION_CREATION_NOT_RETRYABLE = ''CONNECTION_CREATION_NOT_RETRYABLE''"
| "retry_reason_name CREDENTIAL_FAILURE = ''CREDENTIAL_FAILURE''"
| "retry_reason_name GROUNDED_RESEARCH_NOT_AUTOMATICALLY_RETRIED = ''GROUNDED_RESEARCH_NOT_AUTOMATICALLY_RETRIED''"
| "retry_reason_name INSTALL_KEY_OPERATION_NOT_RETRYABLE = ''INSTALL_KEY_OPERATION_NOT_RETRYABLE''"
| "retry_reason_name MALFORMED_PROVIDER_RESPONSE = ''MALFORMED_PROVIDER_RESPONSE''"
| "retry_reason_name MAX_ATTEMPTS_REACHED = ''MAX_ATTEMPTS_REACHED''"
| "retry_reason_name NON_RETRYABLE_ERROR = ''NON_RETRYABLE_ERROR''"
| "retry_reason_name POLICY_DENIAL = ''POLICY_DENIAL''"
| "retry_reason_name REMOTE_IDEMPOTENCY_NOT_CONFIRMED = ''REMOTE_IDEMPOTENCY_NOT_CONFIRMED''"
| "retry_reason_name RETRY_SAFETY_NOT_PROVEN = ''RETRY_SAFETY_NOT_PROVEN''"
| "retry_reason_name SCHEMA_VALIDATION_FAILURE = ''SCHEMA_VALIDATION_FAILURE''"
| "retry_reason_name SOURCE_EXTRACTION_FAILURE = ''SOURCE_EXTRACTION_FAILURE''"
| "retry_reason_name TRANSIENT_FAILURE_NOT_CONFIRMED = ''TRANSIENT_FAILURE_NOT_CONFIRMED''"
| "retry_reason_name TRANSIENT_IDEMPOTENT_FAILURE = ''TRANSIENT_IDEMPOTENT_FAILURE''"
| "retry_reason_name UNSAFE_URL = ''UNSAFE_URL''"

definition retry_denied :: app_error where
  "retry_denied = App_Error 409 ''DURABLE_WORK_RETRY_DENIED'' ''''"

definition retry_preparing_set ::
  "string \<Rightarrow> string \<Rightarrow> work_config \<Rightarrow> replay_request \<Rightarrow> int \<Rightarrow> string option \<Rightarrow> work_item \<Rightarrow> work_item" where
  "retry_preparing_set owner hash cfg rq next err d =
     bump (preparation_lease owner hash cfg (rq_now rq)
       (d\<lparr>wk_status := W_Retry_Preparing, wk_available_at := rq_available_at rq, wk_attempt := nat next,
         wk_retry_reason := Some (rq_reason rq), wk_last_error_code := set_if err (wk_last_error_code d),
         wk_retry_count := wk_retry_count d + 1\<rparr>))"

text \<open>The end of a retry, from the item that has been put into preparation: \<open>done\<close> is the status of the prepared item.\<close>

definition finish_preparation ::
  "('k, work_item, 'w) store_ops \<Rightarrow> ('q, ('j, 'k) durable_invocation, 'i) store_ops \<Rightarrow> (nat \<Rightarrow> 'w \<times> 'i \<Rightarrow> 'w \<times> 'i) \<Rightarrow> nat \<Rightarrow>
   'k \<Rightarrow> 'q \<Rightarrow> string \<Rightarrow> string \<Rightarrow> replay_request \<Rightarrow> int \<Rightarrow> work_status \<Rightarrow> app_error \<Rightarrow> work_item \<Rightarrow> (work_item, 'w \<times> 'i) prog" where
  "finish_preparation W I env n k q owner hash rq next ready refused p =
     thens (prepareInvocationForSafeReplay I env n k q p rq) (\<lambda>verdict.
     if verdict \<noteq> Replay_Allowed next
     then thens (terminalizeReplayPreparation W (env (n + 2)) k p owner hash (denial_reason verdict) (rq_now rq)) (\<lambda>_. throws refused)
     else thens (update_work W (env (n + 2)) k (replayPreparationFilter p owner hash (rq_now rq)) (release_set ready)) (\<lambda>item.
       case item of None \<Rightarrow> throws finalization_conflict | Some d \<Rightarrow> returns d))"

text \<open>Taking an item that satisfies \<open>p\<close> into preparation with \<open>enter\<close>, from the call number \<open>n\<close> on.\<close>

definition begin_preparation ::
  "(string \<Rightarrow> string) \<Rightarrow> ('k, work_item, 'w) store_ops \<Rightarrow> ('q, ('j, 'k) durable_invocation, 'i) store_ops \<Rightarrow>
   (nat \<Rightarrow> 'w \<times> 'i \<Rightarrow> 'w \<times> 'i) \<Rightarrow> nat \<Rightarrow> 'k \<Rightarrow> 'q \<Rightarrow> string \<Rightarrow> string \<Rightarrow> replay_request \<Rightarrow> int \<Rightarrow>
   (work_item \<Rightarrow> bool) \<Rightarrow> (string \<Rightarrow> work_item \<Rightarrow> work_item) \<Rightarrow> work_status \<Rightarrow> app_error \<Rightarrow> app_error \<Rightarrow> (work_item, 'w \<times> 'i) prog" where
  "begin_preparation sha256 W I env n k q preparer token rq next p enter ready lost refused =
     thens (checks (leaseTokenHash sha256 (Some token))) (\<lambda>hash.
     thens (update_work W (env n) k p (enter hash)) (\<lambda>preparing. case preparing of
       None \<Rightarrow> throws lost
     | Some d \<Rightarrow> finish_preparation W I env (n + 1) k q preparer hash rq next ready refused d))"

definition retry_request :: "int \<Rightarrow> int \<Rightarrow> retry_decision \<Rightarrow> replay_request" where
  "retry_request now delay decision =
     \<lparr>rq_now = now, rq_available_at = now + delay, rq_reason = retry_reason_name (rd_reason decision),
      rq_maximum_attempts = None, rq_terminal_override = False\<rparr>"

text \<open>The part of a retry after its decision and its delay are known.\<close>

definition retry_current ::
  "(string \<Rightarrow> string) \<Rightarrow> work_config \<Rightarrow> ('k, work_item, 'w) store_ops \<Rightarrow> ('q, ('j, 'k) durable_invocation, 'i) store_ops \<Rightarrow>
   (nat \<Rightarrow> 'w \<times> 'i \<Rightarrow> 'w \<times> 'i) \<Rightarrow> 'k \<Rightarrow> 'q \<Rightarrow> (work_item \<Rightarrow> bool) \<Rightarrow> work_item \<Rightarrow> string \<Rightarrow> string \<Rightarrow> string option \<Rightarrow> replay_request \<Rightarrow>
   (work_item, 'w \<times> 'i) prog" where
  "retry_current sha256 cfg W I env k q owned current preparer token err rq =
     thens (inspectReplay I (env 1) k q current rq) (\<lambda>verdict. case verdict of
       Replay_Denied _ \<Rightarrow> throws retry_denied
     | Replay_Allowed next \<Rightarrow>
         if next \<le> int (wk_attempt current) \<or> int (wk_maximum_attempts current) < next then throws retry_denied
         else begin_preparation sha256 W I env 2 k q preparer token rq next
           (\<lambda>d. owned d \<and> wk_attempt d = wk_attempt current \<and> wk_attempt current < wk_maximum_attempts d)
           (\<lambda>hash. retry_preparing_set preparer hash cfg rq next err) W_Retry_Scheduled leaseLost retry_denied)"

definition retry_found ::
  "(string \<Rightarrow> string) \<Rightarrow> work_config \<Rightarrow> retry_config \<Rightarrow> ('k, work_item, 'w) store_ops \<Rightarrow>
   ('q, ('j, 'k) durable_invocation, 'i) store_ops \<Rightarrow> (nat \<Rightarrow> 'w \<times> 'i \<Rightarrow> 'w \<times> 'i) \<Rightarrow> 'k \<Rightarrow> 'q \<Rightarrow> (work_item \<Rightarrow> bool) \<Rightarrow> work_item \<Rightarrow>
   retry_input \<Rightarrow> rat \<Rightarrow> string \<Rightarrow> string \<Rightarrow> int \<Rightarrow> (work_item, 'w \<times> 'i) prog" where
  "retry_found sha256 cfg envc W I env k q owned current ri random preparer token now =
     thens (checks (retryPolicyDecision envc (ri\<lparr>ri_attempt_number := Some (num_of_int (int (wk_attempt current)))\<rparr>)
       no_overrides random)) (\<lambda>decision.
     if \<not> rd_allowed decision \<or> wk_maximum_attempts current \<le> wk_attempt current then throws retry_denied
     else
     thens (checks (boundedNumber (case rd_delay_ms decision of None \<Rightarrow> NaN | Some t \<Rightarrow> num_of_int (max 1 t))
       ''retryDecision.delayMs'' 1 3600000)) (\<lambda>delay.
     thens (checks (optionalCode (if present (ri_error_code ri) then ri_error_code ri else ri_code ri) ''lastErrorCode'')) (\<lambda>err.
     retry_current sha256 cfg W I env k q owned current preparer token err (retry_request now delay decision))))"

definition scheduleRetry ::
  "(string \<Rightarrow> string) \<Rightarrow> work_config \<Rightarrow> retry_config \<Rightarrow> ('k, work_item, 'w) store_ops \<Rightarrow>
   ('q, ('j, 'k) durable_invocation, 'i) store_ops \<Rightarrow> (nat \<Rightarrow> 'w \<times> 'i \<Rightarrow> 'w \<times> 'i) \<Rightarrow> 'k \<Rightarrow> 'q \<Rightarrow> ownership \<Rightarrow>
   retry_input \<Rightarrow> rat \<Rightarrow> string \<Rightarrow> string \<Rightarrow> int \<Rightarrow> (work_item, 'w \<times> 'i) prog" where
  "scheduleRetry sha256 cfg envc W I env k q o' ri random preparer token now =
     thens (checks (ownershipFilter sha256 o' now [W_Claimed, W_Running])) (\<lambda>owned.
     thens (find_work W (env 0) k owned) (\<lambda>found. case found of
       None \<Rightarrow> throws leaseLost
     | Some current \<Rightarrow> retry_found sha256 cfg envc W I env k q owned current ri random preparer token now))"

subsection \<open>Requeue of a dead letter\<close>

definition requeue_denied :: app_error where
  "requeue_denied = App_Error 409 ''DURABLE_WORK_REQUEUE_DENIED'' ''''"

definition requeue_set :: "string \<Rightarrow> string \<Rightarrow> work_config \<Rightarrow> nat \<Rightarrow> replay_request \<Rightarrow> int \<Rightarrow> work_item \<Rightarrow> work_item" where
  "requeue_set owner hash cfg maximum rq next d =
     bump (preparation_lease owner hash cfg (rq_now rq)
       (d\<lparr>wk_status := W_Retry_Preparing, wk_available_at := rq_now rq, wk_attempt := nat next, wk_requeued_at := Some (rq_now rq),
         wk_retry_count := 0, wk_maximum_attempts := max maximum (nat next),
         wk_retry_reason := Some (rq_reason rq), wk_recovery_reason := Some ''WORKER_TERMINATED_BEFORE_TRANSMISSION'',
         wk_cancellation_requested_at := None, wk_cancellation_reason := None, wk_cancelled_at := None,
         wk_requeue_count := wk_requeue_count d + 1\<rparr>))"

definition requeueDeadLetter ::
  "(string \<Rightarrow> string) \<Rightarrow> work_config \<Rightarrow> ('k, work_item, 'w) store_ops \<Rightarrow> ('q, ('j, 'k) durable_invocation, 'i) store_ops \<Rightarrow>
   (nat \<Rightarrow> 'w \<times> 'i \<Rightarrow> 'w \<times> 'i) \<Rightarrow> 'k \<Rightarrow> 'q \<Rightarrow> jsnum \<Rightarrow> string \<Rightarrow> string \<Rightarrow> int \<Rightarrow> (work_item, 'w \<times> 'i) prog" where
  "requeueDeadLetter sha256 cfg W I env k q version preparer token now =
     thens (checks (boundedNumber version ''version'' 0 9007199254740991)) (\<lambda>version.
     thens (find_work W (env 0) k (\<lambda>d. wk_status d = W_Dead_Lettered)) (\<lambda>found. case found of None \<Rightarrow> throws work_not_found | Some current \<Rightarrow>
     if \<not> ab_replay_allowed (classifyAbandonedWork current) \<or> 1 \<le> wk_requeue_count current
       \<or> wc_dead_letter_after cfg \<le> wk_attempt current
     then throws requeue_denied
     else
     let rq = \<lparr>rq_now = now, rq_available_at = now, rq_reason = ''OPERATOR_REQUEUE_PRETRANSMISSION'',
           rq_maximum_attempts = Some (wc_dead_letter_after cfg), rq_terminal_override = True\<rparr> in
     thens (inspectReplay I (env 1) k q current rq) (\<lambda>verdict. case verdict of Replay_Denied _ \<Rightarrow> throws requeue_denied | Replay_Allowed next \<Rightarrow>
     if int (wc_dead_letter_after cfg) < next then throws requeue_denied
     else begin_preparation sha256 W I env 2 k q preparer token rq next
       (\<lambda>d. wk_status d = W_Dead_Lettered \<and> int (wk_version d) = version \<and> wk_requeue_count d < 1)
       (\<lambda>hash. requeue_set preparer hash cfg (wk_maximum_attempts current) rq next) W_Pending requeue_denied requeue_denied)))"

subsection \<open>The invocation of abandoned work\<close>

text \<open>An update of the lifecycle service, on an invocation of durable work.\<close>

definition on_invocation :: "('j invocation \<Rightarrow> 'j invocation) \<Rightarrow> ('j, 'k) durable_invocation \<Rightarrow> ('j, 'k) durable_invocation" where
  "on_invocation u d = invocation.extend (u (invocation.truncate d)) (invocation.more d)"

definition recovery_outcome :: "string \<Rightarrow> 'j outcome_input" where
  "recovery_outcome reason =
     Outcome_Object \<lparr>oc_keys = [''retryState'', ''retryDecisionReason''], oc_duration_ms = None, oc_attempt_count = None,
       oc_retry_state = Some ''recovery_required'', oc_retry_decision_reason = Some reason, oc_retry_scheduled_at = None,
       oc_runtime_status = None, oc_output = None, oc_error = None, oc_stage_metrics = None\<rparr>"

definition recovery_options :: "string \<Rightarrow> int \<Rightarrow> nat \<Rightarrow> string option \<Rightarrow> 'j op_options" where
  "recovery_options reason now attempt trace =
     \<lparr>op_invocation_id = None, op_workspace = None, op_from = '''', op_to = '''', op_now = now, op_reason_code = Some reason,
      op_attempt_number = Some (num_of_int (int attempt)), op_trace_id = trace, op_request_id = None,
      op_outcome = Some (recovery_outcome reason), op_execution_owner = None, op_execution_lease_id = None,
      op_lease_duration_ms = None\<rparr>"

definition recovery_fields :: "string \<Rightarrow> ('j, 'k) durable_invocation \<Rightarrow> ('j, 'k) durable_invocation" where
  "recovery_fields reason d =
     d\<lparr>inv_recovery_state := Recovery_State_Required, inv_recovery_eligible := True,
       inv_recovery_decision := Decision_Operator_Review_Required, inv_recovery_decision_reason := Some reason,
       inv_recovery_reason_code := Some reason\<rparr>"

text \<open>The result is whether the invocation was moved to recovery.\<close>

definition markInvocationRecoveryForWork ::
  "('j \<Rightarrow> 'j) \<Rightarrow> ('q, ('j, 'k) durable_invocation, 'i) store_ops \<Rightarrow> (nat \<Rightarrow> 'w \<times> 'i \<Rightarrow> 'w \<times> 'i) \<Rightarrow> nat \<Rightarrow> 'q \<Rightarrow> work_item \<Rightarrow>
   string \<Rightarrow> int \<Rightarrow> (bool, 'w \<times> 'i) prog" where
  "markInvocationRecoveryForWork redact I env n q work reason now =
     thens (find_invocation I (env n) q (\<lambda>v. inv_lifecycle_state v \<in> {Running, Waiting_For_Runtime})) (\<lambda>found. case found of None \<Rightarrow> returns False | Some v \<Rightarrow>
     thens (checks (transitionUpdate redact (istate_name (inv_lifecycle_state v)) ''recovery_required''
       (recovery_options reason now (wk_attempt work) (wk_trace_id work)))) (\<lambda>(_, u).
     thens (update_invocation I (env (n + 1)) q (\<lambda>d. inv_lifecycle_state d = inv_lifecycle_state v)
       (\<lambda>d. recovery_fields reason (on_invocation u d))) (\<lambda>r. returns (r \<noteq> None))))"

definition exhausted_update ::
  "('j \<Rightarrow> 'j) \<Rightarrow> work_item \<Rightarrow> int \<Rightarrow> ('j, 'k) durable_invocation \<Rightarrow> (('j, 'k) durable_invocation \<Rightarrow> ('j, 'k) durable_invocation) res" where
  "exhausted_update redact work now v =
     (if inv_lifecycle_state v \<in> {Failed, Timed_Out}
      then Inr (\<lambda>d. d\<lparr>inv_retry_state := Retry_Exhausted, inv_retry_decision_reason := Some ''SAFE_RETRY_ATTEMPTS_EXHAUSTED'',
             inv_version := inv_version d + 1\<rparr>)
      else bindE (transitionUpdate redact (istate_name (inv_lifecycle_state v)) ''recovery_required''
             (recovery_options ''SAFE_RETRY_ATTEMPTS_EXHAUSTED'' now (max 1 (wk_attempt work))
               (if present (wk_trace_id work) then wk_trace_id work else dv_trace_id v))) (\<lambda>(_, u).
           Inr (\<lambda>d. (recovery_fields ''SAFE_RETRY_ATTEMPTS_EXHAUSTED'' (on_invocation u d))
             \<lparr>inv_last_progress_at := Some now, inv_last_progress_stage := Some Stage_Finalization_Started\<rparr>)))"

definition terminalizeInvocationForDeadLetter ::
  "('j \<Rightarrow> 'j) \<Rightarrow> ('q, ('j, 'k) durable_invocation, 'i) store_ops \<Rightarrow> (nat \<Rightarrow> 'w \<times> 'i \<Rightarrow> 'w \<times> 'i) \<Rightarrow> nat \<Rightarrow> 'k \<Rightarrow> 'q \<Rightarrow> work_item \<Rightarrow>
   int \<Rightarrow> (bool, 'w \<times> 'i) prog" where
  "terminalizeInvocationForDeadLetter redact I env n k q work now =
     thens (find_invocation I (env n) q (\<lambda>_. True)) (\<lambda>found. case found of None \<Rightarrow> returns False | Some v \<Rightarrow>
     if inv_cancellation_state v \<in> {Cancel_Requested, Cancel_Aborting, Cancel_Confirmed, Cancel_Outcome_Unknown} then returns False
     else if inv_lifecycle_state v \<in> {Succeeded, Cancelled} then returns False
     else if inv_lifecycle_state v = Recovery_Required \<or> inv_recovery_state v = Recovery_State_Required then returns True
     else case exhausted_update redact work now v of
            Inl _ \<Rightarrow> returns False
          | Inr u \<Rightarrow>
              thens (update_invocation I (env (n + 1)) q
                (\<lambda>d. inv_lifecycle_state d = inv_lifecycle_state v
                   \<and> dv_execution_generation d = generation_of (wk_execution_generation work) \<and> dv_work_item d \<in> {None, Some k}) u)
                (\<lambda>r. returns (r \<noteq> None)))"

subsection \<open>The scan for abandoned work\<close>

record abandoned_decision =
  ad_allowed :: bool
  ad_cancelled :: bool
  ad_dead_letter :: bool
  ad_reason :: string

definition abandoned_denied :: "string \<Rightarrow> abandoned_decision" where
  "abandoned_denied r = \<lparr>ad_allowed = False, ad_cancelled = False, ad_dead_letter = False, ad_reason = r\<rparr>"

definition abandonedRetryDecision :: "work_config \<Rightarrow> work_item \<Rightarrow> abandonment \<Rightarrow> abandoned_decision" where
  "abandonedRetryDecision cfg d c =
     (if \<not> ab_replay_allowed c then abandoned_denied (ab_recovery_reason c)
      else if wk_status d = W_Cancellation_Requested \<or> wk_cancellation_requested_at d \<noteq> None
      then (abandoned_denied ''INVOCATION_CANCELLED'')\<lparr>ad_cancelled := True\<rparr>
      else if wk_status d = W_Retry_Preparing
      then (if wk_retry_reason d = Some ''SAFE_RETRY_ATTEMPTS_EXHAUSTED''
            then (abandoned_denied ''SAFE_RETRY_ATTEMPTS_EXHAUSTED'')\<lparr>ad_dead_letter := True\<rparr>
            else \<lparr>ad_allowed = True, ad_cancelled = False, ad_dead_letter = False,
                  ad_reason = or_default (wk_retry_reason d) ''LEASE_EXPIRED_BEFORE_TRANSMISSION''\<rparr>)
      else if min (if wk_maximum_attempts d = 0 then wc_dead_letter_after cfg else wk_maximum_attempts d) (wc_dead_letter_after cfg)
          \<le> wk_retry_count d
      then (abandoned_denied ''SAFE_RETRY_ATTEMPTS_EXHAUSTED'')\<lparr>ad_dead_letter := True\<rparr>
      else if wk_maximum_attempts d \<le> wk_attempt d
      then (abandoned_denied ''SAFE_RETRY_ATTEMPTS_EXHAUSTED'')\<lparr>ad_dead_letter := True\<rparr>
      else \<lparr>ad_allowed = True, ad_cancelled = False, ad_dead_letter = False, ad_reason = ''LEASE_EXPIRED_BEFORE_TRANSMISSION''\<rparr>)"

definition abandonedCasFilter :: "work_item \<Rightarrow> int \<Rightarrow> work_item \<Rightarrow> bool" where
  "abandonedCasFilter work cutoff d \<longleftrightarrow>
     wk_status d = wk_status work \<and> wk_version d = wk_version work
     \<and> (case wk_lease_expires_at d of None \<Rightarrow> False | Some t \<Rightarrow> t \<le> cutoff)"

datatype scan_outcome =
  Safely_Recovered | Scan_Recovery_Required | Scan_Dead_Lettered | Scan_Cancelled | Terminal_Reconciled | Scan_Conflict

definition denied_outcome :: "work_item option \<Rightarrow> scan_outcome" where
  "denied_outcome r =
     (case r of
        None \<Rightarrow> Scan_Conflict
      | Some d \<Rightarrow> if wk_status d = W_Recovery_Required then Scan_Recovery_Required
          else if wk_status d = W_Cancelled then Scan_Cancelled else Terminal_Reconciled)"

definition reconcile_set :: "work_status \<Rightarrow> int \<Rightarrow> work_item \<Rightarrow> work_item" where
  "reconcile_set s now d = bump (leaseUnset (finalizeTimestamp s now (d\<lparr>wk_status := s\<rparr>)))"

definition abandon_set :: "string \<Rightarrow> string \<Rightarrow> work_config \<Rightarrow> replay_request \<Rightarrow> int \<Rightarrow> string \<Rightarrow> work_item \<Rightarrow> work_item" where
  "abandon_set owner hash cfg rq next recovery_reason d =
     bump (preparation_lease owner hash cfg (rq_now rq)
       (d\<lparr>wk_status := W_Retry_Preparing, wk_available_at := rq_available_at rq, wk_attempt := nat next,
         wk_retry_reason := Some (rq_reason rq), wk_recovery_reason := Some recovery_reason,
         wk_retry_count := wk_retry_count d + (if wk_status d = W_Retry_Preparing then 0 else 1)\<rparr>))"

definition scan_cancel_set :: "int \<Rightarrow> work_item \<Rightarrow> work_item" where
  "scan_cancel_set now d =
     bump (leaseUnset (d\<lparr>wk_status := W_Cancelled, wk_cancelled_at := Some now,
       wk_cancellation_reason := Some (or_default (wk_cancellation_reason d) ''INVOCATION_CANCELLED'')\<rparr>))"

definition exhaust_set :: "string \<Rightarrow> string \<Rightarrow> work_config \<Rightarrow> int \<Rightarrow> work_item \<Rightarrow> work_item" where
  "exhaust_set owner hash cfg now d =
     bump (preparation_lease owner hash cfg now
       (d\<lparr>wk_status := W_Retry_Preparing, wk_last_error_code := Some ''DURABLE_WORK_LEASE_EXPIRED'',
         wk_retry_reason := Some ''SAFE_RETRY_ATTEMPTS_EXHAUSTED'', wk_recovery_reason := Some ''SAFE_RETRY_ATTEMPTS_EXHAUSTED''\<rparr>))"

definition uncertain_set :: "work_item \<Rightarrow> work_item" where
  "uncertain_set d =
     bump (leaseUnset (d\<lparr>wk_status := W_Recovery_Required, wk_recovery_reason := Some ''RESULT_PERSISTENCE_UNCERTAIN'',
       wk_retry_reason := Some ''INVOCATION_REPLAY_PREPARATION_CONFLICT''\<rparr>))"

definition dead_letter_set :: "int \<Rightarrow> work_item \<Rightarrow> work_item" where
  "dead_letter_set now d =
     bump (leaseUnset (d\<lparr>wk_status := W_Dead_Lettered, wk_failed_at := Some now, wk_dead_lettered_at := Some now\<rparr>))"

definition recover_set :: "string \<Rightarrow> int \<Rightarrow> work_item \<Rightarrow> work_item" where
  "recover_set reason now d =
     bump (leaseUnset (d\<lparr>wk_status := W_Recovery_Required, wk_failed_at := Some now,
       wk_last_error_code := Some ''DURABLE_WORK_LEASE_EXPIRED'', wk_retry_reason := Some ''REMOTE_OUTCOME_UNKNOWN'',
       wk_recovery_reason := Some reason\<rparr>))"

definition terminal_work_status :: "istate \<Rightarrow> work_status" where
  "terminal_work_status s = (if s = Succeeded then W_Completed else if s = Cancelled then W_Cancelled else W_Failed)"

text \<open>The branches of the loop of \<open>scanAbandonedWork\<close> for one abandoned item \<open>work\<close>.\<close>

definition reconcile_abandoned ::
  "('k, work_item, 'w) store_ops \<Rightarrow> ('w \<times> 'i \<Rightarrow> 'w \<times> 'i) \<Rightarrow> 'k \<Rightarrow> work_item \<Rightarrow> int \<Rightarrow> int \<Rightarrow> istate \<Rightarrow> (scan_outcome, 'w \<times> 'i) prog" where
  "reconcile_abandoned W env k work cutoff now s =
     thens (update_work W env k (abandonedCasFilter work cutoff) (reconcile_set (terminal_work_status s) now)) (\<lambda>r.
     returns (if r = None then Scan_Conflict else Terminal_Reconciled))"

definition replay_abandoned ::
  "(string \<Rightarrow> string) \<Rightarrow> work_config \<Rightarrow> ('k, work_item, 'w) store_ops \<Rightarrow> ('q, ('j, 'k) durable_invocation, 'i) store_ops \<Rightarrow>
   (nat \<Rightarrow> 'w \<times> 'i \<Rightarrow> 'w \<times> 'i) \<Rightarrow> nat \<Rightarrow> 'k \<Rightarrow> 'q \<Rightarrow> work_item \<Rightarrow> string \<Rightarrow> string \<Rightarrow> string \<Rightarrow> int \<Rightarrow> int \<Rightarrow> (scan_outcome, 'w \<times> 'i) prog" where
  "replay_abandoned sha256 cfg W I env n k q work reason preparer token cutoff now =
     thens (checks (requiredCode (Some reason) ''reasonCode'')) (\<lambda>reason.
     let rq = \<lparr>rq_now = now, rq_available_at = (if wk_status work = W_Retry_Preparing then wk_available_at work else now + 1),
           rq_reason = reason, rq_maximum_attempts = None,
           rq_terminal_override = (reason = ''OPERATOR_REQUEUE_PRETRANSMISSION'')\<rparr> in
     thens (inspectReplay I (env n) k q work rq) (\<lambda>verdict.
     case (case verdict of Replay_Denied _ \<Rightarrow> None
           | Replay_Allowed next \<Rightarrow> if int (wk_maximum_attempts work) < next then None else Some next) of
       None \<Rightarrow>
         thens (update_work W (env (n + 1)) k (abandonedCasFilter work cutoff) (denial_set (denial_reason verdict) now)) (\<lambda>r.
         returns (denied_outcome r))
     | Some next \<Rightarrow>
         thens (checks (leaseTokenHash sha256 (Some token))) (\<lambda>hash.
         thens (update_work W (env (n + 1)) k (abandonedCasFilter work cutoff)
           (abandon_set preparer hash cfg rq next (ab_recovery_reason (classifyAbandonedWork work)))) (\<lambda>preparing. case preparing of
             None \<Rightarrow> returns Scan_Conflict
           | Some p \<Rightarrow>
               thens (prepareInvocationForSafeReplay I env (n + 2) k q p rq) (\<lambda>prepared.
               if prepared \<noteq> Replay_Allowed next
               then thens (terminalizeReplayPreparation W (env (n + 4)) k p preparer hash (denial_reason prepared) now) (\<lambda>r.
                    returns (denied_outcome r))
               else thens (update_work W (env (n + 4)) k (replayPreparationFilter p preparer hash now) (release_set W_Pending)) (\<lambda>r.
                    returns (if r = None then Scan_Conflict else Safely_Recovered)))))))"

definition cancel_abandoned ::
  "('k, work_item, 'w) store_ops \<Rightarrow> ('w \<times> 'i \<Rightarrow> 'w \<times> 'i) \<Rightarrow> 'k \<Rightarrow> work_item \<Rightarrow> int \<Rightarrow> int \<Rightarrow> (scan_outcome, 'w \<times> 'i) prog" where
  "cancel_abandoned W env k work cutoff now =
     thens (update_work W env k (abandonedCasFilter work cutoff) (scan_cancel_set now)) (\<lambda>r.
     returns (if r = None then Scan_Conflict else Scan_Cancelled))"

definition exhaust_abandoned ::
  "(string \<Rightarrow> string) \<Rightarrow> work_config \<Rightarrow> ('j \<Rightarrow> 'j) \<Rightarrow> ('k, work_item, 'w) store_ops \<Rightarrow> ('q, ('j, 'k) durable_invocation, 'i) store_ops \<Rightarrow>
   (nat \<Rightarrow> 'w \<times> 'i \<Rightarrow> 'w \<times> 'i) \<Rightarrow> nat \<Rightarrow> 'k \<Rightarrow> 'q \<Rightarrow> work_item \<Rightarrow> string \<Rightarrow> string \<Rightarrow> int \<Rightarrow> int \<Rightarrow> (scan_outcome, 'w \<times> 'i) prog" where
  "exhaust_abandoned sha256 cfg redact W I env n k q work preparer token cutoff now =
     thens (checks (leaseTokenHash sha256 (Some token))) (\<lambda>hash.
     thens (update_work W (env n) k (abandonedCasFilter work cutoff) (exhaust_set preparer hash cfg now)) (\<lambda>preparing. case preparing of
       None \<Rightarrow> returns Scan_Conflict
     | Some p \<Rightarrow>
         thens (terminalizeInvocationForDeadLetter redact I env (n + 1) k q p now) (\<lambda>terminalized.
         thens (update_work W (env (n + 3)) k (replayPreparationFilter p preparer hash now)
           (if terminalized then dead_letter_set now else uncertain_set)) (\<lambda>r.
         returns (if r = None then Scan_Conflict else if terminalized then Scan_Dead_Lettered else Scan_Recovery_Required)))))"

definition recover_abandoned ::
  "('j \<Rightarrow> 'j) \<Rightarrow> ('k, work_item, 'w) store_ops \<Rightarrow> ('q, ('j, 'k) durable_invocation, 'i) store_ops \<Rightarrow>
   (nat \<Rightarrow> 'w \<times> 'i \<Rightarrow> 'w \<times> 'i) \<Rightarrow> nat \<Rightarrow> 'k \<Rightarrow> 'q \<Rightarrow> work_item \<Rightarrow> int \<Rightarrow> int \<Rightarrow> (scan_outcome, 'w \<times> 'i) prog" where
  "recover_abandoned redact W I env n k q work cutoff now =
     (let reason = ab_recovery_reason (classifyAbandonedWork work) in
      thens (update_work W (env n) k (abandonedCasFilter work cutoff) (recover_set reason now)) (\<lambda>r. case r of
        None \<Rightarrow> returns Scan_Conflict
      | Some d \<Rightarrow>
          thens (markInvocationRecoveryForWork redact I env (n + 1) q d reason now) (\<lambda>_. returns Scan_Recovery_Required)))"

definition scan_decided ::
  "(string \<Rightarrow> string) \<Rightarrow> work_config \<Rightarrow> ('j \<Rightarrow> 'j) \<Rightarrow> ('k, work_item, 'w) store_ops \<Rightarrow> ('q, ('j, 'k) durable_invocation, 'i) store_ops \<Rightarrow>
   (nat \<Rightarrow> 'w \<times> 'i \<Rightarrow> 'w \<times> 'i) \<Rightarrow> nat \<Rightarrow> 'k \<Rightarrow> 'q \<Rightarrow> work_item \<Rightarrow> abandoned_decision \<Rightarrow> abandonment \<Rightarrow> string \<Rightarrow> string \<Rightarrow> int \<Rightarrow> int \<Rightarrow>
   (scan_outcome, 'w \<times> 'i) prog" where
  "scan_decided sha256 cfg redact W I env n k q work decision c preparer token cutoff now =
     (if ad_allowed decision \<and> ab_replay_allowed c
      then replay_abandoned sha256 cfg W I env n k q work (ad_reason decision) preparer token cutoff now
      else if ad_cancelled decision \<and> ab_replay_allowed c then cancel_abandoned W (env n) k work cutoff now
      else if ad_dead_letter decision \<and> ab_replay_allowed c
      then exhaust_abandoned sha256 cfg redact W I env n k q work preparer token cutoff now
      else recover_abandoned redact W I env n k q work cutoff now)"

definition scan_item ::
  "(string \<Rightarrow> string) \<Rightarrow> work_config \<Rightarrow> ('j \<Rightarrow> 'j) \<Rightarrow> ('k, work_item, 'w) store_ops \<Rightarrow> ('q, ('j, 'k) durable_invocation, 'i) store_ops \<Rightarrow>
   (nat \<Rightarrow> 'w \<times> 'i \<Rightarrow> 'w \<times> 'i) \<Rightarrow> nat \<Rightarrow> 'k \<Rightarrow> 'q \<Rightarrow> work_item \<Rightarrow> string \<Rightarrow> string \<Rightarrow> int \<Rightarrow> int \<Rightarrow> (scan_outcome, 'w \<times> 'i) prog" where
  "scan_item sha256 cfg redact W I env n k q work preparer token cutoff now =
     thens (find_invocation I (env n) q (\<lambda>_. True)) (\<lambda>found.
     let c = classifyAbandonedWork work; state = map_option inv_lifecycle_state found; decision = abandonedRetryDecision cfg work c in
     case state of
       Some s \<Rightarrow>
         if s \<in> set INVOCATION_TERMINAL_STATES \<and> (ab_classification c \<noteq> ''pre_transmission'' \<or> s \<in> {Succeeded, Cancelled})
         then reconcile_abandoned W (env (n + 1)) k work cutoff now s
         else scan_decided sha256 cfg redact W I env (n + 1) k q work decision c preparer token cutoff now
     | None \<Rightarrow> scan_decided sha256 cfg redact W I env (n + 1) k q work decision c preparer token cutoff now)"

text \<open>\<open>scanAbandonedWork\<close>: \<open>query p n db\<close> are the first \<open>n\<close> items of the collection that satisfy \<open>p\<close>, by the time their lease
  expired; \<open>link k\<close> is the invocation of item \<open>k\<close>; the preparers and tokens are random. The first call
  of the \<open>i\<close>-th item has the number \<open>16 i + 1\<close>. The result lists what became of each item, which the code counts.\<close>

fun scan_items ::
  "(string \<Rightarrow> string) \<Rightarrow> work_config \<Rightarrow> ('j \<Rightarrow> 'j) \<Rightarrow> ('k, work_item, 'w) store_ops \<Rightarrow> ('q, ('j, 'k) durable_invocation, 'i) store_ops \<Rightarrow>
   (nat \<Rightarrow> 'w \<times> 'i \<Rightarrow> 'w \<times> 'i) \<Rightarrow> ('k \<Rightarrow> 'q) \<Rightarrow> (nat \<Rightarrow> string \<times> string) \<Rightarrow> int \<Rightarrow> int \<Rightarrow> nat \<Rightarrow> ('k \<times> work_item) list \<Rightarrow>
   (scan_outcome list, 'w \<times> 'i) prog" where
  "scan_items sha256 cfg redact W I env link fresh cutoff now i [] = returns []"
| "scan_items sha256 cfg redact W I env link fresh cutoff now i (x # xs) =
     thens (scan_item sha256 cfg redact W I env (16 * i + 1) (fst x) (link (fst x)) (snd x) (fst (fresh i)) (snd (fresh i)) cutoff now) (\<lambda>r.
     thens (scan_items sha256 cfg redact W I env link fresh cutoff now (i + 1) xs) (\<lambda>rs. returns (r # rs)))"

definition abandoned_at :: "int \<Rightarrow> work_item \<Rightarrow> bool" where
  "abandoned_at cutoff d \<longleftrightarrow>
     wk_status d \<in> set OWNED_DURABLE_WORK_STATUSES \<and> (case wk_lease_expires_at d of None \<Rightarrow> False | Some t \<Rightarrow> t \<le> cutoff)"

definition query_work ::
  "((work_item \<Rightarrow> bool) \<Rightarrow> nat \<Rightarrow> 'w \<Rightarrow> ('k \<times> work_item) list) \<Rightarrow> ('w \<times> 'i \<Rightarrow> 'w \<times> 'i) \<Rightarrow> (work_item \<Rightarrow> bool) \<Rightarrow> nat \<Rightarrow>
   (('k \<times> work_item) list, 'w \<times> 'i) prog" where
  "query_work query env p n s = (let s1 = env s in (Inr (query p n (fst s1)), s1))"

definition scanAbandonedWork ::
  "(string \<Rightarrow> string) \<Rightarrow> work_config \<Rightarrow> ('j \<Rightarrow> 'j) \<Rightarrow> ((work_item \<Rightarrow> bool) \<Rightarrow> nat \<Rightarrow> 'w \<Rightarrow> ('k \<times> work_item) list) \<Rightarrow>
   ('k, work_item, 'w) store_ops \<Rightarrow> ('q, ('j, 'k) durable_invocation, 'i) store_ops \<Rightarrow>
   (nat \<Rightarrow> 'w \<times> 'i \<Rightarrow> 'w \<times> 'i) \<Rightarrow> ('k \<Rightarrow> 'q) \<Rightarrow> (nat \<Rightarrow> string \<times> string) \<Rightarrow> jsnum option \<Rightarrow> jsnum option \<Rightarrow> int \<Rightarrow>
   (scan_outcome list, 'w \<times> 'i) prog" where
  "scanAbandonedWork sha256 cfg redact query W I env link fresh grace limit now =
     thens (checks (boundedNumber (case grace of None \<Rightarrow> num_of_int (wc_grace_ms cfg) | Some n \<Rightarrow> n) ''graceMs'' 1 3600000)) (\<lambda>grace.
     thens (checks (boundedNumber (case limit of None \<Rightarrow> num_of_int (int (wc_batch_size cfg)) | Some n \<Rightarrow> n) ''limit'' 1 100)) (\<lambda>limit.
     thens (query_work query (env 0) (abandoned_at (now - grace)) (nat limit)) (\<lambda>candidates.
     scan_items sha256 cfg redact W I env link fresh (now - grace) now 0 candidates)))"

end
