(* ===== verification/Durable_Steps.thy ===== *)
theory Durable_Steps
  imports Durable_Replay
begin

text \<open>
  The changes that one item of the durable work queue can undergo. \<open>work_step cfg K\<close> are the updates of \<open>Durable_Work\<close> and
  \<open>Durable_Replay\<close> with the conditions under which the code makes them; \<open>K\<close> says which of the less frequent ones are
  among them: approved retries, operator requeues, pauses of a suspended tenant and reservations of the reconciler.
  The lemmas are the invariant of an item and what its steps keep.
\<close>

subsection \<open>The steps of one item\<close>

datatype step_kind = Retry_Kind | Requeue_Kind | Pause_Kind | Reservation_Kind

definition EXHAUSTED :: string where
  "EXHAUSTED = ''SAFE_RETRY_ATTEMPTS_EXHAUSTED''"

definition replayable :: "work_item \<Rightarrow> bool" where
  "replayable d \<longleftrightarrow> ab_replay_allowed (classifyAbandonedWork d)"

inductive work_step :: "work_config \<Rightarrow> step_kind set \<Rightarrow> work_item \<Rightarrow> work_item \<Rightarrow> bool" for cfg K where
  claim: "claimable_at now d \<Longrightarrow> work_step cfg K d (work_claim_set owner hash now lease d)"
| claim_milestone: "wk_status d = W_Claimed \<Longrightarrow> work_step cfg K d (push_milestone M_Work_Claimed now a st d)"
| reject: "wk_status d = W_Claimed \<Longrightarrow> rejected_status c \<in> {W_Completed, W_Cancelled, W_Failed} \<Longrightarrow>
     work_step cfg K d (reject_set c now d)"
| start: "wk_status d = W_Claimed \<Longrightarrow> work_step cfg K d (start_set now d)"
| heartbeat: "wk_status d \<in> set OWNED_DURABLE_WORK_STATUSES \<Longrightarrow> work_step cfg K d (heartbeat_set now lease d)"
| milestone: "wk_status d \<in> set OWNED_DURABLE_WORK_STATUSES \<Longrightarrow> wk_safe_stage d = Some s \<Longrightarrow>
     s \<in> set (nonRegressingStages m) \<Longrightarrow> work_step cfg K d (milestone_set m now a st d)"
| finalize: "wk_status d \<in> set (final_statuses s) \<Longrightarrow> s \<in> set FINALIZE_STATUSES \<Longrightarrow>
     s = W_Completed \<longrightarrow> has_milestone M_Invocation_Persisted (wk_attempt d) d \<Longrightarrow>
     r = None \<or> is_work_code (the r) \<Longrightarrow> work_step cfg K d (final_set s e r v now d)"
| cancel: "wk_status d \<in> set CLAIMABLE_DURABLE_WORK_STATUSES \<Longrightarrow> work_step cfg K d (cancel_set now reason d)"
| request: "wk_status d \<in> {W_Claimed, W_Running, W_Retry_Preparing} \<Longrightarrow> work_step cfg K d (request_set now reason d)"
| retry: "Retry_Kind \<in> K \<Longrightarrow> wk_status d \<in> {W_Claimed, W_Running} \<Longrightarrow> int (wk_attempt d) < next \<Longrightarrow>
     next \<le> int (wk_maximum_attempts d) \<Longrightarrow> rq_reason rq \<noteq> EXHAUSTED \<Longrightarrow> is_work_code (rq_reason rq) \<Longrightarrow>
     work_step cfg K d (retry_preparing_set owner hash cfg rq next err d)"
| ready: "wk_status d = W_Retry_Preparing \<Longrightarrow> wk_retry_reason d \<noteq> Some EXHAUSTED \<Longrightarrow> s \<in> {W_Retry_Scheduled, W_Pending} \<Longrightarrow>
     work_step cfg K d (release_set s d)"
| denial: "wk_status d \<in> set OWNED_DURABLE_WORK_STATUSES \<Longrightarrow> is_work_code reason \<Longrightarrow>
     work_step cfg K d (denial_set reason now d)"
| reconcile: "wk_status d \<in> set OWNED_DURABLE_WORK_STATUSES \<Longrightarrow> s \<in> {W_Completed, W_Cancelled, W_Failed} \<Longrightarrow>
     work_step cfg K d (reconcile_set s now d)"
| abandon: "wk_status d \<in> {W_Claimed, W_Running, W_Retry_Preparing} \<Longrightarrow> replayable d \<Longrightarrow>
     1 \<le> next \<Longrightarrow> next \<le> int (wk_maximum_attempts d) \<Longrightarrow>
     (if wk_status d = W_Retry_Preparing then wk_retry_reason d \<noteq> Some EXHAUSTED else wk_retry_count d < wc_dead_letter_after cfg) \<Longrightarrow>
     rq_reason rq \<noteq> EXHAUSTED \<Longrightarrow> is_work_code (rq_reason rq) \<Longrightarrow>
     work_step cfg K d (abandon_set owner hash cfg rq next reason d)"
| scan_cancel: "wk_status d \<in> set OWNED_DURABLE_WORK_STATUSES \<Longrightarrow> work_step cfg K d (scan_cancel_set now d)"
| exhaust: "wk_status d \<in> {W_Claimed, W_Running, W_Retry_Preparing} \<Longrightarrow> replayable d \<Longrightarrow>
     work_step cfg K d (exhaust_set owner hash cfg now d)"
| dead_letter: "wk_status d = W_Retry_Preparing \<Longrightarrow> work_step cfg K d (dead_letter_set now d)"
| uncertain: "wk_status d = W_Retry_Preparing \<Longrightarrow> work_step cfg K d (uncertain_set d)"
| recover: "wk_status d \<in> set OWNED_DURABLE_WORK_STATUSES \<Longrightarrow> work_step cfg K d (recover_set reason now d)"
| requeue: "Requeue_Kind \<in> K \<Longrightarrow> wk_status d = W_Dead_Lettered \<Longrightarrow> replayable d \<Longrightarrow> wk_requeue_count d < 1 \<Longrightarrow> 1 \<le> next \<Longrightarrow>
     next \<le> int (wc_dead_letter_after cfg) \<Longrightarrow> rq_reason rq \<noteq> EXHAUSTED \<Longrightarrow> is_work_code (rq_reason rq) \<Longrightarrow>
     work_step cfg K d (requeue_set owner hash cfg (wk_maximum_attempts d) rq next d)"
| approve: "wk_status d = W_Waiting_For_Approval \<Longrightarrow> work_step cfg K d (approve_set now d)"
| block: "Pause_Kind \<in> K \<Longrightarrow> wk_status d \<in> set CLAIMABLE_DURABLE_WORK_STATUSES \<Longrightarrow> work_step cfg K d (block_set now reason d)"
| pause: "Pause_Kind \<in> K \<Longrightarrow> wk_status d = W_Claimed \<Longrightarrow> work_step cfg K d (leaseUnset (block_set now reason d))"
| resume: "Pause_Kind \<in> K \<Longrightarrow> wk_status d = W_Blocked \<Longrightarrow> work_step cfg K d (resume_set now d)"
| reserve: "Reservation_Kind \<in> K \<Longrightarrow> wk_status d \<in> set CLAIMABLE_DURABLE_WORK_STATUSES \<Longrightarrow>
     work_step cfg K d (reserve_set owner hash now lease d)"
| release: "Reservation_Kind \<in> K \<Longrightarrow> wk_status d = W_Claimed \<Longrightarrow> s \<in> set CLAIMABLE_DURABLE_WORK_STATUSES \<Longrightarrow>
     work_step cfg K d (release_reserved_set s d)"

inductive_cases work_stepE: "work_step cfg K d d'"

lemmas work_set_defs =
  bump_def leaseUnset_def work_claim_set_def push_milestone_def start_set_def heartbeat_set_def milestone_set_def
  final_set_def cancel_set_def request_set_def retry_preparing_set_def preparation_lease_def release_set_def
  reconcile_set_def abandon_set_def scan_cancel_set_def exhaust_set_def dead_letter_set_def uncertain_set_def recover_set_def
  requeue_set_def reserve_set_def release_reserved_set_def block_set_def resume_set_def approve_set_def

lemmas work_status_lists =
  CLAIMABLE_DURABLE_WORK_STATUSES_def OWNED_DURABLE_WORK_STATUSES_def TERMINAL_DURABLE_WORK_STATUSES_def FINALIZE_STATUSES_def
  final_statuses_def

lemma finalizeTimestamp_frame [simp]:
  "wk_status (finalizeTimestamp s now d) = wk_status d"
  "wk_version (finalizeTimestamp s now d) = wk_version d"
  "wk_lease_owner (finalizeTimestamp s now d) = wk_lease_owner d"
  "wk_lease_token_hash (finalizeTimestamp s now d) = wk_lease_token_hash d"
  "wk_lease_expires_at (finalizeTimestamp s now d) = wk_lease_expires_at d"
  "wk_lease_epoch (finalizeTimestamp s now d) = wk_lease_epoch d"
  "wk_attempt (finalizeTimestamp s now d) = wk_attempt d"
  "wk_maximum_attempts (finalizeTimestamp s now d) = wk_maximum_attempts d"
  "wk_retry_count (finalizeTimestamp s now d) = wk_retry_count d"
  "wk_requeue_count (finalizeTimestamp s now d) = wk_requeue_count d"
  "wk_milestones (finalizeTimestamp s now d) = wk_milestones d"
  "wk_retry_reason (finalizeTimestamp s now d) = wk_retry_reason d"
  "wk_cancellation_requested_at (finalizeTimestamp s now d) = wk_cancellation_requested_at d"
  "wk_started_at (finalizeTimestamp s now d) = wk_started_at d"
  "wk_safe_stage (finalizeTimestamp s now d) = wk_safe_stage d"
  by (cases s; simp)+

lemma finalizeTimestamp_stamps:
  "s = W_Completed \<Longrightarrow> wk_completed_at (finalizeTimestamp s now d) = Some now"
  "s = W_Cancelled \<Longrightarrow> wk_cancelled_at (finalizeTimestamp s now d) = Some now"
  "s = W_Dead_Lettered \<Longrightarrow> wk_dead_lettered_at (finalizeTimestamp s now d) = Some now"
  by simp_all

lemma replayDenialStatus_cases: "replayDenialStatus r = W_Cancelled \<or> replayDenialStatus r = W_Failed \<or> replayDenialStatus r = W_Recovery_Required"
  unfolding replayDenialStatus_def by argo

text \<open>The two updates whose status depends on a reason.\<close>

lemma denial_set_frame [simp]:
  "wk_status (denial_set r now d) = replayDenialStatus r"
  "wk_version (denial_set r now d) = wk_version d + 1"
  "wk_lease_owner (denial_set r now d) = None"
  "wk_lease_token_hash (denial_set r now d) = None"
  "wk_lease_expires_at (denial_set r now d) = None"
  "wk_lease_epoch (denial_set r now d) = wk_lease_epoch d"
  "wk_attempt (denial_set r now d) = wk_attempt d"
  "wk_maximum_attempts (denial_set r now d) = wk_maximum_attempts d"
  "wk_retry_count (denial_set r now d) = wk_retry_count d"
  "wk_requeue_count (denial_set r now d) = wk_requeue_count d"
  "wk_milestones (denial_set r now d) = wk_milestones d"
  "wk_cancellation_requested_at (denial_set r now d) = wk_cancellation_requested_at d"
  "replayDenialStatus r = W_Cancelled \<Longrightarrow> wk_cancelled_at (denial_set r now d) = Some now"
  by (simp_all add: denial_set_def Let_def bump_def leaseUnset_def)

lemma reject_set_frame [simp]:
  "wk_status (reject_set c now d) = rejected_status c"
  "wk_version (reject_set c now d) = wk_version d + 1"
  "wk_lease_owner (reject_set c now d) = None"
  "wk_lease_token_hash (reject_set c now d) = None"
  "wk_lease_expires_at (reject_set c now d) = None"
  "wk_lease_epoch (reject_set c now d) = wk_lease_epoch d"
  "wk_attempt (reject_set c now d) = wk_attempt d"
  "wk_maximum_attempts (reject_set c now d) = wk_maximum_attempts d"
  "wk_retry_count (reject_set c now d) = wk_retry_count d"
  "wk_requeue_count (reject_set c now d) = wk_requeue_count d"
  "wk_milestones (reject_set c now d) = wk_milestones d"
  "wk_cancellation_requested_at (reject_set c now d) = wk_cancellation_requested_at d"
  "rejected_status c = W_Cancelled \<Longrightarrow> wk_cancelled_at (reject_set c now d) = Some now"
  "rejected_status c = W_Completed \<Longrightarrow> wk_completed_at (reject_set c now d) = Some now"
  by (simp_all add: reject_set_def Let_def bump_def leaseUnset_def)

text \<open>Every step but the release of an approved item increases the version, and that one leaves a status that no step
  enters.\<close>

definition work_rank :: "work_item \<Rightarrow> nat" where
  "work_rank d = 2 * wk_version d + (if wk_status d = W_Waiting_For_Approval then 0 else 1)"

lemma finalize_not_waiting: "s \<in> set FINALIZE_STATUSES \<Longrightarrow> s \<noteq> W_Waiting_For_Approval"
  by (auto simp: FINALIZE_STATUSES_def)

lemma work_step_rank: "work_step cfg K d d' \<Longrightarrow> work_rank d < work_rank d'"
  by (induction rule: work_step.induct) (simp_all add: work_set_defs Let_def work_rank_def)

interpretation work_versions: versioned "work_step cfg K" work_rank for cfg K
  by unfold_locales (rule work_step_rank)

interpretation work_collection: versioned_document_store map_store "\<lambda>db. db" "work_step cfg K" work_rank for cfg K
  by unfold_locales

lemma work_steps_same:
  "(work_step cfg K)\<^sup>*\<^sup>* d d' \<Longrightarrow> wk_version d' = wk_version d \<Longrightarrow> wk_status d' = wk_status d \<Longrightarrow> d' = d"
  by (erule work_versions.steps_same) (simp add: work_rank_def)

lemma work_step_mono: "work_step cfg K d d' \<Longrightarrow> K \<subseteq> L \<Longrightarrow> work_step cfg L d d'"
  by (induction rule: work_step.induct) (blast intro: work_step.intros)+

text \<open>What a step does to the counters of an item.\<close>

lemma work_step_counters:
  "work_step cfg K d d' \<Longrightarrow> wk_lease_epoch d \<le> wk_lease_epoch d' \<and> wk_maximum_attempts d \<le> wk_maximum_attempts d'
     \<and> wk_requeue_count d \<le> wk_requeue_count d'"
  by (induction rule: work_step.induct) (simp_all add: work_set_defs Let_def)

lemma work_steps_counters:
  "(work_step cfg K)\<^sup>*\<^sup>* d d' \<Longrightarrow> wk_lease_epoch d \<le> wk_lease_epoch d' \<and> wk_maximum_attempts d \<le> wk_maximum_attempts d'
     \<and> wk_requeue_count d \<le> wk_requeue_count d'"
  by (induction rule: rtranclp_induct) (auto dest: work_step_counters)

lemma work_step_epoch:
  "work_step cfg K d d' \<Longrightarrow> wk_lease_epoch d < wk_lease_epoch d' \<Longrightarrow>
     wk_status d \<in> set CLAIMABLE_DURABLE_WORK_STATUSES \<and> wk_status d' = W_Claimed \<and> wk_lease_epoch d' = wk_lease_epoch d + 1"
  by (induction rule: work_step.induct) (simp_all add: work_set_defs Let_def claimable_at_def)

text \<open>Only a requeue, which is counted, raises the maximum number of attempts.\<close>

lemma work_step_maximum:
  "work_step cfg K d d' \<Longrightarrow> wk_requeue_count d' = wk_requeue_count d \<Longrightarrow> wk_maximum_attempts d' = wk_maximum_attempts d"
  by (induction rule: work_step.induct) (simp_all add: work_set_defs Let_def)

lemma work_steps_maximum:
  "(work_step cfg K)\<^sup>*\<^sup>* d d' \<Longrightarrow> wk_requeue_count d' = wk_requeue_count d \<Longrightarrow> wk_maximum_attempts d' = wk_maximum_attempts d"
proof (induction rule: rtranclp_induct)
  case (step d1 d2)
  then have "wk_requeue_count d1 = wk_requeue_count d"
    using work_steps_counters [of cfg K d d1] work_step_counters [of cfg K d1 d2] by simp
  with step show ?case using work_step_maximum by simp
qed simp

text \<open>A dead letter leaves its status only through a requeue.\<close>

lemma dead_letter_step: "work_step cfg K d d' \<Longrightarrow> wk_status d = W_Dead_Lettered \<Longrightarrow> wk_requeue_count d < wk_requeue_count d'"
  by (erule work_step.cases) (simp_all add: requeue_set_def bump_def preparation_lease_def work_status_lists claimable_at_def split: if_splits)

lemma dead_letter_steps:
  assumes "(work_step cfg K)\<^sup>*\<^sup>* d d'" "wk_status d = W_Dead_Lettered" "wk_requeue_count d' = wk_requeue_count d"
  shows "d' = d"
proof (rule ccontr)
  assume "d' \<noteq> d"
  with assms(1) obtain e where "work_step cfg K d e" "(work_step cfg K)\<^sup>*\<^sup>* e d'"
    by (metis converse_rtranclpE)
  with dead_letter_step [OF _ assms(2)] work_steps_counters assms(3) show False by fastforce
qed

subsection \<open>The invariant of an item\<close>

text \<open>
  An item has a lease exactly while it is owned, its attempt is within its maximum, it has been requeued at most once, a
  finished item says when it ended, and only an item that is being cancelled or has ended carries a request for
  cancellation.
\<close>

definition lease_held :: "work_item \<Rightarrow> bool" where
  "lease_held d \<longleftrightarrow>
     (if wk_status d \<in> set OWNED_DURABLE_WORK_STATUSES
      then wk_lease_owner d \<noteq> None \<and> wk_lease_token_hash d \<noteq> None \<and> wk_lease_expires_at d \<noteq> None
      else wk_lease_owner d = None \<and> wk_lease_token_hash d = None \<and> wk_lease_expires_at d = None)"

definition counters_ok :: "work_item \<Rightarrow> bool" where
  "counters_ok d \<longleftrightarrow> wk_attempt d \<le> wk_maximum_attempts d \<and> wk_requeue_count d \<le> 1"

definition stamps_ok :: "work_item \<Rightarrow> bool" where
  "stamps_ok d \<longleftrightarrow>
     (wk_status d = W_Completed \<longrightarrow> wk_completed_at d \<noteq> None)
     \<and> (wk_status d = W_Cancelled \<longrightarrow> wk_cancelled_at d \<noteq> None)
     \<and> (wk_status d = W_Dead_Lettered \<longrightarrow> wk_dead_lettered_at d \<noteq> None)
     \<and> (wk_status d = W_Running \<longrightarrow> wk_started_at d \<noteq> None)
     \<and> (wk_status d = W_Cancellation_Requested \<longrightarrow> wk_cancellation_requested_at d \<noteq> None)"

definition cancellation_ok :: "work_item \<Rightarrow> bool" where
  "cancellation_ok d \<longleftrightarrow>
     (wk_cancellation_requested_at d \<noteq> None \<longrightarrow>
        wk_status d = W_Cancellation_Requested \<or> wk_status d \<in> set TERMINAL_DURABLE_WORK_STATUSES)"

definition reason_ok :: "work_item \<Rightarrow> bool" where
  "reason_ok d \<longleftrightarrow> (case wk_retry_reason d of None \<Rightarrow> True | Some r \<Rightarrow> is_work_code r)"

definition work_ok :: "work_item \<Rightarrow> bool" where
  "work_ok d \<longleftrightarrow> lease_held d \<and> counters_ok d \<and> stamps_ok d \<and> cancellation_ok d \<and> reason_ok d"

lemma denial_not_owned: "replayDenialStatus r \<notin> set OWNED_DURABLE_WORK_STATUSES"
  using replayDenialStatus_cases [of r] by (auto simp: work_status_lists)

lemma denial_terminal: "replayDenialStatus r \<in> set TERMINAL_DURABLE_WORK_STATUSES"
  using replayDenialStatus_cases [of r] by (auto simp: work_status_lists)

lemma work_step_lease: "work_step cfg K d d' \<Longrightarrow> lease_held d \<Longrightarrow> lease_held d'"
  by (induction rule: work_step.induct)
    (auto simp: lease_held_def work_set_defs work_status_lists claimable_at_def Let_def
      denial_not_owned [unfolded OWNED_DURABLE_WORK_STATUSES_def, simplified])

lemma work_step_attempts: "work_step cfg K d d' \<Longrightarrow> counters_ok d \<Longrightarrow> counters_ok d'"
  by (induction rule: work_step.induct) (auto simp: counters_ok_def work_set_defs Let_def)

lemma work_step_stamps: "work_step cfg K d d' \<Longrightarrow> stamps_ok d \<Longrightarrow> stamps_ok d'"
proof (induction rule: work_step.induct)
  case (denial d r now)
  then show ?case using replayDenialStatus_cases [of r] by (auto simp: stamps_ok_def)
qed (auto simp: stamps_ok_def work_set_defs work_status_lists claimable_at_def Let_def finalizeTimestamp_stamps)

lemma work_step_cancellation: "work_step cfg K d d' \<Longrightarrow> cancellation_ok d \<Longrightarrow> cancellation_ok d'"
  by (induction rule: work_step.induct)
    (auto simp: cancellation_ok_def work_set_defs work_status_lists claimable_at_def Let_def
      denial_terminal [unfolded TERMINAL_DURABLE_WORK_STATUSES_def, simplified])

lemma work_reason_codes:
  "is_work_code ''SAFE_RETRY_ATTEMPTS_EXHAUSTED''" "is_work_code ''INVOCATION_REPLAY_PREPARATION_CONFLICT''"
  "is_work_code ''REMOTE_OUTCOME_UNKNOWN''" "is_work_code ''OPERATOR_REQUEUE_PRETRANSMISSION''"
  by code_simp+

lemma finalizeTimestamp_reason [simp]: "reason_ok (finalizeTimestamp s now d) = reason_ok d"
  by (simp add: reason_ok_def)

lemma work_step_reason: "work_step cfg K d d' \<Longrightarrow> reason_ok d \<Longrightarrow> reason_ok d'"
  by (induction rule: work_step.induct)
    (auto simp: reason_ok_def work_set_defs Let_def set_if_def reject_set_def denial_set_def work_reason_codes split: option.splits)

lemma work_step_ok: "work_step cfg K d d' \<Longrightarrow> work_ok d \<Longrightarrow> work_ok d'"
  by (simp add: work_ok_def work_step_lease work_step_attempts work_step_stamps work_step_cancellation
    work_step_reason)

lemma work_steps_ok: "(work_step cfg K)\<^sup>*\<^sup>* d d' \<Longrightarrow> work_ok d \<Longrightarrow> work_ok d'"
  by (induction rule: rtranclp_induct) (auto dest: work_step_ok)

subsection \<open>What the steps keep\<close>

text \<open>Cancelled work: once an item is being cancelled or has ended, no step but a requeue lets it be claimed.\<close>

definition settled :: "work_item \<Rightarrow> bool" where
  "settled d \<longleftrightarrow> wk_status d = W_Cancellation_Requested \<or> wk_status d \<in> set TERMINAL_DURABLE_WORK_STATUSES"

lemma work_step_settled: "work_step cfg K d d' \<Longrightarrow> Requeue_Kind \<notin> K \<Longrightarrow> settled d \<Longrightarrow> settled d'"
  by (induction rule: work_step.induct)
    (auto simp: settled_def work_set_defs work_status_lists claimable_at_def Let_def
      denial_terminal [unfolded TERMINAL_DURABLE_WORK_STATUSES_def, simplified])

lemma work_steps_settled: "(work_step cfg K)\<^sup>*\<^sup>* d d' \<Longrightarrow> Requeue_Kind \<notin> K \<Longrightarrow> settled d \<Longrightarrow> settled d'"
  by (induction rule: rtranclp_induct) (auto dest: work_step_settled)

lemma settled_not_claimable: "settled d \<Longrightarrow> \<not> claimable_at now d"
  by (auto simp: settled_def claimable_at_def work_status_lists)

text \<open>Transmitted work: once an item is running and has sent its request, no step but an approved retry lets it be claimed.\<close>

definition transmitted :: "work_item \<Rightarrow> bool" where
  "transmitted d \<longleftrightarrow> \<not> replayable d \<and> (wk_status d = W_Running \<or> settled d)"

lemma replayable_iff:
  "replayable d \<longleftrightarrow>
     (\<forall>m \<in> set (wk_milestones d). rm_attempt m = wk_attempt d \<longrightarrow> rm_name m \<notin> set POST_TRANSMISSION_MILESTONES)"
  by (auto simp: replayable_def classifyAbandonedWork_def currentAttemptMilestones_def POST_TRANSMISSION_MILESTONES_def Let_def
    image_iff)

lemma replayable_cong:
  "wk_attempt d' = wk_attempt d \<Longrightarrow> set (wk_milestones d) \<subseteq> set (wk_milestones d') \<Longrightarrow> replayable d' \<Longrightarrow> replayable d"
  by (auto simp: replayable_iff)

lemma work_step_not_replayable:
  "work_step cfg K d d' \<Longrightarrow> Retry_Kind \<notin> K \<Longrightarrow> transmitted d \<Longrightarrow>
     wk_attempt d' = wk_attempt d \<and> set (wk_milestones d) \<subseteq> set (wk_milestones d')"
  by (induction rule: work_step.induct) (auto simp: transmitted_def settled_def work_set_defs work_status_lists Let_def)

lemma work_step_transmitted: "work_step cfg K d d' \<Longrightarrow> Retry_Kind \<notin> K \<Longrightarrow> transmitted d \<Longrightarrow> transmitted d'"
proof -
  assume s: "work_step cfg K d d'" and k: "Retry_Kind \<notin> K" and t: "transmitted d"
  have "\<not> replayable d'" using work_step_not_replayable [OF s k t] replayable_cong t transmitted_def by blast
  moreover have "wk_status d' = W_Running \<or> settled d'"
    using s k t
    by (induction rule: work_step.induct)
      (auto simp: transmitted_def settled_def work_set_defs work_status_lists claimable_at_def Let_def
        denial_terminal [unfolded TERMINAL_DURABLE_WORK_STATUSES_def, simplified])
  ultimately show "transmitted d'" by (simp add: transmitted_def)
qed

lemma work_steps_transmitted: "(work_step cfg K)\<^sup>*\<^sup>* d d' \<Longrightarrow> Retry_Kind \<notin> K \<Longrightarrow> transmitted d \<Longrightarrow> transmitted d'"
  by (induction rule: rtranclp_induct) (auto dest: work_step_transmitted)

lemma transmitted_not_claimable: "transmitted d \<Longrightarrow> \<not> claimable_at now d"
  by (auto simp: transmitted_def settled_def claimable_at_def work_status_lists)

text \<open>Executions: an item that waits in the queue, or that a preparation will put back there, is owed one more claim. The
  claims are paid for by the first enqueueing, by the retries counted on the item and by its requeues.\<close>

definition owed_claims :: "work_item \<Rightarrow> nat" where
  "owed_claims d =
     (if wk_status d \<in> {W_Pending, W_Retry_Scheduled, W_Waiting_For_Approval}
        \<or> wk_status d = W_Retry_Preparing \<and> wk_retry_reason d \<noteq> Some EXHAUSTED
      then 1 else 0)"

definition claims_paid :: "work_config \<Rightarrow> work_item \<Rightarrow> bool" where
  "claims_paid cfg d \<longleftrightarrow>
     wk_lease_epoch d + owed_claims d
       \<le> 1 + min (wk_retry_count d) (wc_dead_letter_after cfg) + wk_requeue_count d * (1 + wc_dead_letter_after cfg)"

lemma denial_not_owed: "owed_claims (denial_set r now d) = 0"
  using replayDenialStatus_cases [of r] by (auto simp: owed_claims_def)

lemma work_step_claims: "work_step cfg K d d' \<Longrightarrow> K \<subseteq> {Requeue_Kind} \<Longrightarrow> claims_paid cfg d \<Longrightarrow> claims_paid cfg d'"
proof (induction rule: work_step.induct)
  case (denial d r now)
  then show ?case by (simp add: claims_paid_def denial_not_owed)
next
  case (finalize d s r e v now)
  then show ?case by (auto simp: claims_paid_def owed_claims_def work_set_defs work_status_lists)
qed (auto simp: claims_paid_def owed_claims_def work_set_defs work_status_lists claimable_at_def EXHAUSTED_def Let_def
       simp del: One_nat_def split: if_splits)

lemma work_steps_claims: "(work_step cfg K)\<^sup>*\<^sup>* d d' \<Longrightarrow> K \<subseteq> {Requeue_Kind} \<Longrightarrow> claims_paid cfg d \<Longrightarrow> claims_paid cfg d'"
  by (induction rule: rtranclp_induct) (auto dest: work_step_claims)

lemma claims_bound: "claims_paid cfg d \<Longrightarrow> wk_requeue_count d \<le> 1 \<Longrightarrow> wk_lease_epoch d \<le> 2 * (1 + wc_dead_letter_after cfg)"
  by (cases "wk_requeue_count d") (auto simp: claims_paid_def)

subsection \<open>Items when they are enqueued\<close>

definition fresh_work :: "work_item \<Rightarrow> bool" where
  "fresh_work d \<longleftrightarrow> work_ok d \<and> wk_requeue_count d = 0 \<and> wk_lease_epoch d + owed_claims d \<le> 1"

lemma fresh_claims: "fresh_work d \<Longrightarrow> claims_paid cfg d"
  by (auto simp: fresh_work_def claims_paid_def)

lemma initial_status_cases: "initial_status v = Some s \<Longrightarrow> s \<in> {W_Pending, W_Retry_Scheduled, W_Waiting_For_Approval}"
  by (auto simp: initial_status_def CLAIMABLE_DURABLE_WORK_STATUSES_def split: if_splits)

lemma optionalCode_code: "optionalCode v p = Inr (Some r) \<Longrightarrow> is_work_code r"
  by (auto simp: optionalCode_def bindE_Inr_iff ensure_def split: if_splits)

lemma enqueueDocument_cases:
  assumes "enqueueDocument cfg input now = Inr d"
  obtains s recovery available attempt maximum trace priority generation retries retry_reason recovery_reason
  where "s \<in> {W_Pending, W_Retry_Scheduled, W_Waiting_For_Approval}" "attempt \<le> maximum"
    "retry_reason = None \<or> is_work_code (the retry_reason)"
    "d = (new_work_item s now available (nat attempt) (nat maximum))
       \<lparr>wk_recovery_retry := recovery, wk_trace_id := trace, wk_priority := priority,
        wk_execution_generation := generation, wk_retry_count := retries, wk_retry_reason := retry_reason,
        wk_recovery_reason := recovery_reason\<rparr>"
proof -
  obtain s where s: "initial_status (eq_status input) = Some s"
    using assms unfolding enqueueDocument_def Let_def bindE_Inr_iff
    by (cases "initial_status (eq_status input)") simp_all
  have code: "r = None \<or> is_work_code (the r)" if "optionalCode v p = Inr r" for r v p
    using that by (cases r) (auto dest: optionalCode_code)
  show thesis
    using assms unfolding enqueueDocument_def Let_def bindE_Inr_iff s option.case sum.inject ensure_Inr_iff
    by (elim exE conjE) (rule that, rule initial_status_cases [OF s], assumption, erule code, erule sym)
qed

lemma enqueueDocument_fresh:
  assumes "enqueueDocument cfg input now = Inr d"
  shows "fresh_work d"
  using assms
  by (rule enqueueDocument_cases)
    (auto simp: fresh_work_def work_ok_def lease_held_def counters_ok_def stamps_ok_def cancellation_ok_def reason_ok_def
      owed_claims_def new_work_item_def work_status_lists nat_mono split: option.splits)

lemma initial_document_fresh:
  assumes "enqueueDocument cfg input now = Inr d0" "initial_document sha256 cfg claim token now d0 = Inr (d, o')"
  shows "fresh_work d"
proof (cases claim)
  case None
  with assms enqueueDocument_fresh show ?thesis by (simp add: initial_document_def)
next
  case (Some c)
  with assms(2) obtain owner hash lease_ms where "d = initial_claim_set owner hash now lease_ms d0"
    by (auto simp: initial_document_def bindE_Inr_iff)
  with assms(1) show ?thesis
    by (elim enqueueDocument_cases)
      (auto simp: fresh_work_def work_ok_def lease_held_def counters_ok_def stamps_ok_def cancellation_ok_def reason_ok_def
        owed_claims_def new_work_item_def initial_claim_set_def work_status_lists nat_mono split: option.splits)
qed

end
