(* ===== verification/Durable_Programs.thy ===== *)
theory Durable_Programs
  imports Durable_Steps
begin

text \<open>
  What the durable work queue guarantees. Every operation moves the items of the collection by \<open>work_step\<close> only, with any
  interference between its calls that does (locale \<open>work_queue\<close>, interpreted on a collection held as a map), so the
  guarantees of \<open>Durable_Steps\<close> hold of every run of the service.
\<close>

subsection \<open>Moves of the collection\<close>

text \<open>Items stay, they move by steps, and new ones begin as the enqueueing makes them; \<open>K k\<close> are the less frequent kinds of
  step that are allowed for the item \<open>k\<close>.\<close>

definition queue_moves :: "work_config \<Rightarrow> ('k \<Rightarrow> step_kind set) \<Rightarrow> ('w \<Rightarrow> 'k \<Rightarrow> work_item option) \<Rightarrow> 'w \<Rightarrow> 'w \<Rightarrow> bool" where
  "queue_moves cfg K vw w w' \<longleftrightarrow>
     (\<forall>k d. vw w k = Some d \<longrightarrow> (\<exists>d'. vw w' k = Some d' \<and> (work_step cfg (K k))\<^sup>*\<^sup>* d d'))
     \<and> (\<forall>k d'. vw w k = None \<longrightarrow> vw w' k = Some d' \<longrightarrow> (\<exists>d. fresh_work d \<and> (work_step cfg (K k))\<^sup>*\<^sup>* d d'))"

definition queue_ok :: "('w \<Rightarrow> 'k \<Rightarrow> work_item option) \<Rightarrow> 'w \<Rightarrow> bool" where
  "queue_ok vw w \<longleftrightarrow> (\<forall>k d. vw w k = Some d \<longrightarrow> work_ok d)"

definition queue_env :: "work_config \<Rightarrow> ('k \<Rightarrow> step_kind set) \<Rightarrow> ('w \<Rightarrow> 'k \<Rightarrow> work_item option) \<Rightarrow> (nat \<Rightarrow> 'w \<Rightarrow> 'w) \<Rightarrow> bool" where
  "queue_env cfg K vw env \<longleftrightarrow> (\<forall>n w. queue_moves cfg K vw w (env n w))"

lemma queue_moves_refl [simp]: "queue_moves cfg K vw w w"
  by (simp add: queue_moves_def)

lemma queue_moves_steps:
  "queue_moves cfg K vw w w' \<Longrightarrow> vw w k = Some d \<Longrightarrow> \<exists>d'. vw w' k = Some d' \<and> (work_step cfg (K k))\<^sup>*\<^sup>* d d'"
  by (auto simp: queue_moves_def)

lemma queue_moves_trans:
  assumes ab: "queue_moves cfg K vw a b" and bc: "queue_moves cfg K vw b c"
  shows "queue_moves cfg K vw a c"
  unfolding queue_moves_def
proof (intro conjI allI impI)
  fix k d assume "vw a k = Some d"
  then show "\<exists>d'. vw c k = Some d' \<and> (work_step cfg (K k))\<^sup>*\<^sup>* d d'"
    using queue_moves_steps [OF ab] queue_moves_steps [OF bc] by (meson rtranclp_trans)
next
  fix k d' assume a: "vw a k = None" and c: "vw c k = Some d'"
  show "\<exists>d. fresh_work d \<and> (work_step cfg (K k))\<^sup>*\<^sup>* d d'"
  proof (cases "vw b k")
    case None
    with c bc show ?thesis by (simp add: queue_moves_def)
  next
    case (Some e)
    with a ab obtain d where d: "fresh_work d" "(work_step cfg (K k))\<^sup>*\<^sup>* d e" unfolding queue_moves_def by blast
    from queue_moves_steps [OF bc Some] c have "(work_step cfg (K k))\<^sup>*\<^sup>* e d'" by simp
    with d show ?thesis by (meson rtranclp_trans)
  qed
qed

lemma queue_moves_ok: "queue_moves cfg K vw w w' \<Longrightarrow> queue_ok vw w \<Longrightarrow> queue_ok vw w'"
  unfolding queue_ok_def
proof (intro allI impI)
  fix k d' assume m: "queue_moves cfg K vw w w'" and ok: "\<forall>k d. vw w k = Some d \<longrightarrow> work_ok d" and d': "vw w' k = Some d'"
  show "work_ok d'"
  proof (cases "vw w k")
    case None
    with m d' obtain d where "fresh_work d" "(work_step cfg (K k))\<^sup>*\<^sup>* d d'" unfolding queue_moves_def by blast
    then show ?thesis using work_steps_ok by (auto simp: fresh_work_def)
  next
    case (Some d)
    then show ?thesis using queue_moves_steps [OF m Some] ok d' work_steps_ok by force
  qed
qed

lemma queue_envD: "queue_env cfg K vw env \<Longrightarrow> queue_moves cfg K vw w (env n w)"
  by (simp add: queue_env_def)

lemma queue_env_no_interference [simp]: "queue_env cfg K vw no_interference"
  by (simp add: queue_env_def)

lemma work_step_moves:
  assumes "vw w k = Some d" "(work_step cfg (K k))\<^sup>*\<^sup>* d d'" "vw w' = (vw w)(k \<mapsto> d')"
  shows "queue_moves cfg K vw w w'"
  using assms by (auto simp: queue_moves_def)

subsection \<open>Programs that move items by steps\<close>

text \<open>\<open>seen X s\<close>: the items of \<open>X\<close> have been read or written before, and have moved by steps since. \<open>kept X f\<close>: from such a
  state \<open>f\<close> moves the collection by steps. \<open>vw s\<close> is the collection of items in a state \<open>s\<close>.\<close>

definition seen :: "work_config \<Rightarrow> ('k \<Rightarrow> step_kind set) \<Rightarrow> ('s \<Rightarrow> 'k \<Rightarrow> work_item option) \<Rightarrow> ('k \<times> work_item) set \<Rightarrow> 's \<Rightarrow> bool" where
  "seen cfg K vw X s \<longleftrightarrow> (\<forall>k d. (k, d) \<in> X \<longrightarrow> (\<exists>d'. vw s k = Some d' \<and> (work_step cfg (K k))\<^sup>*\<^sup>* d d'))"

definition kept :: "work_config \<Rightarrow> ('k \<Rightarrow> step_kind set) \<Rightarrow> ('s \<Rightarrow> 'k \<Rightarrow> work_item option) \<Rightarrow> ('k \<times> work_item) set \<Rightarrow> ('s \<Rightarrow> 'r \<times> 's) \<Rightarrow> bool" where
  "kept cfg K vw X f \<longleftrightarrow> (\<forall>s. queue_ok vw s \<longrightarrow> seen cfg K vw X s \<longrightarrow> queue_moves cfg K vw s (snd (f s)))"

named_theorems kept_rules

lemma keptI:
  "(\<And>s. queue_ok vw s \<Longrightarrow> seen cfg K vw X s \<Longrightarrow> queue_moves cfg K vw s (snd (f s))) \<Longrightarrow> kept cfg K vw X f"
  by (simp add: kept_def)

lemma keptD: "kept cfg K vw X f \<Longrightarrow> queue_ok vw s \<Longrightarrow> seen cfg K vw X s \<Longrightarrow> f s = (r, s') \<Longrightarrow> queue_moves cfg K vw s s'"
  by (force simp: kept_def)

lemma kept_snd: "kept cfg K vw X f \<Longrightarrow> queue_ok vw s \<Longrightarrow> seen cfg K vw X s \<Longrightarrow> queue_moves cfg K vw s (snd (f s))"
  unfolding kept_def by blast

lemma kept_moves: "kept cfg K vw {} f \<Longrightarrow> queue_ok vw s \<Longrightarrow> f s = (r, s') \<Longrightarrow> queue_moves cfg K vw s s'"
  by (erule keptD) (simp_all add: seen_def)

lemma seen_moves: "queue_moves cfg K vw s s' \<Longrightarrow> seen cfg K vw X s \<Longrightarrow> seen cfg K vw X s'"
  unfolding seen_def by (metis queue_moves_steps rtranclp_trans)

lemma seen_insert: "seen cfg K vw X s \<Longrightarrow> vw s k = Some d \<Longrightarrow> seen cfg K vw (insert (k, d) X) s"
  by (auto simp: seen_def)

lemma seenD: "seen cfg K vw X s \<Longrightarrow> vw s k = Some d \<Longrightarrow> (k, b) \<in> X \<Longrightarrow> (work_step cfg (K k))\<^sup>*\<^sup>* b d"
  by (fastforce simp: seen_def)

lemma kept_return [kept_rules]: "kept cfg K vw X (\<lambda>s. (c, s))"
  by (simp add: kept_def)

lemma kept_sum [kept_rules]:
  "(\<And>e. x = Inl e \<Longrightarrow> kept cfg K vw X (A e)) \<Longrightarrow> (\<And>a. x = Inr a \<Longrightarrow> kept cfg K vw X (B a)) \<Longrightarrow>
   kept cfg K vw X (\<lambda>s. case x of Inl e \<Rightarrow> A e s | Inr a \<Rightarrow> B a s)"
  by (cases x) simp_all

lemma kept_prod [kept_rules]:
  "(\<And>a b. x = (a, b) \<Longrightarrow> kept cfg K vw X (A a b)) \<Longrightarrow> kept cfg K vw X (\<lambda>s. case x of (a, b) \<Rightarrow> A a b s)"
  by (cases x) simp

lemma kept_if [kept_rules]:
  "(b \<Longrightarrow> kept cfg K vw X A) \<Longrightarrow> (\<not> b \<Longrightarrow> kept cfg K vw X B) \<Longrightarrow> kept cfg K vw X (\<lambda>s. if b then A s else B s)"
  by (cases b) simp_all

lemma kept_bind:
  assumes "kept cfg K vw X f" and "\<And>r. kept cfg K vw X (g r)"
  shows "kept cfg K vw X (\<lambda>s. case f s of (r, s1) \<Rightarrow> g r s1)"
proof (rule keptI)
  fix s assume s: "queue_ok vw s" "seen cfg K vw X s"
  obtain r s1 where f: "f s = (r, s1)" by fastforce
  note m = keptD [OF assms(1) s f]
  have "queue_moves cfg K vw s1 (snd (g r s1))"
    using keptD [OF assms(2) queue_moves_ok [OF m s(1)] seen_moves [OF m s(2)], of r] by (metis prod.collapse)
  with m f show "queue_moves cfg K vw s (snd (case f s of (r, s1) \<Rightarrow> g r s1))"
    by (auto intro: queue_moves_trans)
qed

lemma kept_env [kept_rules]:
  assumes "queue_env cfg K vw env" "kept cfg K vw X f"
  shows "kept cfg K vw X (\<lambda>s. let s1 = env n s in f s1)"
proof (rule keptI)
  fix s assume s: "queue_ok vw s" "seen cfg K vw X s"
  note m = queue_envD [OF assms(1), of s n]
  have "queue_moves cfg K vw (env n s) (snd (f (env n s)))"
    using keptD [OF assms(2) queue_moves_ok [OF m s(1)] seen_moves [OF m s(2)]] by (metis prod.collapse)
  with m show "queue_moves cfg K vw s (snd (let s1 = env n s in f s1))"
    by (auto intro: queue_moves_trans)
qed

subsection \<open>Calls on the collection\<close>

locale work_queue = document_store W vw
  for W :: "('k, work_item, 'w) store_ops" and vw :: "'w \<Rightarrow> 'k \<Rightarrow> work_item option" +
  fixes cfg :: work_config and K :: "'k \<Rightarrow> step_kind set"
begin

lemma kept_find:
  assumes "kept cfg K vw X A" and "\<And>d. work_ok d \<Longrightarrow> p d \<Longrightarrow> kept cfg K vw (insert (k, d) X) (B d)"
  shows "kept cfg K vw X (\<lambda>w. case st_find_one W k p w of None \<Rightarrow> A w | Some d \<Rightarrow> B d w)"
proof (rule keptI)
  fix w assume w: "queue_ok vw w" "seen cfg K vw X w"
  show "queue_moves cfg K vw w (snd (case st_find_one W k p w of None \<Rightarrow> A w | Some d \<Rightarrow> B d w))"
  proof (cases "st_find_one W k p w")
    case None
    with assms(1) w show ?thesis by (simp add: kept_def)
  next
    case (Some d)
    then have d: "vw w k = Some d" "p d" by (auto simp: find_one_Some_iff)
    with w(1) have "work_ok d" by (auto simp: queue_ok_def)
    then have "kept cfg K vw (insert (k, d) X) (B d)" using assms(2) d(2) by blast
    then have "queue_moves cfg K vw w (snd (B d w))"
      using w(1) seen_insert [of cfg K vw X w, OF w(2) d(1)] unfolding kept_def by blast
    with Some show ?thesis by simp
  qed
qed

lemma update_moves:
  assumes "st_find_one_and_update W k p u w = (r, w')" "queue_ok vw w"
    and "\<And>d. vw w k = Some d \<Longrightarrow> work_ok d \<Longrightarrow> p d \<Longrightarrow> work_step cfg (K k) d (u d)"
  shows "queue_moves cfg K vw w w'"
proof (cases r)
  case None
  with assms(1) have "w' = w" by (simp add: update_None_unchanged)
  then show ?thesis by simp
next
  case (Some d')
  with assms(1) obtain d where d: "vw w k = Some d" "p d" "d' = u d" "vw w' = (vw w)(k \<mapsto> d')"
    by (auto elim: update_Some)
  then have "work_step cfg (K k) d d'" using assms(2,3) by (auto simp: queue_ok_def)
  then have "(work_step cfg (K k))\<^sup>*\<^sup>* d d'" by (rule r_into_rtranclp)
  with d(1) show ?thesis using d(3,4) by (intro work_step_moves [of vw w k d cfg K d' w']) simp_all
qed

lemma kept_update_result:
  assumes step: "\<And>d. work_ok d \<Longrightarrow> p d \<Longrightarrow> (\<And>b. (k, b) \<in> X \<Longrightarrow> (work_step cfg (K k))\<^sup>*\<^sup>* b d) \<Longrightarrow> work_step cfg (K k) d (u d)"
    and A: "kept cfg K vw X (g None)"
    and B: "\<And>d. work_ok d \<Longrightarrow> p d \<Longrightarrow> kept cfg K vw (insert (k, u d) X) (g (Some (u d)))"
  shows "kept cfg K vw X (\<lambda>w. case st_find_one_and_update W k p u w of (r, w1) \<Rightarrow> g r w1)"
proof (rule keptI)
  fix w assume w: "queue_ok vw w" "seen cfg K vw X w"
  obtain r w1 where f: "st_find_one_and_update W k p u w = (r, w1)" by fastforce
  have m: "queue_moves cfg K vw w w1"
    by (rule update_moves [OF f w(1)], rule step) (use seenD [OF w(2)] in auto)
  have "queue_moves cfg K vw w1 (snd (g r w1))"
  proof (cases r)
    case None
    with A w m show ?thesis using queue_moves_ok seen_moves by (fastforce simp: kept_def)
  next
    case (Some d')
    with f obtain d where d: "vw w k = Some d" "p d" "d' = u d" "vw w1 = (vw w)(k \<mapsto> d')" by (auto elim: update_Some)
    then have "seen cfg K vw (insert (k, u d) X) w1" using seen_moves [OF m w(2)] by (simp add: seen_insert)
    with B [of d] d w m Some show ?thesis using queue_moves_ok [OF m w(1)] by (auto simp: kept_def queue_ok_def)
  qed
  with m f show "queue_moves cfg K vw w (snd (case st_find_one_and_update W k p u w of (r, w1) \<Rightarrow> g r w1))"
    by (auto intro: queue_moves_trans)
qed

text \<open>A call after others have acted.\<close>

lemma kept_update:
  assumes "queue_env cfg K vw env"
    and step: "\<And>d. work_ok d \<Longrightarrow> p d \<Longrightarrow> (\<And>b. (k, b) \<in> X \<Longrightarrow> (work_step cfg (K k))\<^sup>*\<^sup>* b d) \<Longrightarrow> work_step cfg (K k) d (u d)"
    and A: "kept cfg K vw X A"
    and B: "\<And>d. work_ok d \<Longrightarrow> p d \<Longrightarrow> kept cfg K vw (insert (k, u d) X) (B (u d))"
  shows "kept cfg K vw X
    (\<lambda>w. case st_find_one_and_update W k p u (env n w) of (r, w1) \<Rightarrow> case r of None \<Rightarrow> A w1 | Some d \<Rightarrow> B d w1)"
proof -
  have "kept cfg K vw X (\<lambda>w. case st_find_one_and_update W k p u w of (r, w1) \<Rightarrow> case r of None \<Rightarrow> A w1 | Some d \<Rightarrow> B d w1)"
    by (rule kept_update_result) (use step A B in simp_all)
  from kept_env [OF assms(1) this] show ?thesis by (simp add: Let_def)
qed

lemma kept_last_update:
  assumes "queue_env cfg K vw env"
    and "\<And>d. work_ok d \<Longrightarrow> p d \<Longrightarrow> (\<And>b. (k, b) \<in> X \<Longrightarrow> (work_step cfg (K k))\<^sup>*\<^sup>* b d) \<Longrightarrow> work_step cfg (K k) d (u d)"
  shows "kept cfg K vw X (\<lambda>w. st_find_one_and_update W k p u (env n w))"
proof -
  have "kept cfg K vw X (\<lambda>w. case st_find_one_and_update W k p u w of (r, w1) \<Rightarrow> (r, w1))"
    by (rule kept_update_result) (use assms(2) in \<open>simp_all add: kept_return\<close>)
  from kept_env [OF assms(1) this] show ?thesis by (simp add: Let_def)
qed

end

subsection \<open>The operations of a worker\<close>

lemma ownership_status: "ownershipFilter sha256 o' now statuses = Inr owned \<Longrightarrow> owned d \<Longrightarrow> wk_status d \<in> set statuses"
  by (auto simp: ownershipFilter_def bindE_Inr_iff owned_by_def)

lemma owned_by_status: "owned_by owner hash e now statuses d \<Longrightarrow> wk_status d \<in> set statuses"
  by (simp add: owned_by_def)

lemma optionalCode_cases: "optionalCode v p = Inr r \<Longrightarrow> r = None \<or> is_work_code (the r)"
  by (cases r) (auto dest: optionalCode_code)

lemma find_in_set: "find P xs = Some x \<Longrightarrow> x \<in> set xs"
  by (induction xs) (auto split: if_splits)

lemma final_validated_facts:
  assumes "final_validated input = Inr a"
  shows "fa_status a \<in> set FINALIZE_STATUSES \<and> (fa_retry_reason a = None \<or> is_work_code (the (fa_retry_reason a)))"
proof (cases "final_status (fi_status input)")
  case None
  with assms show ?thesis by (simp add: final_validated_def)
next
  case (Some s)
  then have "s \<in> set FINALIZE_STATUSES" unfolding final_status_def by (rule find_in_set)
  moreover obtain rr where "optionalCode (fi_retry_reason input) ''retryDecisionReason'' = Inr rr"
    "fa_status a = s" "fa_retry_reason a = rr"
    using assms Some by (auto simp: final_validated_def bindE_Inr_iff)
  ultimately show ?thesis using optionalCode_cases by blast
qed

context work_queue
begin

lemma startWork_kept:
  "queue_env cfg K vw env \<Longrightarrow> kept cfg K vw {} (\<lambda>w. startWork sha256 W env k o' now w)"
  unfolding startWork_def
  by (intro kept_sum kept_return kept_update) (auto dest: ownership_status intro!: work_step.start)

lemma heartbeatWork_kept:
  "queue_env cfg K vw env \<Longrightarrow> kept cfg K vw {} (\<lambda>w. heartbeatWork sha256 cfg' W env k o' lease now w)"
  unfolding heartbeatWork_def
  by (intro kept_sum kept_prod kept_return kept_update)
    (auto simp: bindE_Inr_iff dest: ownership_status intro: work_step.heartbeat)

lemma recordMilestone_kept:
  "queue_env cfg K vw env \<Longrightarrow> kept cfg K vw {} (\<lambda>w. recordMilestone sha256 W env k o' input now w)"
  unfolding recordMilestone_def
  by (intro kept_sum kept_prod kept_return kept_update kept_env kept_find)
    (auto simp: milestone_arguments_def milestone_matches_def bindE_Inr_iff dest: ownership_status intro: work_step.milestone
      split: option.splits)

lemma finalizeWork_kept:
  "queue_env cfg K vw env \<Longrightarrow> kept cfg K vw {} (\<lambda>w. finalizeWork sha256 W env i k o' input now w)"
  unfolding finalizeWork_def
  by (intro kept_sum kept_prod kept_return kept_update)
    (auto simp: bindE_Inr_iff final_matches_def dest: ownership_status final_validated_facts intro!: work_step.finalize)

end

lemma rejected_status_cases:
  "cd_work_status c \<in> {None, Some W_Completed, Some W_Cancelled, Some W_Failed} \<Longrightarrow>
   rejected_status c \<in> {W_Completed, W_Cancelled, W_Failed}"
  by (auto simp: rejected_status_def)

lemma invocationPermitsClaim_status:
  "cd_work_status (invocationPermitsClaim k found work) \<in> {None, Some W_Completed, Some W_Cancelled, Some W_Failed}"
  by (auto simp: invocationPermitsClaim_def claim_denied_def claim_allowed_def split: option.splits)

text \<open>Claims, with the verdicts of \<open>invocationPermitsClaim\<close> on whatever invocation is found.\<close>

definition invocation_verdicts :: "('k \<Rightarrow> work_item \<Rightarrow> claim_decision) \<Rightarrow> bool" where
  "invocation_verdicts permits \<longleftrightarrow>
     (\<forall>k d. cd_work_status (permits k d) \<in> {None, Some W_Completed, Some W_Cancelled, Some W_Failed})"

lemma invocation_verdicts_hold: "invocation_verdicts (\<lambda>k d. invocationPermitsClaim k (found k d) d)"
  by (simp only: invocation_verdicts_def invocationPermitsClaim_status simp_thms)

context work_queue
begin

lemma ensureClaimMilestone_kept:
  assumes "queue_env cfg K vw env" "\<And>d. owned d \<Longrightarrow> wk_status d = W_Claimed"
  shows "kept cfg K vw X (\<lambda>w. ensureClaimMilestone W env owned k work now i w)"
  unfolding ensureClaimMilestone_def
  by (intro kept_return kept_update kept_env kept_find) (use assms in \<open>auto intro: work_step.claim_milestone\<close>)

lemma rejectInvalidClaim_moves:
  assumes "queue_env cfg K vw env" "\<And>d. owned d \<Longrightarrow> wk_status d = W_Claimed"
    and "cd_work_status c \<in> {None, Some W_Completed, Some W_Cancelled, Some W_Failed}"
  shows "kept cfg K vw X (\<lambda>w. (r, rejectInvalidClaim W env owned k c now i w))"
proof -
  have "kept cfg K vw X (\<lambda>w. st_find_one_and_update W k owned (reject_set c now) (env i w))"
    by (rule kept_last_update [OF assms(1)], rule work_step.reject)
      (use assms(2) rejected_status_cases [OF assms(3)] in blast)+
  then show ?thesis by (simp add: kept_def rejectInvalidClaim_def)
qed

lemma confirm_claim_kept:
  assumes "queue_env cfg K vw env"
    and "\<And>d. cd_work_status (permits d) \<in> {None, Some W_Completed, Some W_Cancelled, Some W_Failed}"
  shows "kept cfg K vw X (\<lambda>w. confirm_claim W env permits k owner hash now i d w)"
proof -
  have o: "wk_status d' = W_Claimed" if "owned_by owner hash (Some (wk_lease_epoch d)) now [W_Claimed] d'" for d'
    using owned_by_status [OF that] by simp
  show ?thesis
    unfolding confirm_claim_def Let_def
    by (rule kept_bind, rule ensureClaimMilestone_kept [OF assms(1)], erule o)
      (intro kept_sum kept_return kept_if rejectInvalidClaim_moves [OF assms(1)] assms(2); erule o)
qed

end

lemma kept_option:
  "kept cfg K vw X A \<Longrightarrow> (\<And>x. kept cfg K vw X (B x)) \<Longrightarrow>
   kept cfg K vw X (\<lambda>s. case h s of None \<Rightarrow> A s | Some x \<Rightarrow> B x s)"
  by (simp add: kept_def split: option.split)

context work_queue
begin

lemma claimWorkById_kept:
  assumes "queue_env cfg K vw env"
    and "\<And>d. cd_work_status (permits d) \<in> {None, Some W_Completed, Some W_Cancelled, Some W_Failed}"
  shows "kept cfg K vw {} (\<lambda>w. claimWorkById sha256 cfg' W env permits k input token now w)"
proof -
  have g: "kept cfg K vw X (\<lambda>w. case confirm_claim W env permits k owner hash now 1 d w of
      (Inl e, w2) \<Rightarrow> (Inl e, w2) | (Inr None, w2) \<Rightarrow> (Inr None, w2)
    | (Inr (Some d1), w2) \<Rightarrow> (Inr (Some (d1, claim_ownership owner token d)), w2))" for X owner hash d
    by (intro kept_bind confirm_claim_kept assms kept_sum kept_option kept_return)
  show ?thesis
    unfolding claimWorkById_def
    by (intro kept_sum kept_prod kept_return kept_update assms(1) g) (auto intro: work_step.claim)
qed

lemma claim_next_kept:
  assumes "queue_env cfg K vw env" and "invocation_verdicts permits"
  shows "kept cfg K vw {} (\<lambda>w. claim_next sha256 W pick env permits owner tokens lease_ms now n i w)"
proof (induction n arbitrary: i)
  case 0
  then show ?case by (simp add: kept_return)
next
  case (Suc n)
  have v: "cd_work_status (permits k d) \<in> {None, Some W_Completed, Some W_Cancelled, Some W_Failed}" for k d
    using assms(2) unfolding invocation_verdicts_def by blast
  have g: "kept cfg K vw {} (\<lambda>w. case st_find_one_and_update W k (claimable_at now) (work_claim_set owner hash now lease_ms) w of
      (None, w1) \<Rightarrow> (Inr None, w1)
    | (Some d, w1) \<Rightarrow> (case confirm_claim W env (permits k) k owner hash now (i + 1) d w1 of
        (Inl e, w2) \<Rightarrow> (Inl e, w2)
      | (Inr None, w2) \<Rightarrow> claim_next sha256 W pick env permits owner tokens lease_ms now n (i + 4) w2
      | (Inr (Some d1), w2) \<Rightarrow> (Inr (Some (k, d1, claim_ownership owner (tokens n) d)), w2)))" for hash k
  proof (rule kept_bind)
    show "kept cfg K vw {} (st_find_one_and_update W k (claimable_at now) (work_claim_set owner hash now lease_ms))"
      using kept_last_update [OF queue_env_no_interference, of "claimable_at now" k "{}" "work_claim_set owner hash now lease_ms"]
        work_step.claim by simp
  next
    fix r
    show "kept cfg K vw {} (\<lambda>w1. case r of None \<Rightarrow> (Inr None, w1)
      | Some d \<Rightarrow> (case confirm_claim W env (permits k) k owner hash now (i + 1) d w1 of
        (Inl e, w2) \<Rightarrow> (Inl e, w2)
      | (Inr None, w2) \<Rightarrow> claim_next sha256 W pick env permits owner tokens lease_ms now n (i + 4) w2
      | (Inr (Some d1), w2) \<Rightarrow> (Inr (Some (k, d1, claim_ownership owner (tokens n) d)), w2)))"
      by (intro kept_option kept_return kept_bind confirm_claim_kept assms(1) v kept_sum Suc.IH)
  qed
  show ?case
    unfolding claim_next.simps
    by (intro kept_sum kept_return kept_env kept_option assms(1) g)
qed

lemma claimNextWork_kept:
  "queue_env cfg K vw env \<Longrightarrow> invocation_verdicts permits \<Longrightarrow>
   kept cfg K vw {} (\<lambda>w. claimNextWork sha256 cfg' W pick env permits input maximum tokens now w)"
  unfolding claimNextWork_def by (intro kept_sum kept_prod kept_return claim_next_kept)

lemma finalizeWork_kept_any:
  "queue_env cfg K vw env \<Longrightarrow> kept cfg K vw X (\<lambda>w. finalizeWork sha256 W env i k o' input now w)"
  using finalizeWork_kept [of env sha256 i k o' input now] by (simp add: kept_def seen_def)

lemma deadLetterWork_kept:
  "queue_env cfg K vw env \<Longrightarrow> kept cfg K vw {} (\<lambda>w. deadLetterWork sha256 W env k o' reason now w)"
  unfolding deadLetterWork_def by (intro kept_sum kept_return kept_env kept_option finalizeWork_kept_any)

lemma requestWorkCancellation_kept:
  "queue_env cfg K vw env \<Longrightarrow> kept cfg K vw {} (\<lambda>w. requestWorkCancellation W env k reason now w)"
  unfolding requestWorkCancellation_def
  by (intro kept_sum kept_return kept_update kept_env kept_option) (auto intro: work_step.cancel work_step.request)

lemma reserveWorkForReconciliation_kept:
  "queue_env cfg K vw env \<Longrightarrow> Reservation_Kind \<in> K k \<Longrightarrow>
   kept cfg K vw {} (\<lambda>w. reserveWorkForReconciliation sha256 cfg' W env k work owner token now w)"
  unfolding reserveWorkForReconciliation_def
  by (intro kept_if kept_sum kept_return kept_bind kept_last_update) (auto intro: work_step.reserve)

lemma releaseReconciledWork_kept:
  "queue_env cfg K vw env \<Longrightarrow> Reservation_Kind \<in> K k \<Longrightarrow> s \<in> set CLAIMABLE_DURABLE_WORK_STATUSES \<Longrightarrow>
   kept cfg K vw {} (\<lambda>w. releaseReconciledWork sha256 W env k work o' s now w)"
  unfolding releaseReconciledWork_def
  by (intro kept_sum kept_return kept_bind kept_last_update) (auto dest: ownership_status intro!: work_step.release)

lemma pause_kept:
  assumes "queue_env cfg K vw env" "Pause_Kind \<in> K k"
  shows "kept cfg K vw {} (\<lambda>w. pauseClaimedWork W env k o' reason now w)"
    and "kept cfg K vw {} (\<lambda>w. pauseQueuedWork W env k tenant_reason now w)"
    and "kept cfg K vw {} (\<lambda>w. resumeBlockedWork W env k now w)"
  unfolding pauseClaimedWork_def pauseQueuedWork_def resumeBlockedWork_def
  by (rule kept_last_update [OF assms(1)],
      use assms(2) in \<open>auto simp: CLAIMABLE_DURABLE_WORK_STATUSES_def intro!: work_step.pause work_step.block work_step.resume\<close>)+

lemma releaseQueuedWorkForApproval_kept:
  "queue_env cfg K vw env \<Longrightarrow> kept cfg K vw {} (\<lambda>w. releaseQueuedWorkForApproval W env k now w)"
  unfolding releaseQueuedWorkForApproval_def by (intro kept_last_update) (auto intro: work_step.approve)

lemma kept_create:
  assumes "queue_env cfg K vw env" "fresh_work d" "\<And>b. kept cfg K vw X (g b)"
  shows "kept cfg K vw X (\<lambda>w. case st_create W k d (env n w) of (b, w1) \<Rightarrow> g b w1)"
proof -
  have "kept cfg K vw X (\<lambda>w. case st_create W k d w of (b, w1) \<Rightarrow> g b w1)"
  proof (rule kept_bind [OF _ assms(3)], rule keptI)
    fix w show "queue_moves cfg K vw w (snd (st_create W k d w))"
    proof (cases "st_create W k d w")
      case (Pair b w1)
      show ?thesis
      proof (cases b)
        case True
        with Pair create_True [of k d w w1] have "vw w k = None" "vw w1 = (vw w)(k \<mapsto> d)" by auto
        with Pair assms(2) show ?thesis by (auto simp: queue_moves_def)
      next
        case False
        with Pair create_False [of k d w w1] show ?thesis by simp
      qed
    qed
  qed
  from kept_env [OF assms(1) this] show ?thesis by (simp add: Let_def)
qed

lemma enqueueWork_kept:
  assumes "queue_env cfg K vw env"
  shows "kept cfg K vw {} (\<lambda>w. enqueueWork sha256 cfg' W env access k input claim token now w)"
  unfolding enqueueWork_def
  by (intro kept_sum kept_prod kept_return kept_create kept_env kept_option assms)
    (auto simp: bindE_Inr_iff intro: initial_document_fresh)

end

subsection \<open>Programs over both collections\<close>

lemma kept_returns [kept_rules]: "kept cfg K vw X (returns a)"
  by (simp add: kept_def)

lemma kept_throws [kept_rules]: "kept cfg K vw X (throws e)"
  by (simp add: kept_def)

lemma kept_thens:
  assumes "kept cfg K vw X p" "\<And>a. kept cfg K vw X (f a)"
  shows "kept cfg K vw X (thens p f)"
proof -
  have "kept cfg K vw X (\<lambda>s. case p s of (r, s1) \<Rightarrow> case r of Inl e \<Rightarrow> (Inl e, s1) | Inr a \<Rightarrow> f a s1)"
    by (intro kept_bind kept_sum kept_return assms)
  then show ?thesis by (simp add: thens_def kept_def)
qed

lemma kept_thens_checks [kept_rules]:
  "(\<And>a. r = Inr a \<Longrightarrow> kept cfg K vw X (f a)) \<Longrightarrow> kept cfg K vw X (thens (checks r) f)"
  by (cases r) (simp_all add: kept_def thens_def)

lemma kept_if_prog [kept_rules]:
  "(b \<Longrightarrow> kept cfg K vw X p) \<Longrightarrow> (\<not> b \<Longrightarrow> kept cfg K vw X q) \<Longrightarrow> kept cfg K vw X (if b then p else q)"
  by simp

lemma kept_invocation_call:
  assumes "queue_env cfg K (\<lambda>s. vw (fst s)) env"
  shows "kept cfg K (\<lambda>s. vw (fst s)) X (find_invocation I (env n) q p)"
    and "kept cfg K (\<lambda>s. vw (fst s)) X (update_invocation I (env n) q p u)"
proof -
  have e: "queue_moves cfg K (\<lambda>s. vw (fst s)) s (env n s)" for s using queue_envD [OF assms] .
  then show "kept cfg K (\<lambda>s. vw (fst s)) X (find_invocation I (env n) q p)"
    by (simp add: kept_def find_invocation_def Let_def)
  have "queue_moves cfg K (\<lambda>s. vw (fst s)) s (fst (env n s), i)" for s i
    using e [of s] by (simp add: queue_moves_def)
  then show "kept cfg K (\<lambda>s. vw (fst s)) X (update_invocation I (env n) q p u)"
    by (simp add: kept_def update_invocation_def Let_def split: prod.split)
qed

text \<open>What is known of a verdict on a replay.\<close>

definition good_verdict :: "replay_verdict \<Rightarrow> bool" where
  "good_verdict v = (case v of Replay_Denied r \<Rightarrow> is_work_code r | Replay_Allowed n \<Rightarrow> 1 \<le> n)"

lemma replay_denial_codes:
  "is_work_code ''INVOCATION_NOT_FOUND''" "is_work_code ''INVOCATION_CANCELLED''"
  "is_work_code ''INVOCATION_RETRY_NOT_SCHEDULED''" "is_work_code ''INVOCATION_ALREADY_TERMINAL''"
  "is_work_code ''INVOCATION_SAFE_REPLAY_NOT_PROVEN''" "is_work_code ''INVOCATION_EXECUTION_GENERATION_MISMATCH''"
  "is_work_code ''INVOCATION_WORK_LINK_MISMATCH''" "is_work_code ''INVOCATION_EXECUTION_LEASE_ACTIVE''"
  "is_work_code ''INVOCATION_ATTEMPT_LIMIT_REACHED''" "is_work_code ''INVOCATION_REPLAY_PREPARATION_CONFLICT''"
  by code_simp+

lemma good_verdict_simps:
  "good_verdict (Replay_Denied r) = is_work_code r" "good_verdict (Replay_Allowed n) = (1 \<le> n)"
  by (simp_all add: good_verdict_def)

lemma replay_decision_good: "good_verdict (replay_decision k work rq found)"
proof (cases found)
  case None
  then show ?thesis by (simp only: replay_decision_def option.case good_verdict_simps replay_denial_codes)
next
  case (Some v)
  have if_good: "(b \<Longrightarrow> good_verdict x) \<Longrightarrow> (\<not> b \<Longrightarrow> good_verdict y) \<Longrightarrow> good_verdict (if b then x else y)" for b x y
    by simp
  show ?thesis
    unfolding replay_decision_def Some option.case
    by (intro if_good)
      ((rule good_verdict_simps(1) [THEN iffD2], rule replay_denial_codes) | (simp only: good_verdict_simps, linarith))+
qed

lemma denial_reason_code: "good_verdict v \<Longrightarrow> is_work_code (denial_reason v)"
  by (cases v) (simp_all add: good_verdict_def denial_reason_def replay_denial_codes)

lemma kept_thens_inspect:
  assumes "queue_env cfg K (\<lambda>s. vw (fst s)) env" "\<And>v. good_verdict v \<Longrightarrow> kept cfg K (\<lambda>s. vw (fst s)) X (f v)"
  shows "kept cfg K (\<lambda>s. vw (fst s)) X (thens (inspectReplay I (env n) k q work rq) f)"
proof -
  have eq: "thens (inspectReplay I (env n) k q work rq) f =
      thens (find_invocation I (env n) q (\<lambda>_. True)) (\<lambda>found. f (replay_decision k work rq found))"
    by (rule ext) (simp add: inspectReplay_def thens_def find_invocation_def Let_def)
  show ?thesis
    unfolding eq
    by (rule kept_thens, rule kept_invocation_call(1) [OF assms(1)], rule assms(2), rule replay_decision_good)
qed

end
