(* ===== verification/Durable_Queue.thy ===== *)
theory Durable_Queue
  imports Durable_Programs
begin

text \<open>
  The guarantees of the durable work queue: the retries, requeues and the scan move items by \<open>work_step\<close> as the operations
  of \<open>Durable_Programs\<close> do, and what this says of every run of the service.
\<close>

subsection \<open>Facts about the decisions\<close>

lemma no_space_trim: "list_all (\<lambda>c. \<not> is_space c) s \<Longrightarrow> js_trim s = s"
proof -
  have d: "dropWhile is_space t = t" if "list_all (\<lambda>c. \<not> is_space c) t" for t using that by (cases t) simp_all
  assume "list_all (\<lambda>c. \<not> is_space c) s"
  then show "js_trim s = s" by (simp add: js_trim_def d)
qed

lemma code_char_facts: "is_upper c \<or> is_digit c \<or> c = CHR ''_'' \<Longrightarrow> \<not> is_space c \<and> \<not> is_lower c"
  by (auto simp: char_class_defs)

lemma work_code_chars: "is_work_code r \<Longrightarrow> list_all (\<lambda>c. \<not> is_space c \<and> \<not> is_lower c) r"
  unfolding is_work_code_def bounded_pattern_def
  by (cases r) (auto simp: list_all_iff code_char_facts)

lemma work_code_normal:
  assumes "is_work_code r" shows "js_upper (js_trim r) = r"
proof -
  have "js_trim r = r" using work_code_chars [OF assms] by (intro no_space_trim) (simp add: list_all_iff)
  moreover have "map upper_char r = r"
    using work_code_chars [OF assms] by (intro map_idI) (simp add: list_all_iff upper_char_def)
  ultimately show ?thesis by (simp add: js_upper_def)
qed

lemma retry_reason_code: "is_work_code (retry_reason_name r)"
  by (cases r; simp only: retry_reason_name.simps; code_simp)

lemma retry_reason_not_exhausted: "retry_reason_name r \<noteq> EXHAUSTED"
  by (cases r; simp only: retry_reason_name.simps EXHAUSTED_def; code_simp)

lemma requiredCode_code: "requiredCode (Some v) p = Inr r \<Longrightarrow> is_work_code r \<and> r = js_upper (js_trim v)"
  by (auto simp: requiredCode_def bindE_Inr_iff split: if_splits)

lemma abandoned_allowed:
  assumes "ad_allowed (abandonedRetryDecision cfg d (classifyAbandonedWork d))" "wk_status d \<in> set OWNED_DURABLE_WORK_STATUSES"
  shows "wk_status d \<in> {W_Claimed, W_Running, W_Retry_Preparing} \<and> replayable d
    \<and> (if wk_status d = W_Retry_Preparing then wk_retry_reason d \<noteq> Some EXHAUSTED
       else wk_retry_count d < wc_dead_letter_after cfg)"
  using assms
  by (auto simp: abandonedRetryDecision_def replayable_def OWNED_DURABLE_WORK_STATUSES_def abandoned_denied_def EXHAUSTED_def
    split: if_splits)

lemma abandoned_reason:
  assumes "ad_allowed (abandonedRetryDecision cfg d (classifyAbandonedWork d))" "reason_ok d"
    and "requiredCode (Some (ad_reason (abandonedRetryDecision cfg d (classifyAbandonedWork d)))) p = Inr r"
  shows "is_work_code r \<and> r \<noteq> EXHAUSTED"
proof -
  let ?a = "ad_reason (abandonedRetryDecision cfg d (classifyAbandonedWork d))"
  have r: "is_work_code r" "r = js_upper (js_trim ?a)" using requiredCode_code [OF assms(3)] by blast+
  have lease: "is_work_code ''LEASE_EXPIRED_BEFORE_TRANSMISSION''" by code_simp
  have a: "?a = ''LEASE_EXPIRED_BEFORE_TRANSMISSION'' \<or> wk_retry_reason d = Some ?a \<and> ?a \<noteq> EXHAUSTED"
    using assms(1)
    by (cases "wk_retry_reason d")
      (simp_all add: abandonedRetryDecision_def abandoned_denied_def EXHAUSTED_def Let_def split: if_splits)
  then have "is_work_code ?a" using assms(2) lease by (auto simp: reason_ok_def)
  then have "r = ?a" using r(2) work_code_normal by simp
  moreover have "?a \<noteq> EXHAUSTED" using a unfolding EXHAUSTED_def by auto
  ultimately show ?thesis using r(1) by simp
qed

lemma abandoned_dead_letter:
  assumes "ad_dead_letter (abandonedRetryDecision cfg d (classifyAbandonedWork d))" "wk_status d \<in> set OWNED_DURABLE_WORK_STATUSES"
  shows "wk_status d \<in> {W_Claimed, W_Running, W_Retry_Preparing} \<and> replayable d"
  using assms
  by (auto simp: abandonedRetryDecision_def replayable_def OWNED_DURABLE_WORK_STATUSES_def abandoned_denied_def
    split: if_splits)

subsection \<open>Retries, requeues and the scan\<close>

context work_queue
begin

lemma kept_thens_find_work:
  fixes env :: "nat \<Rightarrow> 'w \<times> 'i \<Rightarrow> 'w \<times> 'i"
  assumes "queue_env cfg K (\<lambda>s. vw (fst s)) env" "kept cfg K (\<lambda>s. vw (fst s)) X A"
    and "\<And>d. work_ok d \<Longrightarrow> p d \<Longrightarrow> kept cfg K (\<lambda>s. vw (fst s)) (insert (k, d) X) (B d)"
  shows "kept cfg K (\<lambda>s. vw (fst s)) X (thens (find_work W (env n) k p) (\<lambda>r. case r of None \<Rightarrow> A | Some d \<Rightarrow> B d))"
proof -
  have "kept cfg K (\<lambda>s. vw (fst s)) X (\<lambda>s. case st_find_one W k p (fst s) of None \<Rightarrow> A s | Some d \<Rightarrow> B d s)"
  proof (rule keptI)
    fix s :: "'w \<times> 'i" assume s: "queue_ok (\<lambda>s. vw (fst s)) s" "seen cfg K (\<lambda>s. vw (fst s)) X s"
    show "queue_moves cfg K (\<lambda>s. vw (fst s)) s (snd (case st_find_one W k p (fst s) of None \<Rightarrow> A s | Some d \<Rightarrow> B d s))"
    proof (cases "st_find_one W k p (fst s)")
      case None
      with kept_snd [OF assms(2) s] show ?thesis by simp
    next
      case (Some d)
      then have d: "vw (fst s) k = Some d" "p d" by (auto simp: find_one_Some_iff)
      with s(1) have "work_ok d" unfolding queue_ok_def by blast
      then have "kept cfg K (\<lambda>s. vw (fst s)) (insert (k, d) X) (B d)" using assms(3) d(2) by blast
      moreover have "seen cfg K (\<lambda>s. vw (fst s)) (insert (k, d) X) s" using seen_insert [OF s(2)] d(1) by blast
      ultimately show ?thesis using kept_snd s(1) Some by fastforce
    qed
  qed
  note kept_env [OF assms(1) this, of n]
  moreover have "thens (find_work W (env n) k p) (\<lambda>r. case r of None \<Rightarrow> A | Some d \<Rightarrow> B d) =
      (\<lambda>s. let s1 = env n s in case st_find_one W k p (fst s1) of None \<Rightarrow> A s1 | Some d \<Rightarrow> B d s1)"
    by (rule ext) (simp add: thens_def find_work_def Let_def split: option.split)
  ultimately show ?thesis by simp
qed

lemma kept_thens_update_work:
  fixes env :: "nat \<Rightarrow> 'w \<times> 'i \<Rightarrow> 'w \<times> 'i"
  assumes "queue_env cfg K (\<lambda>s. vw (fst s)) env"
    and step: "\<And>d. work_ok d \<Longrightarrow> p d \<Longrightarrow> (\<And>b. (k, b) \<in> X \<Longrightarrow> (work_step cfg (K k))\<^sup>*\<^sup>* b d) \<Longrightarrow> work_step cfg (K k) d (u d)"
    and A: "kept cfg K (\<lambda>s. vw (fst s)) X (f None)"
    and B: "\<And>d. work_ok d \<Longrightarrow> p d \<Longrightarrow> (\<And>b. (k, b) \<in> X \<Longrightarrow> (work_step cfg (K k))\<^sup>*\<^sup>* b d) \<Longrightarrow>
      kept cfg K (\<lambda>s. vw (fst s)) (insert (k, u d) X) (f (Some (u d)))"
  shows "kept cfg K (\<lambda>s. vw (fst s)) X (thens (update_work W (env n) k p u) f)"
proof -
  have "kept cfg K (\<lambda>s. vw (fst s)) X (\<lambda>s. case st_find_one_and_update W k p u (fst s) of (r, w) \<Rightarrow> f r (w, snd s))"
  proof (rule keptI)
    fix s :: "'w \<times> 'i" assume s: "queue_ok (\<lambda>s. vw (fst s)) s" "seen cfg K (\<lambda>s. vw (fst s)) X s"
    obtain r w where u: "st_find_one_and_update W k p u (fst s) = (r, w)" by fastforce
    have b: "(work_step cfg (K k))\<^sup>*\<^sup>* b d" if "(k, b) \<in> X" "vw (fst s) k = Some d" for b d
      using seenD [OF s(2) that(2,1)] .
    have "queue_moves cfg K vw (fst s) w"
      by (rule update_moves [OF u]) (use s(1) step b in \<open>auto simp: queue_ok_def\<close>)
    then have m: "queue_moves cfg K (\<lambda>s. vw (fst s)) s (w, snd s)" by (simp add: queue_moves_def)
    have "queue_moves cfg K (\<lambda>s. vw (fst s)) (w, snd s) (snd (f r (w, snd s)))"
    proof (cases r)
      case None
      with kept_snd [OF A queue_moves_ok [OF m s(1)] seen_moves [OF m s(2)]] show ?thesis by simp
    next
      case (Some d')
      with u obtain d where d: "vw (fst s) k = Some d" "p d" "d' = u d" "vw w = (vw (fst s))(k \<mapsto> d')"
        by (auto elim: update_Some)
      with s(1) have "work_ok d" unfolding queue_ok_def by blast
      then have "kept cfg K (\<lambda>s. vw (fst s)) (insert (k, u d) X) (f (Some (u d)))" using B d(1,2) b by blast
      moreover have "seen cfg K (\<lambda>s. vw (fst s)) (insert (k, u d) X) (w, snd s)"
        using seen_moves [OF m s(2)] d(3,4) by (simp add: seen_insert)
      ultimately show ?thesis using kept_snd [OF _ queue_moves_ok [OF m s(1)]] Some d(3) by simp
    qed
    with m u show "queue_moves cfg K (\<lambda>s. vw (fst s)) s
        (snd (case st_find_one_and_update W k p u (fst s) of (r, w) \<Rightarrow> f r (w, snd s)))"
      by (auto intro: queue_moves_trans)
  qed
  note kept_env [OF assms(1) this, of n]
  moreover have "thens (update_work W (env n) k p u) f =
      (\<lambda>s. let s1 = env n s in case st_find_one_and_update W k p u (fst s1) of (r, w) \<Rightarrow> f r (w, snd s1))"
    by (rule ext) (simp add: thens_def update_work_def Let_def split: prod.split)
  ultimately show ?thesis by simp
qed

end

lemma kept_thens_result:
  assumes "kept cfg K vw X p" "\<And>s a s'. p s = (Inr a, s') \<Longrightarrow> G a" "\<And>a. G a \<Longrightarrow> kept cfg K vw X (f a)"
  shows "kept cfg K vw X (thens p f)"
proof (rule keptI)
  fix s assume s: "queue_ok vw s" "seen cfg K vw X s"
  obtain r s1 where p: "p s = (r, s1)" by fastforce
  note m = keptD [OF assms(1) s p]
  show "queue_moves cfg K vw s (snd (thens p f s))"
  proof (cases r)
    case (Inl e)
    with p m show ?thesis by simp
  next
    case (Inr a)
    with p have "kept cfg K vw X (f a)" using assms(2,3) by blast
    from kept_snd [OF this queue_moves_ok [OF m s(1)] seen_moves [OF m s(2)]] m p Inr show ?thesis
      by (auto intro: queue_moves_trans)
  qed
qed

lemma prepare_good:
  assumes "prepareInvocationForSafeReplay I env n k q work rq s = (Inr v, s')"
  shows "good_verdict v"
proof -
  obtain found s1 where f: "find_invocation I (env n) q (\<lambda>_. True) s = (Inr found, s1)"
    by (simp add: find_invocation_def Let_def)
  have "v = replay_decision k work rq found
      \<or> v = Replay_Denied ''INVOCATION_REPLAY_PREPARATION_CONFLICT''"
  proof (cases found)
    case None
    with assms f show ?thesis by (auto simp: prepareInvocationForSafeReplay_def)
  next
    case (Some x)
    with assms f show ?thesis
      by (cases "replay_decision k work rq found")
        (auto simp: prepareInvocationForSafeReplay_def thens_Inr_iff split: if_splits)
  qed
  then show ?thesis using replay_decision_good good_verdict_simps(1) replay_denial_codes(10) by metis
qed

lemma prepare_kept:
  assumes "queue_env cfg K (\<lambda>s. vw (fst s)) env"
  shows "kept cfg K (\<lambda>s. vw (fst s)) X (prepareInvocationForSafeReplay I env n k q work rq)"
  unfolding prepareInvocationForSafeReplay_def
proof (rule kept_thens, rule kept_invocation_call(1) [OF assms])
  fix found
  show "kept cfg K (\<lambda>s. vw (fst s)) X (case (found, replay_decision k work rq found) of
       (Some v, Replay_Allowed next) \<Rightarrow>
         thens (checks (history_entries (replay_options work rq v) (inv_lifecycle_state v) (replay_path (inv_lifecycle_state v)))) (\<lambda>es.
         thens (update_invocation I (env (n + 1)) q (replay_matches k work rq v) (replay_set k rq (inv_lifecycle_state v) es)) (\<lambda>prepared.
         returns (if prepared = None then Replay_Denied ''INVOCATION_REPLAY_PREPARATION_CONFLICT'' else Replay_Allowed next)))
     | (_, verdict) \<Rightarrow> returns verdict)"
    by (cases found; cases "replay_decision k work rq found")
      (auto intro!: kept_returns kept_thens_checks kept_thens kept_invocation_call assms)
qed

context work_queue
begin

lemma preparation_same:
  assumes "replayPreparationFilter p owner hash now d" "(work_step cfg (K k))\<^sup>*\<^sup>* p d" "wk_status p = W_Retry_Preparing"
  shows "d = p"
  using assms by (intro work_steps_same [OF assms(2)]) (simp_all add: replayPreparationFilter_def)

lemma terminalize_kept:
  assumes "queue_env cfg K (\<lambda>s. vw (fst s)) env" "is_work_code reason"
    and "\<And>Y r. kept cfg K (\<lambda>s. vw (fst s)) Y (f r)"
  shows "kept cfg K (\<lambda>s. vw (fst s)) X (thens (terminalizeReplayPreparation W (env n) k p owner hash reason now) f)"
  unfolding terminalizeReplayPreparation_def
  by (rule kept_thens_update_work [OF assms(1)])
    (use assms(2) in \<open>auto simp: replayPreparationFilter_def OWNED_DURABLE_WORK_STATUSES_def intro!: work_step.denial assms(3)\<close>)

lemma finish_preparation_kept:
  assumes e: "queue_env cfg K (\<lambda>s. vw (fst s)) env"
    and p: "(k, p) \<in> X" "wk_status p = W_Retry_Preparing" "wk_retry_reason p \<noteq> Some EXHAUSTED"
    and s: "ready \<in> {W_Retry_Scheduled, W_Pending}"
  shows "kept cfg K (\<lambda>s. vw (fst s)) X (finish_preparation W I env n k q owner hash rq next ready refused p)"
  unfolding finish_preparation_def
proof (rule kept_thens_result [where G = good_verdict], rule prepare_kept [OF e], erule prepare_good)
  fix verdict assume v: "good_verdict verdict"
  have ready: "work_step cfg (K k) d (release_set ready d)"
    if "replayPreparationFilter p owner hash (rq_now rq) d" "(work_step cfg (K k))\<^sup>*\<^sup>* p d" for d
    using preparation_same [OF that p(2)] p s by (auto intro: work_step.ready)
  show "kept cfg K (\<lambda>s. vw (fst s)) X
     (if verdict \<noteq> Replay_Allowed next
      then thens (terminalizeReplayPreparation W (env (n + 2)) k p owner hash (denial_reason verdict) (rq_now rq)) (\<lambda>_. throws refused)
      else thens (update_work W (env (n + 2)) k (replayPreparationFilter p owner hash (rq_now rq)) (release_set ready)) (\<lambda>item.
        case item of None \<Rightarrow> throws finalization_conflict | Some d \<Rightarrow> returns d))"
    by (intro kept_if_prog terminalize_kept kept_thens_update_work e denial_reason_code v kept_throws)
      (auto intro: kept_return ready p(1))
qed

end

context work_queue
begin

lemma begin_preparation_kept:
  assumes e: "queue_env cfg K (\<lambda>s. vw (fst s)) env" and ready: "ready \<in> {W_Retry_Scheduled, W_Pending}"
    and step: "\<And>d hash. work_ok d \<Longrightarrow> p d \<Longrightarrow> (\<And>b. (k, b) \<in> X \<Longrightarrow> (work_step cfg (K k))\<^sup>*\<^sup>* b d) \<Longrightarrow> work_step cfg (K k) d (enter hash d)"
    and shape: "\<And>d hash. wk_status (enter hash d) = W_Retry_Preparing \<and> wk_retry_reason (enter hash d) \<noteq> Some EXHAUSTED"
  shows "kept cfg K (\<lambda>s. vw (fst s)) X (begin_preparation sha256 W I env n k q preparer token rq next p enter ready lost refused)"
  unfolding begin_preparation_def
proof (intro kept_thens_checks kept_thens_update_work e)
  fix hash d
  show "kept cfg K (\<lambda>s. vw (fst s)) (insert (k, enter hash d) X) (case Some (enter hash d) of None \<Rightarrow> throws lost
      | Some d \<Rightarrow> finish_preparation W I env (n + 1) k q preparer hash rq next ready refused d)"
    using shape [of hash d] by (simp add: finish_preparation_kept [OF e _ _ _ ready])
qed (auto intro: step kept_return)

lemma retry_current_kept:
  assumes e: "queue_env cfg K (\<lambda>s. vw (fst s)) env" and "Retry_Kind \<in> K k" and "(k, current) \<in> X"
    and o: "\<And>d. owned d \<Longrightarrow> wk_status d \<in> {W_Claimed, W_Running}"
    and reason: "rq_reason rq \<noteq> EXHAUSTED" "is_work_code (rq_reason rq)"
  shows "kept cfg K (\<lambda>s. vw (fst s)) X (retry_current sha256 cfg W I env k q owned current preparer token err rq)"
  unfolding retry_current_def
proof (rule kept_thens_inspect [OF e])
  have step: "work_step cfg (K k) d (retry_preparing_set preparer hash cfg rq nxt err d)"
    if "owned d \<and> wk_attempt d = wk_attempt current \<and> wk_attempt current < wk_maximum_attempts d"
      "(work_step cfg (K k))\<^sup>*\<^sup>* current d" "\<not> (nxt \<le> int (wk_attempt current) \<or> int (wk_maximum_attempts current) < nxt)"
    for d hash nxt
    using o that(1,3) work_steps_counters [OF that(2)] assms(2) reason by (intro work_step.retry) fastforce+
  fix v
  show "kept cfg K (\<lambda>s. vw (fst s)) X (case v of Replay_Denied _ \<Rightarrow> throws retry_denied | Replay_Allowed next \<Rightarrow>
     if next \<le> int (wk_attempt current) \<or> int (wk_maximum_attempts current) < next then throws retry_denied
     else begin_preparation sha256 W I env 2 k q preparer token rq next
       (\<lambda>d. owned d \<and> wk_attempt d = wk_attempt current \<and> wk_attempt current < wk_maximum_attempts d)
       (\<lambda>hash. retry_preparing_set preparer hash cfg rq next err) W_Retry_Scheduled leaseLost retry_denied)"
    using reason(1) assms(3)
    by (cases v)
      (auto intro!: kept_throws kept_if_prog begin_preparation_kept e step
        simp: retry_preparing_set_def bump_def preparation_lease_def simp del: prog_simps)
qed

lemma scheduleRetry_kept:
  assumes e: "queue_env cfg K (\<lambda>s. vw (fst s)) env" and "Retry_Kind \<in> K k"
  shows "kept cfg K (\<lambda>s. vw (fst s)) {} (scheduleRetry sha256 cfg envc W I env k q o' ri random preparer token now)"
  unfolding scheduleRetry_def retry_found_def
proof (rule kept_thens_checks, rule kept_thens_find_work [OF e kept_throws],
    intro kept_thens_checks kept_if_prog kept_throws retry_current_kept e assms(2))
  fix owned d assume "ownershipFilter sha256 o' now [W_Claimed, W_Running] = Inr owned" "owned d"
  then show "wk_status d \<in> {W_Claimed, W_Running}" using ownership_status by fastforce
qed (simp_all add: retry_request_def retry_reason_code retry_reason_not_exhausted)

lemma requeueDeadLetter_kept:
  assumes e: "queue_env cfg K (\<lambda>s. vw (fst s)) env" and "Requeue_Kind \<in> K k"
  shows "kept cfg K (\<lambda>s. vw (fst s)) {} (requeueDeadLetter sha256 cfg W I env k q version preparer token now)"
  unfolding requeueDeadLetter_def Let_def
proof (rule kept_thens_checks, rule kept_thens_find_work [OF e kept_throws], rule kept_if_prog [OF kept_throws], rule kept_thens_inspect [OF e])
  define rq where "rq = \<lparr>rq_now = now, rq_available_at = now, rq_reason = ''OPERATOR_REQUEUE_PRETRANSMISSION'',
    rq_maximum_attempts = Some (wc_dead_letter_after cfg), rq_terminal_override = True\<rparr>"
  have reason: "rq_reason rq \<noteq> EXHAUSTED" "is_work_code (rq_reason rq)"
    by (simp_all add: rq_def work_reason_codes EXHAUSTED_def)
  fix version' current v
  assume current: "wk_status current = W_Dead_Lettered" "good_verdict v"
    and allowed: "\<not> (\<not> ab_replay_allowed (classifyAbandonedWork current) \<or> 1 \<le> wk_requeue_count current
      \<or> wc_dead_letter_after cfg \<le> wk_attempt current)"
  have step: "work_step cfg (K k) d (requeue_set preparer hash cfg (wk_maximum_attempts current) rq nxt d)"
    if d: "wk_status d = W_Dead_Lettered" "wk_requeue_count d < 1" and s: "(work_step cfg (K k))\<^sup>*\<^sup>* current d"
      and n: "1 \<le> nxt" "nxt \<le> int (wc_dead_letter_after cfg)" for d hash nxt
  proof -
    have "wk_requeue_count d = wk_requeue_count current" using d(2) work_steps_counters [OF s] by simp
    then have "d = current" using dead_letter_steps [OF s current(1)] by simp
    then show ?thesis using allowed assms(2) current(1) d(2) n reason
      by (auto simp: replayable_def intro: work_step.requeue)
  qed
  show "kept cfg K (\<lambda>s. vw (fst s)) {(k, current)} (case v of Replay_Denied _ \<Rightarrow> throws requeue_denied | Replay_Allowed next \<Rightarrow>
     if int (wc_dead_letter_after cfg) < next then throws requeue_denied
     else begin_preparation sha256 W I env 2 k q preparer token
       \<lparr>rq_now = now, rq_available_at = now, rq_reason = ''OPERATOR_REQUEUE_PRETRANSMISSION'',
         rq_maximum_attempts = Some (wc_dead_letter_after cfg), rq_terminal_override = True\<rparr> next
       (\<lambda>d. wk_status d = W_Dead_Lettered \<and> int (wk_version d) = version' \<and> wk_requeue_count d < 1)
       (\<lambda>hash. requeue_set preparer hash cfg (wk_maximum_attempts current)
         \<lparr>rq_now = now, rq_available_at = now, rq_reason = ''OPERATOR_REQUEUE_PRETRANSMISSION'',
           rq_maximum_attempts = Some (wc_dead_letter_after cfg), rq_terminal_override = True\<rparr> next)
       W_Pending requeue_denied requeue_denied)"
    unfolding rq_def [symmetric] using reason(1) current(2)
    by (cases v)
      (auto intro!: kept_throws kept_if_prog begin_preparation_kept e step
        simp: requeue_set_def bump_def preparation_lease_def good_verdict_simps simp del: prog_simps)
qed

end

lemma markInvocationRecovery_kept:
  assumes "queue_env cfg K (\<lambda>s. vw (fst s)) env"
  shows "kept cfg K (\<lambda>s. vw (fst s)) X (markInvocationRecoveryForWork redact I env n q work reason now)"
  unfolding markInvocationRecoveryForWork_def
proof (rule kept_thens, rule kept_invocation_call(1) [OF assms])
  fix found
  show "kept cfg K (\<lambda>s. vw (fst s)) X (case found of None \<Rightarrow> returns False | Some v \<Rightarrow>
     thens (checks (transitionUpdate redact (istate_name (inv_lifecycle_state v)) ''recovery_required''
       (recovery_options reason now (wk_attempt work) (wk_trace_id work)))) (\<lambda>(_, u).
     thens (update_invocation I (env (n + 1)) q (\<lambda>d. inv_lifecycle_state d = inv_lifecycle_state v)
       (\<lambda>d. recovery_fields reason (on_invocation u d))) (\<lambda>r. returns (r \<noteq> None))))"
    by (cases found)
      (auto intro!: kept_returns kept_thens_checks kept_thens kept_invocation_call assms split: prod.split simp del: prog_simps)
qed

lemma terminalizeInvocation_kept:
  assumes "queue_env cfg K (\<lambda>s. vw (fst s)) env"
  shows "kept cfg K (\<lambda>s. vw (fst s)) X (terminalizeInvocationForDeadLetter redact I env n k q work now)"
  unfolding terminalizeInvocationForDeadLetter_def
proof (rule kept_thens, rule kept_invocation_call(1) [OF assms])
  fix found
  show "kept cfg K (\<lambda>s. vw (fst s)) X (case found of None \<Rightarrow> returns False | Some v \<Rightarrow>
     if inv_cancellation_state v \<in> {Cancel_Requested, Cancel_Aborting, Cancel_Confirmed, Cancel_Outcome_Unknown} then returns False
     else if inv_lifecycle_state v \<in> {Succeeded, Cancelled} then returns False
     else if inv_lifecycle_state v = Recovery_Required \<or> inv_recovery_state v = Recovery_State_Required then returns True
     else case exhausted_update redact work now v of
            Inl _ \<Rightarrow> returns False
          | Inr u \<Rightarrow>
              thens (update_invocation I (env (n + 1)) q
                (\<lambda>d. inv_lifecycle_state d = inv_lifecycle_state v
                   \<and> dv_execution_generation d = generation_of (wk_execution_generation work) \<and> dv_work_item d \<in> {None, Some k}) u)
                (\<lambda>r. returns (r \<noteq> None)))"
    by (cases found)
      (auto intro!: kept_returns kept_if_prog kept_thens kept_invocation_call assms split: sum.split simp del: prog_simps)
qed

context work_queue
begin

text \<open>The scan has read \<open>work\<close>, whose lease has expired, and its updates apply to that very item.\<close>

lemma abandoned_same:
  assumes "abandonedCasFilter work cutoff d" "(work_step cfg (K k))\<^sup>*\<^sup>* work d"
  shows "d = work"
  using assms by (intro work_steps_same [OF assms(2)]) (simp_all add: abandonedCasFilter_def)

lemma abandoned_update_kept:
  assumes "queue_env cfg K (\<lambda>s. vw (fst s)) env" "(k, work) \<in> X" "work_ok work \<Longrightarrow> work_step cfg (K k) work (u work)"
    and "kept cfg K (\<lambda>s. vw (fst s)) X (f None)" and "kept cfg K (\<lambda>s. vw (fst s)) (insert (k, u work) X) (f (Some (u work)))"
  shows "kept cfg K (\<lambda>s. vw (fst s)) X (thens (update_work W (env n) k (abandonedCasFilter work cutoff) u) f)"
proof (rule kept_thens_update_work [OF assms(1)])
  fix d assume d: "work_ok d" "abandonedCasFilter work cutoff d" "\<And>b. (k, b) \<in> X \<Longrightarrow> (work_step cfg (K k))\<^sup>*\<^sup>* b d"
  then have "d = work" using abandoned_same assms(2) by blast
  with assms(3,5) d(1) show "work_step cfg (K k) d (u d)" "kept cfg K (\<lambda>s. vw (fst s)) (insert (k, u d) X) (f (Some (u d)))" by simp_all
qed (fact assms(4))

lemma reconcile_abandoned_kept:
  assumes "queue_env cfg K (\<lambda>s. vw (fst s)) env" "(k, work) \<in> X" "wk_status work \<in> set OWNED_DURABLE_WORK_STATUSES"
  shows "kept cfg K (\<lambda>s. vw (fst s)) X (reconcile_abandoned W (env n) k work cutoff now s)"
  unfolding reconcile_abandoned_def
  by (intro abandoned_update_kept assms(1,2) kept_returns work_step.reconcile assms(3)) (simp add: terminal_work_status_def)

lemma cancel_abandoned_kept:
  assumes "queue_env cfg K (\<lambda>s. vw (fst s)) env" "(k, work) \<in> X" "wk_status work \<in> set OWNED_DURABLE_WORK_STATUSES"
  shows "kept cfg K (\<lambda>s. vw (fst s)) X (cancel_abandoned W (env n) k work cutoff now)"
  unfolding cancel_abandoned_def
  by (intro abandoned_update_kept assms(1,2) kept_returns work_step.scan_cancel assms(3))

lemma recover_abandoned_kept:
  assumes "queue_env cfg K (\<lambda>s. vw (fst s)) env" "(k, work) \<in> X" "wk_status work \<in> set OWNED_DURABLE_WORK_STATUSES"
  shows "kept cfg K (\<lambda>s. vw (fst s)) X (recover_abandoned redact W I env n k q work cutoff now)"
  unfolding recover_abandoned_def Let_def
  by (rule abandoned_update_kept [OF assms(1,2)])
    (auto intro!: work_step.recover assms(3,1) kept_returns kept_thens markInvocationRecovery_kept simp del: prog_simps)

lemma exhaust_abandoned_kept:
  assumes e: "queue_env cfg K (\<lambda>s. vw (fst s)) env" and "(k, work) \<in> X"
    and "wk_status work \<in> {W_Claimed, W_Running, W_Retry_Preparing}" "replayable work"
  shows "kept cfg K (\<lambda>s. vw (fst s)) X (exhaust_abandoned sha256 cfg redact W I env n k q work preparer token cutoff now)"
  unfolding exhaust_abandoned_def
proof (rule kept_thens_checks, rule abandoned_update_kept [OF e assms(2)])
  fix hash
  show "work_step cfg (K k) work (exhaust_set preparer hash cfg now work)" using assms(3,4) by (rule work_step.exhaust)
  let ?p = "exhaust_set preparer hash cfg now work"
  have filter: "wk_status d = W_Retry_Preparing" if "replayPreparationFilter ?p preparer hash now d" for d
    using that by (simp add: replayPreparationFilter_def)
  show "kept cfg K (\<lambda>s. vw (fst s)) (insert (k, ?p) X) (case Some ?p of None \<Rightarrow> returns Scan_Conflict
     | Some p \<Rightarrow>
         thens (terminalizeInvocationForDeadLetter redact I env (n + 1) k q p now) (\<lambda>terminalized.
         thens (update_work W (env (n + 3)) k (replayPreparationFilter p preparer hash now)
           (if terminalized then dead_letter_set now else uncertain_set)) (\<lambda>r.
         returns (if r = None then Scan_Conflict else if terminalized then Scan_Dead_Lettered else Scan_Recovery_Required))))"
    unfolding option.case
    by (intro kept_thens terminalizeInvocation_kept kept_thens_update_work e kept_returns)
      (use filter in \<open>auto intro: work_step.dead_letter work_step.uncertain\<close>)
qed (simp add: kept_returns del: prog_simps)

end

context work_queue
begin

lemma replay_abandoned_kept:
  assumes e: "queue_env cfg K (\<lambda>s. vw (fst s)) env" and x: "(k, work) \<in> X"
    and ok: "work_ok work" "wk_status work \<in> set OWNED_DURABLE_WORK_STATUSES"
    and allowed: "ad_allowed (abandonedRetryDecision cfg work (classifyAbandonedWork work))"
  shows "kept cfg K (\<lambda>s. vw (fst s)) X (replay_abandoned sha256 cfg W I env n k q work
    (ad_reason (abandonedRetryDecision cfg work (classifyAbandonedWork work))) preparer token cutoff now)"
  unfolding replay_abandoned_def Let_def
proof (rule kept_thens_checks, rule kept_thens_inspect [OF e])
  fix reason verdict
  assume "requiredCode (Some (ad_reason (abandonedRetryDecision cfg work (classifyAbandonedWork work)))) ''reasonCode'' = Inr reason"
    and verdict: "good_verdict verdict"
  then have reason: "is_work_code reason" "reason \<noteq> EXHAUSTED"
    using abandoned_reason [OF allowed] ok(1) unfolding work_ok_def by blast+
  define rq where "rq = \<lparr>rq_now = now, rq_available_at = (if wk_status work = W_Retry_Preparing then wk_available_at work else now + 1),
    rq_reason = reason, rq_maximum_attempts = None, rq_terminal_override = (reason = ''OPERATOR_REQUEUE_PRETRANSMISSION'')\<rparr>"
  let ?p = "\<lambda>hash nxt. abandon_set preparer hash cfg rq nxt (ab_recovery_reason (classifyAbandonedWork work)) work"
  have step: "work_step cfg (K k) work (?p hash nxt)" if "1 \<le> nxt" "nxt \<le> int (wk_maximum_attempts work)" for hash nxt
    using abandoned_allowed [OF allowed ok(2)] that reason by (intro work_step.abandon) (auto simp: rq_def)
  have p: "wk_status (?p hash nxt) = W_Retry_Preparing" "wk_retry_reason (?p hash nxt) \<noteq> Some EXHAUSTED" for hash nxt
    using reason(2) by (simp_all add: rq_def abandon_set_def bump_def preparation_lease_def)
  have after: "kept cfg K (\<lambda>s. vw (fst s)) (insert (k, ?p hash nxt) X)
      (thens (prepareInvocationForSafeReplay I env (n + 2) k q (?p hash nxt) rq) (\<lambda>prepared.
         if prepared \<noteq> Replay_Allowed nxt
         then thens (terminalizeReplayPreparation W (env (n + 4)) k (?p hash nxt) preparer hash (denial_reason prepared) now) (\<lambda>r.
              returns (denied_outcome r))
         else thens (update_work W (env (n + 4)) k (replayPreparationFilter (?p hash nxt) preparer hash now) (release_set W_Pending)) (\<lambda>r.
              returns (if r = None then Scan_Conflict else Safely_Recovered))))" for hash nxt
  proof (rule kept_thens_result [where G = good_verdict], rule prepare_kept [OF e], erule prepare_good)
    have ready: "work_step cfg (K k) d (release_set W_Pending d)"
      if "replayPreparationFilter (?p hash nxt) preparer hash now d" "(work_step cfg (K k))\<^sup>*\<^sup>* (?p hash nxt) d" for d
      using preparation_same [OF that p(1)] p [of hash nxt] by (auto intro: work_step.ready)
    fix prepared assume "good_verdict prepared"
    then show "kept cfg K (\<lambda>s. vw (fst s)) (insert (k, ?p hash nxt) X) (if prepared \<noteq> Replay_Allowed nxt
         then thens (terminalizeReplayPreparation W (env (n + 4)) k (?p hash nxt) preparer hash (denial_reason prepared) now) (\<lambda>r.
              returns (denied_outcome r))
         else thens (update_work W (env (n + 4)) k (replayPreparationFilter (?p hash nxt) preparer hash now) (release_set W_Pending)) (\<lambda>r.
              returns (if r = None then Scan_Conflict else Safely_Recovered)))"
      by (intro kept_if_prog terminalize_kept kept_thens_update_work e denial_reason_code kept_returns) (auto intro: ready)
  qed
  show "kept cfg K (\<lambda>s. vw (fst s)) X
     (case (case verdict of Replay_Denied _ \<Rightarrow> None
            | Replay_Allowed nxt \<Rightarrow> if int (wk_maximum_attempts work) < nxt then None else Some nxt) of
        None \<Rightarrow>
          thens (update_work W (env (n + 1)) k (abandonedCasFilter work cutoff) (denial_set (denial_reason verdict) now)) (\<lambda>r.
          returns (denied_outcome r))
      | Some nxt \<Rightarrow>
          thens (checks (leaseTokenHash sha256 (Some token))) (\<lambda>hash.
          thens (update_work W (env (n + 1)) k (abandonedCasFilter work cutoff)
            (abandon_set preparer hash cfg rq nxt (ab_recovery_reason (classifyAbandonedWork work)))) (\<lambda>preparing. case preparing of
              None \<Rightarrow> returns Scan_Conflict
            | Some p \<Rightarrow>
                thens (prepareInvocationForSafeReplay I env (n + 2) k q p rq) (\<lambda>prepared.
                if prepared \<noteq> Replay_Allowed nxt
                then thens (terminalizeReplayPreparation W (env (n + 4)) k p preparer hash (denial_reason prepared) now) (\<lambda>r.
                     returns (denied_outcome r))
                else thens (update_work W (env (n + 4)) k (replayPreparationFilter p preparer hash now) (release_set W_Pending)) (\<lambda>r.
                     returns (if r = None then Scan_Conflict else Safely_Recovered))))))"
  proof (cases "case verdict of Replay_Denied _ \<Rightarrow> None
      | Replay_Allowed nxt \<Rightarrow> if int (wk_maximum_attempts work) < nxt then None else Some nxt")
    case None
    show ?thesis unfolding None option.case
      by (intro abandoned_update_kept [OF e x] kept_returns work_step.denial ok(2) denial_reason_code verdict)
  next
    case (Some nxt)
    then have n: "1 \<le> nxt" "nxt \<le> int (wk_maximum_attempts work)"
      using verdict by (auto simp: good_verdict_simps split: replay_verdict.splits if_splits)
    show ?thesis unfolding Some option.case
      by (intro kept_thens_checks abandoned_update_kept [OF e x] step n) (simp_all only: option.case kept_returns after)
  qed
qed

lemma scan_decided_kept:
  assumes e: "queue_env cfg K (\<lambda>s. vw (fst s)) env" and x: "(k, work) \<in> X"
    and ok: "work_ok work" "wk_status work \<in> set OWNED_DURABLE_WORK_STATUSES"
  shows "kept cfg K (\<lambda>s. vw (fst s)) X (scan_decided sha256 cfg redact W I env n k q work
    (abandonedRetryDecision cfg work (classifyAbandonedWork work)) (classifyAbandonedWork work) preparer token cutoff now)"
  unfolding scan_decided_def
  using abandoned_dead_letter [of cfg work, OF _ ok(2)]
  by (intro kept_if_prog replay_abandoned_kept cancel_abandoned_kept exhaust_abandoned_kept recover_abandoned_kept e x ok) blast+

lemma scan_item_kept:
  assumes e: "queue_env cfg K (\<lambda>s. vw (fst s)) env" and x: "(k, work) \<in> X"
    and ok: "work_ok work" "wk_status work \<in> set OWNED_DURABLE_WORK_STATUSES"
  shows "kept cfg K (\<lambda>s. vw (fst s)) X (scan_item sha256 cfg redact W I env n k q work preparer token cutoff now)"
  unfolding scan_item_def Let_def
proof (rule kept_thens, rule kept_invocation_call(1) [OF e])
  fix found
  show "kept cfg K (\<lambda>s. vw (fst s)) X (case map_option inv_lifecycle_state found of
      None \<Rightarrow> scan_decided sha256 cfg redact W I env (n + 1) k q work
        (abandonedRetryDecision cfg work (classifyAbandonedWork work)) (classifyAbandonedWork work) preparer token cutoff now
    | Some s \<Rightarrow>
        if s \<in> set INVOCATION_TERMINAL_STATES
          \<and> (ab_classification (classifyAbandonedWork work) \<noteq> ''pre_transmission'' \<or> s \<in> {Succeeded, Cancelled})
        then reconcile_abandoned W (env (n + 1)) k work cutoff now s
        else scan_decided sha256 cfg redact W I env (n + 1) k q work
          (abandonedRetryDecision cfg work (classifyAbandonedWork work)) (classifyAbandonedWork work) preparer token cutoff now)"
    by (cases "map_option inv_lifecycle_state found"; simp only: option.case)
      (intro kept_if_prog scan_decided_kept reconcile_abandoned_kept e x ok)+
qed

lemma scan_items_kept:
  assumes e: "queue_env cfg K (\<lambda>s. vw (fst s)) env" and "set xs \<subseteq> X"
    and "\<And>k d. (k, d) \<in> set xs \<Longrightarrow> work_ok d \<and> wk_status d \<in> set OWNED_DURABLE_WORK_STATUSES"
  shows "kept cfg K (\<lambda>s. vw (fst s)) X (scan_items sha256 cfg redact W I env link fresh cutoff now i xs)"
  using assms(2,3)
proof (induction xs arbitrary: i)
  case Nil
  then show ?case by (simp add: kept_returns del: prog_simps)
next
  case (Cons a xs)
  obtain k d where a: "a = (k, d)" by fastforce
  with Cons.prems have "(k, d) \<in> X" "work_ok d" "wk_status d \<in> set OWNED_DURABLE_WORK_STATUSES" by auto
  moreover have "kept cfg K (\<lambda>s. vw (fst s)) X (scan_items sha256 cfg redact W I env link fresh cutoff now i xs)" for i
    using Cons by auto
  ultimately show ?case
    unfolding scan_items.simps a fst_conv snd_conv
    by (intro kept_thens scan_item_kept e kept_returns)
qed

end

subsection \<open>The whole scan\<close>

text \<open>A query answers with items of the collection that match.\<close>

locale scanned_queue = work_queue W vw cfg K
  for W :: "('k, work_item, 'w) store_ops" and vw :: "'w \<Rightarrow> 'k \<Rightarrow> work_item option" and cfg :: work_config
    and K :: "'k \<Rightarrow> step_kind set" +
  fixes query :: "(work_item \<Rightarrow> bool) \<Rightarrow> nat \<Rightarrow> 'w \<Rightarrow> ('k \<times> work_item) list"
  assumes query_sound: "(k, d) \<in> set (query p n w) \<Longrightarrow> vw w k = Some d \<and> p d"
begin

lemma kept_thens_query:
  fixes env :: "nat \<Rightarrow> 'w \<times> 'i \<Rightarrow> 'w \<times> 'i"
  assumes e: "queue_env cfg K (\<lambda>s. vw (fst s)) env"
    and f: "\<And>xs. (\<And>k d. (k, d) \<in> set xs \<Longrightarrow> work_ok d \<and> p d) \<Longrightarrow> kept cfg K (\<lambda>s. vw (fst s)) (set xs) (f xs)"
  shows "kept cfg K (\<lambda>s. vw (fst s)) {} (thens (query_work query (env m) p n) f)"
proof -
  have "kept cfg K (\<lambda>s. vw (fst s)) {} (\<lambda>s. f (query p n (fst s)) s)"
  proof (rule keptI)
    fix s :: "'w \<times> 'i" assume s: "queue_ok (\<lambda>s. vw (fst s)) s"
    have x: "work_ok d \<and> p d" if "(k, d) \<in> set (query p n (fst s))" for k d
      using query_sound [OF that] s unfolding queue_ok_def by blast
    have "seen cfg K (\<lambda>s. vw (fst s)) (set (query p n (fst s))) s"
      using query_sound by (fastforce simp: seen_def)
    moreover have "kept cfg K (\<lambda>s. vw (fst s)) (set (query p n (fst s))) (f (query p n (fst s)))" by (rule f) (rule x)
    ultimately show "queue_moves cfg K (\<lambda>s. vw (fst s)) s (snd (f (query p n (fst s)) s))" using s by (intro kept_snd)
  qed
  note kept_env [OF e this, of m]
  moreover have "thens (query_work query (env m) p n) f = (\<lambda>s. let s1 = env m s in f (query p n (fst s1)) s1)"
    by (rule ext) (simp add: thens_def query_work_def Let_def)
  ultimately show ?thesis by simp
qed

lemma scanAbandonedWork_kept:
  assumes e: "queue_env cfg K (\<lambda>s. vw (fst s)) env"
  shows "kept cfg K (\<lambda>s. vw (fst s)) {} (scanAbandonedWork sha256 cfg redact query W I env link fresh grace limit now)"
  unfolding scanAbandonedWork_def
  by (intro kept_thens_checks kept_thens_query scan_items_kept e) (auto simp: abandoned_at_def)

end

text \<open>A collection held as a map, whose items a query finds among given keys.\<close>

definition listed_query ::
  "'k list \<Rightarrow> (work_item \<Rightarrow> bool) \<Rightarrow> nat \<Rightarrow> ('k \<Rightarrow> work_item option) \<Rightarrow> ('k \<times> work_item) list" where
  "listed_query keys p n w =
     take n (map (\<lambda>k. (k, the (w k))) (filter (\<lambda>k. case w k of None \<Rightarrow> False | Some d \<Rightarrow> p d) keys))"

interpretation map_queue: scanned_queue map_store "\<lambda>w. w" cfg K "listed_query keys" for cfg K keys
  by unfold_locales (auto simp: listed_query_def dest!: in_set_takeD split: option.splits)

end
