(* ===== verification/Durable_Service.thy ===== *)
theory Durable_Service
  imports Durable_Queue
begin

text \<open>
  The guarantees of the durable work queue over every run of the service. \<open>queue_call cfg K\<close> is one call of any operation on
  the two collections, held as maps, with any arguments and any interference by steps between its own calls. \<open>K k\<close> are
  the less frequent kinds of step (approved retries, requeues, pauses, reservations) that a run may make of the item \<open>k\<close>.
\<close>

subsection \<open>Calls and runs\<close>

type_synonym ('k, 'q, 'j) queue_state = "('k \<Rightarrow> work_item option) \<times> ('q \<Rightarrow> ('j, 'k) durable_invocation option)"

inductive queue_call :: "work_config \<Rightarrow> ('k \<Rightarrow> step_kind set) \<Rightarrow> ('k, 'q, 'j) queue_state \<Rightarrow> ('k, 'q, 'j) queue_state \<Rightarrow> bool" for cfg K where
  call_enqueue: "queue_env cfg K (\<lambda>w. w) env \<Longrightarrow>
     enqueueWork sha256 cfg map_store env access k input claim token now w = (r, w') \<Longrightarrow> queue_call cfg K (w, i) (w', i)"
| call_claim: "queue_env cfg K (\<lambda>w. w) env \<Longrightarrow>
     claimWorkById sha256 cfg map_store env (\<lambda>d. invocationPermitsClaim k (found d :: ('j, 'k) durable_invocation option) d) k cin token now w = (r, w') \<Longrightarrow>
     queue_call cfg K (w, i) (w', i)"
| call_claim_next: "queue_env cfg K (\<lambda>w. w) env \<Longrightarrow>
     claimNextWork sha256 cfg map_store pick env (\<lambda>k d. invocationPermitsClaim k (found k d :: ('j, 'k) durable_invocation option) d) cin maximum tokens now w = (r, w') \<Longrightarrow>
     queue_call cfg K (w, i) (w', i)"
| call_start: "queue_env cfg K (\<lambda>w. w) env \<Longrightarrow> startWork sha256 map_store env k o' now w = (r, w') \<Longrightarrow> queue_call cfg K (w, i) (w', i)"
| call_heartbeat: "queue_env cfg K (\<lambda>w. w) env \<Longrightarrow> heartbeatWork sha256 cfg map_store env k o' lease now w = (r, w') \<Longrightarrow>
     queue_call cfg K (w, i) (w', i)"
| call_milestone: "queue_env cfg K (\<lambda>w. w) env \<Longrightarrow> recordMilestone sha256 map_store env k o' entry now w = (r, w') \<Longrightarrow>
     queue_call cfg K (w, i) (w', i)"
| call_finalize: "queue_env cfg K (\<lambda>w. w) env \<Longrightarrow> finalizeWork sha256 map_store env n k o' outcome now w = (r, w') \<Longrightarrow>
     queue_call cfg K (w, i) (w', i)"
| call_dead_letter: "queue_env cfg K (\<lambda>w. w) env \<Longrightarrow> deadLetterWork sha256 map_store env k o' reason now w = (r, w') \<Longrightarrow>
     queue_call cfg K (w, i) (w', i)"
| call_cancel: "queue_env cfg K (\<lambda>w. w) env \<Longrightarrow> requestWorkCancellation map_store env k reason now w = (r, w') \<Longrightarrow>
     queue_call cfg K (w, i) (w', i)"
| call_approve: "queue_env cfg K (\<lambda>w. w) env \<Longrightarrow> releaseQueuedWorkForApproval map_store env k now w = (r, w') \<Longrightarrow>
     queue_call cfg K (w, i) (w', i)"
| call_pause_claimed: "Pause_Kind \<in> K k \<Longrightarrow> queue_env cfg K (\<lambda>w. w) env \<Longrightarrow> pauseClaimedWork map_store env k o' code now w = (r, w') \<Longrightarrow>
     queue_call cfg K (w, i) (w', i)"
| call_pause: "Pause_Kind \<in> K k \<Longrightarrow> queue_env cfg K (\<lambda>w. w) env \<Longrightarrow> pauseQueuedWork map_store env k reason now w = (r, w') \<Longrightarrow>
     queue_call cfg K (w, i) (w', i)"
| call_resume: "Pause_Kind \<in> K k \<Longrightarrow> queue_env cfg K (\<lambda>w. w) env \<Longrightarrow> resumeBlockedWork map_store env k now w = (r, w') \<Longrightarrow>
     queue_call cfg K (w, i) (w', i)"
| call_reserve: "Reservation_Kind \<in> K k \<Longrightarrow> queue_env cfg K (\<lambda>w. w) env \<Longrightarrow>
     reserveWorkForReconciliation sha256 cfg map_store env k work owner token now w = (r, w') \<Longrightarrow> queue_call cfg K (w, i) (w', i)"
| call_release: "Reservation_Kind \<in> K k \<Longrightarrow> queue_env cfg K (\<lambda>w. w) env \<Longrightarrow> s \<in> set CLAIMABLE_DURABLE_WORK_STATUSES \<Longrightarrow>
     releaseReconciledWork sha256 map_store env k work o' s now w = (r, w') \<Longrightarrow> queue_call cfg K (w, i) (w', i)"
| call_retry: "Retry_Kind \<in> K k \<Longrightarrow> queue_env cfg K (\<lambda>s. fst s) env \<Longrightarrow>
     scheduleRetry sha256 cfg envc map_store map_store env k q o' ri random preparer token now s = (r, s') \<Longrightarrow> queue_call cfg K s s'"
| call_requeue: "Requeue_Kind \<in> K k \<Longrightarrow> queue_env cfg K (\<lambda>s. fst s) env \<Longrightarrow>
     requeueDeadLetter sha256 cfg map_store map_store env k q version preparer token now s = (r, s') \<Longrightarrow> queue_call cfg K s s'"
| call_scan: "queue_env cfg K (\<lambda>s. fst s) env \<Longrightarrow>
     scanAbandonedWork sha256 cfg redact (listed_query keys) map_store map_store env link fresh grace limit now s = (r, s') \<Longrightarrow>
     queue_call cfg K s s'"

lemma queue_moves_fst: "queue_moves cfg K (\<lambda>w. w) w w' \<Longrightarrow> queue_moves cfg K (\<lambda>s. fst s) (w, i) (w', i')"
  by (simp add: queue_moves_def)

lemma queue_ok_fst: "queue_ok (\<lambda>s. fst s) (w, i) = queue_ok (\<lambda>w. w) w"
  by (simp add: queue_ok_def)

lemmas worker_calls_kept =
  map_queue.enqueueWork_kept map_queue.claimWorkById_kept map_queue.claimNextWork_kept map_queue.startWork_kept
  map_queue.heartbeatWork_kept map_queue.recordMilestone_kept map_queue.finalizeWork_kept map_queue.deadLetterWork_kept
  map_queue.requestWorkCancellation_kept map_queue.releaseQueuedWorkForApproval_kept map_queue.pause_kept
  map_queue.reserveWorkForReconciliation_kept map_queue.releaseReconciledWork_kept

lemma kept_queue_moves:
  "kept cfg K (\<lambda>w. w) {} f \<Longrightarrow> queue_ok (\<lambda>s. fst s) (w, i) \<Longrightarrow> f w = (r, w') \<Longrightarrow> queue_moves cfg K (\<lambda>s. fst s) (w, i) (w', i)"
  by (rule queue_moves_fst, erule kept_moves) (simp_all add: queue_ok_fst)

lemma queue_call_moves:
  assumes "queue_call cfg K s s'" "queue_ok (\<lambda>s. fst s) s"
  shows "queue_moves cfg K (\<lambda>s. fst s) s s'"
  using assms
proof (induction rule: queue_call.induct)
  case (call_claim env sha256 k found cin token now w r w' i)
  then show ?case
    by (intro kept_queue_moves [OF map_queue.claimWorkById_kept]) (auto simp only: invocationPermitsClaim_status)
next
  case (call_claim_next env sha256 pick found cin maximum tokens now w r w' i)
  then show ?case by (intro kept_queue_moves [OF map_queue.claimNextWork_kept]) (auto simp only: invocation_verdicts_hold)
next
  case (call_retry env sha256 envc k q o' ri random preparer token now s r s')
  then show ?case by (intro kept_moves [OF map_queue.scheduleRetry_kept])
next
  case (call_requeue env sha256 k q version preparer token now s r s')
  then show ?case by (intro kept_moves [OF map_queue.requeueDeadLetter_kept])
next
  case (call_scan env sha256 redact keys link fresh grace limit now s r s')
  then show ?case by (intro kept_moves [OF map_queue.scanAbandonedWork_kept])
qed (rule kept_queue_moves, rule worker_calls_kept; assumption)+

text \<open>Runs are sequences of calls.\<close>

abbreviation queue_run :: "work_config \<Rightarrow> ('k \<Rightarrow> step_kind set) \<Rightarrow> ('k, 'q, 'j) queue_state \<Rightarrow> ('k, 'q, 'j) queue_state \<Rightarrow> bool" where
  "queue_run cfg K \<equiv> (queue_call cfg K)\<^sup>*\<^sup>*"

lemma queue_run_moves:
  assumes "queue_run cfg K s s'" "queue_ok (\<lambda>s. fst s) s"
  shows "queue_moves cfg K (\<lambda>s. fst s) s s'"
  using assms
proof (induction rule: rtranclp_induct)
  case base
  show ?case by (rule queue_moves_refl)
next
  case (step s1 s2)
  then have m: "queue_moves cfg K (\<lambda>s. fst s) s s1" by simp
  show ?case
    by (rule queue_moves_trans [OF m], rule queue_call_moves [OF step.hyps(2)], rule queue_moves_ok [OF m step.prems])
qed

lemma queue_run_steps:
  assumes "queue_run cfg K s s'" "queue_ok (\<lambda>s. fst s) s" "fst s k = Some d"
  obtains d' where "fst s' k = Some d'" "(work_step cfg (K k))\<^sup>*\<^sup>* d d'"
  using queue_moves_steps [OF queue_run_moves [OF assms(1,2)], of k d] assms(3) by blast

lemma service_run_ok: "queue_run cfg K s s' \<Longrightarrow> queue_ok (\<lambda>s. fst s) s \<Longrightarrow> queue_ok (\<lambda>s. fst s) s'"
  using queue_moves_ok [OF queue_run_moves] .

subsection \<open>Successful claims\<close>

context work_queue
begin

lemma claimWorkById_success:
  assumes e: "queue_env cfg K vw env" and ok: "queue_ok vw w"
    and permits: "\<And>d. cd_work_status (permits d) \<in> {None, Some W_Completed, Some W_Cancelled, Some W_Failed}"
    and c: "claimWorkById sha256 cfg' W env permits k input token now w = (Inr (Some (d1, o')), w')"
  obtains d0 d' where "vw (env 0 w) k = Some d0" "claimable_at now d0" "ow_epoch o' = Some (wk_lease_epoch d0 + 1)"
    "vw w' k = Some d'" "wk_lease_epoch d0 + 1 \<le> wk_lease_epoch d'"
proof -
  from c obtain owner hash lease_ms d w1 where
      u: "st_find_one_and_update W k (claimable_at now) (work_claim_set owner hash now lease_ms) (env 0 w) = (Some d, w1)"
    and f: "confirm_claim W env permits k owner hash now 1 d w1 = (Inr (Some d1), w')"
    and o: "o' = claim_ownership owner token d"
    by (auto simp: claimWorkById_def split: sum.splits prod.splits option.splits)
  note m0 = queue_envD [OF e, of w 0]
  from u obtain d0 where d0: "vw (env 0 w) k = Some d0" "claimable_at now d0" "d = work_claim_set owner hash now lease_ms d0"
      "vw w1 = (vw (env 0 w))(k \<mapsto> d)"
    by (auto elim: update_Some)
  have m1: "queue_moves cfg K vw (env 0 w) w1"
    by (rule update_moves [OF u queue_moves_ok [OF m0 ok]], rule work_step.claim)
  have ok1: "queue_ok vw w1" by (rule queue_moves_ok [OF m1 queue_moves_ok [OF m0 ok]])
  have m2: "queue_moves cfg K vw w1 w'" using kept_moves [OF confirm_claim_kept [OF e permits] ok1 f] .
  have "vw w1 k = Some d" using d0(4) by simp
  then obtain d' where d': "vw w' k = Some d'" "(work_step cfg (K k))\<^sup>*\<^sup>* d d'" using queue_moves_steps [OF m2] by blast
  have "wk_lease_epoch d = wk_lease_epoch d0 + 1" using d0(3) by (simp add: work_claim_set_def bump_def)
  with that d0(1,2) o d' work_steps_counters [OF d'(2)] show thesis by (simp add: claim_ownership_def)
qed

lemma claim_refused:
  assumes "queue_env cfg K vw env" "queue_ok vw w"
    and "\<And>d. cd_work_status (permits d) \<in> {None, Some W_Completed, Some W_Cancelled, Some W_Failed}"
    and "vw w k = Some d" "\<And>d'. (work_step cfg (K k))\<^sup>*\<^sup>* d d' \<Longrightarrow> \<not> claimable_at now d'"
  shows "fst (claimWorkById sha256 cfg' W env permits k input token now w) \<noteq> Inr (Some c)"
proof
  assume "fst (claimWorkById sha256 cfg' W env permits k input token now w) = Inr (Some c)"
  then obtain d1 o' w' where "claimWorkById sha256 cfg' W env permits k input token now w = (Inr (Some (d1, o')), w')"
    by (cases c; cases "claimWorkById sha256 cfg' W env permits k input token now w") auto
  then obtain d0 where "vw (env 0 w) k = Some d0" "claimable_at now d0"
    by (rule claimWorkById_success [OF assms(1-3)])
  moreover obtain d' where "vw (env 0 w) k = Some d'" "(work_step cfg (K k))\<^sup>*\<^sup>* d d'"
    using queue_moves_steps [OF queue_envD [OF assms(1)] assms(4)] by blast
  ultimately show False using assms(5) by simp
qed

lemma claim_next_refused:
  assumes e: "queue_env cfg K vw env" and permits: "invocation_verdicts permits"
  shows "queue_ok vw w \<Longrightarrow> vw w k = Some d \<Longrightarrow> (\<And>d'. (work_step cfg (K k))\<^sup>*\<^sup>* d d' \<Longrightarrow> \<not> claimable_at now d') \<Longrightarrow>
    fst (claim_next sha256 W pick env permits owner tokens lease_ms now n i w) \<noteq> Inr (Some (k, c))"
proof (induction n arbitrary: i w d)
  case (Suc n)
  let ?w0 = "env i w"
  have v: "cd_work_status (permits k' x) \<in> {None, Some W_Completed, Some W_Cancelled, Some W_Failed}" for k' x
    using permits unfolding invocation_verdicts_def by blast
  note m0 = queue_envD [OF e, of w i]
  note ok0 = queue_moves_ok [OF m0 Suc.prems(1)]
  from queue_moves_steps [OF m0 Suc.prems(2)] obtain d0 where d0: "vw ?w0 k = Some d0" "(work_step cfg (K k))\<^sup>*\<^sup>* d d0" by blast
  have later: "fst (claim_next sha256 W pick env permits owner tokens lease_ms now n j w2) \<noteq> Inr (Some (k, c))"
    if "st_find_one_and_update W k' (claimable_at now) (work_claim_set owner hash now lease_ms) ?w0 = (Some x, w1)"
      "confirm_claim W env (permits k') k' owner hash now (i + 1) x w1 = (Inr None, w2)" for k' hash x w1 w2 j
  proof -
    have m1: "queue_moves cfg K vw ?w0 w1" by (rule update_moves [OF that(1) ok0], rule work_step.claim)
    have m2: "queue_moves cfg K vw w1 w2"
      by (rule kept_moves [OF confirm_claim_kept [OF e v] queue_moves_ok [OF m1 ok0] that(2)])
    note m = queue_moves_trans [OF m1 m2]
    from queue_moves_steps [OF m d0(1)] obtain d2 where d2: "vw w2 k = Some d2" "(work_step cfg (K k))\<^sup>*\<^sup>* d0 d2" by blast
    show ?thesis
    proof (rule Suc.IH [OF queue_moves_ok [OF m ok0] d2(1)])
      fix d' assume "(work_step cfg (K k))\<^sup>*\<^sup>* d2 d'"
      then show "\<not> claimable_at now d'" using Suc.prems(3) d0(2) d2(2) by (meson rtranclp_trans)
    qed
  qed
  have other: "k' \<noteq> k"
    if "st_find_one_and_update W k' (claimable_at now) (work_claim_set owner hash now lease_ms) ?w0 = (Some x, w1)" for k' hash x w1
    using that d0 Suc.prems(3) by (auto elim!: update_Some)
  show ?case
    by (auto simp: Let_def dest: other later split: sum.split option.split prod.split)
qed simp

lemma claimNextWork_refused:
  assumes "queue_env cfg K vw env" "invocation_verdicts permits" "queue_ok vw w" "vw w k = Some d"
    and "\<And>d'. (work_step cfg (K k))\<^sup>*\<^sup>* d d' \<Longrightarrow> \<not> claimable_at now d'"
  shows "fst (claimNextWork sha256 cfg' W pick env permits input maximum tokens now w) \<noteq> Inr (Some (k, c))"
  using claim_next_refused [OF assms(1-4), of now] assms(5)
  by (auto simp: claimNextWork_def split: sum.split)

text \<open>An owner of an earlier epoch finds nothing to update.\<close>

lemma stale_update:
  assumes "queue_env cfg K vw env" "vw w k = Some d" "e < wk_lease_epoch d" "\<And>d. p d \<Longrightarrow> wk_lease_epoch d = e"
  shows "st_find_one_and_update W k p u (env n w) = (None, env n w)" "st_find_one W k p (env n w) = None"
proof -
  obtain d' where d': "vw (env n w) k = Some d'" "(work_step cfg (K k))\<^sup>*\<^sup>* d d'"
    using queue_moves_steps [OF queue_envD [OF assms(1)] assms(2)] by blast
  then have "\<not> p d'" using assms(3,4) work_steps_counters [OF d'(2)] by fastforce
  with d'(1) show "st_find_one_and_update W k p u (env n w) = (None, env n w)" "st_find_one W k p (env n w) = None"
    by (auto intro: update_miss simp: find_one_hit)
qed

lemma ownership_epoch: "ownershipFilter sha256 o' now statuses = Inr owned \<Longrightarrow> ow_epoch o' = Some e \<Longrightarrow> owned d \<Longrightarrow> wk_lease_epoch d = e"
  by (auto simp: ownershipFilter_def bindE_Inr_iff owned_by_def)

end

subsection \<open>Prepared work is permitted\<close>

text \<open>What a successful preparation has read and written.\<close>

lemma prepare_written:
  assumes "prepareInvocationForSafeReplay map_store env n k q work rq s = (Inr (Replay_Allowed nxt), (w', i'))"
  obtains u es d where "snd (env n s) q = Some u" "replay_decision k work rq (Some u) = Replay_Allowed nxt"
    "history_entries (replay_options work rq u) (inv_lifecycle_state u) (replay_path (inv_lifecycle_state u)) = Inr es"
    "snd (env (n + 1) (env n s)) q = Some d" "replay_matches k work rq u d"
    "i' = (snd (env (n + 1) (env n s)))(q \<mapsto> replay_set k rq (inv_lifecycle_state u) es d)"
proof -
  have f: "find_invocation map_store (env n) q (\<lambda>_. True) s = (Inr (snd (env n s) q), env n s)"
    by (simp add: find_invocation_def map_store_defs Let_def split: option.split)
  obtain u where u: "snd (env n s) q = Some u"
    using assms f by (cases "snd (env n s) q") (auto simp: prepareInvocationForSafeReplay_def replay_decision_def)
  have a: "replay_decision k work rq (Some u) = Replay_Allowed nxt"
    using assms f u
    by (cases "replay_decision k work rq (Some u)") (auto simp: prepareInvocationForSafeReplay_def thens_Inr_iff split: if_splits)
  obtain es r1 where es: "history_entries (replay_options work rq u) (inv_lifecycle_state u) (replay_path (inv_lifecycle_state u)) = Inr es"
    and w: "update_invocation map_store (env (n + 1)) q (replay_matches k work rq u)
        (replay_set k rq (inv_lifecycle_state u) es) (env n s) = (Inr r1, (w', i'))" "r1 \<noteq> None"
    using assms f u a by (auto simp: prepareInvocationForSafeReplay_def thens_Inr_iff split: if_splits)
  from w obtain d where "snd (env (n + 1) (env n s)) q = Some d" "replay_matches k work rq u d"
      "i' = (snd (env (n + 1) (env n s)))(q \<mapsto> replay_set k rq (inv_lifecycle_state u) es d)"
    by (auto simp: update_invocation_def map_store_defs Let_def split: if_splits option.splits prod.splits)
  with u a es that show thesis by blast
qed

text \<open>Without interference, an invocation that was prepared for a replay permits the claim of the prepared attempt.\<close>

lemma prepare_permits:
  assumes p: "prepareInvocationForSafeReplay map_store no_interference n k q work rq (w, i) = (Inr (Replay_Allowed nxt), (w', i'))"
    and r: "wk_attempt d = nat nxt" "wk_execution_generation d = wk_execution_generation work"
    and parent: "\<And>v. i q = Some v \<Longrightarrow> wk_recovery_retry d \<Longrightarrow> dv_recovery_parent v"
  shows "w' = w \<and> invocationPermitsClaim k (i' q) d = claim_allowed"
proof -
  have f: "find_invocation map_store (no_interference n) q (\<lambda>_. True) (w, i) = (Inr (i q), (w, i))"
    by (simp add: find_invocation_def map_store_defs split: option.split)
  obtain v where v: "i q = Some v"
    using p f by (cases "i q") (auto simp: prepareInvocationForSafeReplay_def replay_decision_def)
  have a: "replay_decision k work rq (Some v) = Replay_Allowed nxt"
    using p f v
    by (cases "replay_decision k work rq (Some v)")
      (auto simp: prepareInvocationForSafeReplay_def thens_Inr_iff split: if_splits)
  obtain es r1 s1 where u: "update_invocation map_store (no_interference (n + 1)) q (replay_matches k work rq v)
        (replay_set k rq (inv_lifecycle_state v) es) (w, i) = (Inr r1, s1)"
      and r1: "r1 \<noteq> None" and s1: "s1 = (w', i')"
    using p f v a by (auto simp: prepareInvocationForSafeReplay_def thens_Inr_iff split: if_splits)
  then have m: "replay_matches k work rq v v" and i': "w' = w" "i' q = Some (replay_set k rq (inv_lifecycle_state v) es v)"
    using v by (auto simp: update_invocation_def map_store_defs Let_def split: if_splits)
  have n: "nxt = attempt_count v + 1" "1 \<le> nxt"
    using a by (auto simp: replay_decision_def split: if_splits)
  have "inv_attempt_count v = Some (attempt_count v)" using m by (simp add: replay_matches_def)
  then have "attempt_count (replay_set k rq (inv_lifecycle_state v) es v) = attempt_count v"
    by (simp add: attempt_count_def replay_set_def)
  with m n r parent [OF v] i' show ?thesis
    by (auto simp: invocationPermitsClaim_def replay_matches_def replay_set_def INVOCATION_TERMINAL_STATES_def generation_of_def)
qed

lemma find_work_quiet: "find_work map_store (no_interference n) k p (w, i) = (Inr (map_find_one k p w), (w, i))"
  by (simp add: find_work_def map_store_def)

lemma find_invocation_quiet: "find_invocation map_store (no_interference n) q p (w, i) = (Inr (map_find_one q p i), (w, i))"
  by (simp add: find_invocation_def map_store_def)

lemma update_work_quiet:
  "update_work map_store (no_interference n) k p u (w, i) = (Inr r, s) \<Longrightarrow> w k = Some c \<Longrightarrow>
   r = (if p c then Some (u c) else None) \<and> s = ((if p c then w(k \<mapsto> u c) else w), i)"
  by (auto simp: update_work_def map_store_defs Let_def split: if_splits)

lemma finish_ready:
  assumes f: "finish_preparation map_store map_store no_interference n k q owner hash rq nxt ready refused p (w, i) = (Inr d, (w', i'))"
    and w: "w k = Some p" and r: "wk_attempt p = nat nxt"
    and parent: "\<And>v. i q = Some v \<Longrightarrow> wk_recovery_retry p \<Longrightarrow> dv_recovery_parent v"
  shows "d = release_set ready p \<and> w' = w(k \<mapsto> d) \<and> invocationPermitsClaim k (i' q) d = claim_allowed"
proof -
  from f obtain w1 i1 where
      p: "prepareInvocationForSafeReplay map_store no_interference n k q p rq (w, i) = (Inr (Replay_Allowed nxt), (w1, i1))"
    and u: "thens (update_work map_store (no_interference (n + 2)) k (replayPreparationFilter p owner hash (rq_now rq)) (release_set ready)) (\<lambda>item.
       case item of None \<Rightarrow> throws finalization_conflict | Some d \<Rightarrow> returns d) (w1, i1) = (Inr d, (w', i'))"
    by (auto simp: finish_preparation_def thens_Inr_iff split: if_splits)
  have permits: "w1 = w \<and> invocationPermitsClaim k (i1 q) (release_set ready p) = claim_allowed"
    by (rule prepare_permits [OF p])
      (use r parent in \<open>auto simp: release_set_def bump_def leaseUnset_def\<close>)
  from u obtain r1 s1 where u1: "update_work map_store (no_interference (n + 2)) k
        (replayPreparationFilter p owner hash (rq_now rq)) (release_set ready) (w1, i1) = (Inr r1, s1)"
    and r1: "r1 = Some d" "s1 = (w', i')"
    by (auto simp: thens_Inr_iff split: option.splits)
  from update_work_quiet [OF u1, of p] permits w r1 show ?thesis by (auto split: if_splits)
qed

lemma begin_ready:
  assumes b: "begin_preparation sha256 map_store map_store no_interference n k q preparer token rq nxt p enter ready lost refused (w, i)
      = (Inr d, (w', i'))"
    and w: "w k = Some c" and r: "\<And>hash. wk_attempt (enter hash c) = nat nxt"
    and parent: "\<And>v hash. i q = Some v \<Longrightarrow> wk_recovery_retry (enter hash c) \<Longrightarrow> dv_recovery_parent v"
  shows "\<exists>hash. p c \<and> d = release_set ready (enter hash c) \<and> w' k = Some d \<and> invocationPermitsClaim k (i' q) d = claim_allowed"
proof -
  from b obtain hash r1 s1 where u: "update_work map_store (no_interference n) k p (enter hash) (w, i) = (Inr r1, s1)"
    and f: "(case r1 of None \<Rightarrow> throws lost
       | Some d \<Rightarrow> finish_preparation map_store map_store no_interference (n + 1) k q preparer hash rq nxt ready refused d) s1 = (Inr d, (w', i'))"
    by (auto simp: begin_preparation_def thens_Inr_iff simp del: One_nat_def)
  from update_work_quiet [OF u w] f have c: "p c" "r1 = Some (enter hash c)" "s1 = (w(k \<mapsto> enter hash c), i)"
    by (auto split: if_splits)
  with f have "finish_preparation map_store map_store no_interference (n + 1) k q preparer hash rq nxt ready refused (enter hash c)
      (w(k \<mapsto> enter hash c), i) = (Inr d, (w', i'))" by simp
  from finish_ready [OF this _ r parent [of _ hash]] c(1) show ?thesis by auto
qed

subsection \<open>A concrete queue\<close>

definition demo_config :: work_config where
  "demo_config =
     \<lparr>wc_lease_ms = 1000, wc_heartbeat_ms = 100, wc_max_attempts = 2, wc_dead_letter_after = 3, wc_batch_size = 5, wc_grace_ms = 10\<rparr>"

definition demo_token :: string where
  "demo_token = replicate 40 (CHR ''a'')"

definition demo_input :: enqueue_input where
  "demo_input =
     \<lparr>eq_work_type = None, eq_safe_operation = None, eq_status = None, eq_execution_generation = None,
      eq_maximum_attempts = None, eq_retry_reason = None, eq_recovery_reason = None, eq_attempt = None, eq_trace_id = None,
      eq_priority = None, eq_available_at = None, eq_retry_count = None\<rparr>"

definition demo_invocation :: "(unit, nat) durable_invocation" where
  "demo_invocation = invocation.extend sample_invocation (durable_invocation.fields True 1 (Some 0) False None)"

definition demo_found :: "work_item \<Rightarrow> (unit, nat) durable_invocation option" where
  "demo_found d = Some demo_invocation"

definition demo_claim :: claim_input where
  "demo_claim = \<lparr>ci_owner = Some ''worker-1'', ci_lease_ms = None\<rparr>"

definition demo_enqueue ::
  "int \<Rightarrow> (nat \<Rightarrow> work_item option) \<Rightarrow> (bool \<times> work_item \<times> ownership option) res \<times> (nat \<Rightarrow> work_item option)" where
  "demo_enqueue t w = enqueueWork id demo_config map_store no_interference (Inr ()) 0 demo_input None demo_token t w"

definition demo_take :: "int \<Rightarrow> (nat \<Rightarrow> work_item option) \<Rightarrow> (work_item \<times> ownership) option res \<times> (nat \<Rightarrow> work_item option)" where
  "demo_take t w =
     claimWorkById id demo_config map_store no_interference (\<lambda>d. invocationPermitsClaim 0 (demo_found d) d) 0 demo_claim demo_token t w"

definition demo_item :: "work_status \<Rightarrow> work_item" where
  "demo_item s = new_work_item s 0 0 1 2"

definition demo_running :: work_item where
  "demo_running =
     (initial_claim_set ''worker-1'' (''sha256:'' @ demo_token) 100 1000 (demo_item W_Pending))
       \<lparr>wk_status := W_Running, wk_started_at := Some 110\<rparr>"

definition demo_sent :: work_item where
  "demo_sent = push_milestone M_Outbound_Transmission_Started 120 1 ''completed'' demo_running"

definition demo_ownership :: ownership where
  "demo_ownership = \<lparr>ow_owner = Some ''worker-1'', ow_token = Some demo_token, ow_epoch = Some 1\<rparr>"

definition demo_empty :: "nat \<Rightarrow> work_item option" where
  "demo_empty k = None"

definition demo_invocations :: "nat \<Rightarrow> (unit, nat) durable_invocation option" where
  "demo_invocations q = Some (demo_invocation\<lparr>inv_lifecycle_state := Running, inv_attempt_count := Some 1\<rparr>)"

definition demo_work :: "work_item \<Rightarrow> nat \<Rightarrow> work_item option" where
  "demo_work d k = (if k = 0 then Some d else None)"

lemma demo_enqueue_call: "queue_call demo_config K (w, i :: nat \<Rightarrow> (unit, nat) durable_invocation option) (snd (demo_enqueue t w), i)"
  unfolding demo_enqueue_def by (rule call_enqueue [OF queue_env_no_interference surjective_pairing])

lemma demo_take_call: "queue_call demo_config K (w, i :: nat \<Rightarrow> (unit, nat) durable_invocation option) (snd (demo_take t w), i)"
  unfolding demo_take_def by (rule call_claim [OF queue_env_no_interference surjective_pairing])

text \<open>An item is enqueued and claimed.\<close>

lemma demo_run:
  "queue_run demo_config K (demo_empty, demo_invocations) (snd (demo_take 6 (snd (demo_enqueue 5 demo_empty))), demo_invocations)"
  using demo_enqueue_call [of K demo_empty demo_invocations 5] demo_take_call [of K "snd (demo_enqueue 5 demo_empty)" demo_invocations 6]
  by (meson converse_rtranclp_into_rtranclp r_into_rtranclp)

definition claimed :: "(work_item \<times> ownership) option res \<Rightarrow> bool" where
  "claimed r = (case r of Inl _ \<Rightarrow> False | Inr x \<Rightarrow> x \<noteq> None)"

definition claim_of :: "(work_item \<times> ownership) option res \<Rightarrow> work_item \<times> ownership" where
  "claim_of r = the (projr r)"

lemma claimed_result: "claimed (fst x) \<Longrightarrow> x = (Inr (Some (fst (claim_of (fst x)), snd (claim_of (fst x)))), snd x)"
  by (cases x) (auto simp: claimed_def claim_of_def split: sum.splits)

lemma demo_taken: "claimed (fst (demo_take 6 (snd (demo_enqueue 5 demo_empty))))"
  by code_simp

lemma demo_work_ok: "work_ok d \<Longrightarrow> queue_ok (\<lambda>w. w) (demo_work d)"
  by (simp add: queue_ok_def demo_work_def)

lemma demo_items_ok: "work_ok demo_running" "work_ok demo_sent" "work_ok (demo_item W_Pending)"
  by code_simp+

end
