(* ===== verification/Durable_Guarantees.thy ===== *)
theory Durable_Guarantees
  imports Durable_Service
begin

text \<open>
  The properties of the durable work queue, each with a run of the concrete queue of \<open>Durable_Service\<close> on which it applies.
\<close>

subsection \<open>Well-formed items\<close>

text \<open>C4: every call of the service, with any interference, leaves the items of the queue well formed: an item has a lease
  exactly while it is owned, its attempts and requeues are within their limits, a finished item says when it ended, and
  only an item that is being cancelled or has ended carries a request for cancellation.\<close>

theorem service_keeps_work_ok: "queue_run cfg K s s' \<Longrightarrow> queue_ok (\<lambda>s. fst s) s \<Longrightarrow> queue_ok (\<lambda>s. fst s) s'"
  by (rule service_run_ok)

theorem service_keeps_work_ok_witness:
  "queue_ok (\<lambda>s. fst s) (snd (demo_take 6 (snd (demo_enqueue 5 demo_empty))), demo_invocations)
   \<and> claimed (fst (demo_take 6 (snd (demo_enqueue 5 demo_empty))))"
  using service_keeps_work_ok [OF demo_run [of "\<lambda>_. {}"]] demo_taken by (simp add: queue_ok_def demo_empty_def)

subsection \<open>Fencing\<close>

text \<open>An operation fails, and the collection is as the others left it.\<close>

definition refused_by :: "(nat \<Rightarrow> 'w \<Rightarrow> 'w) \<Rightarrow> 'w \<Rightarrow> 'a res \<times> 'w \<Rightarrow> bool" where
  "refused_by env w r \<longleftrightarrow> (\<exists>e. fst r = Inl e) \<and> snd r \<in> {w, env 0 w, env 1 (env 0 w)}"

text \<open>A release answers with no item instead.\<close>

definition released_nothing :: "(nat \<Rightarrow> 'w \<Rightarrow> 'w) \<Rightarrow> 'w \<Rightarrow> work_item option res \<times> 'w \<Rightarrow> bool" where
  "released_nothing env w r \<longleftrightarrow> refused_by env w r \<or> r = (Inr None, env 0 w)"

context work_queue
begin

lemma stale_operations:
  assumes env: "queue_env cfg K vw env" and d: "vw w k = Some d" "ow_epoch o' = Some e" "e < wk_lease_epoch d"
  shows "refused_by env w (startWork sha256 W env k o' t w)"
    and "refused_by env w (heartbeatWork sha256 cfg' W env k o' lease t w)"
    and "refused_by env w (recordMilestone sha256 W env k o' entry t w)"
    and "refused_by env w (finalizeWork sha256 W env 0 k o' outcome t w)"
    and "refused_by env w (deadLetterWork sha256 W env k o' reason t w)"
    and "released_nothing env w (releaseReconciledWork sha256 W env k work o' st t w)"
proof -
  obtain d0 where d0: "vw (env 0 w) k = Some d0" "(work_step cfg (K k))\<^sup>*\<^sup>* d d0"
    using queue_moves_steps [OF queue_envD [OF env] d(1)] by blast
  then have e0: "e < wk_lease_epoch d0" using d(3) work_steps_counters [OF d0(2)] by simp
  have none: "st_find_one_and_update W k p u (env 0 w) = (None, env 0 w)" "st_find_one W k p (env 0 w) = None"
      "st_find_one W k p (env (Suc 0) (env 0 w)) = None" if "\<And>x. p x \<Longrightarrow> wk_lease_epoch x = e" for p u
    using stale_update [OF env d(1,3) that] stale_update [OF env d0(1) e0 that] by simp_all
  note epoch = ownership_epoch [OF _ d(2)]
  show "refused_by env w (startWork sha256 W env k o' t w)"
  proof (cases "ownershipFilter sha256 o' t [W_Claimed]")
    case (Inr owned)
    have "wk_lease_epoch x = e" if "owned x \<and> wk_cancellation_requested_at x = None" for x
      using that epoch [OF Inr] by simp
    with Inr show ?thesis by (simp add: refused_by_def startWork_def none)
  qed (simp add: refused_by_def startWork_def)
  show "refused_by env w (heartbeatWork sha256 cfg' W env k o' lease t w)"
    by (cases "Durable_Work.lease_duration cfg' lease"; cases "ownershipFilter sha256 o' t OWNED_DURABLE_WORK_STATUSES")
      (auto simp: refused_by_def heartbeatWork_def none epoch)
  show "refused_by env w (recordMilestone sha256 W env k o' entry t w)"
  proof (cases "milestone_arguments sha256 o' entry t")
    case (Inr a)
    obtain m status attempt owned where a: "a = (m, status, attempt, owned)" by (cases a)
    with Inr have o: "ownershipFilter sha256 o' t OWNED_DURABLE_WORK_STATUSES = Inr owned"
      by (auto simp: milestone_arguments_def bindE_Inr_iff split: option.splits)
    have "wk_lease_epoch x = e" if "milestone_matches owned m attempt x" for x
      using that epoch [OF o] by (simp add: milestone_matches_def)
    moreover have "wk_lease_epoch x = e" if "owned x \<and> wk_attempt x = attempt \<and> has_milestone m attempt x" for x
      using that epoch [OF o] by simp
    ultimately show ?thesis using Inr a by (simp add: refused_by_def recordMilestone_def none)
  qed (simp add: refused_by_def recordMilestone_def)
  show "refused_by env w (finalizeWork sha256 W env 0 k o' outcome t w)"
  proof (cases "bindE (final_validated outcome) (\<lambda>a.
      bindE (ownershipFilter sha256 o' t (final_statuses (fa_status a))) (\<lambda>owned. Inr (a, owned)))")
    case (Inr ao)
    obtain a owned where ao: "ao = (a, owned)" by fastforce
    with Inr have o: "ownershipFilter sha256 o' t (final_statuses (fa_status a)) = Inr owned" by (auto simp: bindE_Inr_iff)
    have "wk_lease_epoch x = e" if "final_matches (fa_status a) owned x" for x
      using that epoch [OF o] by (simp add: final_matches_def)
    then show ?thesis using Inr ao by (simp add: refused_by_def finalizeWork_def none)
  qed (simp add: refused_by_def finalizeWork_def)
  show "refused_by env w (deadLetterWork sha256 W env k o' reason t w)"
    by (cases "ownershipFilter sha256 o' t OWNED_DURABLE_WORK_STATUSES") (auto simp: refused_by_def deadLetterWork_def none epoch)
  show "released_nothing env w (releaseReconciledWork sha256 W env k work o' st t w)"
  proof (cases "ownershipFilter sha256 o' t [W_Claimed]")
    case (Inr owned)
    have "wk_lease_epoch x = e" if "owned x \<and> wk_version x = wk_version work" for x using that epoch [OF Inr] by simp
    with Inr show ?thesis by (simp add: released_nothing_def releaseReconciledWork_def none)
  qed (simp add: released_nothing_def refused_by_def releaseReconciledWork_def)
qed

lemma stale_retry:
  fixes env :: "nat \<Rightarrow> 'w \<times> 'i \<Rightarrow> 'w \<times> 'i"
  assumes env: "queue_env cfg K (\<lambda>s. vw (fst s)) env" and d: "vw w k = Some d" "ow_epoch o' = Some e" "e < wk_lease_epoch d"
  shows "refused_by env (w, i) (scheduleRetry sha256 cfg' envc W I env k q o' ri random preparer token t (w, i))"
proof (cases "ownershipFilter sha256 o' t [W_Claimed, W_Running]")
  case (Inr owned)
  obtain d' where d': "vw (fst (env 0 (w, i))) k = Some d'" "(work_step cfg (K k))\<^sup>*\<^sup>* d d'"
    using queue_moves_steps [OF queue_envD [OF env], of "(w, i)" k d] d(1) by auto
  have "\<not> owned d'" using ownership_epoch [OF Inr d(2), of d'] d(3) work_steps_counters [OF d'(2)] by auto
  with Inr d'(1) show ?thesis
    by (simp add: refused_by_def scheduleRetry_def thens_def checks_def find_work_def throws_def Let_def find_one_hit)
qed (simp add: refused_by_def scheduleRetry_def thens_def checks_def)

end


text \<open>The worker is paused, the item is resumed and claimed by another.\<close>

definition demo_paused :: "nat \<Rightarrow> work_item option" where
  "demo_paused =
     snd (resumeBlockedWork map_store no_interference 0 20
       (snd (pauseClaimedWork map_store no_interference 0 demo_ownership ''ORGANIZATION_SUSPENDED'' 10
         (snd (demo_take 6 (demo_work (demo_item W_Pending)))))))"

lemma demo_pause_run:
  "queue_run demo_config (\<lambda>_. {Pause_Kind}) (snd (demo_take 6 (demo_work (demo_item W_Pending))), demo_invocations) (demo_paused, demo_invocations)"
  unfolding demo_paused_def
  by (rule converse_rtranclp_into_rtranclp, rule call_pause_claimed [OF _ queue_env_no_interference surjective_pairing], simp,
      rule r_into_rtranclp, rule call_resume [OF _ queue_env_no_interference surjective_pairing], simp)

lemma demo_claimed_twice:
  "claimed (fst (demo_take 6 (demo_work (demo_item W_Pending))))" "claimed (fst (demo_take 30 demo_paused))"
  by code_simp+


subsection \<open>Work that is not executed again\<close>

lemma never_claimed:
  assumes "queue_env cfg K (\<lambda>w. w) env" "queue_ok (\<lambda>w. w) w" "w k = Some d"
    and "\<And>e. (work_step cfg (K k))\<^sup>*\<^sup>* d e \<Longrightarrow> \<not> claimable_at t e"
  shows "fst (claimWorkById sha256 cfg map_store env (\<lambda>d. invocationPermitsClaim k (found d) d) k cin token t w) \<noteq> Inr (Some c)
    \<and> fst (claimNextWork sha256 cfg map_store pick env (\<lambda>k d. invocationPermitsClaim k (found' k d) d) cin maximum tokens t w) \<noteq> Inr (Some (k, c))"
proof (rule conjI)
  show "fst (claimWorkById sha256 cfg map_store env (\<lambda>d. invocationPermitsClaim k (found d) d) k cin token t w) \<noteq> Inr (Some c)"
    by (rule map_queue.claim_refused [where d = d, OF assms(1,2) invocationPermitsClaim_status assms(3)]) (rule assms(4))
  show "fst (claimNextWork sha256 cfg map_store pick env (\<lambda>k d. invocationPermitsClaim k (found' k d) d) cin maximum tokens t w) \<noteq> Inr (Some (k, c))"
    by (rule map_queue.claimNextWork_refused [where d = d, OF assms(1) invocation_verdicts_hold assms(2,3)]) (rule assms(4))
qed

text \<open>C3: a running item that has sent its request is claimed by no worker again, neither by its id nor as the next item,
  in any run in which no retry of this item is approved. Anything may be done to the other items, and the item itself may be
  paused, scanned, cancelled, reserved or requeued.\<close>

theorem transmitted_work_is_not_claimed:
  assumes "Retry_Kind \<notin> K k" "queue_ok (\<lambda>w. w) w" "w k = Some d" "wk_status d = W_Running"
    and "has_milestone M_Outbound_Transmission_Started (wk_attempt d) d"
    and "queue_run cfg K (w, i) (w', i')" "queue_env cfg K (\<lambda>w. w) env"
  shows "fst (claimWorkById sha256 cfg map_store env (\<lambda>d. invocationPermitsClaim k (found d) d) k cin token now w') \<noteq> Inr (Some c)
    \<and> fst (claimNextWork sha256 cfg map_store pick env (\<lambda>k d. invocationPermitsClaim k (found' k d) d) cin maximum tokens now w') \<noteq> Inr (Some (k, c))"
proof -
  have "transmitted d" using assms(4,5)
    by (auto simp: transmitted_def replayable_iff has_milestone_def list_ex_iff POST_TRANSMISSION_MILESTONES_def)
  moreover obtain d' where d': "w' k = Some d'" "(work_step cfg (K k))\<^sup>*\<^sup>* d d'"
    using queue_run_steps [OF assms(6), of k d] assms(2,3) by (auto simp: queue_ok_fst)
  ultimately have "transmitted d'" using work_steps_transmitted assms(1) by blast
  then have "\<not> claimable_at now e" if "(work_step cfg (K k))\<^sup>*\<^sup>* d' e" for e
    using work_steps_transmitted [OF that assms(1)] transmitted_not_claimable by blast
  moreover have "queue_ok (\<lambda>w. w) w'" using service_run_ok [OF assms(6)] assms(2) by (simp add: queue_ok_fst)
  ultimately show ?thesis by (intro never_claimed [of cfg K env w' k d', OF assms(7) _ d'(1)])
qed

theorem transmitted_work_is_not_claimed_witness:
  "\<not> claimed (fst (demo_take 9000 (fst (snd (scanAbandonedWork id demo_config id (listed_query [0]) map_store map_store no_interference
     (\<lambda>_. 0) (\<lambda>_. (''scan-1'', demo_token)) None None 9000 (demo_work demo_sent, demo_invocations))))))"
proof -
  let ?s = "snd (scanAbandonedWork id demo_config id (listed_query [0]) map_store map_store no_interference
     (\<lambda>_. 0) (\<lambda>_. (''scan-1'', demo_token)) None None 9000 (demo_work demo_sent, demo_invocations))"
  have run: "queue_run demo_config (\<lambda>_. {}) (demo_work demo_sent, demo_invocations) (fst ?s, snd ?s)"
    using call_scan [OF queue_env_no_interference surjective_pairing] by (intro r_into_rtranclp) simp
  have sent: "wk_status demo_sent = W_Running" "has_milestone M_Outbound_Transmission_Started (wk_attempt demo_sent) demo_sent"
    by code_simp+
  have "fst (demo_take 9000 (fst ?s)) \<noteq> Inr (Some c)" for c
    unfolding demo_take_def
    by (rule transmitted_work_is_not_claimed [THEN conjunct1, OF _ demo_work_ok [OF demo_items_ok(2)] _ sent run queue_env_no_interference])
      (simp_all add: demo_work_def)
  then show ?thesis by (auto simp: claimed_def split: sum.splits option.splits)
qed

text \<open>C6: once a request to cancel an item has been accepted, the item is claimed by no worker again, neither by its id nor
  as the next item, in any run in which no operator requeues this item. A request is accepted when the call returns a
  result: for an item that is blocked or waits for approval it answers that there is no such work, and changes nothing.\<close>

theorem cancelled_work_is_not_claimed:
  assumes "Requeue_Kind \<notin> K k" "queue_ok (\<lambda>w. w) w" "queue_env cfg K (\<lambda>w. w) env"
    and cancel: "requestWorkCancellation map_store env k reason now w = (Inr result, w1)"
    and run: "queue_run cfg K (w1, i) (w2, i2)"
  shows "fst (claimWorkById sha256 cfg map_store env (\<lambda>d. invocationPermitsClaim k (found d) d) k cin token later w2) \<noteq> Inr (Some c)
    \<and> fst (claimNextWork sha256 cfg map_store pick env (\<lambda>k d. invocationPermitsClaim k (found' k d) d) cin maximum tokens later w2) \<noteq> Inr (Some (k, c))"
proof -
  have ok1: "queue_ok (\<lambda>w. w) w1"
    by (rule queue_moves_ok [OF kept_moves [OF map_queue.requestWorkCancellation_kept assms(2) cancel] assms(2)]) (rule assms(3))
  obtain d where d: "w1 k = Some d" "settled d"
    using cancel
    by (auto simp: requestWorkCancellation_def map_store_defs settled_def cancel_set_def request_set_def bump_def Let_def
      TERMINAL_DURABLE_WORK_STATUSES_def split: sum.splits prod.splits option.splits if_splits)
  obtain d' where d': "w2 k = Some d'" "(work_step cfg (K k))\<^sup>*\<^sup>* d d'"
    using queue_run_steps [OF run, of k d] ok1 d(1) by (auto simp: queue_ok_fst)
  have "settled d'" using work_steps_settled d(2) d'(2) assms(1) by blast
  then have "\<not> claimable_at later e" if "(work_step cfg (K k))\<^sup>*\<^sup>* d' e" for e
    using work_steps_settled [OF that assms(1)] settled_not_claimable by blast
  moreover have "queue_ok (\<lambda>w. w) w2" using service_run_ok [OF run] ok1 by (simp add: queue_ok_fst)
  ultimately show ?thesis by (intro never_claimed [of cfg K env w2 k d', OF assms(3) _ d'(1)])
qed

theorem cancelled_work_is_not_claimed_witness:
  "\<not> claimed (fst (demo_take 30 (snd (demo_enqueue 20
     (snd (requestWorkCancellation map_store no_interference 0 (Some ''CALLER_REQUEST'') 10 (demo_work demo_running)))))))"
proof -
  let ?r = "requestWorkCancellation map_store no_interference 0 (Some ''CALLER_REQUEST'') 10 (demo_work demo_running)"
  have "\<not> isl (fst ?r)" by code_simp
  then have r: "?r = (Inr (projr (fst ?r)), snd ?r)" by (metis prod.collapse sum.collapse(2))
  have run: "queue_run demo_config (\<lambda>_. {}) (snd ?r, demo_invocations) (snd (demo_enqueue 20 (snd ?r)), demo_invocations)"
    by (rule r_into_rtranclp, rule demo_enqueue_call)
  have "fst (demo_take 30 (snd (demo_enqueue 20 (snd ?r)))) \<noteq> Inr (Some c)" for c
    unfolding demo_take_def
    by (rule cancelled_work_is_not_claimed [THEN conjunct1, OF _ demo_work_ok [OF demo_items_ok(1)] queue_env_no_interference r run]) simp
  then show ?thesis by (auto simp: claimed_def split: sum.splits option.splits)
qed

text \<open>C5: losing workers cannot execute an item without bound. In a run in which this item is neither retried on approval,
  nor paused with a suspended tenant, nor reserved for reconciliation, an item of a queue that began empty is claimed at most
  twice the dead-letter limit plus two times, however often its lease is lost and scanned, and with its one operator requeue
  (a pause and resume gives a claim back without counting it, so the bound does not hold with pauses).\<close>

theorem executions_are_bounded:
  assumes "K k \<subseteq> {Requeue_Kind}" "queue_run cfg K ((\<lambda>_. None), i) (w, i')" "w k = Some d"
  shows "wk_lease_epoch d \<le> 2 * (1 + wc_dead_letter_after cfg)"
proof -
  have ok: "queue_ok (\<lambda>s. fst s) ((\<lambda>_. None), i)" by (simp add: queue_ok_def)
  obtain d0 where d0: "fresh_work d0" "(work_step cfg (K k))\<^sup>*\<^sup>* d0 d"
    using queue_run_moves [OF assms(2) ok] assms(3) unfolding queue_moves_def fst_conv by blast
  then have "claims_paid cfg d" using work_steps_claims assms(1) fresh_claims by blast
  moreover have "wk_requeue_count d \<le> 1" using work_steps_ok d0 by (auto simp: fresh_work_def work_ok_def counters_ok_def)
  ultimately show ?thesis by (rule claims_bound)
qed

theorem executions_are_bounded_witness:
  "\<exists>d. snd (demo_take 6 (snd (demo_enqueue 5 demo_empty))) 0 = Some d \<and> wk_lease_epoch d = 1
     \<and> wk_lease_epoch d \<le> 2 * (1 + wc_dead_letter_after demo_config)"
proof -
  let ?w = "snd (demo_take 6 (snd (demo_enqueue 5 demo_empty)))"
  have d: "?w 0 \<noteq> None" "wk_lease_epoch (the (?w 0)) = 1" by code_simp+
  then have s: "?w 0 = Some (the (?w 0))" by simp
  have "demo_empty = (\<lambda>_. None)" by (rule ext) (simp add: demo_empty_def)
  then have run: "queue_run demo_config (\<lambda>_. {Requeue_Kind}) ((\<lambda>_. None), demo_invocations) (?w, demo_invocations)"
    using demo_run [of "\<lambda>_. {Requeue_Kind}"] by simp
  show ?thesis using executions_are_bounded [OF subset_refl run s] d s by blast
qed

subsection \<open>Retries and requeues\<close>

text \<open>C7: a retry that is scheduled without interference between its calls, of an item whose invocation has a recovery parent
  if the item is a recovery retry, can be executed: the item it leaves is claimable once its delay has passed, and its
  invocation permits the claim.\<close>

theorem scheduled_retry_is_claimable:
  assumes s: "scheduleRetry sha256 cfg envc map_store map_store no_interference k q o' ri random preparer token now (w, i) = (Inr d, (w', i'))"
    and ok: "queue_ok (\<lambda>w. w) w"
    and parent: "\<forall>c v. w k = Some c \<and> i q = Some v \<and> wk_recovery_retry c \<longrightarrow> dv_recovery_parent v"
  shows "w' k = Some d \<and> wk_status d = W_Retry_Scheduled \<and> now < wk_available_at d \<and> claimable_at (wk_available_at d) d
    \<and> invocationPermitsClaim k (i' q) d = claim_allowed"
proof -
  from s obtain owned c where
      o: "ownershipFilter sha256 o' now [W_Claimed, W_Running] = Inr owned"
    and c: "w k = Some c" "owned c"
    and f: "retry_found sha256 cfg envc map_store map_store no_interference k q owned c ri random preparer token now (w, i) = (Inr d, (w', i'))"
    by (auto simp: scheduleRetry_def thens_Inr_iff find_work_quiet map_find_one_def split: option.splits if_splits)
  from f obtain decision delay err where
    delay: "boundedNumber (case rd_delay_ms decision of None \<Rightarrow> NaN | Some t \<Rightarrow> num_of_int (max 1 t))
       ''retryDecision.delayMs'' 1 3600000 = Inr delay"
    and r: "retry_current sha256 cfg map_store map_store no_interference k q owned c preparer token err (retry_request now delay decision) (w, i)
      = (Inr d, (w', i'))"
    by (auto simp: retry_found_def thens_Inr_iff split: if_splits)
  let ?rq = "retry_request now delay decision"
  from r obtain nxt where n: "int (wk_attempt c) < nxt" "nxt \<le> int (wk_maximum_attempts c)"
    and b: "begin_preparation sha256 map_store map_store no_interference 2 k q preparer token ?rq nxt
           (\<lambda>d. owned d \<and> wk_attempt d = wk_attempt c \<and> wk_attempt c < wk_maximum_attempts d)
           (\<lambda>hash. retry_preparing_set preparer hash cfg ?rq nxt err) W_Retry_Scheduled leaseLost retry_denied (w, i) = (Inr d, (w', i'))"
    by (auto simp: retry_current_def inspectReplay_def thens_Inr_iff find_invocation_quiet not_le not_less
      split: replay_verdict.splits if_splits)
  have "\<exists>hash. d = release_set W_Retry_Scheduled (retry_preparing_set preparer hash cfg ?rq nxt err c) \<and> w' k = Some d
      \<and> invocationPermitsClaim k (i' q) d = claim_allowed"
    using begin_ready [OF b c(1)] parent c(1)
    by (fastforce simp: retry_preparing_set_def preparation_lease_def bump_def)
  moreover have cok: "cancellation_ok c" using ok c(1) by (simp add: queue_ok_def work_ok_def)
  then have "wk_cancellation_requested_at c = None"
    using cok ownership_status [OF o c(2)]
    by (auto simp: cancellation_ok_def TERMINAL_DURABLE_WORK_STATUSES_def)
  moreover have "1 \<le> delay" using delay by (auto simp: boundedNumber_def split: option.splits if_splits)
  ultimately show ?thesis using n
    by (auto simp: release_set_def retry_preparing_set_def preparation_lease_def leaseUnset_def bump_def retry_request_def
      claimable_at_def lease_live_def CLAIMABLE_DURABLE_WORK_STATUSES_def)
qed

theorem scheduled_retry_is_claimable_witness:
  "let r = scheduleRetry id demo_config sample_config map_store map_store no_interference 0 0 demo_ownership sample_retry (1 / 2)
       ''retry-1'' demo_token 200 (demo_work demo_running, demo_invocations)
   in \<exists>d. fst r = Inr d \<and> wk_status d = W_Retry_Scheduled \<and> claimable_at (wk_available_at d) d
     \<and> invocationPermitsClaim 0 (snd (snd r) 0) d = claim_allowed"
proof -
  let ?r = "scheduleRetry id demo_config sample_config map_store map_store no_interference 0 0 demo_ownership sample_retry (1 / 2)
       ''retry-1'' demo_token 200 (demo_work demo_running, demo_invocations)"
  have "\<not> isl (fst ?r)" by code_simp
  then have r: "?r = (Inr (projr (fst ?r)), (fst (snd ?r), snd (snd ?r)))" by (metis prod.collapse sum.collapse(2))
  have "\<not> wk_recovery_retry demo_running" by code_simp
  then show ?thesis
    using scheduled_retry_is_claimable [OF r demo_work_ok [OF demo_items_ok(1)]] r
    by (metis (no_types, lifting) demo_work_def fst_conv option.inject)
qed

text \<open>A dead letter that is requeued is executed: it is claimable at once with a cleared cancellation, its invocation permits
  the claim, and no second requeue of it can succeed.\<close>

theorem requeued_work_is_claimable:
  assumes s: "requeueDeadLetter sha256 cfg map_store map_store no_interference k q version preparer token now (w, i) = (Inr d, (w', i'))"
    and parent: "\<forall>c v. w k = Some c \<and> i q = Some v \<and> wk_recovery_retry c \<longrightarrow> dv_recovery_parent v"
  shows "w' k = Some d \<and> wk_status d = W_Pending \<and> claimable_at now d \<and> wk_requeue_count d = 1
    \<and> invocationPermitsClaim k (i' q) d = claim_allowed"
proof -
  let ?rq = "\<lparr>rq_now = now, rq_available_at = now, rq_reason = ''OPERATOR_REQUEUE_PRETRANSMISSION'',
    rq_maximum_attempts = Some (wc_dead_letter_after cfg), rq_terminal_override = True\<rparr>"
  from s obtain ver c nxt where c: "w k = Some c"
    and n: "replay_decision k c ?rq (map_find_one q (\<lambda>_. True) i) = Replay_Allowed nxt"
    and b: "begin_preparation sha256 map_store map_store no_interference 2 k q preparer token ?rq nxt
       (\<lambda>d. wk_status d = W_Dead_Lettered \<and> int (wk_version d) = ver \<and> wk_requeue_count d < 1)
       (\<lambda>hash. requeue_set preparer hash cfg (wk_maximum_attempts c) ?rq nxt) W_Pending requeue_denied requeue_denied (w, i) = (Inr d, (w', i'))"
    by (auto simp: requeueDeadLetter_def Let_def inspectReplay_def thens_Inr_iff find_work_quiet find_invocation_quiet map_find_one_def [of k]
      split: option.splits if_splits replay_verdict.splits)
  have "1 \<le> nxt" using replay_decision_good n good_verdict_simps(2) by metis
  moreover have "\<exists>hash. wk_status c = W_Dead_Lettered \<and> wk_requeue_count c < 1
      \<and> d = release_set W_Pending (requeue_set preparer hash cfg (wk_maximum_attempts c) ?rq nxt c) \<and> w' k = Some d
      \<and> invocationPermitsClaim k (i' q) d = claim_allowed"
    using begin_ready [OF b c] parent c
    by (fastforce simp: requeue_set_def preparation_lease_def bump_def)
  ultimately show ?thesis
    by (auto simp: release_set_def requeue_set_def preparation_lease_def leaseUnset_def bump_def
      claimable_at_def lease_live_def CLAIMABLE_DURABLE_WORK_STATUSES_def)
qed

definition demo_dead :: work_item where
  "demo_dead = (demo_item W_Dead_Lettered)\<lparr>wk_dead_lettered_at := Some 150, wk_version := 7\<rparr>"

definition demo_recovering :: "nat \<Rightarrow> (unit, nat) durable_invocation option" where
  "demo_recovering q = Some (demo_invocation
     \<lparr>inv_lifecycle_state := Recovery_Required, inv_recovery_state := Recovery_State_Required, inv_attempt_count := Some 1\<rparr>)"

theorem requeued_work_is_claimable_witness:
  "let r = requeueDeadLetter id demo_config map_store map_store no_interference 0 0 (num_of_int 7) ''requeue-1'' demo_token 200
       (demo_work demo_dead, demo_recovering)
   in \<exists>d. fst r = Inr d \<and> wk_status d = W_Pending \<and> claimable_at 200 d \<and> invocationPermitsClaim 0 (snd (snd r) 0) d = claim_allowed"
proof -
  let ?r = "requeueDeadLetter id demo_config map_store map_store no_interference 0 0 (num_of_int 7) ''requeue-1'' demo_token 200
       (demo_work demo_dead, demo_recovering)"
  have "\<not> isl (fst ?r)" by code_simp
  then have r: "?r = (Inr (projr (fst ?r)), (fst (snd ?r), snd (snd ?r)))" by (metis prod.collapse sum.collapse(2))
  have "\<not> wk_recovery_retry demo_dead" by code_simp
  then show ?thesis
    using requeued_work_is_claimable [OF r] r by (metis (no_types, lifting) demo_work_def fst_conv option.inject)
qed

text \<open>A list of history entries leads from one state to another, each from where the one before it went.\<close>

fun recorded_moves :: "istate \<Rightarrow> history_entry list \<Rightarrow> istate \<Rightarrow> bool" where
  "recorded_moves s [] t = (s = t)"
| "recorded_moves s (e # es) t = (he_from e = Some s \<and> recorded_moves (he_to e) es t)"

lemma history_entries_recorded:
  "history_entries opts s path = Inr es \<Longrightarrow> recorded_moves s es (last (s # path)) \<and> map he_to es = path \<and> map he_from es = map Some (butlast (s # path))
     \<and> (\<forall>e \<in> set es. he_at e = op_now opts)"
  by (induction opts s path arbitrary: es rule: history_entries.induct) (auto simp: bindE_Inr_iff transitionHistoryEntry_def)

lemma replay_path_table:
  assumes "s \<in> set SAFE_REPLAY_INVOCATION_STATES" "map he_to es = replay_path s" "map he_from es = map Some (butlast (s # replay_path s))"
  shows "(\<forall>e \<in> set es. he_to e \<in> set (ALLOWED_INVOCATION_TRANSITIONS (the (he_from e)))) \<longleftrightarrow> s \<noteq> Failed"
  using assms by (auto simp: SAFE_REPLAY_INVOCATION_STATES_def replay_path_def map_eq_Cons_conv)

text \<open>C8: a successful preparation of a replay writes one update: the invocation, which still is in the state it was read in and
  is not being cancelled, becomes authorized with its retry scheduled, the lease of its last execution and the times of its
  end are cleared, its version is raised, and the entries pushed on its history lead from the state it was in to authorized.
  Every one of these moves is in the table of the lifecycle unless the invocation had failed: the table holds a failed
  invocation to be final, and the preparation replays it all the same when its retry is scheduled.\<close>

theorem replay_follows_the_table:
  assumes p: "prepareInvocationForSafeReplay map_store env n k q work rq s = (Inr (Replay_Allowed nxt), (w', i'))"
  shows "\<exists>d v es. snd (env (n + 1) (env n s)) q = Some d \<and> i' = (snd (env (n + 1) (env n s)))(q \<mapsto> v)
    \<and> inv_lifecycle_state d \<in> {Accepted, Validating, Authorized, Retry_Scheduled, Running, Waiting_For_Runtime, Recovery_Required, Failed}
    \<and> inv_cancellation_state d \<notin> {Cancel_Requested, Cancel_Aborting, Cancel_Confirmed}
    \<and> inv_attempt_count d = Some (nxt - 1)
    \<and> inv_lifecycle_state v = Authorized \<and> inv_retry_state v = Retry_State_Scheduled \<and> inv_version v = inv_version d + 1
    \<and> inv_execution_owner v = None \<and> inv_execution_lease_id v = None \<and> inv_terminal_at v = None \<and> inv_terminalized_at v = None
    \<and> recorded_moves (inv_lifecycle_state d) es Authorized \<and> (\<forall>e \<in> set es. he_at e = rq_now rq)
    \<and> inv_state_history v = drop (length (inv_state_history d @ es) - MAX_INVOCATION_STATE_HISTORY) (inv_state_history d @ es)
    \<and> ((\<forall>e \<in> set es. he_to e \<in> set (ALLOWED_INVOCATION_TRANSITIONS (the (he_from e)))) \<longleftrightarrow> inv_lifecycle_state d \<noteq> Failed)
    \<and> (inv_lifecycle_state d = Failed \<longrightarrow> (\<exists>u. snd (env n s) q = Some u \<and> inv_retry_state u = Retry_State_Scheduled))"
proof -
  from p obtain u es d where u: "snd (env n s) q = Some u" "replay_decision k work rq (Some u) = Replay_Allowed nxt"
    and es: "history_entries (replay_options work rq u) (inv_lifecycle_state u) (replay_path (inv_lifecycle_state u)) = Inr es"
    and d: "snd (env (n + 1) (env n s)) q = Some d" "replay_matches k work rq u d"
      "i' = (snd (env (n + 1) (env n s)))(q \<mapsto> replay_set k rq (inv_lifecycle_state u) es d)"
    by (rule prepare_written)
  have m: "inv_lifecycle_state u \<in> set SAFE_REPLAY_INVOCATION_STATES" "nxt = attempt_count u + 1"
      "inv_lifecycle_state u = Failed \<longrightarrow> inv_retry_state u = Retry_State_Scheduled"
    using u(2) by (auto simp: replay_decision_def split: if_splits)
  note h = history_entries_recorded [OF es]
  let ?v = "replay_set k rq (inv_lifecycle_state u) es d"
  have same: "inv_lifecycle_state d = inv_lifecycle_state u" using d(2) by (simp add: replay_matches_def)
  have read: "inv_lifecycle_state d \<in> {Accepted, Validating, Authorized, Retry_Scheduled, Running, Waiting_For_Runtime, Recovery_Required, Failed}"
      "inv_cancellation_state d \<notin> {Cancel_Requested, Cancel_Aborting, Cancel_Confirmed}" "inv_attempt_count d = Some (nxt - 1)"
    using m(1,2) d(2) same by (simp_all add: SAFE_REPLAY_INVOCATION_STATES_def replay_matches_def CANCELLING_def)
  have written: "inv_lifecycle_state ?v = Authorized" "inv_retry_state ?v = Retry_State_Scheduled" "inv_version ?v = inv_version d + 1"
      "inv_execution_owner ?v = None" "inv_execution_lease_id ?v = None" "inv_terminal_at ?v = None" "inv_terminalized_at ?v = None"
      "inv_state_history ?v = drop (length (inv_state_history d @ es) - MAX_INVOCATION_STATE_HISTORY) (inv_state_history d @ es)"
    by (simp_all add: replay_set_def push_each_def)
  have moves: "recorded_moves (inv_lifecycle_state d) es Authorized" "\<forall>e \<in> set es. he_at e = rq_now rq"
      "(\<forall>e \<in> set es. he_to e \<in> set (ALLOWED_INVOCATION_TRANSITIONS (the (he_from e)))) \<longleftrightarrow> inv_lifecycle_state d \<noteq> Failed"
    using h replay_path_table [OF m(1), of es] same by (simp_all add: replay_path_def replay_options_def split: if_splits)
  show ?thesis
    by (rule exI [of _ d], rule exI [of _ ?v], rule exI [of _ es])
      (use d(1,3) u(1) m(3) same in \<open>intro conjI impI exI [of _ u] read written moves; simp\<close>)
qed

definition demo_failed :: "nat \<Rightarrow> (unit, nat) durable_invocation option" where
  "demo_failed q = Some (demo_invocation
     \<lparr>inv_lifecycle_state := Failed, inv_retry_state := Retry_State_Scheduled, inv_attempt_count := Some 1\<rparr>)"

definition demo_request :: replay_request where
  "demo_request = \<lparr>rq_now = 200, rq_available_at = 200, rq_reason = ''LEASE_EXPIRED_BEFORE_TRANSMISSION'', rq_maximum_attempts = None,
     rq_terminal_override = False\<rparr>"

theorem replay_follows_the_table_witness:
  "let r = prepareInvocationForSafeReplay map_store no_interference 0 0 0 demo_running demo_request (demo_work demo_running, demo_failed)
   in \<exists>v es. snd (snd r) 0 = Some v \<and> inv_lifecycle_state v = Authorized \<and> recorded_moves Failed es Authorized
     \<and> \<not> (\<forall>e \<in> set es. he_to e \<in> set (ALLOWED_INVOCATION_TRANSITIONS (the (he_from e))))"
proof -
  let ?r = "prepareInvocationForSafeReplay map_store no_interference 0 0 0 demo_running demo_request (demo_work demo_running, demo_failed)"
  have "fst ?r = Inr (Replay_Allowed 2)" by code_simp
  then have r: "?r = (Inr (Replay_Allowed 2), (fst (snd ?r), snd (snd ?r)))" by (metis prod.collapse)
  have "inv_lifecycle_state (the (demo_failed 0)) = Failed" by code_simp
  with replay_follows_the_table [OF r] obtain v es where "snd (snd ?r) = demo_failed(0 \<mapsto> v)" "inv_lifecycle_state v = Authorized"
      "recorded_moves Failed es Authorized" "\<not> (\<forall>e \<in> set es. he_to e \<in> set (ALLOWED_INVOCATION_TRANSITIONS (the (he_from e))))"
    by (auto simp: demo_failed_def simp del: ball_simps)
  then show ?thesis unfolding Let_def by (intro exI [of _ v] exI [of _ es]) simp
qed

text \<open>Enqueueing the same work again changes nothing and hands out no ownership: it answers with the item that is there,
  or with the error of its arguments.\<close>

theorem enqueue_again_changes_nothing:
  assumes "w k = Some d"
  shows "enqueueWork sha256 cfg map_store no_interference access k input claim token now w = (Inr (False, d, None), w)
    \<or> (\<exists>e. enqueueWork sha256 cfg map_store no_interference access k input claim token now w = (Inl e, w))"
  using assms by (auto simp: enqueueWork_def map_store_defs Let_def split: sum.splits prod.splits option.splits)

theorem enqueue_again_changes_nothing_witness:
  "enqueueWork id demo_config map_store no_interference (Inr ()) 0 demo_input (Some demo_claim) demo_token 7 (demo_work demo_running)
     = (Inr (False, demo_running, None), demo_work demo_running)"
proof -
  let ?r = "enqueueWork id demo_config map_store no_interference (Inr ()) 0 demo_input (Some demo_claim) demo_token 7 (demo_work demo_running)"
  have "\<not> isl (fst ?r)" by code_simp
  moreover have "demo_work demo_running 0 = Some demo_running" by (simp add: demo_work_def)
  ultimately show ?thesis using enqueue_again_changes_nothing [of "demo_work demo_running" 0] by (metis fst_conv sum.disc(1))
qed

text \<open>Work of a suspended tenant cannot be cancelled: the request answers that there is no such work.\<close>

theorem blocked_work_is_not_cancelled:
  assumes "w k = Some d" "wk_status d \<in> {W_Blocked, W_Waiting_For_Approval}" "requiredCode reason ''reasonCode'' = Inr code"
  shows "requestWorkCancellation map_store no_interference k reason now w = (Inl work_not_found, w)"
  using assms
  by (auto simp: requestWorkCancellation_def map_store_defs Let_def CLAIMABLE_DURABLE_WORK_STATUSES_def TERMINAL_DURABLE_WORK_STATUSES_def)

theorem blocked_work_is_not_cancelled_witness:
  "requestWorkCancellation map_store no_interference 0 (Some ''CALLER_REQUEST'') 10 (demo_work (demo_item W_Blocked))
     = (Inl work_not_found, demo_work (demo_item W_Blocked))"
proof -
  have c: "requiredCode (Some ''CALLER_REQUEST'') ''reasonCode'' = Inr ''CALLER_REQUEST''" by code_simp
  have "demo_work (demo_item W_Blocked) 0 = Some (demo_item W_Blocked)" "wk_status (demo_item W_Blocked) = W_Blocked"
    by (simp_all add: demo_work_def demo_item_def new_work_item_def)
  then show ?thesis by (intro blocked_work_is_not_cancelled [OF _ _ c]) auto
qed

end
