(* ===== verification/Delegated_Data.thy ===== *)
theory Delegated_Data
  imports Schema_Compatibility Json_Text "HOL-Library.AList"
begin

text \<open>
  Data that one agent hands to another, the first part of backend/src/services/interAgentData.service.js with the limits
  of backend/src/constants/interAgentDelegation.js: safe copies, paths, the extraction of allowed fields and mappings.

  \<^item> Values are JSON trees whose objects have distinct keys, so the checks for cycles, accessors, symbols, holes in arrays
    and foreign prototypes have nothing to find. Strings are ASCII, and \<open>num_size\<close> is the length of the text of a number.
  \<^item> The payload under construction, which the code updates in place, is the list of the fields of an object, passed on.
\<close>

subsection \<open>Limits and segments\<close>

record data_limits =
  dl_payload_bytes :: int
  dl_array_items :: int
  dl_string_length :: int
  dl_object_depth :: int

definition INTER_AGENT_LIMITS :: data_limits where
  "INTER_AGENT_LIMITS =
     \<lparr>dl_payload_bytes = 1000000, dl_array_items = 1000, dl_string_length = 100000, dl_object_depth = 20\<rparr>"

definition maximumFields :: nat where "maximumFields = 250"
definition maximumRules :: nat where "maximumRules = 100"
definition maximumDataPathDepth :: nat where "maximumDataPathDepth = 20"

record limits_input =
  li_payload_bytes :: "jsnum option"
  li_array_items :: "jsnum option"
  li_string_length :: "jsnum option"
  li_object_depth :: "jsnum option"

definition boundedLimit :: "jsnum option \<Rightarrow> int \<Rightarrow> int \<Rightarrow> int" where
  "boundedLimit v fallback maximum =
     (case js_integer (case v of None \<Rightarrow> num_of_int fallback | Some n \<Rightarrow> n) of
        Some i \<Rightarrow> if i < 1 then fallback else min maximum i | None \<Rightarrow> fallback)"

definition normalizedLimits :: "limits_input \<Rightarrow> data_limits" where
  "normalizedLimits i =
     \<lparr>dl_payload_bytes = boundedLimit (li_payload_bytes i) (dl_payload_bytes INTER_AGENT_LIMITS) (dl_payload_bytes INTER_AGENT_LIMITS),
      dl_array_items = boundedLimit (li_array_items i) (dl_array_items INTER_AGENT_LIMITS) (dl_array_items INTER_AGENT_LIMITS),
      dl_string_length = boundedLimit (li_string_length i) (dl_string_length INTER_AGENT_LIMITS) (dl_string_length INTER_AGENT_LIMITS),
      dl_object_depth = boundedLimit (li_object_depth i) (dl_object_depth INTER_AGENT_LIMITS) (dl_object_depth INTER_AGENT_LIMITS)\<rparr>"

definition SAFE_SEGMENT :: "string \<Rightarrow> bool" where
  "SAFE_SEGMENT s = bounded_pattern is_alpha segment_tail 127 s"

definition DANGEROUS_KEYS :: "string list" where
  "DANGEROUS_KEYS =
     [''__proto__'', ''prototype'', ''constructor'', ''process'', ''global'', ''globalThis'', ''require'', ''module'', ''exports'']"

definition HIDDEN_FIELDS :: "string list" where
  "HIDDEN_FIELDS =
     [''chainOfThought'', ''chain_of_thought'', ''reasoningTrace'', ''hiddenReasoning'', ''systemPrompt'', ''internalPrompt'',
      ''memoryDump'', ''privateMemory'', ''runtimeCredential'', ''authorization'', ''apiKey'', ''accessToken'', ''credential'',
      ''credentials'', ''providerKey'', ''installKey'', ''encryptedDelegatedCredential'', ''sourceCode'', ''privatePolicy'']"

definition dataError :: "string \<Rightarrow> string \<Rightarrow> app_error" where
  "dataError code path = App_Error 400 code path"

definition dangerousSegment :: "string \<Rightarrow> bool" where
  "dangerousSegment s \<longleftrightarrow> s \<in> set DANGEROUS_KEYS \<or> s \<in> set HIDDEN_FIELDS"

text \<open>\<open>s.replace(/^\$\.?/, '')\<close> and \<open>s.replace(/^\$/, '')\<close>.\<close>

definition strip_dollar :: "string \<Rightarrow> string" where
  "strip_dollar s = (if starts_with s ''$'' then drop 1 s else s)"

definition strip_root :: "string \<Rightarrow> string" where
  "strip_root s = (if starts_with s ''$.'' then drop 2 s else strip_dollar s)"

definition pathSegments :: "bool \<Rightarrow> string \<Rightarrow> string list res" where
  "pathSegments allowHidden path =
     (let ss = filter (\<lambda>s. s \<noteq> []) (split_dots (strip_root (js_trim path)))
      in if ss = [] \<or> maximumDataPathDepth < length ss
           \<or> list_ex (\<lambda>s. \<not> SAFE_SEGMENT s \<or> s \<in> set DANGEROUS_KEYS \<or> \<not> allowHidden \<and> s \<in> set HIDDEN_FIELDS) ss
         then Inl (dataError ''DATA_CONTRACT_MAPPING_INVALID'' (if path = [] then ''$'' else path))
         else Inr ss)"

text \<open>\<open>ss.join('.')\<close>.\<close>

fun join_dots :: "string list \<Rightarrow> string" where
  "join_dots [] = []"
| "join_dots [s] = s"
| "join_dots (s # t # ss) = s @ ''.'' @ join_dots (t # ss)"

subsection \<open>Safe copies\<close>

definition path_depth :: "string \<Rightarrow> int" where
  "path_depth path = (if path = ''$'' then 0 else int (length (split_dots path)) - 1)"

text \<open>The check of the size, made for every array and object on the way up.\<close>

definition bounded_size :: "(rat \<Rightarrow> nat) \<Rightarrow> data_limits \<Rightarrow> string \<Rightarrow> json \<Rightarrow> json res" where
  "bounded_size num_size L path v =
     (if dl_payload_bytes L < int (json_size num_size v) then Inl (dataError ''INTER_AGENT_PAYLOAD_TOO_LARGE'' path) else Inr v)"

definition unsafe_key :: "string \<Rightarrow> bool" where
  "unsafe_key k \<longleftrightarrow> k \<in> set DANGEROUS_KEYS \<or> \<not> SAFE_SEGMENT k"

definition visible_fields :: "(string \<times> 'a) list \<Rightarrow> (string \<times> 'a) list" where
  "visible_fields fs = filter (\<lambda>(k, w). k \<notin> set HIDDEN_FIELDS) (sort_key fst fs)"

lemma set_visible_fields [simp]: "set (visible_fields fs) = {(k, w) \<in> set fs. k \<notin> set HIDDEN_FIELDS}"
  by (auto simp: visible_fields_def)

fun safeClone :: "(rat \<Rightarrow> nat) \<Rightarrow> data_limits \<Rightarrow> string \<Rightarrow> json \<Rightarrow> json res" where
  "safeClone num_size L path v =
     (if dl_object_depth L < path_depth path then Inl (dataError ''INTER_AGENT_DATA_DEPTH_EXCEEDED'' path)
      else case v of
        JNum n \<Rightarrow> if js_finite n = None then Inl (dataError ''INTER_AGENT_DATA_TYPE_REJECTED'' path) else Inr v
      | JStr s \<Rightarrow> if dl_string_length L < int (length s) then Inl (dataError ''INTER_AGENT_STRING_LIMIT_EXCEEDED'' path) else Inr v
      | JArr xs \<Rightarrow>
          if dl_array_items L < int (length xs) then Inl (dataError ''INTER_AGENT_ARRAY_LIMIT_EXCEEDED'' path)
          else bindE (mapE (\<lambda>(k, w). safeClone num_size L (field_path path k) w) (index_entries xs))
            (\<lambda>ws. bounded_size num_size L path (JArr ws))
      | JObj fs \<Rightarrow>
          bindE (mapE (\<lambda>(k, w).
              if unsafe_key k then Inl (dataError ''INTER_AGENT_DANGEROUS_PATH'' (field_path path k))
              else bindE (safeClone num_size L (field_path path k) w) (\<lambda>u. Inr (k, u))) (visible_fields fs))
            (\<lambda>gs. bounded_size num_size L path (JObj gs))
      | _ \<Rightarrow> Inr v)"

declare safeClone.simps [simp del]

subsection \<open>Paths\<close>

text \<open>Reading follows own enumerable properties of objects and arrays.\<close>

fun readOwnPath :: "json \<Rightarrow> string list \<Rightarrow> json option" where
  "readOwnPath v [] = Some v"
| "readOwnPath v (s # ss) = (case map_of (entries v) s of None \<Rightarrow> None | Some w \<Rightarrow> readOwnPath w ss)"

fun assign_at :: "string list \<Rightarrow> string list \<Rightarrow> json \<Rightarrow> (string \<times> json) list \<Rightarrow> (string \<times> json) list res" where
  "assign_at before [] w fs = Inr fs"
| "assign_at before [s] w fs = Inr (AList.update s w fs)"
| "assign_at before (s # t # ss) w fs =
     (case map_of fs s of
        None \<Rightarrow> bindE (assign_at (before @ [s]) (t # ss) w []) (\<lambda>gs. Inr (AList.update s (JObj gs) fs))
      | Some (JObj c) \<Rightarrow> bindE (assign_at (before @ [s]) (t # ss) w c) (\<lambda>gs. Inr (AList.update s (JObj gs) fs))
      | Some _ \<Rightarrow> Inl (dataError ''DATA_CONTRACT_MAPPING_INVALID'' (join_dots (before @ [s]))))"

definition assignPath :: "string list \<Rightarrow> json \<Rightarrow> (string \<times> json) list \<Rightarrow> (string \<times> json) list res" where
  "assignPath ss w fs = assign_at [] ss w fs"

text \<open>A segment is never an index of an array, so an array on the way has nothing to delete.\<close>

fun deletePath :: "string list \<Rightarrow> (string \<times> json) list \<Rightarrow> (string \<times> json) list" where
  "deletePath [] fs = fs"
| "deletePath [s] fs = AList.delete s fs"
| "deletePath (s # t # ss) fs =
     (case map_of fs s of Some (JObj c) \<Rightarrow> AList.update s (JObj (deletePath (t # ss) c)) fs | _ \<Rightarrow> fs)"

subsection \<open>Extraction of the allowed fields\<close>

definition pathDenied :: "string \<Rightarrow> string list \<Rightarrow> bool" where
  "pathDenied path denied =
     list_ex (\<lambda>d. path = d \<or> starts_with path (d @ ''.'') \<or> starts_with d (path @ ''.'')) denied"

definition field_names :: "string list \<Rightarrow> string list" where
  "field_names xs = sort (unique_list xs)"

definition cloned_fields :: "(rat \<Rightarrow> nat) \<Rightarrow> data_limits \<Rightarrow> (string \<times> json) list \<Rightarrow> (string \<times> json) list res" where
  "cloned_fields num_size L fs = bindE (safeClone num_size L ''$'' (JObj fs)) (\<lambda>v. Inr (entries v))"

fun extract_fields ::
  "(rat \<Rightarrow> nat) \<Rightarrow> data_limits \<Rightarrow> json \<Rightarrow> string list \<Rightarrow> string list \<Rightarrow> (string \<times> json) list \<Rightarrow> (string \<times> json) list res" where
  "extract_fields num_size L source denied [] fs = Inr fs"
| "extract_fields num_size L source denied (p # ps) fs =
     (if pathDenied p denied then extract_fields num_size L source denied ps fs
      else bindE (pathSegments False p) (\<lambda>ss.
        case readOwnPath source ss of
          None \<Rightarrow> extract_fields num_size L source denied ps fs
        | Some v \<Rightarrow>
            bindE (safeClone num_size L (''$source.'' @ p) v) (\<lambda>w.
            bindE (assignPath ss w fs) (extract_fields num_size L source denied ps))))"

definition extractAllowedFields ::
  "(rat \<Rightarrow> nat) \<Rightarrow> data_limits \<Rightarrow> json \<Rightarrow> string list \<Rightarrow> string list \<Rightarrow> (string \<times> json) list res" where
  "extractAllowedFields num_size L input allowedFields deniedFields =
     bindE (safeClone num_size L ''$'' input) (\<lambda>source.
     let allowed = field_names allowedFields; denied = field_names deniedFields in
     if allowed = [] \<or> maximumFields < length allowed then Inl (dataError ''DATA_CONTRACT_INVALID'' ''$contract.allowedFields'')
     else
     bindE (mapE (pathSegments False) allowed) (\<lambda>_.
     bindE (mapE (pathSegments True) denied) (\<lambda>removed.
     bindE (extract_fields num_size L source denied allowed []) (\<lambda>fs.
     cloned_fields num_size L (fold deletePath removed fs)))))"

subsection \<open>Mappings\<close>

record data_sources =
  ds_source :: json
  ds_run_input :: json
  ds_metadata :: json
  ds_dependency :: json

definition source_root :: "data_sources \<Rightarrow> string \<Rightarrow> json option" where
  "source_root src name =
     (if name = ''source'' then Some (ds_source src) else if name = ''runInput'' then Some (ds_run_input src)
      else if name = ''metadata'' then Some (ds_metadata src) else if name = ''dependency'' then Some (ds_dependency src)
      else None)"

definition mappingSource :: "data_sources \<Rightarrow> string \<Rightarrow> json res" where
  "mappingSource src expression =
     (let parts = split_dots (strip_dollar expression); segments = tl parts in
      case source_root src (hd parts) of
        None \<Rightarrow> Inl (dataError ''DATA_CONTRACT_MAPPING_INVALID'' ''$mapping'')
      | Some base \<Rightarrow>
          if segments = [] then Inl (dataError ''DATA_CONTRACT_MAPPING_INVALID'' ''$mapping'')
          else bindE (pathSegments False (join_dots segments)) (\<lambda>_.
            case readOwnPath base segments of
              None \<Rightarrow> Inl (dataError ''DATA_CONTRACT_MAPPING_INVALID'' ''$mapping'') | Some v \<Rightarrow> Inr v))"

definition mapped_value :: "data_sources \<Rightarrow> string \<Rightarrow> json \<Rightarrow> json res" where
  "mapped_value src target rule =
     (case rule of
        JStr e \<Rightarrow> mappingSource src e
      | JObj fs \<Rightarrow>
          (case map_of fs ''literal'' of
             Some w \<Rightarrow> Inr w
           | None \<Rightarrow> Inl (dataError ''DATA_CONTRACT_MAPPING_INVALID'' (''$mapping.'' @ target)))
      | _ \<Rightarrow> Inl (dataError ''DATA_CONTRACT_MAPPING_INVALID'' (''$mapping.'' @ target)))"

fun map_fields ::
  "(rat \<Rightarrow> nat) \<Rightarrow> data_limits \<Rightarrow> data_sources \<Rightarrow> (string \<times> json) list \<Rightarrow> (string \<times> json) list \<Rightarrow> (string \<times> json) list res" where
  "map_fields num_size L src [] fs = Inr fs"
| "map_fields num_size L src ((target, rule) # rules) fs =
     bindE (pathSegments False target) (\<lambda>ss.
     bindE (mapped_value src target rule) (\<lambda>v.
     bindE (safeClone num_size L (''$mapping.'' @ target) v) (\<lambda>w.
     bindE (assignPath ss w fs) (map_fields num_size L src rules))))"

definition applyMapping ::
  "(rat \<Rightarrow> nat) \<Rightarrow> data_limits \<Rightarrow> (string \<times> json) list \<Rightarrow> data_sources \<Rightarrow> (string \<times> json) list res" where
  "applyMapping num_size L mapping src =
     bindE (map_fields num_size L src (sort_key fst mapping) []) (cloned_fields num_size L)"

end
