(* ===== verification/Delegated_Rules.thy ===== *)
theory Delegated_Rules
  imports Delegated_Data Canonical_Json
begin

text \<open>
  The second part of backend/src/services/interAgentData.service.js: transformations, redactions and minimization of
  delegated data, classification and residency, and the two pipelines over a data contract.

  \<^item> A rule is the JSON value that the contract holds, read the way the code reads it. The text of a date and the two
    hashes are the record \<open>data_env\<close>.
  \<^item> A literal rule without a value writes \<open>undefined\<close>, which reads as missing and is dropped by the copy at the end: the
    model deletes the field. What one flattening takes twice, a field and a part of it, is shared in the code and
    copied here. A path given as an array skips the checks of \<open>pathSegments\<close>, as in the code; contracts are only accepted
    with arrays of one safe segment, so an empty one and one with \<open>__proto__\<close> are left aside.
\<close>

subsection \<open>Rules\<close>

record data_env =
  de_text :: js_text
  de_num_size :: "rat \<Rightarrow> nat"
  de_iso :: "jsnum \<Rightarrow> string"
  de_sha256 :: "string \<Rightarrow> string \<Rightarrow> string"
  de_digest :: "string \<Rightarrow> string \<Rightarrow> string"

definition TRANSFORMATION_OPERATIONS :: "string list" where
  "TRANSFORMATION_OPERATIONS =
     [''select'', ''rename'', ''literal'', ''truncate_string'', ''slice_array'', ''normalize_date'', ''map_enum'', ''clamp_number'',
      ''normalize_boolean'', ''wrap_object'', ''flatten_object'', ''sha256'', ''pseudonymize'']"

definition REDACTION_ACTIONS :: "string list" where
  "REDACTION_ACTIONS = [''remove'', ''replace'', ''mask'', ''truncate'', ''sha256'', ''pseudonymize'']"

definition transformation_invalid :: "string \<Rightarrow> app_error" where
  "transformation_invalid path = dataError ''DATA_CONTRACT_TRANSFORMATION_INVALID'' path"

definition rule_tail :: "char \<Rightarrow> bool" where
  "rule_tail c \<longleftrightarrow> is_alpha c \<or> is_digit c \<or> c \<in> set ''._-''"

definition is_rule_id :: "string \<Rightarrow> bool" where
  "is_rule_id s = bounded_pattern is_alpha rule_tail 127 s"

definition RULE_LIMITS :: data_limits where
  "RULE_LIMITS = \<lparr>dl_payload_bytes = 50000, dl_array_items = 100, dl_string_length = 2000, dl_object_depth = 5\<rparr>"

text \<open>\<open>rule[k]\<close>, \<open>String(rule[k])\<close> and \<open>Number(rule[k])\<close>.\<close>

definition rule_field :: "json \<Rightarrow> string \<Rightarrow> json option" where
  "rule_field r k = map_of (entries r) k"

definition rule_text :: "js_text \<Rightarrow> json \<Rightarrow> string \<Rightarrow> string" where
  "rule_text t r k = (case rule_field r k of None \<Rightarrow> ''undefined'' | Some v \<Rightarrow> to_string t v)"

definition rule_number :: "js_text \<Rightarrow> json \<Rightarrow> string \<Rightarrow> jsnum" where
  "rule_number t r k = (case rule_field r k of None \<Rightarrow> NaN | Some v \<Rightarrow> to_number t v)"

text \<open>\<open>Number(rule[k] || 0)\<close>.\<close>

definition rule_number_or_zero :: "js_text \<Rightarrow> json \<Rightarrow> string \<Rightarrow> jsnum" where
  "rule_number_or_zero t r k = (case truthy_or (rule_field r k) None of None \<Rightarrow> Fin 0 | Some v \<Rightarrow> to_number t v)"

definition rule_path :: "js_text \<Rightarrow> json \<Rightarrow> string \<Rightarrow> string list res" where
  "rule_path t r k = pathSegments False (text_or_empty t (rule_field r k))"

text \<open>A path for the functions that also take an array of segments, which they use as it is.\<close>

definition path_or_segments :: "js_text \<Rightarrow> json option \<Rightarrow> string list res" where
  "path_or_segments t v =
     (case v of Some (JArr xs) \<Rightarrow> Inr (map (to_string t) xs) | _ \<Rightarrow> pathSegments False (text_or_empty t v))"

definition rule_segments :: "js_text \<Rightarrow> json \<Rightarrow> string \<Rightarrow> string list res" where
  "rule_segments t r k = path_or_segments t (rule_field r k)"

definition normalizeRule :: "data_env \<Rightarrow> json \<Rightarrow> nat \<Rightarrow> string \<Rightarrow> json res" where
  "normalizeRule e rule index kind =
     (let code = ''DATA_CONTRACT_'' @ kind @ ''_INVALID''; here = ''$rules['' @ nat_str index @ '']'' in
      case rule of
        JObj fs \<Rightarrow>
          bindE (safeClone (de_num_size e) RULE_LIMITS ''$'' rule) (\<lambda>r.
          case truthy_or (rule_field r ''ruleId'') None of
            None \<Rightarrow> Inl (dataError code (here @ ''.ruleId''))
          | Some v \<Rightarrow> if is_rule_id (to_string (de_text e) v) then Inr r else Inl (dataError code (here @ ''.ruleId'')))
      | _ \<Rightarrow> Inl (dataError code here))"

definition hashValue :: "data_env \<Rightarrow> bool \<Rightarrow> string \<Rightarrow> json \<Rightarrow> json res" where
  "hashValue e pseudonymized purpose v =
     bindE (case v of JStr s \<Rightarrow> Inr s | _ \<Rightarrow> canonicalize (de_text e) v) (\<lambda>text.
     if length text < 8 then Inl (transformation_invalid ''$transformation'')
     else Inr (JStr (if pseudonymized then de_digest e (''delegation-pseudonym:'' @ purpose) text else de_sha256 e purpose text)))"

text \<open>The length that \<open>Math.max(0, Math.min(n, limit))\<close> gives to \<open>slice\<close>, where \<open>NaN\<close> is zero.\<close>

definition js_min :: "jsnum \<Rightarrow> jsnum \<Rightarrow> jsnum" where
  "js_min a b = (if a = NaN \<or> b = NaN then NaN else if js_le a b then a else b)"

definition slice_index :: "jsnum \<Rightarrow> nat" where
  "slice_index n = (case n of Fin r \<Rightarrow> nat \<lfloor>r\<rfloor> | _ \<Rightarrow> 0)"

definition clipped :: "jsnum \<Rightarrow> int \<Rightarrow> jsnum" where
  "clipped n limit = js_max (Fin 0) (js_min n (num_of_int limit))"

definition slice_to :: "jsnum \<Rightarrow> int \<Rightarrow> 'a list \<Rightarrow> 'a list" where
  "slice_to n limit xs = take (slice_index (clipped n limit)) xs"

text \<open>\<open>xs.slice(start, start + length)\<close> for a start that is not negative; an infinite start is past the end.\<close>

definition slice_from :: "jsnum \<Rightarrow> jsnum \<Rightarrow> 'a list \<Rightarrow> 'a list" where
  "slice_from start len xs =
     (case (start, len) of
        (Fin a, Fin l) \<Rightarrow> take (nat \<lfloor>a + l\<rfloor> - nat \<lfloor>a\<rfloor>) (drop (nat \<lfloor>a\<rfloor>) xs)
      | _ \<Rightarrow> [])"

subsection \<open>Transformations\<close>

text \<open>The value that a rule puts at its path, for the operations on a single value.\<close>

definition normalize_boolean :: "string \<Rightarrow> json \<Rightarrow> json res" where
  "normalize_boolean path v =
     (case v of
        JBool b \<Rightarrow> Inr v
      | _ \<Rightarrow> if v \<in> set [JStr ''true'', JStr ''1'', JNum (Fin 1)] then Inr (JBool True)
             else if v \<in> set [JStr ''false'', JStr ''0'', JNum (Fin 0)] then Inr (JBool False)
             else Inl (transformation_invalid path))"

definition map_enum :: "data_env \<Rightarrow> string \<Rightarrow> json \<Rightarrow> json \<Rightarrow> json res" where
  "map_enum e path rule v =
     (case own_property (case truthy_or (rule_field rule ''mapping'') None of None \<Rightarrow> JObj [] | Some m \<Rightarrow> m)
             (to_string (de_text e) v) of
        None \<Rightarrow> Inl (transformation_invalid path) | Some w \<Rightarrow> Inr w)"

definition flattened_name :: "string \<Rightarrow> string" where
  "flattened_name field = map (\<lambda>c. if c = CHR ''.'' then CHR ''_'' else c) field"

text \<open>An assignment to \<open>__proto__\<close> makes no field.\<close>

fun flatten_fields :: "js_text \<Rightarrow> json \<Rightarrow> json list \<Rightarrow> (string \<times> json) list \<Rightarrow> (string \<times> json) list res" where
  "flatten_fields t v [] fs = Inr fs"
| "flatten_fields t v (f # rest) fs =
     bindE (path_or_segments t (Some f)) (\<lambda>ss.
     flatten_fields t v rest
       (case readOwnPath v ss of
          None \<Rightarrow> fs
        | Some w \<Rightarrow> let name = flattened_name (to_string t f) in if name = ''__proto__'' then fs else AList.update name w fs))"

definition transform_value :: "data_env \<Rightarrow> data_limits \<Rightarrow> json \<Rightarrow> string \<Rightarrow> json \<Rightarrow> json res" where
  "transform_value e L rule operation v =
     (let t = de_text e; path = rule_text t rule ''path'' in
      if operation = ''truncate_string'' then
        (case v of JStr s \<Rightarrow> Inr (JStr (slice_to (rule_number t rule ''maximumLength'') (dl_string_length L) s))
         | _ \<Rightarrow> Inl (transformation_invalid path))
      else if operation = ''slice_array'' then
        (case v of
           JArr xs \<Rightarrow> Inr (JArr (slice_from (js_max (Fin 0) (rule_number_or_zero t rule ''start''))
             (clipped (rule_number t rule ''maximumItems'') (dl_array_items L)) xs))
         | _ \<Rightarrow> Inl (transformation_invalid path))
      else if operation = ''normalize_date'' then
        (let n = time_value t (Some v) in if n = NaN then Inl (transformation_invalid path) else Inr (JStr (de_iso e n)))
      else if operation = ''map_enum'' then map_enum e path rule v
      else if operation = ''clamp_number'' then
        (case v of
           JNum n \<Rightarrow> if js_finite n = None then Inl (transformation_invalid path)
             else Inr (JNum (js_min (rule_number t rule ''maximum'') (js_max (rule_number t rule ''minimum'') n)))
         | _ \<Rightarrow> Inl (transformation_invalid path))
      else if operation = ''normalize_boolean'' then normalize_boolean path v
      else if operation = ''wrap_object'' then
        (let key = (case truthy_or (rule_field rule ''wrapperKey'') None of None \<Rightarrow> ''value'' | Some k \<Rightarrow> to_string t k)
         in bindE (pathSegments False key) (\<lambda>_. Inr (JObj [(key, v)])))
      else if operation = ''flatten_object'' then
        (case v of
           JObj _ \<Rightarrow> bindE (flatten_fields t v (case rule_field rule ''fields'' of Some (JArr fs) \<Rightarrow> take maximumFields fs | _ \<Rightarrow> []) [])
             (\<lambda>gs. Inr (JObj gs))
         | _ \<Rightarrow> Inl (transformation_invalid path))
      else if operation = ''sha256'' then hashValue e False (rule_text t rule ''ruleId'') v
      else if operation = ''pseudonymize'' then hashValue e True (rule_text t rule ''ruleId'') v
      else Inr v)"

text \<open>\<open>replacePath\<close>: the value at the path is replaced or, where the new one is undefined, deleted.\<close>

definition replacePath ::
  "string list res \<Rightarrow> (json \<Rightarrow> json option res) \<Rightarrow> (string \<times> json) list \<Rightarrow> ((string \<times> json) list \<times> bool) res" where
  "replacePath path transform fs =
     bindE path (\<lambda>ss.
     case readOwnPath (JObj fs) ss of
       None \<Rightarrow> Inr (fs, False)
     | Some v \<Rightarrow>
         bindE (transform v) (\<lambda>next.
         case next of
           None \<Rightarrow> Inr (deletePath ss fs, True)
         | Some w \<Rightarrow> bindE (assignPath ss w fs) (\<lambda>gs. Inr (gs, True))))"

definition transform_literal :: "data_env \<Rightarrow> data_limits \<Rightarrow> json \<Rightarrow> (string \<times> json) list \<Rightarrow> ((string \<times> json) list \<times> bool) res" where
  "transform_literal e L rule fs =
     (case rule_field rule ''value'' of
        None \<Rightarrow>
          bindE (rule_segments (de_text e) rule ''targetPath'') (\<lambda>ss.
          bindE (assignPath ss JNull fs) (\<lambda>gs. Inr (deletePath ss gs, True)))
      | Some v \<Rightarrow>
          bindE (safeClone (de_num_size e) L ''$'' v) (\<lambda>w.
          bindE (rule_segments (de_text e) rule ''targetPath'') (\<lambda>ss.
          bindE (assignPath ss w fs) (\<lambda>gs. Inr (gs, True)))))"

definition transform_rename :: "data_env \<Rightarrow> json \<Rightarrow> (string \<times> json) list \<Rightarrow> ((string \<times> json) list \<times> bool) res" where
  "transform_rename e rule fs =
     bindE (rule_segments (de_text e) rule ''path'') (\<lambda>ss.
     case readOwnPath (JObj fs) ss of
       None \<Rightarrow> Inr (fs, False)
     | Some v \<Rightarrow>
         bindE (rule_segments (de_text e) rule ''targetPath'') (\<lambda>ts.
         bindE (assignPath ts v fs) (\<lambda>gs. Inr (deletePath ss gs, True))))"

definition transform_select :: "data_env \<Rightarrow> json \<Rightarrow> (string \<times> json) list \<Rightarrow> ((string \<times> json) list \<times> bool) res" where
  "transform_select e rule fs =
     bindE (rule_segments (de_text e) rule ''path'') (\<lambda>ss.
     case readOwnPath (JObj fs) ss of
       None \<Rightarrow> Inr (fs, False)
     | Some v \<Rightarrow>
         bindE (path_or_segments (de_text e) (truthy_or (rule_field rule ''targetPath'') (rule_field rule ''path''))) (\<lambda>ts.
         bindE (assignPath ts v []) (\<lambda>gs. Inr (gs, True))))"

definition transform_rule ::
  "data_env \<Rightarrow> data_limits \<Rightarrow> nat \<Rightarrow> json \<Rightarrow> (string \<times> json) list \<Rightarrow> ((string \<times> json) list \<times> bool) res" where
  "transform_rule e L index raw fs =
     bindE (normalizeRule e raw index ''TRANSFORMATION'') (\<lambda>rule.
     case rule_field rule ''operation'' of
       Some (JStr operation) \<Rightarrow>
         if operation \<notin> set TRANSFORMATION_OPERATIONS
         then Inl (transformation_invalid (''$transformationRules['' @ nat_str index @ ''].operation''))
         else if operation = ''literal'' then transform_literal e L rule fs
         else if operation = ''rename'' then transform_rename e rule fs
         else if operation = ''select'' then transform_select e rule fs
         else replacePath (rule_path (de_text e) rule ''path'')
           (\<lambda>v. bindE (transform_value e L rule operation v) (\<lambda>w. Inr (Some w))) fs
     | _ \<Rightarrow> Inl (transformation_invalid (''$transformationRules['' @ nat_str index @ ''].operation'')))"

text \<open>The rules one after the other, with the number of those that changed the payload.\<close>

fun apply_rules ::
  "(nat \<Rightarrow> json \<Rightarrow> (string \<times> json) list \<Rightarrow> ((string \<times> json) list \<times> bool) res) \<Rightarrow> nat \<Rightarrow> json list \<Rightarrow>
   (string \<times> json) list \<Rightarrow> nat \<Rightarrow> ((string \<times> json) list \<times> nat) res" where
  "apply_rules step index [] fs n = Inr (fs, n)"
| "apply_rules step index (r # rs) fs n =
     bindE (step index r fs) (\<lambda>(gs, changed). apply_rules step (index + 1) rs gs (if changed then n + 1 else n))"

definition rules_applied ::
  "data_env \<Rightarrow> data_limits \<Rightarrow> string \<Rightarrow> string \<Rightarrow> (nat \<Rightarrow> json \<Rightarrow> (string \<times> json) list \<Rightarrow> ((string \<times> json) list \<times> bool) res) \<Rightarrow>
   json list \<Rightarrow> (string \<times> json) list \<Rightarrow> ((string \<times> json) list \<times> nat) res" where
  "rules_applied e L code path step rules payload =
     (if maximumRules < length rules then Inl (dataError code path)
      else
      bindE (cloned_fields (de_num_size e) L payload) (\<lambda>fs.
      bindE (apply_rules step 0 rules fs 0) (\<lambda>(gs, n).
      bindE (cloned_fields (de_num_size e) L gs) (\<lambda>hs. Inr (hs, n)))))"

definition applyTransformations ::
  "data_env \<Rightarrow> data_limits \<Rightarrow> json list \<Rightarrow> (string \<times> json) list \<Rightarrow> ((string \<times> json) list \<times> nat) res" where
  "applyTransformations e L =
     rules_applied e L ''DATA_CONTRACT_TRANSFORMATION_INVALID'' ''$transformationRules'' (transform_rule e L)"

subsection \<open>Redactions\<close>

text \<open>\<open>Math.max(0, Math.min(n, 16, length))\<close>, the two lengths that the mask computes from it, and the mask.\<close>

definition visible_suffix :: "js_text \<Rightarrow> json \<Rightarrow> string \<Rightarrow> jsnum" where
  "visible_suffix t rule s =
     js_max (Fin 0) (js_min (js_min
       (case rule_field rule ''visibleSuffix'' of None \<Rightarrow> Fin 4 | Some _ \<Rightarrow> rule_number_or_zero t rule ''visibleSuffix'')
       (Fin 16)) (num_of_int (int (length s))))"

definition mask_suffix :: "jsnum \<Rightarrow> string \<Rightarrow> string" where
  "mask_suffix suffix s =
     (case suffix of
        Fin r \<Rightarrow> replicate (nat \<lfloor>min 12 (max 4 (of_nat (length s) - r))\<rfloor>) CHR ''*'' @ drop (nat \<lfloor>of_nat (length s) - r\<rfloor>) s
      | _ \<Rightarrow> s)"

definition mask :: "js_text \<Rightarrow> json \<Rightarrow> json \<Rightarrow> string" where
  "mask t rule v = (let s = to_string t v in mask_suffix (visible_suffix t rule s) s)"

definition redact_value :: "data_env \<Rightarrow> json \<Rightarrow> string \<Rightarrow> json \<Rightarrow> json option res" where
  "redact_value e rule action v =
     (let t = de_text e in
      if action = ''remove'' then Inr None
      else if action = ''replace'' then
        Inr (Some (JStr (take 100 (case truthy_or (rule_field rule ''marker'') None of
          None \<Rightarrow> ''[REDACTED]'' | Some m \<Rightarrow> to_string t m))))
      else if action = ''mask'' then Inr (Some (JStr (mask t rule v)))
      else if action = ''truncate'' then
        Inr (Some (JStr (slice_to (rule_number_or_zero t rule ''maximumLength'') 1000 (to_string t v))))
      else if action = ''sha256'' then bindE (hashValue e False (rule_text t rule ''ruleId'') v) (\<lambda>w. Inr (Some w))
      else if action = ''pseudonymize'' then bindE (hashValue e True (rule_text t rule ''ruleId'') v) (\<lambda>w. Inr (Some w))
      else Inr None)"

definition redact_rule ::
  "data_env \<Rightarrow> nat \<Rightarrow> json \<Rightarrow> (string \<times> json) list \<Rightarrow> ((string \<times> json) list \<times> bool) res" where
  "redact_rule e index raw fs =
     bindE (normalizeRule e raw index ''REDACTION'') (\<lambda>rule.
     case rule_field rule ''action'' of
       Some (JStr action) \<Rightarrow>
         if action \<notin> set REDACTION_ACTIONS
         then Inl (dataError ''DATA_CONTRACT_REDACTION_INVALID'' (''$redactionRules['' @ nat_str index @ ''].action''))
         else replacePath (rule_path (de_text e) rule ''path'') (redact_value e rule action) fs
     | _ \<Rightarrow> Inl (dataError ''DATA_CONTRACT_REDACTION_INVALID'' (''$redactionRules['' @ nat_str index @ ''].action'')))"

definition applyRedactions ::
  "data_env \<Rightarrow> data_limits \<Rightarrow> json list \<Rightarrow> (string \<times> json) list \<Rightarrow> ((string \<times> json) list \<times> nat) res" where
  "applyRedactions e L =
     rules_applied e L ''DATA_CONTRACT_REDACTION_INVALID'' ''$redactionRules'' (redact_rule e)"

subsection \<open>Minimization\<close>

fun countFields :: "json \<Rightarrow> nat" where
  "countFields (JArr xs) = sum_list (map countFields xs)"
| "countFields (JObj fs) = sum_list (map (\<lambda>(k, w). 1 + countFields w) fs)"
| "countFields _ = 0"

definition empty_value :: "json \<Rightarrow> bool" where
  "empty_value v \<longleftrightarrow> v = JObj [] \<or> v = JArr []"

text \<open>Whether a minimized field of an object is kept.\<close>

definition keeps_field :: "bool \<Rightarrow> string list \<Rightarrow> string \<Rightarrow> json \<Rightarrow> bool" where
  "keeps_field removeOptional required k w \<longleftrightarrow>
     k \<in> set required \<or> (w \<noteq> JNull \<and> \<not> empty_value w \<and> \<not> removeOptional)"

definition declared :: "json \<Rightarrow> string \<Rightarrow> bool" where
  "declared schema k \<longleftrightarrow> field_of (properties_of schema) k \<noteq> None \<and> \<not> dangerousSegment k"

definition subschema :: "json \<Rightarrow> string \<Rightarrow> json" where
  "subschema schema k = (case field_of (properties_of schema) k of None \<Rightarrow> JObj [] | Some s \<Rightarrow> s)"

definition items_of :: "json \<Rightarrow> json" where
  "items_of schema = (case truthy_field schema ''items'' of None \<Rightarrow> JObj [] | Some s \<Rightarrow> s)"

lemma size_taken_value [termination_simp]: "x \<in> set (take n xs) \<Longrightarrow> size (x :: json) < Suc (size_list size xs)"
  using size_list_estimation' [of x xs "size x" size] by (fastforce dest: in_set_takeD)

fun minimizeBySchema :: "data_limits \<Rightarrow> bool \<Rightarrow> json \<Rightarrow> json \<Rightarrow> json" where
  "minimizeBySchema L ro schema (JArr xs) =
     JArr (map (\<lambda>x. minimizeBySchema L ro (items_of schema) x) (take (nat (dl_array_items L)) xs))"
| "minimizeBySchema L ro schema (JStr s) = JStr (take (nat (dl_string_length L)) s)"
| "minimizeBySchema L ro schema (JObj fs) =
     JObj (filter (\<lambda>(k, w). keeps_field ro (required_of schema) k w)
       (map (\<lambda>(k, w). (k, minimizeBySchema L ro (subschema schema k) w)) (filter (\<lambda>(k, w). declared schema k) (sort_key fst fs))))"
| "minimizeBySchema L ro schema v = v"

definition removes_optional :: "json list \<Rightarrow> bool" where
  "removes_optional rules = list_ex (\<lambda>r. rule_field r ''operation'' = Some (JStr ''remove_optional'')) rules"

definition applyMinimization ::
  "data_env \<Rightarrow> data_limits \<Rightarrow> json \<Rightarrow> json list \<Rightarrow> (string \<times> json) list \<Rightarrow> ((string \<times> json) list \<times> nat) res" where
  "applyMinimization e L schema rules payload =
     bindE (cloned_fields (de_num_size e) L payload) (\<lambda>fs.
     bindE (cloned_fields (de_num_size e) L (entries (minimizeBySchema L (removes_optional rules) schema (JObj fs)))) (\<lambda>gs.
     Inr (gs, countFields (JObj fs) - countFields (JObj gs))))"

subsection \<open>Classification and residency\<close>

definition DATA_CLASSIFICATIONS :: "string list" where
  "DATA_CLASSIFICATIONS = [''public'', ''internal'', ''confidential'', ''restricted'']"

text \<open>\<open>CLASSIFICATION_RANK[value]\<close>.\<close>

fun position_in :: "string list \<Rightarrow> string \<Rightarrow> int option" where
  "position_in [] v = None"
| "position_in (x # xs) v = (if x = v then Some 0 else map_option (\<lambda>i. i + 1) (position_in xs v))"

definition CLASSIFICATION_RANK :: "string \<Rightarrow> int option" where
  "CLASSIFICATION_RANK v = position_in DATA_CLASSIFICATIONS v"

definition rank_of :: "string \<Rightarrow> int" where
  "rank_of v = (case CLASSIFICATION_RANK v of None \<Rightarrow> 0 | Some i \<Rightarrow> i)"

definition highestClassification :: "string list \<Rightarrow> string \<Rightarrow> string" where
  "highestClassification vs fallback =
     (let normalized = map js_lower vs in
      if \<not> set normalized \<subseteq> set DATA_CLASSIFICATIONS \<or> normalized = [] then fallback
      else hd (sort_by (\<lambda>l r. rank_of r - rank_of l) normalized))"

record data_contract =
  dc_allowed_input :: "string list"
  dc_denied_input :: "string list"
  dc_allowed_output :: "string list"
  dc_denied_output :: "string list"
  dc_source_mapping :: "(string \<times> json) list"
  dc_target_mapping :: "(string \<times> json) list"
  dc_downstream_mapping :: "(string \<times> json) list"
  dc_transformations :: "json list"
  dc_redactions :: "json list"
  dc_minimizations :: "json list"
  dc_input_schema :: json
  dc_output_schema :: json
  dc_limits :: limits_input
  dc_classifications :: "string list"
  dc_maximum_classification :: string
  dc_regions :: "string list"
  dc_residency :: "string list"

record data_target =
  dt_classifications :: "string list"
  dt_regions :: "string list"
  dt_residency :: "string list"

definition classification_denied :: app_error where
  "classification_denied = dataError ''DATA_CONTRACT_CLASSIFICATION_DENIED'' ''$''"

text \<open>A comparison with the rank of an unknown ceiling is false.\<close>

definition exceeds_ceiling :: "string \<Rightarrow> string \<Rightarrow> bool" where
  "exceeds_ceiling v maximum =
     (case (CLASSIFICATION_RANK v, CLASSIFICATION_RANK maximum) of (Some i, Some m) \<Rightarrow> m < i | _ \<Rightarrow> False)"

definition assertClassificationAllowed :: "string \<Rightarrow> data_contract \<Rightarrow> data_target \<Rightarrow> string res" where
  "assertClassificationAllowed effective contract target =
     (let v = js_lower effective in
      if v \<notin> set DATA_CLASSIFICATIONS then Inl classification_denied
      else if exceeds_ceiling v (dc_maximum_classification contract) then Inl classification_denied
      else if dc_classifications contract \<noteq> [] \<and> v \<notin> set (dc_classifications contract) then Inl classification_denied
      else if dt_classifications target \<noteq> [] \<and> v \<notin> set (dt_classifications target) then Inl classification_denied
      else Inr v)"

definition assertRegionResidency :: "data_contract \<Rightarrow> data_target \<Rightarrow> string list \<Rightarrow> unit res" where
  "assertRegionResidency contract target requirements =
     (let regions = set (map js_upper (dt_regions target)); residency = set (map js_upper (dt_residency target));
          allowed = map js_upper (dc_regions contract); required = map js_upper (dc_residency contract @ requirements) in
      if allowed \<noteq> [] \<and> (regions = {} \<or> \<not> list_ex (\<lambda>r. r \<in> regions) allowed)
      then Inl (dataError ''DATA_CONTRACT_RESIDENCY_DENIED'' ''$'')
      else if required \<noteq> [] \<and> (residency = {} \<or> list_ex (\<lambda>r. r \<notin> residency) required)
      then Inl (dataError ''DATA_CONTRACT_RESIDENCY_DENIED'' ''$'')
      else Inr ())"

subsection \<open>The pipelines\<close>

fun countOwnEnumerableFields :: "json \<Rightarrow> nat" where
  "countOwnEnumerableFields (JArr xs) = sum_list (map countOwnEnumerableFields xs)"
| "countOwnEnumerableFields (JObj fs) = sum_list (map (\<lambda>(k, w). 1 + countOwnEnumerableFields w) fs)"
| "countOwnEnumerableFields _ = 0"

record data_statistics =
  st_original :: nat
  st_delegated :: nat
  st_removed :: nat
  st_redacted :: nat
  st_transformed :: nat
  st_original_bytes :: nat
  st_delegated_bytes :: nat

record data_context =
  cx_run_input :: json
  cx_metadata :: json
  cx_dependency :: json

definition context_sources :: "data_context \<Rightarrow> (string \<times> json) list \<Rightarrow> data_sources" where
  "context_sources cx fs =
     \<lparr>ds_source = JObj fs, ds_run_input = cx_run_input cx, ds_metadata = cx_metadata cx, ds_dependency = cx_dependency cx\<rparr>"

definition mapped_fields ::
  "data_env \<Rightarrow> data_limits \<Rightarrow> (string \<times> json) list \<Rightarrow> data_context \<Rightarrow> (string \<times> json) list \<Rightarrow> (string \<times> json) list res" where
  "mapped_fields e L mapping cx fs =
     (if mapping = [] then Inr fs else applyMapping (de_num_size e) L mapping (context_sources cx fs))"

definition processDelegatedInput ::
  "data_env \<Rightarrow> json \<Rightarrow> data_contract \<Rightarrow> data_context \<Rightarrow> ((string \<times> json) list \<times> data_statistics) res" where
  "processDelegatedInput e input c cx =
     (let L = normalizedLimits (dc_limits c) in
     bindE (safeClone (de_num_size e) L ''$'' input) (\<lambda>original.
     bindE (extractAllowedFields (de_num_size e) L original (dc_allowed_input c) (dc_denied_input c)) (\<lambda>extracted.
     bindE (mapped_fields e L (dc_source_mapping c) cx extracted) (\<lambda>sourced.
     bindE (mapped_fields e L (dc_target_mapping c) cx sourced) (\<lambda>targeted.
     bindE (applyTransformations e L (dc_transformations c) targeted) (\<lambda>(transformed, transforms).
     bindE (applyRedactions e L (dc_redactions c) transformed) (\<lambda>(redacted, redactions).
     bindE (applyMinimization e L (dc_input_schema c) (dc_minimizations c) redacted) (\<lambda>(minimized, removed).
     bindE (cloned_fields (de_num_size e) L minimized) (\<lambda>payload.
     Inr (payload,
       \<lparr>st_original = countOwnEnumerableFields input, st_delegated = countFields (JObj payload),
        st_removed = countOwnEnumerableFields input - countFields (JObj payload) + removed,
        st_redacted = redactions, st_transformed = transforms,
        st_original_bytes = json_size (de_num_size e) original,
        st_delegated_bytes = json_size (de_num_size e) (JObj payload)\<rparr>))))))))))"

definition no_context :: data_context where
  "no_context = \<lparr>cx_run_input = JObj [], cx_metadata = JObj [], cx_dependency = JObj []\<rparr>"

definition processDelegatedOutput ::
  "data_env \<Rightarrow> json \<Rightarrow> data_contract \<Rightarrow> ((string \<times> json) list \<times> data_statistics) res" where
  "processDelegatedOutput e output c =
     (let L = normalizedLimits (dc_limits c) in
     bindE (safeClone (de_num_size e) L ''$'' output) (\<lambda>original.
     bindE (extractAllowedFields (de_num_size e) L original (dc_allowed_output c) (dc_denied_output c)) (\<lambda>extracted.
     bindE (mapped_fields e L (dc_downstream_mapping c) no_context extracted) (\<lambda>mapped.
     bindE (applyMinimization e L (dc_output_schema c) (dc_minimizations c) mapped) (\<lambda>(minimized, removed).
     bindE (cloned_fields (de_num_size e) L minimized) (\<lambda>payload.
     Inr (payload,
       \<lparr>st_original = countOwnEnumerableFields output, st_delegated = countFields (JObj payload),
        st_removed = countOwnEnumerableFields output - countFields (JObj payload), st_redacted = 0, st_transformed = 0,
        st_original_bytes = 0, st_delegated_bytes = json_size (de_num_size e) (JObj payload)\<rparr>)))))))"

end
