(* ===== verification/Delegated_Safety.thy ===== *)
theory Delegated_Safety
  imports Delegated_Rules "HOL-Library.Sublist"
begin

text \<open>
  What delegated data guarantees: a safe copy is the value without its hidden fields, within the limits; what is extracted
  comes from an allowed field and from no denied one; a delegated payload has only fields that the contract's schema declares.
\<close>

subsection \<open>Safe copies\<close>

text \<open>The value without its hidden fields, the fields of an object in order.\<close>

fun strip_hidden :: "json \<Rightarrow> json" where
  "strip_hidden (JArr xs) = JArr (map strip_hidden xs)"
| "strip_hidden (JObj fs) = JObj (map (\<lambda>(k, w). (k, strip_hidden w)) (visible_fields fs))"
| "strip_hidden v = v"

text \<open>Within the limits at a depth, with safe keys that are not hidden.\<close>

fun within_limits :: "(rat \<Rightarrow> nat) \<Rightarrow> data_limits \<Rightarrow> int \<Rightarrow> json \<Rightarrow> bool" where
  "within_limits num_size L d (JNum n) = (d \<le> dl_object_depth L \<and> js_finite n \<noteq> None)"
| "within_limits num_size L d (JStr s) = (d \<le> dl_object_depth L \<and> int (length s) \<le> dl_string_length L)"
| "within_limits num_size L d (JArr xs) =
     (d \<le> dl_object_depth L \<and> int (length xs) \<le> dl_array_items L \<and> (\<forall>x\<in>set xs. within_limits num_size L (d + 1) x)
      \<and> int (json_size num_size (JArr xs)) \<le> dl_payload_bytes L)"
| "within_limits num_size L d (JObj fs) =
     (d \<le> dl_object_depth L \<and> (\<forall>(k, w)\<in>set fs. SAFE_SEGMENT k \<and> \<not> dangerousSegment k \<and> within_limits num_size L (d + 1) w)
      \<and> int (json_size num_size (JObj fs)) \<le> dl_payload_bytes L)"
| "within_limits num_size L d v = (d \<le> dl_object_depth L)"

lemma length_split_dots: "length (split_dots s) = Suc (count_list s CHR ''.'')"
proof (induction s)
  case (Cons c s)
  then show ?case by (cases "split_dots s") auto
qed simp

lemma path_depth_eq: "path_depth p = int (count_list p CHR ''.'')"
  by (simp add: path_depth_def length_split_dots)

lemma path_depth_field: "CHR ''.'' \<notin> set k \<Longrightarrow> path_depth (field_path p k) = path_depth p + 1"
  by (simp add: path_depth_eq field_path_def count_list_append count_notin)

lemma segment_tail_no_dot: "segment_tail c \<Longrightarrow> c \<noteq> CHR ''.''" "is_alpha c \<Longrightarrow> c \<noteq> CHR ''.''"
  by (auto simp: segment_tail_def char_class_defs)

lemma SAFE_SEGMENT_no_dot: "SAFE_SEGMENT k \<Longrightarrow> CHR ''.'' \<notin> set k"
  by (cases k) (auto simp: SAFE_SEGMENT_def bounded_pattern_def list_all_iff dest: segment_tail_no_dot)

lemma nat_str_digits: "c \<in> set (nat_str n) \<Longrightarrow> is_digit c"
proof (induction n rule: nat_str.induct)
  case (1 n)
  show ?case
  proof (cases "n < 10")
    case True
    with 1 have "c = char_of (48 + n)" by (simp add: nat_str.simps [of n])
    with True show ?thesis by (simp add: is_digit_def char_code_def)
  next
    case False
    with 1(2) have "c \<in> set (nat_str (n div 10)) \<or> c = char_of (48 + n mod 10)" by (auto simp: nat_str.simps [of n])
    then show ?thesis
    proof
      assume "c = char_of (48 + n mod 10)"
      moreover have "n mod 10 < 10" by simp
      ultimately show ?thesis by (simp add: is_digit_def char_code_def)
    qed (use 1(1) False in simp)
  qed
qed

lemma nat_str_no_dot: "CHR ''.'' \<notin> set (nat_str n)"
  using nat_str_digits [of "CHR ''.''" n] by (auto simp: char_class_defs)

lemma index_entries_keys: "(k, w) \<in> set (index_entries xs) \<Longrightarrow> \<exists>n<length xs. k = nat_str n \<and> w = xs ! n"
  by (auto simp: index_entries_def set_zip)

lemma hidden_safe: "k \<in> set HIDDEN_FIELDS \<Longrightarrow> \<not> unsafe_key k"
proof -
  have "list_all (\<lambda>k. \<not> unsafe_key k) HIDDEN_FIELDS" by code_simp
  then show "k \<in> set HIDDEN_FIELDS \<Longrightarrow> \<not> unsafe_key k" by (simp add: list_all_iff)
qed

lemma bounded_size_Inr [simp]:
  "bounded_size num_size L path v = Inr w \<longleftrightarrow> w = v \<and> int (json_size num_size v) \<le> dl_payload_bytes L"
  by (auto simp: bounded_size_def)

lemma mapE_exact:
  assumes "\<And>x y. x \<in> set xs \<Longrightarrow> f x = Inr y \<longleftrightarrow> y = g x \<and> P x"
  shows "mapE f xs = Inr ys \<longleftrightarrow> ys = map g xs \<and> (\<forall>x\<in>set xs. P x)"
  using assms by (induction xs arbitrary: ys) (auto simp: bindE_Inr_iff)

text \<open>A copy succeeds exactly on the values whose visible part is within the limits, and is that part.\<close>

lemma safeClone_exact_aux:
  "safeClone num_size L path v = Inr w \<longleftrightarrow> w = strip_hidden v \<and> within_limits num_size L (path_depth path) (strip_hidden v)"
proof (induction num_size L path v arbitrary: w rule: safeClone.induct)
  case (1 num_size L path v)
  show ?case
  proof (cases "dl_object_depth L < path_depth path")
    case True
    then show ?thesis by (cases v) (auto simp: safeClone.simps [of num_size L path])
  next
    case deep: False
    show ?thesis
    proof (cases v)
      case (JArr xs)
      show ?thesis
      proof (cases "dl_array_items L < int (length xs)")
        case True
        with deep JArr show ?thesis by (auto simp: safeClone.simps [of num_size L path])
      next
        case False
        let ?f = "\<lambda>(k, w). safeClone num_size L (field_path path k) w"
        have "?f x = Inr y \<longleftrightarrow> y = strip_hidden (snd x) \<and> within_limits num_size L (path_depth path + 1) (strip_hidden (snd x))"
          if "x \<in> set (index_entries xs)" for x y
        proof -
          obtain k u where x: "x = (k, u)" by (cases x)
          then have "path_depth (field_path path k) = path_depth path + 1"
            using that index_entries_keys nat_str_no_dot by (metis path_depth_field)
          then show ?thesis using "1.IH"(1) [OF deep JArr False, of "(k, u)" k u] that x by simp
        qed
        note m = mapE_exact [of "index_entries xs" ?f "\<lambda>x. strip_hidden (snd x)"
          "\<lambda>x. within_limits num_size L (path_depth path + 1) (strip_hidden (snd x))", OF this]
        have s: "map (\<lambda>x. strip_hidden (snd x)) (index_entries xs) = map strip_hidden xs"
          unfolding map_map [symmetric, unfolded o_def] by (simp add: index_entries_def)
        have a: "(\<forall>x\<in>set (index_entries xs). P (snd x)) \<longleftrightarrow> (\<forall>x\<in>set xs. P x)" for P
          using all_index_entries [of xs P] by (simp add: case_prod_unfold)
        show ?thesis using deep JArr False
          by (auto simp: safeClone.simps [of num_size L path] bindE_Inr_iff m s
            a [of "\<lambda>u. within_limits num_size L (path_depth path + 1) (strip_hidden u)"])
      qed
    next
      case (JObj fs)
      let ?f = "\<lambda>(k, w). if unsafe_key k then Inl (dataError ''INTER_AGENT_DANGEROUS_PATH'' (field_path path k))
              else bindE (safeClone num_size L (field_path path k) w) (\<lambda>u. Inr (k, u))"
      have "?f x = Inr y \<longleftrightarrow> y = (\<lambda>(k, w). (k, strip_hidden w)) x
          \<and> (\<lambda>(k, w). SAFE_SEGMENT k \<and> \<not> dangerousSegment k \<and> within_limits num_size L (path_depth path + 1) (strip_hidden w)) x"
        if "x \<in> set (visible_fields fs)" for x y
      proof -
        obtain k u where x: "x = (k, u)" by (cases x)
        then have h: "k \<notin> set HIDDEN_FIELDS" using that by simp
        show ?thesis
        proof (cases "unsafe_key k")
          case True
          with x show ?thesis by (auto simp: unsafe_key_def dangerousSegment_def)
        next
          case False
          then have "path_depth (field_path path k) = path_depth path + 1"
            by (intro path_depth_field) (simp add: unsafe_key_def SAFE_SEGMENT_no_dot)
          then show ?thesis using "1.IH"(2) [OF deep JObj, of "(k, u)" k u] that x False h
            by (auto simp: bindE_Inr_iff unsafe_key_def dangerousSegment_def)
        qed
      qed
      then have m: "mapE ?f (visible_fields fs) = Inr gs \<longleftrightarrow> gs = map (\<lambda>(k, w). (k, strip_hidden w)) (visible_fields fs)
          \<and> (\<forall>x\<in>set (visible_fields fs). case x of (k, w) \<Rightarrow>
                SAFE_SEGMENT k \<and> \<not> dangerousSegment k \<and> within_limits num_size L (path_depth path + 1) (strip_hidden w))" for gs
        by (rule mapE_exact)
      have "safeClone num_size L path v = Inr w \<longleftrightarrow>
          (\<exists>gs. mapE ?f (visible_fields fs) = Inr gs \<and> bounded_size num_size L path (JObj gs) = Inr w)"
        using deep JObj by (simp add: safeClone.simps [of num_size L path] bindE_Inr_iff)
      also have "\<dots> \<longleftrightarrow> w = strip_hidden v \<and> within_limits num_size L (path_depth path) (strip_hidden v)"
        unfolding m using deep JObj by (simp del: set_visible_fields json_size.simps add: split_beta' ball_simps not_less) blast
      finally show ?thesis .
    qed (use deep in \<open>auto simp: safeClone.simps [of num_size L path]\<close>)
  qed
qed

lemma map_of_sort_key: "map_of (sort_key fst fs) k = map_of fs k"
proof -
  have f: "map_of xs k = map_of (filter (\<lambda>x. fst x = k) xs) k" for xs
    by (induction xs) auto
  have "filter (\<lambda>x. fst x = k) (sort_key fst fs) = filter (\<lambda>x. fst x = k) fs"
    by (rule sort_key_stable)
  then show ?thesis by (metis f)
qed

lemma map_of_filter_key: "map_of (filter (\<lambda>(k, w). k \<notin> H) xs) k = (if k \<in> H then None else map_of xs k)"
  by (induction xs) auto

lemma map_of_visible: "map_of (visible_fields fs) k = (if k \<in> set HIDDEN_FIELDS then None else map_of fs k)"
  by (simp add: visible_fields_def map_of_filter_key map_of_sort_key)

lemma map_of_map_snd: "map_of (map (\<lambda>(k, w). (k, f w)) fs) k = map_option f (map_of fs k)"
  by (induction fs) auto

lemma visible_fields_map: "visible_fields (map (\<lambda>(k, w). (k, f w)) (visible_fields fs)) = map (\<lambda>(k, w). (k, f w)) (visible_fields fs)"
proof -
  have "sorted (map fst (visible_fields fs))"
    unfolding visible_fields_def by (rule sorted_filter) simp
  then have "sort_key fst (map (\<lambda>(k, w). (k, f w)) (visible_fields fs)) = map (\<lambda>(k, w). (k, f w)) (visible_fields fs)"
    by (intro sort_key_id_if_sorted) (simp add: o_def case_prod_unfold)
  then show ?thesis
    by (simp add: visible_fields_def [of "map _ _"])
qed

lemma strip_hidden_idem [simp]: "strip_hidden (strip_hidden v) = strip_hidden v"
proof (induction v rule: strip_hidden.induct)
  case (2 fs)
  have "map (\<lambda>(k, w). (k, strip_hidden w)) (map (\<lambda>(k, w). (k, strip_hidden w)) (visible_fields fs))
      = map (\<lambda>(k, w). (k, strip_hidden w)) (visible_fields fs)"
    using 2 by (auto simp: o_def)
  then show ?case by (simp add: visible_fields_map del: map_map)
qed simp_all

lemma cloned_fields_Inr:
  "cloned_fields num_size L fs = Inr gs \<longleftrightarrow> JObj gs = strip_hidden (JObj fs) \<and> within_limits num_size L 0 (JObj gs)"
proof -
  have p: "path_depth ''$'' = 0" by (simp add: path_depth_def)
  have "cloned_fields num_size L fs = Inr gs \<longleftrightarrow> (\<exists>v. safeClone num_size L ''$'' (JObj fs) = Inr v \<and> entries v = gs)"
    by (auto simp: cloned_fields_def bindE_Inr_iff)
  also have "\<dots> \<longleftrightarrow> JObj gs = strip_hidden (JObj fs) \<and> within_limits num_size L 0 (JObj gs)"
    unfolding safeClone_exact_aux p by (auto simp del: within_limits.simps)
  finally show ?thesis .
qed

subsection \<open>Reading\<close>

lemma readOwnPath_strip: "readOwnPath (strip_hidden u) q = Some v \<Longrightarrow> \<exists>v'. readOwnPath u q = Some v' \<and> v = strip_hidden v'"
proof (induction q arbitrary: u)
  case (Cons s ss)
  have index: "map_of (index_entries (map strip_hidden xs)) s = map_option strip_hidden (map_of (index_entries xs) s)" for xs
    unfolding map_of_map_snd [symmetric] by (simp add: index_entries_def zip_map2)
  obtain w where w: "map_of (entries (strip_hidden u)) s = Some w" "readOwnPath w ss = Some v"
    using Cons.prems by (auto split: option.splits)
  then obtain w' where "map_of (entries u) s = Some w'" "w = strip_hidden w'"
    by (cases u) (auto simp: map_of_map_snd map_of_visible index split: if_splits)
  with w(2) Cons.IH [of w'] show ?case by simp
qed simp

lemma readOwnPath_append: "readOwnPath v (ss @ ts) = (case readOwnPath v ss of None \<Rightarrow> None | Some w \<Rightarrow> readOwnPath w ts)"
  by (induction ss arbitrary: v) (auto split: option.splits)

text \<open>A leaf is a value that is not an object; what is read of a payload after an assignment or a deletion.\<close>

definition leaf :: "(string \<times> json) list \<Rightarrow> string list \<Rightarrow> json \<Rightarrow> bool" where
  "leaf fs q v \<longleftrightarrow> readOwnPath (JObj fs) q = Some v \<and> (\<forall>gs. v \<noteq> JObj gs)"

lemma leaf_Nil [simp]: "\<not> leaf [] q v" "\<not> leaf fs [] v"
  by (cases q) (auto simp: leaf_def)

lemma leaf_Cons:
  "leaf fs (s # q) v \<longleftrightarrow> (\<exists>w. map_of fs s = Some w \<and> readOwnPath w q = Some v) \<and> (\<forall>gs. v \<noteq> JObj gs)"
  by (auto simp: leaf_def split: option.splits)

lemma map_of_update: "map_of (AList.update k v fs) = (map_of fs)(k \<mapsto> v)"
  by (rule update_conv')

lemma leaf_assign:
  assumes "assign_at before ss w fs = Inr gs" "leaf gs q v"
  shows "(\<exists>r. q = ss @ r \<and> readOwnPath w r = Some v) \<or> leaf fs q v"
  using assms
proof (induction before ss w fs arbitrary: gs q rule: assign_at.induct)
  case (2 before s w fs)
  then show ?case by (cases q) (auto simp: leaf_Cons map_of_update split: if_splits)
next
  case (3 before s t ss w fs)
  from 3(4) obtain k r where q: "q = k # r" by (cases q) auto
  show ?case
  proof (cases "k = s")
    case False
    then show ?thesis using 3(3,4) q
      by (auto simp: leaf_Cons map_of_update bindE_Inr_iff split: option.splits json.splits)
  next
    case True
    consider (fresh) hs where "map_of fs s = None" "assign_at (before @ [s]) (t # ss) w [] = Inr hs" "gs = AList.update s (JObj hs) fs"
      | (inner) c hs where "map_of fs s = Some (JObj c)" "assign_at (before @ [s]) (t # ss) w c = Inr hs" "gs = AList.update s (JObj hs) fs"
      using 3(3) by (auto simp: bindE_Inr_iff split: option.splits json.splits)
    then show ?thesis
    proof cases
      case fresh
      then have "leaf hs r v" using 3(4) q True by (auto simp: leaf_Cons leaf_def map_of_update)
      with 3(1) [OF fresh(1,2)] q True show ?thesis by auto
    next
      case inner
      then have "leaf hs r v" using 3(4) q True by (auto simp: leaf_Cons leaf_def map_of_update)
      with 3(2) [OF inner(1) refl inner(2)] q True inner(1) show ?thesis by (auto simp: leaf_def)
    qed
  qed
qed auto

lemma SAFE_SEGMENT_not_index: "SAFE_SEGMENT s \<Longrightarrow> map_of (index_entries xs) s = None"
proof -
  assume "SAFE_SEGMENT s"
  then have "\<not> list_all is_digit s" "s \<noteq> []"
    by (auto simp: SAFE_SEGMENT_def bounded_pattern_def char_class_defs split: list.splits)
  then have "s \<noteq> nat_str n" for n using nat_str_digits by (metis list_all_iff)
  then show ?thesis by (metis index_entries_keys map_of_SomeD option.exhaust)
qed

lemma leaf_delete:
  assumes "leaf (deletePath ss fs) q v" "ss \<noteq> []" "list_all SAFE_SEGMENT ss"
  shows "leaf fs q v \<and> (\<forall>r. q \<noteq> ss @ r)"
  using assms
proof (induction ss fs arbitrary: q rule: deletePath.induct)
  case (2 s fs)
  then show ?case by (cases q) (auto simp: leaf_Cons delete_conv' split: if_splits)
next
  case (3 s t ss fs)
  from 3(2) obtain k r where q: "q = k # r" by (cases q) auto
  show ?case
  proof (cases "k = s")
    case False
    with 3(2) q show ?thesis by (auto simp: leaf_Cons map_of_update split: option.splits json.splits)
  next
    case True
    show ?thesis
    proof (cases "\<exists>c. map_of fs s = Some (JObj c)")
      case c: True
      then obtain c where c: "map_of fs s = Some (JObj c)" by blast
      with 3(2) q True have "leaf (deletePath (t # ss) c) r v" by (auto simp: leaf_Cons leaf_def map_of_update)
      with 3(1) [OF c refl] 3(4) q True c show ?thesis by (auto simp: leaf_Cons leaf_def)
    next
      case False
      then have d: "deletePath (s # t # ss) fs = fs" by (auto split: option.splits json.splits)
      have "\<not> (\<exists>r'. r = t # ss @ r')"
      proof
        assume "\<exists>r'. r = t # ss @ r'"
        then obtain r' where r: "r = t # ss @ r'" by blast
        with 3(2) q True d obtain w where w: "map_of fs s = Some w" "readOwnPath w r = Some v" by (auto simp: leaf_Cons)
        with False have "map_of (entries w) t = None"
          using 3(4) by (cases w) (auto simp: SAFE_SEGMENT_not_index)
        with w(2) r show False by simp
      qed
      with 3(2) q True d show ?thesis by auto
    qed
  qed
qed simp

lemma pathSegments_Inr:
  "pathSegments h p = Inr ss \<Longrightarrow> ss \<noteq> [] \<and> list_all SAFE_SEGMENT ss \<and> (\<forall>s\<in>set ss. s \<notin> set DANGEROUS_KEYS \<and> (h \<or> s \<notin> set HIDDEN_FIELDS))"
  by (auto simp: pathSegments_def Let_def list_ex_iff list_all_iff split: if_splits)

lemma leaf_deletes:
  assumes "leaf (fold deletePath ps fs) q v" "\<And>ss. ss \<in> set ps \<Longrightarrow> ss \<noteq> [] \<and> list_all SAFE_SEGMENT ss"
  shows "leaf fs q v \<and> (\<forall>ss\<in>set ps. \<forall>r. q \<noteq> ss @ r)"
  using assms
proof (induction ps arbitrary: fs)
  case (Cons p ps)
  then have "leaf (deletePath p fs) q v \<and> (\<forall>ss\<in>set ps. \<forall>r. q \<noteq> ss @ r)" by simp
  with leaf_delete [of p fs q v] Cons.prems(2) show ?case by auto
qed simp

subsection \<open>Extraction\<close>

lemma mapE_result_member: "mapE f xs = Inr ys \<Longrightarrow> x \<in> set xs \<Longrightarrow> f x = Inr y \<Longrightarrow> y \<in> set ys"
  by (induction xs arbitrary: ys) (auto simp: bindE_Inr_iff)

definition allowed_source :: "json \<Rightarrow> string list \<Rightarrow> string list \<Rightarrow> string list \<Rightarrow> json \<Rightarrow> bool" where
  "allowed_source source allowed denied q v \<longleftrightarrow>
     readOwnPath source q = Some v
     \<and> (\<exists>p\<in>set allowed. \<not> pathDenied p denied \<and> (\<exists>ss r. pathSegments False p = Inr ss \<and> q = ss @ r))"

lemma extract_fields_leaf:
  assumes "extract_fields num_size L source denied ps fs = Inr gs" "strip_hidden source = source" "set ps \<subseteq> set allowed"
    and "\<And>q v. leaf fs q v \<Longrightarrow> allowed_source source allowed denied q v" "leaf gs q v"
  shows "allowed_source source allowed denied q v"
  using assms
proof (induction num_size L source denied ps fs arbitrary: gs q v rule: extract_fields.induct)
  case (2 num_size L source denied p ps fs)
  show ?case
  proof (cases "pathDenied p denied")
    case True
    with 2(1) [OF True] 2(4-) show ?thesis by simp
  next
    case False
    with 2(4) obtain ss where ss: "pathSegments False p = Inr ss" by (auto simp: bindE_Inr_iff)
    show ?thesis
    proof (cases "readOwnPath source ss")
      case None
      with 2(2) [OF False, of ss] False ss 2(4-) show ?thesis by (auto simp: bindE_Inr_iff)
    next
      case (Some u)
      obtain v' where "u = strip_hidden v'" using readOwnPath_strip [of source ss u] Some 2(5) by auto
      then have u: "strip_hidden u = u" by simp
      from 2(4) False ss Some obtain w hs where
          w: "safeClone num_size L (''$source.'' @ p) u = Inr w" "assignPath ss w fs = Inr hs"
        and g: "extract_fields num_size L source denied ps hs = Inr gs"
        by (auto simp: bindE_Inr_iff)
      have "w = u" using w(1) u by (simp add: safeClone_exact_aux)
      have "allowed_source source allowed denied q' v'" if "leaf hs q' v'" for q' v'
      proof -
        from leaf_assign [OF w(2) [unfolded assignPath_def] that]
        show ?thesis
        proof
          assume "\<exists>r. q' = ss @ r \<and> readOwnPath w r = Some v'"
          with Some \<open>w = u\<close> False ss 2(6) show ?thesis
            by (auto simp: allowed_source_def readOwnPath_append)
        qed (use 2(7) in blast)
      qed
      then show ?thesis using 2(3) [OF False Some, of hs gs q v] g 2(5,6,8) by auto
    qed
  qed
qed simp

lemma extracted_leaf:
  assumes "extractAllowedFields num_size L input allowed denied = Inr fs" "leaf fs q v"
  shows "allowed_source (strip_hidden input) (field_names allowed) (field_names denied) q v
    \<and> (\<forall>d\<in>set denied. \<forall>ss r. pathSegments True d = Inr ss \<longrightarrow> q \<noteq> ss @ r)"
proof -
  from assms(1) obtain removed hs where
      r: "mapE (pathSegments True) (field_names denied) = Inr removed"
    and h: "extract_fields num_size L (strip_hidden input) (field_names denied) (field_names allowed) [] = Inr hs"
    and f: "cloned_fields num_size L (fold deletePath removed hs) = Inr fs"
    by (auto simp: extractAllowedFields_def bindE_Inr_iff Let_def safeClone_exact_aux split: if_splits)
  have ok: "ss \<noteq> [] \<and> list_all SAFE_SEGMENT ss" if "ss \<in> set removed" for ss
    using mapE_all [OF r, of "\<lambda>ss. ss \<noteq> [] \<and> list_all SAFE_SEGMENT ss"] that pathSegments_Inr by blast
  obtain u where u: "leaf (fold deletePath removed hs) q u" "v = strip_hidden u"
    using readOwnPath_strip [of "JObj (fold deletePath removed hs)" q v] assms(2) f
    unfolding cloned_fields_Inr leaf_def by (metis strip_hidden.simps(2))
  from leaf_deletes [OF u(1) ok] have l: "leaf hs q u" "\<forall>ss\<in>set removed. \<forall>r. q \<noteq> ss @ r" by blast+
  have s: "allowed_source (strip_hidden input) (field_names allowed) (field_names denied) q u"
    by (rule extract_fields_leaf [OF h _ _ _ l(1)]) simp_all
  then have "v = u" using readOwnPath_strip [of input q u] u(2) by (auto simp: allowed_source_def)
  moreover have "ss \<in> set removed" if "d \<in> set denied" "pathSegments True d = Inr ss" for d ss
    using mapE_result_member [OF r] that by (simp add: field_names_def)
  ultimately show ?thesis using s l(2) by blast
qed

subsection \<open>Extraction keeps what is allowed\<close>

lemma assign_present: "readOwnPath (JObj fs) ss = Some w \<Longrightarrow> list_all SAFE_SEGMENT ss \<Longrightarrow> ss \<noteq> [] \<Longrightarrow> assign_at before ss w fs = Inr fs"
proof (induction before ss w fs rule: assign_at.induct)
  case (3 before s t ss w fs)
  then obtain c where c: "map_of fs s = Some c" "readOwnPath c (t # ss) = Some w" by (auto split: option.splits)
  then obtain cs where "c = JObj cs"
    using 3(4) by (cases c) (auto simp: SAFE_SEGMENT_not_index)
  with c 3(2) [OF _ refl] 3(4) show ?case by (simp add: update_triv)
qed (auto simp: update_triv split: option.splits)

text \<open>An assignment of what the source has keeps what was already read as the source has it.\<close>

lemma assign_keeps:
  assumes "assign_at before ts w fs = Inr gs" "readOwnPath source ts = Some w" "ts \<noteq> []" "list_all SAFE_SEGMENT ts"
    and "readOwnPath (JObj fs) ss = Some u" "readOwnPath source ss = Some u" "ss \<noteq> []"
  shows "readOwnPath (JObj gs) ss = Some u"
  using assms
proof (induction before ts w fs arbitrary: gs source ss rule: assign_at.induct)
  case (2 before s w fs)
  then show ?case by (cases ss) (auto simp: map_of_update split: option.splits if_splits)
next
  case (3 before s t ts w fs)
  obtain k r where ss: "ss = k # r" using 3(9) by (cases ss) auto
  show ?case
  proof (cases "k = s")
    case False
    then show ?thesis using 3(3,7) ss by (auto simp: map_of_update bindE_Inr_iff split: option.splits json.splits)
  next
    case True
    obtain c where c: "map_of fs s = Some c" "readOwnPath c r = Some u" using 3(7) ss True by (auto split: option.splits)
    then obtain cs hs where cs: "c = JObj cs" "assign_at (before @ [s]) (t # ts) w cs = Inr hs" "gs = AList.update s (JObj hs) fs"
      using 3(3) by (auto simp: bindE_Inr_iff split: json.splits)
    obtain d where d: "map_of (entries source) s = Some d" "readOwnPath d (t # ts) = Some w" "readOwnPath d r = Some u"
      using 3(4,8) ss True by (auto split: option.splits)
    have "readOwnPath (JObj hs) r = Some u"
    proof (cases "r = []")
      case True
      with c d cs(1) have "readOwnPath (JObj cs) (t # ts) = Some w" by simp
      from assign_present [OF this, of "before @ [s]"] 3(6) cs(2) True c(2) cs(1) show ?thesis by simp
    next
      case False
      from 3(2) [OF c(1)[unfolded cs(1)] refl cs(2) d(2) _ _ _ d(3) False] 3(6) c(2) cs(1) show ?thesis by simp
    qed
    then show ?thesis using ss True cs(3) by (simp add: map_of_update)
  qed
qed simp

lemma assign_reads: "assign_at before ts w fs = Inr gs \<Longrightarrow> ts \<noteq> [] \<Longrightarrow> readOwnPath (JObj gs) ts = Some w"
proof (induction before ts w fs arbitrary: gs rule: assign_at.induct)
  case (3 before s t ss w fs)
  then obtain hs where "gs = AList.update s (JObj hs) fs" "readOwnPath (JObj hs) (t # ss) = Some w"
    by (auto simp: bindE_Inr_iff simp del: readOwnPath.simps split: option.splits json.splits)
  then show ?case by (simp add: map_of_update)
qed (auto simp: map_of_update)

lemma delete_keeps:
  assumes "readOwnPath (JObj fs) ss = Some u" "\<not> prefix ts ss" "\<not> prefix ss ts"
  shows "readOwnPath (JObj (deletePath ts fs)) ss = Some u"
  using assms
proof (induction ts fs arbitrary: ss rule: deletePath.induct)
  case (2 s fs)
  then show ?case by (cases ss) (auto simp: delete_conv' split: option.splits)
next
  case (3 s t ts fs)
  then obtain k r where ss: "ss = k # r" by (cases ss) auto
  show ?case
  proof (cases "k = s \<and> (\<exists>c. map_of fs s = Some (JObj c))")
    case True
    then obtain c where c: "k = s" "map_of fs s = Some (JObj c)" by blast
    with 3(1) [OF c(2) refl, of r] 3(2-) ss show ?thesis by (auto simp: map_of_update)
  qed (use 3(2) ss in \<open>auto simp: map_of_update split: option.splits json.splits\<close>)
qed simp

lemma deletes_keep:
  "readOwnPath (JObj fs) ss = Some u \<Longrightarrow> (\<And>ts. ts \<in> set removed \<Longrightarrow> \<not> prefix ts ss \<and> \<not> prefix ss ts)
    \<Longrightarrow> readOwnPath (JObj (fold deletePath removed fs)) ss = Some u"
  by (induction removed arbitrary: fs) (simp_all add: delete_keeps)

lemma strip_reads:
  assumes "readOwnPath u q = Some v" "\<forall>s\<in>set q. s \<notin> set HIDDEN_FIELDS"
  shows "readOwnPath (strip_hidden u) q = Some (strip_hidden v)"
  using assms
proof (induction q arbitrary: u)
  case (Cons s ss)
  have "map_of (index_entries (map strip_hidden xs)) s = map_option strip_hidden (map_of (index_entries xs) s)" for xs
    unfolding map_of_map_snd [symmetric] by (simp add: index_entries_def zip_map2)
  with Cons show ?case by (cases u) (auto simp: map_of_map_snd map_of_visible split: option.splits)
qed simp

lemma extract_fields_reads:
  assumes "extract_fields num_size L source denied ps fs = Inr gs" "strip_hidden source = source"
    and "readOwnPath source ss = Some u" "ss \<noteq> []"
    and "readOwnPath (JObj fs) ss = Some u \<or> (\<exists>p\<in>set ps. \<not> pathDenied p denied \<and> pathSegments False p = Inr ss)"
  shows "readOwnPath (JObj gs) ss = Some u"
  using assms
proof (induction num_size L source denied ps fs arbitrary: gs rule: extract_fields.induct)
  case (2 num_size L source denied p ps fs)
  show ?case
  proof (cases "pathDenied p denied")
    case True
    with 2(1) [OF True] 2(4-) show ?thesis by auto
  next
    case False
    with 2(4) obtain ts where ts: "pathSegments False p = Inr ts" by (auto simp: bindE_Inr_iff)
    show ?thesis
    proof (cases "readOwnPath source ts")
      case None
      with 2(2) [OF False, of ts] False ts 2(4-) show ?thesis by (auto simp: bindE_Inr_iff)
    next
      case (Some v)
      from 2(4) False ts Some obtain w hs where
          w: "safeClone num_size L (''$source.'' @ p) v = Inr w" "assign_at [] ts w fs = Inr hs"
        and g: "extract_fields num_size L source denied ps hs = Inr gs"
        by (auto simp: bindE_Inr_iff assignPath_def)
      obtain v' where "v = strip_hidden v'" using readOwnPath_strip [of source ts v] Some 2(5) by auto
      then have wv: "w = v" using w(1) by (simp add: safeClone_exact_aux)
      note t = pathSegments_Inr [OF ts]
      have "readOwnPath (JObj hs) ss = Some u \<or> (\<exists>p\<in>set ps. \<not> pathDenied p denied \<and> pathSegments False p = Inr ss)"
        using 2(8) assign_keeps [OF w(2), of source ss u] assign_reads [OF w(2)] t Some wv ts 2(6,7) by auto
      then show ?thesis using 2(3) [OF False Some, of hs gs] g 2(5,6,7) by auto
    qed
  qed
qed auto

subsection \<open>Minimization\<close>

text \<open>Every field, at any depth, is a property of the schema of its object.\<close>

fun declared_by :: "json \<Rightarrow> json \<Rightarrow> bool" where
  "declared_by schema (JArr xs) = (\<forall>x\<in>set xs. declared_by (items_of schema) x)"
| "declared_by schema (JObj fs) = (\<forall>(k, w)\<in>set fs. declared schema k \<and> declared_by (subschema schema k) w)"
| "declared_by schema v = True"

lemma minimize_declared: "declared_by schema (minimizeBySchema L ro schema v)"
proof (induction L ro schema v rule: minimizeBySchema.induct)
  case (1 L ro schema xs)
  then show ?case by auto
next
  case (3 L ro schema fs)
  then show ?case by auto
qed simp_all

lemma strip_declared: "declared_by schema v \<Longrightarrow> declared_by schema (strip_hidden v)"
  by (induction schema v rule: declared_by.induct) auto

lemma minimize_object: "\<exists>gs. minimizeBySchema L ro schema (JObj fs) = JObj gs"
  by simp

lemma applyMinimization_Inr:
  assumes "applyMinimization e L schema rules payload = Inr (gs, n)"
  shows "declared_by schema (JObj gs) \<and> strip_hidden (JObj gs) = JObj gs"
proof -
  from assms obtain fs where c: "cloned_fields (de_num_size e) L
      (entries (minimizeBySchema L (removes_optional rules) schema (JObj fs))) = Inr gs"
    by (auto simp: applyMinimization_def bindE_Inr_iff)
  moreover have "JObj (entries (minimizeBySchema L ro schema (JObj fs))) = minimizeBySchema L ro schema (JObj fs)" for ro
    by simp
  ultimately have "JObj gs = strip_hidden (minimizeBySchema L (removes_optional rules) schema (JObj fs))"
    unfolding cloned_fields_Inr by (simp only:)
  then show ?thesis using strip_declared [OF minimize_declared] by (metis strip_hidden_idem)
qed

lemma boundedLimit_range: "1 \<le> m \<Longrightarrow> 1 \<le> boundedLimit v m m \<and> boundedLimit v m m \<le> m"
  by (auto simp: boundedLimit_def split: option.splits)

lemma normalizedLimits_bounds:
  "dl_payload_bytes (normalizedLimits i) \<in> {1..1000000}" "dl_array_items (normalizedLimits i) \<in> {1..1000}"
  "dl_string_length (normalizedLimits i) \<in> {1..100000}" "dl_object_depth (normalizedLimits i) \<in> {1..20}"
  using boundedLimit_range [of 1000000] boundedLimit_range [of 1000] boundedLimit_range [of 100000] boundedLimit_range [of 20]
  by (simp_all add: normalizedLimits_def INTER_AGENT_LIMITS_def)

text \<open>The last two steps of both pipelines.\<close>

lemma minimized_payload:
  assumes "applyMinimization e L schema rules fs = Inr (gs, n)" "cloned_fields (de_num_size e) L gs = Inr hs"
  shows "declared_by schema (JObj hs) \<and> within_limits (de_num_size e) L 0 (JObj hs)"
proof -
  have "JObj hs = JObj gs" "within_limits (de_num_size e) L 0 (JObj hs)"
    using applyMinimization_Inr [OF assms(1)] assms(2) unfolding cloned_fields_Inr by metis+
  then show ?thesis using applyMinimization_Inr [OF assms(1)] by metis
qed

subsection \<open>Classification\<close>

lemma position_in_nonneg: "position_in xs v = Some i \<Longrightarrow> 0 \<le> i"
  by (induction xs arbitrary: i) (auto split: if_splits)

lemma known_rank: "CLASSIFICATION_RANK v = None \<longleftrightarrow> v \<notin> set DATA_CLASSIFICATIONS"
proof -
  have "position_in xs v = None \<longleftrightarrow> v \<notin> set xs" for xs by (induction xs) auto
  then show ?thesis by (simp add: CLASSIFICATION_RANK_def)
qed

lemma highest_rank:
  assumes "set (map js_lower vs) \<subseteq> set DATA_CLASSIFICATIONS" "v \<in> set vs"
  shows "rank_of (js_lower v) \<le> rank_of (highestClassification vs fallback)
    \<and> highestClassification vs fallback \<in> set DATA_CLASSIFICATIONS"
proof -
  let ?s = "sort_by (\<lambda>l r. rank_of r - rank_of l) (map js_lower vs)"
  have "sorted_wrt (\<lambda>l r. rank_of r \<le> rank_of l) ?s"
    by (rule sorted_sort_by) (auto intro: transpI)
  moreover have "?s \<noteq> []" using assms(2) by (metis empty_iff empty_set length_map length_pos_if_in_set list.size(3) not_less0 set_map set_sort_by image_is_empty)
  then obtain h t where s: "?s = h # t" by (cases ?s) auto
  have "js_lower v \<in> set ?s" using assms(2) by simp
  ultimately have "rank_of (js_lower v) \<le> rank_of h" using s by auto
  moreover have "h \<in> set DATA_CLASSIFICATIONS" using s assms(1) by (metis list.set_intros(1) set_sort_by subsetD)
  moreover have "vs \<noteq> []" using assms(2) by auto
  ultimately show ?thesis using assms(1) s by (simp add: highestClassification_def Let_def)
qed

subsection \<open>The properties\<close>

text \<open>C19: a safe copy of a value succeeds exactly when the value without its hidden fields is within the limits of depth, size,
  arrays, strings and keys, and then it is that value.\<close>

theorem safe_copy_exact:
  "safeClone num_size L path v = Inr w \<longleftrightarrow>
     w = strip_hidden v \<and> within_limits num_size L (path_depth path) (strip_hidden v)"
  by (rule safeClone_exact_aux)

text \<open>C17: what is extracted discloses no more than the contract allows: every value in the result was read at the same
  path of the source, below a path that is allowed and not denied, and below no denied path.\<close>

theorem extraction_discloses_allowed_fields:
  assumes "extractAllowedFields num_size L input allowed denied = Inr fs" "readOwnPath (JObj fs) q = Some v" "\<forall>gs. v \<noteq> JObj gs"
  shows "readOwnPath (strip_hidden input) q = Some v
    \<and> (\<exists>p\<in>set allowed. \<not> pathDenied p denied \<and> (\<exists>ss r. pathSegments False p = Inr ss \<and> q = ss @ r))
    \<and> (\<forall>d\<in>set denied. \<forall>ss r. pathSegments True d = Inr ss \<longrightarrow> q \<noteq> ss @ r)"
proof -
  have "leaf fs q v" using assms(2,3) by (simp add: leaf_def)
  moreover have "pathDenied p (field_names denied) = pathDenied p denied" for p
    by (simp add: pathDenied_def list_ex_iff field_names_def)
  ultimately show ?thesis using extracted_leaf [OF assms(1)] by (auto simp: allowed_source_def field_names_def)
qed

lemma payload_declared:
  assumes "processDelegatedInput e input c cx = Inr (fs, st)"
  shows "declared_by (dc_input_schema c) (JObj fs)
    \<and> within_limits (de_num_size e) (normalizedLimits (dc_limits c)) 0 (JObj fs)
    \<and> dl_payload_bytes (normalizedLimits (dc_limits c)) \<le> 1000000
    \<and> st_delegated_bytes st = json_size (de_num_size e) (JObj fs)"
proof -
  let ?L = "normalizedLimits (dc_limits c)"
  from assms obtain redacted minimized removed where
      "applyMinimization e ?L (dc_input_schema c) (dc_minimizations c) redacted = Inr (minimized, removed)"
      "cloned_fields (de_num_size e) ?L minimized = Inr fs"
    and st: "st_delegated_bytes st = json_size (de_num_size e) (JObj fs)"
    unfolding processDelegatedInput_def Let_def bindE_Inr_iff by (auto simp: bindE_Inr_iff simp del: json_size.simps split: prod.splits)
  then show ?thesis using minimized_payload normalizedLimits_bounds(1) [of "dc_limits c"] by (metis atLeastAtMost_iff)
qed

text \<open>C16: whatever the mappings and the rules of the contract do, a delegated payload has only fields that the contract's schema
  declares, none of them hidden or dangerous, and it is within the limits of the contract, which are within those of the service.\<close>

theorem delegated_payload_is_declared:
  assumes "processDelegatedInput e input c cx = Inr (fs, st)"
  shows "declared_by (dc_input_schema c) (JObj fs)
    \<and> within_limits (de_num_size e) (normalizedLimits (dc_limits c)) 0 (JObj fs)
    \<and> dl_payload_bytes (normalizedLimits (dc_limits c)) \<le> 1000000
    \<and> st_delegated_bytes st = json_size (de_num_size e) (JObj fs)"
  using assms by (rule payload_declared)

theorem delegated_output_is_declared:
  assumes "processDelegatedOutput e output c = Inr (fs, st)"
  shows "declared_by (dc_output_schema c) (JObj fs) \<and> within_limits (de_num_size e) (normalizedLimits (dc_limits c)) 0 (JObj fs)"
proof -
  let ?L = "normalizedLimits (dc_limits c)"
  from assms obtain mapped minimized removed where
      "applyMinimization e ?L (dc_output_schema c) (dc_minimizations c) mapped = Inr (minimized, removed)"
      "cloned_fields (de_num_size e) ?L minimized = Inr fs"
    unfolding processDelegatedOutput_def Let_def bindE_Inr_iff by (auto simp: bindE_Inr_iff split: prod.splits)
  then show ?thesis by (rule minimized_payload)
qed

text \<open>Data that is delegated under a classification is within the ceiling of the contract: no known label of its sources is
  above it. An unknown label, on the other hand, replaces all others by the fallback.\<close>

theorem classification_ceiling:
  assumes "assertClassificationAllowed (highestClassification vs fallback) c t = Inr v"
    and "dc_maximum_classification c \<in> set DATA_CLASSIFICATIONS" "set (map js_lower vs) \<subseteq> set DATA_CLASSIFICATIONS" "label \<in> set vs"
  shows "rank_of (js_lower label) \<le> rank_of (dc_maximum_classification c)"
proof -
  note h = highest_rank [OF assms(3,4), of fallback]
  have "js_lower x = x" if "x \<in> set DATA_CLASSIFICATIONS" for x
  proof -
    have "list_all (\<lambda>x. js_lower x = x) DATA_CLASSIFICATIONS" by code_simp
    with that show ?thesis by (simp add: list_all_iff)
  qed
  with h have l: "js_lower (highestClassification vs fallback) = highestClassification vs fallback" by blast
  with assms(1) have "\<not> exceeds_ceiling (highestClassification vs fallback) (dc_maximum_classification c)"
    by (auto simp: assertClassificationAllowed_def Let_def split: if_splits)
  then have "rank_of (highestClassification vs fallback) \<le> rank_of (dc_maximum_classification c)"
    using h assms(2) known_rank by (auto simp: exceeds_ceiling_def rank_of_def split: option.splits)
  with h show ?thesis by simp
qed

text \<open>A label that is not known replaces all other labels, also higher ones, by the fallback.\<close>

theorem unknown_label_hides_others:
  assumes "label \<in> set vs" "js_lower label \<notin> set DATA_CLASSIFICATIONS"
  shows "highestClassification vs fallback = fallback"
  using assms by (auto simp: highestClassification_def)

lemma visible_suffix_range:
  assumes "visible_suffix t rule s = Fin r"
  shows "0 \<le> r \<and> r \<le> 16 \<and> r \<le> of_nat (length s)"
proof -
  define x where "x = (case rule_field rule ''visibleSuffix'' of None \<Rightarrow> Fin 4 | Some _ \<Rightarrow> rule_number_or_zero t rule ''visibleSuffix'')"
  have "js_max (Fin 0) (js_min (js_min x (Fin 16)) (Fin (of_nat (length s)))) = Fin r"
    using assms by (simp add: visible_suffix_def x_def num_of_int_def)
  then show ?thesis by (cases x) (auto simp: js_max_def js_min_def split: if_splits)
qed

text \<open>A mask shows a suffix of at most 16 characters behind at least four stars, provided that the number of visible
  characters in the rule is a number.\<close>

theorem mask_shows_short_suffix:
  assumes "visible_suffix t rule (to_string t v) \<noteq> NaN"
  shows "\<exists>n shown hidden. mask t rule v = replicate n CHR ''*'' @ shown \<and> to_string t v = hidden @ shown
    \<and> 4 \<le> n \<and> n \<le> 12 \<and> length shown \<le> 16"
proof -
  let ?s = "to_string t v"
  obtain r where r: "visible_suffix t rule ?s = Fin r"
    using assms by (cases "visible_suffix t rule ?s") (auto simp: visible_suffix_def js_max_def js_min_def num_of_int_def split: if_splits option.splits)
  note b = visible_suffix_range [OF r]
  let ?k = "nat \<lfloor>of_nat (length ?s) - r\<rfloor>" and ?n = "nat \<lfloor>min 12 (max 4 (of_nat (length ?s) - r))\<rfloor>"
  have "of_nat (length ?s) - 16 \<le> of_nat (length ?s) - r" using b by simp
  then have "\<lfloor>of_nat (length ?s) - (16 :: rat)\<rfloor> \<le> \<lfloor>of_nat (length ?s) - r\<rfloor>" by (rule floor_mono)
  then have k: "length ?s \<le> ?k + 16" by simp
  have "(4 :: rat) \<le> min 12 (max 4 (of_nat (length ?s) - r))" "min 12 (max 4 (of_nat (length ?s) - r)) \<le> (12 :: rat)" by simp_all
  then have n: "4 \<le> ?n" "?n \<le> 12" using floor_mono by (force simp: le_nat_iff le_floor_iff, fastforce simp: nat_le_iff floor_le_iff)
  show ?thesis
    by (rule exI [of _ ?n], rule exI [of _ "drop ?k ?s"], rule exI [of _ "take ?k ?s"])
      (use r k n in \<open>simp add: mask_def mask_suffix_def Let_def\<close>)
qed

text \<open>A rule whose number of visible characters is not a number masks nothing: the whole value is shown.\<close>

theorem mask_without_number_shows_all:
  assumes "rule_field rule ''visibleSuffix'' \<noteq> None" "rule_number_or_zero t rule ''visibleSuffix'' = NaN"
  shows "mask t rule v = to_string t v"
  using assms by (auto simp: mask_def mask_suffix_def visible_suffix_def js_min_def js_max_def)

subsection \<open>A run\<close>

definition sample_text :: js_text where
  "sample_text =
     \<lparr>jt_string_of_number = (\<lambda>n. ''1''), jt_number_of_string = (\<lambda>s. NaN), jt_time_of_string = (\<lambda>s. NaN), jt_collate = (\<lambda>a b. 0)\<rparr>"

definition sample_env :: data_env where
  "sample_env =
     \<lparr>de_text = sample_text, de_num_size = (\<lambda>n. 1), de_iso = (\<lambda>n. ''''), de_sha256 = (\<lambda>p s. s), de_digest = (\<lambda>p s. s)\<rparr>"

definition open_schema :: json where
  "open_schema = JObj [(''type'', JStr ''object''), (''properties'',
     JObj [(''person'', JObj [(''properties'', JObj [(''name'', JObj []), (''mail'', JObj [])])]), (''note'', JObj [])])]"

definition mail_mask :: json where
  "mail_mask = JObj [(''ruleId'', JStr ''m1''), (''action'', JStr ''mask''), (''path'', JStr ''person.mail''), (''visibleSuffix'', JStr ''all'')]"

definition sample_contract :: data_contract where
  "sample_contract =
     \<lparr>dc_allowed_input = [''person'', ''secretNote''], dc_denied_input = [''secretNote''], dc_allowed_output = [''person''],
      dc_denied_output = [], dc_source_mapping = [], dc_target_mapping = [], dc_downstream_mapping = [],
      dc_transformations = [JObj [(''ruleId'', JStr ''t1''), (''operation'', JStr ''literal''), (''targetPath'', JStr ''note''), (''value'', JStr ''hi'')]],
      dc_redactions = [mail_mask], dc_minimizations = [], dc_input_schema = open_schema, dc_output_schema = open_schema,
      dc_limits = \<lparr>li_payload_bytes = Some (Fin 200), li_array_items = Some (Fin 9), li_string_length = Some (Fin 20), li_object_depth = Some (Fin 5)\<rparr>,
      dc_classifications = [], dc_maximum_classification = ''internal'', dc_regions = [], dc_residency = []\<rparr>"

definition sample_input :: json where
  "sample_input = JObj [(''person'', JObj [(''name'', JStr ''Ann''), (''mail'', JStr ''ann@example.org''), (''apiKey'', JStr ''k'')]),
     (''secretNote'', JStr ''x'')]"

definition small_limits :: data_limits where
  "small_limits = \<lparr>dl_payload_bytes = 200, dl_array_items = 9, dl_string_length = 20, dl_object_depth = 5\<rparr>"

lemma sample_limits: "normalizedLimits (dc_limits sample_contract) = small_limits" by code_simp

definition sample_person :: "(string \<times> json) list" where
  "sample_person = [(''person'', JObj [(''mail'', JStr ''ann@example.org''), (''name'', JStr ''Ann'')])]"

lemma sample_step1: "safeClone (de_num_size sample_env) small_limits ''$'' sample_input
     = Inr (JObj (sample_person @ [(''secretNote'', JStr ''x'')]))"
  by code_simp

lemma sample_step2: "extractAllowedFields (de_num_size sample_env) small_limits (JObj (sample_person @ [(''secretNote'', JStr ''x'')]))
     (dc_allowed_input sample_contract) (dc_denied_input sample_contract) = Inr sample_person"
  by code_simp

lemma sample_step3: "mapped_fields sample_env small_limits (dc_source_mapping sample_contract) no_context sample_person = Inr sample_person"
  by code_simp

lemma sample_step4: "mapped_fields sample_env small_limits (dc_target_mapping sample_contract) no_context sample_person = Inr sample_person"
  by code_simp

lemma sample_step5: "applyTransformations sample_env small_limits (dc_transformations sample_contract) sample_person
     = Inr ((''note'', JStr ''hi'') # sample_person, 1)"
  by code_simp

lemma sample_step6: "applyRedactions sample_env small_limits (dc_redactions sample_contract) ((''note'', JStr ''hi'') # sample_person)
     = Inr ((''note'', JStr ''hi'') # sample_person, 1)"
  by code_simp

lemma sample_step7: "applyMinimization sample_env small_limits (dc_input_schema sample_contract) (dc_minimizations sample_contract)
     ((''note'', JStr ''hi'') # sample_person) = Inr ((''note'', JStr ''hi'') # sample_person, 0)"
  by code_simp

lemma sample_step8: "cloned_fields (de_num_size sample_env) small_limits ((''note'', JStr ''hi'') # sample_person)
     = Inr ((''note'', JStr ''hi'') # sample_person)"
  by code_simp

lemma sample_processed:
  "\<exists>st. processDelegatedInput sample_env sample_input sample_contract no_context = Inr ((''note'', JStr ''hi'') # sample_person, st)"
  by (simp only: processDelegatedInput_def Let_def sample_limits sample_step1 sample_step2 sample_step3 sample_step4 sample_step5 sample_step6 sample_step7 sample_step8 bindE_simps prod.case) blast

text \<open>The run: the hidden key and the denied note are gone, but the mask with \<open>all\<close> as its number shows the address.\<close>

theorem delegated_payload_is_declared_witness:
  "\<exists>fs st. processDelegatedInput sample_env sample_input sample_contract no_context = Inr (fs, st)
     \<and> readOwnPath (JObj fs) [''person'', ''mail''] = Some (JStr ''ann@example.org'')
     \<and> declared_by open_schema (JObj fs) \<and> st_delegated_bytes st \<le> 200"
proof -
  obtain st where st: "processDelegatedInput sample_env sample_input sample_contract no_context
      = Inr ((''note'', JStr ''hi'') # sample_person, st)" using sample_processed by blast
  have "dc_input_schema sample_contract = open_schema" by (simp add: sample_contract_def)
  moreover have "json_size (de_num_size sample_env) (JObj ((''note'', JStr ''hi'') # sample_person)) \<le> 200" by code_simp
  moreover have "readOwnPath (JObj ((''note'', JStr ''hi'') # sample_person)) [''person'', ''mail''] = Some (JStr ''ann@example.org'')"
    by code_simp
  ultimately show ?thesis using delegated_payload_is_declared [OF st] st by fastforce
qed

theorem extraction_discloses_allowed_fields_witness:
  "readOwnPath (JObj sample_person) [''person'', ''mail''] = Some (JStr ''ann@example.org'')
     \<and> (\<exists>p\<in>{''person'', ''secretNote''}. \<not> pathDenied p [''secretNote''])"
proof -
  have r: "readOwnPath (JObj sample_person) [''person'', ''mail''] = Some (JStr ''ann@example.org'')" by code_simp
  have "dc_allowed_input sample_contract = [''person'', ''secretNote'']" "dc_denied_input sample_contract = [''secretNote'']"
    by (simp_all add: sample_contract_def)
  then show ?thesis using extraction_discloses_allowed_fields [OF sample_step2 r] r by auto
qed

theorem classification_ceiling_witness:
  "assertClassificationAllowed (highestClassification [''Public'', ''INTERNAL''] ''restricted'') sample_contract
       \<lparr>dt_classifications = [], dt_regions = [], dt_residency = []\<rparr> = Inr ''internal''
     \<and> rank_of (js_lower ''INTERNAL'') \<le> rank_of (dc_maximum_classification sample_contract)"
proof -
  have a: "assertClassificationAllowed (highestClassification [''Public'', ''INTERNAL''] ''restricted'') sample_contract
       \<lparr>dt_classifications = [], dt_regions = [], dt_residency = []\<rparr> = Inr ''internal''" by code_simp
  have "dc_maximum_classification sample_contract \<in> set DATA_CLASSIFICATIONS"
    "set (map js_lower [''Public'', ''INTERNAL'']) \<subseteq> set DATA_CLASSIFICATIONS" by code_simp+
  then show ?thesis using classification_ceiling [OF a, of "''INTERNAL''"] a by simp
qed

theorem unknown_label_hides_others_witness:
  "assertClassificationAllowed (highestClassification [''restricted'', ''top-secret''] ''internal'') sample_contract
       \<lparr>dt_classifications = [], dt_regions = [], dt_residency = []\<rparr> = Inr ''internal''"
proof -
  have u: "js_lower ''top-secret'' \<notin> set DATA_CLASSIFICATIONS" by code_simp
  have "assertClassificationAllowed ''internal'' sample_contract
       \<lparr>dt_classifications = [], dt_regions = [], dt_residency = []\<rparr> = Inr ''internal''" by code_simp
  then show ?thesis using unknown_label_hides_others [OF _ u, of "[''restricted'', ''top-secret'']" "''internal''"] by simp
qed

definition plain_mask :: json where
  "plain_mask = JObj [(''ruleId'', JStr ''m2''), (''action'', JStr ''mask''), (''path'', JStr ''card'')]"

theorem mask_shows_short_suffix_witness:
  "\<exists>n shown hidden. mask sample_text plain_mask (JStr ''4000123412341234'') = replicate n CHR ''*'' @ shown
     \<and> ''4000123412341234'' = hidden @ shown \<and> 4 \<le> n \<and> length shown \<le> 16"
proof -
  have "visible_suffix sample_text plain_mask (to_string sample_text (JStr ''4000123412341234'')) \<noteq> NaN" by code_simp
  from mask_shows_short_suffix [OF this] show ?thesis by auto
qed

theorem mask_without_number_shows_all_witness: "mask sample_text mail_mask (JStr ''ann@example.org'') = ''ann@example.org''"
proof -
  have "rule_field mail_mask ''visibleSuffix'' \<noteq> None" "rule_number_or_zero sample_text mail_mask ''visibleSuffix'' = NaN"
    by code_simp+
  from mask_without_number_shows_all [OF this] show ?thesis by simp
qed

text \<open>C18: extraction is complete: an allowed field that the source has, hidden parts aside, and that no denied path overlaps
  arrives as it is.\<close>

theorem extraction_keeps_allowed_fields:
  assumes "extractAllowedFields num_size L input allowed denied = Inr fs" "p \<in> set allowed" "\<not> pathDenied p denied"
    and "pathSegments False p = Inr ss" "readOwnPath (strip_hidden input) ss = Some v"
    and "\<forall>d\<in>set denied. \<forall>ds. pathSegments True d = Inr ds \<longrightarrow> \<not> prefix ds ss \<and> \<not> prefix ss ds"
  shows "readOwnPath (JObj fs) ss = Some v"
proof -
  from assms(1) obtain removed hs where
      r: "mapE (pathSegments True) (field_names denied) = Inr removed"
    and h: "extract_fields num_size L (strip_hidden input) (field_names denied) (field_names allowed) [] = Inr hs"
    and f: "cloned_fields num_size L (fold deletePath removed hs) = Inr fs"
    by (auto simp: extractAllowedFields_def bindE_Inr_iff Let_def safeClone_exact_aux split: if_splits)
  note t = pathSegments_Inr [OF assms(4)]
  have "readOwnPath (JObj hs) ss = Some v"
    using extract_fields_reads [OF h _ assms(5)] assms(2,3,4) t by (auto simp: field_names_def pathDenied_def list_ex_iff)
  moreover have "\<not> prefix ts ss \<and> \<not> prefix ss ts" if "ts \<in> set removed" for ts
    using r that assms(6) unfolding mapE_Inr_iff list_all2_conv_all_nth
    by (metis field_names_def in_set_conv_nth set_sort set_unique_list)
  ultimately have "readOwnPath (JObj (fold deletePath removed hs)) ss = Some v" by (rule deletes_keep)
  then have "readOwnPath (strip_hidden (JObj (fold deletePath removed hs))) ss = Some (strip_hidden v)"
    by (rule strip_reads) (use t in auto)
  moreover have "strip_hidden v = v" using readOwnPath_strip [OF assms(5)] by auto
  ultimately show ?thesis using f unfolding cloned_fields_Inr by metis
qed

theorem extraction_keeps_allowed_fields_witness:
  "readOwnPath (JObj sample_person) [''person''] = Some (JObj [(''mail'', JStr ''ann@example.org''), (''name'', JStr ''Ann'')])"
proof -
  let ?in = "JObj (sample_person @ [(''secretNote'', JStr ''x'')])"
  have a: "''person'' \<in> set (dc_allowed_input sample_contract)" "dc_denied_input sample_contract = [''secretNote'']"
    "\<not> pathDenied ''person'' (dc_denied_input sample_contract)" by code_simp+
  have s: "pathSegments False ''person'' = Inr [''person'']" "pathSegments True ''secretNote'' = Inr [''secretNote'']"
    "readOwnPath (strip_hidden ?in) [''person''] = Some (JObj [(''mail'', JStr ''ann@example.org''), (''name'', JStr ''Ann'')])"
    by code_simp+
  show ?thesis by (rule extraction_keeps_allowed_fields [OF sample_step2 a(1,3) s(1,3)]) (use a(2) s(2) in auto)
qed

text \<open>A denied part of an allowed field takes the whole field with it.\<close>

lemma denied_part_drops_field:
  "extractAllowedFields (\<lambda>n. 1) small_limits sample_input [''person''] [''person.mail''] = Inr []"
  by code_simp

end
