(* ===== verification/Indexed_Store.thy ===== *)
theory Indexed_Store
  imports Prelude
begin

text \<open>
  Collections of MongoDB with a unique index beside the key, and updates of every document that matches. The documented
  behaviour of the calls is the locale \<open>indexed_store\<close>: \<open>view\<close> is what the collection holds, \<open>clash\<close> when two
  documents have the same value in a unique index. \<open>alist_store\<close> is a collection held as an association list.
\<close>

record ('k, 'd, 'db) index_ops =
  ix_find :: "'k \<Rightarrow> ('d \<Rightarrow> bool) \<Rightarrow> 'db \<Rightarrow> 'd option"
  ix_find_where :: "('d \<Rightarrow> bool) \<Rightarrow> 'db \<Rightarrow> ('k \<times> 'd) option"
  ix_update :: "'k \<Rightarrow> ('d \<Rightarrow> bool) \<Rightarrow> ('d \<Rightarrow> 'd) \<Rightarrow> 'db \<Rightarrow> 'd option \<times> 'db"
  ix_update_many :: "('d \<Rightarrow> bool) \<Rightarrow> ('d \<Rightarrow> 'd) \<Rightarrow> 'db \<Rightarrow> nat \<times> 'db"
  ix_create :: "'k \<Rightarrow> 'd \<Rightarrow> 'db \<Rightarrow> bool \<times> 'db"

locale indexed_store =
  fixes S :: "('k, 'd, 'db) index_ops"
    and view :: "'db \<Rightarrow> 'k \<Rightarrow> 'd option"
    and clash :: "'k \<Rightarrow> 'd \<Rightarrow> 'k \<Rightarrow> 'd \<Rightarrow> bool"
  assumes find_view: "ix_find S k p db = (case view db k of None \<Rightarrow> None | Some d \<Rightarrow> if p d then Some d else None)"
    and find_where_Some: "ix_find_where S p db = Some (k, d) \<Longrightarrow> view db k = Some d \<and> p d"
    and find_where_None: "ix_find_where S p db = None \<Longrightarrow> view db k = Some d \<Longrightarrow> \<not> p d"
    and update_hit:
      "view db k = Some d \<Longrightarrow> p d \<Longrightarrow>
       fst (ix_update S k p u db) = Some (u d) \<and> view (snd (ix_update S k p u db)) = (view db)(k \<mapsto> u d)"
    and update_miss: "(\<And>d. view db k = Some d \<Longrightarrow> \<not> p d) \<Longrightarrow> ix_update S k p u db = (None, db)"
    and update_many_view:
      "view (snd (ix_update_many S p u db)) k = map_option (\<lambda>d. if p d then u d else d) (view db k)"
    and create_new:
      "view db k = None \<Longrightarrow> (\<And>k' d'. view db k' = Some d' \<Longrightarrow> \<not> clash k d k' d') \<Longrightarrow>
       fst (ix_create S k d db) \<and> view (snd (ix_create S k d db)) = (view db)(k \<mapsto> d)"
    and create_taken:
      "(\<exists>d'. view db k = Some d') \<or> (\<exists>k' d'. view db k' = Some d' \<and> clash k d k' d') \<Longrightarrow> ix_create S k d db = (False, db)"
begin

lemma find_Some: "ix_find S k p db = Some d \<longleftrightarrow> view db k = Some d \<and> p d"
  by (auto simp: find_view split: option.splits)

lemma update_cases:
  assumes "ix_update S k p u db = (r, db')"
  obtains (miss) "r = None" "db' = db" "\<And>d. view db k = Some d \<Longrightarrow> \<not> p d"
    | (hit) d where "view db k = Some d" "p d" "r = Some (u d)" "view db' = (view db)(k \<mapsto> u d)"
proof (cases "\<exists>d. view db k = Some d \<and> p d")
  case True
  then obtain d where d: "view db k = Some d" "p d" by blast
  with update_hit [of db k d p u] assms show thesis by (intro hit [of d]) simp_all
next
  case False
  then have no: "\<And>d. view db k = Some d \<Longrightarrow> \<not> p d" by blast
  with update_miss [of db k p u] assms show thesis by (intro miss) simp_all
qed

lemma create_cases:
  assumes "ix_create S k d db = (ok, db')"
  obtains (taken) "\<not> ok" "db' = db" | (new) "ok" "view db k = None" "view db' = (view db)(k \<mapsto> d)"
      "\<And>k' d'. view db k' = Some d' \<Longrightarrow> \<not> clash k d k' d'"
proof (cases "(\<exists>d'. view db k = Some d') \<or> (\<exists>k' d'. view db k' = Some d' \<and> clash k d k' d')")
  case True
  with create_taken assms show thesis by (intro taken) simp_all
next
  case False
  then have n: "view db k = None" "\<And>k' d'. view db k' = Some d' \<Longrightarrow> \<not> clash k d k' d'" by auto
  with create_new [of db k d] assms show thesis by (intro new n) simp_all
qed

end

subsection \<open>A collection held as an association list\<close>

definition al_find :: "'k \<Rightarrow> ('d \<Rightarrow> bool) \<Rightarrow> ('k \<times> 'd) list \<Rightarrow> 'd option" where
  "al_find k p db = (case map_of db k of None \<Rightarrow> None | Some d \<Rightarrow> if p d then Some d else None)"

text \<open>Entries that an earlier entry for the same key hides are not documents.\<close>

fun al_find_where :: "'k set \<Rightarrow> ('d \<Rightarrow> bool) \<Rightarrow> ('k \<times> 'd) list \<Rightarrow> ('k \<times> 'd) option" where
  "al_find_where seen p [] = None"
| "al_find_where seen p ((k, d) # db) =
     (if k \<notin> seen \<and> p d then Some (k, d) else al_find_where (insert k seen) p db)"

definition al_update :: "'k \<Rightarrow> ('d \<Rightarrow> bool) \<Rightarrow> ('d \<Rightarrow> 'd) \<Rightarrow> ('k \<times> 'd) list \<Rightarrow> 'd option \<times> ('k \<times> 'd) list" where
  "al_update k p u db =
     (case map_of db k of None \<Rightarrow> (None, db)
      | Some d \<Rightarrow> if p d then (Some (u d), (k, u d) # db) else (None, db))"

fun al_count :: "'k set \<Rightarrow> ('d \<Rightarrow> bool) \<Rightarrow> ('k \<times> 'd) list \<Rightarrow> nat" where
  "al_count seen p [] = 0"
| "al_count seen p ((k, d) # db) = (if k \<notin> seen \<and> p d then 1 else 0) + al_count (insert k seen) p db"

definition al_update_many :: "('d \<Rightarrow> bool) \<Rightarrow> ('d \<Rightarrow> 'd) \<Rightarrow> ('k \<times> 'd) list \<Rightarrow> nat \<times> ('k \<times> 'd) list" where
  "al_update_many p u db = (al_count {} p db, map (\<lambda>(k, d). (k, if p d then u d else d)) db)"

definition al_create ::
  "('k \<Rightarrow> 'd \<Rightarrow> 'k \<Rightarrow> 'd \<Rightarrow> bool) \<Rightarrow> 'k \<Rightarrow> 'd \<Rightarrow> ('k \<times> 'd) list \<Rightarrow> bool \<times> ('k \<times> 'd) list" where
  "al_create clash k d db =
     (if map_of db k \<noteq> None \<or> list_ex (\<lambda>k'. case map_of db k' of None \<Rightarrow> False | Some d' \<Rightarrow> clash k d k' d') (map fst db)
      then (False, db) else (True, (k, d) # db))"

definition alist_store :: "('k \<Rightarrow> 'd \<Rightarrow> 'k \<Rightarrow> 'd \<Rightarrow> bool) \<Rightarrow> ('k, 'd, ('k \<times> 'd) list) index_ops" where
  "alist_store clash =
     \<lparr>ix_find = al_find, ix_find_where = al_find_where {}, ix_update = al_update,
      ix_update_many = al_update_many, ix_create = al_create clash\<rparr>"

lemmas alist_store_defs =
  alist_store_def al_find_def al_update_def al_update_many_def al_create_def

lemma al_find_where_Some: "al_find_where seen p db = Some (k, d) \<Longrightarrow> map_of db k = Some d \<and> p d \<and> k \<notin> seen"
  by (induction seen p db rule: al_find_where.induct) (auto split: if_splits)

lemma al_find_where_None: "al_find_where seen p db = None \<Longrightarrow> map_of db k = Some d \<Longrightarrow> k \<notin> seen \<Longrightarrow> \<not> p d"
  by (induction seen p db rule: al_find_where.induct) (auto split: if_splits)

lemma map_of_mapped: "map_of (map (\<lambda>(k, d). (k, f d)) db) k = map_option f (map_of db k)"
  by (induction db) auto

lemma map_of_known: "map_of db k = Some d \<Longrightarrow> k \<in> fst ` set db"
  by (force dest: map_of_SomeD)

interpretation alist_collection: indexed_store "alist_store clash" map_of clash
  for clash :: "'k \<Rightarrow> 'd \<Rightarrow> 'k \<Rightarrow> 'd \<Rightarrow> bool"
proof
  fix p :: "'d \<Rightarrow> bool" and db :: "('k \<times> 'd) list" and k d
  show "ix_find_where (alist_store clash) p db = Some (k, d) \<Longrightarrow> map_of db k = Some d \<and> p d"
    by (auto simp: alist_store_def dest: al_find_where_Some)
  show "ix_find_where (alist_store clash) p db = None \<Longrightarrow> map_of db k = Some d \<Longrightarrow> \<not> p d"
    by (auto simp: alist_store_def dest: al_find_where_None)
next
  fix k :: 'k and d :: 'd and db :: "('k \<times> 'd) list"
  show "(\<exists>d'. map_of db k = Some d') \<or> (\<exists>k' d'. map_of db k' = Some d' \<and> clash k d k' d') \<Longrightarrow>
      ix_create (alist_store clash) k d db = (False, db)"
  proof (elim disjE exE conjE)
    fix k' d' assume "map_of db k' = Some d'" "clash k d k' d'"
    then have "list_ex (\<lambda>k'. case map_of db k' of None \<Rightarrow> False | Some d' \<Rightarrow> clash k d k' d') (map fst db)"
      unfolding list_ex_iff by (intro bexI [of _ k']) (auto dest: map_of_known)
    then show ?thesis by (simp add: alist_store_defs)
  qed (simp add: alist_store_defs)
qed (auto simp: alist_store_defs map_of_mapped list_ex_iff split: option.splits)

end
