(* ===== verification/Delegation_Grants.thy ===== *)
theory Delegation_Grants
  imports Delegated_Rules Agent_Selection Program_Monad Indexed_Store Transition_Table
begin

text \<open>
  Grants of backend/src/services/interAgentDelegation.service.js (with constants/interAgentDelegation.js and
  models/InterAgentDelegation{Grant,Invocation,Reference}.js): the right of one agent of an orchestration to send data to
  another under a data contract, for a number of invocations and a time. Here are the records, the tables of states, who matches
  a contract, and how a grant is created below a parent.

  \<^item> The three collections are the state of the operations, a triple; \<open>delegation_db\<close> holds their calls
    (\<open>Indexed_Store\<close>), and \<open>env n\<close> is what others do before the \<open>n\<close>-th call.
  \<^item> Collections that the service only reads (contracts, connections, passports, catalog entries, node runs) are the argument
    \<open>directory\<close>; identifiers of database objects are strings. The approval service is an argument: whether an
    approval is required, the identifier of a new request, and the status of a request.
\<close>

subsection \<open>States\<close>

datatype grant_status = G_Pending | G_Active | G_Exhausted | G_Expired | G_Revoked | G_Completed | G_Rejected

definition DELEGATION_GRANT_STATUSES :: "grant_status list" where
  "DELEGATION_GRANT_STATUSES = [G_Pending, G_Active, G_Exhausted, G_Expired, G_Revoked, G_Completed, G_Rejected]"

definition TERMINAL_GRANT_STATUSES :: "grant_status list" where
  "TERMINAL_GRANT_STATUSES = [G_Exhausted, G_Expired, G_Revoked, G_Completed, G_Rejected]"

fun GRANT_TRANSITIONS :: "grant_status \<Rightarrow> grant_status list" where
  "GRANT_TRANSITIONS G_Pending = [G_Active, G_Expired, G_Revoked, G_Rejected]"
| "GRANT_TRANSITIONS G_Active = [G_Exhausted, G_Expired, G_Revoked, G_Completed]"
| "GRANT_TRANSITIONS _ = []"

datatype delegated_status = D_Prepared | D_Approval_Required | D_Invoking | D_Succeeded | D_Failed | D_Cancelled | D_Rejected

definition DELEGATION_INVOCATION_STATUSES :: "delegated_status list" where
  "DELEGATION_INVOCATION_STATUSES =
     [D_Prepared, D_Approval_Required, D_Invoking, D_Succeeded, D_Failed, D_Cancelled, D_Rejected]"

fun INVOCATION_TRANSITIONS :: "delegated_status \<Rightarrow> delegated_status list" where
  "INVOCATION_TRANSITIONS D_Prepared = [D_Approval_Required, D_Invoking, D_Failed, D_Cancelled, D_Rejected]"
| "INVOCATION_TRANSITIONS D_Approval_Required = [D_Invoking, D_Cancelled, D_Rejected]"
| "INVOCATION_TRANSITIONS D_Invoking = [D_Succeeded, D_Failed, D_Cancelled]"
| "INVOCATION_TRANSITIONS D_Failed = [D_Invoking]"
| "INVOCATION_TRANSITIONS _ = []"

text \<open>The error of a refused transition carries its code only.\<close>

definition assertTransition :: "('s \<Rightarrow> 's list) \<Rightarrow> 's \<Rightarrow> 's \<Rightarrow> string \<Rightarrow> string + unit" where
  "assertTransition table from to code = (if from = to \<or> to \<in> set (table from) then Inr () else Inl code)"

definition assertGrantTransition :: "grant_status \<Rightarrow> grant_status \<Rightarrow> string + unit" where
  "assertGrantTransition from to = assertTransition GRANT_TRANSITIONS from to ''INTER_AGENT_GRANT_TRANSITION_INVALID''"

definition assertDelegationInvocationTransition :: "delegated_status \<Rightarrow> delegated_status \<Rightarrow> string + unit" where
  "assertDelegationInvocationTransition from to =
     assertTransition INVOCATION_TRANSITIONS from to ''INTER_AGENT_INVOCATION_TRANSITION_INVALID''"

fun grant_rank :: "grant_status \<Rightarrow> nat" where
  "grant_rank G_Pending = 2"
| "grant_rank G_Active = 1"
| "grant_rank _ = 0"

fun delegated_rank :: "delegated_status \<Rightarrow> nat" where
  "delegated_rank D_Prepared = 3"
| "delegated_rank D_Approval_Required = 3"
| "delegated_rank D_Failed = 2"
| "delegated_rank D_Invoking = 1"
| "delegated_rank _ = 0"

interpretation grant_table: transition_table DELEGATION_GRANT_STATUSES GRANT_TRANSITIONS grant_rank
proof
  show "t \<in> set (GRANT_TRANSITIONS s) \<Longrightarrow> t \<in> set DELEGATION_GRANT_STATUSES" for s t
    by (cases s) (auto simp: DELEGATION_GRANT_STATUSES_def)
  show "GRANT_TRANSITIONS s \<noteq> [] \<Longrightarrow> \<exists>t\<in>set (GRANT_TRANSITIONS s). grant_rank t < grant_rank s" for s
    by (cases s) auto
qed

interpretation delegated_table: transition_table DELEGATION_INVOCATION_STATUSES INVOCATION_TRANSITIONS delegated_rank
proof
  show "t \<in> set (INVOCATION_TRANSITIONS s) \<Longrightarrow> t \<in> set DELEGATION_INVOCATION_STATUSES" for s t
    by (cases s) (auto simp: DELEGATION_INVOCATION_STATUSES_def)
  show "INVOCATION_TRANSITIONS s \<noteq> [] \<Longrightarrow> \<exists>t\<in>set (INVOCATION_TRANSITIONS s). delegated_rank t < delegated_rank s" for s
    by (cases s) auto
qed

subsection \<open>What the service reads\<close>

record selector =
  se_passport :: "string option"
  se_connection :: "string option"
  se_publisher :: "string option"
  se_category :: "string option"
  se_tier :: "string option"
  se_policy :: "string option"
  se_definition :: "string option"
  se_node :: "string option"

datatype contract_status = C_Draft | C_Active | C_Archived

record delegation_contract =
  ct_id :: string
  ct_organization :: string
  ct_workspace :: string
  ct_version :: int
  ct_status :: contract_status
  ct_source_selector :: selector
  ct_target_selector :: selector
  ct_source_capability :: string
  ct_source_operation :: string
  ct_target_capability :: string
  ct_target_operation :: string
  ct_purpose_code :: string
  ct_data :: data_contract
  ct_further :: bool
  ct_maximum_depth :: int
  ct_require_approval :: bool
  ct_valid_from :: int
  ct_expires_at :: int
  ct_input_hash :: "string option"
  ct_output_hash :: "string option"

record catalog_capability =
  cc_key :: string
  cc_operations :: "string list"
  cc_output_schema :: "json option"

record catalog_entry =
  ce_organization :: string
  ce_workspace :: string
  ce_passport :: string
  ce_connection :: string
  ce_availability :: string
  ce_lifecycle :: string
  ce_connection_status :: string
  ce_publisher :: "string option"
  ce_categories :: "string list"
  ce_tier :: string
  ce_capabilities :: "catalog_capability list"
  ce_target :: data_target

record agent_connection =
  cn_id :: string
  cn_organization :: "string option"
  cn_partner :: "string option"
  cn_workspace :: string
  cn_status :: string
  cn_scope :: string
  cn_passport :: string

record agent_passport =
  ap_id :: string
  ap_status :: string
  ap_version :: "string option"

record node_run =
  nr_id :: string
  nr_organization :: string
  nr_workspace :: string
  nr_passport :: "string option"
  nr_passport_version :: "string option"
  nr_connection :: "string option"
  nr_policy :: "string option"
  nr_node_key :: "string option"
  nr_capability :: string
  nr_operation :: string

record directory =
  di_contracts :: "delegation_contract list"
  di_connections :: "agent_connection list"
  di_passports :: "agent_passport list"
  di_catalog :: "catalog_entry list"
  di_nodes :: "node_run list"

record delegation_scope =
  sc_organization :: string
  sc_workspace :: string
  sc_actor :: string

definition idOf :: "string option \<Rightarrow> string" where
  "idOf v = (case v of None \<Rightarrow> [] | Some s \<Rightarrow> js_trim s)"

subsection \<open>Who matches a contract\<close>

record selector_context =
  sx_policy :: "string option"
  sx_definition :: "string option"
  sx_node :: "string option"

text \<open>A criterion that is absent or empty demands nothing.\<close>

definition demands :: "string option \<Rightarrow> (string \<Rightarrow> bool) \<Rightarrow> bool" where
  "demands v p \<longleftrightarrow> (case v of None \<Rightarrow> True | Some s \<Rightarrow> s = [] \<or> p s)"

definition text_of :: "string option \<Rightarrow> string" where
  "text_of v = (case v of None \<Rightarrow> [] | Some s \<Rightarrow> s)"

definition selectorMatchesCandidate :: "selector \<Rightarrow> catalog_entry \<Rightarrow> selector_context \<Rightarrow> bool" where
  "selectorMatchesCandidate sel entry ctx \<longleftrightarrow>
     demands (se_passport sel) (\<lambda>s. js_trim s = js_trim (ce_passport entry))
     \<and> demands (se_connection sel) (\<lambda>s. js_trim s = js_trim (ce_connection entry))
     \<and> demands (se_publisher sel) (\<lambda>s. js_lower s = js_lower (text_of (ce_publisher entry)))
     \<and> demands (se_category sel) (\<lambda>s. s \<in> set (ce_categories entry))
     \<and> demands (se_tier sel) (\<lambda>s. trustRank s \<le> trustRank (ce_tier entry))
     \<and> demands (se_policy sel) (\<lambda>s. js_trim s = idOf (sx_policy ctx))
     \<and> demands (se_definition sel) (\<lambda>s. js_trim s = idOf (sx_definition ctx))
     \<and> demands (se_node sel) (\<lambda>s. s = text_of (sx_node ctx))"

definition capabilityMatches :: "catalog_entry \<Rightarrow> string \<Rightarrow> string \<Rightarrow> bool" where
  "capabilityMatches entry capability operation \<longleftrightarrow>
     (case List.find (\<lambda>c. cc_key c = capability) (ce_capabilities entry) of
        None \<Rightarrow> False | Some c \<Rightarrow> operation \<in> set (cc_operations c))"

subsection \<open>Grants\<close>

record delegation_identity =
  id_definition :: "string option"
  id_run :: "string option"
  id_source_node :: "string option"
  id_target_node :: "string option"
  id_source_passport :: "string option"
  id_source_version :: "string option"
  id_source_connection :: "string option"
  id_target_passport :: "string option"
  id_target_version :: "string option"
  id_target_connection :: "string option"

record grant =
  gr_organization :: string
  gr_workspace :: string
  gr_identity :: delegation_identity
  gr_contract :: string
  gr_contract_version :: int
  gr_source_capability :: string
  gr_source_operation :: string
  gr_target_capability :: string
  gr_target_operation :: string
  gr_purpose_code :: string
  gr_status :: grant_status
  gr_input_hash :: string
  gr_output_hash :: string
  gr_classifications :: "string list"
  gr_maximum_classification :: string
  gr_limit :: int
  gr_count :: int
  gr_hashes :: "string list"
  gr_valid_from :: int
  gr_expires_at :: int
  gr_depth :: int
  gr_maximum_depth :: int
  gr_further :: bool
  gr_parent :: "string option"
  gr_path :: "string list"
  gr_approval :: "string option"
  gr_approved_at :: "int option"
  gr_revocation_reason :: "string option"
  gr_revoked_by :: "string option"
  gr_revoked_at :: "int option"
  gr_first_used_at :: "int option"
  gr_completed_at :: "int option"

record delegated_invocation =
  dn_organization :: string
  dn_workspace :: string
  dn_contract :: string
  dn_contract_version :: int
  dn_identity :: delegation_identity
  dn_capability :: string
  dn_operation :: string
  dn_purpose_code :: string
  dn_status :: delegated_status
  dn_ordinal :: int
  dn_classification :: string
  dn_statistics :: data_statistics
  dn_source_hash :: string
  dn_target_hash :: string
  dn_approval :: "string option"
  dn_runtime :: "string option"
  dn_output_bytes :: nat
  dn_failure_code :: "string option"
  dn_retryable :: bool
  dn_started_at :: "int option"
  dn_completed_at :: "int option"

record delegation_reference =
  rf_grant :: string
  rf_invocation :: "string \<times> string"
  rf_organization :: string
  rf_workspace :: string
  rf_identity :: delegation_identity
  rf_contract :: string
  rf_contract_version :: int
  rf_audience :: string
  rf_issued_at :: int
  rf_expires_at :: int
  rf_consumed_at :: "int option"
  rf_invalidated_at :: "int option"

text \<open>An invocation is stored under its grant and the hash of its idempotency key, a reference under its hash. The other unique
  indexes: one grant per run, edge and contract, one invocation per ordinal of a grant.\<close>

definition same_edge :: "string \<Rightarrow> grant \<Rightarrow> string \<Rightarrow> grant \<Rightarrow> bool" where
  "same_edge k g k' g' \<longleftrightarrow>
     id_run (gr_identity g) \<noteq> None \<and> id_run (gr_identity g') = id_run (gr_identity g)
     \<and> id_source_node (gr_identity g') = id_source_node (gr_identity g)
     \<and> id_target_node (gr_identity g') = id_target_node (gr_identity g) \<and> gr_contract g' = gr_contract g"

definition same_ordinal :: "string \<times> string \<Rightarrow> delegated_invocation \<Rightarrow> string \<times> string \<Rightarrow> delegated_invocation \<Rightarrow> bool" where
  "same_ordinal k v k' v' \<longleftrightarrow> fst k = fst k' \<and> dn_ordinal v = dn_ordinal v'"

definition no_clash :: "'k \<Rightarrow> 'd \<Rightarrow> 'k \<Rightarrow> 'd \<Rightarrow> bool" where
  "no_clash k d k' d' = False"

record ('g, 'v, 'r) delegation_db =
  db_grants :: "(string, grant, 'g) index_ops"
  db_invocations :: "(string \<times> string, delegated_invocation, 'v) index_ops"
  db_references :: "(string, delegation_reference, 'r) index_ops"

text \<open>Calls on one of the three collections.\<close>

definition find_grant ::
  "('g, 'v, 'r) delegation_db \<Rightarrow> ('g \<times> 'v \<times> 'r \<Rightarrow> 'g \<times> 'v \<times> 'r) \<Rightarrow> string \<Rightarrow> (grant \<Rightarrow> bool) \<Rightarrow>
   (grant option, 'g \<times> 'v \<times> 'r) prog" where
  "find_grant S env k p s = (let s1 = env s in (Inr (ix_find (db_grants S) k p (fst s1)), s1))"

definition find_grant_where ::
  "('g, 'v, 'r) delegation_db \<Rightarrow> ('g \<times> 'v \<times> 'r \<Rightarrow> 'g \<times> 'v \<times> 'r) \<Rightarrow> (grant \<Rightarrow> bool) \<Rightarrow>
   ((string \<times> grant) option, 'g \<times> 'v \<times> 'r) prog" where
  "find_grant_where S env p s = (let s1 = env s in (Inr (ix_find_where (db_grants S) p (fst s1)), s1))"

definition update_grant ::
  "('g, 'v, 'r) delegation_db \<Rightarrow> ('g \<times> 'v \<times> 'r \<Rightarrow> 'g \<times> 'v \<times> 'r) \<Rightarrow> string \<Rightarrow> (grant \<Rightarrow> bool) \<Rightarrow> (grant \<Rightarrow> grant) \<Rightarrow>
   (grant option, 'g \<times> 'v \<times> 'r) prog" where
  "update_grant S env k p u s =
     (let s1 = env s in case ix_update (db_grants S) k p u (fst s1) of (r, g) \<Rightarrow> (Inr r, (g, snd s1)))"

definition update_grants ::
  "('g, 'v, 'r) delegation_db \<Rightarrow> ('g \<times> 'v \<times> 'r \<Rightarrow> 'g \<times> 'v \<times> 'r) \<Rightarrow> (grant \<Rightarrow> bool) \<Rightarrow> (grant \<Rightarrow> grant) \<Rightarrow>
   (nat, 'g \<times> 'v \<times> 'r) prog" where
  "update_grants S env p u s =
     (let s1 = env s in case ix_update_many (db_grants S) p u (fst s1) of (n, g) \<Rightarrow> (Inr n, (g, snd s1)))"

definition create_grant ::
  "('g, 'v, 'r) delegation_db \<Rightarrow> ('g \<times> 'v \<times> 'r \<Rightarrow> 'g \<times> 'v \<times> 'r) \<Rightarrow> string \<Rightarrow> grant \<Rightarrow> (bool, 'g \<times> 'v \<times> 'r) prog" where
  "create_grant S env k d s =
     (let s1 = env s in case ix_create (db_grants S) k d (fst s1) of (ok, g) \<Rightarrow> (Inr ok, (g, snd s1)))"

definition find_delegated ::
  "('g, 'v, 'r) delegation_db \<Rightarrow> ('g \<times> 'v \<times> 'r \<Rightarrow> 'g \<times> 'v \<times> 'r) \<Rightarrow> string \<times> string \<Rightarrow> (delegated_invocation \<Rightarrow> bool) \<Rightarrow>
   (delegated_invocation option, 'g \<times> 'v \<times> 'r) prog" where
  "find_delegated S env k p s = (let s1 = env s in (Inr (ix_find (db_invocations S) k p (fst (snd s1))), s1))"

definition update_delegated ::
  "('g, 'v, 'r) delegation_db \<Rightarrow> ('g \<times> 'v \<times> 'r \<Rightarrow> 'g \<times> 'v \<times> 'r) \<Rightarrow> string \<times> string \<Rightarrow> (delegated_invocation \<Rightarrow> bool) \<Rightarrow>
   (delegated_invocation \<Rightarrow> delegated_invocation) \<Rightarrow> (delegated_invocation option, 'g \<times> 'v \<times> 'r) prog" where
  "update_delegated S env k p u s =
     (let s1 = env s in case ix_update (db_invocations S) k p u (fst (snd s1)) of (r, v) \<Rightarrow> (Inr r, (fst s1, v, snd (snd s1))))"

definition create_delegated ::
  "('g, 'v, 'r) delegation_db \<Rightarrow> ('g \<times> 'v \<times> 'r \<Rightarrow> 'g \<times> 'v \<times> 'r) \<Rightarrow> string \<times> string \<Rightarrow> delegated_invocation \<Rightarrow>
   (bool, 'g \<times> 'v \<times> 'r) prog" where
  "create_delegated S env k d s =
     (let s1 = env s in case ix_create (db_invocations S) k d (fst (snd s1)) of (ok, v) \<Rightarrow> (Inr ok, (fst s1, v, snd (snd s1))))"

definition update_reference ::
  "('g, 'v, 'r) delegation_db \<Rightarrow> ('g \<times> 'v \<times> 'r \<Rightarrow> 'g \<times> 'v \<times> 'r) \<Rightarrow> string \<Rightarrow> (delegation_reference \<Rightarrow> bool) \<Rightarrow>
   (delegation_reference \<Rightarrow> delegation_reference) \<Rightarrow> (delegation_reference option, 'g \<times> 'v \<times> 'r) prog" where
  "update_reference S env k p u s =
     (let s1 = env s in case ix_update (db_references S) k p u (snd (snd s1)) of (x, r) \<Rightarrow> (Inr x, (fst s1, fst (snd s1), r)))"

definition update_references ::
  "('g, 'v, 'r) delegation_db \<Rightarrow> ('g \<times> 'v \<times> 'r \<Rightarrow> 'g \<times> 'v \<times> 'r) \<Rightarrow> (delegation_reference \<Rightarrow> bool) \<Rightarrow>
   (delegation_reference \<Rightarrow> delegation_reference) \<Rightarrow> (nat, 'g \<times> 'v \<times> 'r) prog" where
  "update_references S env p u s =
     (let s1 = env s in case ix_update_many (db_references S) p u (snd (snd s1)) of (n, r) \<Rightarrow> (Inr n, (fst s1, fst (snd s1), r)))"

definition create_reference ::
  "('g, 'v, 'r) delegation_db \<Rightarrow> ('g \<times> 'v \<times> 'r \<Rightarrow> 'g \<times> 'v \<times> 'r) \<Rightarrow> string \<Rightarrow> delegation_reference \<Rightarrow>
   (bool, 'g \<times> 'v \<times> 'r) prog" where
  "create_reference S env k d s =
     (let s1 = env s in case ix_create (db_references S) k d (snd (snd s1)) of (ok, r) \<Rightarrow> (Inr ok, (fst s1, fst (snd s1), r)))"

definition in_scope :: "delegation_scope \<Rightarrow> grant \<Rightarrow> bool" where
  "in_scope sc g \<longleftrightarrow> gr_organization g = sc_organization sc \<and> gr_workspace g = sc_workspace sc"

definition scopedGrant ::
  "('g, 'v, 'r) delegation_db \<Rightarrow> ('g \<times> 'v \<times> 'r \<Rightarrow> 'g \<times> 'v \<times> 'r) \<Rightarrow> string \<Rightarrow> delegation_scope \<Rightarrow>
   (grant, 'g \<times> 'v \<times> 'r) prog" where
  "scopedGrant S env k sc =
     thens (find_grant S env k (in_scope sc)) (\<lambda>r.
       case r of None \<Rightarrow> throws (App_Error 404 ''INTER_AGENT_GRANT_NOT_FOUND'' '''') | Some g \<Rightarrow> returns g)"

subsection \<open>Creating a grant\<close>

definition either_text :: "string option \<Rightarrow> string option \<Rightarrow> string option" where
  "either_text a b = (if a = None \<or> a = Some [] then b else a)"

text \<open>\<open>Number(v || d)\<close>.\<close>

definition number_or_default :: "jsnum option \<Rightarrow> int \<Rightarrow> jsnum" where
  "number_or_default v d = (case v of None \<Rightarrow> num_of_int d | Some x \<Rightarrow> if x = NaN \<or> x = Fin 0 then num_of_int d else x)"

record grant_input =
  gi_contract :: string
  gi_contract_version :: jsnum
  gi_identity :: delegation_identity
  gi_source_policy :: "string option"
  gi_target_policy :: "string option"
  gi_depth :: "jsnum option"
  gi_parent :: "string option"
  gi_expires_at :: "int option"
  gi_limit :: "jsnum option"

definition grantIdentity :: "delegation_identity \<Rightarrow> node_run option \<Rightarrow> node_run option \<Rightarrow> delegation_identity" where
  "grantIdentity i source target =
     (let of_node = (\<lambda>node f. case node of None \<Rightarrow> None | Some n \<Rightarrow> f n) in
      i\<lparr>id_source_node := either_text (id_source_node i) (of_node source (\<lambda>n. Some (nr_id n))),
        id_target_node := either_text (id_target_node i) (of_node target (\<lambda>n. Some (nr_id n))),
        id_source_passport := either_text (id_source_passport i) (of_node source nr_passport),
        id_source_version := either_text (id_source_version i) (of_node source nr_passport_version),
        id_source_connection := either_text (id_source_connection i) (of_node source nr_connection),
        id_target_passport := either_text (id_target_passport i) (of_node target nr_passport),
        id_target_version := either_text (id_target_version i) (of_node target nr_passport_version),
        id_target_connection := either_text (id_target_connection i) (of_node target nr_connection)\<rparr>)"

record grant_actors =
  ga_source_connection :: agent_connection
  ga_target_connection :: agent_connection
  ga_source_passport :: agent_passport
  ga_target_passport :: agent_passport
  ga_source_entry :: catalog_entry
  ga_target_entry :: catalog_entry

definition find_connection :: "directory \<Rightarrow> delegation_scope \<Rightarrow> string option \<Rightarrow> agent_connection option" where
  "find_connection dir sc k = List.find (\<lambda>c. Some (cn_id c) = k \<and> cn_workspace c = sc_workspace sc
     \<and> cn_status c = ''connected'' \<and> cn_scope c = ''invoke''
     \<and> (cn_organization c = Some (sc_organization sc) \<or> cn_partner c = Some (sc_organization sc))) (di_connections dir)"

definition find_passport :: "directory \<Rightarrow> string option \<Rightarrow> agent_passport option" where
  "find_passport dir k = List.find (\<lambda>p. Some (ap_id p) = k \<and> ap_status p = ''valid'') (di_passports dir)"

definition find_entry :: "directory \<Rightarrow> delegation_scope \<Rightarrow> string option \<Rightarrow> string option \<Rightarrow> catalog_entry option" where
  "find_entry dir sc passport connection = List.find (\<lambda>c. ce_organization c = sc_organization sc
     \<and> ce_workspace c = sc_workspace sc \<and> Some (ce_passport c) = passport \<and> Some (ce_connection c) = connection
     \<and> ce_availability c = ''available'' \<and> ce_lifecycle c = ''valid'' \<and> ce_connection_status c = ''connected'') (di_catalog dir)"

definition loadGrantActors :: "directory \<Rightarrow> delegation_scope \<Rightarrow> delegation_identity \<Rightarrow> grant_actors res" where
  "loadGrantActors dir sc i =
     (case (find_connection dir sc (id_source_connection i), find_connection dir sc (id_target_connection i),
            find_passport dir (id_source_passport i), find_passport dir (id_target_passport i),
            find_entry dir sc (id_source_passport i) (id_source_connection i),
            find_entry dir sc (id_target_passport i) (id_target_connection i)) of
        (Some cs, Some ct, Some ps, Some pt, Some es, Some et) \<Rightarrow>
          if js_trim (cn_passport cs) \<noteq> js_trim (ap_id ps) \<or> js_trim (cn_passport ct) \<noteq> js_trim (ap_id pt)
          then Inl (App_Error 409 ''INTER_AGENT_IDENTITY_MISMATCH'' '''')
          else if text_of (ap_version ps) \<noteq> text_of (id_source_version i) \<or> text_of (ap_version pt) \<noteq> text_of (id_target_version i)
          then Inl (App_Error 409 ''INTER_AGENT_PASSPORT_VERSION_MISMATCH'' '''')
          else Inr \<lparr>ga_source_connection = cs, ga_target_connection = ct, ga_source_passport = ps, ga_target_passport = pt,
                    ga_source_entry = es, ga_target_entry = et\<rparr>
      | _ \<Rightarrow> Inl (App_Error 409 ''INTER_AGENT_IDENTITY_UNAVAILABLE'' ''''))"

definition find_node :: "directory \<Rightarrow> delegation_scope \<Rightarrow> string option \<Rightarrow> node_run option" where
  "find_node dir sc k = (if k = None \<or> k = Some [] then None
     else List.find (\<lambda>n. Some (nr_id n) = k \<and> nr_organization n = sc_organization sc \<and> nr_workspace n = sc_workspace sc)
       (di_nodes dir))"

definition find_contract :: "directory \<Rightarrow> (delegation_contract \<Rightarrow> bool) \<Rightarrow> delegation_scope \<Rightarrow> string \<Rightarrow> delegation_contract option" where
  "find_contract dir p sc k = List.find (\<lambda>c. ct_id c = k \<and> ct_organization c = sc_organization sc
     \<and> ct_workspace c = sc_workspace sc \<and> p c) (di_contracts dir)"

definition node_mismatch :: "node_run option \<Rightarrow> string \<Rightarrow> string \<Rightarrow> bool" where
  "node_mismatch node capability operation \<longleftrightarrow>
     (case node of None \<Rightarrow> False | Some n \<Rightarrow> nr_capability n \<noteq> capability \<or> nr_operation n \<noteq> operation)"

definition selector_invalid :: app_error where
  "selector_invalid = App_Error 403 ''DATA_CONTRACT_SELECTOR_INVALID'' ''''"

definition selector_context_of :: "delegation_identity \<Rightarrow> string option \<Rightarrow> node_run option \<Rightarrow> selector_context" where
  "selector_context_of i policy node =
     \<lparr>sx_policy = either_text policy (case node of None \<Rightarrow> None | Some n \<Rightarrow> nr_policy n), sx_definition = id_definition i,
      sx_node = (case node of None \<Rightarrow> None | Some n \<Rightarrow> nr_node_key n)\<rparr>"

text \<open>What a new grant binds: an active contract and agents that it selects.\<close>

definition grant_bindings ::
  "directory \<Rightarrow> delegation_scope \<Rightarrow> grant_input \<Rightarrow> int \<Rightarrow> (delegation_contract \<times> delegation_identity) res" where
  "grant_bindings dir sc input now =
     (case find_contract dir (\<lambda>c. num_of_int (ct_version c) = gi_contract_version input \<and> ct_status c = C_Active
          \<and> ct_valid_from c \<le> now \<and> now < ct_expires_at c) sc (gi_contract input) of
        None \<Rightarrow> Inl (App_Error 409 ''DATA_CONTRACT_INACTIVE'' '''')
      | Some c \<Rightarrow>
          let source = find_node dir sc (id_source_node (gi_identity input));
              target = find_node dir sc (id_target_node (gi_identity input));
              i = grantIdentity (gi_identity input) source target in
          bindE (loadGrantActors dir sc i) (\<lambda>a.
          if \<not> selectorMatchesCandidate (ct_source_selector c) (ga_source_entry a) (selector_context_of i (gi_source_policy input) source)
             \<or> \<not> capabilityMatches (ga_source_entry a) (ct_source_capability c) (ct_source_operation c)
          then Inl selector_invalid
          else if \<not> selectorMatchesCandidate (ct_target_selector c) (ga_target_entry a) (selector_context_of i (gi_target_policy input) target)
             \<or> \<not> capabilityMatches (ga_target_entry a) (ct_target_capability c) (ct_target_operation c)
          then Inl selector_invalid
          else if node_mismatch source (ct_source_capability c) (ct_source_operation c)
             \<or> node_mismatch target (ct_target_capability c) (ct_target_operation c)
          then Inl (App_Error 409 ''INTER_AGENT_CAPABILITY_MISMATCH'' '''')
          else Inr (c, i)))"

definition platformMaximumDelegationDepth :: int where "platformMaximumDelegationDepth = 5"
definition maximumInvocationLimit :: int where "maximumInvocationLimit = 1000"
definition internalReferenceLifetimeMs :: int where "internalReferenceLifetimeMs = 5 * 60 * 1000"

definition depth_invalid :: app_error where
  "depth_invalid = App_Error 403 ''DATA_CONTRACT_DELEGATION_DEPTH_INVALID'' ''''"

definition further_denied :: app_error where
  "further_denied = App_Error 403 ''INTER_AGENT_FURTHER_DELEGATION_DENIED'' ''''"

definition requested_depth :: "grant_input \<Rightarrow> delegation_contract \<Rightarrow> int res" where
  "requested_depth input c =
     (case js_integer (number_or_default (gi_depth input) (if present (gi_parent input) then 2 else 1)) of
        None \<Rightarrow> Inl depth_invalid
      | Some depth \<Rightarrow>
          if depth < 1 \<or> platformMaximumDelegationDepth < depth \<or> ct_maximum_depth c < depth then Inl depth_invalid
          else Inr depth)"

text \<open>The path of passports from the first grant of the chain to the target.\<close>

definition child_path :: "grant option \<Rightarrow> int \<Rightarrow> delegation_identity \<Rightarrow> string list res" where
  "child_path parent depth i =
     (case parent of
        None \<Rightarrow> Inl further_denied
      | Some p \<Rightarrow>
          if gr_status p \<noteq> G_Active \<or> \<not> gr_further p then Inl further_denied
          else if depth \<noteq> gr_depth p + 1 \<or> gr_maximum_depth p < depth then Inl depth_invalid
          else if idOf (id_target_passport (gr_identity p)) \<noteq> idOf (id_source_passport i)
          then Inl (App_Error 403 ''INTER_AGENT_GRANT_PARENT_INVALID'' '''')
          else let path = gr_path p @ [idOf (id_target_passport i)] in
            if distinct path then Inr path else Inl (App_Error 409 ''INTER_AGENT_DELEGATION_CYCLE'' ''''))"

definition validateParentGrant ::
  "('g, 'v, 'r) delegation_db \<Rightarrow> ('g \<times> 'v \<times> 'r \<Rightarrow> 'g \<times> 'v \<times> 'r) \<Rightarrow> delegation_scope \<Rightarrow> grant_input \<Rightarrow> delegation_contract \<Rightarrow>
   delegation_identity \<Rightarrow> (int \<times> string option \<times> string list, 'g \<times> 'v \<times> 'r) prog" where
  "validateParentGrant S env sc input c i =
     thens (checks (requested_depth input c)) (\<lambda>depth.
     if \<not> present (gi_parent input)
     then returns (depth, None, [idOf (id_source_passport i), idOf (id_target_passport i)])
     else if \<not> ct_further c then throws further_denied
     else thens (find_grant S env (text_of (gi_parent input)) (in_scope sc)) (\<lambda>parent.
          thens (checks (child_path parent depth i)) (\<lambda>path. returns (depth, gi_parent input, path))))"

definition schemaHash :: "data_env \<Rightarrow> json \<Rightarrow> string res" where
  "schemaHash e schema = bindE (canonicalize (de_text e) schema) (\<lambda>s. Inr (de_digest e ''inter-agent-schema'' s))"

definition stored_or_hash :: "data_env \<Rightarrow> string option \<Rightarrow> json \<Rightarrow> string res" where
  "stored_or_hash e stored schema = (if present stored then Inr (text_of stored) else schemaHash e schema)"

record approval_service =
  as_required :: "delegation_contract \<Rightarrow> grant \<Rightarrow> bool res"
  as_request :: "delegation_contract \<Rightarrow> grant \<Rightarrow> string res"

definition approvalForGrant :: "approval_service \<Rightarrow> delegation_contract \<Rightarrow> grant \<Rightarrow> string option res" where
  "approvalForGrant A c g =
     bindE (as_required A c g) (\<lambda>required.
     if \<not> ct_require_approval c \<and> \<not> required then Inr None
     else bindE (as_request A c g) (\<lambda>request. Inr (Some request)))"

definition requested_limit :: "grant_input \<Rightarrow> int res" where
  "requested_limit input =
     (case js_integer (number_or_default (gi_limit input) 1) of
        None \<Rightarrow> Inl (App_Error 400 ''INTER_AGENT_INVOCATION_LIMIT_INVALID'' '''')
      | Some n \<Rightarrow> if n < 1 \<or> maximumInvocationLimit < n then Inl (App_Error 400 ''INTER_AGENT_INVOCATION_LIMIT_INVALID'' '''')
                  else Inr n)"

definition requested_expiry :: "grant_input \<Rightarrow> delegation_contract \<Rightarrow> int \<Rightarrow> int" where
  "requested_expiry input c now =
     min (ct_expires_at c) (case gi_expires_at input of None \<Rightarrow> now + 60 * 60 * 1000
                            | Some t \<Rightarrow> if t = 0 then now + 60 * 60 * 1000 else t)"

definition new_grant ::
  "delegation_scope \<Rightarrow> grant_input \<Rightarrow> delegation_contract \<Rightarrow> delegation_identity \<Rightarrow> int \<Rightarrow> string option \<Rightarrow> string list \<Rightarrow> int \<Rightarrow>
   int \<Rightarrow> string \<Rightarrow> string \<Rightarrow> grant" where
  "new_grant sc input c i depth parent path now limit inputHash outputHash =
     \<lparr>gr_organization = sc_organization sc, gr_workspace = sc_workspace sc, gr_identity = i, gr_contract = ct_id c,
      gr_contract_version = ct_version c, gr_source_capability = ct_source_capability c,
      gr_source_operation = ct_source_operation c, gr_target_capability = ct_target_capability c,
      gr_target_operation = ct_target_operation c, gr_purpose_code = ct_purpose_code c, gr_status = G_Active,
      gr_input_hash = inputHash, gr_output_hash = outputHash, gr_classifications = dc_classifications (ct_data c),
      gr_maximum_classification = dc_maximum_classification (ct_data c), gr_limit = limit, gr_count = 0, gr_hashes = [],
      gr_valid_from = max now (ct_valid_from c), gr_expires_at = requested_expiry input c now, gr_depth = depth,
      gr_maximum_depth = ct_maximum_depth c, gr_further = ct_further c, gr_parent = parent, gr_path = path,
      gr_approval = None, gr_approved_at = None, gr_revocation_reason = None, gr_revoked_by = None, gr_revoked_at = None,
      gr_first_used_at = None, gr_completed_at = None\<rparr>"

definition grant_payload ::
  "data_env \<Rightarrow> approval_service \<Rightarrow> delegation_scope \<Rightarrow> grant_input \<Rightarrow> delegation_contract \<Rightarrow> delegation_identity \<Rightarrow>
   int \<Rightarrow> string option \<Rightarrow> string list \<Rightarrow> int \<Rightarrow> grant res" where
  "grant_payload e A sc input c i depth parent path now =
     bindE (requested_limit input) (\<lambda>limit.
     bindE (stored_or_hash e (ct_input_hash c) (dc_input_schema (ct_data c))) (\<lambda>inputHash.
     bindE (stored_or_hash e (ct_output_hash c) (dc_output_schema (ct_data c))) (\<lambda>outputHash.
     let g = new_grant sc input c i depth parent path now limit inputHash outputHash in
     bindE (approvalForGrant A c g) (\<lambda>approval.
     Inr (case approval of None \<Rightarrow> g | Some request \<Rightarrow> g\<lparr>gr_status := G_Pending, gr_approval := Some request\<rparr>)))))"

definition createGrantRecord ::
  "data_env \<Rightarrow> approval_service \<Rightarrow> directory \<Rightarrow> ('g, 'v, 'r) delegation_db \<Rightarrow> (nat \<Rightarrow> 'g \<times> 'v \<times> 'r \<Rightarrow> 'g \<times> 'v \<times> 'r) \<Rightarrow>
   delegation_scope \<Rightarrow> grant_input \<Rightarrow> string \<Rightarrow> int \<Rightarrow> (string \<times> grant, 'g \<times> 'v \<times> 'r) prog" where
  "createGrantRecord e A dir S env sc input new now =
     thens (checks (grant_bindings dir sc input now)) (\<lambda>(c, i).
     thens (validateParentGrant S (env 0) sc input c i) (\<lambda>(depth, parent, path).
     thens (checks (grant_payload e A sc input c i depth parent path now)) (\<lambda>g.
     thens (create_grant S (env 1) new g) (\<lambda>created.
     if created then returns (new, g)
     else thens (find_grant_where S (env 2) (\<lambda>d. id_run (gr_identity d) = id_run i \<and> id_source_node (gr_identity d) = id_source_node i
                  \<and> id_target_node (gr_identity d) = id_target_node i \<and> gr_contract d = ct_id c)) (\<lambda>found.
          case found of None \<Rightarrow> throws (Database_Error ''E11000'') | Some kd \<Rightarrow> returns kd)))))"

end
