(* ===== verification/Delegation_Authority.thy ===== *)
theory Delegation_Authority
  imports Delegation_Grants
begin

text \<open>
  How a grant is used and ended, from backend/src/services/interAgentDelegation.service.js: the reservation of invocations, approval,
  revocation, the closing of a run's grants, and the references that are consumed once.
\<close>

subsection \<open>Reserving an invocation\<close>

definition invocationReservationFilter :: "delegation_scope \<Rightarrow> string \<Rightarrow> int \<Rightarrow> grant \<Rightarrow> bool" where
  "invocationReservationFilter sc h now g \<longleftrightarrow>
     in_scope sc g \<and> gr_status g = G_Active \<and> gr_valid_from g \<le> now \<and> now < gr_expires_at g
     \<and> gr_count g < gr_limit g \<and> h \<notin> set (gr_hashes g)"

definition reserve_hash :: "string \<Rightarrow> int \<Rightarrow> grant \<Rightarrow> grant" where
  "reserve_hash h first g = g\<lparr>gr_count := gr_count g + 1, gr_hashes := gr_hashes g @ [h], gr_first_used_at := Some first\<rparr>"

definition status_set :: "grant_status \<Rightarrow> grant \<Rightarrow> grant" where
  "status_set st g = g\<lparr>gr_status := st\<rparr>"

definition reservation_refused :: "grant option \<Rightarrow> app_error" where
  "reservation_refused existing = App_Error 409
     (case existing of None \<Rightarrow> ''INTER_AGENT_GRANT_EXHAUSTED''
      | Some g \<Rightarrow> if gr_status g = G_Pending then ''APPROVAL_PENDING''
                  else if gr_status g = G_Revoked then ''INTER_AGENT_GRANT_REVOKED''
                  else if gr_status g = G_Expired then ''INTER_AGENT_GRANT_EXPIRED'' else ''INTER_AGENT_GRANT_EXHAUSTED'') ''''"

definition reservation_missed ::
  "('g, 'v, 'r) delegation_db \<Rightarrow> (nat \<Rightarrow> 'g \<times> 'v \<times> 'r \<Rightarrow> 'g \<times> 'v \<times> 'r) \<Rightarrow> nat \<Rightarrow> string \<Rightarrow> string \<Rightarrow> delegation_scope \<Rightarrow> int \<Rightarrow>
   (grant \<times> bool, 'g \<times> 'v \<times> 'r) prog" where
  "reservation_missed S env n k h sc now =
     thens (find_grant S (env n) k (in_scope sc)) (\<lambda>existing.
     case existing of
       None \<Rightarrow> throws (reservation_refused None)
     | Some g \<Rightarrow>
         if h \<in> set (gr_hashes g) then returns (g, True)
         else if gr_expires_at g \<le> now \<and> gr_status g = G_Active
         then thens (update_grant S (env (n + 1)) k (\<lambda>d. gr_status d = G_Active) (status_set G_Expired))
                (\<lambda>_. throws (reservation_refused existing))
         else throws (reservation_refused existing))"

definition reserveGrantInvocation ::
  "('g, 'v, 'r) delegation_db \<Rightarrow> (nat \<Rightarrow> 'g \<times> 'v \<times> 'r \<Rightarrow> 'g \<times> 'v \<times> 'r) \<Rightarrow> nat \<Rightarrow> string \<Rightarrow> grant \<Rightarrow> string \<Rightarrow> delegation_scope \<Rightarrow> int \<Rightarrow>
   (grant \<times> bool, 'g \<times> 'v \<times> 'r) prog" where
  "reserveGrantInvocation S env n k g h sc now =
     thens (update_grant S (env n) k (invocationReservationFilter sc h now)
              (reserve_hash h (case gr_first_used_at g of None \<Rightarrow> now | Some t \<Rightarrow> t))) (\<lambda>reserved.
     case reserved of
       None \<Rightarrow> reservation_missed S env (n + 1) k h sc now
     | Some d \<Rightarrow>
         if gr_limit d \<le> gr_count d
         then thens (update_grant S (env (n + 1)) k (\<lambda>x. gr_status x = G_Active \<and> gr_limit d \<le> gr_count x) (status_set G_Exhausted))
                (\<lambda>_. returns (status_set G_Exhausted d, False))
         else returns (d, False))"

subsection \<open>Approval, revocation and the end of a run\<close>

definition approve_grant :: "int \<Rightarrow> grant \<Rightarrow> grant" where
  "approve_grant now g = g\<lparr>gr_status := G_Active, gr_approved_at := Some now\<rparr>"

text \<open>\<open>approval\<close> is the status of the approval request after it has been expired where it was due.\<close>

definition activateApprovedGrant ::
  "('g, 'v, 'r) delegation_db \<Rightarrow> ('g \<times> 'v \<times> 'r \<Rightarrow> 'g \<times> 'v \<times> 'r) \<Rightarrow> string option \<Rightarrow> string \<Rightarrow> grant \<Rightarrow> int \<Rightarrow>
   (grant, 'g \<times> 'v \<times> 'r) prog" where
  "activateApprovedGrant S env approval k g now =
     (if gr_status g \<noteq> G_Pending then returns g
      else case approval of
        None \<Rightarrow> throws (App_Error 409 ''APPROVAL_REQUEST_NOT_FOUND'' '''')
      | Some st \<Rightarrow>
          if st = ''APPROVED''
          then thens (update_grant S env k (\<lambda>d. gr_status d = G_Pending) (approve_grant now))
                 (\<lambda>r. returns (case r of None \<Rightarrow> g | Some d \<Rightarrow> d))
          else if st = ''PENDING'' \<or> st = ''PARTIALLY_APPROVED'' then throws (App_Error 409 ''APPROVAL_PENDING'' '''')
          else thens (update_grant S env k (\<lambda>d. gr_status d = G_Pending)
                        (status_set (if st = ''EXPIRED'' then G_Expired else G_Rejected)))
                 (\<lambda>_. throws (App_Error 403 (if st = ''EXPIRED'' then ''APPROVAL_EXPIRED'' else ''APPROVAL_REJECTED'') '''')))"

definition reason_tail :: "char \<Rightarrow> bool" where
  "reason_tail c \<longleftrightarrow> is_upper c \<or> is_digit c \<or> c = CHR ''_''"

definition is_reason_code :: "string \<Rightarrow> bool" where
  "is_reason_code s = bounded_pattern is_upper reason_tail 127 s"

definition revoke_set :: "string \<Rightarrow> string \<Rightarrow> int \<Rightarrow> grant \<Rightarrow> grant" where
  "revoke_set why actor now g =
     g\<lparr>gr_status := G_Revoked, gr_revocation_reason := Some why, gr_revoked_by := Some actor, gr_revoked_at := Some now\<rparr>"

definition unused_reference :: "delegation_reference \<Rightarrow> bool" where
  "unused_reference r \<longleftrightarrow> rf_consumed_at r = None \<and> rf_invalidated_at r = None"

definition invalidate_set :: "int \<Rightarrow> delegation_reference \<Rightarrow> delegation_reference" where
  "invalidate_set now r = r\<lparr>rf_invalidated_at := Some now\<rparr>"

definition open_grant :: "grant \<Rightarrow> bool" where
  "open_grant g \<longleftrightarrow> gr_status g = G_Pending \<or> gr_status g = G_Active"

definition revocation_reason :: "string option \<Rightarrow> string res" where
  "revocation_reason code =
     (let s = js_upper (js_trim (if present code then text_of code else ''ADMINISTRATOR_REVOKED'')) in
      if is_reason_code s then Inr s else Inl (App_Error 400 ''VALIDATION_ERROR'' ''''))"

definition revokeGrantRecord ::
  "('g, 'v, 'r) delegation_db \<Rightarrow> (nat \<Rightarrow> 'g \<times> 'v \<times> 'r \<Rightarrow> 'g \<times> 'v \<times> 'r) \<Rightarrow> string \<Rightarrow> delegation_scope \<Rightarrow> string option \<Rightarrow> int \<Rightarrow>
   (grant, 'g \<times> 'v \<times> 'r) prog" where
  "revokeGrantRecord S env k sc code now =
     thens (checks (revocation_reason code)) (\<lambda>why.
     thens (update_grant S (env 0) k (\<lambda>d. in_scope sc d \<and> open_grant d) (revoke_set why (sc_actor sc) now)) (\<lambda>revoked.
     thens (case revoked of
              Some g \<Rightarrow> returns g
            | None \<Rightarrow> thens (scopedGrant S (env 1) k sc) (\<lambda>g.
                if gr_status g \<noteq> G_Revoked then throws (App_Error 409 ''INTER_AGENT_GRANT_TERMINAL'' '''') else returns g)) (\<lambda>g.
     thens (update_references S (env 2) (\<lambda>r. rf_grant r = k \<and> unused_reference r) (invalidate_set now)) (\<lambda>_. returns g))))"

definition close_set :: "bool \<Rightarrow> string \<Rightarrow> string \<Rightarrow> int \<Rightarrow> grant \<Rightarrow> grant" where
  "close_set completed why actor now g =
     (if completed then g\<lparr>gr_status := G_Completed, gr_completed_at := Some now\<rparr> else revoke_set why actor now g)"

definition closeRunGrants ::
  "('g, 'v, 'r) delegation_db \<Rightarrow> (nat \<Rightarrow> 'g \<times> 'v \<times> 'r \<Rightarrow> 'g \<times> 'v \<times> 'r) \<Rightarrow> string \<Rightarrow> string \<Rightarrow> delegation_scope \<Rightarrow> int \<Rightarrow>
   (nat \<times> grant_status, 'g \<times> 'v \<times> 'r) prog" where
  "closeRunGrants S env run status sc now =
     (let completed = status = ''completed'';
          why = if status = ''cancelled'' then ''ORCHESTRATION_CANCELLED'' else ''ORCHESTRATION_TERMINATED'' in
      thens (update_grants S (env 0) (\<lambda>d. id_run (gr_identity d) = Some run \<and> in_scope sc d \<and> open_grant d)
               (close_set completed why (sc_actor sc) now)) (\<lambda>closed.
      thens (update_references S (env 1) (\<lambda>r. id_run (rf_identity r) = Some run \<and> unused_reference r) (invalidate_set now))
        (\<lambda>_. returns (closed, if completed then G_Completed else G_Revoked))))"

subsection \<open>References that are consumed once\<close>

definition reference_hash :: "data_env \<Rightarrow> string \<Rightarrow> string" where
  "reference_hash e token = de_digest e ''internal-delegation-reference'' token"

definition RUNTIME_AUDIENCE :: string where
  "RUNTIME_AUDIENCE = ''ghost-bridge-runtime-gateway''"

definition issueDelegationReference ::
  "data_env \<Rightarrow> ('g, 'v, 'r) delegation_db \<Rightarrow> ('g \<times> 'v \<times> 'r \<Rightarrow> 'g \<times> 'v \<times> 'r) \<Rightarrow> string \<Rightarrow> grant \<Rightarrow> string \<times> string \<Rightarrow> string \<Rightarrow> int \<Rightarrow>
   (string, 'g \<times> 'v \<times> 'r) prog" where
  "issueDelegationReference e S env k g invocation token now =
     thens (create_reference S env (reference_hash e token)
       \<lparr>rf_grant = k, rf_invocation = invocation, rf_organization = gr_organization g, rf_workspace = gr_workspace g,
        rf_identity = gr_identity g, rf_contract = gr_contract g, rf_contract_version = gr_contract_version g,
        rf_audience = RUNTIME_AUDIENCE, rf_issued_at = now,
        rf_expires_at = min (gr_expires_at g) (now + internalReferenceLifetimeMs), rf_consumed_at = None,
        rf_invalidated_at = None\<rparr>) (\<lambda>created.
     if created then returns token else throws (Database_Error ''E11000''))"

definition consumable :: "delegation_scope \<Rightarrow> string \<Rightarrow> string \<times> string \<Rightarrow> int \<Rightarrow> delegation_reference \<Rightarrow> bool" where
  "consumable sc k invocation now r \<longleftrightarrow>
     rf_audience r = RUNTIME_AUDIENCE \<and> rf_organization r = sc_organization sc \<and> rf_workspace r = sc_workspace sc
     \<and> rf_grant r = k \<and> rf_invocation r = invocation \<and> now < rf_expires_at r \<and> unused_reference r"

definition consume_set :: "int \<Rightarrow> delegation_reference \<Rightarrow> delegation_reference" where
  "consume_set now r = r\<lparr>rf_consumed_at := Some now\<rparr>"

definition consumeDelegationReference ::
  "data_env \<Rightarrow> ('g, 'v, 'r) delegation_db \<Rightarrow> ('g \<times> 'v \<times> 'r \<Rightarrow> 'g \<times> 'v \<times> 'r) \<Rightarrow> string \<Rightarrow> delegation_scope \<Rightarrow> string \<Rightarrow> string \<times> string \<Rightarrow>
   int \<Rightarrow> (delegation_reference, 'g \<times> 'v \<times> 'r) prog" where
  "consumeDelegationReference e S env token sc k invocation now =
     thens (update_reference S env (reference_hash e token) (consumable sc k invocation now) (consume_set now)) (\<lambda>consumed.
     case consumed of None \<Rightarrow> throws (App_Error 403 ''INTER_AGENT_REFERENCE_INVALID'' '''') | Some r \<Rightarrow> returns r)"

end
