(* ===== verification/Delegation_Service.thy ===== *)
theory Delegation_Service
  imports Delegation_Authority Orchestration_Mapping
begin

text \<open>
  A delegated invocation from end to end, from backend/src/services/interAgentDelegation.service.js: \<open>prepareDelegatedInvocation\<close> checks
  the grant, the frozen contract and the agents, computes the data that may leave, reserves the invocation and issues its
  reference; \<open>executeDelegatedInvocation\<close> consumes the reference, calls the target agent and records how it ended.

  \<^item> The regional write fence, the authorization of the caller and the operational state are the arguments \<open>delegation_checks\<close>; the
    runtime gateway is the argument \<open>gateway\<close>, which is given the request and the callback that filters the agent's
    output, and answers with the identifier of the runtime invocation, its output, and what the callback was last given.
  \<^item> \<open>ajv\<close> is the compiler of JSON schemas, \<open>retryable\<close> the flag of an error.
\<close>

subsection \<open>What may leave\<close>

record prepare_input =
  pi_grant :: string
  pi_key :: "string option"
  pi_source_node :: "string option"
  pi_target_node :: "string option"
  pi_retry :: bool
  pi_classification :: "string option"
  pi_schema_classification :: "string option"
  pi_policy_classification :: "string option"
  pi_residency :: "string list"
  pi_output :: json
  pi_context :: data_context

record delegation_checks =
  dk_region :: "unit res"
  dk_region_after :: "unit res"
  dk_evaluate :: "unit res"
  dk_retry :: "unit res"
  dk_operational :: "unit res"

text \<open>The labels that are not empty, with that of the input schema.\<close>

definition effective_labels :: "js_text \<Rightarrow> prepare_input \<Rightarrow> json \<Rightarrow> string list" where
  "effective_labels t input schema =
     filter (\<lambda>s. s \<noteq> [])
       [text_of (pi_classification input), text_of (pi_schema_classification input), text_of (pi_policy_classification input),
        text_or_empty t (field_of schema ''x-data-classification'')]"

definition effective_classification :: "js_text \<Rightarrow> prepare_input \<Rightarrow> delegation_contract \<Rightarrow> string" where
  "effective_classification t input c =
     highestClassification (effective_labels t input (dc_input_schema (ct_data c)))
       (if dc_maximum_classification (ct_data c) = [] then ''restricted'' else dc_maximum_classification (ct_data c))"

definition grant_inactive :: "grant_status \<Rightarrow> app_error" where
  "grant_inactive st = App_Error 409
     (if st = G_Revoked then ''INTER_AGENT_GRANT_REVOKED'' else if st = G_Expired then ''INTER_AGENT_GRANT_EXPIRED''
      else if st = G_Exhausted then ''INTER_AGENT_GRANT_EXHAUSTED'' else ''INTER_AGENT_GRANT_INACTIVE'') ''''"

definition assert_usable :: "prepare_input \<Rightarrow> bool \<Rightarrow> grant \<Rightarrow> int \<Rightarrow> unit res" where
  "assert_usable input replay g now =
     (if \<not> replay \<and> gr_status g \<noteq> G_Active then Inl (grant_inactive (gr_status g))
      else if now < gr_valid_from g \<or> gr_expires_at g \<le> now then Inl (App_Error 409 ''INTER_AGENT_GRANT_EXPIRED'' '''')
      else if present (pi_source_node input) \<and> idOf (pi_source_node input) \<noteq> idOf (id_source_node (gr_identity g))
      then Inl (App_Error 403 ''INTER_AGENT_SOURCE_IDENTITY_MISMATCH'' '''')
      else if present (pi_target_node input) \<and> idOf (pi_target_node input) \<noteq> idOf (id_target_node (gr_identity g))
      then Inl (App_Error 403 ''INTER_AGENT_TARGET_IDENTITY_MISMATCH'' '''')
      else Inr ())"

definition frozen_contract :: "data_env \<Rightarrow> directory \<Rightarrow> delegation_scope \<Rightarrow> grant \<Rightarrow> delegation_contract res" where
  "frozen_contract e dir sc g =
     (case find_contract dir (\<lambda>c. ct_version c = gr_contract_version g \<and> (ct_status c = C_Active \<or> ct_status c = C_Archived)) sc (gr_contract g) of
        None \<Rightarrow> Inl (App_Error 409 ''DATA_CONTRACT_VERSION_UNAVAILABLE'' '''')
      | Some c \<Rightarrow>
          bindE (schemaHash e (dc_input_schema (ct_data c))) (\<lambda>h.
          if h \<noteq> gr_input_hash g then Inl (App_Error 409 ''DATA_CONTRACT_VERSION_INVALID'' '''')
          else bindE (schemaHash e (dc_output_schema (ct_data c))) (\<lambda>h'.
          if h' \<noteq> gr_output_hash g then Inl (App_Error 409 ''DATA_CONTRACT_VERSION_INVALID'' '''') else Inr c)))"

record delegated_data =
  dd_contract :: delegation_contract
  dd_actors :: grant_actors
  dd_classification :: string
  dd_statistics :: data_statistics
  dd_payload :: json

text \<open>The frozen contract, the agents and the data, for a grant that may be used.\<close>

definition delegated_data_of ::
  "data_env \<Rightarrow> (json \<Rightarrow> (json \<Rightarrow> bool) option) \<Rightarrow> delegation_checks \<Rightarrow> directory \<Rightarrow> delegation_scope \<Rightarrow> prepare_input \<Rightarrow> grant \<Rightarrow>
   delegated_data res" where
  "delegated_data_of e ajv checked dir sc input g =
     bindE (frozen_contract e dir sc g) (\<lambda>c.
     bindE (loadGrantActors dir sc (gr_identity g)) (\<lambda>a.
     bindE (dk_evaluate checked) (\<lambda>_.
     bindE (if pi_retry input then dk_retry checked else Inr ()) (\<lambda>_.
     bindE (dk_operational checked) (\<lambda>_.
     let label = effective_classification (de_text e) input c; target = ce_target (ga_target_entry a) in
     bindE (assertClassificationAllowed label (ct_data c) target) (\<lambda>_.
     bindE (assertRegionResidency (ct_data c) target (pi_residency input)) (\<lambda>_.
     bindE (processDelegatedInput e (pi_output input) (ct_data c) (pi_context input)) (\<lambda>(fields, statistics).
     bindE (validateAgainstSchema (de_num_size e) ajv (dc_input_schema (ct_data c)) ''$delegation.input'' ''INTER_AGENT_TARGET_INPUT_INVALID''
              (JObj fields)) (\<lambda>payload.
     Inr \<lparr>dd_contract = c, dd_actors = a, dd_classification = label, dd_statistics = statistics, dd_payload = payload\<rparr>)))))))))"

subsection \<open>Preparing\<close>

definition invocation_hash :: "data_env \<Rightarrow> prepare_input \<Rightarrow> grant \<Rightarrow> string" where
  "invocation_hash e input g =
     de_digest e ''inter-agent-invocation-idempotency''
       (if present (pi_key input) then text_of (pi_key input)
        else idOf (id_run (gr_identity g)) @ '':'' @ idOf (id_source_node (gr_identity g)) @ '':''
             @ idOf (id_target_node (gr_identity g)) @ '':'' @ js_trim (gr_contract g))"

definition new_delegated_invocation :: "delegation_scope \<Rightarrow> grant \<Rightarrow> int \<Rightarrow> delegated_data \<Rightarrow> delegated_invocation" where
  "new_delegated_invocation sc g ordinal d =
     \<lparr>dn_organization = sc_organization sc, dn_workspace = sc_workspace sc, dn_contract = gr_contract g,
      dn_contract_version = gr_contract_version g, dn_identity = gr_identity g, dn_capability = gr_target_capability g,
      dn_operation = gr_target_operation g, dn_purpose_code = gr_purpose_code g, dn_status = D_Prepared, dn_ordinal = ordinal,
      dn_classification = dd_classification d, dn_statistics = dd_statistics d, dn_source_hash = gr_input_hash g,
      dn_target_hash = gr_output_hash g, dn_approval = gr_approval g, dn_runtime = None, dn_output_bytes = 0,
      dn_failure_code = None, dn_retryable = False, dn_started_at = None, dn_completed_at = None\<rparr>"

record prepared_delegation =
  pd_grant :: grant
  pd_key :: "string \<times> string"
  pd_invocation :: delegated_invocation
  pd_data :: delegated_data
  pd_reference :: string
  pd_replayed :: bool

definition create_invocation ::
  "('g, 'v, 'r) delegation_db \<Rightarrow> (nat \<Rightarrow> 'g \<times> 'v \<times> 'r \<Rightarrow> 'g \<times> 'v \<times> 'r) \<Rightarrow> nat \<Rightarrow> string \<times> string \<Rightarrow> delegated_invocation \<Rightarrow>
   (delegated_invocation, 'g \<times> 'v \<times> 'r) prog" where
  "create_invocation S env n key v =
     thens (create_delegated S (env n) key v) (\<lambda>created.
     if created then returns v
     else thens (find_delegated S (env (n + 1)) key (\<lambda>_. True)) (\<lambda>found.
          case found of None \<Rightarrow> throws (Database_Error ''E11000'') | Some w \<Rightarrow> returns w))"

definition reserved_invocation ::
  "('g, 'v, 'r) delegation_db \<Rightarrow> (nat \<Rightarrow> 'g \<times> 'v \<times> 'r \<Rightarrow> 'g \<times> 'v \<times> 'r) \<Rightarrow> nat \<Rightarrow> string \<Rightarrow> string \<Rightarrow> grant \<Rightarrow> delegation_scope \<Rightarrow>
   delegated_data \<Rightarrow> int \<Rightarrow> delegated_invocation option \<Rightarrow> (grant \<times> bool \<times> delegated_invocation, 'g \<times> 'v \<times> 'r) prog" where
  "reserved_invocation S env n k h g sc d now existing =
     (case existing of
        Some v \<Rightarrow> returns (g, True, v)
      | None \<Rightarrow>
          thens (reserveGrantInvocation S env n k g h sc now) (\<lambda>(reserved, replayed).
          thens (create_invocation S env (n + 3) (k, h) (new_delegated_invocation sc g (gr_count reserved) d)) (\<lambda>v.
          returns (reserved, replayed, v))))"

definition prepareDelegatedInvocation ::
  "data_env \<Rightarrow> (json \<Rightarrow> (json \<Rightarrow> bool) option) \<Rightarrow> delegation_checks \<Rightarrow> directory \<Rightarrow> string option \<Rightarrow> ('g, 'v, 'r) delegation_db \<Rightarrow>
   (nat \<Rightarrow> 'g \<times> 'v \<times> 'r \<Rightarrow> 'g \<times> 'v \<times> 'r) \<Rightarrow> delegation_scope \<Rightarrow> prepare_input \<Rightarrow> string \<Rightarrow> int \<Rightarrow> (prepared_delegation, 'g \<times> 'v \<times> 'r) prog" where
  "prepareDelegatedInvocation e ajv checked dir approval S env sc input token now =
     (let k = pi_grant input in
      thens (scopedGrant S (env 0) k sc) (\<lambda>found.
      let h = invocation_hash e input found in
      thens (find_delegated S (env 1) (k, h) (\<lambda>_. True)) (\<lambda>existing.
      thens (checks (dk_region checked)) (\<lambda>_.
      thens (activateApprovedGrant S (env 2) approval k found now) (\<lambda>g.
      thens (checks (assert_usable input (existing \<noteq> None) g now)) (\<lambda>_.
      thens (checks (delegated_data_of e ajv checked dir sc input g)) (\<lambda>d.
      thens (reserved_invocation S env 3 k h g sc d now existing) (\<lambda>(reserved, replayed, v).
      thens (issueDelegationReference e S (env 8) k reserved (k, h) token now) (\<lambda>reference.
      returns \<lparr>pd_grant = reserved, pd_key = (k, h), pd_invocation = v, pd_data = d, pd_reference = reference,
               pd_replayed = (existing \<noteq> None \<or> replayed)\<rparr>)))))))))"

subsection \<open>Executing\<close>

text \<open>The failure that is stored; an error without a code, or with one that is not a code, is stored under a common one.\<close>

definition error_code :: "app_error \<Rightarrow> string" where
  "error_code err = (case err of App_Error _ code _ \<Rightarrow> code | Type_Error _ \<Rightarrow> [] | Database_Error code \<Rightarrow> code)"

definition safeFailure :: "app_error \<Rightarrow> string" where
  "safeFailure err =
     (let code = js_upper (if error_code err = [] then ''INTER_AGENT_INVOCATION_FAILED'' else error_code err) in
      if is_reason_code code then code else ''INTER_AGENT_INVOCATION_FAILED'')"

definition failure_set :: "string \<Rightarrow> bool \<Rightarrow> int \<Rightarrow> delegated_invocation \<Rightarrow> delegated_invocation" where
  "failure_set code retryable now v =
     v\<lparr>dn_status := D_Failed, dn_failure_code := Some code, dn_retryable := retryable, dn_completed_at := Some now\<rparr>"

definition failDelegatedInvocation ::
  "('g, 'v, 'r) delegation_db \<Rightarrow> ('g \<times> 'v \<times> 'r \<Rightarrow> 'g \<times> 'v \<times> 'r) \<Rightarrow> (app_error \<Rightarrow> bool) \<Rightarrow> string \<times> string \<Rightarrow> app_error \<Rightarrow>
   delegation_scope \<Rightarrow> int \<Rightarrow> (delegated_invocation option, 'g \<times> 'v \<times> 'r) prog" where
  "failDelegatedInvocation S env retryable key err sc now =
     update_delegated S env key
       (\<lambda>v. dn_organization v = sc_organization sc \<and> dn_workspace v = sc_workspace sc
          \<and> dn_status v \<in> {D_Prepared, D_Approval_Required, D_Invoking, D_Failed})
       (failure_set (safeFailure err) (retryable err) now)"

record processed_output =
  po_output :: json
  po_statistics :: data_statistics

definition target_output_schema :: "prepared_delegation \<Rightarrow> json" where
  "target_output_schema p =
     (let c = ct_data (dd_contract (pd_data p)) in
      case List.find (\<lambda>x. cc_key x = gr_target_capability (pd_grant p)) (ce_capabilities (ga_target_entry (dd_actors (pd_data p)))) of
        None \<Rightarrow> dc_output_schema c
      | Some x \<Rightarrow> (case truthy_or (cc_output_schema x) None of None \<Rightarrow> dc_output_schema c | Some s \<Rightarrow> s))"

definition processRuntimeDelegatedOutput ::
  "data_env \<Rightarrow> (json \<Rightarrow> (json \<Rightarrow> bool) option) \<Rightarrow> prepared_delegation \<Rightarrow> json option \<Rightarrow> json \<Rightarrow> processed_output res" where
  "processRuntimeDelegatedOutput e ajv p nodeSchema raw =
     (let c = ct_data (dd_contract (pd_data p)) in
      bindE (validateAgainstSchema (de_num_size e) ajv (target_output_schema p) ''$target.output'' ''INTER_AGENT_TARGET_OUTPUT_INVALID'' raw) (\<lambda>target.
      bindE (validateAgainstSchema (de_num_size e) ajv (dc_output_schema c) ''$delegation.output'' ''INTER_AGENT_CONTRACT_OUTPUT_INVALID'' target) (\<lambda>valid.
      bindE (processDelegatedOutput e valid c) (\<lambda>(fields, statistics).
      bindE (case nodeSchema of None \<Rightarrow> Inr (JObj fields)
             | Some schema \<Rightarrow> validateAgainstSchema (de_num_size e) ajv schema ''$orchestration.node.output'' ''ORCHESTRATION_NODE_OUTPUT_INVALID'' (JObj fields)) (\<lambda>output.
      Inr \<lparr>po_output = output, po_statistics = statistics\<rparr>)))))"

record gateway_request =
  gq_connection :: "string option"
  gq_capability :: string
  gq_payload :: json
  gq_idempotency :: "string \<times> string \<times> string"
  gq_approval :: "string option"
  gq_classification :: string
  gq_depth :: int

record gateway_answer =
  gw_invocation :: string
  gw_output :: json
  gw_filtered :: "json option"

definition gateway_request_of :: "prepared_delegation \<Rightarrow> gateway_request" where
  "gateway_request_of p =
     \<lparr>gq_connection = id_target_connection (gr_identity (pd_grant p)), gq_capability = gr_target_capability (pd_grant p),
      gq_payload = dd_payload (pd_data p), gq_idempotency = (''inter-agent'', fst (pd_key p), snd (pd_key p)),
      gq_approval = gr_approval (pd_grant p), gq_classification = dn_classification (pd_invocation p),
      gq_depth = gr_depth (pd_grant p)\<rparr>"

text \<open>The update also names the failure code and message with the value undefined, which Mongoose leaves out: what an earlier failure
  stored stays.\<close>

definition completion_set :: "string \<Rightarrow> nat \<Rightarrow> int \<Rightarrow> int \<Rightarrow> delegated_invocation \<Rightarrow> delegated_invocation" where
  "completion_set runtime bytes started now v =
     v\<lparr>dn_status := D_Succeeded, dn_runtime := Some runtime, dn_output_bytes := bytes, dn_started_at := Some started,
       dn_completed_at := Some now, dn_retryable := False\<rparr>"

text \<open>The output was filtered by the callback, or is filtered now. The write fence is checked a second time, and may have closed since
  the preparation.\<close>

definition completeDelegatedInvocation ::
  "data_env \<Rightarrow> (json \<Rightarrow> (json \<Rightarrow> bool) option) \<Rightarrow> delegation_checks \<Rightarrow> ('g, 'v, 'r) delegation_db \<Rightarrow> ('g \<times> 'v \<times> 'r \<Rightarrow> 'g \<times> 'v \<times> 'r) \<Rightarrow>
   prepared_delegation \<Rightarrow> gateway_answer \<Rightarrow> json option \<Rightarrow> int \<Rightarrow> (processed_output \<times> delegated_invocation, 'g \<times> 'v \<times> 'r) prog" where
  "completeDelegatedInvocation e ajv checked S env p answer nodeSchema now =
     thens (checks (dk_region_after checked)) (\<lambda>_.
     thens (checks (processRuntimeDelegatedOutput e ajv p nodeSchema
              (case gw_filtered answer of None \<Rightarrow> gw_output answer | Some raw \<Rightarrow> raw))) (\<lambda>processed.
     thens (update_delegated S env (pd_key p) (\<lambda>v. dn_status v \<in> {D_Prepared, D_Invoking, D_Failed})
              (completion_set (gw_invocation answer) (st_delegated_bytes (po_statistics processed))
                (case dn_started_at (pd_invocation p) of None \<Rightarrow> now | Some t \<Rightarrow> t) now)) (\<lambda>completed.
     returns (processed, case completed of None \<Rightarrow> pd_invocation p | Some v \<Rightarrow> v))))"

definition start_invoking :: "int \<Rightarrow> delegated_invocation \<Rightarrow> delegated_invocation" where
  "start_invoking now v = v\<lparr>dn_status := D_Invoking, dn_started_at := Some now\<rparr>"

record delegation_result =
  dr_output :: json
  dr_runtime :: string
  dr_invocation :: delegated_invocation
  dr_replayed :: bool

text \<open>The part that follows the preparation; the gateway is only called once the reference is consumed.\<close>

definition invoke_prepared ::
  "data_env \<Rightarrow> (json \<Rightarrow> (json \<Rightarrow> bool) option) \<Rightarrow> delegation_checks \<Rightarrow>
   (gateway_request \<Rightarrow> (json \<Rightarrow> processed_output res) \<Rightarrow> gateway_answer res) \<Rightarrow> ('g, 'v, 'r) delegation_db \<Rightarrow>
   (nat \<Rightarrow> 'g \<times> 'v \<times> 'r \<Rightarrow> 'g \<times> 'v \<times> 'r) \<Rightarrow> delegation_scope \<Rightarrow> json option \<Rightarrow> int \<Rightarrow> prepared_delegation \<Rightarrow>
   (delegation_result, 'g \<times> 'v \<times> 'r) prog" where
  "invoke_prepared e ajv checked gateway S env sc nodeSchema now p =
     thens (consumeDelegationReference e S (env 9) (pd_reference p) sc (fst (pd_key p)) (pd_key p) now) (\<lambda>_.
     thens (update_delegated S (env 10) (pd_key p) (\<lambda>v. dn_status v \<in> {D_Prepared, D_Failed}) (start_invoking now)) (\<lambda>_.
     thens (checks (gateway (gateway_request_of p) (processRuntimeDelegatedOutput e ajv p nodeSchema))) (\<lambda>answer.
     thens (completeDelegatedInvocation e ajv checked S (env 11) p answer nodeSchema now) (\<lambda>(processed, v).
     returns \<lparr>dr_output = po_output processed, dr_runtime = gw_invocation answer, dr_invocation = v, dr_replayed = pd_replayed p\<rparr>))))"

definition executeDelegatedInvocation ::
  "data_env \<Rightarrow> (json \<Rightarrow> (json \<Rightarrow> bool) option) \<Rightarrow> delegation_checks \<Rightarrow> directory \<Rightarrow> string option \<Rightarrow> (app_error \<Rightarrow> bool) \<Rightarrow>
   (gateway_request \<Rightarrow> (json \<Rightarrow> processed_output res) \<Rightarrow> gateway_answer res) \<Rightarrow> ('g, 'v, 'r) delegation_db \<Rightarrow>
   (nat \<Rightarrow> 'g \<times> 'v \<times> 'r \<Rightarrow> 'g \<times> 'v \<times> 'r) \<Rightarrow> delegation_scope \<Rightarrow> prepare_input \<Rightarrow> json option \<Rightarrow> string \<Rightarrow> int \<Rightarrow>
   (delegation_result, 'g \<times> 'v \<times> 'r) prog" where
  "executeDelegatedInvocation e ajv checked dir approval retryable gateway S env sc input nodeSchema token now =
     thens (prepareDelegatedInvocation e ajv checked dir approval S env sc input token now) (\<lambda>p.
     catches (invoke_prepared e ajv checked gateway S env sc nodeSchema now p)
       (\<lambda>err. thens (failDelegatedInvocation S (env 12) retryable (pd_key p) err sc now) (\<lambda>_. throws err)))"

end
