(* ===== verification/Delegation_Steps.thy ===== *)
theory Delegation_Steps
  imports Delegation_Service
begin

text \<open>
  What happens to the three collections of delegations: the step relation of their documents, the invariant, and the proof that every
  operation of \<open>Delegation_Authority\<close> and \<open>Delegation_Service\<close> moves the collections by such steps, whatever others do by such
  steps between its calls (locale \<open>delegations\<close>).
\<close>

subsection \<open>Steps of documents\<close>

inductive grant_step :: "grant \<Rightarrow> grant \<Rightarrow> bool" where
  reserve: "gr_status g = G_Active \<Longrightarrow> gr_count g < gr_limit g \<Longrightarrow> h \<notin> set (gr_hashes g) \<Longrightarrow> grant_step g (reserve_hash h first g)"
| exhaust: "gr_status g = G_Active \<Longrightarrow> grant_step g (status_set G_Exhausted g)"
| expire: "open_grant g \<Longrightarrow> grant_step g (status_set G_Expired g)"
| reject: "gr_status g = G_Pending \<Longrightarrow> grant_step g (status_set G_Rejected g)"
| approve: "gr_status g = G_Pending \<Longrightarrow> grant_step g (approve_grant now g)"
| revoke: "open_grant g \<Longrightarrow> grant_step g (revoke_set why actor now g)"
| complete: "open_grant g \<Longrightarrow> grant_step g (close_set True why actor now g)"

inductive delegated_step :: "delegated_invocation \<Rightarrow> delegated_invocation \<Rightarrow> bool" where
  start: "dn_status v \<in> {D_Prepared, D_Failed} \<Longrightarrow> delegated_step v (start_invoking now v)"
| fail: "dn_status v \<in> {D_Prepared, D_Approval_Required, D_Invoking, D_Failed} \<Longrightarrow> delegated_step v (failure_set code retryable now v)"
| succeed: "dn_status v \<in> {D_Prepared, D_Invoking, D_Failed} \<Longrightarrow> delegated_step v (completion_set runtime bytes started now v)"

inductive reference_step :: "delegation_reference \<Rightarrow> delegation_reference \<Rightarrow> bool" where
  consume: "unused_reference r \<Longrightarrow> now < rf_expires_at r \<Longrightarrow> reference_step r (consume_set now r)"
| invalidate: "unused_reference r \<Longrightarrow> reference_step r (invalidate_set now r)"

inductive_cases grant_stepE: "grant_step g g'"
inductive_cases delegated_stepE: "delegated_step v v'"
inductive_cases reference_stepE: "reference_step r r'"

lemmas grant_set_defs = reserve_hash_def status_set_def approve_grant_def revoke_set_def close_set_def open_grant_def
lemmas delegated_set_defs = start_invoking_def failure_set_def completion_set_def
lemmas reference_set_defs = consume_set_def invalidate_set_def unused_reference_def

text \<open>A grant that is stored: one that the service creates.\<close>

definition lineage :: "(string \<Rightarrow> grant option) \<Rightarrow> grant \<Rightarrow> bool" where
  "lineage G g \<longleftrightarrow>
     1 \<le> gr_depth g \<and> gr_depth g \<le> platformMaximumDelegationDepth \<and> gr_depth g \<le> gr_maximum_depth g \<and>
     (case gr_parent g of
        None \<Rightarrow> gr_path g = [idOf (id_source_passport (gr_identity g)), idOf (id_target_passport (gr_identity g))]
      | Some k \<Rightarrow> gr_further g \<and> (\<exists>p. G k = Some p \<and> gr_further p \<and> gr_depth g = gr_depth p + 1 \<and> gr_depth g \<le> gr_maximum_depth p
          \<and> idOf (id_target_passport (gr_identity p)) = idOf (id_source_passport (gr_identity g))
          \<and> gr_path g = gr_path p @ [idOf (id_target_passport (gr_identity g))] \<and> distinct (gr_path g)))"

definition fresh_grant :: "grant \<Rightarrow> bool" where
  "fresh_grant g \<longleftrightarrow> open_grant g \<and> gr_count g = 0 \<and> gr_hashes g = [] \<and> 1 \<le> gr_limit g \<and> gr_limit g \<le> maximumInvocationLimit"

definition reserved :: "(string \<Rightarrow> grant option) \<Rightarrow> string \<Rightarrow> string \<Rightarrow> bool" where
  "reserved G k h \<longleftrightarrow> (\<exists>g. G k = Some g \<and> h \<in> set (gr_hashes g))"

text \<open>Every document that is there stays and takes a step or none.\<close>

definition documents_step :: "('d \<Rightarrow> 'd \<Rightarrow> bool) \<Rightarrow> ('k \<Rightarrow> 'd option) \<Rightarrow> ('k \<Rightarrow> 'd option) \<Rightarrow> bool" where
  "documents_step R D D' \<longleftrightarrow> (\<forall>k. rel_option R\<^sup>=\<^sup>= (D k) (D' k))"

lemma documents_step_Some: "documents_step R D D' \<Longrightarrow> D k = Some d \<Longrightarrow> \<exists>d'. D' k = Some d' \<and> R\<^sup>=\<^sup>= d d'"
  unfolding documents_step_def by (metis option_rel_Some1)

lemma documents_step_None: "documents_step R D D' \<Longrightarrow> D' k = None \<longleftrightarrow> D k = None"
  unfolding documents_step_def by (metis option_rel_Some1 option_rel_Some2 not_None_eq)

lemma documents_step_upd: "D k = Some d \<Longrightarrow> R d d' \<Longrightarrow> documents_step R D (D(k \<mapsto> d'))"
  by (auto simp: documents_step_def option.rel_refl)

lemma documents_step_many:
  "(\<And>k. D' k = map_option (\<lambda>d. if p d then u d else d) (D k)) \<Longrightarrow> (\<And>d. p d \<Longrightarrow> R d (u d)) \<Longrightarrow> documents_step R D D'"
  by (auto simp: documents_step_def option.rel_map option.rel_refl_strong intro!: option.rel_refl_strong)

type_synonym delegation_view =
  "(string \<Rightarrow> grant option) \<times> (string \<times> string \<Rightarrow> delegated_invocation option) \<times> (string \<Rightarrow> delegation_reference option)"

inductive delegation_step :: "delegation_view \<Rightarrow> delegation_view \<Rightarrow> bool" where
  grants: "documents_step grant_step G G' \<Longrightarrow> delegation_step (G, V, R) (G', V, R)"
| invocations: "documents_step delegated_step V V' \<Longrightarrow> delegation_step (G, V, R) (G, V', R)"
| references: "documents_step reference_step R R' \<Longrightarrow> delegation_step (G, V, R) (G, V, R')"
| new_grant: "G k = None \<Longrightarrow> fresh_grant g \<Longrightarrow> lineage G g \<Longrightarrow> delegation_step (G, V, R) (G(k \<mapsto> g), V, R)"
| new_invocation: "V (k, h) = None \<Longrightarrow> G k = Some g \<Longrightarrow> h \<in> set (gr_hashes g) \<Longrightarrow> 1 \<le> dn_ordinal v \<Longrightarrow> dn_ordinal v \<le> gr_limit g \<Longrightarrow>
     dn_status v = D_Prepared \<Longrightarrow> (\<And>h' v'. V (k, h') = Some v' \<Longrightarrow> dn_ordinal v' \<noteq> dn_ordinal v) \<Longrightarrow>
     delegation_step (G, V, R) (G, V((k, h) \<mapsto> v), R)"
| new_reference: "R t = None \<Longrightarrow> unused_reference r \<Longrightarrow> G (rf_grant r) = Some g \<Longrightarrow> rf_expires_at r \<le> gr_expires_at g \<Longrightarrow>
     V (rf_invocation r) \<noteq> None \<Longrightarrow> fst (rf_invocation r) = rf_grant r \<Longrightarrow> delegation_step (G, V, R) (G, V, R(t \<mapsto> r))"

inductive_cases delegation_stepE: "delegation_step s s'"

abbreviation delegation_moves :: "delegation_view \<Rightarrow> delegation_view \<Rightarrow> bool" where
  "delegation_moves \<equiv> delegation_step\<^sup>*\<^sup>*"

subsection \<open>What the steps of a grant keep\<close>

definition grant_ok :: "grant \<Rightarrow> bool" where
  "grant_ok g \<longleftrightarrow> gr_count g = int (length (gr_hashes g)) \<and> distinct (gr_hashes g)
     \<and> gr_count g \<le> gr_limit g \<and> 1 \<le> gr_limit g \<and> gr_limit g \<le> maximumInvocationLimit"

text \<open>The fields that never change.\<close>

definition same_binding :: "grant \<Rightarrow> grant \<Rightarrow> bool" where
  "same_binding g g' \<longleftrightarrow>
     gr_organization g' = gr_organization g \<and> gr_workspace g' = gr_workspace g \<and> gr_identity g' = gr_identity g
     \<and> gr_contract g' = gr_contract g \<and> gr_contract_version g' = gr_contract_version g
     \<and> gr_input_hash g' = gr_input_hash g \<and> gr_output_hash g' = gr_output_hash g \<and> gr_limit g' = gr_limit g
     \<and> gr_valid_from g' = gr_valid_from g \<and> gr_expires_at g' = gr_expires_at g \<and> gr_depth g' = gr_depth g
     \<and> gr_maximum_depth g' = gr_maximum_depth g \<and> gr_further g' = gr_further g \<and> gr_parent g' = gr_parent g
     \<and> gr_path g' = gr_path g"

definition ended :: "grant \<Rightarrow> bool" where
  "ended g \<longleftrightarrow> gr_status g \<in> set TERMINAL_GRANT_STATUSES"

lemma ended_open: "ended g \<longleftrightarrow> \<not> open_grant g"
  by (cases "gr_status g") (auto simp: ended_def open_grant_def TERMINAL_GRANT_STATUSES_def)

text \<open>What later states of a grant have: its binding, its reservations, and its end once it has ended.\<close>

definition grant_later :: "grant \<Rightarrow> grant \<Rightarrow> bool" where
  "grant_later g g' \<longleftrightarrow> same_binding g g' \<and> set (gr_hashes g) \<subseteq> set (gr_hashes g')
     \<and> (ended g \<longrightarrow> gr_status g' = gr_status g \<and> gr_hashes g' = gr_hashes g)"

lemma grant_later_refl [simp]: "grant_later g g"
  by (simp add: grant_later_def same_binding_def)

lemma grant_later_trans: "grant_later g g' \<Longrightarrow> grant_later g' g'' \<Longrightarrow> grant_later g g''"
  by (auto simp: grant_later_def same_binding_def ended_def)

lemma grant_step_later: "grant_step g g' \<Longrightarrow> grant_later g g'"
  by (erule grant_stepE) (auto simp: grant_later_def same_binding_def ended_open grant_set_defs)

lemma grant_step_ok: "grant_step g g' \<Longrightarrow> grant_ok g \<Longrightarrow> grant_ok g'"
  by (erule grant_stepE) (auto simp: grant_ok_def grant_set_defs)

lemma fresh_grant_ok: "fresh_grant g \<Longrightarrow> grant_ok g"
  by (simp add: fresh_grant_def grant_ok_def)

lemma same_binding_lineage: "lineage G g \<Longrightarrow> same_binding g g' \<Longrightarrow> lineage G g'"
  by (auto simp: lineage_def same_binding_def split: option.splits)

text \<open>An invocation keeps its ordinal and once it has succeeded, its state; a reference that was consumed or invalidated stays so.\<close>

lemma delegated_step_later:
  "delegated_step v v' \<Longrightarrow> dn_ordinal v' = dn_ordinal v \<and> dn_status v \<noteq> D_Succeeded"
  by (erule delegated_stepE) (auto simp: delegated_set_defs)

definition reference_later :: "delegation_reference \<Rightarrow> delegation_reference \<Rightarrow> bool" where
  "reference_later r r' \<longleftrightarrow> rf_grant r' = rf_grant r \<and> rf_invocation r' = rf_invocation r \<and> rf_expires_at r' = rf_expires_at r
     \<and> rf_identity r' = rf_identity r \<and> (\<not> unused_reference r \<longrightarrow> r' = r)"

lemma reference_later_refl [simp]: "reference_later r r"
  by (simp add: reference_later_def)

lemma reference_later_trans: "reference_later r r' \<Longrightarrow> reference_later r' r'' \<Longrightarrow> reference_later r r''"
  by (auto simp: reference_later_def)

lemma reference_step_later: "reference_step r r' \<Longrightarrow> reference_later r r'"
  by (erule reference_stepE) (auto simp: reference_later_def reference_set_defs)

subsection \<open>The invariant of the collections\<close>

definition invocation_ok :: "(string \<Rightarrow> grant option) \<Rightarrow> string \<times> string \<Rightarrow> delegated_invocation \<Rightarrow> bool" where
  "invocation_ok G key v \<longleftrightarrow>
     (\<exists>g. G (fst key) = Some g \<and> snd key \<in> set (gr_hashes g) \<and> 1 \<le> dn_ordinal v \<and> dn_ordinal v \<le> gr_limit g)"

definition reference_ok ::
  "(string \<Rightarrow> grant option) \<Rightarrow> (string \<times> string \<Rightarrow> delegated_invocation option) \<Rightarrow> delegation_reference \<Rightarrow> bool" where
  "reference_ok G V r \<longleftrightarrow> V (rf_invocation r) \<noteq> None \<and> fst (rf_invocation r) = rf_grant r
     \<and> (\<exists>g. G (rf_grant r) = Some g \<and> rf_expires_at r \<le> gr_expires_at g)"

definition ordinals_differ :: "(string \<times> string \<Rightarrow> delegated_invocation option) \<Rightarrow> bool" where
  "ordinals_differ V \<longleftrightarrow>
     (\<forall>k h v h' v'. V (k, h) = Some v \<longrightarrow> V (k, h') = Some v' \<longrightarrow> dn_ordinal v = dn_ordinal v' \<longrightarrow> h = h')"

definition delegation_ok :: "delegation_view \<Rightarrow> bool" where
  "delegation_ok s \<longleftrightarrow> (case s of (G, V, R) \<Rightarrow>
     (\<forall>k g. G k = Some g \<longrightarrow> grant_ok g \<and> lineage G g) \<and> (\<forall>key v. V key = Some v \<longrightarrow> invocation_ok G key v)
     \<and> ordinals_differ V \<and> (\<forall>t r. R t = Some r \<longrightarrow> reference_ok G V r))"

lemma delegation_okI:
  "(\<And>k g. G k = Some g \<Longrightarrow> grant_ok g \<and> lineage G g) \<Longrightarrow> (\<And>key v. V key = Some v \<Longrightarrow> invocation_ok G key v) \<Longrightarrow>
   ordinals_differ V \<Longrightarrow> (\<And>t r. R t = Some r \<Longrightarrow> reference_ok G V r) \<Longrightarrow> delegation_ok (G, V, R)"
  by (simp add: delegation_ok_def)

lemma delegation_okD:
  assumes "delegation_ok (G, V, R)"
  shows "G k = Some g \<Longrightarrow> grant_ok g" "G k = Some g \<Longrightarrow> lineage G g" "V key = Some v \<Longrightarrow> invocation_ok G key v"
    "ordinals_differ V" "R t = Some r \<Longrightarrow> reference_ok G V r"
  using assms unfolding delegation_ok_def prod.case by blast+

text \<open>What a later state of the collections has.\<close>

definition view_later :: "delegation_view \<Rightarrow> delegation_view \<Rightarrow> bool" where
  "view_later s s' \<longleftrightarrow>
     (\<forall>k g. fst s k = Some g \<longrightarrow> (\<exists>g'. fst s' k = Some g' \<and> grant_later g g'))
     \<and> (\<forall>k v. fst (snd s) k = Some v \<longrightarrow> (\<exists>v'. fst (snd s') k = Some v' \<and> dn_ordinal v' = dn_ordinal v
          \<and> (dn_status v = D_Succeeded \<longrightarrow> v' = v)))
     \<and> (\<forall>t r. snd (snd s) t = Some r \<longrightarrow> (\<exists>r'. snd (snd s') t = Some r' \<and> reference_later r r'))"

lemma view_later_refl [simp]: "view_later s s"
  by (simp add: view_later_def)

lemma view_laterD:
  assumes "view_later s s'"
  shows "fst s k = Some g \<Longrightarrow> \<exists>g'. fst s' k = Some g' \<and> grant_later g g'"
    and "fst (snd s) key = Some v \<Longrightarrow> \<exists>v'. fst (snd s') key = Some v' \<and> dn_ordinal v' = dn_ordinal v \<and> (dn_status v = D_Succeeded \<longrightarrow> v' = v)"
    and "snd (snd s) t = Some r \<Longrightarrow> \<exists>r'. snd (snd s') t = Some r' \<and> reference_later r r'"
  using assms unfolding view_later_def by blast+

lemma view_later_trans:
  assumes "view_later s t" "view_later t u"
  shows "view_later s u"
proof -
  have "\<exists>g'. fst u k = Some g' \<and> grant_later g g'" if "fst s k = Some g" for k g
    using view_laterD(1) [OF assms(1) that] view_laterD(1) [OF assms(2)] grant_later_trans by blast
  moreover have "\<exists>v'. fst (snd u) k = Some v' \<and> dn_ordinal v' = dn_ordinal v \<and> (dn_status v = D_Succeeded \<longrightarrow> v' = v)"
    if "fst (snd s) k = Some v" for k v
    using view_laterD(2) [OF assms(1) that] view_laterD(2) [OF assms(2)] by fastforce
  moreover have "\<exists>r'. snd (snd u) t = Some r' \<and> reference_later r r'" if "snd (snd s) t = Some r" for t r
    using view_laterD(3) [OF assms(1) that] view_laterD(3) [OF assms(2)] reference_later_trans by blast
  ultimately show ?thesis unfolding view_later_def by blast
qed

lemma grants_later: "documents_step grant_step G G' \<Longrightarrow> G k = Some g \<Longrightarrow> \<exists>g'. G' k = Some g' \<and> grant_later g g'"
  using grant_step_later by (fastforce dest: documents_step_Some)

lemma invocations_later:
  "documents_step delegated_step V V' \<Longrightarrow> V k = Some v \<Longrightarrow>
   \<exists>v'. V' k = Some v' \<and> dn_ordinal v' = dn_ordinal v \<and> (dn_status v = D_Succeeded \<longrightarrow> v' = v)"
  using delegated_step_later by (fastforce dest: documents_step_Some)

lemma references_later:
  "documents_step reference_step R R' \<Longrightarrow> R t = Some r \<Longrightarrow> \<exists>r'. R' t = Some r' \<and> reference_later r r'"
  using reference_step_later by (fastforce dest: documents_step_Some)

lemma delegation_step_later: "delegation_step s s' \<Longrightarrow> view_later s s'"
proof (induction rule: delegation_step.induct)
  case (grants G G' V R)
  then show ?case by (simp add: view_later_def grants_later)
next
  case (invocations V V' G R)
  then show ?case by (simp add: view_later_def invocations_later)
next
  case (references R R' G V)
  then show ?case by (simp add: view_later_def references_later)
qed (auto simp: view_later_def)

lemma delegation_moves_later: "delegation_moves s s' \<Longrightarrow> view_later s s'"
  by (induction rule: rtranclp_induct) (simp, blast dest: delegation_step_later view_later_trans)

lemma lineage_later:
  assumes "lineage G g" "\<And>k g. G k = Some g \<Longrightarrow> \<exists>g'. G' k = Some g' \<and> grant_later g g'"
  shows "lineage G' g"
proof (cases "gr_parent g")
  case None
  with assms(1) show ?thesis by (simp add: lineage_def)
next
  case (Some k)
  with assms(1) obtain p where p: "G k = Some p" "gr_further p" "gr_depth g = gr_depth p + 1" "gr_depth g \<le> gr_maximum_depth p"
    "idOf (id_target_passport (gr_identity p)) = idOf (id_source_passport (gr_identity g))"
    "gr_path g = gr_path p @ [idOf (id_target_passport (gr_identity g))]"
    by (auto simp: lineage_def)
  from assms(2) [OF p(1)] obtain p' where p': "G' k = Some p'" "same_binding p p'" by (auto simp: grant_later_def)
  with p Some assms(1) show ?thesis by (simp add: lineage_def same_binding_def)
qed

lemma documents_step_back: "documents_step R D D' \<Longrightarrow> D' k = Some d' \<Longrightarrow> \<exists>d. D k = Some d \<and> R\<^sup>=\<^sup>= d d'"
  unfolding documents_step_def by (metis option_rel_Some2)

lemma grants_back:
  assumes "documents_step grant_step G G'" "G' k = Some g'"
  obtains g where "G k = Some g" "grant_later g g'" "grant_ok g \<Longrightarrow> grant_ok g'"
  using documents_step_back [OF assms] grant_step_later grant_step_ok by fastforce

text \<open>What the parts of the invariant say stays true when the collections they look at go on.\<close>

lemma invocation_ok_later:
  assumes "invocation_ok G key v" "\<And>k g. G k = Some g \<Longrightarrow> \<exists>g'. G' k = Some g' \<and> grant_later g g'"
  shows "invocation_ok G' key v"
proof -
  obtain g where g: "G (fst key) = Some g" "snd key \<in> set (gr_hashes g)" "1 \<le> dn_ordinal v" "dn_ordinal v \<le> gr_limit g"
    using assms(1) by (auto simp: invocation_ok_def)
  from assms(2) [OF g(1)] g show ?thesis by (auto simp: invocation_ok_def grant_later_def same_binding_def)
qed

lemma reference_ok_later:
  assumes "reference_ok G V r" "\<And>k g. G k = Some g \<Longrightarrow> \<exists>g'. G' k = Some g' \<and> grant_later g g'"
    and "\<And>key. V key \<noteq> None \<Longrightarrow> V' key \<noteq> None"
  shows "reference_ok G' V' r"
proof -
  obtain g where g: "G (rf_grant r) = Some g" "rf_expires_at r \<le> gr_expires_at g" using assms(1) by (auto simp: reference_ok_def)
  have "V' (rf_invocation r) \<noteq> None" "fst (rf_invocation r) = rf_grant r" using assms(1,3) unfolding reference_ok_def by blast+
  with assms(2) [OF g(1)] g show ?thesis unfolding reference_ok_def by (auto simp: grant_later_def same_binding_def)
qed

lemma grants_step_ok:
  assumes d: "documents_step grant_step G G'" and ok: "delegation_ok (G, V, R)"
  shows "delegation_ok (G', V, R)"
proof (rule delegation_okI)
  note ok' = delegation_okD [OF ok] and later = grants_later [OF d]
  fix k g' assume "G' k = Some g'"
  then obtain g where g: "G k = Some g" "grant_later g g'" "grant_ok g \<Longrightarrow> grant_ok g'"
    using grants_back [OF d, of k g'] by blast
  have "lineage G' g" using ok'(2) [OF g(1)] later by (rule lineage_later)
  with g ok'(1) [OF g(1)] show "grant_ok g' \<and> lineage G' g'" using same_binding_lineage by (auto simp: grant_later_def)
next
  show "invocation_ok G' key v" if "V key = Some v" for key v
    using delegation_okD(3) [OF ok that] grants_later [OF d] by (rule invocation_ok_later)
  show "reference_ok G' V r" if "R t = Some r" for t r
    using delegation_okD(5) [OF ok that] grants_later [OF d] by (rule reference_ok_later)
qed (rule delegation_okD(4) [OF ok])

lemma invocations_step_ok:
  assumes d: "documents_step delegated_step V V'" and ok: "delegation_ok (G, V, R)"
  shows "delegation_ok (G, V', R)"
proof -
  have before: "\<exists>v. V k = Some v \<and> dn_ordinal v' = dn_ordinal v" if "V' k = Some v'" for k v'
    using documents_step_back [OF d that] delegated_step_later by fastforce
  show ?thesis
  proof (rule delegation_okI)
    show "invocation_ok G key v'" if "V' key = Some v'" for key v'
      using before [OF that] delegation_okD(3) [OF ok, of key] by (auto simp: invocation_ok_def)
    show "ordinals_differ V'" unfolding ordinals_differ_def
    proof (intro allI impI)
      fix k h v h' v' assume v: "V' (k, h) = Some v" "V' (k, h') = Some v'" "dn_ordinal v = dn_ordinal v'"
      obtain w w' where "V (k, h) = Some w" "V (k, h') = Some w'" "dn_ordinal v = dn_ordinal w" "dn_ordinal v' = dn_ordinal w'"
        using before [OF v(1)] before [OF v(2)] by blast
      with v(3) delegation_okD(4) [OF ok] show "h = h'" unfolding ordinals_differ_def by metis
    qed
    show "reference_ok G V' r" if "R t = Some r" for t r
      using delegation_okD(5) [OF ok that] by (rule reference_ok_later) (auto simp: documents_step_None [OF d])
  qed (use delegation_okD [OF ok] in auto)
qed

lemma references_step_ok:
  assumes d: "documents_step reference_step R R'" and ok: "delegation_ok (G, V, R)"
  shows "delegation_ok (G, V, R')"
proof (rule delegation_okI)
  fix t r' assume "R' t = Some r'"
  then obtain r where r: "R t = Some r" "reference_later r r'"
    using documents_step_back [OF d, of t r'] reference_step_later by fastforce
  with delegation_okD(5) [OF ok r(1)] show "reference_ok G V r'" by (auto simp: reference_ok_def reference_later_def)
qed (use delegation_okD [OF ok] in auto)

lemma delegation_step_ok: "delegation_step s s' \<Longrightarrow> delegation_ok s \<Longrightarrow> delegation_ok s'"
proof (induction rule: delegation_step.induct)
  case (grants G G' V R)
  then show ?case by (rule grants_step_ok)
next
  case (invocations V V' G R)
  then show ?case by (rule invocations_step_ok)
next
  case (references R R' G V)
  then show ?case by (rule references_step_ok)
next
  case (new_grant G k g V R)
  note ok = delegation_okD [OF new_grant(4)]
  have keep: "\<exists>x'. (G(k \<mapsto> g)) j = Some x' \<and> grant_later x x'" if "G j = Some x" for j x using that new_grant(1) by auto
  show ?case
  proof (rule delegation_okI)
    have up: "lineage (G(k \<mapsto> g)) x" if "lineage G x" for x using that keep by (rule lineage_later)
    show "grant_ok x \<and> lineage (G(k \<mapsto> g)) x" if "(G(k \<mapsto> g)) j = Some x" for j x
      using that up [OF new_grant(3)] up [OF ok(2)] ok(1) fresh_grant_ok [OF new_grant(2)] by (cases "j = k") auto
    show "invocation_ok (G(k \<mapsto> g)) key v" if "V key = Some v" for key v using ok(3) [OF that] keep by (rule invocation_ok_later)
    show "reference_ok (G(k \<mapsto> g)) V r" if "R t = Some r" for t r using ok(5) [OF that] keep by (rule reference_ok_later)
  qed (rule ok(4))
next
  case (new_invocation V k h G g v R)
  note ok = delegation_okD [OF new_invocation(8)]
  show ?case
  proof (rule delegation_okI)
    show "invocation_ok G key w" if "(V((k, h) \<mapsto> v)) key = Some w" for key w
      using that new_invocation(2-5) ok(3) by (auto simp: invocation_ok_def split: if_splits)
    show "ordinals_differ (V((k, h) \<mapsto> v))"
      using ok(4) new_invocation(7) unfolding ordinals_differ_def by (auto split: if_splits) metis
    show "reference_ok G (V((k, h) \<mapsto> v)) r" if "R t = Some r" for t r
      using ok(5) [OF that] by (rule reference_ok_later) auto
  qed (use ok in auto)
next
  case (new_reference R t r G g V)
  note ok = delegation_okD [OF new_reference(7)]
  show ?case
    by (rule delegation_okI) (use ok new_reference in \<open>auto simp: reference_ok_def split: if_splits\<close>)
qed

lemma delegation_moves_ok: "delegation_moves s s' \<Longrightarrow> delegation_ok s \<Longrightarrow> delegation_ok s'"
  by (induction rule: rtranclp_induct) (auto intro: delegation_step_ok)

subsection \<open>The collections of a service\<close>

definition delegation_view_of ::
  "('g \<Rightarrow> string \<Rightarrow> grant option) \<Rightarrow> ('v \<Rightarrow> string \<times> string \<Rightarrow> delegated_invocation option) \<Rightarrow>
   ('r \<Rightarrow> string \<Rightarrow> delegation_reference option) \<Rightarrow> 'g \<times> 'v \<times> 'r \<Rightarrow> delegation_view" where
  "delegation_view_of vg vv vr s = (vg (fst s), vv (fst (snd s)), vr (snd (snd s)))"

definition state_moves ::
  "('g \<Rightarrow> string \<Rightarrow> grant option) \<Rightarrow> ('v \<Rightarrow> string \<times> string \<Rightarrow> delegated_invocation option) \<Rightarrow>
   ('r \<Rightarrow> string \<Rightarrow> delegation_reference option) \<Rightarrow> 'g \<times> 'v \<times> 'r \<Rightarrow> 'g \<times> 'v \<times> 'r \<Rightarrow> bool" where
  "state_moves vg vv vr s s' \<longleftrightarrow> delegation_moves (delegation_view_of vg vv vr s) (delegation_view_of vg vv vr s')"

text \<open>What others do between the calls: steps of the service.\<close>

definition calm :: "('s \<Rightarrow> 's \<Rightarrow> bool) \<Rightarrow> (nat \<Rightarrow> 's \<Rightarrow> 's) \<Rightarrow> bool" where
  "calm M env \<longleftrightarrow> (\<forall>n s. M s (env n s))"

lemma calmD: "calm M env \<Longrightarrow> M s (env n s)"
  by (simp add: calm_def)

locale delegations =
  g: indexed_store "db_grants S" vg same_edge + v: indexed_store "db_invocations S" vv same_ordinal +
  r: indexed_store "db_references S" vr no_clash
  for S :: "('g, 'v, 'r) delegation_db" and vg :: "'g \<Rightarrow> string \<Rightarrow> grant option"
    and vv :: "'v \<Rightarrow> string \<times> string \<Rightarrow> delegated_invocation option"
    and vr :: "'r \<Rightarrow> string \<Rightarrow> delegation_reference option"

sublocale delegations < moving: rely "state_moves vg vv vr"
  by unfold_locales (auto simp: state_moves_def)

context delegations
begin

abbreviation "M \<equiv> state_moves vg vv vr"
abbreviation "see s \<equiv> delegation_view_of vg vv vr s"

text \<open>The invariant, and what an operation knows of a grant that it has read: it is there, with the same binding and at least the
  reservations it had.\<close>

abbreviation okay :: "'g \<times> 'v \<times> 'r \<Rightarrow> bool" where "okay s \<equiv> delegation_ok (see s)"

definition binds :: "string \<Rightarrow> grant \<Rightarrow> 'g \<times> 'v \<times> 'r \<Rightarrow> bool" where
  "binds k g s \<longleftrightarrow> (\<exists>g'. vg (fst s) k = Some g' \<and> same_binding g g' \<and> set (gr_hashes g) \<subseteq> set (gr_hashes g'))"

definition invoked :: "string \<times> string \<Rightarrow> 'g \<times> 'v \<times> 'r \<Rightarrow> bool" where
  "invoked key s \<longleftrightarrow> vv (fst (snd s)) key \<noteq> None"

lemma moves_view: "M s s' \<Longrightarrow> view_later (see s) (see s')"
  unfolding state_moves_def by (rule delegation_moves_later)

lemma stable_okay [stables]: "stable M okay"
  unfolding stable_def state_moves_def using delegation_moves_ok by blast

lemma stable_binds [stables]: "stable M (binds k g)"
proof -
  have "binds k g s'" if b: "binds k g s" and m: "M s s'" for s s'
  proof -
    obtain g' where g': "vg (fst s) k = Some g'" "same_binding g g'" "set (gr_hashes g) \<subseteq> set (gr_hashes g')"
      using b by (auto simp: binds_def)
    then obtain g'' where "vg (fst s') k = Some g''" "grant_later g' g''"
      using view_laterD(1) [OF moves_view [OF m], of k g'] by (auto simp: delegation_view_of_def)
    with g' show ?thesis by (auto simp: binds_def grant_later_def same_binding_def)
  qed
  then show ?thesis by (auto simp: stable_def)
qed

lemma stable_invoked [stables]: "stable M (invoked key)"
  unfolding stable_def invoked_def using view_laterD(2) [OF moves_view] by (fastforce simp: delegation_view_of_def)

lemma binds_read: "vg (fst s) k = Some g \<Longrightarrow> binds k g s"
  by (auto simp: binds_def same_binding_def)

subsubsection \<open>The calls\<close>

lemma read_reaches:
  assumes "calm M env" "stable M P" "\<And>s. p s = (Inr (f (env n s)), env n s)" "\<And>s. Q (f s) s"
  shows "reaches M P p (\<lambda>x s. P s \<and> Q x s)"
proof (rule reachesI)
  fix s r s' assume P: "P s" and e: "p s = (r, s')"
  with assms(3) [of s] have "r = Inr (f (env n s))" "s' = env n s" by simp_all
  with calmD [OF assms(1)] stableD [OF assms(2) P calmD [OF assms(1)]] assms(4)
  show "M s s' \<and> (\<forall>a. r = Inr a \<longrightarrow> P s' \<and> Q a s')" by simp
qed

lemma find_grant_reaches:
  assumes "calm M env" "stable M P"
  shows "reaches M P (find_grant S (env n) k p) (\<lambda>x s. P s \<and> (case x of None \<Rightarrow> True | Some g \<Rightarrow> p g \<and> vg (fst s) k = Some g))"
  by (rule read_reaches [where env = env and f = "\<lambda>s. ix_find (db_grants S) k p (fst s)", OF assms])
    (auto simp: find_grant_def Let_def g.find_Some split: option.split)

lemma find_grant_where_reaches:
  assumes "calm M env" "stable M P"
  shows "reaches M P (find_grant_where S (env n) p) (\<lambda>x s. P s \<and> (case x of None \<Rightarrow> True | Some (k, g) \<Rightarrow> p g \<and> vg (fst s) k = Some g))"
  by (rule read_reaches [where env = env and f = "\<lambda>s. ix_find_where (db_grants S) p (fst s)", OF assms])
    (auto simp: find_grant_where_def Let_def dest: g.find_where_Some split: option.split)

lemma find_delegated_reaches:
  assumes "calm M env" "stable M P"
  shows "reaches M P (find_delegated S (env n) key p) (\<lambda>x s. P s \<and> (x \<noteq> None \<longrightarrow> invoked key s))"
  by (rule read_reaches [where env = env and f = "\<lambda>s. ix_find (db_invocations S) key p (fst (snd s))", OF assms])
    (auto simp: find_delegated_def Let_def invoked_def v.find_view split: option.splits)

lemma one_step: "delegation_step (see s) (see s') \<Longrightarrow> M t s \<Longrightarrow> M t s'"
  using moving.moves_trans [of t s s'] by (auto simp: state_moves_def)

lemma update_grant_reaches:
  assumes "calm M env" "stable M P" and step: "\<And>g. p g \<Longrightarrow> grant_step g (u g)"
  shows "reaches M P (update_grant S (env n) k p u)
    (\<lambda>x s. P s \<and> (case x of None \<Rightarrow> True | Some g' \<Rightarrow> vg (fst s) k = Some g' \<and> (\<exists>g. p g \<and> g' = u g)))"
proof (rule reachesI)
  fix s x s' assume P: "P s" and e: "update_grant S (env n) k p u s = (x, s')"
  obtain y db where c: "ix_update (db_grants S) k p u (fst (env n s)) = (y, db)" by fastforce
  with e have x: "x = Inr y" "s' = (db, snd (env n s))" by (auto simp: update_grant_def Let_def)
  note m = calmD [OF assms(1), of s n]
  from c show "M s s' \<and> (\<forall>a. x = Inr a \<longrightarrow> P s' \<and> (case a of None \<Rightarrow> True | Some g' \<Rightarrow> vg (fst s') k = Some g' \<and> (\<exists>g. p g \<and> g' = u g)))"
  proof (cases rule: g.update_cases)
    case miss
    with x m stableD [OF assms(2) P m] show ?thesis by simp
  next
    case (hit d)
    have "delegation_step (see (env n s)) (see s')"
      unfolding delegation_view_of_def using x hit step documents_step_upd [of "vg (fst (env n s))" k d grant_step "u d"]
      by (auto intro: delegation_step.grants)
    from one_step [OF this m] have "M s s'" .
    with x hit stableD [OF assms(2) P this] show ?thesis by auto
  qed
qed

lemma update_grants_reaches:
  assumes "calm M env" "stable M P" and step: "\<And>g. p g \<Longrightarrow> grant_step g (u g)"
  shows "reaches M P (update_grants S (env n) p u) (\<lambda>_ s. P s \<and> (\<forall>k g. vg (fst s) k = Some g \<longrightarrow> (\<exists>d. g = (if p d then u d else d))))"
proof (rule reachesI)
  fix s x s' assume P: "P s" and e: "update_grants S (env n) p u s = (x, s')"
  obtain y db where c: "ix_update_many (db_grants S) p u (fst (env n s)) = (y, db)" by fastforce
  with e have x: "s' = (db, snd (env n s))" by (auto simp: update_grants_def Let_def)
  note m = calmD [OF assms(1), of s n]
  have w: "vg (fst s') k = map_option (\<lambda>d. if p d then u d else d) (vg (fst (env n s)) k)" for k
    using g.update_many_view [of p u "fst (env n s)" k] c x by simp
  have "delegation_step (see (env n s)) (see s')"
    unfolding delegation_view_of_def using x documents_step_many [where p = p and u = u and R = grant_step and D = "vg (fst (env n s))" and D' = "vg (fst s')", OF w step] by (auto intro: delegation_step.grants)
  from one_step [OF this m] have "M s s'" .
  with stableD [OF assms(2) P this] w show "M s s' \<and> (\<forall>a. x = Inr a \<longrightarrow> P s' \<and> (\<forall>k g. vg (fst s') k = Some g \<longrightarrow> (\<exists>d. g = (if p d then u d else d))))"
    by auto
qed

lemma create_grant_reaches:
  assumes "calm M env" "stable M P" and "\<And>s. P s \<Longrightarrow> lineage (vg (fst s)) d" "fresh_grant d"
  shows "reaches M P (create_grant S (env n) k d) (\<lambda>created s. P s \<and> (created \<longrightarrow> vg (fst s) k = Some d))"
proof (rule reachesI)
  fix s x s' assume P: "P s" and e: "create_grant S (env n) k d s = (x, s')"
  obtain y db where c: "ix_create (db_grants S) k d (fst (env n s)) = (y, db)" by fastforce
  with e have x: "x = Inr y" "s' = (db, snd (env n s))" by (auto simp: create_grant_def Let_def)
  note m = calmD [OF assms(1), of s n]
  from c show "M s s' \<and> (\<forall>a. x = Inr a \<longrightarrow> P s' \<and> (a \<longrightarrow> vg (fst s') k = Some d))"
  proof (cases rule: g.create_cases)
    case taken
    with x m stableD [OF assms(2) P m] show ?thesis by simp
  next
    case new
    have "delegation_step (see (env n s)) (see s')"
      unfolding delegation_view_of_def using x new assms(3) [OF stableD [OF assms(2) P m]] assms(4)
      by (auto intro: delegation_step.new_grant)
    from one_step [OF this m] have "M s s'" .
    with x new stableD [OF assms(2) P this] show ?thesis by auto
  qed
qed

lemma update_delegated_reaches:
  assumes "calm M env" "stable M P" and step: "\<And>v. p v \<Longrightarrow> delegated_step v (u v)"
  shows "reaches M P (update_delegated S (env n) key p u)
    (\<lambda>x s. P s \<and> (case x of None \<Rightarrow> True | Some v' \<Rightarrow> vv (fst (snd s)) key = Some v' \<and> (\<exists>v. p v \<and> v' = u v)))"
proof (rule reachesI)
  fix s x s' assume P: "P s" and e: "update_delegated S (env n) key p u s = (x, s')"
  obtain y db where c: "ix_update (db_invocations S) key p u (fst (snd (env n s))) = (y, db)" by fastforce
  with e have x: "x = Inr y" "s' = (fst (env n s), db, snd (snd (env n s)))" by (auto simp: update_delegated_def Let_def)
  note m = calmD [OF assms(1), of s n]
  from c show "M s s' \<and> (\<forall>a. x = Inr a \<longrightarrow> P s' \<and> (case a of None \<Rightarrow> True | Some v' \<Rightarrow> vv (fst (snd s')) key = Some v' \<and> (\<exists>v. p v \<and> v' = u v)))"
  proof (cases rule: v.update_cases)
    case miss
    with x m stableD [OF assms(2) P m] show ?thesis by simp
  next
    case (hit d)
    have "delegation_step (see (env n s)) (see s')"
      unfolding delegation_view_of_def using x hit step documents_step_upd [of "vv (fst (snd (env n s)))" key d delegated_step "u d"]
      by (auto intro: delegation_step.invocations)
    from one_step [OF this m] have "M s s'" .
    with x hit stableD [OF assms(2) P this] show ?thesis by auto
  qed
qed

end

end
