(* ===== verification/Delegation_Programs.thy ===== *)
theory Delegation_Programs
  imports Delegation_Steps
begin

text \<open>
  The operations on delegations move the three collections by the steps of \<open>Delegation_Steps\<close>, and what they return is true of the
  collections they leave (locale \<open>delegations\<close>, in the logic of \<open>Program_Monad\<close>).
\<close>

definition holds_reservation :: "string \<Rightarrow> grant \<Rightarrow> bool" where
  "holds_reservation h g \<longleftrightarrow> h \<in> set (gr_hashes g) \<and> 1 \<le> gr_count g \<and> gr_count g \<le> gr_limit g"

lemma holds_reservation_status [simp]: "holds_reservation h (status_set st g) = holds_reservation h g"
  by (simp add: holds_reservation_def status_set_def)

lemma grant_ok_holds: "grant_ok g \<Longrightarrow> h \<in> set (gr_hashes g) \<Longrightarrow> holds_reservation h g"
  by (cases "gr_hashes g") (auto simp: grant_ok_def holds_reservation_def)

context delegations
begin

lemma binds_status [simp]: "binds k (status_set st g) s = binds k g s"
  by (simp add: binds_def same_binding_def status_set_def)

lemma okay_grant: "okay s \<Longrightarrow> vg (fst s) k = Some g \<Longrightarrow> grant_ok g \<and> lineage (vg (fst s)) g"
  using delegation_okD(1,2) unfolding delegation_view_of_def by blast

subsection \<open>The other calls\<close>

lemma create_delegated_reaches:
  assumes "calm M env" "stable M P" and room: "\<And>s. P s \<Longrightarrow> invocation_ok (vg (fst s)) (k, h) d" and st: "dn_status d = D_Prepared"
  shows "reaches M P (create_delegated S (env n) (k, h) d) (\<lambda>created s. P s \<and> (created \<longrightarrow> invoked (k, h) s))"
proof (rule reachesI)
  fix s x s' assume P: "P s" and e: "create_delegated S (env n) (k, h) d s = (x, s')"
  obtain y db where c: "ix_create (db_invocations S) (k, h) d (fst (snd (env n s))) = (y, db)" by fastforce
  with e have x: "x = Inr y" "s' = (fst (env n s), db, snd (snd (env n s)))" by (auto simp: create_delegated_def Let_def)
  note m = calmD [OF assms(1), of s n]
  from c show "M s s' \<and> (\<forall>a. x = Inr a \<longrightarrow> P s' \<and> (a \<longrightarrow> invoked (k, h) s'))"
  proof (cases rule: v.create_cases)
    case taken
    with x m stableD [OF assms(2) P m] show ?thesis by simp
  next
    case new
    obtain g where g: "vg (fst (env n s)) k = Some g" "h \<in> set (gr_hashes g)" "1 \<le> dn_ordinal d" "dn_ordinal d \<le> gr_limit g"
      using room [OF stableD [OF assms(2) P m]] by (auto simp: invocation_ok_def)
    have "dn_ordinal v' \<noteq> dn_ordinal d" if "vv (fst (snd (env n s))) (k, h') = Some v'" for h' v'
      using new(4) [OF that] by (auto simp: same_ordinal_def)
    then have "delegation_step (see (env n s)) (see s')"
      unfolding delegation_view_of_def using x new g st by (auto intro: delegation_step.new_invocation)
    from one_step [OF this m] have "M s s'" .
    with x new stableD [OF assms(2) P this] show ?thesis by (auto simp: invoked_def)
  qed
qed

lemma update_reference_reaches:
  assumes "calm M env" "stable M P" and step: "\<And>r. p r \<Longrightarrow> reference_step r (u r)"
  shows "reaches M P (update_reference S (env n) t p u)
    (\<lambda>x s. P s \<and> (case x of None \<Rightarrow> True | Some r' \<Rightarrow> vr (snd (snd s)) t = Some r' \<and> (\<exists>r. p r \<and> r' = u r)))"
proof (rule reachesI)
  fix s x s' assume P: "P s" and e: "update_reference S (env n) t p u s = (x, s')"
  obtain y db where c: "ix_update (db_references S) t p u (snd (snd (env n s))) = (y, db)" by fastforce
  with e have x: "x = Inr y" "s' = (fst (env n s), fst (snd (env n s)), db)" by (auto simp: update_reference_def Let_def)
  note m = calmD [OF assms(1), of s n]
  from c show "M s s' \<and> (\<forall>a. x = Inr a \<longrightarrow> P s' \<and> (case a of None \<Rightarrow> True | Some r' \<Rightarrow> vr (snd (snd s')) t = Some r' \<and> (\<exists>r. p r \<and> r' = u r)))"
  proof (cases rule: r.update_cases)
    case miss
    with x m stableD [OF assms(2) P m] show ?thesis by simp
  next
    case (hit d)
    have "delegation_step (see (env n s)) (see s')"
      unfolding delegation_view_of_def using x hit step documents_step_upd [of "vr (snd (snd (env n s)))" t d reference_step "u d"]
      by (auto intro: delegation_step.references)
    from one_step [OF this m] have "M s s'" .
    with x hit stableD [OF assms(2) P this] show ?thesis by auto
  qed
qed

lemma update_references_reaches:
  assumes "calm M env" "stable M P" and step: "\<And>r. p r \<Longrightarrow> reference_step r (u r)"
  shows "reaches M P (update_references S (env n) p u)
    (\<lambda>_ s. P s \<and> (\<forall>t r'. vr (snd (snd s)) t = Some r' \<longrightarrow> (\<exists>r. r' = (if p r then u r else r))))"
proof (rule reachesI)
  fix s x s' assume P: "P s" and e: "update_references S (env n) p u s = (x, s')"
  obtain y db where c: "ix_update_many (db_references S) p u (snd (snd (env n s))) = (y, db)" by fastforce
  with e have x: "s' = (fst (env n s), fst (snd (env n s)), db)" by (auto simp: update_references_def Let_def)
  note m = calmD [OF assms(1), of s n]
  have w: "vr (snd (snd s')) t = map_option (\<lambda>d. if p d then u d else d) (vr (snd (snd (env n s))) t)" for t
    using r.update_many_view [of p u "snd (snd (env n s))" t] c x by simp
  have "delegation_step (see (env n s)) (see s')"
    unfolding delegation_view_of_def
    using x documents_step_many [where p = p and u = u and R = reference_step and D = "vr (snd (snd (env n s)))" and D' = "vr (snd (snd s'))", OF w step]
    by (auto intro: delegation_step.references)
  from one_step [OF this m] have "M s s'" .
  with stableD [OF assms(2) P this] w
  show "M s s' \<and> (\<forall>a. x = Inr a \<longrightarrow> P s' \<and> (\<forall>t r'. vr (snd (snd s')) t = Some r' \<longrightarrow> (\<exists>r. r' = (if p r then u r else r))))"
    by auto
qed

lemma create_reference_reaches:
  assumes "calm M env" "stable M P" and "unused_reference d" "fst (rf_invocation d) = rf_grant d" "rf_expires_at d \<le> gr_expires_at g"
    and "\<And>s. P s \<Longrightarrow> invoked (rf_invocation d) s \<and> binds (rf_grant d) g s"
  shows "reaches M P (create_reference S (env n) t d) (\<lambda>created s. P s \<and> (created \<longrightarrow> vr (snd (snd s)) t = Some d))"
proof (rule reachesI)
  fix s x s' assume P: "P s" and e: "create_reference S (env n) t d s = (x, s')"
  obtain y db where c: "ix_create (db_references S) t d (snd (snd (env n s))) = (y, db)" by fastforce
  with e have x: "x = Inr y" "s' = (fst (env n s), fst (snd (env n s)), db)" by (auto simp: create_reference_def Let_def)
  note m = calmD [OF assms(1), of s n]
  from c show "M s s' \<and> (\<forall>a. x = Inr a \<longrightarrow> P s' \<and> (a \<longrightarrow> vr (snd (snd s')) t = Some d))"
  proof (cases rule: r.create_cases)
    case taken
    with x m stableD [OF assms(2) P m] show ?thesis by simp
  next
    case new
    have k: "invoked (rf_invocation d) (env n s)" "binds (rf_grant d) g (env n s)"
      using assms(6) [OF stableD [OF assms(2) P m]] by blast+
    then obtain g' where "vg (fst (env n s)) (rf_grant d) = Some g'" "rf_expires_at d \<le> gr_expires_at g'"
      using assms(5) by (auto simp: binds_def same_binding_def)
    then have "delegation_step (see (env n s)) (see s')"
      unfolding delegation_view_of_def using x new k assms(3,4) by (auto simp: invoked_def intro: delegation_step.new_reference)
    from one_step [OF this m] have "M s s'" .
    with x new stableD [OF assms(2) P this] show ?thesis by auto
  qed
qed

subsection \<open>Reserving\<close>

lemma reservation_missed_reaches:
  assumes "calm M env" "stable M P" "\<And>s. P s \<Longrightarrow> okay s"
  shows "reaches M P (reservation_missed S env n k h sc now) (\<lambda>(d, _) s. P s \<and> binds k d s \<and> holds_reservation h d)"
  unfolding reservation_missed_def
proof (rule moving.reaches_thens, rule find_grant_reaches [OF assms(1,2)], goal_cases)
  case (1 x)
  show ?case
  proof (cases x)
    case (Some g)
    have "P s \<and> binds k g s \<and> holds_reservation h g" if "P s" "vg (fst s) k = Some g" "h \<in> set (gr_hashes g)" for s
      using that binds_read okay_grant [OF assms(3) [OF that(1)] that(2)] by (auto intro: grant_ok_holds)
    note known = this
    show ?thesis
      unfolding Some option.case
    proof (intro reaches_if moving.reaches_throws)
      show "reaches M (\<lambda>s. P s \<and> in_scope sc g \<and> vg (fst s) k = Some g) (returns (g, True))
          (\<lambda>(d, _) s. P s \<and> binds k d s \<and> holds_reservation h d)" if "h \<in> set (gr_hashes g)"
        by (rule moving.reaches_returns) (use known that in auto)
    next
      show "reaches M (\<lambda>s. P s \<and> in_scope sc g \<and> vg (fst s) k = Some g)
          (thens (update_grant S (env (n + 1)) k (\<lambda>d. gr_status d = G_Active) (status_set G_Expired))
            (\<lambda>_. throws (reservation_refused (Some g)))) (\<lambda>(d, _) s. P s \<and> binds k d s \<and> holds_reservation h d)"
        by (rule moving.reaches_then_throws, rule reaches_pre [OF update_grant_reaches [OF assms(1,2)]])
          (auto simp: open_grant_def intro: grant_step.expire)
    qed
  qed (simp add: moving.reaches_throws)
qed

lemma reserveGrantInvocation_reaches:
  assumes "calm M env" "stable M P" "\<And>s. P s \<Longrightarrow> okay s"
  shows "reaches M P (reserveGrantInvocation S env n k g h sc now) (\<lambda>(d, _) s. P s \<and> binds k d s \<and> holds_reservation h d)"
  unfolding reserveGrantInvocation_def
proof (rule moving.reaches_thens, rule update_grant_reaches [OF assms(1,2)], goal_cases)
  case (1 g)
  then show ?case by (auto simp: invocationReservationFilter_def intro: grant_step.reserve)
next
  case (2 x)
  show ?case
  proof (cases x)
    case None
    then show ?thesis using reservation_missed_reaches [OF assms] by (auto intro: reaches_pre)
  next
    case (Some d)
    let ?Q = "\<lambda>s. P s \<and> binds k d s \<and> holds_reservation h d"
    have known: "?Q s" if "P s" "vg (fst s) k = Some d" "d = reserve_hash h first g" for s first g
      using that binds_read okay_grant [OF assms(3) [OF that(1)] that(2)]
      by (auto simp: reserve_hash_def intro: grant_ok_holds)
    have st: "stable M ?Q" by (intro stables assms)
    have "reaches M ?Q (if gr_limit d \<le> gr_count d
       then thens (update_grant S (env (n + 1)) k (\<lambda>x. gr_status x = G_Active \<and> gr_limit d \<le> gr_count x) (status_set G_Exhausted))
         (\<lambda>_. returns (status_set G_Exhausted d, False))
       else returns (d, False)) (\<lambda>(d, _) s. P s \<and> binds k d s \<and> holds_reservation h d)"
    proof (rule reaches_if)
      show "reaches M ?Q (thens (update_grant S (env (n + 1)) k (\<lambda>x. gr_status x = G_Active \<and> gr_limit d \<le> gr_count x) (status_set G_Exhausted))
         (\<lambda>_. returns (status_set G_Exhausted d, False))) (\<lambda>(d, _) s. P s \<and> binds k d s \<and> holds_reservation h d)"
        by (rule moving.reaches_thens, rule update_grant_reaches [OF assms(1) st])
          (auto intro: grant_step.exhaust moving.reaches_returns)
    qed (auto intro: moving.reaches_returns)
    then show ?thesis unfolding Some option.case by (rule reaches_pre) (use known in auto)
  qed
qed

subsection \<open>Approving, revoking, closing\<close>

lemma activateApprovedGrant_reaches:
  assumes "calm M env" "stable M P" "\<And>s. P s \<Longrightarrow> binds k g s"
  shows "reaches M P (activateApprovedGrant S (env n) approval k g now) (\<lambda>d s. P s \<and> binds k d s)"
proof -
  have ok: "reaches M P (thens (update_grant S (env n) k (\<lambda>d. gr_status d = G_Pending) (approve_grant now))
      (\<lambda>r. returns (case r of None \<Rightarrow> g | Some d \<Rightarrow> d))) (\<lambda>d s. P s \<and> binds k d s)"
  proof (rule moving.reaches_thens, rule update_grant_reaches [OF assms(1,2)])
    show "reaches M (\<lambda>s. P s \<and> (case r of None \<Rightarrow> True | Some g' \<Rightarrow> vg (fst s) k = Some g' \<and> (\<exists>g. gr_status g = G_Pending \<and> g' = approve_grant now g)))
        (returns (case r of None \<Rightarrow> g | Some d \<Rightarrow> d)) (\<lambda>d s. P s \<and> binds k d s)" for r
      by (rule moving.reaches_returns) (use assms(3) binds_read in \<open>auto split: option.splits\<close>)
  qed (auto intro: grant_step.approve)
  have no: "reaches M P (thens (update_grant S (env n) k (\<lambda>d. gr_status d = G_Pending)
      (status_set (if st = ''EXPIRED'' then G_Expired else G_Rejected))) (\<lambda>_. throws err)) (\<lambda>d s. P s \<and> binds k d s)" for st err
    by (rule moving.reaches_then_throws [OF update_grant_reaches [OF assms(1,2)]])
      (auto simp: open_grant_def intro: grant_step.expire grant_step.reject)
  show ?thesis
    unfolding activateApprovedGrant_def
    using ok no assms(3) by (auto intro!: reaches_if moving.reaches_throws moving.reaches_returns split: option.split simp del: prog_simps)
qed

lemma scopedGrant_reaches:
  assumes "calm M env" "stable M P"
  shows "reaches M P (scopedGrant S (env n) k sc) (\<lambda>g s. P s \<and> vg (fst s) k = Some g)"
  unfolding scopedGrant_def
proof (rule moving.reaches_thens, rule find_grant_reaches [OF assms])
  show "reaches M (\<lambda>s. P s \<and> (case r of None \<Rightarrow> True | Some g \<Rightarrow> in_scope sc g \<and> vg (fst s) k = Some g))
      (case r of None \<Rightarrow> throws (App_Error 404 ''INTER_AGENT_GRANT_NOT_FOUND'' '''') | Some g \<Rightarrow> returns g)
      (\<lambda>g s. P s \<and> vg (fst s) k = Some g)" for r
    by (cases r) (auto intro: moving.reaches_returns moving.reaches_throws simp del: prog_simps)
qed

text \<open>After a revocation the grant is revoked and none of its references can be used.\<close>

definition withdrawn :: "(delegation_reference \<Rightarrow> bool) \<Rightarrow> 'g \<times> 'v \<times> 'r \<Rightarrow> bool" where
  "withdrawn p s \<longleftrightarrow> (\<forall>t r. vr (snd (snd s)) t = Some r \<longrightarrow> p r \<longrightarrow> \<not> unused_reference r)"

definition revoked :: "string \<Rightarrow> 'g \<times> 'v \<times> 'r \<Rightarrow> bool" where
  "revoked k s \<longleftrightarrow> (\<exists>d. vg (fst s) k = Some d \<and> gr_status d = G_Revoked)"

lemma stable_revoked [stables]: "stable M (revoked k)"
  unfolding stable_def revoked_def
proof (intro allI impI)
  fix s s' assume "\<exists>d. vg (fst s) k = Some d \<and> gr_status d = G_Revoked" "M s s'"
  then show "\<exists>d. vg (fst s') k = Some d \<and> gr_status d = G_Revoked"
    using view_laterD(1) [OF moves_view, of s s' k]
    by (fastforce simp: delegation_view_of_def grant_later_def ended_def TERMINAL_GRANT_STATUSES_def)
qed

lemma invalidate_references_reaches:
  assumes "calm M env" "stable M P" "\<And>r. f (invalidate_set now r) = f r"
  shows "reaches M P (thens (update_references S (env n) (\<lambda>r. f r \<and> unused_reference r) (invalidate_set now)) (\<lambda>_. returns g))
      (\<lambda>x s. x = g \<and> P s \<and> withdrawn f s)"
proof (rule moving.reaches_thens, rule update_references_reaches [OF assms(1,2)])
  show "reaches M (\<lambda>s. P s \<and> (\<forall>t r'. vr (snd (snd s)) t = Some r' \<longrightarrow>
        (\<exists>r. r' = (if f r \<and> unused_reference r then invalidate_set now r else r)))) (returns g) (\<lambda>x s. x = g \<and> P s \<and> withdrawn f s)"
  proof (rule moving.reaches_returns)
    fix s assume s: "P s \<and> (\<forall>t r'. vr (snd (snd s)) t = Some r' \<longrightarrow>
      (\<exists>r. r' = (if f r \<and> unused_reference r then invalidate_set now r else r)))"
    have "\<not> unused_reference r'" if "r' = (if f r \<and> unused_reference r then invalidate_set now r else r)" "f r'" for r r'
      using that assms(3) [of r] by (cases "f r \<and> unused_reference r") (auto simp: invalidate_set_def unused_reference_def)
    with s show "g = g \<and> P s \<and> withdrawn f s" unfolding withdrawn_def by blast
  qed
qed (auto intro: reference_step.invalidate)

lemma revokeGrantRecord_reaches:
  assumes "calm M env" "stable M P"
  shows "reaches M P (revokeGrantRecord S env k sc code now) (\<lambda>_ s. (P s \<and> revoked k s) \<and> withdrawn (\<lambda>r. rf_grant r = k) s)"
proof -
  let ?R = "\<lambda>s. P s \<and> revoked k s"
  have st: "stable M ?R" by (intro stables assms)
  have last: "reaches M ?R (thens (update_references S (env 2) (\<lambda>r. rf_grant r = k \<and> unused_reference r) (invalidate_set now)) (\<lambda>_. returns g))
      (\<lambda>_ s. ?R s \<and> withdrawn (\<lambda>r. rf_grant r = k) s)" for g
    by (rule reaches_post [OF invalidate_references_reaches [OF assms(1) st]]) (auto simp: invalidate_set_def)
  have again: "reaches M P (thens (scopedGrant S (env 1) k sc) (\<lambda>g.
      if gr_status g \<noteq> G_Revoked then throws (App_Error 409 ''INTER_AGENT_GRANT_TERMINAL'' '''') else returns g)) (\<lambda>_. ?R)"
    by (rule moving.reaches_thens, rule scopedGrant_reaches [OF assms])
      (auto intro!: reaches_if moving.reaches_returns moving.reaches_throws simp: revoked_def simp del: prog_simps)
  show ?thesis
    unfolding revokeGrantRecord_def
  proof (rule moving.reaches_thens_checks, rule moving.reaches_thens, rule update_grant_reaches [OF assms], goal_cases)
    case (1 why g)
    then show ?case by (auto intro: grant_step.revoke)
  next
    case (2 why x)
    show ?case
    proof (rule moving.reaches_thens [where Q = "\<lambda>_. ?R"])
      show "reaches M (\<lambda>s. P s \<and> (case x of None \<Rightarrow> True | Some g' \<Rightarrow> vg (fst s) k = Some g'
           \<and> (\<exists>g. (in_scope sc g \<and> open_grant g) \<and> g' = revoke_set why (sc_actor sc) now g)))
         (case x of None \<Rightarrow> thens (scopedGrant S (env 1) k sc) (\<lambda>g.
            if gr_status g \<noteq> G_Revoked then throws (App_Error 409 ''INTER_AGENT_GRANT_TERMINAL'' '''') else returns g)
          | Some g \<Rightarrow> returns g) (\<lambda>_. ?R)"
      proof (cases x)
        case None
        show ?thesis unfolding None option.case by (rule reaches_pre [OF again]) simp
      next
        case (Some g)
        show ?thesis unfolding Some option.case by (rule moving.reaches_returns) (auto simp: revoked_def revoke_set_def)
      qed
    qed (rule last)
  qed
qed

lemma closeRunGrants_reaches:
  assumes "calm M env" "stable M P"
  shows "reaches M P (closeRunGrants S env run status sc now) (\<lambda>_ s. P s \<and> withdrawn (\<lambda>r. id_run (rf_identity r) = Some run) s)"
  unfolding closeRunGrants_def Let_def
proof (rule moving.reaches_thens, rule update_grants_reaches [OF assms], goal_cases)
  case (1 g)
  have "grant_step g (close_set False why actor now g)" for why actor
    using 1 grant_step.revoke by (simp add: close_set_def)
  with 1 grant_step.complete show ?case by (cases "status = ''completed''") auto
next
  case (2 closed)
  show ?case
    by (rule reaches_mono [OF invalidate_references_reaches [OF assms]]) (auto simp: invalidate_set_def)
qed

subsection \<open>References\<close>

definition issued :: "string \<Rightarrow> string \<Rightarrow> string \<times> string \<Rightarrow> 'g \<times> 'v \<times> 'r \<Rightarrow> bool" where
  "issued t k key s \<longleftrightarrow> (\<exists>r. vr (snd (snd s)) t = Some r \<and> rf_grant r = k \<and> rf_invocation r = key)"

lemma stable_issued [stables]: "stable M (issued t k key)"
  unfolding stable_def issued_def
  using view_laterD(3) [OF moves_view] by (fastforce simp: delegation_view_of_def reference_later_def)

lemma issueDelegationReference_reaches:
  assumes "calm M env" "stable M P" "\<And>s. P s \<Longrightarrow> binds k g s" "\<And>s. P s \<Longrightarrow> invoked (k, h) s"
  shows "reaches M P (issueDelegationReference e S (env n) k g (k, h) token now)
    (\<lambda>x s. x = token \<and> P s \<and> issued (reference_hash e token) k (k, h) s)"
  unfolding issueDelegationReference_def
proof (rule moving.reaches_thens, rule create_reference_reaches [OF assms(1,2), where g = g], goal_cases)
  case (5 created)
  show ?case
    by (cases created) (auto intro!: moving.reaches_returns moving.reaches_throws simp: issued_def simp del: prog_simps)
qed (auto simp: unused_reference_def assms(3,4))

lemma consumeDelegationReference_reaches:
  assumes "calm M env" "stable M P"
  shows "reaches M P (consumeDelegationReference e S (env n) token sc k key now)
    (\<lambda>r s. P s \<and> vr (snd (snd s)) (reference_hash e token) = Some r \<and> rf_consumed_at r \<noteq> None
      \<and> rf_grant r = k \<and> rf_invocation r = key \<and> now < rf_expires_at r)"
  unfolding consumeDelegationReference_def
proof (rule moving.reaches_thens, rule update_reference_reaches [OF assms], goal_cases)
  case (1 r)
  then show ?case by (auto simp: consumable_def intro: reference_step.consume)
next
  case (2 x)
  show ?case
    by (cases x) (auto intro!: moving.reaches_returns moving.reaches_throws simp: consume_set_def consumable_def simp del: prog_simps)
qed

subsection \<open>Creating\<close>

lemma requested_depth_range:
  "requested_depth input c = Inr depth \<Longrightarrow> 1 \<le> depth \<and> depth \<le> platformMaximumDelegationDepth \<and> depth \<le> ct_maximum_depth c"
  by (auto simp: requested_depth_def split: option.splits if_splits)

lemma requested_limit_range: "requested_limit input = Inr n \<Longrightarrow> 1 \<le> n \<and> n \<le> maximumInvocationLimit"
  by (auto simp: requested_limit_def split: option.splits if_splits)

lemma grant_payload_fields:
  assumes "grant_payload e A sc input c i depth parent path now = Inr g"
  shows "fresh_grant g \<and> gr_identity g = i \<and> gr_contract g = ct_id c \<and> gr_contract_version g = ct_version c
    \<and> gr_organization g = sc_organization sc \<and> gr_workspace g = sc_workspace sc
    \<and> gr_maximum_classification g = dc_maximum_classification (ct_data c) \<and> gr_classifications g = dc_classifications (ct_data c)
    \<and> gr_valid_from g = max now (ct_valid_from c) \<and> gr_expires_at g = requested_expiry input c now
    \<and> gr_depth g = depth \<and> gr_maximum_depth g = ct_maximum_depth c \<and> gr_further g = ct_further c \<and> gr_parent g = parent \<and> gr_path g = path
    \<and> (ct_require_approval c \<longrightarrow> gr_status g = G_Pending) \<and> (gr_status g = G_Pending \<longrightarrow> gr_approval g \<noteq> None)"
proof -
  from assms obtain limit ih oh approval where l: "requested_limit input = Inr limit"
    and a: "approvalForGrant A c (new_grant sc input c i depth parent path now limit ih oh) = Inr approval"
    and g: "g = (case approval of None \<Rightarrow> new_grant sc input c i depth parent path now limit ih oh
      | Some request \<Rightarrow> new_grant sc input c i depth parent path now limit ih oh\<lparr>gr_status := G_Pending, gr_approval := Some request\<rparr>)"
    unfolding grant_payload_def bindE_Inr_iff Let_def by auto
  show ?thesis
  proof (cases approval)
    case None
    from a have "\<not> ct_require_approval c" unfolding None approvalForGrant_def bindE_Inr_iff by (auto simp: bindE_Inr_iff split: if_splits)
    with g requested_limit_range [OF l] show ?thesis unfolding None by (simp add: new_grant_def fresh_grant_def open_grant_def)
  next
    case (Some request)
    with g requested_limit_range [OF l] show ?thesis by (simp add: new_grant_def fresh_grant_def open_grant_def)
  qed
qed

text \<open>Depth, parent and path of a new grant, as far as they depend on the grants that are stored.\<close>

definition descends ::
  "delegation_contract \<Rightarrow> delegation_identity \<Rightarrow> int \<Rightarrow> string option \<Rightarrow> string list \<Rightarrow> 'g \<times> 'v \<times> 'r \<Rightarrow> bool" where
  "descends c i depth parent path s \<longleftrightarrow>
     (\<forall>g. gr_identity g = i \<and> gr_depth g = depth \<and> gr_maximum_depth g = ct_maximum_depth c \<and> gr_further g = ct_further c
        \<and> gr_parent g = parent \<and> gr_path g = path \<longrightarrow> lineage (vg (fst s)) g)"

lemma stable_descends [stables]: "stable M (descends c i depth parent path)"
  unfolding stable_def descends_def
proof (intro allI impI)
  fix s s' and g :: grant
  assume d: "\<forall>g. gr_identity g = i \<and> gr_depth g = depth \<and> gr_maximum_depth g = ct_maximum_depth c \<and> gr_further g = ct_further c
        \<and> gr_parent g = parent \<and> gr_path g = path \<longrightarrow> lineage (vg (fst s)) g" and m: "M s s'"
    and g: "gr_identity g = i \<and> gr_depth g = depth \<and> gr_maximum_depth g = ct_maximum_depth c \<and> gr_further g = ct_further c
        \<and> gr_parent g = parent \<and> gr_path g = path"
  from d g have "lineage (vg (fst s)) g" by blast
  then show "lineage (vg (fst s')) g"
    by (rule lineage_later) (use view_laterD(1) [OF moves_view [OF m]] in \<open>auto simp: delegation_view_of_def\<close>)
qed

lemma child_descends:
  assumes "requested_depth input c = Inr depth" "ct_further c" "child_path (Some p) depth i = Inr path" "vg (fst s) k = Some p"
  shows "descends c i depth (Some k) path s"
  unfolding descends_def lineage_def
  using requested_depth_range [OF assms(1)] assms(2-4) by (auto simp: child_path_def Let_def split: if_splits)

lemma validateParentGrant_reaches:
  assumes "calm M env" "stable M P"
  shows "reaches M P (validateParentGrant S (env n) sc input c i) (\<lambda>(depth, parent, path) s. P s \<and> descends c i depth parent path s)"
  unfolding validateParentGrant_def
proof (rule moving.reaches_thens_checks, goal_cases)
  case (1 depth)
  show ?case
  proof (intro reaches_if moving.reaches_throws, goal_cases)
    case 1
    show ?case
      by (rule moving.reaches_returns)
        (use requested_depth_range [OF \<open>requested_depth input c = Inr depth\<close>] in \<open>auto simp: descends_def lineage_def\<close>)
  next
    case 2
    then obtain k where k: "gi_parent input = Some k" by (auto simp: present_def split: option.splits)
    show ?case
    proof (rule moving.reaches_thens, rule find_grant_reaches [OF assms], rule moving.reaches_thens_checks, goal_cases)
      case (1 parent path)
      then obtain p where "parent = Some p" by (auto simp: child_path_def split: option.splits)
      with 1 2 k child_descends [OF \<open>requested_depth input c = Inr depth\<close>, of p i path _ k] show ?case
        by (intro moving.reaches_returns) (auto simp: text_of_def)
    qed
  qed
qed

lemma createGrantRecord_reaches:
  assumes "calm M env" "stable M P"
  shows "reaches M P (createGrantRecord e A dir S env sc input new now) (\<lambda>(k, g) s. P s \<and> vg (fst s) k = Some g)"
  unfolding createGrantRecord_def
proof (rule moving.reaches_thens_checks, clarsimp simp only: split_paired_all prod.case, rule moving.reaches_thens,
    rule validateParentGrant_reaches [OF assms], clarsimp simp only: split_paired_all prod.case, rule moving.reaches_thens_checks, goal_cases)
  case (1 c i depth parent path g)
  note g = grant_payload_fields [OF 1(2)]
  have st: "stable M (\<lambda>s. P s \<and> descends c i depth parent path s)" by (intro stables assms)
  show ?case
  proof (rule moving.reaches_thens, rule create_grant_reaches [OF assms(1) st], goal_cases)
    case (1 s)
    with g show ?case by (auto simp: descends_def)
  next
    case 2
    from g show ?case by blast
  next
    case (3 created)
    show ?case
    proof (rule reaches_if)
      show "reaches M (\<lambda>s. (P s \<and> descends c i depth parent path s) \<and> (created \<longrightarrow> vg (fst s) new = Some g)) (returns (new, g))
          (\<lambda>(k, g) s. P s \<and> vg (fst s) k = Some g)" if created
        by (rule moving.reaches_returns) (use that in auto)
    next
      show "reaches M (\<lambda>s. (P s \<and> descends c i depth parent path s) \<and> (created \<longrightarrow> vg (fst s) new = Some g))
          (thens (find_grant_where S (env 2) (\<lambda>d. id_run (gr_identity d) = id_run i \<and> id_source_node (gr_identity d) = id_source_node i
                  \<and> id_target_node (gr_identity d) = id_target_node i \<and> gr_contract d = ct_id c)) (\<lambda>found.
          case found of None \<Rightarrow> throws (Database_Error ''E11000'') | Some kd \<Rightarrow> returns kd))
          (\<lambda>(k, g) s. P s \<and> vg (fst s) k = Some g)"
      proof (rule moving.reaches_thens, rule reaches_pre [OF find_grant_where_reaches [OF assms]], blast)
        show "reaches M (\<lambda>s. P s \<and> (case found of None \<Rightarrow> True | Some (k, g) \<Rightarrow> (id_run (gr_identity g) = id_run i
              \<and> id_source_node (gr_identity g) = id_source_node i \<and> id_target_node (gr_identity g) = id_target_node i \<and> gr_contract g = ct_id c)
              \<and> vg (fst s) k = Some g))
            (case found of None \<Rightarrow> throws (Database_Error ''E11000'') | Some kd \<Rightarrow> returns kd) (\<lambda>(k, g) s. P s \<and> vg (fst s) k = Some g)" for found
          by (cases found) (auto intro!: moving.reaches_returns moving.reaches_throws simp del: prog_simps)
      qed
    qed
  qed
qed

subsection \<open>Preparing and executing\<close>

lemma create_invocation_reaches:
  assumes "calm M env" "stable M P" "\<And>s. P s \<Longrightarrow> invocation_ok (vg (fst s)) (k, h) d" "dn_status d = D_Prepared"
  shows "reaches M P (create_invocation S env n (k, h) d) (\<lambda>_ s. P s \<and> invoked (k, h) s)"
  unfolding create_invocation_def
proof (rule moving.reaches_thens, rule create_delegated_reaches [OF assms(1,2)], erule assms(3), rule assms(4), rule reaches_if, goal_cases)
  case (1 created)
  then show ?case by (auto intro: moving.reaches_returns simp del: prog_simps)
next
  case (2 created)
  show ?case
  proof (rule moving.reaches_thens, rule reaches_pre [OF find_delegated_reaches [OF assms(1,2)]], blast)
    show "reaches M (\<lambda>s. P s \<and> (found \<noteq> None \<longrightarrow> invoked (k, h) s))
        (case found of None \<Rightarrow> throws (Database_Error ''E11000'') | Some w \<Rightarrow> returns w) (\<lambda>_ s. P s \<and> invoked (k, h) s)" for found
      by (cases found) (auto intro!: moving.reaches_returns moving.reaches_throws simp del: prog_simps)
  qed
qed

lemma reservation_invocation_ok:
  "binds k g s \<Longrightarrow> holds_reservation h g \<Longrightarrow> dn_ordinal v = gr_count g \<Longrightarrow> invocation_ok (vg (fst s)) (k, h) v"
  by (auto simp: binds_def holds_reservation_def invocation_ok_def same_binding_def)

lemma reserved_invocation_reaches:
  assumes "calm M env" "stable M P" "\<And>s. P s \<Longrightarrow> okay s" "\<And>s. P s \<Longrightarrow> binds k g s"
    and "\<And>s. P s \<Longrightarrow> existing \<noteq> None \<Longrightarrow> invoked (k, h) s"
  shows "reaches M P (reserved_invocation S env n k h g sc d now existing) (\<lambda>(g', _, _) s. P s \<and> binds k g' s \<and> invoked (k, h) s)"
proof (cases existing)
  case (Some v)
  show ?thesis unfolding reserved_invocation_def Some option.case
    by (rule moving.reaches_returns) (use assms(4,5) Some in auto)
next
  case None
  show ?thesis unfolding reserved_invocation_def None option.case
  proof (rule moving.reaches_thens, rule reserveGrantInvocation_reaches [OF assms(1,2)], erule assms(3), rule reaches_pair, goal_cases)
    case (1 x g' replayed)
    have st: "stable M (\<lambda>s. P s \<and> binds k g' s \<and> holds_reservation h g')" by (intro stables assms(2))
    show ?case
      by (rule moving.reaches_thens, rule create_invocation_reaches [OF assms(1) st], rule reservation_invocation_ok)
        (auto simp: new_delegated_invocation_def intro!: moving.reaches_returns simp del: prog_simps)
  qed
qed

text \<open>What a preparation has established.\<close>

definition prepared_by ::
  "data_env \<Rightarrow> (json \<Rightarrow> (json \<Rightarrow> bool) option) \<Rightarrow> delegation_checks \<Rightarrow> directory \<Rightarrow> delegation_scope \<Rightarrow> prepare_input \<Rightarrow> string \<Rightarrow> int \<Rightarrow>
   prepared_delegation \<Rightarrow> 'g \<times> 'v \<times> 'r \<Rightarrow> bool" where
  "prepared_by e ajv checked dir sc input token now p s \<longleftrightarrow>
     okay s \<and> pd_reference p = token \<and> invoked (pd_key p) s
     \<and> issued (reference_hash e token) (pi_grant input) (pd_key p) s \<and> binds (pi_grant input) (pd_grant p) s
     \<and> (\<exists>g replay. binds (pi_grant input) g s \<and> pd_key p = (pi_grant input, invocation_hash e input g)
          \<and> assert_usable input replay g now = Inr () \<and> delegated_data_of e ajv checked dir sc input g = Inr (pd_data p))"

lemma stable_prepared_by [stables]: "stable M (prepared_by e ajv checked dir sc input token now p)"
  unfolding prepared_by_def stable_def
  using stableD [OF stable_okay] stableD [OF stable_invoked] stableD [OF stable_issued] stableD [OF stable_binds] by blast

lemma invocation_hash_binding: "same_binding g g' \<Longrightarrow> invocation_hash e input g' = invocation_hash e input g"
  by (simp add: invocation_hash_def same_binding_def)

lemma binds_hash: "binds k g s \<Longrightarrow> binds k g' s \<Longrightarrow> invocation_hash e input g' = invocation_hash e input g"
  by (auto simp: binds_def dest!: invocation_hash_binding [of _ _ e input])

lemma prepareDelegatedInvocation_reaches:
  assumes env: "calm M env"
  shows "reaches M okay (prepareDelegatedInvocation e ajv checked dir approval S env sc input token now)
    (prepared_by e ajv checked dir sc input token now)"
proof -
  let ?k = "pi_grant input"
  show ?thesis
    unfolding prepareDelegatedInvocation_def Let_def
  proof (rule moving.reaches_thens, rule scopedGrant_reaches [OF env stable_okay], goal_cases)
    case (1 found)
    let ?h = "invocation_hash e input found"
    let ?P1 = "\<lambda>s. okay s \<and> binds ?k found s"
    have st1: "stable M ?P1" by (intro stables)
    show ?case
    proof (rule moving.reaches_thens, rule reaches_pre [OF find_delegated_reaches [OF env st1]], goal_cases)
      case (1 s)
      then show ?case using binds_read by blast
    next
      case (2 existing)
      let ?P2 = "\<lambda>s. ?P1 s \<and> (existing \<noteq> None \<longrightarrow> invoked (?k, ?h) s)"
      have st2: "stable M ?P2" by (intro stables)
      show ?case
      proof (rule moving.reaches_thens_checks, rule moving.reaches_thens, rule activateApprovedGrant_reaches [OF env st2],
          blast, goal_cases)
        case (1 u g)
        let ?P3 = "\<lambda>s. ?P2 s \<and> binds ?k g s"
        have st3: "stable M ?P3" by (intro stables)
        show ?case
        proof (rule moving.reaches_thens_checks, rule moving.reaches_thens_checks, rule moving.reaches_thens,
            rule reserved_invocation_reaches [OF env st3], blast, blast, blast, rule reaches_pair, rule reaches_pair, goal_cases)
          case (1 w d x g' y replayed v)
          let ?P4 = "\<lambda>s. ?P3 s \<and> binds ?k g' s \<and> invoked (?k, ?h) s"
          have st4: "stable M ?P4" by (intro stables)
          show ?case
          proof (rule moving.reaches_thens, rule issueDelegationReference_reaches [OF env st4], blast, blast, rule moving.reaches_returns)
            fix reference s
            assume s: "reference = token \<and> ?P4 s \<and> issued (reference_hash e token) ?k (?k, ?h) s"
            then have "?h = invocation_hash e input g" using binds_hash by blast
            with s 1 show "prepared_by e ajv checked dir sc input token now
                \<lparr>pd_grant = g', pd_key = (?k, ?h), pd_invocation = v, pd_data = d, pd_reference = reference,
                 pd_replayed = (existing \<noteq> None \<or> replayed)\<rparr> s"
              unfolding prepared_by_def by auto
          qed
        qed
      qed
    qed
  qed
qed

lemma failDelegatedInvocation_reaches:
  assumes "calm M env" "stable M P"
  shows "reaches M P (failDelegatedInvocation S (env n) retryable key err sc now) (\<lambda>_. P)"
  unfolding failDelegatedInvocation_def
  by (rule reaches_post [OF update_delegated_reaches [OF assms]]) (auto intro: delegated_step.fail)

lemma completeDelegatedInvocation_reaches:
  assumes "calm M env" "stable M P"
  shows "reaches M P (completeDelegatedInvocation e ajv checked S (env n) p answer nodeSchema now) (\<lambda>_. P)"
  unfolding completeDelegatedInvocation_def
  by (rule moving.reaches_thens_checks, rule moving.reaches_thens_checks, rule moving.reaches_thens,
      rule update_delegated_reaches [OF assms]) (auto intro: delegated_step.succeed moving.reaches_returns)

lemma invoke_prepared_reaches:
  assumes env: "calm M env" and st: "stable M P"
  shows "reaches M P (invoke_prepared e ajv checked gateway S env sc nodeSchema now p) (\<lambda>_. P)"
proof -
  have consume: "reaches M P (consumeDelegationReference e S (env n) token sc k key now) (\<lambda>_. P)" for n token k key
    by (rule reaches_post [OF consumeDelegationReference_reaches [OF env st]]) blast
  have start: "reaches M P (update_delegated S (env n) key (\<lambda>v. dn_status v \<in> {D_Prepared, D_Failed}) (start_invoking now)) (\<lambda>_. P)" for n key
    by (rule reaches_post [OF update_delegated_reaches [OF env st]]) (auto intro: delegated_step.start)
  have complete: "reaches M P (thens (completeDelegatedInvocation e ajv checked S (env n) p answer nodeSchema now)
      (\<lambda>(processed, v). returns (f processed v))) (\<lambda>_. P)" for n answer and f :: "processed_output \<Rightarrow> delegated_invocation \<Rightarrow> delegation_result"
    by (rule moving.reaches_thens [OF completeDelegatedInvocation_reaches [OF env st]]) (auto intro: moving.reaches_returns split: prod.split simp del: prog_simps)
  show ?thesis
    unfolding invoke_prepared_def
    by (intro moving.reaches_thens [OF consume] moving.reaches_thens [OF start] moving.reaches_thens_checks complete)
qed

lemma executeDelegatedInvocation_reaches:
  assumes env: "calm M env"
  shows "reaches M okay (executeDelegatedInvocation e ajv checked dir approval retryable gateway S env sc input nodeSchema token now) (\<lambda>_. okay)"
  unfolding executeDelegatedInvocation_def
proof (rule moving.reaches_thens, rule prepareDelegatedInvocation_reaches [OF env], goal_cases)
  case (1 p)
  show ?case
  proof (rule reaches_pre, rule moving.reaches_catches [OF invoke_prepared_reaches [OF env stable_okay] stable_okay])
    show "reaches M okay (thens (failDelegatedInvocation S (env 12) retryable (pd_key p) err sc now) (\<lambda>_. throws err)) (\<lambda>_. okay)" for err
      by (rule moving.reaches_then_throws [OF failDelegatedInvocation_reaches [OF env stable_okay]])
  qed (auto simp: prepared_by_def)
qed

end

end
