(* ===== verification/Delegation_Guarantees.thy ===== *)
theory Delegation_Guarantees
  imports Delegation_Programs Delegated_Safety Document_Store
begin

text \<open>
  The guarantees of delegation over every run of its operations. \<open>delegation_call\<close> is one call of any operation on the three
  collections, held as lists, with any arguments and any interference by steps between its own calls.
\<close>

subsection \<open>Calls and runs\<close>

type_synonym delegation_lists =
  "(string \<times> grant) list \<times> ((string \<times> string) \<times> delegated_invocation) list \<times> (string \<times> delegation_reference) list"

definition list_db ::
  "((string \<times> grant) list, ((string \<times> string) \<times> delegated_invocation) list, (string \<times> delegation_reference) list) delegation_db" where
  "list_db = \<lparr>db_grants = alist_store same_edge, db_invocations = alist_store same_ordinal, db_references = alist_store no_clash\<rparr>"

interpretation lists: delegations list_db map_of map_of map_of
  unfolding delegations_def by (simp add: list_db_def alist_collection.indexed_store_axioms)

abbreviation view_lists :: "delegation_lists \<Rightarrow> delegation_view" where
  "view_lists \<equiv> delegation_view_of map_of map_of map_of"

abbreviation list_moves :: "delegation_lists \<Rightarrow> delegation_lists \<Rightarrow> bool" where
  "list_moves \<equiv> state_moves map_of map_of map_of"

inductive delegation_call :: "delegation_lists \<Rightarrow> delegation_lists \<Rightarrow> bool" where
  call_create: "calm list_moves env \<Longrightarrow> createGrantRecord e A dir list_db env sc gi new now s = (r, s') \<Longrightarrow> delegation_call s s'"
| call_activate: "calm list_moves env \<Longrightarrow> thens (scopedGrant list_db (env 0) k sc)
     (\<lambda>g. activateApprovedGrant list_db (env 1) approval k g now) s = (r, s') \<Longrightarrow> delegation_call s s'"
| call_reserve: "calm list_moves env \<Longrightarrow> reserveGrantInvocation list_db env n k g h sc now s = (r', s') \<Longrightarrow> delegation_call s s'"
| call_revoke: "calm list_moves env \<Longrightarrow> revokeGrantRecord list_db env k sc code now s = (r, s') \<Longrightarrow> delegation_call s s'"
| call_close: "calm list_moves env \<Longrightarrow> closeRunGrants list_db env run status sc now s = (r'', s') \<Longrightarrow> delegation_call s s'"
| call_consume: "calm list_moves env \<Longrightarrow> consumeDelegationReference e list_db (env n) token sc k key now s = (x, s') \<Longrightarrow> delegation_call s s'"
| call_prepare: "calm list_moves env \<Longrightarrow> prepareDelegatedInvocation e ajv checked dir approval list_db env sc input token now s = (p, s') \<Longrightarrow>
     delegation_call s s'"
| call_execute: "calm list_moves env \<Longrightarrow>
     executeDelegatedInvocation e ajv checked dir approval retryable gateway list_db env sc input nodeSchema token now s = (q, s') \<Longrightarrow>
     delegation_call s s'"
| call_complete: "calm list_moves env \<Longrightarrow> completeDelegatedInvocation e ajv checked list_db (env n) pd answer nodeSchema now s = (z, s') \<Longrightarrow>
     delegation_call s s'"
| call_fail: "calm list_moves env \<Longrightarrow> failDelegatedInvocation list_db (env n) retryable key err sc now s = (w, s') \<Longrightarrow> delegation_call s s'"

lemmas true_stable = stable_const [of _ True]

lemma delegation_call_moves:
  assumes "delegation_call s s'" "delegation_ok (view_lists s)"
  shows "list_moves s s'"
  using assms
proof (induction rule: delegation_call.induct)
  case (call_create env e A dir sc gi new now s r s')
  show ?case by (rule reachesD(1) [OF lists.createGrantRecord_reaches [OF call_create(1) true_stable] _ call_create(2)]) simp
next
  case (call_activate env k sc approval now s r s')
  have st: "stable list_moves (\<lambda>s. True \<and> lists.binds k g s)" for g by (intro stables)
  have "reaches list_moves (\<lambda>_. True) (thens (scopedGrant list_db (env 0) k sc) (\<lambda>g. activateApprovedGrant list_db (env 1) approval k g now)) (\<lambda>_ _. True)"
    by (rule lists.moving.reaches_thens [OF lists.scopedGrant_reaches [OF call_activate(1) true_stable]],
        rule reaches_mono [OF lists.activateApprovedGrant_reaches [OF call_activate(1) st]]) (auto intro: lists.binds_read)
  from reachesD(1) [OF this _ call_activate(2)] show ?case by simp
next
  case (call_reserve env n k g h sc now s r' s')
  show ?case
    by (rule reachesD(1) [OF lists.reserveGrantInvocation_reaches [OF call_reserve(1) lists.stable_okay] call_reserve(3,2)])
next
  case (call_revoke env k sc code now s r s')
  show ?case by (rule reachesD(1) [OF lists.revokeGrantRecord_reaches [OF call_revoke(1) true_stable] _ call_revoke(2)]) simp
next
  case (call_close env run status sc now s r'' s')
  show ?case by (rule reachesD(1) [OF lists.closeRunGrants_reaches [OF call_close(1) true_stable] _ call_close(2)]) simp
next
  case (call_consume env e n token sc k key now s x s')
  show ?case by (rule reachesD(1) [OF lists.consumeDelegationReference_reaches [OF call_consume(1) true_stable] _ call_consume(2)]) simp
next
  case (call_prepare env e ajv checked dir approval sc input token now s p s')
  show ?case by (rule reachesD(1) [OF lists.prepareDelegatedInvocation_reaches [OF call_prepare(1)] call_prepare(3,2)])
next
  case (call_execute env e ajv checked dir approval retryable gateway sc input nodeSchema token now s q s')
  show ?case by (rule reachesD(1) [OF lists.executeDelegatedInvocation_reaches [OF call_execute(1)] call_execute(3,2)])
next
  case (call_complete env e ajv checked n pd answer nodeSchema now s z s')
  show ?case by (rule reachesD(1) [OF lists.completeDelegatedInvocation_reaches [OF call_complete(1) true_stable] _ call_complete(2)]) simp
next
  case (call_fail env n retryable key err sc now s w s')
  show ?case by (rule reachesD(1) [OF lists.failDelegatedInvocation_reaches [OF call_fail(1) true_stable] _ call_fail(2)]) simp
qed

abbreviation delegation_run :: "delegation_lists \<Rightarrow> delegation_lists \<Rightarrow> bool" where
  "delegation_run \<equiv> delegation_call\<^sup>*\<^sup>*"

lemma run_moves: "delegation_run s s' \<Longrightarrow> delegation_ok (view_lists s) \<Longrightarrow> list_moves s s'"
proof (induction rule: rtranclp_induct)
  case (step s1 s2)
  then have m: "list_moves s s1" by blast
  show ?case
    using lists.moving.moves_trans [OF m delegation_call_moves [OF step.hyps(2) stableD [OF lists.stable_okay step.prems m]]] .
qed (rule lists.moving.moves_refl)

lemma run_ok: "delegation_run s s' \<Longrightarrow> delegation_ok (view_lists s) \<Longrightarrow> delegation_ok (view_lists s')"
  using stableD [OF lists.stable_okay _ run_moves] by blast

lemma run_grant:
  assumes "delegation_run s s'" "delegation_ok (view_lists s)" "map_of (fst s) k = Some g"
  obtains g' where "map_of (fst s') k = Some g'" "grant_later g g'"
  using view_laterD(1) [OF lists.moves_view [OF run_moves [OF assms(1,2)]]] assms(3) by (auto simp: delegation_view_of_def)

lemma empty_lists_ok [simp]: "delegation_ok (view_lists ([], [], []))"
  by (simp add: delegation_ok_def delegation_view_of_def ordinals_differ_def)

subsection \<open>Limits\<close>

text \<open>C9: every run of the service keeps the invariant of the three collections, and with it a grant never stands for more invocations
  than its limit, each of them under an idempotency hash and an ordinal of its own.\<close>

theorem delegations_stay_within_their_limits:
  assumes "delegation_run s s'" "delegation_ok (view_lists s)" "map_of (fst s') k = Some g"
  shows "delegation_ok (view_lists s')
    \<and> {h. map_of (fst (snd s')) (k, h) \<noteq> None} \<subseteq> set (gr_hashes g)
    \<and> int (card {h. map_of (fst (snd s')) (k, h) \<noteq> None}) \<le> gr_count g \<and> gr_count g \<le> gr_limit g \<and> gr_limit g \<le> 1000"
proof -
  have ok: "delegation_ok (map_of (fst s'), map_of (fst (snd s')), map_of (snd (snd s')))"
    using run_ok [OF assms(1,2)] by (simp add: delegation_view_of_def)
  have g: "grant_ok g" using delegation_okD(1) [OF ok assms(3)] .
  have sub: "{h. map_of (fst (snd s')) (k, h) \<noteq> None} \<subseteq> set (gr_hashes g)"
    using delegation_okD(3) [OF ok, of "(k, _)"] assms(3) by (force simp: invocation_ok_def)
  then have "card {h. map_of (fst (snd s')) (k, h) \<noteq> None} \<le> length (gr_hashes g)"
    by (meson card_length card_mono finite_set le_trans)
  with g sub run_ok [OF assms(1,2)] show ?thesis by (simp add: grant_ok_def maximumInvocationLimit_def)
qed

subsection \<open>Ended grants\<close>

lemma prepared_reserved:
  assumes "calm list_moves env" "delegation_ok (view_lists s)"
    and "prepareDelegatedInvocation e ajv checked dir approval list_db env sc input token now s = (Inr p, s')"
  obtains g where "map_of (fst s') (pi_grant input) = Some g" "pd_key p = (pi_grant input, invocation_hash e input g)"
    "invocation_hash e input g \<in> set (gr_hashes g)"
proof -
  from reachesD [OF lists.prepareDelegatedInvocation_reaches [OF assms(1)] assms(2,3)]
  have p: "lists.prepared_by e ajv checked dir sc input token now p s'" by blast
  then obtain g0 where ok: "delegation_ok (view_lists s')" and i: "lists.invoked (pd_key p) s'" and b: "lists.binds (pi_grant input) g0 s'"
    and key: "pd_key p = (pi_grant input, invocation_hash e input g0)"
    unfolding lists.prepared_by_def by blast
  from b obtain g where g: "map_of (fst s') (pi_grant input) = Some g" "invocation_hash e input g = invocation_hash e input g0"
    using lists.invocation_hash_binding by (auto simp: lists.binds_def)
  from i obtain v where "map_of (fst (snd s')) (pd_key p) = Some v" by (auto simp: lists.invoked_def)
  with delegation_okD(3) [of "map_of (fst s')" "map_of (fst (snd s'))" "map_of (snd (snd s'))" "pd_key p" v] ok key g
  have "invocation_hash e input g \<in> set (gr_hashes g)" by (auto simp: delegation_view_of_def invocation_ok_def)
  with g key show thesis by (intro that [of g]) simp_all
qed

text \<open>C11: once a grant has ended, by revocation, expiry, exhaustion, completion or rejection, it stays so, and no invocation is prepared
  under it that had not been reserved before.\<close>

theorem ended_grant_admits_nothing_new:
  assumes "delegation_ok (view_lists s)" "map_of (fst s) k = Some g" "gr_status g \<in> set TERMINAL_GRANT_STATUSES"
    and "delegation_run s s1" "calm list_moves env" "pi_grant input = k" "invocation_hash e input g \<notin> set (gr_hashes g)"
    and "prepareDelegatedInvocation e ajv checked dir approval list_db env sc input token now s1 = (r, s2)"
  shows "(\<exists>err. r = Inl err) \<and> map_of (fst (snd s2)) (k, invocation_hash e input g) = None
    \<and> (\<exists>g'. map_of (fst s2) k = Some g' \<and> gr_status g' = gr_status g \<and> gr_hashes g' = gr_hashes g)"
proof -
  have ok1: "delegation_ok (view_lists s1)" using run_ok [OF assms(4,1)] .
  have m2: "list_moves s1 s2" using reachesD(1) [OF lists.prepareDelegatedInvocation_reaches [OF assms(5)] ok1 assms(8)] .
  have ok2: "delegation_ok (map_of (fst s2), map_of (fst (snd s2)), map_of (snd (snd s2)))"
    using stableD [OF lists.stable_okay ok1 m2] by (simp add: delegation_view_of_def)
  obtain g1 where g1: "map_of (fst s1) k = Some g1" "grant_later g g1" by (rule run_grant [OF assms(4,1,2)])
  then obtain g2 where g2: "map_of (fst s2) k = Some g2" "grant_later g1 g2"
    using view_laterD(1) [OF lists.moves_view [OF m2]] by (fastforce simp: delegation_view_of_def)
  have l: "grant_later g g2" using grant_later_trans [OF g1(2) g2(2)] .
  then have same: "gr_status g2 = gr_status g" "gr_hashes g2 = gr_hashes g" "invocation_hash e input g2 = invocation_hash e input g"
    using assms(3) lists.invocation_hash_binding by (auto simp: grant_later_def ended_def)
  have "map_of (fst (snd s2)) (k, invocation_hash e input g) = None"
    using delegation_okD(3) [OF ok2, of "(k, invocation_hash e input g)"] g2(1) same assms(7)
    by (cases "map_of (fst (snd s2)) (k, invocation_hash e input g)") (auto simp: invocation_ok_def)
  moreover have "\<exists>err. r = Inl err"
  proof (cases r)
    case (Inr p)
    with assms(8) prepared_reserved [OF assms(5) ok1] obtain g' where "map_of (fst s2) k = Some g'" "invocation_hash e input g' \<in> set (gr_hashes g')"
      using assms(6) by metis
    with g2(1) same assms(7) show ?thesis by simp
  qed simp
  ultimately show ?thesis using g2(1) same by blast
qed

subsection \<open>References\<close>

lemma used_reference_refused:
  assumes "calm list_moves env" "delegation_ok (view_lists s)" "map_of (snd (snd s)) (reference_hash e token) = Some r" "\<not> unused_reference r"
  shows "fst (consumeDelegationReference e list_db (env n) token sc k key now s) = Inl (App_Error 403 ''INTER_AGENT_REFERENCE_INVALID'' '''')"
proof -
  obtain r' where r': "map_of (snd (snd (env n s))) (reference_hash e token) = Some r'" "reference_later r r'"
    using view_laterD(3) [OF lists.moves_view [OF calmD [OF assms(1)]]] assms(3) by (fastforce simp: delegation_view_of_def)
  then have "\<not> consumable sc k key now r'" using assms(4) by (auto simp: reference_later_def consumable_def)
  with r'(1) have "ix_update (db_references list_db) (reference_hash e token) (consumable sc k key now) (consume_set now) (snd (snd (env n s)))
      = (None, snd (snd (env n s)))"
    by (intro lists.r.update_miss) simp
  then show ?thesis by (simp add: consumeDelegationReference_def update_reference_def Let_def thens_def)
qed

lemma run_reference:
  assumes "list_moves s s'" "map_of (snd (snd s)) t = Some r" "\<not> unused_reference r"
  shows "map_of (snd (snd s')) t = Some r"
  using view_laterD(3) [OF lists.moves_view [OF assms(1)]] assms(2,3) by (fastforce simp: delegation_view_of_def reference_later_def)

text \<open>C12: a reference is consumed once. After it has been consumed no run of the service lets it be consumed again, by whomever, for
  whatever grant and invocation.\<close>

theorem reference_is_consumed_once:
  assumes "delegation_ok (view_lists s)" "calm list_moves env" "delegation_run s1 s2" "calm list_moves env'"
    and "consumeDelegationReference e list_db (env n) token sc k key now s = (Inr r, s1)"
  shows "rf_grant r = k \<and> rf_invocation r = key \<and> now < rf_expires_at r
    \<and> fst (consumeDelegationReference e list_db (env' n') token sc' k' key' now' s2) = Inl (App_Error 403 ''INTER_AGENT_REFERENCE_INVALID'' '''')"
proof -
  note c = reachesD [OF lists.consumeDelegationReference_reaches [OF assms(2) lists.stable_okay] assms(1,5)]
  have ok1: "delegation_ok (view_lists s1)" using stableD [OF lists.stable_okay assms(1) c(1)] .
  have r: "map_of (snd (snd s1)) (reference_hash e token) = Some r" "\<not> unused_reference r"
    using c(2) by (auto simp: unused_reference_def)
  have bound: "rf_grant r = k \<and> rf_invocation r = key \<and> now < rf_expires_at r" using c(2) by blast
  show ?thesis
    using bound used_reference_refused [OF assms(4) run_ok [OF assms(3) ok1] run_reference [OF run_moves [OF assms(3) ok1] r] r(2)] by blast
qed

text \<open>C13: revoking a grant is final and withdraws the references that were issued under it: none of them is consumed in any run after
  the revocation.\<close>

theorem revocation_withdraws_references:
  assumes "delegation_ok (view_lists s)" "calm list_moves env" "revokeGrantRecord list_db env k sc code now s = (Inr g, s1)"
    and "delegation_run s1 s2" "calm list_moves env'" "map_of (snd (snd s1)) (reference_hash e token) = Some r" "rf_grant r = k"
  shows "(\<exists>g'. map_of (fst s2) k = Some g' \<and> gr_status g' = G_Revoked)
    \<and> fst (consumeDelegationReference e list_db (env' n) token sc' k' key now' s2) = Inl (App_Error 403 ''INTER_AGENT_REFERENCE_INVALID'' '''')"
proof -
  note c = reachesD [OF lists.revokeGrantRecord_reaches [OF assms(2) lists.stable_okay] assms(1,3)]
  have ok1: "delegation_ok (view_lists s1)" and rv: "lists.revoked k s1" and "lists.withdrawn (\<lambda>r. rf_grant r = k) s1" using c(2) by blast+
  then have r: "\<not> unused_reference r" using assms(6,7) by (auto simp: lists.withdrawn_def)
  note m = run_moves [OF assms(4) ok1]
  from stableD [OF lists.stable_revoked rv m]
    used_reference_refused [OF assms(5) run_ok [OF assms(4) ok1] run_reference [OF m assms(6) r] r]
  show ?thesis by (simp add: lists.revoked_def)
qed

subsection \<open>States\<close>

text \<open>One change of the status of a grant: along its table, or the completion of a pending grant, which the table does not
  have and \<open>closeRunGrants\<close> makes when the run of the grant completes.\<close>

definition grant_change :: "grant_status \<Rightarrow> grant_status \<Rightarrow> bool" where
  "grant_change a b \<longleftrightarrow> b \<in> set (GRANT_TRANSITIONS a) \<or> a = G_Pending \<and> b = G_Completed"

fun grant_changes :: "grant_status \<Rightarrow> grant_status list \<Rightarrow> bool" where
  "grant_changes a [] = True"
| "grant_changes a (b # bs) = (grant_change a b \<and> grant_changes b bs)"

lemma grant_changes_append: "grant_changes a bs \<Longrightarrow> grant_change (last (a # bs)) b \<Longrightarrow> grant_changes a (bs @ [b])"
  by (induction bs arbitrary: a) auto

lemma grant_step_change: "grant_step g g' \<Longrightarrow> gr_status g' = gr_status g \<or> grant_change (gr_status g) (gr_status g')"
  by (elim grant_stepE) (auto simp: grant_set_defs grant_change_def)

lemma grant_step_open: "grant_step g g' \<Longrightarrow> open_grant g"
  by (elim grant_stepE) (simp_all add: open_grant_def)

lemma moves_grant_steps:
  assumes "delegation_moves s s'" "fst s k = Some g"
  shows "\<exists>g'. fst s' k = Some g' \<and> grant_step\<^sup>*\<^sup>* g g'"
  using assms(1)
proof (induction rule: rtranclp_induct)
  case base
  with assms(2) show ?case by blast
next
  case (step y z)
  then obtain g1 where g1: "fst y k = Some g1" "grant_step\<^sup>*\<^sup>* g g1" by blast
  have "\<exists>g2. fst z k = Some g2 \<and> grant_step\<^sup>=\<^sup>= g1 g2"
    using step.hyps(2) g1(1) documents_step_Some by (cases rule: delegation_step.cases) (auto, force)
  with g1(2) show ?case by (auto intro: rtranclp.rtrancl_into_rtrancl)
qed

lemma grant_steps_changes:
  "grant_step\<^sup>*\<^sup>* g g' \<Longrightarrow> \<exists>bs. grant_changes (gr_status g) bs \<and> last (gr_status g # bs) = gr_status g'"
proof (induction rule: rtranclp_induct)
  case base
  show ?case by (rule exI [of _ "[]"]) simp
next
  case (step y z)
  then obtain bs where "grant_changes (gr_status g) bs" "last (gr_status g # bs) = gr_status y" by blast
  with grant_step_change [OF step.hyps(2)] show ?case
    by (metis grant_changes_append last_snoc append_Cons)
qed

lemma grant_steps_ended: "grant_step\<^sup>*\<^sup>* g g' \<Longrightarrow> \<not> open_grant g \<Longrightarrow> g' = g"
  by (erule converse_rtranclpE) (auto dest: grant_step_open)

text \<open>C15: over any run the status of a grant changes one by one along the transitions of its table, or from pending to completed,
  which is not in the table but is what the completion of a run does to its pending grants; a grant that is exhausted,
  expired, revoked, completed or rejected is not changed again at all, and an invocation that has succeeded keeps its outcome.\<close>

theorem delegation_statuses_are_final:
  assumes "delegation_run s s'" "delegation_ok (view_lists s)" "map_of (fst s) k = Some g" "map_of (fst (snd s)) key = Some v"
  shows "(\<exists>g' bs. map_of (fst s') k = Some g' \<and> grant_changes (gr_status g) bs \<and> last (gr_status g # bs) = gr_status g'
      \<and> (gr_status g \<in> {G_Exhausted, G_Expired, G_Revoked, G_Completed, G_Rejected} \<longrightarrow> g' = g))
    \<and> (dn_status v = D_Succeeded \<longrightarrow> map_of (fst (snd s')) key = Some v)"
proof -
  note m = run_moves [OF assms(1,2)]
  obtain g' where g': "map_of (fst s') k = Some g'" "grant_step\<^sup>*\<^sup>* g g'"
    using moves_grant_steps [of "view_lists s" "view_lists s'" k g] m assms(3) by (auto simp: state_moves_def delegation_view_of_def)
  have "gr_status g \<in> {G_Exhausted, G_Expired, G_Revoked, G_Completed, G_Rejected} \<longrightarrow> g' = g"
    using grant_steps_ended [OF g'(2)] by (auto simp: open_grant_def)
  with g' grant_steps_changes [OF g'(2)] view_laterD(2) [OF lists.moves_view [OF m], of key v] assms(4) show ?thesis
    by (auto simp: delegation_view_of_def)
qed

subsection \<open>Chains of delegation\<close>

fun parent_chain :: "(string \<Rightarrow> grant option) \<Rightarrow> string list \<Rightarrow> bool" where
  "parent_chain G [] = True"
| "parent_chain G [k] = (G k \<noteq> None)"
| "parent_chain G (k # k' # ks) =
     ((case G k of None \<Rightarrow> False | Some g \<Rightarrow> gr_parent g = Some k') \<and> parent_chain G (k' # ks))"

lemma chain_descends:
  assumes "\<And>k g. G k = Some g \<Longrightarrow> lineage G g" "parent_chain G (k # ks)" "G k = Some g"
  shows "int (length ks) < gr_depth g
    \<and> (\<forall>j\<in>set ks. \<exists>p. G j = Some p \<and> gr_depth p < gr_depth g \<and> gr_further p \<and> strict_prefix (gr_path p) (gr_path g))
    \<and> distinct (k # ks)"
  using assms(2,3)
proof (induction ks arbitrary: k g)
  case Nil
  with assms(1) show ?case by (force simp: lineage_def)
next
  case (Cons j ks)
  then have up: "gr_parent g = Some j" "parent_chain G (j # ks)" by auto
  with assms(1) [OF Cons.prems(2)] obtain p where p: "G j = Some p" "gr_further p" "gr_depth g = gr_depth p + 1"
    "gr_path g = gr_path p @ [idOf (id_target_passport (gr_identity g))]"
    by (auto simp: lineage_def)
  note ih = Cons.IH [OF up(2) p(1)]
  have pre: "strict_prefix (gr_path p) (gr_path g)" using p(4) by (simp add: strict_prefix_def prefix_def)
  have all: "\<forall>i\<in>set (j # ks). \<exists>q. G i = Some q \<and> gr_depth q < gr_depth g \<and> gr_further q \<and> strict_prefix (gr_path q) (gr_path g)"
    using ih p(1-3) pre prefix_order.less_trans by fastforce
  moreover have "k \<notin> set (j # ks)" using all Cons.prems(2) by force
  ultimately show ?case using ih p(3) by simp
qed

text \<open>C14: however delegations are passed on, a chain of grants, each the parent of the one before, has at most five grants, no
  grant and no passport occurs in it twice, and every ancestor permits further delegation.\<close>

theorem delegation_chains_are_bounded:
  assumes "delegation_run s s'" "delegation_ok (view_lists s)" "parent_chain (map_of (fst s')) (k # ks)" "map_of (fst s') k = Some g"
  shows "length (k # ks) \<le> 5 \<and> distinct (k # ks) \<and> (ks \<noteq> [] \<longrightarrow> distinct (gr_path g))
    \<and> (\<forall>j\<in>set ks. \<exists>p. map_of (fst s') j = Some p \<and> gr_further p \<and> strict_prefix (gr_path p) (gr_path g))"
proof -
  have ok: "delegation_ok (map_of (fst s'), map_of (fst (snd s')), map_of (snd (snd s')))"
    using run_ok [OF assms(1,2)] by (simp add: delegation_view_of_def)
  note l = delegation_okD(2) [OF ok]
  have "distinct (gr_path g)" if "ks \<noteq> []"
  proof -
    obtain j js where "ks = j # js" using \<open>ks \<noteq> []\<close> by (cases ks) auto
    with assms(3,4) have "gr_parent g = Some j" by simp
    with l [OF assms(4)] show ?thesis by (auto simp: lineage_def)
  qed
  moreover have "gr_depth g \<le> 5" using l [OF assms(4)] by (simp add: lineage_def platformMaximumDelegationDepth_def)
  ultimately show ?thesis using chain_descends [OF l assms(3,4)] by fastforce
qed

subsection \<open>What is prepared\<close>

lemma classification_result: "assertClassificationAllowed label c t = Inr v \<Longrightarrow> v = js_lower label"
  by (auto simp: assertClassificationAllowed_def Let_def split: if_splits)

lemma delegated_data_of_Inr:
  assumes "delegated_data_of e ajv checked dir sc input g = Inr d"
  obtains fs st validate target where
    "frozen_contract e dir sc g = Inr (dd_contract d)"
    "assertClassificationAllowed (dd_classification d) (ct_data (dd_contract d)) target = Inr (js_lower (dd_classification d))"
    "processDelegatedInput e (pi_output input) (ct_data (dd_contract d)) (pi_context input) = Inr (fs, st)"
    "dd_payload d = JObj fs" "ajv (dc_input_schema (ct_data (dd_contract d))) = Some validate" "validate (JObj fs)"
proof -
  let ?c = "dd_contract d"
  have "\<exists>target fs st x. frozen_contract e dir sc g = Inr ?c
      \<and> assertClassificationAllowed (dd_classification d) (ct_data ?c) target = Inr x
      \<and> processDelegatedInput e (pi_output input) (ct_data ?c) (pi_context input) = Inr (fs, st)
      \<and> validateAgainstSchema (de_num_size e) ajv (dc_input_schema (ct_data ?c)) ''$delegation.input'' ''INTER_AGENT_TARGET_INPUT_INVALID'' (JObj fs)
        = Inr (dd_payload d)"
    using assms unfolding delegated_data_of_def Let_def by (auto simp: bindE_Inr_iff split: prod.splits) (rule exI, rule exI, assumption)
  then obtain target fs st x where c: "frozen_contract e dir sc g = Inr ?c"
    and label: "assertClassificationAllowed (dd_classification d) (ct_data ?c) target = Inr x"
    and p: "processDelegatedInput e (pi_output input) (ct_data ?c) (pi_context input) = Inr (fs, st)"
    and v: "validateAgainstSchema (de_num_size e) ajv (dc_input_schema (ct_data ?c)) ''$delegation.input'' ''INTER_AGENT_TARGET_INPUT_INVALID'' (JObj fs)
      = Inr (dd_payload d)"
    by blast
  from v obtain validate where "ajv (dc_input_schema (ct_data ?c)) = Some validate" "validate (JObj fs)" "dd_payload d = JObj fs"
    unfolding validateAgainstSchema_def bindE_Inr_iff by (auto simp: cloneJson_Inr split: option.splits if_splits)
  with c label [unfolded classification_result [OF label]] p show thesis
    by (intro that [where validate = validate and target = target and fs = fs and st = st]) simp_all
qed

text \<open>C10: what a successful preparation stands for: the grant is within its validity, its frozen contract is not a draft, the data has
  been classified within the contract's ceiling, it is declared by the contract's schema and valid under it, its invocation is reserved, and a
  reference for this invocation and grant has been issued.\<close>

theorem prepared_delegation_is_authorized:
  assumes "calm list_moves env" "delegation_ok (view_lists s)"
    and "prepareDelegatedInvocation e ajv checked dir approval list_db env sc input token now s = (Inr p, s')"
  shows "\<exists>g c validate r. map_of (fst s') (pi_grant input) = Some g \<and> gr_valid_from g \<le> now \<and> now < gr_expires_at g
    \<and> c = dd_contract (pd_data p) \<and> ct_id c = gr_contract g \<and> ct_version c = gr_contract_version g \<and> ct_status c \<noteq> C_Draft
    \<and> \<not> exceeds_ceiling (js_lower (dd_classification (pd_data p))) (dc_maximum_classification (ct_data c))
    \<and> declared_by (dc_input_schema (ct_data c)) (dd_payload (pd_data p))
    \<and> ajv (dc_input_schema (ct_data c)) = Some validate \<and> validate (dd_payload (pd_data p))
    \<and> fst (pd_key p) = pi_grant input \<and> snd (pd_key p) \<in> set (gr_hashes g)
    \<and> map_of (snd (snd s')) (reference_hash e (pd_reference p)) = Some r \<and> rf_grant r = pi_grant input \<and> rf_invocation r = pd_key p"
proof -
  from reachesD [OF lists.prepareDelegatedInvocation_reaches [OF assms(1)] assms(2,3)]
  have p: "lists.prepared_by e ajv checked dir sc input token now p s'" by blast
  then obtain g0 replay where b: "lists.binds (pi_grant input) g0 s'" and u: "assert_usable input replay g0 now = Inr ()"
    and d: "delegated_data_of e ajv checked dir sc input g0 = Inr (pd_data p)"
    and i: "lists.issued (reference_hash e token) (pi_grant input) (pd_key p) s'" "pd_reference p = token"
    unfolding lists.prepared_by_def by blast
  obtain g where g: "map_of (fst s') (pi_grant input) = Some g" "pd_key p = (pi_grant input, invocation_hash e input g)"
    "invocation_hash e input g \<in> set (gr_hashes g)"
    by (rule prepared_reserved [OF assms])
  with b have same: "same_binding g0 g" by (auto simp: lists.binds_def)
  obtain fs st validate target where
      c: "frozen_contract e dir sc g0 = Inr (dd_contract (pd_data p))"
    and a: "assertClassificationAllowed (dd_classification (pd_data p)) (ct_data (dd_contract (pd_data p))) target
        = Inr (js_lower (dd_classification (pd_data p)))"
    and x: "processDelegatedInput e (pi_output input) (ct_data (dd_contract (pd_data p))) (pi_context input) = Inr (fs, st)"
      "dd_payload (pd_data p) = JObj fs"
    and v: "ajv (dc_input_schema (ct_data (dd_contract (pd_data p)))) = Some validate" "validate (JObj fs)"
    by (rule delegated_data_of_Inr [OF d])
  have "ct_id (dd_contract (pd_data p)) = gr_contract g0 \<and> ct_version (dd_contract (pd_data p)) = gr_contract_version g0
      \<and> ct_status (dd_contract (pd_data p)) \<noteq> C_Draft"
    using c by (auto simp: frozen_contract_def find_contract_def bindE_Inr_iff find_Some_iff split: option.splits if_splits)
  moreover have "\<not> exceeds_ceiling (js_lower (dd_classification (pd_data p))) (dc_maximum_classification (ct_data (dd_contract (pd_data p))))"
    using a by (auto simp: assertClassificationAllowed_def Let_def split: if_splits)
  moreover have "gr_valid_from g0 \<le> now \<and> now < gr_expires_at g0" using u by (auto simp: assert_usable_def split: if_splits)
  moreover obtain r where "map_of (snd (snd s')) (reference_hash e token) = Some r" "rf_grant r = pi_grant input" "rf_invocation r = pd_key p"
    using i(1) by (auto simp: lists.issued_def)
  ultimately show ?thesis
    using g same payload_declared [OF x(1)] x(2) v i(2) unfolding same_binding_def by (metis fst_conv snd_conv)
qed

subsection \<open>A run\<close>

text \<open>Agent \<open>p1\<close> may send to \<open>p2\<close> and that one to \<open>p3\<close>; one invocation was reserved, prepared and given a reference.\<close>

definition demo_identity :: "string \<Rightarrow> string \<Rightarrow> string \<Rightarrow> delegation_identity" where
  "demo_identity run source target =
     \<lparr>id_definition = None, id_run = Some run, id_source_node = Some source, id_target_node = Some target,
      id_source_passport = Some source, id_source_version = None, id_source_connection = Some source,
      id_target_passport = Some target, id_target_version = None, id_target_connection = Some target\<rparr>"

definition demo_grant :: "grant_status \<Rightarrow> grant" where
  "demo_grant st =
     \<lparr>gr_organization = ''org'', gr_workspace = ''ws'', gr_identity = demo_identity ''run'' ''p1'' ''p2'', gr_contract = ''c'',
      gr_contract_version = 1, gr_source_capability = ''read'', gr_source_operation = ''get'', gr_target_capability = ''write'',
      gr_target_operation = ''put'', gr_purpose_code = ''SUPPORT'', gr_status = st,
      gr_input_hash = (case schemaHash sample_env open_schema of Inr h \<Rightarrow> h | Inl _ \<Rightarrow> []),
      gr_output_hash = (case schemaHash sample_env open_schema of Inr h \<Rightarrow> h | Inl _ \<Rightarrow> []), gr_classifications = [],
      gr_maximum_classification = ''internal'', gr_limit = 2, gr_count = 1, gr_hashes = [''used''], gr_valid_from = 0,
      gr_expires_at = 1000, gr_depth = 1, gr_maximum_depth = 3, gr_further = True, gr_parent = None, gr_path = [''p1'', ''p2''],
      gr_approval = None, gr_approved_at = None, gr_revocation_reason = None, gr_revoked_by = None, gr_revoked_at = None,
      gr_first_used_at = Some 1, gr_completed_at = None\<rparr>"

definition demo_child :: grant where
  "demo_child = (demo_grant G_Active)\<lparr>gr_identity := demo_identity ''run'' ''p2'' ''p3'', gr_count := 0, gr_hashes := [], gr_depth := 2,
     gr_parent := Some ''g'', gr_path := [''p1'', ''p2'', ''p3'']\<rparr>"

definition demo_scope :: delegation_scope where
  "demo_scope = \<lparr>sc_organization = ''org'', sc_workspace = ''ws'', sc_actor = ''me''\<rparr>"

definition demo_statistics :: data_statistics where
  "demo_statistics = \<lparr>st_original = 1, st_delegated = 1, st_removed = 0, st_redacted = 0, st_transformed = 0, st_original_bytes = 9,
     st_delegated_bytes = 9\<rparr>"

definition demo_invocation :: delegated_invocation where
  "demo_invocation =
     \<lparr>dn_organization = ''org'', dn_workspace = ''ws'', dn_contract = ''c'', dn_contract_version = 1,
      dn_identity = demo_identity ''run'' ''p1'' ''p2'', dn_capability = ''write'', dn_operation = ''put'', dn_purpose_code = ''SUPPORT'',
      dn_status = D_Succeeded, dn_ordinal = 1, dn_classification = ''internal'', dn_statistics = demo_statistics, dn_source_hash = '''',
      dn_target_hash = '''', dn_approval = None, dn_runtime = None, dn_output_bytes = 0, dn_failure_code = None,
      dn_retryable = False, dn_started_at = Some 2, dn_completed_at = Some 3\<rparr>"

definition demo_reference :: delegation_reference where
  "demo_reference =
     \<lparr>rf_grant = ''g'', rf_invocation = (''g'', ''used''), rf_organization = ''org'', rf_workspace = ''ws'',
      rf_identity = demo_identity ''run'' ''p1'' ''p2'', rf_contract = ''c'', rf_contract_version = 1, rf_audience = RUNTIME_AUDIENCE,
      rf_issued_at = 2, rf_expires_at = 900, rf_consumed_at = None, rf_invalidated_at = None\<rparr>"

definition demo_lists :: "grant_status \<Rightarrow> delegation_lists" where
  "demo_lists st = ([(''g'', demo_grant st), (''c'', demo_child)], [((''g'', ''used''), demo_invocation)], [(''t'', demo_reference)])"

lemma calm_alone: "calm list_moves no_interference"
  by (simp add: calm_def lists.moving.moves_refl)

lemma demo_grant_simps [simp]:
  "gr_organization (demo_grant st) = ''org''" "gr_workspace (demo_grant st) = ''ws''" "gr_status (demo_grant st) = st"
  "gr_identity (demo_grant st) = demo_identity ''run'' ''p1'' ''p2''" "gr_contract (demo_grant st) = ''c''"
  "gr_contract_version (demo_grant st) = 1" "gr_limit (demo_grant st) = 2" "gr_count (demo_grant st) = 1"
  "gr_hashes (demo_grant st) = [''used'']" "gr_valid_from (demo_grant st) = 0" "gr_expires_at (demo_grant st) = 1000"
  "gr_depth (demo_grant st) = 1" "gr_maximum_depth (demo_grant st) = 3" "gr_further (demo_grant st)" "gr_parent (demo_grant st) = None"
  "gr_path (demo_grant st) = [''p1'', ''p2'']" "gr_first_used_at (demo_grant st) = Some 1"
  by (simp_all add: demo_grant_def)

lemma demo_reference_simps [simp]:
  "rf_grant demo_reference = ''g''" "rf_invocation demo_reference = (''g'', ''used'')" "rf_organization demo_reference = ''org''"
  "rf_workspace demo_reference = ''ws''" "rf_audience demo_reference = RUNTIME_AUDIENCE" "rf_expires_at demo_reference = 900"
  "rf_consumed_at demo_reference = None" "rf_invalidated_at demo_reference = None"
  by (simp_all add: demo_reference_def)

lemma demo_child_simps [simp]:
  "gr_identity demo_child = demo_identity ''run'' ''p2'' ''p3''" "gr_limit demo_child = 2" "gr_count demo_child = 0"
  "gr_hashes demo_child = []" "gr_depth demo_child = 2" "gr_maximum_depth demo_child = 3" "gr_further demo_child"
  "gr_parent demo_child = Some ''g''" "gr_path demo_child = [''p1'', ''p2'', ''p3'']" "gr_expires_at demo_child = 1000"
  by (simp_all add: demo_child_def demo_grant_def)

lemma demo_passports: "idOf (Some ''p1'') = ''p1''" "idOf (Some ''p2'') = ''p2''" "idOf (Some ''p3'') = ''p3''"
  by code_simp+

lemma demo_ok: "delegation_ok (view_lists (demo_lists st))"
  unfolding delegation_view_of_def
proof (rule delegation_okI)
  show "grant_ok g \<and> lineage (map_of (fst (demo_lists st))) g" if "map_of (fst (demo_lists st)) k = Some g" for k g
    using that by (auto simp: demo_lists_def demo_identity_def demo_passports grant_ok_def lineage_def maximumInvocationLimit_def
      platformMaximumDelegationDepth_def split: if_splits)
  show "invocation_ok (map_of (fst (demo_lists st))) key v" if "map_of (fst (snd (demo_lists st))) key = Some v" for key v
    using that by (auto simp: demo_lists_def demo_invocation_def invocation_ok_def split: if_splits)
  show "ordinals_differ (map_of (fst (snd (demo_lists st))))" by (auto simp: demo_lists_def ordinals_differ_def split: if_splits)
  show "reference_ok (map_of (fst (demo_lists st))) (map_of (fst (snd (demo_lists st)))) r"
    if "map_of (snd (snd (demo_lists st))) t = Some r" for t r
    using that by (auto simp: demo_lists_def reference_ok_def split: if_splits)
qed

lemma demo_scope_simps [simp]: "sc_organization demo_scope = ''org''" "sc_workspace demo_scope = ''ws''" "sc_actor demo_scope = ''me''"
  by (simp_all add: demo_scope_def)

lemmas list_calls =
  list_db_def alist_store_defs update_grant_def update_reference_def update_references_def find_grant_def find_delegated_def
  thens_def returns_def throws_def checks_def Let_def in_scope_def

lemma demo_reserve:
  "reserveGrantInvocation list_db no_interference 0 ''g'' (demo_grant G_Active) ''new'' demo_scope 10 (demo_lists G_Active)
    = (Inr (status_set G_Exhausted (reserve_hash ''new'' 1 (demo_grant G_Active)), False),
       ([(''g'', status_set G_Exhausted (reserve_hash ''new'' 1 (demo_grant G_Active))),
         (''g'', reserve_hash ''new'' 1 (demo_grant G_Active)), (''g'', demo_grant G_Active), (''c'', demo_child)],
        snd (demo_lists G_Active)))"
  by (simp add: reserveGrantInvocation_def list_calls demo_lists_def invocationReservationFilter_def reserve_hash_def)

lemma demo_revoke:
  "revokeGrantRecord list_db no_interference ''g'' demo_scope None 10 (demo_lists G_Active)
    = (Inr (revoke_set ''ADMINISTRATOR_REVOKED'' ''me'' 10 (demo_grant G_Active)),
       ([(''g'', revoke_set ''ADMINISTRATOR_REVOKED'' ''me'' 10 (demo_grant G_Active)), (''g'', demo_grant G_Active), (''c'', demo_child)],
        [((''g'', ''used''), demo_invocation)], [(''t'', invalidate_set 10 demo_reference)]))"
proof -
  have "revocation_reason None = Inr ''ADMINISTRATOR_REVOKED''" by code_simp
  then show ?thesis
    by (simp add: revokeGrantRecord_def list_calls demo_lists_def open_grant_def unused_reference_def)
qed

lemma demo_consume:
  "consumeDelegationReference sample_env list_db (no_interference 0) ''t'' demo_scope ''g'' (''g'', ''used'') 10 (demo_lists st)
    = (Inr (consume_set 10 demo_reference),
       fst (demo_lists st), [((''g'', ''used''), demo_invocation)], [(''t'', consume_set 10 demo_reference), (''t'', demo_reference)])"
  by (simp add: consumeDelegationReference_def list_calls demo_lists_def consumable_def unused_reference_def reference_hash_def sample_env_def)

theorem delegations_stay_within_their_limits_witness:
  "int (card {h. map_of (fst (snd (snd (reserveGrantInvocation list_db no_interference 0 ''g'' (demo_grant G_Active) ''new'' demo_scope 10
     (demo_lists G_Active))))) (''g'', h) \<noteq> None}) \<le> 2"
proof -
  let ?r = "reserveGrantInvocation list_db no_interference 0 ''g'' (demo_grant G_Active) ''new'' demo_scope 10 (demo_lists G_Active)"
  obtain g where g: "map_of (fst (snd ?r)) ''g'' = Some g" "gr_count g = 2" by (simp add: demo_reserve status_set_def reserve_hash_def)
  have "delegation_run (demo_lists G_Active) (snd ?r)"
    by (intro r_into_rtranclp call_reserve [OF calm_alone prod.collapse [symmetric]])
  from delegations_stay_within_their_limits [OF this demo_ok g(1)] g(2) show ?thesis by simp
qed

theorem reference_is_consumed_once_witness:
  "let consume = (\<lambda>s. consumeDelegationReference sample_env list_db (no_interference 0) ''t'' demo_scope ''g'' (''g'', ''used'') 10 s) in
   \<not> isl (fst (consume (demo_lists G_Active))) \<and> isl (fst (consume (snd (consume (demo_lists G_Active)))))"
proof -
  from reference_is_consumed_once [OF demo_ok calm_alone rtranclp.rtrancl_refl calm_alone demo_consume] demo_consume show ?thesis by (simp add: Let_def)
qed

theorem revocation_withdraws_references_witness:
  "let s1 = snd (revokeGrantRecord list_db no_interference ''g'' demo_scope None 10 (demo_lists G_Active)) in
   isl (fst (consumeDelegationReference sample_env list_db (no_interference 0) ''t'' demo_scope ''g'' (''g'', ''used'') 10 s1))"
proof -
  let ?r = "revokeGrantRecord list_db no_interference ''g'' demo_scope None 10 (demo_lists G_Active)"
  obtain g where c: "?r = (Inr g, snd ?r)" by (simp add: demo_revoke)
  have "map_of (snd (snd (snd ?r))) (reference_hash sample_env ''t'') = Some (invalidate_set 10 demo_reference)"
    "rf_grant (invalidate_set 10 demo_reference) = ''g''"
    by (simp_all add: demo_revoke reference_hash_def sample_env_def invalidate_set_def)
  from revocation_withdraws_references [OF demo_ok calm_alone c rtranclp.rtrancl_refl calm_alone this] show ?thesis by (simp add: Let_def)
qed

theorem delegation_statuses_are_final_witness:
  "map_of (fst (snd (snd (revokeGrantRecord list_db no_interference ''g'' demo_scope None 10 (demo_lists G_Active))))) (''g'', ''used'')
    = Some demo_invocation"
proof -
  let ?r = "revokeGrantRecord list_db no_interference ''g'' demo_scope None 10 (demo_lists G_Active)"
  have run: "delegation_run (demo_lists G_Active) (snd ?r)"
    by (intro r_into_rtranclp call_revoke [OF calm_alone prod.collapse [symmetric]])
  have "map_of (fst (demo_lists G_Active)) ''g'' = Some (demo_grant G_Active)"
    "map_of (fst (snd (demo_lists G_Active))) (''g'', ''used'') = Some demo_invocation" "dn_status demo_invocation = D_Succeeded"
    by (simp_all add: demo_lists_def demo_invocation_def)
  from delegation_statuses_are_final [OF run demo_ok this(1,2)] this(3) show ?thesis by blast
qed

theorem delegation_chains_are_bounded_witness: "distinct (gr_path demo_child) \<and> length [''c'', ''g''] \<le> 5"
proof -
  have "parent_chain (map_of (fst (demo_lists G_Active))) [''c'', ''g'']" "map_of (fst (demo_lists G_Active)) ''c'' = Some demo_child"
    by (simp_all add: demo_lists_def demo_child_def)
  from delegation_chains_are_bounded [OF rtranclp.rtrancl_refl demo_ok this] show ?thesis by blast
qed

text \<open>What the service reads for this grant: the two agents and the contract of \<open>sample_contract\<close>.\<close>

definition demo_selector :: selector where
  "demo_selector = \<lparr>se_passport = None, se_connection = None, se_publisher = None, se_category = None, se_tier = None, se_policy = None,
     se_definition = None, se_node = None\<rparr>"

definition demo_contract :: delegation_contract where
  "demo_contract =
     \<lparr>ct_id = ''c'', ct_organization = ''org'', ct_workspace = ''ws'', ct_version = 1, ct_status = C_Active,
      ct_source_selector = demo_selector, ct_target_selector = demo_selector, ct_source_capability = ''read'',
      ct_source_operation = ''get'', ct_target_capability = ''write'', ct_target_operation = ''put'', ct_purpose_code = ''SUPPORT'',
      ct_data = sample_contract, ct_further = True, ct_maximum_depth = 3, ct_require_approval = False, ct_valid_from = 0,
      ct_expires_at = 2000, ct_input_hash = None, ct_output_hash = None\<rparr>"

definition demo_connection :: "string \<Rightarrow> agent_connection" where
  "demo_connection p = \<lparr>cn_id = p, cn_organization = Some ''org'', cn_partner = None, cn_workspace = ''ws'', cn_status = ''connected'',
     cn_scope = ''invoke'', cn_passport = p\<rparr>"

definition demo_passport :: "string \<Rightarrow> agent_passport" where
  "demo_passport p = \<lparr>ap_id = p, ap_status = ''valid'', ap_version = None\<rparr>"

definition demo_entry :: "string \<Rightarrow> catalog_entry" where
  "demo_entry p = \<lparr>ce_organization = ''org'', ce_workspace = ''ws'', ce_passport = p, ce_connection = p, ce_availability = ''available'',
     ce_lifecycle = ''valid'', ce_connection_status = ''connected'', ce_publisher = None, ce_categories = [], ce_tier = ''high'',
     ce_capabilities = [], ce_target = \<lparr>dt_classifications = [''internal''], dt_regions = [], dt_residency = []\<rparr>\<rparr>"

definition demo_directory :: directory where
  "demo_directory = \<lparr>di_contracts = [demo_contract], di_connections = map demo_connection [''p1'', ''p2''],
     di_passports = map demo_passport [''p1'', ''p2''], di_catalog = map demo_entry [''p1'', ''p2''], di_nodes = []\<rparr>"

definition demo_input :: "string \<Rightarrow> prepare_input" where
  "demo_input key = \<lparr>pi_grant = ''g'', pi_key = Some key, pi_source_node = None, pi_target_node = None, pi_retry = False,
     pi_classification = Some ''internal'', pi_schema_classification = None, pi_policy_classification = None, pi_residency = [],
     pi_output = sample_input, pi_context = no_context\<rparr>"

definition demo_checks :: delegation_checks where
  "demo_checks = \<lparr>dk_region = Inr (), dk_region_after = Inr (), dk_evaluate = Inr (), dk_retry = Inr (), dk_operational = Inr ()\<rparr>"

definition any_schema :: "json \<Rightarrow> (json \<Rightarrow> bool) option" where
  "any_schema s = Some (\<lambda>v. True)"

lemma demo_hash: "invocation_hash sample_env (demo_input ''used'') (demo_grant st) = ''used''"
  "invocation_hash sample_env (demo_input ''new'') (demo_grant st) = ''new''"
  by (simp_all add: invocation_hash_def demo_input_def sample_env_def present_def text_of_def)

lemma demo_frozen: "frozen_contract sample_env demo_directory demo_scope (demo_grant st) = Inr demo_contract"
proof -
  obtain h where "schemaHash sample_env open_schema = Inr h" by (cases "schemaHash sample_env open_schema") (code_simp, simp)
  then show ?thesis
    by (simp add: frozen_contract_def find_contract_def demo_directory_def demo_contract_def sample_contract_def demo_grant_def)
qed

lemma demo_actors: "\<exists>a. loadGrantActors demo_directory demo_scope (gr_identity (demo_grant st)) = Inr a \<and> ce_target (ga_target_entry a)
    = \<lparr>dt_classifications = [''internal''], dt_regions = [], dt_residency = []\<rparr>"
  by (simp add: loadGrantActors_def find_connection_def find_passport_def find_entry_def demo_directory_def demo_identity_def
    demo_connection_def demo_passport_def demo_entry_def text_of_def)

lemma demo_label: "effective_classification (de_text sample_env) (demo_input k) demo_contract = ''internal''"
proof -
  have "effective_labels (de_text sample_env) (demo_input k) open_schema = [''internal'']"
    by (simp add: effective_labels_def demo_input_def text_of_def open_schema_def field_of_def text_or_empty_def)
  moreover have "highestClassification [''internal''] ''internal'' = ''internal''" by code_simp
  ultimately show ?thesis by (simp add: effective_classification_def demo_contract_def sample_contract_def)
qed

lemma demo_data: "\<exists>d. delegated_data_of sample_env any_schema demo_checks demo_directory demo_scope (demo_input k) (demo_grant st) = Inr d"
proof -
  let ?fs = "(''note'', JStr ''hi'') # sample_person"
  obtain s where p: "processDelegatedInput sample_env sample_input sample_contract no_context = Inr (?fs, s)"
    using sample_processed by blast
  moreover obtain a where "loadGrantActors demo_directory demo_scope (gr_identity (demo_grant st)) = Inr a"
    "ce_target (ga_target_entry a) = \<lparr>dt_classifications = [''internal''], dt_regions = [], dt_residency = []\<rparr>"
    using demo_actors by blast
  moreover have "assertClassificationAllowed ''internal'' sample_contract \<lparr>dt_classifications = [''internal''], dt_regions = [], dt_residency = []\<rparr>
      = Inr ''internal''"
    "assertRegionResidency sample_contract \<lparr>dt_classifications = [''internal''], dt_regions = [], dt_residency = []\<rparr> [] = Inr ()"
    by code_simp+
  moreover have "ct_data demo_contract = sample_contract" by (simp add: demo_contract_def)
  moreover have "isl (validateAgainstSchema (de_num_size sample_env) any_schema (dc_input_schema sample_contract) ''$delegation.input''
      ''INTER_AGENT_TARGET_INPUT_INVALID'' (JObj ?fs)) = False"
    by code_simp
  then have "\<exists>w. validateAgainstSchema (de_num_size sample_env) any_schema (dc_input_schema sample_contract) ''$delegation.input''
      ''INTER_AGENT_TARGET_INPUT_INVALID'' (JObj ?fs) = Inr w"
    by (cases "validateAgainstSchema (de_num_size sample_env) any_schema (dc_input_schema sample_contract) ''$delegation.input''
      ''INTER_AGENT_TARGET_INPUT_INVALID'' (JObj ?fs)") simp_all
  ultimately show ?thesis
    by (auto simp: delegated_data_of_def demo_frozen demo_label Let_def) (auto simp: demo_input_def demo_checks_def)
qed

lemma demo_prepare:
  assumes "st \<noteq> G_Pending"
  shows "\<exists>p s'. prepareDelegatedInvocation sample_env any_schema demo_checks demo_directory None list_db no_interference demo_scope
    (demo_input ''used'') ''t2'' 10 (demo_lists st) = (Inr p, s')"
proof -
  obtain d where "delegated_data_of sample_env any_schema demo_checks demo_directory demo_scope (demo_input ''used'') (demo_grant st) = Inr d"
    using demo_data by blast
  moreover have "pi_grant (demo_input ''used'') = ''g''" "dk_region demo_checks = Inr ()"
    "assert_usable (demo_input ''used'') True (demo_grant st) 10 = Inr ()"
    by (simp_all add: demo_input_def demo_checks_def assert_usable_def present_def)
  ultimately show ?thesis using assms
    by (simp add: prepareDelegatedInvocation_def scopedGrant_def list_calls demo_lists_def demo_hash activateApprovedGrant_def
      reserved_invocation_def issueDelegationReference_def create_reference_def reference_hash_def) (simp add: sample_env_def no_clash_def)
qed

text \<open>The status of a grant is checked for a new invocation only: under a grant that was revoked, one that was reserved before is
  prepared again, and with a new reference.\<close>

lemma revoked_grant_is_replayed:
  "\<exists>p s'. prepareDelegatedInvocation sample_env any_schema demo_checks demo_directory None list_db no_interference demo_scope
    (demo_input ''used'') ''t2'' 10 (demo_lists G_Revoked) = (Inr p, s')"
  by (rule demo_prepare) simp

theorem ended_grant_admits_nothing_new_witness:
  "isl (fst (prepareDelegatedInvocation sample_env any_schema demo_checks demo_directory None list_db no_interference demo_scope
     (demo_input ''new'') ''t2'' 10 (demo_lists G_Revoked)))"
proof -
  have "map_of (fst (demo_lists G_Revoked)) ''g'' = Some (demo_grant G_Revoked)"
    "gr_status (demo_grant G_Revoked) \<in> set TERMINAL_GRANT_STATUSES" "pi_grant (demo_input ''new'') = ''g''"
    "invocation_hash sample_env (demo_input ''new'') (demo_grant G_Revoked) \<notin> set (gr_hashes (demo_grant G_Revoked))"
    by (simp_all add: demo_lists_def TERMINAL_GRANT_STATUSES_def demo_input_def demo_hash [unfolded demo_input_def])
  from ended_grant_admits_nothing_new [OF demo_ok this(1,2) rtranclp.rtrancl_refl calm_alone this(3,4) prod.collapse [symmetric]]
  show ?thesis by (auto simp: isl_def)
qed

theorem prepared_delegation_is_authorized_witness:
  "\<exists>p s'. prepareDelegatedInvocation sample_env any_schema demo_checks demo_directory None list_db no_interference demo_scope
      (demo_input ''used'') ''t2'' 10 (demo_lists G_Active) = (Inr p, s')
    \<and> (\<exists>r. map_of (snd (snd s')) (reference_hash sample_env (pd_reference p)) = Some r \<and> rf_grant r = ''g'')"
proof -
  obtain p s' where p: "prepareDelegatedInvocation sample_env any_schema demo_checks demo_directory None list_db no_interference demo_scope
      (demo_input ''used'') ''t2'' 10 (demo_lists G_Active) = (Inr p, s')"
    using demo_prepare [of G_Active] by auto
  moreover have "pi_grant (demo_input ''used'') = ''g''" by (simp add: demo_input_def)
  ultimately show ?thesis using prepared_delegation_is_authorized [OF calm_alone demo_ok p] by auto
qed

text \<open>A run that completes closes also its pending grants, which the table does not allow; revoking a grant leaves the grants that were
  passed on from it active.\<close>

lemma closing_completes_pending_grant:
  "map_option gr_status (map_of (fst (snd (closeRunGrants list_db no_interference ''run'' ''completed'' demo_scope 10 (demo_lists G_Pending)))) ''g'')
    = Some G_Completed \<and> G_Completed \<notin> set (GRANT_TRANSITIONS G_Pending)"
  by (simp add: closeRunGrants_def update_grants_def list_calls demo_lists_def demo_identity_def open_grant_def close_set_def)

lemma revocation_leaves_child_active:
  "map_option gr_status (map_of (fst (snd (revokeGrantRecord list_db no_interference ''g'' demo_scope None 10 (demo_lists G_Active)))) ''c'')
    = Some G_Active \<and> gr_parent demo_child = Some ''g''"
  by (simp add: demo_revoke) (simp add: demo_child_def)

end
