(* ===== verification/Spec2Isabelle.thy ===== *)
theory Spec2Isabelle
  imports Invocation_Lifecycle Invocation_Control Circuit_Breaker Runtime_Capacity Regional_Policy Regional_Authority
    Orchestration_States Orchestration_Mapping Policy_Engine Agent_Selection Durable_Guarantees
    Delegated_Safety Delegation_Guarantees
begin

text \<open>
  GhostBridge is a backend that lets agents of different organizations call each other. A caller's request becomes an
  invocation; it is accepted by the policy engine, put on a durable work queue, claimed by a worker, sent to the
  runtime of the agent behind a circuit breaker and a limit on concurrency, and its outcome is written to the invocation.
  Failures are classified, retried where that is safe, and otherwise handed to recovery. Orchestrations compose
  capabilities to graphs whose nodes are invocations. Several regions share the work; one of them holds the right to
  write. The code is JavaScript over MongoDB, in backend/src of the repository (paths below are relative to
  it unless they say otherwise).

  \<^bold>\<open>How the model is built.\<close> One theory per part. Documents of the database are records with the schema's fields,
  enumerations are datatypes (strings where the code compares arbitrary input), functions keep the name they have in the
  code, and a function that throws returns \<open>app_error + 'a\<close>. Absent and null fields are \<open>None\<close>. Times are milliseconds, as
  \<open>int\<close>; the clock is an argument. Numbers that come from outside are \<open>jsnum\<close>, a rational, an infinity or NaN: the
  rounding of doubles is not modelled.

  An operation of a service is a function on the state of its collection. What the code calls but does not define is
  an argument: the collection itself (\<open>store_ops\<close>, whose documented behaviour the locale \<open>document_store\<close> states, each
  call atomic on one document), and the requests that run at the same time: \<open>env n\<close> is what others do to the
  collection before the n-th call of the operation. So a read and the guarded write after it are separate
  steps between which anything may happen. The theorems about such operations hold for every \<open>env\<close>
  that is made of steps of the same service, and the witnesses run the operations on \<open>map_store\<close>, a
  collection held as a map, on which the locales are interpreted.

  \<^bold>\<open>The theories.\<close>

  \<^item> \<open>Prelude\<close>: errors (utils/AppError.js), numbers, strings and regular expressions of JavaScript as far as the
    code uses them, and the collections of simplification rules. \<open>Document_Store\<close>: collections. \<open>Transition_Table\<close>: the
    contract that the tables of state machines share (locale \<open>transition_table\<close>), \<open>Json\<close>: JSON values.

  \<^item> \<open>Invocation_Lifecycle\<close> (services/invocationLifecycle.service.js, constants/invocationLifecycle.js, models/Invocation.js):
    states, transitions with their guards and updates, the claim of an execution, leases and their expiry. The
    inductive relation \<open>inv_step\<close> of its steps gives the invariants of every run of the service: documents stay well formed, and two claims of
    one invocation are separated by a retry schedule or a recovery. Two writers elsewhere change the state without leaving a history
    (services/approval.service.js and services/durableWorker.service.js); they are modelled at the end of the theory, where it is shown that the
    separation of claims holds with them and that the invariant does not.

  \<^item> \<open>Retry_Policy\<close> (utils/retryPolicy.js, utils/retryability.js, utils/circuitFailure.js) and \<open>Recovery_Policy\<close>
    (utils/recoveryPolicy.js, utils/stuckInvocation.js): the decisions whether a failure is retried, recovered or counted.
    The lemmas say that what is allowed is safe: nothing was sent, or the request may be repeated. \<open>Invocation_Control\<close>
    (\<open>controlContext\<close> of utils/invocationControlView.js) is the evidence on which the recovery policy decides, and the exact condition on
    the stored documents under which a recovery retry is offered.

  \<^item> \<open>Durable_Work\<close> and \<open>Durable_Replay\<close> (services/durableWork.service.js, constants/durableWork.js, models/RuntimeWorkItem.js,
    \<open>pauseClaimedWork\<close> of services/durableWorker.service.js and the updates of items in services/operationalState.service.js and
    others): the queue. The first has the items and what happens to one of them: enqueueing, claims, the operations of the owner of
    a lease, fenced by the hash of its token and by the epoch, and cancellation. The second has what also changes the
    invocation: the replay of an invocation, retries, dead letters and the scan for abandoned work.
    \<open>Durable_Steps\<close> is the abstract specification: a relation \<open>work_step\<close> on items, by kinds of step, with its invariants;
    a run says for each item which of the less frequent kinds (approved retries, requeues, pauses, reservations) it may undergo.
    \<open>Durable_Programs\<close> and \<open>Durable_Queue\<close> show that each operation refines it under any
    interference that does (locales \<open>work_queue\<close> and \<open>scanned_queue\<close>); \<open>Durable_Service\<close> has the runs of the whole service
    and a concrete queue, \<open>Durable_Guarantees\<close> the properties.

  \<^item> \<open>Circuit_Breaker\<close> (services/circuitBreaker.service.js) and \<open>Runtime_Capacity\<close> (services/runtimeCapacity.service.js): what
    protects a runtime. The operations retry after lost races; the loops carry the code's own bound as a counter.

  \<^item> \<open>Regional_Core\<close>, \<open>Regional_Policy\<close> (services/regionalResilienceCore.service.js) and \<open>Regional_Authority\<close>
    (services/regionalAuthority.service.js, models/RegionalWriteAuthority.js): failover and restore state
    machines, configuration, routing and admission, and the authority to write, whose epoch fences regions that lost it. The fence asks
    the most specific record, whatever its status, and does nothing while the regional mode is off, which is the default.

  \<^item> \<open>Policy_Engine\<close> (services/policyEngine.service.js): conditions over registered attributes, their validation, and the
    decision, which is shown to be the one of a short specification. \<open>Schema_Compatibility\<close>
    (services/schemaCompatibility.service.js) decides whether the outputs of one agent are inputs of another; the
    specification is the set of values that a schema accepts, which the verdict respects for closed producers and consumers that keep to
    the keywords it knows, with counterexamples for the others. \<open>Agent_Selection\<close> (services/agentSelectionEngine.service.js)
    chooses the agent.

  \<^item> \<open>Orchestration_States\<close> (constants/orchestration.js), \<open>Safe_Json\<close>, \<open>Orchestration_Graph\<close>
    (services/orchestrationValidation.service.js) and \<open>Orchestration_Mapping\<close> (services/orchestrationMapping.service.js): states of
    runs and nodes, the payloads that are accepted, the graph of a definition with its topological order, and how outputs of
    nodes become inputs of others.

  \<^item> \<open>Delegated_Data\<close> and \<open>Delegated_Rules\<close> (services/interAgentData.service.js, constants/interAgentDelegation.js): the data that one agent
    of an orchestration may send to another under a contract: safe copies, the extraction of allowed fields, mappings, the rules of
    transformation, redaction and minimization, and the two pipelines. \<open>Delegated_Safety\<close> has what they guarantee: a copy is the
    visible part of a value that is within the limits; an extraction is sound and complete for the lists of fields; a payload has only
    declared fields; and the cases where a label or a mask hides nothing.

  \<^item> \<open>Delegation_Grants\<close>, \<open>Delegation_Authority\<close> and \<open>Delegation_Service\<close> (services/interAgentDelegation.service.js,
    models/InterAgentDelegationGrant.js, InterAgentDelegationInvocation.js and InterAgentDelegationReference.js): who matches a contract and
    how a grant is created below a parent; how it is used up, approved, revoked and closed, and the references that are consumed once; a
    delegated invocation from its preparation to its outcome. \<open>Delegation_Steps\<close> is the abstract specification of the three
    collections (\<open>delegation_step\<close>) with its invariant \<open>delegation_ok\<close>; \<open>Delegation_Programs\<close> shows in the locale
    \<open>delegations\<close> that every operation refines it, with a postcondition for each; \<open>Delegation_Guarantees\<close> interprets the locale on lists
    and has the properties of all runs.

  \<^item> \<open>Canonical_Json\<close> (utils/idempotency.js): the canonical text of a request, which identifies the value up to the order of fields, and its
    fingerprint, which does so up to collisions of the digest. \<open>Json_Text\<close>: conversions between JSON values and texts, shared with the policy engine.

  \<^item> \<open>Program_Monad\<close>: the state and error monad of operations with several calls (\<open>prog\<close>), and the logic of what a program reaches
    under interference (locale \<open>rely\<close>), used for the queue and for delegation. \<open>Indexed_Store\<close>: collections with a unique index beside
    the key and with updates of many documents (locale \<open>indexed_store\<close>).

  \<^bold>\<open>Termination and bounds.\<close> Recursion on lists, schemas and conditions is structural or has a measure; loops that the
  code bounds by a number of attempts recurse on that number, so there is no fuel that the code does not have. The search
  of the topological order decreases the length of its queue plus the number of nodes that still wait for a dependency.

  \<^bold>\<open>Parameters.\<close> Besides collections and interference: the log of regional transitions (with laws), hashes, random
  tokens and the random source of the jitter, the redaction of outputs that are stored, the verdict of the JSON Schema compiler
  on a schema, the length of the decimal text of a number, conversions between strings and numbers in conditions, the
  collation of \<open>localeCompare\<close>, the identity of a connection, the digests, dates and texts of numbers of delegated data (\<open>data_env\<close>; the
  canonical text needs that the text of a number is made of its characters and is its own, \<open>decimal_text\<close>), and of delegation
  the approval service, the checks of other services (\<open>delegation_checks\<close>), the collections it only reads (\<open>directory\<close>) and the
  runtime gateway. Where a proof needs something of them, the theorem has it as a
  hypothesis and its witness an instance.

  \<^bold>\<open>Deviations.\<close> A query that updates many documents is given per document. Queries that list candidates (claims of the
  next item, the scan) are a function from the collection to keys, of which nothing is assumed. Rows of the event outbox and of
  invocation attempts, which are written beside an item and not read back by the queue, are left out, as is the
  identity of tenants in filters, which the key of the document stands for. \<open>retryDeadLetter\<close> of
  services/productionScaleOperations.service.js writes to items without the version and the fences that every other writer
  respects; the guarantees of the queue hold without it, and the manifest lists it as a finding. Of delegation: identifiers of
  database objects are strings; an invocation is stored under its grant and the hash of its idempotency key, which its unique
  index allows; the database removes references that have expired, which the model keeps, as no operation accepts them; purpose texts, actor
  names, request and trace identifiers and the back link of an approval request are left out; a flattened object is a copy, where the
  code shares it. Observers, audit
  records, metrics and logs are left out everywhere.

  \<^bold>\<open>Not modelled.\<close> The gateway, workers, HTTP routes and adapters, which sequence network calls around the modelled
  services; the transactions of the orchestration scheduler and of its recovery; the requests and decisions of approvals, the
  administration of policies and of data contracts with the validation of drafts; the commands of invocation control; evidence, credentials and
  encryption; reporting, release and commercial checklists; the packages of the wire protocol; the frontend. The first group
  has no state of its own beyond what is modelled; the others are separate programs over collections of their own, whose outcomes the
  modelled parts take as arguments.
\<close>

end
